(* ===== verification/WfsPrelude.thy ===== *)
theory WfsPrelude
  imports Main "HOL-Library.Word" "HOL-Library.Monad_Syntax"
begin

unbundle bit_operations_syntax

text \<open>
  Shared vocabulary of the development: the C integer types of the driver, pointers, the ways a
  kernel function can fail to return normally, and the lemmas on heap lists and arrays that
  the component theories share. Machine integers are words; a pointer is \<open>None\<close> (NULL) or the
  number of an object in the heap of its type.
\<close>

section \<open>C types\<close>

type_synonym u8 = "8 word"
type_synonym u16 = "16 word"
type_synonym u32 = "32 word"
type_synonym u64 = "64 word"
type_synonym ptr = "nat option"

named_theorems wfs_simps \<open>evaluation rules of the driver model\<close>
named_theorems heap_simps \<open>frame rules of the pointer heaps\<close>

section \<open>Faults\<close>

text \<open>
  A kernel function that executes \<open>BUG_ON\<close>, dereferences NULL, reads outside an array,
  divides by zero or loops forever does not return; the model returns the fault instead of a
  result. \<open>NoReturn\<close> is the failure of a callee modelled in the option monad: it follows a NULL
  or dangling tree pointer or never leaves its loop.
\<close>

datatype fault = BugOn | NullDeref | OutOfBounds | DivByZero | NoReturn

definition rbind :: "fault + 'a \<Rightarrow> ('a \<Rightarrow> fault + 'b) \<Rightarrow> fault + 'b" where
  "rbind m f = (case m of Inl e \<Rightarrow> Inl e | Inr x \<Rightarrow> f x)"

lemma rbind_Inl [simp]: "rbind (Inl e) f = Inl e"
  by (simp add: rbind_def)

lemma rbind_Inr [simp]: "rbind (Inr x) f = f x"
  by (simp add: rbind_def)

lemma rbind_eq_Inr: "rbind m f = Inr y \<longleftrightarrow> (\<exists>x. m = Inr x \<and> f x = Inr y)"
  by (cases m) auto

lemma rbind_eq_Inl: "rbind m f = Inl e \<longleftrightarrow> m = Inl e \<or> (\<exists>x. m = Inr x \<and> f x = Inl e)"
  by (cases m) auto

lemma rbind_assoc: "rbind (rbind m f) g = rbind m (\<lambda>x. rbind (f x) g)"
  by (cases m) auto

definition deref :: "ptr \<Rightarrow> fault + nat" where
  "deref p = (case p of None \<Rightarrow> Inl NullDeref | Some a \<Rightarrow> Inr a)"

lemma deref_simps [simp]: "deref None = Inl NullDeref" "deref (Some a) = Inr a"
  by (simp_all add: deref_def)

definition bug_on :: "bool \<Rightarrow> 'a \<Rightarrow> fault + 'a" where
  "bug_on b x = (if b then Inl BugOn else Inr x)"

lemma bug_on_simps [simp]: "bug_on True x = Inl BugOn" "bug_on False x = Inr x"
  by (simp_all add: bug_on_def)

text \<open>\<open>results P m\<close>: when \<open>m\<close> succeeds, its result satisfies \<open>P\<close>.\<close>

definition results :: "('a \<Rightarrow> bool) \<Rightarrow> fault + 'a \<Rightarrow> bool" where
  "results P m = (\<forall>r. m = Inr r \<longrightarrow> P r)"

lemma results_simps [simp]: "results P (Inl e)" "results P (Inr r) = P r"
  by (simp_all add: results_def)

lemma resultsD: "results P m \<Longrightarrow> m = Inr r \<Longrightarrow> P r"
  by (simp add: results_def)

lemma results_rbind: "(\<And>x. m = Inr x \<Longrightarrow> results P (f x)) \<Longrightarrow> results P (rbind m f)"
  by (auto simp: results_def rbind_def split: sum.splits)

lemma results_if: "(c \<Longrightarrow> results P a) \<Longrightarrow> (\<not> c \<Longrightarrow> results P b) \<Longrightarrow> results P (if c then a else b)"
  by simp

lemma results_option:
  "(x = None \<Longrightarrow> results P a) \<Longrightarrow> (\<And>y. x = Some y \<Longrightarrow> results P (f y)) \<Longrightarrow>
   results P (case x of None \<Rightarrow> a | Some y \<Rightarrow> f y)"
  by (cases x) auto

lemma results_prod: "(\<And>y z. x = (y, z) \<Longrightarrow> results P (f y z)) \<Longrightarrow> results P (case x of (y, z) \<Rightarrow> f y z)"
  by (cases x) auto

lemmas results_intros = results_rbind results_if results_option results_prod

text \<open>\<open>succeeds P m\<close>: \<open>m\<close> does succeed, with a result satisfying \<open>P\<close>.\<close>

definition succeeds :: "('a \<Rightarrow> bool) \<Rightarrow> fault + 'a \<Rightarrow> bool" where
  "succeeds P m = (case m of Inl e \<Rightarrow> False | Inr r \<Rightarrow> P r)"

lemma succeeds_iff: "succeeds P m \<longleftrightarrow> (\<exists>r. m = Inr r \<and> P r)"
  by (cases m) (auto simp: succeeds_def)

definition of_option :: "'a option \<Rightarrow> fault + 'a" where
  "of_option m = (case m of None \<Rightarrow> Inl NoReturn | Some x \<Rightarrow> Inr x)"

lemma of_option_simps [simp]: "of_option None = Inl NoReturn" "of_option (Some x) = Inr x"
  by (simp_all add: of_option_def)

section \<open>Singly linked lists in a heap\<close>

text \<open>
  \<open>list_at nx h p as\<close>: following the link field \<open>nx\<close> of the heap \<open>h\<close> from the pointer \<open>p\<close>
  visits exactly the objects \<open>as\<close> and ends in NULL. \<open>fifo_at\<close> is a list with a head and a tail
  pointer, the representation of every queue and free list of the driver.
\<close>

fun list_at :: "('n \<Rightarrow> ptr) \<Rightarrow> (nat \<Rightarrow> 'n) \<Rightarrow> ptr \<Rightarrow> nat list \<Rightarrow> bool" where
  "list_at nx h p [] = (p = None)"
| "list_at nx h p (a # as) = (p = Some a \<and> list_at nx h (nx (h a)) as)"

definition fifo_at :: "('n \<Rightarrow> ptr) \<Rightarrow> (nat \<Rightarrow> 'n) \<Rightarrow> ptr \<Rightarrow> ptr \<Rightarrow> nat list \<Rightarrow> bool" where
  "fifo_at nx h hd_p tl_p as \<longleftrightarrow> list_at nx h hd_p as \<and> distinct as \<and>
     tl_p = (if as = [] then None else Some (last as))"

lemma list_at_None [simp]: "list_at nx h None as \<longleftrightarrow> as = []"
  by (cases as) auto

lemma list_at_Some: "list_at nx h (Some a) as \<longleftrightarrow> (\<exists>bs. as = a # bs \<and> list_at nx h (nx (h a)) bs)"
  by (cases as) auto

lemma list_at_comp: "list_at nx h p as = list_at (\<lambda>a. nx (h a)) (\<lambda>a. a) p as"
  by (induction as arbitrary: p) auto

lemma list_at_unique: "list_at nx h p as \<Longrightarrow> list_at nx h p bs \<Longrightarrow> as = bs"
  by (induction as arbitrary: p bs) (auto simp: list_at_Some)

lemma list_at_upd [heap_simps]: "a \<notin> set as \<Longrightarrow> list_at nx (h(a := v)) p as = list_at nx h p as"
  by (induction as arbitrary: p) auto

lemma list_at_field_upd [heap_simps]:
  "nx v = nx (h a) \<Longrightarrow> list_at nx (h(a := v)) p as = list_at nx h p as"
  by (induction as arbitrary: p) auto

lemma list_at_snoc:
  assumes "list_at nx h p as" "distinct (as @ [a])" "as \<noteq> []"
    and "nx v = Some a" "nx w = None"
  shows "list_at nx (h(a := w, last as := v)) p (as @ [a])"
  using assms
proof (induction as arbitrary: p)
  case (Cons b bs)
  show ?case
  proof (cases "bs = []")
    case True
    with Cons.prems show ?thesis by auto
  next
    case False
    with Cons.prems have "last bs \<noteq> b" "a \<noteq> b" by auto
    with False Cons show ?thesis by auto
  qed
qed simp

lemma fifo_at_Nil [simp]: "fifo_at nx h hd_p tl_p [] \<longleftrightarrow> hd_p = None \<and> tl_p = None"
  by (auto simp: fifo_at_def)

lemma fifo_at_head_None: "fifo_at nx h None tl_p as \<longleftrightarrow> as = [] \<and> tl_p = None"
  by (auto simp: fifo_at_def)

lemma fifo_at_head_Some:
  "fifo_at nx h (Some a) tl_p as \<Longrightarrow>
     \<exists>bs. as = a # bs \<and> fifo_at nx h (nx (h a)) (if nx (h a) = None then None else tl_p) bs"
  by (cases as) (auto simp: fifo_at_def)

lemma fifo_at_upd [heap_simps]:
  "a \<notin> set as \<Longrightarrow> fifo_at nx (h(a := v)) hd_p tl_p as = fifo_at nx h hd_p tl_p as"
  by (simp add: fifo_at_def heap_simps)

lemma fifo_at_field_upd [heap_simps]:
  "nx v = nx (h a) \<Longrightarrow> fifo_at nx (h(a := v)) hd_p tl_p as = fifo_at nx h hd_p tl_p as"
  by (simp add: fifo_at_def heap_simps)

lemma fifo_at_snoc:
  assumes "fifo_at nx h hd_p tl_p as" "a \<notin> set as" "nx w = None"
  shows "tl_p = None \<Longrightarrow> fifo_at nx (h(a := w)) (Some a) (Some a) (as @ [a])"
    and "tl_p = Some t \<Longrightarrow> nx v = Some a \<Longrightarrow> fifo_at nx (h(a := w, t := v)) hd_p (Some a) (as @ [a])"
proof -
  assume "tl_p = None"
  with assms show "fifo_at nx (h(a := w)) (Some a) (Some a) (as @ [a])"
    by (auto simp: fifo_at_def split: if_splits)
next
  assume "tl_p = Some t" "nx v = Some a"
  with assms have "as \<noteq> []" "t = last as" by (auto simp: fifo_at_def split: if_splits)
  with assms \<open>nx v = Some a\<close> show "fifo_at nx (h(a := w, t := v)) hd_p (Some a) (as @ [a])"
    using list_at_snoc[of nx h hd_p as a v w] by (auto simp: fifo_at_def)
qed

section \<open>Bytes\<close>

text \<open>
  Buffers are byte lists. A multi-byte field is stored least significant byte first on the
  x86 hosts the driver is built for; \<open>htonl\<close> and \<open>htons\<close> reverse the bytes.
\<close>

definition byte_of :: "nat \<Rightarrow> 'a::len word \<Rightarrow> u8" where
  "byte_of i w = ucast (drop_bit (8 * i) w)"

definition le16 :: "u16 \<Rightarrow> u8 list" where
  "le16 w = [byte_of 0 w, byte_of 1 w]"

definition le32 :: "u32 \<Rightarrow> u8 list" where
  "le32 w = [byte_of 0 w, byte_of 1 w, byte_of 2 w, byte_of 3 w]"

definition le64 :: "u64 \<Rightarrow> u8 list" where
  "le64 w = map (\<lambda>i. byte_of i w) [0..<8]"

definition be32 :: "u32 \<Rightarrow> u8 list" where
  "be32 w = rev (le32 w)"

fun of_le :: "u8 list \<Rightarrow> 'a::len word" where
  "of_le [] = 0"
| "of_le (b # bs) = ucast b OR push_bit 8 (of_le bs)"

definition htonl :: "u32 \<Rightarrow> u32" where
  "htonl w = of_le (be32 w)"

definition write_bytes :: "nat \<Rightarrow> u8 list \<Rightarrow> u8 list \<Rightarrow> u8 list" where
  "write_bytes off src buf = take off buf @ src @ drop (off + length src) buf"

definition read_bytes :: "nat \<Rightarrow> nat \<Rightarrow> u8 list \<Rightarrow> u8 list" where
  "read_bytes off n buf = take n (drop off buf)"

lemma length_le [simp]:
  "length (le16 w) = 2" "length (le32 v) = 4" "length (be32 v) = 4" "length (le64 x) = 8"
  by (simp_all add: le16_def le32_def be32_def le64_def)

lemma of_le_le16 [simp]: "of_le (le16 w) = w"
  by (rule bit_word_eqI)
    (auto simp: le16_def byte_of_def bit_or_iff bit_ucast_iff bit_push_bit_iff bit_drop_bit_eq)

lemma of_le_le32 [simp]: "of_le (le32 w) = w"
proof (rule bit_word_eqI)
  fix n assume "n < LENGTH(32)"
  then consider "n < 8" | "8 \<le> n" "n < 16" | "16 \<le> n" "n < 24" | "24 \<le> n" "n < 32" by fastforce
  then show "bit (of_le (le32 w) :: u32) n = bit w n"
    by cases (auto simp: le32_def byte_of_def bit_or_iff bit_ucast_iff bit_push_bit_iff bit_drop_bit_eq)
qed

lemma byte_of_of_le:
  "byte_of 0 (of_le [a, b, c, d] :: u32) = a" "byte_of 1 (of_le [a, b, c, d] :: u32) = b"
  "byte_of 2 (of_le [a, b, c, d] :: u32) = c" "byte_of 3 (of_le [a, b, c, d] :: u32) = d"
proof -
  have bits: "\<not> bit (x :: u8) n" if "8 \<le> n" for x n
    using that by (simp add: bit_word.rep_eq bit_take_bit_iff not_less)
  show "byte_of 0 (of_le [a, b, c, d] :: u32) = a" "byte_of 1 (of_le [a, b, c, d] :: u32) = b"
    "byte_of 2 (of_le [a, b, c, d] :: u32) = c" "byte_of 3 (of_le [a, b, c, d] :: u32) = d"
    by (rule bit_word_eqI, simp add: byte_of_def bit_or_iff bit_ucast_iff bit_push_bit_iff
        bit_drop_bit_eq bits)+
qed

lemma le32_htonl: "le32 (htonl w) = be32 w"
  by (simp only: htonl_def be32_def le32_def rev.simps append.simps byte_of_of_le)

lemma htonl_htonl [simp]: "htonl (htonl w) = w"
proof -
  have "htonl (htonl w) = of_le (rev (le32 (htonl w)))" by (simp add: htonl_def be32_def)
  also have "\<dots> = of_le (rev (be32 w))" by (simp only: le32_htonl)
  finally show ?thesis by (simp add: be32_def)
qed

lemma length_write_bytes [simp]:
  "off + length src \<le> length buf \<Longrightarrow> length (write_bytes off src buf) = length buf"
  by (simp add: write_bytes_def)

lemma nth_write_bytes:
  "off + length src \<le> length buf \<Longrightarrow> i < length buf \<Longrightarrow>
   write_bytes off src buf ! i = (if off \<le> i \<and> i < off + length src then src ! (i - off) else buf ! i)"
  by (auto simp: write_bytes_def nth_append min_def)

lemma read_write_bytes [simp]:
  "off + length src \<le> length buf \<Longrightarrow> n = length src \<Longrightarrow> read_bytes off n (write_bytes off src buf) = src"
  by (simp add: read_bytes_def write_bytes_def)

end
