(* ===== verification/RbTree.thy ===== *)
theory RbTree
  imports WfsPrelude
begin

text \<open>
  The red-black tree of \<open>rbtree.c\<close> as it is written: nodes in a heap with parent, left and
  right pointers, updated in place. The word \<open>rb_parent_color\<close> that packs the parent pointer
  and the colour bit is two record fields. An operation that dereferences NULL or whose loop
  does not end has the result \<open>None\<close>.
\<close>

section \<open>Nodes and roots\<close>

datatype rb_color = RB_RED | RB_BLACK

record rb_node =
  rb_parent :: ptr
  rb_color :: rb_color
  rb_right :: ptr
  rb_left :: ptr

type_synonym rb_heap = "nat \<Rightarrow> rb_node"

record rb_state =
  rbh :: rb_heap
  rb_root :: ptr

text \<open>The slot \<open>rb_link\<close> that \<open>rb_link_node\<close> fills: the root or a child field of a node.\<close>

datatype rb_link = Link_root | Link_left nat | Link_right nat

definition rb_set_parent :: "nat \<Rightarrow> ptr \<Rightarrow> rb_heap \<Rightarrow> rb_heap" where
  "rb_set_parent a p h = h(a := (h a)\<lparr>rb_parent := p\<rparr>)"

definition rb_set_color :: "nat \<Rightarrow> rb_color \<Rightarrow> rb_heap \<Rightarrow> rb_heap" where
  "rb_set_color a c h = h(a := (h a)\<lparr>rb_color := c\<rparr>)"

definition rb_set_left :: "nat \<Rightarrow> ptr \<Rightarrow> rb_heap \<Rightarrow> rb_heap" where
  "rb_set_left a p h = h(a := (h a)\<lparr>rb_left := p\<rparr>)"

definition rb_set_right :: "nat \<Rightarrow> ptr \<Rightarrow> rb_heap \<Rightarrow> rb_heap" where
  "rb_set_right a p h = h(a := (h a)\<lparr>rb_right := p\<rparr>)"

definition on_heap :: "(rb_heap \<Rightarrow> rb_heap) \<Rightarrow> rb_state \<Rightarrow> rb_state" where
  "on_heap f s = s\<lparr>rbh := f (rbh s)\<rparr>"

definition rb_is_red :: "rb_state \<Rightarrow> nat \<Rightarrow> bool" where
  "rb_is_red s a \<longleftrightarrow> rb_color (rbh s a) = RB_RED"

text \<open>\<open>!p || rb_is_black(p)\<close>: no NULL dereference.\<close>

definition null_or_black :: "rb_state \<Rightarrow> ptr \<Rightarrow> bool" where
  "null_or_black s p = (case p of None \<Rightarrow> True | Some a \<Rightarrow> \<not> rb_is_red s a)"

definition rb_set_parent_if :: "ptr \<Rightarrow> ptr \<Rightarrow> rb_heap \<Rightarrow> rb_heap" where
  "rb_set_parent_if q p h = (case q of None \<Rightarrow> h | Some a \<Rightarrow> rb_set_parent a p h)"

definition rb_link_node :: "nat \<Rightarrow> ptr \<Rightarrow> rb_link \<Rightarrow> rb_state \<Rightarrow> rb_state" where
  "rb_link_node node parent link s =
     (let s1 = on_heap (\<lambda>h. h(node := \<lparr>rb_parent = parent, rb_color = RB_RED,
                                   rb_right = None, rb_left = None\<rparr>)) s
      in case link of
           Link_root \<Rightarrow> s1\<lparr>rb_root := Some node\<rparr>
         | Link_left p \<Rightarrow> on_heap (rb_set_left p (Some node)) s1
         | Link_right p \<Rightarrow> on_heap (rb_set_right p (Some node)) s1)"

section \<open>Rotations\<close>

definition rb_rotate_left :: "nat \<Rightarrow> rb_state \<Rightarrow> rb_state option" where
  "rb_rotate_left node s =
     do { right \<leftarrow> rb_right (rbh s node);
          let parent = rb_parent (rbh s node);
          let h1 = rb_set_right node (rb_left (rbh s right)) (rbh s);
          let h2 = rb_set_parent_if (rb_left (rbh s right)) (Some node) h1;
          let h3 = rb_set_left right (Some node) h2;
          let h4 = rb_set_parent right parent h3;
          let s5 = (case parent of
                      Some p \<Rightarrow> if Some node = rb_left (h4 p)
                                then s\<lparr>rbh := rb_set_left p (Some right) h4\<rparr>
                                else s\<lparr>rbh := rb_set_right p (Some right) h4\<rparr>
                    | None \<Rightarrow> s\<lparr>rbh := h4, rb_root := Some right\<rparr>);
          Some (on_heap (rb_set_parent node (Some right)) s5) }"

definition rb_rotate_right :: "nat \<Rightarrow> rb_state \<Rightarrow> rb_state option" where
  "rb_rotate_right node s =
     do { left \<leftarrow> rb_left (rbh s node);
          let parent = rb_parent (rbh s node);
          let h1 = rb_set_left node (rb_right (rbh s left)) (rbh s);
          let h2 = rb_set_parent_if (rb_right (rbh s left)) (Some node) h1;
          let h3 = rb_set_right left (Some node) h2;
          let h4 = rb_set_parent left parent h3;
          let s5 = (case parent of
                      Some p \<Rightarrow> if Some node = rb_right (h4 p)
                                then s\<lparr>rbh := rb_set_right p (Some left) h4\<rparr>
                                else s\<lparr>rbh := rb_set_left p (Some left) h4\<rparr>
                    | None \<Rightarrow> s\<lparr>rbh := h4, rb_root := Some left\<rparr>);
          Some (on_heap (rb_set_parent node (Some left)) s5) }"

section \<open>Insertion\<close>

text \<open>
  \<open>rb_insert_color\<close>: while the parent is red, recolour and move up to the grandparent when the
  uncle is red, otherwise rotate. The two halves of the C loop body are mirror images.
\<close>

partial_function (option) rb_insert_color_loop :: "nat \<Rightarrow> rb_state \<Rightarrow> rb_state option" where
  "rb_insert_color_loop node s =
     (case rb_parent (rbh s node) of
        None \<Rightarrow> Some s
      | Some parent \<Rightarrow>
        (if \<not> rb_is_red s parent then Some s
         else do { gparent \<leftarrow> rb_parent (rbh s parent);
           if Some parent = rb_left (rbh s gparent) then
             (let uncle = rb_right (rbh s gparent) in
              if \<not> null_or_black s uncle then
                rb_insert_color_loop gparent
                  (on_heap (rb_set_color gparent RB_RED \<circ> rb_set_color parent RB_BLACK \<circ>
                            rb_set_color (the uncle) RB_BLACK) s)
              else do {
                (parent', node', s1) \<leftarrow>
                  (if rb_right (rbh s parent) = Some node
                   then do { s1 \<leftarrow> rb_rotate_left parent s; Some (node, parent, s1) }
                   else Some (parent, node, s));
                s2 \<leftarrow> rb_rotate_right gparent
                  (on_heap (rb_set_color gparent RB_RED \<circ> rb_set_color parent' RB_BLACK) s1);
                rb_insert_color_loop node' s2 })
           else
             (let uncle = rb_left (rbh s gparent) in
              if \<not> null_or_black s uncle then
                rb_insert_color_loop gparent
                  (on_heap (rb_set_color gparent RB_RED \<circ> rb_set_color parent RB_BLACK \<circ>
                            rb_set_color (the uncle) RB_BLACK) s)
              else do {
                (parent', node', s1) \<leftarrow>
                  (if rb_left (rbh s parent) = Some node
                   then do { s1 \<leftarrow> rb_rotate_right parent s; Some (node, parent, s1) }
                   else Some (parent, node, s));
                s2 \<leftarrow> rb_rotate_left gparent
                  (on_heap (rb_set_color gparent RB_RED \<circ> rb_set_color parent' RB_BLACK) s1);
                rb_insert_color_loop node' s2 }) }))"

declare rb_insert_color_loop.simps [code]

definition rb_insert_color :: "nat \<Rightarrow> rb_state \<Rightarrow> rb_state option" where
  "rb_insert_color node s =
     do { s1 \<leftarrow> rb_insert_color_loop node s;
          r \<leftarrow> rb_root s1;
          Some (on_heap (rb_set_color r RB_BLACK) s1) }"

section \<open>Removal\<close>

text \<open>
  The body of the loop of \<open>__rb_erase_color\<close> for a node that is the left child of its parent
  (\<open>rb_erase_left\<close>) and for a right child (\<open>rb_erase_right\<close>). The result tells whether the loop
  ends with \<open>break\<close> and gives the new \<open>node\<close>, \<open>parent\<close> and heap.
\<close>

definition rb_erase_left :: "nat \<Rightarrow> rb_state \<Rightarrow> (bool \<times> ptr \<times> ptr \<times> rb_state) option" where
  "rb_erase_left parent s0 =
     do { other0 \<leftarrow> rb_right (rbh s0 parent);
          (other, s) \<leftarrow>
            (if rb_is_red s0 other0 then
               do { s1 \<leftarrow> rb_rotate_left parent
                      (on_heap (rb_set_color parent RB_RED \<circ> rb_set_color other0 RB_BLACK) s0);
                    other1 \<leftarrow> rb_right (rbh s1 parent);
                    Some (other1, s1) }
             else Some (other0, s0));
          if null_or_black s (rb_left (rbh s other)) \<and> null_or_black s (rb_right (rbh s other)) then
            (let s2 = on_heap (rb_set_color other RB_RED) s
             in Some (False, Some parent, rb_parent (rbh s2 parent), s2))
          else
            do { (other', s3) \<leftarrow>
                   (if null_or_black s (rb_right (rbh s other)) then
                      do { let s1 = (case rb_left (rbh s other) of
                                       None \<Rightarrow> s
                                     | Some o_left \<Rightarrow> on_heap (rb_set_color o_left RB_BLACK) s);
                           s2 \<leftarrow> rb_rotate_right other (on_heap (rb_set_color other RB_RED) s1);
                           other1 \<leftarrow> rb_right (rbh s2 parent);
                           Some (other1, s2) }
                    else Some (other, s));
                 let s4 = on_heap (rb_set_color other' (rb_color (rbh s3 parent))) s3;
                 let s5 = on_heap (rb_set_color parent RB_BLACK) s4;
                 let s6 = (case rb_right (rbh s5 other') of
                             None \<Rightarrow> s5
                           | Some r \<Rightarrow> on_heap (rb_set_color r RB_BLACK) s5);
                 s7 \<leftarrow> rb_rotate_left parent s6;
                 Some (True, rb_root s7, Some parent, s7) } }"

definition rb_erase_right :: "nat \<Rightarrow> rb_state \<Rightarrow> (bool \<times> ptr \<times> ptr \<times> rb_state) option" where
  "rb_erase_right parent s0 =
     do { other0 \<leftarrow> rb_left (rbh s0 parent);
          (other, s) \<leftarrow>
            (if rb_is_red s0 other0 then
               do { s1 \<leftarrow> rb_rotate_right parent
                      (on_heap (rb_set_color parent RB_RED \<circ> rb_set_color other0 RB_BLACK) s0);
                    other1 \<leftarrow> rb_left (rbh s1 parent);
                    Some (other1, s1) }
             else Some (other0, s0));
          if null_or_black s (rb_left (rbh s other)) \<and> null_or_black s (rb_right (rbh s other)) then
            (let s2 = on_heap (rb_set_color other RB_RED) s
             in Some (False, Some parent, rb_parent (rbh s2 parent), s2))
          else
            do { (other', s3) \<leftarrow>
                   (if null_or_black s (rb_left (rbh s other)) then
                      do { let s1 = (case rb_right (rbh s other) of
                                       None \<Rightarrow> s
                                     | Some o_right \<Rightarrow> on_heap (rb_set_color o_right RB_BLACK) s);
                           s2 \<leftarrow> rb_rotate_left other (on_heap (rb_set_color other RB_RED) s1);
                           other1 \<leftarrow> rb_left (rbh s2 parent);
                           Some (other1, s2) }
                    else Some (other, s));
                 let s4 = on_heap (rb_set_color other' (rb_color (rbh s3 parent))) s3;
                 let s5 = on_heap (rb_set_color parent RB_BLACK) s4;
                 let s6 = (case rb_left (rbh s5 other') of
                             None \<Rightarrow> s5
                           | Some l \<Rightarrow> on_heap (rb_set_color l RB_BLACK) s5);
                 s7 \<leftarrow> rb_rotate_right parent s6;
                 Some (True, rb_root s7, Some parent, s7) } }"

partial_function (option) rb_erase_color_loop ::
  "ptr \<Rightarrow> ptr \<Rightarrow> rb_state \<Rightarrow> (ptr \<times> rb_state) option" where
  "rb_erase_color_loop node parent s =
     (if null_or_black s node \<and> node \<noteq> rb_root s then
        do { p \<leftarrow> parent;
             (stop, node', parent', s') \<leftarrow>
               (if rb_left (rbh s p) = node then rb_erase_left p s else rb_erase_right p s);
             if stop then Some (node', s') else rb_erase_color_loop node' parent' s' }
      else Some (node, s))"

declare rb_erase_color_loop.simps [code]

definition rb_erase_color :: "ptr \<Rightarrow> ptr \<Rightarrow> rb_state \<Rightarrow> rb_state option" where
  "rb_erase_color node parent s =
     do { (node', s') \<leftarrow> rb_erase_color_loop node parent s;
          Some (case node' of None \<Rightarrow> s' | Some a \<Rightarrow> on_heap (rb_set_color a RB_BLACK) s') }"

text \<open>The descents of \<open>rb_first\<close>, \<open>rb_last\<close>, \<open>rb_next\<close> and \<open>rb_erase\<close>.\<close>

partial_function (option) rb_leftmost :: "nat \<Rightarrow> rb_state \<Rightarrow> nat option" where
  "rb_leftmost n s = (case rb_left (rbh s n) of None \<Rightarrow> Some n | Some l \<Rightarrow> rb_leftmost l s)"

declare rb_leftmost.simps [code]

partial_function (option) rb_rightmost :: "nat \<Rightarrow> rb_state \<Rightarrow> nat option" where
  "rb_rightmost n s = (case rb_right (rbh s n) of None \<Rightarrow> Some n | Some r \<Rightarrow> rb_rightmost r s)"

declare rb_rightmost.simps [code]

definition rb_erase :: "nat \<Rightarrow> rb_state \<Rightarrow> rb_state option" where
  "rb_erase node s =
     (if rb_left (rbh s node) \<noteq> None \<and> rb_right (rbh s node) \<noteq> None then
        do { let old = node;
             r \<leftarrow> rb_right (rbh s old);
             succ \<leftarrow> rb_leftmost r s;
             let child = rb_right (rbh s succ);
             par \<leftarrow> rb_parent (rbh s succ);
             let color = rb_color (rbh s succ);
             let h1 = rb_set_parent_if child (Some par) (rbh s);
             let (h2, parent) = (if par = old then (rb_set_right par child h1, succ)
                                 else (rb_set_left par child h1, par));
             let h3 = h2(succ := (h2 succ)\<lparr>rb_parent := rb_parent (h2 old), rb_color := rb_color (h2 old),
                                           rb_right := rb_right (h2 old), rb_left := rb_left (h2 old)\<rparr>);
             let s4 = (case rb_parent (h3 old) of
                         Some p \<Rightarrow> if rb_left (h3 p) = Some old
                                   then s\<lparr>rbh := rb_set_left p (Some succ) h3\<rparr>
                                   else s\<lparr>rbh := rb_set_right p (Some succ) h3\<rparr>
                       | None \<Rightarrow> s\<lparr>rbh := h3, rb_root := Some succ\<rparr>);
             l \<leftarrow> rb_left (rbh s4 old);
             let s5 = on_heap (rb_set_parent l (Some succ)) s4;
             let s6 = on_heap (rb_set_parent_if (rb_right (rbh s5 old)) (Some succ)) s5;
             if color = RB_BLACK then rb_erase_color child (Some parent) s6 else Some s6 }
      else
        (let child = (if rb_left (rbh s node) = None then rb_right (rbh s node)
                      else rb_left (rbh s node));
             parent = rb_parent (rbh s node);
             color = rb_color (rbh s node);
             h1 = rb_set_parent_if child parent (rbh s);
             s2 = (case parent of
                     Some p \<Rightarrow> if rb_left (h1 p) = Some node
                               then s\<lparr>rbh := rb_set_left p child h1\<rparr>
                               else s\<lparr>rbh := rb_set_right p child h1\<rparr>
                   | None \<Rightarrow> s\<lparr>rbh := h1, rb_root := child\<rparr>)
         in if color = RB_BLACK then rb_erase_color child parent s2 else Some s2))"

section \<open>Traversal and replacement\<close>

definition rb_first :: "rb_state \<Rightarrow> ptr option" where
  "rb_first s = (case rb_root s of None \<Rightarrow> Some None | Some n \<Rightarrow> map_option Some (rb_leftmost n s))"

definition rb_last :: "rb_state \<Rightarrow> ptr option" where
  "rb_last s = (case rb_root s of None \<Rightarrow> Some None | Some n \<Rightarrow> map_option Some (rb_rightmost n s))"

partial_function (option) rb_next_up :: "nat \<Rightarrow> rb_state \<Rightarrow> ptr option" where
  "rb_next_up node s =
     (case rb_parent (rbh s node) of
        None \<Rightarrow> Some None
      | Some parent \<Rightarrow> if rb_right (rbh s parent) = Some node then rb_next_up parent s
                       else Some (Some parent))"

declare rb_next_up.simps [code]

definition rb_next :: "nat \<Rightarrow> rb_state \<Rightarrow> ptr option" where
  "rb_next node s =
     (case rb_right (rbh s node) of
        Some r \<Rightarrow> map_option Some (rb_leftmost r s)
      | None \<Rightarrow> rb_next_up node s)"

partial_function (option) rb_prev_up :: "nat \<Rightarrow> rb_state \<Rightarrow> ptr option" where
  "rb_prev_up node s =
     (case rb_parent (rbh s node) of
        None \<Rightarrow> Some None
      | Some parent \<Rightarrow> if rb_left (rbh s parent) = Some node then rb_prev_up parent s
                       else Some (Some parent))"

declare rb_prev_up.simps [code]

definition rb_prev :: "nat \<Rightarrow> rb_state \<Rightarrow> ptr option" where
  "rb_prev node s =
     (case rb_left (rbh s node) of
        Some l \<Rightarrow> map_option Some (rb_rightmost l s)
      | None \<Rightarrow> rb_prev_up node s)"

definition rb_replace_node :: "nat \<Rightarrow> nat \<Rightarrow> rb_state \<Rightarrow> rb_state" where
  "rb_replace_node victim new s =
     (let s1 = (case rb_parent (rbh s victim) of
                  Some p \<Rightarrow> if rb_left (rbh s p) = Some victim
                            then on_heap (rb_set_left p (Some new)) s
                            else on_heap (rb_set_right p (Some new)) s
                | None \<Rightarrow> s\<lparr>rb_root := Some new\<rparr>);
          s2 = on_heap (rb_set_parent_if (rb_left (rbh s1 victim)) (Some new)) s1;
          s3 = on_heap (rb_set_parent_if (rb_right (rbh s2 victim)) (Some new)) s2
      in on_heap (\<lambda>h. h(new := h victim)) s3)"

end
