(* ===== verification/WfsPool.thy ===== *)
theory WfsPool
  imports WfsPrelude
begin

text \<open>
  The object pools of the driver. The event buffers of the state machine and the nodes of the
  forwarding table are managed in the same way: a free list with head and tail, a list of
  everything ever allocated, \<open>kmalloc\<close> up to a maximum when the free list is empty. The
  locale \<open>free_pool\<close> is the interface both provide and proves what the clients rely on.
\<close>

section \<open>Filling and emptying a pool\<close>

fun pool_get_n :: "('s \<Rightarrow> ptr \<times> 's) \<Rightarrow> nat \<Rightarrow> 's \<Rightarrow> bool \<times> 's" where
  "pool_get_n get 0 s = (True, s)"
| "pool_get_n get (Suc i) s =
     (case get s of (None, s') \<Rightarrow> (False, s') | (Some _, s') \<Rightarrow> pool_get_n get i s')"

partial_function (option) pool_put_all ::
  "('s \<Rightarrow> nat \<Rightarrow> ptr) \<Rightarrow> (nat \<Rightarrow> 's \<Rightarrow> 's option) \<Rightarrow> ptr \<Rightarrow> 's \<Rightarrow> 's option" where
  "pool_put_all nx put p s =
     (if p = None then Some s
      else do { s' \<leftarrow> put (the p) s; pool_put_all nx put (nx s' (the p)) s' })"

declare pool_put_all.simps [code]

partial_function (option) pool_walk :: "(nat \<Rightarrow> ptr) \<Rightarrow> ptr \<Rightarrow> nat list option" where
  "pool_walk nx p =
     (if p = None then Some []
      else do { r \<leftarrow> pool_walk nx (nx (the p)); Some (the p # r) })"

declare pool_walk.simps [code]

lemma pool_walk_list_at: "list_at nx h p as \<Longrightarrow> pool_walk (\<lambda>a. nx (h a)) p = Some as"
  by (induction as arbitrary: p) (auto simp: pool_walk.simps)

text \<open>
  The answers of \<open>kmalloc\<close> are addresses of new objects: none is in use and no two are equal.
\<close>

definition fresh_supply :: "(nat \<Rightarrow> ptr) \<Rightarrow> nat list \<Rightarrow> bool" where
  "fresh_supply km al \<longleftrightarrow>
     (\<forall>i a. km i = Some a \<longrightarrow> a \<notin> set al) \<and> (\<forall>i j a. km i = Some a \<longrightarrow> km j = Some a \<longrightarrow> i = j)"

lemma fresh_supply_Suc:
  "fresh_supply km al \<Longrightarrow> fresh_supply (km \<circ> Suc) al"
  "fresh_supply km al \<Longrightarrow> km 0 = Some a \<Longrightarrow> fresh_supply (km \<circ> Suc) (a # al)"
  unfolding fresh_supply_def comp_def by (simp_all, blast, metis nat.distinct(1) nat.inject)

lemma fresh_supplyD: "fresh_supply km al \<Longrightarrow> km i = Some a \<Longrightarrow> a \<notin> set al"
  unfolding fresh_supply_def by blast

section \<open>The interface\<close>

text \<open>
  \<open>pool s fr al\<close>: the free list of \<open>s\<close> is \<open>fr\<close> and the objects allocated so far are \<open>al\<close>. \<open>put\<close>
  appends a used object to the free list; \<open>get\<close> takes the head, or grows the pool.
\<close>

locale free_pool =
  fixes pool :: "'s \<Rightarrow> nat list \<Rightarrow> nat list \<Rightarrow> bool"
    and put :: "nat \<Rightarrow> 's \<Rightarrow> 's option"
    and get :: "'s \<Rightarrow> ptr \<times> 's"
    and chain :: "'s \<Rightarrow> nat \<Rightarrow> ptr"
    and first :: "'s \<Rightarrow> ptr"
    and cap :: nat
  assumes pool_wf: "pool s fr al \<Longrightarrow> distinct al \<and> distinct fr \<and> set fr \<subseteq> set al \<and> length al \<le> cap"
    and pool_chain: "pool s fr al \<Longrightarrow> list_at (chain s) (\<lambda>a. a) (first s) al"
    and put_pool: "pool s fr al \<Longrightarrow> a \<in> set al \<Longrightarrow> a \<notin> set fr \<Longrightarrow>
          \<exists>s'. put a s = Some s' \<and> pool s' (fr @ [a]) al"
    and put_chain: "put a s = Some s' \<Longrightarrow> chain s' b = chain s b"
    and get_head: "pool s (a # fr) al \<Longrightarrow> \<exists>s'. get s = (Some a, s') \<and> pool s' fr al"
    and get_new: "pool s [] al \<Longrightarrow> get s = (Some a, s') \<Longrightarrow>
          a \<notin> set al \<and> length al < cap \<and> pool s' [] (a # al)"
    and get_none: "pool s fr al \<Longrightarrow> get s = (None, s') \<Longrightarrow> pool s' fr al \<and> fr = []"
begin

lemma get_used:
  assumes "pool s fr al" "get s = (Some a, s')"
  obtains fr' al' where "pool s' fr' al'" "a \<in> set al'" "a \<notin> set fr'" "set al \<subseteq> set al'"
    "set al' = insert a (set al)" "set fr' = set fr - {a}" "a \<notin> set al - set fr"
proof (cases fr)
  case Nil
  with assms get_new[of s al a s'] have "a \<notin> set al" "pool s' [] (a # al)" by auto
  with Nil show ?thesis by (intro that[of "[]" "a # al"]) auto
next
  case (Cons b fr')
  with assms get_head[of s b fr' al] have [simp]: "b = a" and *: "pool s' fr' al" by auto
  from assms(1) pool_wf Cons have "a \<in> set al" "a \<notin> set fr'" by fastforce+
  with * Cons show ?thesis by (intro that[of fr' al]) auto
qed

lemma get_not_none: "pool s fr al \<Longrightarrow> fr \<noteq> [] \<Longrightarrow> \<exists>a s'. get s = (Some a, s')"
  by (cases fr) (auto dest: get_head)

text \<open>An object that is put back is available again, behind the ones freed before it.\<close>

lemma put_get:
  assumes "pool s fr al" "a \<in> set al" "a \<notin> set fr"
  shows "\<exists>s' b s''. put a s = Some s' \<and> get s' = (Some b, s'') \<and> b = hd (fr @ [a]) \<and>
           pool s'' (tl (fr @ [a])) al"
proof -
  from put_pool[OF assms] obtain s' where s': "put a s = Some s'" "pool s' (fr @ [a]) al" by blast
  obtain b r where br: "fr @ [a] = b # r" by (cases "fr @ [a]") auto
  from get_head[of s' b r al] s'(2) br obtain s'' where "get s' = (Some b, s'')" "pool s'' r al" by auto
  with s' br show ?thesis by auto
qed

lemma get_n_pool:
  assumes "pool s [] al" "pool_get_n get n s = (b, s')"
  shows "\<exists>al'. pool s' [] (al' @ al) \<and> (if b then length al' = n else length al' < n)"
  using assms
proof (induction n arbitrary: s al)
  case (Suc n)
  obtain p s1 where g: "get s = (p, s1)" by (cases "get s")
  show ?case
  proof (cases p)
    case None
    with Suc.prems g get_none[of s "[]" al s1] show ?thesis by (intro exI[of _ "[]"]) auto
  next
    case (Some a)
    with Suc.prems g get_new[of s al a s1] have "pool s1 [] (a # al)" by auto
    from Suc.IH[OF this] Suc.prems g Some obtain al' where
      "pool s' [] (al' @ a # al)" "if b then length al' = n else length al' < n" by auto
    then show ?thesis by (intro exI[of _ "al' @ [a]"]) (auto split: if_splits)
  qed
qed auto

lemma put_all_pool:
  assumes "pool s fr al" "list_at (chain s) (\<lambda>a. a) p as" "distinct as" "set as \<subseteq> set al" "set as \<inter> set fr = {}"
  shows "\<exists>s'. pool_put_all chain put p s = Some s' \<and> pool s' (fr @ as) al"
  using assms
proof (induction as arbitrary: p s fr)
  case (Cons a as)
  then have "a \<in> set al" "a \<notin> set fr" and p: "p = Some a" by auto
  from put_pool[OF Cons.prems(1) this(1,2)] obtain s1 where s1: "put a s = Some s1" "pool s1 (fr @ [a]) al"
    by blast
  have c: "chain s1 = chain s" using put_chain[OF s1(1)] by auto
  from Cons.prems c have "list_at (chain s1) (\<lambda>a. a) (chain s1 a) as" by auto
  from Cons.IH[OF s1(2) this] Cons.prems obtain s' where
    "pool_put_all chain put (chain s1 a) s1 = Some s'" "pool s' ((fr @ [a]) @ as) al" by auto
  with p s1 show ?case by (subst pool_put_all.simps) auto
qed (auto simp: pool_put_all.simps)

text \<open>
  The initialisation of a pool: \<open>n\<close> successful allocations and freeing the whole allocation
  list leave a pool of \<open>n\<close> free objects.
\<close>

lemma fill_pool:
  assumes "pool s [] []" "pool_get_n get n s = (True, s')"
  shows "\<exists>s'' al. pool_put_all chain put (first s') s' = Some s'' \<and> pool s'' al al \<and> length al = n"
proof -
  from get_n_pool[OF assms(1,2)] obtain al where al: "pool s' [] al" "length al = n" by auto
  from put_all_pool[OF al(1) pool_chain[OF al(1)]] pool_wf[OF al(1)] al(2)
  show ?thesis by auto
qed

end

end
