(* ===== verification/WfsFib.thy ===== *)
theory WfsFib
  imports RbTree WfsPool
begin

text \<open>
  The forwarding table of \<open>ixgbe_wfs_fib.c\<close>: a red-black tree from (VLAN id, MAC) to the
  workstation a station sits behind, with a free list of nodes and an ageing timer. A
  \<open>fib_node\<close> and the \<open>rb_node\<close> embedded at its start have the same address, so \<open>container_of\<close>
  is the identity on addresses.
\<close>

section \<open>Data\<close>

record fib_key =
  key_vid :: u16
  key_mac :: "u8 list"

record fib_node =
  next_alloc :: ptr
  next_free :: ptr
  key :: fib_key
  fn_ip :: u32
  fn_wfsid :: u8
  time_tag :: u8

text \<open>
  The FIB fields of \<open>struct ixgbe_wfs_adapter\<close>, the two heaps they point into and what the
  functions take from outside: \<open>fib_kmalloc i\<close> is the answer of the kernel to the \<open>i\<close>-th next
  \<open>kmalloc\<close> of a node, and \<open>fib_stack i\<close> is what the stack slot of the local variable \<open>key\<close> of
  \<open>my_search\<close> holds at its \<open>i\<close>-th next call (the variable is never assigned).
\<close>

record fib_state =
  fib_rb :: rb_state
  fib_heap :: "nat \<Rightarrow> fib_node"
  fibns :: ptr
  fibn_head :: ptr
  fibn_tail :: ptr
  fib_timer_pending :: bool
  fib_timer_expires :: u64
  current_time_tag :: u8
  fib_alloc_size :: u32
  fib_size :: u32
  fib_kmalloc :: "nat \<Rightarrow> ptr"
  fib_stack :: "nat \<Rightarrow> fib_key"

abbreviation WFSID_MIN :: nat where "WFSID_MIN \<equiv> 1"
abbreviation WFSID_MAX :: nat where "WFSID_MAX \<equiv> 8"
abbreviation WFSID_BAD :: u8 where "WFSID_BAD \<equiv> 0xFE"
abbreviation WFSID_ALL :: u8 where "WFSID_ALL \<equiv> 0xFF"
abbreviation HZ :: nat where "HZ \<equiv> 100"
abbreviation FIB_SIZE_MAX :: nat where "FIB_SIZE_MAX \<equiv> 4096"
abbreviation FIB_SIZE_MIN :: nat where "FIB_SIZE_MIN \<equiv> 256"
abbreviation FIB_TIMEOUT :: u64 where "FIB_TIMEOUT \<equiv> 300 * of_nat HZ"

section \<open>Keys\<close>

text \<open>The sign of \<open>memcmp\<close> on equally long byte arrays.\<close>

fun memcmp :: "u8 list \<Rightarrow> u8 list \<Rightarrow> int" where
  "memcmp (a # as) (b # bs) = (if a < b then - 1 else if b < a then 1 else memcmp as bs)"
| "memcmp _ _ = 0"

definition keycmp :: "fib_key \<Rightarrow> fib_key \<Rightarrow> int" where
  "keycmp key1 key2 =
     (if key_vid key1 < key_vid key2 then - 1
      else if key_vid key1 > key_vid key2 then 1
      else memcmp (key_mac key1) (key_mac key2))"

section \<open>Node allocation\<close>

definition fibn_free :: "ptr \<Rightarrow> fib_state \<Rightarrow> fault + fib_state" where
  "fibn_free p s =
     (case p of
        None \<Rightarrow> Inl BugOn
      | Some n \<Rightarrow>
          (let h = (fib_heap s)(n := (fib_heap s n)\<lparr>next_free := None\<rparr>)
           in Inr (case fibn_tail s of
                     Some t \<Rightarrow> s\<lparr>fib_heap := h(t := (h t)\<lparr>next_free := Some n\<rparr>), fibn_tail := Some n\<rparr>
                   | None \<Rightarrow> s\<lparr>fib_heap := h, fibn_head := Some n, fibn_tail := Some n\<rparr>)))"

definition fibn_alloc :: "fib_state \<Rightarrow> ptr \<times> fib_state" where
  "fibn_alloc s =
     (case fibn_head s of
        Some n \<Rightarrow>
          (let hd' = next_free (fib_heap s n)
           in (Some n, s\<lparr>fibn_head := hd', fibn_tail := (if hd' = None then None else fibn_tail s)\<rparr>))
      | None \<Rightarrow>
          if fib_alloc_size s < of_nat FIB_SIZE_MAX then
            (let s1 = s\<lparr>fib_kmalloc := fib_kmalloc s \<circ> Suc\<rparr>
             in case fib_kmalloc s 0 of
                  None \<Rightarrow> (None, s1)
                | Some n \<Rightarrow>
                    (Some n, s1\<lparr>fib_heap := (fib_heap s)(n := (fib_heap s n)\<lparr>next_alloc := fibns s\<rparr>),
                                fibns := Some n, fib_alloc_size := fib_alloc_size s + 1\<rparr>))
          else (None, s))"

section \<open>Tree search and insertion\<close>

partial_function (option) my_search_loop ::
  "(nat \<Rightarrow> fib_node) \<Rightarrow> rb_heap \<Rightarrow> fib_key \<Rightarrow> ptr \<Rightarrow> ptr option" where
  "my_search_loop nh rh k rbn =
     (if rbn = None then Some None
      else let n = the rbn in
           if keycmp k (key (nh n)) < 0 then my_search_loop nh rh k (rb_left (rh n))
           else if keycmp k (key (nh n)) > 0 then my_search_loop nh rh k (rb_right (rh n))
           else Some (Some n))"

declare my_search_loop.simps [code]

text \<open>
  The arguments \<open>vid\<close> and \<open>mac\<close> are never read: the key compared with is the uninitialised
  local variable.
\<close>

definition my_search :: "u16 \<Rightarrow> u8 list \<Rightarrow> fib_state \<Rightarrow> (ptr \<times> fib_state) option" where
  "my_search vid mac s =
     map_option (\<lambda>p. (p, s\<lparr>fib_stack := fib_stack s \<circ> Suc\<rparr>))
       (my_search_loop (fib_heap s) (rbh (fib_rb s)) (fib_stack s 0) (rb_root (fib_rb s)))"

text \<open>The descent of \<open>my_insert\<close>: the equal node, or the parent and the link to fill.\<close>

definition link_target :: "rb_state \<Rightarrow> rb_link \<Rightarrow> ptr" where
  "link_target t link =
     (case link of Link_root \<Rightarrow> rb_root t | Link_left p \<Rightarrow> rb_left (rbh t p)
                 | Link_right p \<Rightarrow> rb_right (rbh t p))"

partial_function (option) my_insert_loop ::
  "(nat \<Rightarrow> fib_node) \<Rightarrow> rb_state \<Rightarrow> fib_key \<Rightarrow> rb_link \<Rightarrow> ptr \<Rightarrow> (nat + rb_link \<times> ptr) option" where
  "my_insert_loop nh t k new parent =
     (case link_target t new of
        None \<Rightarrow> Some (Inr (new, parent))
      | Some n \<Rightarrow>
          if keycmp k (key (nh n)) < 0 then my_insert_loop nh t k (Link_left n) (Some n)
          else if keycmp k (key (nh n)) > 0 then my_insert_loop nh t k (Link_right n) (Some n)
          else Some (Inl n))"

declare my_insert_loop.simps [code]

definition my_insert ::
  "rb_state \<Rightarrow> nat \<Rightarrow> (nat \<Rightarrow> fib_node) \<Rightarrow> (nat \<times> rb_state \<times> (nat \<Rightarrow> fib_node)) option" where
  "my_insert t fibn nh =
     do { r \<leftarrow> my_insert_loop nh t (key (nh fibn)) Link_root None;
          case r of
            Inl n \<Rightarrow>
              Some (n, t, if fn_wfsid (nh n) \<noteq> fn_wfsid (nh fibn)
                          then nh(n := (nh n)\<lparr>time_tag := time_tag (nh fibn), fn_wfsid := fn_wfsid (nh fibn)\<rparr>)
                          else nh)
          | Inr (new, parent) \<Rightarrow>
              do { t' \<leftarrow> rb_insert_color fibn (rb_link_node fibn parent new t);
                   Some (fibn, t', nh) } }"

section \<open>Draining and trimming\<close>

text \<open>
  The loop shared by \<open>my_trim_tree\<close> and \<open>ixgbe_wfs_fib_delete_wfsid\<close>: take the last node out
  of the tree until it is empty; free it when \<open>stale\<close> says so, otherwise insert it into the
  local tree \<open>root\<close> and count it.
\<close>

definition fib_free_node :: "nat \<Rightarrow> fib_state \<Rightarrow> fib_state option" where
  "fib_free_node n s = (case fibn_free (Some n) s of Inl _ \<Rightarrow> None | Inr s' \<Rightarrow> Some s')"

partial_function (option) fib_drain_loop ::
  "(fib_node \<Rightarrow> bool) \<Rightarrow> ptr \<Rightarrow> fib_state \<Rightarrow> (ptr \<times> fib_state) option" where
  "fib_drain_loop stale root s =
     do { lst \<leftarrow> rb_last (fib_rb s);
          case lst of
            None \<Rightarrow> Some (root, s)
          | Some n \<Rightarrow>
              do { t \<leftarrow> rb_erase n (fib_rb s);
                   if stale (fib_heap s n) then
                     do { s' \<leftarrow> fib_free_node n (s\<lparr>fib_rb := t\<rparr>);
                          fib_drain_loop stale root s' }
                   else
                     do { (m, t', nh) \<leftarrow> my_insert (t\<lparr>rb_root := root\<rparr>) n (fib_heap s);
                          fib_drain_loop stale (rb_root t')
                            (s\<lparr>fib_rb := t'\<lparr>rb_root := rb_root t\<rparr>, fib_heap := nh,
                               fib_size := fib_size s + 1\<rparr>) } } }"

declare fib_drain_loop.simps [code]

text \<open>\<open>for (i=FIB_SIZE_MAX; i>FIB_SIZE_MIN; i--)\<close>: free the last node of the local tree.\<close>

fun fib_trim_more :: "nat \<Rightarrow> ptr \<Rightarrow> fib_state \<Rightarrow> (ptr \<times> fib_state) option" where
  "fib_trim_more 0 root s = Some (root, s)"
| "fib_trim_more (Suc i) root s =
     do { lst \<leftarrow> rb_last ((fib_rb s)\<lparr>rb_root := root\<rparr>);
          n \<leftarrow> lst;
          t \<leftarrow> rb_erase n ((fib_rb s)\<lparr>rb_root := root\<rparr>);
          s' \<leftarrow> fib_free_node n (s\<lparr>fib_rb := t\<lparr>rb_root := rb_root (fib_rb s)\<rparr>\<rparr>);
          fib_trim_more i (rb_root t) (s'\<lparr>fib_size := fib_size s' - 1\<rparr>) }"

text \<open>\<open>add_timer\<close>: \<open>BUG_ON(timer_pending(timer))\<close>.\<close>

definition fib_add_timer :: "u64 \<Rightarrow> fib_state \<Rightarrow> fault + fib_state" where
  "fib_add_timer jiffies s =
     (let s1 = s\<lparr>fib_timer_expires := jiffies + FIB_TIMEOUT\<rparr>
      in bug_on (fib_timer_pending s1) (s1\<lparr>fib_timer_pending := True\<rparr>))"

definition trim_done :: "u64 \<Rightarrow> fib_state \<Rightarrow> fault + fib_state" where
  "trim_done jiffies s = fib_add_timer jiffies (s\<lparr>current_time_tag := current_time_tag s + 1\<rparr>)"

definition my_trim_tree :: "u64 \<Rightarrow> fib_state \<Rightarrow> fault + fib_state" where
  "my_trim_tree jiffies s =
     (if fib_size s < of_nat FIB_SIZE_MAX then trim_done jiffies s
      else
        rbind (of_option
          (do { (root, s1) \<leftarrow> fib_drain_loop (\<lambda>n. time_tag n \<noteq> current_time_tag s) None (s\<lparr>fib_size := 0\<rparr>);
                (root', s2) \<leftarrow> (if fib_size s1 = of_nat FIB_SIZE_MAX
                               then fib_trim_more (FIB_SIZE_MAX - FIB_SIZE_MIN) root s1
                               else Some (root, s1));
                Some (s2\<lparr>fib_rb := (fib_rb s2)\<lparr>rb_root := root'\<rparr>\<rparr>) }))
          (trim_done jiffies))"

section \<open>The operations\<close>

definition ixgbe_wfs_fib_lookup :: "u16 \<Rightarrow> u8 list \<Rightarrow> fib_state \<Rightarrow> fault + (u8 \<times> fib_state)" where
  "ixgbe_wfs_fib_lookup vid mac s =
     rbind (of_option (my_search (vid AND 0xfff) mac s)) (\<lambda>(n, s').
       Inr (case n of Some a \<Rightarrow> fn_wfsid (fib_heap s' a) | None \<Rightarrow> WFSID_ALL, s'))"

definition ixgbe_wfs_fib_delete :: "u16 \<Rightarrow> u8 list \<Rightarrow> fib_state \<Rightarrow> fault + fib_state" where
  "ixgbe_wfs_fib_delete vid mac s =
     rbind (of_option (my_search (vid AND 0xfff) mac s)) (\<lambda>(n, s').
       case n of
         None \<Rightarrow> Inr s'
       | Some a \<Rightarrow>
           rbind (of_option (rb_erase a (fib_rb s'))) (\<lambda>t.
           rbind (fibn_free (Some a) (s'\<lparr>fib_rb := t\<rparr>)) (\<lambda>s2.
           Inr (s2\<lparr>fib_size := fib_size s2 - 1\<rparr>))))"

definition bad_wfsid :: "u8 \<Rightarrow> bool" where
  "bad_wfsid wfsid \<longleftrightarrow> wfsid < of_nat WFSID_MIN \<or> wfsid > of_nat WFSID_MAX"

definition ixgbe_wfs_fib_delete_wfsid :: "u8 \<Rightarrow> fib_state \<Rightarrow> fault + fib_state" where
  "ixgbe_wfs_fib_delete_wfsid wfsid s =
     (if bad_wfsid wfsid then Inl BugOn
      else rbind (of_option (fib_drain_loop (\<lambda>n. fn_wfsid n = wfsid) None (s\<lparr>fib_size := 0\<rparr>)))
             (\<lambda>(root, s1). Inr (s1\<lparr>fib_rb := (fib_rb s1)\<lparr>rb_root := root\<rparr>\<rparr>)))"

definition ixgbe_wfs_fib_update ::
  "u64 \<Rightarrow> u16 \<Rightarrow> u8 list \<Rightarrow> u32 \<Rightarrow> u8 \<Rightarrow> fib_state \<Rightarrow> fault + fib_state" where
  "ixgbe_wfs_fib_update jiffies vid mac ip wfsid s =
     (if bad_wfsid wfsid then Inl BugOn
      else
        let vid = vid AND 0xfff in
        rbind (of_option (my_search vid mac s)) (\<lambda>(fibn, s1).
          case fibn of
            Some a \<Rightarrow>
              Inr (s1\<lparr>fib_heap := (fib_heap s1)(a := (fib_heap s1 a)
                        \<lparr>fn_ip := ip, fn_wfsid := wfsid, time_tag := current_time_tag s1\<rparr>)\<rparr>)
          | None \<Rightarrow>
              rbind (case fibn_alloc s1 of
                       (Some n, s2) \<Rightarrow> Inr (Some n, s2)
                     | (None, s2) \<Rightarrow> rbind (my_trim_tree jiffies s2) (\<lambda>s3. Inr (fibn_alloc s3)))
                (\<lambda>(n, s4).
              rbind (deref n) (\<lambda>n.
              let nh = (fib_heap s4)(n := (fib_heap s4 n)
                         \<lparr>key := \<lparr>key_vid = vid, key_mac = take 6 mac\<rparr>, fn_ip := ip,
                          fn_wfsid := wfsid, time_tag := current_time_tag s4\<rparr>)
              in rbind (of_option (my_insert (fib_rb s4) n nh)) (\<lambda>(fibn, t, nh').
                 let s5 = s4\<lparr>fib_rb := t, fib_heap := nh'\<rparr>
                 in if n \<noteq> fibn then fibn_free (Some n) s5
                    else Inr (s5\<lparr>fib_size := fib_size s5 + 1\<rparr>))))))"

definition fib_timer_action :: "u64 \<Rightarrow> fib_state \<Rightarrow> fault + fib_state" where
  "fib_timer_action jiffies s = my_trim_tree jiffies s"

section \<open>Set-up and tear-down\<close>

text \<open>
  \<open>ixgbe_wfs_fib_init\<close>: allocate \<open>FIB_SIZE_MIN\<close> nodes (return \<open>-ENOMEM\<close> on the first failure),
  then put every node of the allocation list on the free list.
\<close>

definition fib_chain :: "fib_state \<Rightarrow> nat \<Rightarrow> ptr" where
  "fib_chain s n = next_alloc (fib_heap s n)"

abbreviation ENOMEM :: int where "ENOMEM \<equiv> 12"

definition ixgbe_wfs_fib_init :: "u64 \<Rightarrow> fib_state \<Rightarrow> fault + (int \<times> fib_state)" where
  "ixgbe_wfs_fib_init jiffies s =
     (let s0 = s\<lparr>fib_rb := (fib_rb s)\<lparr>rb_root := None\<rparr>, fibns := None, fibn_head := None,
                 fibn_tail := None, current_time_tag := 0, fib_alloc_size := 0, fib_size := 0\<rparr>
      in case pool_get_n fibn_alloc FIB_SIZE_MIN s0 of
           (False, s1) \<Rightarrow> Inr (- ENOMEM, s1)
         | (True, s1) \<Rightarrow>
             rbind (of_option (pool_put_all fib_chain fib_free_node (fibns s1) s1)) (\<lambda>s2.
             rbind (fib_add_timer jiffies (s2\<lparr>fib_timer_pending := False\<rparr>)) (\<lambda>s3. Inr (0, s3))))"

text \<open>
  \<open>ixgbe_wfs_fib_cleanup\<close> stops the timer and frees every node of the allocation list; the
  result is the list of the freed addresses in order.
\<close>

definition ixgbe_wfs_fib_cleanup :: "fib_state \<Rightarrow> fault + (nat list \<times> fib_state)" where
  "ixgbe_wfs_fib_cleanup s =
     rbind (of_option (pool_walk (fib_chain s) (fibns s)))
       (\<lambda>freed. Inr (freed, s\<lparr>fib_timer_pending := False\<rparr>))"

section \<open>Reading the table out\<close>

record wfsctl_fib_data =
  fd_no :: u32
  fd_id :: u8
  fd_ip :: u32
  fd_vid :: u16
  fd_mac :: "u8 list"
  fd_eport :: "8 word"

text \<open>
  \<open>ixgbe_wfs_fib_get_entries\<close>: the buffer is filled from index 0 while \<open>num < max_entry\<close>, with
  the entries from the one numbered \<open>fib[0].no\<close> on. \<open>i\<close> and \<open>num\<close> are the counters of the loop.
\<close>

partial_function (option) fib_entries_loop ::
  "fib_state \<Rightarrow> int \<Rightarrow> int \<Rightarrow> int \<Rightarrow> int \<Rightarrow> ptr \<Rightarrow> wfsctl_fib_data list \<Rightarrow> (int \<times> wfsctl_fib_data list) option" where
  "fib_entries_loop s max_entry start_entry i num rbn buf =
     (if rbn = None \<or> \<not> num < max_entry then Some (num, buf)
      else let n = the rbn in
           do { next \<leftarrow> rb_next n (fib_rb s);
            if i < start_entry then fib_entries_loop s max_entry start_entry (i + 1) num next buf
            else if length buf \<le> nat num then None
            else
              (let d = fib_heap s n
               in fib_entries_loop s max_entry start_entry (i + 1) (num + 1) next
                    (buf[nat num := (buf ! nat num)\<lparr>fd_no := of_int (i + 1), fd_id := fn_wfsid d,
                           fd_vid := key_vid (key d), fd_mac := key_mac (key d), fd_ip := fn_ip d\<rparr>])) })"

declare fib_entries_loop.simps [code]

definition ixgbe_wfs_fib_get_entries ::
  "wfsctl_fib_data list \<Rightarrow> int \<Rightarrow> fib_state \<Rightarrow> fault + (int \<times> wfsctl_fib_data list)" where
  "ixgbe_wfs_fib_get_entries buf max_entry s =
     (case buf of
        [] \<Rightarrow> Inl OutOfBounds
      | d # _ \<Rightarrow>
          rbind (of_option (rb_first (fib_rb s))) (\<lambda>rbn.
          of_option (fib_entries_loop s max_entry (sint (fd_no d - 1)) 0 0 rbn buf)))"

section \<open>The nodes form a pool\<close>

text \<open>The free list holds \<open>fr\<close>, the list of allocated nodes is \<open>al\<close>.\<close>

definition fib_pool :: "fib_state \<Rightarrow> nat list \<Rightarrow> nat list \<Rightarrow> bool" where
  "fib_pool s fr al \<longleftrightarrow>
     fifo_at next_free (fib_heap s) (fibn_head s) (fibn_tail s) fr \<and>
     list_at next_alloc (fib_heap s) (fibns s) al \<and> distinct al \<and> set fr \<subseteq> set al \<and>
     length al \<le> FIB_SIZE_MAX \<and> fib_alloc_size s = of_nat (length al) \<and>
     fresh_supply (fib_kmalloc s) al"

lemma fib_free_node_eq:
  "fib_free_node n s =
     (let h = (fib_heap s)(n := (fib_heap s n)\<lparr>next_free := None\<rparr>)
      in Some (case fibn_tail s of
                 Some t \<Rightarrow> s\<lparr>fib_heap := h(t := (h t)\<lparr>next_free := Some n\<rparr>), fibn_tail := Some n\<rparr>
               | None \<Rightarrow> s\<lparr>fib_heap := h, fibn_head := Some n, fibn_tail := Some n\<rparr>))"
  by (simp add: fib_free_node_def fibn_free_def Let_def)

lemma fib_free_node_pool:
  assumes "fib_pool s fr al" "a \<in> set al" "a \<notin> set fr"
  shows "\<exists>s'. fib_free_node a s = Some s' \<and> fib_pool s' (fr @ [a]) al"
proof (cases "fibn_tail s")
  case None
  with assms fifo_at_snoc(1)[of next_free "fib_heap s" "fibn_head s" None fr a
      "(fib_heap s a)\<lparr>next_free := None\<rparr>"]
  show ?thesis
    by (auto simp: fib_free_node_eq fib_pool_def Let_def heap_simps)
next
  case (Some t)
  let ?h = "(fib_heap s)(a := (fib_heap s a)\<lparr>next_free := None\<rparr>)"
  from assms Some have "t \<noteq> a" by (auto simp: fib_pool_def fifo_at_def split: if_splits)
  with assms Some fifo_at_snoc(2)[of next_free "fib_heap s" "fibn_head s" "Some t" fr a
      "(fib_heap s a)\<lparr>next_free := None\<rparr>" t "(?h t)\<lparr>next_free := Some a\<rparr>"]
  show ?thesis
    by (auto simp: fib_free_node_eq fib_pool_def Let_def heap_simps)
qed

lemma fibn_alloc_head:
  "fib_pool s (a # fr) al \<Longrightarrow> \<exists>s'. fibn_alloc s = (Some a, s') \<and> fib_pool s' fr al"
  by (cases "next_free (fib_heap s a)")
    (auto simp: fib_pool_def fibn_alloc_def Let_def fifo_at_def split: if_splits)

lemma fibn_alloc_new:
  assumes "fib_pool s [] al" "fibn_alloc s = (Some a, s')"
  shows "a \<notin> set al \<and> length al < FIB_SIZE_MAX \<and> fib_pool s' [] (a # al)"
proof -
  from assms have small: "(of_nat (length al) :: u32) < of_nat FIB_SIZE_MAX"
    and km: "fib_kmalloc s 0 = Some a" and len: "length al \<le> FIB_SIZE_MAX"
    by (auto simp: fib_pool_def fibn_alloc_def Let_def split: if_splits option.splits)
  from small len have "length al < FIB_SIZE_MAX"
    by (simp add: word_less_nat_alt unat_of_nat)
  with assms km fresh_supplyD[of "fib_kmalloc s" al 0 a] fresh_supply_Suc(2)[of "fib_kmalloc s" al a]
  show ?thesis
    by (auto simp: fib_pool_def fibn_alloc_def Let_def heap_simps split: if_splits)
qed

lemma fibn_alloc_none:
  "fib_pool s fr al \<Longrightarrow> fibn_alloc s = (None, s') \<Longrightarrow> fib_pool s' fr al \<and> fr = []"
  by (auto simp: fib_pool_def fibn_alloc_def Let_def fifo_at_head_None fresh_supply_Suc
      split: if_splits option.splits)

interpretation fibp: free_pool fib_pool fib_free_node fibn_alloc fib_chain fibns FIB_SIZE_MAX
proof unfold_locales
  fix s fr al
  assume "fib_pool s fr al"
  then show "distinct al \<and> distinct fr \<and> set fr \<subseteq> set al \<and> length al \<le> FIB_SIZE_MAX"
    and "list_at (fib_chain s) (\<lambda>a. a) (fibns s) al"
    by (auto simp: fib_pool_def fifo_at_def fib_chain_def[abs_def] list_at_comp[symmetric])
next
  show "fib_free_node a s = Some s' \<Longrightarrow> fib_chain s' b = fib_chain s b" for a s s' b
    by (auto simp: fib_free_node_eq fib_chain_def Let_def split: option.splits)
qed (auto dest: fibn_alloc_new fibn_alloc_none intro: fib_free_node_pool fibn_alloc_head)

end
