(* ===== verification/WfsState.thy ===== *)
theory WfsState
  imports WfsFib
begin

text \<open>
  The state of the ring driver: the types of \<open>ixgbe_wfs_raps.h\<close>, \<open>ixgbe_wfs_bert.h\<close>,
  \<open>ixgbe_wfs.h\<close> and the fields of \<open>struct ixgbe_adapter\<close> the ring code uses, and the record
  \<open>drv\<close> of everything a driver function can read or change. An \<open>ixgbe_adapter *\<close> is the
  number of an adapter, or NULL. A C \<open>short\<close> is a 16-bit word and an \<open>int\<close> a 32-bit word, read
  with \<open>sint\<close>; the driver is compiled with wrapping signed arithmetic.
\<close>

section \<open>State machine and events\<close>

text \<open>\<open>S_max\<close> and \<open>E_max\<close> are array sizes; \<open>S_Invalid\<close> and \<open>E_Invalid\<close> are never assigned.\<close>

datatype wfs_fsm_state = S_init | S_idle | S_protect

datatype wfs_fsm_event = E_discover | E_expire | E_localSF | E_clear_localSF | E_rapsSF | E_rapsNR

text \<open>
  The union \<open>wfs_fsm_event_data\<close>: \<open>announce\<close> and \<open>raps\<close> overlap in their first two bytes, the
  channel pointer of \<open>announce\<close> follows.
\<close>

record wfs_fsm_event_data =
  ed_byte0 :: u8
  ed_byte1 :: u8
  ed_channel :: ptr

abbreviation is_primary_annouce :: "wfs_fsm_event_data \<Rightarrow> u8" where "is_primary_annouce \<equiv> ed_byte0"
abbreviation peer_port :: "wfs_fsm_event_data \<Rightarrow> u8" where "peer_port \<equiv> ed_byte1"
abbreviation recv_channel :: "wfs_fsm_event_data \<Rightarrow> ptr" where "recv_channel \<equiv> ed_channel"
abbreviation failure_on_primary :: "wfs_fsm_event_data \<Rightarrow> u8" where "failure_on_primary \<equiv> ed_byte0"

definition zero_event_data :: wfs_fsm_event_data where
  "zero_event_data = \<lparr>ed_byte0 = 0, ed_byte1 = 0, ed_channel = None\<rparr>"

record wfs_fsm_event_buffer =
  eb_next :: ptr
  next_eb :: ptr
  eb_wfsid :: u8
  eb_event :: wfs_fsm_event
  eb_data :: wfs_fsm_event_data

text \<open>The event buffer fields of the adapter, with the heap of buffers and \<open>kmalloc\<close>'s answers.\<close>

record ev_pool =
  ev_heap :: "nat \<Rightarrow> wfs_fsm_event_buffer"
  fsmEvBufs :: ptr
  fsmEvBuf_head :: ptr
  fsmEvBuf_tail :: ptr
  fsmEvBuf_count :: u32
  ev_kmalloc :: "nat \<Rightarrow> ptr"

abbreviation EVBUF_MIN_NUM :: nat where "EVBUF_MIN_NUM \<equiv> 64"
abbreviation EVBUF_MAX_NUM :: nat where "EVBUF_MAX_NUM \<equiv> 256"

section \<open>Peers and timers\<close>

record wfs_peer =
  wp_mac :: "u8 list"
  wp_ip :: u32
  port_pri :: u16
  port_sec :: u16
  ttl_pri :: u16
  ttl_sec :: u16
  channel_pri :: ptr
  channel_sec :: ptr
  fsm_state :: wfs_fsm_state

definition zero_peer :: wfs_peer where
  "zero_peer = \<lparr>wp_mac = replicate 6 0, wp_ip = 0, port_pri = 0, port_sec = 0, ttl_pri = 0,
     ttl_sec = 0, channel_pri = None, channel_sec = None, fsm_state = S_init\<rparr>"

abbreviation RAPS_TICK :: "'a::len word" where "RAPS_TICK \<equiv> of_nat HZ"
abbreviation RAPS_ANNOUNCE_INT :: u32 where "RAPS_ANNOUNCE_INT \<equiv> 5 * of_nat HZ"
abbreviation RAPS_PEER_TIMEOUT :: "'a::len word" where "RAPS_PEER_TIMEOUT \<equiv> 30 * of_nat HZ"
abbreviation RAPS_SF_INT :: u32 where "RAPS_SF_INT \<equiv> of_nat HZ"
abbreviation RAPS_NR_INT :: u32 where "RAPS_NR_INT \<equiv> of_nat HZ"
abbreviation RAPS_NR_COUNT :: u32 where "RAPS_NR_COUNT \<equiv> 2 * RAPS_ANNOUNCE_INT div RAPS_TICK"

abbreviation RAPS_CTRL_PEER_TTL :: u32 where "RAPS_CTRL_PEER_TTL \<equiv> 0x01"
abbreviation RAPS_CTRL_ANNOUNCE :: u32 where "RAPS_CTRL_ANNOUNCE \<equiv> 0x02"
abbreviation RAPS_CTRL_NR :: u32 where "RAPS_CTRL_NR \<equiv> 0x04"
abbreviation RAPS_CTRL_SF :: u32 where "RAPS_CTRL_SF \<equiv> 0x08"
abbreviation RAPS_CTRL_FSM_EVENT :: u32 where "RAPS_CTRL_FSM_EVENT \<equiv> 0x10"

record raps_timer_ctrl =
  flag :: u32
  t_announce :: u32
  t_peer :: u32
  t_rapsSF :: u32
  t_rapsNR :: u32
  c_rapsNR :: u32
  fsm_event_head :: ptr
  fsm_event_tail :: ptr

definition zero_raps_ctrl :: raps_timer_ctrl where
  "zero_raps_ctrl = \<lparr>flag = 0, t_announce = 0, t_peer = 0, t_rapsSF = 0, t_rapsNR = 0,
     c_rapsNR = 0, fsm_event_head = None, fsm_event_tail = None\<rparr>"

section \<open>Socket buffers and BERT\<close>

text \<open>
  A socket buffer: the bytes in front of the data pointer (\<open>skb_headroom\<close>, the byte next to the
  data last), the bytes from the data pointer to the end of the linear buffer, how many of them
  are data, and the page fragments. \<open>vlan_tci\<close> is \<open>IXGBE_CB(skb)->vid\<close>, the VLAN id the driver
  keeps in the control block on this kernel version.
\<close>

record sk_buff =
  skb_room :: "u8 list"
  skb_buf :: "u8 list"
  skb_headlen :: nat
  skb_frags :: "u8 list list"
  queue_mapping :: u16
  vlan_tci :: u16
  skb_protocol :: u16

definition skb_len :: "sk_buff \<Rightarrow> nat" where
  "skb_len skb = skb_headlen skb + sum_list (map length (skb_frags skb))"

record wfs_bert_stats =
  tx_bytes :: u64
  tx_pkts :: u64
  rx_bytes :: u64
  rx_pkts :: u64
  err_drop :: u64
  err_seq :: u64
  err_csum :: u64
  err_size :: u64
  rtt_max :: u64
  rtt_min :: u64
  rtt_avg :: u64

definition zero_bert_stats :: wfs_bert_stats where
  "zero_bert_stats = \<lparr>tx_bytes = 0, tx_pkts = 0, rx_bytes = 0, rx_pkts = 0, err_drop = 0,
     err_seq = 0, err_csum = 0, err_size = 0, rtt_max = 0, rtt_min = 0, rtt_avg = 0\<rparr>"

record wfs_bert_cfg =
  bc_on :: u32
  jfs :: u64
  jfs_last :: u64
  bc_seqno :: u32
  bc_skb :: "sk_buff option"
  bc_data_len :: u16
  bc_data_csum :: u16
  bc_stats :: wfs_bert_stats

text \<open>\<open>bt_work\<close> is the delay of the queued work item, \<open>None\<close> when it is not queued.\<close>

record wfs_bert_ctrl =
  bt_on :: u32
  bt_running :: u32
  responder :: u8
  burst :: u64
  bt_work :: "u64 option"

section \<open>Adapters\<close>

record ixgbe_adapter =
  is_wfs_primary :: bool
  wfs_next :: ptr
  wfs_other :: ptr
  wfs_port :: u8
  ad_link_up :: bool
  num_tx_queues :: u32
  need_link_update :: bool

datatype ixgbe_wfs_adapter_state =
  unused | allocated | partial_initialized | initialized | opened | closed | suspended

record ixgbe_wfs_adapter =
  index :: u8
  iwa_state :: ixgbe_wfs_adapter_state
  iwa_name :: string
  wfs_id :: u8
  mac_addr :: "u8 list"
  iwa_ip :: u32
  dev_id :: u32
  primary :: ptr
  secondary :: ptr
  iwa_link_up :: bool
  xmit_err :: u32
  data_seqno :: u32
  raps_timer_pending :: bool
  raps_timer_expires :: u64
  raps_ctrl :: raps_timer_ctrl
  evp :: ev_pool
  wfspeer :: "wfs_peer list"
  fib :: fib_state
  bert_ctrl :: wfs_bert_ctrl
  bert_seqno :: u32
  wfsbert :: "wfs_bert_cfg list"

section \<open>The driver and its environment\<close>

text \<open>
  \<open>nd_ip\<close> is \<open>ndev->ip_ptr\<close>: \<open>None\<close> when NULL, \<open>Some None\<close> when its \<open>ifa_list\<close> is NULL, otherwise
  the address of the first entry.
\<close>

record net_device =
  carrier :: bool
  tx_stopped :: bool
  nd_ip :: "u32 option option"

text \<open>
  \<open>drv\<close>: the ring adapter, the adapters, the net device and the answers of the kernel. Each
  stream gives the answer to the next call: the content of the buffer \<open>netdev_alloc_skb\<close>
  returns (or failure), whether \<open>skb_copy\<close> and \<open>pskb_expand_head\<close> succeed, what
  \<open>ixgbe_xmit_frame_ring\<close> returns, random bytes, and \<open>kmalloc\<close> for the BERT buffer; \<open>kmem_live\<close>
  counts those buffers. \<open>ip_compute_csum\<close> is the kernel's checksum of a byte array.
  \<open>tx_log\<close> lists the frames handed to a transmit ring, with adapter and ring, latest first;
  \<open>skb_live\<close> counts the socket buffers the driver holds.
\<close>

record drv =
  iw :: ixgbe_wfs_adapter
  ads :: "nat \<Rightarrow> ixgbe_adapter"
  nd :: net_device
  jiffies :: u64
  usecs :: u64
  skb_alloc :: "nat \<Rightarrow> (nat \<Rightarrow> u8) option"
  skb_copy_ok :: "nat \<Rightarrow> bool"
  expand_ok :: "nat \<Rightarrow> bool"
  xmit_rc :: "nat \<Rightarrow> int"
  random_byte :: "nat \<Rightarrow> u8"
  kmalloc_ok :: "nat \<Rightarrow> bool"
  stack_event :: wfs_fsm_event_data
  ip_compute_csum :: "u8 list \<Rightarrow> u16"
  kmem_live :: int
  tx_log :: "(nat \<times> nat \<times> sk_buff) list"
  skb_live :: int

definition upd_iw :: "(ixgbe_wfs_adapter \<Rightarrow> ixgbe_wfs_adapter) \<Rightarrow> drv \<Rightarrow> drv" where
  "upd_iw f d = d\<lparr>iw := f (iw d)\<rparr>"

definition upd_rc :: "(raps_timer_ctrl \<Rightarrow> raps_timer_ctrl) \<Rightarrow> drv \<Rightarrow> drv" where
  "upd_rc f d = upd_iw (\<lambda>i. i\<lparr>raps_ctrl := f (raps_ctrl i)\<rparr>) d"

abbreviation rc :: "drv \<Rightarrow> raps_timer_ctrl" where "rc d \<equiv> raps_ctrl (iw d)"
abbreviation myID :: "drv \<Rightarrow> u8" where "myID d \<equiv> wfs_id (iw d)"

text \<open>
  Arrays indexed by a workstation id, \<open>a[wfsid-1]\<close>: ids 0 and above the length are outside.
\<close>

definition wfs_idx :: "u8 \<Rightarrow> 'a list \<Rightarrow> fault + 'a" where
  "wfs_idx wfsid xs = (if wfsid = 0 \<or> length xs < unat wfsid then Inl OutOfBounds
                       else Inr (xs ! (unat wfsid - 1)))"

definition upd_peer :: "u8 \<Rightarrow> (wfs_peer \<Rightarrow> wfs_peer) \<Rightarrow> drv \<Rightarrow> drv" where
  "upd_peer wfsid f d =
     upd_iw (\<lambda>i. i\<lparr>wfspeer := (wfspeer i)[unat wfsid - 1 := f (wfspeer i ! (unat wfsid - 1))]\<rparr>) d"

definition upd_bert :: "u8 \<Rightarrow> (wfs_bert_cfg \<Rightarrow> wfs_bert_cfg) \<Rightarrow> drv \<Rightarrow> drv" where
  "upd_bert wfsid f d =
     upd_iw (\<lambda>i. i\<lparr>wfsbert := (wfsbert i)[unat wfsid - 1 := f (wfsbert i ! (unat wfsid - 1))]\<rparr>) d"

definition peer_of :: "drv \<Rightarrow> u8 \<Rightarrow> wfs_peer" where
  "peer_of d wfsid = wfspeer (iw d) ! (unat wfsid - 1)"

definition on_fib :: "(fib_state \<Rightarrow> fault + fib_state) \<Rightarrow> drv \<Rightarrow> fault + drv" where
  "on_fib f d = rbind (f (fib (iw d))) (\<lambda>s. Inr (upd_iw (\<lambda>i. i\<lparr>fib := s\<rparr>) d))"

text \<open>\<open>ch && ch->link_up\<close>.\<close>

definition chan_up :: "drv \<Rightarrow> ptr \<Rightarrow> bool" where
  "chan_up d ch = (case ch of None \<Rightarrow> False | Some a \<Rightarrow> ad_link_up (ads d a))"

section \<open>Frame lemmas\<close>

lemma upd_iw_simps [simp]:
  "iw (upd_iw f d) = f (iw d)" "ads (upd_iw f d) = ads d" "nd (upd_iw f d) = nd d"
  "jiffies (upd_iw f d) = jiffies d" "usecs (upd_iw f d) = usecs d"
  "skb_alloc (upd_iw f d) = skb_alloc d" "skb_copy_ok (upd_iw f d) = skb_copy_ok d"
  "expand_ok (upd_iw f d) = expand_ok d" "xmit_rc (upd_iw f d) = xmit_rc d"
  "random_byte (upd_iw f d) = random_byte d" "kmalloc_ok (upd_iw f d) = kmalloc_ok d"
  "stack_event (upd_iw f d) = stack_event d" "tx_log (upd_iw f d) = tx_log d"
  "skb_live (upd_iw f d) = skb_live d" "kmem_live (upd_iw f d) = kmem_live d"
  "ip_compute_csum (upd_iw f d) = ip_compute_csum d"
  by (simp_all add: upd_iw_def)

lemma wfs_idx_Inr:
  "wfs_idx w xs = Inr x \<longleftrightarrow> w \<noteq> 0 \<and> unat w \<le> length xs \<and> x = xs ! (unat w - 1)"
  by (auto simp: wfs_idx_def)

lemma wfs_idx_Inl:
  "wfs_idx w xs = Inl e \<longleftrightarrow> e = OutOfBounds \<and> (w = 0 \<or> length xs < unat w)"
  by (auto simp: wfs_idx_def)

lemma chan_up_None [simp]: "\<not> chan_up d None"
  by (simp add: chan_up_def)

lemma chan_up_SomeD: "chan_up d p \<Longrightarrow> p \<noteq> None"
  by (cases p) auto

lemma wfsid_range:
  "1 \<le> w \<Longrightarrow> w \<le> 8 \<Longrightarrow> w \<noteq> 0 \<and> 1 \<le> unat w \<and> unat w \<le> 8" for w :: u8
proof -
  assume a: "1 \<le> w" "w \<le> 8"
  from a(1) have "1 \<le> unat w" using word_le_nat_alt[of "1::u8" w] by simp
  moreover from a(2) have "unat w \<le> 8" using word_le_nat_alt[of w "8::u8"] by simp
  ultimately show ?thesis by auto
qed

end
