(* ===== verification/WfsPacket.thy ===== *)
theory WfsPacket
  imports WfsState
begin

text \<open>
  Ring packets: the layout of \<open>ixgbe_wfs_enc.h\<close> and the functions of \<open>ixgbe_wfs.c\<close> that build
  and parse them, on the bytes from the data pointer to the end of the buffer. The Ethernet
  header is at 0, \<open>type\<close> at 14, \<open>dest\<close> at 15, \<open>src\<close> at 16, \<open>len\<close> at 17 and the options start at 18;
  an option is its type, its length and its value. Access outside the buffer is a fault.
\<close>

section \<open>Layout\<close>

type_synonym pkt = "u8 list"

abbreviation WFSPKT_TYPE_BROADCAST_MASK :: u8 where "WFSPKT_TYPE_BROADCAST_MASK \<equiv> 0x80"
abbreviation WFSPKT_TYPE_CTRL_MASK :: u8 where "WFSPKT_TYPE_CTRL_MASK \<equiv> 0x40"
abbreviation WFSPKT_TYPE_DATA_MASK :: u8 where "WFSPKT_TYPE_DATA_MASK \<equiv> 0x20"
abbreviation WFSPKT_TYPE_CTRL_NONE :: u8 where "WFSPKT_TYPE_CTRL_NONE \<equiv> 0x40"
abbreviation WFSPKT_TYPE_CTRL_ANNOUNCE :: u8 where "WFSPKT_TYPE_CTRL_ANNOUNCE \<equiv> 0xC1"
abbreviation WFSPKT_TYPE_CTRL_RAPS :: u8 where "WFSPKT_TYPE_CTRL_RAPS \<equiv> 0xC2"
abbreviation WFSPKT_TYPE_CTRL_BERT :: u8 where "WFSPKT_TYPE_CTRL_BERT \<equiv> 0x43"
abbreviation WFSPKT_TYPE_DATA_BROADCAST :: u8 where "WFSPKT_TYPE_DATA_BROADCAST \<equiv> 0xA0"
abbreviation WFSPKT_TYPE_DATA_UNICAST :: u8 where "WFSPKT_TYPE_DATA_UNICAST \<equiv> 0x20"
abbreviation WFSPKT_MAX_SIZE :: nat where "WFSPKT_MAX_SIZE \<equiv> 64"
abbreviation WFSPKT_HDR_SIZE :: nat where "WFSPKT_HDR_SIZE \<equiv> 18"
abbreviation WFSOPT_HDR_SIZE :: nat where "WFSOPT_HDR_SIZE \<equiv> 2"
abbreviation ETH_FCS_LEN :: nat where "ETH_FCS_LEN \<equiv> 4"

abbreviation WFSOPT_END :: u8 where "WFSOPT_END \<equiv> 0"
abbreviation WFSOPT_SEQUENCE :: u8 where "WFSOPT_SEQUENCE \<equiv> 1"
abbreviation WFSOPT_ANNOUNCE :: u8 where "WFSOPT_ANNOUNCE \<equiv> 2"
abbreviation WFSOPT_RAPS :: u8 where "WFSOPT_RAPS \<equiv> 3"
abbreviation WFSOPT_BERT :: u8 where "WFSOPT_BERT \<equiv> 4"
abbreviation WFSOPT_RAPS_REQ_NR :: u8 where "WFSOPT_RAPS_REQ_NR \<equiv> 1"
abbreviation WFSOPT_RAPS_REQ_SF :: u8 where "WFSOPT_RAPS_REQ_SF \<equiv> 2"
abbreviation WFSOPT_BERT_RESET :: u8 where "WFSOPT_BERT_RESET \<equiv> 1"
abbreviation WFSOPT_BERT_REQUEST :: u8 where "WFSOPT_BERT_REQUEST \<equiv> 2"
abbreviation WFSOPT_BERT_RESPONSE :: u8 where "WFSOPT_BERT_RESPONSE \<equiv> 3"

text \<open>\<open>sizeof\<close> of the packed option values.\<close>

abbreviation sizeof_sequence :: nat where "sizeof_sequence \<equiv> 4"
abbreviation sizeof_announce :: nat where "sizeof_announce \<equiv> 11"
abbreviation sizeof_raps :: nat where "sizeof_raps \<equiv> 2"
abbreviation sizeof_bert :: nat where "sizeof_bert \<equiv> 17"

definition rd :: "nat \<Rightarrow> pkt \<Rightarrow> fault + u8" where
  "rd i p = (if i < length p then Inr (p ! i) else Inl OutOfBounds)"

definition wr :: "nat \<Rightarrow> u8 list \<Rightarrow> pkt \<Rightarrow> fault + pkt" where
  "wr off bs p = (if off + length bs \<le> length p then Inr (write_bytes off bs p) else Inl OutOfBounds)"

definition rds :: "nat \<Rightarrow> nat \<Rightarrow> pkt \<Rightarrow> fault + u8 list" where
  "rds off n p = (if off + n \<le> length p then Inr (read_bytes off n p) else Inl OutOfBounds)"

abbreviation pkt_type :: "pkt \<Rightarrow> fault + u8" where "pkt_type \<equiv> rd 14"
abbreviation pkt_dest :: "pkt \<Rightarrow> fault + u8" where "pkt_dest \<equiv> rd 15"
abbreviation pkt_src :: "pkt \<Rightarrow> fault + u8" where "pkt_src \<equiv> rd 16"
abbreviation pkt_len :: "pkt \<Rightarrow> fault + u8" where "pkt_len \<equiv> rd 17"

definition broadcast_mac :: "u8 list" where
  "broadcast_mac = replicate 6 0xff"

section \<open>Options\<close>

text \<open>
  \<open>wfspkt_getopt\<close>: the offset of the first option of the given type. The loop advances by the
  length byte of each option, whatever it is.
\<close>

partial_function (option) getopt_loop :: "pkt \<Rightarrow> u8 \<Rightarrow> int \<Rightarrow> nat \<Rightarrow> (fault + ptr) option" where
  "getopt_loop p opt_type len opt =
     (if \<not> len > 0 then Some (Inr None)
      else if length p \<le> opt then Some (Inl OutOfBounds)
      else if p ! opt = opt_type then Some (Inr (Some opt))
      else if length p \<le> opt + 1 then Some (Inl OutOfBounds)
      else getopt_loop p opt_type (len - uint (p ! (opt + 1))) (opt + unat (p ! (opt + 1))))"

declare getopt_loop.simps [code]

definition wfspkt_getopt :: "pkt \<Rightarrow> u8 \<Rightarrow> fault + ptr" where
  "wfspkt_getopt p opt_type =
     rbind (pkt_len p) (\<lambda>l.
     rbind (of_option (getopt_loop p opt_type (uint l - int WFSPKT_HDR_SIZE) WFSPKT_HDR_SIZE)) id)"

text \<open>
  What the \<open>wfspkt_set_\<close> functions share: \<open>memset(opt, 0, sizeof(value))\<close> from the start of the
  option header, the header, the value fields \<open>fill\<close> writes, the new packet length with its
  check, and the end mark.
\<close>

definition set_opt :: "u8 \<Rightarrow> nat \<Rightarrow> (nat \<Rightarrow> pkt \<Rightarrow> fault + pkt) \<Rightarrow> pkt \<Rightarrow> fault + (nat \<times> pkt)" where
  "set_opt ty sz fill p =
     rbind (pkt_len p) (\<lambda>l.
     let opt = unat l; optlen = of_nat (WFSOPT_HDR_SIZE + sz) in
     rbind (wr opt (replicate sz 0) p) (\<lambda>p1.
     rbind (wr opt [ty, optlen] p1) (\<lambda>p2.
     rbind (fill opt p2) (\<lambda>p3.
     rbind (wr 17 [l + optlen] p3) (\<lambda>p4.
     if of_nat WFSPKT_MAX_SIZE < l + optlen then Inl BugOn
     else rbind (wr (unat (l + optlen)) [WFSOPT_END] p4) (\<lambda>p5. Inr (opt, p5)))))))"

definition wfspkt_set_sequence :: "u32 \<Rightarrow> pkt \<Rightarrow> fault + (nat \<times> pkt)" where
  "wfspkt_set_sequence seqno =
     set_opt WFSOPT_SEQUENCE sizeof_sequence (\<lambda>opt. wr (opt + 2) (le32 (htonl seqno)))"

definition wfspkt_set_announce :: "u8 list \<Rightarrow> u32 \<Rightarrow> pkt \<Rightarrow> fault + (nat \<times> pkt)" where
  "wfspkt_set_announce mac ip =
     set_opt WFSOPT_ANNOUNCE sizeof_announce
       (\<lambda>opt p. rbind (wr (opt + 2) (take 6 mac) p) (wr (opt + 8) (le32 (htonl ip))))"

definition wfspkt_set_raps :: "pkt \<Rightarrow> fault + (nat \<times> pkt)" where
  "wfspkt_set_raps = set_opt WFSOPT_RAPS sizeof_raps (\<lambda>opt. Inr)"

definition wfspkt_set_bert :: "pkt \<Rightarrow> fault + (nat \<times> pkt)" where
  "wfspkt_set_bert = set_opt WFSOPT_BERT sizeof_bert (\<lambda>opt. Inr)"

text \<open>
  The last byte of an announce option: \<open>port_pri\<close> in bit 0, \<open>port_sec\<close> in bit 1, \<open>port\<close> in the
  upper six bits. The first byte of \<open>status\<close> in a RAPS option: \<open>flush\<close> in bit 0, \<open>dnf\<close> in bit 1.
\<close>

definition announce_byte :: "bool \<Rightarrow> u8 \<Rightarrow> u8" where
  "announce_byte pri port = (if pri then 1 else 2) OR push_bit 2 (port AND 0x3f)"

definition wfspkt_set_announce_primary :: "nat \<Rightarrow> u8 \<Rightarrow> pkt \<Rightarrow> fault + pkt" where
  "wfspkt_set_announce_primary opt port = wr (opt + 12) [announce_byte True port]"

definition wfspkt_set_announce_secondary :: "nat \<Rightarrow> u8 \<Rightarrow> pkt \<Rightarrow> fault + pkt" where
  "wfspkt_set_announce_secondary opt port = wr (opt + 12) [announce_byte False port]"

definition wfspkt_clear_announce_channel :: "nat \<Rightarrow> pkt \<Rightarrow> fault + pkt" where
  "wfspkt_clear_announce_channel opt p = rbind (rd (opt + 12) p) (\<lambda>b. wr (opt + 12) [b AND 0xfc] p)"

definition wfspkt_set_raps_sf :: "nat \<Rightarrow> pkt \<Rightarrow> fault + pkt" where
  "wfspkt_set_raps_sf opt = wr (opt + 2) [WFSOPT_RAPS_REQ_SF]"

definition wfspkt_set_raps_nr :: "nat \<Rightarrow> pkt \<Rightarrow> fault + pkt" where
  "wfspkt_set_raps_nr opt = wr (opt + 2) [WFSOPT_RAPS_REQ_NR]"

definition wfspkt_set_raps_dnf :: "nat \<Rightarrow> pkt \<Rightarrow> fault + pkt" where
  "wfspkt_set_raps_dnf opt p = rbind (rd (opt + 3) p) (\<lambda>b. wr (opt + 3) [b OR 2] p)"

definition wfspkt_set_raps_flush :: "nat \<Rightarrow> pkt \<Rightarrow> fault + pkt" where
  "wfspkt_set_raps_flush opt p = rbind (rd (opt + 3) p) (\<lambda>b. wr (opt + 3) [b OR 1] p)"

section \<open>Headers\<close>

text \<open>
  \<open>wfspkt_init\<close>: the destination is looked up in the forwarding table unless the packet is a
  broadcast. \<open>lookup\<close> is \<open>ixgbe_wfs_fib_lookup\<close> on the adapter, which changes nothing but the
  position in the stream of stack contents.
\<close>

definition wfspkt_init :: "u8 \<Rightarrow> u16 \<Rightarrow> u8 list \<Rightarrow> drv \<Rightarrow> pkt \<Rightarrow> fault + (pkt \<times> drv)" where
  "wfspkt_init ty dstVid dstMac d p =
     rbind (wr 0 (replicate WFSPKT_HDR_SIZE 0) p) (\<lambda>p1.
     rbind (wr 12 [0x88, 0xB5] p1) (\<lambda>p2.
     rbind (rd 0 dstMac) (\<lambda>m0.
     let ty = (if m0 AND 1 \<noteq> 0 then ty OR WFSPKT_TYPE_BROADCAST_MASK else ty) in
     rbind (wr 14 [ty] p2) (\<lambda>p3.
     rbind (if ty AND WFSPKT_TYPE_BROADCAST_MASK \<noteq> 0 then Inr (WFSID_ALL, d)
            else rbind (ixgbe_wfs_fib_lookup dstVid dstMac (fib (iw d)))
                   (\<lambda>(w, s). Inr (w, upd_iw (\<lambda>i. i\<lparr>fib := s\<rparr>) d))) (\<lambda>(dest, d1).
     rbind (wr 15 [dest, myID d1] p3) (\<lambda>p4.
     rbind (if dest = WFSID_ALL then Inr broadcast_mac
            else rbind (wfs_idx dest (wfspeer (iw d1))) (\<lambda>peer. Inr (wp_mac peer))) (\<lambda>mac.
     rbind (wr 0 (take 6 mac @ take 6 (mac_addr (iw d1))) p4) (\<lambda>p5.
     rbind (wr 17 [of_nat WFSPKT_HDR_SIZE, WFSOPT_END] p5) (\<lambda>p6.
     Inr (p6, d1))))))))))"

section \<open>Socket buffers\<close>

definition skb_put :: "nat \<Rightarrow> sk_buff \<Rightarrow> fault + sk_buff" where
  "skb_put n skb =
     (if length (skb_buf skb) < skb_headlen skb + n then Inl BugOn
      else Inr (skb\<lparr>skb_headlen := skb_headlen skb + n\<rparr>))"

text \<open>\<open>skb_push\<close> (panics without headroom) and \<open>skb_pull\<close> (does nothing when the buffer is shorter).\<close>

definition skb_push :: "nat \<Rightarrow> sk_buff \<Rightarrow> fault + sk_buff" where
  "skb_push n skb =
     (if length (skb_room skb) < n then Inl BugOn
      else let k = length (skb_room skb) - n
           in Inr (skb\<lparr>skb_room := take k (skb_room skb), skb_buf := drop k (skb_room skb) @ skb_buf skb,
                       skb_headlen := skb_headlen skb + n\<rparr>))"

definition skb_pull :: "nat \<Rightarrow> sk_buff \<Rightarrow> fault + sk_buff" where
  "skb_pull n skb =
     (if skb_len skb < n then Inr skb
      else if skb_headlen skb < n then Inl BugOn
      else Inr (skb\<lparr>skb_room := skb_room skb @ take n (skb_buf skb), skb_buf := drop n (skb_buf skb),
                    skb_headlen := skb_headlen skb - n\<rparr>))"

definition kfree_skb :: "drv \<Rightarrow> drv" where
  "kfree_skb d = d\<lparr>skb_live := skb_live d - 1\<rparr>"

text \<open>\<open>skb_copy\<close> gives a linear copy, or fails.\<close>

definition skb_copy :: "sk_buff \<Rightarrow> drv \<Rightarrow> sk_buff option \<times> drv" where
  "skb_copy skb d =
     (let d1 = d\<lparr>skb_copy_ok := skb_copy_ok d \<circ> Suc\<rparr>
      in if skb_copy_ok d 0
         then (Some (skb\<lparr>skb_buf := take (skb_headlen skb) (skb_buf skb) @ concat (skb_frags skb),
                         skb_headlen := skb_len skb, skb_frags := []\<rparr>), d1\<lparr>skb_live := skb_live d + 1\<rparr>)
         else (None, d1))"

definition wfspkt_alloc :: "nat \<Rightarrow> drv \<Rightarrow> sk_buff option \<times> drv" where
  "wfspkt_alloc data_len d =
     (let d1 = d\<lparr>skb_alloc := skb_alloc d \<circ> Suc\<rparr>
      in case skb_alloc d 0 of
           None \<Rightarrow> (None, d1)
         | Some g \<Rightarrow>
             (Some \<lparr>skb_room = [], skb_buf = map g [0..<WFSPKT_MAX_SIZE + ETH_FCS_LEN + data_len],
                    skb_headlen = 0, skb_frags = [], queue_mapping = 0, vlan_tci = 0,
                    skb_protocol = 0xB588\<rparr>, d1\<lparr>skb_live := skb_live d + 1\<rparr>))"

text \<open>
  \<open>getWfsAncePkt\<close>, \<open>getWfsRapsPkt\<close> and \<open>getWfsBertPkt\<close>: allocate, initialise the header, add the
  option and account for its bytes. The result is the buffer and the offset of the option.
\<close>

definition get_pkt ::
  "nat \<Rightarrow> u8 \<Rightarrow> u8 list \<Rightarrow> (drv \<Rightarrow> pkt \<Rightarrow> fault + (nat \<times> pkt)) \<Rightarrow> drv \<Rightarrow>
   fault + ((sk_buff \<times> nat) option \<times> drv)" where
  "get_pkt data_len ty mac add d =
     (case wfspkt_alloc data_len d of
        (None, d1) \<Rightarrow> Inr (None, d1)
      | (Some n, d1) \<Rightarrow>
          rbind (wfspkt_init ty 0 mac d1 (skb_buf n)) (\<lambda>(p, d2).
          rbind (add d2 p) (\<lambda>(opt, p2).
          rbind (pkt_len p2) (\<lambda>l.
          rbind (skb_put (unat l) (n\<lparr>skb_buf := p2\<rparr>)) (\<lambda>n'.
          Inr (Some (n', opt), d2))))))"

definition getWfsAncePkt :: "drv \<Rightarrow> fault + ((sk_buff \<times> nat) option \<times> drv)" where
  "getWfsAncePkt =
     get_pkt 0 WFSPKT_TYPE_CTRL_ANNOUNCE broadcast_mac
       (\<lambda>d. wfspkt_set_announce (mac_addr (iw d)) (iwa_ip (iw d)))"

definition getWfsRapsPkt :: "drv \<Rightarrow> fault + ((sk_buff \<times> nat) option \<times> drv)" where
  "getWfsRapsPkt = get_pkt 0 WFSPKT_TYPE_CTRL_RAPS broadcast_mac (\<lambda>d. wfspkt_set_raps)"

definition getWfsBertPkt :: "u8 \<Rightarrow> nat \<Rightarrow> drv \<Rightarrow> fault + ((sk_buff \<times> nat) option \<times> drv)" where
  "getWfsBertPkt wfsid data_len d =
     rbind (wfs_idx wfsid (wfspeer (iw d))) (\<lambda>peer.
     get_pkt data_len WFSPKT_TYPE_CTRL_BERT (wp_mac peer) (\<lambda>d. wfspkt_set_bert) d)"

end
