(* ===== verification/WfsTx.thy ===== *)
theory WfsTx
  imports WfsPacket
begin

text \<open>
  Transmission: the last step common to all frames (\<open>ixgbe_xmit_wfs_frame\<close>), the control packets
  of \<open>ixgbe_wfs.c\<close> that are sent on every channel, encapsulation and decapsulation, and the
  transmit entry of the net device (\<open>ixgbe_xmit_frame\<close>) with its choice of the channel.
  The answer of the hardware ring, \<open>ixgbe_xmit_frame_ring\<close>, is taken from \<open>xmit_rc\<close>.
\<close>

section \<open>Handing a frame to a ring\<close>

definition pad_to_17 :: "sk_buff \<Rightarrow> sk_buff" where
  "pad_to_17 skb =
     (let l = take (skb_headlen skb) (skb_buf skb) @ concat (skb_frags skb)
      in skb\<lparr>skb_buf := l @ replicate (17 - length l) 0, skb_headlen := 17, skb_frags := []\<rparr>)"

text \<open>
  The result is the return code; a code other than 0 leaves the buffer with the caller. The
  ring is the queue mapping modulo the number of queues (the choice of a ring for FCoE frames
  is not modelled).
\<close>

definition xmit_to_ring :: "sk_buff \<Rightarrow> nat \<Rightarrow> drv \<Rightarrow> fault + (int \<times> drv)" where
  "xmit_to_ring skb a d =
     (let n = unat (num_tx_queues (ads d a)); q = unat (queue_mapping skb); code = xmit_rc d 0;
          d1 = d\<lparr>xmit_rc := xmit_rc d \<circ> Suc\<rparr>
      in if n = 0 then Inl DivByZero
         else if code \<noteq> 0 then Inr (code, upd_iw (\<lambda>i. i\<lparr>xmit_err := xmit_err i + 1\<rparr>) d1)
         else Inr (0, d1\<lparr>tx_log := (a, if n \<le> q then q mod n else q, skb) # tx_log d1,
                         skb_live := skb_live d1 - 1\<rparr>))"

definition ixgbe_xmit_wfs_frame :: "sk_buff \<Rightarrow> nat \<Rightarrow> drv \<Rightarrow> fault + (int \<times> drv)" where
  "ixgbe_xmit_wfs_frame skb a d =
     (if \<not> ad_link_up (ads d a) \<or> \<not> carrier (nd d) then Inr (0, kfree_skb d)
      else if skb_len skb < 17 then
        (let d1 = d\<lparr>expand_ok := expand_ok d \<circ> Suc\<rparr>
         in if expand_ok d 0 then xmit_to_ring (pad_to_17 skb) a d1 else Inr (0, kfree_skb d1))
      else xmit_to_ring skb a d)"

text \<open>What every caller does with the return code: free the buffer unless it was taken.\<close>

definition xmit_or_free :: "sk_buff \<Rightarrow> nat \<Rightarrow> drv \<Rightarrow> fault + drv" where
  "xmit_or_free skb a d =
     rbind (ixgbe_xmit_wfs_frame skb a d) (\<lambda>(code, d1). Inr (if code \<noteq> 0 then kfree_skb d1 else d1))"

section \<open>Control packets on every channel\<close>

text \<open>\<open>for (adapter=iwa->primary; adapter; adapter=adapter->wfs_next)\<close>.\<close>

partial_function (option) each_channel ::
  "(nat \<Rightarrow> drv \<Rightarrow> fault + drv) \<Rightarrow> ptr \<Rightarrow> drv \<Rightarrow> (fault + drv) option" where
  "each_channel body a d =
     (if a = None then Some (Inr d)
      else (case body (the a) d of
              Inl e \<Rightarrow> Some (Inl e)
            | Inr d1 \<Rightarrow> each_channel body (wfs_next (ads d1 (the a))) d1))"

declare each_channel.simps [code]

text \<open>A fact about every step of the loop over the channels holds for the loop.\<close>

lemma each_channel_rel:
  assumes "each_channel body a d = Some (Inr d')" "\<And>d. P d d" "\<And>x y z. P x y \<Longrightarrow> P y z \<Longrightarrow> P x z"
    and "\<And>a d d'. body a d = Inr d' \<Longrightarrow> P d d'"
  shows "P d d'"
proof -
  have "(\<forall>a d d'. body a d = Inr d' \<longrightarrow> P d d') \<longrightarrow> (\<forall>d'. r = Inr d' \<longrightarrow> P d d')"
    if "each_channel body a d = Some r" for r
    using that
  proof (induction body a d r rule: each_channel.raw_induct)
    case (1 f body a d r)
    show ?case
    proof (cases a)
      case None
      with 1(2) assms(2) show ?thesis by auto
    next
      case (Some n)
      show ?thesis
      proof (cases "body n d")
        case (Inl e)
        with 1(2) Some show ?thesis by auto
      next
        case (Inr d1)
        with 1(2) Some have "f body (wfs_next (ads d1 n)) d1 = Some r" by simp
        moreover from 1(3) Some Inr have "each_channel body (wfs_next (ads d1 n)) d1 = Some r"
          by (subst (asm) each_channel.simps) simp
        ultimately show ?thesis using 1(1) Inr assms(3) by blast
      qed
    qed
  qed (rule that)
  with assms show ?thesis by blast
qed

definition send_body ::
  "(drv \<Rightarrow> fault + ((sk_buff \<times> nat) option \<times> drv)) \<Rightarrow> (nat \<Rightarrow> nat \<Rightarrow> drv \<Rightarrow> pkt \<Rightarrow> fault + pkt) \<Rightarrow>
   nat \<Rightarrow> drv \<Rightarrow> fault + drv" where
  "send_body get mark a d =
     (if \<not> ad_link_up (ads d a) then Inr d
      else rbind (get d) (\<lambda>(r, d1).
           case r of
             None \<Rightarrow> Inr d1
           | Some (skb, opt) \<Rightarrow>
               rbind (mark opt a d1 (skb_buf skb)) (\<lambda>p.
               xmit_or_free (skb\<lparr>skb_buf := p\<rparr>) a d1)))"

definition ixgbe_wfs_send_announce :: "drv \<Rightarrow> fault + drv" where
  "ixgbe_wfs_send_announce d =
     (if \<not> carrier (nd d) then Inr d
      else rbind (of_option (each_channel
             (send_body getWfsAncePkt (\<lambda>opt a d.
                if Some a = primary (iw d) then wfspkt_set_announce_primary opt (wfs_port (ads d a))
                else wfspkt_set_announce_secondary opt (wfs_port (ads d a))))
             (primary (iw d)) d)) id)"

definition ixgbe_wfs_send_raps :: "wfs_fsm_event \<Rightarrow> drv \<Rightarrow> fault + drv" where
  "ixgbe_wfs_send_raps event d =
     (if \<not> carrier (nd d) then Inr d
      else rbind (of_option (each_channel
             (send_body getWfsRapsPkt (\<lambda>opt a d.
                if event = E_rapsNR then wfspkt_set_raps_nr opt
                else if event = E_rapsSF then wfspkt_set_raps_sf opt
                else Inr))
             (primary (iw d)) d)) id)"

section \<open>Encapsulation\<close>

text \<open>
  \<open>ixgbe_wfs_encap\<close> builds the header in a local buffer (every byte of it that is copied has been
  written before) and pushes it in front of the frame. \<open>None\<close> is the NULL result.
\<close>

definition ixgbe_wfs_encap :: "sk_buff \<Rightarrow> drv \<Rightarrow> fault + (sk_buff option \<times> drv)" where
  "ixgbe_wfs_encap skb d =
     rbind (rds 0 6 (skb_buf skb)) (\<lambda>h_dest.
     let ty = (if h_dest = broadcast_mac then WFSPKT_TYPE_DATA_BROADCAST else WFSPKT_TYPE_DATA_UNICAST) in
     rbind (wfspkt_init ty (vlan_tci skb) h_dest d (replicate WFSPKT_MAX_SIZE 0)) (\<lambda>(p, d1).
     rbind (wfspkt_set_sequence (data_seqno (iw d1)) p) (\<lambda>(opt, p1).
     let d2 = upd_iw (\<lambda>i. i\<lparr>data_seqno := data_seqno i + 1\<rparr>) d1 in
     rbind (pkt_len p1) (\<lambda>l.
     let len = unat l;
         (room, d3) = (if length (skb_room skb) < len
                       then (if expand_ok d2 0 then Some (replicate len 0 @ skb_room skb) else None,
                             d2\<lparr>expand_ok := expand_ok d2 \<circ> Suc\<rparr>)
                       else (Some (skb_room skb), d2))
     in case room of
          None \<Rightarrow> Inr (None, d3)
        | Some r \<Rightarrow>
            rbind (skb_push len (skb\<lparr>skb_room := r\<rparr>)) (\<lambda>skb1.
            rbind (wr 0 (take len p1) (skb_buf skb1)) (\<lambda>b.
            Inr (Some (skb1\<lparr>skb_buf := b\<rparr>), d3)))))))"

text \<open>
  \<open>ixgbe_wfs_decap\<close> accepts the frame when the EtherType is the ring's and the header length in
  the packet is within the frame (\<open>pskb_may_pull\<close> makes the header linear).
\<close>

definition pskb_may_pull :: "sk_buff \<Rightarrow> nat \<Rightarrow> sk_buff option" where
  "pskb_may_pull skb len =
     (if len \<le> skb_headlen skb then Some skb
      else if skb_len skb < len then None
      else let l = take (skb_headlen skb) (skb_buf skb) @ concat (skb_frags skb)
           in Some (skb\<lparr>skb_buf := take len l, skb_headlen := len, skb_frags := [drop len l]\<rparr>))"

definition ixgbe_wfs_decap :: "sk_buff \<Rightarrow> fault + sk_buff option" where
  "ixgbe_wfs_decap skb =
     rbind (rds 12 2 (skb_buf skb)) (\<lambda>proto.
     if proto \<noteq> [0x88, 0xB5] then Inr None
     else rbind (pkt_len (skb_buf skb)) (\<lambda>l. Inr (pskb_may_pull skb (unat l))))"

section \<open>The transmit entry of the net device\<close>

definition egress :: "u8 \<Rightarrow> drv \<Rightarrow> fault + ptr" where
  "egress dest d =
     rbind (wfs_idx dest (wfspeer (iw d))) (\<lambda>peer.
     Inr (case fsm_state peer of S_idle \<Rightarrow> channel_pri peer | S_protect \<Rightarrow> channel_sec peer
                               | S_init \<Rightarrow> None))"

definition xmit_if_up :: "sk_buff \<Rightarrow> nat \<Rightarrow> drv \<Rightarrow> fault + drv" where
  "xmit_if_up skb a d = (if ad_link_up (ads d a) then xmit_or_free skb a d else Inr (kfree_skb d))"

definition ixgbe_xmit_frame :: "sk_buff \<Rightarrow> drv \<Rightarrow> fault + drv" where
  "ixgbe_xmit_frame skb d =
     (if iwa_state (iw d) \<noteq> opened \<or> \<not> iwa_link_up (iw d) \<or> \<not> carrier (nd d) then Inr (kfree_skb d)
      else rbind (ixgbe_wfs_encap skb d) (\<lambda>(r, d1).
        case r of
          None \<Rightarrow> Inr (kfree_skb d1)
        | Some skb \<Rightarrow>
            rbind (pkt_dest (skb_buf skb)) (\<lambda>dest.
            rbind (if dest = WFSID_ALL
                   then (let (nskb, d2) = skb_copy skb d1 in Inr (primary (iw d1), nskb, d2))
                   else rbind (egress dest d1) (\<lambda>a. Inr (a, None, d1))) (\<lambda>(adapter, nskb, d2).
            case adapter of
              None \<Rightarrow> Inr (kfree_skb d2)
            | Some a \<Rightarrow>
                rbind (xmit_if_up skb a d2) (\<lambda>d3.
                case nskb of
                  None \<Rightarrow> Inr d3
                | Some n \<Rightarrow> rbind (deref (wfs_other (ads d3 a))) (\<lambda>other. xmit_if_up n other d3))))))"

end
