(* ===== verification/WfsBert.thy ===== *)
theory WfsBert
  imports WfsTx
begin

text \<open>
  The bit error rate test: the block checksum and the test packets of \<open>ixgbe_wfs.c\<close>, and the
  start, stop and periodic sending of \<open>ixgbe_wfs_bert.c\<close> (the work queue version).
\<close>

section \<open>Checksums\<close>

abbreviation CBLK :: nat where "CBLK \<equiv> 128"

definition cblk_csum :: "(u8 list \<Rightarrow> u16) \<Rightarrow> u8 list \<Rightarrow> u16 \<Rightarrow> u16" where
  "cblk_csum ipc data csum = csum XOR ipc data"

definition pad_cblk :: "u8 list \<Rightarrow> u8 list" where
  "pad_cblk bs = bs @ replicate (CBLK - length bs) 0"

text \<open>The loop over full blocks; what remains is shorter than a block.\<close>

function csum_blocks :: "(u8 list \<Rightarrow> u16) \<Rightarrow> u8 list \<Rightarrow> u16 \<Rightarrow> u16 \<times> u8 list" where
  "csum_blocks ipc data csum =
     (if length data < CBLK then (csum, data)
      else csum_blocks ipc (drop CBLK data) (cblk_csum ipc (take CBLK data) csum))"
  by pat_completeness auto
termination by (relation "measure (\<lambda>(ipc, data, csum). length data)") auto

declare csum_blocks.simps [simp del]

definition ixgbe_wfs_get_bert_csum :: "(u8 list \<Rightarrow> u16) \<Rightarrow> u8 list \<Rightarrow> u16" where
  "ixgbe_wfs_get_bert_csum ipc data =
     (case csum_blocks ipc data 0 of
        (csum, rest) \<Rightarrow> if rest \<noteq> [] then cblk_csum ipc (pad_cblk rest) csum else csum)"

text \<open>
  \<open>ixgbe_wfs_get_bert_skb_csum\<close> keeps an incomplete block \<open>cs_blk\<close> between fragments: \<open>cs_ba\<close> is the
  fill position and \<open>cs_b\<close> what is left. When a fragment does not fill the block, \<open>len\<close> is set to 0
  before it is added to \<open>cs_ba\<close> and subtracted from \<open>cs_b\<close>.
\<close>

record csum_state =
  cs_csum :: u16
  cs_blk :: "u8 list"
  cs_ba :: nat
  cs_b :: nat

definition csum_rest :: "u8 list \<Rightarrow> csum_state \<Rightarrow> csum_state" where
  "csum_rest rest s =
     (if rest = [] then s
      else s\<lparr>cs_blk := write_bytes (cs_ba s) rest (replicate CBLK 0), cs_ba := cs_ba s + length rest,
             cs_b := cs_b s - length rest\<rparr>)"

definition csum_head :: "(u8 list \<Rightarrow> u16) \<Rightarrow> u8 list \<Rightarrow> csum_state" where
  "csum_head ipc va =
     (case csum_blocks ipc va 0 of
        (csum, rest) \<Rightarrow> csum_rest rest \<lparr>cs_csum = csum, cs_blk = replicate CBLK 0, cs_ba = 0, cs_b = CBLK\<rparr>)"

definition csum_frag :: "(u8 list \<Rightarrow> u16) \<Rightarrow> u8 list \<Rightarrow> csum_state \<Rightarrow> csum_state" where
  "csum_frag ipc va s =
     (let (va1, s1) =
            (if cs_b s < CBLK then
               (if length va < cs_b s
                then ([], s\<lparr>cs_blk := write_bytes (cs_ba s) va (cs_blk s)\<rparr>)
                else let c = write_bytes (cs_ba s) (take (cs_b s) va) (cs_blk s)
                     in (drop (cs_b s) va, s\<lparr>cs_csum := cblk_csum ipc c (cs_csum s), cs_blk := c, cs_ba := 0, cs_b := CBLK\<rparr>))
             else (va, s));
          (csum, rest) = csum_blocks ipc va1 (cs_csum s1)
      in csum_rest rest (s1\<lparr>cs_csum := csum\<rparr>))"

definition csum_final :: "(u8 list \<Rightarrow> u16) \<Rightarrow> csum_state \<Rightarrow> u16" where
  "csum_final ipc s = (if cs_b s < CBLK then cblk_csum ipc (cs_blk s) (cs_csum s) else cs_csum s)"

abbreviation bert_off_type :: nat where "bert_off_type \<equiv> 2"
abbreviation bert_off_seqno :: nat where "bert_off_seqno \<equiv> 3"
abbreviation bert_off_ts :: nat where "bert_off_ts \<equiv> 7"
abbreviation bert_off_data_len :: nat where "bert_off_data_len \<equiv> 15"
abbreviation bert_off_data_csum :: nat where "bert_off_data_csum \<equiv> 17"
abbreviation bert_off_data :: nat where "bert_off_data \<equiv> 19"

definition ixgbe_wfs_get_bert_skb_csum :: "(u8 list \<Rightarrow> u16) \<Rightarrow> sk_buff \<Rightarrow> fault + u16" where
  "ixgbe_wfs_get_bert_skb_csum ipc skb =
     rbind (wfspkt_getopt (skb_buf skb) WFSOPT_BERT) (\<lambda>opt.
     case opt of
       None \<Rightarrow> Inr (- 1)
     | Some o' \<Rightarrow>
         rbind (pkt_len (skb_buf skb)) (\<lambda>l.
         if skb_headlen skb < unat l then Inl OutOfBounds
         else
           rbind (rds (o' + bert_off_data) (skb_headlen skb - unat l) (skb_buf skb)) (\<lambda>va.
           Inr (csum_final ipc (fold (csum_frag ipc) (skb_frags skb) (csum_head ipc va))))))"

section \<open>Test packets\<close>

definition ixgbe_wfs_get_bert_skb ::
  "u8 \<Rightarrow> u8 list \<Rightarrow> u16 \<Rightarrow> drv \<Rightarrow> fault + (sk_buff option \<times> drv)" where
  "ixgbe_wfs_get_bert_skb wfsid data csum d =
     rbind (getWfsBertPkt wfsid (length data) d) (\<lambda>(r, d1).
     case r of
       None \<Rightarrow> Inr (None, d1)
     | Some (skb, opt) \<Rightarrow>
         rbind (wr (opt + bert_off_data_len) (le16 (of_nat (length data)) @ le16 csum) (skb_buf skb)) (\<lambda>p.
         rbind (skb_put (length data) (skb\<lparr>skb_buf := p\<rparr>)) (\<lambda>skb1.
         rbind (wr (skb_headlen skb) data (skb_buf skb1)) (\<lambda>p1.
         Inr (Some (skb1\<lparr>skb_buf := p1\<rparr>), d1)))))"

definition ixgbe_wfs_send_bert :: "u8 \<Rightarrow> drv \<Rightarrow> fault + drv" where
  "ixgbe_wfs_send_bert wfsid d =
     rbind (wfs_idx (myID d) (wfsbert (iw d))) (\<lambda>bertcfg.
     case bc_skb bertcfg of
       None \<Rightarrow> Inr d
     | Some orig \<Rightarrow>
         (case skb_copy orig d of
            (None, d1) \<Rightarrow> Inr d1
          | (Some skb, d1) \<Rightarrow>
              rbind (wfs_idx wfsid (wfspeer (iw d1))) (\<lambda>peer.
              if fsm_state peer = S_init then Inr d1
              else
                let adapter = (if fsm_state peer = S_idle then channel_pri peer else channel_sec peer) in
                rbind (rbind (wfspkt_getopt (skb_buf skb) WFSOPT_BERT) deref) (\<lambda>opt.
                let seq = bert_seqno (iw d1) + 1;
                    d2 = upd_iw (\<lambda>i. i\<lparr>bert_seqno := seq\<rparr>) d1;
                    reset = (seq \<le> 5);
                    ty = (if reset then WFSOPT_BERT_RESET else WFSOPT_BERT_REQUEST);
                    d3 = upd_bert (myID d2)
                           (\<lambda>c. (if reset then c\<lparr>bc_seqno := seq + 1, jfs := jiffies d2\<rparr> else c)
                                  \<lparr>jfs_last := jiffies d2\<rparr>) d2 in
                rbind (wr (opt + bert_off_type) (ty # le32 seq @ le64 (usecs d2)) (skb_buf skb)) (\<lambda>p.
                rbind (deref adapter) (\<lambda>a.
                rbind (ixgbe_xmit_wfs_frame (skb\<lparr>skb_buf := p\<rparr>) a d3) (\<lambda>(code, d4).
                Inr (if code \<noteq> 0 then kfree_skb d4
                     else if ty = WFSOPT_BERT_REQUEST then
                       upd_bert (myID d4) (\<lambda>c. c\<lparr>bc_stats := (bc_stats c)
                         \<lparr>tx_pkts := tx_pkts (bc_stats c) + 1,
                          tx_bytes := tx_bytes (bc_stats c) + of_nat (skb_len orig)\<rparr>\<rparr>) d4
                     else d4))))))))"

section \<open>The request work\<close>

text \<open>
  \<open>bert_request_main\<close> sends \<open>burst\<close> packets (the loop counter is an \<open>int\<close> compared with an
  \<open>unsigned long\<close>) and queues itself for the rest of the second. Time passes in \<open>udelay\<close>: \<open>clock i\<close>
  is the value of \<open>jiffies\<close> at the \<open>i\<close>-th packet, and after the last one.
\<close>

fun bert_send_loop :: "nat \<Rightarrow> nat \<Rightarrow> (nat \<Rightarrow> u64) \<Rightarrow> drv \<Rightarrow> fault + drv" where
  "bert_send_loop 0 i clock d = Inr (d\<lparr>jiffies := clock i\<rparr>)"
| "bert_send_loop (Suc n) i clock d =
     rbind (ixgbe_wfs_send_bert (responder (bert_ctrl (iw d))) (d\<lparr>jiffies := clock i\<rparr>))
       (bert_send_loop n (Suc i) clock)"

definition upd_bt :: "(wfs_bert_ctrl \<Rightarrow> wfs_bert_ctrl) \<Rightarrow> drv \<Rightarrow> drv" where
  "upd_bt f = upd_iw (\<lambda>i. i\<lparr>bert_ctrl := f (bert_ctrl i)\<rparr>)"

definition bert_request_main :: "(nat \<Rightarrow> u64) \<Rightarrow> drv \<Rightarrow> fault + drv" where
  "bert_request_main clock d =
     (let n = burst (bert_ctrl (iw d)); jfs_sec = jiffies d + of_nat HZ
      in if n = 0 then Inl DivByZero
         else rbind (bert_send_loop (min (unat n) (2 ^ 31)) 0 clock d) (\<lambda>d1.
              Inr (upd_bt (\<lambda>c. c\<lparr>bt_work := Some (if jiffies d1 < jfs_sec then jfs_sec - jiffies d1 else 1)\<rparr>) d1)))"

section \<open>Start and stop\<close>

record wfsctl_bert_cfg =
  bcfg_onoff :: u8
  bcfg_wfsid :: u8
  pkt_pattern_flag :: u8
  pkt_pattern :: u8
  pkt_size :: u32
  bandwidth :: u32

definition align8 :: "u32 \<Rightarrow> u32" where
  "align8 n = (n + 7) AND NOT 7"

text \<open>
  \<open>ixgbe_wfs_bert_start_request\<close>. The test data is written to the end of a buffer of
  \<open>ALIGN(pkt_size,8)\<close> bytes; \<open>data_len\<close> is a 16-bit field.
\<close>

definition ixgbe_wfs_bert_start_request :: "wfsctl_bert_cfg \<Rightarrow> drv \<Rightarrow> fault + (int \<times> drv)" where
  "ixgbe_wfs_bert_start_request cfg d =
     (if bt_on (bert_ctrl (iw d)) \<noteq> 0 then Inr (1, d)
      else
        let sz = sint (align8 (pkt_size cfg)); n = unat (pkt_size cfg);
            d1 = d\<lparr>kmalloc_ok := kmalloc_ok d \<circ> Suc\<rparr> in
        if \<not> kmalloc_ok d 0 then Inr (- 1, d1)
        else if sz < int n then Inl OutOfBounds
        else
          let d2 = d1\<lparr>kmem_live := kmem_live d1 + 1\<rparr>;
              (ka, d3) = (if pkt_pattern_flag cfg = 0 then (replicate n (pkt_pattern cfg), d2)
                          else (map (random_byte d2) [0..<n], d2\<lparr>random_byte := (\<lambda>i. random_byte d2 (i + n))\<rparr>));
              dl = ucast (pkt_size cfg) :: u16;
              data = take (unat dl) ka;
              csum = ixgbe_wfs_get_bert_csum (ip_compute_csum d3) data in
          rbind (wfs_idx (myID d3) (wfsbert (iw d3))) (\<lambda>_.
          rbind (ixgbe_wfs_get_bert_skb (bcfg_wfsid cfg) data csum d3) (\<lambda>(skb, d4).
          let d5 = upd_bert (myID d4) (\<lambda>c. c\<lparr>bc_data_len := dl, bc_data_csum := csum, bc_skb := skb\<rparr>) d4 in
          if skb = None then Inr (- 1, d5)
          else if n = 0 then Inl DivByZero
          else
            let d6 = upd_bert (myID d5) (\<lambda>c. c\<lparr>bc_seqno := 0, jfs := 0, jfs_last := 0,
                                              bc_stats := zero_bert_stats, bc_on := 1\<rparr>) d5;
                q = bandwidth cfg div pkt_size cfg;
                d7 = upd_bt (\<lambda>c. c\<lparr>responder := bcfg_wfsid cfg, burst := ucast (if q > 1 then q else 1),
                                  bt_on := 1, bt_work := Some (of_nat HZ)\<rparr>)
                       (upd_iw (\<lambda>i. i\<lparr>bert_seqno := 0\<rparr>) (d6\<lparr>kmem_live := kmem_live d6 - 1\<rparr>))
            in Inr (0, d7))))"

definition ixgbe_wfs_bert_stop_request :: "drv \<Rightarrow> fault + drv" where
  "ixgbe_wfs_bert_stop_request d =
     rbind (wfs_idx (myID d) (wfsbert (iw d))) (\<lambda>bertcfg.
     let d1 = upd_bt (\<lambda>c. c\<lparr>bt_on := 0, bt_work := None\<rparr>) d;
         d2 = (if bc_skb bertcfg \<noteq> None then kfree_skb d1 else d1)
     in Inr (upd_bert (myID d) (\<lambda>c. c\<lparr>bc_on := 0, bc_data_len := 0, bc_data_csum := 0, bc_skb := None\<rparr>) d2))"

text \<open>\<open>created\<close> is the answer of \<open>create_workqueue\<close>.\<close>

definition ixgbe_wfs_bert_init :: "bool \<Rightarrow> drv \<Rightarrow> int \<times> drv" where
  "ixgbe_wfs_bert_init created d =
     (if \<not> created then (- 1, d)
      else (0, upd_bt (\<lambda>c. \<lparr>bt_on = 0, bt_running = 0, responder = 0, burst = 0, bt_work = None\<rparr>) d))"

definition ixgbe_wfs_bert_cleanup :: "drv \<Rightarrow> fault + drv" where
  "ixgbe_wfs_bert_cleanup d = ixgbe_wfs_bert_stop_request d"

end
