(* ===== verification/WfsFsm.thy ===== *)
theory WfsFsm
  imports WfsState
begin

text \<open>
  The state machine of \<open>ixgbe_wfs_raps.c\<close>: the pool of event buffers, the transition table, the
  actions, the event queue (\<open>ixgbe_wfs_fsm_set_event\<close>) and its processing (\<open>wfs_fsm_run\<close>).
\<close>

section \<open>Event buffers\<close>

definition wfs_fsm_close_event :: "ptr \<Rightarrow> ev_pool \<Rightarrow> fault + ev_pool" where
  "wfs_fsm_close_event p s =
     (case p of
        None \<Rightarrow> Inl BugOn
      | Some n \<Rightarrow>
          (let h = (ev_heap s)(n := (ev_heap s n)\<lparr>eb_next := None\<rparr>)
           in Inr (case fsmEvBuf_tail s of
                     Some t \<Rightarrow> s\<lparr>ev_heap := h(t := (h t)\<lparr>eb_next := Some n\<rparr>), fsmEvBuf_tail := Some n\<rparr>
                   | None \<Rightarrow> s\<lparr>ev_heap := h, fsmEvBuf_head := Some n, fsmEvBuf_tail := Some n\<rparr>)))"

definition wfs_fsm_alloc_event :: "ev_pool \<Rightarrow> ptr \<times> ev_pool" where
  "wfs_fsm_alloc_event s =
     (case fsmEvBuf_head s of
        Some n \<Rightarrow>
          (let hd' = eb_next (ev_heap s n)
           in (Some n, s\<lparr>fsmEvBuf_head := hd',
                         fsmEvBuf_tail := (if hd' = None then None else fsmEvBuf_tail s)\<rparr>))
      | None \<Rightarrow>
          if fsmEvBuf_count s < of_nat EVBUF_MAX_NUM then
            (let s1 = s\<lparr>ev_kmalloc := ev_kmalloc s \<circ> Suc\<rparr>
             in case ev_kmalloc s 0 of
                  None \<Rightarrow> (None, s1)
                | Some n \<Rightarrow>
                    (Some n, s1\<lparr>ev_heap := (ev_heap s)(n := (ev_heap s n)\<lparr>next_eb := fsmEvBufs s\<rparr>),
                                fsmEvBufs := Some n, fsmEvBuf_count := fsmEvBuf_count s + 1\<rparr>))
          else (None, s))"

definition ev_chain :: "ev_pool \<Rightarrow> nat \<Rightarrow> ptr" where
  "ev_chain s n = next_eb (ev_heap s n)"

definition ev_free_buffer :: "nat \<Rightarrow> ev_pool \<Rightarrow> ev_pool option" where
  "ev_free_buffer n s = (case wfs_fsm_close_event (Some n) s of Inl _ \<Rightarrow> None | Inr s' \<Rightarrow> Some s')"

text \<open>
  \<open>ixgbe_wfs_fsm_init\<close> (the transition table is the function \<open>fsm_valid\<close> below): allocate
  \<open>EVBUF_MIN_NUM\<close> buffers, then free every buffer of the allocation list.
\<close>

definition ixgbe_wfs_fsm_init :: "ev_pool \<Rightarrow> fault + (int \<times> ev_pool)" where
  "ixgbe_wfs_fsm_init s =
     (case pool_get_n wfs_fsm_alloc_event EVBUF_MIN_NUM s of
        (False, s1) \<Rightarrow> Inr (- ENOMEM, s1)
      | (True, s1) \<Rightarrow>
          rbind (of_option (pool_put_all ev_chain ev_free_buffer (fsmEvBufs s1) s1))
            (\<lambda>s2. Inr (0, s2)))"

text \<open>\<open>ixgbe_wfs_fsm_cleanup\<close> frees the buffers of the allocation list; the result lists them.\<close>

definition ixgbe_wfs_fsm_cleanup :: "ev_pool \<Rightarrow> fault + nat list" where
  "ixgbe_wfs_fsm_cleanup s = of_option (pool_walk (ev_chain s) (fsmEvBufs s))"

definition ev_pool_ok :: "ev_pool \<Rightarrow> nat list \<Rightarrow> nat list \<Rightarrow> bool" where
  "ev_pool_ok s fr al \<longleftrightarrow>
     fifo_at eb_next (ev_heap s) (fsmEvBuf_head s) (fsmEvBuf_tail s) fr \<and>
     list_at next_eb (ev_heap s) (fsmEvBufs s) al \<and> distinct al \<and> set fr \<subseteq> set al \<and>
     length al \<le> EVBUF_MAX_NUM \<and> fsmEvBuf_count s = of_nat (length al) \<and>
     fresh_supply (ev_kmalloc s) al"

lemma ev_free_buffer_eq:
  "ev_free_buffer n s =
     (let h = (ev_heap s)(n := (ev_heap s n)\<lparr>eb_next := None\<rparr>)
      in Some (case fsmEvBuf_tail s of
                 Some t \<Rightarrow> s\<lparr>ev_heap := h(t := (h t)\<lparr>eb_next := Some n\<rparr>), fsmEvBuf_tail := Some n\<rparr>
               | None \<Rightarrow> s\<lparr>ev_heap := h, fsmEvBuf_head := Some n, fsmEvBuf_tail := Some n\<rparr>))"
  by (simp add: ev_free_buffer_def wfs_fsm_close_event_def Let_def)

lemma ev_free_buffer_pool:
  assumes "ev_pool_ok s fr al" "a \<in> set al" "a \<notin> set fr"
  shows "\<exists>s'. ev_free_buffer a s = Some s' \<and> ev_pool_ok s' (fr @ [a]) al"
proof (cases "fsmEvBuf_tail s")
  case None
  with assms fifo_at_snoc(1)[of eb_next "ev_heap s" "fsmEvBuf_head s" None fr a
      "(ev_heap s a)\<lparr>eb_next := None\<rparr>"]
  show ?thesis
    by (auto simp: ev_free_buffer_eq ev_pool_ok_def Let_def heap_simps)
next
  case (Some t)
  let ?h = "(ev_heap s)(a := (ev_heap s a)\<lparr>eb_next := None\<rparr>)"
  from assms Some have "t \<noteq> a" by (auto simp: ev_pool_ok_def fifo_at_def split: if_splits)
  with assms Some fifo_at_snoc(2)[of eb_next "ev_heap s" "fsmEvBuf_head s" "Some t" fr a
      "(ev_heap s a)\<lparr>eb_next := None\<rparr>" t "(?h t)\<lparr>eb_next := Some a\<rparr>"]
  show ?thesis
    by (auto simp: ev_free_buffer_eq ev_pool_ok_def Let_def heap_simps)
qed

lemma alloc_event_head:
  "ev_pool_ok s (a # fr) al \<Longrightarrow> \<exists>s'. wfs_fsm_alloc_event s = (Some a, s') \<and> ev_pool_ok s' fr al"
  by (cases "eb_next (ev_heap s a)")
    (auto simp: ev_pool_ok_def wfs_fsm_alloc_event_def Let_def fifo_at_def split: if_splits)

lemma alloc_event_new:
  assumes "ev_pool_ok s [] al" "wfs_fsm_alloc_event s = (Some a, s')"
  shows "a \<notin> set al \<and> length al < EVBUF_MAX_NUM \<and> ev_pool_ok s' [] (a # al)"
proof -
  from assms have small: "(of_nat (length al) :: u32) < of_nat EVBUF_MAX_NUM"
    and km: "ev_kmalloc s 0 = Some a" and len: "length al \<le> EVBUF_MAX_NUM"
    by (auto simp: ev_pool_ok_def wfs_fsm_alloc_event_def Let_def split: if_splits option.splits)
  from small len have "length al < EVBUF_MAX_NUM"
    by (simp add: word_less_nat_alt unat_of_nat)
  with assms km fresh_supplyD[of "ev_kmalloc s" al 0 a] fresh_supply_Suc(2)[of "ev_kmalloc s" al a]
  show ?thesis
    by (auto simp: ev_pool_ok_def wfs_fsm_alloc_event_def Let_def heap_simps split: if_splits)
qed

lemma alloc_event_none:
  "ev_pool_ok s fr al \<Longrightarrow> wfs_fsm_alloc_event s = (None, s') \<Longrightarrow> ev_pool_ok s' fr al \<and> fr = []"
  by (auto simp: ev_pool_ok_def wfs_fsm_alloc_event_def Let_def fifo_at_head_None fresh_supply_Suc
      split: if_splits option.splits)

interpretation evpool: free_pool ev_pool_ok ev_free_buffer wfs_fsm_alloc_event ev_chain fsmEvBufs EVBUF_MAX_NUM
proof unfold_locales
  fix s fr al
  assume "ev_pool_ok s fr al"
  then show "distinct al \<and> distinct fr \<and> set fr \<subseteq> set al \<and> length al \<le> EVBUF_MAX_NUM"
    and "list_at (ev_chain s) (\<lambda>a. a) (fsmEvBufs s) al"
    by (auto simp: ev_pool_ok_def fifo_at_def ev_chain_def[abs_def] list_at_comp[symmetric])
next
  show "ev_free_buffer a s = Some s' \<Longrightarrow> ev_chain s' b = ev_chain s b" for a s s' b
    by (auto simp: ev_free_buffer_eq ev_chain_def Let_def split: option.splits)
qed (auto dest: alloc_event_new alloc_event_none intro: ev_free_buffer_pool alloc_event_head)

section \<open>The transition table\<close>

text \<open>\<open>fsm[state][event][local].valid_entry\<close> as \<open>ixgbe_wfs_fsm_init\<close> fills it.\<close>

fun fsm_valid :: "wfs_fsm_state \<Rightarrow> wfs_fsm_event \<Rightarrow> bool \<Rightarrow> bool" where
  "fsm_valid S_init E_discover _ = True"
| "fsm_valid S_init _ _ = False"
| "fsm_valid _ E_discover is_local = (\<not> is_local)"
| "fsm_valid _ E_expire is_local = (\<not> is_local)"
| "fsm_valid _ E_localSF _ = True"
| "fsm_valid _ E_clear_localSF is_local = is_local"
| "fsm_valid _ E_rapsSF is_local = (\<not> is_local)"
| "fsm_valid S_protect E_rapsNR is_local = (\<not> is_local)"
| "fsm_valid S_idle E_rapsNR _ = False"

section \<open>Actions\<close>

text \<open>Updating the channels of a remote peer from an announce packet.\<close>

definition discover_channels :: "wfs_fsm_event_data \<Rightarrow> wfs_peer \<Rightarrow> wfs_peer" where
  "discover_channels ev peer =
     (if is_primary_annouce ev \<noteq> 0 then
        (let p = peer\<lparr>channel_pri := recv_channel ev, port_pri := ucast (peer_port ev),
                      ttl_pri := RAPS_PEER_TIMEOUT\<rparr>
         in if channel_sec p = channel_pri p then p\<lparr>channel_sec := None, port_sec := - 1\<rparr> else p)
      else
        (let p = peer\<lparr>channel_sec := recv_channel ev, port_sec := ucast (peer_port ev),
                      ttl_sec := RAPS_PEER_TIMEOUT\<rparr>
         in if channel_pri p = channel_sec p then p\<lparr>channel_pri := None, port_pri := - 1\<rparr> else p))"

definition discover_state :: "wfs_peer \<Rightarrow> wfs_peer" where
  "discover_state peer =
     (let priLinkup = channel_pri peer \<noteq> None; secLinkup = channel_sec peer \<noteq> None
      in if fsm_state peer = S_init then
           (if priLinkup then peer\<lparr>fsm_state := S_idle\<rparr>
            else if secLinkup then peer\<lparr>fsm_state := S_protect\<rparr> else peer)
         else if fsm_state peer = S_idle \<and> \<not> priLinkup then peer\<lparr>fsm_state := S_protect\<rparr>
         else if fsm_state peer = S_protect then
           (if priLinkup then peer\<lparr>fsm_state := S_idle\<rparr> else peer)
         else peer)"

definition wfs_fsm_action_discover :: "u8 \<Rightarrow> wfs_fsm_event_data \<Rightarrow> drv \<Rightarrow> fault + drv" where
  "wfs_fsm_action_discover wfsid evdata d =
     (let d1 = (if wfsid = myID d then
                  upd_rc (\<lambda>r. r\<lparr>flag := flag r OR RAPS_CTRL_ANNOUNCE, t_announce := RAPS_ANNOUNCE_INT\<rparr>) d
                else
                  upd_peer wfsid (discover_channels evdata)
                    (upd_rc (\<lambda>r. r\<lparr>flag := flag r OR RAPS_CTRL_PEER_TTL, t_peer := RAPS_PEER_TIMEOUT\<rparr>) d));
          d2 = upd_peer wfsid discover_state d1;
          peer = peer_of d2 wfsid
      in if fsm_state peer \<noteq> S_init
         then on_fib (ixgbe_wfs_fib_update (jiffies d2) 0 (wp_mac peer) (wp_ip peer) wfsid) d2
         else Inr d2)"

definition drop_pri :: "wfs_peer \<Rightarrow> wfs_peer" where
  "drop_pri peer = peer\<lparr>channel_pri := None, port_pri := - 1\<rparr>"

definition drop_sec :: "wfs_peer \<Rightarrow> wfs_peer" where
  "drop_sec peer = peer\<lparr>channel_sec := None, port_sec := - 1\<rparr>"

definition flush_if_init :: "u8 \<Rightarrow> drv \<Rightarrow> fault + drv" where
  "flush_if_init wfsid d =
     (if fsm_state (peer_of d wfsid) = S_init then on_fib (ixgbe_wfs_fib_delete_wfsid wfsid) d else Inr d)"

definition expire_channels :: "wfs_peer \<Rightarrow> wfs_peer" where
  "expire_channels peer =
     (let p = (if sint (ttl_pri peer) \<le> 0 then drop_pri peer else peer)
      in if sint (ttl_sec p) \<le> 0 then drop_sec p else p)"

definition expire_state :: "wfs_peer \<Rightarrow> wfs_peer" where
  "expire_state peer =
     (let priLinkup = channel_pri peer \<noteq> None; secLinkup = channel_sec peer \<noteq> None
      in if fsm_state peer = S_idle \<and> \<not> priLinkup then
           peer\<lparr>fsm_state := (if secLinkup then S_protect else S_init)\<rparr>
         else if fsm_state peer = S_protect then
           (if priLinkup then peer\<lparr>fsm_state := S_idle\<rparr>
            else if \<not> secLinkup then peer\<lparr>fsm_state := S_init\<rparr> else peer)
         else peer)"

definition wfs_fsm_action_expire :: "u8 \<Rightarrow> wfs_fsm_event_data \<Rightarrow> drv \<Rightarrow> fault + drv" where
  "wfs_fsm_action_expire wfsid evdata d =
     (if wfsid = myID d then Inl BugOn
      else flush_if_init wfsid (upd_peer wfsid (expire_state \<circ> expire_channels) d))"

text \<open>
  The state change on a link failure, with the link status of both channels: of \<open>E_localSF\<close>
  (a local workstation without any link keeps its state) and of \<open>E_rapsSF\<close>.
\<close>

definition sf_state :: "bool \<Rightarrow> bool \<Rightarrow> bool \<Rightarrow> wfs_peer \<Rightarrow> wfs_peer" where
  "sf_state is_local priLinkup secLinkup peer =
     (if fsm_state peer = S_idle \<and> \<not> priLinkup then
        (if secLinkup then peer\<lparr>fsm_state := S_protect\<rparr>
         else if \<not> is_local then peer\<lparr>fsm_state := S_init\<rparr> else peer)
      else if fsm_state peer = S_protect \<and> \<not> secLinkup then
        (if priLinkup then peer\<lparr>fsm_state := S_idle\<rparr>
         else if \<not> is_local then peer\<lparr>fsm_state := S_init\<rparr> else peer)
      else peer)"

definition wfs_fsm_action_localSF :: "u8 \<Rightarrow> wfs_fsm_event_data \<Rightarrow> drv \<Rightarrow> fault + drv" where
  "wfs_fsm_action_localSF wfsid evdata d =
     (let peer = peer_of d wfsid;
          priLinkup = chan_up d (channel_pri peer);
          secLinkup = chan_up d (channel_sec peer);
          d1 = (if wfsid = myID d then
                  upd_rc (\<lambda>r. r\<lparr>flag := (flag r OR RAPS_CTRL_SF) AND NOT RAPS_CTRL_NR,
                                t_rapsSF := RAPS_SF_INT\<rparr>) d
                else
                  upd_peer wfsid (\<lambda>p. (if secLinkup then id else drop_sec)
                                        ((if priLinkup then id else drop_pri) p)) d)
      in flush_if_init wfsid (upd_peer wfsid (sf_state (wfsid = myID d) priLinkup secLinkup) d1))"

definition wfs_fsm_action_clear_localSF :: "u8 \<Rightarrow> wfs_fsm_event_data \<Rightarrow> drv \<Rightarrow> fault + drv" where
  "wfs_fsm_action_clear_localSF wfsid evdata d =
     (if wfsid \<noteq> myID d then Inl BugOn
      else
        let d1 = upd_rc (\<lambda>r. r\<lparr>flag := (flag r AND NOT RAPS_CTRL_SF) OR RAPS_CTRL_NR,
                               t_rapsNR := RAPS_NR_INT, c_rapsNR := RAPS_NR_COUNT\<rparr>) d;
            peer = peer_of d1 wfsid
        in Inr (if chan_up d1 (channel_pri peer) \<and> chan_up d1 (channel_sec peer) \<and>
                   fsm_state peer = S_protect
                then upd_peer wfsid (\<lambda>p. p\<lparr>fsm_state := S_idle\<rparr>) d1 else d1))"

definition wfs_fsm_action_rapsSF :: "u8 \<Rightarrow> wfs_fsm_event_data \<Rightarrow> drv \<Rightarrow> fault + drv" where
  "wfs_fsm_action_rapsSF wfsid evdata d =
     (if wfsid = myID d then Inl BugOn
      else
        let d1 = upd_peer wfsid (if failure_on_primary evdata \<noteq> 0 then drop_pri else drop_sec) d;
            peer = peer_of d1 wfsid
        in flush_if_init wfsid
             (upd_peer wfsid (sf_state False (channel_pri peer \<noteq> None) (channel_sec peer \<noteq> None)) d1))"

definition wfs_fsm_action_rapsNR :: "u8 \<Rightarrow> wfs_fsm_event_data \<Rightarrow> drv \<Rightarrow> fault + drv" where
  "wfs_fsm_action_rapsNR wfsid evdata d =
     (let peer = peer_of d wfsid
      in Inr (if chan_up d (channel_pri peer) \<and> chan_up d (channel_sec peer)
              then upd_peer wfsid (\<lambda>p. p\<lparr>fsm_state := S_idle\<rparr>) d else d))"

text \<open>\<open>fsm[state][event][local].action\<close>: it depends on the event only.\<close>

fun fsm_action :: "wfs_fsm_event \<Rightarrow> u8 \<Rightarrow> wfs_fsm_event_data \<Rightarrow> drv \<Rightarrow> fault + drv" where
  "fsm_action E_discover = wfs_fsm_action_discover"
| "fsm_action E_expire = wfs_fsm_action_expire"
| "fsm_action E_localSF = wfs_fsm_action_localSF"
| "fsm_action E_clear_localSF = wfs_fsm_action_clear_localSF"
| "fsm_action E_rapsSF = wfs_fsm_action_rapsSF"
| "fsm_action E_rapsNR = wfs_fsm_action_rapsNR"

section \<open>Queueing events\<close>

definition upd_evp :: "(ev_pool \<Rightarrow> ev_pool) \<Rightarrow> drv \<Rightarrow> drv" where
  "upd_evp f = upd_iw (\<lambda>i. i\<lparr>evp := f (evp i)\<rparr>)"

definition upd_ev :: "nat \<Rightarrow> (wfs_fsm_event_buffer \<Rightarrow> wfs_fsm_event_buffer) \<Rightarrow> drv \<Rightarrow> drv" where
  "upd_ev n f = upd_evp (\<lambda>s. s\<lparr>ev_heap := (ev_heap s)(n := f (ev_heap s n))\<rparr>)"

definition fsm_enqueue :: "nat \<Rightarrow> u8 \<Rightarrow> wfs_fsm_event \<Rightarrow> wfs_fsm_event_data option \<Rightarrow> drv \<Rightarrow> drv" where
  "fsm_enqueue n wfsid e evdata d =
     (let d1 = upd_ev n (\<lambda>b. b\<lparr>eb_wfsid := wfsid, eb_event := e,
                   eb_data := (case evdata of Some x \<Rightarrow> x | None \<Rightarrow> zero_event_data), eb_next := None\<rparr>) d;
          d2 = (case fsm_event_tail (rc d1) of
                  Some t \<Rightarrow> upd_rc (\<lambda>r. r\<lparr>fsm_event_tail := Some n\<rparr>) (upd_ev t (\<lambda>b. b\<lparr>eb_next := Some n\<rparr>) d1)
                | None \<Rightarrow> upd_rc (\<lambda>r. r\<lparr>fsm_event_head := Some n, fsm_event_tail := Some n\<rparr>) d1)
      in upd_rc (\<lambda>r. r\<lparr>flag := flag r OR RAPS_CTRL_FSM_EVENT\<rparr>) d2)"

fun set_event_loop :: "nat list \<Rightarrow> u8 \<Rightarrow> wfs_fsm_event \<Rightarrow> wfs_fsm_event_data option \<Rightarrow> drv \<Rightarrow> drv" where
  "set_event_loop [] wfsid e evdata d = d"
| "set_event_loop (i # is) wfsid e evdata d =
     (if wfsid \<noteq> WFSID_ALL \<and> unat wfsid \<noteq> i then set_event_loop is wfsid e evdata d
      else if \<not> fsm_valid (fsm_state (wfspeer (iw d) ! (i - 1))) e (of_nat i = myID d)
      then set_event_loop is wfsid e evdata d
      else case wfs_fsm_alloc_event (evp (iw d)) of
             (None, s) \<Rightarrow> upd_evp (\<lambda>_. s) d
           | (Some n, s) \<Rightarrow>
               set_event_loop is wfsid e evdata (fsm_enqueue n (of_nat i) e evdata (upd_evp (\<lambda>_. s) d)))"

definition ixgbe_wfs_fsm_set_event ::
  "u8 \<Rightarrow> wfs_fsm_event \<Rightarrow> wfs_fsm_event_data option \<Rightarrow> drv \<Rightarrow> drv" where
  "ixgbe_wfs_fsm_set_event wfsid e evdata d =
     (if iwa_state (iw d) \<noteq> opened then d
      else set_event_loop [WFSID_MIN..<Suc WFSID_MAX] wfsid e evdata d)"

section \<open>Running the machine\<close>

definition on_evp :: "(ev_pool \<Rightarrow> fault + ev_pool) \<Rightarrow> drv \<Rightarrow> fault + drv" where
  "on_evp f d = rbind (f (evp (iw d))) (\<lambda>s. Inr (upd_evp (\<lambda>_. s) d))"

text \<open>The body of the loop of \<open>wfs_fsm_run\<close> for the event buffer \<open>n\<close>.\<close>

definition fsm_run_step :: "nat \<Rightarrow> drv \<Rightarrow> fault + drv" where
  "fsm_run_step n d =
     (let eb = ev_heap (evp (iw d)) n; wfsid = eb_wfsid eb
      in if bad_wfsid wfsid then Inl BugOn
         else if \<not> fsm_valid (fsm_state (peer_of d wfsid)) (eb_event eb) (wfsid = myID d)
         then on_evp (wfs_fsm_close_event (Some n)) d
         else rbind (fsm_action (eb_event eb) wfsid (eb_data eb) d) (\<lambda>d1.
              let peer = peer_of d1 wfsid
              in if fsm_state peer = S_idle \<and> channel_pri peer = None then Inl BugOn
                 else if fsm_state peer = S_protect \<and> channel_sec peer = None then Inl BugOn
                 else on_evp (wfs_fsm_close_event (Some n)) d1))"

partial_function (option) fsm_run_loop :: "ptr \<Rightarrow> drv \<Rightarrow> (fault + drv) option" where
  "fsm_run_loop eb d =
     (if eb = None then Some (Inr d)
      else let n = the eb; nexteb = eb_next (ev_heap (evp (iw d)) n) in
           (case fsm_run_step n d of
              Inl e \<Rightarrow> Some (Inl e)
            | Inr d1 \<Rightarrow> fsm_run_loop nexteb d1))"

declare fsm_run_loop.simps [code]

definition wfs_fsm_run :: "drv \<Rightarrow> fault + drv" where
  "wfs_fsm_run d =
     rbind (of_option (fsm_run_loop (fsm_event_head (rc d)) d)) (\<lambda>r.
     rbind r (\<lambda>d1.
     Inr (upd_rc (\<lambda>r. r\<lparr>fsm_event_head := None, fsm_event_tail := None,
                       flag := flag r AND NOT RAPS_CTRL_FSM_EVENT\<rparr>) d1)))"

end
