(* ===== verification/WfsDemo.thy ===== *)
theory WfsDemo
  imports WfsState
begin

text \<open>
  A small concrete ring adapter, the state at which the properties of the other theories are
  exercised: workstation 1 with the adapters 0 (primary) and 1 (secondary), both links up;
  workstation 2 is idle with both channels known; one event is queued and two buffers are free;
  the forwarding table is empty.
\<close>

definition demo_buffer :: "ptr \<Rightarrow> ptr \<Rightarrow> wfs_fsm_event_buffer" where
  "demo_buffer nxt chain = \<lparr>eb_next = nxt, next_eb = chain, eb_wfsid = 2, eb_event = E_rapsSF,
     eb_data = \<lparr>ed_byte0 = 1, ed_byte1 = 0, ed_channel = None\<rparr>\<rparr>"

definition demo_pool :: ev_pool where
  "demo_pool = \<lparr>ev_heap = (\<lambda>_. demo_buffer None None)
       (6 := demo_buffer (Some 7) (Some 5), 7 := demo_buffer None (Some 6)),
     fsmEvBufs = Some 7, fsmEvBuf_head = Some 6, fsmEvBuf_tail = Some 7, fsmEvBuf_count = 3,
     ev_kmalloc = (\<lambda>i. Some (100 + i))\<rparr>"

definition demo_key :: fib_key where
  "demo_key = \<lparr>key_vid = 0, key_mac = replicate 6 0\<rparr>"

definition demo_fib :: fib_state where
  "demo_fib = \<lparr>fib_rb = \<lparr>rbh = (\<lambda>_. \<lparr>rb_parent = None, rb_color = RB_BLACK, rb_right = None, rb_left = None\<rparr>),
                        rb_root = None\<rparr>,
     fib_heap = (\<lambda>_. \<lparr>next_alloc = None, next_free = None, key = demo_key, fn_ip = 0, fn_wfsid = 0, time_tag = 0\<rparr>),
     fibns = None, fibn_head = None, fibn_tail = None, fib_timer_pending = True, fib_timer_expires = 0,
     current_time_tag = 0, fib_alloc_size = 0, fib_size = 0,
     fib_kmalloc = (\<lambda>i. Some i), fib_stack = (\<lambda>_. demo_key)\<rparr>"

definition demo_peer :: "u8 \<Rightarrow> wfs_fsm_state \<Rightarrow> wfs_peer" where
  "demo_peer w st = zero_peer\<lparr>wp_mac := [2, 0, 0, 0, 0, w], ttl_pri := RAPS_PEER_TIMEOUT,
     ttl_sec := RAPS_PEER_TIMEOUT, channel_pri := Some 0, channel_sec := Some 1, fsm_state := st\<rparr>"

definition demo_bert :: wfs_bert_cfg where
  "demo_bert = \<lparr>bc_on = 0, jfs = 0, jfs_last = 0, bc_seqno = 0, bc_skb = None, bc_data_len = 0,
     bc_data_csum = 0, bc_stats = zero_bert_stats\<rparr>"

definition demo_iwa :: ixgbe_wfs_adapter where
  "demo_iwa = \<lparr>index = 0, iwa_state = opened, iwa_name = ''ring'', wfs_id = 1,
     mac_addr = [2, 0, 0, 0, 0, 1], iwa_ip = 0, dev_id = 0, primary = Some 0, secondary = Some 1,
     iwa_link_up = True, xmit_err = 0, data_seqno = 0, raps_timer_pending = False,
     raps_timer_expires = 0,
     raps_ctrl = zero_raps_ctrl\<lparr>flag := RAPS_CTRL_FSM_EVENT, fsm_event_head := Some 5, fsm_event_tail := Some 5\<rparr>,
     evp = demo_pool, wfspeer = demo_peer 1 S_init # demo_peer 2 S_idle # replicate 6 zero_peer,
     fib = demo_fib,
     bert_ctrl = \<lparr>bt_on = 0, bt_running = 0, responder = 0, burst = 0, bt_work = None\<rparr>,
     bert_seqno = 0, wfsbert = replicate 8 demo_bert\<rparr>"

definition demo_adapter :: "nat \<Rightarrow> ixgbe_adapter" where
  "demo_adapter n = \<lparr>is_wfs_primary = (n = 0), wfs_next = (if n = 0 then Some 1 else None),
     wfs_other = Some (if n = 0 then 1 else 0), wfs_port = of_nat n, ad_link_up = True,
     num_tx_queues = 1, need_link_update = False\<rparr>"

definition demo :: drv where
  "demo = \<lparr>iw = demo_iwa, ads = demo_adapter,
     nd = \<lparr>carrier = True, tx_stopped = False, nd_ip = None\<rparr>, jiffies = 1000, usecs = 0,
     skb_alloc = (\<lambda>_. Some (\<lambda>_. 0)), skb_copy_ok = (\<lambda>_. True), expand_ok = (\<lambda>_. True),
     xmit_rc = (\<lambda>_. 0), random_byte = (\<lambda>_. 0), kmalloc_ok = (\<lambda>_. True),
     stack_event = zero_event_data, ip_compute_csum = (\<lambda>bs. of_nat (sum_list (map unat bs))),
     kmem_live = 0, tx_log = [], skb_live = 0\<rparr>"

text \<open>An Ethernet broadcast of 60 bytes, and the same broadcast as workstation 2 sends it.\<close>

definition demo_skb :: "u8 list \<Rightarrow> sk_buff" where
  "demo_skb bs = \<lparr>skb_room = replicate 64 0, skb_buf = bs, skb_headlen = List.length bs, skb_frags = [],
     queue_mapping = 0, vlan_tci = 0, skb_protocol = 8\<rparr>"

definition demo_broadcast :: "u8 list" where
  "demo_broadcast = replicate 6 0xff @ [2, 0, 0, 0, 0, 9] @ [8, 0] @ replicate 46 7"

definition demo_ring_broadcast :: "u8 list" where
  "demo_ring_broadcast = replicate 6 0xff @ [2, 0, 0, 0, 0, 2] @ [0x88, 0xB5, 0xA0, 0xff, 2, 18] @ demo_broadcast"

end
