(* ===== verification/WfsFsmProps.thy ===== *)
theory WfsFsmProps
  imports WfsFsm WfsDemo
begin

text \<open>
  What the state machine guarantees: every action follows the transition table documented in
  \<open>ixgbe_wfs_raps.h\<close> (with two exceptions), an active state always has its channel, an action
  fails only when a forwarding table operation fails, and the event queue and the buffer pool
  keep all buffers.
\<close>

section \<open>Frame rules\<close>

lemma upd_rc_simps [simp]:
  "wfspeer (iw (upd_rc f d)) = wfspeer (iw d)" "fib (iw (upd_rc f d)) = fib (iw d)"
  "evp (iw (upd_rc f d)) = evp (iw d)" "wfs_id (iw (upd_rc f d)) = wfs_id (iw d)"
  "rc (upd_rc f d) = f (rc d)" "ads (upd_rc f d) = ads d" "jiffies (upd_rc f d) = jiffies d"
  "iwa_state (iw (upd_rc f d)) = iwa_state (iw d)" "nd (upd_rc f d) = nd d"
  by (simp_all add: upd_rc_def)

lemma upd_peer_simps [simp]:
  "fib (iw (upd_peer w f d)) = fib (iw d)" "evp (iw (upd_peer w f d)) = evp (iw d)"
  "wfs_id (iw (upd_peer w f d)) = wfs_id (iw d)" "rc (upd_peer w f d) = rc d"
  "ads (upd_peer w f d) = ads d" "jiffies (upd_peer w f d) = jiffies d"
  "length (wfspeer (iw (upd_peer w f d))) = length (wfspeer (iw d))"
  "iwa_state (iw (upd_peer w f d)) = iwa_state (iw d)" "nd (upd_peer w f d) = nd d"
  by (simp_all add: upd_peer_def)

lemma upd_evp_simps [simp]:
  "fib (iw (upd_evp f d)) = fib (iw d)" "evp (iw (upd_evp f d)) = f (evp (iw d))"
  "wfs_id (iw (upd_evp f d)) = wfs_id (iw d)" "rc (upd_evp f d) = rc d"
  "ads (upd_evp f d) = ads d" "jiffies (upd_evp f d) = jiffies d"
  "wfspeer (iw (upd_evp f d)) = wfspeer (iw d)" "iwa_state (iw (upd_evp f d)) = iwa_state (iw d)"
  "nd (upd_evp f d) = nd d"
  by (simp_all add: upd_evp_def)

lemma upd_evp_comp [simp]: "upd_evp f (upd_evp g d) = upd_evp (f \<circ> g) d"
  by (simp add: upd_evp_def upd_iw_def)

lemma peer_of_cong: "wfspeer (iw d') = wfspeer (iw d) \<Longrightarrow> peer_of d' w = peer_of d w"
  by (simp add: peer_of_def)

lemma peer_of_upd_rc [simp]: "peer_of (upd_rc f d) w = peer_of d w"
  by (simp add: peer_of_def)

lemma peer_of_upd_evp [simp]: "peer_of (upd_evp f d) w = peer_of d w"
  by (simp add: peer_of_def)

lemma bad_wfsid_iff: "bad_wfsid w \<longleftrightarrow> w = 0 \<or> 8 < unat w"
proof -
  have "w < 1 \<longleftrightarrow> w = 0" by (simp add: word_less_nat_alt unat_eq_0)
  then show ?thesis by (simp add: bad_wfsid_def word_less_nat_alt)
qed

lemma peer_of_upd_peer [simp]:
  "\<not> bad_wfsid w \<Longrightarrow> length (wfspeer (iw d)) = 8 \<Longrightarrow> peer_of (upd_peer w f d) w = f (peer_of d w)"
  by (auto simp: peer_of_def upd_peer_def bad_wfsid_iff unat_gt_0 Suc_le_eq)

lemma on_fib_simps:
  assumes "on_fib f d = Inr d'"
  shows "wfspeer (iw d') = wfspeer (iw d)" "evp (iw d') = evp (iw d)" "rc d' = rc d"
    "wfs_id (iw d') = wfs_id (iw d)" "ads d' = ads d" "iwa_state (iw d') = iwa_state (iw d)"
    "jiffies d' = jiffies d" "nd d' = nd d"
  using assms by (auto simp: on_fib_def rbind_eq_Inr)

section \<open>The documented transition table\<close>

text \<open>
  The table of \<open>ixgbe_wfs_raps.h\<close>: the next state of a workstation from its state, the event,
  whether it is the local one and the link status of its primary and secondary channel.
\<close>

fun doc_next :: "wfs_fsm_state \<Rightarrow> wfs_fsm_event \<Rightarrow> bool \<Rightarrow> bool \<Rightarrow> bool \<Rightarrow> wfs_fsm_state" where
  "doc_next S_init E_discover _ pri sec = (if pri then S_idle else if sec then S_protect else S_init)"
| "doc_next S_init _ _ _ _ = S_init"
| "doc_next S_idle E_discover is_local pri sec =
     (if \<not> is_local \<and> sec \<and> \<not> pri then S_protect else S_idle)"
| "doc_next S_idle E_expire is_local pri sec =
     (if is_local \<or> pri then S_idle else if sec then S_protect else S_init)"
| "doc_next S_idle E_localSF is_local pri sec =
     (if sec \<and> \<not> pri then S_protect else if is_local then S_idle else S_init)"
| "doc_next S_idle E_clear_localSF _ _ _ = S_idle"
| "doc_next S_idle E_rapsSF is_local pri sec =
     (if is_local \<or> pri then S_idle else if sec then S_protect else S_init)"
| "doc_next S_idle E_rapsNR _ _ _ = S_idle"
| "doc_next S_protect E_discover is_local pri sec = (if \<not> is_local \<and> pri then S_idle else S_protect)"
| "doc_next S_protect E_expire is_local pri sec =
     (if is_local then S_protect else if pri then S_idle else if \<not> sec then S_init else S_protect)"
| "doc_next S_protect E_localSF is_local pri sec =
     (if pri \<and> \<not> sec then S_idle else if is_local then S_protect else S_init)"
| "doc_next S_protect E_clear_localSF is_local pri sec =
     (if is_local \<and> pri \<and> sec then S_idle else S_protect)"
| "doc_next S_protect E_rapsSF is_local pri sec =
     (if is_local \<or> sec then S_protect else if pri then S_idle else S_init)"
| "doc_next S_protect E_rapsNR is_local pri sec =
     (if \<not> is_local \<and> pri \<and> sec then S_idle else S_protect)"

text \<open>The peer after the channel update of an event, and the link status the action looks at.\<close>

definition chan_update :: "wfs_fsm_event \<Rightarrow> u8 \<Rightarrow> wfs_fsm_event_data \<Rightarrow> drv \<Rightarrow> wfs_peer \<Rightarrow> wfs_peer" where
  "chan_update e w ev d p =
     (case e of
        E_discover \<Rightarrow> if w = myID d then p else discover_channels ev p
      | E_expire \<Rightarrow> expire_channels p
      | E_localSF \<Rightarrow> if w = myID d then p
                     else (if chan_up d (channel_sec p) then id else drop_sec)
                            ((if chan_up d (channel_pri p) then id else drop_pri) p)
      | E_rapsSF \<Rightarrow> (if failure_on_primary ev \<noteq> 0 then drop_pri else drop_sec) p
      | _ \<Rightarrow> p)"

definition link_status :: "wfs_fsm_event \<Rightarrow> drv \<Rightarrow> ptr \<Rightarrow> bool" where
  "link_status e d ch = (if e \<in> {E_localSF, E_clear_localSF, E_rapsNR} then chan_up d ch else ch \<noteq> None)"

text \<open>The two cells in which the code keeps the state and the table says \<open>S_init\<close>.\<close>

definition doc_exception :: "wfs_fsm_state \<Rightarrow> wfs_fsm_event \<Rightarrow> bool \<Rightarrow> bool \<Rightarrow> bool \<Rightarrow> bool" where
  "doc_exception s e is_local pri sec \<longleftrightarrow>
     e = E_localSF \<and> \<not> is_local \<and> (s = S_idle \<and> pri \<or> s = S_protect \<and> sec \<and> \<not> (pri \<and> \<not> sec))"

definition peer_ok :: "wfs_peer \<Rightarrow> bool" where
  "peer_ok p \<longleftrightarrow> (fsm_state p = S_idle \<longrightarrow> channel_pri p \<noteq> None) \<and>
                 (fsm_state p = S_protect \<longrightarrow> channel_sec p \<noteq> None)"

definition peers_ok :: "drv \<Rightarrow> bool" where
  "peers_ok d \<longleftrightarrow> length (wfspeer (iw d)) = 8 \<and> (\<forall>p \<in> set (wfspeer (iw d)). peer_ok p)"

text \<open>An event the queue may hold: a discovery of a remote peer names the receiving channel.\<close>

definition event_ok :: "drv \<Rightarrow> u8 \<Rightarrow> wfs_fsm_event \<Rightarrow> wfs_fsm_event_data \<Rightarrow> bool" where
  "event_ok d w e ev \<longleftrightarrow> \<not> bad_wfsid w \<and> (e = E_discover \<and> w \<noteq> myID d \<longrightarrow> recv_channel ev \<noteq> None)"

text \<open>The peer record after an action: the channel update followed by the state change.\<close>

definition next_state :: "wfs_fsm_event \<Rightarrow> u8 \<Rightarrow> drv \<Rightarrow> wfs_peer \<Rightarrow> wfs_fsm_state" where
  "next_state e w d p =
     (let pri = link_status e d (channel_pri p); sec = link_status e d (channel_sec p)
      in if doc_exception (fsm_state p) e (w = myID d) pri sec then fsm_state p
         else doc_next (fsm_state p) e (w = myID d) pri sec)"

definition peer_after :: "wfs_fsm_event \<Rightarrow> u8 \<Rightarrow> wfs_fsm_event_data \<Rightarrow> drv \<Rightarrow> wfs_peer \<Rightarrow> wfs_peer" where
  "peer_after e w ev d p =
     (let q = chan_update e w ev d p in q\<lparr>fsm_state := next_state e w d q\<rparr>)"

lemmas fsm_action_defs =
  wfs_fsm_action_discover_def wfs_fsm_action_expire_def wfs_fsm_action_localSF_def
  wfs_fsm_action_clear_localSF_def wfs_fsm_action_rapsSF_def wfs_fsm_action_rapsNR_def
  flush_if_init_def

lemmas peer_step_defs =
  peer_after_def next_state_def chan_update_def link_status_def doc_exception_def
  discover_state_def discover_channels_def expire_state_def expire_channels_def sf_state_def
  drop_pri_def drop_sec_def

section \<open>Actions\<close>


lemma upd_peer_wfspeer:
  "wfspeer (iw (upd_peer w f d)) = (wfspeer (iw d))[unat w - 1 := f (peer_of d w)]"
  by (simp add: upd_peer_def peer_of_def)

lemma upd_peer_id:
  "(wfspeer (iw d))[unat w - 1 := peer_of d w] = wfspeer (iw d)"
  by (simp add: peer_of_def)

lemma chan_up_upd [simp]:
  "chan_up (upd_rc f d) = chan_up d" "chan_up (upd_peer w g d) = chan_up d" "chan_up (upd_evp k d) = chan_up d"
  by (simp_all add: chan_up_def[abs_def])

lemma flush_if_init_peers:
  "flush_if_init w d = Inr d' \<Longrightarrow> wfspeer (iw d') = wfspeer (iw d)"
  by (auto simp: flush_if_init_def on_fib_simps split: if_splits)

lemma fsm_valid_local: "fsm_valid s e l \<Longrightarrow> e = E_clear_localSF \<Longrightarrow> l"
  by (cases "(s, e, l)" rule: fsm_valid.cases) auto

lemma fsm_valid_remote: "fsm_valid s e l \<Longrightarrow> e \<in> {E_expire, E_rapsSF, E_rapsNR} \<Longrightarrow> \<not> l"
  by (cases "(s, e, l)" rule: fsm_valid.cases) auto

lemma fsm_valid_S_init: "fsm_valid S_init e l \<longleftrightarrow> e = E_discover"
  by (cases e) auto


lemma fsm_state_self: "fsm_state p = s \<Longrightarrow> p\<lparr>fsm_state := s\<rparr> = p"
  by (cases p) simp

lemma discover_state_doc:
  assumes "fsm_valid (fsm_state q) E_discover l"
    and "l \<or> channel_pri q \<noteq> None \<or> channel_sec q \<noteq> None"
  shows "discover_state q = q\<lparr>fsm_state := doc_next (fsm_state q) E_discover l
           (channel_pri q \<noteq> None) (channel_sec q \<noteq> None)\<rparr>"
  using assms by (cases "fsm_state q"; cases "channel_pri q"; cases "channel_sec q")
    (auto simp: discover_state_def fsm_state_self)

lemma discover_channels_some:
  "recv_channel ev \<noteq> None \<Longrightarrow>
     channel_pri (discover_channels ev p) \<noteq> None \<or> channel_sec (discover_channels ev p) \<noteq> None"
  by (simp add: discover_channels_def Let_def)

lemma fsm_state_discover_channels [simp]: "fsm_state (discover_channels ev p) = fsm_state p"
  by (simp add: discover_channels_def Let_def)

lemma fsm_state_drop [simp]:
  "fsm_state (drop_pri p) = fsm_state p" "fsm_state (drop_sec p) = fsm_state p"
  "channel_pri (drop_pri p) = None" "channel_sec (drop_sec p) = None"
  "channel_pri (drop_sec p) = channel_pri p" "channel_sec (drop_pri p) = channel_sec p"
  by (simp_all add: drop_pri_def drop_sec_def)

lemma fsm_state_expire_channels [simp]: "fsm_state (expire_channels p) = fsm_state p"
  by (simp add: expire_channels_def Let_def)

lemma expire_state_doc:
  "fsm_state q \<noteq> S_init \<Longrightarrow> expire_state q = q\<lparr>fsm_state := doc_next (fsm_state q) E_expire False
           (channel_pri q \<noteq> None) (channel_sec q \<noteq> None)\<rparr>"
  by (cases "fsm_state q"; cases "channel_pri q"; cases "channel_sec q")
    (auto simp: expire_state_def fsm_state_self)

lemma rapsSF_state_doc:
  "fsm_state q \<noteq> S_init \<Longrightarrow> sf_state False pri sec q =
     q\<lparr>fsm_state := doc_next (fsm_state q) E_rapsSF False pri sec\<rparr>"
  by (cases "fsm_state q") (simp_all add: sf_state_def fsm_state_self)

lemma localSF_state_doc:
  "fsm_state q \<noteq> S_init \<Longrightarrow> sf_state l pri sec q =
     q\<lparr>fsm_state := if doc_exception (fsm_state q) E_localSF l pri sec then fsm_state q
                    else doc_next (fsm_state q) E_localSF l pri sec\<rparr>"
  by (cases "fsm_state q") (auto simp: sf_state_def fsm_state_self doc_exception_def)

text \<open>The peers after an action that succeeds.\<close>

lemma action_peers:
  assumes len: "length (wfspeer (iw d)) = 8" and ok: "event_ok d w e ev"
    and valid: "fsm_valid (fsm_state (peer_of d w)) e (w = myID d)"
    and act: "fsm_action e w ev d = Inr d'"
  shows "wfspeer (iw d') = (wfspeer (iw d))[unat w - 1 := peer_after e w ev d (peer_of d w)]"
proof -
  let ?p = "peer_of d w"
  have bw: "\<not> bad_wfsid w" using ok by (simp add: event_ok_def)
  note [simp] = len bw upd_peer_wfspeer
  show ?thesis
  proof (cases e)
    case E_discover
    let ?q = "if w = myID d then ?p else discover_channels ev ?p"
    have "wfspeer (iw d') = (wfspeer (iw d))[unat w - 1 := discover_state ?q]"
      using act E_discover
      by (auto simp: wfs_fsm_action_discover_def Let_def on_fib_simps split: if_splits)
    moreover have "discover_state ?q = peer_after e w ev d ?p"
      using valid ok E_discover discover_channels_some[of ev ?p]
        discover_state_doc[of ?p True] discover_state_doc[of "discover_channels ev ?p" False]
      by (cases "w = myID d") (auto simp: peer_after_def chan_update_def next_state_def link_status_def doc_exception_def
          event_ok_def Let_def)
    ultimately show ?thesis by simp
  next
    case E_expire
    with valid fsm_valid_remote have r: "w \<noteq> myID d" "fsm_state ?p \<noteq> S_init"
      using fsm_valid_S_init by auto
    from act E_expire r have
      "wfspeer (iw d') = (wfspeer (iw d))[unat w - 1 := expire_state (expire_channels ?p)]"
      by (auto simp: wfs_fsm_action_expire_def dest: flush_if_init_peers)
    with r E_expire expire_state_doc[of "expire_channels ?p"] show ?thesis
      by (simp add: peer_after_def chan_update_def next_state_def link_status_def doc_exception_def Let_def)
  next
    case E_localSF
    with valid have r: "fsm_state ?p \<noteq> S_init" using fsm_valid_S_init by auto
    let ?pri = "chan_up d (channel_pri ?p)" and ?sec = "chan_up d (channel_sec ?p)"
    let ?q = "chan_update e w ev d ?p"
    have q: "fsm_state ?q = fsm_state ?p" "chan_up d (channel_pri ?q) = ?pri"
      "chan_up d (channel_sec ?q) = ?sec"
      using E_localSF by (simp_all add: chan_update_def)
    from act E_localSF have
      "wfspeer (iw d') = (wfspeer (iw d))[unat w - 1 := sf_state (w = myID d) ?pri ?sec ?q]"
      by (auto simp: wfs_fsm_action_localSF_def Let_def chan_update_def dest!: flush_if_init_peers)
    with r q E_localSF localSF_state_doc[of ?q "w = myID d" ?pri ?sec] show ?thesis
      by (simp add: peer_after_def next_state_def link_status_def Let_def)
  next
    case E_clear_localSF
    with valid fsm_valid_local have r: "w = myID d" by blast
    from valid E_clear_localSF fsm_valid_S_init have s: "fsm_state ?p \<noteq> S_init" by auto
    from r s act E_clear_localSF show ?thesis
      by (cases "fsm_state ?p")
        (auto simp: wfs_fsm_action_clear_localSF_def Let_def peer_after_def chan_update_def
          next_state_def link_status_def doc_exception_def fsm_state_self upd_peer_id[simplified] split: if_splits)
  next
    case E_rapsSF
    with valid fsm_valid_remote have r: "w \<noteq> myID d" "fsm_state ?p \<noteq> S_init"
      using fsm_valid_S_init by auto
    let ?q = "(if failure_on_primary ev \<noteq> 0 then drop_pri else drop_sec) ?p"
    from act E_rapsSF r have "wfspeer (iw d') = (wfspeer (iw d))[unat w - 1 :=
        sf_state False (channel_pri ?q \<noteq> None) (channel_sec ?q \<noteq> None) ?q]"
      by (auto simp: wfs_fsm_action_rapsSF_def Let_def dest!: flush_if_init_peers)
    with r E_rapsSF rapsSF_state_doc[of ?q] show ?thesis
      by (simp add: peer_after_def chan_update_def next_state_def link_status_def doc_exception_def Let_def)
  next
    case E_rapsNR
    with valid fsm_valid_remote have r: "w \<noteq> myID d" by blast
    from valid E_rapsNR have s: "fsm_state ?p = S_protect" using fsm_valid_S_init r
      by (cases "fsm_state ?p") auto
    from r s act E_rapsNR show ?thesis
      by (auto simp: wfs_fsm_action_rapsNR_def Let_def peer_after_def chan_update_def
          next_state_def link_status_def doc_exception_def fsm_state_self upd_peer_id[simplified])
  qed
qed


lemma peer_after_ok:
  assumes "peer_ok (peer_of d w)" "event_ok d w e ev"
    and "fsm_valid (fsm_state (peer_of d w)) e (w = myID d)"
  shows "peer_ok (peer_after e w ev d (peer_of d w))"
proof -
  let ?p = "peer_of d w" and ?q = "chan_update e w ev d (peer_of d w)"
  have up: "chan_up d c \<Longrightarrow> c \<noteq> None" for c by (cases c) auto
  have st: "fsm_state ?q = fsm_state ?p" by (cases e) (auto simp: chan_update_def)
  show ?thesis
  proof (cases e)
    case E_discover
    with assms discover_channels_some[of ev ?p] st show ?thesis
      by (cases "fsm_state ?p")
        (auto simp: peer_ok_def peer_after_def chan_update_def next_state_def link_status_def
          doc_exception_def event_ok_def Let_def)
  next
    case E_localSF
    with assms st up[of "channel_pri ?q"] up[of "channel_sec ?q"] show ?thesis
      by (cases "fsm_state ?p"; cases "w = myID d")
        (auto simp: peer_ok_def peer_after_def next_state_def link_status_def doc_exception_def
          chan_update_def Let_def)
  next
    case E_rapsNR
    with assms st up[of "channel_pri ?p"] up[of "channel_sec ?p"] show ?thesis
      by (cases "fsm_state ?p")
        (auto simp: peer_ok_def peer_after_def next_state_def link_status_def doc_exception_def
          chan_update_def Let_def)
  next
    case E_clear_localSF
    with assms st up[of "channel_pri ?p"] up[of "channel_sec ?p"] show ?thesis
      by (cases "fsm_state ?p")
        (auto simp: peer_ok_def peer_after_def next_state_def link_status_def doc_exception_def
          chan_update_def Let_def)
  next
    case E_expire
    with assms st show ?thesis
      by (cases "fsm_state ?p")
        (auto simp: peer_ok_def peer_after_def next_state_def link_status_def doc_exception_def
          chan_update_def Let_def)
  next
    case E_rapsSF
    with assms st show ?thesis
      by (cases "fsm_state ?p")
        (auto simp: peer_ok_def peer_after_def next_state_def link_status_def doc_exception_def
          chan_update_def Let_def)
  qed
qed

text \<open>An action fails only when the forwarding table operation it calls fails.\<close>

definition fib_fault :: "drv \<Rightarrow> u8 \<Rightarrow> fault \<Rightarrow> bool" where
  "fib_fault d w e \<longleftrightarrow> ixgbe_wfs_fib_delete_wfsid w (fib (iw d)) = Inl e \<or>
     (\<exists>mac ip. ixgbe_wfs_fib_update (jiffies d) 0 mac ip w (fib (iw d)) = Inl e)"

lemma on_fib_Inl: "on_fib f d = Inl e \<longleftrightarrow> f (fib (iw d)) = Inl e"
  by (auto simp: on_fib_def rbind_eq_Inl)

lemma flush_if_init_Inl:
  "flush_if_init w d = Inl e \<Longrightarrow> ixgbe_wfs_fib_delete_wfsid w (fib (iw d)) = Inl e"
  by (auto simp: flush_if_init_def on_fib_Inl split: if_splits)

lemma action_fault:
  assumes "fsm_valid (fsm_state (peer_of d w)) e (w = myID d)" "fsm_action e w ev d = Inl f"
  shows "fib_fault d w f"
proof (cases e)
  case E_discover
  with assms show ?thesis
    by (auto simp: wfs_fsm_action_discover_def Let_def on_fib_Inl fib_fault_def split: if_splits)
next
  case E_expire
  with assms fsm_valid_remote have "w \<noteq> myID d" by blast
  with E_expire assms show ?thesis
    by (auto simp: wfs_fsm_action_expire_def fib_fault_def dest: flush_if_init_Inl)
next
  case E_localSF
  with assms show ?thesis
    by (auto simp: wfs_fsm_action_localSF_def Let_def fib_fault_def dest!: flush_if_init_Inl split: if_splits)
next
  case E_clear_localSF
  with assms fsm_valid_local have "w = myID d" by blast
  with E_clear_localSF assms show ?thesis by (auto simp: wfs_fsm_action_clear_localSF_def Let_def)
next
  case E_rapsSF
  with assms fsm_valid_remote have "w \<noteq> myID d" by blast
  with E_rapsSF assms show ?thesis
    by (auto simp: wfs_fsm_action_rapsSF_def Let_def fib_fault_def dest!: flush_if_init_Inl)
next
  case E_rapsNR
  with assms show ?thesis by (auto simp: wfs_fsm_action_rapsNR_def Let_def)
qed

lemma flush_if_init_frame:
  "flush_if_init w d = Inr d' \<Longrightarrow> evp (iw d') = evp (iw d) \<and> wfs_id (iw d') = wfs_id (iw d) \<and>
     fsm_event_head (rc d') = fsm_event_head (rc d) \<and> fsm_event_tail (rc d') = fsm_event_tail (rc d) \<and>
     ads d' = ads d \<and> iwa_state (iw d') = iwa_state (iw d) \<and> jiffies d' = jiffies d \<and> nd d' = nd d"
  by (auto simp: flush_if_init_def on_fib_simps split: if_splits)

lemma action_frame:
  "fsm_action e w ev d = Inr d' \<Longrightarrow> evp (iw d') = evp (iw d) \<and> wfs_id (iw d') = wfs_id (iw d) \<and>
     fsm_event_head (rc d') = fsm_event_head (rc d) \<and> fsm_event_tail (rc d') = fsm_event_tail (rc d) \<and>
     ads d' = ads d \<and> iwa_state (iw d') = iwa_state (iw d) \<and> jiffies d' = jiffies d \<and> nd d' = nd d"
  by (cases e)
    (auto simp: wfs_fsm_action_discover_def wfs_fsm_action_expire_def wfs_fsm_action_localSF_def
      wfs_fsm_action_clear_localSF_def wfs_fsm_action_rapsSF_def wfs_fsm_action_rapsNR_def
      Let_def on_fib_simps dest!: flush_if_init_frame split: if_splits)


section \<open>Running the queue\<close>

text \<open>
  The specification of \<open>wfs_fsm_run\<close>: the events of the queue in order, each ignored when the
  table has no valid entry for the state the peer is in at that moment. There are no buffers and
  no \<open>BUG_ON\<close>.
\<close>

type_synonym fsm_ev = "u8 \<times> wfs_fsm_event \<times> wfs_fsm_event_data"

fun fsm_handle :: "fsm_ev list \<Rightarrow> drv \<Rightarrow> fault + drv" where
  "fsm_handle [] d = Inr d"
| "fsm_handle ((w, e, ev) # es) d =
     (if fsm_valid (fsm_state (peer_of d w)) e (w = myID d)
      then rbind (fsm_action e w ev d) (fsm_handle es) else fsm_handle es d)"

definition ev_of :: "ev_pool \<Rightarrow> nat \<Rightarrow> fsm_ev" where
  "ev_of s n = (eb_wfsid (ev_heap s n), eb_event (ev_heap s n), eb_data (ev_heap s n))"

definition queue_ok :: "drv \<Rightarrow> fsm_ev list \<Rightarrow> bool" where
  "queue_ok d es \<longleftrightarrow> (\<forall>(w, e, ev) \<in> set es. event_ok d w e ev)"

text \<open>The free buffers are \<open>fr\<close>, the queued ones \<open>q\<close>, all allocated ones \<open>al\<close>.\<close>

definition ev_inv :: "drv \<Rightarrow> nat list \<Rightarrow> nat list \<Rightarrow> nat list \<Rightarrow> bool" where
  "ev_inv d fr q al \<longleftrightarrow> ev_pool_ok (evp (iw d)) fr al \<and>
     fifo_at eb_next (ev_heap (evp (iw d))) (fsm_event_head (rc d)) (fsm_event_tail (rc d)) q \<and>
     set q \<inter> set fr = {} \<and> set q \<subseteq> set al"

lemma upd_commute:
  "upd_rc g (upd_evp f d) = upd_evp f (upd_rc g d)"
  "upd_peer w h (upd_evp f d) = upd_evp f (upd_peer w h d)"
  "on_fib k (upd_evp f d) = map_sum id (upd_evp f) (on_fib k d)"
  by (simp_all add: upd_rc_def upd_evp_def upd_peer_def upd_iw_def on_fib_def rbind_def split: sum.splits)

lemma flush_commute:
  "flush_if_init w (upd_evp f d) = map_sum id (upd_evp f) (flush_if_init w d)"
  by (simp add: flush_if_init_def upd_commute)

lemma map_sum_if: "map_sum f g (if b then x else y) = (if b then map_sum f g x else map_sum f g y)"
  by simp

lemma upd_evp_if: "(if b then upd_evp f x else upd_evp f y) = upd_evp f (if b then x else y)"
  by simp

lemma action_commute:
  "fsm_action e w ev (upd_evp f d) = map_sum id (upd_evp f) (fsm_action e w ev d)"
  by (cases e)
    (simp_all add: wfs_fsm_action_discover_def wfs_fsm_action_expire_def wfs_fsm_action_localSF_def
      wfs_fsm_action_clear_localSF_def wfs_fsm_action_rapsSF_def wfs_fsm_action_rapsNR_def
      Let_def upd_commute flush_commute map_sum_if upd_evp_if)

lemma handle_commute:
  "fsm_handle es (upd_evp f d) = map_sum id (upd_evp f) (fsm_handle es d)"
proof (induction es d rule: fsm_handle.induct)
  case (2 w e ev es d)
  then show ?case
    by (cases "fsm_action e w ev d") (auto simp: action_commute)
qed simp

lemma close_event_pool:
  assumes "ev_pool_ok s fr al" "n \<in> set al" "n \<notin> set fr"
  obtains s' where "wfs_fsm_close_event (Some n) s = Inr s'" "ev_pool_ok s' (fr @ [n]) al"
    "\<And>m. ev_of s' m = ev_of s m"
    "\<And>m. m \<notin> set al \<or> m \<notin> set fr \<and> m \<noteq> n \<Longrightarrow> eb_next (ev_heap s' m) = eb_next (ev_heap s m)"
proof -
  from ev_free_buffer_pool[OF assms] obtain s' where
    s': "ev_free_buffer n s = Some s'" "ev_pool_ok s' (fr @ [n]) al" by blast
  from s'(1) have c: "wfs_fsm_close_event (Some n) s = Inr s'"
    by (auto simp: ev_free_buffer_def split: sum.splits)
  have "ev_of s' m = ev_of s m" for m
    using s'(1) by (auto simp: ev_free_buffer_eq ev_of_def Let_def split: option.splits)
  moreover have "fr \<noteq> [] \<Longrightarrow> last fr \<in> set al"
    using assms(1) last_in_set[of fr] by (auto simp: ev_pool_ok_def)
  then have "eb_next (ev_heap s' m) = eb_next (ev_heap s m)"
    if "m \<notin> set al \<or> m \<notin> set fr \<and> m \<noteq> n" for m
    using s'(1) assms that last_in_set[of fr]
    by (auto simp: ev_free_buffer_eq Let_def ev_pool_ok_def fifo_at_def split: option.splits if_splits)
  ultimately show ?thesis using that c s'(2) by blast
qed

lemma list_at_cong:
  "(\<And>a. a \<in> set as \<Longrightarrow> nx (h a) = nx (h' a)) \<Longrightarrow> list_at nx h p as = list_at nx h' p as"
  by (induction as arbitrary: p) auto

lemma peers_ok_action:
  assumes "peers_ok d" "event_ok d w e ev" "fsm_valid (fsm_state (peer_of d w)) e (w = myID d)"
    and "fsm_action e w ev d = Inr d'"
  shows "peers_ok d'" "peer_ok (peer_of d' w)"
proof -
  have len: "length (wfspeer (iw d)) = 8" using assms(1) by (simp add: peers_ok_def)
  have bw: "\<not> bad_wfsid w" using assms(2) by (simp add: event_ok_def)
  then have i: "unat w - 1 < length (wfspeer (iw d))" using len by (auto simp: bad_wfsid_iff)
  then have "peer_ok (peer_of d w)" using assms(1) by (simp add: peers_ok_def peer_of_def)
  then have ok: "peer_ok (peer_after e w ev d (peer_of d w))" by (rule peer_after_ok[OF _ assms(2,3)])
  note ap = action_peers[OF len assms(2-4)]
  from ok ap i show "peer_ok (peer_of d' w)" by (simp add: peer_of_def)
  from ok ap assms(1) show "peers_ok d'"
    by (auto simp: peers_ok_def dest!: set_update_subset_insert[THEN subsetD])
qed

lemma queue_ok_action:
  "fsm_action e w ev d = Inr d' \<Longrightarrow> queue_ok d es \<Longrightarrow> queue_ok d' es"
  using action_frame[of e w ev d d'] by (auto simp: queue_ok_def event_ok_def)

lemma peers_ok_upd_evp [simp]: "peers_ok (upd_evp f d) = peers_ok d"
  by (simp add: peers_ok_def)

lemma queue_ok_upd_evp [simp]: "queue_ok (upd_evp f d) es = queue_ok d es"
  by (simp add: queue_ok_def event_ok_def)

lemma upd_evp_id: "upd_evp (\<lambda>_. evp (iw d)) d = d"
  by (simp add: upd_evp_def upd_iw_def)

lemma run_loop_refines:
  assumes "ev_pool_ok (evp (iw d)) fr al" "list_at eb_next (ev_heap (evp (iw d))) p q"
    and "distinct q" "set q \<inter> set fr = {}" "set q \<subseteq> set al"
    and "peers_ok d" "queue_ok d (map (ev_of (evp (iw d))) q)"
  shows "case fsm_handle (map (ev_of (evp (iw d))) q) d of
           Inl e \<Rightarrow> fsm_run_loop p d = Some (Inl e)
         | Inr d' \<Rightarrow> \<exists>s. fsm_run_loop p d = Some (Inr (upd_evp (\<lambda>_. s) d')) \<and>
                        ev_pool_ok s (fr @ q) al \<and> peers_ok d'"
  using assms
proof (induction q arbitrary: d p fr)
  case Nil
  then have "p = None" by simp
  with Nil show ?case
    by (simp add: fsm_run_loop.simps) (rule exI[of _ "evp (iw d)"], simp add: upd_evp_id)
next
  case (Cons n q)
  let ?s = "evp (iw d)"
  obtain w e ev where evn: "ev_of ?s n = (w, e, ev)" by (cases "ev_of ?s n") auto
  then have fields: "eb_wfsid (ev_heap ?s n) = w" "eb_event (ev_heap ?s n) = e" "eb_data (ev_heap ?s n) = ev"
    by (auto simp: ev_of_def)
  from Cons.prems evn have ok: "event_ok d w e ev" by (auto simp: queue_ok_def)
  then have bw: "\<not> bad_wfsid w" by (simp add: event_ok_def)
  from Cons.prems have p: "p = Some n" and rest: "list_at eb_next (ev_heap ?s) (eb_next (ev_heap ?s n)) q"
    by auto
  from Cons.prems have n: "n \<in> set al" "n \<notin> set fr" by auto
  from close_event_pool[OF Cons.prems(1) n] obtain s1 where s1:
    "wfs_fsm_close_event (Some n) ?s = Inr s1" "ev_pool_ok s1 (fr @ [n]) al"
    "\<And>m. ev_of s1 m = ev_of ?s m"
    "\<And>m. m \<notin> set al \<or> m \<notin> set fr \<and> m \<noteq> n \<Longrightarrow> eb_next (ev_heap s1 m) = eb_next (ev_heap ?s m)"
    by blast
  have rest1: "list_at eb_next (ev_heap s1) (eb_next (ev_heap ?s n)) q"
    using rest list_at_cong[of q eb_next "ev_heap s1" "ev_heap ?s"] s1(4) Cons.prems by auto
  have IH: "case fsm_handle (map (ev_of ?s) q) d1 of
           Inl e \<Rightarrow> fsm_run_loop (eb_next (ev_heap ?s n)) (upd_evp (\<lambda>_. s1) d1) = Some (Inl e)
         | Inr d' \<Rightarrow> \<exists>s. fsm_run_loop (eb_next (ev_heap ?s n)) (upd_evp (\<lambda>_. s1) d1) =
                          Some (Inr (upd_evp (\<lambda>_. s) d')) \<and>
                        ev_pool_ok s (fr @ n # q) al \<and> peers_ok d'"
    if d1: "peers_ok d1" "queue_ok d1 (map (ev_of ?s) q)" "evp (iw d1) = ?s" for d1
    using Cons.IH[of "upd_evp (\<lambda>_. s1) d1" "fr @ [n]" "eb_next (ev_heap ?s n)"] Cons.prems d1 s1 rest1
    by (auto simp: handle_commute comp_def split: sum.splits) blast
  have q1: "queue_ok d (map (ev_of ?s) q)" using Cons.prems by (auto simp: queue_ok_def)
  show ?case
  proof (cases "fsm_valid (fsm_state (peer_of d w)) e (w = myID d)")
    case False
    then have "fsm_run_step n d = Inr (upd_evp (\<lambda>_. s1) d)"
      using bw fields s1(1) by (simp add: fsm_run_step_def on_evp_def Let_def)
    with False IH[OF Cons.prems(6) q1 refl] evn p show ?thesis
      by (subst (1 2) fsm_run_loop.simps) (auto simp: Let_def split: sum.splits)
  next
    case valid: True
    show ?thesis
    proof (cases "fsm_action e w ev d")
      case (Inl f)
      then have "fsm_run_step n d = Inl f"
        using bw fields valid by (simp add: fsm_run_step_def Let_def)
      with Inl valid evn p show ?thesis by (subst fsm_run_loop.simps) (auto simp: Let_def)
    next
      case (Inr d1)
      note pk = peers_ok_action[OF Cons.prems(6) ok valid Inr]
      have e1: "evp (iw d1) = ?s" using action_frame[OF Inr] by simp
      have "fsm_run_step n d = Inr (upd_evp (\<lambda>_. s1) d1)"
        using bw fields valid Inr pk(2) e1 s1(1)
        by (auto simp: fsm_run_step_def Let_def peer_ok_def on_evp_def)
      with Inr valid IH[OF pk(1) queue_ok_action[OF Inr q1] e1] evn p show ?thesis
        by (subst (1 2) fsm_run_loop.simps) (auto simp: Let_def split: sum.splits)
    qed
  qed
qed


lemma handle_fault:
  "fsm_handle es d = Inl f \<Longrightarrow> \<exists>d0 w. fib_fault d0 w f \<and> w \<in> fst ` set es"
proof (induction es d rule: fsm_handle.induct)
  case (2 w e ev es d)
  then show ?case
    by (auto simp: rbind_eq_Inl split: if_splits dest!: action_fault; blast)
qed simp

lemma fsm_run_refines:
  assumes "ev_inv d fr q al" "peers_ok d" "queue_ok d (map (ev_of (evp (iw d))) q)"
  shows "case fsm_handle (map (ev_of (evp (iw d))) q) d of
           Inl e \<Rightarrow> wfs_fsm_run d = Inl e
         | Inr d' \<Rightarrow> \<exists>d''. wfs_fsm_run d = Inr d'' \<and> ev_inv d'' (fr @ q) [] al \<and> peers_ok d'' \<and>
                        wfspeer (iw d'') = wfspeer (iw d') \<and> fib (iw d'') = fib (iw d') \<and>
                        flag (rc d'') = flag (rc d') AND NOT RAPS_CTRL_FSM_EVENT"
proof -
  have l: "list_at eb_next (ev_heap (evp (iw d))) (fsm_event_head (rc d)) q" "distinct q"
    "ev_pool_ok (evp (iw d)) fr al" "set q \<inter> set fr = {}" "set q \<subseteq> set al"
    using assms(1) by (auto simp: ev_inv_def fifo_at_def)
  show ?thesis
  proof (cases "fsm_handle (map (ev_of (evp (iw d))) q) d")
    case (Inl e)
    with run_loop_refines[OF l(3,1,2,4,5) assms(2,3)] show ?thesis by (simp add: wfs_fsm_run_def)
  next
    case (Inr d')
    with run_loop_refines[OF l(3,1,2,4,5) assms(2,3)] obtain s where
      s: "fsm_run_loop (fsm_event_head (rc d)) d = Some (Inr (upd_evp (\<lambda>_. s) d'))"
         "ev_pool_ok s (fr @ q) al" "peers_ok d'" by auto
    let ?r = "upd_rc (\<lambda>r. r\<lparr>fsm_event_head := None, fsm_event_tail := None,
                       flag := flag r AND NOT RAPS_CTRL_FSM_EVENT\<rparr>) (upd_evp (\<lambda>_. s) d')"
    have "wfs_fsm_run d = Inr ?r" using s(1) by (simp add: wfs_fsm_run_def)
    moreover have "ev_inv ?r (fr @ q) [] al" using s(2) by (simp add: ev_inv_def)
    moreover have "peers_ok ?r" using s(3) by (simp add: peers_ok_def)
    ultimately show ?thesis using Inr by auto
  qed
qed

section \<open>Queueing\<close>

text \<open>The workstations an event is queued for, in ascending order.\<close>

definition event_ids :: "u8 \<Rightarrow> wfs_fsm_event \<Rightarrow> drv \<Rightarrow> nat list \<Rightarrow> nat list" where
  "event_ids wfsid e d is =
     filter (\<lambda>i. (wfsid = WFSID_ALL \<or> unat wfsid = i) \<and>
                 fsm_valid (fsm_state (wfspeer (iw d) ! (i - 1))) e (of_nat i = myID d)) is"

lemma upd_ev_simps [simp]:
  "wfspeer (iw (upd_ev n f d)) = wfspeer (iw d)" "rc (upd_ev n f d) = rc d"
  "wfs_id (iw (upd_ev n f d)) = wfs_id (iw d)" "fib (iw (upd_ev n f d)) = fib (iw d)"
  "iwa_state (iw (upd_ev n f d)) = iwa_state (iw d)" "ads (upd_ev n f d) = ads d"
  "ev_heap (evp (iw (upd_ev n f d))) = (ev_heap (evp (iw d)))(n := f (ev_heap (evp (iw d)) n))"
  "fsmEvBufs (evp (iw (upd_ev n f d))) = fsmEvBufs (evp (iw d))"
  "fsmEvBuf_head (evp (iw (upd_ev n f d))) = fsmEvBuf_head (evp (iw d))"
  "fsmEvBuf_tail (evp (iw (upd_ev n f d))) = fsmEvBuf_tail (evp (iw d))"
  "fsmEvBuf_count (evp (iw (upd_ev n f d))) = fsmEvBuf_count (evp (iw d))"
  "ev_kmalloc (evp (iw (upd_ev n f d))) = ev_kmalloc (evp (iw d))"
  by (simp_all add: upd_ev_def)

lemma enqueue_frame [simp]:
  "wfspeer (iw (fsm_enqueue n w e evd d)) = wfspeer (iw d)"
  "wfs_id (iw (fsm_enqueue n w e evd d)) = wfs_id (iw d)"
  "fib (iw (fsm_enqueue n w e evd d)) = fib (iw d)"
  "iwa_state (iw (fsm_enqueue n w e evd d)) = iwa_state (iw d)"
  "ads (fsm_enqueue n w e evd d) = ads d"
  by (simp_all add: fsm_enqueue_def Let_def split: option.split)

definition ev_data :: "wfs_fsm_event_data option \<Rightarrow> wfs_fsm_event_data" where
  "ev_data evd = (case evd of Some x \<Rightarrow> x | None \<Rightarrow> zero_event_data)"

lemma ev_pool_ok_upd_ev:
  assumes "ev_pool_ok s fr al" "n \<notin> set fr" "next_eb v = next_eb (ev_heap s n)"
  shows "ev_pool_ok (s\<lparr>ev_heap := (ev_heap s)(n := v)\<rparr>) fr al"
  using assms by (simp add: ev_pool_ok_def heap_simps)

lemma enqueue_inv:
  assumes inv: "ev_inv d fr q al" and n: "n \<in> set al" "n \<notin> set fr" "n \<notin> set q"
  shows "ev_inv (fsm_enqueue n w e evd d) fr (q @ [n]) al"
    and "map (ev_of (evp (iw (fsm_enqueue n w e evd d)))) (q @ [n]) =
         map (ev_of (evp (iw d))) q @ [(w, e, ev_data evd)]"
proof -
  let ?h = "ev_heap (evp (iw d))"
  let ?v = "(?h n)\<lparr>eb_wfsid := w, eb_event := e, eb_data := ev_data evd, eb_next := None\<rparr>"
  have f: "fifo_at eb_next ?h (fsm_event_head (rc d)) (fsm_event_tail (rc d)) q"
    and p: "ev_pool_ok (evp (iw d)) fr al" and dis: "set q \<inter> set fr = {}" "set q \<subseteq> set al"
    using inv by (auto simp: ev_inv_def)
  have "ev_inv (fsm_enqueue n w e evd d) fr (q @ [n]) al \<and>
        map (ev_of (evp (iw (fsm_enqueue n w e evd d)))) (q @ [n]) =
        map (ev_of (evp (iw d))) q @ [(w, e, ev_data evd)]"
  proof (cases "fsm_event_tail (rc d)")
    case None
    have v: "eb_next ?v = None" by simp
    from f None have [simp]: "q = []" by (auto simp: fifo_at_def split: if_splits)
    have "fifo_at eb_next (?h(n := ?v)) (Some n) (Some n) [n]"
      by (simp add: fifo_at_def)
    with None n p show ?thesis
      by (auto simp: fsm_enqueue_def Let_def ev_inv_def ev_of_def ev_data_def ev_pool_ok_def heap_simps)
  next
    case (Some t)
    from f Some have t: "q \<noteq> []" "t = last q" by (auto simp: fifo_at_def split: if_splits)
    then have tq: "t \<in> set q" "t \<noteq> n" "t \<notin> set fr" using dis n last_in_set[OF t(1)] t(2) by blast+
    have fq: "fifo_at eb_next (?h(n := ?v, t := (?h t)\<lparr>eb_next := Some n\<rparr>)) (fsm_event_head (rc d)) (Some n) (q @ [n])"
      using fifo_at_snoc(2)[OF f n(3), of ?v t "(?h t)\<lparr>eb_next := Some n\<rparr>"] Some by simp
    from dis n tq Some p fq show ?thesis
      by (auto simp: fsm_enqueue_def Let_def ev_inv_def ev_of_def ev_data_def ev_pool_ok_def heap_simps)
  qed
  then show "ev_inv (fsm_enqueue n w e evd d) fr (q @ [n]) al"
    and "map (ev_of (evp (iw (fsm_enqueue n w e evd d)))) (q @ [n]) =
         map (ev_of (evp (iw d))) q @ [(w, e, ev_data evd)]" by auto
qed


lemma alloc_event_frame:
  "wfs_fsm_alloc_event s = (p, s') \<Longrightarrow> ev_of s' m = ev_of s m \<and> eb_next (ev_heap s' m) = eb_next (ev_heap s m)"
  by (auto simp: wfs_fsm_alloc_event_def Let_def ev_of_def split: option.splits if_splits)

lemma ev_inv_alloc:
  assumes "ev_inv d fr q al" "wfs_fsm_alloc_event (evp (iw d)) = (p, s)"
  shows "case p of
           None \<Rightarrow> fr = [] \<and> ev_inv (upd_evp (\<lambda>_. s) d) fr q al
         | Some n \<Rightarrow> \<exists>fr' al'. ev_inv (upd_evp (\<lambda>_. s) d) fr' q al' \<and> n \<in> set al' \<and> n \<notin> set fr' \<and>
                      n \<notin> set q \<and> set al' = insert n (set al) \<and> set fr' = set fr - {n} \<and>
                      n \<notin> set al - set fr \<and> length fr - 1 \<le> length fr'"
proof -
  from assms(1) have i: "ev_pool_ok (evp (iw d)) fr al" "set q \<inter> set fr = {}" "set q \<subseteq> set al"
    "fifo_at eb_next (ev_heap (evp (iw d))) (fsm_event_head (rc d)) (fsm_event_tail (rc d)) q"
    by (auto simp: ev_inv_def)
  have q: "fifo_at eb_next (ev_heap s) (fsm_event_head (rc d)) (fsm_event_tail (rc d)) q"
    using i(4) alloc_event_frame[OF assms(2)] list_at_cong[of q eb_next "ev_heap s" "ev_heap (evp (iw d))"]
    by (auto simp: fifo_at_def)
  show ?thesis
  proof (cases p)
    case None
    with evpool.get_none[OF i(1)] assms(2) i q show ?thesis by (auto simp: ev_inv_def)
  next
    case (Some n)
    show ?thesis
    proof (cases fr)
      case Nil
      with Some assms(2) i evpool.get_new[of "evp (iw d)" al n s] q have
        "n \<notin> set al" "ev_inv (upd_evp (\<lambda>_. s) d) [] q (n # al)" by (auto simp: ev_inv_def)
      with Some Nil i show ?thesis by simp (rule exI[of _ "n # al"], auto)
    next
      case (Cons b fr')
      with evpool.get_head[of "evp (iw d)" b fr' al] i assms(2) Some have
        b: "b = n" "ev_pool_ok s fr' al" by auto
      with evpool.pool_wf[OF i(1)] Cons have "n \<in> set al" "n \<notin> set fr'" by auto
      with b Cons Some i q show ?thesis
        by simp (rule exI[of _ fr'], rule exI[of _ al], auto simp: ev_inv_def)
    qed
  qed
qed

text \<open>
  \<open>ixgbe_wfs_fsm_set_event\<close> appends one event per accepting workstation, in ascending order,
  until the buffers run out, and no buffer is lost.
\<close>

lemma set_event_loop_spec:
  assumes "ev_inv d fr q al"
  shows "\<exists>fr' new al'. ev_inv (set_event_loop is w e evd d) fr' (q @ new) al' \<and>
     map (ev_of (evp (iw (set_event_loop is w e evd d)))) (q @ new) =
       map (ev_of (evp (iw d))) q @
       map (\<lambda>i. (of_nat i, e, ev_data evd)) (take (length new) (event_ids w e d is)) \<and>
     length new \<le> length (event_ids w e d is) \<and>
     (length new < length (event_ids w e d is) \<longrightarrow> fr' = []) \<and>
     min (length fr) (length (event_ids w e d is)) \<le> length new \<and> length fr \<le> length fr' + length new \<and>
     set al' - (set fr' \<union> set (q @ new)) = set al - (set fr \<union> set q) \<and>
     wfspeer (iw (set_event_loop is w e evd d)) = wfspeer (iw d) \<and>
     fib (iw (set_event_loop is w e evd d)) = fib (iw d)"
  using assms
proof (induction "is" arbitrary: d fr q al)
  case Nil
  then show ?case by - (rule exI[where x = fr], rule exI[where x = "[]"], rule exI[where x = al], simp add: event_ids_def)
next
  case (Cons i "is")
  let ?acc = "(w = WFSID_ALL \<or> unat w = i) \<and> fsm_valid (fsm_state (wfspeer (iw d) ! (i - 1))) e (of_nat i = myID d)"
  show ?case
  proof (cases ?acc)
    case False
    then have "set_event_loop (i # is) w e evd d = set_event_loop is w e evd d"
      "event_ids w e d (i # is) = event_ids w e d is" by (auto simp: event_ids_def)
    with Cons.IH[OF Cons.prems] show ?thesis by simp
  next
    case True
    obtain p s where a: "wfs_fsm_alloc_event (evp (iw d)) = (p, s)" by (cases "wfs_fsm_alloc_event (evp (iw d))")
    have ids: "event_ids w e d (i # is) = i # event_ids w e d is" using True by (simp add: event_ids_def)
    note al = ev_inv_alloc[OF Cons.prems a]
    have evs: "map (ev_of s) q = map (ev_of (evp (iw d))) q" using alloc_event_frame[OF a] by simp
    show ?thesis
    proof (cases p)
      case None
      with True a have "set_event_loop (i # is) w e evd d = upd_evp (\<lambda>_. s) d" by auto
      with al None evs ids show ?thesis
        by - (rule exI[where x = fr], rule exI[where x = "[]"], rule exI[where x = al], auto)
    next
      case (Some n)
      with al obtain fr1 al1 where l: "ev_inv (upd_evp (\<lambda>_. s) d) fr1 q al1" "n \<in> set al1" "n \<notin> set fr1"
        "n \<notin> set q" "set al1 = insert n (set al)" "set fr1 = set fr - {n}" "n \<notin> set al - set fr"
        "length fr - 1 \<le> length fr1" by auto
      let ?d = "fsm_enqueue n (of_nat i) e evd (upd_evp (\<lambda>_. s) d)"
      have step: "set_event_loop (i # is) w e evd d = set_event_loop is w e evd ?d" using True a Some by auto
      note eq = enqueue_inv[OF l(1-4), of "of_nat i" e evd]
      have idsd: "event_ids w e ?d is = event_ids w e d is" by (simp add: event_ids_def)
      from Cons.IH[OF eq(1)] obtain fr' new al' where N:
        "ev_inv (set_event_loop is w e evd ?d) fr' ((q @ [n]) @ new) al'"
        "map (ev_of (evp (iw (set_event_loop is w e evd ?d)))) ((q @ [n]) @ new) =
         map (ev_of (evp (iw ?d))) (q @ [n]) @
         map (\<lambda>i. (of_nat i, e, ev_data evd)) (take (length new) (event_ids w e ?d is))"
        "length new \<le> length (event_ids w e ?d is)"
        "length new < length (event_ids w e ?d is) \<longrightarrow> fr' = []"
        "min (length fr1) (length (event_ids w e ?d is)) \<le> length new" "length fr1 \<le> length fr' + length new"
        "set al' - (set fr' \<union> set ((q @ [n]) @ new)) = set al1 - (set fr1 \<union> set (q @ [n]))"
        "wfspeer (iw (set_event_loop is w e evd ?d)) = wfspeer (iw ?d)"
        "fib (iw (set_event_loop is w e evd ?d)) = fib (iw ?d)" by blast
      have "set al1 - (set fr1 \<union> set (q @ [n])) = set al - (set fr \<union> set q)"
        using l(5-7) by auto
      with N eq(2) evs idsd ids step l(8) show ?thesis
        by - (rule exI[where x = fr'], rule exI[where x = "n # new"], rule exI[where x = al'], auto)
    qed
  qed
qed

section \<open>Properties\<close>

lemmas demo_defs = demo_def demo_iwa_def demo_pool_def demo_buffer_def demo_peer_def demo_adapter_def
  demo_fib_def demo_key_def

lemma demo_ev_inv: "ev_inv demo [6, 7] [5] [7, 6, 5]"
  by (simp add: ev_inv_def ev_pool_ok_def fifo_at_def fresh_supply_def demo_defs zero_raps_ctrl_def)

lemma demo_peers_ok: "peers_ok demo"
  by (simp add: peers_ok_def peer_ok_def demo_defs zero_peer_def numeral_eq_Suc)

lemma demo_queue_ok: "queue_ok demo (map (ev_of (evp (iw demo))) [5])"
  by (simp add: queue_ok_def event_ok_def bad_wfsid_iff ev_of_def demo_defs)




text \<open>
  C3. Every action follows the transition table documented in \<open>ixgbe_wfs_raps.h\<close>: the new
  state is the documented one for the link status of the updated channels, except in the two
  cells of \<open>doc_exception\<close>, where the code keeps the state; the record of no other workstation
  changes.
\<close>

theorem fsm_action_follows_table:
  assumes "length (wfspeer (iw d)) = 8" "event_ok d w e ev"
    and "fsm_valid (fsm_state (peer_of d w)) e (w = myID d)" "fsm_action e w ev d = Inr d'"
  shows "let p = chan_update e w ev d (peer_of d w); s = fsm_state (peer_of d w);
             pri = link_status e d (channel_pri p); sec = link_status e d (channel_sec p)
         in fsm_state (peer_of d' w) =
              (if doc_exception s e (w = myID d) pri sec then s else doc_next s e (w = myID d) pri sec) \<and>
            (\<forall>v. \<not> bad_wfsid v \<and> v \<noteq> w \<longrightarrow> peer_of d' v = peer_of d v)"
proof -
  have bw: "\<not> bad_wfsid w" using assms(2) by (simp add: event_ok_def)
  have st: "fsm_state (chan_update e w ev d (peer_of d w)) = fsm_state (peer_of d w)"
    by (cases e) (auto simp: chan_update_def)
  have "peer_of d' w = peer_after e w ev d (peer_of d w)"
    using action_peers[OF assms] assms(1) bw by (auto simp: peer_of_def bad_wfsid_iff)
  moreover have "peer_of d' v = peer_of d v" if "\<not> bad_wfsid v" "v \<noteq> w" for v
  proof -
    from bw that have "unat w - 1 \<noteq> unat v - 1"
      by (auto simp: bad_wfsid_iff unat_eq_0[symmetric] word_unat_eq_iff)
    then show ?thesis using action_peers[OF assms] by (simp add: peer_of_def)
  qed
  ultimately show ?thesis by (simp add: peer_after_def next_state_def Let_def st)
qed

theorem fsm_action_follows_table_witness:
  "\<exists>d'. fsm_action E_rapsSF 2 (zero_event_data\<lparr>ed_byte0 := 1\<rparr>) demo = Inr d' \<and>
        fsm_state (peer_of d' 2) = S_protect"
proof -
  let ?ev = "zero_event_data\<lparr>ed_byte0 := 1\<rparr>"
  have p: "peer_of demo 2 = demo_peer 2 S_idle" "myID demo = 1" "length (wfspeer (iw demo)) = 8"
    by (simp_all add: peer_of_def demo_def demo_iwa_def)
  have v: "fsm_valid (fsm_state (peer_of demo 2)) E_rapsSF (2 = myID demo)"
    "event_ok demo 2 E_rapsSF ?ev"
    by (simp_all add: p demo_peer_def event_ok_def bad_wfsid_iff)
  obtain d' where d': "fsm_action E_rapsSF 2 ?ev demo = Inr d'"
    by (simp add: wfs_fsm_action_rapsSF_def p zero_event_data_def flush_if_init_def bad_wfsid_iff
        sf_state_def drop_pri_def demo_peer_def Let_def)
  from fsm_action_follows_table[OF p(3) v(2) v(1) d'] d' show ?thesis
    by (simp add: p Let_def chan_update_def zero_event_data_def link_status_def doc_exception_def
        demo_peer_def drop_pri_def)
qed

text \<open>
  The table of \<open>ixgbe_wfs_raps.h\<close> sends a remote workstation to \<open>S_init\<close> on \<open>E_localSF\<close>
  whenever its primary link is up; the code keeps an idle workstation whose primary link is up
  in \<open>S_idle\<close> and does not flush its forwarding entries.
\<close>

lemma localSF_keeps_active_peer:
  assumes "length (wfspeer (iw d)) = 8" "\<not> bad_wfsid w" "w \<noteq> myID d"
    and "fsm_state (peer_of d w) = S_idle" "chan_up d (channel_pri (peer_of d w))"
  shows "\<exists>d'. fsm_action E_localSF w ev d = Inr d' \<and> fsm_state (peer_of d' w) = S_idle \<and>
              fib (iw d') = fib (iw d) \<and>
              doc_next S_idle E_localSF False True (chan_up d (channel_sec (peer_of d w))) = S_init"
  using assms by (simp add: wfs_fsm_action_localSF_def Let_def flush_if_init_def sf_state_def)

lemma localSF_keeps_active_peer_witness:
  "\<exists>d'. fsm_action E_localSF 2 zero_event_data demo = Inr d' \<and> fsm_state (peer_of d' 2) = S_idle \<and>
        fib (iw d') = fib (iw demo) \<and>
        doc_next S_idle E_localSF False True (chan_up demo (channel_sec (peer_of demo 2))) = S_init"
  by (rule localSF_keeps_active_peer) (simp_all add: demo_def demo_iwa_def peer_of_def demo_peer_def
      bad_wfsid_iff chan_up_def demo_adapter_def)

text \<open>
  C5. \<open>ixgbe_wfs_fsm_set_event\<close> appends to the queue, in ascending order, one event for every
  addressed workstation whose table entry is valid, all of them when enough buffers are free;
  it stops early only with an empty free list, never loses a buffer, and leaves peers and
  forwarding table alone.
\<close>

theorem set_event_queues:
  assumes "ev_inv d fr q al" "iwa_state (iw d) = opened"
  shows "\<exists>fr' new al'. let d' = ixgbe_wfs_fsm_set_event w e evd d;
             ids = event_ids w e d [WFSID_MIN..<Suc WFSID_MAX]
         in ev_inv d' fr' (q @ new) al' \<and>
            map (ev_of (evp (iw d'))) (q @ new) =
              map (ev_of (evp (iw d))) q @ map (\<lambda>i. (of_nat i, e, ev_data evd)) (take (length new) ids) \<and>
            (length new < length ids \<longrightarrow> fr' = []) \<and>
            min (length fr) (length ids) \<le> length new \<and> length new \<le> length ids \<and>
            set al' - (set fr' \<union> set (q @ new)) = set al - (set fr \<union> set q) \<and>
            wfspeer (iw d') = wfspeer (iw d) \<and> fib (iw d') = fib (iw d)"
  using set_event_loop_spec[OF assms(1), of "[WFSID_MIN..<Suc WFSID_MAX]" w e evd] assms(2)
  unfolding ixgbe_wfs_fsm_set_event_def Let_def by (simp only: refl if_True not_True_eq_False if_False simp_thms) blast

theorem set_event_queues_witness:
  "\<exists>fr' new al'. ev_inv (ixgbe_wfs_fsm_set_event 2 E_expire None demo) fr' ([5] @ new) al' \<and> length new = 1 \<and>
     map (ev_of (evp (iw (ixgbe_wfs_fsm_set_event 2 E_expire None demo)))) ([5] @ new) =
       map (ev_of (evp (iw demo))) [5] @ [(2, E_expire, zero_event_data)]"
proof -
  have o: "iwa_state (iw demo) = opened" by (simp add: demo_def demo_iwa_def)
  have ids: "event_ids 2 E_expire demo [WFSID_MIN..<Suc WFSID_MAX] = [2]"
    by (simp add: event_ids_def upt_rec demo_def demo_iwa_def demo_peer_def)
  from set_event_queues[OF demo_ev_inv o, of 2 E_expire None] obtain fr' new al' where
    n: "ev_inv (ixgbe_wfs_fsm_set_event 2 E_expire None demo) fr' ([5] @ new) al'"
       "map (ev_of (evp (iw (ixgbe_wfs_fsm_set_event 2 E_expire None demo)))) ([5] @ new) =
        map (ev_of (evp (iw demo))) [5] @ map (\<lambda>i. (of_nat i, E_expire, ev_data None)) (take (length new) [2])"
       "min (length [6, 7 :: nat]) 1 \<le> length new" "length new \<le> 1"
    unfolding Let_def ids by auto
  from n(3,4) have "length new = 1" by simp
  with n show ?thesis
    by - (rule exI[of _ fr'], rule exI[of _ new], rule exI[of _ al'], simp add: ev_data_def)
qed


text \<open>
  C4. \<open>wfs_fsm_run\<close> refines the pool-free specification \<open>fsm_handle\<close>: the events are handled
  in the order they were queued, each against the state the earlier ones left, and the peers
  and the forwarding table end as the specification says.
\<close>

theorem fsm_run_refines_handle:
  assumes "ev_inv d fr q al" "peers_ok d" "queue_ok d (map (ev_of (evp (iw d))) q)"
  shows "map_sum id (\<lambda>r. (wfspeer (iw r), fib (iw r), flag (rc r))) (wfs_fsm_run d) =
         map_sum id (\<lambda>r. (wfspeer (iw r), fib (iw r), flag (rc r) AND NOT RAPS_CTRL_FSM_EVENT))
           (fsm_handle (map (ev_of (evp (iw d))) q) d)"
  using fsm_run_refines[OF assms] by (auto split: sum.splits)

theorem fsm_run_refines_handle_witness:
  "map_sum id (\<lambda>r. (wfspeer (iw r), fib (iw r), flag (rc r))) (wfs_fsm_run demo) =
   map_sum id (\<lambda>r. (wfspeer (iw r), fib (iw r), flag (rc r) AND NOT RAPS_CTRL_FSM_EVENT))
     (fsm_handle (map (ev_of (evp (iw demo))) [5]) demo)"
  by (rule fsm_run_refines_handle[OF demo_ev_inv demo_peers_ok demo_queue_ok])

lemma get_n_kmalloc:
  assumes "ev_pool_ok s [] al" "length al + n \<le> EVBUF_MAX_NUM"
  shows "fst (pool_get_n wfs_fsm_alloc_event n s) \<longleftrightarrow> (\<forall>i<n. ev_kmalloc s i \<noteq> None)"
  using assms
proof (induction n arbitrary: s al)
  case (Suc n)
  then have h: "fsmEvBuf_head s = None" "fsmEvBuf_count s < of_nat EVBUF_MAX_NUM"
    by (auto simp: ev_pool_ok_def word_less_nat_alt unat_of_nat)
  obtain p s' where a: "wfs_fsm_alloc_event s = (p, s')" by (cases "wfs_fsm_alloc_event s")
  with h have p: "p = ev_kmalloc s 0" "ev_kmalloc s' = ev_kmalloc s \<circ> Suc"
    by (auto simp: wfs_fsm_alloc_event_def Let_def split: option.splits)
  show ?case
  proof (cases p)
    case None
    with a p show ?thesis by auto
  next
    case (Some m)
    with a evpool.get_new[OF Suc.prems(1)] have "ev_pool_ok s' [] (m # al)" by auto
    from Suc.IH[OF this] Suc.prems a Some p show ?thesis
      by (auto simp: less_Suc_eq_0_disj)
  qed
qed simp

text \<open>
  \<open>ixgbe_wfs_fsm_init\<close> on an empty pool returns 0 exactly when the kernel grants all 64
  buffers, and then the pool has 64 free buffers; otherwise it returns \<open>-ENOMEM\<close>. In both cases
  \<open>ixgbe_wfs_fsm_cleanup\<close> frees every allocated buffer exactly once.
\<close>

lemma fsm_init_cleanup:
  assumes "ev_pool_ok s [] []"
  shows "\<exists>r s' fr al. ixgbe_wfs_fsm_init s = Inr (r, s') \<and> ev_pool_ok s' fr al \<and>
           ixgbe_wfs_fsm_cleanup s' = Inr al \<and> distinct al \<and>
           (if \<forall>i<EVBUF_MIN_NUM. ev_kmalloc s i \<noteq> None
            then r = 0 \<and> fr = al \<and> length al = EVBUF_MIN_NUM else r = - ENOMEM \<and> fr = [])"
proof -
  obtain b s1 where g: "pool_get_n wfs_fsm_alloc_event EVBUF_MIN_NUM s = (b, s1)"
    by (cases "pool_get_n wfs_fsm_alloc_event EVBUF_MIN_NUM s")
  have b: "b = (\<forall>i<EVBUF_MIN_NUM. ev_kmalloc s i \<noteq> None)" using get_n_kmalloc[OF assms, of EVBUF_MIN_NUM] g by simp
  have clean: "ixgbe_wfs_fsm_cleanup t = Inr al" if "ev_pool_ok t fr al" for t fr al
    using that pool_walk_list_at[of next_eb "ev_heap t" "fsmEvBufs t" al]
    by (auto simp: ixgbe_wfs_fsm_cleanup_def ev_pool_ok_def ev_chain_def[abs_def])
  show ?thesis
  proof (cases b)
    case True
    with g have "pool_get_n wfs_fsm_alloc_event EVBUF_MIN_NUM s = (True, s1)" by simp
    from evpool.fill_pool[OF assms this] obtain s2 al where
      s2: "pool_put_all ev_chain ev_free_buffer (fsmEvBufs s1) s1 = Some s2" "ev_pool_ok s2 al al"
          "length al = EVBUF_MIN_NUM" by blast
    with True g have "ixgbe_wfs_fsm_init s = Inr (0, s2)" by (simp add: ixgbe_wfs_fsm_init_def)
    moreover have "distinct al" using evpool.pool_wf[OF s2(2)] by simp
    ultimately show ?thesis using s2 clean[OF s2(2)] True b by auto
  next
    case False
    from evpool.get_n_pool[OF assms g] obtain al where al: "ev_pool_ok s1 [] al" by auto
    moreover have "distinct al" using evpool.pool_wf[OF al] by simp
    moreover from False g have "ixgbe_wfs_fsm_init s = Inr (- ENOMEM, s1)" by (simp add: ixgbe_wfs_fsm_init_def)
    ultimately show ?thesis using clean[OF al] False b by auto
  qed
qed

definition empty_pool :: "(nat \<Rightarrow> ptr) \<Rightarrow> ev_pool" where
  "empty_pool km = \<lparr>ev_heap = (\<lambda>_. demo_buffer None None), fsmEvBufs = None, fsmEvBuf_head = None,
     fsmEvBuf_tail = None, fsmEvBuf_count = 0, ev_kmalloc = km\<rparr>"

lemma fsm_init_cleanup_witness:
  "\<exists>s' al. ixgbe_wfs_fsm_init (empty_pool (\<lambda>i. Some (3 * i))) = Inr (0, s') \<and>
           ixgbe_wfs_fsm_cleanup s' = Inr al \<and> length al = EVBUF_MIN_NUM"
proof -
  have "ev_pool_ok (empty_pool (\<lambda>i. Some (3 * i))) [] []"
    by (simp add: ev_pool_ok_def empty_pool_def fresh_supply_def)
  from fsm_init_cleanup[OF this] show ?thesis by (auto simp: empty_pool_def)
qed

end
