(* ===== verification/WfsRaps.thy ===== *)
theory WfsRaps
  imports WfsBert WfsFsmProps
begin

text \<open>
  The periodic part of \<open>ixgbe_wfs_raps.c\<close>: ageing of the peers (\<open>wfs_update_peers\<close>), the timer
  handler \<open>raps_main\<close> with its announce, NR and SF timers, and start and stop of the engine.
\<close>

section \<open>Ageing of peers\<close>

text \<open>One \<open>ttl\<close> of a peer: the decremented value and whether it expired at this tick.\<close>

definition ttl_tick :: "u16 \<Rightarrow> u16 \<times> bool" where
  "ttl_tick t = (if sint t > 0 then (t - RAPS_TICK, sint (t - RAPS_TICK) \<le> 0) else (t, False))"

definition update_peer :: "nat \<Rightarrow> drv \<Rightarrow> drv" where
  "update_peer i d =
     (let w = of_nat i; peer = peer_of d w;
          (tp, ep) = ttl_tick (ttl_pri peer);
          (ts, es) = ttl_tick (ttl_sec peer);
          d1 = upd_peer w (\<lambda>p. p\<lparr>ttl_pri := tp, ttl_sec := ts\<rparr>) d
      in if ep \<or> es then ixgbe_wfs_fsm_set_event w E_expire None d1 else d1)"

fun update_peers_loop :: "nat list \<Rightarrow> drv \<Rightarrow> nat \<Rightarrow> drv \<times> nat" where
  "update_peers_loop [] d count = (d, count)"
| "update_peers_loop (i # is) d count =
     (if fsm_state (peer_of d (of_nat i)) = S_init \<or> of_nat i = myID d
      then update_peers_loop is d count
      else update_peers_loop is (update_peer i d) (count + 1))"

definition wfs_update_peers :: "drv \<Rightarrow> drv" where
  "wfs_update_peers d =
     (let (d1, count) = update_peers_loop [WFSID_MIN..<Suc WFSID_MAX] d 0
      in if count = 0 then upd_rc (\<lambda>r. r\<lparr>flag := flag r AND NOT RAPS_CTRL_PEER_TTL\<rparr>) d1 else d1)"

section \<open>The timer handler\<close>

definition has_flag :: "u32 \<Rightarrow> drv \<Rightarrow> bool" where
  "has_flag f d \<longleftrightarrow> flag (rc d) AND f \<noteq> 0"

definition raps_fsm_event :: "drv \<Rightarrow> fault + drv" where
  "raps_fsm_event d = (if has_flag RAPS_CTRL_FSM_EVENT d then wfs_fsm_run d else Inr d)"

definition raps_announce :: "drv \<Rightarrow> fault + drv" where
  "raps_announce d =
     (if has_flag RAPS_CTRL_ANNOUNCE d then
        (let d1 = upd_rc (\<lambda>r. r\<lparr>t_announce := t_announce r - RAPS_TICK\<rparr>) d
         in if sint (t_announce (rc d1)) \<le> 0
            then rbind (ixgbe_wfs_send_announce d1)
                   (\<lambda>d2. Inr (upd_rc (\<lambda>r. r\<lparr>t_announce := RAPS_ANNOUNCE_INT\<rparr>) d2))
            else Inr d1)
      else Inr d)"

definition raps_nr :: "drv \<Rightarrow> fault + drv" where
  "raps_nr d =
     (if has_flag RAPS_CTRL_NR d then
        (let d1 = upd_rc (\<lambda>r. r\<lparr>t_rapsNR := t_rapsNR r - RAPS_TICK\<rparr>) d
         in if sint (t_rapsNR (rc d1)) \<le> 0
            then if sint (c_rapsNR (rc d1)) > 0
                 then rbind (ixgbe_wfs_send_raps E_rapsNR d1)
                        (\<lambda>d2. Inr (upd_rc (\<lambda>r. r\<lparr>c_rapsNR := c_rapsNR r - 1, t_rapsNR := RAPS_NR_INT\<rparr>) d2))
                 else Inr (upd_rc (\<lambda>r. r\<lparr>flag := flag r AND NOT RAPS_CTRL_NR\<rparr>) d1)
            else Inr d1)
      else Inr d)"

text \<open>After sending, \<open>t_rapsNR\<close> is reloaded, not \<open>t_rapsSF\<close>.\<close>

definition raps_sf :: "drv \<Rightarrow> fault + drv" where
  "raps_sf d =
     (if has_flag RAPS_CTRL_SF d then
        (let d1 = upd_rc (\<lambda>r. r\<lparr>t_rapsSF := t_rapsSF r - RAPS_TICK\<rparr>) d
         in if sint (t_rapsSF (rc d1)) \<le> 0
            then rbind (ixgbe_wfs_send_raps E_rapsSF d1)
                   (\<lambda>d2. Inr (upd_rc (\<lambda>r. r\<lparr>t_rapsNR := RAPS_SF_INT\<rparr>) d2))
            else Inr d1)
      else Inr d)"

definition raps_peer_ttl :: "drv \<Rightarrow> drv" where
  "raps_peer_ttl d = (if has_flag RAPS_CTRL_PEER_TTL d then wfs_update_peers d else d)"

text \<open>The address of the interface: \<open>ifa->ifa_address\<close> of the first entry, without a check for NULL.\<close>

definition my_ip :: "drv \<Rightarrow> fault + u32" where
  "my_ip d = (case nd_ip (nd d) of None \<Rightarrow> Inr 0 | Some None \<Rightarrow> Inl NullDeref | Some (Some a) \<Rightarrow> Inr a)"

definition set_my_ip :: "drv \<Rightarrow> fault + drv" where
  "set_my_ip d =
     rbind (my_ip d) (\<lambda>a.
     rbind (wfs_idx (myID d) (wfspeer (iw d))) (\<lambda>_.
     Inr (upd_iw (\<lambda>i. i\<lparr>iwa_ip := a\<rparr>) (upd_peer (myID d) (\<lambda>p. p\<lparr>wp_ip := a\<rparr>) d))))"

definition raps_add_timer :: "drv \<Rightarrow> fault + drv" where
  "raps_add_timer d =
     (if raps_timer_pending (iw d) then Inl BugOn
      else Inr (upd_iw (\<lambda>i. i\<lparr>raps_timer_expires := jiffies d + RAPS_TICK, raps_timer_pending := True\<rparr>) d))"

definition raps_main :: "drv \<Rightarrow> fault + drv" where
  "raps_main d =
     rbind (raps_fsm_event d) (\<lambda>d1.
     rbind (raps_announce d1) (\<lambda>d2.
     rbind (raps_nr d2) (\<lambda>d3.
     rbind (raps_sf d3) (\<lambda>d4.
     rbind (set_my_ip (raps_peer_ttl d4)) raps_add_timer))))"

section \<open>Start and stop\<close>

definition ixgbe_wfs_raps_start :: "drv \<Rightarrow> fault + drv" where
  "ixgbe_wfs_raps_start d =
     (let d1 = upd_iw (\<lambda>i. i\<lparr>raps_ctrl := zero_raps_ctrl, wfspeer := replicate WFSID_MAX zero_peer\<rparr>) d in
      rbind (wfs_idx (myID d1) (wfspeer (iw d1))) (\<lambda>_.
      rbind (set_my_ip (upd_peer (myID d1) (\<lambda>p. p\<lparr>wp_mac := take 6 (mac_addr (iw d1))\<rparr>) d1)) (\<lambda>d2.
      rbind (deref (primary (iw d2))) (\<lambda>pri.
      rbind (deref (secondary (iw d2))) (\<lambda>sec.
      let d3 = upd_peer (myID d2)
                 (\<lambda>p. p\<lparr>channel_pri := Some pri, channel_sec := Some sec,
                        port_pri := ucast (wfs_port (ads d2 pri)), port_sec := ucast (wfs_port (ads d2 sec)),
                        ttl_pri := RAPS_PEER_TIMEOUT, ttl_sec := RAPS_PEER_TIMEOUT\<rparr>) d2;
          d4 = ixgbe_wfs_fsm_set_event (myID d3) E_discover None d3
      in raps_add_timer (upd_iw (\<lambda>i. i\<lparr>raps_timer_pending := False\<rparr>) d4))))))"

definition ixgbe_wfs_raps_stop :: "drv \<Rightarrow> fault + drv" where
  "ixgbe_wfs_raps_stop d =
     rbind (ixgbe_wfs_bert_stop_request d) (\<lambda>d1.
     Inr (upd_iw (\<lambda>i. i\<lparr>raps_timer_pending := False\<rparr>) d1))"

end
