(* ===== verification/WfsRecv.thy ===== *)
theory WfsRecv
  imports WfsRaps
begin

text \<open>
  Reception: the control packet handlers of \<open>ixgbe_wfs.c\<close> and the ring part of
  \<open>ixgbe_process_skb_fields\<close> in \<open>ixgbe_main.c\<close>, which drops, forwards, consumes or delivers a
  received frame. A handler gets the packet bytes and the offset of the option that
  \<open>wfspkt_getopt\<close> found, and may rewrite the packet in place.
\<close>

section \<open>Announce and RAPS packets\<close>

definition rd32 :: "nat \<Rightarrow> pkt \<Rightarrow> fault + u32" where
  "rd32 off p = rbind (rds off 4 p) (\<lambda>bs. Inr (of_le bs))"

definition rd16 :: "nat \<Rightarrow> pkt \<Rightarrow> fault + u16" where
  "rd16 off p = rbind (rds off 2 p) (\<lambda>bs. Inr (of_le bs))"

definition rd64 :: "nat \<Rightarrow> pkt \<Rightarrow> fault + u64" where
  "rd64 off p = rbind (rds off 8 p) (\<lambda>bs. Inr (of_le bs))"

definition wfs_process_announce :: "nat \<Rightarrow> pkt \<Rightarrow> nat \<Rightarrow> drv \<Rightarrow> fault + (pkt \<times> drv)" where
  "wfs_process_announce a p opt d =
     rbind (pkt_src p) (\<lambda>src.
     rbind (wfs_idx src (wfspeer (iw d))) (\<lambda>_.
     rbind (rds (opt + 2) 6 p) (\<lambda>mac.
     rbind (rd32 (opt + 8) p) (\<lambda>ip.
     rbind (rd (opt + 12) p) (\<lambda>b.
     let d1 = upd_peer src (\<lambda>q. q\<lparr>wp_mac := mac, wp_ip := htonl ip\<rparr>) d;
         port = drop_bit 2 b;
         ev = (\<lambda>pri. \<lparr>ed_byte0 = pri, ed_byte1 = port, ed_channel = Some a\<rparr>);
         d2 = (if b AND 1 \<noteq> 0 then ixgbe_wfs_fsm_set_event src E_discover (Some (ev 1)) d1
               else if b AND 2 \<noteq> 0 then ixgbe_wfs_fsm_set_event src E_discover (Some (ev 0)) d1
               else d1) in
     rbind (wr 14 [WFSPKT_TYPE_CTRL_NONE] p) (\<lambda>p1. Inr (p1, d2)))))))"

text \<open>
  A signal failure announced over the channel to the peer's primary port is on its secondary
  link, and conversely. Only the first two bytes of the event data are assigned.
\<close>

definition wfs_process_raps :: "nat \<Rightarrow> pkt \<Rightarrow> nat \<Rightarrow> drv \<Rightarrow> fault + (pkt \<times> drv)" where
  "wfs_process_raps a p opt d =
     rbind (pkt_src p) (\<lambda>src.
     rbind (rd (opt + 2) p) (\<lambda>request.
     rbind (rd (opt + 3) p) (\<lambda>status.
     rbind (if request = WFSOPT_RAPS_REQ_NR then Inr (Some (ixgbe_wfs_fsm_set_event src E_rapsNR None d))
            else if request = WFSOPT_RAPS_REQ_SF then
              rbind (wfs_idx src (wfspeer (iw d))) (\<lambda>peer.
              let ev = (\<lambda>f. (stack_event d)\<lparr>ed_byte0 := f, ed_byte1 := status AND 1\<rparr>)
              in Inr (if Some a = channel_pri peer
                      then Some (ixgbe_wfs_fsm_set_event src E_rapsSF (Some (ev 0)) d)
                      else if Some a = channel_sec peer
                      then Some (ixgbe_wfs_fsm_set_event src E_rapsSF (Some (ev 1)) d)
                      else None))
            else Inr (Some d)) (\<lambda>r.
     case r of
       None \<Rightarrow> rbind (wr 14 [WFSPKT_TYPE_CTRL_NONE] p) (\<lambda>p1. Inr (p1, d))
     | Some d1 \<Rightarrow>
         if status AND 2 \<noteq> 0 then rbind (wr 14 [WFSPKT_TYPE_CTRL_NONE] p) (\<lambda>p1. Inr (p1, d1))
         else
           rbind (wr 0 (broadcast_mac @ take 6 (mac_addr (iw d1))) p) (\<lambda>p1.
           rbind (wr 15 [WFSID_ALL, myID d1] p1) (\<lambda>p2.
           rbind (wfspkt_set_raps_dnf opt p2) (\<lambda>p3. Inr (p3, d1))))))))"

section \<open>BERT packets\<close>

text \<open>The sequence number bookkeeping shared by requests and responses.\<close>

definition seq_account :: "u32 \<Rightarrow> wfs_bert_cfg \<Rightarrow> wfs_bert_cfg" where
  "seq_account seqno c =
     (let st = bc_stats c
      in if seqno < bc_seqno c then c\<lparr>bc_stats := st\<lparr>err_seq := err_seq st + 1\<rparr>\<rparr>
         else if seqno > bc_seqno c
         then c\<lparr>bc_stats := st\<lparr>err_drop := err_drop st + ucast (seqno - bc_seqno c)\<rparr>, bc_seqno := seqno + 1\<rparr>
         else c\<lparr>bc_seqno := seqno + 1\<rparr>)"

definition error_account :: "bool \<Rightarrow> u16 \<Rightarrow> u16 \<Rightarrow> wfs_bert_cfg \<Rightarrow> wfs_bert_cfg" where
  "error_account wrong_size csum pkt_csum c =
     (let st = bc_stats c;
          st1 = (if wrong_size then st\<lparr>err_size := err_size st + 1\<rparr> else st);
          st2 = (if csum \<noteq> bc_data_csum c \<or> pkt_csum \<noteq> bc_data_csum c
                 then st1\<lparr>err_csum := err_csum st1 + 1\<rparr> else st1)
      in c\<lparr>bc_stats := st2\<rparr>)"

definition rx_account :: "u8 \<Rightarrow> wfs_bert_cfg \<Rightarrow> wfs_bert_cfg" where
  "rx_account len c =
     (let st = bc_stats c
      in c\<lparr>bc_stats := st\<lparr>rx_pkts := rx_pkts st + 1,
                          rx_bytes := rx_bytes st + (ucast len + ucast (bc_data_len c))\<rparr>\<rparr>)"

text \<open>The round trip time; \<open>elapse >= 0\<close> always holds for an unsigned value.\<close>

definition rtt_account :: "u64 \<Rightarrow> wfs_bert_cfg \<Rightarrow> fault + wfs_bert_cfg" where
  "rtt_account elapse c =
     (let st = bc_stats c
      in if rtt_avg st = 0
         then Inr (c\<lparr>bc_stats := st\<lparr>rtt_max := elapse, rtt_min := elapse, rtt_avg := elapse\<rparr>\<rparr>)
         else
           let st1 = (if elapse > rtt_max st then st\<lparr>rtt_max := elapse\<rparr>
                      else if elapse < rtt_min st then st\<lparr>rtt_min := elapse\<rparr> else st)
           in if rx_pkts st1 + 1 = 0 then Inl DivByZero
              else Inr (c\<lparr>bc_stats := st1\<lparr>rtt_avg :=
                            (rx_pkts st1 * rtt_avg st1 + elapse) div (rx_pkts st1 + 1)\<rparr>\<rparr>))"

definition bert_response :: "pkt \<Rightarrow> nat \<Rightarrow> bool \<Rightarrow> u16 \<Rightarrow> drv \<Rightarrow> fault + (pkt \<times> drv)" where
  "bert_response p opt wrong_size csum d =
     rbind (wr 14 [WFSPKT_TYPE_CTRL_NONE] p) (\<lambda>p1.
     rbind (wfs_idx (myID d) (wfsbert (iw d))) (\<lambda>bertcfg.
     if bc_on bertcfg = 0 then Inr (p1, d)
     else
       rbind (pkt_len p) (\<lambda>l.
       rbind (rd64 (opt + bert_off_ts) p) (\<lambda>ts.
       rbind (rd32 (opt + bert_off_seqno) p) (\<lambda>seqno.
       rbind (rd16 (opt + bert_off_data_csum) p) (\<lambda>pkt_csum.
       rbind (rtt_account (usecs d - ts) (bertcfg\<lparr>jfs_last := jiffies d\<rparr>)) (\<lambda>c.
       Inr (p1, upd_bert (myID d)
              (\<lambda>_. error_account wrong_size csum pkt_csum (seq_account seqno (rx_account l c))) d))))))))"

definition bert_reset :: "pkt \<Rightarrow> nat \<Rightarrow> bool \<Rightarrow> u16 \<Rightarrow> u8 \<Rightarrow> drv \<Rightarrow> fault + (pkt \<times> drv)" where
  "bert_reset p opt wrong_size csum src d =
     rbind (wr 14 [WFSPKT_TYPE_CTRL_NONE] p) (\<lambda>p1.
     rbind (rd16 (opt + bert_off_data_csum) p) (\<lambda>pkt_csum.
     if wrong_size \<or> csum \<noteq> pkt_csum then Inr (p1, d)
     else
       rbind (rd16 (opt + bert_off_data_len) p) (\<lambda>data_len.
       rbind (rd32 (opt + bert_off_seqno) p) (\<lambda>seqno.
       Inr (p1, upd_bert src (\<lambda>c. c\<lparr>bc_data_csum := pkt_csum, bc_data_len := data_len, jfs := jiffies d,
                  jfs_last := jiffies d, bc_seqno := seqno + 1, bc_stats := zero_bert_stats\<rparr>) d)))))"

definition bert_request :: "pkt \<Rightarrow> nat \<Rightarrow> bool \<Rightarrow> u16 \<Rightarrow> u8 \<Rightarrow> drv \<Rightarrow> fault + (pkt \<times> drv)" where
  "bert_request p opt wrong_size csum src d =
     rbind (pkt_len p) (\<lambda>l.
     rbind (rd32 (opt + bert_off_seqno) p) (\<lambda>seqno.
     rbind (rd16 (opt + bert_off_data_csum) p) (\<lambda>pkt_csum.
     rbind (wfs_idx src (wfspeer (iw d))) (\<lambda>peer.
     let d1 = upd_bert src (\<lambda>c. rx_account l (error_account wrong_size csum pkt_csum
                (seq_account seqno (c\<lparr>jfs_last := jiffies d\<rparr>)))) d in
     rbind (wr 14 [WFSPKT_TYPE_CTRL_BERT] p) (\<lambda>p1.
     rbind (wr (opt + bert_off_type) [WFSOPT_BERT_RESPONSE] p1) (\<lambda>p2.
     rbind (wr (opt + bert_off_data_csum) (le16 csum) p2) (\<lambda>p3.
     rbind (wr 0 (take 6 (wp_mac peer) @ take 6 (mac_addr (iw d1))) p3) (\<lambda>p4.
     rbind (wr 15 [src, myID d1] p4) (\<lambda>p5.
     Inr (p5, upd_bert src (\<lambda>c. c\<lparr>bc_stats := (bc_stats c)
                \<lparr>tx_pkts := tx_pkts (bc_stats c) + 1,
                 tx_bytes := tx_bytes (bc_stats c) + (ucast l + ucast (bc_data_len c))\<rparr>\<rparr>) d1))))))))))"

definition wfs_process_bert :: "nat \<Rightarrow> sk_buff \<Rightarrow> nat \<Rightarrow> drv \<Rightarrow> fault + (pkt \<times> drv)" where
  "wfs_process_bert a skb opt d =
     (let p = skb_buf skb in
      rbind (pkt_src p) (\<lambda>src.
      rbind (pkt_len p) (\<lambda>l.
      rbind (rd (opt + bert_off_type) p) (\<lambda>ty.
      rbind (rd16 (opt + bert_off_data_len) p) (\<lambda>data_len.
      let wrong_size = (skb_len skb \<noteq> unat l + unat data_len) in
      rbind (if wrong_size then Inr 0 else ixgbe_wfs_get_bert_skb_csum (ip_compute_csum d) skb) (\<lambda>csum.
      if ty = WFSOPT_BERT_RESPONSE then bert_response p opt wrong_size csum d
      else
        rbind (wfs_idx src (wfsbert (iw d))) (\<lambda>_.
        if ty = WFSOPT_BERT_RESET then bert_reset p opt wrong_size csum src d
        else if ty = WFSOPT_BERT_REQUEST then bert_request p opt wrong_size csum src d
        else Inr (p, d))))))))"

section \<open>Dispatch\<close>

definition ixgbe_wfs_recv_control :: "nat \<Rightarrow> sk_buff \<Rightarrow> drv \<Rightarrow> fault + (sk_buff \<times> drv)" where
  "ixgbe_wfs_recv_control a skb d =
     (let p = skb_buf skb in
      rbind (wfspkt_getopt p WFSOPT_ANNOUNCE) (\<lambda>o1.
      rbind (case o1 of
               Some opt \<Rightarrow> wfs_process_announce a p opt d
             | None \<Rightarrow>
                 rbind (wfspkt_getopt p WFSOPT_RAPS) (\<lambda>o2.
                 case o2 of
                   Some opt \<Rightarrow> wfs_process_raps a p opt d
                 | None \<Rightarrow>
                     rbind (wfspkt_getopt p WFSOPT_BERT) (\<lambda>o3.
                     case o3 of
                       Some opt \<Rightarrow> wfs_process_bert a skb opt d
                     | None \<Rightarrow> Inr (p, d)))) (\<lambda>(p1, d1).
      Inr (skb\<lparr>skb_buf := p1\<rparr>, d1))))"

section \<open>A received frame\<close>

text \<open>
  Forwarding to the other channel. The copy keeps the VLAN id of the descriptor in its control
  block, where the accelerated \<open>vlan_put_tag\<close> of the device puts it.
\<close>

definition rx_forward :: "nat \<Rightarrow> u16 \<Rightarrow> sk_buff \<Rightarrow> drv \<Rightarrow> fault + drv" where
  "rx_forward other vid skb d =
     (case skb_copy skb d of
        (None, d1) \<Rightarrow> Inr d1
      | (Some n, d1) \<Rightarrow>
          (let k = unat (num_tx_queues (ads d1 other))
           in if k = 0 then Inl DivByZero
              else xmit_or_free
                     (n\<lparr>queue_mapping := of_nat ((unat (queue_mapping n) + 1) mod k), vlan_tci := vid\<rparr>) other d1))"

text \<open>What happens to a control packet after its handler ran.\<close>

definition rx_control :: "nat \<Rightarrow> nat \<Rightarrow> sk_buff \<Rightarrow> drv \<Rightarrow> fault + drv" where
  "rx_control a other skb d =
     rbind (ixgbe_wfs_recv_control a skb d) (\<lambda>(skb1, d1).
     rbind (pkt_type (skb_buf skb1)) (\<lambda>ty.
     if ty = WFSPKT_TYPE_CTRL_NONE then Inr (kfree_skb d1)
     else if ty = WFSPKT_TYPE_CTRL_RAPS \<and> ad_link_up (ads d1 other) then xmit_or_free skb1 other d1
     else if ty = WFSPKT_TYPE_CTRL_BERT \<and> ad_link_up (ads d1 a) then xmit_or_free skb1 a d1
     else Inr (kfree_skb d1)))"

text \<open>Learning: the inner source address and, for IPv4, the source IP address.\<close>

definition rx_learn :: "u16 \<Rightarrow> u8 \<Rightarrow> pkt \<Rightarrow> drv \<Rightarrow> fault + drv" where
  "rx_learn vid src p d =
     rbind (rds 12 2 p) (\<lambda>proto.
     rbind (if proto = [0x81, 0x00] then rds 16 2 p else Inr []) (\<lambda>proto2.
     let l3 = (if proto = [0x81, 0x00] \<and> proto2 = [0x08, 0x00] then Some 18
               else if proto = [0x08, 0x00] then Some 14 else None) in
     rbind (case l3 of None \<Rightarrow> Inr 0 | Some o' \<Rightarrow> rbind (rd32 (o' + 12) p) (\<lambda>x. Inr (htonl x))) (\<lambda>ip.
     rbind (rds 6 6 p) (\<lambda>h_source.
     on_fib (ixgbe_wfs_fib_update (jiffies d) vid h_source ip src) d))))"

text \<open>
  The result is the buffer delivered to the stack (\<open>true\<close>), or \<open>None\<close> (\<open>false\<close>): the buffer has been
  freed or sent. \<open>vid\<close> is the VLAN id of the receive descriptor, 0 when it has none.
\<close>

definition ixgbe_process_skb_fields :: "nat \<Rightarrow> u16 \<Rightarrow> sk_buff \<Rightarrow> drv \<Rightarrow> fault + (sk_buff option \<times> drv)" where
  "ixgbe_process_skb_fields a vid skb0 d =
     rbind (ixgbe_wfs_decap skb0) (\<lambda>r.
     case r of
       None \<Rightarrow> Inr (None, kfree_skb d)
     | Some skb \<Rightarrow>
         let p = skb_buf skb in
         rbind (pkt_src p) (\<lambda>src.
         rbind (pkt_dest p) (\<lambda>dest.
         rbind (pkt_len p) (\<lambda>l.
         if src = myID d then Inr (None, kfree_skb d)
         else
           rbind (deref (wfs_other (ads d a))) (\<lambda>other.
           rbind (if dest \<noteq> myID d \<and> ad_link_up (ads d other) then rx_forward other vid skb d else Inr d) (\<lambda>d1.
           rbind (pkt_type p) (\<lambda>ty.
           if dest \<noteq> WFSID_ALL \<and> dest \<noteq> myID d then Inr (None, kfree_skb d1)
           else if ty AND WFSPKT_TYPE_CTRL_MASK \<noteq> 0
           then rbind (rx_control a other skb d1) (\<lambda>d2. Inr (None, d2))
           else
             rbind (skb_pull (unat l) skb) (\<lambda>skb1.
             let skb2 = skb1\<lparr>vlan_tci := vid\<rparr> in
             rbind (rx_learn vid src (skb_buf skb2) d1) (\<lambda>d2. Inr (Some skb2, d2))))))))))"

end
