(* ===== verification/WfsIoc.thy ===== *)
theory WfsIoc
  imports WfsRecv
begin

text \<open>
  The control interface of \<open>ixgbe_wfs_ioc.c\<close>: the peer list, the forwarding table with egress
  ports, the BERT statistics, and the dispatch of \<open>ixgbe_wfs_ioctl\<close>. The user structures are
  arguments and results; whether \<open>copy_from_user\<close> and \<open>copy_to_user\<close> succeed is an argument.
\<close>

abbreviation MAX_PEER_LIST :: nat where "MAX_PEER_LIST \<equiv> 8"
abbreviation FIB_GET_SIZE :: nat where "FIB_GET_SIZE \<equiv> 32"
abbreviation EFAULT :: int where "EFAULT \<equiv> 14"

record wfsctl_peer_data =
  pd_local :: u8
  pd_pri :: u8
  pd_sec :: u8
  pd_id :: u8
  pd_mac :: "u8 list"
  pd_ip :: u32
  pd_port_pri :: u8
  pd_port_sec :: u8
  pd_eport :: u8

record wfsctl_bert_stats =
  bs_wfsid :: u8
  bs_interval :: u32
  bs_stats :: wfs_bert_stats

section \<open>Peer list\<close>

text \<open>A port number in a \<open>char\<close>, -1 for none: that of the channel a peer is reached through.\<close>

definition eport_of :: "drv \<Rightarrow> wfs_peer \<Rightarrow> u8" where
  "eport_of d peer =
     (case (fsm_state peer, channel_pri peer, channel_sec peer) of
        (S_idle, Some a, _) \<Rightarrow> wfs_port (ads d a)
      | (S_protect, _, Some a) \<Rightarrow> wfs_port (ads d a)
      | _ \<Rightarrow> - 1)"

definition peer_entry :: "drv \<Rightarrow> nat \<Rightarrow> wfs_peer \<Rightarrow> wfsctl_peer_data" where
  "peer_entry d i peer =
     \<lparr>pd_local = (if of_nat i = myID d then 1 else 0),
      pd_pri = (if fsm_state peer = S_idle then 1 else 0),
      pd_sec = (if fsm_state peer = S_protect then 1 else 0),
      pd_id = of_nat i, pd_mac = take 6 (wp_mac peer), pd_ip = wp_ip peer,
      pd_port_pri = (if channel_pri peer \<noteq> None then ucast (port_pri peer) else - 1),
      pd_port_sec = (if channel_sec peer \<noteq> None then ucast (port_sec peer) else - 1),
      pd_eport = eport_of d peer\<rparr>"

fun peer_list_loop :: "nat list \<Rightarrow> nat \<Rightarrow> drv \<Rightarrow> wfsctl_peer_data list" where
  "peer_list_loop [] room d = []"
| "peer_list_loop (i # is) room d =
     (if room = 0 then []
      else let peer = wfspeer (iw d) ! (i - 1)
           in if fsm_state peer = S_init then peer_list_loop is room d
              else peer_entry d i peer # peer_list_loop is (room - 1) d)"

definition get_wfspeer_list :: "nat \<Rightarrow> drv \<Rightarrow> wfsctl_peer_data list" where
  "get_wfspeer_list max_count d = peer_list_loop [1..<Suc WFSID_MAX] max_count d"

section \<open>Forwarding table\<close>

fun fib_eports :: "nat \<Rightarrow> nat \<Rightarrow> drv \<Rightarrow> wfsctl_fib_data list \<Rightarrow> fault + wfsctl_fib_data list" where
  "fib_eports 0 i d buf = Inr buf"
| "fib_eports (Suc n) i d buf =
     rbind (wfs_idx (fd_id (buf ! i)) (wfspeer (iw d)))
       (\<lambda>peer. fib_eports n (Suc i) d (buf[i := (buf ! i)\<lparr>fd_eport := eport_of d peer\<rparr>]))"

definition get_wfsfib_entry :: "wfsctl_fib_data list \<Rightarrow> int \<Rightarrow> drv \<Rightarrow> fault + (int \<times> wfsctl_fib_data list)" where
  "get_wfsfib_entry buf max_entry d =
     rbind (ixgbe_wfs_fib_get_entries buf max_entry (fib (iw d))) (\<lambda>(num, buf1).
     rbind (fib_eports (nat num) 0 d buf1) (\<lambda>buf2. Inr (num, buf2)))"

section \<open>BERT statistics\<close>

definition jiffies_to_msecs :: "u64 \<Rightarrow> u32" where
  "jiffies_to_msecs j = ucast (1000 div of_nat HZ * j)"

definition get_bert_stats :: "wfsctl_bert_stats \<Rightarrow> drv \<Rightarrow> fault + wfsctl_bert_stats" where
  "get_bert_stats stats d =
     (let w = (if bs_wfsid stats = 0 then myID d else bs_wfsid stats)
      in rbind (wfs_idx w (wfsbert (iw d))) (\<lambda>c.
         Inr (stats\<lparr>bs_wfsid := w, bs_interval := jiffies_to_msecs (jfs_last c - jfs c) div 1000,
                    bs_stats := bc_stats c\<rparr>)))"

section \<open>Dispatch\<close>

abbreviation WFSCTL_GET_PEER_LIST :: int where "WFSCTL_GET_PEER_LIST \<equiv> 0x9001"
abbreviation WFSCTL_GET_PHY_STATS :: int where "WFSCTL_GET_PHY_STATS \<equiv> 0x9002"
abbreviation WFSCTL_GET_FIB :: int where "WFSCTL_GET_FIB \<equiv> 0x9003"
abbreviation WFSCTL_SET_BERT_CFG :: int where "WFSCTL_SET_BERT_CFG \<equiv> 0x9004"
abbreviation WFSCTL_GET_BERT_STATS :: int where "WFSCTL_GET_BERT_STATS \<equiv> 0x9005"

text \<open>\<open>sizeof\<close> of the structures copied to the user.\<close>

abbreviation sizeof_peer_data :: u32 where "sizeof_peer_data \<equiv> 20"
abbreviation sizeof_fib_data :: u32 where "sizeof_fib_data \<equiv> 24"
abbreviation sizeof_bert_stats :: u32 where "sizeof_bert_stats \<equiv> 96"

text \<open>
  What the user passes: the first forwarding entry, the BERT configuration or the statistics
  request, and whether the copies succeed. \<open>stack_fib\<close> is the content of the local array that is
  not overwritten.
\<close>

record ioc_request =
  copy_from_ok :: bool
  copy_to_ok :: bool
  user_fib :: wfsctl_fib_data
  stack_fib :: "wfsctl_fib_data list"
  user_cfg :: wfsctl_bert_cfg
  user_stats :: wfsctl_bert_stats

datatype ioc_reply =
    Reply_none
  | Reply_peers "wfsctl_peer_data list"
  | Reply_fib "wfsctl_fib_data list"
  | Reply_stats wfsctl_bert_stats

record ioc_result =
  retval :: int
  out_len :: "u32 option"
  reply :: ioc_reply

definition ixgbe_wfs_ioctl :: "int \<Rightarrow> ioc_request \<Rightarrow> drv \<Rightarrow> fault + (ioc_result \<times> drv)" where
  "ixgbe_wfs_ioctl cmd req d =
     (let fail = (\<lambda>l. \<lparr>retval = - EFAULT, out_len = l, reply = Reply_none\<rparr>);
          put = (\<lambda>l r. if copy_to_ok req then \<lparr>retval = 0, out_len = Some l, reply = r\<rparr> else fail (Some l))
      in if cmd = WFSCTL_GET_PEER_LIST then
           (let plist = get_wfspeer_list MAX_PEER_LIST d; len = of_nat (length plist) * sizeof_peer_data
            in Inr (if plist = [] then \<lparr>retval = 0, out_len = Some len, reply = Reply_none\<rparr>
                    else put len (Reply_peers plist), d))
         else if cmd = WFSCTL_GET_PHY_STATS then Inr (\<lparr>retval = 0, out_len = None, reply = Reply_none\<rparr>, d)
         else if cmd = WFSCTL_GET_FIB then
           (if \<not> copy_from_ok req then Inr (fail None, d)
            else rbind (get_wfsfib_entry (take FIB_GET_SIZE (user_fib req # stack_fib req)) (int FIB_GET_SIZE) d) (\<lambda>(num, buf).
                 let len = of_int num * sizeof_fib_data
                 in Inr (if num = 0 then \<lparr>retval = 0, out_len = Some len, reply = Reply_none\<rparr>
                         else put len (Reply_fib (take (nat num) buf)), d)))
         else if cmd = WFSCTL_SET_BERT_CFG then
           (if \<not> copy_from_ok req then Inr (fail None, d)
            else let ok = \<lparr>retval = 0, out_len = None, reply = Reply_none\<rparr>
                 in if bcfg_onoff (user_cfg req) \<noteq> 0
                    then rbind (ixgbe_wfs_bert_start_request (user_cfg req) d) (\<lambda>(r, d1). Inr (ok, d1))
                    else rbind (ixgbe_wfs_bert_stop_request d) (\<lambda>d1. Inr (ok, d1)))
         else if cmd = WFSCTL_GET_BERT_STATS then
           (if \<not> copy_from_ok req then Inr (fail None, d)
            else rbind (get_bert_stats (user_stats req) d) (\<lambda>st.
                 Inr (put sizeof_bert_stats (Reply_stats st), d)))
         else Inr (fail None, d))"

end
