(* ===== verification/WfsLink.thy ===== *)
theory WfsLink
  imports WfsIoc
begin

text \<open>
  The life of a ring adapter: its allocation (\<open>ixgbe_wfs_get_adapter\<close>), initialisation and
  clean-up, opening and closing the interface, and the link watchdog of \<open>ixgbe_main.c\<close> that
  raises \<open>E_localSF\<close> and \<open>E_clear_localSF\<close>. The hardware set-up of an adapter is one answer, its
  error code.
\<close>

section \<open>Allocation of ring adapters\<close>

abbreviation IXGBE_MAX_WFS_NIC :: nat where "IXGBE_MAX_WFS_NIC \<equiv> 2"

definition zero_bert_cfg :: wfs_bert_cfg where
  "zero_bert_cfg = \<lparr>bc_on = 0, jfs = 0, jfs_last = 0, bc_seqno = 0, bc_skb = None, bc_data_len = 0,
     bc_data_csum = 0, bc_stats = zero_bert_stats\<rparr>"

text \<open>\<open>memset(iwa, 0, sizeof(struct ixgbe_wfs_adapter))\<close>; the heaps are not part of the struct.\<close>

definition zero_fib :: "fib_state \<Rightarrow> fib_state" where
  "zero_fib s = s\<lparr>fib_rb := (fib_rb s)\<lparr>rb_root := None\<rparr>, fibns := None, fibn_head := None, fibn_tail := None,
     fib_timer_pending := False, fib_timer_expires := 0, current_time_tag := 0, fib_alloc_size := 0, fib_size := 0\<rparr>"

definition zero_evp :: "ev_pool \<Rightarrow> ev_pool" where
  "zero_evp s = s\<lparr>fsmEvBufs := None, fsmEvBuf_head := None, fsmEvBuf_tail := None, fsmEvBuf_count := 0\<rparr>"

definition zero_iwa :: "ixgbe_wfs_adapter \<Rightarrow> ixgbe_wfs_adapter" where
  "zero_iwa i = \<lparr>index = 0, iwa_state = unused, iwa_name = '''', wfs_id = 0, mac_addr = replicate 6 0,
     iwa_ip = 0, dev_id = 0, primary = None, secondary = None, iwa_link_up = False, xmit_err = 0,
     data_seqno = 0, raps_timer_pending = False, raps_timer_expires = 0, raps_ctrl = zero_raps_ctrl,
     evp = zero_evp (evp i), wfspeer = replicate WFSID_MAX zero_peer, fib = zero_fib (fib i),
     bert_ctrl = \<lparr>bt_on = 0, bt_running = 0, responder = 0, burst = 0, bt_work = None\<rparr>,
     bert_seqno = 0, wfsbert = replicate WFSID_MAX zero_bert_cfg\<rparr>"

fun find_index :: "('a \<Rightarrow> bool) \<Rightarrow> nat \<Rightarrow> 'a list \<Rightarrow> nat option" where
  "find_index P n [] = None"
| "find_index P n (x # xs) = (if P x then Some n else find_index P (Suc n) xs)"

definition ixgbe_wfs_get_adapter :: "u32 \<Rightarrow> ixgbe_wfs_adapter list \<Rightarrow> ptr \<times> ixgbe_wfs_adapter list" where
  "ixgbe_wfs_get_adapter did tab =
     (case find_index (\<lambda>a. iwa_state a \<noteq> unused \<and> dev_id a = did) 0 tab of
        Some i \<Rightarrow> (Some i, tab)
      | None \<Rightarrow>
          (case find_index (\<lambda>a. iwa_state a = unused) 0 tab of
             Some i \<Rightarrow>
               (Some i, tab[i := (zero_iwa (tab ! i))\<lparr>index := of_nat i, wfs_id := of_nat i + 1,
                                   iwa_name := ''ring'', iwa_state := allocated, dev_id := did\<rparr>])
           | None \<Rightarrow> (None, tab)))"

section \<open>Initialisation and clean-up\<close>

definition ixgbe_wfs_init :: "drv \<Rightarrow> fault + (int \<times> drv)" where
  "ixgbe_wfs_init d =
     (let d1 = upd_iw (\<lambda>i. i\<lparr>data_seqno := of_le (map (random_byte d) [0..<4])\<rparr>)
                 (d\<lparr>random_byte := (\<lambda>i. random_byte d (i + 4))\<rparr>) in
      rbind (ixgbe_wfs_fsm_init (evp (iw d1))) (\<lambda>(r, s).
      let d2 = upd_evp (\<lambda>_. s) d1 in
      if r \<noteq> 0 then Inr (- ENOMEM, d2)
      else rbind (ixgbe_wfs_fib_init (jiffies d2) (fib (iw d2))) (\<lambda>(r', f).
           Inr (if r' \<noteq> 0 then - ENOMEM else 0, upd_iw (\<lambda>i. i\<lparr>fib := f\<rparr>) d2))))"

text \<open>On this kernel \<open>ixgbe_wfs_ioc_init\<close> only initialises a lock and returns 0.\<close>

definition ixgbe_wfs_init2 :: "bool \<Rightarrow> drv \<Rightarrow> int \<times> drv" where
  "ixgbe_wfs_init2 created d =
     (let (r, d1) = ixgbe_wfs_bert_init created d in (if r \<noteq> 0 then - ENOMEM else 0, d1))"

definition ixgbe_wfs_cleanup :: "drv \<Rightarrow> fault + drv" where
  "ixgbe_wfs_cleanup d =
     rbind (ixgbe_wfs_bert_cleanup d) (\<lambda>d1.
     rbind (ixgbe_wfs_fib_cleanup (fib (iw d1))) (\<lambda>(_, f).
     rbind (ixgbe_wfs_fsm_cleanup (evp (iw d1))) (\<lambda>_.
     Inr (upd_iw (\<lambda>i. i\<lparr>fib := f\<rparr>) d1))))"

section \<open>Opening and closing\<close>

text \<open>
  \<open>ixgbe_open\<close>: \<open>setup a\<close> is the error code of the hardware set-up of adapter \<open>a\<close>. The loop ends at
  the first error; the first component of its result is that code.
\<close>

partial_function (option) open_loop :: "(nat \<Rightarrow> int) \<Rightarrow> ptr \<Rightarrow> drv \<Rightarrow> (int \<times> drv) option" where
  "open_loop setup a d =
     (if a = None then Some (0, d)
      else let d1 = d\<lparr>nd := (nd d)\<lparr>carrier := False\<rparr>\<rparr> in
           if setup (the a) \<noteq> 0 then Some (setup (the a), d1)
           else open_loop setup (wfs_next (ads d1 (the a))) d1)"

declare open_loop.simps [code]

definition ixgbe_open :: "(nat \<Rightarrow> int) \<Rightarrow> drv \<Rightarrow> fault + (int \<times> drv)" where
  "ixgbe_open setup d =
     (if iwa_state (iw d) = opened then Inr (0, d)
      else rbind (of_option (open_loop setup (primary (iw d)) d)) (\<lambda>(r, d1).
           if r \<noteq> 0 then Inr (r, d1)
           else rbind (ixgbe_wfs_raps_start (upd_iw (\<lambda>i. i\<lparr>iwa_state := opened\<rparr>) d1))
                  (\<lambda>d2. Inr (0, d2))))"

definition ixgbe_close :: "drv \<Rightarrow> fault + drv" where
  "ixgbe_close d =
     (if iwa_state (iw d) \<noteq> opened then Inr d
      else rbind (ixgbe_wfs_raps_stop d) (\<lambda>d1. Inr (upd_iw (\<lambda>i. i\<lparr>iwa_state := closed\<rparr>) d1)))"

section \<open>The link watchdog\<close>

definition upd_ad :: "nat \<Rightarrow> (ixgbe_adapter \<Rightarrow> ixgbe_adapter) \<Rightarrow> drv \<Rightarrow> drv" where
  "upd_ad a f d = d\<lparr>ads := (ads d)(a := f (ads d a))\<rparr>"

text \<open>
  \<open>hw_up\<close> is the link status the hardware reports, \<open>timed_out\<close> whether the link check has been
  going on for longer than \<open>IXGBE_TRY_LINK_TIMEOUT\<close>. The result tells whether the status changed.
\<close>

definition ixgbe_watchdog_update_link :: "nat \<Rightarrow> bool \<Rightarrow> bool \<Rightarrow> drv \<Rightarrow> bool \<times> drv" where
  "ixgbe_watchdog_update_link a hw_up timed_out d =
     (if \<not> need_link_update (ads d a) then (False, d)
      else (ad_link_up (ads d a) \<noteq> hw_up,
            upd_ad a (\<lambda>x. x\<lparr>need_link_update := need_link_update x \<and> \<not> (hw_up \<or> timed_out),
                            ad_link_up := hw_up\<rparr>) d))"

definition ixgbe_watchdog_link_is_up :: "nat \<Rightarrow> drv \<Rightarrow> fault + drv" where
  "ixgbe_watchdog_link_is_up a d =
     (let d1 = (if \<not> iwa_link_up (iw d)
                then (upd_iw (\<lambda>i. i\<lparr>iwa_link_up := True\<rparr>) d)\<lparr>nd := (nd d)\<lparr>carrier := True\<rparr>\<rparr> else d) in
      rbind (deref (wfs_other (ads d1 a))) (\<lambda>other.
      let d2 = (if ad_link_up (ads d1 other)
                then ixgbe_wfs_fsm_set_event WFSID_ALL E_clear_localSF None d1 else d1)
      in Inr (d2\<lparr>nd := (nd d2)\<lparr>tx_stopped := False\<rparr>\<rparr>)))"

definition ixgbe_watchdog_link_is_down :: "nat \<Rightarrow> drv \<Rightarrow> fault + drv" where
  "ixgbe_watchdog_link_is_down a d =
     (let d1 = upd_ad a (\<lambda>x. x\<lparr>ad_link_up := False\<rparr>) d in
      rbind (deref (wfs_other (ads d1 a))) (\<lambda>other.
      let d2 = (if \<not> ad_link_up (ads d1 other)
                then (upd_iw (\<lambda>i. i\<lparr>iwa_link_up := False\<rparr>) d1)
                       \<lparr>nd := (nd d1)\<lparr>carrier := False, tx_stopped := True\<rparr>\<rparr> else d1)
      in Inr (ixgbe_wfs_fsm_set_event WFSID_ALL E_localSF None d2)))"

text \<open>\<open>down\<close>: the interface is down, being removed or resetting.\<close>

definition ixgbe_watchdog_subtask :: "bool \<Rightarrow> nat \<Rightarrow> bool \<Rightarrow> bool \<Rightarrow> drv \<Rightarrow> fault + drv" where
  "ixgbe_watchdog_subtask down a hw_up timed_out d =
     (if down then Inr d
      else let (changed, d1) = ixgbe_watchdog_update_link a hw_up timed_out d
           in if changed
              then if ad_link_up (ads d1 a) then ixgbe_watchdog_link_is_up a d1
                   else ixgbe_watchdog_link_is_down a d1
              else Inr d1)"

end
