(* ===== verification/WfsRing.thy ===== *)
theory WfsRing
  imports WfsLink
begin

text \<open>
  The ring driver as a transition system: every entry point of the driver is a step, and the
  invariant of the peers and of the event queue holds in every state they can reach from
  \<open>ixgbe_wfs_raps_start\<close>.
\<close>

section \<open>Functions that leave peers and events alone\<close>

definition frame :: "drv \<Rightarrow> drv \<Rightarrow> bool" where
  "frame d d' \<longleftrightarrow> wfspeer (iw d') = wfspeer (iw d) \<and> evp (iw d') = evp (iw d) \<and>
     rc d' = rc d \<and> wfs_id (iw d') = wfs_id (iw d)"

named_theorems frame_rules \<open>functions that keep peers and events\<close>

lemma frame_refl [simp]: "frame d d"
  by (simp add: frame_def)

lemma frame_trans: "frame d d' \<Longrightarrow> frame d' d'' \<Longrightarrow> frame d d''"
  by (simp add: frame_def)

lemma frame_iw: "iw d' = iw d \<Longrightarrow> frame d d'"
  by (simp add: frame_def)

lemma kfree_frame [frame_rules]: "frame d (kfree_skb d)"
  by (simp add: frame_def kfree_skb_def)

lemma skb_copy_frame [frame_rules]: "skb_copy skb d = (r, d') \<Longrightarrow> frame d d'"
  by (auto simp: frame_def skb_copy_def Let_def split: if_splits)

lemma wfspkt_alloc_frame [frame_rules]: "wfspkt_alloc n d = (r, d') \<Longrightarrow> frame d d'"
  by (auto simp: frame_def wfspkt_alloc_def Let_def split: option.splits)

lemma on_fib_frame [frame_rules]: "on_fib f d = Inr d' \<Longrightarrow> frame d d'"
  by (auto simp: on_fib_def frame_def rbind_eq_Inr)

lemma xmit_to_ring_frame [frame_rules]: "xmit_to_ring skb a d = Inr (c, d') \<Longrightarrow> frame d d'"
  by (auto simp: frame_def xmit_to_ring_def Let_def split: if_splits)

lemma xmit_wfs_frame_frame [frame_rules]: "ixgbe_xmit_wfs_frame skb a d = Inr (c, d') \<Longrightarrow> frame d d'"
  using xmit_to_ring_frame[of skb a d c d'] xmit_to_ring_frame[of "pad_to_17 skb" a "d\<lparr>expand_ok := expand_ok d \<circ> Suc\<rparr>" c d']
  by (auto simp: ixgbe_xmit_wfs_frame_def Let_def frame_def kfree_skb_def split: if_splits)

lemma xmit_or_free_frame [frame_rules]: "xmit_or_free skb a d = Inr d' \<Longrightarrow> frame d d'"
  by (auto simp: xmit_or_free_def rbind_eq_Inr dest!: xmit_wfs_frame_frame
      intro: frame_trans kfree_frame split: if_splits)

lemma xmit_if_up_frame [frame_rules]: "xmit_if_up skb a d = Inr d' \<Longrightarrow> frame d d'"
  by (auto simp: xmit_if_up_def dest: xmit_or_free_frame intro: kfree_frame split: if_splits)

lemma wfspkt_init_frame [frame_rules]: "wfspkt_init ty vid mac d p = Inr (p', d') \<Longrightarrow> frame d d'"
  by (auto simp: wfspkt_init_def rbind_eq_Inr Let_def frame_def split: if_splits)

lemma get_pkt_frame [frame_rules]: "get_pkt n ty mac add d = Inr (r, d') \<Longrightarrow> frame d d'"
  by (auto simp: get_pkt_def rbind_eq_Inr split: prod.splits option.splits
      dest!: wfspkt_alloc_frame wfspkt_init_frame intro: frame_trans)

lemma getWfs_frame [frame_rules]:
  "getWfsAncePkt d = Inr (r, d') \<Longrightarrow> frame d d'" "getWfsRapsPkt d = Inr (r, d') \<Longrightarrow> frame d d'"
  "getWfsBertPkt w n d = Inr (r, d') \<Longrightarrow> frame d d'"
  by (auto simp: getWfsAncePkt_def getWfsRapsPkt_def getWfsBertPkt_def rbind_eq_Inr dest: get_pkt_frame)

lemma each_channel_frame:
  assumes "each_channel body a d = Some (Inr d')" "\<And>a d d'. body a d = Inr d' \<Longrightarrow> frame d d'"
  shows "frame d d'"
  using each_channel_rel[OF assms(1), of frame] assms(2) frame_trans by simp

lemma send_body_frame:
  assumes "\<And>d r d'. get d = Inr (r, d') \<Longrightarrow> frame d d'" "send_body get mark a d = Inr d'"
  shows "frame d d'"
  using assms(2)
  by (auto simp: send_body_def rbind_eq_Inr split: if_splits option.splits dest!: assms(1) xmit_or_free_frame
      intro: frame_trans)

lemma send_frames [frame_rules]:
  "ixgbe_wfs_send_announce d = Inr d' \<Longrightarrow> frame d d'"
  "ixgbe_wfs_send_raps e d = Inr d' \<Longrightarrow> frame d d'"
  unfolding ixgbe_wfs_send_announce_def ixgbe_wfs_send_raps_def
  by (auto simp: rbind_eq_Inr of_option_def split: if_splits option.splits
      dest!: each_channel_frame send_body_frame[rotated] dest: getWfs_frame)


lemma frame_trans4: "frame d a \<Longrightarrow> frame a b \<Longrightarrow> frame b c \<Longrightarrow> frame c e \<Longrightarrow> frame d e"
  by (simp add: frame_def)

text \<open>\<open>frames pr m d\<close>: when \<open>m\<close> succeeds, its resulting state \<open>pr\<close> keeps peers and events.\<close>

definition frames :: "('a \<Rightarrow> drv) \<Rightarrow> fault + 'a \<Rightarrow> drv \<Rightarrow> bool" where
  "frames pr m d = (\<forall>r. m = Inr r \<longrightarrow> frame d (pr r))"

lemma frames_simps [simp]: "frames pr (Inl e) d" "frames pr (Inr r) d = frame d (pr r)"
  by (simp_all add: frames_def)

lemma frames_rbind: "(\<And>x. m = Inr x \<Longrightarrow> frames pr (f x) d) \<Longrightarrow> frames pr (rbind m f) d"
  by (auto simp: frames_def rbind_eq_Inr)

lemma framesD: "frames pr m d \<Longrightarrow> m = Inr r \<Longrightarrow> frame d (pr r)"
  by (simp add: frames_def)

lemma frames_trans: "frame d d' \<Longrightarrow> frames pr m d' \<Longrightarrow> frames pr m d"
  by (auto simp: frames_def intro: frame_trans)

lemma upd_bert_frame [simp]:
  "frame d (upd_bert w f d') = frame d d'" "frame d (upd_bt g d') = frame d d'"
  "frame d (kfree_skb d') = frame d d'" "frame (upd_bert w f d) d' = frame d d'"
  "frame (upd_bt g d) d' = frame d d'" "frame (kfree_skb d) d' = frame d d'"
  by (simp_all add: frame_def upd_bert_def upd_bt_def kfree_skb_def)

lemma bert_skb_frame [frame_rules]: "ixgbe_wfs_get_bert_skb w data csum d = Inr (r, d') \<Longrightarrow> frame d d'"
  by (auto simp: ixgbe_wfs_get_bert_skb_def rbind_eq_Inr split: option.splits dest!: getWfs_frame(3))

lemma frame_upd_iw [simp]:
  "frame d (upd_iw (bert_seqno_update f) d') = frame d d'" "frame (upd_iw (bert_seqno_update f) d) d' = frame d d'"
  "frame d (upd_iw (\<lambda>i. data_seqno_update (g i) i) d') = frame d d'"
  "frame d (upd_iw (fib_update h) d') = frame d d'" "frame (upd_iw (fib_update h) d) d' = frame d d'"
  "frame d (upd_iw (raps_timer_pending_update k) d') = frame d d'"
  by (simp_all add: frame_def)

lemma frame_drv_upd [simp]:
  "frame d (d'\<lparr>jiffies := x\<rparr>) = frame d d'" "frame (d\<lparr>jiffies := x\<rparr>) d' = frame d d'"
  "frame d (d'\<lparr>kmalloc_ok := y\<rparr>) = frame d d'" "frame (d\<lparr>kmalloc_ok := y\<rparr>) d' = frame d d'"
  "frame d (d'\<lparr>kmem_live := z\<rparr>) = frame d d'" "frame (d\<lparr>kmem_live := z\<rparr>) d' = frame d d'"
  "frame d (d'\<lparr>random_byte := r\<rparr>) = frame d d'" "frame (d\<lparr>random_byte := r\<rparr>) d' = frame d d'"
  "frame d (d'\<lparr>expand_ok := e\<rparr>) = frame d d'" "frame (d\<lparr>expand_ok := e\<rparr>) d' = frame d d'"
  "frame d (d'\<lparr>nd := n\<rparr>) = frame d d'" "frame (d\<lparr>nd := n\<rparr>) d' = frame d d'"
  "frame d (d'\<lparr>ads := a\<rparr>) = frame d d'" "frame (d\<lparr>ads := a\<rparr>) d' = frame d d'"
  by (simp_all add: frame_def)

lemma frames_if: "(c \<Longrightarrow> frames pr a d) \<Longrightarrow> (\<not> c \<Longrightarrow> frames pr b d) \<Longrightarrow> frames pr (if c then a else b) d"
  by simp

lemma frames_option:
  "(x = None \<Longrightarrow> frames pr a d) \<Longrightarrow> (\<And>y. x = Some y \<Longrightarrow> frames pr (f y) d) \<Longrightarrow>
   frames pr (case x of None \<Rightarrow> a | Some y \<Rightarrow> f y) d"
  by (cases x) auto

lemma frames_prod: "(\<And>y z. x = (y, z) \<Longrightarrow> frames pr (f y z) d) \<Longrightarrow> frames pr (case x of (y, z) \<Rightarrow> f y z) d"
  by (cases x) auto

lemmas frames_intros = frames_rbind frames_if frames_option frames_prod

lemma send_bert_frames: "frames id (ixgbe_wfs_send_bert w d) d"
  unfolding ixgbe_wfs_send_bert_def Let_def
  by (intro frames_intros) (auto dest!: skb_copy_frame xmit_wfs_frame_frame intro: frame_trans)

lemma bert_send_loop_frames: "frames id (bert_send_loop n i clock d) d"
proof (induction n i clock d rule: bert_send_loop.induct)
  case (2 n i clock d)
  then show ?case
    using framesD[OF send_bert_frames, of _ "d\<lparr>jiffies := clock i\<rparr>"]
    by (auto intro!: frames_intros intro: frames_trans)
qed simp

lemma bert_request_main_frames: "frames id (bert_request_main clock d) d"
  unfolding bert_request_main_def Let_def
  by (intro frames_intros) (auto dest: framesD[OF bert_send_loop_frames])

lemma bert_start_frames: "frames snd (ixgbe_wfs_bert_start_request cfg d) d"
  unfolding ixgbe_wfs_bert_start_request_def Let_def
  by (intro frames_intros) (auto dest!: bert_skb_frame split: if_splits)

lemma bert_stop_frames: "frames id (ixgbe_wfs_bert_stop_request d) d"
  unfolding ixgbe_wfs_bert_stop_request_def Let_def
  by (intro frames_intros) auto

lemma encap_frames: "frames snd (ixgbe_wfs_encap skb d) d"
  unfolding ixgbe_wfs_encap_def Let_def
  by (intro frames_intros) (auto dest!: wfspkt_init_frame split: if_splits)

lemma xmit_frame_frames: "frames id (ixgbe_xmit_frame skb d) d"
  unfolding ixgbe_xmit_frame_def Let_def
  by (intro frames_intros)
    (auto dest!: framesD[OF encap_frames] xmit_if_up_frame skb_copy_frame
       simp: rbind_eq_Inr frames_def split: if_splits prod.splits intro: frame_trans frame_trans4)

lemma rx_forward_frames: "frames id (rx_forward other vid skb d) d"
  unfolding rx_forward_def Let_def
  by (intro frames_intros)
    (auto simp: frames_def dest!: xmit_or_free_frame skb_copy_frame intro: frame_trans)

lemma rx_learn_frames: "frames id (rx_learn vid src p d) d"
  unfolding rx_learn_def Let_def
  by (intro frames_intros) (auto simp: frames_def dest: on_fib_frame)

lemma ioctl_frames: "frames snd (ixgbe_wfs_ioctl cmd req d) d"
  unfolding ixgbe_wfs_ioctl_def Let_def
  by (intro frames_intros)
    (auto dest: framesD[OF bert_start_frames] framesD[OF bert_stop_frames])


section \<open>The invariant\<close>

text \<open>
  The peers have eight well-formed entries, the local id is valid, and the event buffers are
  divided into a free list and a queue of acceptable events.
\<close>

definition ring_inv :: "drv \<Rightarrow> bool" where
  "ring_inv d \<longleftrightarrow> peers_ok d \<and> \<not> bad_wfsid (myID d) \<and>
     (\<exists>fr q al. ev_inv d fr q al \<and> queue_ok d (map (ev_of (evp (iw d))) q))"

lemma frame_inv: "frame d d' \<Longrightarrow> ring_inv d \<Longrightarrow> ring_inv d'"
  by (simp add: ring_inv_def frame_def peers_ok_def ev_inv_def queue_ok_def event_ok_def)

lemma set_event_loop_id: "wfs_id (iw (set_event_loop is w e evd d)) = wfs_id (iw d)"
  by (induction "is" w e evd d rule: set_event_loop.induct) (auto split: option.splits prod.splits)

lemma of_nat_not_bad: "i \<in> set [WFSID_MIN..<Suc WFSID_MAX] \<Longrightarrow> \<not> bad_wfsid (of_nat i) \<and> unat (of_nat i :: u8) = i"
  by (simp add: bad_wfsid_iff unat_of_nat unat_eq_0[symmetric] del: unat_eq_0)

text \<open>Queueing an acceptable event keeps the invariant.\<close>

lemma set_event_inv:
  assumes "ring_inv d" "e = E_discover \<Longrightarrow> w = myID d \<or> recv_channel (ev_data evd) \<noteq> None"
  shows "ring_inv (ixgbe_wfs_fsm_set_event w e evd d)"
proof (cases "iwa_state (iw d) = opened")
  case True
  let ?is = "[WFSID_MIN..<Suc WFSID_MAX]"
  let ?d = "set_event_loop ?is w e evd d"
  from assms(1) obtain fr q al where inv: "ev_inv d fr q al" "queue_ok d (map (ev_of (evp (iw d))) q)"
    "peers_ok d" "\<not> bad_wfsid (myID d)" by (auto simp: ring_inv_def)
  from set_event_loop_spec[OF inv(1), of ?is w e evd] obtain fr' new al' where n:
    "ev_inv ?d fr' (q @ new) al'" "wfspeer (iw ?d) = wfspeer (iw d)"
    "map (ev_of (evp (iw ?d))) (q @ new) = map (ev_of (evp (iw d))) q @
       map (\<lambda>i. (of_nat i, e, ev_data evd)) (take (length new) (event_ids w e d ?is))" by blast
  have "event_ok ?d (of_nat i) e (ev_data evd)" if "i \<in> set (event_ids w e d ?is)" for i
  proof -
    from that have i: "i \<in> set ?is" "w = WFSID_ALL \<or> unat w = i" by (auto simp: event_ids_def)
    from i(2) have "w \<noteq> WFSID_ALL \<Longrightarrow> of_nat i = w" by auto
    moreover have "myID d \<noteq> WFSID_ALL" using inv(4) by (auto simp: bad_wfsid_iff)
    ultimately show ?thesis using of_nat_not_bad[OF i(1)] assms(2) inv(4)
      by (auto simp: event_ok_def set_event_loop_id bad_wfsid_iff)
  qed
  then have q: "queue_ok ?d (map (ev_of (evp (iw ?d))) (q @ new))"
    unfolding n(3) using inv(2) by (auto simp: queue_ok_def event_ok_def set_event_loop_id dest!: in_set_takeD)
  have "peers_ok ?d" "\<not> bad_wfsid (myID ?d)"
    using inv n(2) by (simp_all add: peers_ok_def set_event_loop_id)
  moreover have "ixgbe_wfs_fsm_set_event w e evd d = ?d"
    using True by (simp add: ixgbe_wfs_fsm_set_event_def)
  ultimately show ?thesis using n(1) q unfolding ring_inv_def by metis
qed (use assms(1) in \<open>simp add: ixgbe_wfs_fsm_set_event_def\<close>)

lemma upd_peer_inv:
  assumes "ring_inv d" "\<And>p. peer_ok p \<Longrightarrow> peer_ok (f p)"
  shows "ring_inv (upd_peer w f d)"
proof -
  have "peers_ok (upd_peer w f d)"
  proof (cases "unat w - 1 < length (wfspeer (iw d))")
    case True
    with assms show ?thesis
      by (auto simp: ring_inv_def peers_ok_def upd_peer_wfspeer peer_of_def dest!: set_update_subset_insert[THEN subsetD])
  next
    case False
    with assms show ?thesis by (auto simp: ring_inv_def peers_ok_def upd_peer_wfspeer list_update_beyond)
  qed
  with assms(1) show ?thesis by (auto simp: ring_inv_def ev_inv_def queue_ok_def event_ok_def)
qed


section \<open>The entry points keep the invariant\<close>

lemma update_peer_inv: "ring_inv d \<Longrightarrow> ring_inv (update_peer i d)"
  by (auto simp: update_peer_def Let_def peer_ok_def split: prod.splits
      intro!: set_event_inv upd_peer_inv)

lemma update_peers_inv: "ring_inv d \<Longrightarrow> ring_inv (fst (update_peers_loop is d n))"
  by (induction "is" d n rule: update_peers_loop.induct) (auto intro: update_peer_inv)

lemma ring_inv_upd_rc [simp]:
  "ring_inv (upd_rc (\<lambda>r. r\<lparr>flag := f r\<rparr>) d) = ring_inv d"
  "ring_inv (upd_rc (\<lambda>r. r\<lparr>t_announce := g r\<rparr>) d) = ring_inv d"
  "ring_inv (upd_rc (\<lambda>r. r\<lparr>t_rapsNR := h r\<rparr>) d) = ring_inv d"
  "ring_inv (upd_rc (\<lambda>r. r\<lparr>t_rapsSF := k r\<rparr>) d) = ring_inv d"
  "ring_inv (upd_rc (\<lambda>r. r\<lparr>c_rapsNR := c r, t_rapsNR := h r\<rparr>) d) = ring_inv d"
  by (simp_all add: ring_inv_def peers_ok_def ev_inv_def queue_ok_def event_ok_def)

lemma ring_inv_upd_iw [simp]:
  "ring_inv (upd_iw (\<lambda>i. i\<lparr>iwa_ip := a\<rparr>) d) = ring_inv d"
  "ring_inv (upd_iw (\<lambda>i. i\<lparr>iwa_link_up := u\<rparr>) d) = ring_inv d"
  "ring_inv (upd_iw (\<lambda>i. i\<lparr>iwa_state := s\<rparr>) d) = ring_inv d"
  "ring_inv (upd_iw (\<lambda>i. i\<lparr>raps_timer_pending := p\<rparr>) d) = ring_inv d"
  "ring_inv (upd_iw (\<lambda>i. i\<lparr>raps_timer_expires := x, raps_timer_pending := p\<rparr>) d) = ring_inv d"
  "ring_inv (upd_iw (\<lambda>i. i\<lparr>raps_timer_expires := y i, raps_timer_pending := p\<rparr>) d) = ring_inv d"
  "ring_inv (upd_iw (\<lambda>i. i\<lparr>fib := b\<rparr>) d) = ring_inv d"
  by (simp_all add: ring_inv_def peers_ok_def ev_inv_def queue_ok_def event_ok_def)

lemma ring_inv_drv [simp]:
  "ring_inv (d\<lparr>nd := n\<rparr>) = ring_inv d" "ring_inv (upd_ad a f d) = ring_inv d"
  by (simp_all add: ring_inv_def peers_ok_def ev_inv_def queue_ok_def event_ok_def upd_ad_def)

lemma handle_frame:
  "fsm_handle es d = Inr d' \<Longrightarrow> wfs_id (iw d') = wfs_id (iw d) \<and> ads d' = ads d \<and>
     iwa_state (iw d') = iwa_state (iw d) \<and> jiffies d' = jiffies d \<and> nd d' = nd d"
  by (induction es d rule: fsm_handle.induct) (auto simp: rbind_eq_Inr dest: action_frame split: if_splits)

lemma fsm_run_inv:
  assumes "wfs_fsm_run d = Inr d'" "ring_inv d"
  shows "ring_inv d'"
proof -
  from assms(2) obtain fr q al where i: "ev_inv d fr q al" "peers_ok d"
    "queue_ok d (map (ev_of (evp (iw d))) q)" "\<not> bad_wfsid (myID d)" by (auto simp: ring_inv_def)
  then have l: "ev_pool_ok (evp (iw d)) fr al" "list_at eb_next (ev_heap (evp (iw d))) (fsm_event_head (rc d)) q"
    "distinct q" "set q \<inter> set fr = {}" "set q \<subseteq> set al" by (auto simp: ev_inv_def fifo_at_def)
  note r = run_loop_refines[OF l i(2,3)]
  from assms(1) r obtain e where e: "fsm_handle (map (ev_of (evp (iw d))) q) d = Inr e"
    by (auto simp: wfs_fsm_run_def split: sum.splits)
  with r assms(1) have "myID d' = myID e" by (auto simp: wfs_fsm_run_def)
  moreover from fsm_run_refines[OF i(1-3)] e assms(1) have "peers_ok d'" "ev_inv d' (fr @ q) [] al" by auto
  moreover have "queue_ok d' (map (ev_of (evp (iw d'))) [])" by (simp add: queue_ok_def)
  ultimately show ?thesis using i(4) handle_frame[OF e] unfolding ring_inv_def by metis
qed

text \<open>\<open>keeps pr m d\<close>: a call that succeeds keeps the invariant.\<close>

definition keeps :: "('a \<Rightarrow> drv) \<Rightarrow> fault + 'a \<Rightarrow> bool" where
  "keeps pr m = (\<forall>r. m = Inr r \<longrightarrow> ring_inv (pr r))"

lemma keeps_simps [simp]: "keeps pr (Inl e)" "keeps pr (Inr r) = ring_inv (pr r)"
  by (simp_all add: keeps_def)

lemma keepsD: "keeps pr m \<Longrightarrow> m = Inr r \<Longrightarrow> ring_inv (pr r)"
  by (simp add: keeps_def)

lemma keeps_frames: "frames pr m d \<Longrightarrow> ring_inv d \<Longrightarrow> keeps pr m"
  by (auto simp: keeps_def frames_def intro: frame_inv)

lemma keeps_rbind: "keeps pr' m \<Longrightarrow> (\<And>x. m = Inr x \<Longrightarrow> ring_inv (pr' x) \<Longrightarrow> keeps pr (f x)) \<Longrightarrow> keeps pr (rbind m f)"
  by (auto simp: keeps_def rbind_eq_Inr)

lemma keeps_read: "(\<And>x. m = Inr x \<Longrightarrow> keeps pr (f x)) \<Longrightarrow> keeps pr (rbind m f)"
  by (auto simp: keeps_def rbind_eq_Inr)

lemma keeps_if: "(c \<Longrightarrow> keeps pr a) \<Longrightarrow> (\<not> c \<Longrightarrow> keeps pr b) \<Longrightarrow> keeps pr (if c then a else b)"
  by simp

lemma raps_keeps:
  assumes "ring_inv d"
  shows "keeps id (raps_fsm_event d)" "keeps id (raps_announce d)" "keeps id (raps_nr d)" "keeps id (raps_sf d)"
    "ring_inv (raps_peer_ttl d)" "keeps id (set_my_ip d)" "keeps id (raps_add_timer d)"
  using assms
  by (auto simp: raps_fsm_event_def raps_announce_def raps_nr_def raps_sf_def raps_peer_ttl_def
      wfs_update_peers_def Let_def keeps_def rbind_eq_Inr set_my_ip_def raps_add_timer_def peer_ok_def
      split: if_splits prod.splits dest!: send_frames frame_inv
      intro: fsm_run_inv update_peers_inv intro!: upd_peer_inv
      dest: update_peers_inv[of _ "[WFSID_MIN..<Suc WFSID_MAX]" 0])

lemma raps_main_keeps: "ring_inv d \<Longrightarrow> keeps id (raps_main d)"
  unfolding raps_main_def
proof (intro keeps_rbind[where pr' = id])
  fix d1 d2 d3 d4 d5
  assume "ring_inv d"
  then show "keeps id (raps_fsm_event d)" by (rule raps_keeps)
  { assume "ring_inv (id d1)" then show "keeps id (raps_announce d1)" by (simp add: raps_keeps) }
  { assume "ring_inv (id d2)" then show "keeps id (raps_nr d2)" by (simp add: raps_keeps) }
  { assume "ring_inv (id d3)" then show "keeps id (raps_sf d3)" by (simp add: raps_keeps) }
  { assume "ring_inv (id d4)" then show "keeps id (set_my_ip (raps_peer_ttl d4))" by (simp add: raps_keeps) }
  { assume "ring_inv (id d5)" then show "keeps id (raps_add_timer d5)" by (simp add: raps_keeps) }
qed

lemma process_announce_keeps: "ring_inv d \<Longrightarrow> keeps snd (wfs_process_announce a p opt d)"
  unfolding wfs_process_announce_def Let_def
  by (intro keeps_read) (auto simp: peer_ok_def ev_data_def intro!: set_event_inv upd_peer_inv)

lemma process_raps_keeps: "ring_inv d \<Longrightarrow> keeps snd (wfs_process_raps a p opt d)"
  unfolding wfs_process_raps_def Let_def
  by (auto simp: keeps_def rbind_eq_Inr intro!: set_event_inv split: if_splits option.splits)

lemma process_bert_frames: "frames snd (wfs_process_bert a skb opt d) d"
  unfolding wfs_process_bert_def bert_response_def bert_reset_def bert_request_def Let_def
  by (intro frames_intros) auto

lemma recv_control_keeps: "ring_inv d \<Longrightarrow> keeps snd (ixgbe_wfs_recv_control a skb d)"
  unfolding ixgbe_wfs_recv_control_def Let_def
  using process_announce_keeps process_raps_keeps keeps_frames[OF process_bert_frames]
  by (intro keeps_read keeps_rbind[where pr' = snd]) (auto intro!: keeps_read split: option.splits)

lemma rx_control_keeps: "ring_inv d \<Longrightarrow> keeps id (rx_control a other skb d)"
  unfolding rx_control_def
  by (rule keeps_rbind[OF recv_control_keeps])
    (auto simp: keeps_def rbind_eq_Inr dest!: xmit_or_free_frame frame_inv split: if_splits
       intro: frame_inv[OF kfree_frame])

lemma kfree_inv [simp]: "ring_inv (kfree_skb d) = ring_inv d"
  by (metis frame_inv frame_refl upd_bert_frame(3,6))

lemma rx_inv:
  assumes "ring_inv d"
  shows "rx_forward other vid skb d = Inr d' \<Longrightarrow> ring_inv d'"
    "rx_learn vid src p d = Inr d' \<Longrightarrow> ring_inv d'"
    "rx_control a other skb d = Inr d' \<Longrightarrow> ring_inv d'"
  by ((drule keepsD[OF keeps_frames[OF rx_forward_frames assms]] keepsD[OF keeps_frames[OF rx_learn_frames assms]]
      keepsD[OF rx_control_keeps[OF assms]]), simp)+

lemma rx_forward_inv:
  "(if c then rx_forward other vid skb d else Inr d) = Inr d' \<Longrightarrow> ring_inv d \<Longrightarrow> ring_inv d'"
  by (cases c) (auto dest: rx_inv(1)[rotated])

lemma process_skb_keeps:
  assumes "ring_inv d"
  shows "keeps snd (ixgbe_process_skb_fields a vid skb d)"
  unfolding ixgbe_process_skb_fields_def Let_def
  apply (rule keeps_read)
  subgoal for r
    apply (cases r)
     apply (simp add: assms)
    apply (simp only: option.case)
    apply (intro keeps_read keeps_if)
       apply (simp_all only: keeps_simps snd_conv kfree_inv)
       apply (simp add: assms)
      apply (erule rx_forward_inv, rule assms)
     apply (erule rx_inv(3)[rotated], erule rx_forward_inv, rule assms)
    apply (erule rx_inv(2)[rotated], erule rx_forward_inv, rule assms)
    done
  done

lemma xmit_keeps: "ring_inv d \<Longrightarrow> keeps id (ixgbe_xmit_frame skb d)"
  by (rule keeps_frames[OF xmit_frame_frames])

lemma link_keeps:
  assumes "ring_inv d"
  shows "keeps id (ixgbe_watchdog_link_is_up a d)" "keeps id (ixgbe_watchdog_link_is_down a d)"
  using assms unfolding ixgbe_watchdog_link_is_up_def ixgbe_watchdog_link_is_down_def Let_def
  by (auto intro!: keeps_read set_event_inv)

lemma watchdog_keeps: "ring_inv d \<Longrightarrow> keeps id (ixgbe_watchdog_subtask down a hw t d)"
  by (simp add: ixgbe_watchdog_subtask_def ixgbe_watchdog_update_link_def link_keeps)

lemma fib_timer_keeps: "ring_inv d \<Longrightarrow> keeps id (on_fib (fib_timer_action (jiffies d)) d)"
  by (auto simp: keeps_def dest: on_fib_frame frame_inv)

lemma close_keeps: "ring_inv d \<Longrightarrow> keeps id (ixgbe_close d)"
  unfolding ixgbe_close_def ixgbe_wfs_raps_stop_def
  by (auto intro!: keeps_rbind[where pr' = id] keeps_frames[OF bert_stop_frames])


lemma open_loop_nd:
  assumes "open_loop su a d = Some (r, d')"
  shows "\<exists>n. d' = d\<lparr>nd := n\<rparr>"
proof -
  have "\<forall>r' d'. x = (r', d') \<longrightarrow> (\<exists>n. d' = d\<lparr>nd := n\<rparr>)" if "open_loop su a d = Some x" for x
    using that
  proof (induction su a d x rule: open_loop.raw_induct)
    case (1 f su a d x)
    show ?case
    proof (cases a)
      case None
      with 1(2) show ?thesis by (auto intro: exI[of _ "nd d"])
    next
      case (Some n)
      let ?d = "d\<lparr>nd := (nd d)\<lparr>carrier := False\<rparr>\<rparr>"
      show ?thesis
      proof (cases "su n = 0")
        case True
        with 1(2) Some have "f su (wfs_next (ads ?d n)) ?d = Some x" by (simp add: Let_def)
        moreover from 1(3) Some True have "open_loop su (wfs_next (ads ?d n)) ?d = Some x"
          by (subst (asm) open_loop.simps) (simp add: Let_def)
        ultimately show ?thesis using 1(1) by fastforce
      next
        case False
        with 1(2) Some show ?thesis by (auto simp: Let_def)
      qed
    qed
  qed (rule that)
  with assms show ?thesis by blast
qed

text \<open>
  Opening starts the protection engine on zeroed peers and an empty queue. The buffers that were
  queued stay in the list of allocated buffers and in no other.
\<close>

lemma zeroed_inv:
  assumes "ring_inv d"
  shows "ring_inv (upd_iw (\<lambda>i. i\<lparr>raps_ctrl := zero_raps_ctrl, wfspeer := replicate WFSID_MAX zero_peer\<rparr>) d)"
proof -
  from assms obtain fr q al where "ev_inv d fr q al" "\<not> bad_wfsid (myID d)" by (auto simp: ring_inv_def)
  then show ?thesis unfolding ring_inv_def
    by (intro conjI exI[of _ fr] exI[of _ "[]"] exI[of _ al])
      (simp_all add: peers_ok_def peer_ok_def zero_peer_def ev_inv_def zero_raps_ctrl_def queue_ok_def)
qed

lemma raps_start_keeps: "ring_inv d \<Longrightarrow> keeps id (ixgbe_wfs_raps_start d)"
  unfolding ixgbe_wfs_raps_start_def Let_def
proof (drule zeroed_inv, rule keeps_read, rule keeps_rbind[where pr' = id], goal_cases)
  case 1
  then show ?case by (intro raps_keeps upd_peer_inv) (auto simp: peer_ok_def)
next
  case (2 x d2)
  then show ?case
    by (intro keeps_read raps_keeps) (auto intro!: set_event_inv upd_peer_inv simp: peer_ok_def)
qed

lemma raps_start_inv: "ixgbe_wfs_raps_start d = Inr d' \<Longrightarrow> ring_inv d \<Longrightarrow> ring_inv d'"
  using keepsD[OF raps_start_keeps, of d d'] by simp

lemma open_keeps:
  assumes "ring_inv d"
  shows "keeps snd (ixgbe_open su d)"
proof -
  have "ring_inv d1" if "of_option (open_loop su (primary (iw d)) d) = Inr (r, d1)" for r d1
    using that open_loop_nd[of su "primary (iw d)" d r d1] assms by (auto simp: of_option_def split: option.splits)
  then show ?thesis unfolding ixgbe_open_def using assms
    by (auto simp: keeps_def rbind_eq_Inr dest!: raps_start_inv)
qed

lemma fsm_init_pool:
  assumes "ev_pool_ok s [] []" "ixgbe_wfs_fsm_init s = Inr (r, s')"
  shows "\<exists>fr al. ev_pool_ok s' fr al"
proof -
  obtain b s1 where g: "pool_get_n wfs_fsm_alloc_event EVBUF_MIN_NUM s = (b, s1)"
    by (cases "pool_get_n wfs_fsm_alloc_event EVBUF_MIN_NUM s")
  show ?thesis
  proof (cases b)
    case True
    with g evpool.fill_pool[OF assms(1), of EVBUF_MIN_NUM s1] assms(2) obtain al where "ev_pool_ok s' al al"
      by (auto simp: ixgbe_wfs_fsm_init_def)
    then show ?thesis by blast
  next
    case False
    with g evpool.get_n_pool[OF assms(1) g] assms(2) obtain al where "ev_pool_ok s' [] al"
      by (auto simp: ixgbe_wfs_fsm_init_def)
    then show ?thesis by blast
  qed
qed

lemma init_inv:
  assumes "ixgbe_wfs_init d = Inr (r, d')" "r = 0" "iw d = (zero_iwa i)\<lparr>wfs_id := w\<rparr>"
    and "\<not> bad_wfsid w" "fresh_supply (ev_kmalloc (evp i)) []"
  shows "ring_inv d'"
proof -
  have "ev_pool_ok (evp (iw d)) [] []"
    using assms(3,5) by (simp add: zero_iwa_def zero_evp_def ev_pool_ok_def)
  moreover from assms(1,2) obtain s' f where s: "ixgbe_wfs_fsm_init (evp (iw d)) = Inr (0, s')"
    "evp (iw d') = s'" "raps_ctrl (iw d') = raps_ctrl (iw d)" "wfspeer (iw d') = wfspeer (iw d)"
    "myID d' = myID d"
    by (auto simp: ixgbe_wfs_init_def Let_def rbind_eq_Inr split: if_splits)
  ultimately obtain fr al where "ev_pool_ok s' fr al" using fsm_init_pool by blast
  with s assms(3,4) show ?thesis unfolding ring_inv_def
    by (intro conjI exI[of _ fr] exI[of _ "[]"] exI[of _ al])
      (simp_all add: peers_ok_def peer_ok_def zero_peer_def ev_inv_def zero_raps_ctrl_def queue_ok_def zero_iwa_def)
qed

section \<open>The transition system\<close>

text \<open>
  One step of the driver: an entry point called by the kernel that returns. The kernel may also
  change everything outside the ring adapter.
\<close>

inductive ring_step :: "drv \<Rightarrow> drv \<Rightarrow> bool" where
  raps_timer: "raps_timer_pending (iw d) \<Longrightarrow>
     raps_main (upd_iw (\<lambda>i. i\<lparr>raps_timer_pending := False\<rparr>) d) = Inr d' \<Longrightarrow> ring_step d d'"
| fib_timer: "fib_timer_pending (fib (iw d)) \<Longrightarrow>
     on_fib (\<lambda>s. fib_timer_action (jiffies d) (s\<lparr>fib_timer_pending := False\<rparr>)) d = Inr d' \<Longrightarrow> ring_step d d'"
| bert_work: "bt_work (bert_ctrl (iw d)) = Some x \<Longrightarrow>
     bert_request_main clock (upd_bt (\<lambda>c. c\<lparr>bt_work := None\<rparr>) d) = Inr d' \<Longrightarrow> ring_step d d'"
| receive: "ixgbe_process_skb_fields a vid skb d = Inr (r, d') \<Longrightarrow> ring_step d d'"
| transmit: "ixgbe_xmit_frame skb d = Inr d' \<Longrightarrow> ring_step d d'"
| watchdog: "ixgbe_watchdog_subtask down a hw_up timed_out d = Inr d' \<Longrightarrow> ring_step d d'"
| ioctl: "ixgbe_wfs_ioctl cmd req d = Inr (res, d') \<Longrightarrow> ring_step d d'"
| open_dev: "ixgbe_open su d = Inr (r, d') \<Longrightarrow> ring_step d d'"
| close_dev: "ixgbe_close d = Inr d' \<Longrightarrow> ring_step d d'"
| kernel: "iw d' = iw d \<Longrightarrow> ring_step d d'"

inductive_cases ring_stepE: "ring_step d d'"

lemma ring_step_inv: "ring_step d d' \<Longrightarrow> ring_inv d \<Longrightarrow> ring_inv d'"
proof (induction rule: ring_step.induct)
  case (raps_timer d d')
  then show ?case using keepsD[OF raps_main_keeps raps_timer(2)] by simp
next
  case (fib_timer d d')
  then show ?case by (auto dest: on_fib_frame frame_inv)
next
  case (bert_work d x clock d')
  then show ?case using framesD[OF bert_request_main_frames bert_work(2)] by (auto dest: frame_inv)
next
  case (receive a vid skb d r d')
  then show ?case using keepsD[OF process_skb_keeps receive(1)] by simp
next
  case (transmit skb d d')
  then show ?case using keepsD[OF xmit_keeps transmit(1)] by simp
next
  case (watchdog down a hw_up timed_out d d')
  then show ?case using keepsD[OF watchdog_keeps watchdog(1)] by simp
next
  case (ioctl cmd req d res d')
  then show ?case using framesD[OF ioctl_frames ioctl(1)] by (auto dest: frame_inv)
next
  case (open_dev su d r d')
  then show ?case using keepsD[OF open_keeps open_dev(1)] by simp
next
  case (close_dev d d')
  then show ?case using keepsD[OF close_keeps close_dev(1)] by simp
next
  case (kernel d' d)
  then show ?case by (rule frame_inv[OF frame_iw])
qed

lemma ring_reach_inv: "ring_step\<^sup>*\<^sup>* d d' \<Longrightarrow> ring_inv d \<Longrightarrow> ring_inv d'"
  by (induction rule: rtranclp_induct) (auto intro: ring_step_inv)


section \<open>Properties\<close>

lemma egress_None:
  assumes "peers_ok d" "\<not> bad_wfsid w"
  shows "\<exists>a. egress w d = Inr a \<and> (a = None \<longleftrightarrow> fsm_state (peer_of d w) = S_init)"
proof -
  from assms have l: "length (wfspeer (iw d)) = 8" "w \<noteq> 0" "unat w \<le> 8" by (auto simp: peers_ok_def bad_wfsid_iff)
  then have "unat w - 1 < 8" by (simp add: unat_gt_0 Suc_leI)
  with l have "peer_of d w \<in> set (wfspeer (iw d))" by (simp add: peer_of_def)
  with assms(1) have "peer_ok (peer_of d w)" by (simp add: peers_ok_def)
  with l show ?thesis
    by (cases "fsm_state (peer_of d w)") (auto simp: egress_def wfs_idx_def peer_of_def peer_ok_def)
qed


lemma demo_ring_inv: "ring_inv demo"
  using demo_ev_inv demo_peers_ok demo_queue_ok unfolding ring_inv_def
  by (intro conjI exI[of _ "[6, 7]"] exI[of _ "[5]"] exI[of _ "[7, 6, 5]"])
    (simp_all add: demo_defs bad_wfsid_iff)


end
