(* ===== verification/WfsBuffers.thy ===== *)
theory WfsBuffers
  imports WfsRing
begin

text \<open>
  Ownership of socket buffers. \<open>skb_live\<close> counts the buffers the driver holds: allocation and copy
  add one, freeing and handing over to a ring take one. Every function is shown to change the
  count by a fixed amount on every path, so no path leaks a buffer or frees one twice.
\<close>

named_theorems live_rules \<open>how a function changes the number of buffers held\<close>

text \<open>\<open>lives pr n m d\<close>: when \<open>m\<close> succeeds with \<open>r\<close>, the state \<open>pr r\<close> holds \<open>n r\<close> more buffers than \<open>d\<close>.\<close>

definition lives :: "('a \<Rightarrow> drv) \<Rightarrow> ('a \<Rightarrow> int) \<Rightarrow> fault + 'a \<Rightarrow> drv \<Rightarrow> bool" where
  "lives pr n m d = (\<forall>r. m = Inr r \<longrightarrow> skb_live (pr r) = skb_live d + n r)"

lemma lives_simps [simp]: "lives pr n (Inl e) d" "lives pr n (Inr r) d = (skb_live (pr r) = skb_live d + n r)"
  by (simp_all add: lives_def)

lemma livesD: "lives pr n m d \<Longrightarrow> m = Inr r \<Longrightarrow> skb_live (pr r) = skb_live d + n r"
  by (simp add: lives_def)

lemma lives_rbind: "(\<And>x. m = Inr x \<Longrightarrow> lives pr n (f x) d) \<Longrightarrow> lives pr n (rbind m f) d"
  by (auto simp: lives_def rbind_eq_Inr)

lemma lives_if: "(c \<Longrightarrow> lives pr n a d) \<Longrightarrow> (\<not> c \<Longrightarrow> lives pr n b d) \<Longrightarrow> lives pr n (if c then a else b) d"
  by simp

lemma lives_option:
  "(x = None \<Longrightarrow> lives pr n a d) \<Longrightarrow> (\<And>y. x = Some y \<Longrightarrow> lives pr n (f y) d) \<Longrightarrow>
   lives pr n (case x of None \<Rightarrow> a | Some y \<Rightarrow> f y) d"
  by (cases x) auto

lemma lives_prod: "(\<And>y z. x = (y, z) \<Longrightarrow> lives pr n (f y z) d) \<Longrightarrow> lives pr n (case x of (y, z) \<Rightarrow> f y z) d"
  by (cases x) auto

lemmas lives_intros = lives_rbind lives_if lives_option lives_prod

lemma live_upd [simp]:
  "skb_live (upd_rc f d) = skb_live d" "skb_live (upd_peer w g d) = skb_live d"
  "skb_live (upd_evp h d) = skb_live d" "skb_live (upd_bert w k d) = skb_live d"
  "skb_live (upd_bt m d) = skb_live d" "skb_live (kfree_skb d) = skb_live d - 1"
  by (simp_all add: upd_rc_def upd_peer_def upd_evp_def upd_bert_def upd_bt_def kfree_skb_def)

lemma skb_copy_live [live_rules]: "skb_copy skb d = (r, d') \<Longrightarrow> skb_live d' = skb_live d + (if r = None then 0 else 1)"
  by (auto simp: skb_copy_def Let_def split: if_splits)

lemma wfspkt_alloc_live [live_rules]: "wfspkt_alloc n d = (r, d') \<Longrightarrow> skb_live d' = skb_live d + (if r = None then 0 else 1)"
  by (auto simp: wfspkt_alloc_def Let_def split: option.splits)

lemma xmit_to_ring_live [live_rules]: "xmit_to_ring skb a d = Inr (c, d') \<Longrightarrow> skb_live d' = skb_live d - (if c = 0 then 1 else 0)"
  by (auto simp: xmit_to_ring_def Let_def split: if_splits)

lemma xmit_wfs_frame_live [live_rules]:
  "ixgbe_xmit_wfs_frame skb a d = Inr (c, d') \<Longrightarrow> skb_live d' = skb_live d - (if c = 0 then 1 else 0)"
  by (auto simp: ixgbe_xmit_wfs_frame_def Let_def split: if_splits dest!: xmit_to_ring_live)

lemma xmit_or_free_live [live_rules]: "xmit_or_free skb a d = Inr d' \<Longrightarrow> skb_live d' = skb_live d - 1"
  by (auto simp: xmit_or_free_def rbind_eq_Inr split: if_splits dest!: xmit_wfs_frame_live)

lemma xmit_if_up_live [live_rules]: "xmit_if_up skb a d = Inr d' \<Longrightarrow> skb_live d' = skb_live d - 1"
  by (auto simp: xmit_if_up_def split: if_splits dest!: xmit_or_free_live)

lemma wfspkt_init_live [live_rules]: "wfspkt_init ty vid mac d p = Inr (p', d') \<Longrightarrow> skb_live d' = skb_live d"
  by (auto simp: wfspkt_init_def rbind_eq_Inr Let_def split: if_splits)

lemma get_pkt_live [live_rules]:
  "get_pkt n ty mac add d = Inr (r, d') \<Longrightarrow> skb_live d' = skb_live d + (if r = None then 0 else 1)"
  by (auto simp: get_pkt_def rbind_eq_Inr split: prod.splits option.splits
      dest!: wfspkt_alloc_live wfspkt_init_live)

lemma getWfs_live [live_rules]:
  "getWfsAncePkt d = Inr (r, d') \<Longrightarrow> skb_live d' = skb_live d + (if r = None then 0 else 1)"
  "getWfsRapsPkt d = Inr (r, d') \<Longrightarrow> skb_live d' = skb_live d + (if r = None then 0 else 1)"
  "getWfsBertPkt w n d = Inr (r, d') \<Longrightarrow> skb_live d' = skb_live d + (if r = None then 0 else 1)"
  by (auto simp: getWfsAncePkt_def getWfsRapsPkt_def getWfsBertPkt_def rbind_eq_Inr dest!: get_pkt_live)

lemma send_body_live:
  assumes "\<And>d r d'. get d = Inr (r, d') \<Longrightarrow> skb_live d' = skb_live d + (if r = None then 0 else 1)"
    and "send_body get mark a d = Inr d'"
  shows "skb_live d' = skb_live d"
  using assms(2)
  by (auto simp: send_body_def rbind_eq_Inr split: if_splits option.splits dest!: assms(1) xmit_or_free_live)

lemma each_channel_live:
  assumes "each_channel body a d = Some (Inr d')" "\<And>a d d'. body a d = Inr d' \<Longrightarrow> skb_live d' = skb_live d"
  shows "skb_live d' = skb_live d"
  using each_channel_rel[OF assms(1), of "\<lambda>d d'. skb_live d' = skb_live d"] assms(2) by simp

lemma send_live [live_rules]:
  "ixgbe_wfs_send_announce d = Inr d' \<Longrightarrow> skb_live d' = skb_live d"
  "ixgbe_wfs_send_raps e d = Inr d' \<Longrightarrow> skb_live d' = skb_live d"
  unfolding ixgbe_wfs_send_announce_def ixgbe_wfs_send_raps_def
  by (auto simp: rbind_eq_Inr of_option_def split: if_splits option.splits
      dest!: each_channel_live send_body_live[rotated] dest: getWfs_live)

lemma encap_lives: "lives snd (\<lambda>_. 0) (ixgbe_wfs_encap skb d) d"
  unfolding ixgbe_wfs_encap_def Let_def
  by (intro lives_intros) (auto dest!: wfspkt_init_live split: if_splits)

lemma wfspkt_init_primary: "wfspkt_init ty vid mac d p = Inr (p', d') \<Longrightarrow> primary (iw d') = primary (iw d)"
  by (auto simp: wfspkt_init_def rbind_eq_Inr Let_def split: if_splits)

lemma encap_primary: "results (\<lambda>(r, d'). primary (iw d') = primary (iw d)) (ixgbe_wfs_encap skb d)"
  unfolding ixgbe_wfs_encap_def Let_def
  by (intro results_intros) (auto dest!: wfspkt_init_primary split: if_splits)

lemma on_fib_live [live_rules]: "on_fib f d = Inr d' \<Longrightarrow> skb_live d' = skb_live d"
  by (auto simp: on_fib_def rbind_eq_Inr)

lemma fsm_live [live_rules]:
  "fsm_action e w ev d = Inr d' \<Longrightarrow> skb_live d' = skb_live d"
  by (cases e)
    (auto simp: wfs_fsm_action_discover_def wfs_fsm_action_expire_def wfs_fsm_action_localSF_def
      wfs_fsm_action_clear_localSF_def wfs_fsm_action_rapsSF_def wfs_fsm_action_rapsNR_def flush_if_init_def
      Let_def dest!: on_fib_live split: if_splits)

lemma set_event_loop_live: "skb_live (set_event_loop is w e evd d) = skb_live d"
  by (induction "is" w e evd d rule: set_event_loop.induct)
    (auto split: option.splits prod.splits simp: fsm_enqueue_def upd_ev_def Let_def)

lemma set_event_live [simp]: "skb_live (ixgbe_wfs_fsm_set_event w e evd d) = skb_live d"
  by (simp add: ixgbe_wfs_fsm_set_event_def set_event_loop_live)

lemma xmit_frame_lives: "primary (iw d) \<noteq> None \<Longrightarrow> lives id (\<lambda>_. - 1) (ixgbe_xmit_frame skb d) d"
  unfolding ixgbe_xmit_frame_def Let_def
  by (intro lives_intros)
    (auto simp: rbind_eq_Inr lives_def split: if_splits prod.splits
      dest!: xmit_if_up_live skb_copy_live dest: livesD[OF encap_lives] resultsD[OF encap_primary])

lemma rx_forward_lives: "lives id (\<lambda>_. 0) (rx_forward other vid skb d) d"
  unfolding rx_forward_def Let_def
  by (intro lives_intros) (auto simp: lives_def dest!: xmit_or_free_live skb_copy_live)

lemma rx_learn_lives: "lives id (\<lambda>_. 0) (rx_learn vid src p d) d"
  unfolding rx_learn_def Let_def
  by (intro lives_intros) (auto simp: lives_def dest!: on_fib_live)

lemma recv_control_lives: "lives snd (\<lambda>_. 0) (ixgbe_wfs_recv_control a skb d) d"
proof -
  have a: "lives snd (\<lambda>_. 0) (wfs_process_announce a p opt d) d" for p opt
    unfolding wfs_process_announce_def Let_def by (intro lives_intros) auto
  have r: "lives snd (\<lambda>_. 0) (wfs_process_raps a p opt d) d" for p opt
    unfolding wfs_process_raps_def Let_def
    by (intro lives_intros) (auto simp: lives_def rbind_eq_Inr split: if_splits)
  have b: "lives snd (\<lambda>_. 0) (wfs_process_bert a skb opt d) d" for opt
    unfolding wfs_process_bert_def bert_response_def bert_reset_def bert_request_def Let_def
    by (intro lives_intros) auto
  show ?thesis
    unfolding ixgbe_wfs_recv_control_def Let_def
    using a r b by (auto simp: lives_def rbind_eq_Inr split: option.splits; blast)
qed

lemma rx_control_lives: "lives id (\<lambda>_. - 1) (rx_control a other skb d) d"
  unfolding rx_control_def
  by (intro lives_intros) (auto simp: lives_def dest!: xmit_or_free_live livesD[OF recv_control_lives])

lemma process_skb_lives:
  "lives snd (\<lambda>(r, d). if r = None then - 1 else 0) (ixgbe_process_skb_fields a vid skb d) d"
  unfolding ixgbe_process_skb_fields_def Let_def
  by (intro lives_intros)
    (auto dest!: livesD[OF rx_forward_lives] livesD[OF rx_control_lives] livesD[OF rx_learn_lives] split: if_splits)

lemma raps_lives:
  "raps_announce d = Inr d' \<Longrightarrow> skb_live d' = skb_live d"
  "raps_nr d = Inr d' \<Longrightarrow> skb_live d' = skb_live d"
  "raps_sf d = Inr d' \<Longrightarrow> skb_live d' = skb_live d"
  "set_my_ip d = Inr d' \<Longrightarrow> skb_live d' = skb_live d"
  "raps_add_timer d = Inr d' \<Longrightarrow> skb_live d' = skb_live d"
  by (auto simp: raps_announce_def raps_nr_def raps_sf_def set_my_ip_def raps_add_timer_def Let_def rbind_eq_Inr
      split: if_splits dest!: send_live)

lemma on_evp_live: "on_evp f d = Inr d' \<Longrightarrow> skb_live d' = skb_live d"
  by (auto simp: on_evp_def rbind_eq_Inr)

lemma fsm_run_step_live: "fsm_run_step n d = Inr d' \<Longrightarrow> skb_live d' = skb_live d"
  by (auto simp: fsm_run_step_def Let_def rbind_eq_Inr split: if_splits dest!: fsm_live on_evp_live)

lemma fsm_run_loop_live: "fsm_run_loop p d = Some (Inr d') \<Longrightarrow> skb_live d' = skb_live d"
proof -
  have "\<forall>d'. r = Inr d' \<longrightarrow> skb_live d' = skb_live d" if "fsm_run_loop p d = Some r" for r
    using that
  proof (induction p d r rule: fsm_run_loop.raw_induct)
    case (1 f p d r)
    let ?next = "\<lambda>n. eb_next (ev_heap (evp (iw d)) n)"
    show ?case
    proof (cases p)
      case None
      with 1(2) show ?thesis by auto
    next
      case (Some n)
      show ?thesis
      proof (cases "fsm_run_step n d")
        case (Inl e)
        with 1(2) Some show ?thesis by auto
      next
        case (Inr d1)
        with 1(2) Some have "f (?next n) d1 = Some r" by simp
        moreover from 1(3) Some Inr have "fsm_run_loop (?next n) d1 = Some r"
          by (subst (asm) fsm_run_loop.simps) simp
        ultimately show ?thesis using 1(1) fsm_run_step_live[OF Inr] by metis
      qed
    qed
  qed (rule that)
  then show "fsm_run_loop p d = Some (Inr d') \<Longrightarrow> skb_live d' = skb_live d" by simp
qed

lemma fsm_run_live: "wfs_fsm_run d = Inr d' \<Longrightarrow> skb_live d' = skb_live d"
  by (auto simp: wfs_fsm_run_def rbind_eq_Inr of_option_def split: option.splits dest!: fsm_run_loop_live)

lemma raps_main_live: "raps_main d = Inr d' \<Longrightarrow> skb_live d' = skb_live d"
proof -
  have t: "skb_live (raps_peer_ttl d) = skb_live d" for d
  proof -
    have "skb_live (fst (update_peers_loop is e n)) = skb_live e" for "is" e n
      by (induction "is" e n rule: update_peers_loop.induct) (auto simp: update_peer_def Let_def split: prod.splits)
    from this[of "[WFSID_MIN..<Suc WFSID_MAX]" d 0] show ?thesis
      by (auto simp: raps_peer_ttl_def wfs_update_peers_def split: prod.splits)
  qed
  have e: "raps_fsm_event d = Inr d' \<Longrightarrow> skb_live d' = skb_live d" for d d'
    by (auto simp: raps_fsm_event_def split: if_splits dest: fsm_run_live)
  show "raps_main d = Inr d' \<Longrightarrow> skb_live d' = skb_live d"
    by (auto simp: raps_main_def rbind_eq_Inr dest!: e raps_lives) (simp add: t)
qed

section \<open>Properties\<close>

text \<open>
  C8. The transmit entry takes its buffer on every path that returns: the buffer, and the copy
  a broadcast makes for the other channel, are handed to a ring or freed exactly once.
\<close>

theorem xmit_consumes:
  assumes "ixgbe_xmit_frame skb d = Inr d'" "primary (iw d) \<noteq> None"
  shows "skb_live d' = skb_live d - 1"
  using livesD[OF xmit_frame_lives assms(1)] assms(2) by simp

theorem xmit_consumes_witness:
  "\<exists>d'. ixgbe_xmit_frame (demo_skb demo_broadcast) demo = Inr d' \<and> skb_live d' = - 1 \<and> length (tx_log d') = 2"
proof -
  have "\<not> isl (ixgbe_xmit_frame (demo_skb demo_broadcast) demo)"
    "map_sum (\<lambda>_. ()) (\<lambda>d'. length (tx_log d')) (ixgbe_xmit_frame (demo_skb demo_broadcast) demo) = Inr 2"
    by code_simp+
  then obtain d' where d: "ixgbe_xmit_frame (demo_skb demo_broadcast) demo = Inr d'" "length (tx_log d') = 2"
    by (cases "ixgbe_xmit_frame (demo_skb demo_broadcast) demo") auto
  with xmit_consumes[OF d(1)] show ?thesis by (simp add: demo_defs)
qed

text \<open>
  C9. Reception frees or transmits its buffer exactly once when it is not delivered, and keeps it
  when it is delivered to the stack; copies for forwarding never outlive the call.
\<close>

theorem receive_consumes:
  "ixgbe_process_skb_fields a vid skb d = Inr (r, d') \<Longrightarrow>
   skb_live d' = skb_live d - (if r = None then 1 else 0)"
  using livesD[OF process_skb_lives] by force

theorem receive_consumes_witness:
  "\<exists>r d'. ixgbe_process_skb_fields 0 0 (demo_skb demo_ring_broadcast) demo = Inr (Some r, d') \<and> skb_live d' = 0"
proof -
  let ?r = "ixgbe_process_skb_fields 0 0 (demo_skb demo_ring_broadcast) demo"
  have "map_sum (\<lambda>_. ()) (\<lambda>(r, d'). r \<noteq> None) ?r = Inr True" by code_simp
  then obtain r d' where "?r = Inr (Some r, d')" by (cases ?r) auto
  with receive_consumes[OF this] show ?thesis by (simp add: demo_defs)
qed

text \<open>
  A run of the timer handler holds as many buffers after as before: every announce and RAPS
  packet it builds is sent or freed.
\<close>

theorem timer_balanced:
  "raps_main d = Inr d' \<Longrightarrow> skb_live d' = skb_live d"
  by (rule raps_main_live)

theorem timer_balanced_witness:
  "\<exists>d'. raps_main demo = Inr d' \<and> skb_live d' = 0"
proof -
  have "\<not> isl (raps_main demo)" by code_simp
  then obtain d' where "raps_main demo = Inr d'" by (cases "raps_main demo") auto
  with timer_balanced[OF this] show ?thesis by (simp add: demo_defs)
qed

text \<open>
  Sending a BERT packet is balanced too, except when the responder is not in the ring
  (\<open>S_init\<close>): the copy of the packet has been made and is lost.
\<close>

theorem send_bert_leak:
  assumes "ixgbe_wfs_send_bert w d = Inr d'"
  shows "skb_live d' = skb_live d +
    (if bc_skb (wfsbert (iw d) ! (unat (myID d) - 1)) \<noteq> None \<and> skb_copy_ok d 0 \<and> fsm_state (peer_of d w) = S_init
     then 1 else 0)"
proof -
  have "results (\<lambda>d'. skb_live d' = skb_live d +
    (if bc_skb (wfsbert (iw d) ! (unat (myID d) - 1)) \<noteq> None \<and> skb_copy_ok d 0 \<and> fsm_state (peer_of d w) = S_init
     then 1 else 0)) (ixgbe_wfs_send_bert w d)"
    unfolding ixgbe_wfs_send_bert_def Let_def skb_copy_def
    by (intro results_intros)
      (auto simp: wfs_idx_Inr peer_of_def dest!: xmit_wfs_frame_live split: if_splits)
  from resultsD[OF this assms] show ?thesis .
qed

definition demo_bert_on :: drv where
  "demo_bert_on = upd_bert 1 (\<lambda>c. c\<lparr>bc_skb := Some (demo_skb demo_ring_broadcast)\<rparr>) demo"

theorem send_bert_leak_witness:
  "\<exists>d'. ixgbe_wfs_send_bert 3 demo_bert_on = Inr d' \<and> skb_live d' = skb_live demo_bert_on + 1"
proof -
  have "\<not> isl (ixgbe_wfs_send_bert 3 demo_bert_on)"
    "bc_skb (wfsbert (iw demo_bert_on) ! (unat (myID demo_bert_on) - 1)) \<noteq> None \<and>
     skb_copy_ok demo_bert_on 0 \<and> fsm_state (peer_of demo_bert_on 3) = S_init"
    by code_simp+
  moreover then obtain d' where "ixgbe_wfs_send_bert 3 demo_bert_on = Inr d'"
    by (cases "ixgbe_wfs_send_bert 3 demo_bert_on") auto
  ultimately show ?thesis using send_bert_leak[of 3 demo_bert_on d'] by auto
qed

end
