(* ===== verification/WfsCodec.thy ===== *)
theory WfsCodec
  imports WfsRing
begin

text \<open>
  What the bytes of a ring packet mean: a packet is a header and a list of options, the functions
  that add options append to the list, \<open>wfspkt_getopt\<close> finds the first option of a type, and what
  one workstation encodes another decodes.
\<close>

section \<open>Packets as lists of options\<close>

type_synonym opt = "u8 \<times> u8 list"

fun enc_opt :: "opt \<Rightarrow> u8 list" where
  "enc_opt (t, v) = t # of_nat (length v + 2) # v"

definition enc_opts :: "opt list \<Rightarrow> u8 list" where
  "enc_opts os = concat (map enc_opt os)"

text \<open>The bytes at the option area are the options \<open>os\<close> and the length byte counts them.\<close>

definition opts_of :: "pkt \<Rightarrow> opt list \<Rightarrow> bool" where
  "opts_of p os \<longleftrightarrow> (let n = 18 + length (enc_opts os) in
     n < 256 \<and> (\<exists>h suf. p = h @ of_nat n # enc_opts os @ suf \<and> length h = 17))"

lemma enc_opts_simps [simp]:
  "enc_opts [] = []" "enc_opts ((t, v) # os) = t # of_nat (length v + 2) # v @ enc_opts os"
  "enc_opts (os @ os') = enc_opts os @ enc_opts os'"
  by (simp_all add: enc_opts_def)

lemma byte_of_len: "n < 256 \<Longrightarrow> unat (of_nat n :: u8) = n"
  by (simp add: unat_of_nat)

text \<open>The loop of \<open>wfspkt_getopt\<close> on the encoding of \<open>os\<close> behind \<open>pre\<close>.\<close>

lemma getopt_loop_opts:
  assumes "\<forall>(t, v) \<in> set os. length v + 2 < 256"
  shows "getopt_loop (pre @ enc_opts os @ suf) ty (int (length (enc_opts os))) (length pre) =
    Some (Inr (if ty \<in> fst ` set os
               then Some (length pre + length (enc_opts (takeWhile (\<lambda>(t, v). t \<noteq> ty) os))) else None))"
  using assms
proof (induction os arbitrary: pre)
  case Nil
  then show ?case by (simp add: getopt_loop.simps)
next
  case (Cons o' os)
  obtain t v where o': "o' = (t, v)" by (cases o')
  let ?n = "length v + 2" and ?p = "pre @ enc_opts (o' # os) @ suf"
  have un: "unat (of_nat ?n :: u8) = ?n" using Cons.prems o' by (intro byte_of_len) auto
  have n: "uint (of_nat ?n :: u8) = int ?n" unfolding uint_nat un ..
  have nth: "?p ! length pre = t" "?p ! (length pre + 1) = of_nat ?n" "length pre + 1 < length ?p"
    by (simp_all add: o' nth_append)
  have eq: "?p = (pre @ enc_opt o') @ enc_opts os @ suf" "length (pre @ enc_opt o') = length pre + ?n"
    by (simp_all add: o')
  show ?case
  proof (cases "t = ty")
    case True
    with o' nth show ?thesis by (subst getopt_loop.simps) simp
  next
    case False
    have "getopt_loop ?p ty (int (length (enc_opts (o' # os)))) (length pre) =
      getopt_loop ((pre @ enc_opt o') @ enc_opts os @ suf) ty (int (length (enc_opts os))) (length (pre @ enc_opt o'))"
      unfolding eq(2) eq(1)[symmetric] using False nth n un
      by (subst getopt_loop.simps) (simp add: o' del: append_assoc)
    with Cons.IH[of "pre @ enc_opt o'"] Cons.prems o' False show ?thesis by (auto simp: image_iff)
  qed
qed

text \<open>Access to a buffer written as a concatenation.\<close>

lemma wr_append:
  "off = length pre \<Longrightarrow> length old = length bs \<Longrightarrow> wr off bs (pre @ old @ suf) = Inr (pre @ bs @ suf)"
  by (simp add: wr_def write_bytes_def)

lemma rds_append: "off = length pre \<Longrightarrow> n = length bs \<Longrightarrow> rds off n (pre @ bs @ suf) = Inr bs"
  by (simp add: rds_def read_bytes_def)

lemma rd_append: "off = length pre \<Longrightarrow> rd off (pre @ b # suf) = Inr b"
  by (simp add: rd_def nth_append)

lemma opts_lens:
  assumes "18 + length (enc_opts os) < 256"
  shows "\<forall>(t, v) \<in> set os. length v + 2 < 256"
proof -
  have "length (enc_opt o') \<le> length (enc_opts os)" if "o' \<in> set os" for o'
    using that by (induction os) (auto simp: enc_opts_def)
  with assms show ?thesis by fastforce
qed

lemma getopt_opts:
  assumes "opts_of p os"
  shows "wfspkt_getopt p ty = Inr (if ty \<in> fst ` set os
    then Some (18 + length (enc_opts (takeWhile (\<lambda>(t, v). t \<noteq> ty) os))) else None)"
proof -
  let ?n = "18 + length (enc_opts os)"
  from assms obtain h suf where p: "p = h @ of_nat ?n # enc_opts os @ suf" "length h = 17" "?n < 256"
    by (auto simp: opts_of_def Let_def)
  have l: "rd 17 p = Inr (of_nat ?n)" by (subst p(1), rule rd_append) (simp add: p)
  have u: "uint (of_nat ?n :: u8) = int ?n" unfolding uint_nat byte_of_len[OF p(3)] ..
  have p': "p = (h @ [of_nat ?n]) @ enc_opts os @ suf" "length (h @ [of_nat ?n]) = 18"
    using p by simp_all
  have "getopt_loop p ty (int ?n - 18) 18 =
    Some (Inr (if ty \<in> fst ` set os then Some (18 + length (enc_opts (takeWhile (\<lambda>(t, v). t \<noteq> ty) os))) else None))"
    using getopt_loop_opts[OF opts_lens[OF p(3)], of "h @ [of_nat ?n]" suf ty]
    unfolding p'(1)[symmetric] p'(2) by simp
  then show ?thesis unfolding wfspkt_getopt_def l by (simp only: rbind_Inr u of_option_simps id_apply) simp
qed

text \<open>
  Adding an option. The first \<open>sz - 2\<close> bytes of the value are zeroed before they are filled in, the
  last two keep what was in the buffer.
\<close>

lemma set_opt_append:
  assumes "p = h @ of_nat n # enc_opts os @ old @ [x, y] @ e # suf" "length h = 17"
    and n: "n = 18 + length (enc_opts os)" and "length old = sz" "2 \<le> sz" "n + sz + 2 \<le> 64"
    and fill: "\<And>pre v suf. length pre = n + 2 \<Longrightarrow> length v = sz \<Longrightarrow> fill n (pre @ v @ suf) = Inr (pre @ val v @ suf)"
    and "\<And>v. length v = sz \<Longrightarrow> length (val v) = sz"
  shows "set_opt ty sz fill p =
    Inr (n, h @ of_nat (n + sz + 2) # enc_opts os @ enc_opt (ty, val (replicate (sz - 2) 0 @ [x, y])) @ 0 # suf)"
proof -
  let ?v = "replicate (sz - 2) 0 @ [x, y] :: u8 list" and ?len = "of_nat (2 + sz) :: u8"
  let ?pre = "h @ of_nat n # enc_opts os" 
  have pre: "length ?pre = n" using assms by simp
  have u: "unat (of_nat n :: u8) = n" "unat (of_nat n + of_nat (2 + sz) :: u8) = n + sz + 2"
    "(of_nat n :: u8) + of_nat (2 + sz) = of_nat (n + sz + 2)"
  proof -
    show "unat (of_nat n :: u8) = n" using assms by (intro byte_of_len) simp
    show e: "(of_nat n :: u8) + of_nat (2 + sz) = of_nat (n + sz + 2)" by simp
    show "unat (of_nat n + of_nat (2 + sz) :: u8) = n + sz + 2" unfolding e using assms by (intro byte_of_len) simp
  qed
  have sz: "sz = (sz - 2) + 2" using assms by simp
  have l: "rd 17 p = Inr (of_nat n)" by (subst assms(1), rule rd_append) (simp add: assms)
  have w1: "wr n (replicate sz 0) p = Inr (?pre @ replicate sz 0 @ [x, y] @ e # suf)"
    using wr_append[of n ?pre old "replicate sz 0" "[x, y] @ e # suf"] pre assms by simp
  have r: "replicate sz (0::u8) @ [x, y] @ e # suf = [0, 0] @ ?v @ e # suf" by (subst sz) (simp add: numeral_2_eq_2)
  have w2: "wr n [ty, ?len] (?pre @ replicate sz 0 @ [x, y] @ e # suf) = Inr ((?pre @ [ty, ?len]) @ ?v @ e # suf)"
    unfolding r using wr_append[OF pre[symmetric], of "[0, 0]" "[ty, ?len]" "?v @ e # suf"] by simp
  have w3: "fill n ((?pre @ [ty, ?len]) @ ?v @ e # suf) = Inr ((?pre @ [ty, ?len]) @ val ?v @ e # suf)"
    using pre assms by (intro fill) simp_all
  have w4: "wr 17 [of_nat n + ?len] ((?pre @ [ty, ?len]) @ val ?v @ e # suf) =
    Inr (h @ [of_nat (n + sz + 2)] @ enc_opts os @ [ty, ?len] @ val ?v @ e # suf)"
    using wr_append[of 17 h "[of_nat n]" "[of_nat n + ?len]" "enc_opts os @ [ty, ?len] @ val ?v @ e # suf"] assms u by simp
  have lv: "length (val ?v) = sz" using assms by simp
  have w5: "wr (n + sz + 2) [0] (h @ [of_nat (n + sz + 2)] @ enc_opts os @ [ty, ?len] @ val ?v @ e # suf) =
    Inr (h @ of_nat (n + sz + 2) # enc_opts os @ enc_opt (ty, val ?v) @ 0 # suf)"
    using wr_append[of "n + sz + 2" "h @ [of_nat (n + sz + 2)] @ enc_opts os @ [ty, ?len] @ val ?v" "[e]" "[0]" suf] assms lv
    by (simp add: add.commute)
  have b: "\<not> of_nat 64 < of_nat n + ?len"
    using assms u(2) by (simp add: word_less_nat_alt)
  show ?thesis
    unfolding set_opt_def Let_def l
    apply (simp only: rbind_Inr u(1) w1 w2 w3 w4 b if_False u(2) w5)
    done
qed

text \<open>
  \<open>hdr mac d ty dest n\<close> is a header with length byte \<open>n\<close>; \<open>packet\<close> is a header with its options, the
  end mark and whatever follows in the buffer.
\<close>

definition hdr :: "u8 list \<Rightarrow> drv \<Rightarrow> u8 \<Rightarrow> u8 \<Rightarrow> u8 list" where
  "hdr mac d ty dest = mac @ take 6 (mac_addr (iw d)) @ [0x88, 0xB5, ty, dest, myID d]"

definition packet :: "u8 list \<Rightarrow> drv \<Rightarrow> u8 \<Rightarrow> u8 \<Rightarrow> opt list \<Rightarrow> u8 list \<Rightarrow> pkt" where
  "packet mac d ty dest os suf =
     hdr mac d ty dest @ of_nat (18 + length (enc_opts os)) # enc_opts os @ suf"

text \<open>Addresses have six bytes.\<close>

definition macs_ok :: "drv \<Rightarrow> bool" where
  "macs_ok d \<longleftrightarrow> length (mac_addr (iw d)) = 6 \<and> (\<forall>p \<in> set (wfspeer (iw d)). length (wp_mac p) = 6)"

lemma length_hdr: "length mac = 6 \<Longrightarrow> macs_ok d \<Longrightarrow> length (hdr mac d ty dest) = 17"
  by (simp add: hdr_def macs_ok_def)

lemma packet_opts:
  "length mac = 6 \<Longrightarrow> macs_ok d \<Longrightarrow> 18 + length (enc_opts os) < 256 \<Longrightarrow> opts_of (packet mac d ty dest os suf) os"
  unfolding opts_of_def packet_def Let_def
  by (intro conjI exI[of _ "hdr mac d ty dest"] exI[of _ suf]) (auto simp: length_hdr)

lemma upd_fib_same [simp]: "upd_iw (\<lambda>i. i\<lparr>fib := fib (iw d)\<rparr>) d = d"
  by (simp add: upd_iw_def)

lemma idx_less: "w \<noteq> 0 \<Longrightarrow> unat w \<le> n \<Longrightarrow> unat w - Suc 0 < n" for w :: "'a::len word"
  using unat_gt_0[of w] by linarith

lemma wfspkt_init_packet:
  assumes "wfspkt_init ty vid dm d (ps @ suf) = Inr (p', d')" "length ps = 19" "macs_ok d"
  shows "\<exists>mac dest s. length mac = 6 \<and>
    p' = packet mac d (if hd dm AND 1 \<noteq> 0 then ty OR WFSPKT_TYPE_BROADCAST_MASK else ty) dest [] (0 # suf) \<and>
    d' = upd_iw (\<lambda>i. i\<lparr>fib := s\<rparr>) d \<and>
    (if (if hd dm AND 1 \<noteq> 0 then ty OR WFSPKT_TYPE_BROADCAST_MASK else ty) AND WFSPKT_TYPE_BROADCAST_MASK \<noteq> 0
     then dest = WFSID_ALL \<and> s = fib (iw d) else ixgbe_wfs_fib_lookup vid dm (fib (iw d)) = Inr (dest, s)) \<and>
    (if dest = WFSID_ALL then mac = broadcast_mac
     else dest \<noteq> 0 \<and> unat dest \<le> length (wfspeer (iw d)) \<and> mac = wp_mac (peer_of d dest))"
proof -
  obtain x0 x1 x2 x3 x4 x5 x6 x7 x8 x9 x10 x11 x12 x13 x14 x15 x16 x17 x18 where
    ps: "ps = [x0, x1, x2, x3, x4, x5, x6, x7, x8, x9, x10, x11, x12, x13, x14, x15, x16, x17, x18]"
    using assms(2) by (auto simp: numeral_eq_Suc length_Suc_conv)
  let ?ty = "if hd dm AND 1 \<noteq> 0 then ty OR WFSPKT_TYPE_BROADCAST_MASK else ty"
  from assms(1) obtain dest s mac where
    dest: "(if ?ty AND WFSPKT_TYPE_BROADCAST_MASK \<noteq> 0 then dest = WFSID_ALL \<and> s = fib (iw d)
            else ixgbe_wfs_fib_lookup vid dm (fib (iw d)) = Inr (dest, s))"
    and mac: "(if dest = WFSID_ALL then mac = broadcast_mac
     else dest \<noteq> 0 \<and> unat dest \<le> length (wfspeer (iw d)) \<and> mac = wp_mac (peer_of d dest))"
    and d': "d' = upd_iw (\<lambda>i. i\<lparr>fib := s\<rparr>) d"
    and p': "p' = write_bytes 17 [18, 0] (write_bytes 0 (take 6 mac @ take 6 (mac_addr (iw d)))
              (write_bytes 15 [dest, myID d] (write_bytes 14 [?ty] (write_bytes 12 [0x88, 0xB5]
              (write_bytes 0 (replicate 18 0) (ps @ suf))))))"
    using assms(1,2)
    by (cases "?ty AND WFSPKT_TYPE_BROADCAST_MASK \<noteq> 0")
      (auto simp: wfspkt_init_def rbind_eq_Inr wr_def rd_def Let_def hd_conv_nth wfs_idx_Inr peer_of_def split: if_splits)
  have "length mac = 6" using mac assms(3) idx_less[of dest]
    by (auto simp: macs_ok_def broadcast_mac_def peer_of_def split: if_splits)
  moreover have "length (take 6 (mac_addr (iw d))) = 6" using assms(3) by (simp add: macs_ok_def)
  ultimately have "p' = packet mac d ?ty dest [] (0 # suf)"
    unfolding p' ps packet_def hdr_def by (simp add: write_bytes_def)
  with dest mac d' \<open>length mac = 6\<close> show ?thesis by blast
qed

lemma set_opt_packet:
  assumes "p = packet mac d ty dest os (old @ [x, y] @ e # suf)" "length mac = 6" "macs_ok d"
    and "length old = sz" "2 \<le> sz" "18 + length (enc_opts os) + sz + 2 \<le> 64"
    and "\<And>n pre v suf. n + 2 = length pre \<Longrightarrow> length v = sz \<Longrightarrow> fill n (pre @ v @ suf) = Inr (pre @ val v @ suf)"
    and val: "\<And>v. length v = sz \<Longrightarrow> length (val v) = sz"
  shows "set_opt t sz fill p =
    Inr (18 + length (enc_opts os), packet mac d ty dest (os @ [(t, val (replicate (sz - 2) 0 @ [x, y]))]) (0 # suf))"
proof -
  have "length (val (replicate (sz - 2) 0 @ [x, y])) = sz" using val assms(5) by simp
  with set_opt_append[of p "hdr mac d ty dest" "18 + length (enc_opts os)" os old x y e suf sz fill val t] assms
  show ?thesis by (simp add: packet_def length_hdr add.commute add.left_commute)
qed

text \<open>The options the driver adds to its packets.\<close>

lemma set_sequence_packet:
  assumes "length mac = 6" "macs_ok d" "length old = 4" "18 + length (enc_opts os) + 6 \<le> 64"
  shows "wfspkt_set_sequence seq (packet mac d ty dest os (old @ [x, y] @ e # suf)) =
    Inr (18 + length (enc_opts os), packet mac d ty dest (os @ [(WFSOPT_SEQUENCE, be32 seq)]) (0 # suf))"
  unfolding wfspkt_set_sequence_def
  by (rule set_opt_packet[where val = "\<lambda>_. be32 seq"]) (use assms in \<open>simp_all add: wr_append le32_htonl\<close>)

lemma set_announce_packet:
  assumes "length mac = 6" "macs_ok d" "length old = 11" "18 + length (enc_opts os) + 13 \<le> 64" "length m = 6"
  shows "wfspkt_set_announce m ip (packet mac d ty dest os (old @ [x, y] @ e # suf)) =
    Inr (18 + length (enc_opts os), packet mac d ty dest (os @ [(WFSOPT_ANNOUNCE, m @ be32 ip @ [y])]) (0 # suf))"
proof -
  let ?fill = "\<lambda>opt p. rbind (wr (opt + 2) (take 6 m) p) (wr (opt + 8) (le32 (htonl ip)))"
  let ?val = "\<lambda>v. m @ be32 ip @ drop 10 v"
  have fill: "?fill n (pre @ v @ suf) = Inr (pre @ ?val v @ suf)" if "n + 2 = length pre" "length v = 11"
    for n :: nat and pre v suf :: "u8 list"
  proof -
    have v: "v = take 6 v @ take 4 (drop 6 v) @ drop 10 v"
      using append_take_drop_id[of 4 "drop 6 v"] append_take_drop_id[of 6 v] by simp
    have v': "v @ suf = take 6 v @ take 4 (drop 6 v) @ drop 10 v @ suf" using v by (metis append_assoc)
    have "wr (n + 2) (take 6 m) (pre @ v @ suf) = Inr (pre @ m @ take 4 (drop 6 v) @ drop 10 v @ suf)"
      using wr_append[of "n + 2" pre "take 6 v" m "take 4 (drop 6 v) @ drop 10 v @ suf"] that assms unfolding v' by simp
    moreover have "wr (n + 8) (be32 ip) (pre @ m @ take 4 (drop 6 v) @ drop 10 v @ suf) =
      Inr (pre @ m @ be32 ip @ drop 10 v @ suf)"
      using wr_append[of "n + 8" "pre @ m" "take 4 (drop 6 v)" "be32 ip" "drop 10 v @ suf"] that assms by simp
    ultimately show ?thesis by (simp add: le32_htonl)
  qed
  have "drop 10 (replicate 9 0 @ [x, y]) = [y]" by simp
  with set_opt_packet[where val = ?val and sz = 11 and fill = ?fill and t = WFSOPT_ANNOUNCE, OF refl assms(1-3)] fill assms
  show ?thesis unfolding wfspkt_set_announce_def by simp
qed

lemma set_raps_packet:
  assumes "length mac = 6" "macs_ok d" "length old = 2" "18 + length (enc_opts os) + 4 \<le> 64"
  shows "wfspkt_set_raps (packet mac d ty dest os (old @ [x, y] @ e # suf)) =
    Inr (18 + length (enc_opts os), packet mac d ty dest (os @ [(WFSOPT_RAPS, [x, y])]) (0 # suf))"
  unfolding wfspkt_set_raps_def
  using set_opt_packet[where val = "\<lambda>v. v" and sz = 2 and fill = "\<lambda>opt. Inr"] assms by simp

lemma push_write:
  assumes "skb_push n skb = Inr skb1" "wr 0 bs (skb_buf skb1) = Inr b" "length bs = n"
  shows "b = bs @ skb_buf skb \<and> skb_headlen skb1 = skb_headlen skb + n \<and> skb_frags skb1 = skb_frags skb"
  using assms by (auto simp: skb_push_def wr_def write_bytes_def Let_def split: if_splits)

definition group_mac :: "u8 list \<Rightarrow> bool" where
  "group_mac m \<longleftrightarrow> hd m AND 1 \<noteq> 0"

definition data_type :: "u8 list \<Rightarrow> u8" where
  "data_type m = (if group_mac m then WFSPKT_TYPE_DATA_BROADCAST else WFSPKT_TYPE_DATA_UNICAST)"

lemma encap_packet:
  assumes "ixgbe_wfs_encap skb d = Inr (Some skb', d')" "macs_ok d"
  defines "h \<equiv> read_bytes 0 6 (skb_buf skb)"
  shows "\<exists>mac dest s. length mac = 6 \<and>
    skb_buf skb' = packet mac d (data_type h) dest [(WFSOPT_SEQUENCE, be32 (data_seqno (iw d)))] (skb_buf skb) \<and>
    skb_headlen skb' = skb_headlen skb + 24 \<and> skb_frags skb' = skb_frags skb \<and>
    (if group_mac h then dest = WFSID_ALL
     else ixgbe_wfs_fib_lookup (vlan_tci skb) h (fib (iw d)) = Inr (dest, s)) \<and>
    (if dest = WFSID_ALL then mac = broadcast_mac else mac = wp_mac (peer_of d dest)) \<and>
    data_seqno (iw d') = data_seqno (iw d) + 1"
proof -
  let ?ty = "if h = broadcast_mac then WFSPKT_TYPE_DATA_BROADCAST else WFSPKT_TYPE_DATA_UNICAST"
  from assms(1) obtain p d1 where h: "rds 0 6 (skb_buf skb) = Inr h"
    and i: "wfspkt_init ?ty (vlan_tci skb) h d (replicate 64 0) = Inr (p, d1)"
    unfolding h_def by (auto simp: ixgbe_wfs_encap_def rbind_eq_Inr rds_def Let_def split: if_splits)
  have ty: "(if hd h AND 1 \<noteq> 0 then ?ty OR WFSPKT_TYPE_BROADCAST_MASK else ?ty) = data_type h"
    "data_type h AND WFSPKT_TYPE_BROADCAST_MASK \<noteq> 0 \<longleftrightarrow> group_mac h"
    by (auto simp: data_type_def group_mac_def broadcast_mac_def)
  have r: "replicate 64 (0::u8) = replicate 19 0 @ replicate 45 0" by (simp add: replicate_add[symmetric])
  from wfspkt_init_packet[OF i[unfolded r] _ assms(2), unfolded ty] obtain mac dest s where
    mac: "length mac = 6" and p: "p = packet mac d (data_type h) dest [] (0 # replicate 45 0)"
    and d1: "d1 = upd_iw (\<lambda>i. i\<lparr>fib := s\<rparr>) d"
    and dest0: "if group_mac h then dest = WFSID_ALL \<and> s = fib (iw d)
     else ixgbe_wfs_fib_lookup (vlan_tci skb) h (fib (iw d)) = Inr (dest, s)"
      "if dest = WFSID_ALL then mac = broadcast_mac
       else dest \<noteq> 0 \<and> unat dest \<le> length (wfspeer (iw d)) \<and> mac = wp_mac (peer_of d dest)"
    unfolding length_replicate by blast
  have dest: "if group_mac h then dest = WFSID_ALL
     else ixgbe_wfs_fib_lookup (vlan_tci skb) h (fib (iw d)) = Inr (dest, s)"
      "if dest = WFSID_ALL then mac = broadcast_mac else mac = wp_mac (peer_of d dest)"
    using dest0 by (simp_all split: if_splits)
  have z: "0 # replicate 45 0 = replicate 4 (0::u8) @ [0, 0] @ 0 # replicate 39 0" by (simp add: numeral_eq_Suc)
  let ?os = "[(WFSOPT_SEQUENCE, be32 (data_seqno (iw d)))]"
  let ?p = "packet mac d (data_type h) dest ?os"
  have q: "wfspkt_set_sequence (data_seqno (iw d1)) p = Inr (18, ?p (0 # replicate 39 0))"
    unfolding p z using set_sequence_packet[OF mac assms(2), of "replicate 4 0" "[]"] d1 by simp
  have l: "pkt_len (?p x) = Inr 24" for x
    using rd_append[of 17 "hdr mac d (data_type h) dest"] mac assms(2) by (simp add: packet_def length_hdr)
  have t: "take 24 (?p x) = ?p []" "length (?p []) = 24" "?p x = ?p [] @ x" for x
    using mac assms(2) by (simp_all add: packet_def length_hdr)
  from assms(1) obtain sk skb1 b where push: "skb_push 24 sk = Inr skb1"
    "wr 0 (?p []) (skb_buf skb1) = Inr b" "skb' = skb1\<lparr>skb_buf := b\<rparr>" "data_seqno (iw d') = data_seqno (iw d1) + 1"
    and sk: "skb_buf sk = skb_buf skb" "skb_headlen sk = skb_headlen skb" "skb_frags sk = skb_frags skb"
    unfolding ixgbe_wfs_encap_def Let_def h rbind_Inr i prod.case q l
    by (fastforce simp: t(1,2) rbind_eq_Inr split: option.splits if_splits)
  have "skb_buf skb' = ?p (skb_buf skb)" "skb_headlen skb' = skb_headlen skb + 24" "skb_frags skb' = skb_frags skb"
    using push_write[OF push(1,2) t(2)] t(3)[of "skb_buf skb"] push(3) sk by simp_all
  moreover have "data_seqno (iw d') = data_seqno (iw d) + 1" using push(4) d1 by simp
  ultimately show ?thesis using mac dest by blast
qed

section \<open>Properties\<close>

text \<open>
  C6. What a workstation encapsulates another one decapsulates: the frame \<open>ixgbe_wfs_encap\<close> builds is
  accepted by \<open>ixgbe_wfs_decap\<close>, names this workstation as its source, carries the sequence number
  in network order, and stripping its header gives back the original frame. Its destination is
  everyone for a group address and the answer of the forwarding table otherwise.
\<close>

theorem encap_decap:
  assumes "ixgbe_wfs_encap skb d = Inr (Some skb', d')" "macs_ok d"
  shows "ixgbe_wfs_decap skb' = Inr (Some skb') \<and> pkt_src (skb_buf skb') = Inr (myID d) \<and>
    pkt_len (skb_buf skb') = Inr 24 \<and>
    wfspkt_getopt (skb_buf skb') WFSOPT_SEQUENCE = Inr (Some 18) \<and>
    rds 20 4 (skb_buf skb') = Inr (be32 (data_seqno (iw d))) \<and>
    (\<exists>skb''. skb_pull 24 skb' = Inr skb'' \<and> skb_buf skb'' = skb_buf skb \<and>
       skb_headlen skb'' = skb_headlen skb \<and> skb_frags skb'' = skb_frags skb) \<and>
    (\<exists>dest s. pkt_dest (skb_buf skb') = Inr dest \<and>
       (if group_mac (read_bytes 0 6 (skb_buf skb)) then dest = WFSID_ALL
        else ixgbe_wfs_fib_lookup (vlan_tci skb) (read_bytes 0 6 (skb_buf skb)) (fib (iw d)) = Inr (dest, s)))"
proof -
  let ?os = "[(WFSOPT_SEQUENCE, be32 (data_seqno (iw d)))]"
  from encap_packet[OF assms] obtain mac dest s ty where
    p: "length mac = 6" "skb_buf skb' = packet mac d ty dest ?os (skb_buf skb)"
    "skb_headlen skb' = skb_headlen skb + 24" "skb_frags skb' = skb_frags skb"
    and dest: "if group_mac (read_bytes 0 6 (skb_buf skb)) then dest = WFSID_ALL
        else ixgbe_wfs_fib_lookup (vlan_tci skb) (read_bytes 0 6 (skb_buf skb)) (fib (iw d)) = Inr (dest, s)"
    by blast
  have m: "length (take 6 (mac_addr (iw d))) = 6" using assms(2) by (simp add: macs_ok_def)
  have "rds 12 2 (skb_buf skb') = Inr [0x88, 0xB5]" "pkt_src (skb_buf skb') = Inr (myID d)"
    "pkt_dest (skb_buf skb') = Inr dest" "pkt_len (skb_buf skb') = Inr 24"
    "rds 20 4 (skb_buf skb') = Inr (be32 (data_seqno (iw d)))" "drop 24 (skb_buf skb') = skb_buf skb"
    using p(1) m by (simp_all add: p(2) packet_def hdr_def rds_def rd_def read_bytes_def nth_append)
  moreover have "opts_of (skb_buf skb') ?os" using p(1,2) assms(2) packet_opts[of mac d ?os] by simp
  ultimately show ?thesis using getopt_opts[of "skb_buf skb'" ?os WFSOPT_SEQUENCE] p(3,4) dest
    by (auto simp: ixgbe_wfs_decap_def pskb_may_pull_def skb_pull_def skb_len_def)
qed

lemma demo_macs_ok: "macs_ok demo"
  by (simp add: demo_defs macs_ok_def zero_peer_def)

theorem encap_decap_witness:
  "\<exists>skb' d'. ixgbe_wfs_encap (demo_skb demo_broadcast) demo = Inr (Some skb', d') \<and>
     ixgbe_wfs_decap skb' = Inr (Some skb') \<and> pkt_dest (skb_buf skb') = Inr WFSID_ALL"
proof -
  let ?r = "ixgbe_wfs_encap (demo_skb demo_broadcast) demo"
  have "map_sum (\<lambda>_. ()) (\<lambda>(r, d'). r \<noteq> None) ?r = Inr True" by code_simp
  then obtain skb' d' where r: "?r = Inr (Some skb', d')" by (cases ?r) auto
  moreover have "group_mac (read_bytes 0 6 (skb_buf (demo_skb demo_broadcast)))" by code_simp
  ultimately show ?thesis using encap_decap[OF r demo_macs_ok] by auto
qed

text \<open>The control packets: the header is that of a broadcast, the option follows it.\<close>

lemma broadcast_packet:
  assumes "get_pkt n ty broadcast_mac add d = Inr (Some (skb, opt), d')" "macs_ok d"
    and b: "ty AND WFSPKT_TYPE_BROADCAST_MASK \<noteq> 0" "ty OR WFSPKT_TYPE_BROADCAST_MASK = ty"
  shows "\<exists>suf d1 p2. length suf = 49 + n \<and> (\<forall>g. skb_alloc d 0 = Some g \<longrightarrow> suf = map g [19..<68 + n]) \<and> iw d1 = iw d \<and>
    add d1 (packet broadcast_mac d ty WFSID_ALL [] (0 # suf)) = Inr (opt, p2) \<and> skb_buf skb = p2 \<and>
    skb_headlen skb = unat (p2 ! 17)"
proof -
  from assms(1) obtain m d1 p d2 p2 where a: "wfspkt_alloc n d = (Some m, d1)"
    "wfspkt_init ty 0 broadcast_mac d1 (skb_buf m) = Inr (p, d2)" "add d2 p = Inr (opt, p2)"
    "skb_put (unat (p2 ! 17)) (m\<lparr>skb_buf := p2\<rparr>) = Inr skb" "d' = d2"
    by (auto simp: get_pkt_def rbind_eq_Inr rd_def split: prod.splits option.splits if_splits)
  from a(1) have m: "length (skb_buf m) = 68 + n" "skb_headlen m = 0" "iw d1 = iw d"
    "\<forall>g. skb_alloc d 0 = Some g \<longrightarrow> drop 19 (skb_buf m) = map g [19..<68 + n]"
    by (auto simp: drop_map wfspkt_alloc_def Let_def split: option.splits)
  have a2: "wfspkt_init ty 0 broadcast_mac d1 (take 19 (skb_buf m) @ drop 19 (skb_buf m)) = Inr (p, d2)"
    using a(2) by simp
  have macs: "macs_ok d1" using assms(2) m(3) by (simp add: macs_ok_def)
  have l19: "length (take 19 (skb_buf m)) = 19" using m by simp
  have ty: "(if hd broadcast_mac AND 1 \<noteq> 0 then ty OR WFSPKT_TYPE_BROADCAST_MASK else ty) = ty"
    using b by (simp add: broadcast_mac_def)
  have p: "p = packet broadcast_mac d ty WFSID_ALL [] (0 # drop 19 (skb_buf m))" "iw d2 = iw d1"
    using wfspkt_init_packet[OF a2 l19 macs, unfolded ty] b m(3) by (auto simp: packet_def hdr_def)
  have "p2 = skb_buf skb \<and> skb_headlen skb = unat (p2 ! 17)"
    using a(4) m(2) by (auto simp: skb_put_def split: if_splits)
  with p a(3) m show ?thesis
    by (intro exI[of _ "drop 19 (skb_buf m)"] exI[of _ d2] exI[of _ p2]) simp
qed

lemma announce_byte_fields:
  assumes "port < 64"
  shows "announce_byte pri port AND 1 \<noteq> 0 \<longleftrightarrow> pri" "announce_byte pri port AND 2 \<noteq> 0 \<longleftrightarrow> \<not> pri"
    "drop_bit 2 (announce_byte pri port) = port"
proof -
  have "list_all (\<lambda>k. list_all (\<lambda>pri. (announce_byte pri (of_nat k) AND 1 \<noteq> 0 \<longleftrightarrow> pri) \<and>
    (announce_byte pri (of_nat k) AND 2 \<noteq> 0 \<longleftrightarrow> \<not> pri) \<and> drop_bit 2 (announce_byte pri (of_nat k)) = of_nat k)
    [True, False]) [0..<64]" by code_simp
  moreover have "unat port \<in> set [0..<64]" using assms by (simp add: word_less_nat_alt)
  ultimately have "(announce_byte pri (of_nat (unat port)) AND 1 \<noteq> 0 \<longleftrightarrow> pri) \<and>
    (announce_byte pri (of_nat (unat port)) AND 2 \<noteq> 0 \<longleftrightarrow> \<not> pri) \<and>
    drop_bit 2 (announce_byte pri (of_nat (unat port))) = of_nat (unat port)"
    unfolding list_all_iff by (cases pri) force+
  then show "announce_byte pri port AND 1 \<noteq> 0 \<longleftrightarrow> pri" "announce_byte pri port AND 2 \<noteq> 0 \<longleftrightarrow> \<not> pri"
    "drop_bit 2 (announce_byte pri port) = port" by simp_all
qed

text \<open>
  C7. An announce packet means to its receiver what its sender put in: a workstation that
  receives it on adapter \<open>a\<close> stores the sender's MAC and IP address and queues \<open>E_discover\<close> for the
  sender with the port number, the port role and the receiving adapter.
\<close>

theorem announce_exchange:
  assumes "getWfsAncePkt d = Inr (Some (skb, opt), d1)" "macs_ok d" "port < 64"
    and "(if pri then wfspkt_set_announce_primary opt port else wfspkt_set_announce_secondary opt port) (skb_buf skb) = Inr p"
    and "wfs_idx (myID d) (wfspeer (iw e)) = Inr q"
  shows "wfspkt_getopt p WFSOPT_ANNOUNCE = Inr (Some opt) \<and>
    (\<exists>p'. wfs_process_announce a p opt e = Inr (p', ixgbe_wfs_fsm_set_event (myID d) E_discover
       (Some \<lparr>ed_byte0 = (if pri then 1 else 0), ed_byte1 = port, ed_channel = Some a\<rparr>)
       (upd_peer (myID d) (\<lambda>q. q\<lparr>wp_mac := mac_addr (iw d), wp_ip := iwa_ip (iw d)\<rparr>) e)))"
proof -
  let ?mac = "mac_addr (iw d)" and ?ip = "iwa_ip (iw d)"
  from broadcast_packet[OF assms(1)[unfolded getWfsAncePkt_def] assms(2)] obtain suf where
    suf: "length suf = 49" and p2: "wfspkt_set_announce ?mac ?ip
       (packet broadcast_mac d 0xC1 WFSID_ALL [] (0 # suf)) = Inr (opt, skb_buf skb)"
    by auto
  have sp: "0 # suf = (0 # take 10 suf) @ [suf ! 10, suf ! 11] @ suf ! 12 # drop 13 suf"
    using suf append_take_drop_id[of 10 suf] Cons_nth_drop_Suc[of 10 suf] Cons_nth_drop_Suc[of 11 suf]
      Cons_nth_drop_Suc[of 12 suf] by simp
  have m: "length ?mac = 6" "length broadcast_mac = 6" using assms(2) by (simp_all add: macs_ok_def broadcast_mac_def)
  have opt: "opt = 18" and skb: "skb_buf skb =
    packet broadcast_mac d 0xC1 WFSID_ALL [(WFSOPT_ANNOUNCE, ?mac @ be32 ?ip @ [suf ! 11])] (0 # drop 13 suf)"
    using p2 set_announce_packet[OF m(2) assms(2), where old = "0 # take 10 suf" and os = "[]" and m = ?mac and
      ip = ?ip and ty = "0xC1" and dest = WFSID_ALL and x = "suf ! 10" and y = "suf ! 11" and e = "suf ! 12" and suf = "drop 13 suf"]
      suf m(1) unfolding sp by simp_all
  let ?p = "packet broadcast_mac d 0xC1 WFSID_ALL [(WFSOPT_ANNOUNCE, ?mac @ be32 ?ip @ [announce_byte pri port])] (0 # drop 13 suf)"
  have p: "p = ?p"
  proof -
    let ?h = "hdr broadcast_mac d 0xC1 WFSID_ALL @ 31 # [2, 13] @ ?mac @ be32 ?ip" and ?e = "0 # drop 13 suf"
    have h: "?p = ?h @ [announce_byte pri port] @ ?e" "skb_buf skb = ?h @ [suf ! 11] @ ?e"
      using m(1) unfolding skb packet_def by simp_all
    have "18 + 12 = length ?h" using m assms(2) by (simp add: length_hdr)
    from wr_append[OF this, of "[suf ! 11]" "[announce_byte pri port]" ?e]
    have "wr (18 + 12) [announce_byte pri port] (skb_buf skb) = Inr ?p" unfolding h by simp
    moreover have "wr (18 + 12) [announce_byte pri port] (skb_buf skb) = Inr p" using assms(4) unfolding opt
      by (simp add: wfspkt_set_announce_primary_def wfspkt_set_announce_secondary_def split: if_splits)
    ultimately show ?thesis by simp
  qed
  have byte: "announce_byte pri port AND 1 \<noteq> 0 \<longleftrightarrow> pri" "announce_byte pri port AND 2 \<noteq> 0 \<longleftrightarrow> \<not> pri"
    "drop_bit 2 (announce_byte pri port) = port"
    using assms(3) by (rule announce_byte_fields)+
  have r: "pkt_src p = Inr (myID d)" "rds 20 6 p = Inr ?mac" "rds 26 4 p = Inr (be32 ?ip)"
    "rd 30 p = Inr (announce_byte pri port)" "wr 14 [x] p = Inr (write_bytes 14 [x] p)" for x
    using m by (simp_all add: p packet_def hdr_def rds_def rd_def wr_def read_bytes_def nth_append)
  have "htonl (of_le (be32 ?ip)) = ?ip" by (simp add: le32_htonl[symmetric])
  then have "\<exists>p'. wfs_process_announce a p opt e = Inr (p', ixgbe_wfs_fsm_set_event (myID d) E_discover
       (Some \<lparr>ed_byte0 = (if pri then 1 else 0), ed_byte1 = port, ed_channel = Some a\<rparr>)
       (upd_peer (myID d) (\<lambda>q. q\<lparr>wp_mac := ?mac, wp_ip := ?ip\<rparr>) e))"
    using assms(5) byte by (cases pri) (simp_all add: wfs_process_announce_def opt r rd32_def Let_def)
  moreover have "opts_of p [(WFSOPT_ANNOUNCE, ?mac @ be32 ?ip @ [announce_byte pri port])]"
    using p m packet_opts assms(2) by simp
  ultimately show ?thesis using getopt_opts opt by simp
qed

theorem announce_exchange_witness:
  "\<exists>skb d1 p p' e'. getWfsAncePkt demo = Inr (Some (skb, 18), d1) \<and>
     wfspkt_set_announce_secondary 18 5 (skb_buf skb) = Inr p \<and>
     wfspkt_getopt p WFSOPT_ANNOUNCE = Inr (Some 18) \<and> wfs_process_announce 0 p 18 demo = Inr (p', e')"
proof -
  let ?r = "getWfsAncePkt demo"
  have "succeeds (\<lambda>(r, d1). case r of None \<Rightarrow> False | Some (skb, opt) \<Rightarrow>
      opt = 18 \<and> succeeds (\<lambda>_. True) (wfspkt_set_announce_secondary opt 5 (skb_buf skb))) ?r"
    by code_simp
  then obtain skb d1 p where r: "?r = Inr (Some (skb, 18), d1)" "wfspkt_set_announce_secondary 18 5 (skb_buf skb) = Inr p"
    by (auto simp: succeeds_iff split: option.splits)
  have "wfs_idx (myID demo) (wfspeer (iw demo)) = Inr (demo_peer 1 S_init)" by code_simp
  from announce_exchange[OF r(1) demo_macs_ok, where pri = False and port = 5 and p = p and a = 0, OF _ _ this] r
  show ?thesis by auto
qed

text \<open>
  The status byte of a RAPS packet (its flush and do-not-forward bits) is never initialised:
  it is the byte the allocated buffer happens to hold at offset 21.
\<close>

theorem raps_status_garbage:
  assumes "getWfsRapsPkt d = Inr (Some (skb, opt), d1)" "macs_ok d" "skb_alloc d 0 = Some g"
    and "wfspkt_set_raps_sf opt (skb_buf skb) = Inr p"
  shows "wfspkt_getopt p WFSOPT_RAPS = Inr (Some opt) \<and> rd (opt + 2) p = Inr WFSOPT_RAPS_REQ_SF \<and>
    rd (opt + 3) p = Inr (g 21)"
proof -
  from broadcast_packet[OF assms(1)[unfolded getWfsRapsPkt_def] assms(2)] assms(3) obtain suf where
    suf: "suf = map g [19..<68]" and p2: "wfspkt_set_raps (packet broadcast_mac d 0xC2 WFSID_ALL [] (0 # suf)) = Inr (opt, skb_buf skb)"
    by auto
  have sp: "0 # suf = [0, g 19] @ [g 20, g 21] @ g 22 # map g [23..<68]"
    by (simp add: suf upt_conv_Cons)
  have m: "length broadcast_mac = 6" by (simp add: broadcast_mac_def)
  have opt: "opt = 18" and skb: "skb_buf skb =
    packet broadcast_mac d 0xC2 WFSID_ALL [(WFSOPT_RAPS, [g 20, g 21])] (0 # map g [23..<68])"
    using p2 set_raps_packet[OF m assms(2), where old = "[0, g 19]" and os = "[]" and ty = "0xC2" and dest = WFSID_ALL and x = "g 20" and
      y = "g 21" and e = "g 22" and suf = "map g [23..<68]"] unfolding sp by simp_all
  let ?h = "hdr broadcast_mac d 0xC2 WFSID_ALL @ 22 # [3, 4]" and ?e = "[g 21] @ 0 # map g [23..<68]"
  have h: "skb_buf skb = ?h @ [g 20] @ ?e" unfolding skb packet_def by simp
  have l: "18 + 2 = length ?h" "length (?h @ [x]) = 18 + 3" for x using m assms(2) by (simp_all add: length_hdr)
  have p: "p = ?h @ [WFSOPT_RAPS_REQ_SF] @ ?e"
    using wr_append[OF l(1), of "[g 20]" "[WFSOPT_RAPS_REQ_SF]" ?e] assms(4)
    unfolding opt wfspkt_set_raps_sf_def h by simp
  moreover have "rd (18 + 2) (?h @ [WFSOPT_RAPS_REQ_SF] @ ?e) = Inr WFSOPT_RAPS_REQ_SF"
    using rd_append[OF l(1)] by simp
  moreover have "rd (18 + 3) ((?h @ [WFSOPT_RAPS_REQ_SF]) @ ?e) = Inr (g 21)"
    using rd_append[OF l(2)[symmetric]] by simp
  moreover have "opts_of p [(WFSOPT_RAPS, [WFSOPT_RAPS_REQ_SF, g 21])]"
    using packet_opts[OF m assms(2), of "[(WFSOPT_RAPS, [WFSOPT_RAPS_REQ_SF, g 21])]" "0xC2" WFSID_ALL "0 # map g [23..<68]"]
    unfolding p by (simp add: packet_def)
  ultimately show ?thesis using getopt_opts unfolding opt by simp
qed

theorem raps_status_garbage_witness:
  "\<exists>skb d1 p. getWfsRapsPkt (demo\<lparr>skb_alloc := \<lambda>_. Some of_nat\<rparr>) = Inr (Some (skb, 18), d1) \<and>
     wfspkt_set_raps_sf 18 (skb_buf skb) = Inr p \<and> rd 21 p = Inr 21"
proof -
  let ?d = "demo\<lparr>skb_alloc := \<lambda>_. Some of_nat\<rparr>"
  have "succeeds (\<lambda>(r, d1). case r of None \<Rightarrow> False | Some (skb, opt) \<Rightarrow>
      opt = 18 \<and> succeeds (\<lambda>_. True) (wfspkt_set_raps_sf opt (skb_buf skb))) (getWfsRapsPkt ?d)"
    by code_simp
  then obtain skb d1 p where r: "getWfsRapsPkt ?d = Inr (Some (skb, 18), d1)" "wfspkt_set_raps_sf 18 (skb_buf skb) = Inr p"
    by (auto simp: succeeds_iff split: option.splits)
  have "macs_ok ?d" using demo_macs_ok by (simp add: macs_ok_def)
  from raps_status_garbage[OF r(1) this, of of_nat p] r show ?thesis by simp
qed

text \<open>
  \<open>wfspkt_getopt\<close> on a well-formed packet: it returns the offset of the first option of the
  requested type, and nothing exactly when the packet has no such option.
\<close>

theorem getopt_finds_first:
  assumes "opts_of p os"
  shows "wfspkt_getopt p ty = Inr (if ty \<in> fst ` set os
    then Some (18 + length (enc_opts (takeWhile (\<lambda>(t, v). t \<noteq> ty) os))) else None)"
  by (rule getopt_opts[OF assms])

definition demo_opts :: "opt list" where
  "demo_opts = [(WFSOPT_SEQUENCE, [0, 0, 0, 1]), (WFSOPT_RAPS, [WFSOPT_RAPS_REQ_SF, 1])]"

theorem getopt_finds_first_witness:
  "wfspkt_getopt (packet broadcast_mac demo 0xC2 0xff demo_opts [0, 9, 9]) WFSOPT_RAPS = Inr (Some 24) \<and>
   wfspkt_getopt (packet broadcast_mac demo 0xC2 0xff demo_opts [0, 9, 9]) WFSOPT_BERT = Inr None"
proof -
  have "opts_of (packet broadcast_mac demo 0xC2 0xff demo_opts [0, 9, 9]) demo_opts"
    by (rule packet_opts) (simp_all add: demo_opts_def broadcast_mac_def demo_macs_ok)
  from getopt_finds_first[OF this, of WFSOPT_RAPS] getopt_finds_first[OF this, of WFSOPT_BERT]
  show ?thesis by (simp add: demo_opts_def)
qed

lemma getopt_loop_stuck:
  assumes "getopt_loop p ty len off = Some r" "0 < len" "off + 1 < length p" "p ! off \<noteq> ty" "p ! (off + 1) = 0"
  shows False
proof -
  have "\<not> (0 < len \<and> off + 1 < length p \<and> p ! off \<noteq> ty \<and> p ! (off + 1) = 0)"
    if "getopt_loop p ty len off = Some r" for p ty len off r
    using that
  proof (induction p ty len off r rule: getopt_loop.raw_induct)
    case (1 f p ty len off r)
    show ?case using 1(1)[of p ty len off r] 1(2,3) by (auto split: if_splits)
  qed (rule that)
  with assms show False by blast
qed

text \<open>
  C10. A malformed option with length byte 0 in front of the requested option: \<open>wfspkt_getopt\<close>
  never returns. The length byte is taken from the received packet without a check.
\<close>

theorem getopt_hangs:
  assumes "19 < length p" "18 < unat (p ! 17)" "p ! 18 \<noteq> ty" "p ! 19 = 0"
  shows "wfspkt_getopt p ty = Inl NoReturn"
proof -
  have "0 < uint (p ! 17) - 18" using assms(2) uint_nat[of "p ! 17"] by linarith
  moreover have "18 + 1 < length p" "p ! (18 + 1) = 0" using assms(1,4) by simp_all
  ultimately have "getopt_loop p ty (uint (p ! 17) - 18) 18 = None"
    using getopt_loop_stuck[of p ty "uint (p ! 17) - 18" 18] assms(3) by (metis not_None_eq)
  with assms(1) show ?thesis by (simp add: wfspkt_getopt_def rd_def)
qed

theorem getopt_hangs_witness:
  "wfspkt_getopt ((packet broadcast_mac demo 0xC1 0xff [] [9, 0, 0])[17 := 24]) WFSOPT_ANNOUNCE = Inl NoReturn"
  by (rule getopt_hangs) code_simp+

end
