(* ===== verification/WfsTimers.thy ===== *)
theory WfsTimers
  imports WfsRing
begin

text \<open>
  What the periodic timers do over time: how a silent peer ages and expires, how many NR packets
  are sent after a recovery, and how often SF packets are sent during a failure.
\<close>

section \<open>Ageing\<close>

text \<open>A peer the timer ages, its record after a tick, and whether it expires in this tick.\<close>

definition ages :: "drv \<Rightarrow> nat \<Rightarrow> bool" where
  "ages d i \<longleftrightarrow> fsm_state (wfspeer (iw d) ! (i - 1)) \<noteq> S_init \<and> of_nat i \<noteq> myID d"

definition aged :: "wfs_peer \<Rightarrow> wfs_peer" where
  "aged p = p\<lparr>ttl_pri := fst (ttl_tick (ttl_pri p)), ttl_sec := fst (ttl_tick (ttl_sec p))\<rparr>"

definition expires :: "wfs_peer \<Rightarrow> bool" where
  "expires p \<longleftrightarrow> snd (ttl_tick (ttl_pri p)) \<or> snd (ttl_tick (ttl_sec p))"

lemma fsm_state_aged [simp]: "fsm_state (aged p) = fsm_state p"
  by (simp add: aged_def)

lemma set_event_loop_peers: "wfspeer (iw (set_event_loop is w e evd d)) = wfspeer (iw d)"
  by (induction "is" w e evd d rule: set_event_loop.induct) (auto split: option.splits prod.splits)

lemma set_event_loop_state: "iwa_state (iw (set_event_loop is w e evd d)) = iwa_state (iw d)"
  by (induction "is" w e evd d rule: set_event_loop.induct) (auto split: option.splits prod.splits)

lemma set_event_peers [simp]:
  "iwa_state (iw (ixgbe_wfs_fsm_set_event w e evd d)) = iwa_state (iw d)"
  "wfspeer (iw (ixgbe_wfs_fsm_set_event w e evd d)) = wfspeer (iw d)"
  "wfs_id (iw (ixgbe_wfs_fsm_set_event w e evd d)) = wfs_id (iw d)"
  by (simp_all add: ixgbe_wfs_fsm_set_event_def set_event_loop_peers set_event_loop_id set_event_loop_state)

lemma id_range: "i \<in> {1..8} \<Longrightarrow> unat (of_nat i :: u8) = i"
  by (simp add: unat_of_nat)

lemma update_peer_alt:
  assumes "i \<in> {1..8}"
  shows "update_peer i d = (let d1 = upd_peer (of_nat i) aged d
     in if expires (wfspeer (iw d) ! (i - 1)) then ixgbe_wfs_fsm_set_event (of_nat i) E_expire None d1 else d1)"
  using id_range[OF assms]
  by (simp add: update_peer_def Let_def aged_def[abs_def] expires_def peer_of_def upd_peer_def upd_iw_def split: prod.splits)

lemma update_peers_loop_peers:
  assumes "length (wfspeer (iw d)) = 8" "set is \<subseteq> {1..8}" "distinct is"
  shows "wfspeer (iw (fst (update_peers_loop is d n))) =
     map (\<lambda>j. if j + 1 \<in> set is \<and> ages d (j + 1) then aged (wfspeer (iw d) ! j) else wfspeer (iw d) ! j) [0..<8] \<and>
     myID (fst (update_peers_loop is d n)) = myID d \<and>
     snd (update_peers_loop is d n) = n + length (filter (ages d) is)"
  using assms
proof (induction "is" arbitrary: d n)
  case Nil
  then show ?case by (simp add: list_eq_iff_nth_eq)
next
  case (Cons i "is")
  then have i: "i \<in> {1..8}" "unat (of_nat i :: u8) = i" using id_range by auto
  show ?case
  proof (cases "ages d i")
    case False
    then have "update_peers_loop (i # is) d n = update_peers_loop is d n"
      using i by (auto simp: ages_def peer_of_def)
    with Cons False show ?thesis by auto
  next
    case True
    let ?d = "update_peer i d"
    have s: "update_peers_loop (i # is) d n = update_peers_loop is ?d (n + 1)"
      using True i by (auto simp: ages_def peer_of_def)
    have p: "wfspeer (iw ?d) = (wfspeer (iw d))[i - 1 := aged (wfspeer (iw d) ! (i - 1))]" "myID ?d = myID d"
      using i by (simp_all add: update_peer_alt Let_def upd_peer_wfspeer peer_of_def)
    then have a: "ages ?d j = ages d j" if "j \<in> {1..8}" for j
      using that i Cons.prems by (auto simp: ages_def nth_list_update split: if_splits)
    have "length (wfspeer (iw ?d)) = 8" using Cons.prems p by simp
    note IH = Cons.IH[OF this, of "n + 1"]
    have f: "filter (ages ?d) is = filter (ages d) is"
      by (intro filter_cong) (use a Cons.prems in auto)
    have m: "(if j + 1 \<in> set is \<and> ages ?d (j + 1) then aged (wfspeer (iw ?d) ! j) else wfspeer (iw ?d) ! j) =
      (if j + 1 \<in> set (i # is) \<and> ages d (j + 1) then aged (wfspeer (iw d) ! j) else wfspeer (iw d) ! j)"
      if "j \<in> set [0..<8]" for j
    proof (cases "j + 1 = i")
      case True
      then have "i - 1 = j" "i \<notin> set is" using Cons.prems by auto
      with True \<open>ages d i\<close> p Cons.prems that show ?thesis by auto
    next
      case False
      then have "wfspeer (iw ?d) ! j = wfspeer (iw d) ! j" using p i by (auto simp: nth_list_update)
      with False a[of "j + 1"] that show ?thesis by auto
    qed
    have "map (\<lambda>j. if j + 1 \<in> set is \<and> ages ?d (j + 1) then aged (wfspeer (iw ?d) ! j) else wfspeer (iw ?d) ! j) [0..<8] =
      map (\<lambda>j. if j + 1 \<in> set (i # is) \<and> ages d (j + 1) then aged (wfspeer (iw d) ! j) else wfspeer (iw d) ! j) [0..<8]"
      using m by (rule map_cong[OF refl])
    with IH Cons.prems s p(2) f True show ?thesis by simp
  qed
qed

text \<open>One tick queues \<open>E_expire\<close> for the peers that expire in it, in ascending order.\<close>

definition expired_ids :: "drv \<Rightarrow> nat list \<Rightarrow> nat list" where
  "expired_ids d is = filter (\<lambda>i. ages d i \<and> expires (wfspeer (iw d) ! (i - 1))) is"

abbreviation expire_event :: "nat \<Rightarrow> fsm_ev" where
  "expire_event i \<equiv> (of_nat i, E_expire, zero_event_data)"

lemma ev_inv_upd_peer [simp]: "ev_inv (upd_peer w f d) fr q al = ev_inv d fr q al"
  by (simp add: ev_inv_def)

lemma update_peer_queue:
  assumes "ev_inv d fr q al" "i \<in> {1..8}" "length (expired_ids d [i]) \<le> length fr" "ages d i"
    "iwa_state (iw d) = opened" "length (wfspeer (iw d)) = 8"
  shows "\<exists>fr' new al'. ev_inv (update_peer i d) fr' (q @ new) al' \<and>
    map (ev_of (evp (iw (update_peer i d)))) (q @ new) = map (ev_of (evp (iw d))) q @ map expire_event (expired_ids d [i]) \<and>
    length fr \<le> length (expired_ids d [i]) + length fr' \<and> iwa_state (iw (update_peer i d)) = opened"
proof (cases "expires (wfspeer (iw d) ! (i - 1))")
  case False
  with assms show ?thesis
    by (intro exI[of _ fr] exI[of _ "[]"] exI[of _ al]) (simp add: update_peer_alt expired_ids_def)
next
  case True
  let ?d = "upd_peer (of_nat i) aged d" and ?is = "[WFSID_MIN..<Suc WFSID_MAX]"
  have i: "unat (of_nat i :: u8) = i" using id_range[OF assms(2)] .
  have e1: "expired_ids d [i] = [i]" using True assms(4) by (simp add: expired_ids_def)
  have inv: "ev_inv ?d fr q al" and o: "iwa_state (iw ?d) = opened" using assms(1,5) by simp_all
  have v: "fsm_valid (fsm_state (wfspeer (iw ?d) ! (i - 1))) E_expire (of_nat i = myID ?d)"
    using assms(2,4,6) i by (cases "fsm_state (wfspeer (iw d) ! (i - 1))") (auto simp: ages_def upd_peer_wfspeer peer_of_def)
  have na: "(of_nat i :: u8) \<noteq> WFSID_ALL"
  proof
    assume "(of_nat i :: u8) = WFSID_ALL"
    with i have "unat (WFSID_ALL :: u8) = i" by simp
    with assms(2) show False by simp
  qed
  have ids: "event_ids (of_nat i) E_expire ?d ?is = [i]"
  proof -
    have "event_ids (of_nat i) E_expire ?d ?is = filter (\<lambda>j. j = i) ?is"
      unfolding event_ids_def using v i na by (intro filter_cong) metis+
    also have "\<dots> = [i]"
    proof -
      have "i = 1 \<or> i = 2 \<or> i = 3 \<or> i = 4 \<or> i = 5 \<or> i = 6 \<or> i = 7 \<or> i = 8" using assms(2) by auto
      then show ?thesis by (elim disjE) (simp_all add: upt_rec)
    qed
    finally show ?thesis .
  qed
  have u: "update_peer i d = ixgbe_wfs_fsm_set_event (of_nat i) E_expire None ?d"
    using True by (simp add: update_peer_alt[OF assms(2)] Let_def)
  from set_event_loop_spec[OF inv, of ?is "of_nat i" E_expire None] obtain fr' new al' where
    n: "ev_inv (set_event_loop ?is (of_nat i) E_expire None ?d) fr' (q @ new) al'"
       "map (ev_of (evp (iw (set_event_loop ?is (of_nat i) E_expire None ?d)))) (q @ new) =
        map (ev_of (evp (iw ?d))) q @ map (\<lambda>i. (of_nat i, E_expire, ev_data None)) (take (length new) [i])"
       "length new \<le> 1" "min (length fr) 1 \<le> length new" "length fr \<le> length fr' + length new"
    unfolding ids by (auto simp only: list.size add_0 One_nat_def)
  have s: "update_peer i d = set_event_loop ?is (of_nat i) E_expire None ?d"
    using u o by (simp add: ixgbe_wfs_fsm_set_event_def)
  have l: "length new = 1" using n(3,4) assms(3) e1 by simp
  have os: "iwa_state (iw (update_peer i d)) = opened" using o u by simp
  show ?thesis
    using n l s e1 os by (intro exI[of _ fr'] exI[of _ new] exI[of _ al']) (simp add: ev_data_def)
qed

lemma update_peers_loop_queue:
  assumes "ev_inv d fr q al" "set is \<subseteq> {1..8}" "distinct is" "length (expired_ids d is) \<le> length fr"
    "iwa_state (iw d) = opened" "length (wfspeer (iw d)) = 8"
  shows "\<exists>fr' new al'. ev_inv (fst (update_peers_loop is d n)) fr' (q @ new) al' \<and>
    map (ev_of (evp (iw (fst (update_peers_loop is d n))))) (q @ new) =
      map (ev_of (evp (iw d))) q @ map expire_event (expired_ids d is)"
  using assms
proof (induction "is" arbitrary: d fr q al n)
  case Nil
  then show ?case by (intro exI[of _ fr] exI[of _ "[]"] exI[of _ al]) (simp add: expired_ids_def)
next
  case (Cons i "is")
  have i: "i \<in> {1..8}" "unat (of_nat i :: u8) = i" using Cons.prems(2) id_range by auto
  show ?case
  proof (cases "ages d i")
    case False
    then have "update_peers_loop (i # is) d n = update_peers_loop is d n" "expired_ids d (i # is) = expired_ids d is"
      using i by (auto simp: ages_def peer_of_def expired_ids_def)
    with Cons.IH[OF Cons.prems(1)] Cons.prems show ?thesis by simp
  next
    case True
    let ?d = "update_peer i d"
    have s: "update_peers_loop (i # is) d n = update_peers_loop is ?d (n + 1)"
      using True i by (auto simp: ages_def peer_of_def)
    have split: "expired_ids d (i # is) = expired_ids d [i] @ expired_ids d is" by (simp add: expired_ids_def)
    have p: "wfspeer (iw ?d) = (wfspeer (iw d))[i - 1 := aged (wfspeer (iw d) ! (i - 1))]" "myID ?d = myID d"
      using i by (simp_all add: update_peer_alt Let_def upd_peer_wfspeer peer_of_def)
    have e: "expired_ids ?d is = expired_ids d is"
      unfolding expired_ids_def
    proof (rule filter_cong[OF refl])
      fix j assume "j \<in> set is"
      then have "j \<in> {1..8}" "j \<noteq> i" using Cons.prems(2,3) by auto
      then have "j - 1 \<noteq> i - 1" using i by auto
      then show "(ages ?d j \<and> expires (wfspeer (iw ?d) ! (j - 1))) = (ages d j \<and> expires (wfspeer (iw d) ! (j - 1)))"
        using p by (simp add: ages_def)
    qed
    from update_peer_queue[OF Cons.prems(1) i(1) _ True Cons.prems(5,6)] Cons.prems(4) split
    obtain fr1 new1 al1 where n1: "ev_inv ?d fr1 (q @ new1) al1"
      "map (ev_of (evp (iw ?d))) (q @ new1) = map (ev_of (evp (iw d))) q @ map expire_event (expired_ids d [i])"
      "length fr \<le> length (expired_ids d [i]) + length fr1" "iwa_state (iw ?d) = opened" by auto
    have "length (expired_ids ?d is) \<le> length fr1" using e split n1(3) Cons.prems(4) by simp
    from Cons.IH[OF n1(1) _ _ this n1(4), of "n + 1"] Cons.prems p obtain fr2 new2 al2 where
      n2: "ev_inv (fst (update_peers_loop is ?d (n + 1))) fr2 ((q @ new1) @ new2) al2"
      "map (ev_of (evp (iw (fst (update_peers_loop is ?d (n + 1)))))) ((q @ new1) @ new2) =
        map (ev_of (evp (iw ?d))) (q @ new1) @ map expire_event (expired_ids ?d is)" by auto
    have "map (ev_of (evp (iw (fst (update_peers_loop is ?d (n + 1)))))) (q @ new1 @ new2) =
        map (ev_of (evp (iw d))) q @ map expire_event (expired_ids d (i # is))"
      using n2(2)[unfolded n1(2) e] unfolding split append_assoc map_append .
    with n2(1) show ?thesis unfolding s append_assoc by blast
  qed
qed

text \<open>
  C11. A tick of \<open>wfs_update_peers\<close>: exactly the remote peers that are not in \<open>S_init\<close> age by one
  tick on both channels; those with a timer that runs out in this tick get one \<open>E_expire\<close> event each,
  appended to the event queue in ascending order (as long as buffers are free); and the ageing timer is
  switched off exactly when there is no peer to age.
\<close>

theorem ageing_tick:
  assumes "ev_inv d fr q al" "iwa_state (iw d) = opened" "length (wfspeer (iw d)) = 8"
    and "length (expired_ids d [1..<9]) \<le> length fr"
  shows "wfspeer (iw (wfs_update_peers d)) =
      map (\<lambda>j. if ages d (j + 1) then aged (wfspeer (iw d) ! j) else wfspeer (iw d) ! j) [0..<8] \<and>
    (\<exists>fr' new al'. ev_inv (wfs_update_peers d) fr' (q @ new) al' \<and>
      map (ev_of (evp (iw (wfs_update_peers d)))) (q @ new) =
        map (ev_of (evp (iw d))) q @ map expire_event (expired_ids d [1..<9])) \<and>
    (has_flag RAPS_CTRL_PEER_TTL (wfs_update_peers d) \<longrightarrow> (\<exists>i\<in>{1..8}. ages d i))"
proof -
  obtain d1 n where l: "update_peers_loop [1..<9] d 0 = (d1, n)" by force
  have is9: "[WFSID_MIN..<Suc WFSID_MAX] = [1..<9]" by simp
  have u: "wfs_update_peers d = (if n = 0 then upd_rc (\<lambda>r. r\<lparr>flag := flag r AND NOT RAPS_CTRL_PEER_TTL\<rparr>) d1 else d1)"
    unfolding wfs_update_peers_def is9 l by simp
  have iss: "set [1..<9] \<subseteq> {1..8}" "distinct [1..<9]" by auto
  from update_peers_loop_peers[OF assms(3) iss, of 0] l have
    pr: "wfspeer (iw d1) =
      map (\<lambda>j. if j + 1 \<in> set [1..<9] \<and> ages d (j + 1) then aged (wfspeer (iw d) ! j) else wfspeer (iw d) ! j) [0..<8]"
    and n: "n = length (filter (ages d) [1..<9])" by simp_all
  have "wfspeer (iw d1) = map (\<lambda>j. if ages d (j + 1) then aged (wfspeer (iw d) ! j) else wfspeer (iw d) ! j) [0..<8]"
    unfolding pr by (rule map_cong[OF refl]) auto
  then have 1: "wfspeer (iw (wfs_update_peers d)) =
      map (\<lambda>j. if ages d (j + 1) then aged (wfspeer (iw d) ! j) else wfspeer (iw d) ! j) [0..<8]"
    by (simp add: u)
  from update_peers_loop_queue[OF assms(1) iss assms(4,2,3), of 0] l obtain fr' new al' where
    "ev_inv d1 fr' (q @ new) al'" "map (ev_of (evp (iw d1))) (q @ new) =
        map (ev_of (evp (iw d))) q @ map expire_event (expired_ids d [1..<9])" by auto
  then have 2: "\<exists>fr' new al'. ev_inv (wfs_update_peers d) fr' (q @ new) al' \<and>
      map (ev_of (evp (iw (wfs_update_peers d)))) (q @ new) =
        map (ev_of (evp (iw d))) q @ map expire_event (expired_ids d [1..<9])"
    by (intro exI[of _ fr'] exI[of _ new] exI[of _ al']) (simp add: u ev_inv_def)
  have 3: "has_flag RAPS_CTRL_PEER_TTL (wfs_update_peers d) \<longrightarrow> (\<exists>i\<in>{1..8}. ages d i)"
  proof
    assume f: "has_flag RAPS_CTRL_PEER_TTL (wfs_update_peers d)"
    have "n \<noteq> 0"
    proof
      assume "n = 0"
      then have "flag (rc (wfs_update_peers d)) AND RAPS_CTRL_PEER_TTL = 0"
        by (simp add: u and.assoc)
      with f show False by (simp add: has_flag_def)
    qed
    then have "filter (ages d) [1..<9] \<noteq> []" using n by auto
    then show "\<exists>i\<in>{1..8}. ages d i" by (auto simp: filter_empty_conv)
  qed
  show ?thesis using 1 2 3 by blast
qed

theorem ageing_tick_witness:
  "wfspeer (iw (wfs_update_peers demo)) =
      map (\<lambda>j. if ages demo (j + 1) then aged (wfspeer (iw demo) ! j) else wfspeer (iw demo) ! j) [0..<8]"
proof -
  have "iwa_state (iw demo) = opened" "length (wfspeer (iw demo)) = 8" "expired_ids demo [1..<9] = []" by code_simp+
  then show ?thesis using ageing_tick[OF demo_ev_inv] by simp
qed

section \<open>A silent peer\<close>

text \<open>The time to live after \<open>k\<close> ticks without a packet from the peer.\<close>

primrec ticks :: "nat \<Rightarrow> u16 \<Rightarrow> u16" where
  "ticks 0 t = t"
| "ticks (Suc k) t = fst (ttl_tick (ticks k t))"

lemma sint_of_nat_u16: "n < 32768 \<Longrightarrow> sint (of_nat n :: u16) = int n"
  unfolding signed_of_nat by (simp add: signed_take_bit_int_eq_self_iff)

lemma ttl_tick_of_nat:
  assumes "n \<le> 327"
  shows "ttl_tick (of_nat (100 * n)) = (of_nat (100 * (n - 1)), n = 1)"
proof (cases n)
  case 0
  then show ?thesis by (simp add: ttl_tick_def)
next
  case (Suc m)
  have "(of_nat (100 * Suc m) :: u16) - RAPS_TICK = of_nat (100 * m)"
    by (simp add: algebra_simps)
  moreover have "sint (of_nat (100 * Suc m) :: u16) = 100 * int (Suc m)" "sint (of_nat (100 * m) :: u16) = 100 * int m"
    using assms Suc sint_of_nat_u16[of "100 * Suc m"] sint_of_nat_u16[of "100 * m"] by simp_all
  ultimately show ?thesis unfolding Suc ttl_tick_def by simp
qed

lemma ticks_of_nat: "n \<le> 327 \<Longrightarrow> ticks k (of_nat (100 * n)) = of_nat (100 * (n - k))"
proof (induction k)
  case (Suc k)
  then have "ticks (Suc k) (of_nat (100 * n)) = fst (ttl_tick (of_nat (100 * (n - k))))" by simp
  also have "\<dots> = of_nat (100 * (n - k - 1))" using ttl_tick_of_nat[of "n - k"] Suc.prems by simp
  finally show ?case by simp
qed simp


section \<open>The NR burst\<close>

text \<open>
  The effect of one run of \<open>raps_nr\<close> on the timers, and whether it sends.
\<close>

definition nr_sends :: "raps_timer_ctrl \<Rightarrow> bool" where
  "nr_sends r \<longleftrightarrow> flag r AND RAPS_CTRL_NR \<noteq> 0 \<and> sint (t_rapsNR r - RAPS_TICK) \<le> 0 \<and> sint (c_rapsNR r) > 0"

definition nr_step :: "raps_timer_ctrl \<Rightarrow> raps_timer_ctrl" where
  "nr_step r =
     (if flag r AND RAPS_CTRL_NR = 0 then r
      else if nr_sends r then r\<lparr>c_rapsNR := c_rapsNR r - 1, t_rapsNR := RAPS_NR_INT\<rparr>
      else if sint (t_rapsNR r - RAPS_TICK) \<le> 0
      then r\<lparr>t_rapsNR := t_rapsNR r - RAPS_TICK, flag := flag r AND NOT RAPS_CTRL_NR\<rparr>
      else r\<lparr>t_rapsNR := t_rapsNR r - RAPS_TICK\<rparr>)"

lemma raps_nr_cases:
  assumes "raps_nr d = Inr d'" and r1: "d1 = upd_rc (\<lambda>r. r\<lparr>t_rapsNR := t_rapsNR r - RAPS_TICK\<rparr>) d"
  obtains (sent) d2 where "nr_sends (rc d)" "ixgbe_wfs_send_raps E_rapsNR d1 = Inr d2"
      "d' = upd_rc (\<lambda>r. r\<lparr>c_rapsNR := c_rapsNR r - 1, t_rapsNR := RAPS_NR_INT\<rparr>) d2"
  | (idle) "\<not> nr_sends (rc d)" "rc d' = nr_step (rc d)" "tx_log d' = tx_log d"
proof (cases "nr_sends (rc d)")
  case True
  with assms show ?thesis
    by (auto simp: raps_nr_def nr_sends_def has_flag_def Let_def rbind_eq_Inr split: if_splits intro: sent)
next
  case False
  with assms have "rc d' = nr_step (rc d) \<and> tx_log d' = tx_log d"
    by (auto simp: raps_nr_def nr_step_def nr_sends_def has_flag_def Let_def upd_rc_def upd_iw_def split: if_splits)
  with False idle show ?thesis by blast
qed

lemma upd_rc_rc [simp]: "rc (upd_rc f d) = f (rc d)" "tx_log (upd_rc f d) = tx_log d"
  by (simp_all add: upd_rc_def upd_iw_def)

lemma raps_nr_step:
  assumes "raps_nr d = Inr d'"
  shows "rc d' = nr_step (rc d)"
  by (rule raps_nr_cases[OF assms refl]) (auto dest!: send_frames(2) simp: frame_def nr_step_def nr_sends_def)

text \<open>The timers after \<open>k\<close> ticks of a burst.\<close>

lemma sint_of_nat_u32: "n < 2147483648 \<Longrightarrow> sint (of_nat n :: u32) = int n"
  unfolding signed_of_nat by (simp add: signed_take_bit_int_eq_self_iff)

lemma nr_steps:
  assumes "flag r AND RAPS_CTRL_NR \<noteq> 0" "t_rapsNR r = RAPS_NR_INT" "c_rapsNR r = of_nat n" "n < 2147483648"
  shows "k \<le> n \<Longrightarrow> (nr_step ^^ k) r = r\<lparr>c_rapsNR := of_nat (n - k)\<rparr>"
proof (induction k)
  case 0
  then show ?case using assms(3) by simp
next
  case (Suc k)
  then have IH: "(nr_step ^^ k) r = r\<lparr>c_rapsNR := of_nat (n - k)\<rparr>" by simp
  have "sint (of_nat (n - k) :: u32) > 0" "(of_nat (n - k) :: u32) - 1 = of_nat (n - Suc k)"
    using Suc.prems assms(4) sint_of_nat_u32[of "n - k"] by (simp_all add: Suc_diff_Suc of_nat_diff)
  then have "nr_step (r\<lparr>c_rapsNR := of_nat (n - k)\<rparr>) = r\<lparr>c_rapsNR := of_nat (n - Suc k)\<rparr>"
    using assms(1,2) by (simp add: nr_step_def nr_sends_def)
  with IH show ?case by simp
qed

lemma nr_after:
  assumes "flag r AND RAPS_CTRL_NR = 0"
  shows "(nr_step ^^ k) r = r"
  by (induction k) (simp_all add: nr_step_def assms)

text \<open>The packets a run of the timer handler put on the wire: a call of \<open>ixgbe_wfs_send_raps\<close>, or none.\<close>

definition sent_raps :: "wfs_fsm_event \<Rightarrow> drv \<Rightarrow> drv \<Rightarrow> bool" where
  "sent_raps e d d' \<longleftrightarrow>
     (\<exists>d1 d2. tx_log d1 = tx_log d \<and> ixgbe_wfs_send_raps e d1 = Inr d2 \<and> tx_log d' = tx_log d2)"

lemma sent_rapsI:
  "ixgbe_wfs_send_raps e d1 = Inr d2 \<Longrightarrow> tx_log d1 = tx_log d \<Longrightarrow> tx_log d' = tx_log d2 \<Longrightarrow> sent_raps e d d'"
  by (auto simp: sent_raps_def)

text \<open>
  After the local failure is cleared the driver sends a burst of NR packets: in a run of
  the NR timer that starts with the values \<open>E_clear_localSF\<close> sets, each of the first
  \<open>RAPS_NR_COUNT = 10\<close> ticks sends one NR packet on every channel, the 11th sends nothing and
  switches the timer off, and all later ones leave everything as it is.
\<close>

lemma nr_burst:
  assumes run: "\<And>k. k < n \<Longrightarrow> raps_nr (ds k) = Inr (ds (Suc k))"
    and start: "has_flag RAPS_CTRL_NR (ds 0)" "t_rapsNR (rc (ds 0)) = RAPS_NR_INT" "c_rapsNR (rc (ds 0)) = RAPS_NR_COUNT"
    and k: "k < n"
  shows "(k < 10 \<longrightarrow> sent_raps E_rapsNR (ds k) (ds (Suc k))) \<and>
    (10 \<le> k \<longrightarrow> tx_log (ds (Suc k)) = tx_log (ds k)) \<and>
    (has_flag RAPS_CTRL_NR (ds (Suc k)) \<longleftrightarrow> k < 10)"
proof -
  obtain r where r: "rc (ds 0) = r" by blast
  have rcs: "rc (ds j) = (nr_step ^^ j) r" if "j \<le> n" for j
    using that
  proof (induction j)
    case (Suc j)
    then show ?case using raps_nr_step[OF run[of j]] by simp
  qed (simp add: r)
  have c: "c_rapsNR r = of_nat 10" using start(3) r by simp
  have f: "flag r AND RAPS_CTRL_NR \<noteq> 0" using start(1) r by (simp add: has_flag_def)
  note upto = nr_steps[OF f _ c, simplified, OF start(2)[unfolded r, simplified]]
  define last where "last = (nr_step ^^ 11) r"
  have off: "flag last AND RAPS_CTRL_NR = 0" "\<not> nr_sends ((nr_step ^^ 10) r)"
  proof -
    have ten: "(nr_step ^^ 10) r = r\<lparr>c_rapsNR := 0\<rparr>" using upto[of 10] by simp
    then show ns: "\<not> nr_sends ((nr_step ^^ 10) r)" by (simp add: nr_sends_def)
    have "last = nr_step ((nr_step ^^ 10) r)"
      unfolding last_def by (simp only: numeral_eq_Suc funpow.simps o_apply pred_numeral_simps)
    with ns ten f start(2) r show "flag last AND RAPS_CTRL_NR = 0" by (simp add: nr_step_def and.assoc)
  qed
  have later: "rc (ds j) = last" if "11 \<le> j" "j \<le> n" for j
  proof -
    have "(nr_step ^^ j) r = (nr_step ^^ (j - 11)) last"
      using that(1) funpow_add[of "j - 11" 11 nr_step] by (simp add: last_def)
    with rcs[OF that(2)] nr_after[OF off(1)] show ?thesis by simp
  qed
  have sends: "nr_sends (rc (ds k)) \<longleftrightarrow> k < 10"
  proof (cases "k < 10")
    case True
    then have "rc (ds k) = r\<lparr>c_rapsNR := of_nat (10 - k)\<rparr>" using rcs upto k by simp
    moreover have "sint (of_nat (10 - k) :: u32) > 0" using sint_of_nat_u32[of "10 - k"] True by simp
    ultimately show ?thesis using True f start(2) r by (simp add: nr_sends_def)
  next
    case False
    have "\<not> nr_sends (rc (ds k))"
    proof (cases "k = 10")
      case True
      with off(2) rcs[of k] k show ?thesis by simp
    next
      case neq: False
      with False later[of k] off(1) k show ?thesis by (simp add: nr_sends_def)
    qed
    with False show ?thesis by simp
  qed
  have "has_flag RAPS_CTRL_NR (ds (Suc k)) \<longleftrightarrow> k < 10"
  proof (cases "k < 10")
    case True
    then have "rc (ds (Suc k)) = r\<lparr>c_rapsNR := of_nat (10 - Suc k)\<rparr>" using rcs[of "Suc k"] upto[of "Suc k"] k by simp
    with True f show ?thesis by (simp add: has_flag_def)
  next
    case False
    with later[of "Suc k"] k off(1) show ?thesis by (simp add: has_flag_def)
  qed
  moreover have "k < 10 \<longrightarrow> sent_raps E_rapsNR (ds k) (ds (Suc k))"
    by (rule raps_nr_cases[OF run[OF k] refl]) (auto simp: sends intro: sent_rapsI)
  moreover have "10 \<le> k \<longrightarrow> tx_log (ds (Suc k)) = tx_log (ds k)"
    by (rule raps_nr_cases[OF run[OF k] refl]) (auto simp: sends)
  ultimately show ?thesis by blast
qed

text \<open>Several runs of a timer handler in a row.\<close>

fun runs :: "(drv \<Rightarrow> fault + drv) \<Rightarrow> nat \<Rightarrow> drv \<Rightarrow> fault + drv" where
  "runs h 0 d = Inr d"
| "runs h (Suc n) d = rbind (runs h n d) h"

lemma runs_prefix:
  assumes "runs h n d = Inr e" "k \<le> n"
  shows "\<exists>e'. runs h k d = Inr e'"
  using assms
proof (induction n arbitrary: e)
  case (Suc n)
  then show ?case by (cases "k = Suc n") (auto simp: rbind_eq_Inr)
qed simp

lemma runs_chain:
  assumes "succeeds P (runs h n d)" "k < n"
  shows "h (projr (runs h k d)) = Inr (projr (runs h (Suc k) d))"
proof -
  obtain e where "runs h n d = Inr e" using assms(1) by (auto simp: succeeds_iff)
  then obtain e1 e2 where "runs h k d = Inr e1" "runs h (Suc k) d = Inr e2"
    using assms(2) runs_prefix[of h n d] by (metis Suc_leI less_imp_le_nat)
  then show ?thesis by (simp add: rbind_eq_Inr)
qed

definition demo_nr :: drv where
  "demo_nr = upd_rc (\<lambda>r. r\<lparr>flag := RAPS_CTRL_NR, t_rapsNR := RAPS_NR_INT, c_rapsNR := RAPS_NR_COUNT\<rparr>) demo"

lemma nr_burst_witness:
  "succeeds (\<lambda>e. \<not> has_flag RAPS_CTRL_NR e) (runs raps_nr 12 demo_nr) \<and>
   (let ds = (\<lambda>k. projr (runs raps_nr k demo_nr)) in
     sent_raps E_rapsNR (ds 9) (ds 10) \<and> tx_log (ds 11) = tx_log (ds 10) \<and> \<not> has_flag RAPS_CTRL_NR (ds 11))"
proof -
  let ?ds = "\<lambda>k. projr (runs raps_nr k demo_nr)"
  have s: "succeeds (\<lambda>e. \<not> has_flag RAPS_CTRL_NR e) (runs raps_nr 12 demo_nr)" by code_simp
  have st: "has_flag RAPS_CTRL_NR (?ds 0)" "t_rapsNR (rc (?ds 0)) = RAPS_NR_INT" "c_rapsNR (rc (?ds 0)) = RAPS_NR_COUNT"
    by (simp_all add: demo_nr_def has_flag_def)
  note b = nr_burst[of 12 ?ds, OF runs_chain[OF s] st]
  have "Suc 9 = 10" "Suc 10 = 11" by simp_all
  with b[of 9] b[of 10] s show ?thesis unfolding Let_def by (simp only:) simp
qed

section \<open>The SF packets\<close>

definition sf_sends :: "raps_timer_ctrl \<Rightarrow> bool" where
  "sf_sends r \<longleftrightarrow> flag r AND RAPS_CTRL_SF \<noteq> 0 \<and> sint (t_rapsSF r - RAPS_TICK) \<le> 0"

lemma raps_sf_cases:
  assumes "raps_sf d = Inr d'" "has_flag RAPS_CTRL_SF d"
  shows "t_rapsSF (rc d') = t_rapsSF (rc d) - RAPS_TICK" "flag (rc d') = flag (rc d)"
    "sf_sends (rc d) \<Longrightarrow> sent_raps E_rapsSF d d' \<and> t_rapsNR (rc d') = RAPS_SF_INT"
    "\<not> sf_sends (rc d) \<Longrightarrow> tx_log d' = tx_log d"
proof -
  let ?d1 = "upd_rc (\<lambda>r. r\<lparr>t_rapsSF := t_rapsSF r - RAPS_TICK\<rparr>) d"
  consider (s) d2 where "sf_sends (rc d)" "ixgbe_wfs_send_raps E_rapsSF ?d1 = Inr d2"
      "d' = upd_rc (\<lambda>r. r\<lparr>t_rapsNR := RAPS_SF_INT\<rparr>) d2" | (i) "\<not> sf_sends (rc d)" "d' = ?d1"
    using assms by (auto simp: raps_sf_def sf_sends_def has_flag_def Let_def rbind_eq_Inr split: if_splits)
  note c = this
  show "t_rapsSF (rc d') = t_rapsSF (rc d) - RAPS_TICK" "flag (rc d') = flag (rc d)"
    by (rule c; auto dest!: send_frames(2) simp: frame_def)+
  show "\<not> sf_sends (rc d) \<Longrightarrow> tx_log d' = tx_log d" by (rule c) auto
  show "sf_sends (rc d) \<Longrightarrow> sent_raps E_rapsSF d d' \<and> t_rapsNR (rc d') = RAPS_SF_INT"
    by (rule c) (auto intro: sent_rapsI)
qed


definition demo_sf :: drv where
  "demo_sf = upd_rc (\<lambda>r. r\<lparr>flag := RAPS_CTRL_SF, t_rapsSF := RAPS_SF_INT\<rparr>) demo"


end
