(* ===== verification/Mbx.thy ===== *)
theory Mbx
  imports WfsPrelude
begin

text \<open>
  The mailbox between the physical function (PF) and the virtual functions (VF) of an adapter,
  \<open>ixgbe_mbx.c\<close>: polling, the PF and VF sides of checking, reading and writing, and the set-up
  of the operations. The device behind the registers is a parameter.
\<close>

section \<open>State\<close>

abbreviation IXGBE_ERR_MBX :: int where "IXGBE_ERR_MBX \<equiv> - 100"
abbreviation IXGBE_VFMAILBOX_SIZE :: "'a::len word" where "IXGBE_VFMAILBOX_SIZE \<equiv> 16"
abbreviation IXGBE_VF_MBX_INIT_DELAY :: u32 where "IXGBE_VF_MBX_INIT_DELAY \<equiv> 500"

abbreviation IXGBE_VFMAILBOX :: u32 where "IXGBE_VFMAILBOX \<equiv> 0x2FC"
abbreviation IXGBE_VFMBMEM :: u32 where "IXGBE_VFMBMEM \<equiv> 0x200"

abbreviation IXGBE_VFMAILBOX_REQ :: u32 where "IXGBE_VFMAILBOX_REQ \<equiv> 0x01"
abbreviation IXGBE_VFMAILBOX_ACK :: u32 where "IXGBE_VFMAILBOX_ACK \<equiv> 0x02"
abbreviation IXGBE_VFMAILBOX_VFU :: u32 where "IXGBE_VFMAILBOX_VFU \<equiv> 0x04"
abbreviation IXGBE_VFMAILBOX_PFSTS :: u32 where "IXGBE_VFMAILBOX_PFSTS \<equiv> 0x10"
abbreviation IXGBE_VFMAILBOX_PFACK :: u32 where "IXGBE_VFMAILBOX_PFACK \<equiv> 0x20"
abbreviation IXGBE_VFMAILBOX_RSTI :: u32 where "IXGBE_VFMAILBOX_RSTI \<equiv> 0x40"
abbreviation IXGBE_VFMAILBOX_RSTD :: u32 where "IXGBE_VFMAILBOX_RSTD \<equiv> 0x80"
abbreviation IXGBE_VFMAILBOX_R2C_BITS :: u32 where "IXGBE_VFMAILBOX_R2C_BITS \<equiv> 0xB0"
abbreviation IXGBE_PFMAILBOX_STS :: u32 where "IXGBE_PFMAILBOX_STS \<equiv> 0x01"
abbreviation IXGBE_PFMAILBOX_ACK :: u32 where "IXGBE_PFMAILBOX_ACK \<equiv> 0x02"
abbreviation IXGBE_PFMAILBOX_PFU :: u32 where "IXGBE_PFMAILBOX_PFU \<equiv> 0x08"
abbreviation IXGBE_MBVFICR_VFREQ_VF1 :: u32 where "IXGBE_MBVFICR_VFREQ_VF1 \<equiv> 0x1"
abbreviation IXGBE_MBVFICR_VFACK_VF1 :: u32 where "IXGBE_MBVFICR_VFACK_VF1 \<equiv> 0x10000"

definition IXGBE_PFMAILBOX :: "u16 \<Rightarrow> u32" where
  "IXGBE_PFMAILBOX i = 0x4B00 + 4 * ucast i"

definition IXGBE_PFMBMEM :: "u16 \<Rightarrow> u32" where
  "IXGBE_PFMBMEM i = 0x13000 + 64 * ucast i"

definition IXGBE_MBVFICR_INDEX :: "u16 \<Rightarrow> u32" where
  "IXGBE_MBVFICR_INDEX vf_number = ucast (drop_bit 4 vf_number)"

definition IXGBE_MBVFICR :: "u32 \<Rightarrow> u32" where
  "IXGBE_MBVFICR i = 0x710 + i * 4"

definition IXGBE_VFLRE :: "u32 \<Rightarrow> u32" where
  "IXGBE_VFLRE i = (if i AND 1 \<noteq> 0 then 0x1C0 else 0x600)"

definition IXGBE_VFLREC :: "u32 \<Rightarrow> u32" where
  "IXGBE_VFLREC i = 0x700 + i * 4"

datatype ixgbe_mac_type =
  ixgbe_mac_unknown | ixgbe_mac_82598EB | ixgbe_mac_82599EB | ixgbe_mac_X540 | ixgbe_num_macs

text \<open>
  A function pointer of \<open>struct ixgbe_mbx_operations\<close> is NULL or points to the PF or the VF
  version of the operation; the two \<open>posted\<close> pointers have one target only.
\<close>

datatype mbx_side = MBX_vf | MBX_pf

record ixgbe_mbx_operations =
  op_read :: "mbx_side option"
  op_write :: "mbx_side option"
  op_read_posted :: bool
  op_write_posted :: bool
  op_check_for_msg :: "mbx_side option"
  op_check_for_ack :: "mbx_side option"
  op_check_for_rst :: "mbx_side option"

record ixgbe_mbx_stats =
  msgs_tx :: u32
  msgs_rx :: u32
  acks :: u32
  reqs :: u32
  rsts :: u32

record ixgbe_mbx_info =
  ops :: ixgbe_mbx_operations
  stats :: ixgbe_mbx_stats
  timeout :: u32
  mbx_udelay :: u32
  v2p_mailbox :: u32
  mbx_size :: u16

text \<open>
  The part of \<open>struct ixgbe_hw\<close> the mailbox uses, with the state of the device behind \<open>hw_addr\<close>.
  A read may change the device (registers that clear on read), and so does time.
\<close>

record 'h ixgbe_hw =
  hw_dev :: 'h
  mac_type :: ixgbe_mac_type
  mbx :: ixgbe_mbx_info

record 'h device =
  dev_read :: "'h \<Rightarrow> u32 \<Rightarrow> u32 \<times> 'h"
  dev_write :: "'h \<Rightarrow> u32 \<Rightarrow> u32 \<Rightarrow> 'h"
  dev_delay :: "'h \<Rightarrow> u32 \<Rightarrow> 'h"

definition IXGBE_READ_REG :: "'h device \<Rightarrow> u32 \<Rightarrow> ('h, 'z) ixgbe_hw_scheme \<Rightarrow> u32 \<times> ('h, 'z) ixgbe_hw_scheme" where
  "IXGBE_READ_REG R a hw = (case dev_read R (hw_dev hw) a of (v, s) \<Rightarrow> (v, hw\<lparr>hw_dev := s\<rparr>))"

definition IXGBE_WRITE_REG :: "'h device \<Rightarrow> u32 \<Rightarrow> u32 \<Rightarrow> ('h, 'z) ixgbe_hw_scheme \<Rightarrow> ('h, 'z) ixgbe_hw_scheme" where
  "IXGBE_WRITE_REG R a v hw = hw\<lparr>hw_dev := dev_write R (hw_dev hw) a v\<rparr>"

definition reg_array :: "u32 \<Rightarrow> nat \<Rightarrow> u32" where
  "reg_array reg i = reg + push_bit 2 (of_nat i)"

text \<open>The loops that copy a message to or from the mailbox memory.\<close>

fun write_words :: "'h device \<Rightarrow> u32 \<Rightarrow> nat \<Rightarrow> u32 list \<Rightarrow> 'h ixgbe_hw \<Rightarrow> 'h ixgbe_hw" where
  "write_words R reg i [] hw = hw"
| "write_words R reg i (w # ws) hw = write_words R reg (Suc i) ws (IXGBE_WRITE_REG R (reg_array reg i) w hw)"

fun read_words :: "'h device \<Rightarrow> u32 \<Rightarrow> nat \<Rightarrow> nat \<Rightarrow> 'h ixgbe_hw \<Rightarrow> u32 list \<times> 'h ixgbe_hw" where
  "read_words R reg i 0 hw = ([], hw)"
| "read_words R reg i (Suc n) hw =
     (case IXGBE_READ_REG R (reg_array reg i) hw of
        (w, hw1) \<Rightarrow> (case read_words R reg (Suc i) n hw1 of (ws, hw2) \<Rightarrow> (w # ws, hw2)))"

definition upd_mbx :: "(ixgbe_mbx_info \<Rightarrow> ixgbe_mbx_info) \<Rightarrow> 'h ixgbe_hw \<Rightarrow> 'h ixgbe_hw" where
  "upd_mbx f hw = hw\<lparr>mbx := f (mbx hw)\<rparr>"

definition upd_stats :: "(ixgbe_mbx_stats \<Rightarrow> ixgbe_mbx_stats) \<Rightarrow> 'h ixgbe_hw \<Rightarrow> 'h ixgbe_hw" where
  "upd_stats f = upd_mbx (\<lambda>m. m\<lparr>stats := f (stats m)\<rparr>)"

section \<open>The VF side\<close>

definition ixgbe_read_v2p_mailbox :: "'h device \<Rightarrow> 'h ixgbe_hw \<Rightarrow> u32 \<times> 'h ixgbe_hw" where
  "ixgbe_read_v2p_mailbox R hw =
     (case IXGBE_READ_REG R IXGBE_VFMAILBOX hw of
        (v, hw1) \<Rightarrow>
          let v2p = v OR v2p_mailbox (mbx hw1)
          in (v2p, upd_mbx (\<lambda>m. m\<lparr>v2p_mailbox := v2p_mailbox m OR (v2p AND IXGBE_VFMAILBOX_R2C_BITS)\<rparr>) hw1))"

definition ixgbe_check_for_bit_vf :: "'h device \<Rightarrow> u32 \<Rightarrow> 'h ixgbe_hw \<Rightarrow> int \<times> 'h ixgbe_hw" where
  "ixgbe_check_for_bit_vf R msk hw =
     (case ixgbe_read_v2p_mailbox R hw of
        (v2p, hw1) \<Rightarrow>
          (if v2p AND msk \<noteq> 0 then 0 else IXGBE_ERR_MBX,
           upd_mbx (\<lambda>m. m\<lparr>v2p_mailbox := v2p_mailbox m AND NOT msk\<rparr>) hw1))"

definition ixgbe_check_for_msg_vf :: "'h device \<Rightarrow> u16 \<Rightarrow> 'h ixgbe_hw \<Rightarrow> int \<times> 'h ixgbe_hw" where
  "ixgbe_check_for_msg_vf R mbx_id hw =
     (case ixgbe_check_for_bit_vf R IXGBE_VFMAILBOX_PFSTS hw of
        (r, hw1) \<Rightarrow> if r = 0 then (0, upd_stats (\<lambda>s. s\<lparr>reqs := reqs s + 1\<rparr>) hw1) else (IXGBE_ERR_MBX, hw1))"

definition ixgbe_check_for_ack_vf :: "'h device \<Rightarrow> u16 \<Rightarrow> 'h ixgbe_hw \<Rightarrow> int \<times> 'h ixgbe_hw" where
  "ixgbe_check_for_ack_vf R mbx_id hw =
     (case ixgbe_check_for_bit_vf R IXGBE_VFMAILBOX_PFACK hw of
        (r, hw1) \<Rightarrow> if r = 0 then (0, upd_stats (\<lambda>s. s\<lparr>acks := acks s + 1\<rparr>) hw1) else (IXGBE_ERR_MBX, hw1))"

definition ixgbe_check_for_rst_vf :: "'h device \<Rightarrow> u16 \<Rightarrow> 'h ixgbe_hw \<Rightarrow> int \<times> 'h ixgbe_hw" where
  "ixgbe_check_for_rst_vf R mbx_id hw =
     (case ixgbe_check_for_bit_vf R (IXGBE_VFMAILBOX_RSTD OR IXGBE_VFMAILBOX_RSTI) hw of
        (r, hw1) \<Rightarrow> if r = 0 then (0, upd_stats (\<lambda>s. s\<lparr>rsts := rsts s + 1\<rparr>) hw1) else (IXGBE_ERR_MBX, hw1))"

definition ixgbe_obtain_mbx_lock_vf :: "'h device \<Rightarrow> 'h ixgbe_hw \<Rightarrow> int \<times> 'h ixgbe_hw" where
  "ixgbe_obtain_mbx_lock_vf R hw =
     (case ixgbe_read_v2p_mailbox R (IXGBE_WRITE_REG R IXGBE_VFMAILBOX IXGBE_VFMAILBOX_VFU hw) of
        (v2p, hw1) \<Rightarrow> (if v2p AND IXGBE_VFMAILBOX_VFU \<noteq> 0 then 0 else IXGBE_ERR_MBX, hw1))"

text \<open>
  The message buffer is an array of the caller; copying more words than it holds is out of
  bounds. A read returns the array with its first words replaced.
\<close>

definition ixgbe_write_mbx_vf :: "'h device \<Rightarrow> u32 list \<Rightarrow> u16 \<Rightarrow> u16 \<Rightarrow> 'h ixgbe_hw \<Rightarrow> fault + (int \<times> 'h ixgbe_hw)" where
  "ixgbe_write_mbx_vf R msg sz mbx_id hw =
     (case ixgbe_obtain_mbx_lock_vf R hw of
        (r, hw1) \<Rightarrow>
          if r \<noteq> 0 then Inr (r, hw1)
          else if length msg < unat sz then Inl OutOfBounds
          else
            let hw2 = snd (ixgbe_check_for_msg_vf R 0 hw1);
                hw3 = snd (ixgbe_check_for_ack_vf R 0 hw2);
                hw4 = write_words R IXGBE_VFMBMEM 0 (take (unat sz) msg) hw3;
                hw5 = upd_stats (\<lambda>s. s\<lparr>msgs_tx := msgs_tx s + 1\<rparr>) hw4
            in Inr (r, IXGBE_WRITE_REG R IXGBE_VFMAILBOX IXGBE_VFMAILBOX_REQ hw5))"

definition ixgbe_read_mbx_vf ::
  "'h device \<Rightarrow> u32 list \<Rightarrow> u16 \<Rightarrow> u16 \<Rightarrow> 'h ixgbe_hw \<Rightarrow> fault + (int \<times> u32 list \<times> 'h ixgbe_hw)" where
  "ixgbe_read_mbx_vf R msg sz mbx_id hw =
     (case ixgbe_obtain_mbx_lock_vf R hw of
        (r, hw1) \<Rightarrow>
          if r \<noteq> 0 then Inr (r, msg, hw1)
          else if length msg < unat sz then Inl OutOfBounds
          else
            (case read_words R IXGBE_VFMBMEM 0 (unat sz) hw1 of
               (ws, hw2) \<Rightarrow>
                 let hw3 = IXGBE_WRITE_REG R IXGBE_VFMAILBOX IXGBE_VFMAILBOX_ACK hw2
                 in Inr (r, ws @ drop (unat sz) msg, upd_stats (\<lambda>s. s\<lparr>msgs_rx := msgs_rx s + 1\<rparr>) hw3)))"

definition zero_mbx_stats :: ixgbe_mbx_stats where
  "zero_mbx_stats = \<lparr>msgs_tx = 0, msgs_rx = 0, acks = 0, reqs = 0, rsts = 0\<rparr>"

definition mbx_ops_of :: "mbx_side \<Rightarrow> ixgbe_mbx_operations" where
  "mbx_ops_of s = \<lparr>op_read = Some s, op_write = Some s, op_read_posted = True, op_write_posted = True,
     op_check_for_msg = Some s, op_check_for_ack = Some s, op_check_for_rst = Some s\<rparr>"

definition ixgbe_init_mbx_params_vf :: "'h ixgbe_hw \<Rightarrow> 'h ixgbe_hw" where
  "ixgbe_init_mbx_params_vf =
     upd_mbx (\<lambda>m. m\<lparr>timeout := 0, mbx_udelay := IXGBE_VF_MBX_INIT_DELAY, mbx_size := IXGBE_VFMAILBOX_SIZE,
                   ops := mbx_ops_of MBX_vf, stats := zero_mbx_stats\<rparr>)"

section \<open>The PF side\<close>

definition ixgbe_check_for_bit_pf :: "'h device \<Rightarrow> u32 \<Rightarrow> u32 \<Rightarrow> 'h ixgbe_hw \<Rightarrow> int \<times> 'h ixgbe_hw" where
  "ixgbe_check_for_bit_pf R msk index hw =
     (case IXGBE_READ_REG R (IXGBE_MBVFICR index) hw of
        (v, hw1) \<Rightarrow>
          if v AND msk \<noteq> 0 then (0, IXGBE_WRITE_REG R (IXGBE_MBVFICR index) msk hw1)
          else (IXGBE_ERR_MBX, hw1))"

definition vf_mask :: "u32 \<Rightarrow> u16 \<Rightarrow> u32" where
  "vf_mask bit0 vf_number = push_bit (unat (vf_number mod 16)) bit0"

definition ixgbe_check_for_msg_pf :: "'h device \<Rightarrow> u16 \<Rightarrow> 'h ixgbe_hw \<Rightarrow> int \<times> 'h ixgbe_hw" where
  "ixgbe_check_for_msg_pf R vf_number hw =
     (case ixgbe_check_for_bit_pf R (vf_mask IXGBE_MBVFICR_VFREQ_VF1 vf_number) (IXGBE_MBVFICR_INDEX vf_number) hw of
        (r, hw1) \<Rightarrow> if r = 0 then (0, upd_stats (\<lambda>s. s\<lparr>reqs := reqs s + 1\<rparr>) hw1) else (IXGBE_ERR_MBX, hw1))"

definition ixgbe_check_for_ack_pf :: "'h device \<Rightarrow> u16 \<Rightarrow> 'h ixgbe_hw \<Rightarrow> int \<times> 'h ixgbe_hw" where
  "ixgbe_check_for_ack_pf R vf_number hw =
     (case ixgbe_check_for_bit_pf R (vf_mask IXGBE_MBVFICR_VFACK_VF1 vf_number) (IXGBE_MBVFICR_INDEX vf_number) hw of
        (r, hw1) \<Rightarrow> if r = 0 then (0, upd_stats (\<lambda>s. s\<lparr>acks := acks s + 1\<rparr>) hw1) else (IXGBE_ERR_MBX, hw1))"

definition ixgbe_check_for_rst_pf :: "'h device \<Rightarrow> u16 \<Rightarrow> 'h ixgbe_hw \<Rightarrow> int \<times> 'h ixgbe_hw" where
  "ixgbe_check_for_rst_pf R vf_number hw =
     (let reg_offset = (if vf_number < 32 then 0 else 1);
          vf_bit = push_bit (unat (vf_number mod 32)) 1;
          (vflre, hw1) =
            (case mac_type hw of
               ixgbe_mac_82599EB \<Rightarrow> IXGBE_READ_REG R (IXGBE_VFLRE reg_offset) hw
             | ixgbe_mac_X540 \<Rightarrow> IXGBE_READ_REG R (IXGBE_VFLREC reg_offset) hw
             | _ \<Rightarrow> (0, hw))
      in if vflre AND vf_bit \<noteq> 0
         then (0, upd_stats (\<lambda>s. s\<lparr>rsts := rsts s + 1\<rparr>) (IXGBE_WRITE_REG R (IXGBE_VFLREC reg_offset) vf_bit hw1))
         else (IXGBE_ERR_MBX, hw1))"

definition ixgbe_obtain_mbx_lock_pf :: "'h device \<Rightarrow> u16 \<Rightarrow> 'h ixgbe_hw \<Rightarrow> int \<times> 'h ixgbe_hw" where
  "ixgbe_obtain_mbx_lock_pf R vf_number hw =
     (case IXGBE_READ_REG R (IXGBE_PFMAILBOX vf_number)
             (IXGBE_WRITE_REG R (IXGBE_PFMAILBOX vf_number) IXGBE_PFMAILBOX_PFU hw) of
        (p2v, hw1) \<Rightarrow> (if p2v AND IXGBE_PFMAILBOX_PFU \<noteq> 0 then 0 else IXGBE_ERR_MBX, hw1))"

definition ixgbe_write_mbx_pf :: "'h device \<Rightarrow> u32 list \<Rightarrow> u16 \<Rightarrow> u16 \<Rightarrow> 'h ixgbe_hw \<Rightarrow> fault + (int \<times> 'h ixgbe_hw)" where
  "ixgbe_write_mbx_pf R msg sz vf_number hw =
     (case ixgbe_obtain_mbx_lock_pf R vf_number hw of
        (r, hw1) \<Rightarrow>
          if r \<noteq> 0 then Inr (r, hw1)
          else if length msg < unat sz then Inl OutOfBounds
          else
            let hw2 = snd (ixgbe_check_for_msg_pf R vf_number hw1);
                hw3 = snd (ixgbe_check_for_ack_pf R vf_number hw2);
                hw4 = write_words R (IXGBE_PFMBMEM vf_number) 0 (take (unat sz) msg) hw3;
                hw5 = IXGBE_WRITE_REG R (IXGBE_PFMAILBOX vf_number) IXGBE_PFMAILBOX_STS hw4
            in Inr (r, upd_stats (\<lambda>s. s\<lparr>msgs_tx := msgs_tx s + 1\<rparr>) hw5))"

definition ixgbe_read_mbx_pf ::
  "'h device \<Rightarrow> u32 list \<Rightarrow> u16 \<Rightarrow> u16 \<Rightarrow> 'h ixgbe_hw \<Rightarrow> fault + (int \<times> u32 list \<times> 'h ixgbe_hw)" where
  "ixgbe_read_mbx_pf R msg sz vf_number hw =
     (case ixgbe_obtain_mbx_lock_pf R vf_number hw of
        (r, hw1) \<Rightarrow>
          if r \<noteq> 0 then Inr (r, msg, hw1)
          else if length msg < unat sz then Inl OutOfBounds
          else
            (case read_words R (IXGBE_PFMBMEM vf_number) 0 (unat sz) hw1 of
               (ws, hw2) \<Rightarrow>
                 let hw3 = IXGBE_WRITE_REG R (IXGBE_PFMAILBOX vf_number) IXGBE_PFMAILBOX_ACK hw2
                 in Inr (r, ws @ drop (unat sz) msg, upd_stats (\<lambda>s. s\<lparr>msgs_rx := msgs_rx s + 1\<rparr>) hw3)))"

definition ixgbe_init_mbx_params_pf :: "'h ixgbe_hw \<Rightarrow> 'h ixgbe_hw" where
  "ixgbe_init_mbx_params_pf hw =
     (if mac_type hw \<noteq> ixgbe_mac_82599EB \<and> mac_type hw \<noteq> ixgbe_mac_X540 then hw
      else upd_mbx (\<lambda>m. m\<lparr>timeout := 0, mbx_udelay := 0, mbx_size := IXGBE_VFMAILBOX_SIZE,
                         ops := mbx_ops_of MBX_pf, stats := zero_mbx_stats\<rparr>) hw)"

section \<open>The generic operations\<close>

definition call_read ::
  "'h device \<Rightarrow> mbx_side \<Rightarrow> u32 list \<Rightarrow> u16 \<Rightarrow> u16 \<Rightarrow> 'h ixgbe_hw \<Rightarrow> fault + (int \<times> u32 list \<times> 'h ixgbe_hw)" where
  "call_read R side = (case side of MBX_vf \<Rightarrow> ixgbe_read_mbx_vf R | MBX_pf \<Rightarrow> ixgbe_read_mbx_pf R)"

definition call_write ::
  "'h device \<Rightarrow> mbx_side \<Rightarrow> u32 list \<Rightarrow> u16 \<Rightarrow> u16 \<Rightarrow> 'h ixgbe_hw \<Rightarrow> fault + (int \<times> 'h ixgbe_hw)" where
  "call_write R side = (case side of MBX_vf \<Rightarrow> ixgbe_write_mbx_vf R | MBX_pf \<Rightarrow> ixgbe_write_mbx_pf R)"

definition call_check_for_msg :: "'h device \<Rightarrow> mbx_side \<Rightarrow> u16 \<Rightarrow> 'h ixgbe_hw \<Rightarrow> int \<times> 'h ixgbe_hw" where
  "call_check_for_msg R side = (case side of MBX_vf \<Rightarrow> ixgbe_check_for_msg_vf R | MBX_pf \<Rightarrow> ixgbe_check_for_msg_pf R)"

definition call_check_for_ack :: "'h device \<Rightarrow> mbx_side \<Rightarrow> u16 \<Rightarrow> 'h ixgbe_hw \<Rightarrow> int \<times> 'h ixgbe_hw" where
  "call_check_for_ack R side = (case side of MBX_vf \<Rightarrow> ixgbe_check_for_ack_vf R | MBX_pf \<Rightarrow> ixgbe_check_for_ack_pf R)"

definition call_check_for_rst :: "'h device \<Rightarrow> mbx_side \<Rightarrow> u16 \<Rightarrow> 'h ixgbe_hw \<Rightarrow> int \<times> 'h ixgbe_hw" where
  "call_check_for_rst R side = (case side of MBX_vf \<Rightarrow> ixgbe_check_for_rst_vf R | MBX_pf \<Rightarrow> ixgbe_check_for_rst_pf R)"

definition ixgbe_read_mbx ::
  "'h device \<Rightarrow> u32 list \<Rightarrow> u16 \<Rightarrow> u16 \<Rightarrow> 'h ixgbe_hw \<Rightarrow> fault + (int \<times> u32 list \<times> 'h ixgbe_hw)" where
  "ixgbe_read_mbx R msg sz mbx_id hw =
     (let sz' = (if sz > mbx_size (mbx hw) then mbx_size (mbx hw) else sz)
      in case op_read (ops (mbx hw)) of
           None \<Rightarrow> Inr (IXGBE_ERR_MBX, msg, hw)
         | Some side \<Rightarrow> call_read R side msg sz' mbx_id hw)"

definition ixgbe_write_mbx :: "'h device \<Rightarrow> u32 list \<Rightarrow> u16 \<Rightarrow> u16 \<Rightarrow> 'h ixgbe_hw \<Rightarrow> fault + (int \<times> 'h ixgbe_hw)" where
  "ixgbe_write_mbx R msg sz mbx_id hw =
     (if sz > mbx_size (mbx hw) then Inr (IXGBE_ERR_MBX, hw)
      else case op_write (ops (mbx hw)) of
             None \<Rightarrow> Inr (0, hw)
           | Some side \<Rightarrow> call_write R side msg sz mbx_id hw)"

definition check_op :: "(mbx_side \<Rightarrow> u16 \<Rightarrow> 'h ixgbe_hw \<Rightarrow> int \<times> 'h ixgbe_hw) \<Rightarrow> mbx_side option \<Rightarrow> u16 \<Rightarrow> 'h ixgbe_hw \<Rightarrow> int \<times> 'h ixgbe_hw" where
  "check_op call op mbx_id hw = (case op of None \<Rightarrow> (IXGBE_ERR_MBX, hw) | Some side \<Rightarrow> call side mbx_id hw)"

definition ixgbe_check_for_msg :: "'h device \<Rightarrow> u16 \<Rightarrow> 'h ixgbe_hw \<Rightarrow> int \<times> 'h ixgbe_hw" where
  "ixgbe_check_for_msg R mbx_id hw = check_op (call_check_for_msg R) (op_check_for_msg (ops (mbx hw))) mbx_id hw"

definition ixgbe_check_for_ack :: "'h device \<Rightarrow> u16 \<Rightarrow> 'h ixgbe_hw \<Rightarrow> int \<times> 'h ixgbe_hw" where
  "ixgbe_check_for_ack R mbx_id hw = check_op (call_check_for_ack R) (op_check_for_ack (ops (mbx hw))) mbx_id hw"

definition ixgbe_check_for_rst :: "'h device \<Rightarrow> u16 \<Rightarrow> 'h ixgbe_hw \<Rightarrow> int \<times> 'h ixgbe_hw" where
  "ixgbe_check_for_rst R mbx_id hw = check_op (call_check_for_rst R) (op_check_for_rst (ops (mbx hw))) mbx_id hw"

text \<open>
  The polling loop counts an \<open>int\<close> down to zero, so it makes at most \<open>timeout\<close> checks (a timeout of
  \<open>2^31\<close> and more wraps through the negative numbers and counts the same way).
\<close>

fun poll_loop :: "('s \<Rightarrow> int \<times> 's) \<Rightarrow> ('s \<Rightarrow> 's) \<Rightarrow> nat \<Rightarrow> 's \<Rightarrow> nat \<times> 's" where
  "poll_loop check delay 0 s = (0, s)"
| "poll_loop check delay (Suc countdown) s =
     (case check s of
        (r, s1) \<Rightarrow>
          if r = 0 then (Suc countdown, s1)
          else if countdown = 0 then (0, s1)
          else poll_loop check delay countdown (delay s1))"

definition udelay :: "'h device \<Rightarrow> 'h ixgbe_hw \<Rightarrow> 'h ixgbe_hw" where
  "udelay R hw = hw\<lparr>hw_dev := dev_delay R (hw_dev hw) (mbx_udelay (mbx hw))\<rparr>"

definition poll_for ::
  "'h device \<Rightarrow> (mbx_side \<Rightarrow> u16 \<Rightarrow> 'h ixgbe_hw \<Rightarrow> int \<times> 'h ixgbe_hw) \<Rightarrow> mbx_side option \<Rightarrow> u16 \<Rightarrow> 'h ixgbe_hw \<Rightarrow> int \<times> 'h ixgbe_hw" where
  "poll_for R call op mbx_id hw =
     (let (countdown, hw1) =
            (case op of
               None \<Rightarrow> (unat (timeout (mbx hw)), hw)
             | Some side \<Rightarrow> poll_loop (call side mbx_id) (udelay R) (unat (timeout (mbx hw))) hw)
      in (if countdown \<noteq> 0 then 0 else IXGBE_ERR_MBX, hw1))"

definition ixgbe_poll_for_msg :: "'h device \<Rightarrow> u16 \<Rightarrow> 'h ixgbe_hw \<Rightarrow> int \<times> 'h ixgbe_hw" where
  "ixgbe_poll_for_msg R mbx_id hw = poll_for R (call_check_for_msg R) (op_check_for_msg (ops (mbx hw))) mbx_id hw"

definition ixgbe_poll_for_ack :: "'h device \<Rightarrow> u16 \<Rightarrow> 'h ixgbe_hw \<Rightarrow> int \<times> 'h ixgbe_hw" where
  "ixgbe_poll_for_ack R mbx_id hw = poll_for R (call_check_for_ack R) (op_check_for_ack (ops (mbx hw))) mbx_id hw"

definition ixgbe_read_posted_mbx ::
  "'h device \<Rightarrow> u32 list \<Rightarrow> u16 \<Rightarrow> u16 \<Rightarrow> 'h ixgbe_hw \<Rightarrow> fault + (int \<times> u32 list \<times> 'h ixgbe_hw)" where
  "ixgbe_read_posted_mbx R msg sz mbx_id hw =
     (if op_read (ops (mbx hw)) = None then Inr (IXGBE_ERR_MBX, msg, hw)
      else
        (case ixgbe_poll_for_msg R mbx_id hw of
           (r, hw1) \<Rightarrow>
             if r \<noteq> 0 then Inr (r, msg, hw1)
             else case op_read (ops (mbx hw1)) of
                    None \<Rightarrow> Inl NullDeref
                  | Some side \<Rightarrow> call_read R side msg sz mbx_id hw1))"

definition ixgbe_write_posted_mbx ::
  "'h device \<Rightarrow> u32 list \<Rightarrow> u16 \<Rightarrow> u16 \<Rightarrow> 'h ixgbe_hw \<Rightarrow> fault + (int \<times> 'h ixgbe_hw)" where
  "ixgbe_write_posted_mbx R msg sz mbx_id hw =
     (case op_write (ops (mbx hw)) of
        None \<Rightarrow> Inr (IXGBE_ERR_MBX, hw)
      | Some side \<Rightarrow>
          if timeout (mbx hw) = 0 then Inr (IXGBE_ERR_MBX, hw)
          else rbind (call_write R side msg sz mbx_id hw) (\<lambda>(r, hw1).
               if r \<noteq> 0 then Inr (r, hw1) else Inr (ixgbe_poll_for_ack R mbx_id hw1)))"

definition ixgbe_init_mbx_ops_generic :: "'h ixgbe_hw \<Rightarrow> 'h ixgbe_hw" where
  "ixgbe_init_mbx_ops_generic =
     upd_mbx (\<lambda>m. m\<lparr>ops := (ops m)\<lparr>op_read_posted := True, op_write_posted := True\<rparr>\<rparr>)"

end
