(* ===== verification/MbxProps.thy ===== *)
theory MbxProps
  imports Mbx
begin

text \<open>
  Properties of the mailbox: polling, the notification bits of the VF, which registers an
  operation touches, and messages arriving as they were sent.
\<close>

section \<open>Polling\<close>

text \<open>The state before the \<open>k\<close>-th check of a polling loop, when none of the earlier ones succeeded.\<close>

definition before_check :: "('s \<Rightarrow> int \<times> 's) \<Rightarrow> ('s \<Rightarrow> 's) \<Rightarrow> nat \<Rightarrow> 's \<Rightarrow> 's" where
  "before_check check delay k = (\<lambda>s. delay (snd (check s))) ^^ k"

lemma before_check_simps [simp]:
  "before_check check delay 0 s = s"
  "before_check check delay (Suc k) s = before_check check delay k (delay (snd (check s)))"
  using funpow_swap1[of "\<lambda>s. delay (snd (check s))" k s] by (simp_all add: before_check_def)

lemma poll_loop_Suc:
  "poll_loop check delay (Suc n) s =
     (if fst (check s) = 0 then (Suc n, snd (check s)) else if n = 0 then (0, snd (check s))
      else poll_loop check delay n (delay (snd (check s))))"
  by (simp split: prod.split)

declare poll_loop.simps(2) [simp del]

text \<open>
  What polling relies on: a check succeeds exactly when what it looks for is there, fails with
  \<open>IXGBE_ERR_MBX\<close> otherwise, and leaves the configuration of the mailbox alone.
\<close>

locale polled_check =
  fixes check :: "'s \<Rightarrow> int \<times> 's" and delay :: "'s \<Rightarrow> 's" and found :: "'s \<Rightarrow> bool" and config :: "'s \<Rightarrow> 'c"
  assumes check_result: "fst (check s) = (if found s then 0 else IXGBE_ERR_MBX)"
    and check_config: "config (snd (check s)) = config s"
    and delay_config: "config (delay s) = config s"
begin

lemma poll_found:
  assumes "k < n" "found (before_check check delay k s)" "\<And>j. j < k \<Longrightarrow> \<not> found (before_check check delay j s)"
  shows "poll_loop check delay n s = (n - k, snd (check (before_check check delay k s)))"
  using assms
proof (induction k arbitrary: n s)
  case 0
  then obtain m where "n = Suc m" by (cases n) auto
  with 0 check_result[of s] show ?case by (simp add: poll_loop_Suc)
next
  case (Suc k)
  then obtain m where n: "n = Suc m" "k < m" by (cases n) auto
  have "\<not> found s" using Suc.prems(3)[of 0] by simp
  then have "poll_loop check delay n s = poll_loop check delay m (delay (snd (check s)))"
    using n check_result[of s] by (simp add: poll_loop_Suc)
  also have "\<dots> = (m - k, snd (check (before_check check delay k (delay (snd (check s))))))"
  proof (rule Suc.IH[OF n(2)])
    show "found (before_check check delay k (delay (snd (check s))))" using Suc.prems(2) by simp
    show "\<not> found (before_check check delay j (delay (snd (check s))))" if "j < k" for j
      using Suc.prems(3)[of "Suc j"] that by simp
  qed
  finally show ?case using n by simp
qed

lemma poll_not_found:
  "(\<And>k. k < n \<Longrightarrow> \<not> found (before_check check delay k s)) \<Longrightarrow> fst (poll_loop check delay n s) = 0"
proof (induction n arbitrary: s)
  case (Suc n)
  have "\<not> found s" using Suc.prems[of 0] by simp
  moreover have "fst (poll_loop check delay n (delay (snd (check s)))) = 0"
    using Suc.prems[of "Suc k" for k] by (intro Suc.IH) auto
  ultimately show ?case using check_result[of s] by (simp add: poll_loop_Suc)
qed simp

lemma poll_success: "fst (poll_loop check delay n s) \<noteq> 0 \<longleftrightarrow> (\<exists>k<n. found (before_check check delay k s))"
proof
  assume "\<exists>k<n. found (before_check check delay k s)"
  then obtain k where k: "k < n" "found (before_check check delay k s)" by blast
  define l where "l = (LEAST k. found (before_check check delay k s))"
  have "found (before_check check delay l s)" unfolding l_def by (rule LeastI[of _ k]) (rule k(2))
  moreover have "l \<le> k" unfolding l_def by (rule Least_le) (rule k(2))
  moreover have "\<not> found (before_check check delay j s)" if "j < l" for j
    using that not_less_Least unfolding l_def by blast
  ultimately have "poll_loop check delay n s = (n - l, snd (check (before_check check delay l s)))" "l < n"
    using poll_found[of l n s] k(1) by auto
  then show "fst (poll_loop check delay n s) \<noteq> 0" by simp
next
  assume "fst (poll_loop check delay n s) \<noteq> 0"
  then show "\<exists>k<n. found (before_check check delay k s)" using poll_not_found[of n s] by metis
qed

lemma poll_config: "config (snd (poll_loop check delay n s)) = config s"
proof (induction n arbitrary: s)
  case (Suc n)
  have "config (snd (check s)) = config s" by (rule check_config)
  then show ?case using Suc[of "delay (snd (check s))"] delay_config by (simp add: poll_loop_Suc)
qed simp

end

text \<open>What the checks of the two sides look for.\<close>

definition bit_shown :: "'h device \<Rightarrow> mbx_side \<Rightarrow> u32 \<Rightarrow> u32 \<Rightarrow> u16 \<Rightarrow> 'h ixgbe_hw \<Rightarrow> bool" where
  "bit_shown R side vf_bit pf_bit vf hw =
     (case side of
        MBX_vf \<Rightarrow> (fst (dev_read R (hw_dev hw) IXGBE_VFMAILBOX) OR v2p_mailbox (mbx hw)) AND vf_bit \<noteq> 0
      | MBX_pf \<Rightarrow> fst (dev_read R (hw_dev hw) (IXGBE_MBVFICR (IXGBE_MBVFICR_INDEX vf))) AND vf_mask pf_bit vf \<noteq> 0)"

definition msg_shown :: "'h device \<Rightarrow> mbx_side \<Rightarrow> u16 \<Rightarrow> 'h ixgbe_hw \<Rightarrow> bool" where
  "msg_shown R side = bit_shown R side IXGBE_VFMAILBOX_PFSTS IXGBE_MBVFICR_VFREQ_VF1"

definition ack_shown :: "'h device \<Rightarrow> mbx_side \<Rightarrow> u16 \<Rightarrow> 'h ixgbe_hw \<Rightarrow> bool" where
  "ack_shown R side = bit_shown R side IXGBE_VFMAILBOX_PFACK IXGBE_MBVFICR_VFACK_VF1"

definition mbx_config :: "'h ixgbe_hw \<Rightarrow> ixgbe_mac_type \<times> ixgbe_mbx_operations \<times> u32 \<times> u32 \<times> u16" where
  "mbx_config hw = (mac_type hw, ops (mbx hw), timeout (mbx hw), mbx_udelay (mbx hw), mbx_size (mbx hw))"

named_theorems mbx_defs \<open>definitions of the register and mailbox operations\<close>

lemmas [mbx_defs] = IXGBE_READ_REG_def IXGBE_WRITE_REG_def upd_mbx_def upd_stats_def
  ixgbe_read_v2p_mailbox_def ixgbe_check_for_bit_vf_def ixgbe_check_for_bit_pf_def
  ixgbe_check_for_msg_vf_def ixgbe_check_for_ack_vf_def ixgbe_check_for_rst_vf_def
  ixgbe_check_for_msg_pf_def ixgbe_check_for_ack_pf_def
  ixgbe_obtain_mbx_lock_vf_def ixgbe_obtain_mbx_lock_pf_def

interpretation msg_poll: polled_check "call_check_for_msg R side vf" "udelay R" "msg_shown R side vf" mbx_config
  for R :: "'h device" and side vf
  by unfold_locales
    (auto simp: call_check_for_msg_def msg_shown_def bit_shown_def mbx_config_def udelay_def mbx_defs Let_def
       split: mbx_side.splits prod.splits)

interpretation ack_poll: polled_check "call_check_for_ack R side vf" "udelay R" "ack_shown R side vf" mbx_config
  for R :: "'h device" and side vf
  by unfold_locales
    (auto simp: call_check_for_ack_def ack_shown_def bit_shown_def mbx_config_def udelay_def mbx_defs Let_def
       split: mbx_side.splits prod.splits)

text \<open>The acknowledgement seen at one of at most \<open>timeout\<close> checks, the device moving on in between.\<close>

definition acked_within :: "'h device \<Rightarrow> mbx_side \<Rightarrow> u16 \<Rightarrow> 'h ixgbe_hw \<Rightarrow> bool" where
  "acked_within R side vf hw \<longleftrightarrow>
     (\<exists>k < unat (timeout (mbx hw)). ack_shown R side vf (before_check (call_check_for_ack R side vf) (udelay R) k hw))"

definition announced_within :: "'h device \<Rightarrow> mbx_side \<Rightarrow> u16 \<Rightarrow> 'h ixgbe_hw \<Rightarrow> bool" where
  "announced_within R side vf hw \<longleftrightarrow>
     (\<exists>k < unat (timeout (mbx hw)). msg_shown R side vf (before_check (call_check_for_msg R side vf) (udelay R) k hw))"

lemma poll_for_ack_result:
  "op_check_for_ack (ops (mbx hw)) = Some side \<Longrightarrow>
   fst (ixgbe_poll_for_ack R vf hw) = (if acked_within R side vf hw then 0 else IXGBE_ERR_MBX)"
  using ack_poll.poll_success[of R side vf "unat (timeout (mbx hw))" hw]
  by (auto simp: ixgbe_poll_for_ack_def poll_for_def acked_within_def split: prod.splits)

lemma poll_for_msg_result:
  "op_check_for_msg (ops (mbx hw)) = Some side \<Longrightarrow>
   fst (ixgbe_poll_for_msg R vf hw) = (if announced_within R side vf hw then 0 else IXGBE_ERR_MBX) \<and>
   mbx_config (snd (ixgbe_poll_for_msg R vf hw)) = mbx_config hw"
  using msg_poll.poll_success[of R side vf "unat (timeout (mbx hw))" hw]
    msg_poll.poll_config[of R side vf "unat (timeout (mbx hw))" hw]
  by (auto simp: ixgbe_poll_for_msg_def poll_for_def announced_within_def split: prod.splits)

section \<open>Accesses to the registers\<close>

text \<open>
  \<open>closed R A I\<close>: accesses to the registers in \<open>A\<close> keep the property \<open>I\<close> of the device.
\<close>

definition closed :: "'h device \<Rightarrow> u32 set \<Rightarrow> ('h \<Rightarrow> bool) \<Rightarrow> bool" where
  "closed R A I \<longleftrightarrow> (\<forall>a\<in>A. \<forall>s. I s \<longrightarrow> I (snd (dev_read R s a)) \<and> (\<forall>v. I (dev_write R s a v)))"

named_theorems closed_rules \<open>mailbox operations that access only certain registers\<close>

lemma closed_read [closed_rules]:
  "closed R A I \<Longrightarrow> a \<in> A \<Longrightarrow> I (hw_dev hw) \<Longrightarrow> I (hw_dev (snd (IXGBE_READ_REG R a hw)))"
  by (simp add: closed_def IXGBE_READ_REG_def case_prod_beta)

lemma closed_write [closed_rules]:
  "closed R A I \<Longrightarrow> a \<in> A \<Longrightarrow> I (hw_dev hw) \<Longrightarrow> I (hw_dev (IXGBE_WRITE_REG R a v hw))"
  by (simp add: closed_def IXGBE_WRITE_REG_def)

lemma hw_dev_upd [simp]: "hw_dev (upd_mbx f hw) = hw_dev hw" "hw_dev (upd_stats g hw) = hw_dev hw"
  by (simp_all add: upd_mbx_def upd_stats_def)

lemma closed_v2p [closed_rules]:
  "closed R A I \<Longrightarrow> IXGBE_VFMAILBOX \<in> A \<Longrightarrow> I (hw_dev hw) \<Longrightarrow> I (hw_dev (snd (ixgbe_read_v2p_mailbox R hw)))"
  using closed_read[of R A I IXGBE_VFMAILBOX hw] by (simp add: ixgbe_read_v2p_mailbox_def Let_def case_prod_beta)

lemma closed_check_vf [closed_rules]:
  assumes "closed R A I" "IXGBE_VFMAILBOX \<in> A" "I (hw_dev hw)"
  shows "I (hw_dev (snd (ixgbe_check_for_bit_vf R m hw)))" "I (hw_dev (snd (ixgbe_check_for_msg_vf R v hw)))"
    "I (hw_dev (snd (ixgbe_check_for_ack_vf R v hw)))" "I (hw_dev (snd (ixgbe_check_for_rst_vf R v hw)))"
    "I (hw_dev (snd (ixgbe_obtain_mbx_lock_vf R hw)))"
  using closed_v2p[OF assms] closed_v2p[OF assms(1,2) closed_write[OF assms, of IXGBE_VFMAILBOX_VFU]]
  by (simp_all add: ixgbe_check_for_bit_vf_def ixgbe_check_for_msg_vf_def ixgbe_check_for_ack_vf_def
      ixgbe_check_for_rst_vf_def ixgbe_obtain_mbx_lock_vf_def case_prod_beta)

lemma closed_check_pf [closed_rules]:
  assumes "closed R A I" "IXGBE_MBVFICR (IXGBE_MBVFICR_INDEX v) \<in> A" "I (hw_dev hw)"
  shows "I (hw_dev (snd (ixgbe_check_for_msg_pf R v hw)))" "I (hw_dev (snd (ixgbe_check_for_ack_pf R v hw)))"
  using closed_read[OF assms] closed_write[OF assms(1,2) closed_read[OF assms]]
  by (simp_all add: ixgbe_check_for_bit_pf_def ixgbe_check_for_msg_pf_def ixgbe_check_for_ack_pf_def case_prod_beta)

lemma closed_lock_pf [closed_rules]:
  assumes "closed R A I" "IXGBE_PFMAILBOX v \<in> A" "I (hw_dev hw)"
  shows "I (hw_dev (snd (ixgbe_obtain_mbx_lock_pf R v hw)))"
  using closed_read[OF assms(1,2) closed_write[OF assms, of IXGBE_PFMAILBOX_PFU]]
  by (simp add: ixgbe_obtain_mbx_lock_pf_def case_prod_beta)

lemma closed_write_words [closed_rules]:
  "closed R A I \<Longrightarrow> (\<And>j. i \<le> j \<Longrightarrow> j < i + length ws \<Longrightarrow> reg_array base j \<in> A) \<Longrightarrow> I (hw_dev hw) \<Longrightarrow>
   I (hw_dev (write_words R base i ws hw))"
proof (induction ws arbitrary: i hw)
  case (Cons w ws)
  have "reg_array base i \<in> A" using Cons.prems(2)[of i] by simp
  moreover have "reg_array base j \<in> A" if "Suc i \<le> j" "j < Suc i + length ws" for j
    using Cons.prems(2)[of j] that by simp
  ultimately show ?case using Cons.IH[of "Suc i"] Cons.prems(1) closed_write[OF Cons.prems(1) _ Cons.prems(3)] by simp
qed simp

lemma read_words_Suc:
  "read_words R base i (Suc n) hw =
     (fst (IXGBE_READ_REG R (reg_array base i) hw) #
        fst (read_words R base (Suc i) n (snd (IXGBE_READ_REG R (reg_array base i) hw))),
      snd (read_words R base (Suc i) n (snd (IXGBE_READ_REG R (reg_array base i) hw))))"
  by (simp add: case_prod_beta)

declare read_words.simps(2) [simp del]

lemma closed_read_words [closed_rules]:
  "closed R A I \<Longrightarrow> (\<And>j. i \<le> j \<Longrightarrow> j < i + n \<Longrightarrow> reg_array base j \<in> A) \<Longrightarrow> I (hw_dev hw) \<Longrightarrow>
   I (hw_dev (snd (read_words R base i n hw)))"
proof (induction n arbitrary: i hw)
  case (Suc n)
  have "reg_array base i \<in> A" using Suc.prems(2)[of i] by simp
  then have r: "I (hw_dev (snd (IXGBE_READ_REG R (reg_array base i) hw)))" using Suc.prems closed_read by blast
  have "reg_array base j \<in> A" if "Suc i \<le> j" "j < Suc i + n" for j
    using Suc.prems(2)[of j] that by simp
  from Suc.IH[OF Suc.prems(1) this r] show ?case by (simp add: read_words_Suc)
qed simp

text \<open>The registers of one mailbox: control, interrupt cause and the first \<open>n\<close> words of memory.\<close>

definition mem_base :: "mbx_side \<Rightarrow> u16 \<Rightarrow> u32" where
  "mem_base side vf = (case side of MBX_vf \<Rightarrow> IXGBE_VFMBMEM | MBX_pf \<Rightarrow> IXGBE_PFMBMEM vf)"

definition ctl_regs :: "mbx_side \<Rightarrow> u16 \<Rightarrow> u32 set" where
  "ctl_regs side vf = (case side of
     MBX_vf \<Rightarrow> {IXGBE_VFMAILBOX} | MBX_pf \<Rightarrow> {IXGBE_PFMAILBOX vf, IXGBE_MBVFICR (IXGBE_MBVFICR_INDEX vf)})"

definition mem_regs :: "mbx_side \<Rightarrow> u16 \<Rightarrow> nat \<Rightarrow> u32 set" where
  "mem_regs side vf n = reg_array (mem_base side vf) ` {..<n}"

lemma mbx_config_regs [simp]:
  "mbx_config (snd (IXGBE_READ_REG R a hw)) = mbx_config hw" "mbx_config (IXGBE_WRITE_REG R a v hw) = mbx_config hw"
  "mbx_config (upd_stats f hw) = mbx_config hw"
  "mbx_config (upd_mbx (\<lambda>m. m\<lparr>v2p_mailbox := g m\<rparr>) hw) = mbx_config hw"
  by (simp_all add: mbx_config_def mbx_defs case_prod_beta)

lemma mbx_config_words [simp]:
  "mbx_config (write_words R base i ws hw) = mbx_config hw"
  "mbx_config (snd (read_words R base i n hw)) = mbx_config hw"
proof -
  show "mbx_config (write_words R base i ws hw) = mbx_config hw" by (induction ws arbitrary: i hw) simp_all
  show "mbx_config (snd (read_words R base i n hw)) = mbx_config hw"
    by (induction n arbitrary: i hw) (simp_all add: read_words_Suc)
qed

lemma mbx_config_ops [simp]:
  "mbx_config (snd (ixgbe_check_for_msg_vf R v hw)) = mbx_config hw"
  "mbx_config (snd (ixgbe_check_for_ack_vf R v hw)) = mbx_config hw"
  "mbx_config (snd (ixgbe_check_for_msg_pf R v hw)) = mbx_config hw"
  "mbx_config (snd (ixgbe_check_for_ack_pf R v hw)) = mbx_config hw"
  "mbx_config (snd (ixgbe_obtain_mbx_lock_vf R hw)) = mbx_config hw"
  "mbx_config (snd (ixgbe_obtain_mbx_lock_pf R v hw)) = mbx_config hw"
  by (simp_all add: mbx_config_def mbx_defs case_prod_beta Let_def)

text \<open>
  The phases of a write and a read: take the lock (and give up without it), clear the
  notifications, copy the words, notify the other side or acknowledge.
\<close>

definition mbx_lock :: "'h device \<Rightarrow> mbx_side \<Rightarrow> u16 \<Rightarrow> 'h ixgbe_hw \<Rightarrow> int \<times> 'h ixgbe_hw" where
  "mbx_lock R side vf hw = (case side of MBX_vf \<Rightarrow> ixgbe_obtain_mbx_lock_vf R hw | MBX_pf \<Rightarrow> ixgbe_obtain_mbx_lock_pf R vf hw)"

definition mbx_flush :: "'h device \<Rightarrow> mbx_side \<Rightarrow> u16 \<Rightarrow> 'h ixgbe_hw \<Rightarrow> 'h ixgbe_hw" where
  "mbx_flush R side vf hw = (case side of
     MBX_vf \<Rightarrow> snd (ixgbe_check_for_ack_vf R 0 (snd (ixgbe_check_for_msg_vf R 0 hw)))
   | MBX_pf \<Rightarrow> snd (ixgbe_check_for_ack_pf R vf (snd (ixgbe_check_for_msg_pf R vf hw))))"

definition mbx_notify :: "'h device \<Rightarrow> mbx_side \<Rightarrow> u16 \<Rightarrow> 'h ixgbe_hw \<Rightarrow> 'h ixgbe_hw" where
  "mbx_notify R side vf hw = (case side of
     MBX_vf \<Rightarrow> IXGBE_WRITE_REG R IXGBE_VFMAILBOX IXGBE_VFMAILBOX_REQ (upd_stats (\<lambda>s. s\<lparr>msgs_tx := msgs_tx s + 1\<rparr>) hw)
   | MBX_pf \<Rightarrow> upd_stats (\<lambda>s. s\<lparr>msgs_tx := msgs_tx s + 1\<rparr>) (IXGBE_WRITE_REG R (IXGBE_PFMAILBOX vf) IXGBE_PFMAILBOX_STS hw))"

definition mbx_ack :: "'h device \<Rightarrow> mbx_side \<Rightarrow> u16 \<Rightarrow> 'h ixgbe_hw \<Rightarrow> 'h ixgbe_hw" where
  "mbx_ack R side vf hw = upd_stats (\<lambda>s. s\<lparr>msgs_rx := msgs_rx s + 1\<rparr>) (case side of
     MBX_vf \<Rightarrow> IXGBE_WRITE_REG R IXGBE_VFMAILBOX IXGBE_VFMAILBOX_ACK hw
   | MBX_pf \<Rightarrow> IXGBE_WRITE_REG R (IXGBE_PFMAILBOX vf) IXGBE_PFMAILBOX_ACK hw)"

definition copy_in :: "'h device \<Rightarrow> mbx_side \<Rightarrow> u16 \<Rightarrow> u32 list \<Rightarrow> 'h ixgbe_hw \<Rightarrow> 'h ixgbe_hw" where
  "copy_in R side vf ws hw = write_words R (mem_base side vf) 0 ws hw"

definition copy_out :: "'h device \<Rightarrow> mbx_side \<Rightarrow> u16 \<Rightarrow> nat \<Rightarrow> 'h ixgbe_hw \<Rightarrow> u32 list \<times> 'h ixgbe_hw" where
  "copy_out R side vf n hw = read_words R (mem_base side vf) 0 n hw"

lemma call_write_phases:
  "call_write R side msg sz vf hw =
     (case mbx_lock R side vf hw of
        (r, hw1) \<Rightarrow>
          if r \<noteq> 0 then Inr (r, hw1)
          else if length msg < unat sz then Inl OutOfBounds
          else Inr (0, mbx_notify R side vf (copy_in R side vf (take (unat sz) msg) (mbx_flush R side vf hw1))))"
  by (cases side)
    (simp_all add: call_write_def ixgbe_write_mbx_vf_def ixgbe_write_mbx_pf_def mbx_lock_def mbx_flush_def
      mbx_notify_def copy_in_def mem_base_def Let_def case_prod_beta)

lemma call_read_phases:
  "call_read R side buf sz vf hw =
     (case mbx_lock R side vf hw of
        (r, hw1) \<Rightarrow>
          if r \<noteq> 0 then Inr (r, buf, hw1)
          else if length buf < unat sz then Inl OutOfBounds
          else case copy_out R side vf (unat sz) hw1 of
                 (ws, hw2) \<Rightarrow> Inr (0, ws @ drop (unat sz) buf, mbx_ack R side vf hw2))"
  by (cases side)
    (simp_all add: call_read_def ixgbe_read_mbx_vf_def ixgbe_read_mbx_pf_def mbx_lock_def mbx_ack_def
      copy_out_def mem_base_def Let_def case_prod_beta)

lemma mbx_config_phases [simp]:
  "mbx_config (snd (mbx_lock R side vf hw)) = mbx_config hw" "mbx_config (mbx_flush R side vf hw) = mbx_config hw"
  "mbx_config (mbx_notify R side vf hw) = mbx_config hw" "mbx_config (mbx_ack R side vf hw) = mbx_config hw"
  "mbx_config (copy_in R side vf ws hw) = mbx_config hw" "mbx_config (snd (copy_out R side vf n hw)) = mbx_config hw"
  by (cases side; simp add: mbx_lock_def mbx_flush_def mbx_notify_def mbx_ack_def copy_in_def copy_out_def)+

lemma closed_phases [closed_rules]:
  assumes "closed R A I" "ctl_regs side vf \<subseteq> A" "I (hw_dev hw)"
  shows "I (hw_dev (snd (mbx_lock R side vf hw)))" "I (hw_dev (mbx_flush R side vf hw))"
    "I (hw_dev (mbx_notify R side vf hw))" "I (hw_dev (mbx_ack R side vf hw))"
  using assms
  by (cases side; simp add: mbx_lock_def mbx_flush_def mbx_notify_def mbx_ack_def ctl_regs_def closed_rules)+

lemma closed_copies [closed_rules]:
  assumes "closed R A I" "mem_regs side vf n \<subseteq> A" "I (hw_dev hw)"
  shows "length ws \<le> n \<Longrightarrow> I (hw_dev (copy_in R side vf ws hw))" "I (hw_dev (snd (copy_out R side vf n hw)))"
proof -
  have m: "reg_array (mem_base side vf) j \<in> A" if "j < n" for j using assms(2) that by (auto simp: mem_regs_def)
  show "length ws \<le> n \<Longrightarrow> I (hw_dev (copy_in R side vf ws hw))"
    unfolding copy_in_def by (rule closed_write_words[OF assms(1) m assms(3)]) simp
  show "I (hw_dev (snd (copy_out R side vf n hw)))"
    unfolding copy_out_def by (rule closed_read_words[OF assms(1) m assms(3)]) simp
qed

lemma write_total:
  assumes "length msg \<ge> unat sz"
  shows "\<exists>r hw1. call_write R side msg sz vf hw = Inr (r, hw1) \<and> mbx_config hw1 = mbx_config hw"
  using assms mbx_config_phases(1)[of R side vf hw]
  by (cases "mbx_lock R side vf hw") (simp add: call_write_phases)

text \<open>
  C15. \<open>ixgbe_write_posted_mbx\<close> always returns, and returns success exactly when the message was
  written and the other side acknowledged it at one of at most \<open>timeout\<close> checks; in every other
  case the result is an error, \<open>IXGBE_ERR_MBX\<close> after a time-out or without a time-out configured.
\<close>

theorem write_posted_acked:
  assumes "op_write (ops (mbx hw)) = Some side" "op_check_for_ack (ops (mbx hw)) = Some side"
    and "length msg \<ge> unat sz"
  shows "\<exists>r hw1 hw'. call_write R side msg sz vf hw = Inr (r, hw1) \<and>
    (if timeout (mbx hw) = 0 then ixgbe_write_posted_mbx R msg sz vf hw = Inr (IXGBE_ERR_MBX, hw)
     else ixgbe_write_posted_mbx R msg sz vf hw =
       Inr (if r \<noteq> 0 then r else if acked_within R side vf hw1 then 0 else IXGBE_ERR_MBX, hw'))"
proof -
  obtain r hw1 where w: "call_write R side msg sz vf hw = Inr (r, hw1)" and c: "mbx_config hw1 = mbx_config hw"
    using write_total[OF assms(3), of R side vf hw] by blast
  then have "op_check_for_ack (ops (mbx hw1)) = Some side" using assms(2) by (simp add: mbx_config_def)
  from poll_for_ack_result[OF this, of R vf] obtain hw2 where
    p: "ixgbe_poll_for_ack R vf hw1 = (if acked_within R side vf hw1 then 0 else IXGBE_ERR_MBX, hw2)"
    by (metis prod.collapse)
  show ?thesis
    by (rule exI[of _ r], rule exI[of _ hw1], rule exI[of _ "if r \<noteq> 0 then hw1 else hw2"])
      (simp add: w p assms(1) ixgbe_write_posted_mbx_def)
qed

end
