(* ===== verification/MbxMem.thy ===== *)
theory MbxMem
  imports MbxProps
begin

text \<open>
  Mailbox memory: which registers an operation touches, isolation of the virtual functions from each
  other, and messages arriving as they were sent.
\<close>

section \<open>Addresses\<close>

lemma unat_neqI: "unat a \<noteq> unat b \<Longrightarrow> a \<noteq> b"
  by auto

lemma reg_array_of_nat: "reg_array base i = base + of_nat (4 * i)"
  by (simp add: reg_array_def push_bit_eq_mult)

lemma unat_small_of_nat: "n < 4294967296 \<Longrightarrow> unat (of_nat n :: u32) = n"
  by (simp add: unat_of_nat)

lemma unat_addrs:
  assumes "unat v < 64"
  shows "i \<le> 1024 \<Longrightarrow> unat (reg_array (IXGBE_PFMBMEM v) i) = 0x13000 + 64 * unat v + 4 * i"
    "unat (IXGBE_PFMAILBOX v) = 0x4B00 + 4 * unat v"
    "unat (IXGBE_MBVFICR (IXGBE_MBVFICR_INDEX v)) = 0x710 + 4 * (unat v div 16)"
    "i \<le> 1024 \<Longrightarrow> unat (reg_array IXGBE_VFMBMEM i) = 0x200 + 4 * i"
proof -
  have 1: "reg_array (IXGBE_PFMBMEM v) i = of_nat (0x13000 + 64 * unat v + 4 * i)"
    by (simp add: reg_array_of_nat IXGBE_PFMBMEM_def)
  show "i \<le> 1024 \<Longrightarrow> unat (reg_array (IXGBE_PFMBMEM v) i) = 0x13000 + 64 * unat v + 4 * i"
    unfolding 1 using assms by (intro unat_small_of_nat) simp
  have 2: "IXGBE_PFMAILBOX v = of_nat (0x4B00 + 4 * unat v)"
    by (simp add: IXGBE_PFMAILBOX_def)
  show "unat (IXGBE_PFMAILBOX v) = 0x4B00 + 4 * unat v"
    unfolding 2 using assms by (intro unat_small_of_nat) simp
  have 3: "IXGBE_MBVFICR (IXGBE_MBVFICR_INDEX v) = of_nat (0x710 + 4 * (unat v div 16))"
  proof -
    have "unat v div 16 = unat (drop_bit 4 v)" by (simp add: drop_bit_eq_div unat_div)
    then show ?thesis by (simp add: IXGBE_MBVFICR_def IXGBE_MBVFICR_INDEX_def)
  qed
  show "unat (IXGBE_MBVFICR (IXGBE_MBVFICR_INDEX v)) = 0x710 + 4 * (unat v div 16)"
    unfolding 3 using assms by (intro unat_small_of_nat) simp
  have 4: "reg_array IXGBE_VFMBMEM i = of_nat (0x200 + 4 * i)" by (simp add: reg_array_of_nat)
  show "i \<le> 1024 \<Longrightarrow> unat (reg_array IXGBE_VFMBMEM i) = 0x200 + 4 * i"
    unfolding 4 by (intro unat_small_of_nat) simp
qed

text \<open>The mailboxes of the 64 virtual functions, and the one a virtual function sees.\<close>

definition valid_mbx :: "mbx_side \<Rightarrow> u16 \<Rightarrow> bool" where
  "valid_mbx side vf \<longleftrightarrow> side = MBX_vf \<or> unat vf < 64"

lemma ctl_not_mem: "valid_mbx side vf \<Longrightarrow> ctl_regs side vf \<subseteq> - mem_regs side vf 16"
proof (cases side)
  case MBX_vf
  have "IXGBE_VFMAILBOX \<noteq> reg_array IXGBE_VFMBMEM i" if "i < 16" for i
    using that unat_addrs(4)[of 0 i] by (intro unat_neqI) simp
  then show ?thesis by (auto simp: MBX_vf ctl_regs_def mem_regs_def mem_base_def)
next
  case MBX_pf
  moreover assume "valid_mbx side vf"
  ultimately have v: "unat vf < 64" by (simp add: valid_mbx_def)
  have "IXGBE_PFMAILBOX vf \<noteq> reg_array (IXGBE_PFMBMEM vf) i"
    "IXGBE_MBVFICR (IXGBE_MBVFICR_INDEX vf) \<noteq> reg_array (IXGBE_PFMBMEM vf) i" if "i < 16" for i
    using that v by (intro unat_neqI; simp add: unat_addrs)+
  then show ?thesis by (auto simp: MBX_pf ctl_regs_def mem_regs_def mem_base_def)
qed

lemma ctl_not_other_mem: "unat v < 64 \<Longrightarrow> unat w < 64 \<Longrightarrow> ctl_regs MBX_pf v \<subseteq> - mem_regs MBX_pf w 16"
proof -
  assume v: "unat v < 64" "unat w < 64"
  have "IXGBE_PFMAILBOX v \<noteq> reg_array (IXGBE_PFMBMEM w) i"
    "IXGBE_MBVFICR (IXGBE_MBVFICR_INDEX v) \<noteq> reg_array (IXGBE_PFMBMEM w) i" if "i < 16" for i
    using that v by (intro unat_neqI; simp add: unat_addrs)+
  then show ?thesis by (auto simp: ctl_regs_def mem_regs_def mem_base_def)
qed

lemma mem_disjoint: "unat v < 64 \<Longrightarrow> unat w < 64 \<Longrightarrow> v \<noteq> w \<Longrightarrow> mem_regs MBX_pf v 16 \<subseteq> - mem_regs MBX_pf w 16"
proof -
  assume v: "unat v < 64" "unat w < 64" "v \<noteq> w"
  then have "unat v \<noteq> unat w" using unsigned_word_eqI by blast
  have d: "(64 * n + 4 * i) div 64 = n" if "i < 16" for n i :: nat
    using that by simp
  have n: "64 * unat v + 4 * i \<noteq> 64 * unat w + 4 * j" if "i < 16" "j < 16" for i j
    using d[OF that(1), of "unat v"] d[OF that(2), of "unat w"] \<open>unat v \<noteq> unat w\<close> by metis
  have "reg_array (IXGBE_PFMBMEM v) i \<noteq> reg_array (IXGBE_PFMBMEM w) j" if "i < 16" "j < 16" for i j
    using that n[OF that] unat_addrs(1)[OF v(1), of i] unat_addrs(1)[OF v(2), of j] by (intro unat_neqI) simp
  then show ?thesis by (auto simp: mem_regs_def mem_base_def)
qed

section \<open>Mailbox memory\<close>

text \<open>
  What the code relies on of a device: the 16 words of a mailbox behave as memory (\<open>mem\<close> is their
  content), and no other register and no read changes them.
\<close>

definition mem_device :: "'h device \<Rightarrow> mbx_side \<Rightarrow> u16 \<Rightarrow> ('h \<Rightarrow> nat \<Rightarrow> u32) \<Rightarrow> bool" where
  "mem_device R side vf mem \<longleftrightarrow>
     (\<forall>s. \<forall>i<16. fst (dev_read R s (reg_array (mem_base side vf) i)) = mem s i) \<and>
     (\<forall>s a. \<forall>i<16. mem (snd (dev_read R s a)) i = mem s i) \<and>
     (\<forall>s v. \<forall>i<16. \<forall>j<16. mem (dev_write R s (reg_array (mem_base side vf) i) v) j = (if j = i then v else mem s j)) \<and>
     (\<forall>s a v. \<forall>j<16. a \<notin> mem_regs side vf 16 \<longrightarrow> mem (dev_write R s a v) j = mem s j)"

definition mem_is :: "('h \<Rightarrow> nat \<Rightarrow> u32) \<Rightarrow> (nat \<Rightarrow> u32) \<Rightarrow> 'h \<Rightarrow> bool" where
  "mem_is mem m s \<longleftrightarrow> (\<forall>j<16. mem s j = m j)"

lemma closed_mem: "mem_device R side vf mem \<Longrightarrow> closed R (- mem_regs side vf 16) (mem_is mem m)"
  by (simp add: closed_def mem_device_def mem_is_def)

lemma write_words_mem:
  assumes "mem_device R side vf mem"
  shows "i + length ws \<le> 16 \<Longrightarrow> mem_is mem m (hw_dev hw) \<Longrightarrow>
    mem_is mem (\<lambda>j. if i \<le> j \<and> j < i + length ws then ws ! (j - i) else m j)
      (hw_dev (write_words R (mem_base side vf) i ws hw))"
proof (induction ws arbitrary: i m hw)
  case (Cons w ws)
  have "mem_is mem (m(i := w)) (hw_dev (IXGBE_WRITE_REG R (reg_array (mem_base side vf) i) w hw))"
    using assms Cons.prems by (simp add: mem_is_def mem_device_def IXGBE_WRITE_REG_def)
  from Cons.IH[OF _ this, of "Suc i"] Cons.prems(1) have
    "mem_is mem (\<lambda>j. if Suc i \<le> j \<and> j < Suc i + length ws then ws ! (j - Suc i) else (m(i := w)) j)
      (hw_dev (write_words R (mem_base side vf) i (w # ws) hw))" by simp
  then show ?case unfolding mem_is_def by (auto simp: nth_Cons')
qed (auto simp: mem_is_def)

lemma write_words_append:
  "write_words R base i (xs @ ys) hw = write_words R base (i + length xs) ys (write_words R base i xs hw)"
  by (induction xs arbitrary: i hw) simp_all

lemma read_words_mem:
  assumes "mem_device R side vf mem"
  shows "i + n \<le> 16 \<Longrightarrow> mem_is mem m (hw_dev hw) \<Longrightarrow>
    fst (read_words R (mem_base side vf) i n hw) = map m [i..<i + n]"
proof (induction n arbitrary: i hw)
  case (Suc n)
  let ?r = "IXGBE_READ_REG R (reg_array (mem_base side vf) i) hw"
  have "mem_is mem m (hw_dev (snd ?r))" "fst ?r = m i"
    using assms Suc.prems by (simp_all add: mem_is_def mem_device_def IXGBE_READ_REG_def case_prod_beta)
  with Suc.IH[of "Suc i" "snd ?r"] Suc.prems(1) show ?case by (simp add: read_words_Suc upt_rec)
qed simp

lemma call_write_mem:
  assumes "call_write R side msg sz vf hw = Inr (0, hw')" "mem_device R side vf mem" "valid_mbx side vf" "unat sz \<le> 16"
    and "mem_is mem m (hw_dev hw)"
  shows "mem_is mem (\<lambda>j. if j < unat sz then msg ! j else m j) (hw_dev hw')"
proof -
  note cl = closed_mem[OF assms(2)] and sub = ctl_not_mem[OF assms(3)]
  obtain hw1 where l: "mbx_lock R side vf hw = (0, hw1)" "unat sz \<le> length msg"
    and hw': "hw' = mbx_notify R side vf (copy_in R side vf (take (unat sz) msg) (mbx_flush R side vf hw1))"
    using assms(1) by (auto simp: call_write_phases split: prod.splits if_splits)
  have "mem_is mem m (hw_dev (mbx_flush R side vf hw1))"
    using closed_phases(2)[OF cl sub] closed_phases(1)[OF cl sub assms(5)] l by simp
  from write_words_mem[OF assms(2) _ this, of 0 "take (unat sz) msg"] l(2) assms(4) have
    "mem_is mem (\<lambda>j. if j < unat sz then take (unat sz) msg ! j else m j)
       (hw_dev (copy_in R side vf (take (unat sz) msg) (mbx_flush R side vf hw1)))"
    by (simp add: copy_in_def min_absorb2 cong: if_cong)
  from closed_phases(3)[OF cl sub this] show ?thesis unfolding hw' mem_is_def by simp
qed

lemma call_read_mem:
  assumes "call_read R side buf sz vf hw = Inr (0, buf', hw')" "mem_device R side vf mem" "valid_mbx side vf" "unat sz \<le> 16"
    and "mem_is mem m (hw_dev hw)"
  shows "buf' = map m [0..<unat sz] @ drop (unat sz) buf"
proof -
  obtain hw1 where l: "mbx_lock R side vf hw = (0, hw1)"
    and b: "buf' = fst (copy_out R side vf (unat sz) hw1) @ drop (unat sz) buf"
    using assms(1) by (auto simp: call_read_phases split: prod.splits if_splits)
  have "mem_is mem m (hw_dev hw1)"
    using closed_phases(1)[OF closed_mem[OF assms(2)] ctl_not_mem[OF assms(3)] assms(5)] l by simp
  from read_words_mem[OF assms(2) _ this, of 0 "unat sz"] assms(4) b show ?thesis by (simp add: copy_out_def)
qed

section \<open>A device\<close>

text \<open>
  A device with these properties: the 16 words of one mailbox and a plain register everywhere else.
  Its state is shared by the two sides, which see the words at different addresses.
\<close>

definition word_at :: "u32 \<Rightarrow> u32 \<Rightarrow> nat option" where
  "word_at base a = find (\<lambda>i. a = reg_array base i) [0..<16]"

definition demo_device :: "mbx_side \<Rightarrow> u16 \<Rightarrow> ((nat \<Rightarrow> u32) \<times> (u32 \<Rightarrow> u32)) device" where
  "demo_device side vf =
     \<lparr>dev_read = (\<lambda>(m, r) a. (case word_at (mem_base side vf) a of Some i \<Rightarrow> m i | None \<Rightarrow> r a, (m, r))),
      dev_write = (\<lambda>(m, r) a v. case word_at (mem_base side vf) a of Some i \<Rightarrow> (m(i := v), r) | None \<Rightarrow> (m, r(a := v))),
      dev_delay = (\<lambda>s _. s)\<rparr>"

definition demo_hw :: "mbx_side \<Rightarrow> ((nat \<Rightarrow> u32) \<times> (u32 \<Rightarrow> u32)) ixgbe_hw" where
  "demo_hw side = \<lparr>hw_dev = (\<lambda>_. 0, \<lambda>_. 0), mac_type = ixgbe_mac_82599EB,
     mbx = \<lparr>ops = mbx_ops_of side, stats = zero_mbx_stats, timeout = 5, mbx_udelay = 500, v2p_mailbox = 0, mbx_size = 16\<rparr>\<rparr>"

lemma reg_array_inj: "i < 16 \<Longrightarrow> j < 16 \<Longrightarrow> reg_array base i = reg_array base j \<longleftrightarrow> i = j"
proof -
  assume ij: "i < 16" "j < 16"
  have u: "unat (of_nat (4 * i) :: u32) = 4 * i" "unat (of_nat (4 * j) :: u32) = 4 * j"
    using ij by (intro unat_small_of_nat; simp)+
  have "reg_array base i = reg_array base j \<longleftrightarrow> (of_nat (4 * i) :: u32) = of_nat (4 * j)"
    by (simp add: reg_array_of_nat del: of_nat_mult)
  also have "\<dots> \<longleftrightarrow> 4 * i = 4 * j"
    by (metis u)
  finally show ?thesis by simp
qed

lemma word_at_reg: "i < 16 \<Longrightarrow> word_at base (reg_array base i) = Some i"
  unfolding word_at_def by (rule find_Some_iff[THEN iffD2]) (auto simp: reg_array_inj)

lemma word_at_None: "a \<notin> mem_regs side vf 16 \<Longrightarrow> word_at (mem_base side vf) a = None"
  by (auto simp: word_at_def mem_regs_def find_None_iff)

lemma demo_mem_device: "mem_device (demo_device side vf) side vf fst"
  by (auto simp: mem_device_def demo_device_def word_at_reg word_at_None split: option.splits)

section \<open>Messages\<close>

text \<open>
  C14. A message arrives as it was sent, in either direction: when the write of one side succeeds and
  the other side then reads as many words (at most 16) from the same memory, its buffer starts with the
  words of the message and keeps its remaining words.
\<close>

theorem mailbox_roundtrip:
  assumes "call_write W side msg sz vf hw = Inr (0, hw')"
    and "call_read R side' buf sz vf' peer = Inr (0, buf', peer')" "hw_dev peer = hw_dev hw'"
    and "mem_device W side vf mem" "mem_device R side' vf' mem"
    and "valid_mbx side vf" "valid_mbx side' vf'" "unat sz \<le> 16"
  shows "buf' = take (unat sz) msg @ drop (unat sz) buf"
proof -
  have "unat sz \<le> length msg"
    using assms(1) by (auto simp: call_write_phases split: prod.splits if_splits)
  moreover have "mem_is mem (\<lambda>j. if j < unat sz then msg ! j else mem (hw_dev hw) j) (hw_dev peer)"
    unfolding assms(3) using assms(1,4,6,8) by (rule call_write_mem) (simp add: mem_is_def)
  from call_read_mem[OF assms(2,5,7,8) this] have
    "buf' = map (\<lambda>j. if j < unat sz then msg ! j else mem (hw_dev hw) j) [0..<unat sz] @ drop (unat sz) buf" .
  ultimately show ?thesis by (auto simp: list_eq_iff_nth_eq nth_append min_absorb2)
qed

theorem mailbox_roundtrip_witness:
  "\<exists>hw' peer'. call_write (demo_device MBX_pf 3) MBX_pf [7, 8, 9] 2 3 (demo_hw MBX_pf) = Inr (0, hw') \<and>
     call_read (demo_device MBX_vf 0) MBX_vf [0, 0, 5] 2 0 ((demo_hw MBX_vf)\<lparr>hw_dev := hw_dev hw'\<rparr>) =
       Inr (0, [7, 8, 5], peer')"
proof -
  have "succeeds (\<lambda>(r, hw'). r = 0 \<and>
      succeeds (\<lambda>(r', b). r' = 0) (call_read (demo_device MBX_vf 0) MBX_vf [0, 0, 5] 2 0 ((demo_hw MBX_vf)\<lparr>hw_dev := hw_dev hw'\<rparr>)))
      (call_write (demo_device MBX_pf 3) MBX_pf [7, 8, 9] 2 3 (demo_hw MBX_pf))" by code_simp
  then obtain hw' buf' peer' where w: "call_write (demo_device MBX_pf 3) MBX_pf [7, 8, 9] 2 3 (demo_hw MBX_pf) = Inr (0, hw')"
    and r: "call_read (demo_device MBX_vf 0) MBX_vf [0, 0, 5] 2 0 ((demo_hw MBX_vf)\<lparr>hw_dev := hw_dev hw'\<rparr>) = Inr (0, buf', peer')"
    by (auto simp: succeeds_iff)
  have "buf' = [7, 8, 5]"
    using mailbox_roundtrip[OF w r _ demo_mem_device demo_mem_device] by (simp add: valid_mbx_def)
  with w r show ?thesis by blast
qed

theorem write_posted_acked_witness:
  "\<exists>hw'. ixgbe_write_posted_mbx (demo_device MBX_pf 3) [7, 8] 2 3 (demo_hw MBX_pf) = Inr (IXGBE_ERR_MBX, hw')"
proof -
  have d: "op_write (ops (mbx (demo_hw MBX_pf))) = Some MBX_pf" "op_check_for_ack (ops (mbx (demo_hw MBX_pf))) = Some MBX_pf"
    "timeout (mbx (demo_hw MBX_pf)) \<noteq> 0" "unat (2 :: u16) \<le> length [7, 8 :: u32]"
    by (simp_all add: demo_hw_def mbx_ops_of_def)
  have "succeeds (\<lambda>(r, hw1). r = 0 \<and> op_check_for_ack (ops (mbx hw1)) = Some MBX_pf \<and>
        fst (ixgbe_poll_for_ack (demo_device MBX_pf 3) 3 hw1) = IXGBE_ERR_MBX)
      (call_write (demo_device MBX_pf 3) MBX_pf [7, 8] 2 3 (demo_hw MBX_pf))" by code_simp
  then obtain hw1 where "call_write (demo_device MBX_pf 3) MBX_pf [7, 8] 2 3 (demo_hw MBX_pf) = Inr (0, hw1)"
    "\<not> acked_within (demo_device MBX_pf 3) MBX_pf 3 hw1" by (auto simp: succeeds_iff poll_for_ack_result split: if_splits)
  with write_posted_acked[OF d(1,2,4), of "demo_device MBX_pf 3" 3] d(3) show ?thesis by auto
qed

section \<open>Isolation\<close>

lemma closed_un:
  "closed R A I \<Longrightarrow> closed R B I \<Longrightarrow> closed R (A \<union> B) I"
  by (auto simp: closed_def)

lemma call_write_closed:
  assumes "call_write R side msg sz vf hw = Inr (r, hw')" "closed R A I"
    and "ctl_regs side vf \<subseteq> A" "mem_regs side vf (unat sz) \<subseteq> A" "I (hw_dev hw)"
  shows "I (hw_dev hw')"
proof -
  note ph = closed_phases[OF assms(2,3)]
  have l: "I (hw_dev (snd (mbx_lock R side vf hw)))" by (rule ph(1)[OF assms(5)])
  show ?thesis
  proof (cases "fst (mbx_lock R side vf hw) = 0")
    case False
    with assms(1) l show ?thesis by (auto simp: call_write_phases case_prod_beta)
  next
    case True
    then have "hw' = mbx_notify R side vf (copy_in R side vf (take (unat sz) msg) (mbx_flush R side vf (snd (mbx_lock R side vf hw))))"
      using assms(1) by (auto simp: call_write_phases case_prod_beta split: if_splits)
    with ph(3)[OF closed_copies(1)[OF assms(2,4) ph(2)[OF l]]] show ?thesis by simp
  qed
qed

lemma call_read_closed:
  assumes "call_read R side buf sz vf hw = Inr (r, buf', hw')" "closed R A I"
    and "ctl_regs side vf \<subseteq> A" "mem_regs side vf (unat sz) \<subseteq> A" "I (hw_dev hw)"
  shows "I (hw_dev hw')"
proof -
  note ph = closed_phases[OF assms(2,3)]
  have l: "I (hw_dev (snd (mbx_lock R side vf hw)))" by (rule ph(1)[OF assms(5)])
  show ?thesis
  proof (cases "fst (mbx_lock R side vf hw) = 0")
    case False
    with assms(1) l show ?thesis by (auto simp: call_read_phases case_prod_beta)
  next
    case True
    then have "hw' = mbx_ack R side vf (snd (copy_out R side vf (unat sz) (snd (mbx_lock R side vf hw))))"
      using assms(1) by (auto simp: call_read_phases case_prod_beta split: if_splits)
    with ph(4)[OF closed_copies(2)[OF assms(2,4) l]] show ?thesis by simp
  qed
qed

text \<open>
  C16. \<open>ixgbe_read_mbx\<close> and \<open>ixgbe_write_mbx\<close> of the PF stay inside the mailbox of the addressed
  virtual function, whatever size the caller asks for: with the size limit the initialisation sets, the
  mailbox memory of every other virtual function is unchanged.
\<close>

theorem pf_isolation:
  assumes "op_write (ops (mbx hw)) = Some MBX_pf" "op_read (ops (mbx hw)) = Some MBX_pf" "mbx_size (mbx hw) \<le> 16"
    and "mem_device R MBX_pf w mem" "unat v < 64" "unat w < 64" "v \<noteq> w" "j < 16"
  shows "(ixgbe_write_mbx R msg sz v hw = Inr (r, hw') \<longrightarrow> mem (hw_dev hw') j = mem (hw_dev hw) j) \<and>
    (ixgbe_read_mbx R buf sz v hw = Inr (r, buf', hw') \<longrightarrow> mem (hw_dev hw') j = mem (hw_dev hw) j)"
proof -
  let ?I = "mem_is mem (mem (hw_dev hw))" and ?A = "- mem_regs MBX_pf w 16"
  have cl: "closed R ?A ?I" by (rule closed_mem[OF assms(4)])
  have ctl: "ctl_regs MBX_pf v \<subseteq> ?A" by (rule ctl_not_other_mem[OF assms(5,6)])
  have sub: "mem_regs MBX_pf v (unat n) \<subseteq> ?A" if "n \<le> mbx_size (mbx hw)" for n
  proof -
    have "unat n \<le> 16" using order_trans[OF that assms(3)] by (simp add: word_le_nat_alt)
    then have "mem_regs MBX_pf v (unat n) \<subseteq> mem_regs MBX_pf v 16" by (auto simp: mem_regs_def)
    with mem_disjoint[OF assms(5,6,7)] show ?thesis by blast
  qed
  have i: "?I (hw_dev hw)" by (simp add: mem_is_def)
  have w: "?I (hw_dev hw')" if "ixgbe_write_mbx R msg sz v hw = Inr (r, hw')"
  proof (cases "sz > mbx_size (mbx hw)")
    case True
    with that i show ?thesis by (simp add: ixgbe_write_mbx_def)
  next
    case False
    with that have c: "call_write R MBX_pf msg sz v hw = Inr (r, hw')" by (simp add: ixgbe_write_mbx_def assms(1))
    from False have "sz \<le> mbx_size (mbx hw)" by simp
    from call_write_closed[OF c cl ctl sub[OF this] i] show ?thesis .
  qed
  have r: "?I (hw_dev hw')" if "ixgbe_read_mbx R buf sz v hw = Inr (r, buf', hw')"
  proof -
    define n where "n = (if sz > mbx_size (mbx hw) then mbx_size (mbx hw) else sz)"
    have c: "call_read R MBX_pf buf n v hw = Inr (r, buf', hw')"
      using that by (simp add: ixgbe_read_mbx_def assms(2) n_def Let_def)
    have "n \<le> mbx_size (mbx hw)" by (simp add: n_def linorder_not_less)
    from call_read_closed[OF c cl ctl sub[OF this] i] show ?thesis .
  qed
  from w r assms(8) show ?thesis by (auto simp: mem_is_def)
qed

theorem pf_isolation_witness:
  "\<exists>r hw'. ixgbe_write_mbx (demo_device MBX_pf 1) [1, 2] 2 0 (demo_hw MBX_pf) = Inr (r, hw') \<and> fst (hw_dev hw') 3 = 0"
proof -
  have "succeeds (\<lambda>(r, hw'). True) (ixgbe_write_mbx (demo_device MBX_pf 1) [1, 2] 2 0 (demo_hw MBX_pf))" by code_simp
  then obtain r hw' where w: "ixgbe_write_mbx (demo_device MBX_pf 1) [1, 2] 2 0 (demo_hw MBX_pf) = Inr (r, hw')"
    by (auto simp: succeeds_iff)
  have d: "op_write (ops (mbx (demo_hw MBX_pf))) = Some MBX_pf" "op_read (ops (mbx (demo_hw MBX_pf))) = Some MBX_pf"
    "mbx_size (mbx (demo_hw MBX_pf)) \<le> 16" "fst (hw_dev (demo_hw MBX_pf)) 3 = 0"
    by (simp_all add: demo_hw_def mbx_ops_of_def)
  from pf_isolation[OF d(1-3) demo_mem_device[of MBX_pf 1], of 0 3] w d(4) show ?thesis by auto
qed

text \<open>
  \<open>ixgbe_write_posted_mbx\<close> has no such limit: a message of 17 words to virtual function \<open>v\<close> puts its
  last word into the first word of the mailbox memory of virtual function \<open>v + 1\<close>.
\<close>

theorem posted_write_overflows:
  assumes "op_write (ops (mbx hw)) = Some MBX_pf" "timeout (mbx hw) \<noteq> 0" "length msg = 17" "unat v < 63"
    and "mem_device R MBX_pf (v + 1) mem" "fst (mbx_lock R MBX_pf v hw) = 0"
  shows "\<exists>hw1. call_write R MBX_pf msg 17 v hw = Inr (0, hw1) \<and> mem (hw_dev hw1) 0 = msg ! 16 \<and>
    ixgbe_write_posted_mbx R msg 17 v hw = Inr (ixgbe_poll_for_ack R v hw1)"
proof -
  define hw2 where "hw2 = copy_in R MBX_pf v msg (mbx_flush R MBX_pf v (snd (mbx_lock R MBX_pf v hw)))"
  define hw1 where "hw1 = mbx_notify R MBX_pf v hw2"
  have c: "call_write R MBX_pf msg 17 v hw = Inr (0, hw1)"
    using assms(3,6) by (simp add: call_write_phases case_prod_beta hw1_def hw2_def)
  have v1: "unat (v + 1) = unat v + 1" using assms(4) by (simp add: unat_word_ariths)
  have a: "reg_array (mem_base MBX_pf v) 16 = reg_array (mem_base MBX_pf (v + 1)) 0"
  proof -
    have "unat (reg_array (mem_base MBX_pf v) 16) = unat (reg_array (mem_base MBX_pf (v + 1)) 0)"
      using unat_addrs(1)[of v 16] unat_addrs(1)[of "v + 1" 0] assms(4) v1 by (simp add: mem_base_def)
    then show ?thesis using unsigned_word_eqI by blast
  qed
  have m: "msg = take 16 msg @ [msg ! 16]"
    using assms(3) take_Suc_conv_app_nth[of 16 msg] by simp
  have "hw_dev hw2 = dev_write R (hw_dev (write_words R (mem_base MBX_pf v) 0 (take 16 msg)
      (mbx_flush R MBX_pf v (snd (mbx_lock R MBX_pf v hw))))) (reg_array (mem_base MBX_pf v) 16) (msg ! 16)"
    unfolding hw2_def copy_in_def by (subst m) (simp add: write_words_append assms(3) IXGBE_WRITE_REG_def)
  then have "mem (hw_dev hw2) 0 = msg ! 16" using assms(5) unfolding a mem_device_def by simp
  then have i: "mem_is mem (\<lambda>j. if j = 0 then msg ! 16 else mem (hw_dev hw2) j) (hw_dev hw2)" by (simp add: mem_is_def)
  have "ctl_regs MBX_pf v \<subseteq> - mem_regs MBX_pf (v + 1) 16"
    using assms(4) v1 by (intro ctl_not_other_mem) simp_all
  from closed_phases(3)[OF closed_mem[OF assms(5)] this i] have "mem (hw_dev hw1) 0 = msg ! 16"
    by (simp add: hw1_def mem_is_def)
  with c assms(1,2) show ?thesis by (simp add: ixgbe_write_posted_mbx_def case_prod_beta)
qed

theorem posted_write_overflows_witness:
  "\<exists>hw1. call_write (demo_device MBX_pf 1) MBX_pf (map of_nat [0..<17]) 17 0 (demo_hw MBX_pf) = Inr (0, hw1) \<and> fst (hw_dev hw1) 0 = 16"
proof -
  have d: "op_write (ops (mbx (demo_hw MBX_pf))) = Some MBX_pf" "timeout (mbx (demo_hw MBX_pf)) \<noteq> 0"
    by (simp_all add: demo_hw_def mbx_ops_of_def)
  have m: "mem_device (demo_device MBX_pf 1) MBX_pf (0 + 1) fst" using demo_mem_device[of MBX_pf 1] by simp
  have l: "fst (mbx_lock (demo_device MBX_pf 1) MBX_pf 0 (demo_hw MBX_pf)) = 0" by code_simp
  from posted_write_overflows[OF d, of "map of_nat [0..<17]", OF _ _ m l] show ?thesis by auto
qed

section \<open>Notifications of a virtual function\<close>

text \<open>Checks of a VF for several bits, the device changing arbitrarily (\<open>e\<close>) before each.\<close>

fun vf_checks :: "'h device \<Rightarrow> (('h \<Rightarrow> 'h) \<times> u32) list \<Rightarrow> 'h ixgbe_hw \<Rightarrow> 'h ixgbe_hw" where
  "vf_checks R [] hw = hw"
| "vf_checks R ((e, m) # cs) hw = vf_checks R cs (snd (ixgbe_check_for_bit_vf R m (hw\<lparr>hw_dev := e (hw_dev hw)\<rparr>)))"

lemma and_not_disjoint: "(m :: u32) AND b = 0 \<Longrightarrow> (x AND NOT m) AND b = x AND b"
  by (auto simp: bit_eq_iff bit_simps)

lemma check_bit_result:
  "fst (ixgbe_check_for_bit_vf R m hw) =
     (if (fst (dev_read R (hw_dev hw) IXGBE_VFMAILBOX) OR v2p_mailbox (mbx hw)) AND m \<noteq> 0 then 0 else IXGBE_ERR_MBX)"
  "v2p_mailbox (mbx (snd (ixgbe_check_for_bit_vf R m hw))) =
     (v2p_mailbox (mbx hw) OR ((fst (dev_read R (hw_dev hw) IXGBE_VFMAILBOX) OR v2p_mailbox (mbx hw)) AND IXGBE_VFMAILBOX_R2C_BITS))
       AND NOT m"
  by (simp_all add: ixgbe_check_for_bit_vf_def ixgbe_read_v2p_mailbox_def IXGBE_READ_REG_def upd_mbx_def
      case_prod_beta Let_def)

lemma or_and_nonzero: "(x :: u32) AND b \<noteq> 0 \<Longrightarrow> (x OR y) AND b \<noteq> 0" "(x :: u32) AND b \<noteq> 0 \<Longrightarrow> (y OR x) AND b \<noteq> 0"
  by (auto simp: bit_eq_iff bit_simps)

lemma vf_checks_keep:
  "\<forall>(e, m) \<in> set cs. m AND b = 0 \<Longrightarrow> v2p_mailbox (mbx hw) AND b \<noteq> 0 \<Longrightarrow> v2p_mailbox (mbx (vf_checks R cs hw)) AND b \<noteq> 0"
proof (induction cs arbitrary: hw)
  case (Cons c cs)
  obtain e m where c: "c = (e, m)" by force
  have "v2p_mailbox (mbx (snd (ixgbe_check_for_bit_vf R m (hw\<lparr>hw_dev := e (hw_dev hw)\<rparr>)))) AND b \<noteq> 0"
  proof -
    have "m AND b = 0" using Cons.prems(1) c by simp
    then show ?thesis unfolding check_bit_result and_not_disjoint[OF \<open>m AND b = 0\<close>]
      by (intro or_and_nonzero(1)) (simp add: Cons.prems(2))
  qed
  from Cons.IH[OF _ this] Cons.prems(1) c show ?case by simp
qed simp

text \<open>
  A notification of the PF is not lost although reading the register clears it: when a read
  of the register for something else shows a read-to-clear bit, the next check for that bit succeeds, after
  any number of checks for other bits and whatever the register shows by then; and it is reported
  once: a further check succeeds only when the register shows the bit again.
\<close>

theorem vf_notification_kept:
  assumes "fst (dev_read R (hw_dev hw) IXGBE_VFMAILBOX) AND b \<noteq> 0" "b AND IXGBE_VFMAILBOX_R2C_BITS = b" "m AND b = 0"
    and "\<forall>(e, m) \<in> set cs. m AND b = 0"
  shows "let hw1 = vf_checks R cs (snd (ixgbe_check_for_bit_vf R m hw));
             hw2 = snd (ixgbe_check_for_bit_vf R b hw1)
         in fst (ixgbe_check_for_bit_vf R b hw1) = 0 \<and>
            (fst (ixgbe_check_for_bit_vf R b (hw2\<lparr>hw_dev := s\<rparr>)) = 0 \<longleftrightarrow> fst (dev_read R s IXGBE_VFMAILBOX) AND b \<noteq> 0)"
proof -
  let ?hw0 = "snd (ixgbe_check_for_bit_vf R m hw)"
  define hw1 where "hw1 = vf_checks R cs ?hw0"
  define hw2 where "hw2 = snd (ixgbe_check_for_bit_vf R b hw1)"
  have "(x OR y AND IXGBE_VFMAILBOX_R2C_BITS) AND b \<noteq> 0" if "y AND b \<noteq> 0" for x y :: u32
  proof -
    have "(y AND IXGBE_VFMAILBOX_R2C_BITS) AND b = y AND b" using assms(2) by (metis and.assoc and.commute)
    with that show ?thesis by (intro or_and_nonzero(2)) simp
  qed
  then have "v2p_mailbox (mbx ?hw0) AND b \<noteq> 0"
    unfolding check_bit_result and_not_disjoint[OF assms(3)] using or_and_nonzero(1)[OF assms(1)] by blast
  from vf_checks_keep[OF assms(4) this] have k: "v2p_mailbox (mbx hw1) AND b \<noteq> 0" by (simp add: hw1_def)
  have 1: "fst (ixgbe_check_for_bit_vf R b hw1) = 0"
    unfolding check_bit_result using or_and_nonzero(2)[OF k] by simp
  have "v2p_mailbox (mbx hw2) AND b = 0"
    unfolding hw2_def check_bit_result by (auto simp: bit_eq_iff bit_simps)
  then have "(v OR v2p_mailbox (mbx hw2)) AND b = v AND b" for v
    by (auto simp: bit_eq_iff bit_simps)
  then have "fst (ixgbe_check_for_bit_vf R b (hw2\<lparr>hw_dev := s\<rparr>)) = 0 \<longleftrightarrow> fst (dev_read R s IXGBE_VFMAILBOX) AND b \<noteq> 0"
    unfolding check_bit_result by simp
  with 1 show ?thesis unfolding Let_def hw1_def[symmetric] hw2_def[symmetric] by blast
qed

text \<open>A register that clears its read-to-clear bits when it is read.\<close>

definition r2c_device :: "u32 device" where
  "r2c_device = \<lparr>dev_read = (\<lambda>s a. (s, s AND NOT IXGBE_VFMAILBOX_R2C_BITS)), dev_write = (\<lambda>s a v. s), dev_delay = (\<lambda>s _. s)\<rparr>"

definition r2c_hw :: "u32 ixgbe_hw" where
  "r2c_hw = \<lparr>hw_dev = IXGBE_VFMAILBOX_PFACK, mac_type = ixgbe_mac_82599EB,
     mbx = \<lparr>ops = mbx_ops_of MBX_vf, stats = zero_mbx_stats, timeout = 5, mbx_udelay = 500, v2p_mailbox = 0, mbx_size = 16\<rparr>\<rparr>"

theorem vf_notification_kept_witness:
  "fst (ixgbe_check_for_bit_vf r2c_device IXGBE_VFMAILBOX_PFACK
     (vf_checks r2c_device [(\<lambda>_. 0, IXGBE_VFMAILBOX_RSTD)] (snd (ixgbe_check_for_bit_vf r2c_device IXGBE_VFMAILBOX_PFSTS r2c_hw)))) = 0"
proof -
  have "fst (dev_read r2c_device (hw_dev r2c_hw) IXGBE_VFMAILBOX) AND IXGBE_VFMAILBOX_PFACK \<noteq> 0"
    by (simp add: r2c_device_def r2c_hw_def)
  from vf_notification_kept[OF this, of IXGBE_VFMAILBOX_PFSTS "[(\<lambda>_. 0, IXGBE_VFMAILBOX_RSTD)]"]
  show ?thesis by (simp add: Let_def)
qed

end
