(* ===== verification/RbAbs.thy ===== *)
theory RbAbs
  imports RbTree "HOL-Library.Tree"
begin

text \<open>
  The abstraction of the linked nodes to a binary tree: \<open>rep s fs t H\<close> says that the heap and root
  of \<open>s\<close> hold the subtree \<open>t\<close> below the path \<open>fs\<close> to the root. A tree carries in each node its
  address and colour. The rotations of \<open>rbtree.c\<close> are the rotations of the tree.
\<close>

section \<open>Trees and paths\<close>

type_synonym rbt = "(nat \<times> rb_color) tree"

datatype rb_side = On_left | On_right

text \<open>
  One step of a path upwards: the side the subtree hangs on, the address and colour of the parent, and
  the sibling subtree.
\<close>

type_synonym rb_step = "rb_side \<times> nat \<times> rb_color \<times> rbt"

fun root_ptr :: "rbt \<Rightarrow> ptr" where
  "root_ptr Leaf = None"
| "root_ptr (Node l (a, c) r) = Some a"

definition addrs :: "rbt \<Rightarrow> nat list" where
  "addrs t = map fst (inorder t)"

lemma addrs_simps [simp]: "addrs Leaf = []" "addrs (Node l (a, c) r) = addrs l @ a # addrs r"
  by (simp_all add: addrs_def)

fun plug :: "rbt \<Rightarrow> rb_step list \<Rightarrow> rbt" where
  "plug t [] = t"
| "plug t ((On_left, a, c, u) # fs) = plug (Node t (a, c) u) fs"
| "plug t ((On_right, a, c, u) # fs) = plug (Node u (a, c) t) fs"

fun path_addrs :: "rb_step list \<Rightarrow> nat list" where
  "path_addrs [] = []"
| "path_addrs ((d, a, c, u) # fs) = a # addrs u @ path_addrs fs"

fun path_parent :: "rb_step list \<Rightarrow> ptr" where
  "path_parent [] = None"
| "path_parent ((d, a, c, u) # fs) = Some a"

fun path_root :: "ptr \<Rightarrow> rb_step list \<Rightarrow> ptr" where
  "path_root p [] = p"
| "path_root p ((d, a, c, u) # fs) = path_root (Some a) fs"

section \<open>The heap\<close>

fun tree_at :: "rb_heap \<Rightarrow> ptr \<Rightarrow> rbt \<Rightarrow> bool" where
  "tree_at h par Leaf = True"
| "tree_at h par (Node l (a, c) r) =
     (h a = \<lparr>rb_parent = par, rb_color = c, rb_right = root_ptr r, rb_left = root_ptr l\<rparr> \<and>
      tree_at h (Some a) l \<and> tree_at h (Some a) r)"

fun path_at :: "rb_heap \<Rightarrow> ptr \<Rightarrow> rb_step list \<Rightarrow> bool" where
  "path_at h p [] = True"
| "path_at h p ((d, a, c, u) # fs) =
     (h a = \<lparr>rb_parent = path_parent fs, rb_color = c,
             rb_right = (if d = On_left then root_ptr u else p),
             rb_left = (if d = On_left then p else root_ptr u)\<rparr> \<and>
      tree_at h (Some a) u \<and> path_at h (Some a) fs)"

definition rep :: "rb_state \<Rightarrow> rb_step list \<Rightarrow> rbt \<Rightarrow> rb_heap \<Rightarrow> bool" where
  "rep s fs t H \<longleftrightarrow> tree_at (rbh s) (path_parent fs) t \<and> path_at (rbh s) (root_ptr t) fs \<and>
     rb_root s = path_root (root_ptr t) fs \<and> distinct (addrs t @ path_addrs fs) \<and>
     (\<forall>a. a \<notin> set (addrs t @ path_addrs fs) \<longrightarrow> rbh s a = H a)"

lemma tree_at_upd [simp]: "a \<notin> set (addrs t) \<Longrightarrow> tree_at (h(a := x)) par t = tree_at h par t"
  by (induction h par t rule: tree_at.induct) auto

lemma path_at_upd [simp]: "a \<notin> set (path_addrs fs) \<Longrightarrow> path_at (h(a := x)) p fs = path_at h p fs"
  by (induction h p fs rule: path_at.induct) auto

lemma root_ptr_in: "root_ptr t = Some a \<Longrightarrow> a \<in> set (addrs t)"
  by (cases t rule: root_ptr.cases) auto

lemma path_root_cong: "fs \<noteq> [] \<Longrightarrow> path_root p fs = path_root q fs"
  by (cases fs) auto

text \<open>Moving the focus down and up.\<close>

lemma rep_down_left: "rep s fs (Node l (a, c) r) H \<longleftrightarrow> rep s ((On_left, a, c, r) # fs) l H"
  unfolding rep_def by auto

lemma rep_down_right: "rep s fs (Node l (a, c) r) H \<longleftrightarrow> rep s ((On_right, a, c, l) # fs) r H"
  unfolding rep_def by auto

lemma rep_plug: "rep s fs t H \<longleftrightarrow> rep s [] (plug t fs) H"
  by (induction t fs rule: plug.induct) (simp_all flip: rep_down_left rep_down_right)

section \<open>Rotations\<close>

lemmas rb_set_defs = rb_set_right_def rb_set_left_def rb_set_parent_def rb_set_color_def rb_set_parent_if_def
  on_heap_def Let_def

lemma rotate_left_rep:
  assumes "rep s fs (Node A (a, ca) (Node B (b, cb) C)) H"
  shows "\<exists>s'. rb_rotate_left a s = Some s' \<and> rep s' fs (Node (Node A (a, ca) B) (b, cb) C) H"
proof (cases fs rule: path_parent.cases)
  case 1
  with assms show ?thesis
    by (cases B rule: root_ptr.cases) (auto simp: rep_def rb_rotate_left_def rb_set_defs)
next
  case (2 d p c u fs')
  then have "root_ptr u \<noteq> Some a" using assms by (auto simp: rep_def dest: root_ptr_in)
  with assms 2 show ?thesis
    by (cases B rule: root_ptr.cases; cases d) (auto simp: rep_def rb_rotate_left_def rb_set_defs)
qed

lemma rotate_right_rep:
  assumes "rep s fs (Node (Node A (b, cb) B) (a, ca) C) H"
  shows "\<exists>s'. rb_rotate_right a s = Some s' \<and> rep s' fs (Node A (b, cb) (Node B (a, ca) C)) H"
proof (cases fs rule: path_parent.cases)
  case 1
  with assms show ?thesis
    by (cases B rule: root_ptr.cases) (auto simp: rep_def rb_rotate_right_def rb_set_defs)
next
  case (2 d p c u fs')
  then have "root_ptr u \<noteq> Some a" using assms by (auto simp: rep_def dest: root_ptr_in)
  with assms 2 show ?thesis
    by (cases B rule: root_ptr.cases; cases d) (auto simp: rep_def rb_rotate_right_def rb_set_defs)
qed

text \<open>
  The rotations of \<open>rbtree.c\<close> on linked nodes are the rotations of the tree the nodes
  represent, anywhere in the tree, with all parent pointers and the root kept consistent, and each undoes
  the other.
\<close>

theorem rotations_represent:
  assumes "rep s [] (plug (Node (Node A (b, cb) B) (a, ca) C) fs) H"
  shows "\<exists>s'. rb_rotate_right a s = Some s' \<and> rep s' [] (plug (Node A (b, cb) (Node B (a, ca) C)) fs) H \<and>
    (\<exists>s''. rb_rotate_left b s' = Some s'' \<and> rep s'' [] (plug (Node (Node A (b, cb) B) (a, ca) C) fs) H)"
  using assms rotate_right_rep[of s fs A b cb B a ca C] rotate_left_rep[of _ fs A b cb B a ca C]
  unfolding rep_plug[symmetric] by blast

text \<open>A black root with a red left child.\<close>

definition demo_chain :: rb_state where
  "demo_chain = \<lparr>rbh = (\<lambda>a. if a = 5 then \<lparr>rb_parent = None, rb_color = RB_BLACK, rb_right = None, rb_left = Some 2\<rparr>
                            else \<lparr>rb_parent = Some 5, rb_color = RB_RED, rb_right = None, rb_left = None\<rparr>),
                 rb_root = Some 5\<rparr>"

lemma demo_chain_rep: "rep demo_chain [] (Node (Node Leaf (2, RB_RED) Leaf) (5, RB_BLACK) Leaf) (rbh demo_chain)"
  by (simp add: demo_chain_def rep_def)

theorem rotations_represent_witness:
  "\<exists>s'. rb_rotate_right 5 demo_chain = Some s' \<and> rep s' [] (Node Leaf (2, RB_RED) (Node Leaf (5, RB_BLACK) Leaf)) (rbh demo_chain)"
  using rotations_represent[of demo_chain Leaf 2 RB_RED Leaf 5 RB_BLACK Leaf "[]"] demo_chain_rep by auto

section \<open>Recolouring and descents\<close>

lemma rep_color [simp]:
  "rep s fs (Node l (a, c) r) H \<Longrightarrow> rb_color (rbh s a) = c"
  "rep s ((d, a, c, u) # fs) t H \<Longrightarrow> rb_color (rbh s a) = c"
  by (auto simp: rep_def)

lemma rep_set_color:
  "rep s fs (Node l (a, c) r) H \<Longrightarrow> rep (on_heap (rb_set_color a c') s) fs (Node l (a, c') r) H"
  by (auto simp: rep_def rb_set_defs)

lemma leftmost_rep:
  "tree_at (rbh s) par (Node l (a, c) r) \<Longrightarrow> rb_leftmost a s = Some (hd (addrs (Node l (a, c) r)))"
proof (induction l arbitrary: par a c r)
  case Leaf
  then show ?case by (subst rb_leftmost.simps) simp
next
  case (Node l x r')
  obtain b d where x: "x = (b, d)" by force
  have "tree_at (rbh s) (Some a) (Node l (b, d) r')" using Node.prems x by simp
  from Node.IH(1)[OF this] have "rb_leftmost b s = Some (hd (addrs (Node l (b, d) r')))" .
  then show ?case using Node.prems x by (subst rb_leftmost.simps) (simp add: hd_append)
qed

lemma rightmost_rep:
  "tree_at (rbh s) par (Node l (a, c) r) \<Longrightarrow> rb_rightmost a s = Some (last (addrs (Node l (a, c) r)))"
proof (induction r arbitrary: par a c l)
  case Leaf
  then show ?case by (subst rb_rightmost.simps) simp
next
  case (Node l' x r)
  obtain b d where x: "x = (b, d)" by force
  have "tree_at (rbh s) (Some a) (Node l' (b, d) r)" using Node.prems x by simp
  from Node.IH(2)[OF this] have "rb_rightmost b s = Some (last (addrs (Node l' (b, d) r)))" .
  then show ?case using Node.prems x by (subst rb_rightmost.simps) simp
qed

text \<open>The addresses on either side of the focus.\<close>

fun addrs_before :: "rb_step list \<Rightarrow> nat list" where
  "addrs_before [] = []"
| "addrs_before ((On_left, a, c, u) # fs) = addrs_before fs"
| "addrs_before ((On_right, a, c, u) # fs) = addrs_before fs @ addrs u @ [a]"

fun addrs_after :: "rb_step list \<Rightarrow> nat list" where
  "addrs_after [] = []"
| "addrs_after ((On_left, a, c, u) # fs) = a # addrs u @ addrs_after fs"
| "addrs_after ((On_right, a, c, u) # fs) = addrs_after fs"

lemma addrs_plug: "addrs (plug t fs) = addrs_before fs @ addrs t @ addrs_after fs"
  by (induction t fs rule: plug.induct) simp_all

lemma focus_exists:
  "a \<in> set (addrs (plug t fs)) \<Longrightarrow> a \<in> set (addrs t) \<Longrightarrow> \<exists>fs' l c r. plug t fs = plug (Node l (a, c) r) fs'"
proof (induction t arbitrary: fs)
  case (Node l x r)
  obtain b d where x: "x = (b, d)" by force
  consider "a = b" | "a \<in> set (addrs l)" | "a \<in> set (addrs r)" using Node.prems(2) x by auto
  then show ?case
  proof cases
    case 1
    with x show ?thesis by blast
  next
    case 2
    then show ?thesis using Node.IH(1)[of "(On_left, b, d, r) # fs"] x by (simp add: addrs_plug)
  next
    case 3
    then show ?thesis using Node.IH(2)[of "(On_right, b, d, l) # fs"] x by (simp add: addrs_plug)
  qed
qed simp

definition first_of :: "nat list \<Rightarrow> ptr" where
  "first_of xs = (case xs of [] \<Rightarrow> None | x # _ \<Rightarrow> Some x)"

lemma next_up_rep:
  "rep s fs t H \<Longrightarrow> root_ptr t = Some a \<Longrightarrow> rb_next_up a s = Some (first_of (addrs_after fs))"
proof (induction fs arbitrary: t a)
  case Nil
  then show ?case
    by (cases t rule: root_ptr.cases) (auto simp: rep_def first_of_def rb_next_up.simps[of a s])
next
  case (Cons f fs)
  obtain d p c u where f: "f = (d, p, c, u)" by (cases f)
  have par: "rb_parent (rbh s a) = Some p"
    using Cons.prems f by (cases t rule: root_ptr.cases) (auto simp: rep_def)
  show ?case
  proof (cases d)
    case On_left
    have "rb_right (rbh s p) \<noteq> Some a"
      using Cons.prems f On_left root_ptr_in[of u a] by (cases t rule: root_ptr.cases) (auto simp: rep_def)
    with par f On_left show ?thesis by (subst rb_next_up.simps) (simp add: first_of_def)
  next
    case On_right
    have "rb_right (rbh s p) = Some a" using Cons.prems f On_right by (auto simp: rep_def)
    moreover have "rep s fs (Node u (p, c) t) H" using Cons.prems(1) f On_right by (simp add: rep_down_right)
    ultimately show ?thesis using par f On_right Cons.IH[of "Node u (p, c) t" p] by (subst rb_next_up.simps) simp
  qed
qed

lemma next_rep:
  assumes "rep s fs (Node l (a, c) r) H"
  shows "rb_next a s = Some (first_of (addrs r @ addrs_after fs))"
proof (cases r rule: root_ptr.cases)
  case 1
  then have "rb_right (rbh s a) = None" using assms by (simp add: rep_def)
  with next_up_rep[OF assms, of a] 1 show ?thesis by (simp add: rb_next_def)
next
  case (2 rl b d rr)
  then have "rb_right (rbh s a) = Some b" "tree_at (rbh s) (Some a) r" using assms by (auto simp: rep_def)
  with leftmost_rep[of s "Some a" rl b d rr] 2 show ?thesis
    by (cases "addrs rl") (auto simp: rb_next_def first_of_def)
qed

lemma first_rep: "rep s [] t H \<Longrightarrow> rb_first s = Some (first_of (addrs t))"
  using leftmost_rep[of s None]
  by (cases t rule: root_ptr.cases; cases "addrs t") (auto simp: rep_def rb_first_def first_of_def)

lemma last_rep: "rep s [] t H \<Longrightarrow> rb_last s = Some (if addrs t = [] then None else Some (last (addrs t)))"
  using rightmost_rep[of s None]
  by (cases t rule: root_ptr.cases) (auto simp: rep_def rb_last_def)

lemma next_in_order:
  assumes "rep s [] t H" "addrs t = xs @ a # ys"
  shows "rb_next a s = Some (first_of ys)"
proof -
  have "a \<in> set (addrs (plug t []))" using assms(2) by simp
  then obtain fs l c r where p: "t = plug (Node l (a, c) r) fs"
    using focus_exists[of a t "[]"] by auto
  have r: "rep s fs (Node l (a, c) r) H" using assms(1) p rep_plug by metis
  have d: "distinct (addrs t)" using assms(1) by (simp add: rep_def)
  have "addrs t = (addrs_before fs @ addrs l) @ a # (addrs r @ addrs_after fs)" unfolding p addrs_plug by simp
  with assms(2) d have "ys = addrs r @ addrs_after fs"
    by (metis append_Cons_eq_iff distinct_append disjoint_iff distinct.simps(2) list.set_intros(1))
  with next_rep[OF r] show ?thesis by simp
qed

text \<open>
  Walking the tree: \<open>rb_first\<close> and \<open>rb_last\<close> give the ends of the sequence of nodes, and
  \<open>rb_next\<close> on any node its successor in the sequence, NULL after the last one; all three return on
  every tree.
\<close>

theorem walk_in_order:
  assumes "rep s [] t H" "addrs t = xs @ a # ys"
  shows "rb_next a s = Some (first_of ys) \<and> rb_first s = Some (Some (hd (addrs t))) \<and>
    rb_last s = Some (Some (last (addrs t)))"
  using next_in_order[OF assms] first_rep[OF assms(1)] last_rep[OF assms(1)] assms(2)
  by (cases xs) (auto simp: first_of_def)

theorem walk_in_order_witness: "rb_next 2 demo_chain = Some (Some 5) \<and> rb_first demo_chain = Some (Some 2)"
  using walk_in_order[OF demo_chain_rep, of "[]" 2 "[5]"] by (simp add: first_of_def)

end
