(* ===== verification/RbInsert.thy ===== *)
theory RbInsert
  imports RbAbs
begin

text \<open>
  Insertion into the red-black tree: \<open>rb_insert_color\<close> refines a function on trees and paths, and
  that function restores the red-black invariants and keeps the sequence of nodes.
\<close>

section \<open>The red-black invariants\<close>

fun color_of :: "rbt \<Rightarrow> rb_color" where
  "color_of Leaf = RB_BLACK"
| "color_of (Node l (a, c) r) = c"

fun paint :: "rb_color \<Rightarrow> rbt \<Rightarrow> rbt" where
  "paint c Leaf = Leaf"
| "paint c (Node l (a, _) r) = Node l (a, c) r"

fun black_height :: "rbt \<Rightarrow> nat" where
  "black_height Leaf = 0"
| "black_height (Node l (a, c) r) = black_height l + (if c = RB_BLACK then 1 else 0)"

text \<open>No red node has a red child; all paths downwards have the same number of black nodes.\<close>

fun rb_ok :: "rbt \<Rightarrow> bool" where
  "rb_ok Leaf = True"
| "rb_ok (Node l (a, c) r) =
     (rb_ok l \<and> rb_ok r \<and> black_height l = black_height r \<and>
      (c = RB_RED \<longrightarrow> color_of l = RB_BLACK \<and> color_of r = RB_BLACK))"

definition rb_tree_ok :: "rbt \<Rightarrow> bool" where
  "rb_tree_ok t \<longleftrightarrow> rb_ok t \<and> color_of t = RB_BLACK"

fun path_color :: "rb_step list \<Rightarrow> rb_color" where
  "path_color [] = RB_BLACK"
| "path_color ((d, a, c, u) # fs) = c"

text \<open>The part of a valid tree above a subtree of black height \<open>k\<close>.\<close>

fun path_ok :: "nat \<Rightarrow> rb_step list \<Rightarrow> bool" where
  "path_ok k [] = True"
| "path_ok k ((d, a, c, u) # fs) =
     (rb_ok u \<and> black_height u = k \<and> (c = RB_RED \<longrightarrow> color_of u = RB_BLACK \<and> path_color fs = RB_BLACK \<and> fs \<noteq> []) \<and>
      path_ok (k + (if c = RB_BLACK then 1 else 0)) fs)"

lemma color_not_red [simp]: "c \<noteq> RB_RED \<longleftrightarrow> c = RB_BLACK"
  by (cases c) auto

lemma plug_ok:
  "rb_ok t \<Longrightarrow> path_ok (black_height t) fs \<Longrightarrow> (color_of t = RB_RED \<longrightarrow> path_color fs = RB_BLACK) \<Longrightarrow> rb_ok (plug t fs)"
proof (induction t fs rule: plug.induct)
  case (2 t a c u fs)
  then show ?case by (cases c) auto
next
  case (3 t a c u fs)
  then show ?case by (cases c) auto
qed simp

lemma plug_root_black: "fs \<noteq> [] \<Longrightarrow> path_ok k fs \<Longrightarrow> color_of (plug t fs) = RB_BLACK"
proof (induction t fs arbitrary: k rule: plug.induct)
  case (2 t a c u fs)
  then show ?case by (cases "fs = []"; cases c) auto
next
  case (3 t a c u fs)
  then show ?case by (cases "fs = []"; cases c) auto
qed simp

lemma plug_ok_path:
  "rb_ok (plug t fs) \<Longrightarrow> color_of (plug t fs) = RB_BLACK \<Longrightarrow>
   rb_ok t \<and> path_ok (black_height t) fs \<and> (color_of t = RB_RED \<longrightarrow> path_color fs = RB_BLACK \<and> fs \<noteq> [])"
proof (induction t fs rule: plug.induct)
  case (2 t a c u fs)
  then show ?case by (cases c) auto
next
  case (3 t a c u fs)
  then show ?case by (cases c) auto
qed simp

section \<open>The repair as a function\<close>

text \<open>A node with its two subtrees in the order of the sides.\<close>

fun join :: "rb_side \<Rightarrow> rbt \<Rightarrow> nat \<times> rb_color \<Rightarrow> rbt \<Rightarrow> rbt" where
  "join On_left t x u = Node t x u"
| "join On_right t x u = Node u x t"

text \<open>
  The rotations at the grandparent \<open>g\<close> when the uncle \<open>u\<close> is black: the new node \<open>n\<close> is an outer
  grandchild, or an inner one.
\<close>

fun ins_rotate :: "rb_side \<Rightarrow> rb_side \<Rightarrow> rbt \<Rightarrow> nat \<Rightarrow> rbt \<Rightarrow> nat \<Rightarrow> rbt \<Rightarrow> rbt" where
  "ins_rotate On_left On_left t p s g u = Node t (p, RB_BLACK) (Node s (g, RB_RED) u)"
| "ins_rotate On_left On_right (Node ln (n, c) rn) p s g u = Node (Node s (p, RB_RED) ln) (n, RB_BLACK) (Node rn (g, RB_RED) u)"
| "ins_rotate On_right On_right t p s g u = Node (Node u (g, RB_RED) s) (p, RB_BLACK) t"
| "ins_rotate On_right On_left (Node ln (n, c) rn) p s g u = Node (Node u (g, RB_RED) ln) (n, RB_BLACK) (Node rn (p, RB_RED) s)"
| "ins_rotate _ _ Leaf p s g u = Leaf"

fun ins_fix :: "rbt \<Rightarrow> rb_step list \<Rightarrow> rbt" where
  "ins_fix t [] = t"
| "ins_fix t [f] = plug t [f]"
| "ins_fix t ((d, p, RB_BLACK, s) # f # fs) = plug t ((d, p, RB_BLACK, s) # f # fs)"
| "ins_fix t ((d, p, RB_RED, s) # (d', g, c, u) # fs) =
     (if color_of u = RB_RED
      then ins_fix (join d' (join d t (p, RB_BLACK) s) (g, RB_RED) (paint RB_BLACK u)) fs
      else plug (ins_rotate d' d t p s g u) fs)"

lemma ins_fix_addrs: "t \<noteq> Leaf \<Longrightarrow> addrs (ins_fix t fs) = addrs (plug t fs)"
proof (induction t fs rule: ins_fix.induct)
  case (4 t d p s d' g c u fs)
  show ?case
  proof (cases "color_of u = RB_RED")
    case True
    have "join d' (join d t (p, RB_BLACK) s) (g, RB_RED) (paint RB_BLACK u) \<noteq> Leaf" by (cases d') auto
    from 4(1)[OF True this] True show ?thesis
      by (cases d; cases d'; cases u rule: root_ptr.cases) (simp_all add: addrs_plug)
  next
    case False
    with 4(2) show ?thesis
      by (cases d; cases d'; cases t rule: root_ptr.cases) (simp_all add: addrs_plug)
  qed
qed simp_all

lemma ins_fix_ok:
  "rb_ok t \<Longrightarrow> t \<noteq> Leaf \<Longrightarrow> color_of t = RB_RED \<Longrightarrow> path_ok (black_height t) fs \<Longrightarrow> rb_ok (ins_fix t fs)"
proof (induction t fs rule: ins_fix.induct)
  case (2 t f)
  then show ?case by (cases f; cases "fst f") (auto intro!: plug_ok)
next
  case (3 t d p s f fs)
  then show ?case unfolding ins_fix.simps by (intro plug_ok) auto
next
  case (4 t d p s d' g c u fs)
  then obtain l n r where t: "t = Node l (n, RB_RED) r" by (cases t rule: root_ptr.cases) auto
  have c: "c = RB_BLACK" using 4(5) by auto
  show ?case
  proof (cases "color_of u = RB_RED")
    case True
    then obtain ul ua ur where u: "u = Node ul (ua, RB_RED) ur" by (cases u rule: root_ptr.cases) auto
    have "rb_ok (ins_fix (join d' (join d t (p, RB_BLACK) s) (g, RB_RED) (paint RB_BLACK u)) fs)"
      using 4(2-5) True t u c by (intro 4(1)[OF True]) (cases d; cases d'; auto)+
    with True show ?thesis by simp
  next
    case False
    with 4(2-5) t c show ?thesis
      by (cases d; cases d') (auto intro!: plug_ok)
  qed
qed simp_all

section \<open>The code implements it\<close>

lemma insert_color_loop_stop:
  assumes "rep s fs (Node l (n, c) r) H" "path_color fs = RB_BLACK"
  shows "rb_insert_color_loop n s = Some s"
  using assms
  by (cases fs rule: path_parent.cases; subst rb_insert_color_loop.simps) (auto simp: rep_def rb_is_red_def)

lemma insert_recolor:
  assumes "rep s ((d, p, RB_RED, sib) # (d', g, c, u) # fs) t H" "u = Node ul (ua, cu) ur"
  shows "rep (on_heap (rb_set_color g RB_RED \<circ> rb_set_color p RB_BLACK \<circ> rb_set_color ua RB_BLACK) s) fs
    (join d' (join d t (p, RB_BLACK) sib) (g, RB_RED) (paint RB_BLACK u)) H"
  using assms by (cases d; cases d') (auto simp: rep_def rb_set_defs)

text \<open>One step of the loop at a red parent with a grandparent.\<close>

lemma insert_color_loop_unfold:
  assumes "rep s ((d, p, RB_RED, sib) # (d', g, c, u) # fs) (Node l (n, cn) r) H"
  shows "rb_insert_color_loop n s =
    (if color_of u = RB_RED then rb_insert_color_loop g
       (on_heap (rb_set_color g RB_RED \<circ> rb_set_color p RB_BLACK \<circ> rb_set_color (the (root_ptr u)) RB_BLACK) s)
     else if d' = On_left then
       do { (p', n', s1) \<leftarrow> (if d = On_right then do { s1 \<leftarrow> rb_rotate_left p s; Some (n, p, s1) } else Some (p, n, s));
            s2 \<leftarrow> rb_rotate_right g (on_heap (rb_set_color g RB_RED \<circ> rb_set_color p' RB_BLACK) s1);
            rb_insert_color_loop n' s2 }
     else
       do { (p', n', s1) \<leftarrow> (if d = On_left then do { s1 \<leftarrow> rb_rotate_right p s; Some (n, p, s1) } else Some (p, n, s));
            s2 \<leftarrow> rb_rotate_left g (on_heap (rb_set_color g RB_RED \<circ> rb_set_color p' RB_BLACK) s1);
            rb_insert_color_loop n' s2 })"
proof -
  have par: "rb_parent (rbh s n) = Some p" "rb_is_red s p" "rb_parent (rbh s p) = Some g"
    using assms by (auto simp: rep_def rb_is_red_def)
  have dis: "p \<notin> set (addrs u)" "n \<notin> set (addrs sib)" using assms by (auto simp: rep_def)
  have gl: "Some p = rb_left (rbh s g) \<longleftrightarrow> d' = On_left"
    using assms dis root_ptr_in[of u p] by (auto simp: rep_def)
  have pn: "rb_right (rbh s p) = Some n \<longleftrightarrow> d = On_right" "rb_left (rbh s p) = Some n \<longleftrightarrow> d = On_left"
    using assms dis root_ptr_in[of sib n] by (cases d; auto simp: rep_def)+
  have un: "(if d' = On_left then rb_right (rbh s g) else rb_left (rbh s g)) = root_ptr u"
    using assms by (auto simp: rep_def)
  have tu: "tree_at (rbh s) (Some g) u" using assms by (auto simp: rep_def)
  then have nb: "null_or_black s (root_ptr u) \<longleftrightarrow> color_of u \<noteq> RB_RED"
    by (cases u rule: root_ptr.cases) (auto simp: null_or_black_def rb_is_red_def)
  show ?thesis
  proof (cases d')
    case On_left
    with un gl have "rb_right (rbh s g) = root_ptr u" "rb_left (rbh s g) = Some p" by simp_all
    with par pn nb On_left show ?thesis
      by (subst rb_insert_color_loop.simps) (simp add: Let_def)
  next
    case On_right
    with un gl have "rb_left (rbh s g) = root_ptr u" "Some p \<noteq> root_ptr u" by simp_all
    with par pn nb On_right show ?thesis
      by (subst rb_insert_color_loop.simps) (simp add: Let_def)
  qed
qed

lemma rep_recolor2:
  "rep s fs (Node (Node A (p, cp) B) (g, c) u) H \<Longrightarrow>
     rep (on_heap (rb_set_color g cg \<circ> rb_set_color p c') s) fs (Node (Node A (p, c') B) (g, cg) u) H"
  "rep s fs (Node u (g, c) (Node A (p, cp) B)) H \<Longrightarrow>
     rep (on_heap (rb_set_color g cg \<circ> rb_set_color p c') s) fs (Node u (g, cg) (Node A (p, c') B)) H"
  by (auto simp: rep_def rb_set_defs)

text \<open>The rotations at a black uncle, from the outer and from the inner grandchild.\<close>

lemma insert_outer_left:
  assumes "rep s fs (Node (Node t (p, RB_RED) sib) (g, c) u) H"
  shows "\<exists>s'. rb_rotate_right g (on_heap (rb_set_color g RB_RED \<circ> rb_set_color p RB_BLACK) s) = Some s' \<and>
    rep s' fs (Node t (p, RB_BLACK) (Node sib (g, RB_RED) u)) H"
  by (rule rotate_right_rep) (rule rep_recolor2(1)[OF assms])

lemma insert_outer_right:
  assumes "rep s fs (Node u (g, c) (Node sib (p, RB_RED) t)) H"
  shows "\<exists>s'. rb_rotate_left g (on_heap (rb_set_color g RB_RED \<circ> rb_set_color p RB_BLACK) s) = Some s' \<and>
    rep s' fs (Node (Node u (g, RB_RED) sib) (p, RB_BLACK) t) H"
  by (rule rotate_left_rep) (rule rep_recolor2(2)[OF assms])

lemma loop_stops_left: "rep s fs (Node (Node l (n, c) r) (p, RB_BLACK) u) H \<Longrightarrow> rb_insert_color_loop n s = Some s"
  by (rule insert_color_loop_stop[of s "(On_left, p, RB_BLACK, u) # fs"]) (simp_all add: rep_down_left)

lemma loop_stops_right: "rep s fs (Node u (p, RB_BLACK) (Node l (n, c) r)) H \<Longrightarrow> rb_insert_color_loop n s = Some s"
  by (rule insert_color_loop_stop[of s "(On_right, p, RB_BLACK, u) # fs"]) (simp_all add: rep_down_right)

lemma insert_rotate_rep:
  assumes "rep s ((d, p, RB_RED, sib) # (d', g, c, u) # fs) (Node l (n, cn) r) H" "color_of u \<noteq> RB_RED"
  shows "\<exists>s'. rb_insert_color_loop n s = Some s' \<and> rep s' fs (ins_rotate d' d (Node l (n, cn) r) p sib g u) H"
proof -
  note unf = insert_color_loop_unfold[OF assms(1)]
  let ?t = "Node l (n, cn) r"
  consider "d' = On_left" "d = On_left" | "d' = On_left" "d = On_right" | "d' = On_right" "d = On_right" | "d' = On_right" "d = On_left"
    by (cases d; cases d') auto
  then show ?thesis
  proof cases
    case 1
    then have "rep s fs (Node (Node ?t (p, RB_RED) sib) (g, c) u) H" using assms(1) by (simp add: rep_down_left)
    from insert_outer_left[OF this] obtain s' where
      r: "rb_rotate_right g (on_heap (rb_set_color g RB_RED \<circ> rb_set_color p RB_BLACK) s) = Some s'"
      and s': "rep s' fs (Node ?t (p, RB_BLACK) (Node sib (g, RB_RED) u)) H" by blast
    with unf assms(2) 1 loop_stops_left[OF s'] show ?thesis by simp
  next
    case 2
    then have "rep s ((On_left, g, c, u) # fs) (Node sib (p, RB_RED) ?t) H" using assms(1) by (simp add: rep_down_right)
    from rotate_left_rep[OF this] obtain s1 where r1: "rb_rotate_left p s = Some s1"
      and "rep s1 fs (Node (Node (Node sib (p, RB_RED) l) (n, cn) r) (g, c) u) H" by (auto simp: rep_down_left)
    then have "rep (on_heap (rb_set_color g RB_RED \<circ> rb_set_color n RB_BLACK) s1) fs
        (Node (Node (Node sib (p, RB_RED) l) (n, RB_BLACK) r) (g, RB_RED) u) H" by (intro rep_recolor2)
    from rotate_right_rep[OF this] obtain s' where
      r: "rb_rotate_right g (on_heap (rb_set_color g RB_RED \<circ> rb_set_color n RB_BLACK) s1) = Some s'"
      and s': "rep s' fs (Node (Node sib (p, RB_RED) l) (n, RB_BLACK) (Node r (g, RB_RED) u)) H" by blast
    with unf assms(2) 2 r1 loop_stops_left[OF s'] show ?thesis by simp
  next
    case 3
    then have "rep s fs (Node u (g, c) (Node sib (p, RB_RED) ?t)) H" using assms(1) by (simp add: rep_down_right)
    from insert_outer_right[OF this] obtain s' where
      r: "rb_rotate_left g (on_heap (rb_set_color g RB_RED \<circ> rb_set_color p RB_BLACK) s) = Some s'"
      and s': "rep s' fs (Node (Node u (g, RB_RED) sib) (p, RB_BLACK) ?t) H" by blast
    with unf assms(2) 3 loop_stops_right[OF s'] show ?thesis by simp
  next
    case 4
    then have "rep s ((On_right, g, c, u) # fs) (Node ?t (p, RB_RED) sib) H" using assms(1) by (simp add: rep_down_left)
    from rotate_right_rep[OF this] obtain s1 where r1: "rb_rotate_right p s = Some s1"
      and "rep s1 fs (Node u (g, c) (Node l (n, cn) (Node r (p, RB_RED) sib))) H" by (auto simp: rep_down_right)
    then have "rep (on_heap (rb_set_color g RB_RED \<circ> rb_set_color n RB_BLACK) s1) fs
        (Node u (g, RB_RED) (Node l (n, RB_BLACK) (Node r (p, RB_RED) sib))) H" by (intro rep_recolor2)
    from rotate_left_rep[OF this] obtain s' where
      r: "rb_rotate_left g (on_heap (rb_set_color g RB_RED \<circ> rb_set_color n RB_BLACK) s1) = Some s'"
      and s': "rep s' fs (Node (Node u (g, RB_RED) l) (n, RB_BLACK) (Node r (p, RB_RED) sib)) H" by blast
    with unf assms(2) 4 r1 loop_stops_right[OF s'] show ?thesis by simp
  qed
qed

lemma insert_color_loop_rep:
  "rep s fs t H \<Longrightarrow> root_ptr t = Some n \<Longrightarrow> path_ok k fs \<Longrightarrow>
   \<exists>s'. rb_insert_color_loop n s = Some s' \<and> rep s' [] (ins_fix t fs) H"
proof (induction t fs arbitrary: s n k rule: ins_fix.induct)
  case (1 t)
  then show ?case using insert_color_loop_stop[of s "[]"] by (cases t rule: root_ptr.cases) auto
next
  case (2 t f)
  obtain d p c u where f: "f = (d, p, c, u)" by (cases f)
  with 2 have "path_color [f] = RB_BLACK" by (cases c) auto
  with 2 insert_color_loop_stop[of s "[f]"] show ?case
    by (cases t rule: root_ptr.cases) (auto simp flip: rep_plug)
next
  case (3 t d p sib f fs)
  then show ?case using insert_color_loop_stop[of s "(d, p, RB_BLACK, sib) # f # fs"]
    unfolding ins_fix.simps by (cases t rule: root_ptr.cases) (auto simp flip: rep_plug simp del: plug.simps)
next
  case (4 t d p sib d' g c u fs)
  then obtain l cn r where t: "t = Node l (n, cn) r" by (cases t rule: root_ptr.cases) auto
  note unf = insert_color_loop_unfold[OF 4(2)[unfolded t]]
  show ?case
  proof (cases "color_of u = RB_RED")
    case True
    then obtain ul ua ur where u: "u = Node ul (ua, RB_RED) ur" by (cases u rule: root_ptr.cases) auto
    let ?t = "join d' (join d t (p, RB_BLACK) sib) (g, RB_RED) (paint RB_BLACK u)"
    let ?s = "on_heap (rb_set_color g RB_RED \<circ> rb_set_color p RB_BLACK \<circ> rb_set_color ua RB_BLACK) s"
    have "path_ok (k + 1) fs" using 4(4) by auto
    moreover have "root_ptr ?t = Some g" by (cases d') simp_all
    ultimately show ?thesis
      using 4(1)[OF True insert_recolor[OF 4(2) u]] unf True u by simp
  next
    case False
    with insert_rotate_rep[OF 4(2)[unfolded t]] t show ?thesis by (auto simp flip: rep_plug)
  qed
qed

text \<open>The link field a path ends in, and the new node there.\<close>

fun path_link :: "rb_step list \<Rightarrow> rb_link" where
  "path_link [] = Link_root"
| "path_link ((On_left, a, c, u) # fs) = Link_left a"
| "path_link ((On_right, a, c, u) # fs) = Link_right a"

lemma path_addrs_set: "set (path_addrs fs) = set (addrs_before fs) \<union> set (addrs_after fs)"
  by (induction fs rule: addrs_before.induct) auto

lemma link_node_rep:
  "rep s fs Leaf H \<Longrightarrow> n \<notin> set (path_addrs fs) \<Longrightarrow>
   rep (rb_link_node n (path_parent fs) (path_link fs) s) fs (Node Leaf (n, RB_RED) Leaf) H"
  by (cases fs rule: path_link.cases) (auto simp: rep_def rb_link_node_def rb_set_defs)

lemma rep_paint_root: "rep s [] t H \<Longrightarrow> root_ptr t = Some r \<Longrightarrow> rep (on_heap (rb_set_color r c) s) [] (paint c t) H"
  by (cases t rule: root_ptr.cases) (auto intro: rep_set_color)

lemma paint_black_ok: "rb_ok t \<Longrightarrow> rb_tree_ok (paint RB_BLACK t)"
  by (cases t rule: root_ptr.cases) (auto simp: rb_tree_ok_def)

lemma addrs_paint [simp]: "addrs (paint c t) = addrs t"
  by (cases t rule: root_ptr.cases) auto

lemma root_ptr_path: "rep s [] t H \<Longrightarrow> rb_root s = root_ptr t"
  by (simp add: rep_def)

lemma insert_place:
  assumes "rep s fs Leaf H" "rb_tree_ok (plug Leaf fs)" "n \<notin> set (addrs (plug Leaf fs))"
  shows "\<exists>s' t'. rb_insert_color n (rb_link_node n (path_parent fs) (path_link fs) s) = Some s' \<and> rep s' [] t' H \<and>
    rb_tree_ok t' \<and> addrs t' = addrs_before fs @ n # addrs_after fs"
proof -
  let ?t = "Node Leaf (n, RB_RED) Leaf" and ?s = "rb_link_node n (path_parent fs) (path_link fs) s"
  have n: "n \<notin> set (path_addrs fs)" using assms(3) by (simp add: addrs_plug path_addrs_set)
  have r: "rep ?s fs ?t H" by (rule link_node_rep[OF assms(1) n])
  have p: "path_ok 0 fs" using plug_ok_path[of Leaf fs] assms(2) by (auto simp: rb_tree_ok_def)
  from insert_color_loop_rep[OF r _ p] obtain s1 where
    s1: "rb_insert_color_loop n ?s = Some s1" "rep s1 [] (ins_fix ?t fs) H" by auto
  have a: "addrs (ins_fix ?t fs) = addrs_before fs @ n # addrs_after fs" by (simp add: ins_fix_addrs addrs_plug)
  have "ins_fix ?t fs \<noteq> Leaf" using a by (metis addrs_simps(1) append_is_Nil_conv list.distinct(1))
  then obtain q where q: "root_ptr (ins_fix ?t fs) = Some q" by (cases "ins_fix ?t fs" rule: root_ptr.cases) auto
  then have "rb_insert_color n ?s = Some (on_heap (rb_set_color q RB_BLACK) s1)"
    using s1 root_ptr_path[OF s1(2)] by (simp add: rb_insert_color_def)
  moreover have "rb_ok (ins_fix ?t fs)" by (rule ins_fix_ok) (use p in auto)
  ultimately show ?thesis using rep_paint_root[OF s1(2) q, of RB_BLACK] paint_black_ok a
    by (intro exI[of _ "on_heap (rb_set_color q RB_BLACK) s1"] exI[of _ "paint RB_BLACK (ins_fix ?t fs)"]) simp
qed

text \<open>
  C17. Insertion: \<open>rb_link_node\<close> at any free place of a valid red-black tree followed by \<open>rb_insert_color\<close>
  always returns (no NULL is dereferenced, the loop ends), and the result represents a
  valid red-black tree with a black root whose sequence of nodes is the old one with the new node at
  that place.
\<close>

theorem insert_correct:
  assumes "rep s fs Leaf (rbh s)" "rb_tree_ok (plug Leaf fs)" "n \<notin> set (addrs (plug Leaf fs))"
  shows "\<exists>s' t'. rb_insert_color n (rb_link_node n (path_parent fs) (path_link fs) s) = Some s' \<and> rb_tree_ok t' \<and>
    addrs t' = addrs_before fs @ n # addrs_after fs \<and> rep s' [] t' (rbh s') \<and> (\<forall>a. a \<notin> set (addrs t') \<longrightarrow> rbh s' a = rbh s a)"
proof -
  obtain s' t' where r: "rb_insert_color n (rb_link_node n (path_parent fs) (path_link fs) s) = Some s'" "rep s' [] t' (rbh s)"
    "rb_tree_ok t'" "addrs t' = addrs_before fs @ n # addrs_after fs" using insert_place[OF assms] by blast
  moreover have "rep s' [] t' (rbh s')" "\<forall>a. a \<notin> set (addrs t') \<longrightarrow> rbh s' a = rbh s a" using r(2) by (auto simp: rep_def)
  ultimately show ?thesis by blast
qed

theorem insert_correct_witness:
  "\<exists>s' t'. rb_insert_color 3 (rb_link_node 3 (Some 2) (Link_right 2) demo_chain) = Some s' \<and> rb_tree_ok t' \<and>
     addrs t' = [2, 3, 5] \<and> rep s' [] t' (rbh s') \<and> (\<forall>a. a \<notin> set (addrs t') \<longrightarrow> rbh s' a = rbh demo_chain a)"
proof -
  have "rep demo_chain [(On_right, 2, RB_RED, Leaf), (On_left, 5, RB_BLACK, Leaf)] Leaf (rbh demo_chain)"
    by (simp add: demo_chain_def rep_def)
  from insert_correct[OF this, of 3] show ?thesis by (simp add: rb_tree_ok_def)
qed

end
