(* ===== verification/RbErase.thy ===== *)
theory RbErase
  imports RbInsert
begin

text \<open>
  Removal from the red-black tree: \<open>rb_erase\<close> with the repair loop \<open>__rb_erase_color\<close> refines a
  function on trees and paths that restores the red-black invariants and removes one node from the sequence.
\<close>

section \<open>The repair as a function\<close>

text \<open>The children of the sibling on the side of the focus and on the other side.\<close>

fun near :: "rb_side \<Rightarrow> rbt \<Rightarrow> rbt" where
  "near d Leaf = Leaf"
| "near On_left (Node l x r) = l"
| "near On_right (Node l x r) = r"

fun far :: "rb_side \<Rightarrow> rbt \<Rightarrow> rbt" where
  "far d Leaf = Leaf"
| "far On_left (Node l x r) = r"
| "far On_right (Node l x r) = l"

fun root_addr :: "rbt \<Rightarrow> nat" where
  "root_addr Leaf = 0"
| "root_addr (Node l (a, c) r) = a"

definition nephews_black :: "rbt \<Rightarrow> bool" where
  "nephews_black w \<longleftrightarrow> color_of (near On_left w) = RB_BLACK \<and> color_of (far On_left w) = RB_BLACK"

text \<open>The rotations at a black sibling \<open>w\<close> with a red child: a single one when the far child is red,
  otherwise a double one.\<close>

definition del_rotate :: "rb_side \<Rightarrow> rbt \<Rightarrow> nat \<Rightarrow> rb_color \<Rightarrow> rbt \<Rightarrow> rbt" where
  "del_rotate d t p c w =
     (if color_of (far d w) = RB_RED
      then join d (join d t (p, RB_BLACK) (near d w)) (root_addr w, c) (paint RB_BLACK (far d w))
      else let x = near d w
           in join d (join d t (p, RB_BLACK) (near d x)) (root_addr x, c) (join d (far d x) (root_addr w, RB_BLACK) (far d w)))"

fun del_fix :: "rbt \<Rightarrow> rb_step list \<Rightarrow> rbt" where
  "del_fix t [] = paint RB_BLACK t"
| "del_fix t ((d, p, c, w) # fs) =
     (if color_of t = RB_RED then plug (paint RB_BLACK t) ((d, p, c, w) # fs)
      else if color_of w = RB_RED then
        (let w1 = near d w; fs1 = (d, root_addr w, RB_BLACK, far d w) # fs
         in if nephews_black w1 then plug (join d t (p, RB_BLACK) (paint RB_RED w1)) fs1
            else paint RB_BLACK (plug (del_rotate d t p RB_RED w1) fs1))
      else if nephews_black w then del_fix (join d t (p, c) (paint RB_RED w)) fs
      else paint RB_BLACK (plug (del_rotate d t p c w) fs))"

text \<open>The sibling of a subtree that lacks a black node is not empty, and neither are its children when it is red.\<close>

lemma path_ok_sibling:
  assumes "path_ok (Suc k) ((d, p, c, w) # fs)"
  shows "w \<noteq> Leaf" "color_of w = RB_RED \<Longrightarrow> c = RB_BLACK \<and> near d' w \<noteq> Leaf \<and> far d' w \<noteq> Leaf \<and>
    color_of (near d' w) = RB_BLACK \<and> color_of (far d' w) = RB_BLACK"
  using assms by (cases w rule: root_ptr.cases; cases d'; cases c; auto)+

lemma color_cases: "color_of w = RB_RED \<Longrightarrow> \<exists>l a r. w = Node l (a, RB_RED) r"
  by (cases w rule: root_ptr.cases) auto

lemma black_cases: "w \<noteq> Leaf \<Longrightarrow> color_of w = RB_BLACK \<Longrightarrow> \<exists>l a r. w = Node l (a, RB_BLACK) r"
  by (cases w rule: root_ptr.cases) auto

lemma del_rotate_addrs:
  "w \<noteq> Leaf \<Longrightarrow> \<not> nephews_black w \<Longrightarrow> addrs (del_rotate d t p c w) = addrs (join d t (p, c) w)"
proof -
  assume w: "w \<noteq> Leaf" "\<not> nephews_black w"
  then obtain l a cw r where wl: "w = Node l (a, cw) r" by (cases w rule: root_ptr.cases) auto
  with w show ?thesis
    by (cases d; cases l rule: root_ptr.cases; cases r rule: root_ptr.cases)
      (auto simp: del_rotate_def nephews_black_def Let_def)
qed

lemma del_rotate_ok:
  assumes "rb_ok t" "rb_ok w" "black_height w = Suc (black_height t)" "color_of w = RB_BLACK" "\<not> nephews_black w"
    "w \<noteq> Leaf" "c = RB_RED \<longrightarrow> color_of t = RB_BLACK"
  shows "rb_ok (del_rotate d t p c w) \<and> color_of (del_rotate d t p c w) = c \<and>
    black_height (del_rotate d t p c w) = black_height w + (if c = RB_BLACK then 1 else 0)"
proof -
  obtain l a r where wl: "w = Node l (a, RB_BLACK) r" using black_cases assms(4,6) by blast
  with assms show ?thesis
    by (cases d; cases l rule: root_ptr.cases; cases r rule: root_ptr.cases)
      (auto simp: del_rotate_def nephews_black_def Let_def)
qed

lemma paint_black_id: "color_of t = RB_BLACK \<Longrightarrow> paint RB_BLACK t = t"
  by (cases t rule: root_ptr.cases) auto

lemma plug_tree_ok:
  "rb_ok t \<Longrightarrow> path_ok (black_height t) fs \<Longrightarrow> (color_of t = RB_RED \<longrightarrow> path_color fs = RB_BLACK \<and> fs \<noteq> []) \<Longrightarrow> rb_tree_ok (plug t fs)"
  using plug_ok[of t fs] plug_root_black[of fs "black_height t" t] by (cases "fs = []") (auto simp: rb_tree_ok_def)

text \<open>The parts of a red sibling and the path through it after the rotation.\<close>

lemma red_sibling:
  assumes "path_ok (Suc k) ((d, p, c, w) # fs)" "color_of w = RB_RED"
  obtains w1 where "w1 = near d w" "rb_ok w1" "black_height w1 = Suc k" "color_of w1 = RB_BLACK" "w1 \<noteq> Leaf"
    "path_ok (Suc k) ((d, root_addr w, RB_BLACK, far d w) # fs)"
    "w = (case d of On_left \<Rightarrow> Node w1 (root_addr w, RB_RED) (far d w) | On_right \<Rightarrow> Node (far d w) (root_addr w, RB_RED) w1)"
proof -
  obtain l a r where w: "w = Node l (a, RB_RED) r" using color_cases assms(2) by blast
  show ?thesis
  proof (rule that[OF refl])
    show "near d w \<noteq> Leaf" "color_of (near d w) = RB_BLACK" using path_ok_sibling(2)[OF assms, of d] by simp_all
  qed (use assms w path_ok_sibling(2)[OF assms, of d] in \<open>cases d; auto\<close>)+
qed

lemma del_fix_addrs:
  "path_ok (Suc k) fs \<Longrightarrow> addrs (del_fix t fs) = addrs (plug t fs)"
proof (induction t fs arbitrary: k rule: del_fix.induct)
  case (2 t d p c w fs)
  have w: "w \<noteq> Leaf" using path_ok_sibling(1)[OF 2(2)] .
  consider (red) "color_of t = RB_RED" | (rs) "color_of t \<noteq> RB_RED" "color_of w = RB_RED"
    | (nb) "color_of t \<noteq> RB_RED" "color_of w \<noteq> RB_RED" "nephews_black w"
    | (rot) "color_of t \<noteq> RB_RED" "color_of w \<noteq> RB_RED" "\<not> nephews_black w" by blast
  then show ?case
  proof cases
    case red
    then show ?thesis by (cases d) (simp_all add: addrs_plug)
  next
    case rs
    obtain w1 where w1: "w1 = near d w" "w1 \<noteq> Leaf"
      "w = (case d of On_left \<Rightarrow> Node w1 (root_addr w, RB_RED) (far d w) | On_right \<Rightarrow> Node (far d w) (root_addr w, RB_RED) w1)"
      using red_sibling[OF 2(2) rs(2)] by metis
    have "addrs (del_fix t ((d, p, c, w) # fs)) = addrs (plug (join d t (p, RB_BLACK) w1) ((d, root_addr w, RB_BLACK, far d w) # fs))"
      using rs w1(1,2) del_rotate_addrs[of w1 d t p RB_RED]
      by (cases d) (auto simp: addrs_plug Let_def)
    also have "\<dots> = addrs (plug t ((d, p, c, w) # fs))"
      by (subst (2) w1(3)) (cases d; simp add: addrs_plug)
    finally show ?thesis .
  next
    case nb
    have "path_ok (Suc (Suc k)) fs \<or> path_ok (Suc k) fs" using 2(2) by (cases c) auto
    then have "addrs (del_fix (join d t (p, c) (paint RB_RED w)) fs) = addrs (plug (join d t (p, c) (paint RB_RED w)) fs)"
      using 2(1)[OF nb] by blast
    with nb show ?thesis by (cases d) (simp_all add: addrs_plug)
  next
    case rot
    with del_rotate_addrs[OF w rot(3), of d t p c] show ?thesis by (cases d) (simp_all add: addrs_plug)
  qed
qed simp

lemma del_fix_ok:
  "rb_ok t \<Longrightarrow> path_ok (Suc (black_height t)) fs \<Longrightarrow> rb_tree_ok (del_fix t fs)"
proof (induction t fs rule: del_fix.induct)
  case (1 t)
  then show ?case by (simp add: paint_black_ok)
next
  case (2 t d p c w fs)
  have w: "w \<noteq> Leaf" using path_ok_sibling(1)[OF 2(3)] .
  have wo: "rb_ok w" "black_height w = Suc (black_height t)" using 2(3) by simp_all
  consider (red) "color_of t = RB_RED" | (rs) "color_of t = RB_BLACK" "color_of w = RB_RED"
    | (nb) "color_of t = RB_BLACK" "color_of w = RB_BLACK" "nephews_black w"
    | (rot) "color_of t = RB_BLACK" "color_of w = RB_BLACK" "\<not> nephews_black w" by (metis color_not_red)
  then show ?case
  proof cases
    case red
    then obtain l a r where t: "t = Node l (a, RB_RED) r" using color_cases by blast
    have "rb_tree_ok (plug (paint RB_BLACK t) ((d, p, c, w) # fs))"
      using 2(2,3) t by (intro plug_tree_ok) auto
    with red show ?thesis by simp
  next
    case rs
    obtain w1 where w1: "w1 = near d w" "rb_ok w1" "black_height w1 = Suc (black_height t)" "color_of w1 = RB_BLACK" "w1 \<noteq> Leaf"
      and p1: "path_ok (Suc (black_height t)) ((d, root_addr w, RB_BLACK, far d w) # fs)"
      using red_sibling[OF 2(3) rs(2)] by metis
    let ?fs = "(d, root_addr w, RB_BLACK, far d w) # fs"
    show ?thesis
    proof (cases "nephews_black w1")
      case True
      obtain l a r where wl: "w1 = Node l (a, RB_BLACK) r" using black_cases w1(4,5) by blast
      have "rb_ok (join d t (p, RB_BLACK) (paint RB_RED w1)) \<and>
          black_height (join d t (p, RB_BLACK) (paint RB_RED w1)) = Suc (black_height t)"
        using 2(2) w1(2-5) wl True by (cases d) (auto simp: nephews_black_def)
      then have "rb_tree_ok (plug (join d t (p, RB_BLACK) (paint RB_RED w1)) ?fs)"
        using p1 by (intro plug_tree_ok) auto
      with rs True w1(1) show ?thesis by (simp add: Let_def)
    next
      case False
      from del_rotate_ok[OF 2(2) w1(2,3,4) False w1(5), of RB_RED d p] rs(1)
      have d: "rb_ok (del_rotate d t p RB_RED w1)" "black_height (del_rotate d t p RB_RED w1) = Suc (black_height t)"
        "color_of (del_rotate d t p RB_RED w1) = RB_RED" using w1(3) by simp_all
      then have "rb_tree_ok (plug (del_rotate d t p RB_RED w1) ?fs)" using p1 by (intro plug_tree_ok) auto
      with rs False w1(1) show ?thesis by (simp add: Let_def rb_tree_ok_def paint_black_id)
    qed
  next
    case nb
    obtain l a r where wl: "w = Node l (a, RB_BLACK) r" using black_cases w nb(2) by blast
    have "rb_ok (join d t (p, c) (paint RB_RED w))"
      "path_ok (Suc (black_height (join d t (p, c) (paint RB_RED w)))) fs" if "c = RB_BLACK"
      using 2(2,3) wl nb that by (cases d; auto simp: nephews_black_def)+
    moreover have "rb_tree_ok (del_fix (join d t (p, c) (paint RB_RED w)) fs)" if "c = RB_RED"
    proof -
      let ?t = "join d t (p, c) (paint RB_RED w)"
      have fs: "fs \<noteq> []" using 2(3) that by simp
      then have "del_fix ?t fs = plug (paint RB_BLACK ?t) fs" using that by (cases fs; cases d; auto)
      moreover have "rb_ok (paint RB_BLACK ?t) \<and> black_height (paint RB_BLACK ?t) = Suc (black_height t) \<and> color_of (paint RB_BLACK ?t) = RB_BLACK"
        using 2(2,3) wl nb that by (cases d) (auto simp: nephews_black_def)
      ultimately show ?thesis using 2(3) that by (simp add: plug_tree_ok)
    qed
    ultimately have "rb_tree_ok (del_fix (join d t (p, c) (paint RB_RED w)) fs)"
      using 2(1) nb by (cases c) auto
    with nb show ?thesis by simp
  next
    case rot
    have "c = RB_RED \<longrightarrow> color_of t = RB_BLACK" using rot(1) by simp
    from del_rotate_ok[OF 2(2) wo rot(2,3) w this, of d p] have
      d: "rb_ok (del_rotate d t p c w)" "black_height (del_rotate d t p c w) = Suc (black_height t) + (if c = RB_BLACK then 1 else 0)"
        "color_of (del_rotate d t p c w) = c" using wo(2) by simp_all
    then have "rb_tree_ok (plug (del_rotate d t p c w) fs)" using 2(3) by (intro plug_tree_ok) auto
    with rot show ?thesis by (simp add: rb_tree_ok_def paint_black_id)
  qed
qed

section \<open>The code implements it\<close>

text \<open>The body of the loop for a left child: the red sibling is rotated away, then a black one is handled.\<close>

definition erase_left_black :: "nat \<Rightarrow> nat \<Rightarrow> rb_state \<Rightarrow> (bool \<times> ptr \<times> ptr \<times> rb_state) option" where
  "erase_left_black parent other s =
     (if null_or_black s (rb_left (rbh s other)) \<and> null_or_black s (rb_right (rbh s other)) then
        (let s2 = on_heap (rb_set_color other RB_RED) s
         in Some (False, Some parent, rb_parent (rbh s2 parent), s2))
      else
        do { (other', s3) \<leftarrow>
               (if null_or_black s (rb_right (rbh s other)) then
                  do { let s1 = (case rb_left (rbh s other) of
                                   None \<Rightarrow> s
                                 | Some q \<Rightarrow> on_heap (rb_set_color q RB_BLACK) s);
                       s2 \<leftarrow> rb_rotate_right other (on_heap (rb_set_color other RB_RED) s1);
                       other1 \<leftarrow> rb_right (rbh s2 parent);
                       Some (other1, s2) }
                else Some (other, s));
             let s4 = on_heap (rb_set_color other' (rb_color (rbh s3 parent))) s3;
             let s5 = on_heap (rb_set_color parent RB_BLACK) s4;
             let s6 = (case rb_right (rbh s5 other') of
                         None \<Rightarrow> s5
                       | Some q \<Rightarrow> on_heap (rb_set_color q RB_BLACK) s5);
             s7 \<leftarrow> rb_rotate_left parent s6;
             Some (True, rb_root s7, Some parent, s7) })"

lemma rb_erase_left_phases:
  "rb_erase_left parent s0 =
     do { other0 \<leftarrow> rb_right (rbh s0 parent);
          if rb_is_red s0 other0 then
            do { s1 \<leftarrow> rb_rotate_left parent (on_heap (rb_set_color parent RB_RED \<circ> rb_set_color other0 RB_BLACK) s0);
                 other1 \<leftarrow> rb_right (rbh s1 parent);
                 erase_left_black parent other1 s1 }
          else erase_left_black parent other0 s0 }"
  by (cases "rb_right (rbh s0 parent)")
    (auto simp: rb_erase_left_def erase_left_black_def Let_def split: option.split)

lemma erase_left_nephews:
  assumes "rep s fs (Node t (p, c) (Node l (w, RB_BLACK) r)) H" "nephews_black (Node l (w, RB_BLACK) r)"
  shows "\<exists>s'. erase_left_black p w s = Some (False, Some p, path_parent fs, s') \<and>
    rep s' fs (Node t (p, c) (Node l (w, RB_RED) r)) H"
proof -
  have "null_or_black s (rb_left (rbh s w))" "null_or_black s (rb_right (rbh s w))"
    using assms by (cases l rule: root_ptr.cases; cases r rule: root_ptr.cases;
        auto simp: rep_def null_or_black_def rb_is_red_def nephews_black_def)+
  moreover have "rep (on_heap (rb_set_color w RB_RED) s) fs (Node t (p, c) (Node l (w, RB_RED) r)) H"
    using assms(1) by (auto simp: rep_def rb_set_defs)
  moreover from this have "rb_parent (rbh (on_heap (rb_set_color w RB_RED) s) p) = path_parent fs"
    by (auto simp: rep_def)
  ultimately show ?thesis by (simp add: erase_left_black_def Let_def)
qed

lemma erase_left_far_red:
  assumes "rep s fs (Node t (p, c) (Node a (w, RB_BLACK) (Node fl (f, RB_RED) fr))) H"
  shows "\<exists>s' q. erase_left_black p w s = Some (True, rb_root s', q, s') \<and>
    rep s' fs (Node (Node t (p, RB_BLACK) a) (w, c) (Node fl (f, RB_BLACK) fr)) H"
proof -
  have e: "rb_right (rbh s w) = Some f" "rb_is_red s f" "rb_color (rbh s p) = c" "w \<noteq> p"
    using assms by (auto simp: rep_def rb_is_red_def)
  let ?s = "on_heap (rb_set_color f RB_BLACK) (on_heap (rb_set_color p RB_BLACK) (on_heap (rb_set_color w c) s))"
  have "rep ?s fs (Node t (p, RB_BLACK) (Node a (w, c) (Node fl (f, RB_BLACK) fr))) H"
    using assms by (auto simp: rep_def rb_set_defs)
  from rotate_left_rep[OF this] obtain s' where "rb_rotate_left p ?s = Some s'"
    "rep s' fs (Node (Node t (p, RB_BLACK) a) (w, c) (Node fl (f, RB_BLACK) fr)) H" by blast
  moreover have "rb_right (rbh (on_heap (rb_set_color p RB_BLACK) (on_heap (rb_set_color w c) s)) w) = Some f"
    using e by (simp add: rb_set_defs)
  ultimately show ?thesis using e by (auto simp: erase_left_black_def null_or_black_def)
qed

lemma erase_left_near_red:
  assumes "rep s fs (Node t (p, c) (Node (Node a (x, RB_RED) b) (w, RB_BLACK) f)) H" "color_of f = RB_BLACK"
  shows "\<exists>s' q. erase_left_black p w s = Some (True, rb_root s', q, s') \<and>
    rep s' fs (Node (Node t (p, RB_BLACK) a) (x, c) (Node b (w, RB_BLACK) f)) H"
proof -
  have e: "rb_left (rbh s w) = Some x" "rb_is_red s x" "null_or_black s (rb_right (rbh s w))"
    using assms by (cases f rule: root_ptr.cases; auto simp: rep_def rb_is_red_def null_or_black_def)+
  let ?s1 = "on_heap (rb_set_color w RB_RED) (on_heap (rb_set_color x RB_BLACK) s)"
  have "rep ?s1 ((On_right, p, c, t) # fs) (Node (Node a (x, RB_BLACK) b) (w, RB_RED) f) H"
    using assms(1) by (auto simp: rep_def rb_set_defs)
  from rotate_right_rep[OF this] obtain s2 where s2: "rb_rotate_right w ?s1 = Some s2"
    and "rep s2 ((On_right, p, c, t) # fs) (Node a (x, RB_BLACK) (Node b (w, RB_RED) f)) H" by blast
  then have r2: "rep s2 fs (Node t (p, c) (Node a (x, RB_BLACK) (Node b (w, RB_RED) f))) H"
    by (simp only: rep_down_right)
  have o1: "rb_right (rbh s2 p) = Some x" "rb_color (rbh s2 p) = c" "rb_right (rbh s2 x) = Some w" "x \<noteq> p" using r2 by (auto simp: rep_def)
  let ?s = "on_heap (rb_set_color w RB_BLACK) (on_heap (rb_set_color p RB_BLACK) (on_heap (rb_set_color x c) s2))"
  have "rep ?s fs (Node t (p, RB_BLACK) (Node a (x, c) (Node b (w, RB_BLACK) f))) H"
    using r2 by (auto simp: rep_def rb_set_defs)
  from rotate_left_rep[OF this] obtain s' where "rb_rotate_left p ?s = Some s'"
    "rep s' fs (Node (Node t (p, RB_BLACK) a) (x, c) (Node b (w, RB_BLACK) f)) H" by blast
  moreover have "rb_right (rbh (on_heap (rb_set_color p RB_BLACK) (on_heap (rb_set_color x c) s2)) x) = Some w"
    using o1 by (simp add: rb_set_defs)
  ultimately show ?thesis using e s2 o1 by (auto simp: erase_left_black_def null_or_black_def Let_def)
qed

lemma erase_left_rotate:
  assumes "rep s fs (join On_left t (p, c) w) H" "w \<noteq> Leaf" "color_of w = RB_BLACK" "\<not> nephews_black w"
  shows "\<exists>s' q. erase_left_black p (root_addr w) s = Some (True, rb_root s', q, s') \<and> rep s' fs (del_rotate On_left t p c w) H"
proof (cases "color_of (far On_left w) = RB_RED")
  case True
  obtain n a f where w: "w = Node n (a, RB_BLACK) f" using black_cases[OF assms(2,3)] by blast
  with True obtain fl x fr where "f = Node fl (x, RB_RED) fr" using color_cases[of f] by auto
  with assms(1) w True erase_left_far_red[of s fs t p c n a fl x fr] show ?thesis by (simp add: del_rotate_def)
next
  case False
  obtain n a f where w: "w = Node n (a, RB_BLACK) f" using black_cases[OF assms(2,3)] by blast
  with False assms(4) have "color_of n = RB_RED" by (cases "color_of n") (auto simp: nephews_black_def)
  then obtain nl x nr where "n = Node nl (x, RB_RED) nr" using color_cases by blast
  with assms(1) w False erase_left_near_red[of s fs t p c nl x nr a f] show ?thesis by (simp add: del_rotate_def Let_def)
qed

text \<open>The body of the loop for a right child: the red sibling is rotated away, then a black one is handled.\<close>

definition erase_right_black :: "nat \<Rightarrow> nat \<Rightarrow> rb_state \<Rightarrow> (bool \<times> ptr \<times> ptr \<times> rb_state) option" where
  "erase_right_black parent other s =
     (if null_or_black s (rb_left (rbh s other)) \<and> null_or_black s (rb_right (rbh s other)) then
        (let s2 = on_heap (rb_set_color other RB_RED) s
         in Some (False, Some parent, rb_parent (rbh s2 parent), s2))
      else
        do { (other', s3) \<leftarrow>
               (if null_or_black s (rb_left (rbh s other)) then
                  do { let s1 = (case rb_right (rbh s other) of
                                   None \<Rightarrow> s
                                 | Some q \<Rightarrow> on_heap (rb_set_color q RB_BLACK) s);
                       s2 \<leftarrow> rb_rotate_left other (on_heap (rb_set_color other RB_RED) s1);
                       other1 \<leftarrow> rb_left (rbh s2 parent);
                       Some (other1, s2) }
                else Some (other, s));
             let s4 = on_heap (rb_set_color other' (rb_color (rbh s3 parent))) s3;
             let s5 = on_heap (rb_set_color parent RB_BLACK) s4;
             let s6 = (case rb_left (rbh s5 other') of
                         None \<Rightarrow> s5
                       | Some q \<Rightarrow> on_heap (rb_set_color q RB_BLACK) s5);
             s7 \<leftarrow> rb_rotate_right parent s6;
             Some (True, rb_root s7, Some parent, s7) })"

lemma rb_erase_right_phases:
  "rb_erase_right parent s0 =
     do { other0 \<leftarrow> rb_left (rbh s0 parent);
          if rb_is_red s0 other0 then
            do { s1 \<leftarrow> rb_rotate_right parent (on_heap (rb_set_color parent RB_RED \<circ> rb_set_color other0 RB_BLACK) s0);
                 other1 \<leftarrow> rb_left (rbh s1 parent);
                 erase_right_black parent other1 s1 }
          else erase_right_black parent other0 s0 }"
  by (cases "rb_left (rbh s0 parent)")
    (auto simp: rb_erase_right_def erase_right_black_def Let_def split: option.split)

lemma erase_right_nephews:
  assumes "rep s fs (Node (Node l (w, RB_BLACK) r) (p, c) t) H" "nephews_black (Node l (w, RB_BLACK) r)"
  shows "\<exists>s'. erase_right_black p w s = Some (False, Some p, path_parent fs, s') \<and>
    rep s' fs (Node (Node l (w, RB_RED) r) (p, c) t) H"
proof -
  have "null_or_black s (rb_left (rbh s w))" "null_or_black s (rb_right (rbh s w))"
    using assms by (cases l rule: root_ptr.cases; cases r rule: root_ptr.cases;
        auto simp: rep_def null_or_black_def rb_is_red_def nephews_black_def)+
  moreover have "rep (on_heap (rb_set_color w RB_RED) s) fs (Node (Node l (w, RB_RED) r) (p, c) t) H"
    using assms(1) by (auto simp: rep_def rb_set_defs)
  moreover from this have "rb_parent (rbh (on_heap (rb_set_color w RB_RED) s) p) = path_parent fs"
    by (auto simp: rep_def)
  ultimately show ?thesis by (simp add: erase_right_black_def Let_def)
qed

lemma erase_right_far_red:
  assumes "rep s fs (Node (Node (Node fl (f, RB_RED) fr) (w, RB_BLACK) a) (p, c) t) H"
  shows "\<exists>s' q. erase_right_black p w s = Some (True, rb_root s', q, s') \<and>
    rep s' fs (Node (Node fl (f, RB_BLACK) fr) (w, c) (Node a (p, RB_BLACK) t)) H"
proof -
  have e: "rb_left (rbh s w) = Some f" "rb_is_red s f" "rb_color (rbh s p) = c" "w \<noteq> p"
    using assms by (auto simp: rep_def rb_is_red_def)
  let ?s = "on_heap (rb_set_color f RB_BLACK) (on_heap (rb_set_color p RB_BLACK) (on_heap (rb_set_color w c) s))"
  have "rep ?s fs (Node (Node (Node fl (f, RB_BLACK) fr) (w, c) a) (p, RB_BLACK) t) H"
    using assms by (auto simp: rep_def rb_set_defs)
  from rotate_right_rep[OF this] obtain s' where "rb_rotate_right p ?s = Some s'"
    "rep s' fs (Node (Node fl (f, RB_BLACK) fr) (w, c) (Node a (p, RB_BLACK) t)) H" by blast
  moreover have "rb_left (rbh (on_heap (rb_set_color p RB_BLACK) (on_heap (rb_set_color w c) s)) w) = Some f"
    using e by (simp add: rb_set_defs)
  ultimately show ?thesis using e by (auto simp: erase_right_black_def null_or_black_def)
qed

lemma erase_right_near_red:
  assumes "rep s fs (Node (Node f (w, RB_BLACK) (Node b (x, RB_RED) a)) (p, c) t) H" "color_of f = RB_BLACK"
  shows "\<exists>s' q. erase_right_black p w s = Some (True, rb_root s', q, s') \<and>
    rep s' fs (Node (Node f (w, RB_BLACK) b) (x, c) (Node a (p, RB_BLACK) t)) H"
proof -
  have e: "rb_right (rbh s w) = Some x" "rb_is_red s x" "null_or_black s (rb_left (rbh s w))"
    using assms by (cases f rule: root_ptr.cases; auto simp: rep_def rb_is_red_def null_or_black_def)+
  let ?s1 = "on_heap (rb_set_color w RB_RED) (on_heap (rb_set_color x RB_BLACK) s)"
  have "rep ?s1 ((On_left, p, c, t) # fs) (Node f (w, RB_RED) (Node b (x, RB_BLACK) a)) H"
    using assms(1) by (auto simp: rep_def rb_set_defs)
  from rotate_left_rep[OF this] obtain s2 where s2: "rb_rotate_left w ?s1 = Some s2"
    and "rep s2 ((On_left, p, c, t) # fs) (Node (Node f (w, RB_RED) b) (x, RB_BLACK) a) H" by blast
  then have r2: "rep s2 fs (Node (Node (Node f (w, RB_RED) b) (x, RB_BLACK) a) (p, c) t) H"
    by (simp only: rep_down_left)
  have o1: "rb_left (rbh s2 p) = Some x" "rb_color (rbh s2 p) = c" "rb_left (rbh s2 x) = Some w" "x \<noteq> p" using r2 by (auto simp: rep_def)
  let ?s = "on_heap (rb_set_color w RB_BLACK) (on_heap (rb_set_color p RB_BLACK) (on_heap (rb_set_color x c) s2))"
  have "rep ?s fs (Node (Node (Node f (w, RB_BLACK) b) (x, c) a) (p, RB_BLACK) t) H"
    using r2 by (auto simp: rep_def rb_set_defs)
  from rotate_right_rep[OF this] obtain s' where "rb_rotate_right p ?s = Some s'"
    "rep s' fs (Node (Node f (w, RB_BLACK) b) (x, c) (Node a (p, RB_BLACK) t)) H" by blast
  moreover have "rb_left (rbh (on_heap (rb_set_color p RB_BLACK) (on_heap (rb_set_color x c) s2)) x) = Some w"
    using o1 by (simp add: rb_set_defs)
  ultimately show ?thesis using e s2 o1 by (auto simp: erase_right_black_def null_or_black_def Let_def)
qed

lemma erase_right_rotate:
  assumes "rep s fs (join On_right t (p, c) w) H" "w \<noteq> Leaf" "color_of w = RB_BLACK" "\<not> nephews_black w"
  shows "\<exists>s' q. erase_right_black p (root_addr w) s = Some (True, rb_root s', q, s') \<and> rep s' fs (del_rotate On_right t p c w) H"
proof (cases "color_of (far On_right w) = RB_RED")
  case True
  obtain n a f where w: "w = Node f (a, RB_BLACK) n" using black_cases[OF assms(2,3)] by blast
  with True obtain fl x fr where "f = Node fl (x, RB_RED) fr" using color_cases[of f] by auto
  with assms(1) w True erase_right_far_red[of s fs fl x fr a n p c t] show ?thesis by (simp add: del_rotate_def)
next
  case False
  obtain n a f where w: "w = Node f (a, RB_BLACK) n" using black_cases[OF assms(2,3)] by blast
  with False assms(4) have "color_of n = RB_RED" by (cases "color_of n") (auto simp: nephews_black_def)
  then obtain nl x nr where "n = Node nl (x, RB_RED) nr" using color_cases by blast
  with assms(1) w False erase_right_near_red[of s fs f a nl x nr p c t] show ?thesis by (simp add: del_rotate_def Let_def)
qed


text \<open>Both sides together.\<close>

definition erase_body :: "rb_side \<Rightarrow> nat \<Rightarrow> rb_state \<Rightarrow> (bool \<times> ptr \<times> ptr \<times> rb_state) option" where
  "erase_body d = (case d of On_left \<Rightarrow> rb_erase_left | On_right \<Rightarrow> rb_erase_right)"

definition erase_black :: "rb_side \<Rightarrow> nat \<Rightarrow> nat \<Rightarrow> rb_state \<Rightarrow> (bool \<times> ptr \<times> ptr \<times> rb_state) option" where
  "erase_black d = (case d of On_left \<Rightarrow> erase_left_black | On_right \<Rightarrow> erase_right_black)"

lemma rep_join: "rep s fs (join d t (p, c) w) H \<longleftrightarrow> rep s ((d, p, c, w) # fs) t H"
  by (cases d) (simp_all flip: rep_down_left rep_down_right)

lemma erase_black_nephews:
  assumes "rep s fs (join d t (p, c) w) H" "w \<noteq> Leaf" "color_of w = RB_BLACK" "nephews_black w"
  shows "\<exists>s'. erase_black d p (root_addr w) s = Some (False, Some p, path_parent fs, s') \<and> rep s' fs (join d t (p, c) (paint RB_RED w)) H"
proof -
  obtain l a r where "w = Node l (a, RB_BLACK) r" using black_cases assms(2,3) by blast
  with assms(1,4) show ?thesis
    using erase_left_nephews[of s fs t p c l a r] erase_right_nephews[of s fs l a r p c t]
    by (cases d) (simp_all add: erase_black_def)
qed

lemma erase_black_rotate:
  assumes "rep s fs (join d t (p, c) w) H" "w \<noteq> Leaf" "color_of w = RB_BLACK" "\<not> nephews_black w"
  shows "\<exists>s' q. erase_black d p (root_addr w) s = Some (True, rb_root s', q, s') \<and> rep s' fs (del_rotate d t p c w) H"
  using assms erase_left_rotate[of s fs t p c w] erase_right_rotate[of s fs t p c w]
  by (cases d) (simp_all add: erase_black_def)

lemma erase_body_black:
  assumes "rep s fs (join d t (p, c) w) H" "w \<noteq> Leaf" "color_of w = RB_BLACK"
  shows "erase_body d p s = erase_black d p (root_addr w) s"
proof -
  obtain l a r where "w = Node l (a, RB_BLACK) r" using black_cases assms(2,3) by blast
  moreover from this have "(case d of On_left \<Rightarrow> rb_right (rbh s p) | On_right \<Rightarrow> rb_left (rbh s p)) = Some a"
    "rb_color (rbh s a) = RB_BLACK" using assms(1) by (cases d; simp add: rep_def)+
  ultimately show ?thesis
    by (cases d) (simp_all add: erase_body_def erase_black_def rb_erase_left_phases rb_erase_right_phases rb_is_red_def)
qed

lemma erase_body_red:
  assumes "rep s fs (join d t (p, c) w) H" "color_of w = RB_RED" "near d w \<noteq> Leaf"
  shows "\<exists>s'. erase_body d p s = erase_black d p (root_addr (near d w)) s' \<and>
    rep s' ((d, root_addr w, RB_BLACK, far d w) # fs) (join d t (p, RB_RED) (near d w)) H"
proof -
  obtain l a r where w: "w = Node l (a, RB_RED) r" using color_cases assms(2) by blast
  show ?thesis
  proof (cases d)
    case On_left
    then obtain nl n c' nr where l: "l = Node nl (n, c') nr" using assms(3) w by (cases l rule: root_ptr.cases) auto
    have r: "rep s fs (Node t (p, c) (Node l (a, RB_RED) r)) H" using assms(1) w On_left by simp
    then have e: "rb_right (rbh s p) = Some a" "rb_is_red s a" by (auto simp: rep_def rb_is_red_def)
    have "rep (on_heap (rb_set_color p RB_RED \<circ> rb_set_color a RB_BLACK) s) fs (Node t (p, RB_RED) (Node l (a, RB_BLACK) r)) H"
      using r by (auto simp: rep_def rb_set_defs)
    from rotate_left_rep[OF this] obtain s' where
      s': "rb_rotate_left p (on_heap (rb_set_color p RB_RED \<circ> rb_set_color a RB_BLACK) s) = Some s'"
        "rep s' fs (Node (Node t (p, RB_RED) l) (a, RB_BLACK) r) H" by blast
    then have "rb_right (rbh s' p) = Some n" using l by (auto simp: rep_def)
    with s' e w l On_left show ?thesis
      by (intro exI[of _ s']) (simp add: erase_body_def erase_black_def rb_erase_left_phases rep_down_left)
  next
    case On_right
    then obtain nl n c' nr where l: "r = Node nl (n, c') nr" using assms(3) w by (cases r rule: root_ptr.cases) auto
    have r: "rep s fs (Node (Node l (a, RB_RED) r) (p, c) t) H" using assms(1) w On_right by simp
    then have e: "rb_left (rbh s p) = Some a" "rb_is_red s a" by (auto simp: rep_def rb_is_red_def)
    have "rep (on_heap (rb_set_color p RB_RED \<circ> rb_set_color a RB_BLACK) s) fs (Node (Node l (a, RB_BLACK) r) (p, RB_RED) t) H"
      using r by (auto simp: rep_def rb_set_defs)
    from rotate_right_rep[OF this] obtain s' where
      s': "rb_rotate_right p (on_heap (rb_set_color p RB_RED \<circ> rb_set_color a RB_BLACK) s) = Some s'"
        "rep s' fs (Node l (a, RB_BLACK) (Node r (p, RB_RED) t)) H" by blast
    then have "rb_left (rbh s' p) = Some n" using l by (auto simp: rep_def)
    with s' e w l On_right show ?thesis
      by (intro exI[of _ s']) (simp add: erase_body_def erase_black_def rb_erase_right_phases rep_down_right)
  qed
qed

definition paint_node :: "ptr \<Rightarrow> rb_state \<Rightarrow> rb_state" where
  "paint_node p s = (case p of None \<Rightarrow> s | Some a \<Rightarrow> on_heap (rb_set_color a RB_BLACK) s)"

lemma rep_paint_node: "rep s fs t H \<Longrightarrow> rep (paint_node (root_ptr t) s) fs (paint RB_BLACK t) H"
  by (cases t rule: root_ptr.cases) (auto simp: paint_node_def intro: rep_set_color)

lemma erase_color_stop:
  "\<not> (null_or_black s node \<and> node \<noteq> rb_root s) \<Longrightarrow> rb_erase_color node parent s = Some (paint_node node s)"
  unfolding rb_erase_color_def paint_node_def by (subst rb_erase_color_loop.simps) (auto split: option.split)

lemma null_or_black_rep: "rep s fs t H \<Longrightarrow> null_or_black s (root_ptr t) \<longleftrightarrow> color_of t = RB_BLACK"
  by (cases t rule: root_ptr.cases) (auto simp: rep_def null_or_black_def rb_is_red_def)

lemma path_root_in: "fs \<noteq> [] \<Longrightarrow> \<exists>a \<in> set (path_addrs fs). path_root p fs = Some a"
  by (induction p fs rule: path_root.induct) (metis path_addrs.simps(2) path_root.simps list.set_intros(1) set_append Un_iff list.set_intros(2))+

lemma focus_not_root:
  assumes "rep s fs t H" "fs \<noteq> []"
  shows "root_ptr t \<noteq> rb_root s"
proof -
  obtain a where "a \<in> set (path_addrs fs)" "rb_root s = Some a"
    using assms(1) path_root_in[OF assms(2), of "root_ptr t"] unfolding rep_def by metis
  with assms(1) root_ptr_in[of t a] show ?thesis by (auto simp: rep_def)
qed

lemma erase_color_step:
  assumes "rep s ((d, p, c, w) # fs) t H" "color_of t = RB_BLACK" "w \<noteq> Leaf"
  shows "rb_erase_color (root_ptr t) (Some p) s =
    do { (stop, node', parent', s') \<leftarrow> erase_body d p s;
         if stop then Some (paint_node node' s') else rb_erase_color node' parent' s' }"
proof -
  have c: "null_or_black s (root_ptr t)" "root_ptr t \<noteq> rb_root s"
    using null_or_black_rep[OF assms(1)] focus_not_root[OF assms(1)] assms(2) by simp_all
  have "root_ptr w \<noteq> root_ptr t"
    using assms(1,3) root_ptr_in[of w] root_ptr_in[of t] by (cases w rule: root_ptr.cases) (auto simp: rep_def)
  then have "(if rb_left (rbh s p) = root_ptr t then rb_erase_left p s else rb_erase_right p s) = erase_body d p s"
    using assms(1) by (cases d) (auto simp: rep_def erase_body_def)
  then show ?thesis
    unfolding rb_erase_color_def using c
    by (subst rb_erase_color_loop.simps) (auto simp: paint_node_def split: option.split prod.split bind_split)
qed


lemma rep_whole: "rep s fs t H \<Longrightarrow> rep s [] (plug t fs) H"
  using rep_plug by blast

lemma rep_paint_whole: "rep s [] t H \<Longrightarrow> rep (paint_node (rb_root s) s) [] (paint RB_BLACK t) H"
  using rep_paint_node[of s "[]" t H] by (simp add: rep_def)

lemma erase_color_rep:
  "rep s fs t H \<Longrightarrow> path_ok (Suc k) fs \<Longrightarrow>
   \<exists>s'. rb_erase_color (root_ptr t) (path_parent fs) s = Some s' \<and> rep s' [] (del_fix t fs) H"
proof (induction t fs arbitrary: s k rule: del_fix.induct)
  case (1 t)
  then show ?case using erase_color_stop[of s "root_ptr t"] rep_paint_node[of s "[]" t H] by (simp add: rep_def)
next
  case (2 t d p c w fs)
  have w: "w \<noteq> Leaf" using path_ok_sibling(1)[OF 2(3)] .
  have j: "rep s fs (join d t (p, c) w) H" using 2(2) by (simp add: rep_join)
  have pp: "path_parent ((d, p, c, w) # fs) = Some p" by simp
  consider (red) "color_of t = RB_RED" | (rs) "color_of t = RB_BLACK" "color_of w = RB_RED"
    | (nb) "color_of t = RB_BLACK" "color_of w = RB_BLACK" "nephews_black w"
    | (rot) "color_of t = RB_BLACK" "color_of w = RB_BLACK" "\<not> nephews_black w" by (metis color_not_red)
  then show ?case
  proof cases
    case red
    have "\<not> null_or_black s (root_ptr t)" using null_or_black_rep[OF 2(2)] red by simp
    then have "rb_erase_color (root_ptr t) (Some p) s = Some (paint_node (root_ptr t) s)"
      by (intro erase_color_stop) blast
    moreover have "rep (paint_node (root_ptr t) s) [] (plug (paint RB_BLACK t) ((d, p, c, w) # fs)) H"
      by (rule rep_whole) (rule rep_paint_node[OF 2(2)])
    ultimately show ?thesis using red pp by simp
  next
    case rs
    obtain w1 where w1: "w1 = near d w" "color_of w1 = RB_BLACK" "w1 \<noteq> Leaf"
      using red_sibling[OF 2(3) rs(2)] by metis
    let ?fs = "(d, root_addr w, RB_BLACK, far d w) # fs"
    obtain s1 where s1: "erase_body d p s = erase_black d p (root_addr w1) s1" "rep s1 ?fs (join d t (p, RB_RED) w1) H"
      using erase_body_red[OF j rs(2)] w1(1,3) by blast
    note step = erase_color_step[OF 2(2) rs(1) w]
    show ?thesis
    proof (cases "nephews_black w1")
      case True
      let ?t = "join d t (p, RB_RED) (paint RB_RED w1)"
      obtain s2 where s2: "erase_black d p (root_addr w1) s1 = Some (False, Some p, path_parent ?fs, s2)" "rep s2 ?fs ?t H"
        using erase_black_nephews[OF s1(2) w1(3,2) True] by blast
      have "root_ptr ?t = Some p" "color_of ?t = RB_RED" by (cases d; simp)+
      then have "rb_erase_color (Some p) (path_parent ?fs) s2 = Some (paint_node (Some p) s2)"
        "rep (paint_node (Some p) s2) ?fs (paint RB_BLACK ?t) H"
        using erase_color_stop[of s2 "Some p" "path_parent ?fs"] null_or_black_rep[OF s2(2)] rep_paint_node[OF s2(2)]
        by auto
      then have "rb_erase_color (Some p) (path_parent ?fs) s2 = Some (paint_node (Some p) s2)"
        "rep (paint_node (Some p) s2) [] (plug (paint RB_BLACK ?t) ?fs) H" using rep_whole by blast+
      moreover have "paint RB_BLACK ?t = join d t (p, RB_BLACK) (paint RB_RED w1)" by (cases d) simp_all
      ultimately show ?thesis using step s1(1) s2(1) rs True w1(1) by (simp add: Let_def)
    next
      case False
      obtain s2 q where s2: "erase_black d p (root_addr w1) s1 = Some (True, rb_root s2, q, s2)" "rep s2 ?fs (del_rotate d t p RB_RED w1) H"
        using erase_black_rotate[OF s1(2) w1(3,2) False] by blast
      from s2(2) have "rep s2 [] (plug (del_rotate d t p RB_RED w1) ?fs) H" by (rule rep_whole)
      from rep_paint_whole[OF this] show ?thesis using step s1(1) s2(1) rs False w1(1) by (simp add: Let_def)
    qed
  next
    case nb
    let ?t = "join d t (p, c) (paint RB_RED w)"
    obtain s2 where s2: "erase_black d p (root_addr w) s = Some (False, Some p, path_parent fs, s2)" "rep s2 fs ?t H"
      using erase_black_nephews[OF j w nb(2,3)] by blast
    have "path_ok (Suc (Suc k)) fs \<or> path_ok (Suc k) fs" using 2(3) by (cases c) auto
    then obtain s3 where "rb_erase_color (root_ptr ?t) (path_parent fs) s2 = Some s3" "rep s3 [] (del_fix ?t fs) H"
      using 2(1)[OF _ _ nb(3) s2(2)] nb(1,2) by auto
    moreover have "root_ptr ?t = Some p" by (cases d) simp_all
    ultimately show ?thesis
      using erase_color_step[OF 2(2) nb(1) w] erase_body_black[OF j w nb(2)] s2(1) nb by simp
  next
    case rot
    obtain s2 q where s2: "erase_black d p (root_addr w) s = Some (True, rb_root s2, q, s2)" "rep s2 fs (del_rotate d t p c w) H"
      using erase_black_rotate[OF j w rot(2,3)] by blast
    from s2(2) have "rep s2 [] (plug (del_rotate d t p c w) fs) H" by (rule rep_whole)
    from rep_paint_whole[OF this] show ?thesis
      using erase_color_step[OF 2(2) rot(1) w] erase_body_black[OF j w rot(2)] s2(1) rot by simp
  qed
qed

section \<open>Taking a node out\<close>

text \<open>The node has at most one child, which takes its place.\<close>

text \<open>Hanging the subtree at \<open>q\<close> where \<open>n\<close> hung.\<close>

definition rehang :: "nat \<Rightarrow> ptr \<Rightarrow> ptr \<Rightarrow> rb_state \<Rightarrow> rb_state" where
  "rehang n q parent s = (case parent of
      Some p \<Rightarrow> if rb_left (rbh s p) = Some n then s\<lparr>rbh := rb_set_left p q (rbh s)\<rparr>
                else s\<lparr>rbh := rb_set_right p q (rbh s)\<rparr>
    | None \<Rightarrow> s\<lparr>rb_root := q\<rparr>)"

lemma reparent: "tree_at h q t \<Longrightarrow> distinct (addrs t) \<Longrightarrow> tree_at (rb_set_parent_if (root_ptr t) p h) p t"
  by (cases t rule: root_ptr.cases) (auto simp: rb_set_defs)

lemma reparent_frame: "a \<notin> set (addrs t) \<Longrightarrow> rb_set_parent_if (root_ptr t) p h a = h a"
  by (cases t rule: root_ptr.cases) (auto simp: rb_set_defs)

lemma tree_at_cong: "(\<And>a. a \<in> set (addrs t) \<Longrightarrow> h a = h' a) \<Longrightarrow> tree_at h p t = tree_at h' p t"
  by (induction h p t rule: tree_at.induct) auto

lemma path_at_cong: "(\<And>a. a \<in> set (path_addrs fs) \<Longrightarrow> h a = h' a) \<Longrightarrow> path_at h p fs = path_at h' p fs"
  by (induction h p fs rule: path_at.induct) (auto intro!: arg_cong2[where f = "(\<and>)"] tree_at_cong)

lemma rehang_path:
  assumes "path_at (rbh s) (Some n) fs" "distinct (path_addrs fs)" "n \<notin> set (path_addrs fs)" "rb_root s = path_root (Some n) fs"
  shows "path_at (rbh (rehang n q (path_parent fs) s)) q fs" "rb_root (rehang n q (path_parent fs) s) = path_root q fs"
proof (atomize(full), cases fs rule: path_parent.cases)
  case (2 d p c' u fs')
  then have "root_ptr u \<noteq> Some n" using assms(3) by (auto dest: root_ptr_in)
  with assms 2 show "path_at (rbh (rehang n q (path_parent fs) s)) q fs \<and> rb_root (rehang n q (path_parent fs) s) = path_root q fs"
    by (cases d) (auto simp: rehang_def rb_set_defs)
qed (use assms(4) in \<open>simp add: rehang_def\<close>)

lemma rehang_frame: "a \<notin> set (path_addrs fs) \<Longrightarrow> rbh (rehang n q (path_parent fs) s) a = rbh s a"
  by (cases fs rule: path_parent.cases) (auto simp: rehang_def rb_set_defs)

lemma replace_by_child:
  assumes "rep s fs (Node l (n, c) r) H" "t = l \<and> r = Leaf \<or> t = r \<and> l = Leaf"
  shows "rep (rehang n (root_ptr t) (path_parent fs) (s\<lparr>rbh := rb_set_parent_if (root_ptr t) (path_parent fs) (rbh s)\<rparr>)) fs t (H(n := rbh s n))"
proof -
  define s3 where "s3 = s\<lparr>rbh := rb_set_parent_if (root_ptr t) (path_parent fs) (rbh s)\<rparr>"
  let ?s = "rehang n (root_ptr t) (path_parent fs) s3"
  have f: "tree_at (rbh s) (Some n) t" "distinct (addrs t @ n # path_addrs fs)" "path_at (rbh s) (Some n) fs"
    "rb_root s = path_root (Some n) fs" "\<And>a. a \<notin> set (addrs t @ n # path_addrs fs) \<Longrightarrow> rbh s a = H a"
    using assms by (auto simp: rep_def)
  have s3: "rbh s3 a = rbh s a" if "a \<notin> set (addrs t)" for a using reparent_frame[OF that] by (simp add: s3_def)
  have "path_at (rbh s3) (Some n) fs" using f(2,3) s3 by (subst path_at_cong[where h' = "rbh s"]) (auto simp: disjoint_iff)
  then have p: "path_at (rbh ?s) (root_ptr t) fs" "rb_root ?s = path_root (root_ptr t) fs"
    using rehang_path[of s3 n fs "root_ptr t"] f(2,4) by (auto simp: s3_def)
  have "tree_at (rbh s3) (path_parent fs) t" using reparent[OF f(1)] f(2) by (simp add: s3_def)
  then have "tree_at (rbh ?s) (path_parent fs) t"
    using f(2) rehang_frame[of _ fs n "root_ptr t" s3] by (subst tree_at_cong[where h' = "rbh s3"]) (auto simp: disjoint_iff)
  moreover have "rbh ?s a = (H(n := rbh s n)) a" if "a \<notin> set (addrs t @ path_addrs fs)" for a
    using that f(5)[of a] s3[of a] rehang_frame[of a fs n "root_ptr t" s3] by auto
  ultimately show ?thesis using p f(2) unfolding rep_def s3_def by auto
qed

lemma erase_unlink:
  assumes "rep s fs (Node l (n, c) r) H" "l = Leaf \<or> r = Leaf"
  shows "\<exists>s'. rb_erase n s = (if c = RB_BLACK then rb_erase_color (root_ptr (if l = Leaf then r else l)) (path_parent fs) s' else Some s') \<and>
    rep s' fs (if l = Leaf then r else l) (H(n := rbh s n))"
proof -
  let ?t = "if l = Leaf then r else l"
  have f: "rb_left (rbh s n) = root_ptr l" "rb_right (rbh s n) = root_ptr r" "rb_parent (rbh s n) = path_parent fs"
    "rb_color (rbh s n) = c" using assms(1) by (auto simp: rep_def)
  have rl: "root_ptr t = None \<longleftrightarrow> t = Leaf" for t by (cases t rule: root_ptr.cases) auto
  have child: "(if rb_left (rbh s n) = None then rb_right (rbh s n) else rb_left (rbh s n)) = root_ptr ?t"
    using f rl by auto
  define h1 where "h1 = rb_set_parent_if (root_ptr ?t) (path_parent fs) (rbh s)"
  define s2 where "s2 = rehang n (root_ptr ?t) (path_parent fs) (s\<lparr>rbh := h1\<rparr>)"
  have e: "rb_erase n s = (if c = RB_BLACK then rb_erase_color (root_ptr ?t) (path_parent fs) s2 else Some s2)"
    unfolding rb_erase_def s2_def h1_def rehang_def using assms(2) f rl child by (auto simp: Let_def split: option.split)
  have "rep s2 fs ?t (H(n := rbh s n))" unfolding s2_def h1_def by (rule replace_by_child[OF assms(1)]) (use assms(2) in auto)
  with e show ?thesis by blast
qed


text \<open>
  With two children the successor, the leftmost node of the right subtree, is unlinked and then takes
  the place of the node.
\<close>

definition erase_swap :: "nat \<Rightarrow> nat \<Rightarrow> rb_state \<Rightarrow> rb_state option" where
  "erase_swap n m s =
     do { let s4 = rehang n (Some m) (rb_parent (rbh s n)) (s\<lparr>rbh := (rbh s)(m := rbh s n)\<rparr>);
          l \<leftarrow> rb_left (rbh s4 n);
          let s5 = on_heap (rb_set_parent l (Some m)) s4;
          Some (on_heap (rb_set_parent_if (rb_right (rbh s5 n)) (Some m)) s5) }"

lemma rb_node_copy:
  "x\<lparr>rb_parent := rb_parent y, rb_color := rb_color y, rb_right := rb_right y, rb_left := rb_left y\<rparr> = (y :: rb_node)"
  by (cases x; cases y) simp

lemma rehang_unfold:
  "n \<noteq> m \<Longrightarrow>
   (case rb_parent ((h(m := h n)) n) of
      Some p \<Rightarrow> if rb_left ((h(m := h n)) p) = Some n then s\<lparr>rbh := rb_set_left p (Some m) (h(m := h n))\<rparr>
                else s\<lparr>rbh := rb_set_right p (Some m) (h(m := h n))\<rparr>
    | None \<Rightarrow> s\<lparr>rbh := h(m := h n), rb_root := Some m\<rparr>) =
   rehang n (Some m) (rb_parent (h n)) (s\<lparr>rbh := h(m := h n)\<rparr>)"
  by (simp add: rehang_def split: option.split)

lemma erase_swap_rep:
  assumes "rep s fs (Node l (n, c) r) H" "m \<notin> set (addrs (Node l (n, c) r) @ path_addrs fs)" "l \<noteq> Leaf"
  shows "\<exists>s'. erase_swap n m s = Some s' \<and> rep s' fs (Node l (m, c) r) (H(n := rbh s' n))"
proof -
  define s3 where "s3 = s\<lparr>rbh := (rbh s)(m := rbh s n)\<rparr>"
  define s4 where "s4 = rehang n (Some m) (path_parent fs) s3"
  define h5 where "h5 = rb_set_parent_if (root_ptr l) (Some m) (rbh s4)"
  define h6 where "h6 = rb_set_parent_if (root_ptr r) (Some m) h5"
  have n: "rbh s n = \<lparr>rb_parent = path_parent fs, rb_color = c, rb_right = root_ptr r, rb_left = root_ptr l\<rparr>"
    and t: "tree_at (rbh s) (Some n) l" "tree_at (rbh s) (Some n) r" "path_at (rbh s) (Some n) fs" "rb_root s = path_root (Some n) fs"
    using assms(1) by (auto simp: rep_def)
  have d: "distinct (addrs l @ n # m # addrs r @ path_addrs fs)" using assms(1,2) by (auto simp: rep_def)
  have s4: "rbh s4 a = (if a = m then rbh s n else rbh s a)" if "a \<notin> set (path_addrs fs)" for a
    using rehang_frame[OF that, of n "Some m" s3] by (simp add: s4_def s3_def)
  have p4: "path_at (rbh s4) (Some m) fs" "rb_root s4 = path_root (Some m) fs"
    using rehang_path[of s3 n fs "Some m"] t(3,4) d by (auto simp: s4_def s3_def)
  have l4: "tree_at (rbh s4) (Some n) l" using t(1) d s4 by (subst tree_at_cong[where h' = "rbh s"]) (auto simp: disjoint_iff)
  have r4: "tree_at (rbh s4) (Some n) r" using t(2) d s4 by (subst tree_at_cong[where h' = "rbh s"]) (auto simp: disjoint_iff)
  have fr: "h6 a = rbh s4 a" if "a \<notin> set (addrs l)" "a \<notin> set (addrs r)" for a
    using that by (simp add: h6_def h5_def reparent_frame)
  have r5: "tree_at h5 (Some n) r" using r4 d reparent_frame[of _ l "Some m" "rbh s4"]
    by (subst tree_at_cong[where h' = "rbh s4"]) (auto simp: h5_def disjoint_iff)
  have l6: "tree_at h6 (Some m) l" using reparent[OF l4, of "Some m"] d reparent_frame[of _ r "Some m" h5]
    by (subst tree_at_cong[where h' = h5]) (auto simp: h5_def h6_def disjoint_iff)
  have r6: "tree_at h6 (Some m) r" using reparent[OF r5, of "Some m"] d by (simp add: h6_def)
  have p6: "path_at h6 (Some m) fs" using p4(1) d fr by (subst path_at_cong[where h' = "rbh s4"]) (auto simp: disjoint_iff)
  have m6: "h6 m = rbh s n" using fr[of m] s4[of m] d by simp
  have off: "h6 a = H a" if "a \<noteq> n" "a \<notin> set (addrs (Node l (m, c) r) @ path_addrs fs)" for a
    using that fr[of a] s4[of a] assms(1) by (auto simp: rep_def)
  have "rep (s4\<lparr>rbh := h6\<rparr>) fs (Node l (m, c) r) (H(n := h6 n))"
    using l6 r6 p6 m6 n d p4(2) off by (simp add: rep_def)
  moreover have "erase_swap n m s = Some (s4\<lparr>rbh := h6\<rparr>)"
  proof -
    obtain la where la: "root_ptr l = Some la" using assms(3) by (cases l rule: root_ptr.cases) auto
    have la': "la \<in> set (addrs l)" using root_ptr_in[OF la] .
    have nm: "n \<noteq> m" and n4: "rbh s4 n = rbh s n" using d s4[of n] by auto
    have n5: "rb_right (h5 n) = root_ptr r" using d n4 n by (simp add: h5_def reparent_frame)
    have parent: "rb_parent (rbh s n) = path_parent fs" by (simp add: n)
    show ?thesis
      using n4 n n5 la unfolding erase_swap_def parent s3_def[symmetric] s4_def[symmetric]
      by (simp add: h5_def h6_def rb_set_parent_if_def on_heap_def Let_def cong: option.case_cong)
  qed
  ultimately show ?thesis by (intro exI[of _ "s4\<lparr>rbh := h6\<rparr>"]) simp
qed

lemma rep_frame_in: "rep s fs t (H(m := x)) \<Longrightarrow> m \<in> set (addrs t @ path_addrs fs) \<Longrightarrow> rep s fs t H"
  by (auto simp: rep_def)

definition erase_child :: "nat \<Rightarrow> rb_state \<Rightarrow> rb_state" where
  "erase_child n s = rehang n (rb_right (rbh s n)) (rb_parent (rbh s n))
     (s\<lparr>rbh := rb_set_parent_if (rb_right (rbh s n)) (rb_parent (rbh s n)) (rbh s)\<rparr>)"

lemma erase_child_rep: "rep s fs (Node Leaf (m, cm) mr) H \<Longrightarrow> rep (erase_child m s) fs mr (H(m := rbh s m))"
  using replace_by_child[of s fs Leaf m cm mr H mr] by (simp add: erase_child_def rep_def)

lemma rb_erase_two_children:
  assumes "rb_left (rbh s n) \<noteq> None" "rb_right (rbh s n) = Some r" "rb_leftmost r s = Some m" "rb_parent (rbh s m) = Some par"
    and "par = n \<longleftrightarrow> rb_left (rb_set_parent_if (rb_right (rbh s m)) (Some par) (rbh s) par) \<noteq> Some m" "n \<noteq> m"
  shows "rb_erase n s = do { s' \<leftarrow> erase_swap n m (erase_child m s);
      if rb_color (rbh s m) = RB_BLACK then rb_erase_color (rb_right (rbh s m)) (Some (if par = n then m else par)) s' else Some s' }"
proof -
  define child where "child = rb_right (rbh s m)"
  define h1 where "h1 = rb_set_parent_if child (Some par) (rbh s)"
  define h2 where "h2 = (if par = n then rb_set_right par child h1 else rb_set_left par child h1)"
  define s2 where "s2 = s\<lparr>rbh := h2\<rparr>"
  have ec: "erase_child m s = s2"
    using assms(4,5) by (auto simp: erase_child_def rehang_def s2_def h2_def h1_def child_def)
  have s2: "rbh s2 = h2" and r2: "s2\<lparr>rbh := h\<rparr> = s\<lparr>rbh := h\<rparr>" for h
    by (simp_all add: s2_def)
  have e: "(if par = n then (rb_set_right par child h1, m) else (rb_set_left par child h1, par)) = (h2, if par = n then m else par)"
    by (simp add: h2_def)
  obtain l where l: "rb_left (rbh s n) = Some l" using assms(1) by blast
  show ?thesis
    unfolding rb_erase_def ec erase_swap_def assms(2,3,4) l Let_def bind.bind_lunit child_def[symmetric] h1_def[symmetric]
      e prod.case rb_node_copy rehang_unfold[OF assms(6)]
    by (simp add: r2 s2 cong: if_cong)
qed

lemma plug_append: "plug t (xs @ ys) = plug (plug t xs) ys"
  by (induction t xs rule: plug.induct) simp_all

lemma path_addrs_append: "path_addrs (xs @ ys) = path_addrs xs @ path_addrs ys"
  by (induction xs rule: path_addrs.induct) simp_all

lemma rep_append: "rep s (xs @ ys) t H \<longleftrightarrow> rep s ys (plug t xs) H"
  by (metis plug_append rep_plug)

lemma spine:
  "r \<noteq> Leaf \<Longrightarrow> \<exists>m cm mr rfs. r = plug (Node Leaf (m, cm) mr) rfs \<and> (\<forall>(d, x) \<in> set rfs. d = On_left)"
proof (induction r)
  case (Node l x r)
  obtain a c where x: "x = (a, c)" by force
  show ?case
  proof (cases l)
    case Leaf
    with x show ?thesis by (intro exI[of _ a] exI[of _ c] exI[of _ r] exI[of _ "[]"]) simp
  next
    case (Node ll y lr)
    with Node.IH(1) obtain m cm mr rfs where l: "l = plug (Node Leaf (m, cm) mr) rfs" "\<forall>(d, x) \<in> set rfs. d = On_left" by auto
    have "Node l x r = plug (Node Leaf (m, cm) mr) (rfs @ [(On_left, a, c, r)])" by (simp add: l(1) x plug_append)
    with l(2) show ?thesis by (intro exI[of _ m] exI[of _ cm] exI[of _ mr] exI[of _ "rfs @ [(On_left, a, c, r)]"]) simp
  qed
qed simp

lemma left_path_before: "\<forall>(d, x) \<in> set rfs. d = On_left \<Longrightarrow> addrs_before rfs = []"
  by (induction rfs rule: addrs_before.induct) auto

text \<open>The state after the successor was moved, and what is repaired from there.\<close>

lemma erase_swap_two:
  assumes "rep s fs (Node l (n, c) r) H" "l \<noteq> Leaf" "r = plug (Node Leaf (m, cm) mr) rfs" "\<forall>(d, x) \<in> set rfs. d = On_left"
  shows "\<exists>s'. rb_erase n s = (if cm = RB_BLACK then rb_erase_color (root_ptr mr) (path_parent (rfs @ (On_right, m, c, l) # fs)) s' else Some s') \<and>
    rep s' (rfs @ (On_right, m, c, l) # fs) mr (H(n := rbh s' n))"
proof -
  let ?fs = "rfs @ (On_right, n, c, l) # fs"
  have r: "rep s ?fs (Node Leaf (m, cm) mr) H"
    using rep_down_right[of s fs l n c r] assms(1,3) rep_append[of s rfs "(On_right, n, c, l) # fs"] by blast
  have rne: "r \<noteq> Leaf" using assms(3) by (metis addrs_plug addrs_simps append_is_Nil_conv list.distinct(1))
  obtain a d rl rr where rn: "r = Node rl (a, d) rr" using rne by (cases r rule: root_ptr.cases) auto
  have f: "rb_left (rbh s n) \<noteq> None" "rb_right (rbh s n) = Some a" "tree_at (rbh s) (Some n) r"
    using assms(1,2) rn by (cases l rule: root_ptr.cases; auto simp: rep_def)+
  have lm: "rb_leftmost a s = Some m"
    using leftmost_rep[of s "Some n" rl a d rr] f(3) rn assms(3) left_path_before[OF assms(4)]
    by (metis addrs_plug addrs_simps(1,2) append_Nil append_Cons list.sel(1))
  have m: "rb_parent (rbh s m) = path_parent ?fs" "rb_color (rbh s m) = cm" "rb_right (rbh s m) = root_ptr mr"
    using r by (auto simp: rep_def)
  obtain par where par: "path_parent ?fs = Some par" by (cases rfs rule: path_parent.cases) auto
  have nm: "n \<noteq> m" using r by (auto simp: rep_def path_addrs_append)
  have pn: "par = n \<longleftrightarrow> rfs = []"
    using par r by (cases rfs rule: path_parent.cases) (auto simp: rep_def path_addrs_append)
  have "rb_left (rbh s par) = Some m \<longleftrightarrow> rfs \<noteq> []"
  proof (cases rfs rule: path_parent.cases)
    case 1
    then have "rb_left (rbh s n) = root_ptr l" "m \<notin> set (addrs l)" using r by (auto simp: rep_def)
    with 1 par root_ptr_in[of l m] show ?thesis by auto
  next
    case (2 e q cq u fs')
    then have "rb_left (rbh s q) = Some m" using r assms(4) by (auto simp: rep_def)
    with 2 par show ?thesis by auto
  qed
  moreover have "rb_left (rb_set_parent_if x y h q) = rb_left (h q)" for x y h q
    by (cases x) (auto simp: rb_set_parent_if_def rb_set_parent_def)
  ultimately have side: "par = n \<longleftrightarrow> rb_left (rb_set_parent_if (rb_right (rbh s m)) (Some par) (rbh s) par) \<noteq> Some m"
    using pn by simp
  have "rep (erase_child m s) ?fs mr (H(m := rbh s m))" by (rule erase_child_rep[OF r])
  then have r1: "rep (erase_child m s) fs (Node l (n, c) (plug mr rfs)) (H(m := rbh s m))"
    unfolding rep_append by (simp only: rep_down_right)
  have "m \<notin> set (addrs (Node l (n, c) (plug mr rfs)) @ path_addrs fs)"
    using r by (auto simp: rep_def addrs_plug path_addrs_append path_addrs_set)
  from erase_swap_rep[OF r1 this assms(2)] obtain s' where
    s': "erase_swap n m (erase_child m s) = Some s'" "rep s' fs (Node l (m, c) (plug mr rfs)) (H(m := rbh s m, n := rbh s' n))" by blast
  have "rb_erase n s = (if cm = RB_BLACK then rb_erase_color (root_ptr mr) (Some (if par = n then m else par)) s' else Some s')"
    using rb_erase_two_children[OF f(1,2) lm m(1)[unfolded par] side nm] s'(1) m by simp
  moreover have "path_parent (rfs @ (On_right, m, c, l) # fs) = Some (if par = n then m else par)"
    using par pn by (cases rfs rule: path_parent.cases) auto
  moreover have "rep s' (rfs @ (On_right, m, c, l) # fs) mr (H(n := rbh s' n))"
    using rep_frame_in[OF s'(2)[unfolded fun_upd_twist[OF nm[symmetric]]]]
    unfolding rep_append by (simp only: rep_down_right) simp
  ultimately show ?thesis by auto
qed

section \<open>Erasing any node\<close>

lemma erase_finish:
  assumes "rep s gs t H" "rb_ok t" "path_ok (black_height t + (if c = RB_BLACK then 1 else 0)) gs"
    "c = RB_RED \<Longrightarrow> color_of t = RB_BLACK \<and> gs \<noteq> []"
  shows "\<exists>s' t'. (if c = RB_BLACK then rb_erase_color (root_ptr t) (path_parent gs) s else Some s) = Some s' \<and>
    rep s' [] t' H \<and> rb_tree_ok t' \<and> addrs t' = addrs (plug t gs)"
proof (cases c)
  case RB_RED
  then have "rb_tree_ok (plug t gs)" unfolding rb_tree_ok_def using assms plug_ok plug_root_black by auto
  with RB_RED rep_whole[OF assms(1)] show ?thesis by auto
next
  case RB_BLACK
  with assms(3) have p: "path_ok (Suc (black_height t)) gs" by simp
  from erase_color_rep[OF assms(1) p] del_fix_ok[OF assms(2) p] del_fix_addrs[OF p] RB_BLACK show ?thesis by auto
qed

lemma path_ok_rename: "path_ok k (xs @ (d, a, c, u) # fs) \<longleftrightarrow> path_ok k (xs @ (d, b, c, u) # fs)"
proof (induction xs arbitrary: k)
  case (Cons x xs)
  have "path_color (xs @ (d, a, c, u) # fs) = path_color (xs @ (d, b, c, u) # fs)" by (cases xs; cases c) auto
  with Cons show ?case by (cases x) simp
qed simp

lemma erase_node:
  assumes "rep s [] t H" "rb_tree_ok t" "addrs t = xs @ n # ys"
  shows "\<exists>s' t' x. rb_erase n s = Some s' \<and> rep s' [] t' (H(n := x)) \<and> rb_tree_ok t' \<and> addrs t' = xs @ ys"
proof -
  obtain fs l c r where p: "t = plug (Node l (n, c) r) fs" using focus_exists[of n t "[]"] assms(3) by auto
  have r0: "rep s fs (Node l (n, c) r) H" using assms(1) p rep_plug by metis
  have ok: "rb_ok (Node l (n, c) r)" "path_ok (black_height (Node l (n, c) r)) fs" "c = RB_RED \<longrightarrow> path_color fs = RB_BLACK \<and> fs \<noteq> []"
    using plug_ok_path[of "Node l (n, c) r" fs] assms(2) p by (auto simp: rb_tree_ok_def)
  have "distinct (xs @ n # ys)" using assms(1,3) by (metis rep_def distinct_append)
  moreover have "xs @ n # ys = (addrs_before fs @ addrs l) @ n # addrs r @ addrs_after fs"
    using assms(3) unfolding p addrs_plug by simp
  ultimately have seq: "xs = addrs_before fs @ addrs l" "ys = addrs r @ addrs_after fs"
    by (metis append_Cons_eq_iff distinct_append disjoint_iff distinct.simps(2) list.set_intros(1))+
  show ?thesis
  proof (cases "l = Leaf \<or> r = Leaf")
    case True
    let ?t = "if l = Leaf then r else l"
    obtain s1 where s1: "rb_erase n s = (if c = RB_BLACK then rb_erase_color (root_ptr ?t) (path_parent fs) s1 else Some s1)"
      "rep s1 fs ?t (H(n := rbh s n))" using erase_unlink[OF r0 True] by blast
    have t: "rb_ok ?t" "black_height ?t = black_height l" "c = RB_RED \<Longrightarrow> color_of ?t = RB_BLACK \<and> fs \<noteq> []"
      using ok True by auto
    moreover have "black_height (Node l (n, c) r) = black_height ?t + (if c = RB_BLACK then 1 else 0)" using t(2) by (cases c) auto
    ultimately have "\<exists>s' t'. rb_erase n s = Some s' \<and> rep s' [] t' (H(n := rbh s n)) \<and> rb_tree_ok t' \<and> addrs t' = addrs (plug ?t fs)"
      using erase_finish[OF s1(2), of c] ok(2) s1(1) by auto
    moreover have "addrs (plug ?t fs) = xs @ ys" using True seq by (auto simp: addrs_plug)
    ultimately show ?thesis by metis
  next
    case False
    then obtain m cm mr rfs where r: "r = plug (Node Leaf (m, cm) mr) rfs" "\<forall>(d, x) \<in> set rfs. d = On_left"
      using spine by metis
    let ?gs = "rfs @ (On_right, m, c, l) # fs"
    obtain s1 where s1: "rb_erase n s = (if cm = RB_BLACK then rb_erase_color (root_ptr mr) (path_parent ?gs) s1 else Some s1)"
      "rep s1 ?gs mr (H(n := rbh s1 n))" using erase_swap_two[OF r0 _ r] False by blast
    have "t = plug (Node Leaf (m, cm) mr) (rfs @ (On_right, n, c, l) # fs)" by (simp add: p r(1) plug_append)
    then have okm: "rb_ok (Node Leaf (m, cm) mr)" "path_ok (black_height (Node Leaf (m, cm) mr)) ?gs"
      using plug_ok_path[of "Node Leaf (m, cm) mr" "rfs @ (On_right, n, c, l) # fs"] assms(2) path_ok_rename[of _ rfs On_right n c l fs m]
      by (auto simp: rb_tree_ok_def)
    have "black_height (Node Leaf (m, cm) mr) = black_height mr + (if cm = RB_BLACK then 1 else 0)"
      using okm(1) by (cases cm) auto
    then have "\<exists>s' t'. rb_erase n s = Some s' \<and> rep s' [] t' (H(n := rbh s1 n)) \<and> rb_tree_ok t' \<and> addrs t' = addrs (plug mr ?gs)"
      using erase_finish[OF s1(2), of cm] okm s1(1) by auto
    moreover have "addrs (plug mr ?gs) = xs @ ys"
      using seq r(1) left_path_before[OF r(2)] by (simp add: addrs_plug plug_append)
    ultimately show ?thesis by metis
  qed
qed

text \<open>
  C18. Erasing any node of a red-black tree from the linked structure succeeds and leaves a red-black
  tree with the same sequence of nodes less that one: \<open>rb_erase\<close> with its repair
  \<open>__rb_erase_color\<close> terminates and never follows a null pointer, wherever the node is, and writes only to the nodes
  of the tree.
\<close>

theorem erase_correct:
  assumes "rep s [] t (rbh s)" "rb_tree_ok t" "n \<in> set (addrs t)"
  shows "\<exists>s' t'. rb_erase n s = Some s' \<and> rep s' [] t' (rbh s') \<and> rb_tree_ok t' \<and> addrs t' = remove1 n (addrs t) \<and>
    (\<forall>a. a \<notin> set (addrs t) \<longrightarrow> rbh s' a = rbh s a)"
proof -
  obtain xs ys where t: "addrs t = xs @ n # ys" using assms(3) split_list by fast
  have d: "distinct (addrs t)" using assms(1) by (simp add: rep_def)
  obtain s' t' x where r: "rb_erase n s = Some s'" "rep s' [] t' ((rbh s)(n := x))" "rb_tree_ok t'" "addrs t' = xs @ ys"
    using erase_node[OF assms(1,2) t] by blast
  have "rep s' [] t' (rbh s')" "\<forall>a. a \<notin> set (addrs t) \<longrightarrow> rbh s' a = rbh s a"
    using r(2,4) t by (auto simp: rep_def)
  moreover have "remove1 n (addrs t) = xs @ ys" using d t by (simp add: remove1_append)
  ultimately show ?thesis using r by metis
qed

theorem erase_correct_witness:
  "\<exists>s' t'. rb_erase 5 demo_chain = Some s' \<and> rep s' [] t' (rbh s') \<and> rb_tree_ok t' \<and> addrs t' = [2] \<and>
     (\<forall>a. a \<notin> {2, 5} \<longrightarrow> rbh s' a = rbh demo_chain a)"
proof -
  have "rep demo_chain [] (Node (Node Leaf (2, RB_RED) Leaf) (5, RB_BLACK) Leaf) (rbh demo_chain)"
    by (simp add: demo_chain_def rep_def)
  from erase_correct[OF this, of 5] show ?thesis by (simp add: rb_tree_ok_def)
qed

end
