(* ===== verification/WfsFibMap.thy ===== *)
theory WfsFibMap
  imports WfsFib RbErase
begin

text \<open>
  The forwarding table as a map: on the red-black tree the search of \<open>ixgbe_wfs_fib.c\<close> is lookup
  by key, \<open>my_insert\<close> adds an entry and draining the tree filters it. The contract of the comparison
  function is the locale \<open>key_order\<close>, interpreted on \<open>keycmp\<close>.
\<close>

section \<open>Ordered keys\<close>

definition ordered :: "('k \<Rightarrow> 'k \<Rightarrow> int) \<Rightarrow> ('k \<Rightarrow> bool) \<Rightarrow> 'k list \<Rightarrow> bool" where
  "ordered cmp good ks \<longleftrightarrow> sorted_wrt (\<lambda>a b. cmp a b < 0) ks \<and> list_all good ks"

lemma ordered_append:
  "ordered cmp good (xs @ ys) \<longleftrightarrow> ordered cmp good xs \<and> ordered cmp good ys \<and> (\<forall>x \<in> set xs. \<forall>y \<in> set ys. cmp x y < 0)"
  unfolding ordered_def by (auto simp: sorted_wrt_append)

lemma ordered_Cons:
  "ordered cmp good (x # ys) \<longleftrightarrow> good x \<and> ordered cmp good ys \<and> (\<forall>y \<in> set ys. cmp x y < 0)"
  unfolding ordered_def by auto

lemma ordered_good: "ordered cmp good ks \<Longrightarrow> k \<in> set ks \<Longrightarrow> good k"
  unfolding ordered_def by (auto simp: list_all_iff)

locale key_order =
  fixes cmp :: "'k \<Rightarrow> 'k \<Rightarrow> int" and good :: "'k \<Rightarrow> bool"
  assumes cmp_zero: "good a \<Longrightarrow> good b \<Longrightarrow> cmp a b = 0 \<longleftrightarrow> a = b"
    and cmp_swap: "good a \<Longrightarrow> good b \<Longrightarrow> cmp a b > 0 \<longleftrightarrow> cmp b a < 0"
    and cmp_trans: "good a \<Longrightarrow> good b \<Longrightarrow> good c \<Longrightarrow> cmp a b < 0 \<Longrightarrow> cmp b c < 0 \<Longrightarrow> cmp a c < 0"
begin

lemma cmp_refl: "good a \<Longrightarrow> cmp a a = 0"
  using cmp_zero by blast

lemma less_all:
  assumes "ordered cmp good (x # ys)" "good k" "cmp k x < 0"
  shows "\<forall>y \<in> set (x # ys). cmp k y < 0"
proof
  fix y
  assume "y \<in> set (x # ys)"
  then show "cmp k y < 0"
    using assms cmp_trans[of k x y] ordered_good[OF assms(1)] by (auto simp: ordered_Cons)
qed

lemma all_less:
  assumes "ordered cmp good (xs @ [x])" "good k" "cmp x k < 0"
  shows "\<forall>y \<in> set (xs @ [x]). cmp y k < 0"
proof
  fix y
  assume "y \<in> set (xs @ [x])"
  then show "cmp y k < 0"
    using assms cmp_trans[of y x k] ordered_good[OF assms(1)] by (auto simp: ordered_append)
qed

lemma not_right: "ordered cmp good (x # ys) \<Longrightarrow> good k \<Longrightarrow> cmp k x < 0 \<Longrightarrow> k \<notin> set (x # ys)"
  using less_all cmp_refl by fastforce

lemma not_left: "ordered cmp good (xs @ [x]) \<Longrightarrow> good k \<Longrightarrow> cmp x k < 0 \<Longrightarrow> k \<notin> set (xs @ [x])"
  using all_less cmp_refl by fastforce

lemma ordered_distinct: "ordered cmp good ks \<Longrightarrow> distinct ks"
proof (induction ks)
  case (Cons k ks)
  then show ?case using cmp_refl[of k] by (fastforce simp: ordered_Cons)
qed simp

lemma ordered_insert:
  "ordered cmp good (xs @ ys) \<Longrightarrow> good k \<Longrightarrow> \<forall>x \<in> set xs. cmp x k < 0 \<Longrightarrow> \<forall>y \<in> set ys. cmp k y < 0 \<Longrightarrow> ordered cmp good (xs @ k # ys)"
  by (auto simp: ordered_append ordered_Cons)

end

text \<open>The contract holds for \<open>keycmp\<close> on keys with a MAC address of six bytes.\<close>

definition mac_key :: "fib_key \<Rightarrow> bool" where
  "mac_key k \<longleftrightarrow> length (key_mac k) = 6"

lemma memcmp_zero: "length as = length bs \<Longrightarrow> memcmp as bs = 0 \<longleftrightarrow> as = bs"
  by (induction as bs rule: memcmp.induct) auto

lemma memcmp_swap: "length as = length bs \<Longrightarrow> memcmp as bs > 0 \<longleftrightarrow> memcmp bs as < 0"
  by (induction as bs rule: memcmp.induct) auto

lemma memcmp_trans:
  "length as = length bs \<Longrightarrow> length bs = length cs \<Longrightarrow> memcmp as bs < 0 \<Longrightarrow> memcmp bs cs < 0 \<Longrightarrow> memcmp as cs < 0"
proof (induction as bs arbitrary: cs rule: memcmp.induct)
  case (1 a as b bs)
  then obtain c cs' where cs: "cs = c # cs'" by (cases cs) auto
  have IH: "\<not> a < b \<Longrightarrow> \<not> b < a \<Longrightarrow> memcmp as bs < 0 \<Longrightarrow> memcmp bs cs' < 0 \<Longrightarrow> memcmp as cs' < 0"
    using 1 cs by auto
  consider "a < b" | "a = b" | "b < a" by fastforce
  then show ?case
    using 1(4,5) IH cs by cases (auto split: if_splits)
qed auto

interpretation fib_order: key_order keycmp mac_key
proof unfold_locales
  fix a b c :: fib_key
  assume "mac_key a" "mac_key b"
  then show "keycmp a b = 0 \<longleftrightarrow> a = b" "keycmp a b > 0 \<longleftrightarrow> keycmp b a < 0"
    using memcmp_zero[of "key_mac a" "key_mac b"] memcmp_swap[of "key_mac a" "key_mac b"]
    by (auto simp: keycmp_def mac_key_def intro: fib_key.equality)
next
  fix a b c :: fib_key
  assume "mac_key a" "mac_key b" "mac_key c" "keycmp a b < 0" "keycmp b c < 0"
  then show "keycmp a c < 0"
    using memcmp_trans[of "key_mac a" "key_mac b" "key_mac c"]
    by (auto simp: keycmp_def mac_key_def split: if_splits)
qed

section \<open>Search\<close>

type_synonym fib_nodes = "nat \<Rightarrow> fib_node"

abbreviation keys_of :: "fib_nodes \<Rightarrow> rbt \<Rightarrow> fib_key list" where
  "keys_of nh t \<equiv> map (\<lambda>a. key (nh a)) (addrs t)"

abbreviation key_sorted :: "fib_nodes \<Rightarrow> rbt \<Rightarrow> bool" where
  "key_sorted nh t \<equiv> ordered keycmp mac_key (keys_of nh t)"

definition find_key :: "fib_nodes \<Rightarrow> fib_key \<Rightarrow> rbt \<Rightarrow> ptr" where
  "find_key nh k t = List.find (\<lambda>a. key (nh a) = k) (addrs t)"

lemma find_append:
  "List.find P (xs @ ys) = (case List.find P xs of None \<Rightarrow> List.find P ys | Some x \<Rightarrow> Some x)"
  by (induction xs) auto

lemma find_key_Leaf [simp]: "find_key nh k Leaf = None"
  by (simp add: find_key_def)

lemma find_key_None: "find_key nh k t = None \<longleftrightarrow> k \<notin> set (keys_of nh t)"
  unfolding find_key_def find_None_iff by auto

lemma find_key_Some: "find_key nh k t = Some a \<Longrightarrow> a \<in> set (addrs t) \<and> key (nh a) = k"
  unfolding find_key_def find_Some_iff by auto

lemma find_key_unique:
  assumes "key_sorted nh t" "a \<in> set (addrs t)"
  shows "find_key nh (key (nh a)) t = Some a"
proof (cases "find_key nh (key (nh a)) t")
  case None
  with assms(2) show ?thesis by (auto simp: find_key_None)
next
  case (Some b)
  have "inj_on (\<lambda>a. key (nh a)) (set (addrs t))" using fib_order.ordered_distinct[OF assms(1)] by (simp add: distinct_map)
  with find_key_Some[OF Some] assms(2) Some show ?thesis by (auto dest: inj_onD)
qed

lemma key_sorted_Node:
  "key_sorted nh (Node l (a, c) r) \<Longrightarrow> mac_key (key (nh a)) \<and> key_sorted nh l \<and> key_sorted nh r \<and>
   ordered keycmp mac_key (keys_of nh l @ [key (nh a)]) \<and> ordered keycmp mac_key (key (nh a) # keys_of nh r)"
  by (auto simp: ordered_append ordered_Cons ordered_def[of _ _ "[]"])

lemma find_key_Node:
  assumes "key_sorted nh (Node l (a, c) r)" "mac_key k"
  shows "find_key nh k (Node l (a, c) r) =
     (if keycmp k (key (nh a)) < 0 then find_key nh k l
      else if keycmp k (key (nh a)) > 0 then find_key nh k r else Some a)"
proof -
  note o = key_sorted_Node[OF assms(1)]
  have "find_key nh k r = None \<and> k \<noteq> key (nh a)" if "keycmp k (key (nh a)) < 0"
    using fib_order.not_right[of "key (nh a)" "keys_of nh r" k] o assms(2) that by (auto simp: find_key_None)
  moreover have "find_key nh k l = None \<and> k \<noteq> key (nh a)" if "keycmp k (key (nh a)) > 0"
    using fib_order.not_left[of "keys_of nh l" "key (nh a)" k] fib_order.cmp_swap[of k "key (nh a)"] o assms(2) that
    by (auto simp: find_key_None)
  moreover have "k = key (nh a) \<and> find_key nh k l = None" if "\<not> keycmp k (key (nh a)) < 0" "\<not> keycmp k (key (nh a)) > 0"
  proof -
    have "k = key (nh a)" using fib_order.cmp_zero[of k "key (nh a)"] o assms(2) that by simp
    moreover have "key (nh a) \<notin> set (keys_of nh l)"
      using fib_order.ordered_distinct[of "keys_of nh l @ [key (nh a)]"] o by simp
    ultimately show ?thesis by (simp add: find_key_None)
  qed
  ultimately show ?thesis
    using fib_order.cmp_zero[of k "key (nh a)"] o assms(2) by (auto simp: find_key_def find_append split: option.split)
qed

lemma search_tree:
  "tree_at h p t \<Longrightarrow> key_sorted nh t \<Longrightarrow> mac_key k \<Longrightarrow> my_search_loop nh h k (root_ptr t) = Some (find_key nh k t)"
proof (induction h p t rule: tree_at.induct)
  case (1 h par)
  then show ?case by (simp add: my_search_loop.simps)
next
  case (2 h par l a c r)
  have IH: "my_search_loop nh h k (root_ptr l) = Some (find_key nh k l)" "my_search_loop nh h k (root_ptr r) = Some (find_key nh k r)"
    using 2 key_sorted_Node[OF 2(4)] by simp_all
  have "h a = \<lparr>rb_parent = par, rb_color = c, rb_right = root_ptr r, rb_left = root_ptr l\<rparr>" using 2(3) by simp
  with IH find_key_Node[OF 2(4,5)] show ?case
    by (subst my_search_loop.simps) simp
qed

section \<open>Insertion\<close>

lemma link_target_rep: "rep st fs u H \<Longrightarrow> link_target st (path_link fs) = root_ptr u"
  by (cases fs rule: path_link.cases) (auto simp: rep_def link_target_def)

definition around :: "fib_nodes \<Rightarrow> fib_key \<Rightarrow> rb_step list \<Rightarrow> bool" where
  "around nh k fs \<longleftrightarrow> (\<forall>a \<in> set (addrs_before fs). keycmp (key (nh a)) k < 0) \<and> (\<forall>a \<in> set (addrs_after fs). keycmp k (key (nh a)) < 0)"

lemma insert_descent:
  "rep st fs u H \<Longrightarrow> around nh k fs \<Longrightarrow> key_sorted nh u \<Longrightarrow> mac_key k \<Longrightarrow>
   case find_key nh k u of
     Some a \<Rightarrow> my_insert_loop nh st k (path_link fs) (path_parent fs) = Some (Inl a)
   | None \<Rightarrow> \<exists>gs. my_insert_loop nh st k (path_link fs) (path_parent fs) = Some (Inr (path_link gs, path_parent gs)) \<and>
       plug u fs = plug Leaf gs \<and> around nh k gs"
proof (induction u arbitrary: fs)
  case Leaf
  then show ?case
    using link_target_rep[OF Leaf(1)] by (auto simp: my_insert_loop.simps)
next
  case (Node l x r)
  obtain a c where x: "x = (a, c)" by force
  note o = key_sorted_Node[OF Node.prems(3)[unfolded x]]
  note f = find_key_Node[OF Node.prems(3)[unfolded x] Node.prems(4)]
  have t: "link_target st (path_link fs) = Some a" using link_target_rep[OF Node.prems(1)] x by simp
  note unf = my_insert_loop.simps[of nh st k "path_link fs" "path_parent fs"]
  show ?case
  proof (cases "keycmp k (key (nh a)) < 0")
    case True
    have "\<forall>y \<in> set (keys_of nh r). keycmp k y < 0"
      using fib_order.less_all[of "key (nh a)" "keys_of nh r" k] o True Node.prems(4) by simp
    then have "around nh k ((On_left, a, c, r) # fs)" using Node.prems(2) True by (auto simp: around_def)
    with Node.IH(1)[of "(On_left, a, c, r) # fs"] Node.prems(1,4) o x rep_down_left show ?thesis
      using f True t unf by (auto split: option.splits)
  next
    case False
    show ?thesis
    proof (cases "keycmp k (key (nh a)) > 0")
      case True
      then have ak: "keycmp (key (nh a)) k < 0" using fib_order.cmp_swap[of k "key (nh a)"] o Node.prems(4) by simp
      have "\<forall>y \<in> set (keys_of nh l). keycmp y k < 0"
        using fib_order.all_less[of "keys_of nh l" "key (nh a)" k] o ak Node.prems(4) by simp
      then have "around nh k ((On_right, a, c, l) # fs)" using Node.prems(2) ak by (auto simp: around_def)
      with Node.IH(2)[of "(On_right, a, c, l) # fs"] Node.prems(1,4) o x rep_down_right show ?thesis
        using f True t unf by (auto split: option.splits)
    next
      case False
      with \<open>\<not> keycmp k (key (nh a)) < 0\<close> f t unf x show ?thesis by simp
    qed
  qed
qed

lemma my_insert_old:
  assumes "rep st [] t H" "key_sorted nh t" "mac_key (key (nh n))" "find_key nh (key (nh n)) t = Some a"
  shows "my_insert st n nh = Some (a, st, if fn_wfsid (nh a) \<noteq> fn_wfsid (nh n)
     then nh(a := (nh a)\<lparr>time_tag := time_tag (nh n), fn_wfsid := fn_wfsid (nh n)\<rparr>) else nh)"
  using insert_descent[OF assms(1) _ assms(2,3)] assms(4) by (simp add: my_insert_def around_def)

lemma my_insert_new:
  assumes "rep st [] t H" "rb_tree_ok t" "key_sorted nh t" "mac_key (key (nh n))" "find_key nh (key (nh n)) t = None"
    "n \<notin> set (addrs t)"
  shows "\<exists>st' t' xs ys. my_insert st n nh = Some (n, st', nh) \<and> rep st' [] t' H \<and> rb_tree_ok t' \<and> key_sorted nh t' \<and>
    addrs t = xs @ ys \<and> addrs t' = xs @ n # ys"
proof -
  obtain gs where gs: "my_insert_loop nh st (key (nh n)) Link_root None = Some (Inr (path_link gs, path_parent gs))"
    "t = plug Leaf gs" "around nh (key (nh n)) gs"
    using insert_descent[OF assms(1) _ assms(3,4)] assms(5) by (auto simp: around_def)
  have r: "rep st gs Leaf H" using assms(1) gs(2) rep_plug by blast
  have t: "addrs t = addrs_before gs @ addrs_after gs" using gs(2) by (simp add: addrs_plug)
  obtain st' t' where st': "rb_insert_color n (rb_link_node n (path_parent gs) (path_link gs) st) = Some st'" "rep st' [] t' H"
    "rb_tree_ok t'" "addrs t' = addrs_before gs @ n # addrs_after gs"
    using insert_place[OF r, of n] assms(2,6) gs(2) by auto
  have "key_sorted nh t'"
    using fib_order.ordered_insert[of "map (\<lambda>a. key (nh a)) (addrs_before gs)" "map (\<lambda>a. key (nh a)) (addrs_after gs)" "key (nh n)"]
      assms(3,4) gs(3) by (simp add: t st'(4) around_def)
  with gs(1) st' t show ?thesis
    by (intro exI[of _ st'] exI[of _ t'] exI[of _ "addrs_before gs"] exI[of _ "addrs_after gs"]) (simp add: my_insert_def)
qed

section \<open>The table\<close>

text \<open>
  \<open>fib_ok s t fr al\<close>: the nodes in the tree \<open>t\<close> are ordered by key, and every allocated node is either
  in the tree or on the free list \<open>fr\<close>.
\<close>

definition fib_ok :: "fib_state \<Rightarrow> rbt \<Rightarrow> nat list \<Rightarrow> nat list \<Rightarrow> bool" where
  "fib_ok s t fr al \<longleftrightarrow> rep (fib_rb s) [] t (rbh (fib_rb s)) \<and> rb_tree_ok t \<and> key_sorted (fib_heap s) t \<and>
     fib_pool s fr al \<and> distinct (addrs t @ fr) \<and> set (addrs t @ fr) = set al \<and> fib_size s = of_nat (length (addrs t))"

definition entry :: "fib_node \<Rightarrow> u32 \<times> u8 \<times> u8" where
  "entry d = (fn_ip d, fn_wfsid d, time_tag d)"

definition fib_map :: "fib_state \<Rightarrow> rbt \<Rightarrow> fib_key \<rightharpoonup> u32 \<times> u8 \<times> u8" where
  "fib_map s t k = map_option (\<lambda>a. entry (fib_heap s a)) (find_key (fib_heap s) k t)"

definition same_entries :: "fib_state \<Rightarrow> fib_state \<Rightarrow> bool" where
  "same_entries s s' \<longleftrightarrow> (\<forall>a. key (fib_heap s' a) = key (fib_heap s a) \<and> entry (fib_heap s' a) = entry (fib_heap s a)) \<and>
     current_time_tag s' = current_time_tag s \<and> fib_timer_pending s' = fib_timer_pending s \<and> fib_stack s' = fib_stack s"

lemma same_entries_refl: "same_entries s s"
  by (simp add: same_entries_def)

lemma same_entries_trans: "same_entries s s' \<Longrightarrow> same_entries s' s'' \<Longrightarrow> same_entries s s''"
  by (simp add: same_entries_def)

lemma same_keys:
  assumes "same_entries s s'"
  shows "keys_of (fib_heap s') t = keys_of (fib_heap s) t" "find_key (fib_heap s') k t = find_key (fib_heap s) k t"
    "fib_map s' t = fib_map s t"
  using assms by (auto simp: same_entries_def find_key_def fib_map_def intro!: ext)

lemma fib_map_mem:
  assumes "key_sorted (fib_heap s) t"
  shows "fib_map s t k = Some e \<longleftrightarrow> (\<exists>a \<in> set (addrs t). key (fib_heap s a) = k \<and> entry (fib_heap s a) = e)"
  using find_key_Some[of "fib_heap s" k t] find_key_unique[OF assms] by (fastforce simp: fib_map_def)

text \<open>A node taken out of the tree can be freed; the contents of the nodes stay.\<close>

lemma free_node:
  assumes "fib_pool s fr al" "a \<in> set al" "a \<notin> set fr"
  shows "\<exists>s'. fib_free_node a s = Some s' \<and> fib_pool s' (fr @ [a]) al \<and> same_entries s s' \<and>
    fib_rb s' = fib_rb s \<and> fib_size s' = fib_size s"
proof -
  obtain s' where s': "fib_free_node a s = Some s'" "fib_pool s' (fr @ [a]) al" using fib_free_node_pool[OF assms] by blast
  then show ?thesis
    by (auto simp: fib_free_node_eq Let_def same_entries_def entry_def split: option.splits)
qed

lemma fib_pool_cong [simp]:
  "fib_pool (s\<lparr>fib_rb := x\<rparr>) fr al = fib_pool s fr al" "fib_pool (s\<lparr>fib_size := z\<rparr>) fr al = fib_pool s fr al"
  by (simp_all add: fib_pool_def)

lemma rep_transfer:
  "rep st [] t K \<Longrightarrow> (\<And>a. a \<in> set (addrs t) \<Longrightarrow> rbh st' a = rbh st a) \<Longrightarrow> rb_root st' = rb_root st \<Longrightarrow> rep st' [] t (rbh st')"
  using tree_at_cong[of t "rbh st'" "rbh st"] by (simp add: rep_def)

section \<open>Draining\<close>

text \<open>While the table is drained the heap holds two trees: what is left of the table and the new one at \<open>root\<close>.\<close>

definition fib_two :: "fib_state \<Rightarrow> rbt \<Rightarrow> ptr \<Rightarrow> rbt \<Rightarrow> nat list \<Rightarrow> nat list \<Rightarrow> bool" where
  "fib_two s t root u fr al \<longleftrightarrow> rep (fib_rb s) [] t (rbh (fib_rb s)) \<and> rb_tree_ok t \<and> key_sorted (fib_heap s) t \<and>
     rep ((fib_rb s)\<lparr>rb_root := root\<rparr>) [] u (rbh (fib_rb s)) \<and> rb_tree_ok u \<and> key_sorted (fib_heap s) u \<and>
     fib_pool s fr al \<and> distinct (addrs t @ addrs u @ fr) \<and> set (addrs t @ addrs u @ fr) = set al \<and>
     set (keys_of (fib_heap s) t) \<inter> set (keys_of (fib_heap s) u) = {} \<and> fib_size s = of_nat (length (addrs u))"

definition node_test :: "(fib_node \<Rightarrow> bool) \<Rightarrow> bool" where
  "node_test stale \<longleftrightarrow> (\<forall>d d'. entry d = entry d' \<longrightarrow> stale d = stale d')"

lemma drain_step:
  assumes "fib_two s t root u fr al" "addrs t = xs @ [n]"
  shows "\<exists>s' t' root' u' fr'. fib_drain_loop stale root s = fib_drain_loop stale root' s' \<and> fib_two s' t' root' u' fr' al \<and>
    addrs t' = xs \<and> same_entries s s' \<and>
    set (addrs u') = set (addrs u) \<union> (if stale (fib_heap s n) then {} else {n})"
proof -
  let ?h = "rbh (fib_rb s)"
  note f = assms(1)[unfolded fib_two_def]
  have last: "rb_last (fib_rb s) = Some (Some n)" using last_rep[of "fib_rb s" t ?h] f assms(2) by simp
  obtain st t' x where e: "rb_erase n (fib_rb s) = Some st" "rep st [] t' (?h(n := x))" "rb_tree_ok t'" "addrs t' = xs"
    using erase_node[of "fib_rb s" t ?h xs n "[]"] f assms(2) by auto
  have st: "rbh st a = ?h a" if "a \<noteq> n" "a \<notin> set xs" for a using e(2,4) that by (auto simp: rep_def)
  have stu: "rbh st a = ?h a" if "a \<in> set (addrs u)" for a
  proof -
    have "a \<noteq> n" "a \<notin> set xs" using f assms(2) that by auto
    then show ?thesis by (rule st)
  qed
  have t': "rep st [] t' (rbh st)" using e(2) by (rule rep_transfer) simp_all
  have n: "n \<in> set al" "n \<notin> set fr" "n \<notin> set (addrs u)" "n \<notin> set xs" "key (fib_heap s n) \<notin> set (keys_of (fib_heap s) u)"
    using f assms(2) by auto
  have ks: "key_sorted (fib_heap s) t'" "mac_key (key (fib_heap s n))" using f assms(2) e(4) by (auto simp: ordered_append ordered_Cons)
  have u: "rep (st\<lparr>rb_root := root\<rparr>) [] u (rbh st)"
  proof -
    have "rep ((fib_rb s)\<lparr>rb_root := root\<rparr>) [] u ?h" using f by simp
    then have "rep (st\<lparr>rb_root := root\<rparr>) [] u (rbh (st\<lparr>rb_root := root\<rparr>))"
      by (rule rep_transfer) (use stu in auto)
    then show ?thesis by simp
  qed
  show ?thesis
  proof (cases "stale (fib_heap s n)")
    case True
    obtain s' where s': "fib_free_node n (s\<lparr>fib_rb := st\<rparr>) = Some s'" "fib_pool s' (fr @ [n]) al"
      "same_entries (s\<lparr>fib_rb := st\<rparr>) s'" "fib_rb s' = st" "fib_size s' = fib_size s"
      using free_node[of "s\<lparr>fib_rb := st\<rparr>" fr al n] f n by auto
    have se: "same_entries s s'" using s'(3) by (simp add: same_entries_def)
    have "fib_drain_loop stale root s = fib_drain_loop stale root s'"
      by (subst fib_drain_loop.simps) (simp add: last e(1) True s'(1))
    moreover have "fib_two s' t' root u (fr @ [n]) al"
      unfolding fib_two_def s'(4) same_keys[OF se] using f assms(2) t' u e(3,4) ks s'(2,5) by (auto simp: ordered_append)
    ultimately show ?thesis using e(4) se True
      by (intro exI[of _ s'] exI[of _ t'] exI[of _ root] exI[of _ u] exI[of _ "fr @ [n]"]) simp
  next
    case False
    have nf: "find_key (fib_heap s) (key (fib_heap s n)) u = None" using n(5) by (simp add: find_key_None)
    obtain st' u' as bs where u': "my_insert (st\<lparr>rb_root := root\<rparr>) n (fib_heap s) = Some (n, st', fib_heap s)"
      "rep st' [] u' (rbh st)" "rb_tree_ok u'" "key_sorted (fib_heap s) u'" "addrs u = as @ bs" "addrs u' = as @ n # bs"
      using my_insert_new[OF u _ _ ks(2) nf n(3)] f by blast
    let ?s = "s\<lparr>fib_rb := st'\<lparr>rb_root := rb_root st\<rparr>, fib_heap := fib_heap s, fib_size := fib_size s + 1\<rparr>"
    have "fib_drain_loop stale root s = fib_drain_loop stale (rb_root st') ?s"
      by (subst fib_drain_loop.simps) (simp add: last e(1) False u'(1))
    moreover have "rep (st'\<lparr>rb_root := rb_root st\<rparr>) [] t' (rbh (st'\<lparr>rb_root := rb_root st\<rparr>))"
      using t' by (rule rep_transfer) (use u'(2,5,6) n(4) f assms(2) e(4) in \<open>auto simp: rep_def\<close>)
    moreover have "rep st' [] u' (rbh st')" using u'(2) by (rule rep_transfer) simp_all
    moreover have "key (fib_heap s n) \<notin> set (keys_of (fib_heap s) t')"
      using fib_order.ordered_distinct[of "keys_of (fib_heap s) t"] f assms(2) e(4) by auto
    then have "set (keys_of (fib_heap s) t') \<inter> set (keys_of (fib_heap s) u') = {}"
      using f assms(2) e(4) u'(5,6) by auto
    moreover have "distinct (addrs t' @ addrs u' @ fr)" "set (addrs t' @ addrs u' @ fr) = set al"
      using f assms(2) e(4) u'(5,6) by auto
    ultimately have "fib_two ?s t' (rb_root st') u' fr al \<and> fib_drain_loop stale root s = fib_drain_loop stale (rb_root st') ?s"
      unfolding fib_two_def using f e(3) ks u'(3-6) by simp
    then show ?thesis using e(4) u'(5,6) False by (intro exI conjI) (auto simp: same_entries_def)
  qed
qed

lemma addrs_Nil: "addrs t = [] \<Longrightarrow> t = Leaf"
  by (cases t rule: root_ptr.cases) auto

lemma drain_two:
  assumes "node_test stale" "fib_two s t root u fr al"
  shows "\<exists>s' root' u' fr'. fib_drain_loop stale root s = Some (root', s') \<and> fib_two s' Leaf root' u' fr' al \<and>
    same_entries s s' \<and> set (addrs u') = set (addrs u) \<union> {a \<in> set (addrs t). \<not> stale (fib_heap s a)}"
  using assms(2)
proof (induction "addrs t" arbitrary: s t root u fr rule: rev_induct)
  case Nil
  then have t: "t = Leaf" by (simp add: addrs_Nil)
  with Nil(2) have "rb_last (fib_rb s) = Some None" using last_rep[of "fib_rb s" Leaf "rbh (fib_rb s)"] by (simp add: fib_two_def)
  then have "fib_drain_loop stale root s = Some (root, s)" by (subst fib_drain_loop.simps) simp
  with Nil(2) t show ?case by (auto simp: same_entries_refl)
next
  case (snoc n xs)
  obtain s1 t1 root1 u1 fr1 where 1: "fib_drain_loop stale root s = fib_drain_loop stale root1 s1" "fib_two s1 t1 root1 u1 fr1 al"
    "addrs t1 = xs" "same_entries s s1" "set (addrs u1) = set (addrs u) \<union> (if stale (fib_heap s n) then {} else {n})"
    using drain_step[OF snoc(3) snoc(2)[symmetric], of stale] by blast
  obtain s2 root2 u2 fr2 where 2: "fib_drain_loop stale root1 s1 = Some (root2, s2)" "fib_two s2 Leaf root2 u2 fr2 al"
    "same_entries s1 s2" "set (addrs u2) = set (addrs u1) \<union> {a \<in> set (addrs t1). \<not> stale (fib_heap s1 a)}"
    using snoc(1)[OF 1(3)[symmetric] 1(2)] by blast
  have "stale (fib_heap s1 a) = stale (fib_heap s a)" for a
    using assms(1) 1(4) unfolding node_test_def same_entries_def by blast
  then have "set (addrs u2) = set (addrs u) \<union> {a \<in> set (addrs t). \<not> stale (fib_heap s a)}"
    using 2(4) 1(3,5) snoc(2)[symmetric] by auto
  with 1(1,4) 2(1-3) same_entries_trans show ?case by metis
qed

lemma fib_two_start: "fib_ok s t fr al \<Longrightarrow> fib_two (s\<lparr>fib_size := 0\<rparr>) t None Leaf fr al"
  by (auto simp: fib_ok_def fib_two_def rep_def rb_tree_ok_def ordered_def)

lemma fib_two_end: "fib_two s Leaf root u fr al \<Longrightarrow> fib_ok (s\<lparr>fib_rb := (fib_rb s)\<lparr>rb_root := root\<rparr>\<rparr>) u fr al"
  by (auto simp: fib_ok_def fib_two_def)

lemma drain_table:
  assumes "fib_ok s t fr al" "node_test stale"
  shows "\<exists>s' root u fr'. fib_drain_loop stale None (s\<lparr>fib_size := 0\<rparr>) = Some (root, s') \<and> fib_two s' Leaf root u fr' al \<and>
    same_entries s s' \<and> set (addrs u) = {a \<in> set (addrs t). \<not> stale (fib_heap s a)}"
  using drain_two[OF assms(2) fib_two_start[OF assms(1)]] by (simp add: same_entries_def)

definition restrict_entries :: "(u32 \<times> u8 \<times> u8 \<Rightarrow> bool) \<Rightarrow> (fib_key \<rightharpoonup> u32 \<times> u8 \<times> u8) \<Rightarrow> fib_key \<rightharpoonup> u32 \<times> u8 \<times> u8" where
  "restrict_entries P m k = (case m k of None \<Rightarrow> None | Some e \<Rightarrow> if P e then Some e else None)"

lemma fib_map_restrict:
  assumes "key_sorted (fib_heap s) t" "key_sorted (fib_heap s) u"
    and "set (addrs u) = {a \<in> set (addrs t). P (entry (fib_heap s a))}"
  shows "fib_map s u = restrict_entries P (fib_map s t)"
proof
  fix k
  have "fib_map s u k = Some e \<longleftrightarrow> restrict_entries P (fib_map s t) k = Some e" for e
    using fib_map_mem[OF assms(1), of k e] fib_map_mem[OF assms(2), of k e] assms(3)
    by (auto simp: restrict_entries_def split: option.splits)
  then show "fib_map s u k = restrict_entries P (fib_map s t) k" by (metis not_Some_eq)
qed

lemma fib_ok_sorted: "fib_ok s t fr al \<Longrightarrow> key_sorted (fib_heap s) t"
  by (simp add: fib_ok_def)

lemma drain_map:
  assumes "fib_ok s t fr al" "node_test stale" "\<And>d. stale d \<longleftrightarrow> \<not> P (entry d)"
  shows "\<exists>s' root u fr'. fib_drain_loop stale None (s\<lparr>fib_size := 0\<rparr>) = Some (root, s') \<and> fib_two s' Leaf root u fr' al \<and>
    same_entries s s' \<and> set (addrs u) = {a \<in> set (addrs t). \<not> stale (fib_heap s a)} \<and>
    fib_map s' u = restrict_entries P (fib_map s t)"
proof -
  obtain s' root u fr' where d: "fib_drain_loop stale None (s\<lparr>fib_size := 0\<rparr>) = Some (root, s')" "fib_two s' Leaf root u fr' al"
    "same_entries s s'" "set (addrs u) = {a \<in> set (addrs t). \<not> stale (fib_heap s a)}"
    using drain_table[OF assms(1,2)] by blast
  have "key_sorted (fib_heap s) u" using d(2) same_keys(1)[OF d(3)] by (simp add: fib_two_def)
  then have "fib_map s u = restrict_entries P (fib_map s t)"
    using fib_map_restrict[OF fib_ok_sorted[OF assms(1)]] d(4) assms(3) by simp
  then show ?thesis using d same_keys(3)[OF d(3)] by auto
qed

text \<open>
  C20. \<open>ixgbe_wfs_fib_delete_wfsid\<close> forgets exactly the stations behind the given workstation: it
  always returns, the table is again a valid red-black tree with all other nodes freed, and as a map it
  is the old one restricted to the entries of other workstations.
\<close>

theorem delete_wfsid_filters:
  assumes "fib_ok s t fr al" "\<not> bad_wfsid w"
  shows "\<exists>s' t' fr'. ixgbe_wfs_fib_delete_wfsid w s = Inr s' \<and> fib_ok s' t' fr' al \<and>
    fib_map s' t' = restrict_entries (\<lambda>(ip, w', tag). w' \<noteq> w) (fib_map s t)"
proof -
  let ?stale = "\<lambda>n. fn_wfsid n = w"
  have st: "node_test ?stale" "\<And>d. ?stale d \<longleftrightarrow> \<not> (\<lambda>(ip, w', tag). w' \<noteq> w) (entry d)" by (auto simp: node_test_def entry_def)
  obtain s1 root u fr' where d: "fib_drain_loop ?stale None (s\<lparr>fib_size := 0\<rparr>) = Some (root, s1)" "fib_two s1 Leaf root u fr' al"
    "fib_map s1 u = restrict_entries (\<lambda>(ip, w', tag). w' \<noteq> w) (fib_map s t)"
    using drain_map[OF assms(1) st] by blast
  let ?s = "s1\<lparr>fib_rb := (fib_rb s1)\<lparr>rb_root := root\<rparr>\<rparr>"
  have "ixgbe_wfs_fib_delete_wfsid w s = Inr ?s" using d(1) assms(2) by (simp add: ixgbe_wfs_fib_delete_wfsid_def)
  moreover have "fib_map ?s u = fib_map s1 u" by (simp add: fib_map_def fun_eq_iff)
  ultimately show ?thesis using fib_two_end[OF d(2)] d(3) by (intro exI[of _ ?s] exI[of _ u] exI[of _ fr']) simp
qed

text \<open>A table with stations behind the workstations 3 and 4, and no free node.\<close>

definition demo_fib :: fib_state where
  "demo_fib = \<lparr>fib_rb = demo_chain,
     fib_heap = (\<lambda>a. \<lparr>next_alloc = (if a = 5 then Some 2 else None), next_free = None,
        key = \<lparr>key_vid = of_nat a, key_mac = replicate 6 0\<rparr>, fn_ip = 0, fn_wfsid = (if a = 5 then 4 else 3), time_tag = 0\<rparr>),
     fibns = Some 5, fibn_head = None, fibn_tail = None, fib_timer_pending = False, fib_timer_expires = 0,
     current_time_tag = 0, fib_alloc_size = 2, fib_size = 2, fib_kmalloc = (\<lambda>i. None),
     fib_stack = (\<lambda>i. \<lparr>key_vid = 2, key_mac = replicate 6 0\<rparr>)\<rparr>"

abbreviation demo_tree :: rbt where
  "demo_tree \<equiv> Node (Node Leaf (2, RB_RED) Leaf) (5, RB_BLACK) Leaf"

lemma demo_fib_ok: "fib_ok demo_fib demo_tree [] [5, 2]"
  using demo_chain_rep
  by (simp add: fib_ok_def demo_fib_def rb_tree_ok_def fib_pool_def ordered_def keycmp_def mac_key_def fresh_supply_def insert_commute)

theorem delete_wfsid_filters_witness:
  "\<exists>s' t' fr'. ixgbe_wfs_fib_delete_wfsid 3 demo_fib = Inr s' \<and> fib_ok s' t' fr' [5, 2] \<and>
     fib_map s' t' \<lparr>key_vid = 5, key_mac = replicate 6 0\<rparr> = Some (0, 4, 0) \<and>
     fib_map s' t' \<lparr>key_vid = 2, key_mac = replicate 6 0\<rparr> = None"
proof -
  have w: "\<not> bad_wfsid 3" by (simp add: bad_wfsid_def)
  have m: "fib_map demo_fib demo_tree \<lparr>key_vid = 5, key_mac = replicate 6 0\<rparr> = Some (0, 4, 0)"
    "fib_map demo_fib demo_tree \<lparr>key_vid = 2, key_mac = replicate 6 0\<rparr> = Some (0, 3, 0)"
    by (simp_all add: fib_map_def find_key_def demo_fib_def entry_def)
  from delete_wfsid_filters[OF demo_fib_ok w] obtain s' t' fr' where "ixgbe_wfs_fib_delete_wfsid 3 demo_fib = Inr s'"
    "fib_ok s' t' fr' [5, 2]" "fib_map s' t' = restrict_entries (\<lambda>(ip, w, tag). w \<noteq> 3) (fib_map demo_fib demo_tree)" by blast
  with m show ?thesis by (intro exI[of _ s'] exI[of _ t'] exI[of _ fr']) (simp add: restrict_entries_def)
qed

section \<open>Trimming\<close>

lemma trim_more:
  assumes "fib_two s Leaf root u fr al" "n \<le> length (addrs u)"
  shows "\<exists>s' root' u' fr'. fib_trim_more n root s = Some (root', s') \<and> fib_two s' Leaf root' u' fr' al \<and>
    same_entries s s' \<and> addrs u' = take (length (addrs u) - n) (addrs u)"
  using assms
proof (induction n arbitrary: s root u fr)
  case 0
  then show ?case by (auto simp: same_entries_refl)
next
  case (Suc n)
  note f = Suc.prems(1)[unfolded fib_two_def]
  let ?st = "(fib_rb s)\<lparr>rb_root := root\<rparr>"
  obtain xs m where u: "addrs u = xs @ [m]" using Suc.prems(2) by (cases "addrs u" rule: rev_cases) auto
  have r: "rep ?st [] u (rbh ?st)" using f by simp
  have last: "rb_last ?st = Some (Some m)" using last_rep[OF r] u by simp
  obtain st u1 x where e: "rb_erase m ?st = Some st" "rep st [] u1 ((rbh ?st)(m := x))" "rb_tree_ok u1" "addrs u1 = xs"
    using erase_node[OF r _ u[unfolded append_Cons[symmetric], simplified]] f u by auto
  have m: "m \<in> set al" "m \<notin> set fr" "m \<notin> set xs" using f u by auto
  let ?s = "s\<lparr>fib_rb := st\<lparr>rb_root := rb_root (fib_rb s)\<rparr>\<rparr>"
  obtain s1 where s1: "fib_free_node m ?s = Some s1" "fib_pool s1 (fr @ [m]) al" "same_entries ?s s1" "fib_rb s1 = fib_rb ?s"
    "fib_size s1 = fib_size ?s" using free_node[of ?s fr al m] f m by auto
  let ?s2 = "s1\<lparr>fib_size := fib_size s1 - 1\<rparr>"
  have se: "same_entries s ?s2" using s1(3) by (simp add: same_entries_def)
  have "rep st [] u1 (rbh st)" using e(2) by (rule rep_transfer) simp_all
  then have "rep (st\<lparr>rb_root := rb_root st\<rparr>) [] u1 (rbh st)" by simp
  then have "fib_two ?s2 Leaf (rb_root st) u1 (fr @ [m]) al"
    unfolding fib_two_def same_keys[OF se] using f u e(3,4) s1(2,4,5) m
    by (auto simp: ordered_append rep_def)
  from Suc.IH[OF this] Suc.prems(2) u e(4) obtain s' root' u' fr' where
    "fib_trim_more n (rb_root st) ?s2 = Some (root', s')" "fib_two s' Leaf root' u' fr' al" "same_entries ?s2 s'"
    "addrs u' = take (length xs - n) xs" by auto
  then show ?case using last e(1) s1(1) u same_entries_trans[OF se] by auto
qed

end
