(* ===== verification/WfsFibOps.thy ===== *)
theory WfsFibOps
  imports WfsFibMap
begin

text \<open>
  The operations of the forwarding table on its map: ageing, lookup, deletion, update and reading out.
\<close>

section \<open>Ageing\<close>

lemma fib_ok_size:
  assumes "fib_ok s t fr al"
  shows "length (addrs t) + length fr = length al \<and> length al \<le> FIB_SIZE_MAX"
proof -
  have d: "distinct (addrs t @ fr)" "set (addrs t @ fr) = set al" "distinct al" and "length al \<le> FIB_SIZE_MAX"
    using assms by (simp_all add: fib_ok_def fib_pool_def)
  have "length (addrs t @ fr) = length al" using distinct_card[OF d(1)] distinct_card[OF d(3)] d(2) by metis
  with \<open>length al \<le> FIB_SIZE_MAX\<close> show ?thesis by simp
qed

lemma fib_size_full:
  "fib_ok s t fr al \<Longrightarrow> fib_size s < of_nat FIB_SIZE_MAX \<longleftrightarrow> length (addrs t) < FIB_SIZE_MAX"
  "fib_ok s t fr al \<Longrightarrow> fib_size s = of_nat FIB_SIZE_MAX \<longleftrightarrow> length (addrs t) = FIB_SIZE_MAX"
  using fib_ok_size[of s t fr al] by (simp_all add: fib_ok_def word_less_nat_alt word_unat_eq_iff unat_of_nat)

lemma trim_done_ok:
  assumes "fib_ok s t fr al" "\<not> fib_timer_pending s"
  shows "\<exists>s'. trim_done jiffies s = Inr s' \<and> fib_ok s' t fr al \<and> fib_map s' t = fib_map s t \<and>
    current_time_tag s' = current_time_tag s + 1 \<and> fib_timer_pending s' \<and> fib_timer_expires s' = jiffies + FIB_TIMEOUT \<and>
    fib_stack s' = fib_stack s"
  using assms by (simp add: trim_done_def fib_add_timer_def fib_ok_def fib_pool_def fib_map_def fun_eq_iff)

lemma trim_done_pending: "fib_timer_pending s \<Longrightarrow> trim_done jiffies s = Inl BugOn"
  by (simp add: trim_done_def fib_add_timer_def)

definition aged :: "u8 \<Rightarrow> u32 \<times> u8 \<times> u8 \<Rightarrow> bool" where
  "aged now e = (case e of (ip, w, tag) \<Rightarrow> tag \<noteq> now)"

lemma aged_entry [simp]: "aged now (entry d) \<longleftrightarrow> time_tag d \<noteq> now"
  by (simp add: aged_def entry_def)

lemma has_aged:
  "key_sorted (fib_heap s) t \<Longrightarrow>
   (\<exists>k e. fib_map s t k = Some e \<and> aged now e) \<longleftrightarrow> (\<exists>a \<in> set (addrs t). time_tag (fib_heap s a) \<noteq> now)"
  using fib_map_mem[of s t] aged_entry by metis

text \<open>What is left after a trim: the new tree, before the time tag is advanced and the timer set.\<close>

definition trimmed :: "u8 \<Rightarrow> nat \<Rightarrow> (fib_key \<rightharpoonup> u32 \<times> u8 \<times> u8) \<Rightarrow> (fib_key \<rightharpoonup> u32 \<times> u8 \<times> u8) \<Rightarrow> nat \<Rightarrow> bool" where
  "trimmed now n m m' n' \<longleftrightarrow>
     (if n < FIB_SIZE_MAX then m' = m \<and> n' = n
      else if \<exists>k e. m k = Some e \<and> aged now e then m' = restrict_entries (\<lambda>e. \<not> aged now e) m \<and> n' < n
      else m' \<subseteq>\<^sub>m m \<and> n' = FIB_SIZE_MIN)"

lemma trim_tree:
  assumes "fib_ok s t fr al"
  shows "\<exists>s' u fr'. my_trim_tree jiffies s = trim_done jiffies s' \<and> fib_ok s' u fr' al \<and>
    current_time_tag s' = current_time_tag s \<and> fib_timer_pending s' = fib_timer_pending s \<and> fib_stack s' = fib_stack s \<and>
    trimmed (current_time_tag s) (length (addrs t)) (fib_map s t) (fib_map s' u) (length (addrs u))"
proof (cases "length (addrs t) < FIB_SIZE_MAX")
  case True
  then show ?thesis using assms fib_size_full(1)[OF assms] by (auto simp: my_trim_tree_def trimmed_def)
next
  case False
  let ?now = "current_time_tag s" and ?stale = "\<lambda>n. time_tag n \<noteq> current_time_tag s"
  have st: "node_test ?stale" "\<And>d. ?stale d \<longleftrightarrow> \<not> (\<lambda>e. \<not> aged ?now e) (entry d)"
    by (auto simp: node_test_def entry_def aged_def)
  obtain s1 root u fr1 where d: "fib_drain_loop ?stale None (s\<lparr>fib_size := 0\<rparr>) = Some (root, s1)" "fib_two s1 Leaf root u fr1 al"
    "same_entries s s1" "set (addrs u) = {a \<in> set (addrs t). \<not> ?stale (fib_heap s a)}"
    "fib_map s1 u = restrict_entries (\<lambda>e. \<not> aged ?now e) (fib_map s t)"
    using drain_map[OF assms st] by blast
  define s2 where "s2 = s1\<lparr>fib_rb := (fib_rb s1)\<lparr>rb_root := root\<rparr>\<rparr>"
  have s2: "fib_ok s2 u fr1 al" unfolding s2_def by (rule fib_two_end[OF d(2)])
  have m2: "fib_map s2 u = fib_map s1 u" "fib_size s2 = fib_size s1" "same_entries s s2"
    using d(3) by (simp_all add: s2_def fib_map_def fun_eq_iff same_entries_def)
  have dist: "distinct (addrs t)" "distinct (addrs u)" using assms s2 by (simp_all add: fib_ok_def)
  have n: "length (addrs t) = FIB_SIZE_MAX" using False fib_ok_size[OF assms] by simp
  have len: "length (addrs u) = card {a \<in> set (addrs t). \<not> ?stale (fib_heap s a)}" using dist(2) d(4) distinct_card by metis
  have trim: "my_trim_tree jiffies s = rbind (of_option
      (do { (root', s') \<leftarrow> (if fib_size s1 = of_nat FIB_SIZE_MAX then fib_trim_more (FIB_SIZE_MAX - FIB_SIZE_MIN) root s1 else Some (root, s1));
            Some (s'\<lparr>fib_rb := (fib_rb s')\<lparr>rb_root := root'\<rparr>\<rparr>) })) (trim_done jiffies)"
    using fib_size_full(1)[OF assms] n d(1) by (simp add: my_trim_tree_def)
  show ?thesis
  proof (cases "\<exists>a \<in> set (addrs t). ?stale (fib_heap s a)")
    case True
    then have "{a \<in> set (addrs t). \<not> ?stale (fib_heap s a)} \<subset> set (addrs t)" by auto
    then have "length (addrs u) < length (addrs t)" unfolding len using dist(1) by (metis distinct_card finite_set psubset_card_mono)
    moreover from this have "fib_size s1 \<noteq> of_nat FIB_SIZE_MAX" using fib_size_full(2)[OF s2] n m2(2) by simp
    then have "my_trim_tree jiffies s = trim_done jiffies s2" using trim by (simp add: s2_def)
    moreover have "\<exists>k e. fib_map s t k = Some e \<and> aged ?now e"
      using True has_aged[OF fib_ok_sorted[OF assms]] by simp
    ultimately show ?thesis using s2 m2 d(5) n by (intro exI[of _ s2]) (auto simp: trimmed_def same_entries_def)
  next
    case False
    then have "{a \<in> set (addrs t). \<not> ?stale (fib_heap s a)} = set (addrs t)" by auto
    then have nu: "length (addrs u) = FIB_SIZE_MAX" using len n dist(1) distinct_card by metis
    then have "fib_size s1 = of_nat FIB_SIZE_MAX" using fib_size_full(2)[OF s2] m2(2) by simp
    moreover obtain root' s' u' fr' where t: "fib_trim_more (FIB_SIZE_MAX - FIB_SIZE_MIN) root s1 = Some (root', s')"
      "fib_two s' Leaf root' u' fr' al" "same_entries s1 s'" "addrs u' = take FIB_SIZE_MIN (addrs u)"
      using trim_more[OF d(2), of "FIB_SIZE_MAX - FIB_SIZE_MIN"] nu by auto
    define s3 where "s3 = s'\<lparr>fib_rb := (fib_rb s')\<lparr>rb_root := root'\<rparr>\<rparr>"
    have s3: "fib_ok s3 u' fr' al" unfolding s3_def by (rule fib_two_end[OF t(2)])
    ultimately have "my_trim_tree jiffies s = trim_done jiffies s3" using trim t(1) by (simp add: s3_def)
    moreover have se: "same_entries s s3" using d(3) t(3) by (simp add: s3_def same_entries_def)
    moreover have na: "\<not> (\<exists>k e. fib_map s t k = Some e \<and> aged ?now e)"
      using False has_aged[OF fib_ok_sorted[OF assms]] by simp
    moreover have le: "fib_map s3 u' \<subseteq>\<^sub>m fib_map s t"
    proof -
      have "set (addrs u') \<subseteq> set (addrs t)" using t(4) d(4) set_take_subset by fastforce
      moreover have "key_sorted (fib_heap s) u'" using fib_ok_sorted[OF s3] same_keys(1)[OF se] by simp
      ultimately have "fib_map s u' k = Some e \<Longrightarrow> fib_map s t k = Some e" for k e
        using fib_map_mem[OF fib_ok_sorted[OF assms], of k e] fib_map_mem[of s u' k e] by blast
      then show ?thesis unfolding same_keys(3)[OF se] by (auto simp: map_le_def)
    qed
    moreover have "trimmed ?now (length (addrs t)) (fib_map s t) (fib_map s3 u') (length (addrs u'))"
      unfolding trimmed_def n if_not_P[OF na] by (simp add: le t(4) nu)
    ultimately show ?thesis using s3 by (intro exI[of _ s3] exI[of _ u'] exI[of _ fr']) (simp add: same_entries_def)
  qed
qed

text \<open>
  C21. The ageing timer: it always returns, arms itself again and leaves a valid table. A table that is
  not full only ages: the time tag advances. A full one loses the entries not renewed since the
  last run, or, when all were renewed, is cut down to 256 entries, so it never stays full.
\<close>

theorem timer_ages:
  assumes "fib_ok s t fr al" "\<not> fib_timer_pending s"
  shows "\<exists>s' u fr'. fib_timer_action jiffies s = Inr s' \<and> fib_ok s' u fr' al \<and> fib_timer_pending s' \<and>
    fib_timer_expires s' = jiffies + FIB_TIMEOUT \<and> current_time_tag s' = current_time_tag s + 1 \<and>
    length (addrs u) < FIB_SIZE_MAX \<and>
    trimmed (current_time_tag s) (length (addrs t)) (fib_map s t) (fib_map s' u) (length (addrs u))"
proof -
  obtain s1 u fr' where 1: "my_trim_tree jiffies s = trim_done jiffies s1" "fib_ok s1 u fr' al"
    "current_time_tag s1 = current_time_tag s" "fib_timer_pending s1 = fib_timer_pending s"
    "trimmed (current_time_tag s) (length (addrs t)) (fib_map s t) (fib_map s1 u) (length (addrs u))"
    using trim_tree[OF assms(1)] by blast
  obtain s' where "trim_done jiffies s1 = Inr s'" "fib_ok s' u fr' al" "fib_map s' u = fib_map s1 u"
    "current_time_tag s' = current_time_tag s1 + 1" "fib_timer_pending s'" "fib_timer_expires s' = jiffies + FIB_TIMEOUT"
    using trim_done_ok[OF 1(2)] 1(4) assms(2) by blast
  moreover have "length (addrs u) < FIB_SIZE_MAX"
    using 1(5) fib_ok_size[OF assms(1)] by (auto simp: trimmed_def split: if_splits)
  ultimately show ?thesis using 1 by (intro exI[of _ s'] exI[of _ u] exI[of _ fr']) (simp add: fib_timer_action_def)
qed

theorem timer_ages_witness:
  "\<exists>s' u fr'. fib_timer_action 7 demo_fib = Inr s' \<and> fib_ok s' u fr' [5, 2] \<and> fib_timer_expires s' = 30007 \<and>
     fib_map s' u \<lparr>key_vid = 5, key_mac = replicate 6 0\<rparr> = Some (0, 4, 0)"
proof -
  have "\<not> fib_timer_pending demo_fib" by (simp add: demo_fib_def)
  from timer_ages[OF demo_fib_ok this, of 7] obtain s' u fr' where s': "fib_timer_action 7 demo_fib = Inr s'" "fib_ok s' u fr' [5, 2]"
    "fib_timer_expires s' = 7 + FIB_TIMEOUT"
    "trimmed (current_time_tag demo_fib) 2 (fib_map demo_fib demo_tree) (fib_map s' u) (length (addrs u))"
    by (simp add: numeral_2_eq_2) blast
  moreover have "fib_map demo_fib demo_tree \<lparr>key_vid = 5, key_mac = replicate 6 0\<rparr> = Some (0, 4, 0)"
    by (simp add: fib_map_def find_key_def demo_fib_def entry_def)
  ultimately show ?thesis by (intro exI[of _ s'] exI[of _ u] exI[of _ fr']) (simp add: trimmed_def)
qed

section \<open>Lookup\<close>

lemma search_ok:
  assumes "fib_ok s t fr al" "mac_key (fib_stack s 0)"
  shows "my_search vid mac s = Some (find_key (fib_heap s) (fib_stack s 0) t, s\<lparr>fib_stack := fib_stack s \<circ> Suc\<rparr>)"
proof -
  have "tree_at (rbh (fib_rb s)) None t" "rb_root (fib_rb s) = root_ptr t" using assms(1) by (simp_all add: fib_ok_def rep_def)
  with search_tree[OF _ fib_ok_sorted[OF assms(1)] assms(2)] show ?thesis by (simp add: my_search_def)
qed

lemma fib_ok_stack [simp]: "fib_ok (s\<lparr>fib_stack := x\<rparr>) t fr al = fib_ok s t fr al"
  by (simp add: fib_ok_def fib_pool_def)

lemma fib_map_stack [simp]: "fib_map (s\<lparr>fib_stack := x\<rparr>) t = fib_map s t"
  by (simp add: fib_map_def fun_eq_iff)

text \<open>
  A lookup always returns, and answers with the workstation the table has for the key the
  stack slot of \<open>my_search\<close> happens to hold (all workstations when there is none): the VLAN and the address
  asked for do not take part.
\<close>

theorem lookup_reads_stack:
  assumes "fib_ok s t fr al" "mac_key (fib_stack s 0)"
  shows "ixgbe_wfs_fib_lookup vid mac s =
    Inr (case fib_map s t (fib_stack s 0) of Some (ip, w, tag) \<Rightarrow> w | None \<Rightarrow> WFSID_ALL, s\<lparr>fib_stack := fib_stack s \<circ> Suc\<rparr>)"
  using search_ok[OF assms] by (simp add: ixgbe_wfs_fib_lookup_def fib_map_def entry_def split: option.split)

theorem lookup_reads_stack_witness:
  "map_sum id fst (ixgbe_wfs_fib_lookup 5 (replicate 6 0) demo_fib) = Inr 3"
proof -
  have "mac_key (fib_stack demo_fib 0)" by (simp add: demo_fib_def mac_key_def)
  moreover have "fib_map demo_fib demo_tree (fib_stack demo_fib 0) = Some (0, 3, 0)"
    by (simp add: fib_map_def find_key_def demo_fib_def entry_def)
  ultimately show ?thesis using lookup_reads_stack[OF demo_fib_ok] by simp
qed

section \<open>Deletion\<close>

lemma erase_entry:
  assumes "fib_ok s t fr al" "a \<in> set (addrs t)"
  shows "\<exists>st s' t'. rb_erase a (fib_rb s) = Some st \<and> fibn_free (Some a) (s\<lparr>fib_rb := st\<rparr>) = Inr s' \<and>
    fib_ok (s'\<lparr>fib_size := fib_size s' - 1\<rparr>) t' (fr @ [a]) al \<and>
    fib_map (s'\<lparr>fib_size := fib_size s' - 1\<rparr>) t' = (fib_map s t)(key (fib_heap s a) := None)"
proof -
  note f = assms(1)[unfolded fib_ok_def]
  obtain xs ys where t: "addrs t = xs @ a # ys" using assms(2) split_list by fast
  obtain st t' x where e: "rb_erase a (fib_rb s) = Some st" "rep st [] t' ((rbh (fib_rb s))(a := x))" "rb_tree_ok t'"
    "addrs t' = xs @ ys" using erase_node[OF _ _ t] f by blast
  have r: "rep st [] t' (rbh st)" using e(2) by (rule rep_transfer) simp_all
  have a: "a \<in> set al" "a \<notin> set fr" "a \<notin> set (addrs t')" using f t e(4) by auto
  obtain s' where s': "fib_free_node a (s\<lparr>fib_rb := st\<rparr>) = Some s'" "fib_pool s' (fr @ [a]) al" "same_entries (s\<lparr>fib_rb := st\<rparr>) s'"
    "fib_rb s' = st" "fib_size s' = fib_size s" using free_node[of "s\<lparr>fib_rb := st\<rparr>" fr al a] f a by auto
  let ?s = "s'\<lparr>fib_size := fib_size s' - 1\<rparr>"
  have se: "same_entries s ?s" using s'(3) by (simp add: same_entries_def)
  have ks: "key_sorted (fib_heap s) t'" using f t e(4) by (auto simp: ordered_append ordered_Cons)
  have "fibn_free (Some a) (s\<lparr>fib_rb := st\<rparr>) = Inr s'" using s'(1) by (auto simp: fib_free_node_def split: sum.splits)
  moreover have "fib_ok ?s t' (fr @ [a]) al"
    unfolding fib_ok_def same_keys[OF se] using f t e(3,4) r ks s'(2,4,5) a by auto
  moreover have "fib_map s t' = (fib_map s t)(key (fib_heap s a) := None)"
  proof
    fix k
    have inj: "key (fib_heap s b) = key (fib_heap s a) \<Longrightarrow> b \<in> set (addrs t) \<Longrightarrow> b = a" for b
      using find_key_unique[OF fib_ok_sorted[OF assms(1)]] assms(2) by (metis option.inject)
    have "fib_map s t' k = Some d \<longleftrightarrow> ((fib_map s t)(key (fib_heap s a) := None)) k = Some d" for d
      using fib_map_mem[OF fib_ok_sorted[OF assms(1)], of k d] fib_map_mem[OF ks, of k d] t e(4) a(3) inj by auto
    then show "fib_map s t' k = ((fib_map s t)(key (fib_heap s a) := None)) k" by (metis not_Some_eq)
  qed
  ultimately show ?thesis using e(1) same_keys(3)[OF se] by auto
qed

lemma delete_ok:
  assumes "fib_ok s t fr al" "mac_key (fib_stack s 0)"
  shows "\<exists>s' t' fr'. ixgbe_wfs_fib_delete vid mac s = Inr s' \<and> fib_ok s' t' fr' al \<and>
    fib_map s' t' = (fib_map s t)(fib_stack s 0 := None)"
proof (cases "find_key (fib_heap s) (fib_stack s 0) t")
  case None
  then have "fib_map s t = (fib_map s t)(fib_stack s 0 := None)" by (simp add: fib_map_def fun_eq_iff)
  with None search_ok[OF assms] assms(1) show ?thesis
    by (intro exI[of _ "s\<lparr>fib_stack := fib_stack s \<circ> Suc\<rparr>"] exI[of _ t] exI[of _ fr]) (simp add: ixgbe_wfs_fib_delete_def)
next
  case (Some a)
  let ?s = "s\<lparr>fib_stack := fib_stack s \<circ> Suc\<rparr>"
  have a: "a \<in> set (addrs t)" "key (fib_heap s a) = fib_stack s 0" using find_key_Some[OF Some] by simp_all
  obtain st s' t' where "rb_erase a (fib_rb ?s) = Some st" "fibn_free (Some a) (?s\<lparr>fib_rb := st\<rparr>) = Inr s'"
    "fib_ok (s'\<lparr>fib_size := fib_size s' - 1\<rparr>) t' (fr @ [a]) al"
    "fib_map (s'\<lparr>fib_size := fib_size s' - 1\<rparr>) t' = (fib_map ?s t)(key (fib_heap ?s a) := None)"
    using erase_entry[of ?s t fr al a] assms(1) a(1) by auto
  with search_ok[OF assms, of "vid AND 0xfff" mac] Some a(2) show ?thesis
    by (intro exI[of _ "s'\<lparr>fib_size := fib_size s' - 1\<rparr>"] exI[of _ t'] exI[of _ "fr @ [a]"]) (simp add: ixgbe_wfs_fib_delete_def)
qed

text \<open>
  A deletion always returns and takes one entry out of the map, that of the key on the
  stack, whatever it is asked to delete; the node goes to the free list.
\<close>

theorem delete_removes:
  assumes "fib_ok s t fr al" "mac_key (fib_stack s 0)"
  shows "\<exists>s' t' fr'. ixgbe_wfs_fib_delete vid mac s = Inr s' \<and> fib_ok s' t' fr' al \<and>
    fib_map s' t' = (fib_map s t)(fib_stack s 0 := None)"
  using assms by (rule delete_ok)

theorem delete_removes_witness:
  "\<exists>s' t' fr'. ixgbe_wfs_fib_delete 5 (replicate 6 0) demo_fib = Inr s' \<and> fib_ok s' t' fr' [5, 2] \<and>
     fib_map s' t' \<lparr>key_vid = 5, key_mac = replicate 6 0\<rparr> = Some (0, 4, 0)"
proof -
  have "mac_key (fib_stack demo_fib 0)" by (simp add: demo_fib_def mac_key_def)
  from delete_removes[OF demo_fib_ok this, of 5 "replicate 6 0"] obtain s' t' fr' where
    "ixgbe_wfs_fib_delete 5 (replicate 6 0) demo_fib = Inr s'" "fib_ok s' t' fr' [5, 2]"
    "fib_map s' t' = (fib_map demo_fib demo_tree)(fib_stack demo_fib 0 := None)" by blast
  then show ?thesis
    by (intro exI[of _ s'] exI[of _ t'] exI[of _ fr']) (simp add: fib_map_def find_key_def demo_fib_def entry_def)
qed

section \<open>Update\<close>

lemma fib_pool_node:
  "next_free v = next_free (fib_heap s n) \<Longrightarrow> next_alloc v = next_alloc (fib_heap s n) \<Longrightarrow>
   fib_pool (s\<lparr>fib_heap := (fib_heap s)(n := v)\<rparr>) fr al = fib_pool s fr al"
  by (simp add: fib_pool_def heap_simps)

lemma keys_of_frame: "n \<notin> set (addrs t) \<Longrightarrow> keys_of (nh(n := v)) t = keys_of nh t"
  by auto

lemma find_key_frame: "n \<notin> set (addrs t) \<Longrightarrow> find_key (nh(n := v)) k t = find_key nh k t"
  unfolding find_key_def by (rule find_cong) auto

lemma fib_map_eqI:
  assumes "key_sorted (fib_heap s) t"
    and "\<And>k e. (\<exists>a \<in> set (addrs t). key (fib_heap s a) = k \<and> entry (fib_heap s a) = e) \<longleftrightarrow> m k = Some e"
  shows "fib_map s t = m"
proof
  fix k
  show "fib_map s t k = m k" using fib_map_mem[OF assms(1), of k] assms(2)[of k] by (metis not_Some_eq)
qed

text \<open>Changing an entry in place.\<close>

lemma set_entry:
  assumes "fib_ok s t fr al" "a \<in> set (addrs t)" "key v = key (fib_heap s a)"
    "next_free v = next_free (fib_heap s a)" "next_alloc v = next_alloc (fib_heap s a)"
  shows "fib_ok (s\<lparr>fib_heap := (fib_heap s)(a := v)\<rparr>) t fr al"
    "fib_map (s\<lparr>fib_heap := (fib_heap s)(a := v)\<rparr>) t = (fib_map s t)(key (fib_heap s a) \<mapsto> entry v)"
proof -
  let ?s = "s\<lparr>fib_heap := (fib_heap s)(a := v)\<rparr>"
  have k: "key (fib_heap ?s b) = key (fib_heap s b)" for b using assms(3) by simp
  then have "keys_of (fib_heap ?s) t = keys_of (fib_heap s) t" by (simp only:)
  then have ks: "key_sorted (fib_heap ?s) t" using fib_ok_sorted[OF assms(1)] by (simp only:)
  show "fib_ok ?s t fr al"
    using assms(1) ks fib_pool_node[OF assms(4,5)] by (simp add: fib_ok_def)
  have find: "find_key (fib_heap ?s) k t = find_key (fib_heap s) k t" for k unfolding find_key_def k ..
  show "fib_map ?s t = (fib_map s t)(key (fib_heap s a) \<mapsto> entry v)"
  proof
    fix k
    show "fib_map ?s t k = ((fib_map s t)(key (fib_heap s a) \<mapsto> entry v)) k"
    proof (cases "k = key (fib_heap s a)")
      case True
      then show ?thesis using find_key_unique[OF fib_ok_sorted[OF assms(1)] assms(2)] unfolding fib_map_def find by simp
    next
      case False
      then show ?thesis unfolding fib_map_def find by (cases "find_key (fib_heap s) k t") (auto dest: find_key_Some)
    qed
  qed
qed

lemma alloc_fields:
  "fibn_alloc s = (p, s2) \<Longrightarrow> fib_rb s2 = fib_rb s \<and> fib_size s2 = fib_size s \<and> current_time_tag s2 = current_time_tag s \<and>
   same_entries s s2"
  by (auto simp: fibn_alloc_def Let_def same_entries_def entry_def split: option.splits if_splits)

text \<open>The map after an update of \<open>k\<close> when the stack holds \<open>k0\<close>.\<close>

definition store_map :: "fib_key \<Rightarrow> u32 \<Rightarrow> u8 \<Rightarrow> u8 \<Rightarrow> (fib_key \<rightharpoonup> u32 \<times> u8 \<times> u8) \<Rightarrow> fib_key \<rightharpoonup> u32 \<times> u8 \<times> u8" where
  "store_map k ip w now m =
     (case m k of None \<Rightarrow> m(k \<mapsto> (ip, w, now)) | Some (ip0, w0, tag0) \<Rightarrow> if w0 = w then m else m(k \<mapsto> (ip0, w, now)))"

definition update_map :: "fib_key \<Rightarrow> fib_key \<Rightarrow> u32 \<Rightarrow> u8 \<Rightarrow> u8 \<Rightarrow> (fib_key \<rightharpoonup> u32 \<times> u8 \<times> u8) \<Rightarrow> fib_key \<rightharpoonup> u32 \<times> u8 \<times> u8" where
  "update_map k0 k ip w now m = (case m k0 of Some e \<Rightarrow> m(k0 \<mapsto> (ip, w, now)) | None \<Rightarrow> store_map k ip w now m)"

text \<open>A fresh node, filled in, enters the tree.\<close>

lemma insert_entry:
  assumes "fib_ok s t (n # fr) al \<or> fib_ok s t fr al' \<and> al = n # al' \<and> n \<notin> set al'" "fib_pool s2 fr al"
    "fib_rb s2 = fib_rb s" "fib_size s2 = fib_size s" "same_entries s s2" "mac_key (key v)"
    "next_free v = next_free (fib_heap s2 n)" "next_alloc v = next_alloc (fib_heap s2 n)"
    "find_key (fib_heap s) (key v) t = None"
  shows "\<exists>st' t'. my_insert (fib_rb s2) n ((fib_heap s2)(n := v)) = Some (n, st', (fib_heap s2)(n := v)) \<and>
    fib_ok (s2\<lparr>fib_rb := st', fib_heap := (fib_heap s2)(n := v), fib_size := fib_size s2 + 1\<rparr>) t' fr al \<and>
    fib_map (s2\<lparr>fib_rb := st', fib_heap := (fib_heap s2)(n := v), fib_size := fib_size s2 + 1\<rparr>) t' = (fib_map s t)(key v \<mapsto> entry v)"
proof -
  let ?nh = "(fib_heap s2)(n := v)"
  have ks: "key_sorted (fib_heap s2) t" unfolding same_keys(1)[OF assms(5)] using assms(1) by (auto simp: fib_ok_def)
  have f: "rep (fib_rb s2) [] t (rbh (fib_rb s2))" "rb_tree_ok t" "n \<notin> set (addrs t)"
    "distinct (addrs t @ n # fr)" "set (addrs t @ n # fr) = set al" "fib_size s2 = of_nat (length (addrs t))"
    using assms(1-4) by (auto simp: fib_ok_def)
  have kn: "key_sorted ?nh t" unfolding keys_of_frame[OF f(3)] by (rule ks)
  have nk: "find_key ?nh (key (?nh n)) t = None"
    unfolding find_key_frame[OF f(3)] same_keys(2)[OF assms(5)] using assms(9) by simp
  have nk2: "\<forall>b \<in> set (addrs t). key (fib_heap s2 b) \<noteq> key v"
    using assms(5,9) by (auto simp: find_key_None same_entries_def image_iff)
  have mk: "mac_key (key (?nh n))" using assms(6) by simp
  obtain st' t' xs ys where i: "my_insert (fib_rb s2) n ?nh = Some (n, st', ?nh)" "rep st' [] t' (rbh (fib_rb s2))" "rb_tree_ok t'"
    "key_sorted ?nh t'" "addrs t = xs @ ys" "addrs t' = xs @ n # ys"
    using my_insert_new[OF f(1,2) kn mk nk f(3)] by blast
  let ?s = "s2\<lparr>fib_rb := st', fib_heap := ?nh, fib_size := fib_size s2 + 1\<rparr>"
  have "rep st' [] t' (rbh st')" using i(2) by (rule rep_transfer) simp_all
  moreover have "fib_pool ?s fr al" using assms(2,7,8) by (simp add: fib_pool_def heap_simps)
  ultimately have ok: "fib_ok ?s t' fr al" using i(3-6) f(4-6) by (auto simp: fib_ok_def)
  have "fib_map ?s t' = (fib_map s2 t)(key v \<mapsto> entry v)"
  proof (rule fib_map_eqI)
    show "key_sorted (fib_heap ?s) t'" using i(4) by simp
    show "(\<exists>b \<in> set (addrs t'). key (fib_heap ?s b) = k \<and> entry (fib_heap ?s b) = e) \<longleftrightarrow>
      ((fib_map s2 t)(key v \<mapsto> entry v)) k = Some e" for k e
      using fib_map_mem[OF ks, of k e] nk2 f(3) i(5,6) by auto
  qed
  with i(1) ok same_keys(3)[OF assms(5)] show ?thesis by auto
qed

text \<open>A fresh node whose key is already there: the entry takes the new workstation, the node is freed.\<close>

lemma update_duplicate:
  assumes "fib_ok s t fr al" "fib_pool s2 fr2 al2" "n \<in> set al2" "n \<notin> set fr2" "n \<notin> set (addrs t)" "set (addrs t @ n # fr2) = set al2"
    "distinct (addrs t @ n # fr2)" "fib_rb s2 = fib_rb s" "fib_size s2 = fib_size s" "same_entries s s2" "mac_key (key v)"
    "next_free v = next_free (fib_heap s2 n)" "next_alloc v = next_alloc (fib_heap s2 n)"
    "find_key (fib_heap s) (key v) t = Some a"
  shows "\<exists>nh s'. my_insert (fib_rb s2) n ((fib_heap s2)(n := v)) = Some (a, fib_rb s2, nh) \<and> a \<noteq> n \<and>
    fibn_free (Some n) (s2\<lparr>fib_heap := nh\<rparr>) = Inr s' \<and> fib_ok s' t (fr2 @ [n]) al2 \<and>
    fib_map s' t = (if fn_wfsid (fib_heap s a) = fn_wfsid v then fib_map s t
                    else (fib_map s t)(key v \<mapsto> (fn_ip (fib_heap s a), fn_wfsid v, time_tag v)))"
proof -
  let ?h = "fib_heap s2" and ?nh = "(fib_heap s2)(n := v)"
  have a: "a \<in> set (addrs t)" "key (fib_heap s a) = key v" using find_key_Some[OF assms(14)] by simp_all
  have an: "a \<noteq> n" using a(1) assms(5) by auto
  have he: "key (?h a) = key v" "entry (?h a) = entry (fib_heap s a)" using assms(10) a(2) by (simp_all add: same_entries_def)
  have ks: "key_sorted ?h t" unfolding same_keys(1)[OF assms(10)] by (rule fib_ok_sorted[OF assms(1)])
  have kn: "key_sorted ?nh t" unfolding keys_of_frame[OF assms(5)] by (rule ks)
  have nk: "find_key ?nh (key (?nh n)) t = Some a"
    unfolding find_key_frame[OF assms(5)] same_keys(2)[OF assms(10)] using assms(14) by simp
  have r: "rep (fib_rb s2) [] t (rbh (fib_rb s2))" "rb_tree_ok t" "fib_size s2 = of_nat (length (addrs t))"
    using assms(1,8,9) by (simp_all add: fib_ok_def)
  define va where "va = (if fn_wfsid (?h a) = fn_wfsid v then ?h a else (?h a)\<lparr>time_tag := time_tag v, fn_wfsid := fn_wfsid v\<rparr>)"
  define s3 where "s3 = s2\<lparr>fib_heap := ?nh(a := va)\<rparr>"
  have i: "my_insert (fib_rb s2) n ?nh = Some (a, fib_rb s2, ?nh(a := va))"
    using my_insert_old[OF r(1) kn _ nk] assms(11) an by (auto simp: va_def fun_upd_idem)
  have p3: "fib_pool s3 fr2 al2"
    using assms(2,12,13) an by (simp add: s3_def va_def fib_pool_def heap_simps)
  obtain s' where s': "fib_free_node n s3 = Some s'" "fib_pool s' (fr2 @ [n]) al2" "same_entries s3 s'" "fib_rb s' = fib_rb s3"
    "fib_size s' = fib_size s3" using free_node[OF p3 assms(3,4)] by blast
  have free: "fibn_free (Some n) (s2\<lparr>fib_heap := ?nh(a := va)\<rparr>) = Inr s'"
    using s'(1) by (auto simp: fib_free_node_def s3_def split: sum.splits)
  have k4: "key (?nh b) = key ((?nh(a := va)) b)" for b using an by (simp add: va_def)
  have ks3: "key_sorted (fib_heap s3) t" using kn k4 by (simp add: s3_def)
  have ok: "fib_ok s' t (fr2 @ [n]) al2"
    unfolding fib_ok_def same_keys[OF s'(3)] using r ks3 s'(2,4,5) assms(6,7) by (auto simp: s3_def)
  have find: "find_key (fib_heap s3) k t = find_key (fib_heap s) k t" for k
  proof -
    have "find_key (fib_heap s3) k t = find_key ?nh k t" unfolding find_key_def s3_def by (simp add: k4[symmetric] del: fun_upd_apply)
    also have "\<dots> = find_key (fib_heap s) k t" unfolding find_key_frame[OF assms(5)] same_keys(2)[OF assms(10)] ..
    finally show ?thesis .
  qed
  have "fib_map s3 t = (fib_map s t)(key v \<mapsto> entry va)"
  proof
    fix k
    show "fib_map s3 t k = ((fib_map s t)(key v \<mapsto> entry va)) k"
    proof (cases "k = key v")
      case True
      then show ?thesis using assms(14) unfolding fib_map_def find by (simp add: s3_def)
    next
      case False
      have "entry (?h b) = entry (fib_heap s b)" for b using assms(10) by (simp add: same_entries_def)
      with False show ?thesis unfolding fib_map_def find
        using a(2) assms(5) by (cases "find_key (fib_heap s) k t") (auto simp: s3_def dest: find_key_Some)
    qed
  qed
  moreover have "(fib_map s t)(key v \<mapsto> entry (fib_heap s a)) = fib_map s t"
    using assms(14) by (auto simp: fib_map_def fun_eq_iff)
  moreover have "fn_wfsid (?h a) = fn_wfsid (fib_heap s a)" "fn_ip (?h a) = fn_ip (fib_heap s a)"
    using he(2) by (simp_all add: entry_def)
  ultimately have "fib_map s3 t = (if fn_wfsid (fib_heap s a) = fn_wfsid v then fib_map s t
                    else (fib_map s t)(key v \<mapsto> (fn_ip (fib_heap s a), fn_wfsid v, time_tag v)))"
    using he(2) by (simp add: va_def) (simp add: entry_def)
  with i an free ok same_keys(3)[OF s'(3)] show ?thesis by auto
qed

text \<open>The part of \<open>ixgbe_wfs_fib_update\<close> after a node was found.\<close>

definition store_node :: "u16 \<Rightarrow> u8 list \<Rightarrow> u32 \<Rightarrow> u8 \<Rightarrow> nat \<Rightarrow> fib_state \<Rightarrow> fault + fib_state" where
  "store_node vid mac ip w n s4 =
     (let nh = (fib_heap s4)(n := (fib_heap s4 n)\<lparr>key := \<lparr>key_vid = vid, key_mac = take 6 mac\<rparr>, fn_ip := ip,
                   fn_wfsid := w, time_tag := current_time_tag s4\<rparr>)
      in rbind (of_option (my_insert (fib_rb s4) n nh)) (\<lambda>(fibn, t, nh').
         let s5 = s4\<lparr>fib_rb := t, fib_heap := nh'\<rparr>
         in if n \<noteq> fibn then fibn_free (Some n) s5 else Inr (s5\<lparr>fib_size := fib_size s5 + 1\<rparr>)))"

lemma update_unknown:
  assumes "fib_ok s t fr al" "mac_key (fib_stack s 0)" "\<not> bad_wfsid w" "find_key (fib_heap s) (fib_stack s 0) t = None"
  shows "ixgbe_wfs_fib_update jiffies vid mac ip w s =
    rbind (case fibn_alloc (s\<lparr>fib_stack := fib_stack s \<circ> Suc\<rparr>) of
             (Some n, s2) \<Rightarrow> Inr (Some n, s2)
           | (None, s2) \<Rightarrow> rbind (my_trim_tree jiffies s2) (\<lambda>s3. Inr (fibn_alloc s3)))
      (\<lambda>(n, s4). rbind (deref n) (\<lambda>n. store_node (vid AND 0xfff) mac ip w n s4))"
  using search_ok[OF assms(1,2), of "vid AND 0xfff" mac] assms(3,4) by (simp add: ixgbe_wfs_fib_update_def store_node_def Let_def)

text \<open>A node that \<open>fibn_alloc\<close> returned is neither in the tree nor free.\<close>

lemma alloc_node:
  assumes "fib_ok s t fr al" "fibn_alloc s = (Some n, s2)"
  obtains fr2 al2 where "fib_pool s2 fr2 al2" "n \<in> set al2" "distinct (addrs t @ n # fr2)" "set (addrs t @ n # fr2) = set al2"
    "fib_ok s t (n # fr2) al2 \<or> (\<exists>al'. fib_ok s t fr2 al' \<and> al2 = n # al' \<and> n \<notin> set al')"
proof (cases fr)
  case (Cons b fr2)
  with fibn_alloc_head[of s b fr2 al] assms have "b = n" "fib_pool s2 fr2 al" by (auto simp: fib_ok_def)
  with Cons assms(1) show ?thesis by (intro that[of fr2 al]) (auto simp: fib_ok_def)
next
  case Nil
  with fibn_alloc_new[of s al n s2] assms have "n \<notin> set al" "fib_pool s2 [] (n # al)" by (auto simp: fib_ok_def)
  with Nil assms(1) show ?thesis by (intro that[of "[]" "n # al"]) (auto simp: fib_ok_def)
qed

lemma store_node_ok:
  assumes "fib_ok s t fr al" "fibn_alloc s = (Some n, s2)" "length mac \<ge> 6"
  shows "\<exists>s' t' fr' al'. store_node vid mac ip w n s2 = Inr s' \<and> fib_ok s' t' fr' al' \<and>
    fib_map s' t' = store_map \<lparr>key_vid = vid, key_mac = take 6 mac\<rparr> ip w (current_time_tag s) (fib_map s t)"
proof -
  let ?k = "\<lparr>key_vid = vid, key_mac = take 6 mac\<rparr>"
  let ?v = "(fib_heap s2 n)\<lparr>key := ?k, fn_ip := ip, fn_wfsid := w, time_tag := current_time_tag s2\<rparr>"
  note fields = alloc_fields[OF assms(2)]
  have mk: "mac_key (key ?v)" using assms(3) by (simp add: mac_key_def)
  have v: "next_free ?v = next_free (fib_heap s2 n)" "next_alloc ?v = next_alloc (fib_heap s2 n)" by simp_all
  obtain fr2 al2 where n: "fib_pool s2 fr2 al2" "n \<in> set al2" "distinct (addrs t @ n # fr2)" "set (addrs t @ n # fr2) = set al2"
    "fib_ok s t (n # fr2) al2 \<or> (\<exists>al'. fib_ok s t fr2 al' \<and> al2 = n # al' \<and> n \<notin> set al')"
    by (rule alloc_node[OF assms(1,2)])
  have now: "current_time_tag s2 = current_time_tag s" using fields by simp
  show ?thesis
  proof (cases "find_key (fib_heap s) (key ?v) t")
    case None
    obtain st' t' where "my_insert (fib_rb s2) n ((fib_heap s2)(n := ?v)) = Some (n, st', (fib_heap s2)(n := ?v))"
      "fib_ok (s2\<lparr>fib_rb := st', fib_heap := (fib_heap s2)(n := ?v), fib_size := fib_size s2 + 1\<rparr>) t' fr2 al2"
      "fib_map (s2\<lparr>fib_rb := st', fib_heap := (fib_heap s2)(n := ?v), fib_size := fib_size s2 + 1\<rparr>) t' = (fib_map s t)(key ?v \<mapsto> entry ?v)"
      using n(5) insert_entry[of s t n fr2 al2 _ s2 ?v] n(1) fields mk v None by metis
    moreover have "fib_map s t ?k = None" using None by (simp add: fib_map_def)
    ultimately show ?thesis using now by (auto simp: store_node_def store_map_def entry_def Let_def)
  next
    case (Some a)
    have nt: "n \<notin> set fr2" "n \<notin> set (addrs t)" using n(3) by auto
    obtain nh s' where "my_insert (fib_rb s2) n ((fib_heap s2)(n := ?v)) = Some (a, fib_rb s2, nh)" "a \<noteq> n"
      "fibn_free (Some n) (s2\<lparr>fib_heap := nh\<rparr>) = Inr s'" "fib_ok s' t (fr2 @ [n]) al2"
      "fib_map s' t = (if fn_wfsid (fib_heap s a) = fn_wfsid ?v then fib_map s t
                  else (fib_map s t)(key ?v \<mapsto> (fn_ip (fib_heap s a), fn_wfsid ?v, time_tag ?v)))"
      using update_duplicate[OF assms(1) n(1,2) nt n(4,3) _ _ _ mk v Some] fields by blast
    moreover have "fib_map s t ?k = Some (entry (fib_heap s a))" using Some by (simp add: fib_map_def)
    ultimately show ?thesis using now
      by (intro exI[of _ s'] exI[of _ t] exI[of _ "fr2 @ [n]"] exI[of _ al2]) (auto simp: store_node_def store_map_def entry_def Let_def)
  qed
qed

lemma update_known:
  assumes "fib_ok s t fr al" "mac_key (fib_stack s 0)" "\<not> bad_wfsid w" "find_key (fib_heap s) (fib_stack s 0) t = Some a"
  shows "\<exists>s'. ixgbe_wfs_fib_update jiffies vid mac ip w s = Inr s' \<and> fib_ok s' t fr al \<and>
    fib_map s' t = (fib_map s t)(fib_stack s 0 \<mapsto> (ip, w, current_time_tag s))"
proof -
  let ?s = "s\<lparr>fib_stack := fib_stack s \<circ> Suc\<rparr>"
  let ?v = "(fib_heap s a)\<lparr>fn_ip := ip, fn_wfsid := w, time_tag := current_time_tag s\<rparr>"
  have a: "a \<in> set (addrs t)" "key (fib_heap s a) = fib_stack s 0" using find_key_Some[OF assms(4)] by simp_all
  have "ixgbe_wfs_fib_update jiffies vid mac ip w s = Inr (?s\<lparr>fib_heap := (fib_heap ?s)(a := ?v)\<rparr>)"
    using search_ok[OF assms(1,2), of "vid AND 0xfff" mac] assms(3,4) by (simp add: ixgbe_wfs_fib_update_def)
  with set_entry[of ?s t fr al a ?v] assms(1) a show ?thesis by (simp add: entry_def)
qed

text \<open>
  C19. An update with a node to be had (a free one, or one that \<open>kmalloc\<close> grants) always returns,
  and the table is again a valid red-black tree of disjoint entries. As a map it is \<open>update_map\<close>: the
  entry of the key on the stack is overwritten when there is one; otherwise the station is added, and a
  station that is already there moves to the new workstation but keeps its old IP address, and is not
  renewed at all when the workstation is the same.
\<close>

theorem update_stores:
  assumes "fib_ok s t fr al" "mac_key (fib_stack s 0)" "\<not> bad_wfsid w" "length mac \<ge> 6"
    and "fst (fibn_alloc (s\<lparr>fib_stack := fib_stack s \<circ> Suc\<rparr>)) \<noteq> None"
  shows "\<exists>s' t' fr' al'. ixgbe_wfs_fib_update jiffies vid mac ip w s = Inr s' \<and> fib_ok s' t' fr' al' \<and>
    fib_map s' t' = update_map (fib_stack s 0) \<lparr>key_vid = vid AND 0xfff, key_mac = take 6 mac\<rparr> ip w (current_time_tag s) (fib_map s t)"
proof (cases "find_key (fib_heap s) (fib_stack s 0) t")
  case (Some a)
  have "fib_map s t (fib_stack s 0) = Some (entry (fib_heap s a))" using Some by (simp add: fib_map_def)
  with update_known[OF assms(1-3) Some, of jiffies vid mac ip] show ?thesis by (auto simp: update_map_def)
next
  case None
  let ?s = "s\<lparr>fib_stack := fib_stack s \<circ> Suc\<rparr>"
  obtain n s2 where al: "fibn_alloc ?s = (Some n, s2)" using assms(5) by (cases "fibn_alloc ?s") auto
  have "fib_map s t (fib_stack s 0) = None" using None by (simp add: fib_map_def)
  with store_node_ok[OF _ al assms(4), of t fr al "vid AND 0xfff" ip w] update_unknown[OF assms(1-3) None] al assms(1)
  show ?thesis by (simp add: update_map_def store_map_def)
qed

text \<open>The demonstration table with a stack that holds an unknown key, and memory for one more node.\<close>

definition demo_room :: fib_state where
  "demo_room = demo_fib\<lparr>fib_stack := (\<lambda>i. \<lparr>key_vid = 7, key_mac = replicate 6 0\<rparr>), fib_kmalloc := (\<lambda>i. if i = 0 then Some 9 else None)\<rparr>"

lemma demo_room_ok: "fib_ok demo_room demo_tree [] [5, 2]"
  using demo_fib_ok
  by (simp add: fib_ok_def demo_room_def demo_fib_def rb_tree_ok_def fib_pool_def fresh_supply_def)

theorem update_stores_witness:
  "\<exists>s' t' fr' al'. ixgbe_wfs_fib_update 0 6 (replicate 6 0) 99 4 demo_room = Inr s' \<and> fib_ok s' t' fr' al' \<and>
     fib_map s' t' \<lparr>key_vid = 6, key_mac = replicate 6 0\<rparr> = Some (99, 4, 0)"
proof -
  have "mac_key (fib_stack demo_room 0)" "\<not> bad_wfsid 4" "length (replicate 6 (0 :: u8)) \<ge> 6"
    "fst (fibn_alloc (demo_room\<lparr>fib_stack := fib_stack demo_room \<circ> Suc\<rparr>)) \<noteq> None"
    by (simp_all add: demo_room_def demo_fib_def mac_key_def bad_wfsid_def fibn_alloc_def Let_def)
  from update_stores[OF demo_room_ok this, of 0 6 99] obtain s' t' fr' al' where
    u: "ixgbe_wfs_fib_update 0 6 (replicate 6 0) 99 4 demo_room = Inr s'" "fib_ok s' t' fr' al'"
    "fib_map s' t' = update_map (fib_stack demo_room 0) \<lparr>key_vid = 6 AND 0xfff, key_mac = take 6 (replicate 6 0)\<rparr> 99 4
       (current_time_tag demo_room) (fib_map demo_room demo_tree)" by blast
  have "fib_map demo_room demo_tree (fib_stack demo_room 0) = None"
    "fib_map demo_room demo_tree \<lparr>key_vid = 6, key_mac = replicate 6 0\<rparr> = None" "current_time_tag demo_room = 0"
    by (simp_all add: fib_map_def find_key_def demo_room_def demo_fib_def)
  with u show ?thesis
    by (intro exI[of _ s'] exI[of _ t'] exI[of _ fr'] exI[of _ al']) (simp add: update_map_def store_map_def)
qed

lemma update_full:
  assumes "fib_ok s t fr al" "mac_key (fib_stack s 0)" "\<not> bad_wfsid w" "fib_map s t (fib_stack s 0) = None"
    and "fst (fibn_alloc (s\<lparr>fib_stack := fib_stack s \<circ> Suc\<rparr>)) = None" "fib_timer_pending s"
  shows "ixgbe_wfs_fib_update jiffies vid mac ip w s = Inl BugOn"
proof -
  let ?s1 = "s\<lparr>fib_stack := fib_stack s \<circ> Suc\<rparr>"
  obtain s2 where al: "fibn_alloc ?s1 = (None, s2)" using assms(5) by (cases "fibn_alloc ?s1") auto
  have ok1: "fib_ok ?s1 t fr al" using assms(1) by simp
  have "fib_pool s2 fr al" using fibn_alloc_none[OF _ al] ok1 by (auto simp: fib_ok_def)
  moreover note fields = alloc_fields[OF al]
  moreover have se: "same_entries ?s1 s2" "fib_timer_pending s2" using fields assms(6) by (auto simp: same_entries_def)
  ultimately have "fib_ok s2 t fr al" using ok1 unfolding fib_ok_def same_keys[OF se(1)] by simp
  then obtain s3 where "my_trim_tree jiffies s2 = trim_done jiffies s3" "fib_timer_pending s3"
    using trim_tree[of s2 t fr al jiffies] se(2) by auto
  then have "my_trim_tree jiffies s2 = Inl BugOn" by (simp add: trim_done_pending)
  moreover have "find_key (fib_heap s) (fib_stack s 0) t = None" using assms(4) by (simp add: fib_map_def)
  ultimately show ?thesis
    using search_ok[OF assms(1,2), of "vid AND 0xfff" mac] al assms(3) by (simp add: ixgbe_wfs_fib_update_def Let_def)
qed

text \<open>
  C22. When no node is to be had, because the table holds 4096 stations or because \<open>kmalloc\<close>
  fails, an update of a station the table does not know trims the table and sets the ageing timer, which
  is running; \<open>add_timer\<close> stops the kernel.
\<close>

theorem update_full_bug:
  assumes "fib_ok s t fr al" "mac_key (fib_stack s 0)" "\<not> bad_wfsid w" "fib_map s t (fib_stack s 0) = None"
    and "fst (fibn_alloc (s\<lparr>fib_stack := fib_stack s \<circ> Suc\<rparr>)) = None" "fib_timer_pending s"
  shows "ixgbe_wfs_fib_update jiffies vid mac ip w s = Inl BugOn"
  using assms by (rule update_full)

theorem update_full_bug_witness:
  "ixgbe_wfs_fib_update 0 6 (replicate 6 0) 99 4 (demo_room\<lparr>fib_kmalloc := (\<lambda>i. None), fib_timer_pending := True\<rparr>) = Inl BugOn"
proof (rule update_full_bug)
  show "fib_ok (demo_room\<lparr>fib_kmalloc := (\<lambda>i. None), fib_timer_pending := True\<rparr>) demo_tree [] [5, 2]"
    using demo_room_ok by (simp add: fib_ok_def fib_pool_def fresh_supply_def)
qed (simp_all add: demo_room_def demo_fib_def mac_key_def bad_wfsid_def fibn_alloc_def fib_map_def find_key_def)

section \<open>Reading out\<close>

definition fib_data :: "fib_state \<Rightarrow> int \<Rightarrow> nat \<Rightarrow> wfsctl_fib_data \<Rightarrow> wfsctl_fib_data" where
  "fib_data s i n d = d\<lparr>fd_no := of_int (i + 1), fd_id := fn_wfsid (fib_heap s n), fd_vid := key_vid (key (fib_heap s n)),
     fd_mac := key_mac (key (fib_heap s n)), fd_ip := fn_ip (fib_heap s n)\<rparr>"

lemma entries_loop:
  assumes "rep (fib_rb s) [] t H" "max_entry \<le> int (length buf)"
  shows "addrs t = xs @ ys \<Longrightarrow> 0 \<le> num \<Longrightarrow> num \<le> max_entry \<Longrightarrow> length buf = n0 \<Longrightarrow>
    (let sel = take (nat (max_entry - num)) (drop (nat (start - i)) ys) in
     \<exists>buf'. fib_entries_loop s max_entry start i num (first_of ys) buf = Some (num + int (length sel), buf') \<and>
       length buf' = length buf \<and>
       (\<forall>j < length sel. buf' ! (nat num + j) = fib_data s (max i start + int j) (sel ! j) (buf ! (nat num + j))) \<and>
       (\<forall>j. j < nat num \<or> nat num + length sel \<le> j \<longrightarrow> buf' ! j = buf ! j))"
  using assms(2)
proof (induction ys arbitrary: xs i num buf)
  case Nil
  then show ?case by (subst fib_entries_loop.simps) (simp add: first_of_def)
next
  case (Cons n ys)
  have next': "rb_next n (fib_rb s) = Some (first_of ys)" by (rule next_in_order[OF assms(1) Cons.prems(1)])
  have unf: "fib_entries_loop s max_entry start i num (first_of (n # ys)) buf =
    (if \<not> num < max_entry then Some (num, buf)
     else if i < start then fib_entries_loop s max_entry start (i + 1) num (first_of ys) buf
     else fib_entries_loop s max_entry start (i + 1) (num + 1) (first_of ys) (buf[nat num := fib_data s i n (buf ! nat num)]))"
  proof -
    have "\<not> length buf \<le> nat num" if "num < max_entry" using Cons.prems(2,5) that by linarith
    then show ?thesis using next' by (subst fib_entries_loop.simps) (auto simp: first_of_def fib_data_def Let_def)
  qed
  have xs: "addrs t = (xs @ [n]) @ ys" using Cons.prems(1) by simp
  consider "\<not> num < max_entry" | "num < max_entry" "i < start" | "num < max_entry" "start \<le> i" by linarith
  then show ?case
  proof cases
    case 1
    with unf Cons.prems(3) show ?thesis by (simp add: Let_def)
  next
    case 2
    have "nat (start - i) = Suc (nat (start - (i + 1)))" "max (i + 1) start = max i start" using 2(2) by simp_all
    with Cons.IH[OF xs Cons.prems(2,3,4,5), of "i + 1"] 2 unf show ?thesis by (simp add: Let_def)
  next
    case 3
    let ?b = "buf[nat num := fib_data s i n (buf ! nat num)]"
    have nn: "nat (num + 1) = Suc (nat num)" "nat (max_entry - num) = Suc (nat (max_entry - (num + 1)))" "nat (start - i) = 0" "nat (start - (i + 1)) = 0"
      "max i start = i" "max (i + 1) start = i + 1" "nat num < length buf"
      using 3 Cons.prems(2,5) by simp_all
    let ?sel' = "take (nat (max_entry - (num + 1))) (drop (nat (start - (i + 1))) ys)"
    have "\<exists>buf'. fib_entries_loop s max_entry start (i + 1) (num + 1) (first_of ys) ?b = Some (num + 1 + int (length ?sel'), buf') \<and>
       length buf' = length ?b \<and>
       (\<forall>j < length ?sel'. buf' ! (nat (num + 1) + j) = fib_data s (max (i + 1) start + int j) (?sel' ! j) (?b ! (nat (num + 1) + j))) \<and>
       (\<forall>j. j < nat (num + 1) \<or> nat (num + 1) + length ?sel' \<le> j \<longrightarrow> buf' ! j = ?b ! j)"
      by (rule Cons.IH[OF xs, unfolded Let_def]) (use Cons.prems 3 in simp_all)
    then obtain buf' where b0: "fib_entries_loop s max_entry start (i + 1) (num + 1) (first_of ys) ?b = Some (num + 1 + int (length ?sel'), buf')"
       "length buf' = length ?b"
       "\<forall>j < length ?sel'. buf' ! (nat (num + 1) + j) = fib_data s (max (i + 1) start + int j) (?sel' ! j) (?b ! (nat (num + 1) + j))"
       "\<forall>j. j < nat (num + 1) \<or> nat (num + 1) + length ?sel' \<le> j \<longrightarrow> buf' ! j = ?b ! j" by (elim exE conjE)
    have sel': "?sel' = take (nat (max_entry - (num + 1))) ys" by (simp add: nn(4))
    note b = b0[unfolded sel' nn(1,6) length_list_update]
    let ?sel = "take (nat (max_entry - num)) (drop (nat (start - i)) (n # ys))"
    have sel: "?sel = n # take (nat (max_entry - (num + 1))) ys" using nn by simp
    have el: "buf' ! (nat num + j) = fib_data s (max i start + int j) (?sel ! j) (buf ! (nat num + j))" if "j < length ?sel" for j
    proof (cases j)
      case 0
      then show ?thesis using b(4)[rule_format, of "nat num"] nn(5,7) sel by simp
    next
      case (Suc j')
      then show ?thesis using b(3)[rule_format, of j'] that nn(5) unfolding sel by (simp add: add.assoc[symmetric])
    qed
    have rest: "buf' ! j = buf ! j" if "j < nat num \<or> nat num + length ?sel \<le> j" for j
      using that b(4)[rule_format, of j] unfolding sel by auto
    have ret: "fib_entries_loop s max_entry start i num (first_of (n # ys)) buf = Some (num + int (length ?sel), buf')"
      unfolding sel using unf 3 b(1) by simp
    show ?thesis
      unfolding Let_def by (intro exI[of _ buf'] conjI allI impI) (rule ret b(2) el rest | assumption)+
  qed
qed

text \<open>
  Reading the table out: for a buffer of at least \<open>max_entry\<close> records the call returns the number
  of entries copied; these are the stations in key order from the number asked for on (the first record
  holds it), with their number, and the rest of the buffer is untouched.
\<close>

theorem entries_read:
  assumes "fib_ok s t fr al" "buf \<noteq> []" "0 \<le> max_entry" "max_entry \<le> int (length buf)"
  shows "let start = sint (fd_no (hd buf) - 1); sel = take (nat max_entry) (drop (nat start) (addrs t)) in
    \<exists>buf'. ixgbe_wfs_fib_get_entries buf max_entry s = Inr (int (length sel), buf') \<and> length buf' = length buf \<and>
      (\<forall>j < length sel. buf' ! j = fib_data s (max 0 start + int j) (sel ! j) (buf ! j)) \<and>
      (\<forall>j \<ge> length sel. buf' ! j = buf ! j)"
proof -
  obtain d ds where buf: "buf = d # ds" using assms(2) by (cases buf) auto
  have r: "rep (fib_rb s) [] t (rbh (fib_rb s))" using assms(1) by (simp add: fib_ok_def)
  have "rb_first (fib_rb s) = Some (first_of (addrs t))" by (rule first_rep[OF r])
  then have "ixgbe_wfs_fib_get_entries buf max_entry s =
    of_option (fib_entries_loop s max_entry (sint (fd_no (hd buf) - 1)) 0 0 (first_of (addrs t)) buf)"
    by (simp add: ixgbe_wfs_fib_get_entries_def buf)
  with entries_loop[OF r assms(4), of "[]" "addrs t" 0 "length buf" "sint (fd_no (hd buf) - 1)" 0] assms(3)
  show ?thesis by (auto simp: Let_def)
qed

theorem entries_read_witness:
  "\<exists>d. ixgbe_wfs_fib_get_entries [\<lparr>fd_no = 2, fd_id = 0, fd_ip = 0, fd_vid = 0, fd_mac = [], fd_eport = 0\<rparr>] 1 demo_fib = Inr (1, [d]) \<and>
     fd_no d = 2 \<and> fd_vid d = 5 \<and> fd_id d = 4"
proof -
  let ?b = "[\<lparr>fd_no = 2, fd_id = 0, fd_ip = 0, fd_vid = 0, fd_mac = [], fd_eport = 0\<rparr>] :: wfsctl_fib_data list"
  from entries_read[OF demo_fib_ok, of ?b 1] obtain b where b: "ixgbe_wfs_fib_get_entries ?b 1 demo_fib = Inr (1, b)"
    "length b = 1" "b ! 0 = fib_data demo_fib 1 5 (?b ! 0)" by (auto simp: Let_def)
  then obtain d where "b = [d]" by (cases b) auto
  with b show ?thesis by (auto simp: fib_data_def demo_fib_def)
qed

end
