(* ===== verification/WfsFibRun.thy ===== *)
theory WfsFibRun
  imports WfsFibOps
begin

text \<open>
  The life of the forwarding table: set-up, any sequence of its operations, tear-down. The invariant of
  the table holds in every state reached, and no operation fails in it but by a \<open>BUG_ON\<close>.
\<close>

section \<open>Set-up and tear-down\<close>

lemma put_all_frame:
  assumes "pool_put_all nx put p s = Some s'"
  shows "(\<forall>a x y. put a x = Some y \<longrightarrow> g y = g x) \<longrightarrow> g s' = g s"
proof (rule pool_put_all.raw_induct[OF _ assms, where P = "\<lambda>nx put p s s'. (\<forall>a x y. put a x = Some y \<longrightarrow> g y = g x) \<longrightarrow> g s' = g s"])
  fix f nx put p s s'
  assume "\<And>put p s b y. f put p s b = Some y \<Longrightarrow> (\<forall>a x y. p a x = Some y \<longrightarrow> g y = g x) \<longrightarrow> g y = g b"
    and "(if p = None then Some s else put (the p) s \<bind> (\<lambda>s'. f nx put (nx s' (the p)) s')) = Some s'"
  then show "(\<forall>a x y. put a x = Some y \<longrightarrow> g y = g x) \<longrightarrow> g s' = g s"
    by (auto simp: bind_eq_Some_conv split: if_splits)
qed

lemma get_n_frame:
  assumes "\<And>x p y. get x = (p, y) \<Longrightarrow> g y = g x"
  shows "pool_get_n get n s = (b, s') \<Longrightarrow> g s' = g s"
proof (induction n arbitrary: s)
  case (Suc n)
  then show ?case using assms[of s] by (auto split: prod.splits option.splits)
qed simp

definition fib_frame :: "fib_state \<Rightarrow> rb_state \<times> u32 \<times> (nat \<Rightarrow> fib_key)" where
  "fib_frame s = (fib_rb s, fib_size s, fib_stack s)"

lemma alloc_frame: "fibn_alloc s = (p, s') \<Longrightarrow> fib_frame s' = fib_frame s"
  using alloc_fields[of s p s'] by (simp add: fib_frame_def same_entries_def)

lemma free_frame: "fib_free_node n s = Some s' \<Longrightarrow> fib_frame s' = fib_frame s"
  by (auto simp: fib_free_node_eq fib_frame_def Let_def split: option.splits)

lemma fib_init_ok:
  assumes "fresh_supply (fib_kmalloc s) []"
  shows "\<exists>r s' al. ixgbe_wfs_fib_init jiffies s = Inr (r, s') \<and>
    (if r = 0 then fib_ok s' Leaf al al \<and> length al = FIB_SIZE_MIN \<and> fib_timer_pending s' \<and> fib_stack s' = fib_stack s
     else r = - ENOMEM \<and> fib_pool s' [] al \<and> length al < FIB_SIZE_MIN)"
proof -
  define s0 where "s0 = s\<lparr>fib_rb := (fib_rb s)\<lparr>rb_root := None\<rparr>, fibns := None, fibn_head := None,
                 fibn_tail := None, current_time_tag := 0, fib_alloc_size := 0, fib_size := 0\<rparr>"
  obtain b s1 where g: "pool_get_n fibn_alloc FIB_SIZE_MIN s0 = (b, s1)" by (cases "pool_get_n fibn_alloc FIB_SIZE_MIN s0")
  have p0: "fib_pool s0 [] []" using assms by (simp add: s0_def fib_pool_def)
  have f1: "fib_frame s1 = fib_frame s0" by (rule get_n_frame[OF alloc_frame g])
  show ?thesis
  proof (cases b)
    case False
    obtain al where "fib_pool s1 [] al" "length al < FIB_SIZE_MIN" using fibp.get_n_pool[OF p0 g] False by auto
    then show ?thesis using g False by (intro exI[of _ "- ENOMEM"] exI[of _ s1] exI[of _ al]) (simp add: ixgbe_wfs_fib_init_def s0_def)
  next
    case True
    obtain s2 al where s2: "pool_put_all fib_chain fib_free_node (fibns s1) s1 = Some s2" "fib_pool s2 al al" "length al = FIB_SIZE_MIN"
      using fibp.fill_pool[OF p0, of FIB_SIZE_MIN s1] g True by auto
    have "fib_frame s2 = fib_frame s1" using put_all_frame[OF s2(1), of fib_frame] free_frame by blast
    with f1 have f: "rb_root (fib_rb s2) = None" "fib_size s2 = 0" "fib_stack s2 = fib_stack s" by (simp_all add: fib_frame_def s0_def)
    let ?s = "s2\<lparr>fib_timer_pending := True, fib_timer_expires := jiffies + FIB_TIMEOUT\<rparr>"
    have "fib_pool ?s al al" using s2(2) by (simp add: fib_pool_def)
    then have "fib_ok ?s Leaf al al"
      using f fibp.pool_wf[OF s2(2)] by (simp add: fib_ok_def rep_def rb_tree_ok_def ordered_def)
    moreover have "ixgbe_wfs_fib_init jiffies s = Inr (0, ?s)"
      using g True s2(1) by (simp add: ixgbe_wfs_fib_init_def fib_add_timer_def flip: s0_def)
    ultimately show ?thesis using s2(3) f by (intro exI[of _ 0] exI[of _ ?s] exI[of _ al]) simp
  qed
qed

section \<open>Operations\<close>

datatype fib_op =
    Op_lookup u16 "u8 list"
  | Op_delete u16 "u8 list"
  | Op_delete_wfsid u8
  | Op_update u64 u16 "u8 list" u32 u8
  | Op_timer u64

text \<open>A MAC address has six bytes. When the timer fires it is no longer pending and its handler runs.\<close>

fun op_args :: "fib_op \<Rightarrow> bool" where
  "op_args (Op_update j vid mac ip w) = (length mac \<ge> 6)"
| "op_args _ = True"

fun fib_do :: "fib_op \<Rightarrow> fib_state \<Rightarrow> fault + fib_state" where
  "fib_do (Op_lookup vid mac) s = rbind (ixgbe_wfs_fib_lookup vid mac s) (\<lambda>(w, s'). Inr s')"
| "fib_do (Op_delete vid mac) s = ixgbe_wfs_fib_delete vid mac s"
| "fib_do (Op_delete_wfsid w) s = ixgbe_wfs_fib_delete_wfsid w s"
| "fib_do (Op_update j vid mac ip w) s = ixgbe_wfs_fib_update j vid mac ip w s"
| "fib_do (Op_timer j) s = fib_timer_action j (s\<lparr>fib_timer_pending := False\<rparr>)"

definition fib_inv :: "fib_state \<Rightarrow> bool" where
  "fib_inv s \<longleftrightarrow> (\<exists>t fr al. fib_ok s t fr al) \<and> fib_timer_pending s \<and> (\<forall>i. mac_key (fib_stack s i))"

lemma fib_invI: "fib_ok s t fr al \<Longrightarrow> fib_timer_pending s \<Longrightarrow> (\<And>i. mac_key (fib_stack s i)) \<Longrightarrow> fib_inv s"
  unfolding fib_inv_def by blast

lemma delete_frame: "ixgbe_wfs_fib_delete vid mac s = Inr s' \<Longrightarrow>
   fib_timer_pending s' = fib_timer_pending s \<and> fib_stack s' = fib_stack s \<circ> Suc"
  by (auto simp: ixgbe_wfs_fib_delete_def my_search_def of_option_def fibn_free_def rbind_eq_Inr Let_def split: option.splits)

lemma store_node_frame: "store_node vid mac ip w n s = Inr s' \<Longrightarrow>
   fib_timer_pending s' = fib_timer_pending s \<and> fib_stack s' = fib_stack s"
  by (auto simp: store_node_def of_option_def fibn_free_def rbind_eq_Inr Let_def split: option.splits if_splits)

lemma known_frame:
  assumes "fib_ok s t fr al" "mac_key (fib_stack s 0)" "find_key (fib_heap s) (fib_stack s 0) t = Some a"
    "ixgbe_wfs_fib_update jiffies vid mac ip w s = Inr s'"
  shows "fib_timer_pending s' = fib_timer_pending s \<and> fib_stack s' = fib_stack s \<circ> Suc"
  using search_ok[OF assms(1,2), of "vid AND 0xfff" mac] assms(3,4) by (auto simp: ixgbe_wfs_fib_update_def split: if_splits)

lemma update_inv:
  assumes "fib_ok s t fr al" "fib_timer_pending s" "\<forall>i. mac_key (fib_stack s i)" "length mac \<ge> 6"
  shows "(\<exists>s'. ixgbe_wfs_fib_update j vid mac ip w s = Inr s' \<and> fib_inv s') \<or> ixgbe_wfs_fib_update j vid mac ip w s = Inl BugOn"
proof (cases "bad_wfsid w")
  case True
  then show ?thesis by (simp add: ixgbe_wfs_fib_update_def)
next
  case False
  have k: "mac_key (fib_stack s 0)" using assms(3) by simp
  show ?thesis
  proof (cases "find_key (fib_heap s) (fib_stack s 0) t")
    case (Some a)
    from update_known[OF assms(1) k False Some, of j vid mac ip] known_frame[OF assms(1) k Some, of j vid mac ip w] assms(2,3)
    show ?thesis by (auto intro!: fib_invI)
  next
    case None
    let ?s = "s\<lparr>fib_stack := fib_stack s \<circ> Suc\<rparr>"
    have ok: "fib_ok ?s t fr al" using assms(1) by simp
    obtain p s2 where al: "fibn_alloc ?s = (p, s2)" by (cases "fibn_alloc ?s")
    show ?thesis
    proof (cases p)
      case None
      have "fib_map s t (fib_stack s 0) = None" using \<open>find_key (fib_heap s) (fib_stack s 0) t = None\<close> by (simp add: fib_map_def)
      with update_full assms(1,2) k False al None show ?thesis by simp
    next
      case (Some n)
      obtain s' t' fr' al' where s': "store_node (vid AND 0xfff) mac ip w n s2 = Inr s'" "fib_ok s' t' fr' al'"
        using store_node_ok[OF ok _ assms(4)] al Some by blast
      have "ixgbe_wfs_fib_update j vid mac ip w s = Inr s'"
        using update_unknown[OF assms(1) k False None] al Some s'(1) by simp
      with s'(2) store_node_frame[OF s'(1)] alloc_fields[OF al] assms(2,3) show ?thesis
        by (auto simp: same_entries_def intro!: fib_invI)
    qed
  qed
qed

lemma drain_inv:
  assumes "fib_ok s t fr al" "fib_timer_pending s" "\<forall>i. mac_key (fib_stack s i)" "\<not> bad_wfsid w"
  shows "\<exists>s'. ixgbe_wfs_fib_delete_wfsid w s = Inr s' \<and> fib_inv s'"
proof -
  have "node_test (\<lambda>n. fn_wfsid n = w)" by (auto simp: node_test_def entry_def)
  from drain_table[OF assms(1) this] obtain s1 root u fr' where
    d: "fib_drain_loop (\<lambda>n. fn_wfsid n = w) None (s\<lparr>fib_size := 0\<rparr>) = Some (root, s1)" "fib_two s1 Leaf root u fr' al" "same_entries s s1" by blast
  let ?s = "s1\<lparr>fib_rb := (fib_rb s1)\<lparr>rb_root := root\<rparr>\<rparr>"
  have "ixgbe_wfs_fib_delete_wfsid w s = Inr ?s" using d(1) assms(4) by (simp add: ixgbe_wfs_fib_delete_wfsid_def)
  moreover have "fib_inv ?s" using fib_two_end[OF d(2)] d(3) assms(2,3) by (auto simp: fib_inv_def same_entries_def)
  ultimately show ?thesis by blast
qed

lemma timer_inv:
  assumes "fib_ok s t fr al" "\<forall>i. mac_key (fib_stack s i)" "\<not> fib_timer_pending s"
  shows "\<exists>s'. fib_timer_action j s = Inr s' \<and> fib_inv s'"
proof -
  obtain s1 u fr' where 1: "my_trim_tree j s = trim_done j s1" "fib_ok s1 u fr' al" "fib_timer_pending s1 = fib_timer_pending s"
    "fib_stack s1 = fib_stack s" using trim_tree[OF assms(1), of j] by blast
  then show ?thesis using trim_done_ok[OF 1(2), of j] assms(2,3) by (auto simp: fib_timer_action_def intro!: fib_invI)
qed

lemma do_inv:
  assumes "fib_inv s" "op_args op"
  shows "(\<exists>s'. fib_do op s = Inr s' \<and> fib_inv s') \<or> fib_do op s = Inl BugOn"
proof -
  obtain t fr al where ok: "fib_ok s t fr al" "fib_timer_pending s" "\<forall>i. mac_key (fib_stack s i)" using assms(1) by (auto simp: fib_inv_def)
  have k: "mac_key (fib_stack s 0)" using ok(3) by simp
  show ?thesis
  proof (cases op)
    case (Op_lookup vid mac)
    then show ?thesis using search_ok[OF ok(1) k, of "vid AND 0xfff" mac] ok
      by (auto simp: ixgbe_wfs_fib_lookup_def intro!: fib_invI)
  next
    case (Op_delete vid mac)
    then show ?thesis using delete_ok[OF ok(1) k, of vid mac] delete_frame[of vid mac s] ok by (auto intro!: fib_invI)
  next
    case (Op_delete_wfsid w)
    then show ?thesis using drain_inv[OF ok, of w] by (auto simp: ixgbe_wfs_fib_delete_wfsid_def)
  next
    case (Op_update j vid mac ip w)
    then show ?thesis using update_inv[OF ok] assms(2) by auto
  next
    case (Op_timer j)
    have "fib_ok (s\<lparr>fib_timer_pending := False\<rparr>) t fr al" using ok(1) by (simp add: fib_ok_def fib_pool_def)
    with Op_timer timer_inv[of "s\<lparr>fib_timer_pending := False\<rparr>" t fr al j] ok(3) show ?thesis by auto
  qed
qed

inductive fib_reach :: "fib_state \<Rightarrow> bool" where
  fib_start: "fresh_supply (fib_kmalloc s) [] \<Longrightarrow> \<forall>i. mac_key (fib_stack s i) \<Longrightarrow> ixgbe_wfs_fib_init j s = Inr (0, s') \<Longrightarrow> fib_reach s'"
| fib_step: "fib_reach s \<Longrightarrow> op_args op \<Longrightarrow> fib_do op s = Inr s' \<Longrightarrow> fib_reach s'"

lemma reach_inv: "fib_reach s \<Longrightarrow> fib_inv s"
proof (induction rule: fib_reach.induct)
  case (fib_start s j s')
  with fib_init_ok[OF fib_start(1), of j] show ?case by (auto simp: fib_inv_def)
next
  case (fib_step s op s')
  with do_inv[of s op] show ?case by auto
qed

text \<open>
  C23. From set-up on, whatever lookups, deletions, updates and timer runs follow, the forwarding table
  is a red-black tree ordered by key whose nodes and free list make up all the nodes allocated; each
  operation returns to such a state or stops in a \<open>BUG_ON\<close>, never in a loop or at a NULL pointer; and
  tear-down frees every node once.
\<close>

theorem fib_life:
  assumes "fib_reach s"
  shows "(\<exists>t fr al. fib_ok s t fr al \<and> ixgbe_wfs_fib_cleanup s = Inr (al, s\<lparr>fib_timer_pending := False\<rparr>) \<and> distinct al) \<and>
    (op_args op \<longrightarrow> (\<exists>s'. fib_do op s = Inr s' \<and> fib_reach s') \<or> fib_do op s = Inl BugOn)"
proof -
  obtain t fr al where ok: "fib_ok s t fr al" using reach_inv[OF assms] by (auto simp: fib_inv_def)
  then have p: "fib_pool s fr al" by (simp add: fib_ok_def)
  have "pool_walk (fib_chain s) (fibns s) = Some al"
    using pool_walk_list_at[of "fib_chain s" "\<lambda>a. a" "fibns s" al] fibp.pool_chain[OF p] by simp
  then have "ixgbe_wfs_fib_cleanup s = Inr (al, s\<lparr>fib_timer_pending := False\<rparr>)" by (simp add: ixgbe_wfs_fib_cleanup_def)
  moreover have "distinct al" using fibp.pool_wf[OF p] by simp
  ultimately show ?thesis using ok do_inv[OF reach_inv[OF assms], of op] fib_step[OF assms, of op] by blast
qed

lemma get_n_granted:
  "fib_pool s [] al \<Longrightarrow> length al + n \<le> FIB_SIZE_MAX \<Longrightarrow> \<forall>i < n. fib_kmalloc s i \<noteq> None \<Longrightarrow> fst (pool_get_n fibn_alloc n s)"
proof (induction n arbitrary: s al)
  case (Suc n)
  obtain a where a: "fib_kmalloc s 0 = Some a" using Suc.prems(3) by auto
  have "fib_alloc_size s < of_nat FIB_SIZE_MAX" "fibn_head s = None"
    using Suc.prems(1,2) by (auto simp: fib_pool_def word_less_nat_alt unat_of_nat)
  then obtain s' where s': "fibn_alloc s = (Some a, s')" "fib_kmalloc s' = fib_kmalloc s \<circ> Suc"
    using a by (simp add: fibn_alloc_def Let_def)
  have "fib_pool s' [] (a # al)" using fibn_alloc_new[OF Suc.prems(1) s'(1)] by simp
  then have "fst (pool_get_n fibn_alloc n s')" by (rule Suc.IH) (use Suc.prems(2,3) s'(2) in auto)
  with s'(1) show ?case by simp
qed simp

definition demo_start :: fib_state where
  "demo_start = demo_fib\<lparr>fib_kmalloc := Some\<rparr>"

lemma demo_start_init: "\<exists>s'. ixgbe_wfs_fib_init 0 demo_start = Inr (0, s')"
proof -
  have f: "fresh_supply (fib_kmalloc demo_start) []" by (simp add: demo_start_def demo_fib_def fresh_supply_def)
  define s0 where "s0 = demo_start\<lparr>fib_rb := (fib_rb demo_start)\<lparr>rb_root := None\<rparr>, fibns := None, fibn_head := None,
                 fibn_tail := None, current_time_tag := 0, fib_alloc_size := 0, fib_size := 0\<rparr>"
  have "fib_pool s0 [] []" using f by (simp add: s0_def fib_pool_def)
  then have "fst (pool_get_n fibn_alloc FIB_SIZE_MIN s0)" by (rule get_n_granted) (simp_all add: s0_def demo_start_def)
  then obtain s1 where g: "pool_get_n fibn_alloc FIB_SIZE_MIN s0 = (True, s1)" by (cases "pool_get_n fibn_alloc FIB_SIZE_MIN s0") auto
  obtain r s' where r: "ixgbe_wfs_fib_init 0 demo_start = Inr (r, s')" using fib_init_ok[OF f, of 0] by blast
  have "r = 0" using r g by (auto simp: ixgbe_wfs_fib_init_def rbind_eq_Inr simp flip: s0_def)
  with r show ?thesis by blast
qed

theorem fib_life_witness:
  "\<exists>s'. ixgbe_wfs_fib_init 0 demo_start = Inr (0, s') \<and>
     ((\<exists>s''. fib_do (Op_update 1 5 (replicate 6 7) 99 4) s' = Inr s'' \<and> fib_reach s'') \<or>
      fib_do (Op_update 1 5 (replicate 6 7) 99 4) s' = Inl BugOn)"
proof -
  obtain s' where s': "ixgbe_wfs_fib_init 0 demo_start = Inr (0, s')" using demo_start_init by blast
  have "fib_reach s'"
    by (rule fib_start[OF _ _ s']) (simp_all add: demo_start_def demo_fib_def fresh_supply_def mac_key_def)
  from fib_life[OF this, of "Op_update 1 5 (replicate 6 7) 99 4"] s' show ?thesis by simp
qed

end
