(* ===== verification/DcbConfig.thy ===== *)
theory DcbConfig
  imports Mbx "HOL-Library.Signed_Division"
begin

text \<open>
  Data centre bridging, \<open>ixgbe_dcb.h\<close> and the part of \<open>ixgbe_dcb.c\<close> that does not touch the hardware: the
  configuration, its rule check, the credits of the traffic classes and the unpacking for the
  hardware routines. An index outside an array is a fault.
\<close>

section \<open>Configuration\<close>

abbreviation (input) IXGBE_DCB_CREDIT_QUANTUM :: int where "IXGBE_DCB_CREDIT_QUANTUM \<equiv> 64"
abbreviation (input) IXGBE_DCB_MAX_CREDIT_REFILL :: int where "IXGBE_DCB_MAX_CREDIT_REFILL \<equiv> 200"
abbreviation (input) IXGBE_DCB_MAX_CREDIT :: int where "IXGBE_DCB_MAX_CREDIT \<equiv> 400"
abbreviation (input) IXGBE_DCB_MIN_TSO_CREDIT :: u32 where "IXGBE_DCB_MIN_TSO_CREDIT \<equiv> 513"
abbreviation (input) IXGBE_DCB_MAX_TRAFFIC_CLASS :: nat where "IXGBE_DCB_MAX_TRAFFIC_CLASS \<equiv> 8"
abbreviation (input) IXGBE_DCB_MAX_USER_PRIORITY :: nat where "IXGBE_DCB_MAX_USER_PRIORITY \<equiv> 8"
abbreviation (input) IXGBE_DCB_MAX_BW_GROUP :: nat where "IXGBE_DCB_MAX_BW_GROUP \<equiv> 8"
abbreviation (input) IXGBE_DCB_BW_PERCENT :: u8 where "IXGBE_DCB_BW_PERCENT \<equiv> 100"
abbreviation (input) IXGBE_DCB_TX_CONFIG :: nat where "IXGBE_DCB_TX_CONFIG \<equiv> 0"
abbreviation (input) IXGBE_DCB_RX_CONFIG :: nat where "IXGBE_DCB_RX_CONFIG \<equiv> 1"
abbreviation (input) IXGBE_ERR_CONFIG :: int where "IXGBE_ERR_CONFIG \<equiv> - 4"
abbreviation (input) IXGBE_ERR_PARAM :: int where "IXGBE_ERR_PARAM \<equiv> - 5"
abbreviation (input) IXGBE_NOT_IMPLEMENTED :: int where "IXGBE_NOT_IMPLEMENTED \<equiv> 0x7FFFFFFF"

datatype ixgbe_dcb_tsa = ixgbe_dcb_tsa_ets | ixgbe_dcb_tsa_group_strict_cee | ixgbe_dcb_tsa_strict

text \<open>The code of an enumerator, as the byte arrays of the hardware routines hold it.\<close>

fun tsa_code :: "ixgbe_dcb_tsa \<Rightarrow> u8" where
  "tsa_code ixgbe_dcb_tsa_ets = 0"
| "tsa_code ixgbe_dcb_tsa_group_strict_cee = 1"
| "tsa_code ixgbe_dcb_tsa_strict = 2"

record ixgbe_dcb_tc_path =
  bwg_id :: u8
  bwg_percent :: u8
  link_percent :: u8
  up_to_tc_bitmap :: u8
  data_credits_refill :: u16
  data_credits_max :: u16
  tsa :: ixgbe_dcb_tsa

datatype ixgbe_dcb_pfc =
  ixgbe_dcb_pfc_disabled | ixgbe_dcb_pfc_enabled | ixgbe_dcb_pfc_enabled_txonly | ixgbe_dcb_pfc_enabled_rxonly

record ixgbe_dcb_tc_config =
  path :: "ixgbe_dcb_tc_path list"
  pfc :: ixgbe_dcb_pfc
  desc_credits_max :: u16

record ixgbe_dcb_num_tcs =
  pg_tcs :: u8
  pfc_tcs :: u8

record ixgbe_dcb_config =
  tc_config :: "ixgbe_dcb_tc_config list"
  num_tcs :: ixgbe_dcb_num_tcs
  bw_percentage :: "u8 list list"
  pfc_mode_enable :: bool
  link_speed :: u32
  vt_mode :: bool

text \<open>The arrays have the lengths of their declarations.\<close>

definition dcb_typed :: "ixgbe_dcb_config \<Rightarrow> bool" where
  "dcb_typed cfg \<longleftrightarrow> length (tc_config cfg) = IXGBE_DCB_MAX_TRAFFIC_CLASS \<and>
     (\<forall>c \<in> set (tc_config cfg). length (path c) = 2) \<and>
     length (bw_percentage cfg) = 2 \<and> (\<forall>b \<in> set (bw_percentage cfg). length b = IXGBE_DCB_MAX_BW_GROUP)"

definition at :: "'a list \<Rightarrow> nat \<Rightarrow> fault + 'a" where
  "at xs i = (if i < length xs then Inr (xs ! i) else Inl OutOfBounds)"

fun rmap :: "('a \<Rightarrow> fault + 'b) \<Rightarrow> 'a list \<Rightarrow> fault + 'b list" where
  "rmap f [] = Inr []"
| "rmap f (x # xs) = rbind (f x) (\<lambda>y. rbind (rmap f xs) (\<lambda>ys. Inr (y # ys)))"

section \<open>Credits\<close>

definition s32 :: "int \<Rightarrow> int" where
  "s32 x = signed_take_bit 31 x"

definition dcb_min_credit :: "int \<Rightarrow> int" where
  "dcb_min_credit max_frame_size =
     ((max_frame_size sdiv 2) + IXGBE_DCB_CREDIT_QUANTUM - 1) sdiv IXGBE_DCB_CREDIT_QUANTUM"

definition dcb_min_percent :: "u8 list \<Rightarrow> int" where
  "dcb_min_percent bw = fold (\<lambda>b m. if uint b < m \<and> b \<noteq> 0 then uint b else m) bw 100"

text \<open>The arrays \<open>refill\<close> and \<open>max\<close> the call fills, for the eight entries of \<open>bw\<close>.\<close>

definition ixgbe_dcb_calculate_tc_credits :: "u8 list \<Rightarrow> int \<Rightarrow> int \<times> u16 list \<times> u16 list" where
  "ixgbe_dcb_calculate_tc_credits bw max_frame_size =
     (let min_credit = dcb_min_credit max_frame_size;
          multiplier = (min_credit sdiv dcb_min_percent bw) + 1
      in (0,
          map (\<lambda>b. let val = min (s32 (uint b * multiplier)) IXGBE_DCB_MAX_CREDIT_REFILL
                   in of_int (if val < min_credit then min_credit else val)) bw,
          map (\<lambda>b. of_int (if b \<noteq> 0 then (uint b * IXGBE_DCB_MAX_CREDIT) sdiv 100 else min_credit)) bw))"

text \<open>
  The CEE variant works on bandwidth groups. \<open>cee_link_percentage\<close> is the product of the class's share
  of its group and the group's share of the link.
\<close>

definition cee_link_percentage :: "ixgbe_dcb_config \<Rightarrow> nat \<Rightarrow> ixgbe_dcb_tc_config \<Rightarrow> fault + u16" where
  "cee_link_percentage cfg direction c =
     rbind (at (path c) direction) (\<lambda>p.
     rbind (at (bw_percentage cfg) direction) (\<lambda>bw.
     rbind (at bw (unat (bwg_id p))) (\<lambda>bw_percent.
     Inr (of_nat (unat (bwg_percent p) * unat bw_percent div 100)))))"

definition cee_min_percent :: "u16 list \<Rightarrow> u16" where
  "cee_min_percent ls = fold (\<lambda>l m. if l \<noteq> 0 \<and> l < m then l else m) ls 100"

definition cee_tc_credits ::
  "ixgbe_mac_type \<Rightarrow> nat \<Rightarrow> u32 \<Rightarrow> u32 \<Rightarrow> ixgbe_dcb_tc_config \<times> u16 \<Rightarrow> fault + ixgbe_dcb_tc_config" where
  "cee_tc_credits mac direction min_credit min_multiplier cl =
     (case cl of (c, l) \<Rightarrow>
      rbind (at (path c) direction) (\<lambda>p.
        let link = (if bwg_percent p > 0 \<and> l = 0 then 1 else l);
            credit_refill = min (ucast link * min_multiplier) 200;
            credit_max1 = of_nat (unat link * 400 div 100) :: u32;
            credit_max2 = (if credit_max1 \<noteq> 0 \<and> credit_max1 < min_credit then min_credit else credit_max1);
            credit_max = (if direction = IXGBE_DCB_TX_CONFIG \<and> credit_max2 \<noteq> 0 \<and>
                             credit_max2 < IXGBE_DCB_MIN_TSO_CREDIT \<and> mac = ixgbe_mac_82598EB
                          then IXGBE_DCB_MIN_TSO_CREDIT else credit_max2);
            p' = p\<lparr>link_percent := ucast link, data_credits_refill := ucast credit_refill,
                   data_credits_max := ucast credit_max\<rparr>;
            c' = (if direction = IXGBE_DCB_TX_CONFIG then c\<lparr>desc_credits_max := ucast credit_max\<rparr> else c)
        in Inr (c'\<lparr>path := (path c')[direction := p']\<rparr>)))"

definition cee_min_credit :: "u32 \<Rightarrow> u32" where
  "cee_min_credit max_frame_size = (max_frame_size div 2 + 64 - 1) div 64"

definition ixgbe_dcb_calculate_tc_credits_cee ::
  "ixgbe_mac_type \<Rightarrow> ixgbe_dcb_config option \<Rightarrow> u32 \<Rightarrow> nat \<Rightarrow> fault + int \<times> ixgbe_dcb_config option" where
  "ixgbe_dcb_calculate_tc_credits_cee mac dcb_config max_frame_size direction =
     (case dcb_config of
        None \<Rightarrow> Inr (IXGBE_ERR_CONFIG, None)
      | Some cfg \<Rightarrow>
          rbind (rmap (cee_link_percentage cfg direction) (tc_config cfg)) (\<lambda>ls.
          let min_credit = cee_min_credit max_frame_size;
              min_multiplier = min_credit div ucast (cee_min_percent ls) + 1
          in rbind (rmap (cee_tc_credits mac direction min_credit min_multiplier) (zip (tc_config cfg) ls)) (\<lambda>cs.
             Inr (0, Some (cfg\<lparr>tc_config := cs\<rparr>)))))"

section \<open>Unpacking\<close>

definition ixgbe_dcb_unpack_pfc_cee :: "ixgbe_dcb_config \<Rightarrow> u8 list \<Rightarrow> fault + u8" where
  "ixgbe_dcb_unpack_pfc_cee cfg m =
     fold (\<lambda>up r. rbind r (\<lambda>pfc_up. rbind (at (tc_config cfg) (unat (m ! up))) (\<lambda>c.
             Inr (if pfc c \<noteq> ixgbe_dcb_pfc_disabled then pfc_up OR push_bit up 1 else pfc_up))))
       [0..<IXGBE_DCB_MAX_USER_PRIORITY] (Inr 0)"

definition unpack_path :: "(ixgbe_dcb_tc_path \<Rightarrow> 'a) \<Rightarrow> ixgbe_dcb_config \<Rightarrow> nat \<Rightarrow> fault + 'a list" where
  "unpack_path f cfg direction =
     rmap (\<lambda>tc. rbind (at (tc_config cfg) tc) (\<lambda>c. rbind (at (path c) direction) (\<lambda>p. Inr (f p))))
       [0..<IXGBE_DCB_MAX_TRAFFIC_CLASS]"

definition ixgbe_dcb_unpack_refill_cee :: "ixgbe_dcb_config \<Rightarrow> nat \<Rightarrow> fault + u16 list" where
  "ixgbe_dcb_unpack_refill_cee = unpack_path data_credits_refill"

definition ixgbe_dcb_unpack_max_cee :: "ixgbe_dcb_config \<Rightarrow> fault + u16 list" where
  "ixgbe_dcb_unpack_max_cee cfg =
     rmap (\<lambda>tc. rbind (at (tc_config cfg) tc) (\<lambda>c. Inr (desc_credits_max c))) [0..<IXGBE_DCB_MAX_TRAFFIC_CLASS]"

definition ixgbe_dcb_unpack_bwgid_cee :: "ixgbe_dcb_config \<Rightarrow> nat \<Rightarrow> fault + u8 list" where
  "ixgbe_dcb_unpack_bwgid_cee = unpack_path bwg_id"

definition ixgbe_dcb_unpack_tsa_cee :: "ixgbe_dcb_config \<Rightarrow> nat \<Rightarrow> fault + u8 list" where
  "ixgbe_dcb_unpack_tsa_cee = unpack_path (\<lambda>p. tsa_code (tsa p))"

text \<open>The loop that tests the traffic classes from the highest down to 1.\<close>

fun tc_search :: "ixgbe_dcb_config \<Rightarrow> nat \<Rightarrow> u8 \<Rightarrow> nat \<Rightarrow> fault + nat" where
  "tc_search cfg direction prio_mask 0 = Inr 0"
| "tc_search cfg direction prio_mask (Suc t) =
     rbind (at (tc_config cfg) (Suc t)) (\<lambda>c. rbind (at (path c) direction) (\<lambda>p.
       if prio_mask AND up_to_tc_bitmap p \<noteq> 0 then Inr (Suc t) else tc_search cfg direction prio_mask t))"

definition ixgbe_dcb_get_tc_from_up :: "ixgbe_dcb_config \<Rightarrow> nat \<Rightarrow> nat \<Rightarrow> fault + u8" where
  "ixgbe_dcb_get_tc_from_up cfg direction up =
     (let tc = unat (pg_tcs (num_tcs cfg))
      in if tc = 0 then Inr 0
         else rbind (tc_search cfg direction (push_bit up 1) (tc - 1)) (\<lambda>t. Inr (of_nat t)))"

definition ixgbe_dcb_unpack_map_cee :: "ixgbe_dcb_config \<Rightarrow> nat \<Rightarrow> fault + u8 list" where
  "ixgbe_dcb_unpack_map_cee cfg direction =
     rmap (ixgbe_dcb_get_tc_from_up cfg direction) [0..<IXGBE_DCB_MAX_USER_PRIORITY]"

section \<open>The rule check\<close>

text \<open>
  The first loop sums the bandwidth of each group and notes the link strict groups, the second
  checks the sums; \<open>None\<close> is the jump to \<open>err_config\<close>. All sums are bytes.
\<close>

definition check_tc :: "ixgbe_dcb_tc_path \<Rightarrow> u8 list \<times> bool list \<Rightarrow> (u8 list \<times> bool list) option" where
  "check_tc p s =
     (case s of (bw_sum, link_strict) \<Rightarrow>
        let bw = bwg_percent p; bw_id = unat (bwg_id p) in
        if bw_id \<ge> IXGBE_DCB_MAX_BW_GROUP then None
        else if tsa p = ixgbe_dcb_tsa_strict then
          (if bw \<noteq> 0 then None else Some (bw_sum[bw_id := bw_sum ! bw_id + bw], link_strict[bw_id := True]))
        else if bw = 0 then None
        else Some (bw_sum[bw_id := bw_sum ! bw_id + bw], link_strict))"

fun check_tcs :: "ixgbe_dcb_tc_path list \<Rightarrow> u8 list \<times> bool list \<Rightarrow> (u8 list \<times> bool list) option" where
  "check_tcs [] s = Some s"
| "check_tcs (p # ps) s = do { s' \<leftarrow> check_tc p s; check_tcs ps s' }"

fun check_groups :: "u8 list \<Rightarrow> u8 list \<Rightarrow> bool list \<Rightarrow> u8 \<Rightarrow> u8 option" where
  "check_groups (b # bs) (s # ss) (l # ls) bw =
     (if l then (if s \<noteq> 0 then None else check_groups bs ss ls (bw + b))
      else if s \<noteq> IXGBE_DCB_BW_PERCENT \<and> s \<noteq> 0 then None
      else check_groups bs ss ls (bw + b))"
| "check_groups _ _ _ bw = Some bw"

definition check_direction :: "ixgbe_dcb_config \<Rightarrow> nat \<Rightarrow> bool" where
  "check_direction cfg i =
     (case check_tcs (map (\<lambda>c. path c ! i) (tc_config cfg))
             (replicate IXGBE_DCB_MAX_BW_GROUP 0, replicate IXGBE_DCB_MAX_BW_GROUP False) of
        None \<Rightarrow> False
      | Some (bw_sum, link_strict) \<Rightarrow>
          (case check_groups (bw_percentage cfg ! i) bw_sum link_strict 0 of
             None \<Rightarrow> False | Some bw \<Rightarrow> bw = IXGBE_DCB_BW_PERCENT))"

definition ixgbe_dcb_check_config_cee :: "ixgbe_dcb_config \<Rightarrow> int" where
  "ixgbe_dcb_check_config_cee cfg =
     (if \<not> check_direction cfg IXGBE_DCB_TX_CONFIG then IXGBE_ERR_CONFIG
      else if \<not> check_direction cfg IXGBE_DCB_RX_CONFIG then IXGBE_ERR_CONFIG else 0)"

end
