(* ===== verification/DcbHw.thy ===== *)
theory DcbHw
  imports DcbConfig
begin

text \<open>
  The register programs of data centre bridging: \<open>ixgbe_dcb_82598.c\<close>, \<open>ixgbe_dcb_82599.c\<close> and the readers of
  the priority map in \<open>ixgbe_common.c\<close> and \<open>ixgbe_main.c\<close>.
\<close>

section \<open>Registers\<close>

definition reg_at :: "u32 \<Rightarrow> u32 \<Rightarrow> nat \<Rightarrow> u32" where
  "reg_at base stride i = base + stride * of_nat i"

abbreviation (input) IXGBE_RT2CR :: "nat \<Rightarrow> u32" where "IXGBE_RT2CR \<equiv> reg_at 0x3C20 4"
abbreviation (input) IXGBE_TDTQ2TCCR :: "nat \<Rightarrow> u32" where "IXGBE_TDTQ2TCCR \<equiv> reg_at 0x602C 0x40"
abbreviation (input) IXGBE_TDPT2TCCR :: "nat \<Rightarrow> u32" where "IXGBE_TDPT2TCCR \<equiv> reg_at 0xCD20 4"
abbreviation (input) IXGBE_FCTTV :: "nat \<Rightarrow> u32" where "IXGBE_FCTTV \<equiv> reg_at 0x3200 4"
abbreviation (input) IXGBE_FCRTL :: "nat \<Rightarrow> u32" where "IXGBE_FCRTL \<equiv> reg_at 0x3220 8"
abbreviation (input) IXGBE_FCRTH :: "nat \<Rightarrow> u32" where "IXGBE_FCRTH \<equiv> reg_at 0x3260 8"
abbreviation (input) IXGBE_RQSMR :: "nat \<Rightarrow> u32" where "IXGBE_RQSMR \<equiv> reg_at 0x2300 4"
abbreviation (input) IXGBE_TQSMR :: "nat \<Rightarrow> u32" where "IXGBE_TQSMR \<equiv> reg_at 0x7300 4"
abbreviation (input) IXGBE_QPTC :: "nat \<Rightarrow> u32" where "IXGBE_QPTC \<equiv> reg_at 0x6030 0x40"
abbreviation (input) IXGBE_QBTC :: "nat \<Rightarrow> u32" where "IXGBE_QBTC \<equiv> reg_at 0x6034 0x40"
abbreviation (input) IXGBE_QPRC :: "nat \<Rightarrow> u32" where "IXGBE_QPRC \<equiv> reg_at 0x1030 0x40"
abbreviation (input) IXGBE_QBRC :: "nat \<Rightarrow> u32" where "IXGBE_QBRC \<equiv> reg_at 0x1034 0x40"
abbreviation (input) IXGBE_PXOFFTXC :: "nat \<Rightarrow> u32" where "IXGBE_PXOFFTXC \<equiv> reg_at 0x3F20 4"
abbreviation (input) IXGBE_QBTC_L :: "nat \<Rightarrow> u32" where "IXGBE_QBTC_L \<equiv> reg_at 0x8700 0x8"
abbreviation (input) IXGBE_QBTC_H :: "nat \<Rightarrow> u32" where "IXGBE_QBTC_H \<equiv> reg_at 0x8704 0x8"
abbreviation (input) IXGBE_QBRC_L :: "nat \<Rightarrow> u32" where "IXGBE_QBRC_L \<equiv> reg_at 0x1034 0x40"
abbreviation (input) IXGBE_QBRC_H :: "nat \<Rightarrow> u32" where "IXGBE_QBRC_H \<equiv> reg_at 0x1038 0x40"
abbreviation (input) IXGBE_QPRDC :: "nat \<Rightarrow> u32" where "IXGBE_QPRDC \<equiv> reg_at 0x1430 0x40"
abbreviation (input) IXGBE_RTRPT4C :: "nat \<Rightarrow> u32" where "IXGBE_RTRPT4C \<equiv> reg_at 0x2140 4"
abbreviation (input) IXGBE_RTTDT2C :: "nat \<Rightarrow> u32" where "IXGBE_RTTDT2C \<equiv> reg_at 0x4910 4"
abbreviation (input) IXGBE_RTTPT2C :: "nat \<Rightarrow> u32" where "IXGBE_RTTPT2C \<equiv> reg_at 0xCD20 4"
abbreviation (input) IXGBE_FCRTH_82599 :: "nat \<Rightarrow> u32" where "IXGBE_FCRTH_82599 \<equiv> reg_at 0x3260 4"
abbreviation (input) IXGBE_FCRTL_82599 :: "nat \<Rightarrow> u32" where "IXGBE_FCRTL_82599 \<equiv> reg_at 0x3220 4"
abbreviation (input) IXGBE_RXPBSIZE :: "nat \<Rightarrow> u32" where "IXGBE_RXPBSIZE \<equiv> reg_at 0x3C00 4"
abbreviation (input) IXGBE_TQSM :: "nat \<Rightarrow> u32" where "IXGBE_TQSM \<equiv> reg_at 0x8600 4"
abbreviation (input) IXGBE_PXOFFRXC :: "nat \<Rightarrow> u32" where "IXGBE_PXOFFRXC \<equiv> reg_at 0xCF20 4"
abbreviation (input) IXGBE_PXOFFRXCNT :: "nat \<Rightarrow> u32" where "IXGBE_PXOFFRXCNT \<equiv> reg_at 0x4160 4"

abbreviation (input) IXGBE_RUPPBMR :: u32 where "IXGBE_RUPPBMR \<equiv> 0x50A0"
abbreviation (input) IXGBE_RMCS :: u32 where "IXGBE_RMCS \<equiv> 0x3D00"
abbreviation (input) IXGBE_RDRXCTL :: u32 where "IXGBE_RDRXCTL \<equiv> 0x2F00"
abbreviation (input) IXGBE_RXCTRL :: u32 where "IXGBE_RXCTRL \<equiv> 0x3000"
abbreviation (input) IXGBE_DPMCS :: u32 where "IXGBE_DPMCS \<equiv> 0x7F40"
abbreviation (input) IXGBE_PDPMCS :: u32 where "IXGBE_PDPMCS \<equiv> 0xCD00"
abbreviation (input) IXGBE_DTXCTL :: u32 where "IXGBE_DTXCTL \<equiv> 0x7E00"
abbreviation (input) IXGBE_FCTRL :: u32 where "IXGBE_FCTRL \<equiv> 0x5080"
abbreviation (input) IXGBE_FCRTV :: u32 where "IXGBE_FCRTV \<equiv> 0x32A0"
abbreviation (input) IXGBE_RTRPCS :: u32 where "IXGBE_RTRPCS \<equiv> 0x2430"
abbreviation (input) IXGBE_RTTDQSEL :: u32 where "IXGBE_RTTDQSEL \<equiv> 0x4904"
abbreviation (input) IXGBE_RTTDT1C :: u32 where "IXGBE_RTTDT1C \<equiv> 0x4908"
abbreviation (input) IXGBE_RTTDCS :: u32 where "IXGBE_RTTDCS \<equiv> 0x4900"
abbreviation (input) IXGBE_RTTPCS :: u32 where "IXGBE_RTTPCS \<equiv> 0xCD00"
abbreviation (input) IXGBE_FCCFG :: u32 where "IXGBE_FCCFG \<equiv> 0x3D00"
abbreviation (input) IXGBE_MFLCN :: u32 where "IXGBE_MFLCN \<equiv> 0x4294"
abbreviation (input) IXGBE_MRQC :: u32 where "IXGBE_MRQC \<equiv> 0x5818"
abbreviation (input) IXGBE_MTQC :: u32 where "IXGBE_MTQC \<equiv> 0x8120"
abbreviation (input) IXGBE_QDE :: u32 where "IXGBE_QDE \<equiv> 0x2F04"
abbreviation (input) IXGBE_SECTXMINIFG :: u32 where "IXGBE_SECTXMINIFG \<equiv> 0x8810"
abbreviation (input) IXGBE_RTRUP2TC :: u32 where "IXGBE_RTRUP2TC \<equiv> 0x3020"
abbreviation (input) IXGBE_RTTUP2TC :: u32 where "IXGBE_RTTUP2TC \<equiv> 0xC800"

abbreviation (input) IXGBE_RUPPBMR_MQA :: u32 where "IXGBE_RUPPBMR_MQA \<equiv> 0x80000000"
abbreviation (input) IXGBE_RMCS_ARBDIS :: u32 where "IXGBE_RMCS_ARBDIS \<equiv> 0x40"
abbreviation (input) IXGBE_RMCS_RRM :: u32 where "IXGBE_RMCS_RRM \<equiv> 0x2"
abbreviation (input) IXGBE_RMCS_DFP :: u32 where "IXGBE_RMCS_DFP \<equiv> 0x4"
abbreviation (input) IXGBE_RT2CR_LSP :: u32 where "IXGBE_RT2CR_LSP \<equiv> 0x80000000"
abbreviation (input) IXGBE_RDRXCTL_RDMTS_1_2 :: u32 where "IXGBE_RDRXCTL_RDMTS_1_2 \<equiv> 0"
abbreviation (input) IXGBE_RDRXCTL_MPBEN :: u32 where "IXGBE_RDRXCTL_MPBEN \<equiv> 0x10"
abbreviation (input) IXGBE_RDRXCTL_MCEN :: u32 where "IXGBE_RDRXCTL_MCEN \<equiv> 0x40"
abbreviation (input) IXGBE_RXCTRL_DMBYPS :: u32 where "IXGBE_RXCTRL_DMBYPS \<equiv> 0x2"
abbreviation (input) IXGBE_TDTQ2TCCR_GSP :: u32 where "IXGBE_TDTQ2TCCR_GSP \<equiv> 0x40000000"
abbreviation (input) IXGBE_TDTQ2TCCR_LSP :: u32 where "IXGBE_TDTQ2TCCR_LSP \<equiv> 0x80000000"
abbreviation (input) IXGBE_DPMCS_ARBDIS :: u32 where "IXGBE_DPMCS_ARBDIS \<equiv> 0x40"
abbreviation (input) IXGBE_DPMCS_TSOEF :: u32 where "IXGBE_DPMCS_TSOEF \<equiv> 0x80000"
abbreviation (input) IXGBE_PDPMCS_ARBDIS :: u32 where "IXGBE_PDPMCS_ARBDIS \<equiv> 0x40"
abbreviation (input) IXGBE_PDPMCS_TPPAC :: u32 where "IXGBE_PDPMCS_TPPAC \<equiv> 0x20"
abbreviation (input) IXGBE_PDPMCS_TRM :: u32 where "IXGBE_PDPMCS_TRM \<equiv> 0x100"
abbreviation (input) IXGBE_DTXCTL_ENDBUBD :: u32 where "IXGBE_DTXCTL_ENDBUBD \<equiv> 0x4"
abbreviation (input) IXGBE_RMCS_TFCE_802_3X :: u32 where "IXGBE_RMCS_TFCE_802_3X \<equiv> 0x8"
abbreviation (input) IXGBE_RMCS_TFCE_PRIORITY :: u32 where "IXGBE_RMCS_TFCE_PRIORITY \<equiv> 0x10"
abbreviation (input) IXGBE_FCTRL_RPFCE :: u32 where "IXGBE_FCTRL_RPFCE \<equiv> 0x4000"
abbreviation (input) IXGBE_FCTRL_RFCE :: u32 where "IXGBE_FCTRL_RFCE \<equiv> 0x8000"
abbreviation (input) IXGBE_FCRTH_FCEN :: u32 where "IXGBE_FCRTH_FCEN \<equiv> 0x80000000"
abbreviation (input) IXGBE_FCRTL_XONE :: u32 where "IXGBE_FCRTL_XONE \<equiv> 0x80000000"
abbreviation (input) IXGBE_RTRPCS_RRM :: u32 where "IXGBE_RTRPCS_RRM \<equiv> 0x2"
abbreviation (input) IXGBE_RTRPCS_RAC :: u32 where "IXGBE_RTRPCS_RAC \<equiv> 0x4"
abbreviation (input) IXGBE_RTRPCS_ARBDIS :: u32 where "IXGBE_RTRPCS_ARBDIS \<equiv> 0x40"
abbreviation (input) IXGBE_RTRPT4C_LSP :: u32 where "IXGBE_RTRPT4C_LSP \<equiv> 0x80000000"
abbreviation (input) IXGBE_RTTDCS_TDPAC :: u32 where "IXGBE_RTTDCS_TDPAC \<equiv> 0x1"
abbreviation (input) IXGBE_RTTDCS_TDRM :: u32 where "IXGBE_RTTDCS_TDRM \<equiv> 0x10"
abbreviation (input) IXGBE_RTTPCS_TPPAC :: u32 where "IXGBE_RTTPCS_TPPAC \<equiv> 0x20"
abbreviation (input) IXGBE_RTTPCS_TPRM :: u32 where "IXGBE_RTTPCS_TPRM \<equiv> 0x100"
abbreviation (input) IXGBE_RTTPCS_ARBD_DCB :: u32 where "IXGBE_RTTPCS_ARBD_DCB \<equiv> 0x4"
abbreviation (input) IXGBE_RTTPCS_ARBDIS :: u32 where "IXGBE_RTTPCS_ARBDIS \<equiv> 0x40"
abbreviation (input) IXGBE_FCCFG_TFCE_PRIORITY :: u32 where "IXGBE_FCCFG_TFCE_PRIORITY \<equiv> 0x10"
abbreviation (input) IXGBE_MFLCN_DPF :: u32 where "IXGBE_MFLCN_DPF \<equiv> 0x2"
abbreviation (input) IXGBE_MFLCN_RPFCE_MASK :: u32 where "IXGBE_MFLCN_RPFCE_MASK \<equiv> 0xFF4"
abbreviation (input) IXGBE_MFLCN_RFCE :: u32 where "IXGBE_MFLCN_RFCE \<equiv> 0x8"
abbreviation (input) IXGBE_MFLCN_RPFCE :: u32 where "IXGBE_MFLCN_RPFCE \<equiv> 0x4"
abbreviation (input) IXGBE_MRQC_RT4TCEN :: u32 where "IXGBE_MRQC_RT4TCEN \<equiv> 0x3"
abbreviation (input) IXGBE_MRQC_RT8TCEN :: u32 where "IXGBE_MRQC_RT8TCEN \<equiv> 0x2"
abbreviation (input) IXGBE_MRQC_RSSEN :: u32 where "IXGBE_MRQC_RSSEN \<equiv> 0x1"
abbreviation (input) IXGBE_MRQC_RTRSS4TCEN :: u32 where "IXGBE_MRQC_RTRSS4TCEN \<equiv> 0x5"
abbreviation (input) IXGBE_MRQC_RTRSS8TCEN :: u32 where "IXGBE_MRQC_RTRSS8TCEN \<equiv> 0x4"
abbreviation (input) IXGBE_MRQC_MRQE_MASK :: u32 where "IXGBE_MRQC_MRQE_MASK \<equiv> 0xF"
abbreviation (input) IXGBE_MRQC_VMDQRT4TCEN :: u32 where "IXGBE_MRQC_VMDQRT4TCEN \<equiv> 0xD"
abbreviation (input) IXGBE_RTTDCS_ARBDIS :: u32 where "IXGBE_RTTDCS_ARBDIS \<equiv> 0x40"
abbreviation (input) IXGBE_SECTX_DCB :: u32 where "IXGBE_SECTX_DCB \<equiv> 0x1F00"
abbreviation (input) IXGBE_MTQC_RT_ENA :: u32 where "IXGBE_MTQC_RT_ENA \<equiv> 0x1"
abbreviation (input) IXGBE_MTQC_8TC_8TQ :: u32 where "IXGBE_MTQC_8TC_8TQ \<equiv> 0xC"
abbreviation (input) IXGBE_MTQC_4TC_4TQ :: u32 where "IXGBE_MTQC_4TC_4TQ \<equiv> 0x8"
abbreviation (input) IXGBE_MTQC_VT_ENA :: u32 where "IXGBE_MTQC_VT_ENA \<equiv> 0x2"
abbreviation (input) IXGBE_QDE_WRITE :: u32 where "IXGBE_QDE_WRITE \<equiv> 0x10000"

section \<open>State\<close>

record ixgbe_fc_info =
  high_water :: "u32 list"
  low_water :: "u32 list"
  pause_time :: u16

record 'h dcb_hw = "'h ixgbe_hw" +
  fc :: ixgbe_fc_info

record ixgbe_hw_stats =
  qptc :: "u64 list"
  qbtc :: "u64 list"
  qprc :: "u64 list"
  qbrc :: "u64 list"
  qprdc :: "u64 list"
  pxofftxc :: "u64 list"
  pxoffrxc :: "u64 list"

text \<open>Read, change, write back.\<close>

definition rmw :: "'h device \<Rightarrow> u32 \<Rightarrow> (u32 \<Rightarrow> u32) \<Rightarrow> ('h, 'z) ixgbe_hw_scheme \<Rightarrow> ('h, 'z) ixgbe_hw_scheme" where
  "rmw R a f hw = (case IXGBE_READ_REG R a hw of (v, hw1) \<Rightarrow> IXGBE_WRITE_REG R a (f v) hw1)"

text \<open>\<open>for (i = 0; i < n; i++)\<close> around one register write.\<close>

definition for_regs :: "nat \<Rightarrow> (nat \<Rightarrow> ('h, 'z) ixgbe_hw_scheme \<Rightarrow> ('h, 'z) ixgbe_hw_scheme) \<Rightarrow> ('h, 'z) ixgbe_hw_scheme \<Rightarrow> ('h, 'z) ixgbe_hw_scheme" where
  "for_regs n f hw = fold f [0..<n] hw"

abbreviation strict :: "u8 \<Rightarrow> bool" where "strict t \<equiv> t = tsa_code ixgbe_dcb_tsa_strict"
abbreviation group_strict :: "u8 \<Rightarrow> bool" where "group_strict t \<equiv> t = tsa_code ixgbe_dcb_tsa_group_strict_cee"

section \<open>82598\<close>

definition ixgbe_dcb_config_rx_arbiter_82598 ::
  "'h device \<Rightarrow> u16 list \<Rightarrow> u16 list \<Rightarrow> u8 list \<Rightarrow> ('h, 'z) ixgbe_hw_scheme \<Rightarrow> int \<times> ('h, 'z) ixgbe_hw_scheme" where
  "ixgbe_dcb_config_rx_arbiter_82598 R refill max_cr ts hw =
     (let hw1 = rmw R IXGBE_RUPPBMR (\<lambda>r. r OR IXGBE_RUPPBMR_MQA) hw;
          hw2 = rmw R IXGBE_RMCS (\<lambda>r. ((r AND NOT IXGBE_RMCS_ARBDIS) OR IXGBE_RMCS_RRM) OR IXGBE_RMCS_DFP) hw1;
          hw3 = for_regs IXGBE_DCB_MAX_TRAFFIC_CLASS (\<lambda>i. IXGBE_WRITE_REG R (IXGBE_RT2CR i)
                  ((ucast (refill ! i) OR push_bit 12 (ucast (max_cr ! i))) OR (if strict (ts ! i) then IXGBE_RT2CR_LSP else 0))) hw2;
          hw4 = rmw R IXGBE_RDRXCTL (\<lambda>r. ((r OR IXGBE_RDRXCTL_RDMTS_1_2) OR IXGBE_RDRXCTL_MPBEN) OR IXGBE_RDRXCTL_MCEN) hw3;
          hw5 = rmw R IXGBE_RXCTRL (\<lambda>r. r AND NOT IXGBE_RXCTRL_DMBYPS) hw4
      in (0, hw5))"

text \<open>The credits of a class with its group and the two strict bits, shared by the transmit arbiters.\<close>

definition tx_credits :: "u16 \<Rightarrow> u16 \<Rightarrow> u8 \<Rightarrow> u8 \<Rightarrow> u32" where
  "tx_credits refill max_cr bwg t =
     ((push_bit 12 (ucast max_cr) OR ucast refill) OR push_bit 9 (ucast bwg)) OR
     ((if group_strict t then IXGBE_TDTQ2TCCR_GSP else 0) OR (if strict t then IXGBE_TDTQ2TCCR_LSP else 0))"

definition ixgbe_dcb_config_tx_desc_arbiter_82598 ::
  "'h device \<Rightarrow> u16 list \<Rightarrow> u16 list \<Rightarrow> u8 list \<Rightarrow> u8 list \<Rightarrow> ('h, 'z) ixgbe_hw_scheme \<Rightarrow> int \<times> ('h, 'z) ixgbe_hw_scheme" where
  "ixgbe_dcb_config_tx_desc_arbiter_82598 R refill max_cr bwg ts hw =
     (let hw1 = rmw R IXGBE_DPMCS (\<lambda>r. ((r AND NOT IXGBE_DPMCS_ARBDIS) OR IXGBE_DPMCS_TSOEF) OR push_bit 16 0x4) hw;
          hw2 = for_regs IXGBE_DCB_MAX_TRAFFIC_CLASS (\<lambda>i. IXGBE_WRITE_REG R (IXGBE_TDTQ2TCCR i)
                  (tx_credits (refill ! i) (max_cr ! i) (bwg ! i) (ts ! i))) hw1
      in (0, hw2))"

definition ixgbe_dcb_config_tx_data_arbiter_82598 ::
  "'h device \<Rightarrow> u16 list \<Rightarrow> u16 list \<Rightarrow> u8 list \<Rightarrow> u8 list \<Rightarrow> ('h, 'z) ixgbe_hw_scheme \<Rightarrow> int \<times> ('h, 'z) ixgbe_hw_scheme" where
  "ixgbe_dcb_config_tx_data_arbiter_82598 R refill max_cr bwg ts hw =
     (let hw1 = rmw R IXGBE_PDPMCS (\<lambda>r. (r AND NOT IXGBE_PDPMCS_ARBDIS) OR (IXGBE_PDPMCS_TPPAC OR IXGBE_PDPMCS_TRM)) hw;
          hw2 = for_regs IXGBE_DCB_MAX_TRAFFIC_CLASS (\<lambda>i. IXGBE_WRITE_REG R (IXGBE_TDPT2TCCR i)
                  (tx_credits (refill ! i) (max_cr ! i) (bwg ! i) (ts ! i))) hw1;
          hw3 = rmw R IXGBE_DTXCTL (\<lambda>r. r OR IXGBE_DTXCTL_ENDBUBD) hw2
      in (0, hw3))"

definition pause_regs :: "'h device \<Rightarrow> 'h dcb_hw \<Rightarrow> 'h dcb_hw" where
  "pause_regs R hw =
     (let pt = ucast (pause_time (fc hw)) :: u32;
          hw1 = for_regs (IXGBE_DCB_MAX_TRAFFIC_CLASS div 2) (\<lambda>i. IXGBE_WRITE_REG R (IXGBE_FCTTV i) (pt OR push_bit 16 pt)) hw
      in IXGBE_WRITE_REG R IXGBE_FCRTV (pt div 2) hw1)"

definition ixgbe_dcb_config_pfc_82598 :: "'h device \<Rightarrow> u8 \<Rightarrow> 'h dcb_hw \<Rightarrow> int \<times> 'h dcb_hw" where
  "ixgbe_dcb_config_pfc_82598 R pfc_en hw =
     (let hw1 = rmw R IXGBE_RMCS (\<lambda>r. (r AND NOT IXGBE_RMCS_TFCE_802_3X) OR IXGBE_RMCS_TFCE_PRIORITY) hw;
          hw2 = rmw R IXGBE_FCTRL (\<lambda>r. (r AND NOT (IXGBE_FCTRL_RPFCE OR IXGBE_FCTRL_RFCE)) OR (if pfc_en \<noteq> 0 then IXGBE_FCTRL_RPFCE else 0)) hw1;
          hw3 = for_regs IXGBE_DCB_MAX_TRAFFIC_CLASS (\<lambda>i hw.
                  if \<not> bit pfc_en i
                  then IXGBE_WRITE_REG R (IXGBE_FCRTH i) 0 (IXGBE_WRITE_REG R (IXGBE_FCRTL i) 0 hw)
                  else IXGBE_WRITE_REG R (IXGBE_FCRTH i) (push_bit 10 (high_water (fc hw) ! i) OR IXGBE_FCRTH_FCEN)
                        (IXGBE_WRITE_REG R (IXGBE_FCRTL i) (push_bit 10 (low_water (fc hw) ! i) OR IXGBE_FCRTL_XONE) hw)) hw2
      in (0, pause_regs R hw3))"

definition ixgbe_dcb_config_tc_stats_82598 :: "'h device \<Rightarrow> ('h, 'z) ixgbe_hw_scheme \<Rightarrow> int \<times> ('h, 'z) ixgbe_hw_scheme" where
  "ixgbe_dcb_config_tc_stats_82598 R hw =
     (let hw1 = for_regs 8 (\<lambda>j hw.
                  rmw R (IXGBE_RQSMR (2 * j + 1)) (\<lambda>r. r OR 0x1010101 * of_nat j)
                    (rmw R (IXGBE_RQSMR (2 * j)) (\<lambda>r. r OR 0x1010101 * of_nat j) hw)) hw;
          hw2 = for_regs 8 (\<lambda>i. rmw R (IXGBE_TQSMR i) (\<lambda>r. r OR 0x1010101 * of_nat i)) hw1
      in (0, hw2))"

definition ixgbe_dcb_hw_config_82598 ::
  "'h device \<Rightarrow> u16 list \<Rightarrow> u16 list \<Rightarrow> u8 list \<Rightarrow> u8 list \<Rightarrow> ('h, 'z) ixgbe_hw_scheme \<Rightarrow> int \<times> ('h, 'z) ixgbe_hw_scheme" where
  "ixgbe_dcb_hw_config_82598 R refill max_cr bwg ts hw =
     (let (_, hw1) = ixgbe_dcb_config_rx_arbiter_82598 R refill max_cr ts hw;
          (_, hw2) = ixgbe_dcb_config_tx_desc_arbiter_82598 R refill max_cr bwg ts hw1;
          (_, hw3) = ixgbe_dcb_config_tx_data_arbiter_82598 R refill max_cr bwg ts hw2;
          (_, hw4) = ixgbe_dcb_config_tc_stats_82598 R hw3
      in (0, hw4))"

text \<open>Adding a counter register, which clears when read, to a statistic.\<close>

definition count :: "'h device \<Rightarrow> u32 \<Rightarrow> (u64 \<Rightarrow> ixgbe_hw_stats \<Rightarrow> ixgbe_hw_stats) \<Rightarrow>
  ixgbe_hw_stats \<times> ('h, 'z) ixgbe_hw_scheme \<Rightarrow> ixgbe_hw_stats \<times> ('h, 'z) ixgbe_hw_scheme" where
  "count R a f s = (case s of (st, hw) \<Rightarrow> case IXGBE_READ_REG R a hw of (v, hw1) \<Rightarrow> (f (ucast v) st, hw1))"

definition add_to :: "nat \<Rightarrow> u64 \<Rightarrow> u64 list \<Rightarrow> u64 list" where
  "add_to i v xs = xs[i := xs ! i + v]"

definition ixgbe_dcb_get_tc_stats_82598 ::
  "'h device \<Rightarrow> u8 \<Rightarrow> ixgbe_hw_stats \<Rightarrow> ('h, 'z) ixgbe_hw_scheme \<Rightarrow> int \<times> ixgbe_hw_stats \<times> ('h, 'z) ixgbe_hw_scheme" where
  "ixgbe_dcb_get_tc_stats_82598 R tc_count st hw =
     (if unat tc_count > IXGBE_DCB_MAX_TRAFFIC_CLASS then (IXGBE_ERR_PARAM, st, hw)
      else (0, fold (\<lambda>tc s.
          let s1 = count R (IXGBE_QPTC tc) (\<lambda>v st. st\<lparr>qptc := add_to tc v (qptc st)\<rparr>) s;
              s2 = count R (IXGBE_QBTC tc) (\<lambda>v st. st\<lparr>qbtc := add_to tc v (qbtc st)\<rparr>) s1;
              s3 = count R (IXGBE_QPRC tc) (\<lambda>v st. st\<lparr>qprc := add_to tc v (qprc st)\<rparr>) s2
          in count R (IXGBE_QBRC tc) (\<lambda>v st. st\<lparr>qbrc := add_to tc v (qbrc st)\<rparr>) s3)
        [0..<unat tc_count] (st, hw)))"

definition pfc_stats :: "(nat \<Rightarrow> u32) \<Rightarrow> 'h device \<Rightarrow> u8 \<Rightarrow> ixgbe_hw_stats \<Rightarrow> ('h, 'z) ixgbe_hw_scheme \<Rightarrow> int \<times> ixgbe_hw_stats \<times> ('h, 'z) ixgbe_hw_scheme" where
  "pfc_stats rx_reg R tc_count st hw =
     (if unat tc_count > IXGBE_DCB_MAX_TRAFFIC_CLASS then (IXGBE_ERR_PARAM, st, hw)
      else (0, fold (\<lambda>tc s.
          let s1 = count R (IXGBE_PXOFFTXC tc) (\<lambda>v st. st\<lparr>pxofftxc := add_to tc v (pxofftxc st)\<rparr>) s
          in count R (rx_reg tc) (\<lambda>v st. st\<lparr>pxoffrxc := add_to tc v (pxoffrxc st)\<rparr>) s1)
        [0..<unat tc_count] (st, hw)))"

definition ixgbe_dcb_get_pfc_stats_82598 ::
  "'h device \<Rightarrow> u8 \<Rightarrow> ixgbe_hw_stats \<Rightarrow> ('h, 'z) ixgbe_hw_scheme \<Rightarrow> int \<times> ixgbe_hw_stats \<times> ('h, 'z) ixgbe_hw_scheme" where
  "ixgbe_dcb_get_pfc_stats_82598 = pfc_stats IXGBE_PXOFFRXC"

section \<open>82599 and X540\<close>

definition ixgbe_dcb_get_tc_stats_82599 ::
  "'h device \<Rightarrow> u8 \<Rightarrow> ixgbe_hw_stats \<Rightarrow> ('h, 'z) ixgbe_hw_scheme \<Rightarrow> int \<times> ixgbe_hw_stats \<times> ('h, 'z) ixgbe_hw_scheme" where
  "ixgbe_dcb_get_tc_stats_82599 R tc_count st hw =
     (if unat tc_count > IXGBE_DCB_MAX_TRAFFIC_CLASS then (IXGBE_ERR_PARAM, st, hw)
      else (0, fold (\<lambda>tc s.
          let s1 = count R (IXGBE_QPTC tc) (\<lambda>v st. st\<lparr>qptc := add_to tc v (qptc st)\<rparr>) s;
              s2 = count R (IXGBE_QBTC_L tc) (\<lambda>v st. st\<lparr>qbtc := add_to tc v (qbtc st)\<rparr>) s1;
              s3 = count R (IXGBE_QBTC_H tc) (\<lambda>v st. st\<lparr>qbtc := add_to tc (push_bit 32 v) (qbtc st)\<rparr>) s2;
              s4 = count R (IXGBE_QPRC tc) (\<lambda>v st. st\<lparr>qprc := add_to tc v (qprc st)\<rparr>) s3;
              s5 = count R (IXGBE_QBRC_L tc) (\<lambda>v st. st\<lparr>qbrc := add_to tc v (qbrc st)\<rparr>) s4;
              s6 = count R (IXGBE_QBRC_H tc) (\<lambda>v st. st\<lparr>qbrc := add_to tc (push_bit 32 v) (qbrc st)\<rparr>) s5
          in count R (IXGBE_QPRDC tc) (\<lambda>v st. st\<lparr>qprdc := add_to tc v (qprdc st)\<rparr>) s6)
        [0..<unat tc_count] (st, hw)))"

definition ixgbe_dcb_get_pfc_stats_82599 ::
  "'h device \<Rightarrow> u8 \<Rightarrow> ixgbe_hw_stats \<Rightarrow> ('h, 'z) ixgbe_hw_scheme \<Rightarrow> int \<times> ixgbe_hw_stats \<times> ('h, 'z) ixgbe_hw_scheme" where
  "ixgbe_dcb_get_pfc_stats_82599 = pfc_stats IXGBE_PXOFFRXCNT"


text \<open>\<open>reg |= map[i] << (i * 3)\<close>, the shift in \<open>int\<close>.\<close>

definition up2tc :: "u8 list \<Rightarrow> u32" where
  "up2tc m = fold (\<lambda>i reg. reg OR push_bit (i * 3) (ucast (m ! i))) [0..<IXGBE_DCB_MAX_USER_PRIORITY] 0"

definition ixgbe_dcb_config_rx_arbiter_82599 ::
  "'h device \<Rightarrow> u16 list \<Rightarrow> u16 list \<Rightarrow> u8 list \<Rightarrow> u8 list \<Rightarrow> u8 list \<Rightarrow> ('h, 'z) ixgbe_hw_scheme \<Rightarrow> int \<times> ('h, 'z) ixgbe_hw_scheme" where
  "ixgbe_dcb_config_rx_arbiter_82599 R refill max_cr bwg ts m hw =
     (let hw1 = IXGBE_WRITE_REG R IXGBE_RTRPCS (IXGBE_RTRPCS_RRM OR IXGBE_RTRPCS_RAC OR IXGBE_RTRPCS_ARBDIS) hw;
          hw2 = IXGBE_WRITE_REG R IXGBE_RTRUP2TC (up2tc m) hw1;
          hw3 = for_regs IXGBE_DCB_MAX_TRAFFIC_CLASS (\<lambda>i. IXGBE_WRITE_REG R (IXGBE_RTRPT4C i)
                  (((ucast (refill ! i) OR push_bit 12 (ucast (max_cr ! i))) OR push_bit 9 (ucast (bwg ! i))) OR
                   (if strict (ts ! i) then IXGBE_RTRPT4C_LSP else 0))) hw2;
          hw4 = IXGBE_WRITE_REG R IXGBE_RTRPCS (IXGBE_RTRPCS_RRM OR IXGBE_RTRPCS_RAC) hw3
      in (0, hw4))"

definition ixgbe_dcb_config_tx_desc_arbiter_82599 ::
  "'h device \<Rightarrow> u16 list \<Rightarrow> u16 list \<Rightarrow> u8 list \<Rightarrow> u8 list \<Rightarrow> ('h, 'z) ixgbe_hw_scheme \<Rightarrow> int \<times> ('h, 'z) ixgbe_hw_scheme" where
  "ixgbe_dcb_config_tx_desc_arbiter_82599 R refill max_cr bwg ts hw =
     (let hw1 = for_regs 128 (\<lambda>i hw. IXGBE_WRITE_REG R IXGBE_RTTDT1C 0 (IXGBE_WRITE_REG R IXGBE_RTTDQSEL (of_nat i) hw)) hw;
          hw2 = for_regs IXGBE_DCB_MAX_TRAFFIC_CLASS (\<lambda>i. IXGBE_WRITE_REG R (IXGBE_RTTDT2C i)
                  (tx_credits (refill ! i) (max_cr ! i) (bwg ! i) (ts ! i))) hw1;
          hw3 = IXGBE_WRITE_REG R IXGBE_RTTDCS (IXGBE_RTTDCS_TDPAC OR IXGBE_RTTDCS_TDRM) hw2
      in (0, hw3))"

definition ixgbe_dcb_config_tx_data_arbiter_82599 ::
  "'h device \<Rightarrow> u16 list \<Rightarrow> u16 list \<Rightarrow> u8 list \<Rightarrow> u8 list \<Rightarrow> u8 list \<Rightarrow> ('h, 'z) ixgbe_hw_scheme \<Rightarrow> int \<times> ('h, 'z) ixgbe_hw_scheme" where
  "ixgbe_dcb_config_tx_data_arbiter_82599 R refill max_cr bwg ts m hw =
     (let hw1 = IXGBE_WRITE_REG R IXGBE_RTTPCS (IXGBE_RTTPCS_TPPAC OR IXGBE_RTTPCS_TPRM OR push_bit 22 IXGBE_RTTPCS_ARBD_DCB OR IXGBE_RTTPCS_ARBDIS) hw;
          hw2 = IXGBE_WRITE_REG R IXGBE_RTTUP2TC (up2tc m) hw1;
          hw3 = for_regs IXGBE_DCB_MAX_TRAFFIC_CLASS (\<lambda>i. IXGBE_WRITE_REG R (IXGBE_RTTPT2C i)
                  (tx_credits (refill ! i) (max_cr ! i) (bwg ! i) (ts ! i))) hw2;
          hw4 = IXGBE_WRITE_REG R IXGBE_RTTPCS (IXGBE_RTTPCS_TPPAC OR IXGBE_RTTPCS_TPRM OR push_bit 22 IXGBE_RTTPCS_ARBD_DCB) hw3
      in (0, hw4))"

text \<open>The thresholds of the classes up to the highest in use; the water marks are indexed by the class.\<close>

definition pfc_class_enabled :: "u8 \<Rightarrow> u8 list \<Rightarrow> nat \<Rightarrow> bool" where
  "pfc_class_enabled pfc_en m i \<longleftrightarrow> (\<exists>j \<in> set [0..<IXGBE_DCB_MAX_USER_PRIORITY]. unat (m ! j) = i \<and> bit pfc_en j)"

definition pfc_threshold :: "'h device \<Rightarrow> u8 \<Rightarrow> u8 list \<Rightarrow> nat \<Rightarrow> 'h dcb_hw \<Rightarrow> fault + 'h dcb_hw" where
  "pfc_threshold R pfc_en m i hw =
     (if pfc_class_enabled pfc_en m i then
        rbind (at (high_water (fc hw)) i) (\<lambda>hi. rbind (at (low_water (fc hw)) i) (\<lambda>lo.
        Inr (IXGBE_WRITE_REG R (IXGBE_FCRTH_82599 i) (push_bit 10 hi OR IXGBE_FCRTH_FCEN)
              (IXGBE_WRITE_REG R (IXGBE_FCRTL_82599 i) (push_bit 10 lo OR IXGBE_FCRTL_XONE) hw))))
      else
        (case IXGBE_READ_REG R (IXGBE_RXPBSIZE i) hw of (v, hw1) \<Rightarrow>
          Inr (IXGBE_WRITE_REG R (IXGBE_FCRTH_82599 i) (v - 24576) (IXGBE_WRITE_REG R (IXGBE_FCRTL_82599 i) 0 hw1))))"

definition ixgbe_dcb_config_pfc_82599 :: "'h device \<Rightarrow> u8 \<Rightarrow> u8 list \<Rightarrow> 'h dcb_hw \<Rightarrow> fault + int \<times> 'h dcb_hw" where
  "ixgbe_dcb_config_pfc_82599 R pfc_en m hw =
     (let hw1 = IXGBE_WRITE_REG R IXGBE_FCCFG IXGBE_FCCFG_TFCE_PRIORITY hw;
          hw2 = rmw R IXGBE_MFLCN (\<lambda>r. (((r OR IXGBE_MFLCN_DPF) AND NOT (IXGBE_MFLCN_RPFCE_MASK OR IXGBE_MFLCN_RFCE)) OR
                   (if mac_type hw = ixgbe_mac_X540 then push_bit 4 (ucast pfc_en) else 0)) OR
                   (if pfc_en \<noteq> 0 then IXGBE_MFLCN_RPFCE else 0)) hw1;
          max_tc = fold (\<lambda>i t. if m ! i > t then m ! i else t) [0..<IXGBE_DCB_MAX_USER_PRIORITY] 0
      in rbind (fold (\<lambda>i r. rbind r (pfc_threshold R pfc_en m i)) [0..<unat max_tc + 1] (Inr hw2)) (\<lambda>hw3.
         let hw4 = fold (\<lambda>i hw. IXGBE_WRITE_REG R (IXGBE_FCRTH_82599 i) 0 (IXGBE_WRITE_REG R (IXGBE_FCRTL_82599 i) 0 hw))
                     [unat max_tc + 1..<IXGBE_DCB_MAX_TRAFFIC_CLASS] hw3
         in Inr (0, pause_regs R hw4)))"

text \<open>Which of the eight traffic classes a block of four transmit queues counts for.\<close>

definition tqsm8 :: "nat \<Rightarrow> u32" where
  "tqsm8 i = (if i < 8 then 0 else if i < 16 then 0x01010101 else if i < 20 then 0x02020202 else if i < 24 then 0x03030303
              else if i < 26 then 0x04040404 else if i < 28 then 0x05050505 else if i < 30 then 0x06060606 else 0x07070707)"

definition tqsm4 :: "nat \<Rightarrow> u32" where
  "tqsm4 i = (if i < 16 then 0 else if i < 24 then 0x01010101 else if i < 28 then 0x02020202 else 0x03030303)"

definition ixgbe_dcb_config_tc_stats_82599 ::
  "'h device \<Rightarrow> ixgbe_dcb_config option \<Rightarrow> ('h, 'z) ixgbe_hw_scheme \<Rightarrow> int \<times> ('h, 'z) ixgbe_hw_scheme" where
  "ixgbe_dcb_config_tc_stats_82599 R dcb_config hw =
     (let tc_count = (case dcb_config of None \<Rightarrow> 8 | Some c \<Rightarrow> pg_tcs (num_tcs c));
          vt = (case dcb_config of None \<Rightarrow> False | Some c \<Rightarrow> vt_mode c)
      in if \<not> (tc_count = 8 \<and> \<not> vt \<or> tc_count = 4) then (IXGBE_ERR_PARAM, hw)
         else if tc_count = 8 \<and> \<not> vt then
           (0, for_regs 32 (\<lambda>i. IXGBE_WRITE_REG R (IXGBE_TQSM i) (tqsm8 i))
                (for_regs 32 (\<lambda>i. IXGBE_WRITE_REG R (IXGBE_RQSMR i) (0x01010101 * of_nat (i div 4))) hw))
         else if tc_count = 4 \<and> \<not> vt then
           (0, for_regs 32 (\<lambda>i. IXGBE_WRITE_REG R (IXGBE_TQSM i) (tqsm4 i))
                (for_regs 32 (\<lambda>i hw. if i mod 8 > 3 then hw
                    else IXGBE_WRITE_REG R (IXGBE_RQSMR i) (0x01010101 * of_nat (i div 8)) hw) hw))
         else
           (0, for_regs 32 (\<lambda>i. IXGBE_WRITE_REG R (IXGBE_TQSM i) 0x03020100)
                (for_regs 32 (\<lambda>i. IXGBE_WRITE_REG R (IXGBE_RQSMR i) 0x03020100) hw)))"

definition mrqc_mode :: "ixgbe_dcb_config \<Rightarrow> u32 \<Rightarrow> u32" where
  "mrqc_mode cfg reg =
     (let mode = reg AND IXGBE_MRQC_MRQE_MASK; keep = (\<lambda>r. r AND NOT IXGBE_MRQC_MRQE_MASK);
          reg1 = (if pg_tcs (num_tcs cfg) = 8
                  then (if mode = 0 \<or> mode = IXGBE_MRQC_RT4TCEN then keep reg OR IXGBE_MRQC_RT8TCEN
                        else if mode = IXGBE_MRQC_RSSEN \<or> mode = IXGBE_MRQC_RTRSS4TCEN then keep reg OR IXGBE_MRQC_RTRSS8TCEN
                        else keep reg OR IXGBE_MRQC_RT8TCEN)
                  else reg)
      in if pg_tcs (num_tcs cfg) = 4 then (if vt_mode cfg then keep reg1 OR IXGBE_MRQC_VMDQRT4TCEN else keep reg1 OR IXGBE_MRQC_RTRSS4TCEN) else reg1)"

definition ixgbe_dcb_config_82599 :: "'h device \<Rightarrow> ixgbe_dcb_config \<Rightarrow> ('h, 'z) ixgbe_hw_scheme \<Rightarrow> int \<times> ('h, 'z) ixgbe_hw_scheme" where
  "ixgbe_dcb_config_82599 R cfg hw =
     (let hw1 = rmw R IXGBE_RTTDCS (\<lambda>r. r OR IXGBE_RTTDCS_ARBDIS) hw;
          hw2 = rmw R IXGBE_MRQC (mrqc_mode cfg) hw1;
          hw3 = IXGBE_WRITE_REG R IXGBE_MTQC
                  (if pg_tcs (num_tcs cfg) = 8 then IXGBE_MTQC_RT_ENA OR IXGBE_MTQC_8TC_8TQ
                   else (IXGBE_MTQC_RT_ENA OR IXGBE_MTQC_4TC_4TQ) OR (if vt_mode cfg then IXGBE_MTQC_VT_ENA else 0)) hw2;
          hw4 = for_regs 128 (\<lambda>q. IXGBE_WRITE_REG R IXGBE_QDE (IXGBE_QDE_WRITE OR push_bit 8 (of_nat q))) hw3;
          hw5 = rmw R IXGBE_RTTDCS (\<lambda>r. r AND NOT IXGBE_RTTDCS_ARBDIS) hw4;
          hw6 = rmw R IXGBE_SECTXMINIFG (\<lambda>r. r OR IXGBE_SECTX_DCB) hw5
      in (0, hw6))"

definition ixgbe_dcb_hw_config_82599 ::
  "'h device \<Rightarrow> u16 list \<Rightarrow> u16 list \<Rightarrow> u8 list \<Rightarrow> u8 list \<Rightarrow> u8 list \<Rightarrow> ('h, 'z) ixgbe_hw_scheme \<Rightarrow> int \<times> ('h, 'z) ixgbe_hw_scheme" where
  "ixgbe_dcb_hw_config_82599 R refill max_cr bwg ts m hw =
     (let (_, hw1) = ixgbe_dcb_config_rx_arbiter_82599 R refill max_cr bwg ts m hw;
          (_, hw2) = ixgbe_dcb_config_tx_desc_arbiter_82599 R refill max_cr bwg ts hw1;
          (_, hw3) = ixgbe_dcb_config_tx_data_arbiter_82599 R refill max_cr bwg ts m hw2
      in (0, hw3))"

section \<open>The priority map\<close>

definition ixgbe_dcb_get_rtrup2tc_generic :: "'h device \<Rightarrow> ('h, 'z) ixgbe_hw_scheme \<Rightarrow> u8 list \<times> ('h, 'z) ixgbe_hw_scheme" where
  "ixgbe_dcb_get_rtrup2tc_generic R hw =
     (case IXGBE_READ_REG R IXGBE_RTRUP2TC hw of (reg, hw1) \<Rightarrow>
        (map (\<lambda>i. ucast (7 AND drop_bit (i * 3) reg)) [0..<IXGBE_DCB_MAX_USER_PRIORITY], hw1))"

text \<open>\<open>mac.ops.get_rtrup2tc\<close> is NULL on the 82598 and the generic function on the other two.\<close>

definition ixgbe_dcb_get_rtrup2tc :: "'h device \<Rightarrow> u8 list \<Rightarrow> ('h, 'z) ixgbe_hw_scheme \<Rightarrow> u8 list \<times> ('h, 'z) ixgbe_hw_scheme" where
  "ixgbe_dcb_get_rtrup2tc R m hw =
     (if mac_type hw = ixgbe_mac_82599EB \<or> mac_type hw = ixgbe_mac_X540 then ixgbe_dcb_get_rtrup2tc_generic R hw
      else (m, hw))"

text \<open>The loop of \<open>ixgbe_validate_rtr\<close>: \<open>up2tc\<close> is a byte, and the cleared field does not depend on \<open>i\<close>.\<close>

definition validate_reg :: "u8 \<Rightarrow> u32 \<Rightarrow> u32" where
  "validate_reg tc reg = fold (\<lambda>i reg. if (ucast (drop_bit (i * 3) reg) :: u8) > tc then reg AND NOT (push_bit 3 7) else reg)
     [0..<IXGBE_DCB_MAX_TRAFFIC_CLASS] reg"

definition ixgbe_validate_rtr :: "'h device \<Rightarrow> u8 \<Rightarrow> ('h, 'z) ixgbe_hw_scheme \<Rightarrow> ('h, 'z) ixgbe_hw_scheme" where
  "ixgbe_validate_rtr R tc hw =
     (if mac_type hw = ixgbe_mac_82598EB then hw
      else (case IXGBE_READ_REG R IXGBE_RTRUP2TC hw of (rsave, hw1) \<Rightarrow>
        let reg = validate_reg tc rsave in if reg \<noteq> rsave then IXGBE_WRITE_REG R IXGBE_RTRUP2TC reg hw1 else hw1))"

end
