(* ===== verification/DcbApi.thy ===== *)
theory DcbApi
  imports DcbHw
begin

text \<open>
  The operations of \<open>ixgbe_dcb.c\<close> that reach the hardware: the configuration is unpacked into the arrays of
  the register programs and the MAC type selects the program.
\<close>

section \<open>Unpacked configuration\<close>

text \<open>The arrays \<open>refill\<close>, \<open>max\<close>, \<open>bwgid\<close>, \<open>tsa\<close> and \<open>map\<close> at the head of the operations.\<close>

record dcb_arrays =
  a_refill :: "u16 list"
  a_max :: "u16 list"
  a_bwgid :: "u8 list"
  a_tsa :: "u8 list"
  a_map :: "u8 list"

definition unpack_cee_no_map :: "ixgbe_dcb_config \<Rightarrow> fault + dcb_arrays" where
  "unpack_cee_no_map cfg =
     rbind (ixgbe_dcb_unpack_refill_cee cfg IXGBE_DCB_TX_CONFIG) (\<lambda>refill.
     rbind (ixgbe_dcb_unpack_max_cee cfg) (\<lambda>mx.
     rbind (ixgbe_dcb_unpack_bwgid_cee cfg IXGBE_DCB_TX_CONFIG) (\<lambda>bwgid.
     rbind (ixgbe_dcb_unpack_tsa_cee cfg IXGBE_DCB_TX_CONFIG) (\<lambda>ts.
     Inr \<lparr>a_refill = refill, a_max = mx, a_bwgid = bwgid, a_tsa = ts, a_map = []\<rparr>))))"

definition unpack_cee :: "ixgbe_dcb_config \<Rightarrow> fault + dcb_arrays" where
  "unpack_cee cfg =
     rbind (unpack_cee_no_map cfg) (\<lambda>a.
     rbind (ixgbe_dcb_unpack_map_cee cfg IXGBE_DCB_TX_CONFIG) (\<lambda>m. Inr (a\<lparr>a_map := m\<rparr>)))"

text \<open>The switch on \<open>hw->mac.type\<close>: one routine for the 82598, one for the 82599 and the X540.\<close>

definition by_mac :: "('h, 'z) ixgbe_hw_scheme \<Rightarrow> 'r \<Rightarrow> 'r \<Rightarrow> 'r \<Rightarrow> 'r" where
  "by_mac hw on_82598 on_82599 otherwise =
     (if mac_type hw = ixgbe_mac_82598EB then on_82598
      else if mac_type hw = ixgbe_mac_82599EB \<or> mac_type hw = ixgbe_mac_X540 then on_82599
      else otherwise)"

section \<open>Statistics\<close>

definition ixgbe_dcb_get_tc_stats ::
  "'h device \<Rightarrow> u8 \<Rightarrow> ixgbe_hw_stats \<Rightarrow> ('h, 'z) ixgbe_hw_scheme \<Rightarrow> int \<times> ixgbe_hw_stats \<times> ('h, 'z) ixgbe_hw_scheme" where
  "ixgbe_dcb_get_tc_stats R tc_count st hw =
     by_mac hw (ixgbe_dcb_get_tc_stats_82598 R tc_count st hw) (ixgbe_dcb_get_tc_stats_82599 R tc_count st hw)
       (IXGBE_NOT_IMPLEMENTED, st, hw)"

definition ixgbe_dcb_get_pfc_stats ::
  "'h device \<Rightarrow> u8 \<Rightarrow> ixgbe_hw_stats \<Rightarrow> ('h, 'z) ixgbe_hw_scheme \<Rightarrow> int \<times> ixgbe_hw_stats \<times> ('h, 'z) ixgbe_hw_scheme" where
  "ixgbe_dcb_get_pfc_stats R tc_count st hw =
     by_mac hw (ixgbe_dcb_get_pfc_stats_82598 R tc_count st hw) (ixgbe_dcb_get_pfc_stats_82599 R tc_count st hw)
       (IXGBE_NOT_IMPLEMENTED, st, hw)"

definition ixgbe_dcb_config_tc_stats :: "'h device \<Rightarrow> ('h, 'z) ixgbe_hw_scheme \<Rightarrow> int \<times> ('h, 'z) ixgbe_hw_scheme" where
  "ixgbe_dcb_config_tc_stats R hw =
     by_mac hw (ixgbe_dcb_config_tc_stats_82598 R hw) (ixgbe_dcb_config_tc_stats_82599 R None hw)
       (IXGBE_NOT_IMPLEMENTED, hw)"

section \<open>Arbiters and flow control\<close>

definition ixgbe_dcb_config_rx_arbiter_cee :: "'h device \<Rightarrow> ixgbe_dcb_config \<Rightarrow> 'h dcb_hw \<Rightarrow> fault + int \<times> 'h dcb_hw" where
  "ixgbe_dcb_config_rx_arbiter_cee R cfg hw = rbind (unpack_cee cfg) (\<lambda>a. Inr
     (by_mac hw
       (ixgbe_dcb_config_rx_arbiter_82598 R (a_refill a) (a_max a) (a_tsa a) hw)
       (ixgbe_dcb_config_rx_arbiter_82599 R (a_refill a) (a_max a) (a_bwgid a) (a_tsa a) (a_map a) hw)
       (IXGBE_NOT_IMPLEMENTED, hw)))"

definition ixgbe_dcb_config_tx_desc_arbiter_cee :: "'h device \<Rightarrow> ixgbe_dcb_config \<Rightarrow> 'h dcb_hw \<Rightarrow> fault + int \<times> 'h dcb_hw" where
  "ixgbe_dcb_config_tx_desc_arbiter_cee R cfg hw = rbind (unpack_cee_no_map cfg) (\<lambda>a. Inr
     (by_mac hw
       (ixgbe_dcb_config_tx_desc_arbiter_82598 R (a_refill a) (a_max a) (a_bwgid a) (a_tsa a) hw)
       (ixgbe_dcb_config_tx_desc_arbiter_82599 R (a_refill a) (a_max a) (a_bwgid a) (a_tsa a) hw)
       (IXGBE_NOT_IMPLEMENTED, hw)))"

definition ixgbe_dcb_config_tx_data_arbiter_cee :: "'h device \<Rightarrow> ixgbe_dcb_config \<Rightarrow> 'h dcb_hw \<Rightarrow> fault + int \<times> 'h dcb_hw" where
  "ixgbe_dcb_config_tx_data_arbiter_cee R cfg hw = rbind (unpack_cee cfg) (\<lambda>a. Inr
     (by_mac hw
       (ixgbe_dcb_config_tx_data_arbiter_82598 R (a_refill a) (a_max a) (a_bwgid a) (a_tsa a) hw)
       (ixgbe_dcb_config_tx_data_arbiter_82599 R (a_refill a) (a_max a) (a_bwgid a) (a_tsa a) (a_map a) hw)
       (IXGBE_NOT_IMPLEMENTED, hw)))"

definition ixgbe_dcb_config_pfc_cee :: "'h device \<Rightarrow> ixgbe_dcb_config \<Rightarrow> 'h dcb_hw \<Rightarrow> fault + int \<times> 'h dcb_hw" where
  "ixgbe_dcb_config_pfc_cee R cfg hw =
     rbind (ixgbe_dcb_unpack_map_cee cfg IXGBE_DCB_TX_CONFIG) (\<lambda>m.
     rbind (ixgbe_dcb_unpack_pfc_cee cfg m) (\<lambda>pfc_en.
     by_mac hw (Inr (ixgbe_dcb_config_pfc_82598 R pfc_en hw)) (ixgbe_dcb_config_pfc_82599 R pfc_en m hw)
       (Inr (IXGBE_NOT_IMPLEMENTED, hw))))"

definition ixgbe_dcb_config_pfc :: "'h device \<Rightarrow> u8 \<Rightarrow> u8 list \<Rightarrow> 'h dcb_hw \<Rightarrow> fault + int \<times> 'h dcb_hw" where
  "ixgbe_dcb_config_pfc R pfc_en m hw =
     by_mac hw (Inr (ixgbe_dcb_config_pfc_82598 R pfc_en hw)) (ixgbe_dcb_config_pfc_82599 R pfc_en m hw)
       (Inr (IXGBE_ERR_PARAM, hw))"

section \<open>The whole configuration\<close>

definition hw_config_arrays :: "'h device \<Rightarrow> ixgbe_dcb_config \<Rightarrow> dcb_arrays \<Rightarrow> 'h dcb_hw \<Rightarrow> int \<times> 'h dcb_hw" where
  "hw_config_arrays R cfg a hw =
     by_mac hw
       (ixgbe_dcb_hw_config_82598 R (a_refill a) (a_max a) (a_bwgid a) (a_tsa a) hw)
       (let (_, hw1) = ixgbe_dcb_config_82599 R cfg hw;
            (ret, hw2) = ixgbe_dcb_hw_config_82599 R (a_refill a) (a_max a) (a_bwgid a) (a_tsa a) (a_map a) hw1;
            (_, hw3) = ixgbe_dcb_config_tc_stats_82599 R (Some cfg) hw2
        in (ret, hw3))
       (IXGBE_NOT_IMPLEMENTED, hw)"

definition ixgbe_dcb_hw_config_cee :: "'h device \<Rightarrow> ixgbe_dcb_config \<Rightarrow> 'h dcb_hw \<Rightarrow> fault + int \<times> 'h dcb_hw" where
  "ixgbe_dcb_hw_config_cee R cfg hw = rbind (unpack_cee cfg) (\<lambda>a.
     let (ret, hw1) = hw_config_arrays R cfg a hw
     in if ret = 0 \<and> pfc_mode_enable cfg
        then rbind (ixgbe_dcb_unpack_pfc_cee cfg (a_map a)) (\<lambda>pfc_en. ixgbe_dcb_config_pfc R pfc_en (a_map a) hw1)
        else Inr (ret, hw1))"

definition ixgbe_dcb_hw_config ::
  "'h device \<Rightarrow> u16 list \<Rightarrow> u16 list \<Rightarrow> u8 list \<Rightarrow> u8 list \<Rightarrow> u8 list \<Rightarrow> ('h, 'z) ixgbe_hw_scheme \<Rightarrow> int \<times> ('h, 'z) ixgbe_hw_scheme" where
  "ixgbe_dcb_hw_config R refill mx bwg ts m hw =
     (0, by_mac hw
       (let (_, hw1) = ixgbe_dcb_config_rx_arbiter_82598 R refill mx ts hw;
            (_, hw2) = ixgbe_dcb_config_tx_desc_arbiter_82598 R refill mx bwg ts hw1;
            (_, hw3) = ixgbe_dcb_config_tx_data_arbiter_82598 R refill mx bwg ts hw2
        in hw3)
       (let (_, hw1) = ixgbe_dcb_config_rx_arbiter_82599 R refill mx bwg ts m hw;
            (_, hw2) = ixgbe_dcb_config_tx_desc_arbiter_82599 R refill mx bwg ts hw1;
            (_, hw3) = ixgbe_dcb_config_tx_data_arbiter_82599 R refill mx bwg ts m hw2
        in hw3)
       hw)"

section \<open>The driver\<close>

text \<open>
  The adapter state \<open>ixgbe_configure_dcb\<close> uses. \<open>ad_fcoe_mtu\<close> is the feature \<open>NETIF_F_FCOE_MTU\<close>, false in a build
  without FCoE. \<open>netif_set_gso_max_size\<close> is the macro of \<open>kcompat.h\<close> that switches segmentation.
\<close>

record 'h dcb_adapter =
  ad_hw :: "'h dcb_hw"
  ad_dcb_cfg :: ixgbe_dcb_config
  ad_dcb_enabled :: bool
  ad_mtu :: u32
  ad_fcoe_mtu :: bool
  ad_tso :: bool
  ad_tso6 :: bool
  ad_rss_indices :: u16

definition netif_set_gso_max_size :: "'h dcb_adapter \<Rightarrow> 'h dcb_adapter" where
  "netif_set_gso_max_size ad = ad\<lparr>ad_tso := \<not> ad_dcb_enabled ad, ad_tso6 := \<not> ad_dcb_enabled ad\<rparr>"

definition dcb_max_frame :: "'h dcb_adapter \<Rightarrow> u32" where
  "dcb_max_frame ad =
     (let max_frame = ad_mtu ad + 14 + 4 + 64
      in if ad_fcoe_mtu ad \<and> sint max_frame < 3072 then 3072 else max_frame)"

fun msb_loop :: "nat \<Rightarrow> u32 \<Rightarrow> u32" where
  "msb_loop rss_i msb = (if rss_i = 0 then msb else msb_loop (rss_i div 2) (msb + 1))"

declare msb_loop.simps [simp del]

abbreviation (input) IXGBE_RQTC :: u32 where "IXGBE_RQTC \<equiv> 0xEC70"

text \<open>The results of the two credit calculations and of the hardware configuration are dropped.\<close>

definition dcb_credits :: "ixgbe_mac_type \<Rightarrow> ixgbe_dcb_config \<Rightarrow> u32 \<Rightarrow> nat \<Rightarrow> fault + ixgbe_dcb_config" where
  "dcb_credits mac cfg max_frame direction =
     rbind (ixgbe_dcb_calculate_tc_credits_cee mac (Some cfg) max_frame direction) (\<lambda>(_, c). Inr (the c))"

definition ixgbe_configure_dcb :: "'h device \<Rightarrow> 'h dcb_adapter \<Rightarrow> fault + 'h dcb_adapter" where
  "ixgbe_configure_dcb R ad =
     (let mac = mac_type (ad_hw ad);
          ad1 = (if mac = ixgbe_mac_82598EB then netif_set_gso_max_size ad else ad)
      in if \<not> ad_dcb_enabled ad then Inr ad1
         else
           rbind (dcb_credits mac (ad_dcb_cfg ad1) (dcb_max_frame ad) IXGBE_DCB_TX_CONFIG) (\<lambda>cfg1.
           rbind (dcb_credits mac cfg1 (dcb_max_frame ad) IXGBE_DCB_RX_CONFIG) (\<lambda>cfg2.
           rbind (ixgbe_dcb_hw_config_cee R cfg2 (ad_hw ad1)) (\<lambda>(_, hw1).
           Inr (ad1\<lparr>ad_dcb_cfg := cfg2,
                ad_hw := (if mac = ixgbe_mac_82598EB then hw1
                          else IXGBE_WRITE_REG R IXGBE_RQTC (msb_loop (unat (ad_rss_indices ad - 1)) 0 * 0x11111111) hw1)\<rparr>)))))"

text \<open>The part of \<open>ixgbe_sw_init\<close> that sets the default configuration up.\<close>

definition upd_paths :: "(ixgbe_dcb_tc_path \<Rightarrow> ixgbe_dcb_tc_path) \<Rightarrow> nat \<Rightarrow> ixgbe_dcb_config \<Rightarrow> ixgbe_dcb_config" where
  "upd_paths f j cfg = cfg\<lparr>tc_config := (tc_config cfg)[j := (tc_config cfg ! j)\<lparr>path := map f (path (tc_config cfg ! j))\<rparr>]\<rparr>"

definition set_pfc :: "ixgbe_dcb_pfc \<Rightarrow> nat \<Rightarrow> ixgbe_dcb_config \<Rightarrow> ixgbe_dcb_config" where
  "set_pfc v j cfg = cfg\<lparr>tc_config := (tc_config cfg)[j := (tc_config cfg ! j)\<lparr>pfc := v\<rparr>]\<rparr>"

definition sw_init_dcb :: "ixgbe_mac_type \<Rightarrow> ixgbe_dcb_config \<Rightarrow> ixgbe_dcb_config" where
  "sw_init_dcb mac cfg =
     (let n = (if mac = ixgbe_mac_82598EB \<or> mac = ixgbe_mac_82599EB \<or> mac = ixgbe_mac_X540 then 4 else 1) :: nat;
          cfg1 = cfg\<lparr>num_tcs := \<lparr>pg_tcs = of_nat n, pfc_tcs = of_nat n\<rparr>\<rparr>;
          bwg_pct = 100 div n;
          cfg2 = fold (\<lambda>j c. set_pfc ixgbe_dcb_pfc_disabled j (upd_paths (\<lambda>p. p\<lparr>bwg_id := 0, bwg_percent := of_nat bwg_pct\<rparr>) j c)) [0..<n] cfg1;
          cfg3 = upd_paths (\<lambda>p. p\<lparr>bwg_percent := of_nat (bwg_pct + 100 mod n), up_to_tc_bitmap := 0xFF\<rparr>) 0 cfg2
      in cfg3\<lparr>bw_percentage := map (\<lambda>b. b[0 := 100]) (bw_percentage cfg3), pfc_mode_enable := False\<rparr>)"

end
