(* ===== verification/DcbProps.thy ===== *)
theory DcbProps
  imports DcbApi
begin

text \<open>
  What the configuration of data centre bridging guarantees: no operation on a well-formed
  configuration leaves an array, the credits of a class cover half a frame unless its share rounds to
  nothing, and the priority map written to the hardware reads back.
\<close>

section \<open>Arrays\<close>

lemma at_ok [simp]: "i < length xs \<Longrightarrow> at xs i = Inr (xs ! i)"
  by (simp add: at_def)

lemma rmap_ok: "(\<And>x. x \<in> set xs \<Longrightarrow> f x = Inr (g x)) \<Longrightarrow> rmap f xs = Inr (map g xs)"
  by (induction xs) simp_all

lemma map_nth_upt: "length xs = n \<Longrightarrow> map (\<lambda>i. f (xs ! i)) [0..<n] = map f xs"
  by (rule nth_equalityI) simp_all

section \<open>Unpacking\<close>

named_theorems dcb_ok \<open>operations of data centre bridging that do not fault\<close>

lemma typed_lengths [simp]:
  "dcb_typed cfg \<Longrightarrow> length (tc_config cfg) = 8"
  "dcb_typed cfg \<Longrightarrow> c \<in> set (tc_config cfg) \<Longrightarrow> length (path c) = 2"
  "dcb_typed cfg \<Longrightarrow> i < 8 \<Longrightarrow> length (path (tc_config cfg ! i)) = 2"
  "dcb_typed cfg \<Longrightarrow> length (bw_percentage cfg) = 2"
  "dcb_typed cfg \<Longrightarrow> d < 2 \<Longrightarrow> length (bw_percentage cfg ! d) = 8"
  by (simp_all add: dcb_typed_def)

lemma unpack_path_ok: "dcb_typed cfg \<Longrightarrow> d < 2 \<Longrightarrow> unpack_path f cfg d = Inr (map (\<lambda>c. f (path c ! d)) (tc_config cfg))"
  unfolding unpack_path_def
  by (subst map_nth_upt[of "tc_config cfg" 8 "\<lambda>c. f (path c ! d)", symmetric]) (auto intro!: rmap_ok)

lemma unpack_max_ok: "dcb_typed cfg \<Longrightarrow> ixgbe_dcb_unpack_max_cee cfg = Inr (map desc_credits_max (tc_config cfg))"
  unfolding ixgbe_dcb_unpack_max_cee_def
  by (subst map_nth_upt[of "tc_config cfg" 8 desc_credits_max, symmetric]) (auto intro!: rmap_ok)

text \<open>
  The traffic class of a user priority: the last of the classes in use whose bitmap has it, class 0
  when there is none.
\<close>

definition class_of :: "ixgbe_dcb_config \<Rightarrow> nat \<Rightarrow> nat \<Rightarrow> nat" where
  "class_of cfg d up =
     (case filter (\<lambda>t. bit (up_to_tc_bitmap (path (tc_config cfg ! t) ! d)) up) (rev [1..<unat (pg_tcs (num_tcs cfg))]) of
        [] \<Rightarrow> 0 | t # ts \<Rightarrow> t)"

lemma tc_search_ok:
  "dcb_typed cfg \<Longrightarrow> d < 2 \<Longrightarrow> n < 8 \<Longrightarrow>
   tc_search cfg d (push_bit up 1) n =
     Inr (case filter (\<lambda>t. bit (up_to_tc_bitmap (path (tc_config cfg ! t) ! d)) up) (rev [1..<Suc n]) of [] \<Rightarrow> 0 | t # ts \<Rightarrow> t)"
  by (induction n) (simp_all add: bit_iff_and_push_bit_not_eq_0 and.commute)

lemma class_of_bound: "class_of cfg d up < max 1 (unat (pg_tcs (num_tcs cfg)))"
proof -
  have "hd ts < n" if "ts = filter P (rev [1..<n])" "ts \<noteq> []" for P and n :: nat and ts
    using hd_in_set[OF that(2)] that(1) by (simp add: list.set_sel)
  then have "(case filter P (rev [1..<n]) of [] \<Rightarrow> 0 | t # ts \<Rightarrow> t) < max 1 n" for P and n :: nat
    by (cases "filter P (rev [1..<n])") (auto simp: less_max_iff_disj, metis list.sel(1) list.distinct(1))
  then show ?thesis by (simp add: class_of_def)
qed

lemma get_tc_ok:
  assumes "dcb_typed cfg" "d < 2" "unat (pg_tcs (num_tcs cfg)) \<le> 8"
  shows "ixgbe_dcb_get_tc_from_up cfg d up = Inr (of_nat (class_of cfg d up))"
proof (cases "unat (pg_tcs (num_tcs cfg))")
  case 0
  then show ?thesis by (simp add: ixgbe_dcb_get_tc_from_up_def class_of_def)
next
  case (Suc n)
  then have "n < 8" using assms(3) by simp
  then show ?thesis
    unfolding ixgbe_dcb_get_tc_from_up_def class_of_def Suc Let_def using tc_search_ok[OF assms(1,2), of n up] by simp
qed

lemma unpack_map_ok:
  "dcb_typed cfg \<Longrightarrow> d < 2 \<Longrightarrow> unat (pg_tcs (num_tcs cfg)) \<le> 8 \<Longrightarrow>
   ixgbe_dcb_unpack_map_cee cfg d = Inr (map (\<lambda>up. of_nat (class_of cfg d up)) [0..<8])"
  unfolding ixgbe_dcb_unpack_map_cee_def by (rule rmap_ok) (simp add: get_tc_ok)

section \<open>Credits\<close>

lemma rmap_ex:
  "(\<And>x. x \<in> set xs \<Longrightarrow> \<exists>y. f x = Inr y \<and> P x y) \<Longrightarrow> \<exists>ys. rmap f xs = Inr ys \<and> list_all2 P xs ys"
proof (induction xs)
  case (Cons x xs)
  obtain ys where "rmap f xs = Inr ys" "list_all2 P xs ys" using Cons.IH Cons.prems by auto
  moreover obtain y where "f x = Inr y" "P x y" using Cons.prems[of x] by auto
  ultimately show ?case by simp
qed simp

definition dcb_ids :: "ixgbe_dcb_config \<Rightarrow> nat \<Rightarrow> bool" where
  "dcb_ids cfg d \<longleftrightarrow> (\<forall>c \<in> set (tc_config cfg). unat (bwg_id (path c ! d)) < IXGBE_DCB_MAX_BW_GROUP)"

text \<open>The share of the link a class asks for, in per cent, rounded down.\<close>

definition link_share :: "ixgbe_dcb_config \<Rightarrow> nat \<Rightarrow> ixgbe_dcb_tc_config \<Rightarrow> nat" where
  "link_share cfg d c = unat (bwg_percent (path c ! d)) * unat (bw_percentage cfg ! d ! unat (bwg_id (path c ! d))) div 100"

lemma link_share_bound: "link_share cfg d c \<le> 650"
proof -
  have "unat (x :: u8) \<le> 255" for x using unsigned_less[of x, where ?'a = nat] by simp
  then have "unat (bwg_percent (path c ! d)) * unat (bw_percentage cfg ! d ! unat (bwg_id (path c ! d))) \<le> 255 * 255"
    by (intro mult_le_mono)
  from div_le_mono[OF this, of 100] show ?thesis by (simp add: link_share_def)
qed

lemma cee_link_ok:
  "dcb_typed cfg \<Longrightarrow> dcb_ids cfg d \<Longrightarrow> d < 2 \<Longrightarrow> c \<in> set (tc_config cfg) \<Longrightarrow>
   cee_link_percentage cfg d c = Inr (of_nat (link_share cfg d c))"
  by (simp add: cee_link_percentage_def link_share_def dcb_ids_def)

text \<open>What the calculation of credits leaves of a class alone.\<close>

definition keeps_class :: "ixgbe_dcb_tc_config \<Rightarrow> ixgbe_dcb_tc_config \<Rightarrow> bool" where
  "keeps_class c c' \<longleftrightarrow> length (path c') = length (path c) \<and> pfc c' = pfc c \<and>
     (\<forall>i < length (path c). bwg_id (path c' ! i) = bwg_id (path c ! i) \<and> bwg_percent (path c' ! i) = bwg_percent (path c ! i) \<and>
        up_to_tc_bitmap (path c' ! i) = up_to_tc_bitmap (path c ! i) \<and> tsa (path c' ! i) = tsa (path c ! i))"

text \<open>The refill credits of a class, in quanta, from its share and the multiplier.\<close>

definition refill_of :: "ixgbe_dcb_tc_path \<Rightarrow> u16 \<Rightarrow> u32 \<Rightarrow> u16" where
  "refill_of p l mult = ucast (min (ucast (if bwg_percent p > 0 \<and> l = 0 then 1 else l) * mult) 200)"

lemma keeps_class_upd:
  assumes "d < length (path c)" "path c1 = path c" "pfc c1 = pfc c" "bwg_id p = bwg_id (path c ! d)" "bwg_percent p = bwg_percent (path c ! d)"
    "up_to_tc_bitmap p = up_to_tc_bitmap (path c ! d)" "tsa p = tsa (path c ! d)"
  shows "keeps_class c (c1\<lparr>path := (path c1)[d := p]\<rparr>)"
  using assms by (auto simp: keeps_class_def nth_list_update)

lemma cee_tc_credits_ok:
  assumes "d < length (path c)"
  shows "\<exists>c'. cee_tc_credits mac d mc mult (c, l) = Inr c' \<and> keeps_class c c' \<and>
           data_credits_refill (path c' ! d) = refill_of (path c ! d) l mult"
  unfolding cee_tc_credits_def prod.case at_ok[OF assms] rbind_Inr Let_def
  by (rule exI, intro conjI, rule refl, rule keeps_class_upd)
    (use assms in \<open>cases "d = 0"; simp add: refill_of_def split del: if_split\<close>)+

definition keeps_cfg :: "ixgbe_dcb_config \<Rightarrow> ixgbe_dcb_config \<Rightarrow> bool" where
  "keeps_cfg cfg cfg' \<longleftrightarrow> list_all2 keeps_class (tc_config cfg) (tc_config cfg') \<and>
     num_tcs cfg' = num_tcs cfg \<and> bw_percentage cfg' = bw_percentage cfg \<and> pfc_mode_enable cfg' = pfc_mode_enable cfg \<and>
     link_speed cfg' = link_speed cfg \<and> vt_mode cfg' = vt_mode cfg"

lemma keeps_cfg_length: "keeps_cfg cfg cfg' \<Longrightarrow> length (tc_config cfg') = length (tc_config cfg)"
  by (auto simp: keeps_cfg_def dest: list_all2_lengthD)

lemma keeps_cfg_nth: "keeps_cfg cfg cfg' \<Longrightarrow> i < length (tc_config cfg) \<Longrightarrow> keeps_class (tc_config cfg ! i) (tc_config cfg' ! i)"
  by (auto simp: keeps_cfg_def list_all2_conv_all_nth)

lemma typed_nth: "dcb_typed cfg \<longleftrightarrow> length (tc_config cfg) = 8 \<and> (\<forall>i < 8. length (path (tc_config cfg ! i)) = 2) \<and>
     length (bw_percentage cfg) = 2 \<and> (\<forall>b \<in> set (bw_percentage cfg). length b = 8)"
  by (auto simp: dcb_typed_def all_set_conv_all_nth simp del: typed_lengths)

lemma ids_nth: "dcb_typed cfg \<Longrightarrow> dcb_ids cfg d \<longleftrightarrow> (\<forall>i < 8. unat (bwg_id (path (tc_config cfg ! i) ! d)) < 8)"
  by (simp add: dcb_ids_def all_set_conv_all_nth)

lemma keeps_typed:
  assumes "keeps_cfg cfg cfg'" "dcb_typed cfg"
  shows "dcb_typed cfg'"
proof -
  have "length (path (tc_config cfg' ! i)) = 2" if "i < 8" for i
    using keeps_cfg_nth[OF assms(1), of i] that assms(2) by (simp add: keeps_class_def)
  then show ?thesis
    using assms keeps_cfg_length[OF assms(1)] by (simp add: typed_nth keeps_cfg_def del: typed_lengths)
qed

lemma keeps_ids: "keeps_cfg cfg cfg' \<Longrightarrow> dcb_typed cfg \<Longrightarrow> d < 2 \<Longrightarrow> dcb_ids cfg d \<Longrightarrow> dcb_ids cfg' d"
  using keeps_cfg_nth[of cfg cfg'] keeps_typed[of cfg cfg'] by (simp add: ids_nth keeps_class_def)

lemma keeps_class_of:
  assumes "keeps_cfg cfg cfg'" "dcb_typed cfg" "d < 2" "unat (pg_tcs (num_tcs cfg)) \<le> 8"
  shows "class_of cfg' d up = class_of cfg d up"
proof -
  have "filter (\<lambda>t. bit (up_to_tc_bitmap (path (tc_config cfg' ! t) ! d)) up) (rev [1..<unat (pg_tcs (num_tcs cfg))]) =
        filter (\<lambda>t. bit (up_to_tc_bitmap (path (tc_config cfg ! t) ! d)) up) (rev [1..<unat (pg_tcs (num_tcs cfg))])"
    using assms keeps_cfg_nth[OF assms(1)] by (intro filter_cong) (auto simp: keeps_class_def)
  moreover have "num_tcs cfg' = num_tcs cfg" using assms(1) by (simp add: keeps_cfg_def)
  ultimately show ?thesis by (simp add: class_of_def)
qed

definition cee_multiplier :: "ixgbe_dcb_config \<Rightarrow> nat \<Rightarrow> u32 \<Rightarrow> u32" where
  "cee_multiplier cfg d mf =
     cee_min_credit mf div ucast (cee_min_percent (map (\<lambda>c. of_nat (link_share cfg d c)) (tc_config cfg))) + 1"

lemma credits_cee_ok:
  assumes "dcb_typed cfg" "dcb_ids cfg d" "d < 2"
  shows "\<exists>cfg'. ixgbe_dcb_calculate_tc_credits_cee mac (Some cfg) mf d = Inr (0, Some cfg') \<and> keeps_cfg cfg cfg' \<and>
           (\<forall>i < 8. data_credits_refill (path (tc_config cfg' ! i) ! d) =
              refill_of (path (tc_config cfg ! i) ! d) (of_nat (link_share cfg d (tc_config cfg ! i))) (cee_multiplier cfg d mf))"
proof -
  let ?ls = "map (\<lambda>c. of_nat (link_share cfg d c) :: u16) (tc_config cfg)"
  let ?P = "\<lambda>(c, l) c'. keeps_class c c' \<and> data_credits_refill (path c' ! d) = refill_of (path c ! d) l (cee_multiplier cfg d mf)"
  have ls: "rmap (cee_link_percentage cfg d) (tc_config cfg) = Inr ?ls"
    using assms by (intro rmap_ok cee_link_ok)
  have "\<exists>c'. cee_tc_credits mac d (cee_min_credit mf) (cee_multiplier cfg d mf) x = Inr c' \<and> ?P x c'"
    if "x \<in> set (zip (tc_config cfg) ?ls)" for x
  proof (cases x)
    case (Pair c l)
    then have "d < length (path c)" using that assms by (auto dest: set_zip_leftD)
    then show ?thesis using cee_tc_credits_ok Pair by blast
  qed
  then obtain cs where cs: "rmap (cee_tc_credits mac d (cee_min_credit mf) (cee_multiplier cfg d mf)) (zip (tc_config cfg) ?ls) = Inr cs"
      and P: "list_all2 ?P (zip (tc_config cfg) ?ls) cs"
    using rmap_ex[of "zip (tc_config cfg) ?ls" _ ?P] by blast
  have len: "length cs = length (tc_config cfg)" using list_all2_lengthD[OF P] by simp
  have nth: "?P (tc_config cfg ! i, ?ls ! i) (cs ! i)" if "i < length (tc_config cfg)" for i
    using list_all2_nthD[OF P, of i] that by simp
  show ?thesis
  proof (intro exI conjI)
    show "ixgbe_dcb_calculate_tc_credits_cee mac (Some cfg) mf d = Inr (0, Some (cfg\<lparr>tc_config := cs\<rparr>))"
      using cs by (simp add: ixgbe_dcb_calculate_tc_credits_cee_def ls cee_multiplier_def Let_def)
    show "keeps_cfg cfg (cfg\<lparr>tc_config := cs\<rparr>)"
      using nth len by (simp add: keeps_cfg_def list_all2_conv_all_nth)
    show "\<forall>i < 8. data_credits_refill (path (tc_config (cfg\<lparr>tc_config := cs\<rparr>) ! i) ! d) =
            refill_of (path (tc_config cfg ! i) ! d) (of_nat (link_share cfg d (tc_config cfg ! i))) (cee_multiplier cfg d mf)"
      using nth assms(1) by simp
  qed
qed

text \<open>
  The multiplier makes every class whose share is at least one per cent as large as the smallest
  share: it can refill the credits of half a frame, or the maximum of 200 quanta.
\<close>

lemma cee_min_fold:
  "0 < m \<Longrightarrow> r = fold (\<lambda>l m. if l \<noteq> 0 \<and> l < m then l else m) ls m \<Longrightarrow>
   0 < r \<and> r \<le> m \<and> (\<forall>l \<in> set ls. l \<noteq> 0 \<longrightarrow> r \<le> l)" for m r :: u16
proof (induction ls arbitrary: m)
  case (Cons x xs)
  let ?m = "if x \<noteq> 0 \<and> x < m then x else m"
  have "0 < ?m" using Cons.prems(1) by (simp add: word_greater_zero_iff)
  from Cons.IH[OF this] Cons.prems(2) have "0 < r \<and> r \<le> ?m \<and> (\<forall>l \<in> set xs. l \<noteq> 0 \<longrightarrow> r \<le> l)" by simp
  moreover have "?m \<le> m" "x \<noteq> 0 \<Longrightarrow> ?m \<le> x" by (simp_all add: less_imp_le leI)
  ultimately show ?case by (auto dest: order.trans)
qed simp

lemma cee_min_percent_bounds:
  "0 < cee_min_percent ls" "cee_min_percent ls \<le> 100" "l \<in> set ls \<Longrightarrow> l \<noteq> 0 \<Longrightarrow> cee_min_percent ls \<le> l"
  using cee_min_fold[of 100 "cee_min_percent ls" ls] by (simp_all add: cee_min_percent_def)

lemma unat_ucast_u16: "unat (ucast (x :: u16) :: u32) = unat x"
  using unsigned_less[of x, where ?'a = nat] by (simp add: unsigned_ucast_eq take_bit_nat_eq_self)

lemma unat_cee_min_credit: "unat mf \<le> 65535 \<Longrightarrow> unat (cee_min_credit mf) = (unat mf div 2 + 63) div 64"
  by (simp add: cee_min_credit_def unat_div unat_word_ariths)

lemma product_covers:
  fixes m l mc :: nat
  assumes "0 < m" "m \<le> l"
  shows "mc \<le> l * (mc div m + 1)"
proof -
  have "m * (mc div m) + mc mod m = mc" by simp
  then have "mc \<le> m * (mc div m + 1)" using mod_less_divisor[OF assms(1), of mc] by (simp only: distrib_left)
  also have "\<dots> \<le> l * (mc div m + 1)" using assms(2) by (rule mult_right_mono) simp
  finally show ?thesis .
qed

lemma unat_refill_of: "l \<noteq> 0 \<Longrightarrow> unat (refill_of p l m) = min (unat (ucast l * m :: u32)) 200"
proof -
  assume "l \<noteq> 0"
  have small: "unat (ucast (y :: u32) :: u16) = unat y" if "unat y \<le> 200" for y
    using that by (simp add: unsigned_ucast_eq take_bit_nat_eq_self)
  let ?x = "ucast l * m :: u32"
  have "unat (min ?x 200) = min (unat ?x) 200" by (simp add: min_def word_le_nat_alt)
  then show ?thesis using \<open>l \<noteq> 0\<close> small[of "min ?x 200"] by (simp add: refill_of_def)
qed

lemma refill_covers_frame:
  assumes "dcb_typed cfg" "i < 8" "unat mf \<le> 65535" "link_share cfg d (tc_config cfg ! i) \<noteq> 0"
  shows "min (unat (cee_min_credit mf)) 200 \<le>
     unat (refill_of (path (tc_config cfg ! i) ! d) (of_nat (link_share cfg d (tc_config cfg ! i))) (cee_multiplier cfg d mf))"
proof -
  define l where "l = link_share cfg d (tc_config cfg ! i)"
  define ls :: "u16 list" where "ls = map (\<lambda>c. of_nat (link_share cfg d c)) (tc_config cfg)"
  have "l \<le> 650" by (simp add: l_def link_share_bound)
  then have ul: "unat (of_nat l :: u16) = l" by (simp add: unat_of_nat)
  have "of_nat l \<in> set ls" using assms(1,2) by (simp add: l_def ls_def image_iff) (metis nth_mem typed_lengths(1))
  moreover have l0: "(of_nat l :: u16) \<noteq> 0" using assms(4) ul by (auto simp: l_def)
  ultimately have m: "0 < unat (cee_min_percent ls)" "unat (cee_min_percent ls) \<le> l"
    using cee_min_percent_bounds(1)[of ls] cee_min_percent_bounds(3)[of "of_nat l" ls] ul
    by (simp_all add: word_less_nat_alt word_le_nat_alt)
  have mc: "unat (cee_min_credit mf) \<le> 512" using assms(3) by (simp add: unat_cee_min_credit)
  have q: "unat (cee_min_credit mf) div unat (cee_min_percent ls) \<le> 512"
    by (rule order.trans[OF div_le_dividend mc])
  have "cee_multiplier cfg d mf = cee_min_credit mf div ucast (cee_min_percent ls) + 1" by (simp add: cee_multiplier_def ls_def)
  then have mult: "unat (cee_multiplier cfg d mf) = unat (cee_min_credit mf) div unat (cee_min_percent ls) + 1" (is "_ = ?k")
    using q by (simp add: unat_word_ariths unat_div unat_ucast_u16)
  have "?k \<le> 513" using q by simp
  then have "l * ?k \<le> 650 * 513" using \<open>l \<le> 650\<close> by (intro mult_le_mono)
  then have "unat (ucast (of_nat l :: u16) * cee_multiplier cfg d mf :: u32) = l * ?k"
    by (simp add: unat_word_ariths unat_ucast_u16 ul mult)
  then show ?thesis
    using product_covers[OF m, of "unat (cee_min_credit mf)"] l0 by (simp add: unat_refill_of l_def[symmetric])
qed

text \<open>A class whose share rounds down to nothing is not counted in the smallest share and keeps one quantum.\<close>

definition rounding_cfg :: ixgbe_dcb_config where
  "rounding_cfg = (let p = (\<lambda>id pct. \<lparr>bwg_id = id, bwg_percent = pct, link_percent = 0, up_to_tc_bitmap = 0,
                            data_credits_refill = 0, data_credits_max = 0, tsa = ixgbe_dcb_tsa_ets\<rparr>);
                       c = (\<lambda>id pct. \<lparr>path = [p id pct, p id pct], pfc = ixgbe_dcb_pfc_disabled, desc_credits_max = 0\<rparr>)
     in \<lparr>tc_config = [c 0 100, c 1 1, c 1 99] @ replicate 5 (c 2 20), num_tcs = \<lparr>pg_tcs = 8, pfc_tcs = 8\<rparr>,
         bw_percentage = replicate 2 [50, 40, 10, 0, 0, 0, 0, 0], pfc_mode_enable = False, link_speed = 0, vt_mode = False\<rparr>)"

lemma rounding_cfg_valid:
  "dcb_typed rounding_cfg" "dcb_ids rounding_cfg 0" "dcb_ids rounding_cfg 1" "ixgbe_dcb_check_config_cee rounding_cfg = 0"
  by code_simp+

lemma rounded_class_starves:
  "\<exists>cfg'. ixgbe_dcb_calculate_tc_credits_cee ixgbe_mac_82599EB (Some rounding_cfg) 1600 0 = Inr (0, Some cfg') \<and>
     data_credits_refill (path (tc_config cfg' ! 1) ! 0) = 7 \<and> 7 < cee_min_credit 1600"
proof -
  have "refill_of (path (tc_config rounding_cfg ! 1) ! 0) (of_nat (link_share rounding_cfg 0 (tc_config rounding_cfg ! 1)))
          (cee_multiplier rounding_cfg 0 1600) = 7"
    by code_simp
  moreover have "(7 :: u32) < cee_min_credit 1600" by code_simp
  moreover obtain cfg' where "ixgbe_dcb_calculate_tc_credits_cee ixgbe_mac_82599EB (Some rounding_cfg) 1600 0 = Inr (0, Some cfg')"
      "\<forall>i < 8. data_credits_refill (path (tc_config cfg' ! i) ! 0) = refill_of (path (tc_config rounding_cfg ! i) ! 0)
         (of_nat (link_share rounding_cfg 0 (tc_config rounding_cfg ! i))) (cee_multiplier rounding_cfg 0 1600)"
    using credits_cee_ok[OF rounding_cfg_valid(1,2), of ixgbe_mac_82599EB 1600] by auto
  ultimately show ?thesis by (intro exI[of _ cfg']) simp
qed

section \<open>Flow control\<close>

lemma rfold_ok:
  "(\<And>x a. x \<in> set xs \<Longrightarrow> f x a = Inr (g x a)) \<Longrightarrow> fold (\<lambda>x r. rbind r (f x)) xs (Inr a) = Inr (fold g xs a)"
  by (induction xs arbitrary: a) simp_all

lemma rfold_inv:
  "(\<And>x a. x \<in> set xs \<Longrightarrow> I a \<Longrightarrow> \<exists>b. f x a = Inr b \<and> I b) \<Longrightarrow> I a \<Longrightarrow>
   \<exists>b. fold (\<lambda>x r. rbind r (f x)) xs (Inr a) = Inr b \<and> I b"
proof (induction xs arbitrary: a)
  case (Cons x xs)
  obtain b where "f x a = Inr b" "I b" using Cons.prems(1)[of x a] Cons.prems(2) by auto
  then show ?case using Cons.IH[of b] Cons.prems(1) by simp
qed simp

lemma unpack_pfc_ok:
  "dcb_typed cfg \<Longrightarrow> (\<And>u. u < 8 \<Longrightarrow> unat (m ! u) < 8) \<Longrightarrow>
   ixgbe_dcb_unpack_pfc_cee cfg m = Inr (fold (\<lambda>up pfc_up.
     if pfc (tc_config cfg ! unat (m ! up)) \<noteq> ixgbe_dcb_pfc_disabled then pfc_up OR push_bit up 1 else pfc_up) [0..<8] 0)"
  unfolding ixgbe_dcb_unpack_pfc_cee_def by (rule rfold_ok) simp

definition water_marks :: "ixgbe_fc_info \<Rightarrow> bool" where
  "water_marks f \<longleftrightarrow> length (high_water f) = IXGBE_DCB_MAX_TRAFFIC_CLASS \<and> length (low_water f) = IXGBE_DCB_MAX_TRAFFIC_CLASS"

lemma write_reg_fields [simp]:
  "fc (IXGBE_WRITE_REG R a v hw) = fc hw" "mac_type (IXGBE_WRITE_REG R b v hw1) = mac_type hw1"
  by (simp_all add: IXGBE_WRITE_REG_def)

lemma read_reg_fields [simp]:
  "fc (snd (IXGBE_READ_REG R a hw)) = fc hw" "mac_type (snd (IXGBE_READ_REG R b hw1)) = mac_type hw1"
  by (simp_all add: IXGBE_READ_REG_def case_prod_beta)

lemma rmw_fields [simp]: "fc (rmw R a f hw) = fc hw" "mac_type (rmw R b f hw1) = mac_type hw1"
  by (simp_all add: rmw_def case_prod_beta)

lemma fold_keeps: "(\<And>x s. x \<in> set xs \<Longrightarrow> h (f x s) = h s) \<Longrightarrow> h (fold f xs s) = h s"
  by (induction xs arbitrary: s) simp_all

lemma for_regs_keeps: "(\<And>i s. i < n \<Longrightarrow> h (f i s) = h s) \<Longrightarrow> h (for_regs n f s) = h s"
  unfolding for_regs_def by (rule fold_keeps) simp

section \<open>The priority map\<close>

lemma bit_fold_or: "bit (fold (\<lambda>i r. r OR g i) xs r) k \<longleftrightarrow> bit r k \<or> (\<exists>i \<in> set xs. bit (g i) k)" for r :: u32
  by (induction xs arbitrary: r) (auto simp: bit_or_iff)

lemma bit_small:
  assumes "unat (x :: u8) < 8" "bit x k"
  shows "k < 3"
proof (rule ccontr)
  assume "\<not> k < 3"
  then have "(2 :: nat) ^ 3 \<le> 2 ^ k" by (intro power_increasing) simp_all
  then have "unat x div 2 ^ k = 0" using assms(1) by simp
  moreover have "bit (unat x) k" using assms(2) by (simp add: bit_unsigned_iff)
  ultimately show False by (simp add: bit_iff_odd)
qed

lemma bit_up2tc:
  assumes "\<And>u. u < 8 \<Longrightarrow> unat (m ! u) < 8" "i < 8" "k < 3"
  shows "bit (up2tc m) (i * 3 + k) \<longleftrightarrow> bit (m ! i) k"
proof -
  have "bit (push_bit (j * 3) (ucast (m ! j) :: u32)) (i * 3 + k) \<longleftrightarrow> j = i \<and> bit (m ! i) k" if "j < 8" for j
  proof -
    have "j = i" if "bit (push_bit (j * 3) (ucast (m ! j) :: u32)) (i * 3 + k)"
    proof -
      have "j * 3 \<le> i * 3 + k" "i * 3 + k - j * 3 < 3"
        using that bit_small[OF assms(1)[OF \<open>j < 8\<close>]] by (simp_all add: bit_push_bit_iff bit_ucast_iff)
      with assms(3) show ?thesis by linarith
    qed
    then show ?thesis using assms(2,3) by (auto simp: bit_push_bit_iff bit_ucast_iff)
  qed
  then show ?thesis using assms(2) by (auto simp: up2tc_def bit_fold_or)
qed

lemma up2tc_field:
  assumes "\<And>u. u < 8 \<Longrightarrow> unat (m ! u) < 8" "i < 8"
  shows "7 AND drop_bit (i * 3) (up2tc m) = ucast (m ! i)"
proof (rule bit_word_eqI)
  fix k :: nat
  assume k: "k < LENGTH(32)"
  have "bit (7 :: u32) k \<longleftrightarrow> k < 3" using k by (auto simp: bit_numeral_rec(2) numeral_eq_Suc less_Suc_eq bit_simps)
  then show "bit (7 AND drop_bit (i * 3) (up2tc m)) k = bit (ucast (m ! i) :: u32) k"
    using bit_up2tc[OF assms, of k] bit_small[OF assms(1)[OF assms(2)], of k] k
    by (auto simp: bit_and_iff bit_drop_bit_eq bit_ucast_iff)
qed

section \<open>Registers that only hold what is written\<close>

text \<open>
  \<open>plain_reg R a val\<close>: the device keeps a value \<open>val\<close> that a write to \<open>a\<close> sets, a read of \<open>a\<close> returns and no
  other access changes.
\<close>

definition plain_reg :: "'h device \<Rightarrow> u32 \<Rightarrow> ('h \<Rightarrow> u32) \<Rightarrow> bool" where
  "plain_reg R a val \<longleftrightarrow>
     (\<forall>s b v. val (dev_write R s b v) = (if b = a then v else val s)) \<and>
     (\<forall>s b. val (snd (dev_read R s b)) = val s) \<and> (\<forall>s. fst (dev_read R s a) = val s)"

abbreviation holds :: "('h \<Rightarrow> u32) \<Rightarrow> ('h, 'z) ixgbe_hw_scheme \<Rightarrow> u32" where
  "holds val hw \<equiv> val (hw_dev hw)"

lemma plain_write: "plain_reg R a val \<Longrightarrow> holds val (IXGBE_WRITE_REG R b v hw) = (if b = a then v else holds val hw)"
  by (simp add: plain_reg_def IXGBE_WRITE_REG_def)

lemma plain_read:
  "plain_reg R a val \<Longrightarrow> holds val (snd (IXGBE_READ_REG R b hw)) = holds val hw"
  "plain_reg R a val \<Longrightarrow> fst (IXGBE_READ_REG R a hw) = holds val hw"
  by (simp_all add: plain_reg_def IXGBE_READ_REG_def case_prod_beta)

lemma plain_rmw: "plain_reg R a val \<Longrightarrow> holds val (rmw R b f hw) = (if b = a then f (holds val hw) else holds val hw)"
  by (simp add: rmw_def case_prod_beta plain_write plain_read)

lemma reg_at_ne:
  assumes "i < n" "unat base + unat stride * n < 2 ^ 32" "0 < unat stride"
    "unat a < unat base \<or> unat base + unat stride * n \<le> unat a"
  shows "reg_at base stride i \<noteq> a"
proof -
  have "unat stride * i < unat stride * n" using assms(1,3) by simp
  then have le: "unat base + unat stride * i < 2 ^ 32" "unat base + unat stride * i < unat base + unat stride * n"
    using assms(2) by linarith+
  have e: "reg_at base stride i = of_nat (unat base + unat stride * i)" by (simp add: reg_at_def)
  have "unat (reg_at base stride i) = unat base + unat stride * i"
    unfolding e unat_of_nat using le(1) by simp
  then show ?thesis using assms(4) le(2) by auto
qed

lemma plain_for:
  assumes "plain_reg R a val" "unat base + unat stride * n < 2 ^ 32" "0 < unat stride"
    "unat a < unat base \<or> unat base + unat stride * n \<le> unat a"
  shows "holds val (for_regs n (\<lambda>i. IXGBE_WRITE_REG R (reg_at base stride i) (f i)) hw) = holds val hw"
    "holds val (for_regs n (\<lambda>i hw. if P i then hw else IXGBE_WRITE_REG R (reg_at base stride i) (f i) hw) hw) = holds val hw"
  by (rule for_regs_keeps, simp add: plain_write[OF assms(1)] reg_at_ne[OF _ assms(2-4)])+

lemmas plain_accesses = plain_write plain_read plain_rmw plain_for

text \<open>The register programs set the priority map and leave it alone otherwise.\<close>

lemma u8_through_u32: "ucast (ucast (x :: u8) :: u32) = x"
  by (rule bit_word_eqI) (simp add: bit_ucast_iff)

lemma rx_arbiter_map:
  assumes "plain_reg R IXGBE_RTRUP2TC val"
  shows "holds val (snd (ixgbe_dcb_config_rx_arbiter_82599 R refill mx bwg ts m hw)) = up2tc m"
  by (simp add: ixgbe_dcb_config_rx_arbiter_82599_def Let_def plain_accesses[OF assms])

lemma clear_queue_credits:
  "plain_reg R IXGBE_RTRUP2TC val \<Longrightarrow>
   holds val (for_regs n (\<lambda>i hw. IXGBE_WRITE_REG R IXGBE_RTTDT1C 0 (IXGBE_WRITE_REG R IXGBE_RTTDQSEL (f i) hw)) hw) = holds val hw"
  by (rule for_regs_keeps) (simp add: plain_write)

lemma disable_drop:
  "plain_reg R IXGBE_RTRUP2TC val \<Longrightarrow> holds val (for_regs n (\<lambda>i. IXGBE_WRITE_REG R IXGBE_QDE (f i)) hw) = holds val hw"
  by (rule for_regs_keeps) (simp add: plain_write)

lemma other_programs_map:
  assumes "plain_reg R IXGBE_RTRUP2TC val"
  shows "holds val (snd (ixgbe_dcb_config_tx_desc_arbiter_82599 R refill mx bwg ts hw)) = holds val hw"
    "holds val (snd (ixgbe_dcb_config_tx_data_arbiter_82599 R refill mx bwg ts m hw)) = holds val hw"
    "holds val (snd (ixgbe_dcb_config_82599 R cfg hw)) = holds val hw"
    "holds val (snd (ixgbe_dcb_config_tc_stats_82599 R c hw)) = holds val hw"
  by (simp_all add: ixgbe_dcb_config_tx_desc_arbiter_82599_def ixgbe_dcb_config_tx_data_arbiter_82599_def
        ixgbe_dcb_config_82599_def ixgbe_dcb_config_tc_stats_82599_def Let_def clear_queue_credits[OF assms] disable_drop[OF assms] plain_accesses[OF assms])

lemma pause_regs_map:
  assumes "plain_reg R IXGBE_RTRUP2TC val"
  shows "holds val (pause_regs R hw) = holds val hw"
  by (simp add: pause_regs_def Let_def plain_accesses[OF assms])

lemma pause_regs_fields [simp]: "fc (pause_regs R hw) = fc hw" "mac_type (pause_regs R hw) = mac_type hw"
  by (simp_all add: pause_regs_def Let_def for_regs_keeps[where h = fc] for_regs_keeps[where h = mac_type])

text \<open>\<open>same_hw R val hw hw'\<close>: the structure keeps its fields, and the priority map register its value when it is plain.\<close>

definition same_hw :: "'h device \<Rightarrow> ('h \<Rightarrow> u32) \<Rightarrow> 'h dcb_hw \<Rightarrow> 'h dcb_hw \<Rightarrow> bool" where
  "same_hw R val hw hw' \<longleftrightarrow> fc hw' = fc hw \<and> mac_type hw' = mac_type hw \<and>
     (plain_reg R IXGBE_RTRUP2TC val \<longrightarrow> holds val hw' = holds val hw)"

lemma same_hw_trans: "same_hw R val hw hw1 \<Longrightarrow> same_hw R val hw1 hw2 \<Longrightarrow> same_hw R val hw hw2"
  by (simp add: same_hw_def)

lemma pfc_threshold_ok:
  assumes "water_marks (fc hw)" "i < 8"
  shows "\<exists>hw'. pfc_threshold R pfc_en m i hw = Inr hw' \<and> same_hw R val hw hw'"
  using assms by (simp add: pfc_threshold_def water_marks_def same_hw_def plain_write reg_at_ne[of _ 8] plain_read case_prod_beta)

lemma max_tc_small:
  "(\<And>u. u \<in> set xs \<Longrightarrow> unat (m ! u) < 8) \<Longrightarrow> unat t < 8 \<Longrightarrow> unat (fold (\<lambda>i t. if m ! i > t then m ! i else t) xs t) < 8"
  for t :: u8
  by (induction xs arbitrary: t) simp_all

lemma config_pfc_82599_ok:
  assumes "water_marks (fc hw)" "\<And>u. u < 8 \<Longrightarrow> unat (m ! u) < 8"
  shows "\<exists>hw'. ixgbe_dcb_config_pfc_82599 R pfc_en m hw = Inr (0, hw') \<and> same_hw R val hw hw'"
proof -
  define mx where "mx = fold (\<lambda>i t. if m ! i > t then m ! i else t) [0..<8] (0 :: u8)"
  have "unat mx < 8" unfolding mx_def using assms(2) by (intro max_tc_small) simp_all
  define hw2 where "hw2 = rmw R IXGBE_MFLCN (\<lambda>r. (((r OR IXGBE_MFLCN_DPF) AND NOT (IXGBE_MFLCN_RPFCE_MASK OR IXGBE_MFLCN_RFCE)) OR
                   (if mac_type hw = ixgbe_mac_X540 then push_bit 4 (ucast pfc_en) else 0)) OR
                   (if pfc_en \<noteq> 0 then IXGBE_MFLCN_RPFCE else 0)) (IXGBE_WRITE_REG R IXGBE_FCCFG IXGBE_FCCFG_TFCE_PRIORITY hw)"
  have hw2: "same_hw R val hw hw2" by (simp add: same_hw_def hw2_def plain_rmw plain_write)
  have "\<exists>hw3. fold (\<lambda>i r. rbind r (pfc_threshold R pfc_en m i)) [0..<unat mx + 1] (Inr hw2) = Inr hw3 \<and> same_hw R val hw hw3"
  proof (rule rfold_inv[where I = "same_hw R val hw"])
    show "same_hw R val hw hw2" by (rule hw2)
  next
    fix i hw'
    assume "i \<in> set [0..<unat mx + 1]" "same_hw R val hw hw'"
    then show "\<exists>hw''. pfc_threshold R pfc_en m i hw' = Inr hw'' \<and> same_hw R val hw hw''"
      using pfc_threshold_ok[of hw' i R pfc_en m val] assms(1) \<open>unat mx < 8\<close> same_hw_trans
      by (auto simp: same_hw_def)
  qed
  then obtain hw3 where hw3: "fold (\<lambda>i r. rbind r (pfc_threshold R pfc_en m i)) [0..<unat mx + 1] (Inr hw2) = Inr hw3" "same_hw R val hw hw3"
    by blast
  define hw4 where "hw4 = fold (\<lambda>i hw. IXGBE_WRITE_REG R (IXGBE_FCRTH_82599 i) 0 (IXGBE_WRITE_REG R (IXGBE_FCRTL_82599 i) 0 hw))
                     [unat mx + 1..<8] hw3"
  have "fc hw4 = fc hw3" "mac_type hw4 = mac_type hw3" unfolding hw4_def by (rule fold_keeps; simp)+
  moreover have "holds val hw4 = holds val hw3" if "plain_reg R IXGBE_RTRUP2TC val"
    unfolding hw4_def by (rule fold_keeps) (simp add: plain_write[OF that] reg_at_ne[of _ 8])
  ultimately have "same_hw R val hw (pause_regs R hw4)" using hw3(2) by (simp add: same_hw_def pause_regs_map)
  moreover have "ixgbe_dcb_config_pfc_82599 R pfc_en m hw = Inr (0, pause_regs R hw4)"
    using hw3(1) unfolding ixgbe_dcb_config_pfc_82599_def Let_def mx_def[symmetric] hw2_def[symmetric] rbind_Inr hw4_def by simp
  ultimately show ?thesis by blast
qed

section \<open>The whole configuration\<close>

lemma for_fc [simp]:
  "fc (for_regs n (\<lambda>i. IXGBE_WRITE_REG R (a i) (v i)) hw) = fc hw"
  "fc (for_regs n (\<lambda>i. rmw R (a i) (f i)) hw) = fc hw"
  "fc (for_regs n (\<lambda>i hw. rmw R (a i) (f i) (rmw R (b i) (g i) hw)) hw) = fc hw"
  "fc (for_regs n (\<lambda>i hw. IXGBE_WRITE_REG R (a i) (v i) (IXGBE_WRITE_REG R (b i) (w i) hw)) hw) = fc hw"
  "fc (for_regs n (\<lambda>i hw. if P i then hw else IXGBE_WRITE_REG R (a i) (v i) hw) hw) = fc hw"
  by (rule for_regs_keeps, simp)+

lemma for_mac [simp]:
  "mac_type (for_regs n (\<lambda>i. IXGBE_WRITE_REG R (a i) (v i)) hw) = mac_type hw"
  "mac_type (for_regs n (\<lambda>i. rmw R (a i) (f i)) hw) = mac_type hw"
  "mac_type (for_regs n (\<lambda>i hw. rmw R (a i) (f i) (rmw R (b i) (g i) hw)) hw) = mac_type hw"
  "mac_type (for_regs n (\<lambda>i hw. IXGBE_WRITE_REG R (a i) (v i) (IXGBE_WRITE_REG R (b i) (w i) hw)) hw) = mac_type hw"
  "mac_type (for_regs n (\<lambda>i hw. if P i then hw else IXGBE_WRITE_REG R (a i) (v i) hw) hw) = mac_type hw"
  by (rule for_regs_keeps, simp)+

lemmas program_defs =
  ixgbe_dcb_config_rx_arbiter_82598_def ixgbe_dcb_config_tx_desc_arbiter_82598_def
  ixgbe_dcb_config_tx_data_arbiter_82598_def ixgbe_dcb_config_tc_stats_82598_def ixgbe_dcb_hw_config_82598_def
  ixgbe_dcb_config_rx_arbiter_82599_def ixgbe_dcb_config_tx_desc_arbiter_82599_def
  ixgbe_dcb_config_tx_data_arbiter_82599_def ixgbe_dcb_config_tc_stats_82599_def ixgbe_dcb_config_82599_def
  ixgbe_dcb_hw_config_82599_def

lemma pfc_82598_fc [simp]: "fc (snd (ixgbe_dcb_config_pfc_82598 R pfc_en hw)) = fc hw"
  by (simp add: ixgbe_dcb_config_pfc_82598_def Let_def for_regs_keeps[where h = fc])

lemma program_fc [simp]:
  "fc (snd (ixgbe_dcb_hw_config_82598 R refill mx bwg ts hw)) = fc hw"
  "fc (snd (ixgbe_dcb_config_82599 R cfg hw)) = fc hw"
  "fc (snd (ixgbe_dcb_hw_config_82599 R refill mx bwg ts m hw)) = fc hw"
  "fc (snd (ixgbe_dcb_config_tc_stats_82599 R c hw)) = fc hw"
  by (simp_all add: program_defs Let_def)

lemma program_mac [simp]:
  "mac_type (snd (ixgbe_dcb_hw_config_82598 R refill mx bwg ts hw)) = mac_type hw"
  "mac_type (snd (ixgbe_dcb_config_82599 R cfg hw)) = mac_type hw"
  "mac_type (snd (ixgbe_dcb_hw_config_82599 R refill mx bwg ts m hw)) = mac_type hw"
  "mac_type (snd (ixgbe_dcb_config_tc_stats_82599 R c hw)) = mac_type hw"
  by (simp_all add: program_defs Let_def)

lemma program_ret [simp]:
  "fst (ixgbe_dcb_hw_config_82598 R refill mx bwg ts hw) = 0"
  "fst (ixgbe_dcb_hw_config_82599 R refill mx bwg ts m hw) = 0"
  "fst (ixgbe_dcb_config_pfc_82598 R pfc_en hw') = 0"
  by (simp_all add: program_defs ixgbe_dcb_config_pfc_82598_def Let_def)

lemma hw_config_82599_map:
  "plain_reg R IXGBE_RTRUP2TC val \<Longrightarrow> holds val (snd (ixgbe_dcb_hw_config_82599 R refill mx bwg ts m hw)) = up2tc m"
  by (simp add: ixgbe_dcb_hw_config_82599_def case_prod_beta Let_def rx_arbiter_map other_programs_map)

definition dcb_mac :: "ixgbe_mac_type \<Rightarrow> bool" where
  "dcb_mac mac \<longleftrightarrow> mac \<in> {ixgbe_mac_82598EB, ixgbe_mac_82599EB, ixgbe_mac_X540}"

definition cfg_map :: "ixgbe_dcb_config \<Rightarrow> u8 list" where
  "cfg_map cfg = map (\<lambda>up. of_nat (class_of cfg IXGBE_DCB_TX_CONFIG up)) [0..<8]"

lemma cfg_map_small:
  assumes "unat (pg_tcs (num_tcs cfg)) \<le> 8" "u < 8"
  shows "cfg_map cfg ! u = of_nat (class_of cfg 0 u)" "unat (cfg_map cfg ! u) < max 1 (unat (pg_tcs (num_tcs cfg)))" "unat (cfg_map cfg ! u) < 8"
proof -
  show e: "cfg_map cfg ! u = of_nat (class_of cfg 0 u)" using assms(2) by (simp add: cfg_map_def)
  have "class_of cfg 0 u < max 1 (unat (pg_tcs (num_tcs cfg)))" by (rule class_of_bound)
  moreover from this have "unat (of_nat (class_of cfg 0 u) :: u8) = class_of cfg 0 u" using assms(1) by (simp add: unat_of_nat)
  ultimately show "unat (cfg_map cfg ! u) < max 1 (unat (pg_tcs (num_tcs cfg)))" "unat (cfg_map cfg ! u) < 8"
    using assms(1) by (simp_all add: e)
qed

lemma unpack_cee_ok:
  "dcb_typed cfg \<Longrightarrow> unat (pg_tcs (num_tcs cfg)) \<le> 8 \<Longrightarrow>
   unpack_cee cfg = Inr \<lparr>a_refill = map (\<lambda>c. data_credits_refill (path c ! 0)) (tc_config cfg),
     a_max = map desc_credits_max (tc_config cfg), a_bwgid = map (\<lambda>c. bwg_id (path c ! 0)) (tc_config cfg),
     a_tsa = map (\<lambda>c. tsa_code (tsa (path c ! 0))) (tc_config cfg), a_map = cfg_map cfg\<rparr>"
  by (simp add: unpack_cee_def unpack_cee_no_map_def ixgbe_dcb_unpack_refill_cee_def ixgbe_dcb_unpack_bwgid_cee_def
        ixgbe_dcb_unpack_tsa_cee_def unpack_path_ok unpack_max_ok unpack_map_ok cfg_map_def)

lemma hw_config_arrays_ok:
  assumes "hw_config_arrays R cfg a hw = (ret, hw1)"
  shows "fc hw1 = fc hw" "mac_type hw1 = mac_type hw" "ret = (if dcb_mac (mac_type hw) then 0 else IXGBE_NOT_IMPLEMENTED)"
    "plain_reg R IXGBE_RTRUP2TC val \<Longrightarrow> mac_type hw = ixgbe_mac_82599EB \<or> mac_type hw = ixgbe_mac_X540 \<Longrightarrow> holds val hw1 = up2tc (a_map a)"
proof -
  have e: "ret = fst (hw_config_arrays R cfg a hw)" "hw1 = snd (hw_config_arrays R cfg a hw)" using assms by simp_all
  show "fc hw1 = fc hw" "mac_type hw1 = mac_type hw" "ret = (if dcb_mac (mac_type hw) then 0 else IXGBE_NOT_IMPLEMENTED)"
    by (simp_all add: e hw_config_arrays_def by_mac_def case_prod_beta Let_def dcb_mac_def)
  assume "plain_reg R IXGBE_RTRUP2TC val" "mac_type hw = ixgbe_mac_82599EB \<or> mac_type hw = ixgbe_mac_X540"
  then show "holds val hw1 = up2tc (a_map a)"
    by (auto simp: e hw_config_arrays_def by_mac_def case_prod_beta Let_def hw_config_82599_map other_programs_map)
qed

lemma config_pfc_ok:
  assumes "water_marks (fc hw)" "\<And>u. u < 8 \<Longrightarrow> unat (m ! u) < 8" "dcb_mac (mac_type hw)"
  shows "\<exists>hw'. ixgbe_dcb_config_pfc R pfc_en m hw = Inr (0, hw') \<and> fc hw' = fc hw \<and>
           (mac_type hw = ixgbe_mac_82598EB \<or> same_hw R val hw hw')"
proof (cases "mac_type hw = ixgbe_mac_82598EB")
  case True
  then show ?thesis
    by (auto simp: ixgbe_dcb_config_pfc_def by_mac_def prod_eq_iff intro!: exI[of _ "snd (ixgbe_dcb_config_pfc_82598 R pfc_en hw)"])
next
  case False
  then show ?thesis
    using config_pfc_82599_ok[OF assms(1,2), of R pfc_en val] assms(3)
    by (auto simp: ixgbe_dcb_config_pfc_def by_mac_def dcb_mac_def same_hw_def)
qed

lemma hw_config_cee_ok:
  assumes "dcb_typed cfg" "unat (pg_tcs (num_tcs cfg)) \<le> 8" "water_marks (fc hw)"
  shows "\<exists>hw'. ixgbe_dcb_hw_config_cee R cfg hw = Inr (if dcb_mac (mac_type hw) then 0 else IXGBE_NOT_IMPLEMENTED, hw') \<and> fc hw' = fc hw \<and>
     (plain_reg R IXGBE_RTRUP2TC val \<longrightarrow> mac_type hw = ixgbe_mac_82599EB \<or> mac_type hw = ixgbe_mac_X540 \<longrightarrow>
        mac_type hw' = mac_type hw \<and> holds val hw' = up2tc (cfg_map cfg))"
proof -
  obtain a where a: "unpack_cee cfg = Inr a" "a_map a = cfg_map cfg" using unpack_cee_ok[OF assms(1,2)] by simp
  obtain ret hw1 where r: "hw_config_arrays R cfg a hw = (ret, hw1)" by fastforce
  note hw1 = hw_config_arrays_ok[OF r]
  obtain pfc_en where pfc: "ixgbe_dcb_unpack_pfc_cee cfg (cfg_map cfg) = Inr pfc_en"
    using unpack_pfc_ok[OF assms(1), of "cfg_map cfg"] cfg_map_small(3)[OF assms(2)] by blast
  show ?thesis
  proof (cases "dcb_mac (mac_type hw) \<and> pfc_mode_enable cfg")
    case True
    then obtain hw' where "ixgbe_dcb_config_pfc R pfc_en (cfg_map cfg) hw1 = Inr (0, hw')" "fc hw' = fc hw1"
        "mac_type hw1 = ixgbe_mac_82598EB \<or> same_hw R val hw1 hw'"
      using config_pfc_ok[of hw1 "cfg_map cfg" R pfc_en val] hw1(1,2) assms(3) cfg_map_small(3)[OF assms(2)] by auto
    then show ?thesis
      using True hw1 a pfc by (auto simp: ixgbe_dcb_hw_config_cee_def r same_hw_def)
  next
    case False
    then show ?thesis using hw1 a by (auto simp: ixgbe_dcb_hw_config_cee_def r dcb_mac_def)
  qed
qed

text \<open>A state of the adapter whose configuration the operations can work on.\<close>

definition dcb_wf :: "'h dcb_adapter \<Rightarrow> bool" where
  "dcb_wf ad \<longleftrightarrow> dcb_typed (ad_dcb_cfg ad) \<and> dcb_ids (ad_dcb_cfg ad) 0 \<and> dcb_ids (ad_dcb_cfg ad) 1 \<and>
     unat (pg_tcs (num_tcs (ad_dcb_cfg ad))) \<le> IXGBE_DCB_MAX_TRAFFIC_CLASS \<and> water_marks (fc (ad_hw ad))"

lemma dcb_credits_ok:
  assumes "dcb_typed cfg" "dcb_ids cfg d" "d < 2"
  shows "\<exists>cfg'. dcb_credits mac cfg mf d = Inr cfg' \<and> keeps_cfg cfg cfg'"
  using credits_cee_ok[OF assms, of mac mf] by (auto simp: dcb_credits_def)

lemma keeps_class_trans: "keeps_class c1 c2 \<Longrightarrow> keeps_class c2 c3 \<Longrightarrow> keeps_class c1 c3"
  by (simp add: keeps_class_def)

lemma keeps_cfg_refl: "keeps_cfg cfg cfg"
  by (simp add: keeps_cfg_def keeps_class_def list.rel_refl)

lemma keeps_cfg_trans: "keeps_cfg a b \<Longrightarrow> keeps_cfg b c \<Longrightarrow> keeps_cfg a c"
  unfolding keeps_cfg_def using list_all2_trans[of keeps_class keeps_class keeps_class] keeps_class_trans by (metis (no_types, lifting))

section \<open>Properties\<close>

text \<open>
  C24. Configuring data centre bridging is type correct: on an adapter whose configuration arrays
  have their declared lengths, whose bandwidth group identifiers and number of traffic classes are at
  most 8 and whose water marks are there, no operation indexes outside an array; the state reached is of
  the same kind and only credits have changed in the configuration.
\<close>

theorem configure_dcb_typed:
  assumes "dcb_wf ad"
  shows "\<exists>ad'. ixgbe_configure_dcb R ad = Inr ad' \<and> dcb_wf ad' \<and> keeps_cfg (ad_dcb_cfg ad) (ad_dcb_cfg ad')"
proof -
  define ad1 where "ad1 = (if mac_type (ad_hw ad) = ixgbe_mac_82598EB then netif_set_gso_max_size ad else ad)"
  have ad1: "ad_dcb_cfg ad1 = ad_dcb_cfg ad" "ad_hw ad1 = ad_hw ad" by (simp_all add: ad1_def netif_set_gso_max_size_def)
  show ?thesis
  proof (cases "ad_dcb_enabled ad")
    case False
    then show ?thesis using assms ad1 keeps_cfg_refl
      by (simp add: ixgbe_configure_dcb_def Let_def ad1_def[symmetric] dcb_wf_def)
  next
    case True
    note wf = assms[unfolded dcb_wf_def]
    obtain cfg1 where cfg1: "dcb_credits (mac_type (ad_hw ad)) (ad_dcb_cfg ad1) (dcb_max_frame ad) 0 = Inr cfg1" "keeps_cfg (ad_dcb_cfg ad) cfg1"
      using dcb_credits_ok wf ad1(1) by force
    then have wf1: "dcb_typed cfg1" "dcb_ids cfg1 1" using wf keeps_typed keeps_ids by auto
    obtain cfg2 where cfg2: "dcb_credits (mac_type (ad_hw ad)) cfg1 (dcb_max_frame ad) 1 = Inr cfg2" "keeps_cfg cfg1 cfg2"
      using dcb_credits_ok wf1 by force
    have keep: "keeps_cfg (ad_dcb_cfg ad) cfg2" using keeps_cfg_trans cfg1(2) cfg2(2) by blast
    then have wf2: "dcb_typed cfg2" "dcb_ids cfg2 0" "dcb_ids cfg2 1" "unat (pg_tcs (num_tcs cfg2)) \<le> 8"
      using wf keeps_typed keeps_ids by (auto simp: keeps_cfg_def)
    obtain hw1 where "ixgbe_dcb_hw_config_cee R cfg2 (ad_hw ad1) =
          Inr (if dcb_mac (mac_type (ad_hw ad)) then 0 else IXGBE_NOT_IMPLEMENTED, hw1)" "fc hw1 = fc (ad_hw ad)"
      using hw_config_cee_ok[OF wf2(1,4), of "ad_hw ad1" R "\<lambda>_. 0"] wf ad1(2) by auto
    then show ?thesis
      using True cfg1(1) cfg2(1) keep wf wf2
      by (simp add: ixgbe_configure_dcb_def Let_def ad1_def[symmetric] dcb_wf_def)
  qed
qed

text \<open>A device whose registers hold what is written, and an adapter with the example configuration.\<close>

definition register_file :: "(u32 \<Rightarrow> u32) device" where
  "register_file = \<lparr>dev_read = (\<lambda>s a. (s a, s)), dev_write = (\<lambda>s a v. s(a := v)), dev_delay = (\<lambda>s d. s)\<rparr>"

lemma register_file_plain: "plain_reg register_file a (\<lambda>s. s a)"
  by (simp add: plain_reg_def register_file_def)

definition demo_dcb_hw :: "ixgbe_mac_type \<Rightarrow> (u32 \<Rightarrow> u32) dcb_hw" where
  "demo_dcb_hw mac = \<lparr>hw_dev = (\<lambda>a. 0), mac_type = mac,
     mbx = \<lparr>ops = mbx_ops_of MBX_pf, stats = zero_mbx_stats, timeout = 0, mbx_udelay = 0, v2p_mailbox = 0, mbx_size = 16\<rparr>,
     fc = \<lparr>high_water = replicate 8 0x80, low_water = replicate 8 0x40, pause_time = 0xFFFF\<rparr>\<rparr>"

definition demo_adapter :: "(u32 \<Rightarrow> u32) dcb_adapter" where
  "demo_adapter = \<lparr>ad_hw = demo_dcb_hw ixgbe_mac_X540, ad_dcb_cfg = rounding_cfg\<lparr>pfc_mode_enable := True\<rparr>, ad_dcb_enabled = True,
     ad_mtu = 1500, ad_fcoe_mtu = False, ad_tso = True, ad_tso6 = True, ad_rss_indices = 4\<rparr>"

theorem configure_dcb_typed_witness:
  "\<exists>ad'. ixgbe_configure_dcb register_file demo_adapter = Inr ad' \<and> dcb_wf ad' \<and> keeps_cfg (ad_dcb_cfg demo_adapter) (ad_dcb_cfg ad')"
proof (rule configure_dcb_typed)
  show "dcb_wf demo_adapter" by code_simp
qed

text \<open>
  C25. The priority map survives the way through the hardware: after the whole configuration has been
  written to an 82599 or X540, reading the map register back gives for each user priority the traffic
  class of the configuration.
\<close>

theorem priority_map_read_back:
  assumes "dcb_typed cfg" "unat (pg_tcs (num_tcs cfg)) \<le> 8" "water_marks (fc hw)"
    "mac_type hw = ixgbe_mac_82599EB \<or> mac_type hw = ixgbe_mac_X540" "plain_reg R IXGBE_RTRUP2TC val"
  shows "\<exists>hw'. ixgbe_dcb_hw_config_cee R cfg hw = Inr (0, hw') \<and>
     (\<forall>m. fst (ixgbe_dcb_get_rtrup2tc R m hw') = map (\<lambda>up. of_nat (class_of cfg IXGBE_DCB_TX_CONFIG up)) [0..<8])"
proof -
  obtain hw' where hw': "ixgbe_dcb_hw_config_cee R cfg hw = Inr (0, hw')" "mac_type hw' = mac_type hw" "holds val hw' = up2tc (cfg_map cfg)"
    using hw_config_cee_ok[OF assms(1,2,3), of R val] assms(4,5) by (auto simp: dcb_mac_def)
  have "ucast (7 AND drop_bit (i * 3) (up2tc (cfg_map cfg))) = cfg_map cfg ! i" if "i < 8" for i
    using up2tc_field[of "cfg_map cfg" i] cfg_map_small(3)[OF assms(2)] that by (simp add: u8_through_u32)
  then have "map (\<lambda>i. ucast (7 AND drop_bit (i * 3) (up2tc (cfg_map cfg)))) [0..<8] = cfg_map cfg"
    by (simp add: cfg_map_def)
  then show ?thesis
    using hw' assms(4) plain_read(2)[OF assms(5), of hw']
    by (auto simp: ixgbe_dcb_get_rtrup2tc_def ixgbe_dcb_get_rtrup2tc_generic_def case_prod_beta cfg_map_def)
qed

theorem priority_map_read_back_witness:
  "\<exists>hw'. ixgbe_dcb_hw_config_cee register_file rounding_cfg (demo_dcb_hw ixgbe_mac_X540) = Inr (0, hw') \<and>
     (\<forall>m. fst (ixgbe_dcb_get_rtrup2tc register_file m hw') = map (\<lambda>up. of_nat (class_of rounding_cfg IXGBE_DCB_TX_CONFIG up)) [0..<8])"
proof (rule priority_map_read_back[OF rounding_cfg_valid(1) _ _ _ register_file_plain])
  show "unat (pg_tcs (num_tcs rounding_cfg)) \<le> 8" by code_simp
  show "water_marks (fc (demo_dcb_hw ixgbe_mac_X540))" by code_simp
  show "mac_type (demo_dcb_hw ixgbe_mac_X540) = ixgbe_mac_82599EB \<or> mac_type (demo_dcb_hw ixgbe_mac_X540) = ixgbe_mac_X540"
    by (simp add: demo_dcb_hw_def)
qed

end
