(* ===== verification/DcbCheck.thy ===== *)
theory DcbCheck
  imports DcbProps
begin

text \<open>
  The rule check of data centre bridging against its documented rules, the default configuration, and
  the validation of the priority map.
\<close>

section \<open>The rule check\<close>

definition group_total :: "ixgbe_dcb_tc_path list \<Rightarrow> nat \<Rightarrow> nat" where
  "group_total ps g = sum_list (map (\<lambda>p. unat (bwg_percent p)) (filter (\<lambda>p. unat (bwg_id p) = g) ps))"

definition strict_group :: "ixgbe_dcb_tc_path list \<Rightarrow> nat \<Rightarrow> bool" where
  "strict_group ps g \<longleftrightarrow> (\<exists>p \<in> set ps. unat (bwg_id p) = g \<and> tsa p = ixgbe_dcb_tsa_strict)"

definition tc_rule :: "ixgbe_dcb_tc_path \<Rightarrow> bool" where
  "tc_rule p \<longleftrightarrow> unat (bwg_id p) < IXGBE_DCB_MAX_BW_GROUP \<and> (tsa p = ixgbe_dcb_tsa_strict \<longleftrightarrow> bwg_percent p = 0)"

text \<open>The documented rules, with the byte arithmetic of the sums written out.\<close>

definition dcb_rules :: "ixgbe_dcb_config \<Rightarrow> nat \<Rightarrow> bool" where
  "dcb_rules cfg d \<longleftrightarrow>
     (let ps = map (\<lambda>c. path c ! d) (tc_config cfg) in
        (\<forall>p \<in> set ps. tc_rule p) \<and>
        (\<forall>g < IXGBE_DCB_MAX_BW_GROUP. group_total ps g mod 256 = 0 \<or> \<not> strict_group ps g \<and> group_total ps g mod 256 = 100) \<and>
        sum_list (map unat (bw_percentage cfg ! d)) mod 256 = 100)"

lemma check_tc_ok:
  "check_tc p (s, l) = (if tc_rule p then Some (s[unat (bwg_id p) := s ! unat (bwg_id p) + bwg_percent p],
      if tsa p = ixgbe_dcb_tsa_strict then l[unat (bwg_id p) := True] else l) else None)"
  by (simp add: check_tc_def tc_rule_def Let_def)

lemma check_tcs_ok:
  "length s = 8 \<Longrightarrow> length l = 8 \<Longrightarrow>
   check_tcs ps (s, l) =
     (if \<forall>p \<in> set ps. tc_rule p
      then Some (map (\<lambda>g. s ! g + of_nat (group_total ps g)) [0..<8], map (\<lambda>g. l ! g \<or> strict_group ps g) [0..<8])
      else None)"
proof (induction ps arbitrary: s l)
  case Nil
  have "map (\<lambda>g. s ! g) [0..<8] = s" "map (\<lambda>g. l ! g) [0..<8] = l"
    using Nil map_nth[of s] map_nth[of l] by simp_all
  then show ?case by (simp add: group_total_def strict_group_def)
next
  case (Cons p ps)
  show ?case
  proof (cases "tc_rule p")
    case False
    then show ?thesis by (simp add: check_tc_ok)
  next
    case True
    let ?s = "s[unat (bwg_id p) := s ! unat (bwg_id p) + bwg_percent p]"
    let ?l = "if tsa p = ixgbe_dcb_tsa_strict then l[unat (bwg_id p) := True] else l"
    have "?s ! g + of_nat (group_total ps g) = s ! g + of_nat (group_total (p # ps) g)"
         "(?l ! g \<or> strict_group ps g) = (l ! g \<or> strict_group (p # ps) g)" if "g < 8" for g
      using that True Cons.prems by (auto simp: group_total_def strict_group_def nth_list_update tc_rule_def)
    then have "map (\<lambda>g. ?s ! g + of_nat (group_total ps g)) [0..<8] = map (\<lambda>g. s ! g + of_nat (group_total (p # ps) g)) [0..<8]"
         "map (\<lambda>g. ?l ! g \<or> strict_group ps g) [0..<8] = map (\<lambda>g. l ! g \<or> strict_group (p # ps) g) [0..<8]"
      by (simp_all add: map_eq_conv del: upt_rec_numeral)
    then show ?thesis
      using True Cons.IH[of ?s ?l] Cons.prems unfolding check_tcs.simps check_tc_ok by simp
  qed
qed

lemma check_groups_ok:
  "length ss = length bs \<Longrightarrow> length ls = length bs \<Longrightarrow>
   check_groups bs ss ls bw =
     (if \<forall>g < length bs. ss ! g = 0 \<or> \<not> ls ! g \<and> ss ! g = 100 then Some (bw + sum_list bs) else None)"
proof (induction bs ss ls bw rule: check_groups.induct)
  case (1 b bs s ss l ls bw)
  then show ?case by (auto simp: less_Suc_eq_0_disj add.assoc)
qed auto

lemma of_nat_u8_eq: "(of_nat n :: u8) = w \<longleftrightarrow> n mod 256 = unat w"
proof -
  have "unat (of_nat n :: u8) = n mod 256" by (simp add: unat_of_nat)
  then show ?thesis by (metis unsigned_word_eqI)
qed

lemma sum_list_u8: "sum_list ws = of_nat (sum_list (map unat ws))" for ws :: "u8 list"
  by (induction ws) simp_all

lemma check_direction_rules:
  assumes "dcb_typed cfg" "d < 2"
  shows "check_direction cfg d \<longleftrightarrow> dcb_rules cfg d"
proof -
  define ps where "ps = map (\<lambda>c. path c ! d) (tc_config cfg)"
  have groups: "check_groups (bw_percentage cfg ! d) (map (\<lambda>g. of_nat (group_total ps g)) [0..<8]) (map (strict_group ps) [0..<8]) 0 =
      (if \<forall>g < 8. group_total ps g mod 256 = 0 \<or> \<not> strict_group ps g \<and> group_total ps g mod 256 = 100
       then Some (sum_list (bw_percentage cfg ! d)) else None)"
    using check_groups_ok[of "map (\<lambda>g. of_nat (group_total ps g)) [0..<8]" "bw_percentage cfg ! d" "map (strict_group ps) [0..<8]" 0] assms
    by (simp add: of_nat_u8_eq)
  have tcs: "check_tcs ps (replicate 8 0, replicate 8 False) =
      (if \<forall>p \<in> set ps. tc_rule p then Some (map (\<lambda>g. of_nat (group_total ps g)) [0..<8], map (strict_group ps) [0..<8]) else None)"
    unfolding check_tcs_ok[of "replicate 8 0" "replicate 8 False" ps, simplified] 
    by (simp add: map_eq_conv del: upt_rec_numeral)
  have total: "sum_list (bw_percentage cfg ! d) = 100 \<longleftrightarrow> sum_list (map unat (bw_percentage cfg ! d)) mod 256 = 100"
    unfolding sum_list_u8 of_nat_u8_eq by simp
  show ?thesis
    unfolding check_direction_def dcb_rules_def Let_def ps_def[symmetric] tcs using groups total by auto
qed

text \<open>
  C26. The rule check accepts exactly the configurations of the documented rules: in each direction
  identifiers below 8, bandwidth nought for link strict classes and only for them, each group's total
  100 or nought and nought for link strict groups, and the groups' total 100; all totals modulo 256.
\<close>

theorem check_config_rules:
  assumes "dcb_typed cfg"
  shows "ixgbe_dcb_check_config_cee cfg =
     (if dcb_rules cfg IXGBE_DCB_TX_CONFIG \<and> dcb_rules cfg IXGBE_DCB_RX_CONFIG then 0 else IXGBE_ERR_CONFIG)"
  using check_direction_rules[OF assms, of 0] check_direction_rules[OF assms, of 1] by (simp add: ixgbe_dcb_check_config_cee_def)

theorem check_config_rules_witness:
  "dcb_rules rounding_cfg IXGBE_DCB_TX_CONFIG \<and> dcb_rules rounding_cfg IXGBE_DCB_RX_CONFIG"
  using check_config_rules[OF rounding_cfg_valid(1)] rounding_cfg_valid(4) by (simp split: if_splits)

text \<open>A group whose classes total 356 per cent passes.\<close>

lemma wrapped_total_accepted:
  "ixgbe_dcb_check_config_cee (rounding_cfg\<lparr>tc_config := map (\<lambda>c. c\<lparr>path := map (\<lambda>p. p\<lparr>bwg_id := 0\<rparr>) (path c)\<rparr>)
     (map (\<lambda>n. (hd (tc_config rounding_cfg))\<lparr>path := map (\<lambda>p. p\<lparr>bwg_percent := n\<rparr>) (path (hd (tc_config rounding_cfg)))\<rparr>)
        [45, 45, 45, 45, 44, 44, 44, 44])\<rparr>) = 0 \<and>
   sum_list [45, 45, 45, 45, 44, 44, 44, 44] = (356 :: nat)"
  by code_simp

text \<open>The default configuration leaves the classes above the fourth without bandwidth and does not pass.\<close>

definition zero_cfg :: ixgbe_dcb_config where
  "zero_cfg = \<lparr>tc_config = replicate 8 \<lparr>path = replicate 2 \<lparr>bwg_id = 0, bwg_percent = 0, link_percent = 0, up_to_tc_bitmap = 0,
       data_credits_refill = 0, data_credits_max = 0, tsa = ixgbe_dcb_tsa_ets\<rparr>, pfc = ixgbe_dcb_pfc_disabled, desc_credits_max = 0\<rparr>,
     num_tcs = \<lparr>pg_tcs = 0, pfc_tcs = 0\<rparr>, bw_percentage = replicate 2 (replicate 8 0), pfc_mode_enable = False,
     link_speed = 0, vt_mode = False\<rparr>"

lemma default_config_rejected:
  "ixgbe_dcb_check_config_cee (sw_init_dcb ixgbe_mac_82599EB zero_cfg) = IXGBE_ERR_CONFIG"
  "dcb_typed (sw_init_dcb ixgbe_mac_82599EB zero_cfg)" "cfg_map (sw_init_dcb ixgbe_mac_82599EB zero_cfg) = replicate 8 0"
  by code_simp+

text \<open>The netlink interface stores any number of classes; above 8 the priority map is read from beyond the array.\<close>

lemma too_many_classes:
  "ixgbe_dcb_unpack_map_cee (rounding_cfg\<lparr>num_tcs := \<lparr>pg_tcs = 9, pfc_tcs = 9\<rparr>\<rparr>) IXGBE_DCB_TX_CONFIG = Inl OutOfBounds"
  by code_simp

section \<open>Validation of the priority map\<close>

text \<open>Whichever priority is out of range, only the field of priority 1 is ever cleared.\<close>

lemma fold_stays: "(\<And>x a. a \<in> A \<Longrightarrow> f x a \<in> A) \<Longrightarrow> a \<in> A \<Longrightarrow> fold f xs a \<in> A"
  by (induction xs arbitrary: a) simp_all

lemma validate_reg_clears_up1: "validate_reg tc reg \<in> {reg, reg AND NOT (push_bit 3 7)}"
  unfolding validate_reg_def
proof (rule fold_stays)
  fix i a
  assume a: "a \<in> {reg, reg AND NOT (push_bit 3 7)}"
  then consider "a = reg" | "a = reg AND NOT (push_bit 3 7)" by blast
  then have e: "a AND NOT (push_bit 3 7) = reg AND NOT (push_bit 3 7)" by cases (simp_all only: and.assoc and.idem)
  show "(if (ucast (drop_bit (i * 3) a) :: u8) > tc then a AND NOT (push_bit 3 7) else a) \<in> {reg, reg AND NOT (push_bit 3 7)}"
    using a by (simp only: e split: if_split) blast
qed blast

lemma validate_reg_keeps_bad:
  "validate_reg 3 (up2tc [0, 0, 0, 0, 0, 0, 0, 7]) = up2tc [0, 0, 0, 0, 0, 0, 0, 7]"
  by code_simp

end
