(* ===== verification/HwFilters.thy ===== *)
theory HwFilters
  imports DcbHw
begin

text \<open>
  The receive filters of \<open>ixgbe_common.c\<close> and \<open>ixgbe_82598.c\<close>: receive address registers with their pools,
  the multicast table and the VLAN tables. An address is a list of six bytes; a list the C code walks
  with an iterator is a list of addresses with their pools.
\<close>

section \<open>State\<close>

abbreviation (input) IXGBE_ERR_INVALID_MAC_ADDR :: int where "IXGBE_ERR_INVALID_MAC_ADDR \<equiv> - 10"
abbreviation (input) IXGBE_ERR_NO_SPACE :: int where "IXGBE_ERR_NO_SPACE \<equiv> - 25"
abbreviation (input) IXGBE_ERR_INVALID_ARGUMENT :: int where "IXGBE_ERR_INVALID_ARGUMENT \<equiv> - 32"

record ixgbe_addr_filter_info =
  num_mc_addrs :: u32
  rar_used_count :: u32
  mta_in_use :: u32
  overflow_promisc :: u32
  user_set_promisc :: bool

record 'h flt_hw = "'h ixgbe_hw" +
  num_rar_entries :: u32
  rar_highwater :: u32
  hw_mac_addr :: "u8 list"
  mc_filter_type :: int
  mta_shadow :: "u32 list"
  mcft_size :: u32
  vft_size :: u32
  san_mac_rar_index :: u8
  addr_ctrl :: ixgbe_addr_filter_info

definition upd_ctrl :: "(ixgbe_addr_filter_info \<Rightarrow> ixgbe_addr_filter_info) \<Rightarrow> 'h flt_hw \<Rightarrow> 'h flt_hw" where
  "upd_ctrl f hw = hw\<lparr>addr_ctrl := f (addr_ctrl hw)\<rparr>"

text \<open>The registers; an index up to 15 of a receive address register is in the old place.\<close>

definition IXGBE_RAL :: "u32 \<Rightarrow> u32" where
  "IXGBE_RAL i = (if i \<le> 15 then 0x5400 + i * 8 else 0xA200 + i * 8)"
definition IXGBE_RAH :: "u32 \<Rightarrow> u32" where
  "IXGBE_RAH i = (if i \<le> 15 then 0x5404 + i * 8 else 0xA204 + i * 8)"
definition IXGBE_MPSAR_LO :: "u32 \<Rightarrow> u32" where
  "IXGBE_MPSAR_LO i = 0xA600 + i * 8"
definition IXGBE_MPSAR_HI :: "u32 \<Rightarrow> u32" where
  "IXGBE_MPSAR_HI i = 0xA604 + i * 8"

abbreviation (input) IXGBE_MTA :: "nat \<Rightarrow> u32" where "IXGBE_MTA \<equiv> reg_at 0x5200 4"
abbreviation (input) IXGBE_UTA :: "nat \<Rightarrow> u32" where "IXGBE_UTA \<equiv> reg_at 0xF400 4"
abbreviation (input) IXGBE_VFTA :: "nat \<Rightarrow> u32" where "IXGBE_VFTA \<equiv> reg_at 0xA000 4"
abbreviation (input) IXGBE_VFTAVIND :: "nat \<Rightarrow> nat \<Rightarrow> u32" where
  "IXGBE_VFTAVIND j \<equiv> reg_at (reg_at 0xA200 0x200 j) 4"
abbreviation (input) IXGBE_VLVF :: "nat \<Rightarrow> u32" where "IXGBE_VLVF \<equiv> reg_at 0xF100 4"
abbreviation (input) IXGBE_VLVFB :: "nat \<Rightarrow> u32" where "IXGBE_VLVFB \<equiv> reg_at 0xF200 4"
abbreviation (input) IXGBE_PFVFSPOOF :: "nat \<Rightarrow> u32" where "IXGBE_PFVFSPOOF \<equiv> reg_at 0x8200 4"
abbreviation (input) IXGBE_MCSTCTRL :: u32 where "IXGBE_MCSTCTRL \<equiv> 0x5090"
abbreviation (input) IXGBE_VT_CTL :: u32 where "IXGBE_VT_CTL \<equiv> 0x51B0"

abbreviation (input) IXGBE_RAH_AV :: u32 where "IXGBE_RAH_AV \<equiv> 0x80000000"
abbreviation (input) IXGBE_RAH_VIND_MASK :: u32 where "IXGBE_RAH_VIND_MASK \<equiv> 0x003C0000"
abbreviation (input) IXGBE_CLEAR_VMDQ_ALL :: u32 where "IXGBE_CLEAR_VMDQ_ALL \<equiv> 0xFFFFFFFF"
abbreviation (input) IXGBE_MCSTCTRL_MFE :: u32 where "IXGBE_MCSTCTRL_MFE \<equiv> 0x4"
abbreviation (input) IXGBE_FCTRL_UPE :: u32 where "IXGBE_FCTRL_UPE \<equiv> 0x200"
abbreviation (input) IXGBE_VT_CTL_VT_ENABLE :: u32 where "IXGBE_VT_CTL_VT_ENABLE \<equiv> 1"
abbreviation (input) IXGBE_VLVF_VIEN :: u32 where "IXGBE_VLVF_VIEN \<equiv> 0x80000000"
abbreviation (input) IXGBE_VLVF_ENTRIES :: nat where "IXGBE_VLVF_ENTRIES \<equiv> 64"

text \<open>\<open>1 << n\<close>; a shift by 32 or more is undefined in C and gives 0 here.\<close>

definition bit_of :: "u32 \<Rightarrow> u32" where
  "bit_of n = push_bit (unat n) 1"

section \<open>Addresses\<close>

definition IXGBE_IS_MULTICAST :: "u8 list \<Rightarrow> bool" where
  "IXGBE_IS_MULTICAST a \<longleftrightarrow> a ! 0 AND 1 \<noteq> 0"

definition IXGBE_IS_BROADCAST :: "u8 list \<Rightarrow> bool" where
  "IXGBE_IS_BROADCAST a \<longleftrightarrow> a ! 0 = 0xFF \<and> a ! 1 = 0xFF"

definition ixgbe_validate_mac_addr :: "u8 list \<Rightarrow> int" where
  "ixgbe_validate_mac_addr a =
     (if IXGBE_IS_MULTICAST a then IXGBE_ERR_INVALID_MAC_ADDR
      else if IXGBE_IS_BROADCAST a then IXGBE_ERR_INVALID_MAC_ADDR
      else if a ! 0 = 0 \<and> a ! 1 = 0 \<and> a ! 2 = 0 \<and> a ! 3 = 0 \<and> a ! 4 = 0 \<and> a ! 5 = 0 then IXGBE_ERR_INVALID_MAC_ADDR
      else 0)"

definition addr_low :: "u8 list \<Rightarrow> u32" where
  "addr_low a = ((ucast (a ! 0) OR push_bit 8 (ucast (a ! 1))) OR push_bit 16 (ucast (a ! 2))) OR push_bit 24 (ucast (a ! 3))"

definition addr_high :: "u8 list \<Rightarrow> u32" where
  "addr_high a = ucast (a ! 4) OR push_bit 8 (ucast (a ! 5))"

definition ixgbe_get_mac_addr_generic :: "'h device \<Rightarrow> ('h, 'z) ixgbe_hw_scheme \<Rightarrow> u8 list \<times> ('h, 'z) ixgbe_hw_scheme" where
  "ixgbe_get_mac_addr_generic R hw =
     (case IXGBE_READ_REG R (IXGBE_RAH 0) hw of (rar_high, hw1) \<Rightarrow>
      case IXGBE_READ_REG R (IXGBE_RAL 0) hw1 of (rar_low, hw2) \<Rightarrow>
        (map (\<lambda>i. ucast (drop_bit (i * 8) rar_low)) [0..<4] @ map (\<lambda>i. ucast (drop_bit (i * 8) rar_high)) [0..<2], hw2))"

section \<open>Pools of a receive address\<close>

definition ixgbe_set_vmdq_82598 :: "'h device \<Rightarrow> u32 \<Rightarrow> u32 \<Rightarrow> 'h flt_hw \<Rightarrow> int \<times> 'h flt_hw" where
  "ixgbe_set_vmdq_82598 R rar vmdq hw =
     (if rar \<ge> num_rar_entries hw then (IXGBE_ERR_INVALID_ARGUMENT, hw)
      else (0, rmw R (IXGBE_RAH rar) (\<lambda>r. (r AND NOT IXGBE_RAH_VIND_MASK) OR (push_bit 18 vmdq AND IXGBE_RAH_VIND_MASK)) hw))"

definition ixgbe_clear_vmdq_82598 :: "'h device \<Rightarrow> u32 \<Rightarrow> 'h flt_hw \<Rightarrow> int \<times> 'h flt_hw" where
  "ixgbe_clear_vmdq_82598 R rar hw =
     (if rar \<ge> num_rar_entries hw then (IXGBE_ERR_INVALID_ARGUMENT, hw)
      else case IXGBE_READ_REG R (IXGBE_RAH rar) hw of (rar_high, hw1) \<Rightarrow>
        (0, if rar_high AND IXGBE_RAH_VIND_MASK \<noteq> 0
            then IXGBE_WRITE_REG R (IXGBE_RAH rar) (rar_high AND NOT IXGBE_RAH_VIND_MASK) hw1 else hw1))"

definition ixgbe_set_vmdq_generic :: "'h device \<Rightarrow> u32 \<Rightarrow> u32 \<Rightarrow> 'h flt_hw \<Rightarrow> int \<times> 'h flt_hw" where
  "ixgbe_set_vmdq_generic R rar vmdq hw =
     (if rar \<ge> num_rar_entries hw then (IXGBE_ERR_INVALID_ARGUMENT, hw)
      else if vmdq < 32 then (0, rmw R (IXGBE_MPSAR_LO rar) (\<lambda>r. r OR bit_of vmdq) hw)
      else (0, rmw R (IXGBE_MPSAR_HI rar) (\<lambda>r. r OR bit_of (vmdq - 32)) hw))"

text \<open>The registers \<open>ixgbe_clear_rar_generic\<close> clears before the pools.\<close>

definition clear_rar_regs :: "'h device \<Rightarrow> u32 \<Rightarrow> 'h flt_hw \<Rightarrow> 'h flt_hw" where
  "clear_rar_regs R index hw =
     (case IXGBE_READ_REG R (IXGBE_RAH index) hw of (rar_high, hw1) \<Rightarrow>
        IXGBE_WRITE_REG R (IXGBE_RAH index) (rar_high AND NOT (0xFFFF OR IXGBE_RAH_AV))
          (IXGBE_WRITE_REG R (IXGBE_RAL index) 0 hw1))"

text \<open>
  \<open>ixgbe_clear_vmdq_generic\<close> and \<open>ixgbe_clear_rar_generic\<close> call each other: the removal of the last pool
  clears the address, which removes all pools. The call of \<open>clear_rar\<close> is written out here; a recursion
  that does not end is \<open>None\<close>.
\<close>

definition clear_pools :: "'h device \<Rightarrow> u32 \<Rightarrow> u32 \<Rightarrow> u32 \<Rightarrow> u32 \<Rightarrow> 'h flt_hw \<Rightarrow> u32 \<times> u32 \<times> 'h flt_hw" where
  "clear_pools R rar vmdq lo hi hw =
     (if vmdq = IXGBE_CLEAR_VMDQ_ALL then
        (let hw1 = (if lo \<noteq> 0 then IXGBE_WRITE_REG R (IXGBE_MPSAR_LO rar) 0 hw else hw)
         in (0, 0, if hi \<noteq> 0 then IXGBE_WRITE_REG R (IXGBE_MPSAR_HI rar) 0 hw1 else hw1))
      else if vmdq < 32 then
        (let lo' = lo AND NOT (bit_of vmdq) in (lo', hi, IXGBE_WRITE_REG R (IXGBE_MPSAR_LO rar) lo' hw))
      else
        (let hi' = hi AND NOT (bit_of (vmdq - 32)) in (lo, hi', IXGBE_WRITE_REG R (IXGBE_MPSAR_HI rar) hi' hw)))"

partial_function (option) ixgbe_clear_vmdq_generic :: "'h device \<Rightarrow> u32 \<Rightarrow> u32 \<Rightarrow> 'h flt_hw \<Rightarrow> (int \<times> 'h flt_hw) option" where
  "ixgbe_clear_vmdq_generic R rar vmdq hw =
     (if rar \<ge> num_rar_entries hw then Some (IXGBE_ERR_INVALID_ARGUMENT, hw)
      else case IXGBE_READ_REG R (IXGBE_MPSAR_LO rar) hw of (lo, hw1) \<Rightarrow>
        case IXGBE_READ_REG R (IXGBE_MPSAR_HI rar) hw1 of (hi, hw2) \<Rightarrow>
        if lo = 0 \<and> hi = 0 then Some (0, hw2)
        else case clear_pools R rar vmdq lo hi hw2 of (lo', hi', hw3) \<Rightarrow>
          if lo' = 0 \<and> hi' = 0 \<and> rar \<noteq> 0
          then Option.bind (ixgbe_clear_vmdq_generic R rar IXGBE_CLEAR_VMDQ_ALL (clear_rar_regs R rar hw3)) (\<lambda>(_, hw4). Some (0, hw4))
          else Some (0, hw3))"

declare ixgbe_clear_vmdq_generic.simps [code]

text \<open>\<open>mac.ops.set_vmdq\<close> and \<open>mac.ops.clear_vmdq\<close>; they are NULL on a virtual function.\<close>

definition call_set_vmdq :: "'h device \<Rightarrow> u32 \<Rightarrow> u32 \<Rightarrow> 'h flt_hw \<Rightarrow> fault + int \<times> 'h flt_hw" where
  "call_set_vmdq R rar vmdq hw =
     (if mac_type hw = ixgbe_mac_82598EB then Inr (ixgbe_set_vmdq_82598 R rar vmdq hw)
      else if mac_type hw = ixgbe_mac_82599EB \<or> mac_type hw = ixgbe_mac_X540 then Inr (ixgbe_set_vmdq_generic R rar vmdq hw)
      else Inl NullDeref)"

definition call_clear_vmdq :: "'h device \<Rightarrow> u32 \<Rightarrow> u32 \<Rightarrow> 'h flt_hw \<Rightarrow> fault + int \<times> 'h flt_hw" where
  "call_clear_vmdq R rar vmdq hw =
     (if mac_type hw = ixgbe_mac_82598EB then Inr (ixgbe_clear_vmdq_82598 R rar hw)
      else if mac_type hw = ixgbe_mac_82599EB \<or> mac_type hw = ixgbe_mac_X540 then of_option (ixgbe_clear_vmdq_generic R rar vmdq hw)
      else Inl NullDeref)"

definition ixgbe_set_vmdq_san_mac_generic :: "'h device \<Rightarrow> u32 \<Rightarrow> 'h flt_hw \<Rightarrow> int \<times> 'h flt_hw" where
  "ixgbe_set_vmdq_san_mac_generic R vmdq hw =
     (let rar = ucast (san_mac_rar_index hw) in
      (0, if vmdq < 32
          then IXGBE_WRITE_REG R (IXGBE_MPSAR_HI rar) 0 (IXGBE_WRITE_REG R (IXGBE_MPSAR_LO rar) (bit_of vmdq) hw)
          else IXGBE_WRITE_REG R (IXGBE_MPSAR_HI rar) (bit_of (vmdq - 32)) (IXGBE_WRITE_REG R (IXGBE_MPSAR_LO rar) 0 hw)))"

section \<open>Receive address registers\<close>

definition ixgbe_set_rar_generic :: "'h device \<Rightarrow> u32 \<Rightarrow> u8 list \<Rightarrow> u32 \<Rightarrow> u32 \<Rightarrow> 'h flt_hw \<Rightarrow> fault + int \<times> 'h flt_hw" where
  "ixgbe_set_rar_generic R index addr vmdq enable_addr hw =
     (if index \<ge> num_rar_entries hw then Inr (IXGBE_ERR_INVALID_ARGUMENT, hw)
      else rbind (call_set_vmdq R index vmdq hw) (\<lambda>(_, hw1).
        case IXGBE_READ_REG R (IXGBE_RAH index) hw1 of (r, hw2) \<Rightarrow>
          let rar_high = ((r AND NOT (0xFFFF OR IXGBE_RAH_AV)) OR addr_high addr) OR (if enable_addr \<noteq> 0 then IXGBE_RAH_AV else 0)
          in Inr (0, IXGBE_WRITE_REG R (IXGBE_RAH index) rar_high (IXGBE_WRITE_REG R (IXGBE_RAL index) (addr_low addr) hw2))))"

definition ixgbe_clear_rar_generic :: "'h device \<Rightarrow> u32 \<Rightarrow> 'h flt_hw \<Rightarrow> fault + int \<times> 'h flt_hw" where
  "ixgbe_clear_rar_generic R index hw =
     (if index \<ge> num_rar_entries hw then Inr (IXGBE_ERR_INVALID_ARGUMENT, hw)
      else rbind (call_clear_vmdq R index IXGBE_CLEAR_VMDQ_ALL (clear_rar_regs R index hw)) (\<lambda>(_, hw1). Inr (0, hw1)))"

definition ixgbe_init_uta_tables_generic :: "'h device \<Rightarrow> ('h, 'z) ixgbe_hw_scheme \<Rightarrow> int \<times> ('h, 'z) ixgbe_hw_scheme" where
  "ixgbe_init_uta_tables_generic R hw = (0, for_regs 128 (\<lambda>i. IXGBE_WRITE_REG R (IXGBE_UTA i) 0) hw)"

definition zero_rars :: "'h device \<Rightarrow> nat list \<Rightarrow> 'h flt_hw \<Rightarrow> 'h flt_hw" where
  "zero_rars R = fold (\<lambda>i hw. IXGBE_WRITE_REG R (IXGBE_RAH (of_nat i)) 0 (IXGBE_WRITE_REG R (IXGBE_RAL (of_nat i)) 0 hw))"

definition ixgbe_init_rx_addrs_generic :: "'h device \<Rightarrow> 'h flt_hw \<Rightarrow> fault + int \<times> 'h flt_hw" where
  "ixgbe_init_rx_addrs_generic R hw =
     rbind
       (if ixgbe_validate_mac_addr (hw_mac_addr hw) = IXGBE_ERR_INVALID_MAC_ADDR
        then (case ixgbe_get_mac_addr_generic R hw of (a, hw1) \<Rightarrow> Inr (hw1\<lparr>hw_mac_addr := a\<rparr>))
        else rbind (ixgbe_set_rar_generic R 0 (hw_mac_addr hw) 0 IXGBE_RAH_AV hw) (\<lambda>(_, hw1).
             rbind (call_clear_vmdq R 0 IXGBE_CLEAR_VMDQ_ALL hw1) (\<lambda>(_, hw2). Inr hw2)))
       (\<lambda>hw1.
        let hw2 = upd_ctrl (\<lambda>a. a\<lparr>overflow_promisc := 0, rar_used_count := 1\<rparr>) hw1;
            hw3 = zero_rars R [1..<unat (num_rar_entries hw)] hw2;
            hw4 = IXGBE_WRITE_REG R IXGBE_MCSTCTRL (of_int (mc_filter_type hw3)) (upd_ctrl (\<lambda>a. a\<lparr>mta_in_use := 0\<rparr>) hw3);
            hw5 = for_regs (unat (mcft_size hw4)) (\<lambda>i. IXGBE_WRITE_REG R (IXGBE_MTA i) 0) hw4;
            hw6 = (if mac_type hw5 = ixgbe_mac_82599EB \<or> mac_type hw5 = ixgbe_mac_X540
                   then snd (ixgbe_init_uta_tables_generic R hw5) else hw5)
        in Inr (0, hw6))"

definition ixgbe_add_uc_addr :: "'h device \<Rightarrow> u8 list \<times> u32 \<Rightarrow> 'h flt_hw \<Rightarrow> fault + 'h flt_hw" where
  "ixgbe_add_uc_addr R av hw =
     (case av of (addr, vmdq) \<Rightarrow>
        if rar_used_count (addr_ctrl hw) < num_rar_entries hw
        then rbind (ixgbe_set_rar_generic R (rar_used_count (addr_ctrl hw)) addr vmdq IXGBE_RAH_AV hw) (\<lambda>(_, hw1).
             Inr (upd_ctrl (\<lambda>a. a\<lparr>rar_used_count := rar_used_count a + 1\<rparr>) hw1))
        else Inr (upd_ctrl (\<lambda>a. a\<lparr>overflow_promisc := overflow_promisc a + 1\<rparr>) hw))"

definition ixgbe_update_uc_addr_list_generic :: "'h device \<Rightarrow> (u8 list \<times> u32) list \<Rightarrow> 'h flt_hw \<Rightarrow> fault + int \<times> 'h flt_hw" where
  "ixgbe_update_uc_addr_list_generic R addrs hw =
     (let old = overflow_promisc (addr_ctrl hw);
          in_use = rar_used_count (addr_ctrl hw) - 1;
          hw1 = upd_ctrl (\<lambda>a. a\<lparr>rar_used_count := rar_used_count a - in_use, overflow_promisc := 0\<rparr>) hw;
          hw2 = zero_rars R [1..<unat in_use + 1] hw1
      in rbind (fold (\<lambda>av r. rbind r (ixgbe_add_uc_addr R av)) addrs (Inr hw2)) (\<lambda>hw3.
         Inr (0,
           if overflow_promisc (addr_ctrl hw3) \<noteq> 0
           then (if old = 0 \<and> \<not> user_set_promisc (addr_ctrl hw3) then rmw R IXGBE_FCTRL (\<lambda>r. r OR IXGBE_FCTRL_UPE) hw3 else hw3)
           else (if old \<noteq> 0 \<and> \<not> user_set_promisc (addr_ctrl hw3) then rmw R IXGBE_FCTRL (\<lambda>r. r AND NOT IXGBE_FCTRL_UPE) hw3 else hw3))))"

text \<open>
  The search of \<open>ixgbe_insert_mac_addr_generic\<close> from register \<open>rar\<close> on: the register that holds the address,
  or the first empty one seen.
\<close>

fun rar_search :: "'h device \<Rightarrow> u8 list \<Rightarrow> nat \<Rightarrow> u32 \<Rightarrow> u32 option \<Rightarrow> 'h flt_hw \<Rightarrow> u32 option \<times> u32 option \<times> 'h flt_hw" where
  "rar_search R addr 0 rar free hw = (None, free, hw)"
| "rar_search R addr (Suc n) rar free hw =
     (case IXGBE_READ_REG R (IXGBE_RAH rar) hw of (rar_high, hw1) \<Rightarrow>
        if IXGBE_RAH_AV AND rar_high = 0 \<and> free = None then rar_search R addr n (rar + 1) (Some rar) hw1
        else if rar_high AND 0xFFFF = addr_high addr
        then (case IXGBE_READ_REG R (IXGBE_RAL rar) hw1 of (rar_low, hw2) \<Rightarrow>
                if rar_low = addr_low addr then (Some rar, free, hw2) else rar_search R addr n (rar + 1) free hw2)
        else rar_search R addr n (rar + 1) free hw1)"

definition ixgbe_insert_mac_addr_generic :: "'h device \<Rightarrow> u8 list \<Rightarrow> u32 \<Rightarrow> 'h flt_hw \<Rightarrow> fault + int \<times> 'h flt_hw" where
  "ixgbe_insert_mac_addr_generic R addr vmdq hw =
     (case rar_search R addr (unat (rar_highwater hw)) 0 None hw of (found, free, hw1) \<Rightarrow>
        rbind
          (case found of
             Some rar \<Rightarrow> rbind (call_set_vmdq R rar vmdq hw1) (\<lambda>(_, hw2). Inr (rar, hw2))
           | None \<Rightarrow>
               (case free of
                  Some rar \<Rightarrow> rbind (ixgbe_set_rar_generic R rar addr vmdq IXGBE_RAH_AV hw1) (\<lambda>(_, hw2). Inr (rar, hw2))
                | None \<Rightarrow>
                    rbind (ixgbe_set_rar_generic R (rar_highwater hw1) addr vmdq IXGBE_RAH_AV hw1) (\<lambda>(_, hw2).
                    Inr (rar_highwater hw1, hw2\<lparr>rar_highwater := rar_highwater hw2 + 1\<rparr>))))
          (\<lambda>(rar, hw2).
           rbind (if rar = 0 then call_clear_vmdq R rar 0 hw2 else Inr (0, hw2)) (\<lambda>(_, hw3). Inr (sint rar, hw3))))"

section \<open>Multicast table\<close>

definition ixgbe_mta_vector :: "int \<Rightarrow> u8 list \<Rightarrow> u32" where
  "ixgbe_mta_vector filter_type a =
     (let lo = ucast (a ! 4) :: u32; hi = ucast (a ! 5) :: u32;
          vector = (if filter_type = 0 then drop_bit 4 lo OR push_bit 4 hi
                    else if filter_type = 1 then drop_bit 3 lo OR push_bit 5 hi
                    else if filter_type = 2 then drop_bit 2 lo OR push_bit 6 hi
                    else if filter_type = 3 then lo OR push_bit 8 hi
                    else 0)
      in vector AND 0xFFF)"

definition ixgbe_set_mta :: "u8 list \<Rightarrow> 'h flt_hw \<Rightarrow> 'h flt_hw" where
  "ixgbe_set_mta a hw =
     (let vector = ixgbe_mta_vector (mc_filter_type hw) a;
          vector_reg = unat (drop_bit 5 vector AND 0x7F);
          vector_bit = vector AND 0x1F;
          hw1 = upd_ctrl (\<lambda>c. c\<lparr>mta_in_use := mta_in_use c + 1\<rparr>) hw
      in hw1\<lparr>mta_shadow := (mta_shadow hw1)[vector_reg := mta_shadow hw1 ! vector_reg OR bit_of vector_bit]\<rparr>)"

definition ixgbe_update_mc_addr_list_generic :: "'h device \<Rightarrow> u8 list list \<Rightarrow> bool \<Rightarrow> 'h flt_hw \<Rightarrow> int \<times> 'h flt_hw" where
  "ixgbe_update_mc_addr_list_generic R addrs clear hw =
     (let hw1 = upd_ctrl (\<lambda>c. c\<lparr>num_mc_addrs := of_nat (length addrs), mta_in_use := 0\<rparr>) hw;
          hw2 = (if clear then hw1\<lparr>mta_shadow := replicate 128 0\<rparr> else hw1);
          hw3 = fold ixgbe_set_mta addrs hw2;
          hw4 = for_regs (unat (mcft_size hw3)) (\<lambda>i. IXGBE_WRITE_REG R (IXGBE_MTA i) (mta_shadow hw3 ! i)) hw3
      in (0, if mta_in_use (addr_ctrl hw4) > 0
             then IXGBE_WRITE_REG R IXGBE_MCSTCTRL (IXGBE_MCSTCTRL_MFE OR of_int (mc_filter_type hw4)) hw4 else hw4))"

definition ixgbe_enable_mc_generic :: "'h device \<Rightarrow> 'h flt_hw \<Rightarrow> int \<times> 'h flt_hw" where
  "ixgbe_enable_mc_generic R hw =
     (0, if mta_in_use (addr_ctrl hw) > 0
         then IXGBE_WRITE_REG R IXGBE_MCSTCTRL (IXGBE_MCSTCTRL_MFE OR of_int (mc_filter_type hw)) hw else hw)"

definition ixgbe_disable_mc_generic :: "'h device \<Rightarrow> 'h flt_hw \<Rightarrow> int \<times> 'h flt_hw" where
  "ixgbe_disable_mc_generic R hw =
     (0, if mta_in_use (addr_ctrl hw) > 0 then IXGBE_WRITE_REG R IXGBE_MCSTCTRL (of_int (mc_filter_type hw)) hw else hw)"

section \<open>VLAN tables\<close>

definition ixgbe_set_vfta_82598 :: "'h device \<Rightarrow> u32 \<Rightarrow> u32 \<Rightarrow> bool \<Rightarrow> ('h, 'z) ixgbe_hw_scheme \<Rightarrow> int \<times> ('h, 'z) ixgbe_hw_scheme" where
  "ixgbe_set_vfta_82598 R vlan vind vlan_on hw =
     (if vlan > 4095 then (IXGBE_ERR_PARAM, hw)
      else
        (let regindex = unat (drop_bit 5 vlan AND 0x7F);
             vftabyte = unat (drop_bit 3 vlan AND 3);
             nibble = unat (push_bit 2 (vlan AND 7));
             hw1 = rmw R (IXGBE_VFTAVIND vftabyte regindex) (\<lambda>b. (b AND NOT (push_bit nibble 0xF)) OR push_bit nibble vind) hw
         in (0, rmw R (IXGBE_VFTA regindex)
                  (\<lambda>b. if vlan_on then b OR bit_of (vlan AND 0x1F) else b AND NOT (bit_of (vlan AND 0x1F))) hw1)))"

definition ixgbe_clear_vfta_82598 :: "'h device \<Rightarrow> 'h flt_hw \<Rightarrow> int \<times> 'h flt_hw" where
  "ixgbe_clear_vfta_82598 R hw =
     (let hw1 = for_regs (unat (vft_size hw)) (\<lambda>i. IXGBE_WRITE_REG R (IXGBE_VFTA i) 0) hw
      in (0, for_regs 4 (\<lambda>j. for_regs (unat (vft_size hw)) (\<lambda>i. IXGBE_WRITE_REG R (IXGBE_VFTAVIND j i) 0)) hw1))"

text \<open>The loop of \<open>ixgbe_find_vlvf_slot\<close> over the entries from \<open>i\<close> on.\<close>

fun vlvf_search :: "'h device \<Rightarrow> u32 \<Rightarrow> nat \<Rightarrow> nat \<Rightarrow> nat \<Rightarrow> ('h, 'z) ixgbe_hw_scheme \<Rightarrow> nat option \<times> nat \<times> ('h, 'z) ixgbe_hw_scheme" where
  "vlvf_search R vlan 0 i free hw = (None, free, hw)"
| "vlvf_search R vlan (Suc n) i free hw =
     (case IXGBE_READ_REG R (IXGBE_VLVF i) hw of (bits, hw1) \<Rightarrow>
        if bits = 0 \<and> free = 0 then vlvf_search R vlan n (Suc i) i hw1
        else if bits AND 0xFFF = vlan then (Some i, free, hw1)
        else vlvf_search R vlan n (Suc i) free hw1)"

definition ixgbe_find_vlvf_slot :: "'h device \<Rightarrow> u32 \<Rightarrow> ('h, 'z) ixgbe_hw_scheme \<Rightarrow> int \<times> ('h, 'z) ixgbe_hw_scheme" where
  "ixgbe_find_vlvf_slot R vlan hw =
     (if vlan = 0 then (0, hw)
      else (case vlvf_search R vlan (IXGBE_VLVF_ENTRIES - 1) 1 0 hw of (found, free, hw1) \<Rightarrow>
              case found of Some i \<Rightarrow> (int i, hw1)
              | None \<Rightarrow> if free \<noteq> 0 then (int free, hw1) else (IXGBE_ERR_NO_SPACE, hw1)))"

text \<open>Setting and clearing a pool of an entry; the result \<open>bits\<close> is what the code tests afterwards.\<close>

definition vlvfb_on :: "'h device \<Rightarrow> nat \<Rightarrow> u32 \<Rightarrow> ('h, 'z) ixgbe_hw_scheme \<Rightarrow> u32 \<times> ('h, 'z) ixgbe_hw_scheme" where
  "vlvfb_on R i vind hw =
     (if vind < 32 then
        (case IXGBE_READ_REG R (IXGBE_VLVFB (i * 2)) hw of (bits, hw1) \<Rightarrow>
           (bits OR bit_of vind, IXGBE_WRITE_REG R (IXGBE_VLVFB (i * 2)) (bits OR bit_of vind) hw1))
      else
        (case IXGBE_READ_REG R (IXGBE_VLVFB (i * 2 + 1)) hw of (bits, hw1) \<Rightarrow>
           (bits OR bit_of (vind - 32), IXGBE_WRITE_REG R (IXGBE_VLVFB (i * 2 + 1)) (bits OR bit_of (vind - 32)) hw1)))"

definition vlvfb_off :: "'h device \<Rightarrow> nat \<Rightarrow> u32 \<Rightarrow> ('h, 'z) ixgbe_hw_scheme \<Rightarrow> u32 \<times> ('h, 'z) ixgbe_hw_scheme" where
  "vlvfb_off R i vind hw =
     (if vind < 32 then
        (case IXGBE_READ_REG R (IXGBE_VLVFB (i * 2)) hw of (b, hw1) \<Rightarrow>
         let bits = b AND NOT (bit_of vind); hw2 = IXGBE_WRITE_REG R (IXGBE_VLVFB (i * 2)) bits hw1 in
         case IXGBE_READ_REG R (IXGBE_VLVFB (i * 2 + 1)) hw2 of (c, hw3) \<Rightarrow> (bits OR c, hw3))
      else
        (case IXGBE_READ_REG R (IXGBE_VLVFB (i * 2 + 1)) hw of (b, hw1) \<Rightarrow>
         let bits = b AND NOT (bit_of (vind - 32)); hw2 = IXGBE_WRITE_REG R (IXGBE_VLVFB (i * 2 + 1)) bits hw1 in
         case IXGBE_READ_REG R (IXGBE_VLVFB (i * 2)) hw2 of (c, hw3) \<Rightarrow> (bits OR c, hw3)))"

text \<open>The last argument and the middle result are \<open>*vfta_changed\<close>.\<close>

definition ixgbe_set_vlvf_generic ::
  "'h device \<Rightarrow> u32 \<Rightarrow> u32 \<Rightarrow> bool \<Rightarrow> bool \<Rightarrow> ('h, 'z) ixgbe_hw_scheme \<Rightarrow> int \<times> bool \<times> ('h, 'z) ixgbe_hw_scheme" where
  "ixgbe_set_vlvf_generic R vlan vind vlan_on changed hw =
     (if vlan > 4095 then (IXGBE_ERR_PARAM, changed, hw)
      else case IXGBE_READ_REG R IXGBE_VT_CTL hw of (vt, hw1) \<Rightarrow>
        if vt AND IXGBE_VT_CTL_VT_ENABLE = 0 then (0, changed, hw1)
        else case ixgbe_find_vlvf_slot R vlan hw1 of (slot, hw2) \<Rightarrow>
          if slot < 0 then (slot, changed, hw2)
          else case (if vlan_on then vlvfb_on R (nat slot) vind hw2 else vlvfb_off R (nat slot) vind hw2) of (bits, hw3) \<Rightarrow>
            if bits \<noteq> 0
            then (0, if \<not> vlan_on then False else changed, IXGBE_WRITE_REG R (IXGBE_VLVF (nat slot)) (IXGBE_VLVF_VIEN OR vlan) hw3)
            else (0, changed, IXGBE_WRITE_REG R (IXGBE_VLVF (nat slot)) 0 hw3))"

text \<open>In the ESX build a failure of the second part is not returned.\<close>

definition ixgbe_set_vfta_generic :: "'h device \<Rightarrow> u32 \<Rightarrow> u32 \<Rightarrow> bool \<Rightarrow> ('h, 'z) ixgbe_hw_scheme \<Rightarrow> int \<times> ('h, 'z) ixgbe_hw_scheme" where
  "ixgbe_set_vfta_generic R vlan vind vlan_on hw =
     (if vlan > 4095 then (IXGBE_ERR_PARAM, hw)
      else
        (let regindex = unat (drop_bit 5 vlan AND 0x7F); targetbit = bit_of (vlan AND 0x1F) in
         case IXGBE_READ_REG R (IXGBE_VFTA regindex) hw of (vfta, hw1) \<Rightarrow>
         let vfta' = (if vlan_on then vfta OR targetbit else vfta AND NOT targetbit);
             changed = (if vlan_on then vfta AND targetbit = 0 else vfta AND targetbit \<noteq> 0)
         in case ixgbe_set_vlvf_generic R vlan vind vlan_on changed hw1 of (_, changed', hw2) \<Rightarrow>
            (0, if changed' then IXGBE_WRITE_REG R (IXGBE_VFTA regindex) vfta' hw2 else hw2)))"

definition ixgbe_clear_vfta_generic :: "'h device \<Rightarrow> 'h flt_hw \<Rightarrow> int \<times> 'h flt_hw" where
  "ixgbe_clear_vfta_generic R hw =
     (let hw1 = for_regs (unat (vft_size hw)) (\<lambda>i. IXGBE_WRITE_REG R (IXGBE_VFTA i) 0) hw
      in (0, for_regs IXGBE_VLVF_ENTRIES (\<lambda>i hw. IXGBE_WRITE_REG R (IXGBE_VLVFB (i * 2 + 1)) 0
               (IXGBE_WRITE_REG R (IXGBE_VLVFB (i * 2)) 0 (IXGBE_WRITE_REG R (IXGBE_VLVF i) 0 hw))) hw1))"

section \<open>Anti-spoofing\<close>

text \<open>\<open>pf\<close> and \<open>vf\<close> are pool numbers, so not negative.\<close>

definition ixgbe_set_mac_anti_spoofing :: "'h device \<Rightarrow> bool \<Rightarrow> nat \<Rightarrow> ('h, 'z) ixgbe_hw_scheme \<Rightarrow> ('h, 'z) ixgbe_hw_scheme" where
  "ixgbe_set_mac_anti_spoofing R enable pf hw =
     (if mac_type hw = ixgbe_mac_82598EB then hw
      else
        (let target = pf div 8; v = (if enable then 0xFF else 0) :: u32;
             hw1 = for_regs target (\<lambda>j. IXGBE_WRITE_REG R (IXGBE_PFVFSPOOF j) v) hw;
             hw2 = IXGBE_WRITE_REG R (IXGBE_PFVFSPOOF target) (v AND (push_bit (pf mod 8) 1 - 1)) hw1
         in fold (\<lambda>j. IXGBE_WRITE_REG R (IXGBE_PFVFSPOOF j) 0) [target + 1..<8] hw2))"

definition ixgbe_set_vlan_anti_spoofing :: "'h device \<Rightarrow> bool \<Rightarrow> nat \<Rightarrow> ('h, 'z) ixgbe_hw_scheme \<Rightarrow> ('h, 'z) ixgbe_hw_scheme" where
  "ixgbe_set_vlan_anti_spoofing R enable vf hw =
     (if mac_type hw = ixgbe_mac_82598EB then hw
      else rmw R (IXGBE_PFVFSPOOF (vf div 8))
             (\<lambda>r. if enable then r OR push_bit (vf mod 8 + 8) 1 else r AND NOT (push_bit (vf mod 8 + 8) 1)) hw)"

end
