(* ===== verification/MacTable.thy ===== *)
theory MacTable
  imports HwFilters
begin

text \<open>
  The table of receive addresses an adapter keeps (\<open>mac_table\<close>, \<open>ixgbe_main.c\<close>) and its operations: each changes
  the table and then brings the receive address registers up to date.
\<close>

abbreviation (input) IXGBE_MAC_STATE_DEFAULT :: u16 where "IXGBE_MAC_STATE_DEFAULT \<equiv> 1"
abbreviation (input) IXGBE_MAC_STATE_MODIFIED :: u16 where "IXGBE_MAC_STATE_MODIFIED \<equiv> 2"
abbreviation (input) IXGBE_MAC_STATE_IN_USE :: u16 where "IXGBE_MAC_STATE_IN_USE \<equiv> 4"
abbreviation (input) EINVAL :: int where "EINVAL \<equiv> 22"
abbreviation (input) ENOMEM :: int where "ENOMEM \<equiv> 12"

record ixgbe_mac_addr =
  mt_addr :: "u8 list"
  mt_queue :: u16
  mt_state :: u16

record 'h mac_adapter =
  mt_hw :: "'h flt_hw"
  mac_table :: "ixgbe_mac_addr list"

abbreviation rars :: "('h, 'z) mac_adapter_scheme \<Rightarrow> nat" where
  "rars ad \<equiv> unat (num_rar_entries (mt_hw ad))"

definition is_zero_ether_addr :: "u8 list \<Rightarrow> bool" where
  "is_zero_ether_addr a \<longleftrightarrow> (((((a ! 0 OR a ! 1) OR a ! 2) OR a ! 3) OR a ! 4) OR a ! 5) = 0"

definition compare_ether_addr :: "u8 list \<Rightarrow> u8 list \<Rightarrow> bool" where
  "compare_ether_addr a b \<longleftrightarrow> take 6 a \<noteq> take 6 b"

definition zero_ether_addr :: "u8 list" where
  "zero_ether_addr = replicate 6 0"

definition entry_in_use :: "ixgbe_mac_addr \<Rightarrow> bool" where
  "entry_in_use e \<longleftrightarrow> mt_state e AND IXGBE_MAC_STATE_IN_USE \<noteq> 0"

definition entry_modified :: "ixgbe_mac_addr \<Rightarrow> bool" where
  "entry_modified e \<longleftrightarrow> mt_state e AND IXGBE_MAC_STATE_MODIFIED \<noteq> 0"

text \<open>An access to \<open>mac_table[i]\<close>; the array has as many entries as were allocated.\<close>

definition mac_entry :: "nat \<Rightarrow> ('h, 'z) mac_adapter_scheme \<Rightarrow> fault + ixgbe_mac_addr" where
  "mac_entry i ad = (if i < length (mac_table ad) then Inr (mac_table ad ! i) else Inl OutOfBounds)"

definition put_entry :: "nat \<Rightarrow> ixgbe_mac_addr \<Rightarrow> ('h, 'z) mac_adapter_scheme \<Rightarrow> ('h, 'z) mac_adapter_scheme" where
  "put_entry i e ad = ad\<lparr>mac_table := (mac_table ad)[i := e]\<rparr>"

text \<open>\<open>set_rar\<close> or \<open>clear_rar\<close> of one entry; their status is not looked at.\<close>

definition program_rar :: "'h device \<Rightarrow> nat \<Rightarrow> ixgbe_mac_addr \<Rightarrow> ('h, 'z) mac_adapter_scheme \<Rightarrow> fault + ('h, 'z) mac_adapter_scheme" where
  "program_rar R i e ad =
     rbind (if entry_in_use e then ixgbe_set_rar_generic R (of_nat i) (mt_addr e) (ucast (mt_queue e)) IXGBE_RAH_AV (mt_hw ad)
            else ixgbe_clear_rar_generic R (of_nat i) (mt_hw ad))
       (\<lambda>(_, hw). Inr (ad\<lparr>mt_hw := hw\<rparr>))"

definition ixgbe_full_sync_mac_table :: "'h device \<Rightarrow> ('h, 'z) mac_adapter_scheme \<Rightarrow> fault + ('h, 'z) mac_adapter_scheme" where
  "ixgbe_full_sync_mac_table R ad =
     fold (\<lambda>i r. rbind r (\<lambda>ad. rbind (mac_entry i ad) (\<lambda>e. program_rar R i e ad))) [0..<rars ad] (Inr ad)"

definition sync_entry :: "'h device \<Rightarrow> nat \<Rightarrow> ('h, 'z) mac_adapter_scheme \<Rightarrow> fault + ('h, 'z) mac_adapter_scheme" where
  "sync_entry R i ad =
     rbind (mac_entry i ad) (\<lambda>e.
       if entry_modified e
       then rbind (program_rar R i e ad) (\<lambda>ad1. Inr (put_entry i (e\<lparr>mt_state := mt_state e AND NOT IXGBE_MAC_STATE_MODIFIED\<rparr>) ad1))
       else Inr ad)"

definition ixgbe_sync_mac_table :: "'h device \<Rightarrow> ('h, 'z) mac_adapter_scheme \<Rightarrow> fault + ('h, 'z) mac_adapter_scheme" where
  "ixgbe_sync_mac_table R ad = fold (\<lambda>i r. rbind r (sync_entry R i)) [0..<rars ad] (Inr ad)"

definition ixgbe_available_rars :: "('h, 'z) mac_adapter_scheme \<Rightarrow> fault + int" where
  "ixgbe_available_rars ad =
     fold (\<lambda>i r. rbind r (\<lambda>count. rbind (mac_entry i ad) (\<lambda>e. Inr (if mt_state e = 0 then count + 1 else count)))) [0..<rars ad] (Inr 0)"

text \<open>The loop of \<open>ixgbe_add_mac_filter\<close> over the \<open>n\<close> entries from \<open>i\<close> on.\<close>

fun add_mac_from :: "'h device \<Rightarrow> u8 list \<Rightarrow> u16 \<Rightarrow> nat \<Rightarrow> nat \<Rightarrow> ('h, 'z) mac_adapter_scheme \<Rightarrow> fault + int \<times> ('h, 'z) mac_adapter_scheme" where
  "add_mac_from R addr queue 0 i ad = Inr (- ENOMEM, ad)"
| "add_mac_from R addr queue (Suc n) i ad =
     rbind (mac_entry i ad) (\<lambda>e.
       if entry_in_use e then
         (if \<not> compare_ether_addr addr (mt_addr e)
          then Inr (if mt_queue e = queue then int i else - EINVAL, ad)
          else add_mac_from R addr queue n (Suc i) ad)
       else
         rbind (ixgbe_sync_mac_table R (put_entry i
                  \<lparr>mt_addr = take 6 addr, mt_queue = queue,
                   mt_state = mt_state e OR (IXGBE_MAC_STATE_MODIFIED OR IXGBE_MAC_STATE_IN_USE)\<rparr> ad))
           (\<lambda>ad1. Inr (int i, ad1)))"

definition ixgbe_add_mac_filter :: "'h device \<Rightarrow> u8 list \<Rightarrow> u16 \<Rightarrow> ('h, 'z) mac_adapter_scheme \<Rightarrow> fault + int \<times> ('h, 'z) mac_adapter_scheme" where
  "ixgbe_add_mac_filter R addr queue ad =
     (if is_zero_ether_addr addr then Inr (- EINVAL, ad) else add_mac_from R addr queue (rars ad) 0 ad)"

text \<open>What removal leaves in an entry.\<close>

definition removed_entry :: "ixgbe_mac_addr \<Rightarrow> ixgbe_mac_addr" where
  "removed_entry e =
     \<lparr>mt_addr = zero_ether_addr, mt_queue = 0,
      mt_state = (mt_state e OR IXGBE_MAC_STATE_MODIFIED) AND NOT IXGBE_MAC_STATE_IN_USE\<rparr>"

definition ixgbe_flush_sw_mac_table :: "'h device \<Rightarrow> ('h, 'z) mac_adapter_scheme \<Rightarrow> fault + ('h, 'z) mac_adapter_scheme" where
  "ixgbe_flush_sw_mac_table R ad =
     rbind (fold (\<lambda>i r. rbind r (\<lambda>ad. rbind (mac_entry i ad) (\<lambda>e. Inr (put_entry i (removed_entry e) ad)))) [0..<rars ad] (Inr ad))
       (ixgbe_sync_mac_table R)"

text \<open>The index is an \<open>int\<close> in C; a negative one is outside the array too.\<close>

definition ixgbe_del_mac_filter_by_index :: "'h device \<Rightarrow> nat \<Rightarrow> ('h, 'z) mac_adapter_scheme \<Rightarrow> fault + ('h, 'z) mac_adapter_scheme" where
  "ixgbe_del_mac_filter_by_index R index ad =
     rbind (mac_entry index ad) (\<lambda>e. ixgbe_sync_mac_table R (put_entry index (removed_entry e) ad))"

fun del_mac_from :: "'h device \<Rightarrow> u8 list \<Rightarrow> u16 \<Rightarrow> nat \<Rightarrow> nat \<Rightarrow> ('h, 'z) mac_adapter_scheme \<Rightarrow> fault + int \<times> ('h, 'z) mac_adapter_scheme" where
  "del_mac_from R addr queue 0 i ad = Inr (- ENOMEM, ad)"
| "del_mac_from R addr queue (Suc n) i ad =
     rbind (mac_entry i ad) (\<lambda>e.
       if \<not> compare_ether_addr addr (mt_addr e) \<and> mt_queue e = queue
       then rbind (ixgbe_sync_mac_table R (put_entry i (removed_entry e) ad)) (\<lambda>ad1. Inr (0, ad1))
       else del_mac_from R addr queue n (Suc i) ad)"

definition ixgbe_del_mac_filter :: "'h device \<Rightarrow> u8 list \<Rightarrow> u16 \<Rightarrow> ('h, 'z) mac_adapter_scheme \<Rightarrow> fault + int \<times> ('h, 'z) mac_adapter_scheme" where
  "ixgbe_del_mac_filter R addr queue ad =
     (if is_zero_ether_addr addr then Inr (- EINVAL, ad) else del_mac_from R addr queue (rars ad) 0 ad)"

text \<open>
  The default entry, written after a flush by \<open>ixgbe_reset\<close> (which keeps the address) and at probe.
\<close>

definition set_default_entry :: "'h device \<Rightarrow> u8 list \<Rightarrow> u16 \<Rightarrow> ('h, 'z) mac_adapter_scheme \<Rightarrow> fault + ('h, 'z) mac_adapter_scheme" where
  "set_default_entry R addr queue ad =
     rbind (mac_entry 0 ad) (\<lambda>_.
     let e = \<lparr>mt_addr = addr, mt_queue = queue, mt_state = IXGBE_MAC_STATE_DEFAULT OR IXGBE_MAC_STATE_IN_USE\<rparr>
     in program_rar R 0 e (put_entry 0 e ad))"

definition reset_mac_table :: "'h device \<Rightarrow> u16 \<Rightarrow> ('h, 'z) mac_adapter_scheme \<Rightarrow> fault + ('h, 'z) mac_adapter_scheme" where
  "reset_mac_table R queue ad =
     rbind (mac_entry 0 ad) (\<lambda>old.
     rbind (ixgbe_flush_sw_mac_table R ad) (\<lambda>ad1. set_default_entry R (mt_addr old) queue ad1))"

text \<open>
  \<open>ixgbe_set_vf_mac\<close>: the filter of the old address of a virtual function is replaced; the result is the
  status and the address remembered for the function.
\<close>

definition ixgbe_set_vf_mac ::
  "'h device \<Rightarrow> u16 \<Rightarrow> u8 list \<Rightarrow> u8 list \<Rightarrow> ('h, 'z) mac_adapter_scheme \<Rightarrow> fault + int \<times> u8 list \<times> ('h, 'z) mac_adapter_scheme" where
  "ixgbe_set_vf_mac R vf old_addr addr ad =
     rbind (ixgbe_del_mac_filter R old_addr vf ad) (\<lambda>(_, ad1).
     rbind (ixgbe_add_mac_filter R addr vf ad1) (\<lambda>(r, ad2).
     Inr (r, if r \<ge> 0 then take 6 addr else zero_ether_addr, ad2)))"

end
