(* ===== verification/NetQueue.thy ===== *)
theory NetQueue
  imports MacTable
begin

text \<open>
  The queues the ESX host takes from the driver (\<open>ixgbe_vmdq.c\<close>): receive and transmit queues, and the filters
  that steer packets to a receive queue. A call returns its status with what it writes to its arguments; a
  ring pointer beyond the rings of the adapter is NULL.
\<close>

section \<open>State\<close>

abbreviation (input) VMKNETDDI_QUEUEOPS_OK :: int where "VMKNETDDI_QUEUEOPS_OK \<equiv> 0"
abbreviation (input) VMKNETDDI_QUEUEOPS_ERR :: int where "VMKNETDDI_QUEUEOPS_ERR \<equiv> - 1"
abbreviation (input) FILTER_MACADDR :: u32 where "FILTER_MACADDR \<equiv> 1"
abbreviation (input) FILTER_VLANMACADDR :: u32 where "FILTER_VLANMACADDR \<equiv> 4"
abbreviation (input) QUEUE_TYPE_RX :: u32 where "QUEUE_TYPE_RX \<equiv> 1"
abbreviation (input) QUEUE_TYPE_TX :: u32 where "QUEUE_TYPE_TX \<equiv> 2"
abbreviation (input) QUEUE_FEAT_LRO :: u32 where "QUEUE_FEAT_LRO \<equiv> 1"
abbreviation (input) QUEUE_FEAT_PAIR :: u32 where "QUEUE_FEAT_PAIR \<equiv> 2"
abbreviation (input) IXGBE_ESX_FEAT_RSS :: u32 where "IXGBE_ESX_FEAT_RSS \<equiv> 4"

record nq_ring =
  rg_reg_idx :: u8
  rg_buf_len :: u16
  rg_allocated :: bool
  rg_rsc :: bool
  rg_rss :: bool
  rg_cna :: bool
  rg_active :: u8

text \<open>The counts that are \<open>int\<close> in C are not negative; those used as bounds of unsigned comparisons are words.\<close>

record 'h nq_adapter = "'h mac_adapter" +
  rx_rings :: "nq_ring list"
  tx_rings :: "nq_ring list"
  num_rx_queues :: int
  num_tx_queues :: nat
  num_rx_pools :: u32
  rx_per_pool :: u32
  rx_queues_allocated :: u32
  tx_queues_allocated :: u32
  nq_num_vfs :: u32
  netdev_cna :: bool
  rss_limit :: u16
  rss_indices :: u16
  fcoe_indices :: u16
  vmdq_offset :: u16
  rsc_enabled :: bool
  hw_perm_addr :: "u8 list"

record nq_filter =
  nf_class :: u32
  nf_mac :: "u8 list"
  nf_vlan :: u16

abbreviation nq_mac :: "('h, 'z) nq_adapter_scheme \<Rightarrow> ixgbe_mac_type" where
  "nq_mac ad \<equiv> mac_type (mt_hw ad)"

abbreviation is_82599_X540 :: "('h, 'z) nq_adapter_scheme \<Rightarrow> bool" where
  "is_82599_X540 ad \<equiv> nq_mac ad = ixgbe_mac_82599EB \<or> nq_mac ad = ixgbe_mac_X540"

definition on_hw :: "('h flt_hw \<Rightarrow> 'h flt_hw) \<Rightarrow> ('h, 'z) nq_adapter_scheme \<Rightarrow> ('h, 'z) nq_adapter_scheme" where
  "on_hw f ad = ad\<lparr>mt_hw := f (mt_hw ad)\<rparr>"

definition rx_ring :: "nat \<Rightarrow> ('h, 'z) nq_adapter_scheme \<Rightarrow> fault + nq_ring" where
  "rx_ring q ad = (if q < length (rx_rings ad) then Inr (rx_rings ad ! q) else Inl NullDeref)"

definition put_rx :: "nat \<Rightarrow> nq_ring \<Rightarrow> ('h, 'z) nq_adapter_scheme \<Rightarrow> ('h, 'z) nq_adapter_scheme" where
  "put_rx q r ad = ad\<lparr>rx_rings := (rx_rings ad)[q := r]\<rparr>"

definition tx_ring :: "nat \<Rightarrow> ('h, 'z) nq_adapter_scheme \<Rightarrow> fault + nq_ring" where
  "tx_ring q ad = (if q < length (tx_rings ad) then Inr (tx_rings ad ! q) else Inl NullDeref)"

definition put_tx :: "nat \<Rightarrow> nq_ring \<Rightarrow> ('h, 'z) nq_adapter_scheme \<Rightarrow> ('h, 'z) nq_adapter_scheme" where
  "put_tx q r ad = ad\<lparr>tx_rings := (tx_rings ad)[q := r]\<rparr>"

section \<open>Queue identifiers\<close>

definition MK_RX_QUEUEID :: "u32 \<Rightarrow> u32" where
  "MK_RX_QUEUEID n = push_bit 16 QUEUE_TYPE_RX OR (n AND 0xFFFF)"

definition MK_TX_QUEUEID :: "u32 \<Rightarrow> u32" where
  "MK_TX_QUEUEID n = push_bit 16 QUEUE_TYPE_TX OR (n AND 0xFFFF)"

definition QUEUEID_VAL :: "u32 \<Rightarrow> u16" where
  "QUEUEID_VAL cid = ucast (cid AND 0xFFFF)"

definition IS_RX_QUEUEID :: "u32 \<Rightarrow> bool" where
  "IS_RX_QUEUEID n \<longleftrightarrow> n AND 0x00FF0000 = push_bit 16 QUEUE_TYPE_RX"

definition IS_TX_QUEUEID :: "u32 \<Rightarrow> bool" where
  "IS_TX_QUEUEID n \<longleftrightarrow> n AND 0x00FF0000 = push_bit 16 QUEUE_TYPE_TX"

definition VMDQ_P :: "u16 \<Rightarrow> ('h, 'z) nq_adapter_scheme \<Rightarrow> u32" where
  "VMDQ_P p ad = ucast p + ucast (vmdq_offset ad)"

definition base_queue :: "u32 \<Rightarrow> ('h, 'z) nq_adapter_scheme \<Rightarrow> nat" where
  "base_queue pool ad = unat (pool * rx_per_pool ad)"

section \<open>Limits and features\<close>

definition ixgbe_max_filters_per_device :: "('h, 'z) nq_adapter_scheme \<Rightarrow> int" where
  "ixgbe_max_filters_per_device ad = sint ((num_rar_entries (mt_hw ad) - 1) - nq_num_vfs ad)"

definition ixgbe_max_filters_per_pool :: "('h, 'z) nq_adapter_scheme \<Rightarrow> int" where
  "ixgbe_max_filters_per_pool ad =
     (if nq_mac ad = ixgbe_mac_82598EB then 1
      else if num_rx_pools ad > 1 then sint (((num_rar_entries (mt_hw ad) - 1) - nq_num_vfs ad) div (num_rx_pools ad - 1))
      else ixgbe_max_filters_per_device ad)"

definition ixgbe_get_netq_count :: "('h, 'z) nq_adapter_scheme \<Rightarrow> int" where
  "ixgbe_get_netq_count ad =
     (if netdev_cna ad then uint (fcoe_indices ad)
      else max ((num_rx_queues ad - uint (fcoe_indices ad) - 1) - (if rss_limit ad > 1 then uint (rss_indices ad) - 1 else 0)) 0)"

text \<open>The count is stored in 16 bits.\<close>

definition ixgbe_get_queue_count :: "u32 \<Rightarrow> ('h, 'z) nq_adapter_scheme \<Rightarrow> int \<times> u16 option" where
  "ixgbe_get_queue_count ty ad =
     (if ty = QUEUE_TYPE_TX then
        (let c = of_int (if netdev_cna ad then uint (fcoe_indices ad) else max (int (num_tx_queues ad) - uint (fcoe_indices ad) - 1) 0)
         in (VMKNETDDI_QUEUEOPS_OK, Some (if rsc_enabled ad \<and> c > 3 then 3 else c)))
      else if ty = QUEUE_TYPE_RX then (VMKNETDDI_QUEUEOPS_OK, Some (of_int (ixgbe_get_netq_count ad)))
      else (VMKNETDDI_QUEUEOPS_ERR, None))"

definition ixgbe_get_filter_count :: "('h, 'z) nq_adapter_scheme \<Rightarrow> int \<times> u16" where
  "ixgbe_get_filter_count ad = (VMKNETDDI_QUEUEOPS_OK, of_int (ixgbe_max_filters_per_pool ad))"

definition ixgbe_get_supported_feature :: "('h, 'z) nq_adapter_scheme \<Rightarrow> u32" where
  "ixgbe_get_supported_feature ad =
     (if is_82599_X540 ad then
        (QUEUE_FEAT_PAIR OR (if rsc_enabled ad \<and> \<not> netdev_cna ad then QUEUE_FEAT_LRO else 0)) OR
        (if rss_limit ad > 1 then IXGBE_ESX_FEAT_RSS else 0)
      else if nq_mac ad = ixgbe_mac_82598EB then QUEUE_FEAT_PAIR else 0)"

definition ixgbe_get_supported_filter_class :: "('h, 'z) nq_adapter_scheme \<Rightarrow> u32" where
  "ixgbe_get_supported_filter_class ad = (if nq_num_vfs ad \<noteq> 0 then FILTER_VLANMACADDR OR FILTER_MACADDR else FILTER_MACADDR)"

definition ixgbe_get_default_queue :: "u32 \<Rightarrow> int \<times> u32 option" where
  "ixgbe_get_default_queue ty =
     (if ty = QUEUE_TYPE_RX then (VMKNETDDI_QUEUEOPS_OK, Some (MK_RX_QUEUEID 0))
      else if ty = QUEUE_TYPE_TX then (VMKNETDDI_QUEUEOPS_OK, Some (MK_TX_QUEUEID 0))
      else (VMKNETDDI_QUEUEOPS_ERR, None))"

section \<open>Receive side coalescing of a ring\<close>

definition IXGBE_RSCCTL :: "u8 \<Rightarrow> u32" where
  "IXGBE_RSCCTL i = (if i < 64 then 0x0102C + ucast i * 0x40 else 0x0D02C + (ucast i - 64) * 0x40)"

definition ixgbe_configure_rscctl :: "'h device \<Rightarrow> nq_ring \<Rightarrow> 'h flt_hw \<Rightarrow> 'h flt_hw" where
  "ixgbe_configure_rscctl R r hw =
     (if \<not> rg_rsc r then hw
      else rmw R (IXGBE_RSCCTL (rg_reg_idx r))
             (\<lambda>v. (v OR 1) OR (if rg_buf_len r \<le> 4096 then 0x08 else if rg_buf_len r \<le> 8192 then 0x08 else 0x04)) hw)"

text \<open>\<open>ixgbe_clear_rscctl\<close> also takes the mark off the ring.\<close>

definition ixgbe_clear_rscctl :: "'h device \<Rightarrow> nq_ring \<Rightarrow> 'h flt_hw \<Rightarrow> nq_ring \<times> 'h flt_hw" where
  "ixgbe_clear_rscctl R r hw = (r\<lparr>rg_rsc := False\<rparr>, rmw R (IXGBE_RSCCTL (rg_reg_idx r)) (\<lambda>v. v AND NOT 1) hw)"

section \<open>Allocation of queues\<close>

text \<open>The rings of a pool are taken one by one; a ring that gets coalescing is programmed.\<close>

definition take_ring :: "'h device \<Rightarrow> bool \<Rightarrow> nat \<Rightarrow> ('h, 'z) nq_adapter_scheme \<Rightarrow> fault + ('h, 'z) nq_adapter_scheme" where
  "take_ring R give_rsc q ad =
     rbind (rx_ring q ad) (\<lambda>r.
       let r1 = r\<lparr>rg_allocated := True, rg_rsc := (if give_rsc then True else rg_rsc r)\<rparr>;
           ad1 = put_rx q r1 (ad\<lparr>rx_queues_allocated := rx_queues_allocated ad + 1\<rparr>)
       in Inr (if give_rsc then on_hw (ixgbe_configure_rscctl R r1) ad1 else ad1))"

text \<open>
  The loop of \<open>ixgbe_alloc_rx_queue\<close> over the \<open>n\<close> pools from \<open>pool\<close> on. The result is the status, the queue
  identifier and the ring whose \<open>napi\<close> is handed out.
\<close>

fun alloc_rx_from :: "'h device \<Rightarrow> bool \<Rightarrow> nat \<Rightarrow> u32 \<Rightarrow> ('h, 'z) nq_adapter_scheme \<Rightarrow>
    fault + int \<times> (u32 \<times> nat option) option \<times> ('h, 'z) nq_adapter_scheme" where
  "alloc_rx_from R give_rsc 0 pool ad = Inr (VMKNETDDI_QUEUEOPS_ERR, None, ad)"
| "alloc_rx_from R give_rsc (Suc n) pool ad =
     rbind (rx_ring (base_queue pool ad) ad) (\<lambda>r.
       if \<not> rg_allocated r \<and> rg_cna r = netdev_cna ad
       then rbind (fold (\<lambda>q a. rbind a (take_ring R give_rsc q)) [base_queue pool ad..<base_queue pool ad + unat (rx_per_pool ad)] (Inr ad)) (\<lambda>ad1.
            rbind (rx_ring (unat pool) ad1) (\<lambda>_.
            Inr (VMKNETDDI_QUEUEOPS_OK, Some (MK_RX_QUEUEID pool, Some (unat pool)), ad1)))
       else alloc_rx_from R give_rsc n (pool + 1) ad)"

definition ixgbe_alloc_rx_queue :: "'h device \<Rightarrow> u32 \<Rightarrow> ('h, 'z) nq_adapter_scheme \<Rightarrow>
    fault + int \<times> (u32 \<times> nat option) option \<times> ('h, 'z) nq_adapter_scheme" where
  "ixgbe_alloc_rx_queue R feat ad =
     (if rx_queues_allocated ad \<ge> of_int (ixgbe_get_netq_count ad) then Inr (VMKNETDDI_QUEUEOPS_ERR, None, ad)
      else
        (let give_rsc = (feat AND QUEUE_FEAT_LRO \<noteq> 0 \<and> rsc_enabled ad) in
         if feat AND IXGBE_ESX_FEAT_RSS \<noteq> 0 then
           (let n = num_rx_pools ad - 1; b = base_queue n ad in
            rbind (rx_ring b ad) (\<lambda>r.
              if \<not> rg_allocated r
              then Inr (VMKNETDDI_QUEUEOPS_OK, Some (MK_RX_QUEUEID n, None),
                        put_rx b (r\<lparr>rg_allocated := True, rg_rss := True\<rparr>) (ad\<lparr>rx_queues_allocated := rx_queues_allocated ad + 1\<rparr>))
              else alloc_rx_from R give_rsc (unat n - 1) 1 ad))
         else alloc_rx_from R give_rsc (unat (num_rx_pools ad) - 1) 1 ad))"

fun alloc_tx_from :: "nat \<Rightarrow> nat \<Rightarrow> ('h, 'z) nq_adapter_scheme \<Rightarrow> fault + int \<times> (u32 \<times> nat) option \<times> ('h, 'z) nq_adapter_scheme" where
  "alloc_tx_from 0 i ad = Inr (VMKNETDDI_QUEUEOPS_ERR, None, ad)"
| "alloc_tx_from (Suc n) i ad =
     rbind (tx_ring i ad) (\<lambda>r.
       if \<not> rg_allocated r \<and> rg_cna r = netdev_cna ad
       then Inr (VMKNETDDI_QUEUEOPS_OK, Some (MK_TX_QUEUEID (of_nat i), i),
                 put_tx i (r\<lparr>rg_allocated := True\<rparr>) (ad\<lparr>tx_queues_allocated := tx_queues_allocated ad + 1\<rparr>))
       else alloc_tx_from n (Suc i) ad)"

definition ixgbe_alloc_tx_queue :: "('h, 'z) nq_adapter_scheme \<Rightarrow> fault + int \<times> (u32 \<times> nat) option \<times> ('h, 'z) nq_adapter_scheme" where
  "ixgbe_alloc_tx_queue ad =
     (if tx_queues_allocated ad \<ge> of_nat (num_tx_queues ad) then Inr (VMKNETDDI_QUEUEOPS_ERR, None, ad)
      else alloc_tx_from (num_tx_queues ad - 1) 1 ad)"

text \<open>Attributes of \<open>ixgbe_alloc_queue_with_attr\<close>; a null array is the empty list, and the features are cut to 32 bits.\<close>

datatype nq_attr = AttrPrior | AttrFeat u64 | AttrOther

fun ixgbe_alloc_queue_with_attr :: "'h device \<Rightarrow> u32 \<Rightarrow> nq_attr list \<Rightarrow> ('h, 'z) nq_adapter_scheme \<Rightarrow>
    fault + int \<times> (u32 \<times> nat option) option \<times> ('h, 'z) nq_adapter_scheme" where
  "ixgbe_alloc_queue_with_attr R ty [] ad = Inr (VMKNETDDI_QUEUEOPS_ERR, None, ad)"
| "ixgbe_alloc_queue_with_attr R ty (AttrPrior # as) ad = ixgbe_alloc_queue_with_attr R ty as ad"
| "ixgbe_alloc_queue_with_attr R ty (AttrOther # as) ad = Inr (VMKNETDDI_QUEUEOPS_ERR, None, ad)"
| "ixgbe_alloc_queue_with_attr R ty (AttrFeat features # as) ad =
     (let feat = ucast features :: u32; known = (QUEUE_FEAT_LRO OR IXGBE_ESX_FEAT_RSS) OR QUEUE_FEAT_PAIR in
      if feat AND NOT known \<noteq> 0 then Inr (VMKNETDDI_QUEUEOPS_ERR, None, ad)
      else if feat AND known \<noteq> 0
      then (if ty = QUEUE_TYPE_TX then ixgbe_alloc_queue_with_attr R ty as ad else ixgbe_alloc_rx_queue R feat ad)
      else if feat = 0 then ixgbe_alloc_rx_queue R feat ad
      else ixgbe_alloc_queue_with_attr R ty as ad)"

section \<open>Freeing of queues\<close>

definition free_ring :: "'h device \<Rightarrow> nat \<Rightarrow> ('h, 'z) nq_adapter_scheme \<Rightarrow> fault + ('h, 'z) nq_adapter_scheme" where
  "free_ring R q ad =
     rbind (rx_ring q ad) (\<lambda>r.
       case (if rg_rsc r then ixgbe_clear_rscctl R r (mt_hw ad) else (r, mt_hw ad)) of (r1, hw1) \<Rightarrow>
         Inr (put_rx q (r1\<lparr>rg_rss := False, rg_allocated := False\<rparr>)
                (ad\<lparr>mt_hw := hw1,
                    rx_queues_allocated := (if rx_queues_allocated ad \<noteq> 0 then rx_queues_allocated ad - 1 else 0)\<rparr>)))"

definition ixgbe_free_rx_queue :: "'h device \<Rightarrow> u32 \<Rightarrow> ('h, 'z) nq_adapter_scheme \<Rightarrow> fault + int \<times> ('h, 'z) nq_adapter_scheme" where
  "ixgbe_free_rx_queue R qid ad =
     (let pool = QUEUEID_VAL qid; b = base_queue (ucast pool) ad in
      if ucast pool \<ge> num_rx_pools ad then Inr (VMKNETDDI_QUEUEOPS_ERR, ad)
      else rbind (rx_ring b ad) (\<lambda>r.
        if \<not> rg_allocated r then Inr (VMKNETDDI_QUEUEOPS_ERR, ad)
        else if rg_active r \<noteq> 0 then Inr (VMKNETDDI_QUEUEOPS_ERR, ad)
        else rbind (fold (\<lambda>q a. rbind a (free_ring R q)) [b..<b + unat (rx_per_pool ad)] (Inr ad)) (\<lambda>ad1.
             Inr (VMKNETDDI_QUEUEOPS_OK, ad1))))"

definition ixgbe_free_tx_queue :: "u32 \<Rightarrow> ('h, 'z) nq_adapter_scheme \<Rightarrow> fault + int \<times> ('h, 'z) nq_adapter_scheme" where
  "ixgbe_free_tx_queue qid ad =
     (let q = unat (QUEUEID_VAL qid) in
      if q \<ge> num_tx_queues ad then Inr (VMKNETDDI_QUEUEOPS_ERR, ad)
      else rbind (tx_ring q ad) (\<lambda>r.
        if \<not> rg_allocated r then Inr (VMKNETDDI_QUEUEOPS_ERR, ad)
        else Inr (VMKNETDDI_QUEUEOPS_OK,
                  put_tx q (r\<lparr>rg_allocated := False\<rparr>)
                    (ad\<lparr>tx_queues_allocated := (if tx_queues_allocated ad \<noteq> 0 then tx_queues_allocated ad - 1 else 0)\<rparr>))))"

definition ixgbe_free_queue :: "'h device \<Rightarrow> u32 \<Rightarrow> ('h, 'z) nq_adapter_scheme \<Rightarrow> fault + int \<times> ('h, 'z) nq_adapter_scheme" where
  "ixgbe_free_queue R qid ad =
     (if IS_TX_QUEUEID qid then ixgbe_free_tx_queue qid ad
      else if IS_RX_QUEUEID qid then ixgbe_free_rx_queue R qid ad
      else Inr (VMKNETDDI_QUEUEOPS_ERR, ad))"

section \<open>Filters\<close>

definition ixgbe_clear_vlvf_vlan :: "'h device \<Rightarrow> u32 \<Rightarrow> u32 \<Rightarrow> ('h, 'z) ixgbe_hw_scheme \<Rightarrow> int \<times> ('h, 'z) ixgbe_hw_scheme" where
  "ixgbe_clear_vlvf_vlan R vlan vind hw =
     (case IXGBE_READ_REG R IXGBE_VT_CTL hw of (vt, hw1) \<Rightarrow>
        if vt AND IXGBE_VT_CTL_VT_ENABLE = 0 then (0, hw1)
        else case ixgbe_find_vlvf_slot R vlan hw1 of (slot, hw2) \<Rightarrow>
          if slot < 0 then (IXGBE_ERR_NO_SPACE, hw2)
          else case vlvfb_off R (nat slot) vind hw2 of (bits, hw3) \<Rightarrow>
            (0, if bits = 0 then IXGBE_WRITE_REG R (IXGBE_VLVF (nat slot)) 0 hw3 else hw3))"

definition vmknetddi_queueops_get_filter_macaddr :: "nq_filter \<Rightarrow> fault + u8 list" where
  "vmknetddi_queueops_get_filter_macaddr f =
     (if nf_class f = FILTER_MACADDR \<or> nf_class f = FILTER_VLANMACADDR then Inr (nf_mac f) else Inl NullDeref)"

definition vmknetddi_queueops_get_filter_vlanid :: "nq_filter \<Rightarrow> u16" where
  "vmknetddi_queueops_get_filter_vlanid f =
     (if nf_class f = 2 \<or> nf_class f = FILTER_VLANMACADDR then nf_vlan f else 0)"

text \<open>The hash of a filter for the queues of the last pool; \<open>rss_reta\<close> is the sliding window of the table.\<close>

definition rss_seed :: "u32 list" where
  "rss_seed = [0xE291D73D, 0x1805EC6C, 0x2A94B30D, 0xA54F2BEC, 0xEA49AF7C, 0xE214AD3D, 0xB855AABE, 0x6A3E67EA, 0x14364D17, 0x3BED200D]"

definition IXGBE_PSRTYPE :: "u32 \<Rightarrow> u32" where
  "IXGBE_PSRTYPE i = (if i \<le> 15 then 0x05480 + i * 4 else 0x0EA00 + i * 4)"

definition rss_reta :: "'h device \<Rightarrow> int \<Rightarrow> 'h flt_hw \<Rightarrow> 'h flt_hw" where
  "rss_reta R indices hw =
     snd (snd (fold (\<lambda>i (j, reta, hw).
       let j1 = (if j = indices then 0 else j);
           reta1 = push_bit 8 reta OR of_int (j1 * 0x11)
       in (j1 + 1, reta1, if i mod 4 = 3 then IXGBE_WRITE_REG R (reg_at 0x5C00 4 (i div 4)) reta1 hw else hw))
       [0..<128] (0, 0 :: u32, hw)))"

definition ixgbe_configure_rss_filter :: "'h device \<Rightarrow> ('h, 'z) nq_adapter_scheme \<Rightarrow> ('h, 'z) nq_adapter_scheme" where
  "ixgbe_configure_rss_filter R ad =
     on_hw (\<lambda>hw. rmw R (IXGBE_PSRTYPE ((num_rx_pools ad - 1) + ucast (vmdq_offset ad))) (\<lambda>v. v OR push_bit 29 4)
       (rss_reta R (uint (rss_indices ad)) (for_regs 10 (\<lambda>i. IXGBE_WRITE_REG R (reg_at 0x5C80 4 i) (rss_seed ! i)) hw))) ad"

text \<open>The two encodings of a filter identifier.\<close>

definition vlan_fid :: "int \<Rightarrow> u16 \<Rightarrow> int \<Rightarrow> u16" where
  "vlan_fid vlvf pool index = (push_bit 10 (of_int vlvf AND 0x3F) OR push_bit 7 pool) OR of_int index"

definition mac_fid :: "u16 \<Rightarrow> int \<Rightarrow> u16" where
  "mac_fid pool index = push_bit 8 pool OR of_int index"

text \<open>
  The part of \<open>ixgbe_apply_rx_filter\<close> that programs the hardware of an 82599 or X540: the index of the address
  and of the VLAN entry, or \<open>None\<close> when it failed.
\<close>

definition apply_vlan :: "'h device \<Rightarrow> nq_filter \<Rightarrow> u16 \<Rightarrow> int \<Rightarrow> ('h, 'z) nq_adapter_scheme \<Rightarrow> fault + (int \<times> int) option \<times> ('h, 'z) nq_adapter_scheme" where
  "apply_vlan R f pool index ad =
     (let vid = vmknetddi_queueops_get_filter_vlanid f in
      if nf_class f AND FILTER_VLANMACADDR \<noteq> 0 \<and> vid \<noteq> 0 then
        (case ixgbe_set_vfta_generic R (ucast vid) (VMDQ_P pool ad) True (mt_hw ad) of (ret, hw1) \<Rightarrow>
           let ad1 = ad\<lparr>mt_hw := hw1\<rparr> in
           if ret \<noteq> 0 then rbind (ixgbe_del_mac_filter_by_index R (nat index) ad1) (\<lambda>ad2. Inr (None, ad2))
           else case ixgbe_find_vlvf_slot R (ucast vid) hw1 of (slot, hw2) \<Rightarrow>
             let ad2 = ad\<lparr>mt_hw := hw2\<rparr> in
             if slot < 0 then rbind (ixgbe_del_mac_filter_by_index R (nat index) ad2) (\<lambda>ad3. Inr (None, ad3))
             else Inr (Some (index, slot), ad2))
      else Inr (Some (index, 0), ad))"

definition apply_82599 :: "'h device \<Rightarrow> nq_filter \<Rightarrow> u16 \<Rightarrow> ('h, 'z) nq_adapter_scheme \<Rightarrow> fault + (int \<times> int) option \<times> ('h, 'z) nq_adapter_scheme" where
  "apply_82599 R f pool ad =
     (let ad1 = (if rss_limit ad > 1 \<and> ucast pool = num_rx_pools ad - 1 then ixgbe_configure_rss_filter R ad else ad) in
      rbind (vmknetddi_queueops_get_filter_macaddr f) (\<lambda>macaddr.
      rbind (if \<not> compare_ether_addr macaddr (hw_perm_addr ad1) then ixgbe_del_mac_filter_by_index R (unat (VMDQ_P 0 ad1)) ad1 else Inr ad1) (\<lambda>ad2.
      rbind (ixgbe_add_mac_filter R macaddr (ucast (VMDQ_P pool ad2)) ad2) (\<lambda>(index, ad3).
        if index < 0 then Inr (None, ad3) else apply_vlan R f pool index ad3))))"

definition apply_82598 :: "'h device \<Rightarrow> nq_filter \<Rightarrow> u16 \<Rightarrow> ('h, 'z) nq_adapter_scheme \<Rightarrow> fault + (int \<times> int) option \<times> ('h, 'z) nq_adapter_scheme" where
  "apply_82598 R f pool ad =
     rbind (vmknetddi_queueops_get_filter_macaddr f) (\<lambda>macaddr.
     rbind (ixgbe_add_mac_filter R macaddr pool ad) (\<lambda>(index, ad1).
       Inr (if index < 0 then None else Some (index, 0), ad1)))"

definition apply_hw :: "'h device \<Rightarrow> nq_filter \<Rightarrow> u16 \<Rightarrow> ('h, 'z) nq_adapter_scheme \<Rightarrow> fault + (int \<times> int) option \<times> ('h, 'z) nq_adapter_scheme" where
  "apply_hw R f pool ad =
     (if is_82599_X540 ad then apply_82599 R f pool ad
      else if nq_mac ad = ixgbe_mac_82598EB then apply_82598 R f pool ad
      else Inr (Some (0, 0), ad))"

text \<open>The result of \<open>ixgbe_apply_rx_filter\<close> has the filter identifier and the paired transmit queue.\<close>

definition ixgbe_apply_rx_filter :: "'h device \<Rightarrow> u32 \<Rightarrow> nq_filter \<Rightarrow> ('h, 'z) nq_adapter_scheme \<Rightarrow>
    fault + int \<times> (u32 \<times> u16) option \<times> ('h, 'z) nq_adapter_scheme" where
  "ixgbe_apply_rx_filter R qid f ad =
     (let pool = QUEUEID_VAL qid; b = base_queue (ucast pool) ad; fail = (\<lambda>ad. Inr (VMKNETDDI_QUEUEOPS_ERR, None, ad)) in
      if \<not> IS_RX_QUEUEID qid then fail ad
      else if ucast pool \<ge> num_rx_pools ad then fail ad
      else rbind (rx_ring b ad) (\<lambda>r.
        if \<not> rg_allocated r then fail ad
        else if uint (rg_active r) \<ge> ixgbe_max_filters_per_pool ad then fail ad
        else if nq_mac ad = ixgbe_mac_82598EB \<and> nf_class f \<noteq> FILTER_MACADDR then fail ad
        else if nq_mac ad \<noteq> ixgbe_mac_82598EB \<and> nf_class f AND (FILTER_MACADDR OR FILTER_VLANMACADDR) = 0 then fail ad
        else
          rbind (apply_hw R f pool ad) (\<lambda>(res, ad1).
          case res of
            None \<Rightarrow> fail ad1
          | Some (index, vlvf) \<Rightarrow>
              rbind (rx_ring b ad1) (\<lambda>r1.
                let ad2 = put_rx b (r1\<lparr>rg_active := rg_active r1 + 1\<rparr>) ad1;
                    fid = (if nq_mac ad \<noteq> ixgbe_mac_82598EB \<and> nf_class f AND FILTER_VLANMACADDR \<noteq> 0
                           then vlan_fid vlvf pool index else mac_fid pool index)
                in Inr (VMKNETDDI_QUEUEOPS_OK, Some (ucast fid, pool), ad2)))))"

text \<open>What \<open>ixgbe_remove_rx_filter\<close> reads from an identifier: the pool and the index of the VLAN entry.\<close>

definition fid_pool :: "bool \<Rightarrow> u16 \<Rightarrow> u8" where
  "fid_pool vfs fid = ucast (if vfs then drop_bit 7 fid AND 0x7 else drop_bit 8 fid AND 0x7F)"

definition fid_vlvf :: "u16 \<Rightarrow> nat" where
  "fid_vlvf fid = unat (drop_bit 10 fid AND 0x3F)"

definition fid_index :: "u16 \<Rightarrow> nat" where
  "fid_index fid = unat (fid AND 0x7F)"

text \<open>The part that programs the hardware of an 82599 or X540; \<open>False\<close> is a failure.\<close>

definition remove_82599 :: "'h device \<Rightarrow> u16 \<Rightarrow> u16 \<Rightarrow> nat \<Rightarrow> ('h, 'z) nq_adapter_scheme \<Rightarrow> fault + bool \<times> ('h, 'z) nq_adapter_scheme" where
  "remove_82599 R pool vid index ad =
     rbind (mac_entry index ad) (\<lambda>e.
     rbind (ixgbe_del_mac_filter_by_index R index ad) (\<lambda>ad1.
     rbind (if \<not> compare_ether_addr (mt_addr e) (hw_perm_addr ad1)
            then ixgbe_add_mac_filter R (hw_perm_addr ad1) (ucast (VMDQ_P 0 ad1)) ad1 else Inr (0, ad1)) (\<lambda>(i, ad2).
       if i < 0 then Inr (False, ad2)
       else Inr (True, if vid \<noteq> 0 then on_hw (\<lambda>hw. snd (ixgbe_clear_vlvf_vlan R (ucast vid) (VMDQ_P pool ad2) hw)) ad2 else ad2))))"

definition remove_hw :: "'h device \<Rightarrow> u16 \<Rightarrow> u16 \<Rightarrow> nat \<Rightarrow> ('h, 'z) nq_adapter_scheme \<Rightarrow> fault + bool \<times> ('h, 'z) nq_adapter_scheme" where
  "remove_hw R pool vid index ad =
     (if is_82599_X540 ad then remove_82599 R pool vid index ad
      else if nq_mac ad = ixgbe_mac_82598EB then rbind (ixgbe_del_mac_filter_by_index R index ad) (\<lambda>ad1. Inr (True, ad1))
      else Inr (True, ad))"

definition ixgbe_remove_rx_filter :: "'h device \<Rightarrow> u32 \<Rightarrow> u32 \<Rightarrow> ('h, 'z) nq_adapter_scheme \<Rightarrow> fault + int \<times> ('h, 'z) nq_adapter_scheme" where
  "ixgbe_remove_rx_filter R qid filterid ad =
     (let pool = QUEUEID_VAL qid; fid = ucast filterid :: u16; b = base_queue (ucast pool) ad in
      if \<not> IS_RX_QUEUEID qid then Inr (VMKNETDDI_QUEUEOPS_ERR, ad)
      else if ucast pool \<ge> num_rx_pools ad then Inr (VMKNETDDI_QUEUEOPS_ERR, ad)
      else rbind (rx_ring b ad) (\<lambda>r.
        if \<not> rg_allocated r then Inr (VMKNETDDI_QUEUEOPS_ERR, ad)
        else if rg_active r = 0 then Inr (VMKNETDDI_QUEUEOPS_OK, ad)
        else
          (let vfs = (nq_mac ad \<noteq> ixgbe_mac_82598EB \<and> nq_num_vfs ad \<noteq> 0) in
           case (if vfs then IXGBE_READ_REG R (IXGBE_VLVF (fid_vlvf fid)) (mt_hw ad) else (0, mt_hw ad)) of (vlvf_val, hw1) \<Rightarrow>
           let vid = ucast (vlvf_val AND 0xFFF); ad1 = ad\<lparr>mt_hw := hw1\<rparr>; index = fid_index fid in
           if pool \<noteq> ucast (fid_pool vfs fid) then Inr (VMKNETDDI_QUEUEOPS_ERR, ad1)
           else
             rbind (remove_hw R pool vid index ad1) (\<lambda>(ok, ad2).
             if \<not> ok then Inr (VMKNETDDI_QUEUEOPS_ERR, ad2)
             else rbind (rx_ring b ad2) (\<lambda>r2.
                    Inr (VMKNETDDI_QUEUEOPS_OK, put_rx b (r2\<lparr>rg_active := rg_active r2 - 1\<rparr>) ad2))))))"

section \<open>The calls of the host\<close>

text \<open>
  The operations \<open>ixgbe_netqueue_ops\<close> is called for, with their arguments, and what they write to them. The version
  (filled in by the host's header) and the interrupt vector of a queue are left out.
\<close>

datatype nq_op =
  GetFeatures | GetQueueCount u32 | GetFilterCount | AllocQueue u32 | FreeQueue u32 | GetDefaultQueue u32
| ApplyRxFilter u32 nq_filter | RemoveRxFilter u32 u32 | GetStats | SetTxPriority u32 | AllocQueueWithAttr u32 "nq_attr list"
| GetSupportedFeat | GetSupportedFilterClass | UnhandledOp

datatype nq_out = NoOut | NumOut int | QueueOut u32 "nat option" | FilterOut u32 u16

definition ixgbe_alloc_netqueue :: "'h device \<Rightarrow> u32 \<Rightarrow> ('h, 'z) nq_adapter_scheme \<Rightarrow>
    fault + int \<times> (u32 \<times> nat option) option \<times> ('h, 'z) nq_adapter_scheme" where
  "ixgbe_alloc_netqueue R ty ad =
     (if ty = QUEUE_TYPE_TX
      then rbind (ixgbe_alloc_tx_queue ad) (\<lambda>(st, q, ad1). Inr (st, map_option (\<lambda>(i, k). (i, Some k)) q, ad1))
      else if ty = QUEUE_TYPE_RX then ixgbe_alloc_rx_queue R 0 ad
      else Inr (VMKNETDDI_QUEUEOPS_ERR, None, ad))"

definition queue_out :: "(u32 \<times> nat option) option \<Rightarrow> nq_out" where
  "queue_out q = (case q of None \<Rightarrow> NoOut | Some (i, k) \<Rightarrow> QueueOut i k)"

fun ixgbe_netqueue_ops :: "'h device \<Rightarrow> nq_op \<Rightarrow> ('h, 'z) nq_adapter_scheme \<Rightarrow> fault + int \<times> nq_out \<times> ('h, 'z) nq_adapter_scheme" where
  "ixgbe_netqueue_ops R GetFeatures ad = Inr (VMKNETDDI_QUEUEOPS_OK, NumOut 3, ad)"
| "ixgbe_netqueue_ops R (GetQueueCount ty) ad =
     (case ixgbe_get_queue_count ty ad of (st, c) \<Rightarrow> Inr (st, case c of None \<Rightarrow> NoOut | Some n \<Rightarrow> NumOut (uint n), ad))"
| "ixgbe_netqueue_ops R GetFilterCount ad = (case ixgbe_get_filter_count ad of (st, n) \<Rightarrow> Inr (st, NumOut (uint n), ad))"
| "ixgbe_netqueue_ops R (AllocQueue ty) ad = rbind (ixgbe_alloc_netqueue R ty ad) (\<lambda>(st, q, ad1). Inr (st, queue_out q, ad1))"
| "ixgbe_netqueue_ops R (FreeQueue qid) ad = rbind (ixgbe_free_queue R qid ad) (\<lambda>(st, ad1). Inr (st, NoOut, ad1))"
| "ixgbe_netqueue_ops R (GetDefaultQueue ty) ad =
     (case ixgbe_get_default_queue ty of (st, q) \<Rightarrow> Inr (st, case q of None \<Rightarrow> NoOut | Some i \<Rightarrow> QueueOut i None, ad))"
| "ixgbe_netqueue_ops R (ApplyRxFilter qid f) ad =
     rbind (ixgbe_apply_rx_filter R qid f ad) (\<lambda>(st, x, ad1). Inr (st, case x of None \<Rightarrow> NoOut | Some (i, k) \<Rightarrow> FilterOut i k, ad1))"
| "ixgbe_netqueue_ops R (RemoveRxFilter qid fid) ad = rbind (ixgbe_remove_rx_filter R qid fid ad) (\<lambda>(st, ad1). Inr (st, NoOut, ad1))"
| "ixgbe_netqueue_ops R GetStats ad = Inr (VMKNETDDI_QUEUEOPS_ERR, NoOut, ad)"
| "ixgbe_netqueue_ops R (SetTxPriority qid) ad = Inr (VMKNETDDI_QUEUEOPS_OK, NoOut, ad)"
| "ixgbe_netqueue_ops R (AllocQueueWithAttr ty as) ad =
     rbind (ixgbe_alloc_queue_with_attr R ty as ad) (\<lambda>(st, q, ad1). Inr (st, queue_out q, ad1))"
| "ixgbe_netqueue_ops R GetSupportedFeat ad = Inr (VMKNETDDI_QUEUEOPS_OK, NumOut (uint (ixgbe_get_supported_feature ad)), ad)"
| "ixgbe_netqueue_ops R GetSupportedFilterClass ad = Inr (VMKNETDDI_QUEUEOPS_OK, NumOut (uint (ixgbe_get_supported_filter_class ad)), ad)"
| "ixgbe_netqueue_ops R UnhandledOp ad = Inr (VMKNETDDI_QUEUEOPS_ERR, NoOut, ad)"

end
