(* ===== verification/VlanProps.thy ===== *)
theory VlanProps
  imports HwFilters DcbProps
begin

text \<open>
  Filter registers that hold what is written, and what the VLAN operations of \<open>ixgbe_common.c\<close> do to them.
\<close>

section \<open>Banks of plain registers\<close>

text \<open>
  \<open>plain_bank R A reg\<close>: the registers in \<open>A\<close> are kept in \<open>reg\<close>; reading one returns its value and changes none,
  writing one changes only it.
\<close>

definition plain_bank :: "'h device \<Rightarrow> u32 set \<Rightarrow> ('h \<Rightarrow> u32 \<Rightarrow> u32) \<Rightarrow> bool" where
  "plain_bank R A reg \<longleftrightarrow> (\<forall>s. \<forall>a \<in> A. fst (dev_read R s a) = reg s a \<and> reg (snd (dev_read R s a)) = reg s \<and>
     (\<forall>v. reg (dev_write R s a v) = (reg s)(a := v)))"

abbreviation regs :: "('h \<Rightarrow> u32 \<Rightarrow> u32) \<Rightarrow> ('h, 'z) ixgbe_hw_scheme \<Rightarrow> u32 \<Rightarrow> u32" where
  "regs reg hw \<equiv> reg (hw_dev hw)"

lemma bank_read:
  assumes "plain_bank R A reg" "a \<in> A"
  shows "fst (IXGBE_READ_REG R a hw) = regs reg hw a" "regs reg (snd (IXGBE_READ_REG R a hw)) = regs reg hw"
  using assms by (simp_all add: plain_bank_def IXGBE_READ_REG_def case_prod_beta)

lemma bank_write:
  assumes "plain_bank R A reg" "a \<in> A"
  shows "regs reg (IXGBE_WRITE_REG R a v hw) = (regs reg hw)(a := v)"
  using assms by (simp add: plain_bank_def IXGBE_WRITE_REG_def)

lemma bank_rmw:
  assumes "plain_bank R A reg" "a \<in> A"
  shows "regs reg (rmw R a f hw) = (regs reg hw)(a := f (regs reg hw a))"
  by (simp add: rmw_def case_prod_beta bank_write[OF assms] bank_read[OF assms])

lemma unat_reg_at: "unat base + unat stride * i < 2 ^ 32 \<Longrightarrow> unat (reg_at base stride i) = unat base + unat stride * i"
proof -
  assume "unat base + unat stride * i < 2 ^ 32"
  moreover have e: "reg_at base stride i = of_nat (unat base + unat stride * i)" by (simp add: reg_at_def)
  ultimately show ?thesis unfolding e unat_of_nat by simp
qed

lemma reg_at_eq:
  "unat b + unat s * i < 2 ^ 32 \<Longrightarrow> unat c + unat t * j < 2 ^ 32 \<Longrightarrow>
   reg_at b s i = reg_at c t j \<longleftrightarrow> unat b + unat s * i = unat c + unat t * j"
  using unat_reg_at[of b s i] unat_reg_at[of c t j] by (metis unsigned_word_eqI)

section \<open>The VLAN registers\<close>

definition vlan_regs :: "u32 set" where
  "vlan_regs = insert IXGBE_VT_CTL (IXGBE_VFTA ` {..<128} \<union> IXGBE_VLVF ` {..<64} \<union> IXGBE_VLVFB ` {..<128})"

lemma vlan_regs_in [simp]:
  "IXGBE_VT_CTL \<in> vlan_regs" "i < 128 \<Longrightarrow> IXGBE_VFTA i \<in> vlan_regs"
  "i < 64 \<Longrightarrow> IXGBE_VLVF i \<in> vlan_regs" "i < 128 \<Longrightarrow> IXGBE_VLVFB i \<in> vlan_regs"
  by (auto simp: vlan_regs_def)

lemma vlan_regs_ne [simp]:
  "i < 128 \<Longrightarrow> j < 64 \<Longrightarrow> IXGBE_VFTA i \<noteq> IXGBE_VLVF j" "i < 128 \<Longrightarrow> j < 64 \<Longrightarrow> IXGBE_VLVF j \<noteq> IXGBE_VFTA i"
  "i < 128 \<Longrightarrow> k < 128 \<Longrightarrow> IXGBE_VFTA i \<noteq> IXGBE_VLVFB k" "i < 128 \<Longrightarrow> k < 128 \<Longrightarrow> IXGBE_VLVFB k \<noteq> IXGBE_VFTA i"
  "j < 64 \<Longrightarrow> k < 128 \<Longrightarrow> IXGBE_VLVF j \<noteq> IXGBE_VLVFB k" "j < 64 \<Longrightarrow> k < 128 \<Longrightarrow> IXGBE_VLVFB k \<noteq> IXGBE_VLVF j"
  by (subst reg_at_eq; simp)+

lemma vlan_regs_inj [simp]:
  "i < 128 \<Longrightarrow> j < 128 \<Longrightarrow> IXGBE_VFTA i = IXGBE_VFTA j \<longleftrightarrow> i = j"
  "i < 128 \<Longrightarrow> j < 128 \<Longrightarrow> IXGBE_VLVFB i = IXGBE_VLVFB j \<longleftrightarrow> i = j"
  "i < 64 \<Longrightarrow> j < 64 \<Longrightarrow> IXGBE_VLVF i = IXGBE_VLVF j \<longleftrightarrow> i = j"
  by (subst reg_at_eq; simp)+

lemma vt_ctl_ne [simp]:
  "i < 128 \<Longrightarrow> IXGBE_VFTA i \<noteq> IXGBE_VT_CTL" "i < 128 \<Longrightarrow> IXGBE_VLVFB i \<noteq> IXGBE_VT_CTL" "i < 64 \<Longrightarrow> IXGBE_VLVF i \<noteq> IXGBE_VT_CTL"
  by (simp_all add: reg_at_ne[of _ 128] reg_at_ne[of _ 64])

section \<open>Finding a slot\<close>

lemma vlvf_search_find:
  assumes "plain_bank R vlan_regs reg" "vlan \<noteq> 0" "0 < i" "i + n \<le> 64"
  shows "\<exists>hw'. vlvf_search R vlan n i fr hw =
      (find (\<lambda>j. regs reg hw (IXGBE_VLVF j) AND 0xFFF = vlan) [i..<i + n],
       fst (snd (vlvf_search R vlan n i fr hw)), hw') \<and> regs reg hw' = regs reg hw \<and>
     (find (\<lambda>j. regs reg hw (IXGBE_VLVF j) AND 0xFFF = vlan) [i..<i + n] = None \<longrightarrow>
      fst (snd (vlvf_search R vlan n i fr hw)) =
        (if fr \<noteq> 0 then fr else case find (\<lambda>j. regs reg hw (IXGBE_VLVF j) = 0) [i..<i + n] of None \<Rightarrow> 0 | Some j \<Rightarrow> j))"
  using assms(3,4)
proof (induction n arbitrary: i fr hw)
  case (Suc n)
  have in_regs: "IXGBE_VLVF i \<in> vlan_regs" using Suc.prems by simp
  obtain bits hw1 where r: "IXGBE_READ_REG R (IXGBE_VLVF i) hw = (bits, hw1)" by fastforce
  then have bits: "bits = regs reg hw (IXGBE_VLVF i)" and hw1: "regs reg hw1 = regs reg hw"
    using bank_read[OF assms(1) in_regs, of hw] by simp_all
  have upt: "[i..<i + Suc n] = i # [Suc i..<Suc i + n]" by (simp add: upt_conv_Cons)
  note IH = Suc.IH[of "Suc i" _ hw1]
  show ?case
  proof (cases "bits = 0 \<and> fr = 0")
    case True
    then show ?thesis using IH[of i] Suc.prems assms(2) r bits hw1 unfolding upt by simp
  next
    case False
    then show ?thesis using IH[of fr] Suc.prems r bits hw1 unfolding upt by auto
  qed
qed simp

definition slot_of :: "(u32 \<Rightarrow> u32) \<Rightarrow> u32 \<Rightarrow> int" where
  "slot_of f v =
     (if v = 0 then 0
      else case find (\<lambda>j. f (IXGBE_VLVF j) AND 0xFFF = v) [1..<64] of Some i \<Rightarrow> int i
      | None \<Rightarrow> (case find (\<lambda>j. f (IXGBE_VLVF j) = 0) [1..<64] of Some i \<Rightarrow> int i | None \<Rightarrow> IXGBE_ERR_NO_SPACE))"

lemma find_vlvf_slot:
  assumes "plain_bank R vlan_regs reg"
  shows "\<exists>hw'. ixgbe_find_vlvf_slot R v hw = (slot_of (regs reg hw) v, hw') \<and> regs reg hw' = regs reg hw"
proof (cases "v = 0")
  case False
  obtain found fr hw' where s: "vlvf_search R v 63 1 0 hw = (found, fr, hw')" by (metis prod.exhaust)
  have "regs reg hw' = regs reg hw" "found = find (\<lambda>j. regs reg hw (IXGBE_VLVF j) AND 0xFFF = v) [1..<64]"
    "found = None \<Longrightarrow> fr = (case find (\<lambda>j. regs reg hw (IXGBE_VLVF j) = 0) [1..<64] of None \<Rightarrow> 0 | Some j \<Rightarrow> j)"
    using vlvf_search_find[OF assms False, of 1 63 0 hw] s by (auto simp del: upt_rec_numeral)
  moreover have "j \<noteq> 0" if "find P [1..<64] = Some j" for P j
    using that by (auto simp: find_Some_iff)
  ultimately show ?thesis
    using False s by (auto simp: ixgbe_find_vlvf_slot_def slot_of_def split: option.split simp del: upt_rec_numeral)
qed (simp add: ixgbe_find_vlvf_slot_def slot_of_def)

section \<open>Pools of an entry\<close>

text \<open>The register and the bit of a pool, and the effect of the two updates on the registers.\<close>

definition pool_reg :: "nat \<Rightarrow> u32 \<Rightarrow> u32" where
  "pool_reg i p = IXGBE_VLVFB (if p < 32 then i * 2 else i * 2 + 1)"

definition pool_bit :: "u32 \<Rightarrow> u32" where
  "pool_bit p = bit_of (if p < 32 then p else p - 32)"

definition on_regs :: "(u32 \<Rightarrow> u32) \<Rightarrow> nat \<Rightarrow> u32 \<Rightarrow> u32 \<Rightarrow> u32 \<Rightarrow> u32" where
  "on_regs f i v p = f(pool_reg i p := f (pool_reg i p) OR pool_bit p, IXGBE_VLVF i := IXGBE_VLVF_VIEN OR v)"

definition left_pools :: "(u32 \<Rightarrow> u32) \<Rightarrow> nat \<Rightarrow> u32 \<Rightarrow> u32 \<Rightarrow> u32" where
  "left_pools f i p = f(pool_reg i p := f (pool_reg i p) AND NOT (pool_bit p))"

definition off_regs :: "(u32 \<Rightarrow> u32) \<Rightarrow> nat \<Rightarrow> u32 \<Rightarrow> u32 \<Rightarrow> u32 \<Rightarrow> u32" where
  "off_regs f i v p =
     (let f1 = left_pools f i p
      in f1(IXGBE_VLVF i := if f1 (IXGBE_VLVFB (i * 2)) OR f1 (IXGBE_VLVFB (i * 2 + 1)) \<noteq> 0 then IXGBE_VLVF_VIEN OR v else 0))"

lemma pool_reg_in [simp]: "i < 64 \<Longrightarrow> pool_reg i p \<in> vlan_regs"
  by (simp add: pool_reg_def)

lemma bit_of_nonzero: "unat n < 32 \<Longrightarrow> bit_of n \<noteq> 0"
  by (simp add: bit_of_def)

lemma pool_bit_nonzero: "unat p < 64 \<Longrightarrow> pool_bit p \<noteq> 0"
  unfolding pool_bit_def by (rule bit_of_nonzero) (simp add: word_less_nat_alt unat_sub word_le_nat_alt, arith)

lemma or_nonzero: "(b :: u32) \<noteq> 0 \<Longrightarrow> a OR b \<noteq> 0"
  by (metis or_eq_0_iff)

lemma vlvfb_on_regs:
  assumes "plain_bank R vlan_regs reg" "i < 64"
  shows "\<exists>hw'. vlvfb_on R i p hw = (regs reg hw (pool_reg i p) OR pool_bit p, hw') \<and>
           regs reg hw' = (regs reg hw)(pool_reg i p := regs reg hw (pool_reg i p) OR pool_bit p)"
  using assms(2) by (simp add: vlvfb_on_def pool_reg_def pool_bit_def case_prod_beta bank_read[OF assms(1)] bank_write[OF assms(1)])

lemma vlvfb_off_regs:
  assumes "plain_bank R vlan_regs reg" "i < 64"
  shows "\<exists>hw'. vlvfb_off R i p hw = (left_pools (regs reg hw) i p (IXGBE_VLVFB (i * 2)) OR left_pools (regs reg hw) i p (IXGBE_VLVFB (i * 2 + 1)), hw') \<and>
           regs reg hw' = left_pools (regs reg hw) i p"
proof (cases "p < 32")
  case True
  then show ?thesis
    using assms(2) by (simp add: vlvfb_off_def Let_def left_pools_def pool_reg_def pool_bit_def case_prod_beta bank_read[OF assms(1)] bank_write[OF assms(1)])
next
  case False
  have e: "\<exists>hw'. vlvfb_off R i p hw = (left_pools (regs reg hw) i p (IXGBE_VLVFB (i * 2 + 1)) OR left_pools (regs reg hw) i p (IXGBE_VLVFB (i * 2)), hw') \<and>
           regs reg hw' = left_pools (regs reg hw) i p"
    using assms(2) False by (simp add: vlvfb_off_def Let_def left_pools_def pool_reg_def pool_bit_def case_prod_beta bank_read[OF assms(1)] bank_write[OF assms(1)])
  then show ?thesis by (simp only: or.commute)
qed

lemma set_vlvf_regs:
  assumes "plain_bank R vlan_regs reg" "v \<le> 4095" "unat p < 64" "regs reg hw IXGBE_VT_CTL AND IXGBE_VT_CTL_VT_ENABLE \<noteq> 0"
    and i: "slot_of (regs reg hw) v = i" "i < 64"
  shows "\<exists>r ch' hw'. ixgbe_set_vlvf_generic R v p on ch hw = (r, ch', hw') \<and>
     (if i < 0 then ch' = ch \<and> regs reg hw' = regs reg hw
      else if on then ch' = ch \<and> regs reg hw' = on_regs (regs reg hw) (nat i) v p
      else ch' = (ch \<and> off_regs (regs reg hw) (nat i) v p (IXGBE_VLVF (nat i)) = 0) \<and> regs reg hw' = off_regs (regs reg hw) (nat i) v p)"
proof -
  let ?f = "regs reg hw"
  obtain vt hw1 where r: "IXGBE_READ_REG R IXGBE_VT_CTL hw = (vt, hw1)" by fastforce
  then have vt: "vt = ?f IXGBE_VT_CTL" "regs reg hw1 = ?f" using bank_read[OF assms(1), of IXGBE_VT_CTL hw] by simp_all
  obtain hw2 where s: "ixgbe_find_vlvf_slot R v hw1 = (i, hw2)" "regs reg hw2 = ?f"
    using find_vlvf_slot[OF assms(1), of v hw1] vt(2) i(1) by auto
  have v: "\<not> v > 4095" using assms(2) by simp
  have e: "ixgbe_set_vlvf_generic R v p on ch hw =
      (if i < 0 then (i, ch, hw2)
       else case (if on then vlvfb_on R (nat i) p hw2 else vlvfb_off R (nat i) p hw2) of (bits, hw3) \<Rightarrow>
            if bits \<noteq> 0
            then (0, if \<not> on then False else ch, IXGBE_WRITE_REG R (IXGBE_VLVF (nat i)) (IXGBE_VLVF_VIEN OR v) hw3)
            else (0, ch, IXGBE_WRITE_REG R (IXGBE_VLVF (nat i)) 0 hw3))"
    unfolding ixgbe_set_vlvf_generic_def using v r s(1) assms(4) vt(1) by simp
  show ?thesis
  proof (cases "i < 0")
    case True
    then show ?thesis using e s(2) by simp
  next
    case False
    then have i64: "nat i < 64" using i(2) by simp
    have vien: "(IXGBE_VLVF_VIEN OR v) \<noteq> 0" using or_nonzero[of IXGBE_VLVF_VIEN v] by (simp add: or.commute)
    show ?thesis
    proof (cases on)
      case True
      obtain hw3 where b: "vlvfb_on R (nat i) p hw2 = (?f (pool_reg (nat i) p) OR pool_bit p, hw3)"
          "regs reg hw3 = ?f(pool_reg (nat i) p := ?f (pool_reg (nat i) p) OR pool_bit p)"
        using vlvfb_on_regs[OF assms(1) i64, of p hw2] s(2) by auto
      moreover have "?f (pool_reg (nat i) p) OR pool_bit p \<noteq> 0" using or_nonzero[OF pool_bit_nonzero[OF assms(3)]] .
      ultimately show ?thesis
        using e False True i64 by (simp add: bank_write[OF assms(1)] on_regs_def)
    next
      case off: False
      obtain hw3 where b: "vlvfb_off R (nat i) p hw2 =
            (left_pools ?f (nat i) p (IXGBE_VLVFB (nat i * 2)) OR left_pools ?f (nat i) p (IXGBE_VLVFB (nat i * 2 + 1)), hw3)"
          "regs reg hw3 = left_pools ?f (nat i) p"
        using vlvfb_off_regs[OF assms(1) i64, of p hw2] s(2) by auto
      then show ?thesis
        using e False off i64 vien by (simp add: bank_write[OF assms(1)] off_regs_def Let_def)
    qed
  qed
qed

section \<open>The VLAN bit\<close>

definition vfta_at :: "u32 \<Rightarrow> u32" where
  "vfta_at v = IXGBE_VFTA (unat (drop_bit 5 v AND 0x7F))"

definition vlan_let :: "(u32 \<Rightarrow> u32) \<Rightarrow> u32 \<Rightarrow> bool" where
  "vlan_let f v \<longleftrightarrow> bit (f (vfta_at v)) (unat (v AND 0x1F))"

lemma unat_and_mask: "unat (w AND mask n) = unat w mod 2 ^ n" for w :: u32
  by (simp only: take_bit_eq_mask[symmetric] unsigned_take_bit_eq) (simp add: take_bit_eq_mod)

lemma vfta_index: "unat (drop_bit 5 v AND 0x7F) = unat v div 32 mod 128" "unat (v AND 0x1F) = unat v mod 32" for v :: u32
  using unat_and_mask[of "drop_bit 5 v" 7] unat_and_mask[of v 5]
  by (simp_all add: mask_eq_exp_minus_1 unat_div drop_bit_eq_div unat_drop_bit_eq)

lemma vfta_at_in [simp]: "vfta_at v \<in> vlan_regs"
  by (simp add: vfta_at_def vfta_index)

lemma vfta_at_ne [simp]:
  "j < 64 \<Longrightarrow> vfta_at v \<noteq> IXGBE_VLVF j" "j < 64 \<Longrightarrow> IXGBE_VLVF j \<noteq> vfta_at v"
  "k < 128 \<Longrightarrow> vfta_at v \<noteq> IXGBE_VLVFB k" "k < 128 \<Longrightarrow> IXGBE_VLVFB k \<noteq> vfta_at v"
  by (simp_all add: vfta_at_def vfta_index)

lemma vfta_same:
  assumes "v \<le> 4095" "w \<le> 4095"
  shows "vfta_at v = vfta_at w \<and> unat (v AND 0x1F) = unat (w AND 0x1F) \<longleftrightarrow> v = w"
proof -
  have "unat v \<le> 4095" "unat w \<le> 4095" using assms by (simp_all add: word_le_nat_alt)
  moreover have "vfta_at v = vfta_at w \<longleftrightarrow> unat v div 32 mod 128 = unat w div 32 mod 128"
    by (simp add: vfta_at_def vfta_index)
  ultimately have "vfta_at v = vfta_at w \<and> unat (v AND 0x1F) = unat (w AND 0x1F) \<longleftrightarrow> unat v = unat w"
    by (simp add: vfta_index) (metis div_mult_mod_eq)
  then show ?thesis by (metis unsigned_word_eqI)
qed

lemma bit_of_iff: "bit (bit_of n) k \<longleftrightarrow> k = unat n \<and> k < 32"
  by (auto simp: bit_of_def bit_push_bit_iff bit_1_iff simp del: push_bit_of_1)

lemma vlan_let_on:
  assumes "v \<le> 4095" "w \<le> 4095"
  shows "vlan_let (f(vfta_at v := f (vfta_at v) OR bit_of (v AND 0x1F))) w \<longleftrightarrow> w = v \<or> vlan_let f w"
  using vfta_same[OF assms] vfta_index(2)[of v] vfta_index(2)[of w]
  by (auto simp: vlan_let_def bit_or_iff bit_of_iff)

lemma vlan_let_off:
  assumes "v \<le> 4095" "w \<le> 4095"
  shows "vlan_let (f(vfta_at v := f (vfta_at v) AND NOT (bit_of (v AND 0x1F)))) w \<longleftrightarrow> w \<noteq> v \<and> vlan_let f w"
  using vfta_same[OF assms] vfta_index(2)[of v] vfta_index(2)[of w]
  by (auto simp: vlan_let_def bit_and_iff bit_not_iff bit_of_iff)

lemma vlan_let_other: "f (vfta_at w) = g (vfta_at w) \<Longrightarrow> vlan_let f w = vlan_let g w"
  by (simp add: vlan_let_def)

lemma target_bit: "f (vfta_at v) AND bit_of (v AND 0x1F) = 0 \<longleftrightarrow> \<not> vlan_let f v"
proof
  assume "f (vfta_at v) AND bit_of (v AND 0x1F) = 0"
  then have "\<not> bit (f (vfta_at v) AND bit_of (v AND 0x1F)) (unat (v AND 0x1F))" by simp
  then show "\<not> vlan_let f v" using vfta_index(2)[of v] by (simp add: vlan_let_def bit_and_iff bit_of_iff)
next
  assume "\<not> vlan_let f v"
  then show "f (vfta_at v) AND bit_of (v AND 0x1F) = 0"
    by (intro bit_word_eqI) (auto simp: vlan_let_def bit_and_iff bit_of_iff)
qed

end
