(* ===== verification/VlanMap.thy ===== *)
theory VlanMap
  imports VlanProps
begin

text \<open>
  The VLAN tables as a map: on filter registers that hold what is written, \<open>ixgbe_set_vfta_generic\<close> keeps the
  set of pools of each VLAN and the set of VLANs let through.
\<close>

section \<open>The tables as a map\<close>

text \<open>\<open>vlvf_holds f i v\<close>: entry \<open>i\<close> is the entry of VLAN \<open>v\<close>; entry 0 is kept for VLAN 0.\<close>

definition vlvf_holds :: "(u32 \<Rightarrow> u32) \<Rightarrow> nat \<Rightarrow> u32 \<Rightarrow> bool" where
  "vlvf_holds f i v \<longleftrightarrow> (if i = 0 then v = 0 else i < 64 \<and> v \<noteq> 0 \<and> v \<le> 4095 \<and> f (IXGBE_VLVF i) = IXGBE_VLVF_VIEN OR v)"

definition pools_at :: "(u32 \<Rightarrow> u32) \<Rightarrow> nat \<Rightarrow> u32 set" where
  "pools_at f i = {p. unat p < 64 \<and> f (pool_reg i p) AND pool_bit p \<noteq> 0}"

definition vlan_pools :: "(u32 \<Rightarrow> u32) \<Rightarrow> u32 \<Rightarrow> u32 set" where
  "vlan_pools f v = (\<Union>i \<in> {i. vlvf_holds f i v}. pools_at f i)"

definition vlans_let :: "(u32 \<Rightarrow> u32) \<Rightarrow> u32 set" where
  "vlans_let f = {v. v \<le> 4095 \<and> vlan_let f v}"

text \<open>An entry in use has a VLAN and a pool, a free one has no pool, and no VLAN has two entries.\<close>

definition vlvf_ok :: "(u32 \<Rightarrow> u32) \<Rightarrow> bool" where
  "vlvf_ok f \<longleftrightarrow>
     (\<forall>i \<in> {1..<64}. if f (IXGBE_VLVF i) = 0 then pools_at f i = {} else pools_at f i \<noteq> {} \<and> (\<exists>v. vlvf_holds f i v)) \<and>
     (\<forall>v i j. vlvf_holds f i v \<and> vlvf_holds f j v \<longrightarrow> i = j)"

text \<open>
  The specification: a VLAN gains or loses a pool. A VLAN other than 0 needs one of 63 entries; when there
  is none it is let through without a pool. A VLAN is no longer let through once it has no pool.
\<close>

definition vlan_room :: "(u32 \<Rightarrow> u32 set) \<Rightarrow> u32 \<Rightarrow> bool" where
  "vlan_room P v \<longleftrightarrow> v = 0 \<or> P v \<noteq> {} \<or> card {w. w \<noteq> 0 \<and> P w \<noteq> {}} < 63"

definition vlan_spec :: "bool \<Rightarrow> u32 \<Rightarrow> u32 \<Rightarrow> (u32 \<Rightarrow> u32 set) \<times> u32 set \<Rightarrow> (u32 \<Rightarrow> u32 set) \<times> u32 set" where
  "vlan_spec on v p = (\<lambda>(P, L).
     if on then (if vlan_room P v then P(v := insert p (P v)) else P, insert v L)
     else (P(v := P v - {p}), if P v - {p} = {} then L - {v} else L))"

definition vlan_abs :: "(u32 \<Rightarrow> u32) \<Rightarrow> (u32 \<Rightarrow> u32 set) \<times> u32 set" where
  "vlan_abs f = (vlan_pools f, vlans_let f)"

subsection \<open>Entries and slots\<close>

lemma vien_id: "v \<le> 4095 \<Longrightarrow> (IXGBE_VLVF_VIEN OR v) AND 0xFFF = v" for v :: u32
proof -
  assume "v \<le> 4095"
  then have "unat (v AND mask 12) = unat v" by (simp only: unat_and_mask) (simp add: word_le_nat_alt)
  then have "v AND mask 12 = v" by (rule unsigned_word_eqI)
  then show ?thesis by (simp add: bit.conj_disj_distrib2 mask_eq_exp_minus_1)
qed

lemma vien_nonzero: "(IXGBE_VLVF_VIEN OR v) \<noteq> 0" for v :: u32
  by (simp add: or_eq_0_iff)

lemma vien_inj: "v \<le> 4095 \<Longrightarrow> w \<le> 4095 \<Longrightarrow> IXGBE_VLVF_VIEN OR v = IXGBE_VLVF_VIEN OR w \<longleftrightarrow> v = w" for v :: u32
  by (metis vien_id)

lemma vlvf_holds_zero [simp]: "vlvf_holds f 0 v \<longleftrightarrow> v = 0" "vlvf_holds f i 0 \<longleftrightarrow> i = 0"
  by (simp_all add: vlvf_holds_def)

lemma holds_fun: "vlvf_holds f i v \<Longrightarrow> vlvf_holds f i w \<Longrightarrow> v = w"
  by (auto simp: vlvf_holds_def vien_inj split: if_splits)

lemma ok_inj: "vlvf_ok f \<Longrightarrow> vlvf_holds f i v \<Longrightarrow> vlvf_holds f j v \<Longrightarrow> i = j"
  unfolding vlvf_ok_def by blast

lemma pools_of_holder: "vlvf_ok f \<Longrightarrow> vlvf_holds f i v \<Longrightarrow> vlan_pools f v = pools_at f i"
proof -
  assume "vlvf_ok f" "vlvf_holds f i v"
  then have "{j. vlvf_holds f j v} = {i}" using ok_inj[of f] by blast
  then show ?thesis by (simp add: vlan_pools_def)
qed

lemma pools_of_none: "(\<And>i. \<not> vlvf_holds f i v) \<Longrightarrow> vlan_pools f v = {}"
  by (simp add: vlan_pools_def)

lemma holder_iff:
  assumes "vlvf_ok f" "v \<noteq> 0" "v \<le> 4095" "1 \<le> i" "i < 64"
  shows "f (IXGBE_VLVF i) AND 0xFFF = v \<longleftrightarrow> vlvf_holds f i v"
proof
  assume e: "f (IXGBE_VLVF i) AND 0xFFF = v"
  then have "f (IXGBE_VLVF i) \<noteq> 0" using assms(2) by auto
  moreover have "i \<in> {1..<64}" using assms by simp
  ultimately obtain w where w: "vlvf_holds f i w" using assms(1) unfolding vlvf_ok_def by meson
  then have "f (IXGBE_VLVF i) = IXGBE_VLVF_VIEN OR w" "w \<le> 4095" using assms(4) by (simp_all add: vlvf_holds_def)
  then show "vlvf_holds f i v" using w e vien_id[of w] by simp
qed (use assms in \<open>simp add: vlvf_holds_def vien_id\<close>)

text \<open>What a slot is: the entry of the VLAN, a free entry, or none.\<close>

lemma slot_cases:
  assumes "vlvf_ok f" "v \<le> 4095"
  obtains (holder) i where "slot_of f v = int i" "i < 64" "vlvf_holds f i v"
  | (free) i where "slot_of f v = int i" "1 \<le> i" "i < 64" "v \<noteq> 0" "f (IXGBE_VLVF i) = 0" "\<And>j. \<not> vlvf_holds f j v"
  | (full) "slot_of f v = IXGBE_ERR_NO_SPACE" "v \<noteq> 0" "\<And>i. 1 \<le> i \<Longrightarrow> i < 64 \<Longrightarrow> f (IXGBE_VLVF i) \<noteq> 0" "\<And>j. \<not> vlvf_holds f j v"
proof (cases "v = 0")
  case True
  then show ?thesis using holder[of 0] by (simp add: slot_of_def)
next
  case False
  let ?F = "find (\<lambda>j. f (IXGBE_VLVF j) AND 0xFFF = v) [1..<64]"
  let ?Z = "find (\<lambda>j. f (IXGBE_VLVF j) = 0) [1..<64]"
  have F: "?F = Some i \<Longrightarrow> 1 \<le> i \<and> i < 64 \<and> vlvf_holds f i v" for i
    using holder_iff[OF assms(1) False assms(2), of i] by (auto simp: find_Some_iff simp del: upt_rec_numeral)
  have F0: "?F = None \<Longrightarrow> \<not> vlvf_holds f j v" for j
    using holder_iff[OF assms(1) False assms(2), of j] False by (cases "j = 0") (auto simp: find_None_iff vlvf_holds_def simp del: upt_rec_numeral)
  have Z: "?Z = Some i \<Longrightarrow> 1 \<le> i \<and> i < 64 \<and> f (IXGBE_VLVF i) = 0" for i
    by (auto simp: find_Some_iff simp del: upt_rec_numeral)
  have Z0: "?Z = None \<Longrightarrow> 1 \<le> i \<Longrightarrow> i < 64 \<Longrightarrow> f (IXGBE_VLVF i) \<noteq> 0" for i
    by (auto simp: find_None_iff simp del: upt_rec_numeral)
  show ?thesis
  proof (cases ?F)
    case (Some i)
    then show ?thesis using F[OF Some] False holder[of i] by (simp add: slot_of_def del: upt_rec_numeral)
  next
    case None
    show ?thesis
    proof (cases ?Z)
      case (Some i)
      then show ?thesis using Z[OF Some] F0[OF None] False None free[of i] by (simp add: slot_of_def del: upt_rec_numeral)
    next
      case none: None
      then show ?thesis using Z0[OF none] F0[OF None] False None full by (simp add: slot_of_def del: upt_rec_numeral)
    qed
  qed
qed

subsection \<open>Pool bits\<close>

lemma half_64: "n < 64 \<Longrightarrow> n div 32 = (if n < 32 then 0 else 1)" "n < 64 \<Longrightarrow> n mod 32 = (if n < 32 then n else n - 32)" for n :: nat
  by (cases "n < 32"; simp add: le_div_geq le_mod_geq)+

lemma pool_reg_div: "unat p < 64 \<Longrightarrow> pool_reg i p = IXGBE_VLVFB (i * 2 + unat p div 32)"
  by (simp add: pool_reg_def word_less_nat_alt half_64)

lemma two_regs: "x < 2 \<Longrightarrow> y < 2 \<Longrightarrow> i * 2 + x = j * 2 + y \<longleftrightarrow> i = j \<and> x = y" for i j x y :: nat
  by presburger

lemma pool_reg_eq:
  assumes "i < 64" "j < 64" "unat p < 64" "unat q < 64"
  shows "pool_reg i p = pool_reg j q \<longleftrightarrow> i = j \<and> unat p div 32 = unat q div 32"
proof -
  have b: "unat p div 32 < 2" "unat q div 32 < 2" using assms by (simp_all add: half_64)
  have l: "i * 2 + unat p div 32 < 128" "j * 2 + unat q div 32 < 128" using b assms(1,2) by linarith+
  show ?thesis unfolding pool_reg_div[OF assms(3)] pool_reg_div[OF assms(4)] vlan_regs_inj(2)[OF l] by (rule two_regs[OF b])
qed

lemma pool_bit_iff:
  assumes "unat p < 64"
  shows "bit (pool_bit p) k \<longleftrightarrow> k = unat p mod 32"
proof (cases "p < 32")
  case True
  then show ?thesis by (auto simp: pool_bit_def bit_of_iff word_less_nat_alt)
next
  case False
  then have "unat (p - 32) = unat p - 32" by (subst unat_sub) (simp_all add: word_le_nat_alt not_less)
  moreover have "unat p - 32 = unat p mod 32" using False assms by (simp add: word_less_nat_alt half_64)
  ultimately show ?thesis using False by (auto simp: pool_bit_def bit_of_iff)
qed

lemma pool_test: "unat p < 64 \<Longrightarrow> w AND pool_bit p \<noteq> 0 \<longleftrightarrow> bit w (unat p mod 32)"
proof
  assume p: "unat p < 64" and "bit w (unat p mod 32)"
  then have "bit (w AND pool_bit p) (unat p mod 32)" by (simp add: bit_and_iff pool_bit_iff)
  then show "w AND pool_bit p \<noteq> 0" by auto
next
  assume p: "unat p < 64" and "w AND pool_bit p \<noteq> 0"
  then obtain k where "bit (w AND pool_bit p) k" using bit_eq_iff[of "w AND pool_bit p" 0] by auto
  then show "bit w (unat p mod 32)" using p by (auto simp: bit_and_iff pool_bit_iff)
qed

lemma pools_at_bit: "pools_at f i = {p. unat p < 64 \<and> bit (f (pool_reg i p)) (unat p mod 32)}"
  unfolding pools_at_def using pool_test by blast

lemma same_pool: "unat p div 32 = unat q div 32 \<Longrightarrow> unat p mod 32 = unat q mod 32 \<Longrightarrow> p = q" for p q :: u32
  by (metis div_mult_mod_eq unsigned_word_eqI)

lemma pools_at_cong: "(\<And>k. k < 128 \<Longrightarrow> f (IXGBE_VLVFB k) = g (IXGBE_VLVFB k)) \<Longrightarrow> i < 64 \<Longrightarrow> pools_at f i = pools_at g i"
  by (auto simp: pools_at_def pool_reg_def)

lemma same_pool_iff:
  assumes "i < 64" "j < 64" "unat p < 64" "unat q < 64"
  shows "pool_reg j q = pool_reg i p \<and> unat q mod 32 = unat p mod 32 \<longleftrightarrow> j = i \<and> q = p"
  using same_pool[of q p] by (auto simp: pool_reg_eq[OF assms(2,1,4,3)])

lemma pools_at_insert:
  assumes "i < 64" "j < 64" "unat p < 64"
  shows "pools_at (f(pool_reg i p := f (pool_reg i p) OR pool_bit p)) j = (if j = i then insert p (pools_at f i) else pools_at f j)"
proof (rule set_eqI)
  fix q
  show "q \<in> pools_at (f(pool_reg i p := f (pool_reg i p) OR pool_bit p)) j \<longleftrightarrow> q \<in> (if j = i then insert p (pools_at f i) else pools_at f j)"
    using same_pool_iff[OF assms, of q] assms(3) by (cases "pool_reg j q = pool_reg i p") (auto simp: pools_at_bit bit_or_iff pool_bit_iff)
qed

lemma pools_at_remove:
  assumes "i < 64" "j < 64" "unat p < 64"
  shows "pools_at (left_pools f i p) j = (if j = i then pools_at f i - {p} else pools_at f j)"
proof (rule set_eqI)
  fix q :: u32
  have b: "unat q mod 32 < 32" by simp
  show "q \<in> pools_at (left_pools f i p) j \<longleftrightarrow> q \<in> (if j = i then pools_at f i - {p} else pools_at f j)"
    using same_pool_iff[OF assms, of q] assms(3) b
    by (cases "pool_reg j q = pool_reg i p") (auto simp: left_pools_def pools_at_bit bit_and_iff bit_not_iff pool_bit_iff)
qed

lemma pools_at_empty: "pools_at f i = {} \<longleftrightarrow> f (IXGBE_VLVFB (i * 2)) OR f (IXGBE_VLVFB (i * 2 + 1)) = 0"
proof
  assume e: "pools_at f i = {}"
  have n: "\<not> bit (f (pool_reg i p)) (unat p mod 32)" if "unat p < 64" for p
    using e that by (auto simp: pools_at_bit)
  have "\<not> bit (f (IXGBE_VLVFB (i * 2))) k" "\<not> bit (f (IXGBE_VLVFB (i * 2 + 1))) k" if "k < 32" for k
    using n[of "of_nat k"] n[of "of_nat (k + 32)"] that
    by (simp_all add: pool_reg_div unat_of_nat half_64 del: of_nat_add)
  then show "f (IXGBE_VLVFB (i * 2)) OR f (IXGBE_VLVFB (i * 2 + 1)) = 0"
    by (intro bit_word_eqI) (simp add: bit_or_iff)
next
  assume "f (IXGBE_VLVFB (i * 2)) OR f (IXGBE_VLVFB (i * 2 + 1)) = 0"
  then have "f (IXGBE_VLVFB (i * 2)) = 0" "f (IXGBE_VLVFB (i * 2 + 1)) = 0" by (simp_all add: or_eq_0_iff)
  then show "pools_at f i = {}" by (auto simp: pools_at_def pool_reg_def)
qed

subsection \<open>One entry rewritten\<close>

lemma entry_update:
  assumes ok: "vlvf_ok f" and i: "i < 64" "i = 0 \<longleftrightarrow> v = 0" "v \<le> 4095"
    and slot: "vlvf_holds f i v \<or> (f (IXGBE_VLVF i) = 0 \<and> (\<forall>j. \<not> vlvf_holds f j v))"
    and pools: "\<And>j. j < 64 \<Longrightarrow> pools_at g j = (if j = i then Q else pools_at f j)"
    and others: "\<And>j. j < 64 \<Longrightarrow> j \<noteq> i \<Longrightarrow> g (IXGBE_VLVF j) = f (IXGBE_VLVF j)"
    and own: "g (IXGBE_VLVF i) = (if Q = {} then 0 else IXGBE_VLVF_VIEN OR v)"
  shows "vlvf_ok g \<and> vlan_pools g = (vlan_pools f)(v := Q)"
proof -
  have h: "vlvf_holds g j w \<longleftrightarrow> (if j = i then w = v \<and> (i = 0 \<or> Q \<noteq> {}) else vlvf_holds f j w)" for j w
  proof (cases "j = i")
    case True
    show ?thesis
    proof (cases "i = 0")
      case False
      then have "vlvf_holds g j w \<longleftrightarrow> w \<noteq> 0 \<and> w \<le> 4095 \<and> (if Q = {} then 0 else IXGBE_VLVF_VIEN OR v) = IXGBE_VLVF_VIEN OR w"
        using True i(1) by (simp add: vlvf_holds_def own)
      then show ?thesis using True False i vien_nonzero[of w] vien_inj[OF i(3), of w] by (cases "w \<le> 4095"; cases "Q = {}"; metis)
    qed (use True i in simp)
  next
    case False
    then show ?thesis using others[of j] by (auto simp: vlvf_holds_def)
  qed
  have only: "vlvf_holds f j v \<Longrightarrow> j = i" for j using slot ok_inj[OF ok] by blast
  have mine: "vlvf_holds f i w \<Longrightarrow> w = v" for w
    using slot i(2) vien_nonzero[of w] holds_fun[of f i w v] by (auto simp: vlvf_holds_def split: if_splits)
  have "vlvf_ok g"
    unfolding vlvf_ok_def
  proof (intro conjI ballI allI impI)
    fix j :: nat assume j: "j \<in> {1..<64}"
    show "if g (IXGBE_VLVF j) = 0 then pools_at g j = {} else pools_at g j \<noteq> {} \<and> (\<exists>v. vlvf_holds g j v)"
    proof (cases "j = i")
      case True
      then show ?thesis using own pools[OF i(1)] h vien_nonzero[of v] by auto
    next
      case False
      have "if f (IXGBE_VLVF j) = 0 then pools_at f j = {} else pools_at f j \<noteq> {} \<and> (\<exists>v. vlvf_holds f j v)"
        using ok j unfolding vlvf_ok_def by blast
      then show ?thesis using False j others[of j] pools[of j] h by auto
    qed
  next
    fix w j k assume "vlvf_holds g j w \<and> vlvf_holds g k w"
    then have "j = i \<and> w = v \<or> vlvf_holds f j w \<and> j \<noteq> i" "k = i \<and> w = v \<or> vlvf_holds f k w \<and> k \<noteq> i"
      unfolding h by (auto split: if_splits)
    then show "j = k" using only ok_inj[OF ok] by blast
  qed
  moreover have "vlan_pools g w = ((vlan_pools f)(v := Q)) w" for w
  proof (cases "w = v")
    case True
    show ?thesis
    proof (cases "i = 0 \<or> Q \<noteq> {}")
      case t: True
      then show ?thesis using pools_of_holder[OF \<open>vlvf_ok g\<close>, of i v] h True pools[OF i(1)] by simp
    next
      case False
      then have "\<not> vlvf_holds g j v" for j using h only by auto
      then show ?thesis using pools_of_none[of g v] False True by simp
    qed
  next
    case False
    have "{j. vlvf_holds g j w} = {j. vlvf_holds f j w}" using h mine False by auto
    moreover have "pools_at g j = pools_at f j" if "vlvf_holds f j w" for j
      using that False mine pools[of j] by (auto simp: vlvf_holds_def split: if_splits)
    ultimately show ?thesis using False by (auto simp: vlan_pools_def)
  qed
  ultimately show ?thesis by blast
qed

subsection \<open>Room\<close>

definition used_entries :: "(u32 \<Rightarrow> u32) \<Rightarrow> nat set" where
  "used_entries f = {i \<in> {1..<64}. f (IXGBE_VLVF i) \<noteq> 0}"

lemma used_holds:
  assumes "vlvf_ok f" "i \<in> used_entries f"
  obtains v where "vlvf_holds f i v" "v \<noteq> 0" "v \<le> 4095" "f (IXGBE_VLVF i) AND 0xFFF = v" "pools_at f i \<noteq> {}"
proof -
  have i: "i \<in> {1..<64}" "f (IXGBE_VLVF i) \<noteq> 0" using assms(2) by (simp_all add: used_entries_def)
  then have "pools_at f i \<noteq> {} \<and> (\<exists>v. vlvf_holds f i v)" using assms(1) unfolding vlvf_ok_def by meson
  then obtain v where "vlvf_holds f i v" "pools_at f i \<noteq> {}" by blast
  with i(1) that show ?thesis by (auto simp: vlvf_holds_def vien_id)
qed

lemma vlan_of_used:
  assumes "vlvf_ok f"
  shows "bij_betw (\<lambda>i. f (IXGBE_VLVF i) AND 0xFFF) (used_entries f) {w. w \<noteq> 0 \<and> vlan_pools f w \<noteq> {}}"
proof (rule bij_betw_imageI)
  show "inj_on (\<lambda>i. f (IXGBE_VLVF i) AND 0xFFF) (used_entries f)"
    by (rule inj_onI) (metis used_holds[OF assms] ok_inj[OF assms])
  show "(\<lambda>i. f (IXGBE_VLVF i) AND 0xFFF) ` used_entries f = {w. w \<noteq> 0 \<and> vlan_pools f w \<noteq> {}}"
  proof (intro set_eqI iffI)
    fix w assume "w \<in> (\<lambda>i. f (IXGBE_VLVF i) AND 0xFFF) ` used_entries f"
    then obtain i where "i \<in> used_entries f" "w = f (IXGBE_VLVF i) AND 0xFFF" by blast
    moreover obtain v where "vlvf_holds f i v" "v \<noteq> 0" "f (IXGBE_VLVF i) AND 0xFFF = v" "pools_at f i \<noteq> {}"
      using used_holds[OF assms calculation(1)] by blast
    ultimately show "w \<in> {w. w \<noteq> 0 \<and> vlan_pools f w \<noteq> {}}" using pools_of_holder[OF assms, of i v] by simp
  next
    fix w assume w: "w \<in> {w. w \<noteq> 0 \<and> vlan_pools f w \<noteq> {}}"
    then obtain i where i: "vlvf_holds f i w" using pools_of_none by blast
    then have "i \<in> used_entries f" "f (IXGBE_VLVF i) AND 0xFFF = w"
      using w vien_nonzero[of w] by (auto simp: vlvf_holds_def used_entries_def vien_id split: if_splits)
    then show "w \<in> (\<lambda>i. f (IXGBE_VLVF i) AND 0xFFF) ` used_entries f" by blast
  qed
qed

lemma vlan_count: "vlvf_ok f \<Longrightarrow> card {w. w \<noteq> 0 \<and> vlan_pools f w \<noteq> {}} = card (used_entries f)"
  using bij_betw_same_card[OF vlan_of_used] by simp

lemma room_free:
  assumes "vlvf_ok f" "1 \<le> i" "i < 64" "f (IXGBE_VLVF i) = 0"
  shows "vlan_room (vlan_pools f) v"
proof -
  have "used_entries f \<subseteq> {1..<64} - {i}" unfolding used_entries_def using assms(4) by blast
  then have "card (used_entries f) \<le> card ({1..<64} - {i})" by (rule card_mono[rotated]) (rule finite_Diff, rule finite_atLeastLessThan)
  also have "card ({1..<64} - {i}) = 62" using assms(2,3) by (subst card_Diff_singleton) simp_all
  finally show ?thesis by (simp add: vlan_room_def vlan_count[OF assms(1)])
qed

lemma room_holder:
  assumes "vlvf_ok f" "vlvf_holds f i v"
  shows "vlan_room (vlan_pools f) v"
proof (cases "v = 0")
  case False
  then have "i \<in> used_entries f" using assms(2) vien_nonzero[of v] by (auto simp: vlvf_holds_def used_entries_def split: if_splits)
  then have "pools_at f i \<noteq> {}" using used_holds[OF assms(1)] by blast
  then show ?thesis using pools_of_holder[OF assms] by (simp add: vlan_room_def)
qed (simp add: vlan_room_def)

lemma no_room:
  assumes "vlvf_ok f" "v \<noteq> 0" "\<And>i. 1 \<le> i \<Longrightarrow> i < 64 \<Longrightarrow> f (IXGBE_VLVF i) \<noteq> 0" "\<And>j. \<not> vlvf_holds f j v"
  shows "\<not> vlan_room (vlan_pools f) v"
proof -
  have "used_entries f = {1..<64}" using assms(3) by (auto simp: used_entries_def)
  then show ?thesis using pools_of_none[OF assms(4)] assms(2) by (simp add: vlan_room_def vlan_count[OF assms(1)])
qed

subsection \<open>The two updates\<close>

lemma entry_cong:
  assumes "\<And>i. i < 64 \<Longrightarrow> f (IXGBE_VLVF i) = g (IXGBE_VLVF i)" "\<And>k. k < 128 \<Longrightarrow> f (IXGBE_VLVFB k) = g (IXGBE_VLVFB k)"
  shows "vlvf_ok f = vlvf_ok g" "vlan_pools f = vlan_pools g"
proof -
  have h: "vlvf_holds f = vlvf_holds g" using assms(1) by (auto simp: vlvf_holds_def fun_eq_iff)
  have p: "i < 64 \<Longrightarrow> pools_at f i = pools_at g i" for i using assms(2) by (intro pools_at_cong) simp_all
  show "vlan_pools f = vlan_pools g"
    using p by (auto simp: vlan_pools_def h vlvf_holds_def fun_eq_iff split: if_splits)
  show "vlvf_ok f = vlvf_ok g" using p assms(1) by (simp add: vlvf_ok_def h)
qed

text \<open>The entry a slot names: it is the VLAN's own, or it is free and the VLAN has none.\<close>

definition names :: "(u32 \<Rightarrow> u32) \<Rightarrow> nat \<Rightarrow> u32 \<Rightarrow> bool" where
  "names f i v \<longleftrightarrow> i < 64 \<and> (i = 0 \<longleftrightarrow> v = 0) \<and> v \<le> 4095 \<and>
     (vlvf_holds f i v \<or> (f (IXGBE_VLVF i) = 0 \<and> (\<forall>j. \<not> vlvf_holds f j v)))"

lemma names_pools:
  assumes "vlvf_ok f" "names f i v"
  shows "vlan_pools f v = pools_at f i"
proof (cases "vlvf_holds f i v")
  case False
  then have f: "f (IXGBE_VLVF i) = 0" "\<And>j. \<not> vlvf_holds f j v" "i \<in> {1..<64}"
    using assms(2) by (auto simp: names_def vlvf_holds_def split: if_splits)
  then have "pools_at f i = {}" using assms(1) unfolding vlvf_ok_def by meson
  then show ?thesis using pools_of_none[OF f(2)] by simp
qed (rule pools_of_holder[OF assms(1)])

lemma on_regs_entry:
  assumes "vlvf_ok f" "names f i v" "unat p < 64"
  shows "vlvf_ok (on_regs f i v p) \<and> vlan_pools (on_regs f i v p) = (vlan_pools f)(v := insert p (vlan_pools f v))"
proof -
  have i: "i < 64" using assms(2) by (simp add: names_def)
  show ?thesis unfolding names_pools[OF assms(1,2)]
  proof (rule entry_update)
    fix j :: nat assume j: "j < 64"
    have "pools_at (on_regs f i v p) j = pools_at (f(pool_reg i p := f (pool_reg i p) OR pool_bit p)) j"
      using i j by (intro pools_at_cong) (simp_all add: on_regs_def)
    then show "pools_at (on_regs f i v p) j = (if j = i then insert p (pools_at f i) else pools_at f j)"
      using pools_at_insert[OF i j assms(3)] by simp
    show "j \<noteq> i \<Longrightarrow> on_regs f i v p (IXGBE_VLVF j) = f (IXGBE_VLVF j)"
      using i j by (simp add: on_regs_def pool_reg_def)
  qed (use assms i in \<open>auto simp: names_def on_regs_def\<close>)
qed

lemma off_regs_entry:
  assumes "vlvf_ok f" "names f i v" "unat p < 64"
  shows "vlvf_ok (off_regs f i v p) \<and> vlan_pools (off_regs f i v p) = (vlan_pools f)(v := vlan_pools f v - {p})"
    and "off_regs f i v p (IXGBE_VLVF i) = 0 \<longleftrightarrow> vlan_pools f v - {p} = {}"
proof -
  have i: "i < 64" using assms(2) by (simp add: names_def)
  have own: "off_regs f i v p (IXGBE_VLVF i) = (if pools_at f i - {p} = {} then 0 else IXGBE_VLVF_VIEN OR v)"
    using pools_at_remove[OF i i assms(3), of f] pools_at_empty[of "left_pools f i p" i] by (simp add: off_regs_def Let_def)
  show "off_regs f i v p (IXGBE_VLVF i) = 0 \<longleftrightarrow> vlan_pools f v - {p} = {}"
    unfolding own names_pools[OF assms(1,2)] using vien_nonzero[of v] by simp
  show "vlvf_ok (off_regs f i v p) \<and> vlan_pools (off_regs f i v p) = (vlan_pools f)(v := vlan_pools f v - {p})"
    unfolding names_pools[OF assms(1,2)]
  proof (rule entry_update)
    fix j :: nat assume j: "j < 64"
    have "pools_at (off_regs f i v p) j = pools_at (left_pools f i p) j"
      using i j by (intro pools_at_cong) (simp_all add: off_regs_def Let_def)
    then show "pools_at (off_regs f i v p) j = (if j = i then pools_at f i - {p} else pools_at f j)"
      using pools_at_remove[OF i j assms(3)] by simp
    show "j \<noteq> i \<Longrightarrow> off_regs f i v p (IXGBE_VLVF j) = f (IXGBE_VLVF j)"
      using i j by (simp add: off_regs_def Let_def left_pools_def pool_reg_def)
  qed (use assms own in \<open>auto simp: names_def\<close>)
qed

subsection \<open>The operation\<close>

abbreviation vt_on :: "(u32 \<Rightarrow> u32) \<Rightarrow> bool" where
  "vt_on f \<equiv> f IXGBE_VT_CTL AND IXGBE_VT_CTL_VT_ENABLE \<noteq> 0"

lemma slot_names:
  assumes "vlvf_ok f" "v \<le> 4095"
  obtains (entry) i where "slot_of f v = int i" "names f i v" "vlan_room (vlan_pools f) v"
  | (full) "slot_of f v < 0" "\<not> vlan_room (vlan_pools f) v" "vlan_pools f v = {}"
  using assms
proof (cases rule: slot_cases)
  case (holder i)
  then have "names f i v" using assms(2) by (auto simp: names_def vlvf_holds_def split: if_splits)
  then show ?thesis using holder room_holder[OF assms(1)] that(1) by blast
next
  case (free i)
  then have "names f i v" using assms(2) by (simp add: names_def)
  then show ?thesis using free room_free[OF assms(1)] that(1) by blast
next
  case full
  show ?thesis using no_room[OF assms(1) full(2-4)] pools_of_none[OF full(4)] full(1) that(2) by simp
qed

text \<open>The write of the VLAN bit touches neither the entries nor the enable bit.\<close>

lemma vfta_write:
  "vlvf_ok (f(vfta_at v := x)) = vlvf_ok f" "vlan_pools (f(vfta_at v := x)) = vlan_pools f" "(f(vfta_at v := x)) IXGBE_VT_CTL = f IXGBE_VT_CTL"
  using entry_cong[of "f(vfta_at v := x)" f] by (simp_all add: vfta_at_def vfta_index)

lemma vlans_let_on: "v \<le> 4095 \<Longrightarrow> vlans_let (f(vfta_at v := f (vfta_at v) OR bit_of (v AND 0x1F))) = insert v (vlans_let f)"
  using vlan_let_on[of v _ f] by (auto simp: vlans_let_def)

lemma vlans_let_off: "v \<le> 4095 \<Longrightarrow> vlans_let (f(vfta_at v := f (vfta_at v) AND NOT (bit_of (v AND 0x1F)))) = vlans_let f - {v}"
  using vlan_let_off[of v _ f] by (auto simp: vlans_let_def)

lemma vlans_let_same: "(\<And>w. f (vfta_at w) = g (vfta_at w)) \<Longrightarrow> vlans_let f = vlans_let g"
  by (simp add: vlans_let_def vlan_let_def)

lemma entry_vfta:
  "i < 64 \<Longrightarrow> on_regs f i v p (vfta_at w) = f (vfta_at w)" "i < 64 \<Longrightarrow> off_regs f i v p (vfta_at w) = f (vfta_at w)"
  "i < 64 \<Longrightarrow> on_regs f i v p IXGBE_VT_CTL = f IXGBE_VT_CTL" "i < 64 \<Longrightarrow> off_regs f i v p IXGBE_VT_CTL = f IXGBE_VT_CTL"
  by (simp_all add: on_regs_def off_regs_def left_pools_def Let_def pool_reg_def vt_ctl_ne[symmetric])

text \<open>What \<open>ixgbe_set_vlvf_generic\<close> does to the tables, with or without a free entry.\<close>

definition vlvf_step :: "bool \<Rightarrow> u32 \<Rightarrow> u32 \<Rightarrow> (u32 \<Rightarrow> u32 set) \<Rightarrow> u32 \<Rightarrow> u32 set" where
  "vlvf_step on v p P = (if on then (if vlan_room P v then P(v := insert p (P v)) else P) else P(v := P v - {p}))"

lemma set_vlvf_abs:
  assumes "plain_bank R vlan_regs reg" "vlvf_ok (regs reg hw)" "vt_on (regs reg hw)" "v \<le> 4095" "unat p < 64"
  shows "\<exists>r ch' hw'. ixgbe_set_vlvf_generic R v p on ch hw = (r, ch', hw') \<and> vlvf_ok (regs reg hw') \<and>
     vlan_pools (regs reg hw') = vlvf_step on v p (vlan_pools (regs reg hw)) \<and>
     ch' = (ch \<and> (on \<or> vlan_pools (regs reg hw) v - {p} = {})) \<and>
     regs reg hw' IXGBE_VT_CTL = regs reg hw IXGBE_VT_CTL \<and> (\<forall>w. regs reg hw' (vfta_at w) = regs reg hw (vfta_at w))"
  using assms(2,4)
proof (cases rule: slot_names)
  case (entry i)
  then have i: "i < 64" by (simp add: names_def)
  obtain r ch' hw' where s: "ixgbe_set_vlvf_generic R v p on ch hw = (r, ch', hw')"
      "if on then ch' = ch \<and> regs reg hw' = on_regs (regs reg hw) i v p
       else ch' = (ch \<and> off_regs (regs reg hw) i v p (IXGBE_VLVF i) = 0) \<and> regs reg hw' = off_regs (regs reg hw) i v p"
    using set_vlvf_regs[OF assms(1,4,5,3) entry(1), of on ch] i by auto
  show ?thesis
  proof (cases on)
    case True
    then show ?thesis using s on_regs_entry[OF assms(2) entry(2) assms(5)] entry(3) entry_vfta[OF i] by (simp add: vlvf_step_def)
  next
    case False
    then show ?thesis using s off_regs_entry[OF assms(2) entry(2) assms(5)] entry_vfta[OF i] by (simp add: vlvf_step_def)
  qed
next
  case full
  then obtain r ch' hw' where "ixgbe_set_vlvf_generic R v p on ch hw = (r, ch', hw')" "ch' = ch" "regs reg hw' = regs reg hw"
    using set_vlvf_regs[OF assms(1,4,5,3) refl, of on ch] by auto
  moreover have "(vlan_pools (regs reg hw))(v := {}) = vlan_pools (regs reg hw)" using full(3) by (simp add: fun_upd_idem)
  ultimately show ?thesis using full assms(2) by (simp add: vlvf_step_def)
qed

text \<open>The VLAN bit is written once the entry is, and only when it changes.\<close>

lemma set_vfta_abs:
  assumes "plain_bank R vlan_regs reg" "vlvf_ok (regs reg hw)" "vt_on (regs reg hw)" "v \<le> 4095" "unat p < 64"
  shows "\<exists>hw'. ixgbe_set_vfta_generic R v p on hw = (0, hw') \<and> vlvf_ok (regs reg hw') \<and> vt_on (regs reg hw') \<and>
     vlan_abs (regs reg hw') = vlan_spec on v p (vlan_abs (regs reg hw))"
proof -
  let ?f = "regs reg hw" and ?b = "bit_of (v AND 0x1F)"
  let ?ch = "if on then ?f (vfta_at v) AND ?b = 0 else ?f (vfta_at v) AND ?b \<noteq> 0"
  let ?x = "if on then ?f (vfta_at v) OR ?b else ?f (vfta_at v) AND NOT ?b"
  obtain vfta hw1 where r: "IXGBE_READ_REG R (vfta_at v) hw = (vfta, hw1)" by fastforce
  then have vfta: "vfta = ?f (vfta_at v)" "regs reg hw1 = ?f" using bank_read[OF assms(1) vfta_at_in, of v hw] by simp_all
  obtain e ch' hw2 where s: "ixgbe_set_vlvf_generic R v p on ?ch hw1 = (e, ch', hw2)" "vlvf_ok (regs reg hw2)"
      "vlan_pools (regs reg hw2) = vlvf_step on v p (vlan_pools ?f)" "ch' = (?ch \<and> (on \<or> vlan_pools ?f v - {p} = {}))"
      "regs reg hw2 IXGBE_VT_CTL = ?f IXGBE_VT_CTL" "\<forall>w. regs reg hw2 (vfta_at w) = ?f (vfta_at w)"
    using set_vlvf_abs[of R reg hw1 v p on ?ch] assms vfta(2) by auto
  let ?hw = "if ch' then IXGBE_WRITE_REG R (vfta_at v) ?x hw2 else hw2"
  have e: "ixgbe_set_vfta_generic R v p on hw = (0, ?hw)"
    using assms(4) r s(1) vfta(1) unfolding ixgbe_set_vfta_generic_def vfta_at_def by (simp add: Let_def)
  have w: "regs reg ?hw = (if ch' then (regs reg hw2)(vfta_at v := ?x) else regs reg hw2)"
    using bank_write[OF assms(1) vfta_at_in, of v ?x hw2] by simp
  have ok: "vlvf_ok (regs reg ?hw)" "vlan_pools (regs reg ?hw) = vlvf_step on v p (vlan_pools ?f)" "vt_on (regs reg ?hw)"
    unfolding w using s vfta_write[of "regs reg hw2" v] assms(3) by simp_all
  have same: "vlans_let (regs reg hw2) = vlans_let ?f" using s(6) by (intro vlans_let_same) simp
  have v: "v \<in> vlans_let ?f \<longleftrightarrow> ?f (vfta_at v) AND ?b \<noteq> 0" using assms(4) by (simp add: target_bit vlans_let_def)
  have "vlans_let (regs reg ?hw) = (if on then insert v (vlans_let ?f) else if vlan_pools ?f v - {p} = {} then vlans_let ?f - {v} else vlans_let ?f)"
    unfolding w using vlans_let_on[OF assms(4), of "regs reg hw2"] vlans_let_off[OF assms(4), of "regs reg hw2"] s(4,6) v same by auto
  then show ?thesis using e ok by (intro exI[of _ ?hw]) (simp add: vlan_abs_def vlan_spec_def vlvf_step_def)
qed

section \<open>Cleared tables\<close>

text \<open>A loop that writes zeros leaves zeros in the registers it names and nothing else changed.\<close>

definition zeroed :: "u32 set \<Rightarrow> (u32 \<Rightarrow> u32) \<Rightarrow> u32 \<Rightarrow> u32" where
  "zeroed A f a = (if a \<in> A then 0 else f a)"

lemma zeroed_zeroed [simp]: "zeroed A (zeroed B f) = zeroed (A \<union> B) f"
  by (simp add: zeroed_def fun_eq_iff)

lemma zero_loop:
  assumes "\<And>i hw. i \<in> set xs \<Longrightarrow> regs reg (step i hw) = zeroed (A i) (regs reg hw)"
  shows "regs reg (fold step xs hw) = zeroed (\<Union>i \<in> set xs. A i) (regs reg hw)"
  using assms by (induction xs arbitrary: hw) (simp_all add: zeroed_def fun_eq_iff)

lemma zero_write:
  "plain_bank R B reg \<Longrightarrow> a \<in> B \<Longrightarrow> regs reg (IXGBE_WRITE_REG R a 0 hw) = zeroed {a} (regs reg hw)"
  by (simp add: bank_write zeroed_def fun_eq_iff)

lemma clear_vfta_regs:
  assumes "plain_bank R vlan_regs reg" "vft_size hw = 128"
  shows "regs reg (snd (ixgbe_clear_vfta_generic R hw)) = zeroed (vlan_regs - {IXGBE_VT_CTL}) (regs reg hw)"
proof -
  let ?A = "\<lambda>i :: nat. {IXGBE_VLVFB (i * 2 + 1), IXGBE_VLVFB (i * 2), IXGBE_VLVF i}"
  have "regs reg (fold (\<lambda>i. IXGBE_WRITE_REG R (IXGBE_VFTA i) 0) [0..<128] hw) = zeroed (\<Union>i \<in> set [0..<128]. {IXGBE_VFTA i}) (regs reg hw)"
    by (rule zero_loop) (simp add: zero_write[OF assms(1)])
  moreover have "regs reg (fold (\<lambda>i hw. IXGBE_WRITE_REG R (IXGBE_VLVFB (i * 2 + 1)) 0
      (IXGBE_WRITE_REG R (IXGBE_VLVFB (i * 2)) 0 (IXGBE_WRITE_REG R (IXGBE_VLVF i) 0 hw))) [0..<64] s) = zeroed (\<Union>i \<in> set [0..<64]. ?A i) (regs reg s)" for s :: "'a flt_hw"
    by (rule zero_loop) (simp add: zero_write[OF assms(1)] insert_commute)
  ultimately have "regs reg (snd (ixgbe_clear_vfta_generic R hw)) = zeroed ((\<Union>i \<in> set [0..<64]. ?A i) \<union> (\<Union>i \<in> set [0..<128]. {IXGBE_VFTA i})) (regs reg hw)"
    unfolding ixgbe_clear_vfta_generic_def Let_def snd_conv for_regs_def assms(2) by (simp del: set_upt)
  moreover have "(\<Union>i \<in> set [0..<64]. ?A i) \<union> (\<Union>i \<in> set [0..<128]. {IXGBE_VFTA i}) = vlan_regs - {IXGBE_VT_CTL}" (is "?L = _")
  proof -
    have "IXGBE_VLVFB k \<in> (\<Union>i \<in> {..<64}. ?A i)" if "k < 128" for k
    proof -
      have "k = k div 2 * 2 \<or> k = k div 2 * 2 + 1" by presburger
      moreover have "k div 2 < 64" using that by simp
      ultimately have "IXGBE_VLVFB k \<in> ?A (k div 2)" by (metis insertCI)
      with \<open>k div 2 < 64\<close> show ?thesis by blast
    qed
    then have "IXGBE_VLVFB ` {..<128} \<subseteq> ?L" by (auto simp: atLeast0LessThan)
    moreover have "?L \<subseteq> vlan_regs" by (auto simp: vlan_regs_def)
    moreover have "IXGBE_VT_CTL \<notin> ?L" by (auto simp: vt_ctl_ne[symmetric])
    ultimately show ?thesis by (auto simp: vlan_regs_def)
  qed
  ultimately show ?thesis by simp
qed

lemma clear_vfta_abs:
  assumes "plain_bank R vlan_regs reg" "vft_size hw = 128"
  shows "vlvf_ok (regs reg (snd (ixgbe_clear_vfta_generic R hw)))"
    "vlan_abs (regs reg (snd (ixgbe_clear_vfta_generic R hw))) = (\<lambda>_. {}, {})"
    "regs reg (snd (ixgbe_clear_vfta_generic R hw)) IXGBE_VT_CTL = regs reg hw IXGBE_VT_CTL"
proof -
  let ?f = "zeroed (vlan_regs - {IXGBE_VT_CTL}) (regs reg hw)"
  have z: "i < 64 \<Longrightarrow> ?f (IXGBE_VLVF i) = 0" "k < 128 \<Longrightarrow> ?f (IXGBE_VLVFB k) = 0" "?f (vfta_at v) = 0" for i k v
    by (simp_all add: zeroed_def vfta_at_def vfta_index)
  have p: "i < 64 \<Longrightarrow> pools_at ?f i = {}" for i
    using z(2)[of "i * 2"] z(2)[of "i * 2 + 1"] by (simp add: pools_at_empty)
  have h: "vlvf_holds ?f i v \<longleftrightarrow> i = 0 \<and> v = 0" for i v
    using z(1)[of i] vien_nonzero[of v] by (auto simp: vlvf_holds_def)
  show "vlvf_ok (regs reg (snd (ixgbe_clear_vfta_generic R hw)))"
    unfolding clear_vfta_regs[OF assms] vlvf_ok_def by (simp add: h p z)
  show "vlan_abs (regs reg (snd (ixgbe_clear_vfta_generic R hw))) = (\<lambda>_. {}, {})"
    unfolding clear_vfta_regs[OF assms] by (auto simp: vlan_abs_def vlan_pools_def h p vlans_let_def vlan_let_def z)
  show "regs reg (snd (ixgbe_clear_vfta_generic R hw)) IXGBE_VT_CTL = regs reg hw IXGBE_VT_CTL"
    unfolding clear_vfta_regs[OF assms] by (simp add: zeroed_def)
qed

section \<open>Histories\<close>

text \<open>A call is a VLAN, a pool and whether the VLAN is added to the pool.\<close>

type_synonym vlan_call = "u32 \<times> u32 \<times> bool"

abbreviation vlan_call_ok :: "vlan_call \<Rightarrow> bool" where
  "vlan_call_ok \<equiv> \<lambda>(v, p, on). v \<le> 4095 \<and> unat p < 64"

definition set_vlans :: "'h device \<Rightarrow> vlan_call list \<Rightarrow> ('h, 'z) ixgbe_hw_scheme \<Rightarrow> ('h, 'z) ixgbe_hw_scheme" where
  "set_vlans R = fold (\<lambda>(v, p, on) hw. snd (ixgbe_set_vfta_generic R v p on hw))"

definition vlan_history :: "vlan_call list \<Rightarrow> (u32 \<Rightarrow> u32 set) \<times> u32 set" where
  "vlan_history calls = fold (\<lambda>(v, p, on). vlan_spec on v p) calls (\<lambda>_. {}, {})"

lemma set_vlans_abs:
  assumes "plain_bank R vlan_regs reg" "vlvf_ok (regs reg hw)" "vt_on (regs reg hw)" "list_all vlan_call_ok calls"
  shows "vlvf_ok (regs reg (set_vlans R calls hw)) \<and>
    vlan_abs (regs reg (set_vlans R calls hw)) = fold (\<lambda>(v, p, on). vlan_spec on v p) calls (vlan_abs (regs reg hw))"
  using assms(2-4)
proof (induction calls arbitrary: hw)
  case (Cons c calls)
  obtain v p on where c: "c = (v, p, on)" by (cases c)
  then obtain hw' where "ixgbe_set_vfta_generic R v p on hw = (0, hw')" "vlvf_ok (regs reg hw')" "vt_on (regs reg hw')"
      "vlan_abs (regs reg hw') = vlan_spec on v p (vlan_abs (regs reg hw))"
    using set_vfta_abs[OF assms(1) Cons.prems(1,2), of v p on] Cons.prems(3) by auto
  then show ?case using Cons.IH[of hw'] Cons.prems(3) c by (simp add: set_vlans_def)
qed (simp add: set_vlans_def)

text \<open>The specification lets every VLAN with a pool through, and at most 63 besides VLAN 0 have pools.\<close>

definition lets_pools :: "(u32 \<Rightarrow> u32 set) \<times> u32 set \<Rightarrow> bool" where
  "lets_pools s \<longleftrightarrow> (\<forall>w. fst s w \<noteq> {} \<longrightarrow> w \<in> snd s)"

lemma spec_lets_pools: "lets_pools s \<Longrightarrow> lets_pools (vlan_spec on v p s)"
  by (cases s) (simp add: lets_pools_def vlan_spec_def, blast)

lemma history_lets_pools: "lets_pools (vlan_history calls)"
  unfolding vlan_history_def
  by (rule fold_invariant[where Q = "\<lambda>_. True"]) (auto simp: lets_pools_def[of "(\<lambda>_. {}, {})"] spec_lets_pools)

text \<open>
  C27. The VLAN filters are a map from VLANs to pools: after the tables have been cleared, and after any sequence of
  calls that add a VLAN to a pool or take it away, the filter registers say what the calls say. A VLAN
  has the pools that were added and not taken away, as long as one of 63 entries was free for it, and it is
  let through from the first addition until its last pool leaves; a VLAN that has a pool is let through.
\<close>

theorem vlan_filters_are_map:
  assumes "plain_bank R vlan_regs reg" "vft_size hw = 128" "vt_on (regs reg hw)" "list_all vlan_call_ok calls"
  shows "vlan_abs (regs reg (set_vlans R calls (snd (ixgbe_clear_vfta_generic R hw)))) = vlan_history calls \<and>
    (\<forall>v. vlan_pools (regs reg (set_vlans R calls (snd (ixgbe_clear_vfta_generic R hw)))) v \<noteq> {} \<longrightarrow>
         v \<in> vlans_let (regs reg (set_vlans R calls (snd (ixgbe_clear_vfta_generic R hw)))))"
proof -
  let ?hw = "snd (ixgbe_clear_vfta_generic R hw)"
  have e: "vlan_abs (regs reg (set_vlans R calls ?hw)) = vlan_history calls"
    using set_vlans_abs[OF assms(1) clear_vfta_abs(1)[OF assms(1,2)] _ assms(4)] clear_vfta_abs[OF assms(1,2)] assms(3)
    by (simp add: vlan_history_def)
  have "lets_pools (vlan_abs (regs reg (set_vlans R calls ?hw)))" unfolding e by (rule history_lets_pools)
  then show ?thesis unfolding lets_pools_def vlan_abs_def fst_conv snd_conv by (intro conjI e[unfolded vlan_abs_def])
qed

definition demo_flt_hw :: "ixgbe_mac_type \<Rightarrow> (u32 \<Rightarrow> u32) flt_hw" where
  "demo_flt_hw mac = \<lparr>hw_dev = (\<lambda>_. 0)(IXGBE_VT_CTL := 1), mac_type = mac,
     mbx = \<lparr>ops = mbx_ops_of MBX_pf, stats = zero_mbx_stats, timeout = 0, mbx_udelay = 0, v2p_mailbox = 0, mbx_size = 16\<rparr>,
     num_rar_entries = 128, rar_highwater = 1, hw_mac_addr = [0, 0x1B, 0x21, 1, 2, 3], mc_filter_type = 0,
     mta_shadow = replicate 128 0, mcft_size = 128, vft_size = 128, san_mac_rar_index = 127,
     addr_ctrl = \<lparr>num_mc_addrs = 0, rar_used_count = 1, mta_in_use = 0, overflow_promisc = 0, user_set_promisc = False\<rparr>\<rparr>"

lemma register_file_bank: "plain_bank register_file A (\<lambda>s. s)"
  by (simp add: plain_bank_def register_file_def)

text \<open>VLAN 5 is given to pools 3 and 40 and taken from pool 3.\<close>

definition demo_calls :: "vlan_call list" where
  "demo_calls = [(5, 3, True), (5, 40, True), (5, 3, False)]"

lemma demo_history: "fst (vlan_history demo_calls) 5 = {40}"
  by (auto simp: vlan_history_def demo_calls_def vlan_spec_def vlan_room_def)

theorem vlan_filters_are_map_witness:
  "let hw = set_vlans register_file demo_calls (snd (ixgbe_clear_vfta_generic register_file (demo_flt_hw ixgbe_mac_82599EB)))
   in vlan_pools (hw_dev hw) 5 = {40} \<and> 5 \<in> vlans_let (hw_dev hw)"
proof -
  let ?hw = "set_vlans register_file demo_calls (snd (ixgbe_clear_vfta_generic register_file (demo_flt_hw ixgbe_mac_82599EB)))"
  have "vlan_abs (hw_dev ?hw) = vlan_history demo_calls \<and> (\<forall>v. vlan_pools (hw_dev ?hw) v \<noteq> {} \<longrightarrow> v \<in> vlans_let (hw_dev ?hw))"
    by (rule vlan_filters_are_map[OF register_file_bank]) (simp_all add: demo_flt_hw_def demo_calls_def)
  then have "vlan_pools (hw_dev ?hw) 5 = {40} \<and> 5 \<in> vlans_let (hw_dev ?hw)"
    using demo_history by (metis fst_conv insert_not_empty vlan_abs_def)
  then show ?thesis by (simp only: Let_def)
qed

text \<open>
  A VLAN that finds no entry is let through all the same: the failure of the pool tables is not looked at,
  though the comment before the write says that it happens only after their update succeeded.
\<close>

lemma vlan_let_without_room:
  assumes "plain_bank R vlan_regs reg" "vlvf_ok (regs reg hw)" "vt_on (regs reg hw)" "v \<le> 4095" "unat p < 64"
    and "\<not> vlan_room (vlan_pools (regs reg hw)) v"
  shows "\<exists>hw'. ixgbe_set_vfta_generic R v p True hw = (0, hw') \<and> v \<in> vlans_let (regs reg hw') \<and> vlan_pools (regs reg hw') v = {}"
proof -
  obtain hw' where "ixgbe_set_vfta_generic R v p True hw = (0, hw')" "vlan_abs (regs reg hw') = vlan_spec True v p (vlan_abs (regs reg hw))"
    using set_vfta_abs[OF assms(1-5)] by blast
  then show ?thesis using assms(6) by (auto simp: vlan_abs_def vlan_spec_def vlan_room_def)
qed

end
