(* ===== verification/CallHistory.thy ===== *)
theory CallHistory
  imports WfsPrelude
begin

text \<open>
  Sequences of calls of an interface: the calls run one after the other, and what a specification of one call
  says of a sequence.
\<close>

definition run_calls :: "('c \<Rightarrow> 's \<Rightarrow> fault + 'o \<times> 's) \<Rightarrow> 'c list \<Rightarrow> 's \<Rightarrow> fault + 'o list \<times> 's" where
  "run_calls step cs s = fold (\<lambda>c r. rbind r (\<lambda>(outs, s). rbind (step c s) (\<lambda>(out, s'). Inr (outs @ [out], s')))) cs (Inr ([], s))"

inductive history :: "('c \<Rightarrow> 'a \<Rightarrow> 'o \<Rightarrow> 'a \<Rightarrow> bool) \<Rightarrow> 'a \<Rightarrow> 'c list \<Rightarrow> 'o list \<Rightarrow> 'a \<Rightarrow> bool" for spec init where
  history_start: "history spec init [] [] init"
| history_next: "history spec init cs outs A \<Longrightarrow> spec c A out A' \<Longrightarrow> history spec init (cs @ [c]) (outs @ [out]) A'"

lemma run_calls_Nil [simp]: "run_calls step [] s = Inr ([], s)"
  by (simp add: run_calls_def)

lemma run_calls_snoc:
  "run_calls step (cs @ [c]) s = rbind (run_calls step cs s) (\<lambda>(outs, s1). rbind (step c s1) (\<lambda>(out, s2). Inr (outs @ [out], s2)))"
  by (simp add: run_calls_def)

text \<open>An invariant of the specification holds after every history.\<close>

lemma history_invariant:
  assumes "history spec init cs outs A" "P init" "\<And>c A out A'. P A \<Longrightarrow> spec c A out A' \<Longrightarrow> P A'"
  shows "P A"
  using assms(1,2) by (induction rule: history.induct) (auto intro: assms(3))

text \<open>
  An implementation whose calls keep the good states and follow the specification; the calls that are \<open>sure\<close>
  return.
\<close>

locale call_refinement =
  fixes step :: "'c \<Rightarrow> 's \<Rightarrow> fault + 'o \<times> 's" and good :: "'s \<Rightarrow> bool" and abs :: "'s \<Rightarrow> 'a"
    and spec :: "'c \<Rightarrow> 'a \<Rightarrow> 'o \<Rightarrow> 'a \<Rightarrow> bool" and allowed :: "'c \<Rightarrow> bool" and sure :: "'c \<Rightarrow> bool"
  assumes step_refines: "good s \<Longrightarrow> allowed c \<Longrightarrow> step c s = Inr (out, s') \<Longrightarrow> good s' \<and> spec c (abs s) out (abs s')"
    and step_returns: "good s \<Longrightarrow> allowed c \<Longrightarrow> sure c \<Longrightarrow> \<exists>x. step c s = Inr x"
begin

lemma run_refines:
  assumes "good s" "list_all allowed cs"
  shows "case run_calls step cs s of
      Inl e \<Rightarrow> \<exists>c \<in> set cs. \<not> sure c
    | Inr (outs, s') \<Rightarrow> good s' \<and> history spec (abs s) cs outs (abs s')"
  using assms(2)
proof (induction cs rule: rev_induct)
  case Nil
  then show ?case using assms(1) history_start[of spec] by simp
next
  case (snoc c cs)
  show ?case
  proof (cases "run_calls step cs s")
    case (Inl e)
    then show ?thesis using snoc by (auto simp: run_calls_snoc)
  next
    case (Inr x)
    obtain outs s1 where x: "x = (outs, s1)" by fastforce
    then have ok: "good s1" "history spec (abs s) cs outs (abs s1)" "allowed c" using snoc Inr by auto
    show ?thesis
    proof (cases "step c s1")
      case (Inl e)
      then show ?thesis using step_returns[OF ok(1,3)] Inr x by (auto simp: run_calls_snoc)
    next
      case r: (Inr y)
      obtain out s2 where y: "y = (out, s2)" by fastforce
      have "good s2 \<and> spec c (abs s1) out (abs s2)" using step_refines[OF ok(1,3)] r y by blast
      then show ?thesis using r y Inr x history_next[OF ok(2)] by (auto simp: run_calls_snoc)
    qed
  qed
qed

text \<open>With sure calls only, the run returns.\<close>

lemma run_returns:
  assumes "good s" "list_all allowed cs" "list_all sure cs"
  obtains outs s' where "run_calls step cs s = Inr (outs, s')" "good s'" "history spec (abs s) cs outs (abs s')"
proof -
  have "\<not> (\<exists>c \<in> set cs. \<not> sure c)" using assms(3) by (auto simp: list_all_iff)
  then show ?thesis using run_refines[OF assms(1,2)] that by (auto split: sum.splits prod.splits)
qed

end

end
