(* ===== verification/MacProps.thy ===== *)
theory MacProps
  imports MacTable VlanMap CallHistory "HOL-Library.Multiset"
begin

text \<open>
  The receive address registers mirror the table of addresses: what each operation on the table leaves in
  registers that hold what is written (82599 and X540).
\<close>

section \<open>The registers of an address\<close>

lemma unat_rar_index: "i < 128 \<Longrightarrow> unat (of_nat i :: u32) = i"
  by (simp add: unat_of_nat)

lemma unat_rar:
  assumes "i < 128"
  shows "unat (IXGBE_RAL (of_nat i)) = (if i \<le> 15 then 0x5400 else 0xA200) + i * 8"
    "unat (IXGBE_RAH (of_nat i)) = (if i \<le> 15 then 0x5404 else 0xA204) + i * 8"
    "unat (IXGBE_MPSAR_LO (of_nat i)) = 0xA600 + i * 8" "unat (IXGBE_MPSAR_HI (of_nat i)) = 0xA604 + i * 8"
  using assms by (simp_all add: IXGBE_RAL_def IXGBE_RAH_def IXGBE_MPSAR_LO_def IXGBE_MPSAR_HI_def unat_word_ariths
      unat_rar_index word_le_nat_alt)

datatype rar_kind = Ral | Rah | Mlo | Mhi

fun rar_reg :: "rar_kind \<Rightarrow> nat \<Rightarrow> u32" where
  "rar_reg Ral i = IXGBE_RAL (of_nat i)"
| "rar_reg Rah i = IXGBE_RAH (of_nat i)"
| "rar_reg Mlo i = IXGBE_MPSAR_LO (of_nat i)"
| "rar_reg Mhi i = IXGBE_MPSAR_HI (of_nat i)"

fun rar_addr :: "rar_kind \<Rightarrow> nat \<Rightarrow> nat" where
  "rar_addr Ral i = (if i \<le> 15 then 0x5400 else 0xA200) + i * 8"
| "rar_addr Rah i = (if i \<le> 15 then 0x5404 else 0xA204) + i * 8"
| "rar_addr Mlo i = 0xA600 + i * 8"
| "rar_addr Mhi i = 0xA604 + i * 8"

lemma unat_rar_reg: "i < 128 \<Longrightarrow> unat (rar_reg k i) = rar_addr k i"
  by (cases k) (simp_all add: unat_rar)

lemma rar_addr_inj: "i < 128 \<Longrightarrow> j < 128 \<Longrightarrow> rar_addr k i = rar_addr l j \<Longrightarrow> k = l \<and> i = j"
  by (cases k; cases l) (auto split: if_splits; presburger)+

lemma rar_reg_eq: "i < 128 \<Longrightarrow> j < 128 \<Longrightarrow> rar_reg k i = rar_reg l j \<longleftrightarrow> k = l \<and> i = j"
  using rar_addr_inj unat_rar_reg by metis

definition rar_regs :: "u32 set" where
  "rar_regs = (\<Union>k. rar_reg k ` {..<128})"

lemma rar_regs_in: "i < 128 \<Longrightarrow> rar_reg k i \<in> rar_regs"
  by (auto simp: rar_regs_def)

lemma rar_named:
  assumes "i < 128"
  shows "IXGBE_RAL (of_nat i) \<in> rar_regs" "IXGBE_RAH (of_nat i) \<in> rar_regs"
    "IXGBE_MPSAR_LO (of_nat i) \<in> rar_regs" "IXGBE_MPSAR_HI (of_nat i) \<in> rar_regs"
  using rar_regs_in[OF assms, of Ral] rar_regs_in[OF assms, of Rah] rar_regs_in[OF assms, of Mlo] rar_regs_in[OF assms, of Mhi] by simp_all

text \<open>What the filter of register pair \<open>i\<close> says: the address bits with the valid bit, and the pools.\<close>

definition rar_view :: "(u32 \<Rightarrow> u32) \<Rightarrow> nat \<Rightarrow> u32 \<times> u32 \<times> u32 \<times> u32" where
  "rar_view f i = (f (rar_reg Ral i), f (rar_reg Rah i) AND (0xFFFF OR IXGBE_RAH_AV), f (rar_reg Mlo i), f (rar_reg Mhi i))"

text \<open>What it says for an entry of the table: nothing when the entry is free.\<close>

definition entry_view :: "ixgbe_mac_addr \<Rightarrow> u32 \<times> u32 \<times> u32 \<times> u32" where
  "entry_view e =
     (if entry_in_use e
      then (addr_low (mt_addr e), addr_high (mt_addr e) OR IXGBE_RAH_AV,
            if mt_queue e < 32 then bit_of (ucast (mt_queue e)) else 0,
            if mt_queue e < 32 then 0 else bit_of (ucast (mt_queue e) - 32))
      else (0, 0, 0, 0))"

declare rar_reg.simps [simp del]

lemmas rar_fold = rar_reg.simps [symmetric]

lemma view_other:
  assumes "i < 128" "j < 128" "j \<noteq> i"
  shows "rar_view (f(rar_reg k i := x)) j = rar_view f j"
  using assms by (simp add: rar_view_def rar_reg_eq)

lemma view_own:
  assumes "i < 128"
  shows "rar_view (f(rar_reg Ral i := x)) i = (x, snd (rar_view f i))"
    "rar_view (f(rar_reg Rah i := x)) i = (fst (rar_view f i), x AND (0xFFFF OR IXGBE_RAH_AV), snd (snd (rar_view f i)))"
    "rar_view (f(rar_reg Mlo i := x)) i = (fst (rar_view f i), fst (snd (rar_view f i)), x, snd (snd (snd (rar_view f i))))"
    "rar_view (f(rar_reg Mhi i := x)) i = (fst (rar_view f i), fst (snd (rar_view f i)), fst (snd (snd (rar_view f i))), x)"
  using assms by (simp_all add: rar_view_def rar_reg_eq)

section \<open>Writing and clearing one register pair\<close>

text \<open>The mac types whose pool bits are in \<open>MPSAR\<close>.\<close>

definition rar_ready :: "'h device \<Rightarrow> ('h \<Rightarrow> u32 \<Rightarrow> u32) \<Rightarrow> 'h flt_hw \<Rightarrow> bool" where
  "rar_ready R reg hw \<longleftrightarrow> plain_bank R rar_regs reg \<and> num_rar_entries hw \<le> 128 \<and>
     (mac_type hw = ixgbe_mac_82599EB \<or> mac_type hw = ixgbe_mac_X540)"

lemma hw_io:
  "IXGBE_WRITE_REG R a v hw = hw\<lparr>hw_dev := dev_write R (hw_dev hw) a v\<rparr>"
  "IXGBE_READ_REG R a hw = (fst (dev_read R (hw_dev hw) a), hw\<lparr>hw_dev := snd (dev_read R (hw_dev hw) a)\<rparr>)"
  "rmw R a f hw = hw\<lparr>hw_dev := dev_write R (snd (dev_read R (hw_dev hw) a)) a (f (fst (dev_read R (hw_dev hw) a)))\<rparr>"
  by (simp_all add: IXGBE_WRITE_REG_def IXGBE_READ_REG_def rmw_def case_prod_beta)

lemma rar_io:
  assumes "plain_bank R rar_regs reg" "i < 128"
  shows "reg (dev_write R s (rar_reg k i) v) = (reg s)(rar_reg k i := v)"
    "fst (dev_read R s (rar_reg k i)) = reg s (rar_reg k i)" "reg (snd (dev_read R s (rar_reg k i))) = reg s"
  using assms rar_regs_in[OF assms(2), of k] by (auto simp: plain_bank_def)

lemma clear_rar_regs_io:
  assumes "plain_bank R rar_regs reg" "i < 128"
  shows "\<exists>d. clear_rar_regs R (of_nat i) hw = hw\<lparr>hw_dev := d\<rparr> \<and>
    reg d = (regs reg hw)(rar_reg Ral i := 0, rar_reg Rah i := regs reg hw (rar_reg Rah i) AND NOT (0xFFFF OR IXGBE_RAH_AV))"
  using assms by (intro exI[of _ "hw_dev (clear_rar_regs R (of_nat i) hw)"]) (simp add: clear_rar_regs_def hw_io rar_fold rar_io fun_eq_iff)

lemma clear_vmdq_none:
  assumes "plain_bank R rar_regs reg" "i < 128" "of_nat i < num_rar_entries hw"
    "regs reg hw (rar_reg Mlo i) = 0" "regs reg hw (rar_reg Mhi i) = 0"
  shows "\<exists>d. ixgbe_clear_vmdq_generic R (of_nat i) v hw = Some (0, hw\<lparr>hw_dev := d\<rparr>) \<and> reg d = regs reg hw"
  using assms
  by (intro exI[of _ "snd (dev_read R (snd (dev_read R (hw_dev hw) (rar_reg Mlo i))) (rar_reg Mhi i))"], subst ixgbe_clear_vmdq_generic.simps)
    (simp add: hw_io rar_fold rar_io not_le)

text \<open>After the two pool registers are cleared the recursion ends.\<close>

lemma clear_vmdq_all:
  assumes "plain_bank R rar_regs reg" "i < 128" "of_nat i < num_rar_entries hw"
  shows "\<exists>d. ixgbe_clear_vmdq_generic R (of_nat i) IXGBE_CLEAR_VMDQ_ALL hw = Some (0, hw\<lparr>hw_dev := d\<rparr>) \<and>
    (reg d = (regs reg hw)(rar_reg Mlo i := 0, rar_reg Mhi i := 0) \<or>
     reg d = (regs reg hw)(rar_reg Mlo i := 0, rar_reg Mhi i := 0, rar_reg Ral i := 0,
                           rar_reg Rah i := regs reg hw (rar_reg Rah i) AND NOT (0xFFFF OR IXGBE_RAH_AV)))"
proof -
  let ?f = "regs reg hw" and ?i = "of_nat i :: u32"
  let ?lo = "?f (rar_reg Mlo i)" and ?hi = "?f (rar_reg Mhi i)"
  define hw2 where "hw2 = snd (IXGBE_READ_REG R (IXGBE_MPSAR_HI ?i) (snd (IXGBE_READ_REG R (IXGBE_MPSAR_LO ?i) hw)))"
  have hw2: "regs reg hw2 = ?f" "hw2 = hw\<lparr>hw_dev := hw_dev hw2\<rparr>" using assms by (simp_all add: hw2_def hw_io rar_fold rar_io)
  have l: "(num_rar_entries hw \<le> ?i) = False" using assms(3) by simp
  obtain hw1 where r: "IXGBE_READ_REG R (IXGBE_MPSAR_LO ?i) hw = (?lo, hw1)" "IXGBE_READ_REG R (IXGBE_MPSAR_HI ?i) hw1 = (?hi, hw2)"
    using assms(1,2) by (simp add: hw2_def hw_io rar_fold rar_io)
  have upd: "hw2\<lparr>hw_dev := x\<rparr> = hw\<lparr>hw_dev := x\<rparr>" for x by (simp add: hw2_def hw_io)
  define hw3 where "hw3 = snd (snd (clear_pools R ?i IXGBE_CLEAR_VMDQ_ALL ?lo ?hi hw2))"
  have pools: "regs reg hw3 = ?f(rar_reg Mlo i := 0, rar_reg Mhi i := 0)"
    using assms(1,2) hw2(1) by (cases "?lo = 0"; cases "?hi = 0") (simp_all add: hw3_def clear_pools_def hw_io rar_fold rar_io Let_def fun_eq_iff rar_reg_eq)
  have hw3: "clear_pools R ?i IXGBE_CLEAR_VMDQ_ALL ?lo ?hi hw2 = (0, 0, hw3)" "hw3 = hw\<lparr>hw_dev := hw_dev hw3\<rparr>"
    using hw2(2) upd by (auto simp: hw3_def clear_pools_def Let_def hw_io)
  note hw3 = hw3 pools
  show ?thesis
  proof (cases "?lo = 0 \<and> ?hi = 0")
    case True
    then show ?thesis using clear_vmdq_none[OF assms] by (metis fun_upd_triv)
  next
    case False
    have u: "ixgbe_clear_vmdq_generic R ?i IXGBE_CLEAR_VMDQ_ALL hw =
      (if ?i \<noteq> 0 then Option.bind (ixgbe_clear_vmdq_generic R ?i IXGBE_CLEAR_VMDQ_ALL (clear_rar_regs R ?i hw3)) (\<lambda>(_, hw4). Some (0, hw4))
       else Some (0, hw3))"
      by (subst ixgbe_clear_vmdq_generic.simps[where hw = hw])
        (simp only: r prod.case hw3(1) False l if_False if_True simp_thms split: if_splits)
    show ?thesis
    proof (cases "?i = 0")
      case True
      then show ?thesis using u hw3(2,3) by metis
    next
      case no: False
      obtain d where d: "clear_rar_regs R ?i hw3 = hw3\<lparr>hw_dev := d\<rparr>"
          "reg d = (regs reg hw3)(rar_reg Ral i := 0, rar_reg Rah i := regs reg hw3 (rar_reg Rah i) AND NOT (0xFFFF OR IXGBE_RAH_AV))"
        using clear_rar_regs_io[OF assms(1,2), of hw3] by blast
      have n: "num_rar_entries hw3 = num_rar_entries hw" by (subst hw3(2)) simp
      obtain d' where "ixgbe_clear_vmdq_generic R ?i IXGBE_CLEAR_VMDQ_ALL (hw3\<lparr>hw_dev := d\<rparr>) = Some (0, hw3\<lparr>hw_dev := d'\<rparr>)" "reg d' = reg d"
        using clear_vmdq_none[OF assms(1,2), of "hw3\<lparr>hw_dev := d\<rparr>"] assms(2,3) d(2) hw3(3) n by (auto simp: rar_reg_eq)
      moreover have "hw3\<lparr>hw_dev := d'\<rparr> = hw\<lparr>hw_dev := d'\<rparr>" by (subst hw3(2)) simp
      ultimately show ?thesis using u no d hw3(3) assms(2) by (auto simp: rar_reg_eq)
    qed
  qed
qed

lemma rah_cleared: "(x AND - 2147549184) AND 2147549183 = 0" for x :: u32
  by (simp add: and.assoc)

lemma clear_rar_view:
  assumes "rar_ready R reg hw" "i < unat (num_rar_entries hw)"
  shows "\<exists>d. ixgbe_clear_rar_generic R (of_nat i) hw = Inr (0, hw\<lparr>hw_dev := d\<rparr>) \<and>
    (\<forall>j < 128. rar_view (reg d) j = (if j = i then (0, 0, 0, 0) else rar_view (regs reg hw) j))"
proof -
  have b: "plain_bank R rar_regs reg" and i: "i < 128" and l: "of_nat i < num_rar_entries hw"
    using assms by (auto simp: rar_ready_def word_less_nat_alt word_le_nat_alt unat_of_nat)
  obtain d1 where d1: "clear_rar_regs R (of_nat i) hw = hw\<lparr>hw_dev := d1\<rparr>"
      "reg d1 = (regs reg hw)(rar_reg Ral i := 0, rar_reg Rah i := regs reg hw (rar_reg Rah i) AND NOT (0xFFFF OR IXGBE_RAH_AV))"
    using clear_rar_regs_io[OF b i, of hw] by blast
  obtain d2 where d2: "ixgbe_clear_vmdq_generic R (of_nat i) IXGBE_CLEAR_VMDQ_ALL (hw\<lparr>hw_dev := d1\<rparr>) = Some (0, hw\<lparr>hw_dev := d2\<rparr>)"
      "reg d2 = (reg d1)(rar_reg Mlo i := 0, rar_reg Mhi i := 0) \<or>
       reg d2 = (reg d1)(rar_reg Mlo i := 0, rar_reg Mhi i := 0, rar_reg Ral i := 0,
                           rar_reg Rah i := reg d1 (rar_reg Rah i) AND NOT (0xFFFF OR IXGBE_RAH_AV))"
    using clear_vmdq_all[OF b i, of "hw\<lparr>hw_dev := d1\<rparr>"] l by auto
  have "ixgbe_clear_rar_generic R (of_nat i) hw = Inr (0, hw\<lparr>hw_dev := d2\<rparr>)"
    using assms(1) l d1(1) d2(1) by (auto simp: ixgbe_clear_rar_generic_def call_clear_vmdq_def rar_ready_def)
  moreover have "rar_view (reg d2) j = (if j = i then (0, 0, 0, 0) else rar_view (regs reg hw) j)" if "j < 128" for j
    using d2(2) d1(2) i that view_other[OF i that] view_own[OF i] rah_cleared by (auto simp: rar_view_def[of "regs reg hw" i] and.assoc)
  ultimately show ?thesis by blast
qed

lemma rah_set: "((x AND - 2147549184) OR (addr_high a OR 2147483648)) AND 2147549183 = addr_high a OR 2147483648"
proof -
  have "take_bit 16 (addr_high a) = addr_high a"
    by (rule bit_word_eqI) (auto simp: addr_high_def bit_take_bit_iff bit_or_iff bit_push_bit_iff bit_ucast_iff dest: bit_imp_le_length)
  then have "addr_high a AND 2147549183 = take_bit 16 (addr_high a) AND 2147549183" by simp
  also have "\<dots> = take_bit 16 (addr_high a)" by (simp add: take_bit_eq_mask mask_eq_exp_minus_1 and.assoc)
  finally have "addr_high a AND 2147549183 = addr_high a" using \<open>take_bit 16 (addr_high a) = addr_high a\<close> by simp
  then show ?thesis by (simp add: bit.conj_disj_distrib2 and.assoc)
qed

text \<open>The pools a register pair may have before it is written: those it has afterwards, or none.\<close>

definition pools_free :: "u16 \<Rightarrow> u32 \<times> u32 \<Rightarrow> bool" where
  "pools_free q p \<longleftrightarrow> (if q < 32 then (fst p = 0 \<or> fst p = bit_of (ucast q)) \<and> snd p = 0
                      else fst p = 0 \<and> (snd p = 0 \<or> snd p = bit_of (ucast q - 32)))"

lemma pools_free_none [simp]: "pools_free q (0, 0)"
  by (simp add: pools_free_def)

lemma set_rar_view:
  assumes "rar_ready R reg hw" "i < unat (num_rar_entries hw)" "q < 64"
    and "pools_free q (snd (snd (rar_view (regs reg hw) i)))"
  shows "\<exists>d. ixgbe_set_rar_generic R (of_nat i) a (ucast q) IXGBE_RAH_AV hw = Inr (0, hw\<lparr>hw_dev := d\<rparr>) \<and>
    (\<forall>j < 128. rar_view (reg d) j = (if j = i then entry_view \<lparr>mt_addr = a, mt_queue = q, mt_state = IXGBE_MAC_STATE_IN_USE\<rparr> else rar_view (regs reg hw) j))"
proof -
  let ?f = "regs reg hw" and ?q = "ucast q :: u32"
  have b: "plain_bank R rar_regs reg" and i: "i < 128" and l: "of_nat i < num_rar_entries hw"
    using assms by (auto simp: rar_ready_def word_less_nat_alt word_le_nat_alt unat_of_nat)
  let ?k = "if q < 32 then Mlo else Mhi" and ?o = "if q < 32 then Mhi else Mlo" and ?b = "if q < 32 then bit_of ?q else bit_of (?q - 32)"
  have z: "?f (rar_reg ?o i) = 0" "?f (rar_reg ?k i) OR ?b = ?b"
    using assms(4) by (auto simp: pools_free_def rar_view_def split: if_splits)
  have "unat q < 2 ^ 32" using unsigned_less[of q, where 'a = nat] by simp
  then have q: "?q < 32 \<longleftrightarrow> q < 32" by (simp add: word_less_nat_alt unsigned_ucast_eq take_bit_nat_eq_self)
  define d1 where "d1 = dev_write R (snd (dev_read R (hw_dev hw) (rar_reg ?k i))) (rar_reg ?k i) ?b"
  have d1: "reg d1 = ?f(rar_reg ?k i := ?b)" using b i by (simp only: d1_def rar_io)
  have vmdq: "ixgbe_set_vmdq_generic R (of_nat i) ?q hw = (0, hw\<lparr>hw_dev := d1\<rparr>)"
  proof (cases "q < 32")
    case True
    then show ?thesis using b i l z q by (simp add: d1_def ixgbe_set_vmdq_generic_def hw_io rar_fold rar_io not_le)
  next
    case False
    then show ?thesis using b i l z q by (simp add: d1_def ixgbe_set_vmdq_generic_def hw_io rar_fold rar_io not_le)
  qed
  let ?rah = "(?f (rar_reg Rah i) AND NOT (0xFFFF OR IXGBE_RAH_AV)) OR (addr_high a OR IXGBE_RAH_AV)"
  obtain d2 where d2: "ixgbe_set_rar_generic R (of_nat i) a ?q IXGBE_RAH_AV hw = Inr (0, hw\<lparr>hw_dev := d2\<rparr>)"
      "reg d2 = (reg d1)(rar_reg Ral i := addr_low a, rar_reg Rah i := ?rah)"
  proof (rule that)
    let ?d = "dev_write R (dev_write R (snd (dev_read R d1 (rar_reg Rah i))) (rar_reg Ral i) (addr_low a)) (rar_reg Rah i) ?rah"
    show "ixgbe_set_rar_generic R (of_nat i) a ?q IXGBE_RAH_AV hw = Inr (0, hw\<lparr>hw_dev := ?d\<rparr>)"
      using assms(1) b i l vmdq d1 by (auto simp: ixgbe_set_rar_generic_def call_set_vmdq_def rar_ready_def hw_io rar_fold rar_io rar_reg_eq Let_def or.assoc)
    show "reg ?d = (reg d1)(rar_reg Ral i := addr_low a, rar_reg Rah i := ?rah)"
      using b i by (simp add: rar_io fun_eq_iff)
  qed
  have "rar_view (reg d2) j = (if j = i then entry_view \<lparr>mt_addr = a, mt_queue = q, mt_state = IXGBE_MAC_STATE_IN_USE\<rparr> else rar_view ?f j)" if "j < 128" for j
    using d2(2) d1 i that z(1) view_other[OF i that] view_own[OF i] rah_set
    by (auto simp: rar_view_def[of ?f i] entry_view_def entry_in_use_def split: if_splits)
  then show ?thesis using d2(1) by blast
qed

section \<open>The table mirrored\<close>

definition table_ready :: "'h device \<Rightarrow> ('h \<Rightarrow> u32 \<Rightarrow> u32) \<Rightarrow> ('h, 'z) mac_adapter_scheme \<Rightarrow> bool" where
  "table_ready R reg ad \<longleftrightarrow> rar_ready R reg (mt_hw ad) \<and> length (mac_table ad) = rars ad"

abbreviation view_of :: "('h \<Rightarrow> u32 \<Rightarrow> u32) \<Rightarrow> ('h, 'z) mac_adapter_scheme \<Rightarrow> nat \<Rightarrow> u32 \<times> u32 \<times> u32 \<times> u32" where
  "view_of reg ad \<equiv> rar_view (regs reg (mt_hw ad))"

text \<open>An entry has an address of six bytes and a pool number that fits; a free entry has the zero address.\<close>

definition entry_ok :: "ixgbe_mac_addr \<Rightarrow> bool" where
  "entry_ok e \<longleftrightarrow> length (mt_addr e) = 6 \<and> (if entry_in_use e then mt_queue e < 64 else mt_addr e = zero_ether_addr)"

text \<open>\<open>in_step\<close>: entry \<open>i\<close> and its registers agree, and nothing is left to write.\<close>

definition in_step :: "('h \<Rightarrow> u32 \<Rightarrow> u32) \<Rightarrow> ('h, 'z) mac_adapter_scheme \<Rightarrow> nat \<Rightarrow> bool" where
  "in_step reg ad i \<longleftrightarrow> \<not> entry_modified (mac_table ad ! i) \<and> view_of reg ad i = entry_view (mac_table ad ! i)"

definition mirrored :: "('h \<Rightarrow> u32 \<Rightarrow> u32) \<Rightarrow> ('h, 'z) mac_adapter_scheme \<Rightarrow> bool" where
  "mirrored reg ad \<longleftrightarrow> (\<forall>i < rars ad. in_step reg ad i \<and> entry_ok (mac_table ad ! i))"

text \<open>\<open>can_sync\<close>: entry \<open>i\<close> is in step or can be brought into step.\<close>

definition can_sync :: "('h \<Rightarrow> u32 \<Rightarrow> u32) \<Rightarrow> ('h, 'z) mac_adapter_scheme \<Rightarrow> nat \<Rightarrow> bool" where
  "can_sync reg ad i \<longleftrightarrow> entry_ok (mac_table ad ! i) \<and>
     (if entry_modified (mac_table ad ! i)
      then entry_in_use (mac_table ad ! i) \<longrightarrow> snd (snd (view_of reg ad i)) = (0, 0)
      else view_of reg ad i = entry_view (mac_table ad ! i))"

definition synced_entry :: "ixgbe_mac_addr \<Rightarrow> ixgbe_mac_addr" where
  "synced_entry e = (if entry_modified e then e\<lparr>mt_state := mt_state e AND NOT IXGBE_MAC_STATE_MODIFIED\<rparr> else e)"

lemma synced_entry_simps [simp]:
  "mt_addr (synced_entry e) = mt_addr e" "mt_queue (synced_entry e) = mt_queue e" "\<not> entry_modified (synced_entry e)"
  "entry_in_use (synced_entry e) = entry_in_use e" "entry_view (synced_entry e) = entry_view e" "entry_ok (synced_entry e) = entry_ok e"
proof -
  have "(s AND - 3) AND 2 = 0" "(s AND - 3) AND 4 = s AND 4" for s :: u16
    by (simp_all add: and.assoc)
  then show u: "mt_addr (synced_entry e) = mt_addr e" "mt_queue (synced_entry e) = mt_queue e" "\<not> entry_modified (synced_entry e)"
    "entry_in_use (synced_entry e) = entry_in_use e"
    by (auto simp: synced_entry_def entry_modified_def entry_in_use_def)
  then show "entry_view (synced_entry e) = entry_view e" "entry_ok (synced_entry e) = entry_ok e"
    by (simp_all add: entry_view_def entry_ok_def)
qed

lemma program_view:
  assumes "table_ready R reg ad" "i < rars ad" "entry_ok e" "entry_in_use e \<longrightarrow> pools_free (mt_queue e) (snd (snd (view_of reg ad i)))"
  shows "\<exists>d. program_rar R i e ad = Inr (ad\<lparr>mt_hw := (mt_hw ad)\<lparr>hw_dev := d\<rparr>\<rparr>) \<and>
    (\<forall>j < 128. rar_view (reg d) j = (if j = i then entry_view e else view_of reg ad j))"
proof (cases "entry_in_use e")
  case True
  have "rar_ready R reg (mt_hw ad)" "mt_queue e < 64" using assms(1,3) True by (simp_all add: table_ready_def entry_ok_def)
  moreover have "entry_view \<lparr>mt_addr = mt_addr e, mt_queue = mt_queue e, mt_state = IXGBE_MAC_STATE_IN_USE\<rparr> = entry_view e"
    using True by (simp add: entry_view_def) (simp add: entry_in_use_def)
  ultimately show ?thesis
    using set_rar_view[of R reg "mt_hw ad" i "mt_queue e" "mt_addr e"] assms(2,4) True by (auto simp: program_rar_def)
next
  case False
  then have "rar_ready R reg (mt_hw ad)" "entry_view e = (0, 0, 0, 0)" using assms(1) by (simp_all add: table_ready_def entry_view_def)
  then show ?thesis using clear_rar_view[of R reg "mt_hw ad" i] assms(2) False by (auto simp: program_rar_def)
qed

text \<open>One step of the synchronisation.\<close>

lemma sync_entry_view:
  assumes "table_ready R reg ad" "i < rars ad" "can_sync reg ad i"
  shows "\<exists>d. sync_entry R i ad = Inr (ad\<lparr>mt_hw := (mt_hw ad)\<lparr>hw_dev := d\<rparr>, mac_table := (mac_table ad)[i := synced_entry (mac_table ad ! i)]\<rparr>) \<and>
    (\<forall>j < 128. rar_view (reg d) j = (if j = i then entry_view (mac_table ad ! i) else view_of reg ad j))"
proof -
  let ?e = "mac_table ad ! i"
  have i: "i < length (mac_table ad)" using assms(1,2) by (simp add: table_ready_def)
  show ?thesis
  proof (cases "entry_modified ?e")
    case True
    then obtain d where "program_rar R i ?e ad = Inr (ad\<lparr>mt_hw := (mt_hw ad)\<lparr>hw_dev := d\<rparr>\<rparr>)"
        "\<forall>j < 128. rar_view (reg d) j = (if j = i then entry_view ?e else view_of reg ad j)"
      using program_view[OF assms(1,2), of ?e] assms(3) by (auto simp: can_sync_def)
    then show ?thesis using True i by (intro exI[of _ d]) (simp add: sync_entry_def mac_entry_def put_entry_def synced_entry_def)
  next
    case False
    then show ?thesis using assms(3) i
      by (intro exI[of _ "hw_dev (mt_hw ad)"]) (simp add: sync_entry_def mac_entry_def synced_entry_def can_sync_def)
  qed
qed

text \<open>The whole synchronisation brings every entry into step and changes nothing else.\<close>

definition synced :: "('h, 'z) mac_adapter_scheme \<Rightarrow> 'h \<Rightarrow> ('h, 'z) mac_adapter_scheme" where
  "synced ad d = ad\<lparr>mt_hw := (mt_hw ad)\<lparr>hw_dev := d\<rparr>, mac_table := map synced_entry (mac_table ad)\<rparr>"

lemma sync_upto:
  assumes "table_ready R reg ad" "n \<le> rars ad" "\<forall>i < rars ad. can_sync reg ad i"
  shows "\<exists>d. fold (\<lambda>i r. rbind r (sync_entry R i)) [0..<n] (Inr ad) =
      Inr (ad\<lparr>mt_hw := (mt_hw ad)\<lparr>hw_dev := d\<rparr>, mac_table := map synced_entry (take n (mac_table ad)) @ drop n (mac_table ad)\<rparr>) \<and>
    (\<forall>j < 128. rar_view (reg d) j = (if j < n then entry_view (mac_table ad ! j) else view_of reg ad j))"
  using assms(2)
proof (induction n)
  case 0
  show ?case by (intro exI[of _ "hw_dev (mt_hw ad)"]) simp
next
  case (Suc n)
  then obtain d where d: "fold (\<lambda>i r. rbind r (sync_entry R i)) [0..<n] (Inr ad) =
      Inr (ad\<lparr>mt_hw := (mt_hw ad)\<lparr>hw_dev := d\<rparr>, mac_table := map synced_entry (take n (mac_table ad)) @ drop n (mac_table ad)\<rparr>)"
    "\<forall>j < 128. rar_view (reg d) j = (if j < n then entry_view (mac_table ad ! j) else view_of reg ad j)" by auto
  let ?ad = "ad\<lparr>mt_hw := (mt_hw ad)\<lparr>hw_dev := d\<rparr>, mac_table := map synced_entry (take n (mac_table ad)) @ drop n (mac_table ad)\<rparr>"
  have n: "n < length (mac_table ad)" "n < 128" "n < rars ad"
    using Suc.prems assms(1) by (auto simp: table_ready_def rar_ready_def word_le_nat_alt)
  have e: "mac_table ?ad ! n = mac_table ad ! n" using n(1) by (simp add: nth_append)
  have "table_ready R reg ?ad" using assms(1) n(1) by (simp add: table_ready_def rar_ready_def)
  moreover have "can_sync reg ?ad n" using assms(3) n d(2) e by (simp add: can_sync_def)
  ultimately obtain d' where d': "sync_entry R n ?ad = Inr (?ad\<lparr>mt_hw := (mt_hw ?ad)\<lparr>hw_dev := d'\<rparr>, mac_table := (mac_table ?ad)[n := synced_entry (mac_table ad ! n)]\<rparr>)"
      "\<forall>j < 128. rar_view (reg d') j = (if j = n then entry_view (mac_table ad ! n) else rar_view (reg d) j)"
    using sync_entry_view[of R reg ?ad n] n(3) e by auto
  have t: "(mac_table ?ad)[n := synced_entry (mac_table ad ! n)] = map synced_entry (take (Suc n) (mac_table ad)) @ drop (Suc n) (mac_table ad)"
    using n(1) by (simp add: list_update_append take_Suc_conv_app_nth Cons_nth_drop_Suc[symmetric])
  show ?case
    using d(1) d' d(2) t by (intro exI[of _ d']) (auto simp: less_Suc_eq)
qed

lemma sync_mirrors:
  assumes "table_ready R reg ad" "\<forall>i < rars ad. can_sync reg ad i"
  shows "\<exists>d. ixgbe_sync_mac_table R ad = Inr (synced ad d) \<and> table_ready R reg (synced ad d) \<and> mirrored reg (synced ad d)"
proof -
  obtain d where d: "ixgbe_sync_mac_table R ad = Inr (synced ad d)"
      "\<forall>j < 128. rar_view (reg d) j = (if j < rars ad then entry_view (mac_table ad ! j) else view_of reg ad j)"
    using sync_upto[OF assms(1) order_refl assms(2)] assms(1) unfolding ixgbe_sync_mac_table_def
    by (auto simp: synced_def table_ready_def)
  have "rars ad \<le> 128" "length (mac_table ad) = rars ad" using assms(1) by (simp_all add: table_ready_def rar_ready_def word_le_nat_alt)
  then show ?thesis using d assms
    by (intro exI[of _ d]) (auto simp: synced_def table_ready_def rar_ready_def mirrored_def in_step_def can_sync_def)
qed

section \<open>Operations on a mirrored table\<close>

lemma state_bits:
  "((s OR 2) AND - 5) AND 2 = 2" "((s OR 2) AND - 5) AND 4 = 0" "(s OR 6) AND 2 = 2" "(s OR 6) AND 4 = 4" for s :: u16
  by (simp_all add: bit.conj_disj_distrib2 and.assoc)

lemma removed_simps [simp]:
  "entry_modified (removed_entry e)" "\<not> entry_in_use (removed_entry e)" "entry_ok (removed_entry e)" "mt_addr (removed_entry e) = zero_ether_addr"
  by (simp_all add: removed_entry_def entry_modified_def entry_in_use_def entry_ok_def zero_ether_addr_def state_bits)

lemma mirrored_can_sync: "mirrored reg ad \<Longrightarrow> i < rars ad \<Longrightarrow> can_sync reg ad i"
  by (simp add: mirrored_def in_step_def can_sync_def)

definition synced_at :: "nat \<Rightarrow> ixgbe_mac_addr \<Rightarrow> ('h, 'z) mac_adapter_scheme \<Rightarrow> 'h \<Rightarrow> ('h, 'z) mac_adapter_scheme" where
  "synced_at i e ad d = ad\<lparr>mt_hw := (mt_hw ad)\<lparr>hw_dev := d\<rparr>, mac_table := (mac_table ad)[i := synced_entry e]\<rparr>"

lemma put_sync:
  assumes "table_ready R reg ad" "mirrored reg ad" "i < rars ad" "entry_modified e" "entry_ok e"
    and "entry_in_use e \<longrightarrow> \<not> entry_in_use (mac_table ad ! i)"
  shows "\<exists>d. ixgbe_sync_mac_table R (put_entry i e ad) = Inr (synced_at i e ad d) \<and>
    table_ready R reg (synced_at i e ad d) \<and> mirrored reg (synced_at i e ad d)"
proof -
  have l: "i < length (mac_table ad)" "length (mac_table ad) = rars ad" using assms(1,3) by (simp_all add: table_ready_def)
  have "view_of reg ad i = entry_view (mac_table ad ! i)" using assms(2,3) by (simp add: mirrored_def in_step_def)
  then have i: "can_sync reg (put_entry i e ad) i" using assms(4-6) l(1) by (simp add: can_sync_def put_entry_def entry_view_def)
  have "can_sync reg (put_entry i e ad) j" if "j < rars ad" for j
  proof (cases "j = i")
    case False
    then show ?thesis using mirrored_can_sync[OF assms(2) that] by (simp add: can_sync_def put_entry_def)
  qed (simp add: i)
  moreover have "table_ready R reg (put_entry i e ad)" using assms(1) by (simp add: table_ready_def put_entry_def)
  moreover have "synced (put_entry i e ad) d = synced_at i e ad d" for d
  proof -
    have "map synced_entry (mac_table ad) = mac_table ad"
      using assms(2) l(2) by (intro map_idI) (auto simp: mirrored_def in_step_def synced_entry_def in_set_conv_nth)
    then show ?thesis by (simp add: synced_def synced_at_def put_entry_def map_update)
  qed
  ultimately show ?thesis using sync_mirrors[of R reg "put_entry i e ad"] by (simp add: put_entry_def)
qed

subsection \<open>Filters\<close>

text \<open>The filters of a table: address and pool of the entries in use.\<close>

type_synonym mac_filter = "u8 list \<times> u16"

definition table_filters :: "ixgbe_mac_addr list \<Rightarrow> mac_filter multiset" where
  "table_filters t = image_mset (\<lambda>e. (mt_addr e, mt_queue e)) (filter_mset entry_in_use (mset t))"

lemma filters_update:
  assumes "i < length t"
  obtains F where "table_filters t = (if entry_in_use (t ! i) then add_mset (mt_addr (t ! i), mt_queue (t ! i)) F else F)"
    "\<And>e. table_filters (t[i := e]) = (if entry_in_use e then add_mset (mt_addr e, mt_queue e) F else F)"
    "size F < length t"
proof -
  let ?M = "mset t - {#t ! i#}"
  have m: "mset t = add_mset (t ! i) ?M" using assms by simp
  have u: "mset (t[i := e]) = add_mset e ?M" for e using assms by (simp add: mset_update)
  have "size (filter_mset entry_in_use ?M) \<le> size ?M" by (rule size_filter_mset_lesseq)
  moreover have "size ?M < length t" using arg_cong[OF m, of size] by simp
  ultimately show ?thesis
    using that[of "image_mset (\<lambda>e. (mt_addr e, mt_queue e)) (filter_mset entry_in_use ?M)"]
    by (simp add: table_filters_def u m[THEN arg_cong, of "filter_mset entry_in_use"])
qed

lemma in_filters: "i < length t \<Longrightarrow> entry_in_use (t ! i) \<Longrightarrow> (mt_addr (t ! i), mt_queue (t ! i)) \<in># table_filters t"
  by (auto simp: table_filters_def in_set_conv_nth)

lemma filters_in: "(a, q) \<in># table_filters t \<Longrightarrow> \<exists>i < length t. entry_in_use (t ! i) \<and> mt_addr (t ! i) = a \<and> mt_queue (t ! i) = q"
  by (auto simp: table_filters_def in_set_conv_nth)

subsection \<open>The specification\<close>

text \<open>
  A table of \<open>n\<close> entries is a multiset of filters. An addition of a filter that is there may or may not add it
  again; an address another pool has may be refused.
\<close>

definition add_spec :: "nat \<Rightarrow> u8 list \<Rightarrow> u16 \<Rightarrow> mac_filter multiset \<Rightarrow> int \<Rightarrow> mac_filter multiset \<Rightarrow> bool" where
  "add_spec n a q F r F' \<longleftrightarrow>
     (r \<ge> 0 \<and> F' = F \<and> (a, q) \<in># F) \<or> (r \<ge> 0 \<and> F' = add_mset (a, q) F \<and> size F < n \<and> \<not> is_zero_ether_addr a) \<or>
     (r = - EINVAL \<and> F' = F \<and> (is_zero_ether_addr a \<or> (\<exists>q'. q' \<noteq> q \<and> (a, q') \<in># F))) \<or>
     (r = - ENOMEM \<and> F' = F \<and> size F = n \<and> (\<forall>q'. (a, q') \<notin># F))"

definition del_spec :: "u8 list \<Rightarrow> u16 \<Rightarrow> mac_filter multiset \<Rightarrow> int \<Rightarrow> mac_filter multiset \<Rightarrow> bool" where
  "del_spec a q F r F' \<longleftrightarrow>
     (if is_zero_ether_addr a then r = - EINVAL \<and> F' = F
      else if (a, q) \<in># F then r = 0 \<and> F' = F - {#(a, q)#}
      else r = - ENOMEM \<and> F' = F)"

definition filters_of :: "('h, 'z) mac_adapter_scheme \<Rightarrow> mac_filter multiset" where
  "filters_of ad = table_filters (mac_table ad)"

lemma add_from_spec:
  assumes "table_ready R reg ad" "mirrored reg ad" "length a = 6" "q < 64" "\<not> is_zero_ether_addr a"
    and "i + n = rars ad" "\<forall>j < i. entry_in_use (mac_table ad ! j) \<and> mt_addr (mac_table ad ! j) \<noteq> a"
  shows "\<exists>r ad'. add_mac_from R a q n i ad = Inr (r, ad') \<and> table_ready R reg ad' \<and> mirrored reg ad' \<and> rars ad' = rars ad \<and>
     add_spec (rars ad) a q (filters_of ad) r (filters_of ad')"
  using assms(6,7)
proof (induction n arbitrary: i)
  case 0
  have l: "length (mac_table ad) = rars ad" using assms(1) by (simp add: table_ready_def)
  have "(a, q') \<notin># filters_of ad" for q' using 0 filters_in[of a q' "mac_table ad"] l by (auto simp: filters_of_def)
  moreover have "size (filters_of ad) = rars ad"
  proof -
    have "filter_mset entry_in_use (mset (mac_table ad)) = mset (mac_table ad)"
      using 0 l by (intro filter_mset_eq_conv[THEN iffD2]) (auto simp: in_set_conv_nth)
    then show ?thesis using l by (simp add: filters_of_def table_filters_def)
  qed
  ultimately show ?case using assms(1,2) by (simp add: add_spec_def)
next
  case (Suc n)
  let ?e = "mac_table ad ! i"
  have l: "length (mac_table ad) = rars ad" and i: "i < length (mac_table ad)" using assms(1) Suc.prems(1) by (simp_all add: table_ready_def)
  have ok: "entry_ok ?e" using assms(2) i l by (simp add: mirrored_def)
  have cmp: "compare_ether_addr a (mt_addr ?e) \<longleftrightarrow> mt_addr ?e \<noteq> a" using assms(3) ok by (auto simp: compare_ether_addr_def entry_ok_def)
  show ?case
  proof (cases "entry_in_use ?e")
    case True
    show ?thesis
    proof (cases "mt_addr ?e = a")
      case eq: True
      then have "(a, mt_queue ?e) \<in># filters_of ad" using in_filters[OF i True] by (simp add: filters_of_def)
      then show ?thesis using True cmp eq i assms(1,2) by (auto simp: mac_entry_def add_spec_def)
    next
      case False
      then show ?thesis using Suc.IH[of "Suc i"] Suc.prems True cmp i by (auto simp: mac_entry_def less_Suc_eq)
    qed
  next
    case False
    let ?n = "\<lparr>mt_addr = take 6 a, mt_queue = q, mt_state = mt_state ?e OR (IXGBE_MAC_STATE_MODIFIED OR IXGBE_MAC_STATE_IN_USE)\<rparr>"
    have n: "entry_modified ?n" "entry_in_use ?n" "entry_ok ?n"
      using assms(3,4) by (simp_all add: entry_modified_def entry_in_use_def entry_ok_def state_bits)
    obtain d where d: "ixgbe_sync_mac_table R (put_entry i ?n ad) = Inr (synced_at i ?n ad d)"
        "table_ready R reg (synced_at i ?n ad d)" "mirrored reg (synced_at i ?n ad d)"
      using put_sync[OF assms(1,2) _ n(1,3)] False i l by auto
    obtain F where F: "table_filters (mac_table ad) = F" "table_filters ((mac_table ad)[i := synced_entry ?n]) = add_mset (a, q) F" "size F < rars ad"
      using filters_update[OF i] False n(2) assms(3) l by (metis ixgbe_mac_addr.select_convs(1,2) order_refl synced_entry_simps(1,2,4) take_all)
    have "add_mac_from R a q (Suc n) i ad = Inr (int i, synced_at i ?n ad d)"
      using False i d(1) by (simp add: mac_entry_def)
    moreover have "filters_of (synced_at i ?n ad d) = add_mset (a, q) (filters_of ad)" "size (filters_of ad) < rars ad"
      using F by (simp_all add: filters_of_def synced_at_def)
    ultimately show ?thesis using d(2,3) assms(5) by (auto simp: add_spec_def synced_at_def)
  qed
qed

lemma add_mac_ok:
  assumes "table_ready R reg ad" "mirrored reg ad" "length a = 6" "q < 64"
  shows "\<exists>r ad'. ixgbe_add_mac_filter R a q ad = Inr (r, ad') \<and> table_ready R reg ad' \<and> mirrored reg ad' \<and> rars ad' = rars ad \<and>
     add_spec (rars ad) a q (filters_of ad) r (filters_of ad')"
proof (cases "is_zero_ether_addr a")
  case False
  then show ?thesis using add_from_spec[OF assms False, of 0 "rars ad"] by (simp add: ixgbe_add_mac_filter_def)
qed (use assms in \<open>simp add: ixgbe_add_mac_filter_def add_spec_def\<close>)

text \<open>Removing an entry: its filter goes, if it was in use.\<close>

lemma remove_ok:
  assumes "table_ready R reg ad" "mirrored reg ad" "i < rars ad"
  shows "\<exists>ad'. ixgbe_sync_mac_table R (put_entry i (removed_entry (mac_table ad ! i)) ad) = Inr ad' \<and> table_ready R reg ad' \<and> mirrored reg ad' \<and>
     rars ad' = rars ad \<and> mac_table ad' = (mac_table ad)[i := synced_entry (removed_entry (mac_table ad ! i))] \<and>
     filters_of ad = (if entry_in_use (mac_table ad ! i) then add_mset (mt_addr (mac_table ad ! i), mt_queue (mac_table ad ! i)) (filters_of ad') else filters_of ad')"
proof -
  let ?e = "removed_entry (mac_table ad ! i)"
  obtain d where d: "ixgbe_sync_mac_table R (put_entry i ?e ad) = Inr (synced_at i ?e ad d)"
      "table_ready R reg (synced_at i ?e ad d)" "mirrored reg (synced_at i ?e ad d)"
    using put_sync[OF assms, of ?e] by auto
  have "i < length (mac_table ad)" using assms(1,3) by (simp add: table_ready_def)
  then obtain F where "table_filters (mac_table ad) = (if entry_in_use (mac_table ad ! i) then add_mset (mt_addr (mac_table ad ! i), mt_queue (mac_table ad ! i)) F else F)"
      "table_filters ((mac_table ad)[i := synced_entry ?e]) = F"
    using filters_update[of i "mac_table ad"] by (metis removed_simps(2) synced_entry_simps(4))
  then show ?thesis using d by (intro exI[of _ "synced_at i ?e ad d"]) (simp add: filters_of_def synced_at_def)
qed

lemma zero_addr_zero: "is_zero_ether_addr zero_ether_addr"
  by (simp add: is_zero_ether_addr_def zero_ether_addr_def nth_Cons numeral_eq_Suc)

lemma del_from_spec:
  assumes "table_ready R reg ad" "mirrored reg ad" "length a = 6" "\<not> is_zero_ether_addr a"
    and "i + n = rars ad" "\<forall>j < i. \<not> (mt_addr (mac_table ad ! j) = a \<and> mt_queue (mac_table ad ! j) = q)"
  shows "\<exists>r ad'. del_mac_from R a q n i ad = Inr (r, ad') \<and> table_ready R reg ad' \<and> mirrored reg ad' \<and> rars ad' = rars ad \<and>
     del_spec a q (filters_of ad) r (filters_of ad')"
  using assms(5,6)
proof (induction n arbitrary: i)
  case 0
  have "(a, q) \<notin># filters_of ad" using 0 filters_in[of a q "mac_table ad"] assms(1) by (auto simp: filters_of_def table_ready_def)
  then show ?case using assms(1,2,4) by (simp add: del_spec_def)
next
  case (Suc n)
  let ?e = "mac_table ad ! i"
  have l: "i < rars ad" "i < length (mac_table ad)" using Suc.prems(1) assms(1) by (simp_all add: table_ready_def)
  have ok: "entry_ok ?e" using assms(2) l by (simp add: mirrored_def)
  have cmp: "compare_ether_addr a (mt_addr ?e) \<longleftrightarrow> mt_addr ?e \<noteq> a" using assms(3) ok by (auto simp: compare_ether_addr_def entry_ok_def)
  show ?case
  proof (cases "mt_addr ?e = a \<and> mt_queue ?e = q")
    case True
    then have u: "entry_in_use ?e" using ok assms(4) zero_addr_zero by (metis entry_ok_def)
    obtain ad' where r: "ixgbe_sync_mac_table R (put_entry i (removed_entry ?e) ad) = Inr ad'" "table_ready R reg ad'" "mirrored reg ad'"
        "rars ad' = rars ad" "filters_of ad = add_mset (a, q) (filters_of ad')"
      using remove_ok[OF assms(1,2) l(1)] u True by auto
    then have "del_mac_from R a q (Suc n) i ad = Inr (0, ad')" using True cmp l by (simp add: mac_entry_def)
    then show ?thesis using r assms(4) by (simp add: del_spec_def)
  next
    case False
    then show ?thesis using Suc.IH[of "Suc i"] Suc.prems cmp l by (auto simp: mac_entry_def less_Suc_eq)
  qed
qed

lemma del_mac_ok:
  assumes "table_ready R reg ad" "mirrored reg ad" "length a = 6"
  shows "\<exists>r ad'. ixgbe_del_mac_filter R a q ad = Inr (r, ad') \<and> table_ready R reg ad' \<and> mirrored reg ad' \<and> rars ad' = rars ad \<and>
     del_spec a q (filters_of ad) r (filters_of ad')"
proof (cases "is_zero_ether_addr a")
  case False
  then show ?thesis using del_from_spec[OF assms False, of 0 "rars ad"] by (simp add: ixgbe_del_mac_filter_def)
qed (use assms in \<open>simp add: ixgbe_del_mac_filter_def del_spec_def\<close>)

lemma del_index_ok:
  assumes "table_ready R reg ad" "mirrored reg ad" "i < rars ad"
  shows "\<exists>ad'. ixgbe_del_mac_filter_by_index R i ad = Inr ad' \<and> table_ready R reg ad' \<and> mirrored reg ad' \<and> rars ad' = rars ad \<and>
     (filters_of ad' = filters_of ad \<or> (\<exists>x. filters_of ad = add_mset x (filters_of ad')))"
proof -
  have "i < length (mac_table ad)" using assms(1,3) by (simp add: table_ready_def)
  then show ?thesis using remove_ok[OF assms] by (auto simp: ixgbe_del_mac_filter_by_index_def mac_entry_def)
qed

text \<open>A flush empties the table and the registers, whatever they held.\<close>

lemma flush_fold:
  assumes "n \<le> length (mac_table ad)"
  shows "fold (\<lambda>i r. rbind r (\<lambda>ad. rbind (mac_entry i ad) (\<lambda>e. Inr (put_entry i (removed_entry e) ad)))) [0..<n] (Inr ad) =
    Inr (ad\<lparr>mac_table := map removed_entry (take n (mac_table ad)) @ drop n (mac_table ad)\<rparr>)"
  using assms
proof (induction n)
  case (Suc n)
  then have n: "n < length (mac_table ad)" by simp
  then have t: "(map removed_entry (take n (mac_table ad)) @ drop n (mac_table ad))[n := removed_entry (mac_table ad ! n)] =
      map removed_entry (take (Suc n) (mac_table ad)) @ drop (Suc n) (mac_table ad)"
    by (simp add: list_update_append take_Suc_conv_app_nth Cons_nth_drop_Suc[symmetric])
  then show ?case using Suc n by (simp add: mac_entry_def put_entry_def nth_append)
qed simp

lemma flush_ok:
  assumes "table_ready R reg ad"
  shows "\<exists>ad'. ixgbe_flush_sw_mac_table R ad = Inr ad' \<and> table_ready R reg ad' \<and> mirrored reg ad' \<and> rars ad' = rars ad \<and> filters_of ad' = {#}"
proof -
  let ?ad = "ad\<lparr>mac_table := map removed_entry (mac_table ad)\<rparr>"
  have l: "length (mac_table ad) = rars ad" using assms by (simp add: table_ready_def)
  have r: "table_ready R reg ?ad" using assms by (simp add: table_ready_def)
  have c: "\<forall>i < rars ?ad. can_sync reg ?ad i" using l by (simp add: can_sync_def)
  obtain d where d: "ixgbe_sync_mac_table R ?ad = Inr (synced ?ad d)" "table_ready R reg (synced ?ad d)" "mirrored reg (synced ?ad d)"
    using sync_mirrors[OF r c] by blast
  have "ixgbe_flush_sw_mac_table R ad = Inr (synced ?ad d)"
    using flush_fold[of "rars ad" ad] l d(1) by (simp add: ixgbe_flush_sw_mac_table_def)
  moreover have "filters_of (synced ?ad d) = {#}"
    by (simp add: filters_of_def table_filters_def synced_def mset_filter[symmetric] filter_map o_def del: mset_map)
  ultimately show ?thesis using d(2,3) by (intro exI[of _ "synced ?ad d"]) (simp add: synced_def)
qed

section \<open>Histories of calls\<close>

datatype mac_call = AddMac "u8 list" u16 | DelMac "u8 list" u16 | DelIndex nat | FlushMac

fun mac_call_ok :: "nat \<Rightarrow> mac_call \<Rightarrow> bool" where
  "mac_call_ok n (AddMac a q) \<longleftrightarrow> length a = 6 \<and> q < 64"
| "mac_call_ok n (DelMac a q) \<longleftrightarrow> length a = 6"
| "mac_call_ok n (DelIndex i) \<longleftrightarrow> i < n"
| "mac_call_ok n FlushMac \<longleftrightarrow> True"

fun do_mac_call :: "'h device \<Rightarrow> mac_call \<Rightarrow> ('h, 'z) mac_adapter_scheme \<Rightarrow> fault + int \<times> ('h, 'z) mac_adapter_scheme" where
  "do_mac_call R (AddMac a q) ad = ixgbe_add_mac_filter R a q ad"
| "do_mac_call R (DelMac a q) ad = ixgbe_del_mac_filter R a q ad"
| "do_mac_call R (DelIndex i) ad = rbind (ixgbe_del_mac_filter_by_index R i ad) (\<lambda>ad'. Inr (0, ad'))"
| "do_mac_call R FlushMac ad = rbind (ixgbe_flush_sw_mac_table R ad) (\<lambda>ad'. Inr (0, ad'))"

text \<open>What a call may do to the multiset of filters of a table of \<open>n\<close> entries, and a sequence of calls.\<close>

fun mac_spec :: "nat \<Rightarrow> mac_call \<Rightarrow> mac_filter multiset \<Rightarrow> int \<Rightarrow> mac_filter multiset \<Rightarrow> bool" where
  "mac_spec n (AddMac a q) F r F' \<longleftrightarrow> add_spec n a q F r F'"
| "mac_spec n (DelMac a q) F r F' \<longleftrightarrow> del_spec a q F r F'"
| "mac_spec n (DelIndex i) F r F' \<longleftrightarrow> F' = F \<or> (\<exists>x. F = add_mset x F')"
| "mac_spec n FlushMac F r F' \<longleftrightarrow> F' = {#}"

abbreviation mac_history :: "nat \<Rightarrow> mac_call list \<Rightarrow> int list \<Rightarrow> mac_filter multiset \<Rightarrow> bool" where
  "mac_history n \<equiv> history (mac_spec n) {#}"

text \<open>A flush followed by calls, with the status of each.\<close>

definition run_mac_calls :: "'h device \<Rightarrow> mac_call list \<Rightarrow> ('h, 'z) mac_adapter_scheme \<Rightarrow> fault + int list \<times> ('h, 'z) mac_adapter_scheme" where
  "run_mac_calls R cs ad = rbind (ixgbe_flush_sw_mac_table R ad) (run_calls (do_mac_call R) cs)"

lemma mac_call_refines:
  assumes "table_ready R reg ad" "mirrored reg ad" "mac_call_ok (rars ad) c"
  shows "\<exists>r ad'. do_mac_call R c ad = Inr (r, ad') \<and> table_ready R reg ad' \<and> mirrored reg ad' \<and> rars ad' = rars ad \<and>
     mac_spec (rars ad) c (filters_of ad) r (filters_of ad')"
proof (cases c)
  case (AddMac a q)
  then show ?thesis using add_mac_ok[OF assms(1,2), of a q] assms(3) by simp
next
  case (DelMac a q)
  then show ?thesis using del_mac_ok[OF assms(1,2), of a q] assms(3) by simp
next
  case (DelIndex i)
  then show ?thesis using del_index_ok[OF assms(1,2), of i] assms(3) by auto
next
  case FlushMac
  then show ?thesis using flush_ok[OF assms(1)] by auto
qed

text \<open>The table in step with the registers is an implementation of the multiset of filters.\<close>

interpretation mac_calls: call_refinement "do_mac_call R" "\<lambda>ad. table_ready R reg ad \<and> mirrored reg ad \<and> rars ad = n" filters_of "mac_spec n" "mac_call_ok n" "\<lambda>_. True"
  for R :: "'h device" and reg n
  by unfold_locales (use mac_call_refines in \<open>fastforce+\<close>)

lemma run_mac_ok:
  assumes "table_ready R reg ad" "list_all (mac_call_ok (rars ad)) cs"
  shows "\<exists>rs ad'. run_mac_calls R cs ad = Inr (rs, ad') \<and> table_ready R reg ad' \<and> mirrored reg ad' \<and> rars ad' = rars ad \<and>
     mac_history (rars ad) cs rs (filters_of ad')"
proof -
  obtain ad1 where f: "ixgbe_flush_sw_mac_table R ad = Inr ad1" "table_ready R reg ad1" "mirrored reg ad1" "rars ad1 = rars ad" "filters_of ad1 = {#}"
    using flush_ok[OF assms(1)] by blast
  obtain rs ad' where "run_calls (do_mac_call R) cs ad1 = Inr (rs, ad')" "table_ready R reg ad' \<and> mirrored reg ad' \<and> rars ad' = rars ad"
      "history (mac_spec (rars ad)) (filters_of ad1) cs rs (filters_of ad')"
    by (rule mac_calls.run_returns[where R = R and reg = reg and n = "rars ad" and s = ad1 and cs = cs]) (use f assms(2) in \<open>auto simp: list_all_iff\<close>)
  then show ?thesis using f(1,5) by (simp add: run_mac_calls_def)
qed

subsection \<open>The filters of the hardware\<close>

text \<open>The valid register pairs below \<open>n\<close>, each with what it says, and what a filter looks like in registers.\<close>

definition valid_rars :: "(u32 \<Rightarrow> u32) \<Rightarrow> nat \<Rightarrow> (u32 \<times> u32 \<times> u32 \<times> u32) multiset" where
  "valid_rars f n = image_mset (rar_view f) (filter_mset (\<lambda>i. f (rar_reg Rah i) AND IXGBE_RAH_AV \<noteq> 0) (mset [0..<n]))"

definition filter_view :: "mac_filter \<Rightarrow> u32 \<times> u32 \<times> u32 \<times> u32" where
  "filter_view x = entry_view \<lparr>mt_addr = fst x, mt_queue = snd x, mt_state = IXGBE_MAC_STATE_IN_USE\<rparr>"

lemma mirrored_valid:
  assumes "table_ready R reg ad" "mirrored reg ad"
  shows "valid_rars (regs reg (mt_hw ad)) (rars ad) = image_mset filter_view (filters_of ad)"
proof -
  let ?f = "regs reg (mt_hw ad)" and ?t = "mac_table ad"
  have l: "length ?t = rars ad" using assms(1) by (simp add: table_ready_def)
  have e: "entry_in_use e \<Longrightarrow> entry_view e = filter_view (mt_addr e, mt_queue e)" for e
    by (simp add: filter_view_def entry_view_def) (simp add: entry_in_use_def)
  have v: "rar_view ?f i = entry_view (?t ! i)" "?f (rar_reg Rah i) AND IXGBE_RAH_AV \<noteq> 0 \<longleftrightarrow> entry_in_use (?t ! i)" if "i < rars ad" for i
  proof -
    show v: "rar_view ?f i = entry_view (?t ! i)" using assms(2) that by (simp add: mirrored_def in_step_def)
    have "?f (rar_reg Rah i) AND IXGBE_RAH_AV = fst (snd (rar_view ?f i)) AND IXGBE_RAH_AV"
      by (simp add: rar_view_def and.assoc)
    then show "?f (rar_reg Rah i) AND IXGBE_RAH_AV \<noteq> 0 \<longleftrightarrow> entry_in_use (?t ! i)"
      unfolding v by (simp add: entry_view_def bit.conj_disj_distrib2 or_eq_0_iff)
  qed
  have "filter (\<lambda>i. ?f (rar_reg Rah i) AND IXGBE_RAH_AV \<noteq> 0) [0..<rars ad] = filter (\<lambda>i. entry_in_use (?t ! i)) [0..<rars ad]"
    using v(2) by (intro filter_cong) simp_all
  then have "valid_rars ?f (rars ad) = mset (map (rar_view ?f) (filter (\<lambda>i. entry_in_use (?t ! i)) [0..<rars ad]))"
    by (simp only: valid_rars_def mset_filter[symmetric] mset_map)
  also have "map (rar_view ?f) (filter (\<lambda>i. entry_in_use (?t ! i)) [0..<rars ad]) =
      map (\<lambda>i. filter_view (mt_addr (?t ! i), mt_queue (?t ! i))) (filter (\<lambda>i. entry_in_use (?t ! i)) [0..<rars ad])"
    using v(1) e by simp
  also have "mset \<dots> = image_mset filter_view (mset (map (\<lambda>e. (mt_addr e, mt_queue e)) (filter entry_in_use (map ((!) ?t) [0..<rars ad]))))"
    by (simp add: filter_map o_def multiset.map_comp)
  also have "map ((!) ?t) [0..<rars ad] = ?t" using l map_nth[of ?t] by simp
  finally show ?thesis by (simp add: filters_of_def table_filters_def mset_filter)
qed

text \<open>
  C28. The receive address registers are the filters that were asked for: from any state of the table and the registers,
  a flush followed by any sequence of additions and removals never fails; the valid registers then hold exactly
  the filters (address and pool) of a multiset that the calls lead to, in which an addition adds its filter unless
  the address is there or the table is full, a removal takes one copy of its filter, and the status says which.
\<close>

theorem mac_registers_refine:
  assumes "table_ready R reg ad" "list_all (mac_call_ok (rars ad)) calls"
  shows "\<exists>rs ad' F. run_mac_calls R calls ad = Inr (rs, ad') \<and> mac_history (rars ad) calls rs F \<and>
     valid_rars (regs reg (mt_hw ad')) (rars ad) = image_mset filter_view F"
proof -
  obtain rs ad' where "run_mac_calls R calls ad = Inr (rs, ad')" "table_ready R reg ad'" "mirrored reg ad'" "rars ad' = rars ad"
      "mac_history (rars ad) calls rs (filters_of ad')"
    using run_mac_ok[OF assms] by blast
  then show ?thesis using mirrored_valid[of R reg ad'] by auto
qed

text \<open>Four entries full of earlier contents; an address is added, added for another pool, and removed.\<close>

definition demo_mac_adapter :: "(u32 \<Rightarrow> u32) mac_adapter" where
  "demo_mac_adapter = \<lparr>mt_hw = (demo_flt_hw ixgbe_mac_82599EB)\<lparr>num_rar_entries := 4, hw_dev := \<lambda>_. 0xDEADBEEF\<rparr>,
     mac_table = replicate 4 \<lparr>mt_addr = [0, 0x1B, 0x21, 9, 9, 9], mt_queue = 7, mt_state = IXGBE_MAC_STATE_IN_USE\<rparr>\<rparr>"

definition demo_mac_calls :: "mac_call list" where
  "demo_mac_calls = [AddMac [0, 0x1B, 0x21, 1, 2, 3] 1, AddMac [0, 0x1B, 0x21, 1, 2, 3] 33, DelMac [0, 0x1B, 0x21, 1, 2, 3] 1]"

theorem mac_registers_refine_witness:
  "\<exists>rs ad' F. run_mac_calls register_file demo_mac_calls demo_mac_adapter = Inr (rs, ad') \<and> mac_history 4 demo_mac_calls rs F \<and>
     valid_rars (hw_dev (mt_hw ad')) 4 = image_mset filter_view F"
proof -
  have n: "rars demo_mac_adapter = 4" by (simp add: demo_mac_adapter_def)
  have "table_ready register_file (\<lambda>s. s) demo_mac_adapter"
    by (simp add: table_ready_def rar_ready_def register_file_bank demo_mac_adapter_def demo_flt_hw_def)
  moreover have "list_all (mac_call_ok (rars demo_mac_adapter)) demo_mac_calls" by (simp add: demo_mac_calls_def)
  ultimately show ?thesis using mac_registers_refine[of register_file "\<lambda>s. s" demo_mac_adapter demo_mac_calls] n by simp
qed

section \<open>Where the code departs from its comments\<close>

text \<open>
  The check for an address that another pool has ends at the first free entry, so the address can be
  programmed for two pools.
\<close>

lemma add_before_duplicate:
  assumes "table_ready R reg ad" "mirrored reg ad" "0 < rars ad" "\<not> entry_in_use (mac_table ad ! 0)"
    "length a = 6" "q < 64" "\<not> is_zero_ether_addr a"
  shows "\<exists>ad'. ixgbe_add_mac_filter R a q ad = Inr (0, ad') \<and> filters_of ad' = add_mset (a, q) (filters_of ad)"
proof -
  let ?e = "mac_table ad ! 0"
  let ?n = "\<lparr>mt_addr = take 6 a, mt_queue = q, mt_state = mt_state ?e OR (IXGBE_MAC_STATE_MODIFIED OR IXGBE_MAC_STATE_IN_USE)\<rparr>"
  have l: "0 < length (mac_table ad)" using assms(1,3) by (simp add: table_ready_def)
  have n: "entry_modified ?n" "entry_in_use ?n" "entry_ok ?n"
    using assms(5,6) by (simp_all add: entry_modified_def entry_in_use_def entry_ok_def state_bits)
  obtain d where d: "ixgbe_sync_mac_table R (put_entry 0 ?n ad) = Inr (synced_at 0 ?n ad d)"
    using put_sync[OF assms(1-3) n(1,3)] assms(4) by auto
  obtain m where "rars ad = Suc m" using assms(3) by (cases "rars ad") auto
  then have "ixgbe_add_mac_filter R a q ad = Inr (0, synced_at 0 ?n ad d)"
    using assms(4,7) l d by (simp add: ixgbe_add_mac_filter_def mac_entry_def)
  moreover obtain F where "table_filters (mac_table ad) = F" "table_filters ((mac_table ad)[0 := synced_entry ?n]) = add_mset (a, q) F"
    using filters_update[OF l] assms(4,5) n(2) by (metis ixgbe_mac_addr.select_convs(1,2) order_refl synced_entry_simps(1,2,4) take_all)
  ultimately show ?thesis by (auto simp: filters_of_def synced_at_def)
qed

text \<open>
  With every register taken \<open>ixgbe_insert_mac_addr_generic\<close> reports the index after the last one as a
  success and counts it; the error of its last branch is never returned.
\<close>

lemma insert_mac_full:
  assumes "rar_search R addr (unat (rar_highwater hw)) 0 None hw = (None, None, hw1)" "num_rar_entries hw1 \<le> rar_highwater hw1"
    "rar_highwater hw1 \<noteq> 0"
  shows "ixgbe_insert_mac_addr_generic R addr vmdq hw =
     Inr (sint (rar_highwater hw1), hw1\<lparr>rar_highwater := rar_highwater hw1 + 1\<rparr>)"
  using assms by (simp add: ixgbe_insert_mac_addr_generic_def ixgbe_set_rar_generic_def)

end
