(* ===== verification/MacFrame.thy ===== *)
theory MacFrame
  imports MacProps
begin

text \<open>
  What programming the receive addresses leaves alone: the kind of the hardware, the mailbox and every field of
  an adapter but the hardware state and the table.
\<close>

section \<open>The kind of the hardware\<close>

definition hw_kind :: "'h flt_hw \<Rightarrow> ixgbe_mac_type \<times> u32 \<times> u32 \<times> ixgbe_mbx_info" where
  "hw_kind hw = (mac_type hw, num_rar_entries hw, mcft_size hw, mbx hw)"

text \<open>No register access changes the kind of the hardware.\<close>

lemma kind_io [simp]:
  "hw_kind (IXGBE_WRITE_REG R a v hw) = hw_kind hw" "hw_kind (snd (IXGBE_READ_REG R a hw)) = hw_kind hw" "hw_kind (rmw R a f hw) = hw_kind hw"
  by (simp_all add: hw_kind_def hw_io)

lemma kind_fold:
  assumes "\<And>x hw. hw_kind (f x hw) = hw_kind hw"
  shows "hw_kind (fold f xs hw) = hw_kind hw"
  by (induction xs arbitrary: hw) (simp_all add: assms)

lemma kind_clear_rar_regs [simp]: "hw_kind (clear_rar_regs R i hw) = hw_kind hw"
  by (simp add: clear_rar_regs_def case_prod_beta)

lemma kind_clear_pools [simp]: "hw_kind (snd (snd (clear_pools R i q lo hi hw))) = hw_kind hw"
  by (simp add: clear_pools_def Let_def)

lemma kind_clear_vmdq: "ixgbe_clear_vmdq_generic R i q hw = Some x \<Longrightarrow> hw_kind (snd x) = hw_kind hw"
proof (rule ixgbe_clear_vmdq_generic.raw_induct[where P = "\<lambda>R i q hw x. hw_kind (snd x) = hw_kind hw"])
  fix clr :: "'h device \<Rightarrow> u32 \<Rightarrow> u32 \<Rightarrow> 'h flt_hw \<Rightarrow> (int \<times> 'h flt_hw) option" and R i q hw x
  assume IH: "\<And>R i q hw x. clr R i q hw = Some x \<Longrightarrow> hw_kind (snd x) = hw_kind hw"
    and b: "(if num_rar_entries hw \<le> i then Some (IXGBE_ERR_INVALID_ARGUMENT, hw)
      else case IXGBE_READ_REG R (IXGBE_MPSAR_LO i) hw of (lo, hw1) \<Rightarrow>
        case IXGBE_READ_REG R (IXGBE_MPSAR_HI i) hw1 of (hi, hw2) \<Rightarrow>
        if lo = 0 \<and> hi = 0 then Some (0, hw2)
        else case clear_pools R i q lo hi hw2 of (lo', hi', hw3) \<Rightarrow>
          if lo' = 0 \<and> hi' = 0 \<and> i \<noteq> 0
          then Option.bind (clr R i IXGBE_CLEAR_VMDQ_ALL (clear_rar_regs R i hw3)) (\<lambda>(_, hw4). Some (0, hw4))
          else Some (0, hw3)) = Some x"
  show "hw_kind (snd x) = hw_kind hw"
    using b by (auto simp: case_prod_beta split: if_split_asm bind_split_asm dest!: IH)
qed simp_all

lemma kind_rar:
  "ixgbe_set_rar_generic R i a q en hw = Inr x \<Longrightarrow> hw_kind (snd x) = hw_kind hw"
  "ixgbe_clear_rar_generic R i hw = Inr x \<Longrightarrow> hw_kind (snd x) = hw_kind hw"
proof -
  have set: "hw_kind (snd y) = hw_kind hw" if "call_set_vmdq R i q hw = Inr y" for y
    using that by (auto simp: call_set_vmdq_def ixgbe_set_vmdq_82598_def ixgbe_set_vmdq_generic_def split: if_split_asm)
  show "ixgbe_set_rar_generic R i a q en hw = Inr x \<Longrightarrow> hw_kind (snd x) = hw_kind hw"
    by (auto simp: ixgbe_set_rar_generic_def rbind_eq_Inr case_prod_beta Let_def split: if_split_asm dest!: set)
  have clear: "hw_kind (snd y) = hw_kind hw'" if "call_clear_vmdq R i IXGBE_CLEAR_VMDQ_ALL hw' = Inr y" for hw' y
    using that by (auto simp: call_clear_vmdq_def ixgbe_clear_vmdq_82598_def case_prod_beta of_option_def
        split: if_split_asm option.split_asm dest: kind_clear_vmdq)
  show "ixgbe_clear_rar_generic R i hw = Inr x \<Longrightarrow> hw_kind (snd x) = hw_kind hw"
    by (auto simp: ixgbe_clear_rar_generic_def rbind_eq_Inr case_prod_beta split: if_split_asm dest!: clear)
qed

lemma kind_program: "program_rar R i e ad = Inr ad' \<Longrightarrow> \<exists>h. hw_kind h = hw_kind (mt_hw ad) \<and> ad' = ad\<lparr>mt_hw := h\<rparr>"
  by (auto simp: program_rar_def rbind_eq_Inr case_prod_beta split: if_split_asm dest!: kind_rar)

lemma kind_vlvf [simp]:
  "hw_kind (snd (snd (vlvf_search R v n i k hw))) = hw_kind hw" "hw_kind (snd (ixgbe_find_vlvf_slot R v hw)) = hw_kind hw"
  "hw_kind (snd (vlvfb_on R i p hw)) = hw_kind hw" "hw_kind (snd (vlvfb_off R i p hw)) = hw_kind hw"
proof -
  show s: "hw_kind (snd (snd (vlvf_search R v n i k hw))) = hw_kind hw" for n i k hw
    by (induction n arbitrary: i k hw) (simp_all add: case_prod_beta)
  show "hw_kind (snd (ixgbe_find_vlvf_slot R v hw)) = hw_kind hw"
    by (simp add: ixgbe_find_vlvf_slot_def case_prod_beta s split: option.split)
  show "hw_kind (snd (vlvfb_on R i p hw)) = hw_kind hw" "hw_kind (snd (vlvfb_off R i p hw)) = hw_kind hw"
    by (simp_all add: vlvfb_on_def vlvfb_off_def case_prod_beta Let_def)
qed

lemma kind_vlan [simp]:
  "hw_kind (snd (snd (ixgbe_set_vlvf_generic R v p on ch hw))) = hw_kind hw" "hw_kind (snd (ixgbe_set_vfta_generic R v p on hw)) = hw_kind hw"
proof -
  show s: "hw_kind (snd (snd (ixgbe_set_vlvf_generic R v p on ch hw))) = hw_kind hw" for ch hw
    by (simp add: ixgbe_set_vlvf_generic_def case_prod_beta)
  show "hw_kind (snd (ixgbe_set_vfta_generic R v p on hw)) = hw_kind hw"
    by (simp add: ixgbe_set_vfta_generic_def case_prod_beta Let_def s)
qed

section \<open>The table of addresses\<close>

text \<open>Everything that programs filters changes the hardware and the table of addresses only.\<close>

definition mac_only :: "('h, 'z) mac_adapter_scheme \<Rightarrow> ('h, 'z) mac_adapter_scheme \<Rightarrow> bool" where
  "mac_only ad ad' \<longleftrightarrow> (\<exists>h t. hw_kind h = hw_kind (mt_hw ad) \<and> ad' = ad\<lparr>mt_hw := h, mac_table := t\<rparr>)"

definition mac_keeps :: "('a \<Rightarrow> ('h, 'z) mac_adapter_scheme) \<Rightarrow> ('h, 'z) mac_adapter_scheme \<Rightarrow> fault + 'a \<Rightarrow> bool" where
  "mac_keeps out ad m \<longleftrightarrow> (\<forall>x. m = Inr x \<longrightarrow> mac_only ad (out x))"

lemma mac_only_refl [simp]: "mac_only ad ad"
  unfolding mac_only_def by (intro exI[of _ "mt_hw ad"] exI[of _ "mac_table ad"]) simp

lemma mac_only_trans:
  assumes "mac_only ad ad'" "mac_only ad' ad''"
  shows "mac_only ad ad''"
proof -
  obtain h t h' t' where "ad' = ad\<lparr>mt_hw := h, mac_table := t\<rparr>" "ad'' = ad'\<lparr>mt_hw := h', mac_table := t'\<rparr>"
    "hw_kind h = hw_kind (mt_hw ad)" "hw_kind h' = hw_kind (mt_hw ad')"
    using assms by (auto simp: mac_only_def)
  then show ?thesis unfolding mac_only_def by (intro exI[of _ h'] exI[of _ t']) simp
qed

lemma mac_only_hw: "mac_only a ad \<Longrightarrow> hw_kind h = hw_kind (mt_hw ad) \<Longrightarrow> mac_only a (ad\<lparr>mt_hw := h\<rparr>)"
  by (erule mac_only_trans) (auto simp: mac_only_def intro!: exI[of _ h] exI[of _ "mac_table ad"])

lemma mac_only_put: "mac_only a ad \<Longrightarrow> mac_only a (put_entry i e ad)"
  by (erule mac_only_trans) (auto simp: mac_only_def put_entry_def intro!: exI[of _ "mt_hw ad"] exI[of _ "(mac_table ad)[i := e]"])

lemma mac_keeps_Inr: "mac_keeps out a (Inr x) \<longleftrightarrow> mac_only a (out x)"
  by (simp add: mac_keeps_def)

lemma mac_keeps_bind: "mac_keeps out a m \<Longrightarrow> (\<And>x. mac_only a (out x) \<Longrightarrow> mac_keeps out' a (k x)) \<Longrightarrow> mac_keeps out' a (rbind m k)"
  by (auto simp: mac_keeps_def rbind_eq_Inr)

lemma mac_keeps_rbind_r: "(\<And>x. mac_keeps out a (k x)) \<Longrightarrow> mac_keeps out a (rbind m k)"
  by (auto simp: mac_keeps_def rbind_eq_Inr)

lemma mac_keeps_fold:
  assumes "mac_only a ad" "\<And>x ad. mac_only a ad \<Longrightarrow> mac_keeps id a (f x ad)"
  shows "mac_keeps id a (fold (\<lambda>x r. rbind r (f x)) xs (Inr ad))"
proof -
  have "mac_keeps id a (fold (\<lambda>x r. rbind r (f x)) xs r)" if "mac_keeps id a r" for r
    using that
  proof (induction xs arbitrary: r)
    case (Cons x xs)
    have "mac_keeps id a (rbind r (f x))" by (rule mac_keeps_bind[OF Cons.prems]) (simp add: assms(2))
    then show ?case using Cons.IH[of "rbind r (f x)"] by (simp only: fold_simps)
  qed simp
  then show ?thesis using assms(1) by (simp add: mac_keeps_Inr)
qed

lemma program_rar_only: "mac_only a ad \<Longrightarrow> mac_keeps id a (program_rar R i e ad)"
  by (auto simp: mac_keeps_def dest!: kind_program intro!: mac_only_hw)

lemma sync_only: "mac_only a ad \<Longrightarrow> mac_keeps id a (ixgbe_sync_mac_table R ad)"
  unfolding ixgbe_sync_mac_table_def
proof (erule mac_keeps_fold)
  fix i ad assume "mac_only a ad"
  then have "mac_keeps id a (rbind (program_rar R i e ad) (\<lambda>ad1. Inr (put_entry i (f e) ad1)))" for e f
    by (intro mac_keeps_bind[OF program_rar_only]) (simp_all add: mac_keeps_Inr mac_only_put)
  then show "mac_keeps id a (sync_entry R i ad)"
    unfolding sync_entry_def using \<open>mac_only a ad\<close> by (intro mac_keeps_rbind_r) (simp add: mac_keeps_Inr)
qed

lemma add_from_only: "mac_only a ad \<Longrightarrow> mac_keeps snd a (add_mac_from R addr q n i ad)"
proof (induction n arbitrary: i)
  case (Suc n)
  have "mac_keeps snd a (rbind (ixgbe_sync_mac_table R (put_entry i e ad)) (\<lambda>ad1. Inr (int i, ad1)))" for e
    by (rule mac_keeps_bind[OF sync_only]) (simp_all add: mac_keeps_Inr mac_only_put Suc.prems)
  then show ?case using Suc by (auto intro!: mac_keeps_rbind_r simp: mac_keeps_Inr)
qed (simp add: mac_keeps_Inr)

lemma add_only: "mac_only a ad \<Longrightarrow> mac_keeps snd a (ixgbe_add_mac_filter R addr q ad)"
  by (simp add: ixgbe_add_mac_filter_def mac_keeps_Inr add_from_only)

lemma del_index_only: "mac_only a ad \<Longrightarrow> mac_keeps id a (ixgbe_del_mac_filter_by_index R i ad)"
  unfolding ixgbe_del_mac_filter_by_index_def by (intro mac_keeps_rbind_r sync_only mac_only_put)

lemma del_from_only: "mac_only a ad \<Longrightarrow> mac_keeps snd a (del_mac_from R addr q n i ad)"
proof (induction n arbitrary: i)
  case (Suc n)
  have "mac_keeps snd a (rbind (ixgbe_sync_mac_table R (put_entry i e ad)) (\<lambda>ad1. Inr (0 :: int, ad1)))" for e
    by (rule mac_keeps_bind[OF sync_only]) (simp_all add: mac_keeps_Inr mac_only_put Suc.prems)
  then show ?case using Suc by (auto intro!: mac_keeps_rbind_r simp: mac_keeps_Inr)
qed (simp add: mac_keeps_Inr)

lemma del_only: "mac_only a ad \<Longrightarrow> mac_keeps snd a (ixgbe_del_mac_filter R addr q ad)"
  by (simp add: ixgbe_del_mac_filter_def mac_keeps_Inr del_from_only)

text \<open>Programming every entry again changes nothing.\<close>

lemma full_sync_ok:
  assumes "table_ready R reg ad" "mirrored reg ad"
  shows "\<exists>d. ixgbe_full_sync_mac_table R ad = Inr (ad\<lparr>mt_hw := (mt_hw ad)\<lparr>hw_dev := d\<rparr>\<rparr>) \<and>
    (\<forall>j < 128. rar_view (reg d) j = view_of reg ad j)"
proof -
  have "\<exists>d. fold (\<lambda>i r. rbind r (\<lambda>ad. rbind (mac_entry i ad) (\<lambda>e. program_rar R i e ad))) [0..<n] (Inr ad) =
      Inr (ad\<lparr>mt_hw := (mt_hw ad)\<lparr>hw_dev := d\<rparr>\<rparr>) \<and> (\<forall>j < 128. rar_view (reg d) j = view_of reg ad j)" if "n \<le> rars ad" for n
    using that
  proof (induction n)
    case 0
    show ?case by (intro exI[of _ "hw_dev (mt_hw ad)"]) simp
  next
    case (Suc n)
    then obtain d where d: "fold (\<lambda>i r. rbind r (\<lambda>ad. rbind (mac_entry i ad) (\<lambda>e. program_rar R i e ad))) [0..<n] (Inr ad) =
        Inr (ad\<lparr>mt_hw := (mt_hw ad)\<lparr>hw_dev := d\<rparr>\<rparr>)" "\<forall>j < 128. rar_view (reg d) j = view_of reg ad j" by auto
    let ?ad = "ad\<lparr>mt_hw := (mt_hw ad)\<lparr>hw_dev := d\<rparr>\<rparr>" and ?e = "mac_table ad ! n"
    have n: "n < rars ad" "n < length (mac_table ad)" "n < 128" using Suc.prems assms(1)
      by (simp_all add: table_ready_def rar_ready_def word_le_nat_alt)
    have e: "entry_ok ?e" "view_of reg ad n = entry_view ?e" using assms(2) n(1) by (simp_all add: mirrored_def in_step_def)
    have "entry_in_use ?e \<longrightarrow> pools_free (mt_queue ?e) (snd (snd (view_of reg ?ad n)))"
      using d(2) n(3) e(2) by (simp add: entry_view_def pools_free_def)
    moreover have "table_ready R reg ?ad" using assms(1) by (simp add: table_ready_def rar_ready_def)
    ultimately obtain d' where "program_rar R n ?e ?ad = Inr (ad\<lparr>mt_hw := (mt_hw ad)\<lparr>hw_dev := d'\<rparr>\<rparr>)"
        "\<forall>j < 128. rar_view (reg d') j = (if j = n then entry_view ?e else view_of reg ?ad j)"
      using program_view[of R reg ?ad n ?e] n(1) e(1) by auto
    then show ?case using d e(2) n(2) by (intro exI[of _ d']) (simp add: mac_entry_def)
  qed
  then show ?thesis by (simp add: ixgbe_full_sync_mac_table_def)
qed

end
