(* ===== verification/NetProps.thy ===== *)
theory NetProps
  imports NetQueue MacFrame
begin

text \<open>
  Who owns a receive queue: the queues handed out to the host are a map from pools to filter counts, and
  every call of the queue interface is an update of it.
\<close>

section \<open>Queue identifiers\<close>

lemma queueid_rx:
  assumes "p < 2 ^ 16"
  shows "unat (QUEUEID_VAL (MK_RX_QUEUEID (of_nat p))) = p" "IS_RX_QUEUEID (MK_RX_QUEUEID n)" "\<not> IS_TX_QUEUEID (MK_RX_QUEUEID n)"
proof -
  have m: "(0xFFFF :: u32) = mask 16" by (simp add: mask_eq_exp_minus_1)
  have "QUEUEID_VAL (MK_RX_QUEUEID (of_nat p)) = of_nat p"
    by (rule bit_word_eqI) (auto simp: QUEUEID_VAL_def MK_RX_QUEUEID_def m bit_mask_iff bit_ucast_iff bit_and_iff bit_or_iff bit_push_bit_iff bit_simps bit_of_nat_iff
        simp del: push_bit_of_1 dest: bit_imp_le_length)
  then show "unat (QUEUEID_VAL (MK_RX_QUEUEID (of_nat p))) = p" using assms by (simp add: unat_of_nat)
  have "(push_bit 16 1 OR (n AND 0xFFFF)) AND 0x00FF0000 = (0x10000 :: u32)"
    by (simp add: bit.conj_disj_distrib2 and.assoc)
  then show "IS_RX_QUEUEID (MK_RX_QUEUEID n)" "\<not> IS_TX_QUEUEID (MK_RX_QUEUEID n)"
    by (simp_all add: IS_RX_QUEUEID_def IS_TX_QUEUEID_def MK_RX_QUEUEID_def)
qed

section \<open>The hardware of a queue\<close>

lemma kind_clear_vlan [simp]: "hw_kind (snd (ixgbe_clear_vlvf_vlan R v p hw)) = hw_kind hw"
  by (simp add: ixgbe_clear_vlvf_vlan_def case_prod_beta)

lemma kind_reta [simp]: "hw_kind (rss_reta R n hw) = hw_kind hw"
proof -
  have "hw_kind (snd (snd (fold (\<lambda>i (j, reta, hw).
       let j1 = (if j = n then 0 else j); reta1 = push_bit 8 reta OR of_int (j1 * 0x11)
       in (j1 + 1, reta1, if i mod 4 = 3 then IXGBE_WRITE_REG R (reg_at 0x5C00 4 (i div 4)) reta1 hw else hw)) xs s))) = hw_kind (snd (snd s))" for xs s
    by (induction xs arbitrary: s) (simp_all add: case_prod_beta Let_def)
  then show ?thesis by (simp add: rss_reta_def)
qed

section \<open>The queues handed out\<close>

type_synonym queue_map = "nat \<Rightarrow> u8 option"

definition owned :: "('h, 'z) nq_adapter_scheme \<Rightarrow> queue_map" where
  "owned ad p = (if p < length (rx_rings ad) \<and> rg_allocated (rx_rings ad ! p) then Some (rg_active (rx_rings ad ! p)) else None)"

text \<open>
  Every pool has one ring (as the code assumes when it hands out queues for hashing), the count of the queues
  handed out is right, the default queue is not handed out, and a free queue has no filter.
\<close>

definition nq_ok :: "int \<Rightarrow> int \<Rightarrow> ('h, 'z) nq_adapter_scheme \<Rightarrow> bool" where
  "nq_ok c l ad \<longleftrightarrow> rx_per_pool ad = 1 \<and> length (rx_rings ad) = unat (num_rx_pools ad) \<and> 1 < length (rx_rings ad) \<and> length (rx_rings ad) \<le> 2 ^ 16 \<and>
     length (tx_rings ad) = num_tx_queues ad \<and> c < 2 ^ 32 \<and> ixgbe_get_netq_count ad = c \<and> ixgbe_max_filters_per_pool ad = l \<and>
     unat (rx_queues_allocated ad) = card (dom (owned ad)) \<and> owned ad 0 = None \<and>
     (\<forall>r \<in> set (rx_rings ad). \<not> rg_allocated r \<longrightarrow> rg_active r = 0)"

lemma base_queue_one: "rx_per_pool ad = 1 \<Longrightarrow> base_queue p ad = unat p"
  by (simp add: base_queue_def)

lemma owned_put:
  assumes "p < length (rx_rings ad)"
  shows "owned (put_rx p r ad) = (owned ad)(p := if rg_allocated r then Some (rg_active r) else None)"
  using assms by (auto simp: owned_def put_rx_def fun_eq_iff)

lemma owned_cong [simp]:
  "owned (ad\<lparr>rx_queues_allocated := x\<rparr>) = owned ad" "owned (ad\<lparr>mt_hw := h\<rparr>) = owned ad" "owned (on_hw f ad) = owned ad"
  "owned (ad\<lparr>mac_table := t\<rparr>) = owned ad" "owned (ad\<lparr>tx_rings := ts\<rparr>) = owned ad" "owned (ad\<lparr>tx_queues_allocated := x\<rparr>) = owned ad"
  by (simp_all add: owned_def on_hw_def fun_eq_iff)

lemma owned_dom: "dom (owned ad) \<subseteq> {..<length (rx_rings ad)}" "finite (dom (owned ad))"
proof -
  show "dom (owned ad) \<subseteq> {..<length (rx_rings ad)}" by (auto simp: owned_def split: if_splits)
  then show "finite (dom (owned ad))" by (rule finite_subset) simp
qed

text \<open>Fields that only the set-up changes.\<close>

definition same_config :: "('h, 'z) nq_adapter_scheme \<Rightarrow> ('h, 'z) nq_adapter_scheme \<Rightarrow> bool" where
  "same_config ad ad' \<longleftrightarrow> rx_per_pool ad' = rx_per_pool ad \<and> num_rx_pools ad' = num_rx_pools ad \<and> length (rx_rings ad') = length (rx_rings ad) \<and>
     length (tx_rings ad') = length (tx_rings ad) \<and> num_tx_queues ad' = num_tx_queues ad \<and> ixgbe_get_netq_count ad' = ixgbe_get_netq_count ad \<and>
     ixgbe_max_filters_per_pool ad' = ixgbe_max_filters_per_pool ad"

lemma max_filters_kind:
  "ixgbe_max_filters_per_pool ad =
     (if fst (hw_kind (mt_hw ad)) = ixgbe_mac_82598EB then 1
      else sint (((fst (snd (hw_kind (mt_hw ad))) - 1) - nq_num_vfs ad) div (if num_rx_pools ad > 1 then num_rx_pools ad - 1 else 1)))"
  by (simp add: ixgbe_max_filters_per_pool_def ixgbe_max_filters_per_device_def hw_kind_def)

lemma kind_rscctl [simp]: "hw_kind (ixgbe_configure_rscctl R r hw) = hw_kind hw" "hw_kind (snd (ixgbe_clear_rscctl R r hw)) = hw_kind hw"
  by (simp_all add: ixgbe_configure_rscctl_def ixgbe_clear_rscctl_def)

lemma nq_ok_offers: "nq_ok c l ad \<Longrightarrow> ixgbe_get_netq_count ad = c" "nq_ok c l ad \<Longrightarrow> ixgbe_max_filters_per_pool ad = l"
  by (simp_all add: nq_ok_def)

lemma nq_ok_step:
  assumes "nq_ok c l ad" "same_config ad ad'" "unat (rx_queues_allocated ad') = card (dom (owned ad'))" "owned ad' 0 = None"
    "\<And>r. r \<in> set (rx_rings ad') \<Longrightarrow> \<not> rg_allocated r \<Longrightarrow> rg_active r = 0"
  shows "nq_ok c l ad'"
  using assms by (simp add: nq_ok_def same_config_def)

lemma owned_card: "nq_ok c l ad \<Longrightarrow> card (dom (owned ad)) < 2 ^ 16"
proof -
  assume ok: "nq_ok c l ad"
  have "dom (owned ad) \<subseteq> {..<length (rx_rings ad)} - {0}" using owned_dom(1)[of ad] ok by (auto simp: nq_ok_def)
  then have "card (dom (owned ad)) \<le> card ({..<length (rx_rings ad)} - {0})" by (rule card_mono[rotated]) simp
  then show ?thesis using ok by (auto simp: nq_ok_def)
qed

section \<open>Taking and freeing a ring\<close>

lemma take_one:
  assumes "nq_ok c l ad" "p < length (rx_rings ad)" "p \<noteq> 0" "owned ad p = None"
    and ad': "rx_rings ad' = (rx_rings ad)[p := r]" "rg_allocated r" "rg_active r = rg_active (rx_rings ad ! p)"
      "rx_queues_allocated ad' = rx_queues_allocated ad + 1" "same_config ad ad'"
  shows "nq_ok c l ad' \<and> owned ad' = (owned ad)(p \<mapsto> 0)"
proof -
  have free: "\<not> rg_allocated (rx_rings ad ! p)" using assms(2,4) by (auto simp: owned_def split: if_splits)
  then have zero: "rg_active r = 0" using assms(1,2) ad'(3) by (auto simp: nq_ok_def)
  have o: "owned ad' = (owned ad)(p \<mapsto> 0)" using assms(2) ad'(1,2) zero by (auto simp: owned_def fun_eq_iff nth_list_update)
  have "p \<notin> dom (owned ad)" using assms(4) by auto
  then have "card (dom (owned ad')) = Suc (card (dom (owned ad)))" using o owned_dom(2)[of ad] by simp
  moreover have "unat (rx_queues_allocated ad') = Suc (unat (rx_queues_allocated ad))"
    using ad'(4) owned_card[OF assms(1)] assms(1) by (simp add: unat_word_ariths nq_ok_def)
  ultimately have "unat (rx_queues_allocated ad') = card (dom (owned ad'))" using assms(1) by (simp add: nq_ok_def)
  moreover have "owned ad' 0 = None" using o assms(1,3) by (simp add: nq_ok_def)
  moreover have "rg_active x = 0" if "x \<in> set (rx_rings ad')" "\<not> rg_allocated x" for x
    using that ad'(1,2) assms(1) set_update_subset_insert[of "rx_rings ad" p r] by (auto simp: nq_ok_def)
  ultimately show ?thesis using nq_ok_step[OF assms(1) ad'(5)] o by blast
qed

lemma free_one:
  assumes "nq_ok c l ad" "p < length (rx_rings ad)" "owned ad p = Some 0"
    and ad': "rx_rings ad' = (rx_rings ad)[p := r]" "\<not> rg_allocated r" "rg_active r = rg_active (rx_rings ad ! p)"
      "rx_queues_allocated ad' = (if rx_queues_allocated ad \<noteq> 0 then rx_queues_allocated ad - 1 else 0)" "same_config ad ad'"
  shows "nq_ok c l ad' \<and> owned ad' = (owned ad)(p := None)"
proof -
  have zero: "rg_active r = 0" using assms(2,3) ad'(3) by (auto simp: owned_def split: if_splits)
  have o: "owned ad' = (owned ad)(p := None)" using assms(2) ad'(1,2) by (auto simp: owned_def fun_eq_iff nth_list_update)
  have p: "p \<in> dom (owned ad)" using assms(3) by auto
  then have pos: "0 < card (dom (owned ad))" using owned_dom(2)[of ad] card_gt_0_iff by blast
  have "card (dom (owned ad')) = card (dom (owned ad)) - 1" using o p owned_dom(2)[of ad] by simp
  moreover have "unat (rx_queues_allocated ad') = unat (rx_queues_allocated ad) - 1"
    using ad'(4) pos assms(1) by (auto simp: nq_ok_def unat_sub word_le_nat_alt unat_eq_0)
  ultimately have "unat (rx_queues_allocated ad') = card (dom (owned ad'))" using assms(1) by (simp add: nq_ok_def)
  moreover have "owned ad' 0 = None" using o assms(1) by (simp add: nq_ok_def)
  moreover have "rg_active x = 0" if "x \<in> set (rx_rings ad')" "\<not> rg_allocated x" for x
    using that ad'(1) zero assms(1) set_update_subset_insert[of "rx_rings ad" p r] by (auto simp: nq_ok_def)
  ultimately show ?thesis using nq_ok_step[OF assms(1) ad'(5)] o by blast
qed

text \<open>What an allocation may answer.\<close>

definition alloc_spec :: "queue_map \<Rightarrow> int \<Rightarrow> u32 option \<Rightarrow> queue_map \<Rightarrow> bool" where
  "alloc_spec Q st qid Q' \<longleftrightarrow>
     (st = VMKNETDDI_QUEUEOPS_ERR \<and> qid = None \<and> Q' = Q) \<or>
     (st = VMKNETDDI_QUEUEOPS_OK \<and> (\<exists>p. qid = Some (MK_RX_QUEUEID (of_nat p)) \<and> 0 < p \<and> p < 2 ^ 16 \<and> Q p = None \<and> Q' = Q(p \<mapsto> 0)))"

lemma take_ring_ok:
  assumes "nq_ok c l ad" "p < length (rx_rings ad)" "p \<noteq> 0" "\<not> rg_allocated (rx_rings ad ! p)"
  shows "\<exists>ad'. take_ring R g p ad = Inr ad' \<and> nq_ok c l ad' \<and> owned ad' = (owned ad)(p \<mapsto> 0) \<and> length (rx_rings ad') = length (rx_rings ad)"
proof -
  let ?r = "(rx_rings ad ! p)\<lparr>rg_allocated := True, rg_rsc := (if g then True else rg_rsc (rx_rings ad ! p))\<rparr>"
  let ?ad = "put_rx p ?r (ad\<lparr>rx_queues_allocated := rx_queues_allocated ad + 1\<rparr>)"
  let ?ad' = "if g then on_hw (ixgbe_configure_rscctl R ?r) ?ad else ?ad"
  have t: "take_ring R g p ad = Inr ?ad'" using assms(2) by (simp add: take_ring_def rx_ring_def Let_def)
  have c: "same_config ad ?ad'" by (simp add: same_config_def on_hw_def put_rx_def ixgbe_get_netq_count_def max_filters_kind)
  have o: "owned ad p = None" using assms(4) by (simp add: owned_def)
  have "nq_ok c l ?ad' \<and> owned ?ad' = (owned ad)(p \<mapsto> 0)"
    by (rule take_one[OF assms(1-3) o, where r = ?r]) (use c in \<open>simp_all add: on_hw_def put_rx_def\<close>)
  moreover have "length (rx_rings ?ad') = length (rx_rings ad)" by (simp add: on_hw_def put_rx_def)
  ultimately show ?thesis using t by blast
qed

lemma alloc_rx_from_ok:
  assumes "nq_ok c l ad" "unat pool + n \<le> length (rx_rings ad)" "0 < unat pool"
  shows "\<exists>st q ad'. alloc_rx_from R g n pool ad = Inr (st, q, ad') \<and> nq_ok c l ad' \<and> alloc_spec (owned ad) st (map_option fst q) (owned ad')"
  using assms(2,3)
proof (induction n arbitrary: pool)
  case 0
  then show ?case using assms(1) by (simp add: alloc_spec_def)
next
  case (Suc n)
  let ?p = "unat pool"
  have l: "?p < length (rx_rings ad)" and b: "base_queue pool ad = ?p" and one: "rx_per_pool ad = 1" "length (rx_rings ad) \<le> 2 ^ 16"
    using Suc.prems assms(1) by (simp_all add: base_queue_one nq_ok_def)
  let ?r = "rx_rings ad ! ?p"
  show ?case
  proof (cases "\<not> rg_allocated ?r \<and> rg_cna ?r = netdev_cna ad")
    case True
    obtain ad' where t: "take_ring R g ?p ad = Inr ad'" "nq_ok c l ad'" "owned ad' = (owned ad)(?p \<mapsto> 0)" "length (rx_rings ad') = length (rx_rings ad)"
      using take_ring_ok[OF assms(1) l, of R g] True Suc.prems(2) by auto
    have "alloc_rx_from R g (Suc n) pool ad = Inr (0, Some (MK_RX_QUEUEID pool, Some ?p), ad')"
      using True l b one t(1,4) by (simp add: rx_ring_def)
    moreover have "alloc_spec (owned ad) 0 (Some (MK_RX_QUEUEID pool)) (owned ad')"
    proof -
      have "owned ad ?p = None" using True by (simp add: owned_def)
      then show ?thesis using t(3) l one(2) Suc.prems(2) unfolding alloc_spec_def by (intro disjI2 conjI refl exI[of _ ?p]) simp_all
    qed
    ultimately show ?thesis using t(2) by simp
  next
    case False
    have "unat (pool + 1) = ?p + 1" using l one(2) by (simp add: unat_word_ariths)
    then show ?thesis using Suc.IH[of "pool + 1"] Suc.prems False l b by (auto simp: rx_ring_def)
  qed
qed

lemma alloc_rx_ok:
  assumes "nq_ok c l ad"
  shows "\<exists>st q ad'. ixgbe_alloc_rx_queue R feat ad = Inr (st, q, ad') \<and> nq_ok c l ad' \<and> alloc_spec (owned ad) st (map_option fst q) (owned ad') \<and>
     (st = VMKNETDDI_QUEUEOPS_OK \<longrightarrow> int (card (dom (owned ad))) < ixgbe_get_netq_count ad)"
proof (cases "rx_queues_allocated ad \<ge> of_int (ixgbe_get_netq_count ad)")
  case True
  then show ?thesis using assms by (simp add: ixgbe_alloc_rx_queue_def alloc_spec_def)
next
  case False
  have l: "unat (num_rx_pools ad) = length (rx_rings ad)" "1 < length (rx_rings ad)" "length (rx_rings ad) \<le> 2 ^ 16"
    and one: "rx_per_pool ad = 1" using assms by (simp_all add: nq_ok_def)
  have N: "0 \<le> ixgbe_get_netq_count ad" "ixgbe_get_netq_count ad < 2 ^ 32" using assms by (simp add: ixgbe_get_netq_count_def) (use assms in \<open>simp add: nq_ok_def\<close>)
  then have "uint (of_int (ixgbe_get_netq_count ad) :: u32) = ixgbe_get_netq_count ad" by (simp add: uint_word_of_int)
  then have room: "int (card (dom (owned ad))) < ixgbe_get_netq_count ad"
    using False assms of_nat_unat[of "rx_queues_allocated ad", where 'a = int] by (simp add: word_le_def nq_ok_def)
  let ?g = "feat AND QUEUE_FEAT_LRO \<noteq> 0 \<and> rsc_enabled ad" and ?n = "num_rx_pools ad - 1"
  have n: "unat ?n = length (rx_rings ad) - 1" using l by (simp add: unat_sub word_le_nat_alt)
  have loop: "\<exists>st q ad'. alloc_rx_from R ?g m 1 ad = Inr (st, q, ad') \<and> nq_ok c l ad' \<and> alloc_spec (owned ad) st (map_option fst q) (owned ad')"
    if "m < length (rx_rings ad)" for m
    using alloc_rx_from_ok[OF assms, of 1 m R ?g] that by simp
  show ?thesis
  proof (cases "feat AND IXGBE_ESX_FEAT_RSS = 0")
    case True
    then show ?thesis using False room loop[of "unat (num_rx_pools ad) - 1"] l by (auto simp: ixgbe_alloc_rx_queue_def Let_def)
  next
    case rss: False
    let ?p = "length (rx_rings ad) - 1"
    have b: "base_queue ?n ad = ?p" "?p < length (rx_rings ad)" "?p \<noteq> 0" using n one l(2) by (simp_all add: base_queue_one)
    let ?r = "rx_rings ad ! ?p"
    show ?thesis
    proof (cases "rg_allocated ?r")
      case True
      then show ?thesis using False rss room loop[of "unat ?n - 1"] b n l by (auto simp: ixgbe_alloc_rx_queue_def Let_def rx_ring_def)
    next
      case free: False
      let ?ad = "put_rx ?p (?r\<lparr>rg_allocated := True, rg_rss := True\<rparr>) (ad\<lparr>rx_queues_allocated := rx_queues_allocated ad + 1\<rparr>)"
      have o: "owned ad ?p = None" using free by (simp add: owned_def)
      have "nq_ok c l ?ad \<and> owned ?ad = (owned ad)(?p \<mapsto> 0)"
        by (rule take_one[OF assms b(2,3) o, where r = "?r\<lparr>rg_allocated := True, rg_rss := True\<rparr>"])
          (simp_all add: put_rx_def same_config_def ixgbe_get_netq_count_def max_filters_kind)
      moreover have "ixgbe_alloc_rx_queue R feat ad = Inr (0, Some (MK_RX_QUEUEID ?n, None), ?ad)"
        using False rss free b by (simp add: ixgbe_alloc_rx_queue_def Let_def rx_ring_def)
      moreover have "MK_RX_QUEUEID ?n = MK_RX_QUEUEID (of_nat ?p)" by (simp only: n[symmetric]) simp
      moreover have "alloc_spec (owned ad) 0 (Some (MK_RX_QUEUEID ?n)) (owned ?ad)"
        using calculation(1,3) o b l unfolding alloc_spec_def by (intro disjI2 conjI refl exI[of _ ?p]) simp_all
      ultimately show ?thesis using room by simp
    qed
  qed
qed

text \<open>What a request to free may answer: only a queue that was handed out and has no filter is freed.\<close>

definition free_spec :: "queue_map \<Rightarrow> u32 \<Rightarrow> int \<Rightarrow> queue_map \<Rightarrow> bool" where
  "free_spec Q qid st Q' \<longleftrightarrow>
     (if st = VMKNETDDI_QUEUEOPS_OK \<and> \<not> IS_TX_QUEUEID qid
      then IS_RX_QUEUEID qid \<and> Q (unat (QUEUEID_VAL qid)) = Some 0 \<and> Q' = Q(unat (QUEUEID_VAL qid) := None)
      else Q' = Q)"

lemma free_ring_ok:
  assumes "nq_ok c l ad" "p < length (rx_rings ad)" "owned ad p = Some 0"
  shows "\<exists>ad'. free_ring R p ad = Inr ad' \<and> nq_ok c l ad' \<and> owned ad' = (owned ad)(p := None)"
proof -
  let ?r = "rx_rings ad ! p"
  obtain r1 hw1 where c: "(if rg_rsc ?r then ixgbe_clear_rscctl R ?r (mt_hw ad) else (?r, mt_hw ad)) = (r1, hw1)" by fastforce
  then have r1: "rg_active r1 = rg_active ?r" by (auto simp: ixgbe_clear_rscctl_def split: if_splits)
  have k: "hw_kind hw1 = hw_kind (mt_hw ad)" using c kind_rscctl(2)[of R ?r "mt_hw ad"] by (cases "rg_rsc ?r") simp_all
  let ?r' = "r1\<lparr>rg_rss := False, rg_allocated := False\<rparr>"
  let ?ad' = "put_rx p ?r' (ad\<lparr>mt_hw := hw1, rx_queues_allocated := (if rx_queues_allocated ad \<noteq> 0 then rx_queues_allocated ad - 1 else 0)\<rparr>)"
  have "nq_ok c l ?ad' \<and> owned ?ad' = (owned ad)(p := None)"
    by (rule free_one[OF assms, where r = ?r']) (simp_all add: put_rx_def same_config_def ixgbe_get_netq_count_def r1 k max_filters_kind)
  moreover have "free_ring R p ad = Inr ?ad'" using assms(2) c by (simp add: free_ring_def rx_ring_def)
  ultimately show ?thesis by blast
qed

lemma free_rx_ok:
  assumes "nq_ok c l ad" "IS_RX_QUEUEID qid" "\<not> IS_TX_QUEUEID qid"
  shows "\<exists>st ad'. ixgbe_free_rx_queue R qid ad = Inr (st, ad') \<and> nq_ok c l ad' \<and> free_spec (owned ad) qid st (owned ad')"
proof -
  let ?p = "unat (QUEUEID_VAL qid)"
  have u: "unat (ucast (QUEUEID_VAL qid) :: u32) = ?p" by (simp add: unat_ucast_u16)
  have c: "ucast (QUEUEID_VAL qid) \<ge> num_rx_pools ad \<longleftrightarrow> length (rx_rings ad) \<le> ?p" "base_queue (ucast (QUEUEID_VAL qid)) ad = ?p" "rx_per_pool ad = 1"
    using assms(1) by (simp_all add: word_le_nat_alt u nq_ok_def base_queue_one)
  show ?thesis
  proof (cases "?p < length (rx_rings ad) \<and> rg_allocated (rx_rings ad ! ?p) \<and> rg_active (rx_rings ad ! ?p) = 0")
    case True
    then have o: "owned ad ?p = Some 0" by (simp add: owned_def)
    obtain ad' where "free_ring R ?p ad = Inr ad'" "nq_ok c l ad'" "owned ad' = (owned ad)(?p := None)"
      using free_ring_ok[OF assms(1) _ o, of R] True by auto
    then show ?thesis using True c o assms(2,3) by (simp add: ixgbe_free_rx_queue_def Let_def rx_ring_def free_spec_def)
  next
    case False
    then have "ixgbe_free_rx_queue R qid ad = Inr (VMKNETDDI_QUEUEOPS_ERR, ad)"
      using c by (auto simp: ixgbe_free_rx_queue_def Let_def rx_ring_def)
    then show ?thesis using assms(1) by (simp add: free_spec_def)
  qed
qed

lemma nq_ok_tx:
  assumes "nq_ok c l ad"
  shows "nq_ok c l (ad\<lparr>tx_queues_allocated := x, tx_rings := (tx_rings ad)[i := r]\<rparr>)"
proof (rule nq_ok_step[OF assms])
  show "same_config ad (ad\<lparr>tx_queues_allocated := x, tx_rings := (tx_rings ad)[i := r]\<rparr>)"
    by (simp add: same_config_def ixgbe_get_netq_count_def max_filters_kind)
qed (use assms in \<open>simp_all add: nq_ok_def\<close>)

lemma free_tx_ok:
  assumes "nq_ok c l ad"
  shows "\<exists>st ad'. ixgbe_free_tx_queue qid ad = Inr (st, ad') \<and> nq_ok c l ad' \<and> owned ad' = owned ad"
  using assms nq_ok_tx[OF assms] by (auto simp: ixgbe_free_tx_queue_def Let_def tx_ring_def put_tx_def nq_ok_def[of c l ad])

lemma free_queue_ok:
  assumes "nq_ok c l ad"
  shows "\<exists>st ad'. ixgbe_free_queue R qid ad = Inr (st, ad') \<and> nq_ok c l ad' \<and> free_spec (owned ad) qid st (owned ad')"
proof (cases "IS_TX_QUEUEID qid")
  case True
  then show ?thesis using free_tx_ok[OF assms, of qid] by (auto simp: ixgbe_free_queue_def free_spec_def)
next
  case False
  then show ?thesis using free_rx_ok[OF assms, of qid R] assms by (auto simp: ixgbe_free_queue_def free_spec_def)
qed

section \<open>Filters of a queue\<close>

lemma mac_only_on_hw: "mac_only a ad \<Longrightarrow> (\<And>hw. hw_kind (f hw) = hw_kind hw) \<Longrightarrow> mac_only a (on_hw f ad)"
  by (simp add: on_hw_def mac_only_hw)

lemma del_index_none: "mac_only a ad \<Longrightarrow> mac_keeps snd a (rbind (ixgbe_del_mac_filter_by_index R i ad) (\<lambda>ad2. Inr (x, ad2)))"
  by (rule mac_keeps_bind[OF del_index_only]) (simp_all add: mac_keeps_Inr)

lemma apply_vlan_only: "mac_only a ad \<Longrightarrow> mac_keeps snd a (apply_vlan R f pool i ad)"
  by (simp add: apply_vlan_def Let_def mac_keeps_Inr mac_only_hw del_index_none case_prod_beta)

lemma apply_82599_only:
  assumes "mac_only a ad"
  shows "mac_keeps snd a (apply_82599 R f pool ad)"
proof -
  define ad1 where "ad1 = (if rss_limit ad > 1 \<and> ucast pool = num_rx_pools ad - 1 then ixgbe_configure_rss_filter R ad else ad)"
  have ad1: "mac_only a ad1" using assms by (simp add: ad1_def ixgbe_configure_rss_filter_def mac_only_on_hw for_regs_def kind_fold)
  have del: "mac_keeps id a (if \<not> compare_ether_addr m (hw_perm_addr ad1) then ixgbe_del_mac_filter_by_index R (unat (VMDQ_P 0 ad1)) ad1 else Inr ad1)" for m
    using ad1 by (simp add: mac_keeps_Inr del_index_only)
  have add: "mac_keeps snd a (rbind (ixgbe_add_mac_filter R m (ucast (VMDQ_P pool ad2)) ad2)
      (\<lambda>(index, ad3). if index < 0 then Inr (None, ad3) else apply_vlan R f pool index ad3))" if "mac_only a ad2" for m ad2
    by (rule mac_keeps_bind[OF add_only[OF that]]) (auto simp: mac_keeps_Inr apply_vlan_only split: prod.splits)
  show ?thesis unfolding apply_82599_def Let_def ad1_def[symmetric]
    by (rule mac_keeps_rbind_r, rule mac_keeps_bind[OF del]) (simp add: add)
qed

lemma apply_82598_only: "mac_only a ad \<Longrightarrow> mac_keeps snd a (apply_82598 R f pool ad)"
  unfolding apply_82598_def by (intro mac_keeps_rbind_r mac_keeps_bind[OF add_only]) (auto simp: mac_keeps_Inr split: prod.splits)

lemma apply_hw_only: "mac_only a ad \<Longrightarrow> mac_keeps snd a (apply_hw R f pool ad)"
  by (simp add: apply_hw_def apply_82599_only apply_82598_only mac_keeps_Inr)

lemma remove_82599_only:
  assumes "mac_only a ad"
  shows "mac_keeps snd a (remove_82599 R pool vid i ad)"
proof -
  have "mac_keeps snd a (rbind (if \<not> compare_ether_addr (mt_addr e) (hw_perm_addr ad1) then ixgbe_add_mac_filter R (hw_perm_addr ad1) (ucast (VMDQ_P 0 ad1)) ad1 else Inr (0, ad1))
      (\<lambda>(i, ad2). if i < 0 then Inr (False, ad2) else Inr (True, f ad2)))" if "mac_only a ad1" "\<And>ad2. mac_only a ad2 \<Longrightarrow> mac_only a (f ad2)" for e ad1 f
    by (rule mac_keeps_bind[where out = snd]) (auto simp: add_only mac_keeps_Inr that split: prod.splits)
  note tail = this
  show ?thesis unfolding remove_82599_def
    by (rule mac_keeps_rbind_r, rule mac_keeps_bind[OF del_index_only[OF assms]], rule tail) (simp_all add: mac_only_on_hw)
qed

lemma remove_hw_only: "mac_only a ad \<Longrightarrow> mac_keeps snd a (remove_hw R pool vid i ad)"
  by (simp add: remove_hw_def remove_82599_only del_index_none mac_keeps_Inr)

lemma mac_only_rings:
  fixes ad ad' :: "('h, 'z) nq_adapter_scheme"
  assumes "mac_only ad ad'"
  shows "rx_rings ad' = rx_rings ad" "owned ad' = owned ad" "nq_ok c l ad \<Longrightarrow> nq_ok c l ad'"
    "ixgbe_get_netq_count ad' = ixgbe_get_netq_count ad" "ixgbe_max_filters_per_pool ad' = ixgbe_max_filters_per_pool ad"
proof -
  obtain h t where e: "ad' = ad\<lparr>mt_hw := h, mac_table := t\<rparr>" and k: "hw_kind h = hw_kind (mt_hw ad)" using assms by (auto simp: mac_only_def)
  then show o: "rx_rings ad' = rx_rings ad" "owned ad' = owned ad" by (simp_all add: owned_def fun_eq_iff)
  show c: "ixgbe_get_netq_count ad' = ixgbe_get_netq_count ad" using e by (simp add: ixgbe_get_netq_count_def)
  show m: "ixgbe_max_filters_per_pool ad' = ixgbe_max_filters_per_pool ad"
    using e k by (simp add: max_filters_kind)
  show "nq_ok c l ad \<Longrightarrow> nq_ok c l ad'" using e o c m by (simp add: nq_ok_def)
qed

text \<open>Answers to the filter calls: the count of the queue follows, within its limit.\<close>

definition apply_spec :: "queue_map \<Rightarrow> int \<Rightarrow> u32 \<Rightarrow> int \<Rightarrow> queue_map \<Rightarrow> bool" where
  "apply_spec Q limit qid st Q' \<longleftrightarrow>
     (if st = VMKNETDDI_QUEUEOPS_OK
      then \<exists>n. Q (unat (QUEUEID_VAL qid)) = Some n \<and> uint n < limit \<and> Q' = Q(unat (QUEUEID_VAL qid) \<mapsto> n + 1)
      else Q' = Q)"

definition remove_spec :: "queue_map \<Rightarrow> u32 \<Rightarrow> int \<Rightarrow> queue_map \<Rightarrow> bool" where
  "remove_spec Q qid st Q' \<longleftrightarrow>
     (if st = VMKNETDDI_QUEUEOPS_OK
      then \<exists>n. Q (unat (QUEUEID_VAL qid)) = Some n \<and> Q' = (if n = 0 then Q else Q(unat (QUEUEID_VAL qid) \<mapsto> n - 1))
      else Q' = Q)"

lemma put_active_ok:
  assumes "nq_ok c l ad" "p < length (rx_rings ad)" "rg_allocated (rx_rings ad ! p)"
  shows "nq_ok c l (put_rx p ((rx_rings ad ! p)\<lparr>rg_active := x\<rparr>) ad) \<and> owned (put_rx p ((rx_rings ad ! p)\<lparr>rg_active := x\<rparr>) ad) = (owned ad)(p \<mapsto> x)"
proof -
  let ?ad = "put_rx p ((rx_rings ad ! p)\<lparr>rg_active := x\<rparr>) ad"
  have o: "owned ?ad = (owned ad)(p \<mapsto> x)" using owned_put[OF assms(2)] assms(3) by simp
  have p: "p \<in> dom (owned ad)" using assms(2,3) by (auto simp: owned_def)
  then have d: "dom (owned ?ad) = dom (owned ad)" using o by auto
  have "p \<noteq> 0" using p assms(1) by (cases "p = 0") (auto simp: nq_ok_def)
  then have z: "owned ?ad 0 = None" using o assms(1) by (simp add: nq_ok_def)
  have r: "rg_active r = 0" if "r \<in> set (rx_rings ?ad)" "\<not> rg_allocated r" for r
    using that assms set_update_subset_insert[of "rx_rings ad" p "(rx_rings ad ! p)\<lparr>rg_active := x\<rparr>"] by (auto simp: nq_ok_def put_rx_def)
  have c: "same_config ad ?ad" by (simp add: same_config_def put_rx_def ixgbe_get_netq_count_def max_filters_kind)
  have "rx_queues_allocated ?ad = rx_queues_allocated ad" by (simp add: put_rx_def)
  then have "unat (rx_queues_allocated ?ad) = card (dom (owned ?ad))" using assms(1) by (simp add: d nq_ok_def)
  then have "nq_ok c l ?ad" using nq_ok_step[OF assms(1) c _ z] r by blast
  then show ?thesis using o by blast
qed

text \<open>An answer of \<open>ixgbe_apply_rx_filter\<close>: refused at once, or what the hardware part gave.\<close>

lemma apply_cases:
  assumes "nq_ok c l ad" "ixgbe_apply_rx_filter R qid f ad = Inr (st, out, ad')"
  defines "p \<equiv> unat (QUEUEID_VAL qid)"
  obtains "st = VMKNETDDI_QUEUEOPS_ERR" "mac_only ad ad'"
  | i v ad1 where "st = VMKNETDDI_QUEUEOPS_OK" "mac_only ad ad1" "p < length (rx_rings ad)" "rg_allocated (rx_rings ad ! p)"
    "uint (rg_active (rx_rings ad ! p)) < ixgbe_max_filters_per_pool ad"
    "ad' = put_rx p ((rx_rings ad ! p)\<lparr>rg_active := rg_active (rx_rings ad ! p) + 1\<rparr>) ad1"
    "IS_RX_QUEUEID qid" "apply_hw R f (QUEUEID_VAL qid) ad = Inr (Some (i, v), ad1)"
    "out = Some (ucast (if nq_mac ad \<noteq> ixgbe_mac_82598EB \<and> nf_class f AND FILTER_VLANMACADDR \<noteq> 0
       then vlan_fid v (QUEUEID_VAL qid) i else mac_fid (QUEUEID_VAL qid) i), QUEUEID_VAL qid)"
proof -
  let ?pool = "QUEUEID_VAL qid"
  have b: "base_queue (ucast ?pool) ad = p" using assms(1) by (simp add: base_queue_one nq_ok_def unat_ucast_u16 p_def)
  have "(st = VMKNETDDI_QUEUEOPS_ERR \<and> ad' = ad) \<or>
    (p < length (rx_rings ad) \<and> rg_allocated (rx_rings ad ! p) \<and> uint (rg_active (rx_rings ad ! p)) < ixgbe_max_filters_per_pool ad \<and>
     (st = VMKNETDDI_QUEUEOPS_ERR \<and> apply_hw R f ?pool ad = Inr (None, ad') \<or>
      st = VMKNETDDI_QUEUEOPS_OK \<and> IS_RX_QUEUEID qid \<and> (\<exists>i v ad1 r1. apply_hw R f ?pool ad = Inr (Some (i, v), ad1) \<and> rx_ring p ad1 = Inr r1 \<and>
        out = Some (ucast (if nq_mac ad \<noteq> ixgbe_mac_82598EB \<and> nf_class f AND FILTER_VLANMACADDR \<noteq> 0 then vlan_fid v ?pool i else mac_fid ?pool i), ?pool) \<and>
        ad' = put_rx p (r1\<lparr>rg_active := rg_active r1 + 1\<rparr>) ad1)))"
  proof (cases "apply_hw R f ?pool ad")
    case (Inl e)
    then show ?thesis using assms(2) unfolding ixgbe_apply_rx_filter_def Let_def b
      by (auto simp: rx_ring_def[of p ad] split: if_split_asm)
  next
    case (Inr x)
    obtain res ad1 where x: "x = (res, ad1)" by fastforce
    show ?thesis
    proof (cases res)
      case None
      then show ?thesis using assms(2) Inr x unfolding ixgbe_apply_rx_filter_def Let_def b
        by (auto simp: rx_ring_def[of p ad] not_le split: if_split_asm)
    next
      case (Some y)
      then show ?thesis using assms(2) Inr x unfolding ixgbe_apply_rx_filter_def Let_def b
        by (cases "rx_ring p ad1") (auto simp: rx_ring_def[of p ad] not_le split: if_split_asm prod.split_asm)
    qed
  qed
  then consider "st = VMKNETDDI_QUEUEOPS_ERR" "ad' = ad"
    | "st = VMKNETDDI_QUEUEOPS_ERR" "apply_hw R f ?pool ad = Inr (None, ad')"
    | i v ad1 r1 where "p < length (rx_rings ad)" "rg_allocated (rx_rings ad ! p)" "uint (rg_active (rx_rings ad ! p)) < ixgbe_max_filters_per_pool ad"
      "st = VMKNETDDI_QUEUEOPS_OK" "apply_hw R f ?pool ad = Inr (Some (i, v), ad1)" "rx_ring p ad1 = Inr r1" "IS_RX_QUEUEID qid"
      "out = Some (ucast (if nq_mac ad \<noteq> ixgbe_mac_82598EB \<and> nf_class f AND FILTER_VLANMACADDR \<noteq> 0 then vlan_fid v ?pool i else mac_fid ?pool i), ?pool)"
      "ad' = put_rx p (r1\<lparr>rg_active := rg_active r1 + 1\<rparr>) ad1"
    by blast
  then show ?thesis
  proof cases
    case 2
    then show ?thesis using apply_hw_only[OF mac_only_refl, of ad R f ?pool] that(1) by (simp add: mac_keeps_def)
  next
    case 3
    have m: "mac_only ad ad1" using apply_hw_only[OF mac_only_refl, of ad R f ?pool] 3(5) by (simp add: mac_keeps_def)
    then have "r1 = rx_rings ad ! p" using 3(1,6) mac_only_rings(1)[OF m] by (simp add: rx_ring_def)
    then show ?thesis using that(2)[OF 3(4) m 3(1-3) _ 3(7,5,8)] 3(9) by simp
  qed (use that(1) in simp)
qed

lemma apply_filter_ok:
  assumes "nq_ok c l ad" "ixgbe_apply_rx_filter R qid f ad = Inr (st, out, ad')"
  shows "nq_ok c l ad' \<and> apply_spec (owned ad) (ixgbe_max_filters_per_pool ad) qid st (owned ad')"
  using assms
proof (cases rule: apply_cases)
  case 1
  then show ?thesis using mac_only_rings[of ad ad'] assms(1) by (simp add: apply_spec_def)
next
  case (2 i v ad1)
  let ?p = "unat (QUEUEID_VAL qid)"
  have m: "rx_rings ad1 = rx_rings ad" "owned ad1 = owned ad" "nq_ok c l ad1" using mac_only_rings[OF 2(2)] assms(1) by auto
  have "owned ad ?p = Some (rg_active (rx_rings ad ! ?p))" using 2 by (simp add: owned_def)
  then show ?thesis using put_active_ok[OF m(3), of ?p "rg_active (rx_rings ad ! ?p) + 1"] m 2 by (simp add: apply_spec_def)
qed

lemma remove_cases:
  assumes "nq_ok c l ad" "ixgbe_remove_rx_filter R qid fid ad = Inr (st, ad')"
  defines "p \<equiv> unat (QUEUEID_VAL qid)"
  obtains "st = VMKNETDDI_QUEUEOPS_ERR" "mac_only ad ad'"
  | "st = VMKNETDDI_QUEUEOPS_OK" "ad' = ad" "p < length (rx_rings ad)" "rg_allocated (rx_rings ad ! p)" "rg_active (rx_rings ad ! p) = 0"
  | ad1 where "st = VMKNETDDI_QUEUEOPS_OK" "mac_only ad ad1" "p < length (rx_rings ad)" "rg_allocated (rx_rings ad ! p)"
    "rg_active (rx_rings ad ! p) \<noteq> 0"
    "ad' = put_rx p ((rx_rings ad ! p)\<lparr>rg_active := rg_active (rx_rings ad ! p) - 1\<rparr>) ad1"
proof -
  let ?pool = "QUEUEID_VAL qid"
  have b: "base_queue (ucast ?pool) ad = p" using assms(1) by (simp add: base_queue_one nq_ok_def unat_ucast_u16 p_def)
  have "(st = VMKNETDDI_QUEUEOPS_ERR \<and> mac_only ad ad') \<or>
    (p < length (rx_rings ad) \<and> rg_allocated (rx_rings ad ! p) \<and>
      ((rg_active (rx_rings ad ! p) = 0 \<and> st = VMKNETDDI_QUEUEOPS_OK \<and> ad' = ad) \<or>
       (rg_active (rx_rings ad ! p) \<noteq> 0 \<and>
        (\<exists>vid i ad0. mac_only ad ad0 \<and>
         (st = VMKNETDDI_QUEUEOPS_ERR \<and> remove_hw R ?pool vid i ad0 = Inr (False, ad') \<or>
          st = VMKNETDDI_QUEUEOPS_OK \<and> (\<exists>ad1 r1. remove_hw R ?pool vid i ad0 = Inr (True, ad1) \<and> rx_ring p ad1 = Inr r1 \<and>
            ad' = put_rx p (r1\<lparr>rg_active := rg_active r1 - 1\<rparr>) ad1))))))"
    using assms(2) unfolding ixgbe_remove_rx_filter_def Let_def b
    by (auto simp: rbind_eq_Inr rx_ring_def[of p ad] case_prod_beta mac_only_hw split: if_split_asm)
      (use mac_only_refl[of ad] mac_only_hw[OF mac_only_refl, of _ ad] kind_io(2) in blast)+
  then consider "st = VMKNETDDI_QUEUEOPS_ERR" "mac_only ad ad'"
    | "st = VMKNETDDI_QUEUEOPS_OK" "ad' = ad" "p < length (rx_rings ad)" "rg_allocated (rx_rings ad ! p)" "rg_active (rx_rings ad ! p) = 0"
    | vid i ad0 where "st = VMKNETDDI_QUEUEOPS_ERR" "mac_only ad ad0" "remove_hw R ?pool vid i ad0 = Inr (False, ad')"
    | vid i ad0 ad1 r1 where "p < length (rx_rings ad)" "rg_allocated (rx_rings ad ! p)" "rg_active (rx_rings ad ! p) \<noteq> 0"
      "st = VMKNETDDI_QUEUEOPS_OK" "mac_only ad ad0" "remove_hw R ?pool vid i ad0 = Inr (True, ad1)" "rx_ring p ad1 = Inr r1"
      "ad' = put_rx p (r1\<lparr>rg_active := rg_active r1 - 1\<rparr>) ad1"
    by blast
  then show ?thesis
  proof cases
    case 3
    then show ?thesis using remove_hw_only[OF 3(2), of R ?pool vid i] that(1) by (simp add: mac_keeps_def)
  next
    case 4
    have m: "mac_only ad ad1" using remove_hw_only[OF 4(5), of R ?pool vid i] 4(6) by (simp add: mac_keeps_def)
    show ?thesis using that(3)[OF _ m] 4 mac_only_rings(1)[OF m] by (auto simp: rx_ring_def)
  qed (use that(1,2) in simp_all)
qed

lemma remove_filter_ok:
  assumes "nq_ok c l ad" "ixgbe_remove_rx_filter R qid fid ad = Inr (st, ad')"
  shows "nq_ok c l ad' \<and> remove_spec (owned ad) qid st (owned ad')"
  using assms
proof (cases rule: remove_cases)
  case 1
  then show ?thesis using mac_only_rings[of ad ad'] assms(1) by (simp add: remove_spec_def)
next
  case 2
  then show ?thesis using assms(1) by (auto simp: remove_spec_def owned_def)
next
  case (3 ad1)
  let ?p = "unat (QUEUEID_VAL qid)"
  have m: "rx_rings ad1 = rx_rings ad" "owned ad1 = owned ad" "nq_ok c l ad1" using mac_only_rings[OF 3(2)] assms(1) by auto
  have "owned ad ?p = Some (rg_active (rx_rings ad ! ?p))" using 3 by (simp add: owned_def)
  then show ?thesis using put_active_ok[OF m(3), of ?p "rg_active (rx_rings ad ! ?p) - 1"] m 3 by (simp add: remove_spec_def)
qed

end
