(* ===== verification/NetCalls.thy ===== *)
theory NetCalls
  imports NetProps
begin

text \<open>
  The calls of the queue interface in sequence: they implement a map from queue numbers to filter counts.
\<close>

section \<open>Histories of calls\<close>

text \<open>The queues handed out, with the number of filters of each.\<close>

definition queues :: "('h, 'z) nq_adapter_scheme \<Rightarrow> nat \<Rightarrow> nat option" where
  "queues ad p = map_option unat (owned ad p)"

text \<open>A receive queue is given: a fresh one, not the default queue, while fewer than \<open>offered\<close> are out.\<close>

definition given_queue :: "int \<Rightarrow> (nat \<Rightarrow> nat option) \<Rightarrow> int \<Rightarrow> nq_out \<Rightarrow> (nat \<Rightarrow> nat option) \<Rightarrow> bool" where
  "given_queue offered Q st out Q' \<longleftrightarrow>
     (st = VMKNETDDI_QUEUEOPS_ERR \<and> out = NoOut \<and> Q' = Q) \<or>
     (st = VMKNETDDI_QUEUEOPS_OK \<and> (\<exists>p k. out = QueueOut (MK_RX_QUEUEID (of_nat p)) k \<and> 0 < p \<and> p < 2 ^ 16 \<and> Q p = None \<and>
        int (card (dom Q)) < offered \<and> Q' = Q(p \<mapsto> 0)))"

text \<open>What a call may do when \<open>offered\<close> queues with \<open>limit\<close> filters each are offered.\<close>

fun nq_spec :: "int \<Rightarrow> int \<Rightarrow> nq_op \<Rightarrow> (nat \<Rightarrow> nat option) \<Rightarrow> int \<Rightarrow> nq_out \<Rightarrow> (nat \<Rightarrow> nat option) \<Rightarrow> bool" where
  "nq_spec offered limit (AllocQueue ty) Q st out Q' \<longleftrightarrow> (if ty = QUEUE_TYPE_RX then given_queue offered Q st out Q' else Q' = Q)"
| "nq_spec offered limit (AllocQueueWithAttr ty as) Q st out Q' \<longleftrightarrow> given_queue offered Q st out Q'"
| "nq_spec offered limit (FreeQueue qid) Q st out Q' \<longleftrightarrow>
     (if st = VMKNETDDI_QUEUEOPS_OK \<and> \<not> IS_TX_QUEUEID qid
      then IS_RX_QUEUEID qid \<and> Q (unat (QUEUEID_VAL qid)) = Some 0 \<and> Q' = Q(unat (QUEUEID_VAL qid) := None)
      else Q' = Q)"
| "nq_spec offered limit (ApplyRxFilter qid f) Q st out Q' \<longleftrightarrow>
     (if st = VMKNETDDI_QUEUEOPS_OK
      then \<exists>n. Q (unat (QUEUEID_VAL qid)) = Some n \<and> int n < limit \<and> Q' = Q(unat (QUEUEID_VAL qid) \<mapsto> Suc n)
      else Q' = Q)"
| "nq_spec offered limit (RemoveRxFilter qid fid) Q st out Q' \<longleftrightarrow>
     (if st = VMKNETDDI_QUEUEOPS_OK
      then \<exists>n. Q (unat (QUEUEID_VAL qid)) = Some n \<and> Q' = Q(unat (QUEUEID_VAL qid) \<mapsto> n - 1)
      else Q' = Q)"
| "nq_spec offered limit cl Q st out Q' \<longleftrightarrow> Q' = Q"

definition do_nq_call :: "'h device \<Rightarrow> nq_op \<Rightarrow> ('h, 'z) nq_adapter_scheme \<Rightarrow> fault + (int \<times> nq_out) \<times> ('h, 'z) nq_adapter_scheme" where
  "do_nq_call R cl ad = rbind (ixgbe_netqueue_ops R cl ad) (\<lambda>(st, out, ad1). Inr ((st, out), ad1))"

abbreviation nq_history :: "int \<Rightarrow> int \<Rightarrow> nq_op list \<Rightarrow> (int \<times> nq_out) list \<Rightarrow> (nat \<Rightarrow> nat option) \<Rightarrow> bool" where
  "nq_history offered limit \<equiv> history (\<lambda>cl Q out. nq_spec offered limit cl Q (fst out) (snd out)) Map.empty"

abbreviation run_nq :: "'h device \<Rightarrow> nq_op list \<Rightarrow> ('h, 'z) nq_adapter_scheme \<Rightarrow> fault + (int \<times> nq_out) list \<times> ('h, 'z) nq_adapter_scheme" where
  "run_nq R \<equiv> run_calls (do_nq_call R)"

text \<open>No history hands out more queues than offered or puts more filters on one than it may have.\<close>

lemma spec_bounds:
  assumes "nq_spec offered limit cl Q st out Q'" "0 \<le> limit" "finite (dom Q)" "int (card (dom Q)) \<le> offered" "\<forall>n \<in> ran Q. int n \<le> limit"
  shows "finite (dom Q') \<and> int (card (dom Q')) \<le> offered \<and> (\<forall>n \<in> ran Q'. int n \<le> limit)"
proof -
  have new: ?thesis if "given_queue offered Q st out Q'"
    using that assms(2-5) by (auto simp: given_queue_def ran_def domIff split: if_splits) blast
  have upd: ?thesis if "Q p = Some n" "int m \<le> limit" "Q' = Q(p \<mapsto> m)" for p n m
  proof -
    have "dom Q' = dom Q" using that by auto
    then show ?thesis using assms(3-5) that(2,3) by (auto simp: ran_def split: if_splits)
  qed
  have del: ?thesis if "Q' = Q(p := None)" for p
    using that assms(3-5) card_Diff1_le[of "dom Q" p] by (auto simp: ran_def split: if_splits)
  show ?thesis
  proof (cases cl)
    case (ApplyRxFilter qid f)
    show ?thesis
    proof (cases "st = 0")
      case True
      then obtain n where n: "Q (unat (QUEUEID_VAL qid)) = Some n" "int n < limit" "Q' = Q(unat (QUEUEID_VAL qid) \<mapsto> Suc n)"
        using assms(1) ApplyRxFilter by auto
      then show ?thesis using upd[OF n(1) _ n(3)] by simp
    qed (use assms ApplyRxFilter in simp)
  next
    case (RemoveRxFilter qid fid)
    show ?thesis
    proof (cases "st = 0")
      case True
      then obtain n where n: "Q (unat (QUEUEID_VAL qid)) = Some n" "Q' = Q(unat (QUEUEID_VAL qid) \<mapsto> n - 1)"
        using assms(1) RemoveRxFilter by auto
      then have "int n \<le> limit" using assms(5) by (auto simp: ran_def)
      then show ?thesis using upd[OF n(1) _ n(2)] by simp
    qed (use assms RemoveRxFilter in simp)
  qed (use assms new del in \<open>auto split: if_splits\<close>)
qed

lemma history_bounds:
  assumes "nq_history offered limit calls outs Q" "0 \<le> limit" "0 \<le> offered"
  shows "int (card (dom Q)) \<le> offered \<and> (\<forall>n \<in> ran Q. int n \<le> limit)"
proof -
  have "finite (dom Q) \<and> int (card (dom Q)) \<le> offered \<and> (\<forall>n \<in> ran Q. int n \<le> limit)"
    using assms(1)
  proof (rule history_invariant)
    fix cl Q out Q'
    assume "finite (dom Q) \<and> int (card (dom Q)) \<le> offered \<and> (\<forall>n \<in> ran Q. int n \<le> limit)" "nq_spec offered limit cl Q (fst out) (snd out) Q'"
    then show "finite (dom Q') \<and> int (card (dom Q')) \<le> offered \<and> (\<forall>n \<in> ran Q'. int n \<le> limit)"
      using spec_bounds assms(2) by blast
  qed (use assms(3) in simp)
  then show ?thesis by blast
qed

fun filter_op :: "nq_op \<Rightarrow> bool" where
  "filter_op (ApplyRxFilter qid f) \<longleftrightarrow> True"
| "filter_op (RemoveRxFilter qid fid) \<longleftrightarrow> True"
| "filter_op cl \<longleftrightarrow> False"

lemma queues_upd: "owned ad' = (owned ad)(p := x) \<Longrightarrow> queues ad' = (queues ad)(p := map_option unat x)"
  by (simp add: queues_def fun_eq_iff)

lemma queues_eq: "owned ad' = owned ad \<Longrightarrow> queues ad' = queues ad"
  by (simp add: queues_def fun_eq_iff)

lemma queues_dom: "dom (queues ad) = dom (owned ad)"
  by (auto simp: queues_def)

text \<open>One call: from a good state it keeps a good state and does what the specification allows.\<close>

lemma alloc_given:
  assumes "alloc_spec (owned ad) st (map_option fst q) (owned ad')" "st = VMKNETDDI_QUEUEOPS_OK \<longrightarrow> int (card (dom (owned ad))) < offered"
  shows "given_queue offered (queues ad) st (queue_out q) (queues ad')"
proof (cases "st = 0")
  case True
  then obtain p where p: "map_option fst q = Some (MK_RX_QUEUEID (of_nat p))" "0 < p" "p < 2 ^ 16" "owned ad p = None" "owned ad' = (owned ad)(p \<mapsto> 0)"
    using assms(1) by (auto simp: alloc_spec_def)
  obtain k where "q = Some (MK_RX_QUEUEID (of_nat p), k)" using p(1) by auto
  moreover have "queues ad' = (queues ad)(p \<mapsto> 0)" using queues_upd[OF p(5)] by simp
  moreover have "queues ad p = None" using p(4) by (simp add: queues_def)
  ultimately show ?thesis using p(2,3) assms(2) True
    unfolding given_queue_def by (intro disjI2 conjI exI[of _ p] exI[of _ k]) (simp_all add: queue_out_def queues_dom)
next
  case False
  then have "st = VMKNETDDI_QUEUEOPS_ERR" "q = None" "queues ad' = queues ad" using assms(1) queues_eq[of ad' ad] by (simp_all add: alloc_spec_def)
  then show ?thesis by (simp add: given_queue_def queue_out_def)
qed

lemma alloc_rx_given:
  assumes "nq_ok c l ad"
  shows "\<exists>st q ad'. ixgbe_alloc_rx_queue R feat ad = Inr (st, q, ad') \<and> nq_ok c l ad' \<and> given_queue c (queues ad) st (queue_out q) (queues ad')"
proof -
  obtain st q ad' where a: "ixgbe_alloc_rx_queue R feat ad = Inr (st, q, ad')" "nq_ok c l ad'"
      "alloc_spec (owned ad) st (map_option fst q) (owned ad')" "st = VMKNETDDI_QUEUEOPS_OK \<longrightarrow> int (card (dom (owned ad))) < c"
    using alloc_rx_ok[OF assms, of R feat] nq_ok_offers(1)[OF assms] by auto
  then show ?thesis using alloc_given[OF a(3,4)] by blast
qed

lemma alloc_attr_given:
  assumes "nq_ok c l ad"
  shows "\<exists>st q ad'. ixgbe_alloc_queue_with_attr R ty as ad = Inr (st, q, ad') \<and> nq_ok c l ad' \<and> given_queue c (queues ad) st (queue_out q) (queues ad')"
proof (induction as)
  case (Cons a as)
  then show ?case using alloc_rx_given[OF assms, of R] assms by (cases a) (auto simp: given_queue_def queue_out_def Let_def)
qed (use assms in \<open>simp add: given_queue_def queue_out_def\<close>)

lemma alloc_tx_ok:
  assumes "nq_ok c l ad"
  shows "\<exists>st q ad'. ixgbe_alloc_tx_queue ad = Inr (st, q, ad') \<and> nq_ok c l ad' \<and> owned ad' = owned ad"
proof -
  have t: "nq_ok c l (ad\<lparr>tx_queues_allocated := x, tx_rings := (tx_rings ad)[i := r]\<rparr>)" for x i r
    by (rule nq_ok_tx[OF assms])
  have "\<exists>st q ad'. alloc_tx_from n i ad = Inr (st, q, ad') \<and> nq_ok c l ad' \<and> owned ad' = owned ad" if "i + n \<le> length (tx_rings ad)" for n i
    using that
  proof (induction n arbitrary: i)
    case (Suc n)
    then show ?case using Suc.IH[of "Suc i"] t by (auto simp: tx_ring_def put_tx_def)
  qed (use assms in simp)
  note loop = this
  show ?thesis
  proof (cases "tx_queues_allocated ad \<ge> of_nat (num_tx_queues ad) \<or> num_tx_queues ad = 0")
    case True
    then show ?thesis using assms by (auto simp: ixgbe_alloc_tx_queue_def)
  next
    case False
    have "length (tx_rings ad) = num_tx_queues ad" using assms by (simp add: nq_ok_def)
    then show ?thesis using loop[of 1 "num_tx_queues ad - 1"] False by (simp add: ixgbe_alloc_tx_queue_def)
  qed
qed

lemma alloc_netqueue_ok:
  assumes "nq_ok c l ad"
  shows "\<exists>st q ad'. ixgbe_alloc_netqueue R ty ad = Inr (st, q, ad') \<and> nq_ok c l ad' \<and>
     (if ty = QUEUE_TYPE_RX then given_queue c (queues ad) st (queue_out q) (queues ad') else queues ad' = queues ad)"
proof (cases "ty = QUEUE_TYPE_RX")
  case True
  then show ?thesis using alloc_rx_given[OF assms, of R 0] by (simp add: ixgbe_alloc_netqueue_def)
next
  case False
  obtain st q ad' where "ixgbe_alloc_tx_queue ad = Inr (st, q, ad')" "nq_ok c l ad'" "queues ad' = queues ad"
    using alloc_tx_ok[OF assms] queues_eq by blast
  then show ?thesis using False assms by (simp add: ixgbe_alloc_netqueue_def)
qed

lemma nq_call_ok:
  assumes "nq_ok c l ad" "l \<le> 255" "ixgbe_netqueue_ops R cl ad = Inr (st, out, ad')"
  shows "nq_ok c l ad' \<and> nq_spec c l cl (queues ad) st out (queues ad')"
proof (cases cl)
  case (FreeQueue qid)
  then have "nq_ok c l ad' \<and> free_spec (owned ad) qid st (owned ad')"
    using free_queue_ok[OF assms(1), of R qid] assms(3) by auto
  then show ?thesis using FreeQueue queues_upd[of ad' ad] queues_eq[of ad' ad]
    by (auto simp: free_spec_def queues_def[of ad] split: if_splits)
next
  case (ApplyRxFilter qid f)
  then have a: "nq_ok c l ad'" "apply_spec (owned ad) l qid st (owned ad')"
    using apply_filter_ok[OF assms(1)] assms(3) nq_ok_offers(2)[OF assms(1)] by (auto simp: rbind_eq_Inr)
  show ?thesis
  proof (cases "st = 0")
    case True
    then obtain n where n: "owned ad (unat (QUEUEID_VAL qid)) = Some n" "uint n < l" "owned ad' = (owned ad)(unat (QUEUEID_VAL qid) \<mapsto> n + 1)"
      using a(2) by (auto simp: apply_spec_def)
    have i: "int (unat n) < l" using n(2) by simp
    then have "unat n < 255" using assms(2) by linarith
    then have "unat (n + 1) = Suc (unat n)" by (simp add: unat_word_ariths)
    then have "queues ad' = (queues ad)(unat (QUEUEID_VAL qid) \<mapsto> Suc (unat n))" using queues_upd[OF n(3)] by simp
    moreover have "queues ad (unat (QUEUEID_VAL qid)) = Some (unat n)" using n(1) by (simp add: queues_def)
    ultimately show ?thesis using True a(1) ApplyRxFilter i by simp
  qed (use a ApplyRxFilter queues_eq[of ad' ad] in \<open>simp add: apply_spec_def\<close>)
next
  case (RemoveRxFilter qid fid)
  then have a: "nq_ok c l ad'" "remove_spec (owned ad) qid st (owned ad')"
    using remove_filter_ok[OF assms(1)] assms(3) by (auto simp: rbind_eq_Inr)
  show ?thesis
  proof (cases "st = 0")
    case True
    then obtain n where n: "owned ad (unat (QUEUEID_VAL qid)) = Some n"
        "owned ad' = (if n = 0 then owned ad else (owned ad)(unat (QUEUEID_VAL qid) \<mapsto> n - 1))"
      using a(2) by (auto simp: remove_spec_def)
    have "queues ad' = (queues ad)(unat (QUEUEID_VAL qid) \<mapsto> unat n - 1)"
    proof (cases "n = 0")
      case False
      then have "unat (n - 1) = unat n - 1" by (simp add: unat_sub word_le_nat_alt unat_gt_0 Suc_le_eq)
      then show ?thesis using n(2) False queues_upd[of ad' ad] by simp
    qed (use n in \<open>simp add: queues_def fun_eq_iff\<close>)
    then show ?thesis using True a(1) RemoveRxFilter n(1) by (simp add: queues_def)
  qed (use a RemoveRxFilter queues_eq[of ad' ad] in \<open>simp add: remove_spec_def\<close>)
next
  case (AllocQueue ty)
  then show ?thesis using alloc_netqueue_ok[OF assms(1), of R ty] assms(3) by auto
next
  case (AllocQueueWithAttr ty as)
  then show ?thesis using alloc_attr_given[OF assms(1), of R ty as] assms(3) by auto
qed (use assms in \<open>auto split: prod.splits option.splits\<close>)

lemma nq_call_returns:
  assumes "nq_ok c l ad" "\<not> filter_op cl"
  shows "\<exists>st out ad'. ixgbe_netqueue_ops R cl ad = Inr (st, out, ad')"
proof (cases cl)
  case (AllocQueue ty)
  then show ?thesis using alloc_netqueue_ok[OF assms(1), of R ty] by auto
next
  case (AllocQueueWithAttr ty as)
  then show ?thesis using alloc_attr_given[OF assms(1), of R ty as] by auto
next
  case (FreeQueue qid)
  then show ?thesis using free_queue_ok[OF assms(1), of R qid] by auto
qed (use assms(2) in \<open>simp_all split: prod.splits\<close>)

text \<open>The driver is an implementation of the map of queues.\<close>

lemma do_nq_refines:
  assumes "nq_ok c l ad \<and> l \<le> 255" "do_nq_call R cl ad = Inr (out, ad')"
  shows "(nq_ok c l ad' \<and> l \<le> 255) \<and> nq_spec c l cl (queues ad) (fst out) (snd out) (queues ad')"
  using assms nq_call_ok[of c l ad R cl] by (auto simp: do_nq_call_def rbind_eq_Inr)

lemma do_nq_returns: "nq_ok c l ad \<and> l \<le> 255 \<Longrightarrow> \<not> filter_op cl \<Longrightarrow> \<exists>x. do_nq_call R cl ad = Inr x"
  using nq_call_returns[of c l ad cl R] by (auto simp: do_nq_call_def)

interpretation nq_calls: call_refinement "do_nq_call R" "\<lambda>ad. nq_ok c l ad \<and> l \<le> 255" queues "\<lambda>cl Q out. nq_spec c l cl Q (fst out) (snd out)"
    "\<lambda>_. True" "\<lambda>cl. \<not> filter_op cl"
  for R :: "'h device" and c l
  by unfold_locales (rule do_nq_refines do_nq_returns; assumption)+

text \<open>
  C29. The queues of the host are a map from queue numbers to filter counts: whatever sequence of calls the host makes
  from a state in which no queue is out, the answers and the map are those of the specification. A queue that is
  given was not out and is not the default queue, only a queue without filters is taken back, the number of queues
  and the filters of each stay within what was offered; and only a call about filters can fail to return.
\<close>

theorem netqueue_refines:
  assumes "nq_ok c l ad" "owned ad = Map.empty" "0 \<le> l" "l \<le> 255"
  shows "case run_nq R calls ad of
      Inl e \<Rightarrow> \<exists>cl \<in> set calls. filter_op cl
    | Inr (outs, ad') \<Rightarrow> nq_history c l calls outs (queues ad') \<and> int (card (dom (queues ad'))) \<le> c \<and> (\<forall>n \<in> ran (queues ad'). int n \<le> l)"
proof -
  have "0 \<le> c" using nq_ok_offers(1)[OF assms(1)] by (auto simp: ixgbe_get_netq_count_def split: if_splits)
  moreover have "queues ad = Map.empty" using assms(2) by (simp add: queues_def fun_eq_iff)
  ultimately show ?thesis using nq_calls.run_refines[where c = c and l = l and s = ad and cs = calls and R = R] assms(1,4) history_bounds[OF _ assms(3)]
    by (auto simp: list_all_iff split: sum.splits prod.splits)
qed

text \<open>Four rings without virtual functions; two queues are given, the first comes back.\<close>

definition demo_ring :: nq_ring where
  "demo_ring = \<lparr>rg_reg_idx = 0, rg_buf_len = 2048, rg_allocated = False, rg_rsc = False, rg_rss = False, rg_cna = False, rg_active = 0\<rparr>"

definition demo_nq_adapter :: "(u32 \<Rightarrow> u32) nq_adapter" where
  "demo_nq_adapter = \<lparr>mt_hw = (demo_flt_hw ixgbe_mac_82599EB)\<lparr>num_rar_entries := 8, hw_dev := \<lambda>_. 0\<rparr>,
     mac_table = replicate 8 \<lparr>mt_addr = zero_ether_addr, mt_queue = 0, mt_state = 0\<rparr>,
     rx_rings = replicate 4 demo_ring, tx_rings = replicate 4 demo_ring, num_rx_queues = 4, num_tx_queues = 4, num_rx_pools = 4, rx_per_pool = 1,
     rx_queues_allocated = 0, tx_queues_allocated = 0, nq_num_vfs = 0, netdev_cna = False, rss_limit = 1, rss_indices = 1, fcoe_indices = 0,
     vmdq_offset = 0, rsc_enabled = True, hw_perm_addr = [0, 0x1B, 0x21, 0, 0, 1]\<rparr>"

lemma demo_nq_ok: "nq_ok 3 2 demo_nq_adapter" "owned demo_nq_adapter = Map.empty"
proof -
  show o: "owned demo_nq_adapter = Map.empty" by (simp add: owned_def fun_eq_iff demo_nq_adapter_def demo_ring_def)
  show "nq_ok 3 2 demo_nq_adapter" unfolding nq_ok_def o
    by (simp add: demo_nq_adapter_def demo_ring_def ixgbe_get_netq_count_def ixgbe_max_filters_per_pool_def demo_flt_hw_def)
qed

theorem netqueue_refines_witness:
  "\<exists>outs ad'. run_nq register_file [AllocQueue 1, AllocQueue 1, FreeQueue 0x10001] demo_nq_adapter = Inr (outs, ad') \<and>
     nq_history 3 2 [AllocQueue 1, AllocQueue 1, FreeQueue 0x10001] outs (queues ad')"
  using netqueue_refines[OF demo_nq_ok, where R = register_file and calls = "[AllocQueue 1, AllocQueue 1, FreeQueue 0x10001]"]
  by (auto split: sum.splits)

end
