(* ===== verification/NetFilters.thy ===== *)
theory NetFilters
  imports NetCalls
begin

text \<open>
  What the filter calls of the queue interface do to the receive address registers, and where the identifier
  that is handed out cannot be taken back.
\<close>

section \<open>Filter identifiers\<close>

lemma bit_below:
  fixes w :: "'a :: len word"
  assumes "unat w < 2 ^ k" "bit w n"
  shows "n < k"
proof (rule ccontr)
  assume "\<not> n < k"
  then have "take_bit k w \<noteq> w" using assms(2) bit_take_bit_iff[of k w n] by auto
  moreover have "take_bit k w = w" using assms(1) by (simp add: word_unat_eq_iff unsigned_take_bit_eq take_bit_nat_eq_self)
  ultimately show False by blast
qed

text \<open>The bits of an identifier of the first form: the index below bit 7, the pool from bit 8 on.\<close>

lemma bit_mac_fid:
  assumes "i < 128"
  shows "bit (mac_fid p (int i)) n \<longleftrightarrow> (8 \<le> n \<and> n < 16 \<and> bit p (n - 8)) \<or> (n < 7 \<and> bit (of_nat i :: u16) n)"
proof -
  have "unat (of_nat i :: u16) < 2 ^ 7" using assms by (simp add: unat_of_nat)
  then have "bit (of_nat i :: u16) n \<Longrightarrow> n < 7" by (rule bit_below)
  then show ?thesis unfolding mac_fid_def of_int_of_nat_eq bit_or_iff bit_push_bit_iff by auto
qed

lemma fid_word [simp]: "(ucast (ucast w :: u32) :: u16) = w"
  by (rule bit_word_eqI) (auto simp: bit_ucast_iff dest: bit_imp_le_length)

text \<open>Without virtual functions it is read back.\<close>

lemma mac_fid_read:
  assumes "p < 128" "i < 128"
  shows "ucast (fid_pool False (mac_fid p (int i))) = p" "fid_index (mac_fid p (int i)) = i"
proof -
  have m: "(0x7F :: u16) = mask 7" by (simp add: mask_eq_exp_minus_1)
  have p: "bit p n \<Longrightarrow> n < 7" for n using bit_below[of p 7 n] assms(1) by (simp add: word_less_nat_alt)
  have "bit (ucast (fid_pool False (mac_fid p (int i))) :: u16) n \<longleftrightarrow> bit p n" if "n < 16" for n
    using that p[of n] unfolding fid_pool_def m
    by (auto simp: bit_ucast_iff bit_and_iff bit_drop_bit_eq bit_mask_iff bit_mac_fid[OF assms(2)])
  then show "ucast (fid_pool False (mac_fid p (int i))) = p" by (intro bit_word_eqI) simp
  have "bit (mac_fid p (int i) AND 0x7F) n \<longleftrightarrow> bit (of_nat i :: u16) n" for n
    using bit_below[of "of_nat i :: u16" 7 n] assms(2) unfolding m bit_and_iff bit_mask_iff bit_mac_fid[OF assms(2)] by (auto simp: unat_of_nat)
  then have "mac_fid p (int i) AND 0x7F = of_nat i" by (intro bit_word_eqI) simp
  then show "fid_index (mac_fid p (int i)) = i" using assms(2) by (simp add: fid_index_def unat_of_nat)
qed

text \<open>With them it is read as one of the second form, and the pool does not come back.\<close>

lemma mac_fid_misread:
  assumes "p \<noteq> 0" "i < 128"
  shows "ucast (fid_pool True (mac_fid p (int i))) \<noteq> p"
proof
  assume e: "ucast (fid_pool True (mac_fid p (int i))) = p"
  have m: "(7 :: u16) = mask 3" by (simp add: mask_eq_exp_minus_1)
  have "bit (ucast (fid_pool True (mac_fid p (int i))) :: u16) n \<longleftrightarrow> 0 < n \<and> n < 3 \<and> bit p (n - 1)" if "n < 16" for n
    using that unfolding fid_pool_def m
    by (auto simp: bit_ucast_iff bit_and_iff bit_drop_bit_eq bit_mask_iff bit_mac_fid[OF assms(2)])
  then have b: "bit p n \<longleftrightarrow> 0 < n \<and> n < 3 \<and> bit p (n - 1)" if "n < 16" for n using that unfolding e by blast
  have "\<not> bit p n" if "n < 16" for n
    using that
  proof (induction n)
    case (Suc n)
    then show ?case using b[of "Suc n"] by simp
  qed (use b[of 0] in simp)
  then have "p = 0" by (intro bit_word_eqI) (simp add: bit_0_eq)
  then show False using assms(1) by blast
qed

section \<open>The index of an address\<close>

lemma add_index_range:
  assumes "add_mac_from R a q n i ad = Inr (r, ad')" "0 \<le> r"
  shows "\<exists>k < i + n. r = int k"
  using assms
proof (induction n arbitrary: i)
  case (Suc n)
  then obtain e where e: "mac_entry i ad = Inr e" by (auto simp: rbind_eq_Inr)
  show ?case
  proof (cases "entry_in_use e \<and> compare_ether_addr a (mt_addr e)")
    case True
    then show ?thesis using Suc.IH[of "Suc i"] Suc.prems e by auto
  next
    case False
    then have "r = int i" using Suc.prems e by (auto simp: rbind_eq_Inr split: if_splits)
    then show ?thesis by auto
  qed
qed auto

lemma add_mac_index: "ixgbe_add_mac_filter R a q ad = Inr (r, ad') \<Longrightarrow> 0 \<le> r \<Longrightarrow> \<exists>k < rars ad. r = int k"
  using add_index_range[of R a q "rars ad" 0 ad r ad'] by (auto simp: ixgbe_add_mac_filter_def split: if_splits)

text \<open>The entry at the index that is returned has the address and the pool.\<close>

lemma add_index_entry:
  assumes "table_ready R reg ad" "mirrored reg ad" "length a = 6" "q < 64"
    and "add_mac_from R a q n i ad = Inr (int k, ad')" "i + n = rars ad"
  shows "k < rars ad \<and> entry_in_use (mac_table ad' ! k) \<and> mt_addr (mac_table ad' ! k) = a \<and> mt_queue (mac_table ad' ! k) = q"
  using assms(5,6)
proof (induction n arbitrary: i)
  case (Suc n)
  let ?e = "mac_table ad ! i"
  have l: "i < length (mac_table ad)" "i < rars ad" using assms(1) Suc.prems(2) by (simp_all add: table_ready_def)
  have ok: "length (mt_addr ?e) = 6" using assms(2) l(2) by (simp add: mirrored_def entry_ok_def)
  show ?case
  proof (cases "entry_in_use ?e")
    case True
    show ?thesis
    proof (cases "mt_addr ?e = a")
      case eq: True
      then have "k = i" "mt_queue ?e = q" "ad' = ad" using Suc.prems(1) True l(1) by (auto simp: mac_entry_def compare_ether_addr_def split: if_splits)
      then show ?thesis using True eq l(2) by simp
    next
      case False
      then have "compare_ether_addr a (mt_addr ?e)" using assms(3) ok by (auto simp: compare_ether_addr_def)
      then show ?thesis using Suc.IH[of "Suc i"] Suc.prems True l(1) by (simp add: mac_entry_def)
    qed
  next
    case False
    let ?n = "\<lparr>mt_addr = take 6 a, mt_queue = q, mt_state = mt_state ?e OR (IXGBE_MAC_STATE_MODIFIED OR IXGBE_MAC_STATE_IN_USE)\<rparr>"
    have n: "entry_modified ?n" "entry_in_use ?n" "entry_ok ?n"
      using assms(3,4) by (simp_all add: entry_modified_def entry_in_use_def entry_ok_def state_bits)
    obtain d where "ixgbe_sync_mac_table R (put_entry i ?n ad) = Inr (synced_at i ?n ad d)"
      using put_sync[OF assms(1,2) l(2) n(1,3)] False by auto
    then have a: "add_mac_from R a q (Suc n) i ad = Inr (int i, synced_at i ?n ad d)" using False l(1) by (simp add: mac_entry_def)
    have "int i = int k" "synced_at i ?n ad d = ad'" using Suc.prems(1) unfolding a by (simp_all only: sum.inject prod.inject)
    then have "k = i" "ad' = synced_at i ?n ad d" by simp_all
    then show ?thesis using l n(2) assms(3) by (simp add: synced_at_def)
  qed
qed simp

text \<open>A new address and its removal by the index.\<close>

lemma add_fresh:
  assumes "table_ready R reg ad" "mirrored reg ad" "length a = 6" "q < 64" "\<not> is_zero_ether_addr a"
    and "\<forall>q'. (a, q') \<notin># filters_of ad" "size (filters_of ad) < rars ad"
  obtains k ad' where "ixgbe_add_mac_filter R a q ad = Inr (int k, ad')" "k < rars ad" "table_ready R reg ad'" "mirrored reg ad'" "rars ad' = rars ad"
    "filters_of ad' = add_mset (a, q) (filters_of ad)" "entry_in_use (mac_table ad' ! k)" "mt_addr (mac_table ad' ! k) = a" "mt_queue (mac_table ad' ! k) = q"
proof -
  obtain r ad' where r: "ixgbe_add_mac_filter R a q ad = Inr (r, ad')" "table_ready R reg ad'" "mirrored reg ad'" "rars ad' = rars ad"
      "add_spec (rars ad) a q (filters_of ad) r (filters_of ad')"
    using add_mac_ok[OF assms(1-4)] by blast
  have "0 \<le> r" "filters_of ad' = add_mset (a, q) (filters_of ad)" using r(5) assms(5-7) by (auto simp: add_spec_def)
  moreover obtain k where "r = int k" using \<open>0 \<le> r\<close> nonneg_int_cases by blast
  ultimately show ?thesis
    using that[of k ad'] r add_index_entry[OF assms(1-4), of "rars ad" 0 k ad'] assms(5) by (simp add: ixgbe_add_mac_filter_def)
qed

lemma del_entry:
  assumes "table_ready R reg ad" "mirrored reg ad" "k < rars ad" "entry_in_use (mac_table ad ! k)"
  obtains ad' where "ixgbe_del_mac_filter_by_index R k ad = Inr ad'" "table_ready R reg ad'" "mirrored reg ad'" "rars ad' = rars ad"
    "filters_of ad = add_mset (mt_addr (mac_table ad ! k), mt_queue (mac_table ad ! k)) (filters_of ad')"
    "mac_table ad' = (mac_table ad)[k := synced_entry (removed_entry (mac_table ad ! k))]"
proof -
  have "k < length (mac_table ad)" using assms(1,3) by (simp add: table_ready_def)
  then show ?thesis using remove_ok[OF assms(1-3)] that assms(4) by (auto simp: ixgbe_del_mac_filter_by_index_def mac_entry_def)
qed

section \<open>A filter is applied and removed\<close>

lemma put_rx_table [simp]:
  "table_ready R reg (put_rx p r ad) = table_ready R reg ad" "mirrored reg (put_rx p r ad) = mirrored reg ad"
  "filters_of (put_rx p r ad) = filters_of ad" "mac_table (put_rx p r ad) = mac_table ad" "mt_hw (put_rx p r ad) = mt_hw ad"
  "mac_entry i (put_rx p r ad) = mac_entry i ad" "hw_perm_addr (put_rx p r ad) = hw_perm_addr ad"
  "nq_num_vfs (put_rx p r ad) = nq_num_vfs ad"
  by (simp_all add: put_rx_def table_ready_def mirrored_def in_step_def filters_of_def mac_entry_def)

text \<open>What a filter call leaves alone besides the rings.\<close>

lemma mac_only_config:
  fixes ad ad' :: "('h, 'z) nq_adapter_scheme"
  assumes "mac_only ad ad'"
  shows "hw_perm_addr ad' = hw_perm_addr ad" "nq_num_vfs ad' = nq_num_vfs ad" "VMDQ_P q ad' = VMDQ_P q ad" "nq_mac ad' = nq_mac ad" "rars ad' = rars ad"
    "num_rx_pools ad' = num_rx_pools ad"
proof -
  obtain h t where "hw_kind h = hw_kind (mt_hw ad)" "ad' = ad\<lparr>mt_hw := h, mac_table := t\<rparr>" using assms by (auto simp: mac_only_def)
  then show "hw_perm_addr ad' = hw_perm_addr ad" "nq_num_vfs ad' = nq_num_vfs ad" "VMDQ_P q ad' = VMDQ_P q ad" "nq_mac ad' = nq_mac ad" "rars ad' = rars ad"
    "num_rx_pools ad' = num_rx_pools ad"
    by (simp_all add: hw_kind_def VMDQ_P_def)
qed

text \<open>The programming of an address that is not there yet.\<close>

lemma apply_fresh:
  fixes ad :: "('h, 'z) nq_adapter_scheme"
  assumes "table_ready R reg ad" "mirrored reg ad" "is_82599_X540 ad" "rss_limit ad \<le> 1" "ucast (VMDQ_P pool ad) < (64 :: u16)"
    and "nf_class f = FILTER_MACADDR" "length (nf_mac f) = 6" "\<not> is_zero_ether_addr (nf_mac f)" "compare_ether_addr (nf_mac f) (hw_perm_addr ad)"
    and "\<forall>q. (nf_mac f, q) \<notin># filters_of ad" "size (filters_of ad) < rars ad"
  obtains k ad' where "apply_hw R f pool ad = Inr (Some (int k, 0), ad')" "k < rars ad" "table_ready R reg ad'" "mirrored reg ad'"
    "filters_of ad' = add_mset (nf_mac f, ucast (VMDQ_P pool ad)) (filters_of ad)" "entry_in_use (mac_table ad' ! k)"
    "mt_addr (mac_table ad' ! k) = nf_mac f" "mt_queue (mac_table ad' ! k) = ucast (VMDQ_P pool ad)"
proof -
  obtain k ad' where k: "ixgbe_add_mac_filter R (nf_mac f) (ucast (VMDQ_P pool ad)) ad = Inr (int k, ad')" "k < rars ad" "table_ready R reg ad'"
      "mirrored reg ad'" "filters_of ad' = add_mset (nf_mac f, ucast (VMDQ_P pool ad)) (filters_of ad)" "entry_in_use (mac_table ad' ! k)"
      "mt_addr (mac_table ad' ! k) = nf_mac f" "mt_queue (mac_table ad' ! k) = ucast (VMDQ_P pool ad)"
    by (rule add_fresh[OF assms(1,2,7,5,8,10,11)])
  have "apply_vlan R f pool (int k) ad' = Inr (Some (int k, 0), ad')"
    using assms(6) by (simp add: apply_vlan_def vmknetddi_queueops_get_filter_vlanid_def Let_def)
  then have "apply_hw R f pool ad = Inr (Some (int k, 0), ad')"
    using assms(3,6,9) k(1) by (simp add: apply_hw_def apply_82599_def vmknetddi_queueops_get_filter_macaddr_def leD[OF assms(4)])
  then show ?thesis using that k(2-8) by blast
qed

lemma remove_entry:
  fixes ad :: "('h, 'z) nq_adapter_scheme"
  assumes "table_ready R reg ad" "mirrored reg ad" "is_82599_X540 ad" "k < rars ad" "entry_in_use (mac_table ad ! k)"
    and "compare_ether_addr (mt_addr (mac_table ad ! k)) (hw_perm_addr ad)"
  obtains ad' where "remove_hw R pool 0 k ad = Inr (True, ad')" "table_ready R reg ad'" "mirrored reg ad'" "rars ad' = rars ad"
    "filters_of ad = add_mset (mt_addr (mac_table ad ! k), mt_queue (mac_table ad ! k)) (filters_of ad')"
proof -
  obtain ad' where d: "ixgbe_del_mac_filter_by_index R k ad = Inr ad'" "table_ready R reg ad'" "mirrored reg ad'" "rars ad' = rars ad"
      "filters_of ad = add_mset (mt_addr (mac_table ad ! k), mt_queue (mac_table ad ! k)) (filters_of ad')"
    using del_entry[OF assms(1,2,4,5)] by metis
  have "mac_only ad ad'" using del_index_only[OF mac_only_refl, of ad R k] d(1) by (simp add: mac_keeps_def)
  then have "compare_ether_addr (mt_addr (mac_table ad ! k)) (hw_perm_addr ad')" using assms(6) mac_only_config(1) by metis
  moreover have "mac_entry k ad = Inr (mac_table ad ! k)" using assms(1,4) by (simp add: mac_entry_def table_ready_def)
  ultimately have "remove_hw R pool 0 k ad = Inr (True, ad')" using assms(3) d(1) by (simp add: remove_hw_def remove_82599_def)
  then show ?thesis using that d(2-5) by blast
qed

lemma ring_of_queue:
  assumes "nq_ok c l ad" "queues ad p = Some n"
  shows "p < length (rx_rings ad)" "rg_allocated (rx_rings ad ! p)" "unat (rg_active (rx_rings ad ! p)) = n" "p < 2 ^ 16" "p \<noteq> 0"
    "base_queue (of_nat p) ad = p" "(num_rx_pools ad \<le> of_nat p) = False"
proof -
  show p: "p < length (rx_rings ad)" "rg_allocated (rx_rings ad ! p)" "unat (rg_active (rx_rings ad ! p)) = n"
    using assms(2) by (auto simp: queues_def owned_def split: if_splits)
  then show l: "p < 2 ^ 16" using assms(1) by (simp add: nq_ok_def)
  show "p \<noteq> 0" using assms by (cases "p = 0") (simp_all add: nq_ok_def queues_def)
  have u: "unat (of_nat p :: u32) = p" using l by (simp add: unat_of_nat)
  then show "base_queue (of_nat p) ad = p" using assms(1) by (simp add: nq_ok_def base_queue_one)
  show "(num_rx_pools ad \<le> of_nat p) = False" using p(1) u assms(1) by (simp add: nq_ok_def word_le_nat_alt)
qed

text \<open>The pool number of a queue identifier, as a word.\<close>

lemma queueid_pool:
  assumes "p < 2 ^ 16"
  shows "QUEUEID_VAL (MK_RX_QUEUEID (of_nat p)) = of_nat p" "ucast (of_nat p :: u16) = (of_nat p :: u32)"
proof -
  show "QUEUEID_VAL (MK_RX_QUEUEID (of_nat p)) = of_nat p"
    using queueid_rx(1)[OF assms] assms by (simp add: word_unat_eq_iff unat_of_nat)
  show "ucast (of_nat p :: u16) = (of_nat p :: u32)" using assms by (simp add: word_unat_eq_iff unat_ucast_u16 unat_of_nat)
qed

lemma apply_filter_fresh:
  fixes ad :: "('h, 'z) nq_adapter_scheme"
  assumes "nq_ok c l ad" "l \<le> 255" "table_ready R reg ad" "mirrored reg ad" "rss_limit ad \<le> 1"
    and "queues ad p = Some n" "int n < l" "ucast (VMDQ_P (of_nat p) ad) < (64 :: u16)"
    and "nf_class f = FILTER_MACADDR" "length (nf_mac f) = 6" "\<not> is_zero_ether_addr (nf_mac f)" "compare_ether_addr (nf_mac f) (hw_perm_addr ad)"
    and "\<forall>q. (nf_mac f, q) \<notin># filters_of ad" "size (filters_of ad) < rars ad"
  obtains k ad1 where "ixgbe_apply_rx_filter R (MK_RX_QUEUEID (of_nat p)) f ad =
      Inr (VMKNETDDI_QUEUEOPS_OK, Some (ucast (mac_fid (of_nat p) (int k)), of_nat p), ad1)"
    "nq_ok c l ad1" "queues ad1 = (queues ad)(p \<mapsto> Suc n)" "k < rars ad" "rars ad1 = rars ad" "table_ready R reg ad1" "mirrored reg ad1"
    "filters_of ad1 = add_mset (nf_mac f, ucast (VMDQ_P (of_nat p) ad)) (filters_of ad)" "entry_in_use (mac_table ad1 ! k)"
    "mt_addr (mac_table ad1 ! k) = nf_mac f" "mt_queue (mac_table ad1 ! k) = ucast (VMDQ_P (of_nat p) ad)"
    "hw_perm_addr ad1 = hw_perm_addr ad" "nq_num_vfs ad1 = nq_num_vfs ad"
proof -
  note ring = ring_of_queue[OF assms(1,6)]
  note pool = queueid_pool[OF ring(4)]
  let ?r = "rx_rings ad ! p" and ?r1 = "(rx_rings ad ! p)\<lparr>rg_active := rg_active (rx_rings ad ! p) + 1\<rparr>"
  have mac: "is_82599_X540 ad" using assms(3) by (auto simp: table_ready_def rar_ready_def)
  then have mac': "nq_mac ad \<noteq> ixgbe_mac_82598EB" by auto
  obtain k ad1 where k: "apply_hw R f (of_nat p) ad = Inr (Some (int k, 0), ad1)" "k < rars ad" "table_ready R reg ad1" "mirrored reg ad1"
      "filters_of ad1 = add_mset (nf_mac f, ucast (VMDQ_P (of_nat p) ad)) (filters_of ad)" "entry_in_use (mac_table ad1 ! k)"
      "mt_addr (mac_table ad1 ! k) = nf_mac f" "mt_queue (mac_table ad1 ! k) = ucast (VMDQ_P (of_nat p) ad)"
    by (rule apply_fresh[OF assms(3,4) mac assms(5,8-14)])
  have m1: "mac_only ad ad1" using apply_hw_only[OF mac_only_refl, of ad R f "of_nat p"] k(1) by (simp add: mac_keeps_def)
  note r1 = mac_only_rings[OF m1] mac_only_config[OF m1]
  have "int (unat (rg_active ?r)) < l" using ring(3) assms(7) by (simp only:)
  then have lim: "uint (rg_active ?r) < l" by simp
  have "unat (rg_active ?r) < 255" using ring(3) assms(2,7) by linarith
  then have up: "unat (rg_active ?r + 1) = Suc n" using ring(3) by (simp add: unat_word_ariths)
  have out: "ixgbe_apply_rx_filter R (MK_RX_QUEUEID (of_nat p)) f ad =
      Inr (VMKNETDDI_QUEUEOPS_OK, Some (ucast (mac_fid (of_nat p) (int k)), of_nat p), put_rx p ?r1 ad1)"
    using k(1) pool ring queueid_rx(2)[OF ring(4)] mac' assms(9) nq_ok_offers(2)[OF assms(1)] lim r1(1)
    by (simp add: ixgbe_apply_rx_filter_def Let_def rx_ring_def not_le)
  have p1: "nq_ok c l (put_rx p ?r1 ad1)" "owned (put_rx p ?r1 ad1) = (owned ad)(p \<mapsto> rg_active ?r + 1)"
    using put_active_ok[OF r1(3)[OF assms(1)], of p "rg_active ?r + 1"] ring(1,2) r1(1,2) by simp_all
  show ?thesis using that[OF out p1(1)] queues_upd[OF p1(2)] up k r1 by simp
qed

lemma remove_filter_entry:
  fixes ad :: "('h, 'z) nq_adapter_scheme"
  assumes "nq_ok c l ad" "table_ready R reg ad" "mirrored reg ad" "nq_num_vfs ad = 0" "queues ad p = Some (Suc n)" "p < 128"
    and "k < rars ad" "entry_in_use (mac_table ad ! k)" "compare_ether_addr (mt_addr (mac_table ad ! k)) (hw_perm_addr ad)"
  obtains ad' where "ixgbe_remove_rx_filter R (MK_RX_QUEUEID (of_nat p)) (ucast (mac_fid (of_nat p) (int k))) ad = Inr (VMKNETDDI_QUEUEOPS_OK, ad')"
    "queues ad' = (queues ad)(p \<mapsto> n)" "table_ready R reg ad'" "mirrored reg ad'" "rars ad' = rars ad"
    "filters_of ad = add_mset (mt_addr (mac_table ad ! k), mt_queue (mac_table ad ! k)) (filters_of ad')"
proof -
  note ring = ring_of_queue[OF assms(1,5)]
  note pool = queueid_pool[OF ring(4)]
  let ?r = "rx_rings ad ! p"
  have mac: "is_82599_X540 ad" using assms(2) by (auto simp: table_ready_def rar_ready_def)
  have "k < 128" using assms(2,7) by (simp add: table_ready_def rar_ready_def word_le_nat_alt)
  then have fid: "ucast (fid_pool False (mac_fid (of_nat p) (int k))) = (of_nat p :: u16)" "fid_index (mac_fid (of_nat p) (int k)) = k"
    using mac_fid_read[of "of_nat p" k] assms(6) by (simp_all add: word_less_nat_alt unat_of_nat)
  obtain ad2 where d: "remove_hw R (of_nat p) 0 k ad = Inr (True, ad2)" "table_ready R reg ad2" "mirrored reg ad2" "rars ad2 = rars ad"
      "filters_of ad = add_mset (mt_addr (mac_table ad ! k), mt_queue (mac_table ad ! k)) (filters_of ad2)"
    by (rule remove_entry[OF assms(2,3) mac assms(7-9)])
  have m: "mac_only ad ad2" using remove_hw_only[OF mac_only_refl, of ad R "of_nat p" 0 k] d(1) by (simp add: mac_keeps_def)
  note r2 = mac_only_rings[OF m]
  let ?ad' = "put_rx p (?r\<lparr>rg_active := rg_active ?r - 1\<rparr>) ad2"
  have pos: "rg_active ?r \<noteq> 0" using ring(3) by auto
  then have down: "unat (rg_active ?r - 1) = n" using ring(3) by (simp add: unat_sub word_le_nat_alt)
  have rm: "ixgbe_remove_rx_filter R (MK_RX_QUEUEID (of_nat p)) (ucast (mac_fid (of_nat p) (int k))) ad = Inr (VMKNETDDI_QUEUEOPS_OK, ?ad')"
    using d(1) assms(4) ring(1,2,6,7) r2(1) pos
    unfolding ixgbe_remove_rx_filter_def Let_def pool fid_word fid(2) by (simp add: fid(1) queueid_rx(2)[OF ring(4)] rx_ring_def)
  have "owned ?ad' = (owned ad)(p \<mapsto> rg_active ?r - 1)"
    using put_active_ok[OF r2(3)[OF assms(1)], of p "rg_active ?r - 1"] r2(1,2) ring(1,2) by simp
  then show ?thesis using that[OF rm] queues_upd down d by fastforce
qed

text \<open>
  C30. A filter can be taken back: on an 82599 or X540 without virtual functions, with a table that the registers
  mirror, an address that is not in it and room for it, the request of a filter for a queue that is out succeeds and
  makes exactly one more register pair valid, for that address and the pool of the queue; the removal with the identifier that
  was handed out succeeds, and the valid registers and the counts of all queues are what they were.
\<close>

theorem filter_roundtrip:
  fixes ad :: "('h, 'z) nq_adapter_scheme"
  assumes "nq_ok c l ad" "l \<le> 255" "table_ready R reg ad" "mirrored reg ad" "nq_num_vfs ad = 0" "rss_limit ad \<le> 1"
    and "queues ad p = Some n" "int n < l" "p < 128" "ucast (VMDQ_P (of_nat p) ad) < (64 :: u16)"
    and "nf_class f = FILTER_MACADDR" "length (nf_mac f) = 6" "\<not> is_zero_ether_addr (nf_mac f)" "compare_ether_addr (nf_mac f) (hw_perm_addr ad)"
    and "\<forall>q. (nf_mac f, q) \<notin># filters_of ad" "size (filters_of ad) < rars ad"
  shows "\<exists>fid ad1 ad2. ixgbe_apply_rx_filter R (MK_RX_QUEUEID (of_nat p)) f ad = Inr (VMKNETDDI_QUEUEOPS_OK, Some (fid, of_nat p), ad1) \<and>
     valid_rars (regs reg (mt_hw ad1)) (rars ad) =
       add_mset (filter_view (nf_mac f, ucast (VMDQ_P (of_nat p) ad))) (valid_rars (regs reg (mt_hw ad)) (rars ad)) \<and>
     queues ad1 = (queues ad)(p \<mapsto> Suc n) \<and>
     ixgbe_remove_rx_filter R (MK_RX_QUEUEID (of_nat p)) fid ad1 = Inr (VMKNETDDI_QUEUEOPS_OK, ad2) \<and>
     valid_rars (regs reg (mt_hw ad2)) (rars ad) = valid_rars (regs reg (mt_hw ad)) (rars ad) \<and> queues ad2 = queues ad"
proof -
  let ?a = "nf_mac f" and ?q = "ucast (VMDQ_P (of_nat p) ad) :: u16"
  obtain k ad1 where a: "ixgbe_apply_rx_filter R (MK_RX_QUEUEID (of_nat p)) f ad =
        Inr (VMKNETDDI_QUEUEOPS_OK, Some (ucast (mac_fid (of_nat p) (int k)), of_nat p), ad1)"
      "nq_ok c l ad1" "queues ad1 = (queues ad)(p \<mapsto> Suc n)" "k < rars ad" "rars ad1 = rars ad" "table_ready R reg ad1" "mirrored reg ad1"
      "filters_of ad1 = add_mset (?a, ?q) (filters_of ad)" "entry_in_use (mac_table ad1 ! k)" "mt_addr (mac_table ad1 ! k) = ?a"
      "mt_queue (mac_table ad1 ! k) = ?q" "hw_perm_addr ad1 = hw_perm_addr ad" "nq_num_vfs ad1 = nq_num_vfs ad"
    by (rule apply_filter_fresh[OF assms(1-4,6-8,10-16)])
  have "nq_num_vfs ad1 = 0" "queues ad1 p = Some (Suc n)" "k < rars ad1" "compare_ether_addr (mt_addr (mac_table ad1 ! k)) (hw_perm_addr ad1)"
    using a(3-5,10,12,13) assms(5,14) by simp_all
  then obtain ad2 where b: "ixgbe_remove_rx_filter R (MK_RX_QUEUEID (of_nat p)) (ucast (mac_fid (of_nat p) (int k))) ad1 = Inr (VMKNETDDI_QUEUEOPS_OK, ad2)"
      "queues ad2 = (queues ad1)(p \<mapsto> n)" "table_ready R reg ad2" "mirrored reg ad2" "rars ad2 = rars ad1"
      "filters_of ad1 = add_mset (mt_addr (mac_table ad1 ! k), mt_queue (mac_table ad1 ! k)) (filters_of ad2)"
    using remove_filter_entry[OF a(2,6,7) _ _ assms(9) _ a(9)] by metis
  have "filters_of ad2 = filters_of ad" using a(8,10,11) b(6) by simp
  moreover have "queues ad2 = queues ad" using a(3) b(2) assms(7) by (simp add: fun_upd_idem)
  ultimately show ?thesis
    using a(1,3,5,8) b(1,5) mirrored_valid[OF a(6,7)] mirrored_valid[OF b(3,4)] mirrored_valid[OF assms(3,4)]
    by (intro exI[of _ "ucast (mac_fid (of_nat p) (int k))"] exI[of _ ad1] exI[of _ ad2]) simp
qed

text \<open>Four rings, the first beside the default one out; the table of eight addresses is empty.\<close>

definition demo_queue :: "u32 \<Rightarrow> (u32 \<Rightarrow> u32) nq_adapter" where
  "demo_queue vfs = demo_nq_adapter\<lparr>rx_rings := [demo_ring, demo_ring\<lparr>rg_allocated := True\<rparr>, demo_ring, demo_ring],
     rx_queues_allocated := 1, nq_num_vfs := vfs\<rparr>"

definition demo_filter :: nq_filter where
  "demo_filter = \<lparr>nf_class = 1, nf_mac = [0, 0x1B, 0x21, 1, 2, 3], nf_vlan = 0\<rparr>"

lemma demo_queue_owned: "owned (demo_queue vfs) = [1 \<mapsto> 0]" "queues (demo_queue vfs) 1 = Some 0"
proof -
  show o: "owned (demo_queue vfs) = [1 \<mapsto> 0]"
  proof
    fix p :: nat
    consider "p = 0" | "p = 1" | "p = 2" | "p = 3" | "4 \<le> p" by linarith
    then show "owned (demo_queue vfs) p = [1 \<mapsto> 0] p"
      by cases (simp_all add: owned_def demo_queue_def demo_ring_def nth_Cons numeral_eq_Suc)
  qed
  show "queues (demo_queue vfs) 1 = Some 0" by (simp add: queues_def o)
qed

lemma demo_netq_ok:
  assumes "vfs = 0 \<or> vfs = 1"
  shows "nq_ok 3 2 (demo_queue vfs)"
  unfolding nq_ok_def demo_queue_owned using assms
  by (auto simp: demo_queue_def demo_nq_adapter_def demo_ring_def ixgbe_get_netq_count_def ixgbe_max_filters_per_pool_def demo_flt_hw_def)

lemma demo_queue_table: "table_ready register_file (\<lambda>s. s) (demo_queue vfs)" "mirrored (\<lambda>s. s) (demo_queue vfs)" "filters_of (demo_queue vfs) = {#}"
  by (simp_all add: table_ready_def rar_ready_def register_file_bank demo_queue_def demo_nq_adapter_def demo_flt_hw_def mirrored_def in_step_def
      entry_modified_def entry_in_use_def entry_view_def rar_view_def entry_ok_def zero_ether_addr_def filters_of_def table_filters_def)

lemma demo_filter_new:
  "nf_class demo_filter = FILTER_MACADDR" "length (nf_mac demo_filter) = 6" "\<not> is_zero_ether_addr (nf_mac demo_filter)"
  "compare_ether_addr (nf_mac demo_filter) (hw_perm_addr (demo_queue vfs))"
  by (simp_all add: demo_filter_def is_zero_ether_addr_def compare_ether_addr_def demo_queue_def demo_nq_adapter_def)

lemma demo_queue_misc: "nq_num_vfs (demo_queue vfs) = vfs" "rss_limit (demo_queue vfs) \<le> 1" "ucast (VMDQ_P (of_nat 1) (demo_queue vfs)) < (64 :: u16)"
  "rars (demo_queue vfs) = 8" "is_82599_X540 (demo_queue vfs)" "num_rar_entries (mt_hw (demo_queue vfs)) \<le> 128"
  by (simp_all add: demo_queue_def demo_nq_adapter_def demo_flt_hw_def VMDQ_P_def)

lemmas demo_facts = demo_queue_owned demo_queue_table demo_filter_new demo_queue_misc

theorem filter_roundtrip_witness:
  "\<exists>fid ad1 ad2. ixgbe_apply_rx_filter register_file (MK_RX_QUEUEID (of_nat 1)) demo_filter (demo_queue 0) = Inr (VMKNETDDI_QUEUEOPS_OK, Some (fid, of_nat 1), ad1) \<and>
     ixgbe_remove_rx_filter register_file (MK_RX_QUEUEID (of_nat 1)) fid ad1 = Inr (VMKNETDDI_QUEUEOPS_OK, ad2) \<and> queues ad2 = queues (demo_queue 0)"
proof -
  have "\<forall>q. (nf_mac demo_filter, q) \<notin># filters_of (demo_queue 0)" "size (filters_of (demo_queue 0)) < rars (demo_queue 0)"
    by (simp_all add: demo_facts)
  then show ?thesis
    using filter_roundtrip[OF demo_netq_ok _ demo_queue_table(1,2) demo_queue_misc(1) demo_queue_misc(2) demo_queue_owned(2) _ _ demo_queue_misc(3) demo_filter_new]
    by fastforce
qed

text \<open>The index in an identifier is below the number of registers.\<close>

lemma apply_index:
  fixes ad :: "('h, 'z) nq_adapter_scheme"
  assumes "apply_hw R f pool ad = Inr (Some (i, v), ad')" "is_82599_X540 ad"
  shows "\<exists>k < rars ad. i = int k"
proof -
  let ?ad1 = "if rss_limit ad > 1 \<and> ucast pool = num_rx_pools ad - 1 then ixgbe_configure_rss_filter R ad else ad"
  have m1: "mac_only ad ?ad1" by (simp add: ixgbe_configure_rss_filter_def mac_only_on_hw for_regs_def kind_fold)
  have "apply_82599 R f pool ad = Inr (Some (i, v), ad')" using assms by (simp add: apply_hw_def)
  then obtain m ad2 where a2: "(if \<not> compare_ether_addr m (hw_perm_addr ?ad1) then ixgbe_del_mac_filter_by_index R (unat (VMDQ_P 0 ?ad1)) ?ad1 else Inr ?ad1) = Inr ad2"
      "rbind (ixgbe_add_mac_filter R m (ucast (VMDQ_P pool ad2)) ad2) (\<lambda>(index, ad3). if index < 0 then Inr (None, ad3) else apply_vlan R f pool index ad3) =
       Inr (Some (i, v), ad')"
    unfolding apply_82599_def Let_def rbind_eq_Inr by blast
  obtain j ad3 where a3: "ixgbe_add_mac_filter R m (ucast (VMDQ_P pool ad2)) ad2 = Inr (j, ad3)" "\<not> j < 0" "apply_vlan R f pool j ad3 = Inr (Some (i, v), ad')"
    using a2(2) by (auto simp: rbind_eq_Inr split: if_splits)
  have "mac_keeps id ad (if \<not> compare_ether_addr m (hw_perm_addr ?ad1) then ixgbe_del_mac_filter_by_index R (unat (VMDQ_P 0 ?ad1)) ?ad1 else Inr ?ad1)"
    using m1 by (simp only: mac_keeps_Inr del_index_only id_apply split: if_split) simp
  then have "mac_only ad ad2" using a2(1) by (simp add: mac_keeps_def)
  then have "rars ad2 = rars ad" by (rule mac_only_config(5))
  moreover have "i = j" using a3(3) by (auto simp: apply_vlan_def Let_def rbind_eq_Inr split: if_splits prod.splits)
  ultimately show ?thesis using add_mac_index[OF a3(1)] a3(2) by simp
qed

text \<open>
  C31. With virtual functions a filter on an address alone cannot be taken back: its identifier is written in one form
  and read in the other, so that the removal is refused for every queue and leaves the table and the queues as they are.
\<close>

theorem vf_filter_stuck:
  fixes ad :: "('h, 'z) nq_adapter_scheme"
  assumes "nq_ok c l ad" "l \<le> 255" "is_82599_X540 ad" "num_rar_entries (mt_hw ad) \<le> 128" "nq_num_vfs ad \<noteq> 0" "nf_class f = FILTER_MACADDR"
    and "ixgbe_apply_rx_filter R qid f ad = Inr (VMKNETDDI_QUEUEOPS_OK, Some (fid, k), ad1)"
  shows "\<exists>ad2. ixgbe_remove_rx_filter R qid fid ad1 = Inr (VMKNETDDI_QUEUEOPS_ERR, ad2) \<and> mac_table ad2 = mac_table ad1 \<and> queues ad2 = queues ad1"
  using assms(1,7)
proof (cases rule: apply_cases)
  case (2 i v adh)
  let ?p = "unat (QUEUEID_VAL qid)" and ?pool = "QUEUEID_VAL qid"
  let ?r = "rx_rings ad ! ?p" and ?r1 = "(rx_rings ad ! ?p)\<lparr>rg_active := rg_active (rx_rings ad ! ?p) + 1\<rparr>"
  obtain j where j: "i = int j" "j < rars ad" using apply_index[OF 2(8) assms(3)] by auto
  have j128: "j < 128" using j(2) assms(4) by (simp add: word_le_nat_alt)
  have fid: "fid = ucast (mac_fid ?pool (int j))" using 2(9) assms(6) j(1) by simp
  note r = mac_only_rings[OF 2(2)] mac_only_config[OF 2(2)]
  have q: "queues ad ?p = Some (unat (rg_active ?r))" using 2(3,4) by (simp add: queues_def owned_def)
  note ring = ring_of_queue[OF assms(1) q]
  have "uint (rg_active ?r) < 255" "int (unat (rg_active ?r)) = uint (rg_active ?r)" using 2(5) nq_ok_offers(2)[OF assms(1)] assms(2) by simp_all
  then have "unat (rg_active ?r) < 255" by linarith
  then have "unat (rg_active ?r + 1) \<noteq> 0" by (simp add: unat_word_ariths)
  then have "rg_active ?r + 1 \<noteq> 0" by force
  moreover have "ucast (fid_pool True (mac_fid ?pool (int j))) \<noteq> ?pool" using mac_fid_misread[OF _ j128, of ?pool] ring(5) by (metis unat_0)
  moreover have "rx_ring ?p ad1 = Inr ?r1" "rg_allocated ?r1" using 2(3,4,6) r(1) by (simp_all add: rx_ring_def put_rx_def)
  moreover have "nq_ok c l ad1" using put_active_ok[OF r(3)[OF assms(1)], of ?p "rg_active ?r + 1"] 2(3,4,6) r(1) by simp
  then have "base_queue (ucast ?pool) ad1 = ?p" "(num_rx_pools ad1 \<le> ucast ?pool) = False"
    using 2(3,6) r(1) by (simp_all add: nq_ok_def base_queue_one unat_ucast_u16 word_le_nat_alt put_rx_def)
  moreover have "nq_num_vfs ad1 \<noteq> 0" "nq_mac ad1 \<noteq> ixgbe_mac_82598EB" using 2(6) r(7,9) assms(3,5) by auto
  ultimately have "ixgbe_remove_rx_filter R qid fid ad1 =
      Inr (VMKNETDDI_QUEUEOPS_ERR, ad1\<lparr>mt_hw := snd (IXGBE_READ_REG R (IXGBE_VLVF (fid_vlvf (mac_fid ?pool (int j)))) (mt_hw ad1))\<rparr>)"
    using 2(7) fid by (auto simp: ixgbe_remove_rx_filter_def Let_def case_prod_beta)
  then show ?thesis by (simp add: queues_def fun_eq_iff)
qed simp

theorem vf_filter_stuck_witness:
  "\<exists>fid ad1 ad2. ixgbe_apply_rx_filter register_file (MK_RX_QUEUEID (of_nat 1)) demo_filter (demo_queue 1) = Inr (VMKNETDDI_QUEUEOPS_OK, Some (fid, of_nat 1), ad1) \<and>
     ixgbe_remove_rx_filter register_file (MK_RX_QUEUEID (of_nat 1)) fid ad1 = Inr (VMKNETDDI_QUEUEOPS_ERR, ad2)"
proof -
  have "\<forall>q. (nf_mac demo_filter, q) \<notin># filters_of (demo_queue 1)" "size (filters_of (demo_queue 1)) < rars (demo_queue 1)"
    by (simp_all add: demo_facts)
  then obtain k ad1 where a: "ixgbe_apply_rx_filter register_file (MK_RX_QUEUEID (of_nat 1)) demo_filter (demo_queue 1) =
      Inr (VMKNETDDI_QUEUEOPS_OK, Some (ucast (mac_fid (of_nat 1) (int k)), of_nat 1), ad1)"
    using apply_filter_fresh[OF demo_netq_ok _ demo_queue_table(1,2) demo_queue_misc(2) demo_queue_owned(2) _ demo_queue_misc(3) demo_filter_new]
    by fastforce
  have "nq_num_vfs (demo_queue 1) \<noteq> 0" by (simp add: demo_queue_misc(1))
  then obtain ad2 where "ixgbe_remove_rx_filter register_file (MK_RX_QUEUEID (of_nat 1)) (ucast (mac_fid (of_nat 1) (int k))) ad1 = Inr (VMKNETDDI_QUEUEOPS_ERR, ad2)"
    using vf_filter_stuck[OF demo_netq_ok _ demo_queue_misc(5,6) _ demo_filter_new(1) a] by fastforce
  then show ?thesis using a by blast
qed

section \<open>The permanent address with virtual functions\<close>

text \<open>
  The pool number of the default queue is used as an index of the table: with virtual functions the default
  entry stays and the request is refused, but the entry at that index is gone.
\<close>

lemma perm_addr_with_vfs:
  fixes ad :: "('h, 'z) nq_adapter_scheme"
  assumes "table_ready R reg ad" "mirrored reg ad" "is_82599_X540 ad" "rss_limit ad \<le> 1" "nf_class f = FILTER_MACADDR"
    and "nf_mac f = hw_perm_addr ad" "length (nf_mac f) = 6" "\<not> is_zero_ether_addr (nf_mac f)"
    and "entry_in_use (mac_table ad ! 0)" "mt_addr (mac_table ad ! 0) = hw_perm_addr ad" "mt_queue (mac_table ad ! 0) \<noteq> ucast (VMDQ_P pool ad)"
    and "k = unat (VMDQ_P 0 ad)" "0 < k" "k < rars ad" "entry_in_use (mac_table ad ! k)"
  shows "\<exists>ad'. apply_hw R f pool ad = Inr (None, ad') \<and>
    filters_of ad = add_mset (mt_addr (mac_table ad ! k), mt_queue (mac_table ad ! k)) (filters_of ad')"
proof -
  obtain ad' where d: "ixgbe_del_mac_filter_by_index R k ad = Inr ad'" "table_ready R reg ad'" "rars ad' = rars ad"
      "filters_of ad = add_mset (mt_addr (mac_table ad ! k), mt_queue (mac_table ad ! k)) (filters_of ad')"
      "mac_table ad' = (mac_table ad)[k := synced_entry (removed_entry (mac_table ad ! k))]"
    by (rule del_entry[OF assms(1,2,14,15)])
  have "mac_only ad ad'" using del_index_only[OF mac_only_refl, of ad R k] d(1) by (simp add: mac_keeps_def)
  then have v: "VMDQ_P pool ad' = VMDQ_P pool ad" by (rule mac_only_config(3))
  have e: "mac_entry 0 ad' = Inr (mac_table ad ! 0)" using d(2,3,5) assms(13,14) by (simp add: mac_entry_def table_ready_def)
  obtain m where "rars ad' = Suc m" using d(3) assms(14) by (cases "rars ad") auto
  then have "ixgbe_add_mac_filter R (nf_mac f) (ucast (VMDQ_P pool ad')) ad' = Inr (- EINVAL, ad')"
    using e assms(6,8-11) by (simp add: ixgbe_add_mac_filter_def v compare_ether_addr_def)
  then have "apply_hw R f pool ad = Inr (None, ad')"
    using assms(3,5,6) d(1) by (simp add: apply_hw_def apply_82599_def vmknetddi_queueops_get_filter_macaddr_def leD[OF assms(4)] assms(12)[symmetric] compare_ether_addr_def)
  then show ?thesis using d(4) by blast
qed

end
