(* ===== verification/Sriov.thy ===== *)
theory Sriov
  imports MacTable Mbx
begin

text \<open>
  The physical function's side of the virtual functions (\<open>ixgbe_sriov.c\<close>): the data kept of each virtual function,
  the requests it makes through the mailbox, and the receive mode (\<open>ixgbe_main.c\<close>) a reset of one sets for every
  adapter of the ring. \<open>SriovAdmin\<close> holds the calls of the host.
\<close>

section \<open>State\<close>

abbreviation (input) IXGBE_VT_MSGTYPE_ACK :: u32 where "IXGBE_VT_MSGTYPE_ACK \<equiv> 0x80000000"
abbreviation (input) IXGBE_VT_MSGTYPE_NACK :: u32 where "IXGBE_VT_MSGTYPE_NACK \<equiv> 0x40000000"
abbreviation (input) IXGBE_VT_MSGTYPE_CTS :: u32 where "IXGBE_VT_MSGTYPE_CTS \<equiv> 0x20000000"
abbreviation (input) IXGBE_VT_MSGINFO_MASK :: u32 where "IXGBE_VT_MSGINFO_MASK \<equiv> 0xFF0000"
abbreviation (input) IXGBE_VF_RESET :: u32 where "IXGBE_VF_RESET \<equiv> 1"
abbreviation (input) IXGBE_VF_SET_MAC_ADDR :: u32 where "IXGBE_VF_SET_MAC_ADDR \<equiv> 2"
abbreviation (input) IXGBE_VF_SET_MULTICAST :: u32 where "IXGBE_VF_SET_MULTICAST \<equiv> 3"
abbreviation (input) IXGBE_VF_SET_VLAN :: u32 where "IXGBE_VF_SET_VLAN \<equiv> 4"
abbreviation (input) IXGBE_VF_SET_LPE :: u32 where "IXGBE_VF_SET_LPE \<equiv> 5"
abbreviation (input) IXGBE_VF_SET_MACVLAN :: u32 where "IXGBE_VF_SET_MACVLAN \<equiv> 6"
abbreviation (input) IXGBE_VF_API_NEGOTIATE :: u32 where "IXGBE_VF_API_NEGOTIATE \<equiv> 8"
abbreviation (input) IXGBE_VF_GET_QUEUES :: u32 where "IXGBE_VF_GET_QUEUES \<equiv> 9"
abbreviation (input) IXGBE_PF_CONTROL_MSG :: u32 where "IXGBE_PF_CONTROL_MSG \<equiv> 0x100"
abbreviation (input) IXGBE_VF_PERMADDR_MSG_LEN :: u16 where "IXGBE_VF_PERMADDR_MSG_LEN \<equiv> 4"

abbreviation (input) ixgbe_mbox_api_10 :: u32 where "ixgbe_mbox_api_10 \<equiv> 0"
abbreviation (input) ixgbe_mbox_api_20 :: u32 where "ixgbe_mbox_api_20 \<equiv> 1"
abbreviation (input) ixgbe_mbox_api_11 :: u32 where "ixgbe_mbox_api_11 \<equiv> 2"

abbreviation (input) IXGBE_MAX_VF_MC_ENTRIES :: nat where "IXGBE_MAX_VF_MC_ENTRIES \<equiv> 30"
abbreviation (input) IXGBE_MAX_JUMBO_FRAME_SIZE :: u32 where "IXGBE_MAX_JUMBO_FRAME_SIZE \<equiv> 9728"
abbreviation (input) ETH_FRAME_LEN :: int where "ETH_FRAME_LEN \<equiv> 1514"
abbreviation (input) WFSPKT_HEADROOM :: u32 where "WFSPKT_HEADROOM \<equiv> 64"

abbreviation (input) IXGBE_VMOLR :: "nat \<Rightarrow> u32" where "IXGBE_VMOLR \<equiv> reg_at 0xF000 4"
abbreviation (input) IXGBE_VMVIR :: "nat \<Rightarrow> u32" where "IXGBE_VMVIR \<equiv> reg_at 0x8000 4"
abbreviation (input) IXGBE_VFRE :: "nat \<Rightarrow> u32" where "IXGBE_VFRE \<equiv> reg_at 0x51E0 4"
abbreviation (input) IXGBE_VFTE :: "nat \<Rightarrow> u32" where "IXGBE_VFTE \<equiv> reg_at 0x8110 4"
abbreviation (input) IXGBE_VMECM :: "nat \<Rightarrow> u32" where "IXGBE_VMECM \<equiv> reg_at 0x8790 4"
abbreviation (input) IXGBE_PVFTDWBAL :: "nat \<Rightarrow> u32" where "IXGBE_PVFTDWBAL \<equiv> reg_at 0x6038 0x40"
abbreviation (input) IXGBE_PVFTDWBAH :: "nat \<Rightarrow> u32" where "IXGBE_PVFTDWBAH \<equiv> reg_at 0x603C 0x40"
abbreviation (input) IXGBE_STATUS :: u32 where "IXGBE_STATUS \<equiv> 0x8"
abbreviation (input) IXGBE_MAXFRS :: u32 where "IXGBE_MAXFRS \<equiv> 0x4268"
abbreviation (input) IXGBE_VLNCTRL :: u32 where "IXGBE_VLNCTRL \<equiv> 0x5088"

abbreviation (input) IXGBE_VMOLR_AUPE :: u32 where "IXGBE_VMOLR_AUPE \<equiv> 0x01000000"
abbreviation (input) IXGBE_VMOLR_ROMPE :: u32 where "IXGBE_VMOLR_ROMPE \<equiv> 0x02000000"
abbreviation (input) IXGBE_VMOLR_ROPE :: u32 where "IXGBE_VMOLR_ROPE \<equiv> 0x04000000"
abbreviation (input) IXGBE_VMOLR_BAM :: u32 where "IXGBE_VMOLR_BAM \<equiv> 0x08000000"
abbreviation (input) IXGBE_VMOLR_MPE :: u32 where "IXGBE_VMOLR_MPE \<equiv> 0x10000000"
abbreviation (input) IXGBE_VMVIR_VLANA_DEFAULT :: u32 where "IXGBE_VMVIR_VLANA_DEFAULT \<equiv> 0x40000000"
abbreviation (input) IXGBE_QDE_ENABLE :: u32 where "IXGBE_QDE_ENABLE \<equiv> 1"
abbreviation (input) IXGBE_MHADD_MFS_MASK :: u32 where "IXGBE_MHADD_MFS_MASK \<equiv> 0xFFFF0000"
abbreviation (input) IXGBE_FCTRL_MPE :: u32 where "IXGBE_FCTRL_MPE \<equiv> 0x100"
abbreviation (input) IXGBE_FCTRL_BAM :: u32 where "IXGBE_FCTRL_BAM \<equiv> 0x400"
abbreviation (input) IXGBE_FCTRL_PMCF :: u32 where "IXGBE_FCTRL_PMCF \<equiv> 0x1000"
abbreviation (input) IXGBE_FCTRL_DPF :: u32 where "IXGBE_FCTRL_DPF \<equiv> 0x2000"
abbreviation (input) IXGBE_VLNCTRL_CFIEN :: u32 where "IXGBE_VLNCTRL_CFIEN \<equiv> 0x20000000"
abbreviation (input) IXGBE_VLNCTRL_VFE :: u32 where "IXGBE_VLNCTRL_VFE \<equiv> 0x40000000"
abbreviation (input) IFF_PROMISC :: u32 where "IFF_PROMISC \<equiv> 0x100"
abbreviation (input) IFF_ALLMULTI :: u32 where "IFF_ALLMULTI \<equiv> 0x200"

record vf_data_storage =
  vf_mac_addresses :: "u8 list"
  vf_mc_hashes :: "u16 list"
  num_vf_mc_hashes :: u16
  clear_to_send :: bool
  pf_set_vlan :: bool
  pf_set_mac :: bool
  pf_vlan :: u16
  pf_qos :: u16
  tx_rate :: u16
  vlan_count :: u16
  spoofchk_enabled :: bool
  vf_api :: u32

text \<open>
  What of an adapter and of its network device these operations use; the number of a virtual function is a
  natural number. \<open>dcb_flag\<close> is \<open>IXGBE_FLAG_DCB_ENABLED\<close>, \<open>fcoe_mtu\<close> the feature
  \<open>NETIF_F_FCOE_MTU\<close>.
\<close>

record 'h vf_adapter = "'h mac_adapter" +
  vfinfo :: "vf_data_storage list"
  num_vfs :: u32
  pool_mask :: u16
  pool_offset :: u16
  dcb_flag :: bool
  dcb_tc :: u8
  default_up :: u8
  vf_dcb_cfg :: ixgbe_dcb_config
  netdev_flags :: u32
  netdev_mtu :: u32
  fcoe_mtu :: bool
  dev_running :: bool
  mc_list :: "u8 list list"
  dev_addr :: "u8 list"

text \<open>The adapters of the ring, in the order of the list \<open>wfs_next\<close>.\<close>

type_synonym 'h vf_ring = "'h vf_adapter list"

definition vf_info :: "nat \<Rightarrow> ('h, 'z) vf_adapter_scheme \<Rightarrow> fault + vf_data_storage" where
  "vf_info vf ad = (if vf < length (vfinfo ad) then Inr (vfinfo ad ! vf) else Inl OutOfBounds)"

definition put_vf :: "nat \<Rightarrow> vf_data_storage \<Rightarrow> ('h, 'z) vf_adapter_scheme \<Rightarrow> ('h, 'z) vf_adapter_scheme" where
  "put_vf vf v ad = ad\<lparr>vfinfo := (vfinfo ad)[vf := v]\<rparr>"

definition vf_hw :: "('h flt_hw \<Rightarrow> 'h flt_hw) \<Rightarrow> ('h, 'z) vf_adapter_scheme \<Rightarrow> ('h, 'z) vf_adapter_scheme" where
  "vf_hw f ad = ad\<lparr>mt_hw := f (mt_hw ad)\<rparr>"

definition on_adapter :: "nat \<Rightarrow> ('h vf_adapter \<Rightarrow> fault + 'a \<times> 'h vf_adapter) \<Rightarrow> 'h vf_ring \<Rightarrow> fault + 'a \<times> 'h vf_ring" where
  "on_adapter k f ring =
     (if k < length ring then rbind (f (ring ! k)) (\<lambda>(r, ad). Inr (r, ring[k := ad])) else Inl NullDeref)"

definition vf_pool_p :: "u32 \<Rightarrow> ('h, 'z) vf_adapter_scheme \<Rightarrow> u32" where
  "vf_pool_p p ad = p + ucast (pool_offset ad)"

definition netdev_get_num_tc :: "('h, 'z) vf_adapter_scheme \<Rightarrow> u8" where
  "netdev_get_num_tc ad = (if dcb_flag ad then dcb_tc ad else 0)"

definition netdev_get_prio_tc_map :: "('h, 'z) vf_adapter_scheme \<Rightarrow> u8 \<Rightarrow> fault + u8" where
  "netdev_get_prio_tc_map ad up = ixgbe_dcb_get_tc_from_up (vf_dcb_cfg ad) 0 (unat up)"

text \<open>\<open>__ALIGN_MASK(1, ~mask)\<close>: the number of queues of a pool.\<close>

definition q_per_pool :: "('h, 'z) vf_adapter_scheme \<Rightarrow> u32" where
  "q_per_pool ad = (let m = NOT (ucast (pool_mask ad) :: u32) in (1 + m) AND NOT m)"

definition IXGBE_WRITE_FLUSH :: "'h device \<Rightarrow> ('h, 'z) ixgbe_hw_scheme \<Rightarrow> ('h, 'z) ixgbe_hw_scheme" where
  "IXGBE_WRITE_FLUSH R hw = snd (IXGBE_READ_REG R IXGBE_STATUS hw)"

text \<open>The mailbox part of the hardware state.\<close>

definition mbx_view :: "('h, 'z) ixgbe_hw_scheme \<Rightarrow> 'h ixgbe_hw" where
  "mbx_view hw = \<lparr>hw_dev = hw_dev hw, mac_type = mac_type hw, mbx = mbx hw\<rparr>"

definition with_mbx :: "'h ixgbe_hw \<Rightarrow> ('h, 'z) ixgbe_hw_scheme \<Rightarrow> ('h, 'z) ixgbe_hw_scheme" where
  "with_mbx m hw = hw\<lparr>hw_dev := hw_dev m, mbx := mbx m\<rparr>"

definition vf_write_mbx :: "'h device \<Rightarrow> u32 list \<Rightarrow> u16 \<Rightarrow> nat \<Rightarrow> ('h, 'z) vf_adapter_scheme \<Rightarrow> fault + int \<times> ('h, 'z) vf_adapter_scheme" where
  "vf_write_mbx R msg n vf ad =
     rbind (ixgbe_write_mbx R msg n (of_nat vf) (mbx_view (mt_hw ad))) (\<lambda>(r, m). Inr (r, vf_hw (with_mbx m) ad))"

definition vf_read_mbx :: "'h device \<Rightarrow> u32 list \<Rightarrow> u16 \<Rightarrow> nat \<Rightarrow> ('h, 'z) vf_adapter_scheme \<Rightarrow> fault + (int \<times> u32 list) \<times> ('h, 'z) vf_adapter_scheme" where
  "vf_read_mbx R buf n vf ad =
     rbind (ixgbe_read_mbx R buf n (of_nat vf) (mbx_view (mt_hw ad))) (\<lambda>(r, msg, m). Inr ((r, msg), vf_hw (with_mbx m) ad))"

definition vf_check :: "('h ixgbe_hw \<Rightarrow> int \<times> 'h ixgbe_hw) \<Rightarrow> ('h, 'z) vf_adapter_scheme \<Rightarrow> int \<times> ('h, 'z) vf_adapter_scheme" where
  "vf_check f ad = (case f (mbx_view (mt_hw ad)) of (r, m) \<Rightarrow> (r, vf_hw (with_mbx m) ad))"

section \<open>Multicast\<close>

text \<open>The loop that sets the bits of the hashes of one virtual function in the multicast table.\<close>

definition set_vf_hashes :: "'h device \<Rightarrow> u16 list \<Rightarrow> 'h flt_hw \<Rightarrow> 'h flt_hw" where
  "set_vf_hashes R = fold (\<lambda>h hw.
     rmw R (IXGBE_MTA (unat (drop_bit 5 h AND 0x7F))) (\<lambda>r. r OR bit_of (ucast (h AND 0x1F)))
       (upd_ctrl (\<lambda>c. c\<lparr>mta_in_use := mta_in_use c + 1\<rparr>) hw))"

definition vf_hashes :: "vf_data_storage \<Rightarrow> fault + u16 list" where
  "vf_hashes v =
     (if unat (num_vf_mc_hashes v) \<le> length (vf_mc_hashes v) then Inr (take (unat (num_vf_mc_hashes v)) (vf_mc_hashes v))
      else Inl OutOfBounds)"

text \<open>The words after the first, as an array of half words.\<close>

definition half_words :: "u32 list \<Rightarrow> u16 list" where
  "half_words ws = concat (map (\<lambda>w. [ucast w, ucast (drop_bit 16 w)]) ws)"

definition msg_info :: "u32 list \<Rightarrow> u32" where
  "msg_info msg = drop_bit 16 (msg ! 0 AND IXGBE_VT_MSGINFO_MASK)"

definition ixgbe_set_vf_multicasts :: "'h device \<Rightarrow> u32 list \<Rightarrow> nat \<Rightarrow> ('h, 'z) vf_adapter_scheme \<Rightarrow> fault + int \<times> ('h, 'z) vf_adapter_scheme" where
  "ixgbe_set_vf_multicasts R msg vf ad =
     rbind (vf_info vf ad) (\<lambda>v.
     case IXGBE_READ_REG R (IXGBE_VMOLR vf) (mt_hw ad) of (vmolr, hw1) \<Rightarrow>
     let entries = min (unat (msg_info msg)) IXGBE_MAX_VF_MC_ENTRIES; hash_list = half_words (tl msg) in
     if length hash_list < entries \<or> length (vf_mc_hashes v) < entries then Inl OutOfBounds
     else
       (let v' = v\<lparr>num_vf_mc_hashes := of_nat entries, vf_mc_hashes := take entries hash_list @ drop entries (vf_mc_hashes v)\<rparr>;
            hw2 = set_vf_hashes R (take entries hash_list) hw1;
            hw3 = IXGBE_WRITE_REG R (IXGBE_VMOLR vf) (vmolr OR IXGBE_VMOLR_ROMPE) hw2
        in Inr (0, (put_vf vf v' ad)\<lparr>mt_hw := snd (ixgbe_enable_mc_generic R hw3)\<rparr>)))"

definition restore_vf :: "'h device \<Rightarrow> nat \<Rightarrow> ('h, 'z) vf_adapter_scheme \<Rightarrow> fault + ('h, 'z) vf_adapter_scheme" where
  "restore_vf R i ad =
     (case IXGBE_READ_REG R (IXGBE_VMOLR i) (mt_hw ad) of (vmolr, hw1) \<Rightarrow>
      rbind (vf_info i ad) (\<lambda>v. rbind (vf_hashes v) (\<lambda>hs.
      let hw2 = set_vf_hashes R hs hw1;
          vmolr' = (if num_vf_mc_hashes v \<noteq> 0 then vmolr OR IXGBE_VMOLR_ROMPE else vmolr AND NOT IXGBE_VMOLR_ROMPE)
      in Inr (ad\<lparr>mt_hw := IXGBE_WRITE_REG R (IXGBE_VMOLR i) vmolr' hw2\<rparr>))))"

definition ixgbe_restore_vf_multicasts :: "'h device \<Rightarrow> ('h, 'z) vf_adapter_scheme \<Rightarrow> fault + ('h, 'z) vf_adapter_scheme" where
  "ixgbe_restore_vf_multicasts R ad =
     rbind (fold (\<lambda>i r. rbind r (restore_vf R i)) [0..<unat (num_vfs ad)] (Inr ad)) (ixgbe_full_sync_mac_table R)"

section \<open>Receive mode\<close>

text \<open>\<open>mac.ops.update_mc_addr_list\<close> is the generic function for every mac type of a physical function.\<close>

definition ixgbe_write_mc_addr_list :: "'h device \<Rightarrow> ('h, 'z) vf_adapter_scheme \<Rightarrow> fault + int \<times> ('h, 'z) vf_adapter_scheme" where
  "ixgbe_write_mc_addr_list R ad =
     (if \<not> dev_running ad then Inr (0, ad)
      else rbind (ixgbe_restore_vf_multicasts R (vf_hw (\<lambda>hw. snd (ixgbe_update_mc_addr_list_generic R (mc_list ad) True hw)) ad))
             (\<lambda>ad1. Inr (int (length (mc_list ad)), ad1)))"

definition ixgbe_wfs_set_rx_mode :: "'h device \<Rightarrow> ('h, 'z) vf_adapter_scheme \<Rightarrow> fault + ('h, 'z) vf_adapter_scheme" where
  "ixgbe_wfs_set_rx_mode R ad =
     (case IXGBE_READ_REG R IXGBE_FCTRL (mt_hw ad) of (fctrl, hw1) \<Rightarrow>
      case IXGBE_READ_REG R IXGBE_VLNCTRL hw1 of (vlnctrl, hw2) \<Rightarrow>
      let fctrl1 = (((fctrl OR IXGBE_FCTRL_BAM) OR IXGBE_FCTRL_DPF) OR IXGBE_FCTRL_PMCF) AND NOT (IXGBE_FCTRL_UPE OR IXGBE_FCTRL_MPE);
          vlnctrl1 = vlnctrl AND NOT (IXGBE_VLNCTRL_VFE OR IXGBE_VLNCTRL_CFIEN);
          vmolr = IXGBE_VMOLR_BAM OR IXGBE_VMOLR_AUPE;
          flags = netdev_flags ad OR IFF_PROMISC;
          promisc = flags AND IFF_PROMISC \<noteq> 0;
          allmulti = flags AND IFF_ALLMULTI \<noteq> 0;
          fctrl2 = (if promisc then fctrl1 OR (IXGBE_FCTRL_UPE OR IXGBE_FCTRL_MPE) else if allmulti then fctrl1 OR IXGBE_FCTRL_MPE else fctrl1);
          vmolr1 = (if promisc \<or> allmulti then vmolr OR IXGBE_VMOLR_MPE else vmolr);
          vlnctrl2 = (if promisc then vlnctrl1 else vlnctrl1 OR IXGBE_VLNCTRL_VFE);
          ad1 = ad\<lparr>netdev_flags := flags, mt_hw := upd_ctrl (\<lambda>c. c\<lparr>user_set_promisc := promisc\<rparr>) hw2\<rparr>
      in rbind (ixgbe_write_mc_addr_list R ad1) (\<lambda>(cnt, ad2).
         let fctrl3 = (if cnt < 0 then fctrl2 OR IXGBE_FCTRL_MPE else fctrl2);
             vmolr2 = (if cnt < 0 then vmolr1 OR IXGBE_VMOLR_MPE else if cnt \<noteq> 0 then vmolr1 OR IXGBE_VMOLR_ROMPE else vmolr1);
             pf = IXGBE_VMOLR (unat (vf_pool_p 0 ad2));
             hw3 = (if mac_type (mt_hw ad2) \<noteq> ixgbe_mac_82598EB
                    then rmw R pf (\<lambda>r. vmolr2 OR (r AND NOT ((IXGBE_VMOLR_MPE OR IXGBE_VMOLR_ROMPE) OR IXGBE_VMOLR_ROPE))) (mt_hw ad2)
                    else mt_hw ad2)
         in Inr (ad2\<lparr>mt_hw := IXGBE_WRITE_REG R IXGBE_FCTRL fctrl3 (IXGBE_WRITE_REG R IXGBE_VLNCTRL vlnctrl2 hw3)\<rparr>)))"

fun ixgbe_set_rx_mode :: "'h device \<Rightarrow> ('h, 'z) vf_adapter_scheme list \<Rightarrow> fault + ('h, 'z) vf_adapter_scheme list" where
  "ixgbe_set_rx_mode R [] = Inr []"
| "ixgbe_set_rx_mode R (ad # ads) = rbind (ixgbe_wfs_set_rx_mode R ad) (\<lambda>ad1. rbind (ixgbe_set_rx_mode R ads) (\<lambda>ads1. Inr (ad1 # ads1)))"

section \<open>Configuration of a virtual function\<close>

definition ixgbe_set_vf_vlan :: "'h device \<Rightarrow> bool \<Rightarrow> u32 \<Rightarrow> u32 \<Rightarrow> ('h, 'z) vf_adapter_scheme \<Rightarrow> int \<times> ('h, 'z) vf_adapter_scheme" where
  "ixgbe_set_vf_vlan R add vid vf ad =
     (if vid = 0 \<and> \<not> add then (0, ad)
      else case (if mac_type (mt_hw ad) = ixgbe_mac_82598EB then ixgbe_set_vfta_82598 R vid vf add (mt_hw ad)
                 else ixgbe_set_vfta_generic R vid vf add (mt_hw ad)) of (r, hw) \<Rightarrow> (r, ad\<lparr>mt_hw := hw\<rparr>))"

text \<open>The largest frame of the physical function, with the room the ring keeps for its header.\<close>

definition pf_max_frame :: "('h, 'z) vf_adapter_scheme \<Rightarrow> int" where
  "pf_max_frame ad =
     (let n = sint ((netdev_mtu ad + 14) + WFSPKT_HEADROOM) in if fcoe_mtu ad then max n 3072 else n)"

definition vf_shift_bit :: "nat \<Rightarrow> u32" where
  "vf_shift_bit vf = push_bit (vf mod 32) 1"

text \<open>The last part of \<open>ixgbe_set_vf_lpe\<close>: the largest frame of the port is raised when it is too small.\<close>

definition raise_max_frame :: "'h device \<Rightarrow> u32 \<Rightarrow> ('h, 'z) vf_adapter_scheme \<Rightarrow> int \<times> ('h, 'z) vf_adapter_scheme" where
  "raise_max_frame R max_frame ad =
     (case IXGBE_READ_REG R IXGBE_MAXFRS (mt_hw ad) of (r, hw1) \<Rightarrow>
        (0, ad\<lparr>mt_hw := (if drop_bit 16 (r AND IXGBE_MHADD_MFS_MASK) < max_frame
                        then IXGBE_WRITE_REG R IXGBE_MAXFRS (push_bit 16 max_frame) hw1 else hw1)\<rparr>))"

text \<open>\<open>old_esx\<close>: the product version is before ESX 5.5.\<close>

definition ixgbe_set_vf_lpe :: "'h device \<Rightarrow> bool \<Rightarrow> u32 \<Rightarrow> nat \<Rightarrow> ('h, 'z) vf_adapter_scheme \<Rightarrow> fault + int \<times> ('h, 'z) vf_adapter_scheme" where
  "ixgbe_set_vf_lpe R old_esx max_frame vf ad =
     (if mac_type (mt_hw ad) = ixgbe_mac_82599EB then
        (if old_esx then Inr (- EINVAL, ad)
         else rbind (vf_info vf ad) (\<lambda>v.
           let jumbo = pf_max_frame ad > ETH_FRAME_LEN;
               err = (if vf_api v = ixgbe_mbox_api_11 \<and> jumbo then 0
                      else if jumbo \<or> max_frame > 1518 then - EINVAL else 0);
               ad1 = vf_hw (rmw R (IXGBE_VFRE (vf div 32))
                       (\<lambda>r. if err \<noteq> 0 then r AND NOT (vf_shift_bit vf) else r OR vf_shift_bit vf)) ad
           in if err \<noteq> 0 then Inr (err, ad1) else Inr (raise_max_frame R max_frame ad1)))
      else Inr (raise_max_frame R max_frame ad))"

definition ixgbe_set_vmolr :: "'h device \<Rightarrow> nat \<Rightarrow> bool \<Rightarrow> ('h, 'z) ixgbe_hw_scheme \<Rightarrow> ('h, 'z) ixgbe_hw_scheme" where
  "ixgbe_set_vmolr R vf aupe =
     rmw R (IXGBE_VMOLR vf) (\<lambda>r. if aupe then (r OR IXGBE_VMOLR_BAM) OR IXGBE_VMOLR_AUPE else (r OR IXGBE_VMOLR_BAM) AND NOT IXGBE_VMOLR_AUPE)"

text \<open>\<open>qos << VLAN_PRIO_SHIFT\<close> is an \<open>int\<close>, so bits beyond 16 are kept.\<close>

definition ixgbe_set_vmvir :: "'h device \<Rightarrow> u16 \<Rightarrow> u16 \<Rightarrow> nat \<Rightarrow> ('h, 'z) ixgbe_hw_scheme \<Rightarrow> ('h, 'z) ixgbe_hw_scheme" where
  "ixgbe_set_vmvir R vid qos vf =
     IXGBE_WRITE_REG R (IXGBE_VMVIR vf) ((ucast vid OR push_bit 13 (ucast qos)) OR IXGBE_VMVIR_VLANA_DEFAULT)"

definition ixgbe_clear_vmvir :: "'h device \<Rightarrow> nat \<Rightarrow> ('h, 'z) ixgbe_hw_scheme \<Rightarrow> ('h, 'z) ixgbe_hw_scheme" where
  "ixgbe_clear_vmvir R vf = IXGBE_WRITE_REG R (IXGBE_VMVIR vf) 0"

text \<open>The parts of \<open>ixgbe_vf_reset_event\<close> before and after the receive mode is set again.\<close>

definition reset_offloads :: "'h device \<Rightarrow> nat \<Rightarrow> ('h, 'z) vf_adapter_scheme \<Rightarrow> fault + ('h, 'z) vf_adapter_scheme" where
  "reset_offloads R vf ad =
     rbind (vf_info vf ad) (\<lambda>v.
     let tcs = netdev_get_num_tc ad;
         ad1 = snd (ixgbe_set_vf_vlan R True (ucast (pf_vlan v)) (of_nat vf) ad);
         ad2 = vf_hw (ixgbe_set_vmolr R vf (pf_vlan v = 0)) ad1;
         ad3 = (if pf_vlan v = 0 \<and> pf_qos v = 0 \<and> tcs = 0 then vf_hw (ixgbe_clear_vmvir R vf) ad2
                else
                  let ad' = vf_hw (ixgbe_set_vmvir R (pf_vlan v) (if pf_qos v \<noteq> 0 \<or> tcs = 0 then pf_qos v else ucast (default_up ad2)) vf) ad2
                  in if spoofchk_enabled v then vf_hw (ixgbe_set_vlan_anti_spoofing R True vf) ad' else ad')
     in Inr (put_vf vf (v\<lparr>num_vf_mc_hashes := 0\<rparr>) ad3))"

definition reset_filters :: "'h device \<Rightarrow> nat \<Rightarrow> ('h, 'z) vf_adapter_scheme \<Rightarrow> fault + ('h, 'z) vf_adapter_scheme" where
  "reset_filters R vf ad =
     rbind (vf_info vf ad) (\<lambda>v.
     rbind (ixgbe_del_mac_filter R (vf_mac_addresses v) (of_nat vf) ad) (\<lambda>(_, ad1).
     Inr (put_vf vf (v\<lparr>vf_api := ixgbe_mbox_api_10\<rparr>) ad1)))"

definition ixgbe_vf_reset_event :: "'h device \<Rightarrow> nat \<Rightarrow> nat \<Rightarrow> 'h vf_ring \<Rightarrow> fault + 'h vf_ring" where
  "ixgbe_vf_reset_event R k vf ring =
     rbind (on_adapter k (\<lambda>ad. rbind (reset_offloads R vf ad) (\<lambda>ad1. Inr ((), ad1))) ring) (\<lambda>(_, ring1).
     rbind (ixgbe_set_rx_mode R ring1) (\<lambda>ring2.
     rbind (on_adapter k (\<lambda>ad. rbind (reset_filters R vf ad) (\<lambda>ad1. Inr ((), ad1))) ring2) (\<lambda>(_, ring3). Inr ring3)))"

text \<open>\<open>ixgbe_set_vf_mac\<close> with the address remembered for the virtual function.\<close>

definition set_vf_mac :: "'h device \<Rightarrow> nat \<Rightarrow> u8 list \<Rightarrow> ('h, 'z) vf_adapter_scheme \<Rightarrow> fault + int \<times> ('h, 'z) vf_adapter_scheme" where
  "set_vf_mac R vf addr ad =
     rbind (vf_info vf ad) (\<lambda>v.
     rbind (ixgbe_set_vf_mac R (of_nat vf) (vf_mac_addresses v) addr ad) (\<lambda>(r, addr', ad1).
     Inr (r, put_vf vf (v\<lparr>vf_mac_addresses := addr'\<rparr>) ad1)))"

definition ixgbe_negotiate_vf_api :: "u32 list \<Rightarrow> nat \<Rightarrow> ('h, 'z) vf_adapter_scheme \<Rightarrow> fault + int \<times> ('h, 'z) vf_adapter_scheme" where
  "ixgbe_negotiate_vf_api msg vf ad =
     (if msg ! 1 = ixgbe_mbox_api_10 \<or> msg ! 1 = ixgbe_mbox_api_11
      then rbind (vf_info vf ad) (\<lambda>v. Inr (0, put_vf vf (v\<lparr>vf_api := msg ! 1\<rparr>) ad)) else Inr (- 1, ad))"

definition ixgbe_get_vf_queues :: "u32 list \<Rightarrow> nat \<Rightarrow> ('h, 'z) vf_adapter_scheme \<Rightarrow> fault + int \<times> u32 list" where
  "ixgbe_get_vf_queues msg vf ad =
     rbind (vf_info vf ad) (\<lambda>v.
     if vf_api v \<noteq> ixgbe_mbox_api_20 \<and> vf_api v \<noteq> ixgbe_mbox_api_11 then Inr (- 1, msg)
     else
       let tcs = netdev_get_num_tc ad in
       rbind (if tcs > 1 then netdev_get_prio_tc_map ad (default_up ad) else Inr 0) (\<lambda>default_tc.
       Inr (0, msg[1 := q_per_pool ad, 2 := q_per_pool ad,
                   3 := (if tcs \<noteq> 0 then ucast tcs else if pf_vlan v \<noteq> 0 \<or> pf_qos v \<noteq> 0 then 1 else 0),
                   4 := ucast default_tc])))"

section \<open>Addresses of virtual functions\<close>

definition hash_long :: "u64 \<Rightarrow> nat \<Rightarrow> u64" where
  "hash_long val b =
     (let n1 = push_bit 18 val; h1 = val - n1;
          n2 = push_bit 33 n1; h2 = h1 - n2;
          n3 = push_bit 3 n2; h3 = h2 + n3;
          n4 = push_bit 3 n3; h4 = h3 - n4;
          n5 = push_bit 4 n4; h5 = h4 + n5;
          n6 = push_bit 2 n5; h6 = h5 + n6
      in drop_bit (64 - b) h6)"

text \<open>Eight bytes of memory read as a little endian number.\<close>

definition load_long :: "u8 list \<Rightarrow> u64" where
  "load_long bs = fold (\<lambda>i w. w OR push_bit (8 * i) (ucast (bs ! i))) [0..<8] 0"

definition vf_default_mac :: "nat \<Rightarrow> u8 list \<Rightarrow> u8 list" where
  "vf_default_mac vfn a =
     (let addr = ucast (hash_long (load_long (drop 2 a)) 16 + ucast (a ! 5)) :: u32
      in take 3 a @ [ucast (drop_bit 8 addr), ucast addr, of_nat vfn])"

definition ixgbe_vf_configuration :: "u32 \<Rightarrow> ('h, 'z) vf_adapter_scheme \<Rightarrow> fault + ('h, 'z) vf_adapter_scheme" where
  "ixgbe_vf_configuration event_mask ad =
     (let vfn = unat (event_mask AND 0x3F) in
      if event_mask AND 0x10000000 \<noteq> 0
      then (if length (dev_addr ad) < 10 then Inl OutOfBounds
            else rbind (vf_info vfn ad) (\<lambda>v. Inr (put_vf vfn (v\<lparr>vf_mac_addresses := vf_default_mac vfn (dev_addr ad)\<rparr>) ad)))
      else Inr ad)"

section \<open>Requests\<close>

definition msg_mac :: "u32 list \<Rightarrow> u8 list" where
  "msg_mac msg = map (\<lambda>i. ucast (drop_bit (8 * i) (msg ! 1))) [0..<4] @ map (\<lambda>i. ucast (drop_bit (8 * i) (msg ! 2))) [0..<2]"

definition is_valid_ether_addr :: "u8 list \<Rightarrow> bool" where
  "is_valid_ether_addr a \<longleftrightarrow> 1 AND a ! 0 = 0 \<and> \<not> is_zero_ether_addr a"

definition ixgbe_set_vf_mac_addr :: "'h device \<Rightarrow> u32 list \<Rightarrow> nat \<Rightarrow> ('h, 'z) vf_adapter_scheme \<Rightarrow> fault + int \<times> ('h, 'z) vf_adapter_scheme" where
  "ixgbe_set_vf_mac_addr R msg vf ad =
     (if \<not> is_valid_ether_addr (msg_mac msg) then Inr (- 1, ad)
      else rbind (vf_info vf ad) (\<lambda>v.
        if pf_set_mac v \<and> compare_ether_addr (vf_mac_addresses v) (msg_mac msg) then Inr (- 1, ad)
        else rbind (set_vf_mac R vf (msg_mac msg) ad) (\<lambda>(r, ad1). Inr (if r < 0 then 1 else 0, ad1))))"

fun find_vlvf_from :: "'h device \<Rightarrow> u32 \<Rightarrow> nat \<Rightarrow> nat \<Rightarrow> ('h, 'z) ixgbe_hw_scheme \<Rightarrow> int \<times> ('h, 'z) ixgbe_hw_scheme" where
  "find_vlvf_from R vlan 0 i hw = (- 1, hw)"
| "find_vlvf_from R vlan (Suc n) i hw =
     (case IXGBE_READ_REG R (IXGBE_VLVF i) hw of (vlvf, hw1) \<Rightarrow>
        if vlvf AND 0xFFF = vlan then (int i, hw1) else find_vlvf_from R vlan n (Suc i) hw1)"

definition ixgbe_find_vlvf_entry :: "'h device \<Rightarrow> u32 \<Rightarrow> ('h, 'z) ixgbe_hw_scheme \<Rightarrow> int \<times> ('h, 'z) ixgbe_hw_scheme" where
  "ixgbe_find_vlvf_entry R vlan hw = (if vlan = 0 then (0, hw) else find_vlvf_from R vlan (IXGBE_VLVF_ENTRIES - 1) 1 hw)"

text \<open>
  The pools of an entry other than the pool \<open>p\<close> of the physical function, as the code reads them: the second
  register is taken at the address of the first plus one.
\<close>

definition other_pools :: "'h device \<Rightarrow> nat \<Rightarrow> u32 \<Rightarrow> ('h, 'z) ixgbe_hw_scheme \<Rightarrow> u32 \<times> ('h, 'z) ixgbe_hw_scheme" where
  "other_pools R i p hw =
     (if p < 32 then
        (case IXGBE_READ_REG R (IXGBE_VLVFB (i * 2)) hw of (a, hw1) \<Rightarrow>
         case IXGBE_READ_REG R (IXGBE_VLVFB (i * 2) + 1) hw1 of (b, hw2) \<Rightarrow> ((a AND NOT (bit_of p)) OR b, hw2))
      else
        (case IXGBE_READ_REG R (IXGBE_VLVFB (i * 2) + 1) hw of (a, hw1) \<Rightarrow>
         case IXGBE_READ_REG R (IXGBE_VLVFB (i * 2)) hw1 of (b, hw2) \<Rightarrow> ((a AND NOT (bit_of (p - 32))) OR b, hw2)))"

text \<open>The last part of \<open>ixgbe_set_vf_vlan_msg\<close>: the pool of the physical function leaves the VLAN with the last other one.\<close>

definition drop_pf_pool :: "'h device \<Rightarrow> u32 \<Rightarrow> ('h, 'z) vf_adapter_scheme \<Rightarrow> ('h, 'z) vf_adapter_scheme" where
  "drop_pf_pool R vid ad =
     (case ixgbe_find_vlvf_entry R vid (mt_hw ad) of (i, hw1) \<Rightarrow>
      if i < 0 then ad\<lparr>mt_hw := hw1\<rparr>
      else case IXGBE_READ_REG R (IXGBE_VLVF (nat i)) hw1 of (vlvf, hw2) \<Rightarrow>
           case other_pools R (nat i) (vf_pool_p 0 ad) hw2 of (bits, hw3) \<Rightarrow>
           let ad1 = ad\<lparr>mt_hw := hw3\<rparr>
           in if vlvf AND 0xFFF = vid \<and> bits = 0 then snd (ixgbe_set_vf_vlan R False vid (vf_pool_p 0 ad1) ad1) else ad1)"

definition ixgbe_set_vf_vlan_msg :: "'h device \<Rightarrow> u32 list \<Rightarrow> nat \<Rightarrow> ('h, 'z) vf_adapter_scheme \<Rightarrow> fault + int \<times> ('h, 'z) vf_adapter_scheme" where
  "ixgbe_set_vf_vlan_msg R msg vf ad =
     rbind (vf_info vf ad) (\<lambda>v.
     let add = msg_info msg \<noteq> 0; vid = msg ! 1 AND 0xFFF; promisc = netdev_flags ad AND IFF_PROMISC \<noteq> 0
     in if pf_vlan v \<noteq> 0 \<or> netdev_get_num_tc ad \<noteq> 0 then Inr (- 1, ad)
        else
          let n = (if add then vlan_count v + 1 else if vlan_count v \<noteq> 0 then vlan_count v - 1 else vlan_count v);
              ad1 = put_vf vf (v\<lparr>vlan_count := n\<rparr>) ad;
              ad2 = (if add \<and> promisc then snd (ixgbe_set_vf_vlan R add vid (vf_pool_p 0 ad1) ad1) else ad1)
          in case ixgbe_set_vf_vlan R add vid (of_nat vf) ad2 of (err, ad3) \<Rightarrow>
             let ad4 = (if err = 0 \<and> spoofchk_enabled v then vf_hw (ixgbe_set_vlan_anti_spoofing R True vf) ad3 else ad3)
             in Inr (err, if \<not> add \<and> promisc then drop_pf_pool R vid ad4 else ad4))"

text \<open>
  The switch of \<open>ixgbe_rcv_msg_from_vf\<close>: the status, the message to answer with, if any, and the adapter.
\<close>

definition vf_request ::
  "'h device \<Rightarrow> bool \<Rightarrow> u32 list \<Rightarrow> nat \<Rightarrow> ('h, 'z) vf_adapter_scheme \<Rightarrow> fault + (int \<times> u32 list option) \<times> ('h, 'z) vf_adapter_scheme" where
  "vf_request R old_esx msg vf ad =
     (let request = msg ! 0 AND 0xFFFF; answer = (\<lambda>(r, ad1). Inr ((r, Some msg), ad1))
      in if request = IXGBE_VF_SET_MAC_ADDR then rbind (ixgbe_set_vf_mac_addr R msg vf ad) answer
         else if request = IXGBE_VF_SET_MULTICAST then rbind (ixgbe_set_vf_multicasts R msg vf ad) answer
         else if request = IXGBE_VF_SET_VLAN then rbind (ixgbe_set_vf_vlan_msg R msg vf ad) answer
         else if request = IXGBE_VF_SET_LPE then
           (if msg ! 1 > IXGBE_MAX_JUMBO_FRAME_SIZE then Inr ((- EINVAL, None), ad)
            else rbind (ixgbe_set_vf_lpe R old_esx (msg ! 1) vf ad) answer)
         else if request = IXGBE_VF_SET_MACVLAN then Inr ((- 1, Some msg), ad)
         else if request = IXGBE_VF_API_NEGOTIATE then rbind (ixgbe_negotiate_vf_api msg vf ad) answer
         else if request = IXGBE_VF_GET_QUEUES then rbind (ixgbe_get_vf_queues msg vf ad) (\<lambda>(r, msg1). Inr ((r, Some msg1), ad))
         else Inr ((IXGBE_ERR_MBX, Some msg), ad))"

definition reply_to :: "int \<Rightarrow> u32 list \<Rightarrow> u32 list" where
  "reply_to r msg = msg[0 := (msg ! 0 OR (if r \<noteq> 0 then IXGBE_VT_MSGTYPE_NACK else IXGBE_VT_MSGTYPE_ACK)) OR IXGBE_VT_MSGTYPE_CTS]"

text \<open>A message other than a reset: refused until the virtual function has been reset, else served and answered.\<close>

definition vf_serve :: "'h device \<Rightarrow> bool \<Rightarrow> u32 list \<Rightarrow> nat \<Rightarrow> ('h, 'z) vf_adapter_scheme \<Rightarrow> fault + int \<times> ('h, 'z) vf_adapter_scheme" where
  "vf_serve R old_esx msg vf ad =
     rbind (vf_info vf ad) (\<lambda>v.
     if \<not> clear_to_send v
     then rbind (vf_write_mbx R (msg[0 := msg ! 0 OR IXGBE_VT_MSGTYPE_NACK]) 1 vf ad) (\<lambda>(_, ad1). Inr (0, ad1))
     else rbind (vf_request R old_esx msg vf ad) (\<lambda>((r, reply), ad1).
       case reply of None \<Rightarrow> Inr (r, ad1)
       | Some msg1 \<Rightarrow> rbind (vf_write_mbx R (reply_to r msg1) IXGBE_VFMAILBOX_SIZE vf ad1) (\<lambda>(_, ad2). Inr (r, ad2))))"

section \<open>Reset of a virtual function\<close>

definition drop_enable :: "'h device \<Rightarrow> nat \<Rightarrow> u32 \<Rightarrow> 'h flt_hw \<Rightarrow> 'h flt_hw" where
  "drop_enable R vf q =
     fold (\<lambda>i hw. IXGBE_WRITE_REG R IXGBE_QDE ((IXGBE_QDE_WRITE OR IXGBE_QDE_ENABLE) OR push_bit 8 (of_nat i)) (IXGBE_WRITE_FLUSH R hw))
       [unat (of_nat vf * q)..<unat ((of_nat vf + 1) * q)]"

definition clear_write_back :: "'h device \<Rightarrow> nat \<Rightarrow> u32 \<Rightarrow> 'h flt_hw \<Rightarrow> 'h flt_hw" where
  "clear_write_back R vf q =
     for_regs (unat q) (\<lambda>i hw. IXGBE_WRITE_REG R (IXGBE_PVFTDWBAL (unat (q * of_nat vf + of_nat i))) 0
       (IXGBE_WRITE_REG R (IXGBE_PVFTDWBAH (unat (q * of_nat vf + of_nat i))) 0 hw))"

definition enable_vf_queues :: "'h device \<Rightarrow> nat \<Rightarrow> ('h, 'z) vf_adapter_scheme \<Rightarrow> ('h, 'z) vf_adapter_scheme" where
  "enable_vf_queues R vf ad =
     (let r = vf div 32; b = vf_shift_bit vf;
          receive = \<not> (mac_type (mt_hw ad) = ixgbe_mac_82599EB \<and> pf_max_frame ad > ETH_FRAME_LEN)
      in vf_hw (\<lambda>hw. rmw R (IXGBE_VFRE r) (\<lambda>v. if receive then v OR b else (v OR b) AND NOT b)
                 (drop_enable R vf (q_per_pool ad) (rmw R (IXGBE_VFTE r) (\<lambda>v. v OR b) hw))) ad)"

text \<open>What the virtual function is told after a reset: its address, if it has one, and the kind of multicast filter.\<close>

definition reset_reply :: "u8 list \<Rightarrow> int \<Rightarrow> u32 list" where
  "reset_reply vf_mac filter_type =
     (if is_zero_ether_addr vf_mac then [IXGBE_VF_RESET OR IXGBE_VT_MSGTYPE_NACK, 0, 0, of_int filter_type]
      else [IXGBE_VF_RESET OR IXGBE_VT_MSGTYPE_ACK, addr_low vf_mac, addr_high vf_mac, of_int filter_type])"

text \<open>\<open>ixgbe_vf_reset_msg\<close> after the reset event.\<close>

definition vf_reset_answer :: "'h device \<Rightarrow> nat \<Rightarrow> ('h, 'z) vf_adapter_scheme \<Rightarrow> fault + int \<times> ('h, 'z) vf_adapter_scheme" where
  "vf_reset_answer R vf ad =
     rbind (vf_info vf ad) (\<lambda>v.
     rbind (if is_zero_ether_addr (vf_mac_addresses v) then Inr (0, ad) else set_vf_mac R vf (vf_mac_addresses v) ad) (\<lambda>(_, ad1).
     rbind (vf_info vf ad1) (\<lambda>v1.
     let ad2 = put_vf vf (v1\<lparr>clear_to_send := True\<rparr>) (enable_vf_queues R vf ad1);
         ad3 = vf_hw (\<lambda>hw. clear_write_back R vf (q_per_pool ad2) (rmw R (IXGBE_VMECM (vf div 32)) (\<lambda>r. r OR vf_shift_bit vf) hw)) ad2
     in rbind (vf_write_mbx R (reset_reply (vf_mac_addresses v1) (mc_filter_type (mt_hw ad3))) IXGBE_VF_PERMADDR_MSG_LEN vf ad3)
          (\<lambda>(_, ad4). Inr (0, ad4)))))"

definition ixgbe_vf_reset_msg :: "'h device \<Rightarrow> nat \<Rightarrow> nat \<Rightarrow> 'h vf_ring \<Rightarrow> fault + int \<times> 'h vf_ring" where
  "ixgbe_vf_reset_msg R k vf ring = rbind (ixgbe_vf_reset_event R k vf ring) (on_adapter k (vf_reset_answer R vf))"

section \<open>The mailbox task\<close>

text \<open>\<open>stk\<close> is what the buffer on the stack holds before the message is read.\<close>

definition ixgbe_rcv_msg_from_vf :: "'h device \<Rightarrow> bool \<Rightarrow> u32 list \<Rightarrow> nat \<Rightarrow> nat \<Rightarrow> 'h vf_ring \<Rightarrow> fault + int \<times> 'h vf_ring" where
  "ixgbe_rcv_msg_from_vf R old_esx stk k vf ring =
     rbind (on_adapter k (vf_read_mbx R stk IXGBE_VFMAILBOX_SIZE vf) ring) (\<lambda>((r, msg), ring1).
     if r \<noteq> 0 then Inr (r, ring1)
     else if msg ! 0 AND (IXGBE_VT_MSGTYPE_ACK OR IXGBE_VT_MSGTYPE_NACK) \<noteq> 0 then Inr (r, ring1)
     else rbind (on_adapter k (\<lambda>ad. Inr ((), vf_hw (IXGBE_WRITE_FLUSH R) ad)) ring1) (\<lambda>(_, ring2).
       if msg ! 0 = IXGBE_VF_RESET then ixgbe_vf_reset_msg R k vf ring2
       else on_adapter k (vf_serve R old_esx msg vf) ring2))"

definition ixgbe_rcv_ack_from_vf :: "'h device \<Rightarrow> nat \<Rightarrow> ('h, 'z) vf_adapter_scheme \<Rightarrow> fault + int \<times> ('h, 'z) vf_adapter_scheme" where
  "ixgbe_rcv_ack_from_vf R vf ad =
     rbind (vf_info vf ad) (\<lambda>v. if clear_to_send v then Inr (0, ad) else vf_write_mbx R [IXGBE_VT_MSGTYPE_NACK] 1 vf ad)"

text \<open>The three parts of the loop body of \<open>ixgbe_msg_task\<close>: reset requests, messages, acknowledgements.\<close>

definition when_shown ::
  "('h ixgbe_hw \<Rightarrow> int \<times> 'h ixgbe_hw) \<Rightarrow> ('h vf_ring \<Rightarrow> fault + 'h vf_ring) \<Rightarrow> nat \<Rightarrow> 'h vf_ring \<Rightarrow> fault + 'h vf_ring" where
  "when_shown check f k ring =
     rbind (on_adapter k (\<lambda>ad. Inr (vf_check check ad)) ring) (\<lambda>(r, ring1). if r = 0 then f ring1 else Inr ring1)"

definition msg_task_step :: "'h device \<Rightarrow> bool \<Rightarrow> (nat \<Rightarrow> u32 list) \<Rightarrow> nat \<Rightarrow> nat \<Rightarrow> 'h vf_ring \<Rightarrow> fault + 'h vf_ring" where
  "msg_task_step R old_esx stk k vf ring =
     rbind (when_shown (ixgbe_check_for_rst R (of_nat vf)) (ixgbe_vf_reset_event R k vf) k ring) (\<lambda>ring1.
     rbind (when_shown (ixgbe_check_for_msg R (of_nat vf)) (\<lambda>ring. rbind (ixgbe_rcv_msg_from_vf R old_esx (stk vf) k vf ring) (\<lambda>(_, ring). Inr ring)) k ring1) (\<lambda>ring2.
     when_shown (ixgbe_check_for_ack R (of_nat vf)) (\<lambda>ring. rbind (on_adapter k (ixgbe_rcv_ack_from_vf R vf) ring) (\<lambda>(_, ring). Inr ring)) k ring2))"

definition ixgbe_msg_task :: "'h device \<Rightarrow> bool \<Rightarrow> (nat \<Rightarrow> u32 list) \<Rightarrow> nat \<Rightarrow> 'h vf_ring \<Rightarrow> fault + 'h vf_ring" where
  "ixgbe_msg_task R old_esx stk k ring =
     rbind (on_adapter k (\<lambda>ad. Inr (unat (num_vfs ad), ad)) ring) (\<lambda>(n, ring1).
     fold (\<lambda>vf r. rbind r (msg_task_step R old_esx stk k vf)) [0..<n] (Inr ring1))"

definition ixgbe_disable_tx_rx :: "'h device \<Rightarrow> ('h, 'z) vf_adapter_scheme \<Rightarrow> ('h, 'z) vf_adapter_scheme" where
  "ixgbe_disable_tx_rx R =
     vf_hw (\<lambda>hw. IXGBE_WRITE_REG R (IXGBE_VFRE 1) 0 (IXGBE_WRITE_REG R (IXGBE_VFRE 0) 0
       (IXGBE_WRITE_REG R (IXGBE_VFTE 1) 0 (IXGBE_WRITE_REG R (IXGBE_VFTE 0) 0 hw))))"

definition ping_vf :: "'h device \<Rightarrow> nat \<Rightarrow> ('h, 'z) vf_adapter_scheme \<Rightarrow> fault + ('h, 'z) vf_adapter_scheme" where
  "ping_vf R i ad =
     rbind (vf_info i ad) (\<lambda>v.
     rbind (vf_write_mbx R [if clear_to_send v then IXGBE_PF_CONTROL_MSG OR IXGBE_VT_MSGTYPE_CTS else IXGBE_PF_CONTROL_MSG] 1 i ad)
       (\<lambda>(_, ad1). Inr ad1))"

definition ixgbe_ping_all_vfs :: "'h device \<Rightarrow> ('h, 'z) vf_adapter_scheme \<Rightarrow> fault + ('h, 'z) vf_adapter_scheme" where
  "ixgbe_ping_all_vfs R ad = fold (\<lambda>i r. rbind r (ping_vf R i)) [0..<unat (num_vfs ad)] (Inr ad)"

text \<open>The part of \<open>ixgbe_down\<close> for the virtual functions.\<close>

definition down_vfs :: "'h device \<Rightarrow> ('h, 'z) vf_adapter_scheme \<Rightarrow> fault + ('h, 'z) vf_adapter_scheme" where
  "down_vfs R ad =
     (if num_vfs ad = 0 then Inr ad
      else
        let ad1 = vf_hw (IXGBE_WRITE_REG R 0x894 0) ad in
        rbind (fold (\<lambda>i r. rbind r (\<lambda>ad. rbind (vf_info i ad) (\<lambda>v. Inr (put_vf i (v\<lparr>clear_to_send := False\<rparr>) ad)))) [0..<unat (num_vfs ad)] (Inr ad1)) (\<lambda>ad2.
        rbind (ixgbe_ping_all_vfs R ad2) (\<lambda>ad3. Inr (ixgbe_disable_tx_rx R ad3))))"

end
