(* ===== verification/SriovAdmin.thy ===== *)
theory SriovAdmin
  imports Sriov
begin

text \<open>
  What the host does with the virtual functions (\<open>ixgbe_sriov.c\<close>): switching them on and off, their addresses, VLANs
  and transmit rates. \<open>ixgbe_pci_sriov_configure\<close> is not called in a build for Linux 2.6.18.
\<close>

section \<open>State\<close>

abbreviation (input) ENOTSUPP :: int where "ENOTSUPP \<equiv> 524"
abbreviation (input) IXGBE_MAX_PF_MACVLANS :: u32 where "IXGBE_MAX_PF_MACVLANS \<equiv> 15"
abbreviation (input) IXGBE_MAX_VFS_DRV_LIMIT :: u32 where "IXGBE_MAX_VFS_DRV_LIMIT \<equiv> 63"
abbreviation (input) IXGBE_PFDTXGSWC :: u32 where "IXGBE_PFDTXGSWC \<equiv> 0x8220"
abbreviation (input) IXGBE_PFDTXGSWC_VT_LBEN :: u32 where "IXGBE_PFDTXGSWC_VT_LBEN \<equiv> 1"
abbreviation (input) IXGBE_GCR_EXT :: u32 where "IXGBE_GCR_EXT \<equiv> 0x11050"
abbreviation (input) IXGBE_GPIE :: u32 where "IXGBE_GPIE \<equiv> 0x898"
abbreviation (input) IXGBE_GPIE_VTMODE_MASK :: u32 where "IXGBE_GPIE_VTMODE_MASK \<equiv> 0xC000"
abbreviation (input) IXGBE_VT_CTL_POOL_MASK :: u32 where "IXGBE_VT_CTL_POOL_MASK \<equiv> 0x1F80"
abbreviation (input) IXGBE_RTTBCNRM :: u32 where "IXGBE_RTTBCNRM \<equiv> 0x4980"
abbreviation (input) IXGBE_RTTBCNRC :: u32 where "IXGBE_RTTBCNRC \<equiv> 0x4984"
abbreviation (input) IXGBE_RTTBCNRC_RS_ENA :: u32 where "IXGBE_RTTBCNRC_RS_ENA \<equiv> 0x80000000"
abbreviation (input) IXGBE_RTTBCNRC_RF_DEC_MASK :: u32 where "IXGBE_RTTBCNRC_RF_DEC_MASK \<equiv> 0x3FFF"
abbreviation (input) IXGBE_RTTBCNRC_RF_INT_MASK :: u32 where "IXGBE_RTTBCNRC_RF_INT_MASK \<equiv> 0xFFFC000"
abbreviation (input) IXGBE_LINK_SPEED_100_FULL :: u32 where "IXGBE_LINK_SPEED_100_FULL \<equiv> 8"
abbreviation (input) IXGBE_LINK_SPEED_1GB_FULL :: u32 where "IXGBE_LINK_SPEED_1GB_FULL \<equiv> 0x20"
abbreviation (input) IXGBE_LINK_SPEED_10GB_FULL :: u32 where "IXGBE_LINK_SPEED_10GB_FULL \<equiv> 0x80"

record vf_macvlans =
  mv_vf :: int
  mv_free :: bool
  mv_is_macvlan :: bool
  vf_macvlan :: "u8 list"

text \<open>The calls the driver makes to the host: \<open>vmklnx_enable_vfs\<close> and \<open>vmklnx_disable_vfs\<close> with their number.\<close>

datatype host_call = EnableVfs u32 | DisableVfs u32

text \<open>
  The flags and features of an adapter these functions use; \<open>pt_ops\<close> says that the host has been given
  \<open>ixgbe_passthru_ops\<close>, \<open>host_log\<close> holds the calls to the host, the last one first.
\<close>

record 'h iov_adapter = "'h vf_adapter" +
  sriov_enabled :: bool
  vmdq_enabled :: bool
  l2switch_enable :: bool
  replication_enable :: bool
  rsc_capable :: bool
  rsc_enabled :: bool
  vmdq_limit :: u16
  mv_list :: "vf_macvlans list option"
  pt_ops :: bool
  host_log :: "host_call list"
  vf_link_up :: bool
  vf_link_speed :: u32
  vf_rate_link_speed :: int

section \<open>Switching virtual functions on and off\<close>

definition new_vf :: vf_data_storage where
  "new_vf = \<lparr>vf_mac_addresses = replicate 6 0, vf_mc_hashes = replicate IXGBE_MAX_VF_MC_ENTRIES 0, num_vf_mc_hashes = 0,
     clear_to_send = False, pf_set_vlan = False, pf_set_mac = False, pf_vlan = 0, pf_qos = 0, tx_rate = 0, vlan_count = 0,
     spoofchk_enabled = True, vf_api = 0\<rparr>"

definition new_mv :: vf_macvlans where
  "new_mv = \<lparr>mv_vf = - 1, mv_free = True, mv_is_macvlan = False, vf_macvlan = replicate 6 0\<rparr>"

definition limit_tcs :: "ixgbe_mac_type \<Rightarrow> u32 \<Rightarrow> ixgbe_dcb_num_tcs \<Rightarrow> ixgbe_dcb_num_tcs" where
  "limit_tcs mac n t =
     (if mac = ixgbe_mac_82599EB \<and> n < 16 then t\<lparr>pg_tcs := 8, pfc_tcs := 8\<rparr>
      else if n < 32 then t\<lparr>pg_tcs := 4, pfc_tcs := 4\<rparr> else t\<lparr>pg_tcs := 1, pfc_tcs := 1\<rparr>)"

text \<open>
  \<open>__ixgbe_enable_sriov\<close>; \<open>mem1\<close> and \<open>mem2\<close> say whether its two allocations find memory. The number of entries of
  the first is an \<open>int\<close>; a negative one is a size no allocator grants.
\<close>

definition do_enable_sriov :: "'h device \<Rightarrow> bool \<Rightarrow> bool \<Rightarrow> ('h, 'z) iov_adapter_scheme \<Rightarrow> int \<times> ('h, 'z) iov_adapter_scheme" where
  "do_enable_sriov R mem1 mem2 ad =
     (let n = sint (num_rar_entries (mt_hw ad) - (IXGBE_MAX_PF_MACVLANS + 1 + num_vfs ad));
          ad1 = ad\<lparr>mt_hw := IXGBE_WRITE_REG R IXGBE_PFDTXGSWC IXGBE_PFDTXGSWC_VT_LBEN (mt_hw ad), pool_offset := ucast (num_vfs ad),
                   sriov_enabled := True, vmdq_enabled := True, vmdq_limit := (if vmdq_limit ad = 0 then 1 else vmdq_limit ad),
                   mv_list := (if mem1 \<and> n \<ge> 0 then Some (replicate (nat n) new_mv) else None)\<rparr>
      in if mem2 then
           (0, ad1\<lparr>vfinfo := replicate (unat (num_vfs ad1)) new_vf,
                   vf_dcb_cfg := (vf_dcb_cfg ad1)\<lparr>num_tcs := limit_tcs (mac_type (mt_hw ad1)) (num_vfs ad1) (num_tcs (vf_dcb_cfg ad1)), vt_mode := True\<rparr>,
                   l2switch_enable := True, replication_enable := True, rsc_capable := False, rsc_enabled := False, pt_ops := True\<rparr>)
         else (- ENOMEM, ad1\<lparr>vfinfo := []\<rparr>))"

text \<open>
  The number given to the host is read after it has been cleared. \<open>pci_vfs_assigned\<close> counts nothing in this build,
  so the answer \<open>- EPERM\<close> does not occur.
\<close>

definition pci_vfs_assigned :: u32 where
  "pci_vfs_assigned = 0"

definition ixgbe_disable_sriov :: "'h device \<Rightarrow> ('h, 'z) iov_adapter_scheme \<Rightarrow> int \<times> ('h, 'z) iov_adapter_scheme" where
  "ixgbe_disable_sriov R ad =
     (let ad1 = ad\<lparr>vfinfo := [], num_vfs := 0, mv_list := None\<rparr> in
      if \<not> sriov_enabled ad1 then (0, ad1)
      else if pci_vfs_assigned \<noteq> 0 then (- 1, ad1)
      else
        (let hw1 = IXGBE_WRITE_REG R IXGBE_GCR_EXT 0 (mt_hw ad1);
             hw2 = rmw R IXGBE_GPIE (\<lambda>r. r AND NOT IXGBE_GPIE_VTMODE_MASK) hw1;
             hw3 = rmw R IXGBE_VT_CTL (\<lambda>r. r AND NOT IXGBE_VT_CTL_POOL_MASK) hw2;
             hw4 = IXGBE_WRITE_FLUSH R hw3
         in (0, ad1\<lparr>mt_hw := hw4\<lparr>hw_dev := dev_delay R (hw_dev hw4) 100000\<rparr>, pool_offset := 0, sriov_enabled := False,
                    vmdq_enabled := (if vmdq_limit ad1 = 1 then False else vmdq_enabled ad1), host_log := DisableVfs (num_vfs ad1) # host_log ad1\<rparr>)))"

text \<open>\<open>_kc_pci_num_vf\<close> of this build, and \<open>pci_enable_sriov\<close> with the answer of the host.\<close>

definition pci_num_vf :: u32 where
  "pci_num_vf = 0"

definition pci_enable_sriov :: "int \<Rightarrow> u32 \<Rightarrow> int" where
  "pci_enable_sriov answer n = (if word_of_int answer \<noteq> n then - ENOTSUPP else 0)"

definition ixgbe_enable_sriov :: "'h device \<Rightarrow> int \<Rightarrow> bool \<Rightarrow> bool \<Rightarrow> ('h, 'z) iov_adapter_scheme \<Rightarrow> ('h, 'z) iov_adapter_scheme" where
  "ixgbe_enable_sriov R answer mem1 mem2 ad =
     (if pci_num_vf = 0 \<and> num_vfs ad = 0 then ad
      else
        let n = min (num_vfs ad) IXGBE_MAX_VFS_DRV_LIMIT;
            ad1 = (if pci_num_vf \<noteq> 0 then ad\<lparr>num_vfs := pci_num_vf\<rparr> else ad\<lparr>num_vfs := n, host_log := EnableVfs n # host_log ad\<rparr>)
        in if pci_num_vf = 0 \<and> pci_enable_sriov answer n \<noteq> 0 then ad1\<lparr>num_vfs := 0\<rparr>
           else case do_enable_sriov R mem1 mem2 ad1 of (err, ad2) \<Rightarrow>
                  if err = 0 then ad2 else snd (ixgbe_disable_sriov R ad2))"

text \<open>The end of \<open>ixgbe_probe\<close>: every function gets its address.\<close>

definition configure_vfs :: "('h, 'z) iov_adapter_scheme \<Rightarrow> fault + ('h, 'z) iov_adapter_scheme" where
  "configure_vfs ad =
     (if sriov_enabled ad
      then fold (\<lambda>i r. rbind r (ixgbe_vf_configuration (of_nat i OR 0x10000000))) [0..<unat (num_vfs ad)] (Inr ad)
      else Inr ad)"

section \<open>Addresses and VLANs\<close>

definition ixgbe_ndo_set_vf_mac :: "'h device \<Rightarrow> nat \<Rightarrow> u8 list \<Rightarrow> ('h, 'z) vf_adapter_scheme \<Rightarrow> fault + int \<times> ('h, 'z) vf_adapter_scheme" where
  "ixgbe_ndo_set_vf_mac R vf addr ad =
     (if \<not> is_valid_ether_addr addr \<or> vf \<ge> unat (num_vfs ad) then Inr (- EINVAL, ad)
      else rbind (set_vf_mac R vf addr ad) (\<lambda>(r, ad1).
        if r \<ge> 0 then rbind (vf_info vf ad1) (\<lambda>v. Inr (r, put_vf vf (v\<lparr>pf_set_mac := True\<rparr>) ad1)) else Inr (r, ad1)))"

definition ixgbe_enable_port_vlan :: "'h device \<Rightarrow> nat \<Rightarrow> u16 \<Rightarrow> u8 \<Rightarrow> ('h, 'z) vf_adapter_scheme \<Rightarrow> fault + int \<times> ('h, 'z) vf_adapter_scheme" where
  "ixgbe_enable_port_vlan R vf vlan qos ad =
     (case ixgbe_set_vf_vlan R True (ucast vlan) (of_nat vf) ad of (err, ad1) \<Rightarrow>
      if err \<noteq> 0 then Inr (err, ad1)
      else
        let ad2 = vf_hw (\<lambda>hw. ixgbe_set_vmolr R vf False (ixgbe_set_vmvir R vlan (ucast qos) vf hw)) ad1 in
        rbind (vf_info vf ad2) (\<lambda>v.
        let ad3 = (if spoofchk_enabled v then vf_hw (ixgbe_set_vlan_anti_spoofing R True vf) ad2 else ad2)
        in Inr (err, put_vf vf (v\<lparr>vlan_count := vlan_count v + 1, pf_vlan := vlan, pf_qos := ucast qos\<rparr>) ad3)))"

definition ixgbe_disable_port_vlan :: "'h device \<Rightarrow> nat \<Rightarrow> ('h, 'z) vf_adapter_scheme \<Rightarrow> fault + int \<times> ('h, 'z) vf_adapter_scheme" where
  "ixgbe_disable_port_vlan R vf ad =
     rbind (vf_info vf ad) (\<lambda>v.
     case ixgbe_set_vf_vlan R False (ucast (pf_vlan v)) (of_nat vf) ad of (err, ad1) \<Rightarrow>
     let ad2 = vf_hw (\<lambda>hw. ixgbe_set_vlan_anti_spoofing R False vf (ixgbe_set_vmolr R vf True (ixgbe_clear_vmvir R vf hw))) ad1
     in Inr (err, put_vf vf (v\<lparr>vlan_count := (if vlan_count v \<noteq> 0 then vlan_count v - 1 else vlan_count v), pf_vlan := 0, pf_qos := 0\<rparr>) ad2))"

definition ixgbe_ndo_set_vf_vlan :: "'h device \<Rightarrow> nat \<Rightarrow> u16 \<Rightarrow> u8 \<Rightarrow> ('h, 'z) vf_adapter_scheme \<Rightarrow> fault + int \<times> ('h, 'z) vf_adapter_scheme" where
  "ixgbe_ndo_set_vf_vlan R vf vlan qos ad =
     (if vf \<ge> unat (num_vfs ad) \<or> vlan > 0xFFE \<or> qos > 7 then Inr (- EINVAL, ad)
      else if vlan \<noteq> 0 \<or> qos \<noteq> 0 then
        rbind (vf_info vf ad) (\<lambda>v.
        rbind (if pf_vlan v \<noteq> 0 then ixgbe_disable_port_vlan R vf ad else Inr (0, ad)) (\<lambda>(err, ad1).
        if err \<noteq> 0 then Inr (err, ad1) else ixgbe_enable_port_vlan R vf vlan qos ad1))
      else ixgbe_disable_port_vlan R vf ad)"

text \<open>The requests of the host; the answer is whether it got \<open>VMK_OK\<close>.\<close>

datatype pt_op = VF_SET_MAC nat "u8 list" | VF_SET_DEFAULT_VLAN nat bool u16 u8 | VF_OTHER

definition remove_vf_mac :: "'h device \<Rightarrow> nat \<Rightarrow> ('h, 'z) vf_adapter_scheme \<Rightarrow> fault + ('h, 'z) vf_adapter_scheme" where
  "remove_vf_mac R vf ad =
     rbind (vf_info vf ad) (\<lambda>v.
     rbind (ixgbe_del_mac_filter R (vf_mac_addresses v) (of_nat vf) ad) (\<lambda>(_, ad1).
     Inr (put_vf vf (v\<lparr>vf_mac_addresses := replicate 6 0, pf_set_mac := False\<rparr>) ad1)))"

definition set_default_vlan :: "'h device \<Rightarrow> nat \<Rightarrow> bool \<Rightarrow> u16 \<Rightarrow> u8 \<Rightarrow> ('h, 'z) vf_adapter_scheme \<Rightarrow> fault + int \<times> ('h, 'z) vf_adapter_scheme" where
  "set_default_vlan R vf enable vid prio ad =
     rbind (vf_info vf ad) (\<lambda>v.
     let ad1 = put_vf vf (v\<lparr>pf_set_vlan := enable\<rparr>) ad
     in if enable then ixgbe_ndo_set_vf_vlan R vf vid prio ad1 else ixgbe_ndo_set_vf_vlan R vf 0 0 ad1)"

fun ixgbe_passthru_ops :: "'h device \<Rightarrow> pt_op \<Rightarrow> ('h, 'z) vf_adapter_scheme \<Rightarrow> fault + bool \<times> ('h, 'z) vf_adapter_scheme" where
  "ixgbe_passthru_ops R (VF_SET_MAC vf addr) ad =
     (if is_zero_ether_addr addr then rbind (remove_vf_mac R vf ad) (\<lambda>ad1. Inr (True, ad1))
      else rbind (ixgbe_ndo_set_vf_mac R vf addr ad) (\<lambda>(r, ad1). Inr (\<not> r < 0, ad1)))"
| "ixgbe_passthru_ops R (VF_SET_DEFAULT_VLAN vf enable vid prio) ad =
     rbind (set_default_vlan R vf enable vid prio ad) (\<lambda>(r, ad1). Inr (r = 0, ad1))"
| "ixgbe_passthru_ops R VF_OTHER ad = Inr (False, ad)"

section \<open>Transmit rates\<close>

definition ixgbe_link_mbps :: "('h, 'z) iov_adapter_scheme \<Rightarrow> int" where
  "ixgbe_link_mbps ad =
     (if vf_link_speed ad = IXGBE_LINK_SPEED_100_FULL then 100 else if vf_link_speed ad = IXGBE_LINK_SPEED_1GB_FULL then 1000
      else if vf_link_speed ad = IXGBE_LINK_SPEED_10GB_FULL then 10000 else 0)"

definition rate_factor :: "int \<Rightarrow> u16 \<Rightarrow> u32" where
  "rate_factor speed rate =
     (if rate = 0 then 0
      else ((push_bit 14 (word_of_int speed :: u32) div ucast rate) AND (IXGBE_RTTBCNRC_RF_INT_MASK OR IXGBE_RTTBCNRC_RF_DEC_MASK)) OR IXGBE_RTTBCNRC_RS_ENA)"

definition ixgbe_set_vf_rate_limit :: "'h device \<Rightarrow> nat \<Rightarrow> ('h, 'z) iov_adapter_scheme \<Rightarrow> fault + ('h, 'z) iov_adapter_scheme" where
  "ixgbe_set_vf_rate_limit R vf ad =
     rbind (vf_info vf ad) (\<lambda>v.
     let val = rate_factor (vf_rate_link_speed ad) (tx_rate v);
         hw1 = (if mac_type (mt_hw ad) = ixgbe_mac_82599EB then IXGBE_WRITE_REG R IXGBE_RTTBCNRM 0x4 (mt_hw ad)
                else if mac_type (mt_hw ad) = ixgbe_mac_X540 then IXGBE_WRITE_REG R IXGBE_RTTBCNRM 0x14 (mt_hw ad) else mt_hw ad);
         q = unat (ucast (q_per_pool ad) :: u16)
     in Inr (ad\<lparr>mt_hw := for_regs q (\<lambda>i hw. IXGBE_WRITE_REG R IXGBE_RTTBCNRC val (IXGBE_WRITE_REG R IXGBE_RTTDQSEL (of_nat (vf * q + i)) hw)) hw1\<rparr>))"

definition ixgbe_check_vf_rate_limit :: "'h device \<Rightarrow> ('h, 'z) iov_adapter_scheme \<Rightarrow> fault + ('h, 'z) iov_adapter_scheme" where
  "ixgbe_check_vf_rate_limit R ad =
     (if vf_rate_link_speed ad = 0 then Inr ad
      else
        let ad1 = (if ixgbe_link_mbps ad \<noteq> vf_rate_link_speed ad then ad\<lparr>vf_rate_link_speed := 0\<rparr> else ad)
        in fold (\<lambda>i r. rbind r (\<lambda>ad. rbind (vf_info i ad) (\<lambda>v.
             ixgbe_set_vf_rate_limit R i (if vf_rate_link_speed ad = 0 then put_vf i (v\<lparr>tx_rate := 0\<rparr>) ad else ad))))
             [0..<unat (num_vfs ad1)] (Inr ad1))"

definition ixgbe_ndo_set_vf_bw :: "'h device \<Rightarrow> nat \<Rightarrow> int \<Rightarrow> ('h, 'z) iov_adapter_scheme \<Rightarrow> fault + int \<times> ('h, 'z) iov_adapter_scheme" where
  "ixgbe_ndo_set_vf_bw R vf rate ad =
     (if vf \<ge> unat (num_vfs ad) \<or> \<not> vf_link_up ad \<or> ixgbe_link_mbps ad \<noteq> 10000 \<or>
         rate \<noteq> 0 \<and> (rate \<le> 10 \<or> rate > ixgbe_link_mbps ad) then Inr (- EINVAL, ad)
      else rbind (vf_info vf ad) (\<lambda>v.
           rbind (ixgbe_set_vf_rate_limit R vf (put_vf vf (v\<lparr>tx_rate := word_of_int rate\<rparr>) (ad\<lparr>vf_rate_link_speed := ixgbe_link_mbps ad\<rparr>)))
             (\<lambda>ad1. Inr (0, ad1))))"

end
