(* ===== verification/QueueLayout.thy ===== *)
theory QueueLayout
  imports SriovAdmin
begin

text \<open>
  The rings of an adapter and their hardware queues (\<open>ixgbe_lib.c\<close>): how many rings and pools the enabled features
  get, and which queue each ring drives; and the pools the hardware lets send and receive
  (\<open>ixgbe_configure_virtualization\<close> of \<open>ixgbe_main.c\<close>).
\<close>

section \<open>State\<close>

abbreviation (input) ETH_DATA_LEN :: u32 where "ETH_DATA_LEN \<equiv> 1500"
abbreviation (input) IXGBE_MAX_VMDQ_INDICES :: int where "IXGBE_MAX_VMDQ_INDICES \<equiv> 64"
abbreviation (input) MAX_RX_QUEUES :: int where "MAX_RX_QUEUES \<equiv> 71"
abbreviation (input) MAX_TX_QUEUES :: int where "MAX_TX_QUEUES \<equiv> 71"
abbreviation (input) IXGBE_82599_VMDQ_8Q_MASK :: u16 where "IXGBE_82599_VMDQ_8Q_MASK \<equiv> 0x78"
abbreviation (input) IXGBE_82599_VMDQ_4Q_MASK :: u16 where "IXGBE_82599_VMDQ_4Q_MASK \<equiv> 0x7C"
abbreviation (input) IXGBE_82599_VMDQ_2Q_MASK :: u16 where "IXGBE_82599_VMDQ_2Q_MASK \<equiv> 0x7E"
abbreviation (input) IXGBE_RSS_16Q_MASK :: u16 where "IXGBE_RSS_16Q_MASK \<equiv> 0xF"
abbreviation (input) IXGBE_RSS_8Q_MASK :: u16 where "IXGBE_RSS_8Q_MASK \<equiv> 0x7"
abbreviation (input) IXGBE_RSS_4Q_MASK :: u16 where "IXGBE_RSS_4Q_MASK \<equiv> 0x3"
abbreviation (input) IXGBE_RSS_2Q_MASK :: u16 where "IXGBE_RSS_2Q_MASK \<equiv> 0x1"
abbreviation (input) IXGBE_RSS_DISABLED_MASK :: u16 where "IXGBE_RSS_DISABLED_MASK \<equiv> 0"
abbreviation (input) IXGBE_ESX_RSS_QUEUES :: nat where "IXGBE_ESX_RSS_QUEUES \<equiv> 4"
abbreviation (input) IXGBE_ESX_HW_QUEUES_PER_POOL :: u32 where "IXGBE_ESX_HW_QUEUES_PER_POOL \<equiv> 4"
abbreviation (input) IXGBE_DEFAULT_RXD :: int where "IXGBE_DEFAULT_RXD \<equiv> 1024"
abbreviation (input) IXGBE_MAX_RXD :: int where "IXGBE_MAX_RXD \<equiv> 8192"
abbreviation (input) IXGBE_MIN_RXD :: int where "IXGBE_MIN_RXD \<equiv> 64"
abbreviation (input) IXGBE_JUMBO_FRAME_DEFAULT_RXD :: int where "IXGBE_JUMBO_FRAME_DEFAULT_RXD \<equiv> 512"
abbreviation (input) IXGBE_VMD_CTL :: u32 where "IXGBE_VMD_CTL \<equiv> 0x581C"
abbreviation (input) IXGBE_VMD_CTL_VMDQ_EN :: u32 where "IXGBE_VMD_CTL_VMDQ_EN \<equiv> 1"
abbreviation (input) IXGBE_VT_CTL_REPLEN :: u32 where "IXGBE_VT_CTL_REPLEN \<equiv> 0x40000000"

record ixgbe_ring_feature =
  rf_limit :: u16
  rf_indices :: u16
  rf_mask :: u16
  rf_offset :: u16

record q_ring =
  reg_idx :: u8
  ring_tc :: u8

text \<open>
  The feature \<open>RING_F_VMDQ\<close> has its limit, mask and offset in \<open>vmdq_limit\<close>, \<open>pool_mask\<close> and \<open>pool_offset\<close>;
  \<open>dev_indices\<close> is \<open>adapter->indices\<close>, \<open>dev_tx_queues\<close> the number of queues of the net device. The lists of rings
  hold the rings that have been allocated.
\<close>

record 'h q_adapter = "'h iov_adapter" +
  vmdq_indices :: u16
  rss :: ixgbe_ring_feature
  fcoe :: ixgbe_ring_feature
  fdir :: ixgbe_ring_feature
  fcoe_up :: u8
  fcoe_enabled :: bool
  cna_enabled :: bool
  msix_enabled :: bool
  fdir_hash :: bool
  fdir_perfect :: bool
  l2loopback_enable :: bool
  atr_sample_rate :: u32
  dev_indices :: u32
  dev_tx_queues :: u32
  num_rx_queues :: int
  num_tx_queues :: int
  num_rx_pools :: int
  num_rx_queues_per_pool :: int
  rx_ring :: "q_ring list"
  tx_ring :: "q_ring list"

definition align_mask :: "u32 \<Rightarrow> u32 \<Rightarrow> u32" where
  "align_mask x m = (x + m) AND NOT m"

abbreviation (input) u16_of :: "int \<Rightarrow> u16" where "u16_of \<equiv> word_of_int"

section \<open>The number of rings\<close>

text \<open>The driver works with one traffic class in a pool, so the branches for more are not reached.\<close>

definition dcb_vmdq_pools :: "('h, 'z) q_adapter_scheme \<Rightarrow> u16 \<times> u16 \<times> u16" where
  "dcb_vmdq_pools ad =
     (let i = (if netdev_mtu ad > ETH_DATA_LEN \<and> vmdq_limit ad > 4 then 4 else vmdq_limit ad) in
      if mac_type (mt_hw ad) = ixgbe_mac_82598EB then (min i 4, 7, 0)
      else if mac_type (mt_hw ad) = ixgbe_mac_82599EB \<or> mac_type (mt_hw ad) = ixgbe_mac_X540 then
        (let n = min (i + pool_offset ad) 32
         in (n - pool_offset ad, IXGBE_82599_VMDQ_4Q_MASK, 32 - n))
      else (1, 0, 0))"

definition ixgbe_set_dcb_vmdq_queues :: "('h, 'z) q_adapter_scheme \<Rightarrow> bool \<times> ('h, 'z) q_adapter_scheme" where
  "ixgbe_set_dcb_vmdq_queues ad =
     (if netdev_get_num_tc ad \<le> 1 \<or> \<not> vmdq_enabled ad then (False, ad)
      else case dcb_vmdq_pools ad of (i, m, fcoe_i) \<Rightarrow>
        let ad1 = ad\<lparr>pool_mask := m, vmdq_indices := i, rss := (rss ad)\<lparr>rf_indices := 1, rf_mask := IXGBE_RSS_DISABLED_MASK\<rparr>,
                     fdir_hash := False, num_rx_queues := uint i, num_tx_queues := uint i, num_rx_pools := uint i, num_rx_queues_per_pool := 1\<rparr>;
            f = min fcoe_i (rf_limit (fcoe ad1))
        in (True,
            if \<not> fcoe_enabled ad1 then ad1
            else if f \<noteq> 0 then
              ad1\<lparr>fcoe := (fcoe ad1)\<lparr>rf_indices := f, rf_offset := i\<rparr>, num_rx_queues := num_rx_queues ad1 + uint f,
                  num_tx_queues := num_tx_queues ad1 + uint f, num_rx_pools := num_rx_pools ad1 + uint f\<rparr>
            else ad1\<lparr>fcoe := (fcoe ad1)\<lparr>rf_indices := 0, rf_offset := 0\<rparr>, fcoe_enabled := False, cna_enabled := False\<rparr>))"

definition ixgbe_fcoe_get_tc :: "('h, 'z) q_adapter_scheme \<Rightarrow> fault + u8" where
  "ixgbe_fcoe_get_tc ad = netdev_get_prio_tc_map ad (fcoe_up ad)"

definition dcb_rss :: "('h, 'z) q_adapter_scheme \<Rightarrow> u16 \<times> u16" where
  "dcb_rss ad =
     (let i = (ucast (dev_indices ad) :: u16)
      in if mac_type (mt_hw ad) = ixgbe_mac_82598EB then (min i 4, IXGBE_RSS_4Q_MASK)
         else if netdev_get_num_tc ad > 4 then (min i 8, IXGBE_RSS_8Q_MASK) else (min i 16, IXGBE_RSS_16Q_MASK))"

definition ixgbe_set_dcb_queues :: "('h, 'z) q_adapter_scheme \<Rightarrow> fault + bool \<times> ('h, 'z) q_adapter_scheme" where
  "ixgbe_set_dcb_queues ad =
     (let tcs = netdev_get_num_tc ad in
      if tcs \<le> 1 then Inr (False, ad)
      else case dcb_rss ad of (i, m) \<Rightarrow>
        let i = min i (rf_limit (rss ad));
            n = uint i * uint tcs;
            ad1 = ad\<lparr>rss := (rss ad)\<lparr>rf_indices := i, rf_mask := m\<rparr>, fdir_hash := False, num_rx_queues := n, num_tx_queues := n\<rparr>
        in if \<not> fcoe_enabled ad1 then Inr (True, ad1)
           else rbind (ixgbe_fcoe_get_tc ad1) (\<lambda>tc.
             Inr (True, ad1\<lparr>fcoe := (fcoe ad1)\<lparr>rf_indices := min i (rf_limit (fcoe ad1)), rf_offset := i * ucast tc\<rparr>\<rparr>)))"

text \<open>
  Pools and rings of a pool without FCoE: the number of pools, the mask, the rings of a pool and their mask, and the
  queues left for FCoE.
\<close>

definition vmdq_layout :: "('h, 'z) q_adapter_scheme \<Rightarrow> int \<times> u16 \<times> u16 \<times> u16 \<times> u16" where
  "vmdq_layout ad =
     (let i = (if netdev_mtu ad > ETH_DATA_LEN \<and> uint (vmdq_limit ad) > 4 then 4 else uint (vmdq_limit ad)); r = rf_limit (rss ad) in
      if mac_type (mt_hw ad) = ixgbe_mac_82598EB then
        (let i = min i 16 in if i > 4 \<or> r = 1 then (i, 0xF, 1, IXGBE_RSS_DISABLED_MASK, 0) else (i, 0x18, min r 8, IXGBE_RSS_8Q_MASK, 0))
      else if mac_type (mt_hw ad) = ixgbe_mac_82599EB \<or> mac_type (mt_hw ad) = ixgbe_mac_X540 then
        (let i = min IXGBE_MAX_VMDQ_INDICES (uint (u16_of (i + uint (pool_offset ad))));
             (m, r, rm) = (if i > 32 \<or> r < 4 then (IXGBE_82599_VMDQ_2Q_MASK, min r 2, IXGBE_RSS_2Q_MASK) else (IXGBE_82599_VMDQ_4Q_MASK, 4, IXGBE_RSS_4Q_MASK))
         in (i - uint (pool_offset ad), m, r, rm, u16_of (128 - i * uint (align_mask 1 (NOT (ucast m))))))
      else (1, 0, 1, IXGBE_RSS_DISABLED_MASK, 0))"

text \<open>The part for FCoE of \<open>ixgbe_set_vmdq_queues\<close>; \<open>cpus\<close> is \<open>num_online_cpus()\<close>.\<close>

definition vmdq_fcoe :: "u32 \<Rightarrow> int \<Rightarrow> u16 \<Rightarrow> u16 \<Rightarrow> ('h, 'z) q_adapter_scheme \<Rightarrow> ('h, 'z) q_adapter_scheme" where
  "vmdq_fcoe cpus pools r fcoe_i ad =
     (let f = min fcoe_i (rf_limit (fcoe ad));
          merged = (if msix_enabled ad then min (f + r) (ucast cpus) else r);
          shared = min merged (rf_limit (fcoe ad));
          (f', fc) = (if pools > 1 \<and> f \<noteq> 0 then (f, (fcoe ad)\<lparr>rf_indices := f, rf_offset := u16_of (pools * uint r)\<rparr>)
                      else (merged - r, (fcoe ad)\<lparr>rf_indices := shared, rf_offset := merged - shared\<rparr>))
      in ad\<lparr>fcoe := fc, num_rx_queues := num_rx_queues ad + uint f', num_tx_queues := num_tx_queues ad + uint f'\<rparr>)"

definition ixgbe_set_vmdq_queues :: "u32 \<Rightarrow> ('h, 'z) q_adapter_scheme \<Rightarrow> bool \<times> ('h, 'z) q_adapter_scheme" where
  "ixgbe_set_vmdq_queues cpus ad =
     (if \<not> vmdq_enabled ad then (False, ad)
      else case vmdq_layout ad of (i, m, r, rm, fcoe_i) \<Rightarrow>
        let ad1 = (ad\<lparr>pool_mask := m, vmdq_indices := u16_of i, rss := (rss ad)\<lparr>rf_indices := r, rf_mask := rm\<rparr>, fdir_hash := False,
                     num_rx_queues := i * uint r, num_tx_queues := i * uint r, num_rx_pools := i, num_rx_queues_per_pool := uint r\<rparr>);
            extra = rf_limit (rss ad) > 1;
            pools = (if extra then i + 1 else i);
            ad2 = (if extra
                   then ad1\<lparr>vmdq_indices := u16_of pools, rss := (rss ad1)\<lparr>rf_indices := of_nat IXGBE_ESX_RSS_QUEUES, rf_mask := IXGBE_RSS_4Q_MASK\<rparr>,
                            num_rx_queues := min MAX_RX_QUEUES (i + int IXGBE_ESX_RSS_QUEUES), num_tx_queues := min MAX_TX_QUEUES i,
                            num_rx_pools := pools, num_rx_queues_per_pool := 1\<rparr>
                   else ad1)
        in (True, if fcoe_enabled ad2 then vmdq_fcoe cpus pools (if extra then of_nat IXGBE_ESX_RSS_QUEUES else r) fcoe_i ad2 else ad2))"

definition ixgbe_set_rss_queues :: "u32 \<Rightarrow> ('h, 'z) q_adapter_scheme \<Rightarrow> ('h, 'z) q_adapter_scheme" where
  "ixgbe_set_rss_queues cpus ad =
     (let r = rf_limit (rss ad);
          ad1 = ad\<lparr>rss := (rss ad)\<lparr>rf_indices := r, rf_mask := IXGBE_RSS_16Q_MASK\<rparr>, fdir_hash := False\<rparr>;
          (r1, ad2) = (if r > 1 \<and> atr_sample_rate ad1 \<noteq> 0
                       then (rf_limit (fdir ad1), ad1\<lparr>fdir := (fdir ad1)\<lparr>rf_indices := rf_limit (fdir ad1)\<rparr>, fdir_hash := \<not> fdir_perfect ad1\<rparr>)
                       else (r, ad1));
          f0 = min (min (rf_limit (fcoe ad2) + r1) (ucast cpus)) (ucast (dev_tx_queues ad2));
          f = (if msix_enabled ad2 then f0 else r1);
          shared = min f (rf_limit (fcoe ad2));
          (r2, ad3) = (if fcoe_enabled ad2 then (max f r1, ad2\<lparr>fcoe := (fcoe ad2)\<lparr>rf_indices := shared, rf_offset := f - shared\<rparr>\<rparr>) else (r1, ad2))
      in ad3\<lparr>num_rx_queues := uint r2, num_tx_queues := uint r2\<rparr>)"

definition ixgbe_set_num_queues :: "u32 \<Rightarrow> ('h, 'z) q_adapter_scheme \<Rightarrow> fault + ('h, 'z) q_adapter_scheme" where
  "ixgbe_set_num_queues cpus ad =
     (let ad0 = ad\<lparr>num_rx_queues := 1, num_tx_queues := 1, num_rx_pools := 1, num_rx_queues_per_pool := 1\<rparr> in
      case ixgbe_set_dcb_vmdq_queues ad0 of (done1, ad1) \<Rightarrow>
      if done1 then Inr ad1
      else rbind (ixgbe_set_dcb_queues ad1) (\<lambda>(done2, ad2).
        if done2 then Inr ad2
        else case ixgbe_set_vmdq_queues cpus ad2 of (done3, ad3) \<Rightarrow>
          Inr (if done3 then ad3 else ixgbe_set_rss_queues cpus ad3)))"

text \<open>The length of a receive ring.\<close>

definition ixgbe_calculate_rx_ring_size :: "('h, 'z) q_adapter_scheme \<Rightarrow> fault + int" where
  "ixgbe_calculate_rx_ring_size ad =
     (if num_rx_queues ad = 0 then Inl DivByZero
      else
        let share = IXGBE_MAX_RXD div num_rx_queues ad;
            n = min share (if netdev_mtu ad > ETH_DATA_LEN then IXGBE_JUMBO_FRAME_DEFAULT_RXD else IXGBE_DEFAULT_RXD)
        in Inr ((max n IXGBE_MIN_RXD + 7) div 8 * 8))"

section \<open>The queues of the rings\<close>

text \<open>A write of \<open>reg_idx\<close> to consecutive rings from number \<open>k\<close> on; a ring that is not there is a NULL pointer.\<close>

definition put_regs :: "nat \<Rightarrow> u16 list \<Rightarrow> q_ring list \<Rightarrow> fault + q_ring list" where
  "put_regs k rs rings =
     (if k + length rs \<le> length rings
      then Inr (take k rings @ map2 (\<lambda>r q. q\<lparr>reg_idx := ucast r\<rparr>) rs (drop k rings) @ drop (k + length rs) rings)
      else Inl NullDeref)"

definition put_both :: "nat \<Rightarrow> u16 list \<Rightarrow> u16 list \<Rightarrow> ('h, 'z) q_adapter_scheme \<Rightarrow> fault + ('h, 'z) q_adapter_scheme" where
  "put_both k rx tx ad =
     rbind (put_regs k rx (rx_ring ad)) (\<lambda>rxs. rbind (put_regs k tx (tx_ring ad)) (\<lambda>txs. Inr (ad\<lparr>rx_ring := rxs, tx_ring := txs\<rparr>)))"

text \<open>The queues of \<open>n\<close> rings from \<open>r\<close> on, each moved by \<open>f\<close> first, and the value left in \<open>reg_idx\<close>.\<close>

fun queue_walk :: "(u16 \<Rightarrow> u16) \<Rightarrow> nat \<Rightarrow> u16 \<Rightarrow> u16 list \<times> u16" where
  "queue_walk f 0 r = ([], r)"
| "queue_walk f (Suc n) r = (case queue_walk f n (f r + 1) of (rs, e) \<Rightarrow> (f r # rs, e))"

text \<open>The move to the next pool when the position in the pool, read with \<open>pos\<close>, has reached the limit.\<close>

definition next_pool :: "u16 \<Rightarrow> u32 \<Rightarrow> u16 \<Rightarrow> u16 \<Rightarrow> u16" where
  "next_pool m pos limit r = (if ucast r AND pos \<ge> ucast limit then ucast (align_mask (ucast r) (NOT (ucast m))) else r)"

definition first_pool :: "('h, 'z) q_adapter_scheme \<Rightarrow> u16" where
  "first_pool ad = ucast ((ucast (pool_offset ad) :: u32) * q_per_pool ad)"

definition swapped_rx :: "nat \<Rightarrow> u16" where
  "swapped_rx i = (drop_bit 3 (of_nat i) OR push_bit 3 (of_nat i)) AND 0x3F"

definition swapped_tx :: "nat \<Rightarrow> u16" where
  "swapped_tx i = (drop_bit 4 (of_nat i) OR push_bit 2 (of_nat i)) AND 0x1F"

text \<open>The rings of FCoE behind those of the pools, one in each pool.\<close>

definition fcoe_queues :: "u8 \<Rightarrow> int \<Rightarrow> ('h, 'z) q_adapter_scheme \<Rightarrow> u16 list" where
  "fcoe_queues tc n ad =
     fst (queue_walk (\<lambda>r. ucast (align_mask (ucast r) (NOT (ucast (pool_mask ad))) + ucast tc)) (nat n - unat (rf_offset (fcoe ad)))
       (ucast ((ucast (pool_offset ad) + ucast (vmdq_indices ad) :: u32) * (ucast (ucast (q_per_pool ad) :: u16)))))"

definition ixgbe_cache_ring_dcb_vmdq :: "('h, 'z) q_adapter_scheme \<Rightarrow> fault + bool \<times> ('h, 'z) q_adapter_scheme" where
  "ixgbe_cache_ring_dcb_vmdq ad =
     (let mac = mac_type (mt_hw ad); nr = nat (num_rx_queues ad); nt = nat (num_tx_queues ad);
          step = next_pool (pool_mask ad) (NOT (ucast (pool_mask ad))) 1
      in if netdev_get_num_tc ad \<le> 1 \<or> \<not> vmdq_enabled ad then Inr (False, ad)
         else rbind (if mac = ixgbe_mac_82598EB then put_both 0 (map swapped_rx [0..<nr]) (map swapped_tx [0..<nt]) ad
                     else if mac = ixgbe_mac_82599EB \<or> mac = ixgbe_mac_X540
                     then put_both 0 (fst (queue_walk step nr (first_pool ad))) (fst (queue_walk step nt (first_pool ad))) ad
                     else Inr ad) (\<lambda>ad1.
           if \<not> fcoe_enabled ad1 \<or> rf_offset (fcoe ad1) < 1 \<or> rf_indices (fcoe ad1) = 0 then Inr (True, ad1)
           else rbind (ixgbe_fcoe_get_tc ad1) (\<lambda>tc.
             rbind (put_both (unat (rf_offset (fcoe ad1))) (fcoe_queues tc (num_rx_queues ad1) ad1) (fcoe_queues tc (num_tx_queues ad1) ad1) ad1)
               (\<lambda>ad2. Inr (True, ad2)))))"

text \<open>The first queues of a traffic class for transmission and reception.\<close>

definition ixgbe_get_first_reg_idx :: "('h, 'z) q_adapter_scheme \<Rightarrow> nat \<Rightarrow> nat \<times> nat" where
  "ixgbe_get_first_reg_idx ad tc =
     (let mac = mac_type (mt_hw ad) in
      if mac = ixgbe_mac_82598EB then (tc * 4, tc * 8)
      else if mac = ixgbe_mac_82599EB \<or> mac = ixgbe_mac_X540 then
        (if netdev_get_num_tc ad > 4
         then (if tc < 3 then tc * 32 else if tc < 5 then (tc + 2) * 16 else (tc + 8) * 8, tc * 16)
         else (if tc < 2 then tc * 64 else (tc + 4) * 16, tc * 32))
      else (0, 0))"

definition put_tc :: "nat \<Rightarrow> nat \<Rightarrow> u8 \<Rightarrow> q_ring list \<Rightarrow> q_ring list" where
  "put_tc k n tc rings = take k rings @ map (\<lambda>q. q\<lparr>ring_tc := tc\<rparr>) (take n (drop k rings)) @ drop (k + n) rings"

definition cache_tc :: "nat \<Rightarrow> nat \<Rightarrow> ('h, 'z) q_adapter_scheme \<Rightarrow> fault + ('h, 'z) q_adapter_scheme" where
  "cache_tc rss_i tc ad =
     (case ixgbe_get_first_reg_idx ad tc of (tx, rx) \<Rightarrow>
      rbind (put_both (tc * rss_i) (map of_nat [rx..<rx + rss_i]) (map of_nat [tx..<tx + rss_i]) ad) (\<lambda>ad1.
      Inr (ad1\<lparr>rx_ring := put_tc (tc * rss_i) rss_i (of_nat tc) (rx_ring ad1), tx_ring := put_tc (tc * rss_i) rss_i (of_nat tc) (tx_ring ad1)\<rparr>)))"

definition ixgbe_cache_ring_dcb :: "('h, 'z) q_adapter_scheme \<Rightarrow> fault + bool \<times> ('h, 'z) q_adapter_scheme" where
  "ixgbe_cache_ring_dcb ad =
     (let tcs = netdev_get_num_tc ad in
      if tcs \<le> 1 then Inr (False, ad)
      else rbind (fold (\<lambda>tc r. rbind r (cache_tc (unat (rf_indices (rss ad))) tc)) [0..<unat tcs] (Inr ad)) (\<lambda>ad1. Inr (True, ad1)))"

text \<open>
  The rings of the pools, the first ring of FCoE among them, and the others of FCoE one after the other.
\<close>

definition vmdq_queues :: "u32 \<Rightarrow> int \<Rightarrow> ('h, 'z) q_adapter_scheme \<Rightarrow> u16 list" where
  "vmdq_queues pos n ad =
     (let off = unat (rf_offset (fcoe ad)); k = (if off = 0 then nat n else min (nat n) (off + 1))
      in case queue_walk (next_pool (pool_mask ad) pos (rf_indices (rss ad))) k (first_pool ad) of
           (rs, r) \<Rightarrow> rs @ fst (queue_walk (\<lambda>r. r) (nat n - k) r))"

text \<open>With the receive side scaling of ESX a pool has one ring, and the last pool all rings of the scaling.\<close>

definition esx_rss_queues :: "('h, 'z) q_adapter_scheme \<Rightarrow> u16 list \<times> u16 list" where
  "esx_rss_queues ad =
     (let q = (\<lambda>i. vf_pool_p (of_nat i) ad * IXGBE_ESX_HW_QUEUES_PER_POOL); last = nat (num_rx_pools ad - 1)
      in (map (\<lambda>i. ucast (q i)) [0..<last] @ map (\<lambda>i. ucast (q last + of_nat i)) [0..<IXGBE_ESX_RSS_QUEUES],
          map (\<lambda>i. ucast (q i)) [0..<nat (num_tx_queues ad)]))"

definition ixgbe_cache_ring_vmdq :: "('h, 'z) q_adapter_scheme \<Rightarrow> fault + bool \<times> ('h, 'z) q_adapter_scheme" where
  "ixgbe_cache_ring_vmdq ad =
     (if \<not> vmdq_enabled ad then Inr (False, ad)
      else rbind (put_both 0 (vmdq_queues (NOT (ucast (pool_mask ad))) (num_rx_queues ad) ad) (vmdq_queues (ucast (rf_mask (rss ad))) (num_tx_queues ad) ad) ad) (\<lambda>ad1.
           rbind (if rf_limit (rss ad1) > 1 then put_both 0 (fst (esx_rss_queues ad1)) (snd (esx_rss_queues ad1)) ad1 else Inr ad1) (\<lambda>ad2.
           Inr (True, ad2))))"

definition ixgbe_cache_ring_rss :: "('h, 'z) q_adapter_scheme \<Rightarrow> fault + ('h, 'z) q_adapter_scheme" where
  "ixgbe_cache_ring_rss ad = put_both 0 (map of_nat [0..<nat (num_rx_queues ad)]) (map of_nat [0..<nat (num_tx_queues ad)]) ad"

definition ixgbe_cache_ring_register :: "('h, 'z) q_adapter_scheme \<Rightarrow> fault + ('h, 'z) q_adapter_scheme" where
  "ixgbe_cache_ring_register ad =
     rbind (ixgbe_cache_ring_dcb_vmdq ad) (\<lambda>(done1, ad1). if done1 then Inr ad1
     else rbind (ixgbe_cache_ring_dcb ad1) (\<lambda>(done2, ad2). if done2 then Inr ad2
     else rbind (ixgbe_cache_ring_vmdq ad2) (\<lambda>(done3, ad3). if done3 then Inr ad3 else ixgbe_cache_ring_rss ad3)))"

section \<open>The pools of the hardware\<close>

definition pf_pools :: "'h device \<Rightarrow> ('h, 'z) q_adapter_scheme \<Rightarrow> 'h flt_hw \<Rightarrow> 'h flt_hw" where
  "pf_pools R ad hw =
     (let p = vf_pool_p 0 ad;
          hw1 = rmw R IXGBE_VT_CTL (\<lambda>r. let r1 = ((r OR IXGBE_VT_CTL_VT_ENABLE) AND NOT IXGBE_VT_CTL_POOL_MASK) OR push_bit 7 p
                                        in if num_vfs ad \<noteq> 0 then r1 OR IXGBE_VT_CTL_REPLEN else r1) hw;
          hw2 = fold (\<lambda>i. rmw R (IXGBE_VMOLR (unat (vf_pool_p (of_nat i) ad))) (\<lambda>r. r OR IXGBE_VMOLR_AUPE)) [1..<nat (num_rx_pools ad)] hw1;
          mine = push_bit (unat p mod 32) (- 1); k = (if p \<ge> 32 then 1 else 0); rest = of_nat k - 1
      in IXGBE_WRITE_REG R (IXGBE_VFTE (1 - k)) rest (IXGBE_WRITE_REG R (IXGBE_VFTE k) mine
         (IXGBE_WRITE_REG R (IXGBE_VFRE (1 - k)) rest (IXGBE_WRITE_REG R (IXGBE_VFRE k) mine hw2))))"

definition vt_mode_bits :: "u16 \<Rightarrow> u32" where
  "vt_mode_bits m = (if m = IXGBE_82599_VMDQ_8Q_MASK then 1 else if m = IXGBE_82599_VMDQ_4Q_MASK then 2 else 3)"

definition ixgbe_configure_virtualization :: "'h device \<Rightarrow> ('h, 'z) q_adapter_scheme \<Rightarrow> ('h, 'z) q_adapter_scheme" where
  "ixgbe_configure_virtualization R ad =
     (if \<not> vmdq_enabled ad then ad
      else
        let mac = mac_type (mt_hw ad);
            ad1 = (if mac = ixgbe_mac_82598EB then vf_hw (rmw R IXGBE_VMD_CTL (\<lambda>r. r OR IXGBE_VMD_CTL_VMDQ_EN)) ad
                   else if mac = ixgbe_mac_82599EB \<or> mac = ixgbe_mac_X540 then vf_hw (pf_pools R ad) ad else ad)
        in if \<not> sriov_enabled ad1 then ad1
           else vf_hw (\<lambda>hw. ixgbe_set_mac_anti_spoofing R (num_vfs ad1 \<noteq> 0) (unat (num_vfs ad1))
                  (IXGBE_WRITE_REG R IXGBE_PFDTXGSWC (if l2loopback_enable ad1 then IXGBE_PFDTXGSWC_VT_LBEN else 0)
                     (IXGBE_WRITE_REG R IXGBE_GCR_EXT (vt_mode_bits (pool_mask ad1)) hw))) ad1)"

end
