(* ===== verification/QueueRings.thy ===== *)
theory QueueRings
  imports QueueLayout
begin

text \<open>
  Every ring drives a hardware queue of its own, and none of the queues of a virtual function.
\<close>

section \<open>Walks through the pools\<close>

lemma queue_walk_length [simp]: "length (fst (queue_walk f n r)) = n"
  by (induction n arbitrary: r) (simp_all add: case_prod_beta)

text \<open>One ring in each pool of \<open>p\<close> queues, from pool \<open>j\<close> on.\<close>

lemma queue_walk_pools:
  assumes "0 < n \<Longrightarrow> f r = of_nat (p * j)" "\<And>i. Suc i < n \<Longrightarrow> f (of_nat (p * (j + i)) + 1) = of_nat (p * (j + Suc i))"
  shows "fst (queue_walk f n r) = map (\<lambda>i. of_nat (p * (j + i))) [0..<n]"
  using assms
proof (induction n arbitrary: r j)
  case (Suc n)
  have "fst (queue_walk f n (f r + 1)) = map (\<lambda>i. of_nat (p * (Suc j + i))) [0..<n]"
  proof (rule Suc.IH)
    show "f (f r + 1) = of_nat (p * Suc j)" if "0 < n" using Suc.prems(1) Suc.prems(2)[of 0] that by simp
    show "f (of_nat (p * (Suc j + i)) + 1) = of_nat (p * (Suc j + Suc i))" if "Suc i < n" for i using Suc.prems(2)[of "Suc i"] that by simp
  qed
  then show ?case using Suc.prems(1) by (simp add: case_prod_beta map_upt_Suc algebra_simps del: upt_Suc)
qed simp

text \<open>The positions at which the driver moves on: pools of one, two and four queues with one ring each.\<close>

lemma next_pool_1: "j < 16 \<Longrightarrow> next_pool 0xF (NOT 0xF) 1 (of_nat j) = of_nat j \<and> next_pool 0xF 0 1 (of_nat j) = of_nat j"
proof -
  have "\<forall>j \<in> set [0..<16]. next_pool 0xF (NOT 0xF) 1 (of_nat j) = of_nat j \<and> next_pool 0xF 0 1 (of_nat j) = of_nat j" by code_simp
  then show "j < 16 \<Longrightarrow> ?thesis" by simp
qed

lemma next_pool_2: "j < 64 \<Longrightarrow> p = NOT 0x7E \<or> p = 1 \<Longrightarrow> next_pool 0x7E p 1 (of_nat (2 * j)) = of_nat (2 * j)"
  "j < 63 \<Longrightarrow> p = NOT 0x7E \<or> p = 1 \<Longrightarrow> next_pool 0x7E p 1 (of_nat (2 * j) + 1) = of_nat (2 * Suc j)"
proof -
  have "\<forall>j \<in> set [0..<64]. next_pool 0x7E (NOT 0x7E) 1 (of_nat (2 * j)) = of_nat (2 * j) \<and> next_pool 0x7E 1 1 (of_nat (2 * j)) = of_nat (2 * j)" by code_simp
  then show "j < 64 \<Longrightarrow> p = NOT 0x7E \<or> p = 1 \<Longrightarrow> next_pool 0x7E p 1 (of_nat (2 * j)) = of_nat (2 * j)" by auto
  have "\<forall>j \<in> set [0..<63]. next_pool 0x7E (NOT 0x7E) 1 (of_nat (2 * j) + 1) = of_nat (2 * Suc j) \<and> next_pool 0x7E 1 1 (of_nat (2 * j) + 1) = of_nat (2 * Suc j)"
    by code_simp
  then show "j < 63 \<Longrightarrow> p = NOT 0x7E \<or> p = 1 \<Longrightarrow> next_pool 0x7E p 1 (of_nat (2 * j) + 1) = of_nat (2 * Suc j)" by auto
qed

lemma next_pool_4: "j < 32 \<Longrightarrow> next_pool 0x7C (NOT 0x7C) 1 (of_nat (4 * j)) = of_nat (4 * j)"
  "j < 31 \<Longrightarrow> next_pool 0x7C (NOT 0x7C) 1 (of_nat (4 * j) + 1) = of_nat (4 * Suc j)"
proof -
  have "\<forall>j \<in> set [0..<32]. next_pool 0x7C (NOT 0x7C) 1 (of_nat (4 * j)) = of_nat (4 * j)" by code_simp
  then show "j < 32 \<Longrightarrow> next_pool 0x7C (NOT 0x7C) 1 (of_nat (4 * j)) = of_nat (4 * j)" by simp
  have "\<forall>j \<in> set [0..<31]. next_pool 0x7C (NOT 0x7C) 1 (of_nat (4 * j) + 1) = of_nat (4 * Suc j)" by code_simp
  then show "j < 31 \<Longrightarrow> next_pool 0x7C (NOT 0x7C) 1 (of_nat (4 * j) + 1) = of_nat (4 * Suc j)" by simp
qed


section \<open>Rings and their queues\<close>

lemma put_regs_all:
  assumes "length rs = length rings"
  shows "put_regs 0 rs rings = Inr (map2 (\<lambda>r q. q\<lparr>reg_idx := ucast r\<rparr>) rs rings)"
  using assms by (simp add: put_regs_def)

lemma map_reg_idx: "length rs = length rings \<Longrightarrow> map reg_idx (map2 (\<lambda>r q. q\<lparr>reg_idx := ucast r\<rparr>) rs rings) = map ucast rs"
  by (induction rs rings rule: list_induct2) simp_all

lemma put_both_all:
  assumes "length rx = length (rx_ring ad)" "length tx = length (tx_ring ad)"
  shows "\<exists>rs ts. put_both 0 rx tx ad = Inr (ad\<lparr>rx_ring := rs, tx_ring := ts\<rparr>) \<and> map reg_idx rs = map ucast rx \<and> map reg_idx ts = map ucast tx"
proof (intro exI conjI)
  show "put_both 0 rx tx ad = Inr (ad\<lparr>rx_ring := map2 (\<lambda>r q. q\<lparr>reg_idx := ucast r\<rparr>) rx (rx_ring ad), tx_ring := map2 (\<lambda>r q. q\<lparr>reg_idx := ucast r\<rparr>) tx (tx_ring ad)\<rparr>)"
    by (simp add: put_both_def put_regs_all assms)
qed (rule map_reg_idx[OF assms(1)], rule map_reg_idx[OF assms(2)])

text \<open>\<open>own_queues lo hi rings\<close>: the rings drive different queues, all from \<open>lo\<close> on and below \<open>hi\<close>.\<close>

definition own_queues :: "nat \<Rightarrow> nat \<Rightarrow> q_ring list \<Rightarrow> bool" where
  "own_queues lo hi rings \<longleftrightarrow> distinct (map reg_idx rings) \<and> (\<forall>q \<in> set rings. lo \<le> unat (reg_idx q) \<and> unat (reg_idx q) < hi)"

lemma own_queuesI:
  assumes "map reg_idx rings = map of_nat ns" "distinct ns" "\<forall>x \<in> set ns. lo \<le> x \<and> x < hi" "hi \<le> 256"
  shows "own_queues lo hi rings"
proof -
  have u: "unat (of_nat x :: u8) = x" if "x \<in> set ns" for x using assms(3,4) that by (force simp: unat_of_nat)
  have "inj_on (of_nat :: nat \<Rightarrow> u8) (set ns)" by (rule inj_onI) (metis u)
  then have "distinct (map reg_idx rings)" using assms(1,2) by (simp add: distinct_map)
  moreover have "lo \<le> unat (reg_idx q) \<and> unat (reg_idx q) < hi" if "q \<in> set rings" for q
  proof -
    have "reg_idx q \<in> set (map of_nat ns)" using that assms(1) by (metis imageI list.set_map)
    then show ?thesis using u assms(3) by auto
  qed
  ultimately show ?thesis by (simp add: own_queues_def)
qed

text \<open>Blocks of \<open>n\<close> queues that do not overlap.\<close>

lemma blocks_distinct:
  assumes "\<And>t. Suc t < m \<Longrightarrow> f t + n \<le> f (Suc t)"
  shows "distinct (concat (map (\<lambda>t. [f t..<f t + n]) [0..<m])) \<and> (\<forall>x \<in> set (concat (map (\<lambda>t. [f t..<f t + n]) [0..<m])). 0 < m \<and> x < f (m - 1) + n)"
  using assms
proof (induction m)
  case (Suc m)
  define L where "L = concat (map (\<lambda>t. [f t..<f t + n]) [0..<m])"
  have IH: "distinct L" "\<And>x. x \<in> set L \<Longrightarrow> 0 < m \<and> x < f (m - 1) + n" using Suc.IH Suc.prems by (auto simp only: L_def Suc_lessD)
  have lt: "x < f m" if "x \<in> set L" for x using IH(2)[OF that] Suc.prems[of "m - 1"] by auto
  have "distinct (L @ [f m..<f m + n])" using IH(1) lt by (auto simp: less_le_not_le)
  moreover have "\<forall>x \<in> set (L @ [f m..<f m + n]). x < f m + n" by (auto dest: lt)
  moreover have "concat (map (\<lambda>t. [f t..<f t + n]) [0..<Suc m]) = L @ [f m..<f m + n]" by (simp add: L_def)
  ultimately show ?case by simp
qed simp

lemma length_put_tc [simp]: "length (put_tc k n tc rings) = length rings"
  by (auto simp: put_tc_def)

lemma map_put_tc [simp]: "map reg_idx (put_tc k n tc rings) = map reg_idx rings"
proof -
  have "map reg_idx (put_tc k n tc rings) = map reg_idx (take k rings @ take n (drop k rings) @ drop n (drop k rings))"
    by (simp add: put_tc_def add.commute)
  then show ?thesis by (simp only: append_take_drop_id)
qed

lemma put_regs_at:
  assumes "k + length rs \<le> length rings"
  shows "\<exists>rings'. put_regs k rs rings = Inr rings' \<and> length rings' = length rings \<and>
    map reg_idx rings' = take k (map reg_idx rings) @ map ucast rs @ drop (k + length rs) (map reg_idx rings)"
proof -
  have z: "zip rs ys = zip rs (take (length rs) ys)" for ys :: "q_ring list"
  proof (induction rs arbitrary: ys)
    case (Cons r rs)
    then show ?case by (cases ys) auto
  qed simp
  have "map reg_idx (map2 (\<lambda>r q. q\<lparr>reg_idx := ucast r\<rparr>) rs (drop k rings)) = map ucast rs"
    by (subst z, rule map_reg_idx) (use assms in simp)
  then have "map reg_idx (take k rings @ map2 (\<lambda>r q. q\<lparr>reg_idx := ucast r\<rparr>) rs (drop k rings) @ drop (k + length rs) rings) =
      take k (map reg_idx rings) @ map ucast rs @ drop (k + length rs) (map reg_idx rings)"
    by (simp only: map_append take_map drop_map)
  moreover have "length (take k rings @ map2 (\<lambda>r q. q\<lparr>reg_idx := ucast r\<rparr>) rs (drop k rings) @ drop (k + length rs) rings) = length rings"
    using assms by simp
  ultimately show ?thesis using assms unfolding put_regs_def by (simp only: if_True, intro exI conjI) (rule refl, assumption+)
qed


lemma ucast_nat [simp]: "(ucast (of_nat n :: u16) :: u8) = of_nat n"
  by (rule bit_word_eqI) (simp add: bit_simps)

lemma put_both_own:
  assumes "length (rx_ring ad) = length nr" "length (tx_ring ad) = length nt"
    and "distinct nr" "\<forall>x \<in> set nr. lo \<le> x \<and> x < hr" "hr \<le> 256" "distinct nt" "\<forall>x \<in> set nt. lo \<le> x \<and> x < ht" "ht \<le> 256"
  shows "\<exists>rs ts. put_both 0 (map of_nat nr) (map of_nat nt) ad = Inr (ad\<lparr>rx_ring := rs, tx_ring := ts\<rparr>) \<and>
    own_queues lo hr rs \<and> own_queues lo ht ts \<and> map (\<lambda>q. unat (reg_idx q)) rs = nr \<and> map (\<lambda>q. unat (reg_idx q)) ts = nt"
proof -
  obtain rs ts where 1: "put_both 0 (map of_nat nr) (map of_nat nt) ad = Inr (ad\<lparr>rx_ring := rs, tx_ring := ts\<rparr>)"
      "map reg_idx rs = map of_nat nr" "map reg_idx ts = map of_nat nt"
    using put_both_all[of "map of_nat nr" ad "map of_nat nt"] assms(1,2) by (auto simp: comp_def)
  have nums: "map (\<lambda>q. unat (reg_idx q)) rings = ns" if "map reg_idx rings = map of_nat ns" "\<forall>x \<in> set ns. lo \<le> x \<and> x < hi" "hi \<le> 256" for rings ns and hi :: nat
  proof -
    have "map (\<lambda>q. unat (reg_idx q)) rings = map unat (map of_nat ns :: u8 list)" by (simp only: that(1)[symmetric] map_map comp_def)
    also have "\<dots> = ns" unfolding map_map by (rule map_idI) (use that(2,3) in \<open>auto simp: unat_of_nat\<close>)
    finally show ?thesis .
  qed
  show ?thesis using 1(1) nums[OF 1(2) assms(4,5)] nums[OF 1(3) assms(7,8)] own_queuesI[OF 1(2) assms(3-5)] own_queuesI[OF 1(3) assms(6-8)] by blast
qed

section \<open>The layout\<close>

definition new_ring :: q_ring where
  "new_ring = \<lparr>reg_idx = 0, ring_tc = 0\<rparr>"

text \<open>The rings \<open>ixgbe_alloc_q_vectors\<close> allocates, as many as have been asked for.\<close>

definition alloc_rings :: "('h, 'z) q_adapter_scheme \<Rightarrow> ('h, 'z) q_adapter_scheme" where
  "alloc_rings ad = ad\<lparr>rx_ring := replicate (nat (num_rx_queues ad)) new_ring, tx_ring := replicate (nat (num_tx_queues ad)) new_ring\<rparr>"

definition hw_rx_queues :: "ixgbe_mac_type \<Rightarrow> nat" where
  "hw_rx_queues mac = (if mac = ixgbe_mac_82598EB then 64 else 128)"

definition hw_tx_queues :: "ixgbe_mac_type \<Rightarrow> nat" where
  "hw_tx_queues mac = (if mac = ixgbe_mac_82598EB then 32 else 128)"

text \<open>
  What the module parameters grant: at most 16 pools besides those of the virtual functions, with pools four rings of
  receive side scaling or none, none on an 82598, and no FCoE.
\<close>

definition layout_limits :: "('h, 'z) q_adapter_scheme \<Rightarrow> bool" where
  "layout_limits ad \<longleftrightarrow> \<not> fcoe_enabled ad \<and> rf_offset (fcoe ad) = 0 \<and> netdev_get_num_tc ad \<le> 8 \<and>
     1 \<le> unat (rf_limit (rss ad)) \<and> unat (rf_limit (rss ad)) \<le> 16 \<and> 1 \<le> unat (rf_limit (fdir ad)) \<and> unat (rf_limit (fdir ad)) \<le> 63 \<and> (1 :: u16) \<le> ucast (dev_indices ad) \<and>
     mac_type (mt_hw ad) \<in> {ixgbe_mac_82598EB, ixgbe_mac_82599EB, ixgbe_mac_X540} \<and>
     (mac_type (mt_hw ad) = ixgbe_mac_82598EB \<longrightarrow> pool_offset ad = 0 \<and> atr_sample_rate ad = 0 \<and> (vmdq_enabled ad \<longrightarrow> rf_limit (rss ad) = 1)) \<and>
     (if vmdq_enabled ad
      then rf_limit (rss ad) \<in> {1, of_nat IXGBE_ESX_RSS_QUEUES} \<and> 1 \<le> unat (vmdq_limit ad) \<and> unat (vmdq_limit ad) \<le> 16 \<and>
        unat (pool_offset ad) + unat (vmdq_limit ad) \<le> (if netdev_get_num_tc ad > 1 then 32 else if rf_limit (rss ad) > 1 then 31 else 64)
      else pool_offset ad = 0)"

text \<open>
  The ring \<open>i\<close> works in pool \<open>i\<close> of the physical function; the receive rings behind the last pool share it.
\<close>

definition in_pools :: "('h, 'z) q_adapter_scheme \<Rightarrow> bool" where
  "in_pools ad \<longleftrightarrow>
     (\<forall>i < length (rx_ring ad). unat (reg_idx (rx_ring ad ! i)) div unat (q_per_pool ad) = unat (pool_offset ad) + min i (nat (num_rx_pools ad) - 1)) \<and>
     (\<forall>i < length (tx_ring ad). unat (reg_idx (tx_ring ad ! i)) div unat (q_per_pool ad) = unat (pool_offset ad) + i)"

definition laid_out :: "('h, 'z) q_adapter_scheme \<Rightarrow> bool" where
  "laid_out ad \<longleftrightarrow> 1 \<le> num_rx_queues ad \<and> num_rx_queues ad \<le> MAX_RX_QUEUES \<and> 1 \<le> num_tx_queues ad \<and> num_tx_queues ad \<le> MAX_TX_QUEUES \<and>
     length (rx_ring ad) = nat (num_rx_queues ad) \<and> length (tx_ring ad) = nat (num_tx_queues ad) \<and>
     own_queues (unat (pool_offset ad) * unat (q_per_pool ad)) (hw_rx_queues (mac_type (mt_hw ad))) (rx_ring ad) \<and>
     own_queues (unat (pool_offset ad) * unat (q_per_pool ad)) (hw_tx_queues (mac_type (mt_hw ad))) (tx_ring ad) \<and>
     (vmdq_enabled ad \<and> mac_type (mt_hw ad) \<noteq> ixgbe_mac_82598EB \<longrightarrow> in_pools ad)"

lemma alloc_simps [simp]:
  "length (rx_ring (alloc_rings ad)) = nat (num_rx_queues ad)" "length (tx_ring (alloc_rings ad)) = nat (num_tx_queues ad)"
  "vmdq_enabled (alloc_rings ad) = vmdq_enabled ad" "netdev_get_num_tc (alloc_rings ad) = netdev_get_num_tc ad" "mt_hw (alloc_rings ad) = mt_hw ad"
  "num_rx_queues (alloc_rings ad) = num_rx_queues ad" "num_tx_queues (alloc_rings ad) = num_tx_queues ad" "pool_mask (alloc_rings ad) = pool_mask ad"
  "pool_offset (alloc_rings ad) = pool_offset ad" "rss (alloc_rings ad) = rss ad" "fcoe (alloc_rings ad) = fcoe ad" "fcoe_enabled (alloc_rings ad) = fcoe_enabled ad"
  "q_per_pool (alloc_rings ad) = q_per_pool ad" "num_rx_pools (alloc_rings ad) = num_rx_pools ad"
  by (simp_all add: alloc_rings_def netdev_get_num_tc_def q_per_pool_def)

text \<open>A layout given by lists of queue numbers.\<close>

lemma laid_outI:
  assumes "\<And>ad'. put_both 0 (map of_nat nr) (map of_nat nt) (alloc_rings ad) = Inr ad' \<Longrightarrow> m = Inr ad'"
    and "length nr = nat (num_rx_queues ad)" "length nt = nat (num_tx_queues ad)" "1 \<le> num_rx_queues ad" "1 \<le> num_tx_queues ad"
    and "length nr \<le> 71" "length nt \<le> 71"
    and "distinct nr" "\<forall>x \<in> set nr. unat (pool_offset ad) * unat (q_per_pool ad) \<le> x \<and> x < hw_rx_queues (mac_type (mt_hw ad))"
    and "distinct nt" "\<forall>x \<in> set nt. unat (pool_offset ad) * unat (q_per_pool ad) \<le> x \<and> x < hw_tx_queues (mac_type (mt_hw ad))"
    and "vmdq_enabled ad \<Longrightarrow> mac_type (mt_hw ad) \<noteq> ixgbe_mac_82598EB \<Longrightarrow>
      (\<forall>i < length nr. nr ! i div unat (q_per_pool ad) = unat (pool_offset ad) + min i (nat (num_rx_pools ad) - 1)) \<and>
      (\<forall>i < length nt. nt ! i div unat (q_per_pool ad) = unat (pool_offset ad) + i)"
  shows "\<exists>ad'. m = Inr ad' \<and> laid_out ad'"
proof -
  have "hw_rx_queues (mac_type (mt_hw ad)) \<le> 256" "hw_tx_queues (mac_type (mt_hw ad)) \<le> 256" by (simp_all add: hw_rx_queues_def hw_tx_queues_def)
  then obtain rs ts where 1: "put_both 0 (map of_nat nr) (map of_nat nt) (alloc_rings ad) = Inr (alloc_rings ad\<lparr>rx_ring := rs, tx_ring := ts\<rparr>)"
      "own_queues (unat (pool_offset ad) * unat (q_per_pool ad)) (hw_rx_queues (mac_type (mt_hw ad))) rs"
      "own_queues (unat (pool_offset ad) * unat (q_per_pool ad)) (hw_tx_queues (mac_type (mt_hw ad))) ts" "map (\<lambda>q. unat (reg_idx q)) rs = nr" "map (\<lambda>q. unat (reg_idx q)) ts = nt"
    using put_both_own[of "alloc_rings ad" nr nt, where lo = "unat (pool_offset ad) * unat (q_per_pool ad)", OF _ _ assms(8,9) _ assms(10,11)] assms(2,3) by auto
  have "num_rx_queues ad \<le> 71" "num_tx_queues ad \<le> 71" using assms(2,3,6,7) by linarith+
  moreover have l: "length rs = length nr" "length ts = length nt" using 1(4,5) by (metis length_map)+
  moreover have "unat (reg_idx (rs ! i)) = nr ! i" if "i < length nr" for i using 1(4) that l by (metis nth_map)
  moreover have "unat (reg_idx (ts ! i)) = nt ! i" if "i < length nt" for i using 1(5) that l by (metis nth_map)
  ultimately show ?thesis using assms(1)[OF 1(1)] 1(2,3) assms(2-5,12)
    by (simp add: laid_out_def in_pools_def q_per_pool_def alloc_rings_def)
qed

subsection \<open>Receive side scaling and traffic classes\<close>

lemma laid_out_rss:
  assumes "\<not> vmdq_enabled ad" "netdev_get_num_tc ad \<le> 1" "pool_offset ad = 0"
    and "1 \<le> num_rx_queues ad" "num_rx_queues ad \<le> (if mac_type (mt_hw ad) = ixgbe_mac_82598EB then 32 else 71)" "num_tx_queues ad = num_rx_queues ad"
  shows "\<exists>ad'. ixgbe_cache_ring_register (alloc_rings ad) = Inr ad' \<and> laid_out ad'"
proof (rule laid_outI[where nr = "[0..<nat (num_rx_queues ad)]" and nt = "[0..<nat (num_tx_queues ad)]"])
  show "ixgbe_cache_ring_register (alloc_rings ad) = Inr ad'"
    if "put_both 0 (map of_nat [0..<nat (num_rx_queues ad)]) (map of_nat [0..<nat (num_tx_queues ad)]) (alloc_rings ad) = Inr ad'" for ad'
    using that assms(1,2) by (simp add: ixgbe_cache_ring_register_def ixgbe_cache_ring_dcb_vmdq_def ixgbe_cache_ring_dcb_def ixgbe_cache_ring_vmdq_def ixgbe_cache_ring_rss_def)
qed (use assms(1,3-6) in \<open>auto simp: hw_rx_queues_def hw_tx_queues_def split: if_splits\<close>)

text \<open>The queues of \<open>m\<close> traffic classes.\<close>

lemma splice:
  assumes "length A = k" "xs = A @ drop k zs" "ys = take k xs @ B @ drop (k + n) xs"
  shows "ys = (A @ B) @ drop (n + k) zs"
  using assms by (simp add: add.commute)

lemma cache_tcs:
  fixes ad :: "('h, 'z) q_adapter_scheme"
  assumes "m * n \<le> length (rx_ring ad)" "m * n \<le> length (tx_ring ad)"
  shows "\<exists>rs ts. fold (\<lambda>tc r. rbind r (cache_tc n tc)) [0..<m] (Inr ad) = Inr (ad\<lparr>rx_ring := rs, tx_ring := ts\<rparr>) \<and>
    map reg_idx rs = map of_nat (concat (map (\<lambda>t. [snd (ixgbe_get_first_reg_idx ad t)..<snd (ixgbe_get_first_reg_idx ad t) + n]) [0..<m])) @ drop (m * n) (map reg_idx (rx_ring ad)) \<and>
    map reg_idx ts = map of_nat (concat (map (\<lambda>t. [fst (ixgbe_get_first_reg_idx ad t)..<fst (ixgbe_get_first_reg_idx ad t) + n]) [0..<m])) @ drop (m * n) (map reg_idx (tx_ring ad))"
  using assms
proof (induction m)
  case 0
  show ?case by (intro exI[of _ "rx_ring ad"] exI[of _ "tx_ring ad"]) simp
next
  case (Suc m)
  let ?rx = "\<lambda>t. [snd (ixgbe_get_first_reg_idx ad t)..<snd (ixgbe_get_first_reg_idx ad t) + n]"
  let ?tx = "\<lambda>t. [fst (ixgbe_get_first_reg_idx ad t)..<fst (ixgbe_get_first_reg_idx ad t) + n]"
  have cl: "length (concat (map (\<lambda>t. [f t..<f t + n]) [0..<m])) = m * n" for f by (induction m) simp_all
  obtain rs ts where IH: "fold (\<lambda>tc r. rbind r (cache_tc n tc)) [0..<m] (Inr ad) = Inr (ad\<lparr>rx_ring := rs, tx_ring := ts\<rparr>)"
      "map reg_idx rs = map of_nat (concat (map ?rx [0..<m])) @ drop (m * n) (map reg_idx (rx_ring ad))"
      "map reg_idx ts = map of_nat (concat (map ?tx [0..<m])) @ drop (m * n) (map reg_idx (tx_ring ad))"
    using Suc by auto
  have l: "length rs = length (rx_ring ad)" "length ts = length (tx_ring ad)"
    using arg_cong[OF IH(2), of length] arg_cong[OF IH(3), of length] Suc.prems by (simp_all add: cl)
  obtain rs' where r: "put_regs (m * n) (map of_nat (?rx m)) rs = Inr rs'" "length rs' = length rs"
      "map reg_idx rs' = take (m * n) (map reg_idx rs) @ map of_nat (?rx m) @ drop (m * n + n) (map reg_idx rs)"
    using put_regs_at[of "m * n" "map of_nat (?rx m)" rs] Suc.prems l by (auto simp: comp_def)
  obtain ts' where t: "put_regs (m * n) (map of_nat (?tx m)) ts = Inr ts'" "length ts' = length ts"
      "map reg_idx ts' = take (m * n) (map reg_idx ts) @ map of_nat (?tx m) @ drop (m * n + n) (map reg_idx ts)"
    using put_regs_at[of "m * n" "map of_nat (?tx m)" ts] Suc.prems l by (auto simp: comp_def)
  have first: "ixgbe_get_first_reg_idx (ad\<lparr>rx_ring := rs, tx_ring := ts\<rparr>) m = ixgbe_get_first_reg_idx ad m"
    by (simp add: ixgbe_get_first_reg_idx_def netdev_get_num_tc_def)
  obtain rxm txm where fm: "ixgbe_get_first_reg_idx ad m = (txm, rxm)" by (cases "ixgbe_get_first_reg_idx ad m")
  have step: "cache_tc n m (ad\<lparr>rx_ring := rs, tx_ring := ts\<rparr>) =
      Inr (ad\<lparr>rx_ring := put_tc (m * n) n (of_nat m) rs', tx_ring := put_tc (m * n) n (of_nat m) ts'\<rparr>)"
    using r(1) t(1) first fm by (simp add: cache_tc_def put_both_def)
  show ?case
  proof (intro exI conjI)
    show "fold (\<lambda>tc r. rbind r (cache_tc n tc)) [0..<Suc m] (Inr ad) = Inr (ad\<lparr>rx_ring := put_tc (m * n) n (of_nat m) rs', tx_ring := put_tc (m * n) n (of_nat m) ts'\<rparr>)"
      using IH(1) step by simp
    show "map reg_idx (put_tc (m * n) n (of_nat m) rs') = map of_nat (concat (map ?rx [0..<Suc m])) @ drop (Suc m * n) (map reg_idx (rx_ring ad))"
      using splice[OF _ IH(2) r(3)] cl by simp
    show "map reg_idx (put_tc (m * n) n (of_nat m) ts') = map of_nat (concat (map ?tx [0..<Suc m])) @ drop (Suc m * n) (map reg_idx (tx_ring ad))"
      using splice[OF _ IH(3) t(3)] cl by simp
  qed
qed


lemma laid_out_tcs:
  assumes "\<not> vmdq_enabled ad" "1 < netdev_get_num_tc ad" "netdev_get_num_tc ad \<le> 8" "pool_offset ad = 0"
    and "mac_type (mt_hw ad) \<in> {ixgbe_mac_82598EB, ixgbe_mac_82599EB, ixgbe_mac_X540}"
    and "num_rx_queues ad = int (unat (rf_indices (rss ad)) * unat (netdev_get_num_tc ad))" "num_tx_queues ad = num_rx_queues ad"
    and "1 \<le> unat (rf_indices (rss ad))" "unat (rf_indices (rss ad)) \<le> (if mac_type (mt_hw ad) = ixgbe_mac_82598EB then 4 else if netdev_get_num_tc ad > 4 then 8 else 16)"
  shows "\<exists>ad'. ixgbe_cache_ring_register (alloc_rings ad) = Inr ad' \<and> laid_out ad'"
proof -
  let ?n = "unat (rf_indices (rss ad))" and ?m = "unat (netdev_get_num_tc ad)"
  let ?rx = "\<lambda>t. snd (ixgbe_get_first_reg_idx ad t)" and ?tx = "\<lambda>t. fst (ixgbe_get_first_reg_idx ad t)"
  define nr where "nr = concat (map (\<lambda>t. [?rx t..<?rx t + ?n]) [0..<?m])"
  define nt where "nt = concat (map (\<lambda>t. [?tx t..<?tx t + ?n]) [0..<?m])"
  have tcs: "1 < ?m" "?m \<le> 8" "(netdev_get_num_tc ad > 4) = (?m > 4)" using assms(2,3) by (simp_all add: word_less_nat_alt word_le_nat_alt)
  have f: "ixgbe_get_first_reg_idx (alloc_rings ad) = ixgbe_get_first_reg_idx ad" by (simp add: fun_eq_iff ixgbe_get_first_reg_idx_def)
  have rx: "?rx t + ?n \<le> ?rx (Suc t)" and tx: "?tx t + ?n \<le> ?tx (Suc t)" if "Suc t < ?m" for t
    using assms(5,9) that tcs by (auto simp: ixgbe_get_first_reg_idx_def Let_def split: if_splits)
  have ends: "?rx (?m - 1) + ?n \<le> hw_rx_queues (mac_type (mt_hw ad))" "?tx (?m - 1) + ?n \<le> hw_tx_queues (mac_type (mt_hw ad))"
    using assms(5,9) tcs by (auto simp: ixgbe_get_first_reg_idx_def Let_def hw_rx_queues_def hw_tx_queues_def split: if_splits)
  have nr: "distinct nr" "\<forall>x \<in> set nr. x < hw_rx_queues (mac_type (mt_hw ad))" and nt: "distinct nt" "\<forall>x \<in> set nt. x < hw_tx_queues (mac_type (mt_hw ad))"
    using blocks_distinct[of ?m ?rx ?n, OF rx, folded nr_def] blocks_distinct[of ?m ?tx ?n, OF tx, folded nt_def] ends by (meson less_le_trans)+
  have cl: "length (concat (map (\<lambda>t. [f t..<f t + n]) [0..<m])) = m * n" for f n m by (induction m) simp_all
  have len: "length (rx_ring (alloc_rings ad)) = ?m * ?n" "length (tx_ring (alloc_rings ad)) = ?m * ?n"
    using assms(6,7) by (simp_all only: alloc_simps nat_int mult.commute)
  obtain rs ts where 1: "fold (\<lambda>tc r. rbind r (cache_tc ?n tc)) [0..<?m] (Inr (alloc_rings ad)) = Inr (alloc_rings ad\<lparr>rx_ring := rs, tx_ring := ts\<rparr>)"
      "map reg_idx rs = map of_nat nr" "map reg_idx ts = map of_nat nt"
    using cache_tcs[of ?m ?n "alloc_rings ad", unfolded f, folded nr_def nt_def] len by auto
  have l: "length rs = ?m * ?n" "length ts = ?m * ?n" using arg_cong[OF 1(2), of length] arg_cong[OF 1(3), of length] by (simp_all add: nr_def nt_def cl)
  have "own_queues 0 (hw_rx_queues (mac_type (mt_hw ad))) rs" "own_queues 0 (hw_tx_queues (mac_type (mt_hw ad))) ts"
    using own_queuesI[OF 1(2) nr(1)] own_queuesI[OF 1(3) nt(1)] nr(2) nt(2) by (simp_all add: hw_rx_queues_def hw_tx_queues_def)
  moreover have "?m * ?n \<le> 71"
  proof -
    have "?m * ?n \<le> 64" using assms(9) tcs mult_le_mono[of ?m 8 ?n 8] mult_le_mono[of ?m 4 ?n 16] by (auto split: if_splits)
    then show ?thesis by simp
  qed
  then have "int ?n * int ?m \<le> 71" by (metis mult.commute of_nat_le_iff of_nat_mult of_nat_numeral)
  moreover have "ixgbe_cache_ring_register (alloc_rings ad) = Inr (alloc_rings ad\<lparr>rx_ring := rs, tx_ring := ts\<rparr>)"
    using 1(1) assms(1) not_le[THEN iffD2, OF assms(2)] by (auto simp: ixgbe_cache_ring_register_def ixgbe_cache_ring_dcb_vmdq_def ixgbe_cache_ring_dcb_def Let_def)
  moreover have "1 \<le> int ?n * int ?m"
  proof -
    have "1 * 1 \<le> ?n * ?m" using assms(8) tcs(1) by (intro mult_le_mono) simp_all
    then have "int 1 \<le> int (?n * ?m)" by (simp only: of_nat_le_iff)
    then show ?thesis by simp
  qed
  ultimately show ?thesis using assms(1,4,6,7) l by (simp add: laid_out_def nat_mult_distrib mult.commute alloc_rings_def)
qed


subsection \<open>Pools\<close>

text \<open>The queues of pools with one ring each.\<close>

lemma q_per_pool_values:
  "pool_mask ad = 0x7E \<Longrightarrow> q_per_pool ad = 2" "pool_mask ad = 0x7C \<Longrightarrow> q_per_pool ad = 4" "pool_mask ad = 0xF \<Longrightarrow> q_per_pool ad = 1"
  by (simp_all add: q_per_pool_def Let_def)

lemma first_pool_at:
  assumes "q_per_pool ad = of_nat p" "p \<le> 4"
  shows "first_pool ad = of_nat (p * unat (pool_offset ad))"
proof -
  have "(ucast (pool_offset ad) :: u32) * of_nat p = of_nat (p * unat (pool_offset ad))" by (simp add: mult.commute)
  moreover have "(ucast (of_nat x :: u32) :: u16) = of_nat x" for x by (rule bit_word_eqI) (simp add: bit_simps)
  ultimately show ?thesis by (simp only: first_pool_def assms(1))
qed

lemma pool_walk:
  assumes "q_per_pool ad = of_nat p" "p \<le> 4" "unat (pool_offset ad) + n \<le> k"
    and "\<And>j. j < k \<Longrightarrow> f (of_nat (p * j)) = of_nat (p * j)" "\<And>j. Suc j < k \<Longrightarrow> f (of_nat (p * j) + 1) = of_nat (p * Suc j)"
  shows "fst (queue_walk f n (first_pool ad)) = map of_nat (map (\<lambda>i. p * (unat (pool_offset ad) + i)) [0..<n])"
proof -
  have "fst (queue_walk f n (first_pool ad)) = map (\<lambda>i. of_nat (p * (unat (pool_offset ad) + i))) [0..<n]"
  proof (rule queue_walk_pools)
    show "f (first_pool ad) = of_nat (p * unat (pool_offset ad))" if "0 < n"
      unfolding first_pool_at[OF assms(1,2)] by (rule assms(4)) (use that assms(3) in linarith)
    show "f (of_nat (p * (unat (pool_offset ad) + i)) + 1) = of_nat (p * (unat (pool_offset ad) + Suc i))" if "Suc i < n" for i
      unfolding add_Suc_right by (rule assms(5)) (use that assms(3) in linarith)
  qed
  then show ?thesis by (simp add: comp_def)
qed

text \<open>Pools of \<open>p\<close> queues from the first one of the physical function on.\<close>

lemma laid_out_pools:
  assumes "\<And>ad'. put_both 0 (map of_nat (map (\<lambda>i. p * (unat (pool_offset ad) + i)) [0..<n])) (map of_nat (map (\<lambda>i. p * (unat (pool_offset ad) + i)) [0..<n])) (alloc_rings ad) = Inr ad' \<Longrightarrow> m = Inr ad'"
    and "q_per_pool ad = of_nat p" "0 < p" "p \<le> 4" "num_rx_queues ad = int n" "num_tx_queues ad = int n" "n \<le> 71" "num_rx_pools ad = int n" "1 \<le> n"
    and "p * (unat (pool_offset ad) + n) \<le> hw_tx_queues (mac_type (mt_hw ad)) + (p - 1)"
  shows "\<exists>ad'. m = Inr ad' \<and> laid_out ad'"
proof (rule laid_outI[OF assms(1)])
  let ?ns = "map (\<lambda>i. p * (unat (pool_offset ad) + i)) [0..<n]"
  have q: "unat (q_per_pool ad) = p" using assms(2,4) by (simp add: unat_of_nat)
  show "distinct ?ns" "distinct ?ns" using assms(3) by (simp_all add: distinct_map inj_on_def)
  have "p * (unat (pool_offset ad) + i) < hw_tx_queues (mac_type (mt_hw ad))" if "i < n" for i
  proof -
    have "p * (unat (pool_offset ad) + i) + p \<le> p * (unat (pool_offset ad) + n)" using that mult_le_mono2[of "unat (pool_offset ad) + Suc i" "unat (pool_offset ad) + n" p] by simp
    then show ?thesis using assms(3,10) by linarith
  qed
  then show "\<forall>x \<in> set ?ns. unat (pool_offset ad) * unat (q_per_pool ad) \<le> x \<and> x < hw_tx_queues (mac_type (mt_hw ad))"
    using q by (auto simp: mult.commute distrib_left)
  then show "\<forall>x \<in> set ?ns. unat (pool_offset ad) * unat (q_per_pool ad) \<le> x \<and> x < hw_rx_queues (mac_type (mt_hw ad))"
    by (auto simp: hw_tx_queues_def hw_rx_queues_def split: if_splits)
  show "(\<forall>i < length ?ns. ?ns ! i div unat (q_per_pool ad) = unat (pool_offset ad) + min i (nat (num_rx_pools ad) - 1)) \<and>
      (\<forall>i < length ?ns. ?ns ! i div unat (q_per_pool ad) = unat (pool_offset ad) + i)" using q assms(3,8) by simp
qed (use assms(5-7,9) in simp_all)

lemma laid_out_dcb_vmdq:
  assumes "vmdq_enabled ad" "1 < netdev_get_num_tc ad" "\<not> fcoe_enabled ad" "num_rx_queues ad = int n" "num_tx_queues ad = int n" "num_rx_pools ad = int n" "1 \<le> n"
    and "if mac_type (mt_hw ad) = ixgbe_mac_82598EB then n \<le> 4 \<and> pool_offset ad = 0
         else mac_type (mt_hw ad) \<in> {ixgbe_mac_82599EB, ixgbe_mac_X540} \<and> pool_mask ad = 0x7C \<and> unat (pool_offset ad) + n \<le> 32"
  shows "\<exists>ad'. ixgbe_cache_ring_register (alloc_rings ad) = Inr ad' \<and> laid_out ad'"
proof (cases "mac_type (mt_hw ad) = ixgbe_mac_82598EB")
  case True
  have "\<forall>i \<in> set [0..<4]. swapped_rx i = of_nat (8 * i) \<and> swapped_tx i = of_nat (4 * i)" by code_simp
  then have sw: "map swapped_rx [0..<n] = map of_nat (map (\<lambda>i. 8 * i) [0..<n])" "map swapped_tx [0..<n] = map of_nat (map (\<lambda>i. 4 * i) [0..<n])"
    using assms(8) True by simp_all
  show ?thesis
  proof (rule laid_outI[where nr = "map (\<lambda>i. 8 * i) [0..<n]" and nt = "map (\<lambda>i. 4 * i) [0..<n]"])
    show "ixgbe_cache_ring_register (alloc_rings ad) = Inr ad'"
      if "put_both 0 (map of_nat (map (\<lambda>i. 8 * i) [0..<n])) (map of_nat (map (\<lambda>i. 4 * i) [0..<n])) (alloc_rings ad) = Inr ad'" for ad'
    proof -
      have "\<not> fcoe_enabled ad'" using that assms(3) by (auto simp: put_both_def rbind_eq_Inr alloc_rings_def)
      then show ?thesis using that[folded sw] True assms(1,4,5) not_le[THEN iffD2, OF assms(2)] by (auto simp: ixgbe_cache_ring_register_def ixgbe_cache_ring_dcb_vmdq_def Let_def)
    qed
  qed (use assms(4-8) True in \<open>auto simp: distinct_map inj_on_def hw_rx_queues_def hw_tx_queues_def\<close>)
next
  case False
  then have mac: "mac_type (mt_hw ad) \<in> {ixgbe_mac_82599EB, ixgbe_mac_X540}" "pool_mask ad = 0x7C" "unat (pool_offset ad) + n \<le> 32" using assms(8) by simp_all
  have q: "q_per_pool ad = of_nat 4" using q_per_pool_values(2)[OF mac(2)] by simp
  have w: "fst (queue_walk (next_pool 0x7C (NOT 0x7C) 1) n (first_pool ad)) = map of_nat (map (\<lambda>i. 4 * (unat (pool_offset ad) + i)) [0..<n])"
    by (rule pool_walk[OF q _ mac(3)]) (simp_all only: next_pool_4 le_refl)
  have fp: "first_pool (alloc_rings ad) = first_pool ad" by (simp add: first_pool_def)
  show ?thesis
  proof (rule laid_out_pools[OF _ q _ _ assms(4,5) _ assms(6,7)])
    show "ixgbe_cache_ring_register (alloc_rings ad) = Inr ad'"
      if "put_both 0 (map of_nat (map (\<lambda>i. 4 * (unat (pool_offset ad) + i)) [0..<n])) (map of_nat (map (\<lambda>i. 4 * (unat (pool_offset ad) + i)) [0..<n])) (alloc_rings ad) = Inr ad'" for ad'
    proof -
      have "\<not> fcoe_enabled ad'" using that assms(3) by (auto simp: put_both_def rbind_eq_Inr alloc_rings_def)
      then show ?thesis using that[folded w] fp mac False assms(1,4,5) not_le[THEN iffD2, OF assms(2)] by (auto simp: ixgbe_cache_ring_register_def ixgbe_cache_ring_dcb_vmdq_def Let_def)
    qed
  qed (use mac False in \<open>auto simp: hw_tx_queues_def\<close>)
qed


text \<open>Without FCoE the walk covers all rings.\<close>

lemma vmdq_queues_plain:
  assumes "rf_offset (fcoe ad) = 0"
  shows "vmdq_queues pos n ad = fst (queue_walk (next_pool (pool_mask ad) pos (rf_indices (rss ad))) (nat n) (first_pool ad))"
  using assms by (simp add: vmdq_queues_def case_prod_beta Let_def)

lemma first_pool_alloc [simp]: "first_pool (alloc_rings ad) = first_pool ad"
  by (simp add: first_pool_def)

lemma laid_out_vmdq:
  assumes "vmdq_enabled ad" "netdev_get_num_tc ad \<le> 1" "rf_offset (fcoe ad) = 0" "rf_limit (rss ad) = 1" "rf_indices (rss ad) = 1"
    and "num_rx_queues ad = int n" "num_tx_queues ad = int n" "num_rx_pools ad = int n" "1 \<le> n"
    and "if mac_type (mt_hw ad) = ixgbe_mac_82598EB then pool_mask ad = 0xF \<and> rf_mask (rss ad) = 0 \<and> n \<le> 16 \<and> pool_offset ad = 0
         else pool_mask ad = 0x7E \<and> rf_mask (rss ad) = 1 \<and> unat (pool_offset ad) + n \<le> 64"
  shows "\<exists>ad'. ixgbe_cache_ring_register (alloc_rings ad) = Inr ad' \<and> laid_out ad'"
proof -
  define p where "p = (if mac_type (mt_hw ad) = ixgbe_mac_82598EB then 1 else 2 :: nat)"
  let ?ns = "map (\<lambda>i. p * (unat (pool_offset ad) + i)) [0..<n]"
  have q: "q_per_pool ad = of_nat p" using assms(10) q_per_pool_values(1,3)[of ad] by (simp add: p_def split: if_splits)
  have "fst (queue_walk (next_pool (pool_mask ad) pos 1) n (first_pool ad)) = map of_nat ?ns" if "pos = NOT (ucast (pool_mask ad)) \<or> pos = ucast (rf_mask (rss ad))" for pos
  proof (cases "mac_type (mt_hw ad) = ixgbe_mac_82598EB")
    case True
    then have a: "pool_mask ad = 0xF" "rf_mask (rss ad) = 0" "n \<le> 16" "pool_offset ad = 0" "p = 1" using assms(10) by (simp_all add: p_def)
    have f: "next_pool 0xF pos 1 (of_nat j) = of_nat j" if "j < 16" for j using next_pool_1[OF that] \<open>pos = _ \<or> _\<close> a(1,2) by auto
    show ?thesis unfolding a(1)
    proof (rule pool_walk[OF q])
      show "next_pool 0xF pos 1 (of_nat (p * j)) = of_nat (p * j)" if "j < 16" for j using f[OF that] a(5) by simp
      show "next_pool 0xF pos 1 (of_nat (p * j) + 1) = of_nat (p * Suc j)" if "Suc j < 16" for j using f[OF that] a(5) by (simp add: add.commute)
    qed (use a in simp_all)
  next
    case False
    then have a: "pool_mask ad = 0x7E" "rf_mask (rss ad) = 1" "unat (pool_offset ad) + n \<le> 64" "p = 2" using assms(10) by (simp_all add: p_def)
    have pos: "pos = NOT 0x7E \<or> pos = 1" using that a(1,2) by auto
    show ?thesis unfolding a(1)
    proof (rule pool_walk[OF q _ a(3)])
      show "next_pool 0x7E pos 1 (of_nat (p * j)) = of_nat (p * j)" if "j < 64" for j unfolding a(4) by (rule next_pool_2(1)[OF that pos])
      show "next_pool 0x7E pos 1 (of_nat (p * j) + 1) = of_nat (p * Suc j)" if "Suc j < 64" for j unfolding a(4) by (rule next_pool_2(2)[OF _ pos]) (use that in simp)
    qed (simp add: a(4))
  qed
  then have w: "vmdq_queues (NOT (ucast (pool_mask ad))) (int n) (alloc_rings ad) = map of_nat ?ns" "vmdq_queues (ucast (rf_mask (rss ad))) (int n) (alloc_rings ad) = map of_nat ?ns"
    using assms(3,5) by (simp_all add: vmdq_queues_plain)
  show ?thesis
  proof (rule laid_out_pools[OF _ q _ _ assms(6,7) _ assms(8,9)])
    show "ixgbe_cache_ring_register (alloc_rings ad) = Inr ad'" if "put_both 0 (map of_nat ?ns) (map of_nat ?ns) (alloc_rings ad) = Inr ad'" for ad'
    proof -
      have "rf_limit (rss ad') = 1" using that assms(4) by (auto simp: put_both_def rbind_eq_Inr alloc_rings_def)
      then show ?thesis using that assms(1,2,6,7) w
        by (simp add: ixgbe_cache_ring_register_def ixgbe_cache_ring_dcb_vmdq_def ixgbe_cache_ring_dcb_def ixgbe_cache_ring_vmdq_def)
    qed
  qed (use assms(10) in \<open>auto simp: p_def hw_tx_queues_def split: if_splits\<close>)
qed

text \<open>A second write of all queues replaces the first.\<close>

lemma put_both_again:
  assumes "put_both 0 rx tx ad = Inr ad1" "length rx = length (rx_ring ad)" "length tx = length (tx_ring ad)"
    and "length rx' = length (rx_ring ad)" "length tx' = length (tx_ring ad)"
  shows "put_both 0 rx' tx' ad1 = put_both 0 rx' tx' ad"
proof -
  have again: "map2 (\<lambda>r q. q\<lparr>reg_idx := ucast r\<rparr>) rs' (map2 (\<lambda>r q. q\<lparr>reg_idx := ucast r\<rparr>) rs rings) = map2 (\<lambda>r q. q\<lparr>reg_idx := ucast r\<rparr>) rs' rings"
    if "length rs = length rings" "length rs' = length rings" for rs rs' :: "u16 list" and rings
    using that by (intro nth_equalityI) simp_all
  have "ad1 = ad\<lparr>rx_ring := map2 (\<lambda>r q. q\<lparr>reg_idx := ucast r\<rparr>) rx (rx_ring ad), tx_ring := map2 (\<lambda>r q. q\<lparr>reg_idx := ucast r\<rparr>) tx (tx_ring ad)\<rparr>"
    using assms(1-3) by (simp add: put_both_def put_regs_all)
  then show ?thesis using assms(2-5) again[OF assms(2,4)] again[OF assms(3,5)] by (simp add: put_both_def put_regs_all)
qed

end
