(* ===== verification/QueueFrame.thy ===== *)
theory QueueFrame
  imports QueueLayout
begin

text \<open>
  What the layout of the rings leaves alone: the virtual functions, the hardware and the configuration of an adapter; and
  assigning queues changes the rings only.
\<close>

section \<open>The numbers of rings\<close>

definition setup_of :: "('h, 'z) q_adapter_scheme \<Rightarrow> u32 \<times> vf_data_storage list \<times> ixgbe_dcb_config \<times> u8 list \<times> u16 \<times> bool \<times> 'h flt_hw" where
  "setup_of ad = (num_vfs ad, vfinfo ad, vf_dcb_cfg ad, dev_addr ad, pool_offset ad, sriov_enabled ad, mt_hw ad)"

lemma setup_upd [simp]:
  "setup_of (num_rx_queues_update f ad) = setup_of ad" "setup_of (num_tx_queues_update f ad) = setup_of ad" "setup_of (num_rx_pools_update g ad) = setup_of ad"
  "setup_of (num_rx_queues_per_pool_update g ad) = setup_of ad" "setup_of (rss_update r ad) = setup_of ad" "setup_of (fcoe_update r ad) = setup_of ad"
  "setup_of (fdir_update r ad) = setup_of ad" "setup_of (fdir_hash_update b ad) = setup_of ad" "setup_of (fcoe_enabled_update b ad) = setup_of ad"
  "setup_of (cna_enabled_update b ad) = setup_of ad" "setup_of (pool_mask_update m ad) = setup_of ad" "setup_of (vmdq_indices_update m ad) = setup_of ad"
  "setup_of (rx_ring_update rs ad) = setup_of ad" "setup_of (tx_ring_update rs ad) = setup_of ad"
  by (simp_all add: setup_of_def)

lemma setup_dcb_vmdq: "setup_of (snd (ixgbe_set_dcb_vmdq_queues ad)) = setup_of ad"
  by (simp add: ixgbe_set_dcb_vmdq_queues_def case_prod_beta Let_def)

lemma setup_dcb: "results (\<lambda>x. setup_of (snd x) = setup_of ad) (ixgbe_set_dcb_queues ad)"
  by (auto simp: ixgbe_set_dcb_queues_def case_prod_beta Let_def intro!: results_intros)

lemma setup_vmdq_fcoe: "setup_of (vmdq_fcoe cpus p r f ad) = setup_of ad"
  by (simp add: vmdq_fcoe_def case_prod_beta Let_def)

lemma setup_vmdq: "setup_of (snd (ixgbe_set_vmdq_queues cpus ad)) = setup_of ad"
  by (simp add: ixgbe_set_vmdq_queues_def case_prod_beta Let_def setup_vmdq_fcoe)

lemma let_intro: "(\<And>x. x = t \<Longrightarrow> P (f x)) \<Longrightarrow> P (let x = t in f x)"
  by (simp add: Let_def)

lemma pair_intro: "(\<And>a b. x = (a, b) \<Longrightarrow> P (f a b)) \<Longrightarrow> P (case x of (a, b) \<Rightarrow> f a b)"
  by (cases x) simp

lemma setup_rss: "setup_of (ixgbe_set_rss_queues cpus ad) = setup_of ad"
  unfolding ixgbe_set_rss_queues_def
  by (intro let_intro[where P = "\<lambda>x. setup_of x = setup_of ad"] pair_intro[where P = "\<lambda>x. setup_of x = setup_of ad"]) (auto split: if_splits)

lemma setup_steps:
  "ixgbe_set_dcb_vmdq_queues ad = (d, ad1) \<Longrightarrow> setup_of ad1 = setup_of ad"
  "ixgbe_set_dcb_queues ad = Inr (d, ad1) \<Longrightarrow> setup_of ad1 = setup_of ad"
  "ixgbe_set_vmdq_queues cpus ad = (d, ad1) \<Longrightarrow> setup_of ad1 = setup_of ad"
  using setup_dcb_vmdq[of ad] setup_dcb[of ad] setup_vmdq[of cpus ad] by (auto simp: results_def)

lemma setup_num: "ixgbe_set_num_queues cpus ad = Inr ad1 \<Longrightarrow> setup_of ad1 = setup_of ad"
proof (erule resultsD[rotated])
  show "results (\<lambda>ad1. setup_of ad1 = setup_of ad) (ixgbe_set_num_queues cpus ad)"
    unfolding ixgbe_set_num_queues_def Let_def by (intro results_intros) (auto simp: setup_rss dest!: setup_steps)
qed

section \<open>The queues of the rings\<close>

definition rings_only :: "('h, 'z) q_adapter_scheme \<Rightarrow> ('h, 'z) q_adapter_scheme \<Rightarrow> bool" where
  "rings_only ad ad' \<longleftrightarrow> ad'\<lparr>rx_ring := [], tx_ring := []\<rparr> = ad\<lparr>rx_ring := [], tx_ring := []\<rparr>"

lemma rings_only_refl [simp]: "rings_only ad ad"
  by (simp add: rings_only_def)

lemma rings_only_trans: "rings_only ad ad1 \<Longrightarrow> rings_only ad1 ad2 \<Longrightarrow> rings_only ad ad2"
  by (auto simp: rings_only_def)

lemma put_both_only: "put_both k rx tx ad = Inr ad1 \<Longrightarrow> rings_only ad ad1"
  by (auto simp: put_both_def rbind_eq_Inr rings_only_def)

lemma cache_tc_only: "cache_tc n tc ad = Inr ad1 \<Longrightarrow> rings_only ad ad1"
  by (auto simp: cache_tc_def rbind_eq_Inr split: prod.splits dest!: put_both_only) (simp add: rings_only_def)

lemma cache_dcb_only: "ixgbe_cache_ring_dcb ad = Inr (d, ad1) \<Longrightarrow> rings_only ad ad1"
proof -
  have "rings_only ad ad2" if "fold (\<lambda>tc r. rbind r (cache_tc n tc)) tcs (Inr ad) = Inr ad2" for n tcs ad2
    using that by (induction tcs arbitrary: ad2 rule: rev_induct) (auto simp: rbind_eq_Inr dest!: cache_tc_only intro: rings_only_trans)
  then show "ixgbe_cache_ring_dcb ad = Inr (d, ad1) \<Longrightarrow> rings_only ad ad1" by (auto simp: ixgbe_cache_ring_dcb_def Let_def rbind_eq_Inr split: if_splits)
qed

lemma cache_dcb_vmdq_only: "ixgbe_cache_ring_dcb_vmdq ad = Inr (d, ad1) \<Longrightarrow> rings_only ad ad1"
  by (auto simp: ixgbe_cache_ring_dcb_vmdq_def Let_def rbind_eq_Inr split: if_splits dest!: put_both_only intro: rings_only_trans)

lemma cache_vmdq_only: "ixgbe_cache_ring_vmdq ad = Inr (d, ad1) \<Longrightarrow> rings_only ad ad1"
  by (auto simp: ixgbe_cache_ring_vmdq_def rbind_eq_Inr split: if_splits dest!: put_both_only intro: rings_only_trans)

lemma cache_only: "ixgbe_cache_ring_register ad = Inr ad1 \<Longrightarrow> rings_only ad ad1"
  by (auto simp: ixgbe_cache_ring_register_def ixgbe_cache_ring_rss_def rbind_eq_Inr split: if_splits
      dest!: cache_dcb_only cache_vmdq_only cache_dcb_vmdq_only put_both_only intro: rings_only_trans)

end
