(* ===== verification/SriovFrame.thy ===== *)
theory SriovFrame
  imports Sriov MacFrame MbxMem
begin

text \<open>
  Accesses beside the receive addresses: on a device where they leave the receive address registers alone, the
  operations for virtual functions change neither the kind of the hardware nor what those registers hold.
\<close>

section \<open>Registers beside the receive addresses\<close>

lemma rar_addr_range: "i < 128 \<Longrightarrow> rar_addr k i \<in> {0x5400..<0x5480} \<union> {0xA280..<0xAA00}"
  by (cases k) auto

lemma not_rar:
  assumes "unat a < 0x5400 \<or> 0x5480 \<le> unat a \<and> unat a < 0xA280 \<or> 0xAA00 \<le> unat a"
  shows "a \<notin> rar_regs"
proof
  assume "a \<in> rar_regs"
  then obtain k i where "i < 128" "a = rar_reg k i" by (auto simp: rar_regs_def)
  then have "unat a \<in> {0x5400..<0x5480} \<union> {0xA280..<0xAA00}" using rar_addr_range[of i k] unat_rar_reg[of i k] by simp
  then show False using assms by auto
qed

lemma not_rar_at:
  assumes "unat b + unat s * i < 2 ^ 32"
    and "unat b + unat s * i < 0x5400 \<or> 0x5480 \<le> unat b + unat s * i \<and> unat b + unat s * i < 0xA280 \<or> 0xAA00 \<le> unat b + unat s * i"
  shows "reg_at b s i \<notin> rar_regs"
  using assms by (intro not_rar) (simp only: unat_reg_at)

definition same_rars :: "('h \<Rightarrow> u32 \<Rightarrow> u32) \<Rightarrow> 'h \<Rightarrow> 'h \<Rightarrow> bool" where
  "same_rars reg s s' \<longleftrightarrow> (\<forall>b \<in> rar_regs. reg s' b = reg s b)"

text \<open>The device keeps the receive address registers apart from all others.\<close>

definition rar_private :: "'h device \<Rightarrow> ('h \<Rightarrow> u32 \<Rightarrow> u32) \<Rightarrow> bool" where
  "rar_private R reg \<longleftrightarrow> (\<forall>s a. a \<notin> rar_regs \<longrightarrow> same_rars reg s (snd (dev_read R s a)) \<and> (\<forall>v. same_rars reg s (dev_write R s a v)))"

text \<open>\<open>calm reg hw hw'\<close>: the same hardware, set up the same way, with the same receive addresses.\<close>

definition calm :: "('h \<Rightarrow> u32 \<Rightarrow> u32) \<Rightarrow> 'h flt_hw \<Rightarrow> 'h flt_hw \<Rightarrow> bool" where
  "calm reg hw hw' \<longleftrightarrow> mac_type hw' = mac_type hw \<and> num_rar_entries hw' = num_rar_entries hw \<and> mcft_size hw' = mcft_size hw \<and>
     ops (mbx hw') = ops (mbx hw) \<and> mbx_size (mbx hw') = mbx_size (mbx hw) \<and> same_rars reg (hw_dev hw) (hw_dev hw')"

named_theorems calm_rules \<open>operations that leave the receive addresses alone\<close>

lemma calm_refl [simp, calm_rules]: "calm reg hw hw"
  by (simp add: calm_def same_rars_def)

lemma calm_trans: "calm reg hw hw1 \<Longrightarrow> calm reg hw1 hw2 \<Longrightarrow> calm reg hw hw2"
  by (simp add: calm_def same_rars_def)

lemma calm_write [calm_rules]: "rar_private R reg \<Longrightarrow> a \<notin> rar_regs \<Longrightarrow> calm reg h hw \<Longrightarrow> calm reg h (IXGBE_WRITE_REG R a v hw)"
  by (erule calm_trans) (simp add: calm_def rar_private_def hw_io)

lemma calm_read [calm_rules]: "rar_private R reg \<Longrightarrow> a \<notin> rar_regs \<Longrightarrow> calm reg h hw \<Longrightarrow> calm reg h (snd (IXGBE_READ_REG R a hw))"
  by (erule calm_trans) (simp add: calm_def rar_private_def hw_io)

lemma calm_rmw [calm_rules]: "rar_private R reg \<Longrightarrow> a \<notin> rar_regs \<Longrightarrow> calm reg h hw \<Longrightarrow> calm reg h (rmw R a f hw)"
  by (simp add: rmw_def case_prod_beta calm_write calm_read)

lemma calm_ctrl [calm_rules]: "calm reg h hw \<Longrightarrow> calm reg h (upd_ctrl f hw)"
  by (simp add: calm_def upd_ctrl_def)

lemma calm_fold: "calm reg h hw \<Longrightarrow> (\<And>x hw. x \<in> set xs \<Longrightarrow> calm reg h hw \<Longrightarrow> calm reg h (f x hw)) \<Longrightarrow> calm reg h (fold f xs hw)"
  by (induction xs arbitrary: hw) auto

lemma calm_for_regs: "calm reg h hw \<Longrightarrow> (\<And>x hw. x < n \<Longrightarrow> calm reg h hw \<Longrightarrow> calm reg h (f x hw)) \<Longrightarrow> calm reg h (for_regs n f hw)"
  unfolding for_regs_def by (rule calm_fold) auto

section \<open>Multicast and VLAN tables\<close>

lemma mta_not_rar: "i < 128 \<Longrightarrow> IXGBE_MTA i \<notin> rar_regs"
  by (rule not_rar_at) auto

lemma mta_index: "unat ((x :: u16) AND 0x7F) < 128"
proof -
  have "x AND 0x7F \<le> 0x7F" by (rule word_and_le1)
  then show ?thesis by (simp add: word_le_nat_alt)
qed

lemma calm_hashes [calm_rules]: "rar_private R reg \<Longrightarrow> calm reg h hw \<Longrightarrow> calm reg h (set_vf_hashes R hs hw)"
  unfolding set_vf_hashes_def by (erule calm_fold) (intro calm_rules mta_not_rar mta_index)

lemma calm_mta: "mcft_size (ixgbe_set_mta a hw) = mcft_size hw" "calm reg h hw \<Longrightarrow> calm reg h (ixgbe_set_mta a hw)"
  by (simp_all add: calm_def ixgbe_set_mta_def upd_ctrl_def Let_def)

lemma calm_update_mc [calm_rules]:
  assumes "rar_private R reg" "unat (mcft_size h) \<le> 128" "calm reg h hw"
  shows "calm reg h (snd (ixgbe_update_mc_addr_list_generic R addrs clear hw))"
proof -
  define hw3 where "hw3 = fold ixgbe_set_mta addrs (if clear then upd_ctrl (\<lambda>c. c\<lparr>num_mc_addrs := of_nat (length addrs), mta_in_use := 0\<rparr>) hw\<lparr>mta_shadow := replicate 128 0\<rparr>
      else upd_ctrl (\<lambda>c. c\<lparr>num_mc_addrs := of_nat (length addrs), mta_in_use := 0\<rparr>) hw)"
  have c3: "calm reg h hw3" unfolding hw3_def
    by (rule calm_fold) (use assms(3) in \<open>simp_all add: calm_mta calm_ctrl\<close>, simp add: calm_def upd_ctrl_def)
  then have "unat (mcft_size hw3) \<le> 128" using assms(2) by (simp add: calm_def)
  then have "calm reg h (for_regs (unat (mcft_size hw3)) (\<lambda>i. IXGBE_WRITE_REG R (IXGBE_MTA i) (mta_shadow hw3 ! i)) hw3)"
    by (intro calm_for_regs[OF c3] calm_write[OF assms(1)] mta_not_rar) simp_all
  moreover have "IXGBE_MCSTCTRL \<notin> rar_regs" by (rule not_rar) simp
  ultimately show ?thesis
    by (simp add: ixgbe_update_mc_addr_list_generic_def Let_def hw3_def[symmetric] calm_write[OF assms(1)])
qed

lemma calm_enable_mc [calm_rules]: "rar_private R reg \<Longrightarrow> calm reg h hw \<Longrightarrow> calm reg h (snd (ixgbe_enable_mc_generic R hw))"
  by (simp add: ixgbe_enable_mc_generic_def calm_write not_rar)

lemma vlan_not_rar: "i < 128 \<Longrightarrow> IXGBE_VFTA i \<notin> rar_regs" "i < 128 \<Longrightarrow> IXGBE_VLVF i \<notin> rar_regs" "i < 1024 \<Longrightarrow> IXGBE_VLVFB i \<notin> rar_regs"
  "IXGBE_VT_CTL \<notin> rar_regs"
  by (rule not_rar_at, simp, simp)+ (rule not_rar, simp)

lemma calm_vlvf_search:
  "rar_private R reg \<Longrightarrow> calm reg h hw \<Longrightarrow> i + n \<le> 64 \<Longrightarrow> free < 64 \<Longrightarrow>
   calm reg h (snd (snd (vlvf_search R v n i free hw))) \<and> fst (snd (vlvf_search R v n i free hw)) < 64 \<and>
   (\<forall>j. fst (vlvf_search R v n i free hw) = Some j \<longrightarrow> j < 64)"
proof (induction n arbitrary: i free hw)
  case (Suc n)
  have c: "calm reg h (snd (IXGBE_READ_REG R (IXGBE_VLVF i) hw))" using Suc.prems by (intro calm_rules vlan_not_rar) simp_all
  note IH = Suc.IH[OF Suc.prems(1) c, of "Suc i"]
  show ?case using IH[of i] IH[of free] Suc.prems c by (simp add: case_prod_beta)
qed simp

lemma calm_find_slot:
  assumes "rar_private R reg" "calm reg h hw"
  shows "calm reg h (snd (ixgbe_find_vlvf_slot R v hw))" "nat (fst (ixgbe_find_vlvf_slot R v hw)) < 64"
  using calm_vlvf_search[OF assms, of 1 63 0 v] assms(2) by (auto simp: ixgbe_find_vlvf_slot_def case_prod_beta split: option.split)

lemma calm_vlvfb:
  assumes "rar_private R reg" "calm reg h hw" "i < 64"
  shows "calm reg h (snd (vlvfb_on R i p hw))" "calm reg h (snd (vlvfb_off R i p hw))"
  using assms by (auto simp: vlvfb_on_def vlvfb_off_def case_prod_beta Let_def intro!: calm_write calm_read vlan_not_rar)

lemma calm_set_vlvf:
  assumes "rar_private R reg" "calm reg h hw"
  shows "calm reg h (snd (snd (ixgbe_set_vlvf_generic R v p on ch hw)))"
proof -
  define hw1 where "hw1 = snd (IXGBE_READ_REG R IXGBE_VT_CTL hw)"
  define hw2 where "hw2 = snd (ixgbe_find_vlvf_slot R v hw1)"
  define i where "i = nat (fst (ixgbe_find_vlvf_slot R v hw1))"
  have c1: "calm reg h hw1" unfolding hw1_def using assms by (intro calm_rules vlan_not_rar)
  have c2: "calm reg h hw2" "i < 64" unfolding hw2_def i_def using calm_find_slot[OF assms(1) c1] by simp_all
  have c3: "calm reg h (snd (if on then vlvfb_on R i p hw2 else vlvfb_off R i p hw2))"
    by (rule if_split[THEN iffD2]) (simp add: calm_vlvfb[OF assms(1) c2])
  have w: "IXGBE_VLVF i \<notin> rar_regs" using c2(2) by (intro vlan_not_rar) simp
  show ?thesis using assms(2) c1 c2(1) c3 calm_write[OF assms(1) w c3]
    by (cases on) (simp_all add: ixgbe_set_vlvf_generic_def case_prod_beta hw1_def[symmetric] hw2_def[symmetric] i_def[symmetric])
qed

lemma vfta_reg_index: "unat ((x :: u32) AND 0x7F) < 128"
proof -
  have "x AND 0x7F \<le> 0x7F" by (rule word_and_le1)
  then show ?thesis by (simp add: word_le_nat_alt)
qed

lemma calm_set_vfta [calm_rules]:
  assumes "rar_private R reg" "calm reg h hw"
  shows "calm reg h (snd (ixgbe_set_vfta_generic R v p on hw))"
proof -
  let ?a = "IXGBE_VFTA (unat (drop_bit 5 v AND 0x7F))"
  have a: "?a \<notin> rar_regs" by (rule vlan_not_rar) (rule vfta_reg_index)
  note c = calm_set_vlvf[OF assms(1) calm_read[OF assms(1) a assms(2)]]
  show ?thesis using assms(2) c calm_write[OF assms(1) a c]
    by (simp add: ixgbe_set_vfta_generic_def Let_def case_prod_beta)
qed

lemma calm_vlan_spoof [calm_rules]:
  assumes "rar_private R reg" "calm reg h hw" "vf < 64"
  shows "calm reg h (ixgbe_set_vlan_anti_spoofing R on vf hw)"
proof -
  have "IXGBE_PFVFSPOOF (vf div 8) \<notin> rar_regs" using assms(3) by (intro not_rar_at) auto
  then show ?thesis using assms(1,2) by (simp add: ixgbe_set_vlan_anti_spoofing_def calm_rmw)
qed

section \<open>Mailboxes\<close>

text \<open>The mailbox operations of the PF for one of the 64 virtual functions.\<close>

lemma mbx_not_rar:
  assumes "vf < 64"
  shows "ctl_regs MBX_pf (of_nat vf) \<subseteq> - rar_regs" "n \<le> 16 \<Longrightarrow> mem_regs MBX_pf (of_nat vf) n \<subseteq> - rar_regs"
proof -
  have v: "unat (of_nat vf :: u16) = vf" using assms by (simp add: unat_of_nat)
  have "IXGBE_PFMAILBOX (of_nat vf) \<notin> rar_regs" "IXGBE_MBVFICR (IXGBE_MBVFICR_INDEX (of_nat vf)) \<notin> rar_regs"
    using assms v unat_addrs(2,3)[of "of_nat vf"] by (auto intro!: not_rar)
  then show "ctl_regs MBX_pf (of_nat vf) \<subseteq> - rar_regs" by (simp add: ctl_regs_def)
  have "reg_array (IXGBE_PFMBMEM (of_nat vf)) i \<notin> rar_regs" if "i < 16" for i
    using assms v that unat_addrs(1)[of "of_nat vf" i] by (intro not_rar) simp
  then show "n \<le> 16 \<Longrightarrow> mem_regs MBX_pf (of_nat vf) n \<subseteq> - rar_regs" by (auto simp: mem_regs_def mem_base_def)
qed

lemma rars_closed: "rar_private R reg \<Longrightarrow> closed R (- rar_regs) (same_rars reg s)"
  by (simp add: closed_def rar_private_def same_rars_def)

lemma same_rars_refl [simp]: "same_rars reg s s"
  by (simp add: same_rars_def)

lemma calm_with_mbx:
  "mbx_config m = mbx_config (mbx_view hw) \<Longrightarrow> same_rars reg (hw_dev hw) (hw_dev m) \<Longrightarrow> calm reg hw (with_mbx m hw)"
  by (simp add: calm_def with_mbx_def mbx_config_def mbx_view_def)

lemma mbx_view_simps [simp]: "hw_dev (mbx_view hw) = hw_dev hw" "mbx (mbx_view hw) = mbx hw" "mac_type (mbx_view hw) = mac_type hw"
  by (simp_all add: mbx_view_def)

text \<open>\<open>pf_mailbox\<close>: the mailbox is set up as \<open>ixgbe_init_mbx_params_pf\<close> does.\<close>

definition pf_mailbox :: "'h flt_hw \<Rightarrow> bool" where
  "pf_mailbox hw \<longleftrightarrow> ops (mbx hw) = mbx_ops_of MBX_pf \<and> mbx_size (mbx hw) = IXGBE_VFMAILBOX_SIZE"

lemma write_mbx_calm:
  assumes "rar_private R reg" "pf_mailbox hw" "vf < 64" "unat n \<le> length msg" "n \<le> 16"
  shows "\<exists>r m. ixgbe_write_mbx R msg n (of_nat vf) (mbx_view hw) = Inr (r, m) \<and> calm reg hw (with_mbx m hw)"
proof -
  obtain r m where w: "call_write R MBX_pf msg n (of_nat vf) (mbx_view hw) = Inr (r, m)" "mbx_config m = mbx_config (mbx_view hw)"
    using write_total[OF assms(4)] by blast
  have "unat n \<le> 16" using assms(5) by (simp add: word_le_nat_alt)
  from call_write_closed[OF w(1) rars_closed[OF assms(1)] mbx_not_rar(1)[OF assms(3)] mbx_not_rar(2)[OF assms(3) this], of "hw_dev hw"]
  have "calm reg hw (with_mbx m hw)" by (intro calm_with_mbx[OF w(2)]) simp
  moreover have "ixgbe_write_mbx R msg n (of_nat vf) (mbx_view hw) = Inr (r, m)"
    using w(1) assms(2) leD[OF assms(5)] by (simp add: ixgbe_write_mbx_def pf_mailbox_def mbx_ops_of_def)
  ultimately show ?thesis by blast
qed

lemma length_read_words [simp]: "length (fst (read_words R base i n hw)) = n"
  by (induction n arbitrary: i hw) (simp_all add: read_words_Suc del: read_words.simps(2))

lemma read_mbx_calm:
  assumes "rar_private R reg" "pf_mailbox hw" "vf < 64" "length buf = 16"
  shows "\<exists>r msg m. ixgbe_read_mbx R buf IXGBE_VFMAILBOX_SIZE (of_nat vf) (mbx_view hw) = Inr (r, msg, m) \<and> length msg = 16 \<and> calm reg hw (with_mbx m hw)"
proof -
  obtain r msg m where w: "call_read R MBX_pf buf 16 (of_nat vf) (mbx_view hw) = Inr (r, msg, m)" "length msg = 16" "mbx_config m = mbx_config (mbx_view hw)"
  proof (cases "fst (mbx_lock R MBX_pf (of_nat vf) (mbx_view hw)) = 0")
    case False
    then show ?thesis using assms(4) that[of "fst (mbx_lock R MBX_pf (of_nat vf) (mbx_view hw))" buf "snd (mbx_lock R MBX_pf (of_nat vf) (mbx_view hw))"]
      by (simp add: call_read_phases case_prod_beta)
  next
    case True
    let ?c = "copy_out R MBX_pf (of_nat vf) 16 (snd (mbx_lock R MBX_pf (of_nat vf) (mbx_view hw)))"
    have "length (fst ?c) = 16" by (simp add: copy_out_def)
    then show ?thesis using True assms(4) that[of 0 "fst ?c" "mbx_ack R MBX_pf (of_nat vf) (snd ?c)"]
      by (simp add: call_read_phases case_prod_beta)
  qed
  have "unat (16 :: u16) \<le> 16" by simp
  from call_read_closed[OF w(1) rars_closed[OF assms(1)] mbx_not_rar(1)[OF assms(3)] mbx_not_rar(2)[OF assms(3) this], of "hw_dev hw"]
  have "calm reg hw (with_mbx m hw)" by (intro calm_with_mbx[OF w(3)]) simp
  moreover have "ixgbe_read_mbx R buf IXGBE_VFMAILBOX_SIZE (of_nat vf) (mbx_view hw) = Inr (r, msg, m)"
    using w(1) assms(2) by (simp add: ixgbe_read_mbx_def pf_mailbox_def mbx_ops_of_def)
  ultimately show ?thesis using w(2) by blast
qed

lemma check_calm:
  assumes "rar_private R reg" "pf_mailbox hw" "vf < 64"
  shows "calm reg hw (with_mbx (snd (ixgbe_check_for_msg R (of_nat vf) (mbx_view hw))) hw)"
    "calm reg hw (with_mbx (snd (ixgbe_check_for_ack R (of_nat vf) (mbx_view hw))) hw)"
    "calm reg hw (with_mbx (snd (ixgbe_check_for_rst R (of_nat vf) (mbx_view hw))) hw)"
proof -
  have o: "op_check_for_msg (ops (mbx hw)) = Some MBX_pf" "op_check_for_ack (ops (mbx hw)) = Some MBX_pf" "op_check_for_rst (ops (mbx hw)) = Some MBX_pf"
    using assms(2) by (simp_all add: pf_mailbox_def mbx_ops_of_def)
  have i: "IXGBE_MBVFICR (IXGBE_MBVFICR_INDEX (of_nat vf)) \<in> - rar_regs" using mbx_not_rar(1)[OF assms(3)] by (simp add: ctl_regs_def)
  note cl = rars_closed[OF assms(1), of "hw_dev hw"]
  show "calm reg hw (with_mbx (snd (ixgbe_check_for_msg R (of_nat vf) (mbx_view hw))) hw)"
    "calm reg hw (with_mbx (snd (ixgbe_check_for_ack R (of_nat vf) (mbx_view hw))) hw)"
    using closed_check_pf[OF cl i, of "mbx_view hw"]
    by (auto simp: ixgbe_check_for_msg_def ixgbe_check_for_ack_def check_op_def o call_check_for_msg_def call_check_for_ack_def intro!: calm_with_mbx)
  define v where "v = (of_nat vf :: u16)"
  have r: "IXGBE_VFLRE x \<notin> rar_regs" "IXGBE_VFLREC 0 \<notin> rar_regs" "IXGBE_VFLREC 1 \<notin> rar_regs" for x
    by (simp_all add: IXGBE_VFLRE_def IXGBE_VFLREC_def not_rar)
  have w: "same_rars reg d (snd (dev_read R s a))" "same_rars reg d (dev_write R s a x)" if "a \<notin> rar_regs" "same_rars reg d s" for d s a x
    using assms(1) that by (auto simp: rar_private_def same_rars_def)
  show "calm reg hw (with_mbx (snd (ixgbe_check_for_rst R (of_nat vf) (mbx_view hw))) hw)"
    unfolding v_def[symmetric] ixgbe_check_for_rst_def check_op_def
    by (simp add: o call_check_for_rst_def, rule calm_with_mbx)
      (simp_all add: ixgbe_check_for_rst_pf_def Let_def mbx_config_def upd_stats_def upd_mbx_def hw_io r w split: ixgbe_mac_type.split)
qed

end
