(* ===== verification/SriovProps.thy ===== *)
theory SriovProps
  imports SriovFrame
begin

text \<open>
  Each operation for a virtual function always returns, keeps the adapter well formed, and changes only what
  belongs to that function.
\<close>

section \<open>Well-formed adapters\<close>

definition vf_data_ok :: "vf_data_storage \<Rightarrow> bool" where
  "vf_data_ok v \<longleftrightarrow> length (vf_mac_addresses v) = 6 \<and> length (vf_mc_hashes v) = IXGBE_MAX_VF_MC_ENTRIES \<and>
     unat (num_vf_mc_hashes v) \<le> IXGBE_MAX_VF_MC_ENTRIES"

text \<open>What the set-up of the hardware fixes: sizes of tables, the mailbox, the queues of the virtual functions.\<close>

definition hw_fits :: "'h flt_hw \<Rightarrow> bool" where
  "hw_fits hw \<longleftrightarrow> pf_mailbox hw \<and> unat (mcft_size hw) \<le> 128 \<and> (mac_type hw = ixgbe_mac_82599EB \<or> mac_type hw = ixgbe_mac_X540)"

definition vfs_fit :: "'h vf_adapter \<Rightarrow> bool" where
  "vfs_fit ad \<longleftrightarrow> length (vfinfo ad) = unat (num_vfs ad) \<and> unat (num_vfs ad) < 64 \<and> (\<forall>v \<in> set (vfinfo ad). vf_data_ok v) \<and>
     unat (q_per_pool ad) * unat (num_vfs ad) \<le> 128 \<and> dcb_typed (vf_dcb_cfg ad) \<and> unat (pg_tcs (num_tcs (vf_dcb_cfg ad))) \<le> 8"

definition vf_ok :: "'h device \<Rightarrow> ('h \<Rightarrow> u32 \<Rightarrow> u32) \<Rightarrow> 'h vf_adapter \<Rightarrow> bool" where
  "vf_ok R reg ad \<longleftrightarrow> rar_private R reg \<and> table_ready R reg ad \<and> mirrored reg ad \<and> hw_fits (mt_hw ad) \<and> vfs_fit ad"

text \<open>Only the hardware, the table of addresses, the data of virtual functions and the device flags are state.\<close>

definition same_setup :: "'h vf_adapter \<Rightarrow> 'h vf_adapter \<Rightarrow> bool" where
  "same_setup ad ad' \<longleftrightarrow> (\<exists>h t v f. ad' = ad\<lparr>mt_hw := h, mac_table := t, vfinfo := v, netdev_flags := f\<rparr>)"

text \<open>What does not belong to the virtual function \<open>vf\<close>: the address filters of other pools and the data of other functions.\<close>

definition others :: "nat \<Rightarrow> 'h vf_adapter \<Rightarrow> mac_filter multiset \<times> vf_data_storage option list" where
  "others vf ad = (filter_mset (\<lambda>f. snd f \<noteq> of_nat vf) (filters_of ad), (map Some (vfinfo ad))[vf := None])"

definition vf_good :: "'h device \<Rightarrow> ('h \<Rightarrow> u32 \<Rightarrow> u32) \<Rightarrow> nat \<Rightarrow> 'h vf_adapter \<Rightarrow> 'h vf_adapter \<Rightarrow> bool" where
  "vf_good R reg vf ad ad' \<longleftrightarrow> vf_ok R reg ad' \<and> others vf ad' = others vf ad \<and> same_setup ad ad'"

text \<open>The same without any change to filters and data.\<close>

definition vf_same :: "'h device \<Rightarrow> ('h \<Rightarrow> u32 \<Rightarrow> u32) \<Rightarrow> 'h vf_adapter \<Rightarrow> 'h vf_adapter \<Rightarrow> bool" where
  "vf_same R reg ad ad' \<longleftrightarrow> vf_ok R reg ad' \<and> filters_of ad' = filters_of ad \<and> vfinfo ad' = vfinfo ad \<and> same_setup ad ad'"

lemma same_setupI: "ad' = ad\<lparr>mt_hw := h, mac_table := t, vfinfo := v, netdev_flags := f\<rparr> \<Longrightarrow> same_setup ad ad'"
  by (auto simp: same_setup_def)

lemma same_setup_refl [simp]: "same_setup ad ad"
  by (rule same_setupI[where h = "mt_hw ad" and t = "mac_table ad" and v = "vfinfo ad" and f = "netdev_flags ad"]) simp

lemma same_setup_trans:
  assumes "same_setup ad ad1" "same_setup ad1 ad2"
  shows "same_setup ad ad2"
proof -
  obtain h t v f h' t' v' f' where "ad1 = ad\<lparr>mt_hw := h, mac_table := t, vfinfo := v, netdev_flags := f\<rparr>"
    "ad2 = ad1\<lparr>mt_hw := h', mac_table := t', vfinfo := v', netdev_flags := f'\<rparr>" using assms by (auto simp: same_setup_def)
  then show ?thesis by (intro same_setupI[where h = h' and t = t' and v = v' and f = f']) simp
qed

lemma same_setup_fields:
  assumes "same_setup ad ad'"
  shows "num_vfs ad' = num_vfs ad" "q_per_pool ad' = q_per_pool ad"
    "default_up ad' = default_up ad" "vf_pool_p p ad' = vf_pool_p p ad" "pf_max_frame ad' = pf_max_frame ad"
  using assms by (auto simp: same_setup_def q_per_pool_def vf_pool_p_def pf_max_frame_def)

lemma vf_same_refl: "vf_ok R reg ad \<Longrightarrow> vf_same R reg ad ad"
  by (simp add: vf_same_def)

lemma vf_same_trans: "vf_same R reg ad ad1 \<Longrightarrow> vf_same R reg ad1 ad2 \<Longrightarrow> vf_same R reg ad ad2"
  by (auto simp: vf_same_def elim: same_setup_trans)

lemma vf_same_good: "vf_same R reg ad ad' \<Longrightarrow> vf_good R reg vf ad ad'"
  by (simp add: vf_same_def vf_good_def others_def)

lemma vf_good_trans: "vf_good R reg vf ad ad1 \<Longrightarrow> vf_good R reg vf ad1 ad2 \<Longrightarrow> vf_good R reg vf ad ad2"
  by (auto simp: vf_good_def elim: same_setup_trans)

subsection \<open>Changes of one part\<close>

lemma mirrored_calm:
  assumes "table_ready R reg ad" "mirrored reg ad" "calm reg (mt_hw ad) h"
  shows "table_ready R reg (ad\<lparr>mt_hw := h\<rparr>)" "mirrored reg (ad\<lparr>mt_hw := h\<rparr>)"
proof -
  show t: "table_ready R reg (ad\<lparr>mt_hw := h\<rparr>)" using assms by (simp add: table_ready_def rar_ready_def calm_def)
  have n: "rars ad \<le> 128" using assms(1) by (simp add: table_ready_def rar_ready_def word_le_nat_alt)
  have "rar_view (regs reg h) i = view_of reg ad i" if "i < 128" for i
    using assms(3) rar_regs_in[OF that] by (simp add: rar_view_def calm_def same_rars_def)
  then show "mirrored reg (ad\<lparr>mt_hw := h\<rparr>)" using assms(2,3) n by (auto simp: mirrored_def in_step_def calm_def)
qed

lemma hw_same:
  assumes "vf_ok R reg ad" "calm reg (mt_hw ad) h"
  shows "vf_same R reg ad (ad\<lparr>mt_hw := h\<rparr>)"
proof -
  have "hw_fits h" using assms by (simp add: vf_ok_def hw_fits_def pf_mailbox_def calm_def)
  moreover have "vfs_fit (ad\<lparr>mt_hw := h\<rparr>)" using assms(1) by (simp add: vf_ok_def vfs_fit_def q_per_pool_def)
  moreover have "same_setup ad (ad\<lparr>mt_hw := h\<rparr>)"
    by (rule same_setupI[where h = h and t = "mac_table ad" and v = "vfinfo ad" and f = "netdev_flags ad"]) simp
  ultimately show ?thesis using assms mirrored_calm[of R reg ad h] by (simp add: vf_same_def vf_ok_def filters_of_def)
qed

lemma flags_same: "vf_ok R reg ad \<Longrightarrow> vf_same R reg ad (ad\<lparr>netdev_flags := f\<rparr>)"
  by (auto simp: vf_same_def vf_ok_def vfs_fit_def q_per_pool_def filters_of_def table_ready_def mirrored_def in_step_def
      intro!: same_setupI[where h = "mt_hw ad" and t = "mac_table ad" and v = "vfinfo ad" and f = f])

lemma put_good:
  assumes "vf_ok R reg ad" "vf_data_ok v"
  shows "vf_good R reg vf ad (put_vf vf v ad)"
proof -
  have "vfs_fit (put_vf vf v ad)" using assms set_update_subset_insert[of "vfinfo ad" vf v]
    by (auto simp: vf_ok_def vfs_fit_def q_per_pool_def put_vf_def)
  moreover have "same_setup ad (put_vf vf v ad)"
    by (rule same_setupI[where h = "mt_hw ad" and t = "mac_table ad" and v = "(vfinfo ad)[vf := v]" and f = "netdev_flags ad"]) (simp add: put_vf_def)
  moreover have "others vf (put_vf vf v ad) = others vf ad" by (simp add: others_def put_vf_def filters_of_def map_update)
  moreover have "table_ready R reg (put_vf vf v ad) \<and> mirrored reg (put_vf vf v ad)"
    using assms(1) by (simp add: vf_ok_def put_vf_def table_ready_def mirrored_def in_step_def)
  ultimately show ?thesis using assms(1) by (simp add: vf_good_def vf_ok_def put_vf_def)
qed

text \<open>A change of the filters of the pool \<open>vf\<close>.\<close>

lemma mac_good:
  assumes "vf_ok R reg ad" "mac_only ad ad'" "table_ready R reg ad'" "mirrored reg ad'"
    and "filter_mset (\<lambda>f. snd f \<noteq> of_nat vf) (filters_of ad') = filter_mset (\<lambda>f. snd f \<noteq> of_nat vf) (filters_of ad)"
  shows "vf_good R reg vf ad ad'" "vfinfo ad' = vfinfo ad"
proof -
  obtain h t where e: "ad' = ad\<lparr>mt_hw := h, mac_table := t\<rparr>" and k: "hw_kind h = hw_kind (mt_hw ad)" using assms(2) by (auto simp: mac_only_def)
  have "same_setup ad ad'" by (rule same_setupI[where h = h and t = t and v = "vfinfo ad" and f = "netdev_flags ad"]) (simp add: e)
  moreover have "hw_fits h" using assms(1) k by (simp add: vf_ok_def hw_fits_def pf_mailbox_def hw_kind_def)
  moreover have "vfs_fit ad'" using assms(1) by (simp add: e vf_ok_def vfs_fit_def q_per_pool_def)
  ultimately show "vf_good R reg vf ad ad'" using assms e by (simp add: vf_good_def vf_ok_def others_def)
  show "vfinfo ad' = vfinfo ad" by (simp add: e)
qed

lemma vf_del_good:
  assumes "vf_ok R reg ad" "length a = 6"
  shows "\<exists>r ad'. ixgbe_del_mac_filter R a (of_nat vf) ad = Inr (r, ad') \<and> vf_good R reg vf ad ad' \<and> vfinfo ad' = vfinfo ad \<and>
    del_spec a (of_nat vf) (filters_of ad) r (filters_of ad')"
proof -
  obtain r ad' where d: "ixgbe_del_mac_filter R a (of_nat vf) ad = Inr (r, ad')" "table_ready R reg ad'" "mirrored reg ad'"
      "del_spec a (of_nat vf) (filters_of ad) r (filters_of ad')"
    using del_mac_ok[of R reg ad a "of_nat vf"] assms by (auto simp: vf_ok_def)
  have "mac_only ad ad'" using del_only[OF mac_only_refl, of ad R a "of_nat vf"] d(1) by (simp add: mac_keeps_def)
  moreover have "filter_mset (\<lambda>f. snd f \<noteq> of_nat vf) (filters_of ad') = filter_mset (\<lambda>f. snd f \<noteq> of_nat vf) (filters_of ad)"
    using d(4) by (auto simp: del_spec_def split: if_splits dest!: multi_member_split)
  ultimately show ?thesis using d mac_good[OF assms(1)] by blast
qed

lemma vf_add_good:
  assumes "vf_ok R reg ad" "length a = 6" "vf < 64"
  shows "\<exists>r ad'. ixgbe_add_mac_filter R a (of_nat vf) ad = Inr (r, ad') \<and> vf_good R reg vf ad ad' \<and> vfinfo ad' = vfinfo ad \<and>
    add_spec (rars ad) a (of_nat vf) (filters_of ad) r (filters_of ad')"
proof -
  have q: "(of_nat vf :: u16) < 64" using assms(3) by (simp add: word_less_nat_alt unat_of_nat)
  obtain r ad' where d: "ixgbe_add_mac_filter R a (of_nat vf) ad = Inr (r, ad')" "table_ready R reg ad'" "mirrored reg ad'"
      "add_spec (rars ad) a (of_nat vf) (filters_of ad) r (filters_of ad')"
    using add_mac_ok[OF _ _ assms(2) q, of R reg ad] assms by (auto simp: vf_ok_def)
  have "mac_only ad ad'" using add_only[OF mac_only_refl, of ad R a "of_nat vf"] d(1) by (simp add: mac_keeps_def)
  moreover have "filter_mset (\<lambda>f. snd f \<noteq> of_nat vf) (filters_of ad') = filter_mset (\<lambda>f. snd f \<noteq> of_nat vf) (filters_of ad)"
    using d(4) by (auto simp: add_spec_def)
  ultimately show ?thesis using d mac_good[OF assms(1)] by blast
qed

section \<open>The receive mode\<close>

lemma vf_regs_not_rar: "i < 64 \<Longrightarrow> IXGBE_VMOLR i \<notin> rar_regs" "i < 64 \<Longrightarrow> IXGBE_VMVIR i \<notin> rar_regs" "i < 2 \<Longrightarrow> IXGBE_VFRE i \<notin> rar_regs"
  "i < 2 \<Longrightarrow> IXGBE_VFTE i \<notin> rar_regs" "i < 2 \<Longrightarrow> IXGBE_VMECM i \<notin> rar_regs" "i < 128 \<Longrightarrow> IXGBE_PVFTDWBAL i \<notin> rar_regs"
  "i < 128 \<Longrightarrow> IXGBE_PVFTDWBAH i \<notin> rar_regs"
  by (rule not_rar_at, simp, simp)+

lemma single_not_rar: "IXGBE_STATUS \<notin> rar_regs" "IXGBE_QDE \<notin> rar_regs" "IXGBE_MAXFRS \<notin> rar_regs" "IXGBE_VLNCTRL \<notin> rar_regs" "IXGBE_FCTRL \<notin> rar_regs"
  "0x894 \<notin> rar_regs"
  by (rule not_rar, simp)+

lemma succeeds_bind: "succeeds P m \<Longrightarrow> (\<And>x. P x \<Longrightarrow> succeeds Q (f x)) \<Longrightarrow> succeeds Q (rbind m f)"
  by (cases m) (auto simp: succeeds_def)

lemma succeeds_Inr [simp]: "succeeds P (Inr x) \<longleftrightarrow> P x"
  by (simp add: succeeds_def)

lemma vf_info_ok: "vf < length (vfinfo ad) \<Longrightarrow> vf_info vf ad = Inr (vfinfo ad ! vf)"
  by (simp add: vf_info_def)

lemma vf_okD:
  assumes "vf_ok R reg ad"
  shows "rar_private R reg" "pf_mailbox (mt_hw ad)" "length (vfinfo ad) = unat (num_vfs ad)" "unat (num_vfs ad) < 64"
    "unat (mcft_size (mt_hw ad)) \<le> 128" "mac_type (mt_hw ad) \<noteq> ixgbe_mac_82598EB"
    "vf < unat (num_vfs ad) \<Longrightarrow> vf_data_ok (vfinfo ad ! vf)" "unat (q_per_pool ad) * unat (num_vfs ad) \<le> 128"
    "table_ready R reg ad" "mirrored reg ad"
  using assms by (auto simp: vf_ok_def hw_fits_def vfs_fit_def)

lemma restore_vf_same:
  assumes "vf_ok R reg ad" "i < unat (num_vfs ad)"
  shows "succeeds (vf_same R reg ad) (restore_vf R i ad)"
proof -
  note ok = vf_okD[OF assms(1)]
  let ?v = "vfinfo ad ! i"
  have v: "vf_info i ad = Inr ?v" using ok(3) assms(2) by (simp add: vf_info_def)
  have h: "vf_hashes ?v = Inr (take (unat (num_vf_mc_hashes ?v)) (vf_mc_hashes ?v))" using ok(7)[OF assms(2)] by (simp add: vf_hashes_def vf_data_ok_def)
  have "i < 64" using ok(4) assms(2) by simp
  note a = vf_regs_not_rar(1)[OF this]
  have "calm reg (mt_hw ad) (IXGBE_WRITE_REG R (IXGBE_VMOLR i) x (set_vf_hashes R hs (snd (IXGBE_READ_REG R (IXGBE_VMOLR i) (mt_hw ad)))))" for x hs
    by (intro calm_rules ok(1) a)
  then show ?thesis using hw_same[OF assms(1)] by (simp add: restore_vf_def case_prod_beta v h Let_def)
qed

lemma succeeds_fold:
  assumes "vf_ok R reg ad" "\<And>x ad1. x \<in> set xs \<Longrightarrow> vf_same R reg ad ad1 \<Longrightarrow> succeeds (vf_same R reg ad1) (f x ad1)"
  shows "succeeds (vf_same R reg ad) (fold (\<lambda>x r. rbind r (f x)) xs (Inr ad))"
proof -
  have "succeeds (vf_same R reg ad) (fold (\<lambda>x r. rbind r (f x)) ys r)" if "succeeds (vf_same R reg ad) r" "set ys \<subseteq> set xs" for ys r
    using that
  proof (induction ys arbitrary: r)
    case (Cons y ys)
    have "succeeds (vf_same R reg ad) (rbind r (f y))"
    proof (rule succeeds_bind[OF Cons.prems(1)])
      fix ad1 assume 1: "vf_same R reg ad ad1"
      have "y \<in> set xs" using Cons.prems(2) by simp
      from assms(2)[OF this 1] show "succeeds (vf_same R reg ad) (f y ad1)" by (auto simp: succeeds_iff intro: vf_same_trans[OF 1])
    qed
    then show ?case using Cons.IH[of "rbind r (f y)"] Cons.prems(2) by simp
  qed simp
  then show ?thesis using vf_same_refl[OF assms(1)] by simp
qed

lemma full_sync_same:
  assumes "vf_ok R reg ad"
  shows "succeeds (vf_same R reg ad) (ixgbe_full_sync_mac_table R ad)"
proof -
  note ok = vf_okD[OF assms]
  obtain d where d: "ixgbe_full_sync_mac_table R ad = Inr (ad\<lparr>mt_hw := (mt_hw ad)\<lparr>hw_dev := d\<rparr>\<rparr>)" "\<forall>j < 128. rar_view (reg d) j = view_of reg ad j"
    using full_sync_ok[OF ok(9,10)] by blast
  let ?ad = "ad\<lparr>mt_hw := (mt_hw ad)\<lparr>hw_dev := d\<rparr>\<rparr>"
  have "rars ad \<le> 128" using ok(9) by (simp add: table_ready_def rar_ready_def word_le_nat_alt)
  then have "table_ready R reg ?ad" "mirrored reg ?ad" using ok(9,10) d(2) by (auto simp: table_ready_def rar_ready_def mirrored_def in_step_def)
  moreover have "hw_fits (mt_hw ?ad)" "vfs_fit ?ad" using assms
    by (simp_all add: vf_ok_def hw_fits_def pf_mailbox_def vfs_fit_def q_per_pool_def)
  moreover have "same_setup ad ?ad" by (rule same_setupI[where h = "mt_hw ?ad" and t = "mac_table ad" and v = "vfinfo ad" and f = "netdev_flags ad"]) simp
  ultimately show ?thesis using d(1) ok(1) by (simp add: vf_same_def vf_ok_def filters_of_def)
qed

lemma restore_same:
  assumes "vf_ok R reg ad"
  shows "succeeds (vf_same R reg ad) (ixgbe_restore_vf_multicasts R ad)"
  unfolding ixgbe_restore_vf_multicasts_def
proof (rule succeeds_bind)
  show "succeeds (vf_same R reg ad) (fold (\<lambda>i r. rbind r (restore_vf R i)) [0..<unat (num_vfs ad)] (Inr ad))"
  proof (rule succeeds_fold[OF assms])
    fix i ad1 assume "i \<in> set [0..<unat (num_vfs ad)]" "vf_same R reg ad ad1"
    then show "succeeds (vf_same R reg ad1) (restore_vf R i ad1)"
      using same_setup_fields(1)[of ad ad1] by (intro restore_vf_same) (auto simp: vf_same_def)
  qed
next
  fix ad1 assume 1: "vf_same R reg ad ad1"
  then have "vf_ok R reg ad1" by (simp add: vf_same_def)
  then show "succeeds (vf_same R reg ad) (ixgbe_full_sync_mac_table R ad1)" using full_sync_same vf_same_trans[OF 1] by (fastforce simp: succeeds_iff)
qed

lemma write_mc_same:
  assumes "vf_ok R reg ad"
  shows "succeeds (\<lambda>x. vf_same R reg ad (snd x)) (ixgbe_write_mc_addr_list R ad)"
proof (cases "dev_running ad")
  case True
  let ?ad = "vf_hw (\<lambda>hw. snd (ixgbe_update_mc_addr_list_generic R (mc_list ad) True hw)) ad"
  have s: "vf_same R reg ad ?ad" unfolding vf_hw_def by (rule hw_same[OF assms]) (intro calm_rules vf_okD[OF assms])
  then have "vf_ok R reg ?ad" by (simp add: vf_same_def)
  then have "succeeds (vf_same R reg ad) (ixgbe_restore_vf_multicasts R ?ad)" using restore_same vf_same_trans[OF s] by (fastforce simp: succeeds_iff)
  then show ?thesis using True by (auto simp: ixgbe_write_mc_addr_list_def succeeds_iff)
qed (simp add: ixgbe_write_mc_addr_list_def vf_same_refl[OF assms])

lemma pool_p_bound: "unat (vf_pool_p 0 ad) < 65536"
  using unsigned_less[of "pool_offset ad", where 'a = nat] by (simp add: vf_pool_p_def unsigned_ucast_eq take_bit_nat_eq_self)

lemma pf_vmolr_not_rar: "IXGBE_VMOLR (unat (vf_pool_p 0 ad)) \<notin> rar_regs"
  using pool_p_bound[of ad] by (intro not_rar_at) auto

lemma rx_mode_same:
  assumes "vf_ok R reg ad"
  shows "succeeds (vf_same R reg ad) (ixgbe_wfs_set_rx_mode R ad)"
proof -
  note ok = vf_okD[OF assms]
  define hw1 where "hw1 = snd (IXGBE_READ_REG R IXGBE_FCTRL (mt_hw ad))"
  define hw2 where "hw2 = snd (IXGBE_READ_REG R IXGBE_VLNCTRL hw1)"
  have c: "calm reg (mt_hw ad) (upd_ctrl f hw2)" for f unfolding hw2_def hw1_def by (intro calm_rules ok(1) single_not_rar)
  have 1: "vf_same R reg ad (ad\<lparr>netdev_flags := fl, mt_hw := upd_ctrl f hw2\<rparr>)" for fl f
  proof -
    have "vf_ok R reg (ad\<lparr>netdev_flags := fl\<rparr>)" using flags_same[OF assms, of fl] by (simp add: vf_same_def)
    from hw_same[OF this] c show ?thesis by (intro vf_same_trans[OF flags_same[OF assms, of fl]]) simp
  qed
  have 3: "vf_same R reg ad (ad2\<lparr>mt_hw := IXGBE_WRITE_REG R IXGBE_FCTRL x (IXGBE_WRITE_REG R IXGBE_VLNCTRL y
      (if mac_type (mt_hw ad2) \<noteq> ixgbe_mac_82598EB then rmw R (IXGBE_VMOLR (unat (vf_pool_p 0 ad2))) g (mt_hw ad2) else mt_hw ad2))\<rparr>)"
    if "vf_same R reg ad ad2" for ad2 x y g
  proof -
    have "vf_ok R reg ad2" using that by (simp add: vf_same_def)
    moreover have "calm reg (mt_hw ad2) (if mac_type (mt_hw ad2) \<noteq> ixgbe_mac_82598EB then rmw R (IXGBE_VMOLR (unat (vf_pool_p 0 ad2))) g (mt_hw ad2) else mt_hw ad2)"
      by (simp add: calm_rmw[OF ok(1) pf_vmolr_not_rar])
    ultimately show ?thesis using that by (intro vf_same_trans[OF that] hw_same calm_rules ok(1) single_not_rar)
  qed
  have 2: "succeeds (\<lambda>x. vf_same R reg ad (snd x)) (ixgbe_write_mc_addr_list R (ad\<lparr>netdev_flags := fl, mt_hw := upd_ctrl f hw2\<rparr>))" for fl f
    using write_mc_same[of R reg "ad\<lparr>netdev_flags := fl, mt_hw := upd_ctrl f hw2\<rparr>"] vf_same_trans[OF 1[where fl = fl and f = f]] 1[where fl = fl and f = f]
    by (fastforce simp: succeeds_iff vf_same_def)
  show ?thesis unfolding ixgbe_wfs_set_rx_mode_def case_prod_beta hw1_def[symmetric] hw2_def[symmetric] Let_def
    by (rule succeeds_bind[OF 2]) (simp only: succeeds_Inr 3)
qed

lemma set_rx_mode_same:
  assumes "\<forall>ad \<in> set ring. vf_ok R reg ad"
  shows "succeeds (list_all2 (vf_same R reg) ring) (ixgbe_set_rx_mode R ring)"
  using assms
proof (induction ring)
  case (Cons ad ads)
  have "succeeds (vf_same R reg ad) (ixgbe_wfs_set_rx_mode R ad)" using Cons.prems by (intro rx_mode_same) simp
  then show ?case using Cons by (auto simp: succeeds_iff)
qed simp

end
