(* ===== verification/SriovCalls.thy ===== *)
theory SriovCalls
  imports SriovProps
begin

text \<open>
  The requests of virtual functions: each is answered whatever it asks for, and changes only what belongs to the
  function that made it.
\<close>

section \<open>One adapter\<close>

abbreviation goods :: "'h device \<Rightarrow> ('h \<Rightarrow> u32 \<Rightarrow> u32) \<Rightarrow> nat \<Rightarrow> 'h vf_adapter \<Rightarrow> fault + 'a \<times> 'h vf_adapter \<Rightarrow> bool" where
  "goods R reg vf ad m \<equiv> succeeds (\<lambda>x. vf_good R reg vf ad (snd x)) m"

lemma vf_good_ok: "vf_good R reg vf ad ad' \<Longrightarrow> vf_ok R reg ad'" "vf_good R reg vf ad ad' \<Longrightarrow> num_vfs ad' = num_vfs ad"
  by (simp_all add: vf_good_def same_setup_fields)

lemma vf_same_ok: "vf_same R reg ad ad' \<Longrightarrow> vf_ok R reg ad'" "vf_same R reg ad ad' \<Longrightarrow> num_vfs ad' = num_vfs ad"
  by (simp_all add: vf_same_def same_setup_fields)

lemma vf_hw_same: "vf_ok R reg ad \<Longrightarrow> calm reg (mt_hw ad) (f (mt_hw ad)) \<Longrightarrow> vf_same R reg ad (vf_hw f ad)"
  by (simp add: vf_hw_def hw_same)

lemma goods_step: "goods R reg vf ad1 m \<Longrightarrow> vf_good R reg vf ad ad1 \<Longrightarrow> goods R reg vf ad m"
  by (auto simp: succeeds_iff intro: vf_good_trans)

lemma put_same_good: "vf_same R reg ad ad1 \<Longrightarrow> vf_data_ok v \<Longrightarrow> vf_good R reg vf ad (put_vf vf v ad1)"
  by (rule vf_good_trans[OF vf_same_good put_good[OF vf_same_ok(1)]])

text \<open>The data of the virtual function that is served.\<close>

lemma vf_info_at:
  assumes "vf_ok R reg ad" "vf < unat (num_vfs ad)"
  shows "vf_info vf ad = Inr (vfinfo ad ! vf)" "vf_data_ok (vfinfo ad ! vf)" "vf < 64"
  using vf_okD[OF assms(1)] assms(2) by (auto simp: vf_info_def)

subsection \<open>Configuration\<close>

lemma set_vlan_same:
  assumes "vf_ok R reg ad"
  shows "vf_same R reg ad (snd (ixgbe_set_vf_vlan R on vid p ad))"
  using hw_same[OF assms calm_set_vfta[OF vf_okD(1)[OF assms] calm_refl]] vf_same_refl[OF assms] vf_okD(6)[OF assms]
  by (simp add: ixgbe_set_vf_vlan_def case_prod_beta)

lemma multicasts_good:
  assumes "vf_ok R reg ad" "vf < unat (num_vfs ad)" "length msg = 16"
  shows "goods R reg vf ad (ixgbe_set_vf_multicasts R msg vf ad)"
proof -
  note i = vf_info_at[OF assms(1,2)] and ok = vf_okD[OF assms(1)]
  let ?v = "vfinfo ad ! vf" and ?n = "min (unat (msg_info msg)) 30"
  have hl: "length (half_words ws) = 2 * length ws" for ws by (induction ws) (simp_all add: half_words_def)
  have "unat (of_nat ?n :: u16) = ?n" by (simp add: unat_of_nat)
  then have v: "vf_data_ok (?v\<lparr>num_vf_mc_hashes := of_nat ?n, vf_mc_hashes := take ?n (half_words (tl msg)) @ drop ?n (vf_mc_hashes ?v)\<rparr>)"
    using i(2) assms(3) by (simp add: vf_data_ok_def hl)
  have c: "calm reg (mt_hw ad) (snd (ixgbe_enable_mc_generic R (IXGBE_WRITE_REG R (IXGBE_VMOLR vf) x
      (set_vf_hashes R hs (snd (IXGBE_READ_REG R (IXGBE_VMOLR vf) (mt_hw ad)))))))" for x hs
    by (intro calm_rules ok(1) vf_regs_not_rar i(3))
  have "put_vf vf w ad\<lparr>mt_hw := h\<rparr> = put_vf vf w (ad\<lparr>mt_hw := h\<rparr>)" for w h by (simp add: put_vf_def)
  then show ?thesis using i(1,2) assms(3) put_same_good[OF hw_same[OF assms(1) c] v]
    by (simp add: ixgbe_set_vf_multicasts_def case_prod_beta Let_def hl vf_data_ok_def)
qed

lemma reset_offloads_good:
  assumes "vf_ok R reg ad" "vf < unat (num_vfs ad)"
  shows "succeeds (\<lambda>ad'. vf_good R reg vf ad ad' \<and> vfinfo ad' ! vf = (vfinfo ad ! vf)\<lparr>num_vf_mc_hashes := 0\<rparr>) (reset_offloads R vf ad)"
proof -
  note i = vf_info_at[OF assms] and ok = vf_okD[OF assms(1)]
  let ?v = "vfinfo ad ! vf"
  have v: "vf_data_ok (?v\<lparr>num_vf_mc_hashes := 0\<rparr>)" using i(2) by (simp add: vf_data_ok_def)
  define ad2 where "ad2 = vf_hw (ixgbe_set_vmolr R vf (pf_vlan ?v = 0)) (snd (ixgbe_set_vf_vlan R True (ucast (pf_vlan ?v)) (of_nat vf) ad))"
  have 2: "vf_same R reg ad ad2" unfolding ad2_def ixgbe_set_vmolr_def
    by (rule vf_same_trans[OF set_vlan_same[OF assms(1)] vf_hw_same[OF vf_same_ok(1)[OF set_vlan_same[OF assms(1)]]]])
      (intro calm_rules ok(1) vf_regs_not_rar i(3))
  have vmvir: "vf_same R reg ad (vf_hw (ixgbe_clear_vmvir R vf) ad2)" "vf_same R reg ad (vf_hw (ixgbe_set_vmvir R a b vf) ad2)" for a b
    unfolding ixgbe_clear_vmvir_def ixgbe_set_vmvir_def
    by (rule vf_same_trans[OF 2 vf_hw_same[OF vf_same_ok(1)[OF 2]]], intro calm_rules ok(1) vf_regs_not_rar i(3))+
  have spoof: "vf_same R reg ad (vf_hw (ixgbe_set_vlan_anti_spoofing R True vf) ad3)" if "vf_same R reg ad ad3" for ad3
    by (rule vf_same_trans[OF that vf_hw_same[OF vf_same_ok(1)[OF that]]]) (intro calm_rules ok(1) i(3))
  have put: "vf_good R reg vf ad (put_vf vf w ad3) \<and> vfinfo (put_vf vf w ad3) ! vf = w" if "vf_same R reg ad ad3" "vf_data_ok w" for w ad3
    using that put_same_good[OF that] ok(3) assms(2) by (simp add: vf_same_def put_vf_def)
  note put = put[OF _ v]
  show ?thesis unfolding reset_offloads_def i(1) rbind_Inr Let_def ad2_def[symmetric] succeeds_Inr
    by (rule put) (simp only: vmvir spoof split: if_split, simp)
qed

lemma reset_filters_good:
  assumes "vf_ok R reg ad" "vf < unat (num_vfs ad)"
  shows "succeeds (\<lambda>ad'. vf_good R reg vf ad ad' \<and> vfinfo ad' ! vf = (vfinfo ad ! vf)\<lparr>vf_api := ixgbe_mbox_api_10\<rparr>) (reset_filters R vf ad)"
proof -
  note i = vf_info_at[OF assms]
  let ?v = "vfinfo ad ! vf"
  have v: "vf_data_ok (?v\<lparr>vf_api := ixgbe_mbox_api_10\<rparr>)" and l: "length (vf_mac_addresses ?v) = 6" using i(2) by (simp_all add: vf_data_ok_def)
  obtain r ad1 where 1: "ixgbe_del_mac_filter R (vf_mac_addresses ?v) (of_nat vf) ad = Inr (r, ad1)" "vf_good R reg vf ad ad1" "vfinfo ad1 = vfinfo ad"
    using vf_del_good[OF assms(1) l] by blast
  have "vf_good R reg vf ad (put_vf vf (?v\<lparr>vf_api := ixgbe_mbox_api_10\<rparr>) ad1)"
    by (rule vf_good_trans[OF 1(2) put_good[OF vf_good_ok(1)[OF 1(2)] v]])
  moreover have "vfinfo (put_vf vf (?v\<lparr>vf_api := ixgbe_mbox_api_10\<rparr>) ad1) ! vf = ?v\<lparr>vf_api := ixgbe_mbox_api_10\<rparr>"
    using 1(3) vf_okD(3)[OF assms(1)] assms(2) by (simp add: put_vf_def)
  ultimately show ?thesis using i(1) 1(1) by (simp add: reset_filters_def)
qed

text \<open>The address a virtual function gets is the one asked for when its filter is there, else the zero address.\<close>

lemma set_mac_result:
  assumes "vf_ok R reg ad" "vf < unat (num_vfs ad)" "length a = 6"
  shows "\<exists>r ad'. set_vf_mac R vf a ad = Inr (r, ad') \<and> vf_good R reg vf ad ad' \<and>
    vfinfo ad' ! vf = (vfinfo ad ! vf)\<lparr>vf_mac_addresses := if r \<ge> 0 then a else zero_ether_addr\<rparr> \<and>
    (r \<ge> 0 \<longrightarrow> (a, of_nat vf) \<in># filters_of ad')"
proof -
  note i = vf_info_at[OF assms(1,2)]
  let ?v = "vfinfo ad ! vf"
  have l: "length (vf_mac_addresses ?v) = 6" using i(2) by (simp add: vf_data_ok_def)
  obtain r1 ad1 where 1: "ixgbe_del_mac_filter R (vf_mac_addresses ?v) (of_nat vf) ad = Inr (r1, ad1)" "vf_good R reg vf ad ad1" "vfinfo ad1 = vfinfo ad"
    using vf_del_good[OF assms(1) l] by blast
  obtain r2 ad2 where 2: "ixgbe_add_mac_filter R a (of_nat vf) ad1 = Inr (r2, ad2)" "vf_good R reg vf ad1 ad2" "vfinfo ad2 = vfinfo ad1"
      "add_spec (rars ad1) a (of_nat vf) (filters_of ad1) r2 (filters_of ad2)"
    using vf_add_good[OF vf_good_ok(1)[OF 1(2)] assms(3) i(3)] by blast
  let ?w = "?v\<lparr>vf_mac_addresses := if r2 \<ge> 0 then take 6 a else zero_ether_addr\<rparr>"
  have "vf_data_ok ?w" using i(2) assms(3) by (simp add: vf_data_ok_def zero_ether_addr_def)
  from vf_good_trans[OF vf_good_trans[OF 1(2) 2(2)] put_good[OF vf_good_ok(1)[OF 2(2)] this]]
  have "vf_good R reg vf ad (put_vf vf ?w ad2)" .
  moreover have "set_vf_mac R vf a ad = Inr (r2, put_vf vf ?w ad2)" using i(1) 1(1) 2(1) by (simp add: set_vf_mac_def ixgbe_set_vf_mac_def)
  moreover have "vfinfo (put_vf vf ?w ad2) ! vf = ?w" using 1(3) 2(3) vf_okD(3)[OF assms(1)] assms(2) by (simp add: put_vf_def)
  moreover have "r2 \<ge> 0 \<longrightarrow> (a, of_nat vf) \<in># filters_of (put_vf vf ?w ad2)" using 2(4) by (auto simp: add_spec_def filters_of_def put_vf_def)
  ultimately show ?thesis using assms(3) by (intro exI[of _ r2] exI[of _ "put_vf vf ?w ad2"]) simp
qed

lemma set_mac_good:
  assumes "vf_ok R reg ad" "vf < unat (num_vfs ad)" "length a = 6"
  shows "goods R reg vf ad (set_vf_mac R vf a ad)"
  using set_mac_result[OF assms] by (auto simp: succeeds_iff)

lemma negotiate_good:
  assumes "vf_ok R reg ad" "vf < unat (num_vfs ad)"
  shows "goods R reg vf ad (ixgbe_negotiate_vf_api msg vf ad)"
proof -
  note i = vf_info_at[OF assms]
  have "vf_data_ok ((vfinfo ad ! vf)\<lparr>vf_api := x\<rparr>)" for x using i(2) by (simp add: vf_data_ok_def)
  from put_good[OF assms(1) this] show ?thesis
    using i(1) vf_same_good[OF vf_same_refl[OF assms(1)]] by (simp add: ixgbe_negotiate_vf_api_def)
qed

lemma get_queues_ok:
  assumes "vf_ok R reg ad" "vf < unat (num_vfs ad)"
  shows "succeeds (\<lambda>x. length (snd x) = length msg) (ixgbe_get_vf_queues msg vf ad)"
proof -
  obtain t where "netdev_get_prio_tc_map ad (default_up ad) = Inr t"
    using assms(1) get_tc_ok[of "vf_dcb_cfg ad" 0] by (auto simp: vf_ok_def vfs_fit_def netdev_get_prio_tc_map_def)
  then show ?thesis using vf_info_at(1)[OF assms] by (simp add: ixgbe_get_vf_queues_def Let_def)
qed

lemma set_mac_addr_good:
  assumes "vf_ok R reg ad" "vf < unat (num_vfs ad)"
  shows "goods R reg vf ad (ixgbe_set_vf_mac_addr R msg vf ad)"
proof -
  have "length (msg_mac msg) = 6" by (simp add: msg_mac_def)
  from set_mac_good[OF assms this] show ?thesis
    using vf_info_at(1)[OF assms] vf_same_good[OF vf_same_refl[OF assms(1)]] by (auto simp: ixgbe_set_vf_mac_addr_def succeeds_iff)
qed

lemma lpe_good:
  assumes "vf_ok R reg ad" "vf < unat (num_vfs ad)"
  shows "goods R reg vf ad (ixgbe_set_vf_lpe R old_esx n vf ad)"
proof -
  note i = vf_info_at[OF assms] and ok = vf_okD[OF assms(1)]
  have "vf div 32 < 2" using i(3) by auto
  then have 1: "vf_same R reg ad (vf_hw (rmw R (IXGBE_VFRE (vf div 32)) f) ad)" for f
    by (intro vf_hw_same[OF assms(1)] calm_rules ok(1) vf_regs_not_rar)
  have fin: "vf_good R reg vf ad (snd (raise_max_frame R n ad1))" if "vf_same R reg ad ad1" for ad1
    unfolding raise_max_frame_def case_prod_beta snd_conv
    by (intro vf_same_good vf_same_trans[OF that] hw_same[OF vf_same_ok(1)[OF that]])
      (simp add: calm_write[OF ok(1)] calm_read[OF ok(1)] single_not_rar)
  show ?thesis
    by (simp add: ixgbe_set_vf_lpe_def Let_def i(1) fin[OF vf_same_refl[OF assms(1)]] fin[OF 1] vf_same_good[OF 1] vf_same_good[OF vf_same_refl[OF assms(1)]])
qed

subsection \<open>VLAN requests\<close>

lemma calm_find_vlvf:
  "rar_private R reg \<Longrightarrow> calm reg h hw \<Longrightarrow> i + n \<le> 64 \<Longrightarrow> calm reg h (snd (find_vlvf_from R v n i hw)) \<and> fst (find_vlvf_from R v n i hw) < 64"
proof (induction n arbitrary: i hw)
  case (Suc n)
  have c: "calm reg h (snd (IXGBE_READ_REG R (IXGBE_VLVF i) hw))" using Suc.prems by (intro calm_rules vlan_not_rar) simp_all
  show ?case using Suc.IH[OF Suc.prems(1) c, of "Suc i"] Suc.prems c by (simp add: case_prod_beta)
qed simp

lemma calm_other_pools:
  assumes "rar_private R reg" "calm reg h hw" "i < 64"
  shows "calm reg h (snd (other_pools R i p hw))"
proof -
  have u: "unat (IXGBE_VLVFB (i * 2)) = 0xF200 + 8 * i" using assms(3) by (subst unat_reg_at) simp_all
  have "unat (IXGBE_VLVFB (i * 2) + 1) = Suc (0xF200 + 8 * i)"
    using u assms(3) by (subst unat_word_ariths) simp
  then have a: "IXGBE_VLVFB (i * 2) + 1 \<notin> rar_regs" "IXGBE_VLVFB (i * 2) \<notin> rar_regs" using u by (auto intro!: not_rar)
  show ?thesis using assms(1,2) a by (simp add: other_pools_def case_prod_beta calm_read)
qed

lemma drop_pf_same:
  assumes "vf_ok R reg ad"
  shows "vf_same R reg ad (drop_pf_pool R vid ad)"
proof -
  note p = vf_okD(1)[OF assms]
  define hw1 where "hw1 = snd (ixgbe_find_vlvf_entry R vid (mt_hw ad))"
  define i where "i = nat (fst (ixgbe_find_vlvf_entry R vid (mt_hw ad)))"
  define hw3 where "hw3 = snd (other_pools R i (vf_pool_p 0 ad) (snd (IXGBE_READ_REG R (IXGBE_VLVF i) hw1)))"
  have 1: "calm reg (mt_hw ad) hw1" "i < 64"
    using calm_find_vlvf[where h = "mt_hw ad" and hw = "mt_hw ad" and i = 1 and n = 63 and v = vid, OF p calm_refl] by (auto simp: hw1_def i_def ixgbe_find_vlvf_entry_def)
  have a: "IXGBE_VLVF i \<notin> rar_regs" using 1(2) by (intro vlan_not_rar) simp
  have 3: "calm reg (mt_hw ad) hw3" unfolding hw3_def by (intro calm_other_pools calm_rules p a 1)
  have s: "vf_same R reg ad (ad\<lparr>mt_hw := hw3\<rparr>)" by (rule hw_same[OF assms 3])
  show ?thesis
    by (simp add: drop_pf_pool_def case_prod_beta hw1_def[symmetric] i_def[symmetric] hw3_def[symmetric] Let_def
        hw_same[OF assms 1(1)] s vf_same_trans[OF s set_vlan_same[OF vf_same_ok(1)[OF s]]])
qed

lemma vlan_msg_good:
  assumes "vf_ok R reg ad" "vf < unat (num_vfs ad)"
  shows "goods R reg vf ad (ixgbe_set_vf_vlan_msg R msg vf ad)"
proof -
  note i = vf_info_at[OF assms] and ok = vf_okD[OF assms(1)]
  let ?v = "vfinfo ad ! vf" and ?vid = "msg ! 1 AND 0xFFF"
  define add where "add = (msg_info msg \<noteq> 0)"
  define n where "n = (if add then vlan_count ?v + 1 else if vlan_count ?v \<noteq> 0 then vlan_count ?v - 1 else vlan_count ?v)"
  define ad1 where "ad1 = put_vf vf (?v\<lparr>vlan_count := n\<rparr>) ad"
  define ad2 where "ad2 = (if add \<and> netdev_flags ad AND IFF_PROMISC \<noteq> 0 then snd (ixgbe_set_vf_vlan R add ?vid (vf_pool_p 0 ad1) ad1) else ad1)"
  define ad3 where "ad3 = snd (ixgbe_set_vf_vlan R add ?vid (of_nat vf) ad2)"
  have "vf_data_ok (?v\<lparr>vlan_count := n\<rparr>)" using i(2) by (simp add: vf_data_ok_def)
  then have 1: "vf_good R reg vf ad ad1" unfolding ad1_def by (rule put_good[OF assms(1)])
  have 2: "vf_same R reg ad1 ad2" unfolding ad2_def
    using set_vlan_same[OF vf_good_ok(1)[OF 1]] vf_same_refl[OF vf_good_ok(1)[OF 1]] by simp
  have 3: "vf_same R reg ad1 ad3" unfolding ad3_def by (rule vf_same_trans[OF 2 set_vlan_same[OF vf_same_ok(1)[OF 2]]])
  have 4: "vf_same R reg ad1 (if b then vf_hw (ixgbe_set_vlan_anti_spoofing R True vf) ad3 else ad3)" for b
    using 3 vf_same_trans[OF 3 vf_hw_same[where f = "ixgbe_set_vlan_anti_spoofing R True vf", OF vf_same_ok(1)[OF 3] calm_vlan_spoof[OF ok(1) calm_refl i(3)]]] by simp
  have 5: "vf_same R reg ad1 (if c then drop_pf_pool R ?vid (if b then vf_hw (ixgbe_set_vlan_anti_spoofing R True vf) ad3 else ad3)
      else if b then vf_hw (ixgbe_set_vlan_anti_spoofing R True vf) ad3 else ad3)" for b c
  proof (cases c)
    case True
    then show ?thesis using vf_same_trans[OF 4[of b] drop_pf_same[OF vf_same_ok(1)[OF 4[of b]]]] by (simp only: if_True)
  next
    case False
    then show ?thesis using 4[of b] by (simp only: if_False)
  qed
  note g = vf_good_trans[OF 1 vf_same_good[OF 5]]
  show ?thesis unfolding ixgbe_set_vf_vlan_msg_def i(1) rbind_Inr Let_def case_prod_beta add_def[symmetric] n_def[symmetric] ad1_def[symmetric]
      ad2_def[symmetric] ad3_def[symmetric]
    using g vf_same_good[OF vf_same_refl[OF assms(1)]] by (simp only: succeeds_Inr snd_conv split: if_split) simp
qed

subsection \<open>Requests and answers\<close>

lemma write_good:
  assumes "vf_ok R reg ad" "vf < unat (num_vfs ad)" "unat n \<le> length msg" "n \<le> 16"
  shows "succeeds (\<lambda>x. vf_same R reg ad (snd x)) (vf_write_mbx R msg n vf ad)"
  using write_mbx_calm[OF vf_okD(1,2)[OF assms(1)] vf_info_at(3)[OF assms(1,2)] assms(3,4)] hw_same[OF assms(1)]
  by (auto simp: vf_write_mbx_def vf_hw_def succeeds_iff)

lemma request_good:
  assumes "vf_ok R reg ad" "vf < unat (num_vfs ad)" "length msg = 16"
  shows "succeeds (\<lambda>x. vf_good R reg vf ad (snd x) \<and> (\<forall>m. snd (fst x) = Some m \<longrightarrow> length m = 16)) (vf_request R old_esx msg vf ad)"
proof -
  note refl = vf_same_good[OF vf_same_refl[OF assms(1)]]
  have a: "succeeds (\<lambda>x. vf_good R reg vf ad (snd x) \<and> (\<forall>m. snd (fst x) = Some m \<longrightarrow> length m = 16)) (rbind m (\<lambda>(r, ad1). Inr ((r, Some msg), ad1)))"
    if "goods R reg vf ad m" for m :: "fault + int \<times> 'a vf_adapter"
    by (rule succeeds_bind[OF that]) (simp add: case_prod_beta assms(3))
  note g = a[OF set_mac_addr_good[OF assms(1,2)]] a[OF multicasts_good[OF assms]] a[OF vlan_msg_good[OF assms(1,2)]] a[OF lpe_good[OF assms(1,2)]]
    a[OF negotiate_good[OF assms(1,2)]]
  have q: "succeeds (\<lambda>x. vf_good R reg vf ad (snd x) \<and> (\<forall>m. snd (fst x) = Some m \<longrightarrow> length m = 16))
      (rbind (ixgbe_get_vf_queues msg vf ad) (\<lambda>(r, msg1). Inr ((r, Some msg1), ad)))"
    by (rule succeeds_bind[OF get_queues_ok[OF assms(1,2)]]) (simp add: case_prod_beta assms(3) refl)
  show ?thesis unfolding vf_request_def Let_def
    by (simp only: g q succeeds_Inr refl assms(3) split: if_split) (simp add: assms(3) refl)
qed

text \<open>A function that has not been reset is refused.\<close>

lemma serve_unreset:
  assumes "vf_ok R reg ad" "vf < unat (num_vfs ad)" "length msg = 16" "\<not> clear_to_send (vfinfo ad ! vf)"
  shows "succeeds (\<lambda>x. vf_same R reg ad (snd x)) (vf_serve R old_esx msg vf ad)"
proof -
  have "succeeds (\<lambda>x. vf_same R reg ad (snd x)) (vf_write_mbx R (msg[0 := msg ! 0 OR IXGBE_VT_MSGTYPE_NACK]) 1 vf ad)"
    using write_good[OF assms(1,2), of 1] assms(3) by simp
  then show ?thesis using assms(4) vf_info_at(1)[OF assms(1,2)] by (auto simp: vf_serve_def succeeds_iff)
qed

lemma serve_good:
  assumes "vf_ok R reg ad" "vf < unat (num_vfs ad)" "length msg = 16"
  shows "goods R reg vf ad (vf_serve R old_esx msg vf ad)"
proof (cases "clear_to_send (vfinfo ad ! vf)")
  case False
  from serve_unreset[OF assms this, of old_esx] obtain x where "vf_serve R old_esx msg vf ad = Inr x" "vf_same R reg ad (snd x)" by (auto simp: succeeds_iff)
  then show ?thesis by (simp add: vf_same_good)
next
  case True
  have answer: "goods R reg vf ad (case reply of None \<Rightarrow> Inr (r, ad1)
      | Some m \<Rightarrow> rbind (vf_write_mbx R (reply_to r m) IXGBE_VFMAILBOX_SIZE vf ad1) (\<lambda>(_, ad2). Inr (r, ad2)))"
    if g: "vf_good R reg vf ad ad1" and l: "\<And>m. reply = Some m \<Longrightarrow> length m = 16" for r :: int and reply ad1
  proof (cases reply)
    case None
    then show ?thesis using g by simp
  next
    case (Some m)
    have "succeeds (\<lambda>y. vf_same R reg ad1 (snd y)) (vf_write_mbx R (reply_to r m) 16 vf ad1)"
    proof (rule write_good)
      show "vf_ok R reg ad1" "vf < unat (num_vfs ad1)" using g assms(2) vf_good_ok[of R reg vf ad ad1] by simp_all
    qed (use l Some in \<open>simp_all add: reply_to_def\<close>)
    then show ?thesis using g Some by (auto simp: succeeds_iff intro: vf_good_trans[OF _ vf_same_good])
  qed
  have "goods R reg vf ad (rbind (vf_request R old_esx msg vf ad) (\<lambda>((r, reply), ad1). case reply of None \<Rightarrow> Inr (r, ad1)
      | Some m \<Rightarrow> rbind (vf_write_mbx R (reply_to r m) IXGBE_VFMAILBOX_SIZE vf ad1) (\<lambda>(_, ad2). Inr (r, ad2))))"
    by (rule succeeds_bind[OF request_good[OF assms]]) (simp add: case_prod_beta answer)
  then show ?thesis using True vf_info_at(1)[OF assms(1,2)] by (simp add: vf_serve_def)
qed

subsection \<open>Reset\<close>

lemma queue_bounds:
  fixes q :: u32
  assumes "unat q * n \<le> 128" "vf < n" "i < unat q"
  shows "unat (q * of_nat vf + of_nat i) < 128"
proof -
  have "unat q * vf + i < unat q * Suc vf" using assms(3) by simp
  also have "\<dots> \<le> unat q * n" using assms(2) by (intro mult_le_mono2) simp
  finally have l: "unat q * vf + i < 128" using assms(1) by simp
  have "q * of_nat vf + of_nat i = of_nat (unat q * vf + i)" by simp
  then have "unat (q * of_nat vf + of_nat i) = (unat q * vf + i) mod 2 ^ 32" by (simp only: unat_of_nat) simp
  then show ?thesis using l by simp
qed

lemma enable_same:
  assumes "vf_ok R reg ad" "vf < unat (num_vfs ad)"
  shows "vf_same R reg ad (enable_vf_queues R vf ad)"
proof -
  note i = vf_info_at[OF assms] and ok = vf_okD[OF assms(1)]
  have r: "vf div 32 < 2" using i(3) by auto
  have "calm reg (mt_hw ad) (drop_enable R vf q (rmw R (IXGBE_VFTE (vf div 32)) f (mt_hw ad)))" for q f
    unfolding drop_enable_def IXGBE_WRITE_FLUSH_def by (rule calm_fold) (intro calm_rules ok(1) vf_regs_not_rar r single_not_rar)+
  then show ?thesis unfolding enable_vf_queues_def Let_def by (intro vf_hw_same[OF assms(1)] calm_rules ok(1) vf_regs_not_rar r)
qed

lemma write_back_same:
  assumes "vf_ok R reg ad" "vf < unat (num_vfs ad)"
  shows "vf_same R reg ad (vf_hw (\<lambda>hw. clear_write_back R vf (q_per_pool ad) (rmw R (IXGBE_VMECM (vf div 32)) f hw)) ad)"
proof -
  note i = vf_info_at[OF assms] and ok = vf_okD[OF assms(1)]
  have r: "vf div 32 < 2" using i(3) by auto
  have "calm reg (mt_hw ad) (clear_write_back R vf (q_per_pool ad) (rmw R (IXGBE_VMECM (vf div 32)) f (mt_hw ad)))"
    unfolding clear_write_back_def
    by (rule calm_for_regs) (intro calm_rules ok(1) vf_regs_not_rar r queue_bounds[OF ok(8) assms(2)]; assumption)+
  then show ?thesis by (rule vf_hw_same[OF assms(1)])
qed

text \<open>The answer to a reset: the function may send requests, and its address, if it has one, has its filter.\<close>

definition was_reset :: "nat \<Rightarrow> vf_data_storage \<Rightarrow> 'h vf_adapter \<Rightarrow> bool" where
  "was_reset vf v ad \<longleftrightarrow> (\<exists>a. vfinfo ad ! vf = v\<lparr>clear_to_send := True, vf_mac_addresses := a\<rparr> \<and>
     (\<not> is_zero_ether_addr a \<longrightarrow> a = vf_mac_addresses v \<and> (a, of_nat vf) \<in># filters_of ad))"

lemma reset_answer_good:
  assumes "vf_ok R reg ad" "vf < unat (num_vfs ad)"
  shows "succeeds (\<lambda>x. vf_good R reg vf ad (snd x) \<and> fst x = 0 \<and> was_reset vf (vfinfo ad ! vf) (snd x)) (vf_reset_answer R vf ad)"
proof -
  note i = vf_info_at[OF assms]
  let ?v = "vfinfo ad ! vf" and ?a = "vf_mac_addresses (vfinfo ad ! vf)"
  have l: "length ?a = 6" using i(2) by (simp add: vf_data_ok_def)
  obtain r ad1 where 1: "(if is_zero_ether_addr ?a then Inr (0, ad) else set_vf_mac R vf ?a ad) = Inr (r, ad1)"
      "vf_good R reg vf ad ad1" "\<exists>a. vfinfo ad1 ! vf = ?v\<lparr>vf_mac_addresses := a\<rparr> \<and> (is_zero_ether_addr a \<or> a = ?a \<and> (a, of_nat vf) \<in># filters_of ad1)"
  proof (cases "is_zero_ether_addr ?a")
    case True
    have "vfinfo ad ! vf = ?v\<lparr>vf_mac_addresses := ?a\<rparr>" by simp
    with True have "\<exists>a. vfinfo ad ! vf = ?v\<lparr>vf_mac_addresses := a\<rparr> \<and> (is_zero_ether_addr a \<or> a = ?a \<and> (a, of_nat vf) \<in># filters_of ad)" by blast
    then show ?thesis using True that[of 0 ad] vf_same_good[OF vf_same_refl[OF assms(1)]] by simp
  next
    case False
    obtain r ad' where s: "set_vf_mac R vf ?a ad = Inr (r, ad')" "vf_good R reg vf ad ad'"
      "vfinfo ad' ! vf = ?v\<lparr>vf_mac_addresses := if r \<ge> 0 then ?a else zero_ether_addr\<rparr>" "r \<ge> 0 \<longrightarrow> (?a, of_nat vf) \<in># filters_of ad'"
      using set_mac_result[OF assms l] by blast
    show ?thesis
    proof (rule that[OF _ s(2)])
      show "(if is_zero_ether_addr ?a then Inr (0, ad) else set_vf_mac R vf ?a ad) = Inr (r, ad')" using False s(1) by simp
      show "\<exists>a. vfinfo ad' ! vf = ?v\<lparr>vf_mac_addresses := a\<rparr> \<and> (is_zero_ether_addr a \<or> a = ?a \<and> (a, of_nat vf) \<in># filters_of ad')"
        by (intro exI[of _ "if r \<ge> 0 then ?a else zero_ether_addr"] conjI s(3)) (use s(4) zero_addr_zero in simp)
    qed
  qed
  have ok1: "vf_ok R reg ad1" "vf < unat (num_vfs ad1)" using vf_good_ok[OF 1(2)] assms(2) by simp_all
  let ?v1 = "vfinfo ad1 ! vf" and ?e = "enable_vf_queues R vf ad1"
  have e: "vf_same R reg ad1 ?e" by (rule enable_same[OF ok1])
  define ad2 where "ad2 = put_vf vf (?v1\<lparr>clear_to_send := True\<rparr>) ?e"
  have "vf_data_ok (?v1\<lparr>clear_to_send := True\<rparr>)" using vf_info_at(2)[OF ok1] by (simp add: vf_data_ok_def)
  then have 2: "vf_good R reg vf ad1 ad2" unfolding ad2_def by (rule put_same_good[OF e])
  have v2: "vfinfo ad2 ! vf = ?v1\<lparr>clear_to_send := True\<rparr>" "filters_of ad2 = filters_of ad1"
    using e vf_okD(3)[OF ok1(1)] ok1(2) by (simp_all add: ad2_def put_vf_def vf_same_def filters_of_def)
  have ok2: "vf_ok R reg ad2" "vf < unat (num_vfs ad2)" using vf_good_ok[OF 2] ok1(2) by simp_all
  define ad3 where "ad3 = vf_hw (\<lambda>hw. clear_write_back R vf (q_per_pool ad2) (rmw R (IXGBE_VMECM (vf div 32)) (\<lambda>r. r OR vf_shift_bit vf) hw)) ad2"
  have 3: "vf_same R reg ad2 ad3" unfolding ad3_def by (rule write_back_same[OF ok2])
  have ok3: "vf_ok R reg ad3" "vf < unat (num_vfs ad3)" using vf_same_ok[OF 3] ok2(2) by simp_all
  have "succeeds (\<lambda>x. vf_same R reg ad3 (snd x)) (vf_write_mbx R (reset_reply (vf_mac_addresses ?v1) (mc_filter_type (mt_hw ad3))) 4 vf ad3)"
    by (rule write_good[OF ok3]) (simp_all add: reset_reply_def)
  then obtain r4 ad4 where 4: "vf_write_mbx R (reset_reply (vf_mac_addresses ?v1) (mc_filter_type (mt_hw ad3))) 4 vf ad3 = Inr (r4, ad4)" "vf_same R reg ad3 ad4"
    by (auto simp: succeeds_iff)
  have s: "vf_same R reg ad2 ad4" by (rule vf_same_trans[OF 3 4(2)])
  have g: "vf_good R reg vf ad ad4" by (rule vf_good_trans[OF 1(2) vf_good_trans[OF 2 vf_same_good[OF s]]])
  obtain a where a: "?v1 = ?v\<lparr>vf_mac_addresses := a\<rparr>" "is_zero_ether_addr a \<or> a = ?a \<and> (a, of_nat vf) \<in># filters_of ad1" using 1(3) by blast
  have "vfinfo ad4 ! vf = ?v\<lparr>clear_to_send := True, vf_mac_addresses := a\<rparr>" "filters_of ad4 = filters_of ad1"
    using a(1) v2 s by (simp_all add: vf_same_def)
  then have "was_reset vf ?v ad4" using a(2) unfolding was_reset_def by (intro exI[of _ a]) auto
  moreover have "vf_reset_answer R vf ad = Inr (0, ad4)"
    using i(1) 1(1) vf_info_at(1)[OF ok1] 4(1) by (simp add: vf_reset_answer_def Let_def ad2_def[symmetric] ad3_def[symmetric])
  ultimately show ?thesis using g by simp
qed

end
