(* ===== verification/SriovHeld.thy ===== *)
theory SriovHeld
  imports SriovCalls
begin

text \<open>
  A virtual function cannot undo what the host has set for it: its requests keep the VLAN, the priority and the rate, and
  an address the host has set is kept or lost, never replaced.
\<close>

text \<open>
  The data of a virtual function after a request of its own: the VLAN, the priority and the rate the host has set
  are as before, and an address the host has set has at most been lost.
\<close>

definition held :: "vf_data_storage \<Rightarrow> vf_data_storage \<Rightarrow> bool" where
  "held v v' \<longleftrightarrow> pf_set_mac v' = pf_set_mac v \<and> pf_set_vlan v' = pf_set_vlan v \<and> pf_vlan v' = pf_vlan v \<and> pf_qos v' = pf_qos v \<and>
     tx_rate v' = tx_rate v \<and> spoofchk_enabled v' = spoofchk_enabled v \<and>
     (pf_set_mac v \<longrightarrow> vf_mac_addresses v' = vf_mac_addresses v \<or> is_zero_ether_addr (vf_mac_addresses v'))"

lemma held_refl [simp]: "held v v"
  by (simp add: held_def)

lemma held_trans:
  assumes "held u v" "held v w"
  shows "held u w"
  using assms by (auto simp: held_def)

lemma succeeds_results: "succeeds P m \<Longrightarrow> results Q m \<Longrightarrow> succeeds (\<lambda>x. P x \<and> Q x) m"
  by (auto simp: succeeds_iff)

lemma vfinfo_hw [simp]: "vfinfo (vf_hw f ad) = vfinfo ad" "vfinfo (snd (ixgbe_set_vf_vlan R on vid p ad)) = vfinfo ad"
  "vfinfo (snd (raise_max_frame R n ad)) = vfinfo ad"
  by (simp_all add: vf_hw_def ixgbe_set_vf_vlan_def raise_max_frame_def case_prod_beta Let_def)

lemma vfinfo_put [simp]: "vf < length (vfinfo ad) \<Longrightarrow> vfinfo (put_vf vf v ad) ! vf = v" "length (vfinfo (put_vf vf v ad)) = length (vfinfo ad)"
  by (simp_all add: put_vf_def)

lemma vfinfo_drop_pf [simp]: "vfinfo (drop_pf_pool R vid ad) = vfinfo ad"
  by (simp add: drop_pf_pool_def case_prod_beta Let_def)

abbreviation holds :: "nat \<Rightarrow> 'h vf_adapter \<Rightarrow> fault + 'a \<times> 'h vf_adapter \<Rightarrow> bool" where
  "holds vf ad m \<equiv> results (\<lambda>x. held (vfinfo ad ! vf) (vfinfo (snd x) ! vf)) m"

lemma multicasts_hold: "vf < length (vfinfo ad) \<Longrightarrow> holds vf ad (ixgbe_set_vf_multicasts R msg vf ad)"
  by (auto simp: ixgbe_set_vf_multicasts_def vf_info_ok case_prod_beta Let_def held_def intro!: results_intros)

lemma lpe_hold: "vf < length (vfinfo ad) \<Longrightarrow> holds vf ad (ixgbe_set_vf_lpe R old_esx n vf ad)"
  by (auto simp: ixgbe_set_vf_lpe_def vf_info_ok Let_def)

lemma negotiate_hold: "vf < length (vfinfo ad) \<Longrightarrow> holds vf ad (ixgbe_negotiate_vf_api msg vf ad)"
  by (auto simp: ixgbe_negotiate_vf_api_def vf_info_ok held_def)

lemma vlan_hold: "vf < length (vfinfo ad) \<Longrightarrow> holds vf ad (ixgbe_set_vf_vlan_msg R msg vf ad)"
  by (auto simp: ixgbe_set_vf_vlan_msg_def vf_info_ok case_prod_beta Let_def held_def)

lemma mac_addr_hold:
  assumes "vf_ok R reg ad" "vf < unat (num_vfs ad)"
  shows "holds vf ad (ixgbe_set_vf_mac_addr R msg vf ad)"
proof (cases "is_valid_ether_addr (msg_mac msg) \<and> \<not> (pf_set_mac (vfinfo ad ! vf) \<and> compare_ether_addr (vf_mac_addresses (vfinfo ad ! vf)) (msg_mac msg))")
  case True
  have l: "length (msg_mac msg) = 6" "length (vf_mac_addresses (vfinfo ad ! vf)) = 6" using vf_info_at(2)[OF assms] by (simp_all add: msg_mac_def vf_data_ok_def)
  obtain r ad' where "set_vf_mac R vf (msg_mac msg) ad = Inr (r, ad')"
      "vfinfo ad' ! vf = (vfinfo ad ! vf)\<lparr>vf_mac_addresses := if r \<ge> 0 then msg_mac msg else zero_ether_addr\<rparr>"
    using set_mac_result[OF assms l(1)] by blast
  then show ?thesis using True l vf_info_at(1)[OF assms] zero_addr_zero by (auto simp: ixgbe_set_vf_mac_addr_def held_def compare_ether_addr_def)
next
  case False
  then show ?thesis using vf_info_at(1)[OF assms] by (auto simp: ixgbe_set_vf_mac_addr_def)
qed

lemma request_hold:
  assumes "vf_ok R reg ad" "vf < unat (num_vfs ad)"
  shows "holds vf ad (vf_request R old_esx msg vf ad)"
proof -
  have l: "vf < length (vfinfo ad)" using vf_okD(3)[OF assms(1)] assms(2) by simp
  have a: "holds vf ad (rbind m (\<lambda>(r, ad1). Inr ((r, Some msg), ad1)))" if "holds vf ad m" for m :: "fault + int \<times> 'a vf_adapter"
    using that by (auto simp: results_def rbind_eq_Inr)
  show ?thesis unfolding vf_request_def Let_def
    by (intro results_if a mac_addr_hold[OF assms] multicasts_hold vlan_hold lpe_hold negotiate_hold l results_rbind) auto
qed

lemma serve_hold:
  assumes "vf_ok R reg ad" "vf < unat (num_vfs ad)"
  shows "holds vf ad (vf_serve R old_esx msg vf ad)"
proof -
  have w: "vfinfo ad2 = vfinfo ad1" if "vf_write_mbx R m n vf ad1 = Inr (r, ad2)" for m n r and ad1 ad2 :: "'a vf_adapter"
    using that by (auto simp: vf_write_mbx_def rbind_eq_Inr)
  have q: "held (vfinfo ad ! vf) (vfinfo ad1 ! vf)" if "vf_request R old_esx msg vf ad = Inr ((r, reply), ad1)" for r reply ad1
    using resultsD[OF request_hold[OF assms] that] by simp
  show ?thesis unfolding vf_serve_def vf_info_at(1)[OF assms] rbind_Inr
    by (intro results_if results_rbind) (auto simp: case_prod_beta dest!: w q split: option.splits intro!: results_rbind)
qed

end
