(* ===== verification/SriovRing.thy ===== *)
theory SriovRing
  imports SriovHeld
begin

text \<open>
  The virtual functions of a ring of adapters: what is done for one of them leaves everything else of the ring
  as it was.
\<close>

section \<open>The ring\<close>

definition ring_ok :: "'h device \<Rightarrow> ('h \<Rightarrow> u32 \<Rightarrow> u32) \<Rightarrow> 'h vf_ring \<Rightarrow> bool" where
  "ring_ok R reg ring \<longleftrightarrow> (\<forall>ad \<in> set ring. vf_ok R reg ad)"

text \<open>At most what belongs to the virtual function \<open>vf\<close> of adapter \<open>k\<close> has changed.\<close>

definition ring_good :: "'h device \<Rightarrow> ('h \<Rightarrow> u32 \<Rightarrow> u32) \<Rightarrow> nat \<Rightarrow> nat \<Rightarrow> 'h vf_ring \<Rightarrow> 'h vf_ring \<Rightarrow> bool" where
  "ring_good R reg k vf ring ring' \<longleftrightarrow> length ring' = length ring \<and>
     (\<forall>j < length ring. if j = k then vf_good R reg vf (ring ! j) (ring' ! j) else vf_same R reg (ring ! j) (ring' ! j))"

definition ring_same :: "'h device \<Rightarrow> ('h \<Rightarrow> u32 \<Rightarrow> u32) \<Rightarrow> 'h vf_ring \<Rightarrow> 'h vf_ring \<Rightarrow> bool" where
  "ring_same R reg = list_all2 (vf_same R reg)"

lemma ring_same_refl: "ring_ok R reg ring \<Longrightarrow> ring_same R reg ring ring"
  by (simp add: ring_same_def ring_ok_def list_all2_same vf_same_refl)

lemma ring_same_trans: "ring_same R reg a b \<Longrightarrow> ring_same R reg b c \<Longrightarrow> ring_same R reg a c"
  unfolding ring_same_def by (rule list_all2_trans[of "vf_same R reg" "vf_same R reg"]) (auto intro: vf_same_trans)

lemma ring_same_good: "ring_same R reg ring ring' \<Longrightarrow> ring_good R reg k vf ring ring'"
  by (auto simp: ring_same_def ring_good_def list_all2_conv_all_nth intro: vf_same_good)

lemma ring_good_trans:
  assumes "ring_good R reg k vf a b" "ring_good R reg k vf b c"
  shows "ring_good R reg k vf a c"
proof -
  have "if j = k then vf_good R reg vf (a ! j) (c ! j) else vf_same R reg (a ! j) (c ! j)" if "j < length a" for j
    using assms that unfolding ring_good_def by (cases "j = k") (auto elim!: allE[of _ j] intro: vf_good_trans vf_same_trans)
  then show ?thesis using assms by (simp add: ring_good_def)
qed

lemma ring_good_ok:
  assumes "ring_good R reg k vf ring ring'"
  shows "ring_ok R reg ring'" "length ring' = length ring" "k < length ring \<Longrightarrow> num_vfs (ring' ! k) = num_vfs (ring ! k)"
    "k < length ring \<Longrightarrow> vf_ok R reg (ring' ! k)"
proof -
  show l: "length ring' = length ring" using assms by (simp add: ring_good_def)
  have "vf_ok R reg (ring' ! j)" if "j < length ring" for j
    using assms that unfolding ring_good_def by (metis vf_good_ok(1) vf_same_ok(1))
  then show "ring_ok R reg ring'" "k < length ring \<Longrightarrow> vf_ok R reg (ring' ! k)" using l by (auto simp: ring_ok_def in_set_conv_nth)
  show "k < length ring \<Longrightarrow> num_vfs (ring' ! k) = num_vfs (ring ! k)" using assms unfolding ring_good_def by (metis vf_good_ok(2))
qed

lemma ring_same_ok: "ring_same R reg ring ring' \<Longrightarrow> ring_ok R reg ring'" "ring_same R reg ring ring' \<Longrightarrow> length ring' = length ring"
  using ring_good_ok(1,2)[OF ring_same_good] by blast+

lemma ring_same_at: "ring_same R reg ring ring' \<Longrightarrow> k < length ring \<Longrightarrow> vf_same R reg (ring ! k) (ring' ! k)"
  by (simp add: ring_same_def list_all2_conv_all_nth)

lemma ring_okD: "ring_ok R reg ring \<Longrightarrow> k < length ring \<Longrightarrow> vf_ok R reg (ring ! k)"
  by (simp add: ring_ok_def)

lemma on_adapter_good:
  assumes "ring_ok R reg ring" "k < length ring"
    and "succeeds (\<lambda>x. vf_good R reg vf (ring ! k) (snd x) \<and> P (fst x) (snd x)) (f (ring ! k))"
  shows "succeeds (\<lambda>x. ring_good R reg k vf ring (snd x) \<and> P (fst x) (snd x ! k)) (on_adapter k f ring)"
proof -
  obtain r ad where f: "f (ring ! k) = Inr (r, ad)" "vf_good R reg vf (ring ! k) ad" "P r ad" using assms(3) by (auto simp: succeeds_iff)
  have "ring_good R reg k vf ring (ring[k := ad])"
    using f(2) assms(2) vf_same_refl[OF ring_okD[OF assms(1)]] by (auto simp: ring_good_def nth_list_update)
  then show ?thesis using f assms(2) by (simp add: on_adapter_def)
qed

lemma on_adapter_same:
  assumes "ring_ok R reg ring" "k < length ring"
    and "succeeds (\<lambda>x. vf_same R reg (ring ! k) (snd x) \<and> P (fst x)) (f (ring ! k))"
  shows "succeeds (\<lambda>x. ring_same R reg ring (snd x) \<and> P (fst x)) (on_adapter k f ring)"
proof -
  obtain r ad where f: "f (ring ! k) = Inr (r, ad)" "vf_same R reg (ring ! k) ad" "P r" using assms(3) by (auto simp: succeeds_iff)
  have "ring_same R reg ring (ring[k := ad])"
    using f(2) assms(2) vf_same_refl[OF ring_okD[OF assms(1)]] by (auto simp: ring_same_def list_all2_conv_all_nth nth_list_update)
  then show ?thesis using f assms(2) by (simp add: on_adapter_def)
qed

text \<open>The same, and what the host has set for \<open>vf\<close> is kept.\<close>

definition served :: "'h device \<Rightarrow> ('h \<Rightarrow> u32 \<Rightarrow> u32) \<Rightarrow> nat \<Rightarrow> nat \<Rightarrow> 'h vf_ring \<Rightarrow> 'h vf_ring \<Rightarrow> bool" where
  "served R reg k vf ring ring' \<longleftrightarrow> ring_good R reg k vf ring ring' \<and> held (vfinfo (ring ! k) ! vf) (vfinfo (ring' ! k) ! vf)"

lemma served_good: "served R reg k vf ring ring' \<Longrightarrow> ring_good R reg k vf ring ring'"
  by (simp add: served_def)

lemma served_trans: "served R reg k vf a b \<Longrightarrow> served R reg k vf b c \<Longrightarrow> served R reg k vf a c"
  by (auto simp: served_def intro: ring_good_trans held_trans)

lemma same_served: "ring_same R reg ring ring' \<Longrightarrow> k < length ring \<Longrightarrow> served R reg k vf ring ring'"
  using ring_same_at[of R reg ring ring' k] by (simp add: served_def ring_same_good vf_same_def)

section \<open>Reset\<close>

definition reset_data :: "vf_data_storage \<Rightarrow> vf_data_storage" where
  "reset_data v = v\<lparr>num_vf_mc_hashes := 0, vf_api := ixgbe_mbox_api_10\<rparr>"

lemma reset_event_good:
  assumes "ring_ok R reg ring" "k < length ring" "vf < unat (num_vfs (ring ! k))"
  shows "succeeds (\<lambda>ring'. ring_good R reg k vf ring ring' \<and> vfinfo (ring' ! k) ! vf = reset_data (vfinfo (ring ! k) ! vf))
    (ixgbe_vf_reset_event R k vf ring)"
proof -
  let ?v = "vfinfo (ring ! k) ! vf"
  have "succeeds (\<lambda>x. vf_good R reg vf (ring ! k) (snd x) \<and> vfinfo (snd x) ! vf = ?v\<lparr>num_vf_mc_hashes := 0\<rparr>)
      (rbind (reset_offloads R vf (ring ! k)) (\<lambda>ad1. Inr ((), ad1)))"
    by (rule succeeds_bind[OF reset_offloads_good[OF ring_okD[OF assms(1,2)] assms(3)]]) simp
  from on_adapter_good[where f = "\<lambda>ad. rbind (reset_offloads R vf ad) (\<lambda>ad1. Inr ((), ad1))" and P = "\<lambda>_ ad. vfinfo ad ! vf = ?v\<lparr>num_vf_mc_hashes := 0\<rparr>",
      OF assms(1,2) this] obtain u ring1 where
    1: "on_adapter k (\<lambda>ad. rbind (reset_offloads R vf ad) (\<lambda>ad1. Inr ((), ad1))) ring = Inr (u, ring1)" "ring_good R reg k vf ring ring1"
      "vfinfo (ring1 ! k) ! vf = ?v\<lparr>num_vf_mc_hashes := 0\<rparr>" by (auto simp: succeeds_iff)
  note ok1 = ring_good_ok[OF 1(2)]
  obtain ring2 where 2: "ixgbe_set_rx_mode R ring1 = Inr ring2" "ring_same R reg ring1 ring2"
    using set_rx_mode_same[of ring1 R reg] ok1(1) by (auto simp: succeeds_iff ring_ok_def ring_same_def)
  note ok2 = ring_good_ok[OF ring_same_good[OF 2(2), of k vf]]
  have k2: "k < length ring2" "vf < unat (num_vfs (ring2 ! k))" using ok1(2,3) ok2(2,3) assms(2,3) by simp_all
  have v2: "vfinfo (ring2 ! k) = vfinfo (ring1 ! k)" using ring_same_at[OF 2(2), of k] ok1(2) assms(2) by (simp add: vf_same_def)
  have "succeeds (\<lambda>x. vf_good R reg vf (ring2 ! k) (snd x) \<and> vfinfo (snd x) ! vf = (vfinfo (ring2 ! k) ! vf)\<lparr>vf_api := ixgbe_mbox_api_10\<rparr>)
      (rbind (reset_filters R vf (ring2 ! k)) (\<lambda>ad1. Inr ((), ad1)))"
    by (rule succeeds_bind[OF reset_filters_good[OF ring_okD[OF ok2(1) k2(1)] k2(2)]]) simp
  from on_adapter_good[where f = "\<lambda>ad. rbind (reset_filters R vf ad) (\<lambda>ad1. Inr ((), ad1))"
      and P = "\<lambda>_ ad. vfinfo ad ! vf = (vfinfo (ring2 ! k) ! vf)\<lparr>vf_api := ixgbe_mbox_api_10\<rparr>", OF ok2(1) k2(1) this] obtain w ring3 where
    3: "on_adapter k (\<lambda>ad. rbind (reset_filters R vf ad) (\<lambda>ad1. Inr ((), ad1))) ring2 = Inr (w, ring3)" "ring_good R reg k vf ring2 ring3"
      "vfinfo (ring3 ! k) ! vf = (vfinfo (ring2 ! k) ! vf)\<lparr>vf_api := ixgbe_mbox_api_10\<rparr>" by (auto simp: succeeds_iff)
  have "ring_good R reg k vf ring ring3" by (rule ring_good_trans[OF 1(2) ring_good_trans[OF ring_same_good[OF 2(2)] 3(2)]])
  moreover have "ixgbe_vf_reset_event R k vf ring = Inr ring3" using 1(1) 2(1) 3(1) by (simp add: ixgbe_vf_reset_event_def)
  moreover have "vfinfo (ring3 ! k) ! vf = reset_data ?v" using 1(3) 3(3) v2 by (simp add: reset_data_def)
  ultimately show ?thesis by simp
qed

lemma reset_msg_good:
  assumes "ring_ok R reg ring" "k < length ring" "vf < unat (num_vfs (ring ! k))"
  shows "succeeds (\<lambda>x. ring_good R reg k vf ring (snd x) \<and> fst x = 0 \<and> was_reset vf (reset_data (vfinfo (ring ! k) ! vf)) (snd x ! k))
    (ixgbe_vf_reset_msg R k vf ring)"
proof -
  obtain ring1 where 1: "ixgbe_vf_reset_event R k vf ring = Inr ring1" "ring_good R reg k vf ring ring1"
    "vfinfo (ring1 ! k) ! vf = reset_data (vfinfo (ring ! k) ! vf)" using reset_event_good[OF assms] by (auto simp: succeeds_iff)
  note ok1 = ring_good_ok[OF 1(2)]
  have k1: "k < length ring1" "vf < unat (num_vfs (ring1 ! k))" using ok1(2,3) assms(2,3) by simp_all
  have "succeeds (\<lambda>x. ring_good R reg k vf ring1 (snd x) \<and> fst x = 0 \<and> was_reset vf (vfinfo (ring1 ! k) ! vf) (snd x ! k))
      (on_adapter k (vf_reset_answer R vf) ring1)"
    by (rule on_adapter_good[where f = "vf_reset_answer R vf" and P = "\<lambda>r ad. r = 0 \<and> was_reset vf (vfinfo (ring1 ! k) ! vf) ad",
        OF ok1(1) k1(1) reset_answer_good[OF ring_okD[OF ok1(1) k1(1)] k1(2)]])
  then show ?thesis using 1 by (auto simp: ixgbe_vf_reset_msg_def succeeds_iff intro: ring_good_trans[OF 1(2)])
qed

lemma reset_held: "held v (reset_data v)" "was_reset vf (reset_data v) ad \<Longrightarrow> held v (vfinfo ad ! vf)"
  by (auto simp: was_reset_def reset_data_def held_def)

section \<open>Messages\<close>

lemma read_same:
  assumes "ring_ok R reg ring" "k < length ring" "vf < unat (num_vfs (ring ! k))" "length stk = 16"
  shows "succeeds (\<lambda>x. ring_same R reg ring (snd x) \<and> length (snd (fst x)) = 16) (on_adapter k (vf_read_mbx R stk IXGBE_VFMAILBOX_SIZE vf) ring)"
proof (rule on_adapter_same[OF assms(1,2)])
  note ok = ring_okD[OF assms(1,2)]
  obtain r msg m where "ixgbe_read_mbx R stk 16 (of_nat vf) (mbx_view (mt_hw (ring ! k))) = Inr (r, msg, m)" "length msg = 16"
      "calm reg (mt_hw (ring ! k)) (with_mbx m (mt_hw (ring ! k)))"
    using read_mbx_calm[OF vf_okD(1,2)[OF ok] vf_info_at(3)[OF ok assms(3)] assms(4)] by blast
  then show "succeeds (\<lambda>x. vf_same R reg (ring ! k) (snd x) \<and> length (snd (fst x)) = 16) (vf_read_mbx R stk IXGBE_VFMAILBOX_SIZE vf (ring ! k))"
    using hw_same[OF ok] by (simp add: vf_read_mbx_def vf_hw_def)
qed

text \<open>
  A message: the function that sent it ends up reset, or may send requests, or nothing has changed.
\<close>

lemma rcv_msg_good:
  assumes "ring_ok R reg ring" "k < length ring" "vf < unat (num_vfs (ring ! k))" "length stk = 16"
  shows "succeeds (\<lambda>x. served R reg k vf ring (snd x) \<and>
      (clear_to_send (vfinfo (ring ! k) ! vf) \<or> was_reset vf (reset_data (vfinfo (ring ! k) ! vf)) (snd x ! k) \<or> ring_same R reg ring (snd x)))
    (ixgbe_rcv_msg_from_vf R old_esx stk k vf ring)"
proof -
  obtain r msg ring1 where 1: "on_adapter k (vf_read_mbx R stk IXGBE_VFMAILBOX_SIZE vf) ring = Inr ((r, msg), ring1)"
      "ring_same R reg ring ring1" "length msg = 16" using read_same[OF assms] by (auto simp: succeeds_iff)
  note ok1 = ring_same_ok[OF 1(2)]
  have k1: "k < length ring1" using ok1(2) assms(2) by simp
  have "vf_same R reg (ring1 ! k) (vf_hw (IXGBE_WRITE_FLUSH R) (ring1 ! k))"
    by (rule vf_hw_same[OF ring_okD[OF ok1(1) k1]])
      (simp only: IXGBE_WRITE_FLUSH_def calm_read[OF vf_okD(1)[OF ring_okD[OF ok1(1) k1]] single_not_rar(1) calm_refl])
  then obtain u ring2 where 2: "on_adapter k (\<lambda>ad. Inr ((), vf_hw (IXGBE_WRITE_FLUSH R) ad)) ring1 = Inr (u, ring2)" "ring_same R reg ring1 ring2"
    using on_adapter_same[where f = "\<lambda>ad. Inr ((), vf_hw (IXGBE_WRITE_FLUSH R) ad)" and P = "\<lambda>_. True", OF ok1(1) k1] by (auto simp: succeeds_iff)
  have s2: "ring_same R reg ring ring2" by (rule ring_same_trans[OF 1(2) 2(2)])
  note ok2 = ring_same_ok[OF s2]
  have k2: "k < length ring2" "vf < unat (num_vfs (ring2 ! k))" "vfinfo (ring2 ! k) = vfinfo (ring ! k)"
    using ok2(2) assms(2,3) ring_same_at[OF s2 assms(2)] vf_same_ok(2) by (auto simp: vf_same_def same_setup_fields)
  note g2 = same_served[OF s2 assms(2), of vf]
  show ?thesis
  proof (cases "r \<noteq> 0 \<or> msg ! 0 AND (IXGBE_VT_MSGTYPE_ACK OR IXGBE_VT_MSGTYPE_NACK) \<noteq> 0")
    case True
    then have "ixgbe_rcv_msg_from_vf R old_esx stk k vf ring = Inr (r, ring1)" using 1(1) by (auto simp: ixgbe_rcv_msg_from_vf_def)
    then show ?thesis using 1(2) same_served[OF 1(2) assms(2)] by simp
  next
    case False
    then have e: "ixgbe_rcv_msg_from_vf R old_esx stk k vf ring =
        (if msg ! 0 = IXGBE_VF_RESET then ixgbe_vf_reset_msg R k vf ring2 else on_adapter k (vf_serve R old_esx msg vf) ring2)"
      using 1(1) 2(1) by (auto simp: ixgbe_rcv_msg_from_vf_def)
    show ?thesis
    proof (cases "msg ! 0 = IXGBE_VF_RESET")
      case True
      obtain ring' where m: "ixgbe_vf_reset_msg R k vf ring2 = Inr (0, ring')" "ring_good R reg k vf ring2 ring'"
          "was_reset vf (reset_data (vfinfo (ring ! k) ! vf)) (ring' ! k)"
        using reset_msg_good[OF ok2(1) k2(1,2)] k2(3) by (auto simp: succeeds_iff)
      have "served R reg k vf ring2 ring'" unfolding served_def k2(3) using m(2) reset_held(2)[OF m(3)] by blast
      then show ?thesis using served_trans[OF g2] m(1,3) e True by simp
    next
      case no: False
      note ad = ring_okD[OF ok2(1) k2(1)]
      show ?thesis
      proof (cases "clear_to_send (vfinfo (ring ! k) ! vf)")
        case True
        have "succeeds (\<lambda>x. served R reg k vf ring2 (snd x)) (on_adapter k (vf_serve R old_esx msg vf) ring2)"
          unfolding served_def by (rule on_adapter_good[OF ok2(1) k2(1)]) (rule succeeds_results[OF serve_good[OF ad k2(2) 1(3)] serve_hold[OF ad k2(2)]])
        then show ?thesis using True e no by (auto simp: succeeds_iff intro: served_trans[OF g2])
      next
        case unset: False
        have "succeeds (\<lambda>x. vf_same R reg (ring2 ! k) (snd x)) (vf_serve R old_esx msg vf (ring2 ! k))"
          using serve_unreset[OF ad k2(2) 1(3)] unset k2(3) by simp
        then have "succeeds (\<lambda>x. ring_same R reg ring2 (snd x) \<and> True) (on_adapter k (vf_serve R old_esx msg vf) ring2)"
          by (intro on_adapter_same[OF ok2(1) k2(1)]) simp
        then show ?thesis using e no by (auto simp: succeeds_iff intro: same_served[OF ring_same_trans[OF s2] assms(2)] ring_same_trans[OF s2])
      qed
    qed
  qed
qed

section \<open>The mailbox task\<close>

lemma check_same:
  assumes "ring_ok R reg ring" "k < length ring" "vf < unat (num_vfs (ring ! k))"
    and "f = ixgbe_check_for_rst R (of_nat vf) \<or> f = ixgbe_check_for_msg R (of_nat vf) \<or> f = ixgbe_check_for_ack R (of_nat vf)"
  shows "succeeds (\<lambda>x. ring_same R reg ring (snd x)) (on_adapter k (\<lambda>ad. Inr (vf_check f ad)) ring)"
proof -
  note ok = ring_okD[OF assms(1,2)]
  have "calm reg (mt_hw (ring ! k)) (with_mbx (snd (f (mbx_view (mt_hw (ring ! k))))) (mt_hw (ring ! k)))"
    using assms(4) check_calm[OF vf_okD(1,2)[OF ok] vf_info_at(3)[OF ok assms(3)]] by auto
  from hw_same[OF ok this] have "succeeds (\<lambda>x. vf_same R reg (ring ! k) (snd x) \<and> True) (Inr (vf_check f (ring ! k)))"
    by (simp add: vf_check_def case_prod_beta vf_hw_def)
  from on_adapter_same[where f = "\<lambda>ad. Inr (vf_check f ad)" and P = "\<lambda>_. True", OF assms(1,2) this] show ?thesis by simp
qed

lemma ack_same:
  assumes "ring_ok R reg ring" "k < length ring" "vf < unat (num_vfs (ring ! k))"
  shows "succeeds (\<lambda>x. ring_same R reg ring (snd x)) (on_adapter k (ixgbe_rcv_ack_from_vf R vf) ring)"
proof -
  note ok = ring_okD[OF assms(1,2)]
  have "succeeds (\<lambda>x. vf_same R reg (ring ! k) (snd x) \<and> True) (ixgbe_rcv_ack_from_vf R vf (ring ! k))"
    using write_good[OF ok assms(3), of 1 "[IXGBE_VT_MSGTYPE_NACK]"] vf_info_at(1)[OF ok assms(3)] vf_same_refl[OF ok]
    by (simp add: ixgbe_rcv_ack_from_vf_def)
  from on_adapter_same[where f = "ixgbe_rcv_ack_from_vf R vf" and P = "\<lambda>_. True", OF assms(1,2) this] show ?thesis by simp
qed

lemma when_shown_good:
  assumes "ring_ok R reg ring" "k < length ring" "vf < unat (num_vfs (ring ! k))"
    and "c = ixgbe_check_for_rst R (of_nat vf) \<or> c = ixgbe_check_for_msg R (of_nat vf) \<or> c = ixgbe_check_for_ack R (of_nat vf)"
    and "\<And>ring1. ring_ok R reg ring1 \<Longrightarrow> k < length ring1 \<Longrightarrow> vf < unat (num_vfs (ring1 ! k)) \<Longrightarrow> succeeds (served R reg k vf ring1) (f ring1)"
  shows "succeeds (served R reg k vf ring) (when_shown c f k ring)"
proof -
  obtain r ring1 where 1: "on_adapter k (\<lambda>ad. Inr (vf_check c ad)) ring = Inr (r, ring1)" "ring_same R reg ring ring1"
    using check_same[OF assms(1-4)] by (auto simp: succeeds_iff)
  note g = same_served[OF 1(2) assms(2), of vf] and good = ring_good_ok[OF ring_same_good[OF 1(2), of k vf]]
  have "succeeds (served R reg k vf ring1) (f ring1)" using assms(2,3) good by (intro assms(5)) simp_all
  then show ?thesis using 1(1) g by (auto simp: when_shown_def succeeds_iff intro: served_trans[OF g])
qed

lemma succeeds_good_bind:
  assumes "ring_ok R reg ring" "k < length ring" "vf < unat (num_vfs (ring ! k))" "succeeds (served R reg k vf ring) m"
    and "\<And>ring1. ring_ok R reg ring1 \<Longrightarrow> k < length ring1 \<Longrightarrow> vf < unat (num_vfs (ring1 ! k)) \<Longrightarrow> succeeds (served R reg k vf ring1) (f ring1)"
  shows "succeeds (served R reg k vf ring) (rbind m f)"
proof (rule succeeds_bind[OF assms(4)])
  fix ring1 assume g: "served R reg k vf ring ring1"
  then have "succeeds (served R reg k vf ring1) (f ring1)" using assms(2,3) ring_good_ok[OF served_good[OF g]] by (intro assms(5)) simp_all
  then show "succeeds (served R reg k vf ring) (f ring1)" by (auto simp: succeeds_iff intro: served_trans[OF g])
qed

lemma step_good:
  assumes "ring_ok R reg ring" "k < length ring" "vf < unat (num_vfs (ring ! k))" "length (stk vf) = 16"
  shows "succeeds (served R reg k vf ring) (msg_task_step R old_esx stk k vf ring)"
proof -
  have rst: "succeeds (served R reg k vf ring1) (when_shown (ixgbe_check_for_rst R (of_nat vf)) (ixgbe_vf_reset_event R k vf) k ring1)"
    if "ring_ok R reg ring1" "k < length ring1" "vf < unat (num_vfs (ring1 ! k))" for ring1
    by (rule when_shown_good[OF that]) (use reset_event_good reset_held(1) in \<open>fastforce simp: succeeds_iff served_def\<close>)+
  have msg: "succeeds (served R reg k vf ring1)
      (when_shown (ixgbe_check_for_msg R (of_nat vf)) (\<lambda>ring. rbind (ixgbe_rcv_msg_from_vf R old_esx (stk vf) k vf ring) (\<lambda>(_, ring). Inr ring)) k ring1)"
    if "ring_ok R reg ring1" "k < length ring1" "vf < unat (num_vfs (ring1 ! k))" for ring1
  proof (rule when_shown_good[OF that])
    fix ring assume "ring_ok R reg ring" "k < length ring" "vf < unat (num_vfs (ring ! k))"
    from rcv_msg_good[OF this assms(4), of old_esx]
    show "succeeds (served R reg k vf ring) (rbind (ixgbe_rcv_msg_from_vf R old_esx (stk vf) k vf ring) (\<lambda>(_, ring). Inr ring))"
      by (rule succeeds_bind) (simp add: case_prod_beta)
  qed simp
  have ack: "succeeds (served R reg k vf ring1)
      (when_shown (ixgbe_check_for_ack R (of_nat vf)) (\<lambda>ring. rbind (on_adapter k (ixgbe_rcv_ack_from_vf R vf) ring) (\<lambda>(_, ring). Inr ring)) k ring1)"
    if "ring_ok R reg ring1" "k < length ring1" "vf < unat (num_vfs (ring1 ! k))" for ring1
  proof (rule when_shown_good[OF that])
    fix ring assume "ring_ok R reg ring" "k < length ring" "vf < unat (num_vfs (ring ! k))"
    note k = this
    from ack_same[OF this] show "succeeds (served R reg k vf ring) (rbind (on_adapter k (ixgbe_rcv_ack_from_vf R vf) ring) (\<lambda>(_, ring). Inr ring))"
      by (rule succeeds_bind) (simp add: case_prod_beta same_served k(2))
  qed simp
  show ?thesis unfolding msg_task_step_def
    by (intro succeeds_good_bind[OF assms(1-3) rst[OF assms(1-3)]] succeeds_good_bind[OF _ _ _ msg] ack)
qed

text \<open>
  The whole task of an adapter with \<open>n\<close> virtual functions: the filters of pools from \<open>n\<close> on stay, and so does
  every other adapter.
\<close>

definition task_good :: "'h device \<Rightarrow> ('h \<Rightarrow> u32 \<Rightarrow> u32) \<Rightarrow> nat \<Rightarrow> 'h vf_ring \<Rightarrow> 'h vf_ring \<Rightarrow> bool" where
  "task_good R reg k ring ring' \<longleftrightarrow> ring_ok R reg ring' \<and> length ring' = length ring \<and>
     (\<forall>j < length ring. if j = k then num_vfs (ring' ! j) = num_vfs (ring ! j) \<and>
          filter_mset (\<lambda>f. unat (num_vfs (ring ! j)) \<le> unat (snd f)) (filters_of (ring' ! j)) =
          filter_mset (\<lambda>f. unat (num_vfs (ring ! j)) \<le> unat (snd f)) (filters_of (ring ! j))
        else vf_same R reg (ring ! j) (ring' ! j))"

lemma good_pf_filters:
  assumes "vf_good R reg vf ad ad'" "vf < n" "n < 64"
  shows "filter_mset (\<lambda>f. n \<le> unat (snd f)) (filters_of ad') = filter_mset (\<lambda>f. n \<le> unat (snd f)) (filters_of ad)"
proof -
  have u: "unat (of_nat vf :: u16) = vf" using assms(2,3) by (simp add: unat_of_nat)
  have "filter_mset (\<lambda>f. n \<le> unat (snd f)) F = filter_mset (\<lambda>f. n \<le> unat (snd f)) (filter_mset (\<lambda>f. snd f \<noteq> of_nat vf) F)" for F :: "mac_filter multiset"
    unfolding filter_filter_mset by (rule filter_mset_cong) (use assms(2) u in auto)
  then show ?thesis using assms(1) unfolding vf_good_def others_def by (metis prod.inject)
qed

lemma task_good_step:
  assumes "task_good R reg k ring ring1" "ring_good R reg k vf ring1 ring2" "k < length ring" "vf < unat (num_vfs (ring ! k))" "unat (num_vfs (ring ! k)) < 64"
  shows "task_good R reg k ring ring2"
proof -
  note ok = ring_good_ok[OF assms(2)]
  have l: "length ring1 = length ring" using assms(1) by (simp add: task_good_def)
  have "if j = k then num_vfs (ring2 ! j) = num_vfs (ring ! j) \<and>
          filter_mset (\<lambda>f. unat (num_vfs (ring ! j)) \<le> unat (snd f)) (filters_of (ring2 ! j)) =
          filter_mset (\<lambda>f. unat (num_vfs (ring ! j)) \<le> unat (snd f)) (filters_of (ring ! j))
        else vf_same R reg (ring ! j) (ring2 ! j)" if j: "j < length ring" for j
  proof (cases "j = k")
    case True
    have "vf_good R reg vf (ring1 ! k) (ring2 ! k)" using assms(2,3) l by (auto simp: ring_good_def)
    from good_pf_filters[OF this assms(4,5)] show ?thesis using assms(1,3) ok(3) l True by (auto simp: task_good_def)
  next
    case False
    then have "vf_same R reg (ring ! j) (ring1 ! j)" "vf_same R reg (ring1 ! j) (ring2 ! j)"
      using assms(1,2) j l by (simp_all add: task_good_def ring_good_def)
    then show ?thesis using False vf_same_trans by simp
  qed
  then show ?thesis using ok(1,2) l by (simp add: task_good_def)
qed

lemma task_ok:
  assumes "ring_ok R reg ring" "k < length ring" "\<And>vf. length (stk vf) = 16"
  shows "succeeds (task_good R reg k ring) (ixgbe_msg_task R old_esx stk k ring)"
proof -
  let ?n = "unat (num_vfs (ring ! k))"
  have n: "?n < 64" by (rule vf_okD(4)[OF ring_okD[OF assms(1,2)]])
  have "succeeds (task_good R reg k ring) (fold (\<lambda>vf r. rbind r (msg_task_step R old_esx stk k vf)) [0..<m] (Inr ring))" if "m \<le> ?n" for m
    using that
  proof (induction m)
    case 0
    then show ?case using assms(1) ring_okD[OF assms(1)] by (simp add: task_good_def vf_same_refl)
  next
    case (Suc m)
    have "succeeds (task_good R reg k ring) (msg_task_step R old_esx stk k m ring1)" if t: "task_good R reg k ring ring1" for ring1
    proof -
      have 1: "ring_ok R reg ring1" "k < length ring1" "m < unat (num_vfs (ring1 ! k))" using t assms(2) Suc.prems by (auto simp: task_good_def)
      show ?thesis using step_good[where stk = stk and old_esx = old_esx, OF 1 assms(3)] task_good_step[OF t served_good assms(2) _ n, of m] Suc.prems by (auto simp: succeeds_iff)
    qed
    from succeeds_bind[OF Suc.IH this] show ?case using Suc.prems by simp
  qed
  moreover have "on_adapter k (\<lambda>ad. Inr (unat (num_vfs ad), ad)) ring = Inr (?n, ring)" using assms(2) by (simp add: on_adapter_def)
  ultimately show ?thesis by (simp add: ixgbe_msg_task_def)
qed

section \<open>Properties\<close>

text \<open>A ring of two adapters with two virtual functions each; function 1 of the first has an address, function 0 has been reset.\<close>

definition demo_vf :: "bool \<Rightarrow> u8 list \<Rightarrow> vf_data_storage" where
  "demo_vf cts a = \<lparr>vf_mac_addresses = a, vf_mc_hashes = replicate 30 0, num_vf_mc_hashes = 0, clear_to_send = cts, pf_set_vlan = False,
     pf_set_mac = False, pf_vlan = 0, pf_qos = 0, tx_rate = 0, vlan_count = 0, spoofchk_enabled = False, vf_api = 0\<rparr>"

definition demo_vf_adapter :: "(u32 \<Rightarrow> u32) vf_adapter" where
  "demo_vf_adapter = \<lparr>mt_hw = (demo_flt_hw ixgbe_mac_82599EB)\<lparr>num_rar_entries := 8, hw_dev := \<lambda>_. 0\<rparr>,
     mac_table = replicate 8 \<lparr>mt_addr = zero_ether_addr, mt_queue = 0, mt_state = 0\<rparr>,
     vfinfo = [demo_vf True [0, 0x1B, 0x21, 9, 9, 0], demo_vf False [0, 0x1B, 0x21, 9, 9, 1]], num_vfs = 2, pool_mask = 0x7E, pool_offset = 2,
     dcb_flag = False, dcb_tc = 0, default_up = 0, vf_dcb_cfg = rounding_cfg, netdev_flags = 0, netdev_mtu = 1500, fcoe_mtu = False,
     dev_running = True, mc_list = [], dev_addr = replicate 32 0\<rparr>"

definition demo_vf_ring :: "(u32 \<Rightarrow> u32) vf_ring" where
  "demo_vf_ring = [demo_vf_adapter, demo_vf_adapter]"

lemma demo_vf_ok: "vf_ok register_file (\<lambda>s. s) demo_vf_adapter"
proof -
  have "rar_private register_file (\<lambda>s. s)" by (auto simp: rar_private_def same_rars_def register_file_def)
  moreover have "table_ready register_file (\<lambda>s. s) demo_vf_adapter" "mirrored (\<lambda>s. s) demo_vf_adapter"
    by (simp_all add: table_ready_def rar_ready_def register_file_bank demo_vf_adapter_def demo_flt_hw_def mirrored_def in_step_def
        entry_modified_def entry_in_use_def entry_view_def rar_view_def entry_ok_def zero_ether_addr_def)
  moreover have "hw_fits (mt_hw demo_vf_adapter)" by (simp add: hw_fits_def pf_mailbox_def demo_vf_adapter_def demo_flt_hw_def)
  moreover have "dcb_typed rounding_cfg \<and> unat (pg_tcs (num_tcs rounding_cfg)) \<le> 8" by code_simp
  then have "vfs_fit demo_vf_adapter"
    by (simp add: vfs_fit_def demo_vf_adapter_def demo_vf_def vf_data_ok_def q_per_pool_def Let_def)
  ultimately show ?thesis by (simp add: vf_ok_def)
qed

lemma demo_vf_ring_ok: "ring_ok register_file (\<lambda>s. s) demo_vf_ring" "0 < length demo_vf_ring" "1 < unat (num_vfs (demo_vf_ring ! 0))"
  "\<not> clear_to_send (vfinfo (demo_vf_ring ! 0) ! 1)"
  using demo_vf_ok by (simp_all add: ring_ok_def demo_vf_ring_def) (simp_all add: demo_vf_adapter_def demo_vf_def)







text \<open>
  C35. The host has the last word: serving a virtual function never changes the VLAN, the priority, the transmit rate and
  the spoof check the host has set for it, nor whether the host has set them, and an address the host has set
  is never replaced by another one; at most it is lost, when no address register is free.
\<close>

theorem host_settings_hold:
  assumes "ring_ok R reg ring" "k < length ring" "vf < unat (num_vfs (ring ! k))" "length (stk vf) = 16"
  shows "\<exists>ring'. msg_task_step R old_esx stk k vf ring = Inr ring' \<and> held (vfinfo (ring ! k) ! vf) (vfinfo (ring' ! k) ! vf)"
  using step_good[where stk = stk and old_esx = old_esx, OF assms] by (auto simp: succeeds_iff served_def)

theorem host_settings_hold_witness:
  "\<exists>ring'. msg_task_step register_file False (\<lambda>_. replicate 16 0) 0 1 demo_vf_ring = Inr ring' \<and> pf_vlan (vfinfo (ring' ! 0) ! 1) = 0"
proof -
  have "pf_vlan (vfinfo (demo_vf_ring ! 0) ! 1) = 0" by (simp add: demo_vf_ring_def demo_vf_adapter_def demo_vf_def)
  then show ?thesis using host_settings_hold[OF demo_vf_ring_ok(1-3), of "\<lambda>_. replicate 16 0" False] by (auto simp: held_def)
qed

section \<open>Where the code departs from its comments\<close>

lemma jumbo_pf:
  assumes "1437 \<le> netdev_mtu ad" "netdev_mtu ad \<le> 65535"
  shows "pf_max_frame ad > ETH_FRAME_LEN"
proof -
  define n where "n = unat (netdev_mtu ad)"
  have n: "1437 \<le> n" "n \<le> 65535" "netdev_mtu ad = of_nat n" using assms by (simp_all add: n_def word_le_nat_alt)
  have "(netdev_mtu ad + 14) + 64 = of_nat (n + 78)" using n(3) by simp
  moreover have "sint (of_nat (n + 78) :: u32) = int (n + 78)" using n(2) unfolding signed_of_nat by (simp add: signed_take_bit_int_eq_self_iff)
  ultimately have "sint ((netdev_mtu ad + 14) + 64) > 1514" using n(1) by (simp only:)
  then show ?thesis by (simp add: pf_max_frame_def Let_def less_max_iff_disj)
qed

lemma vf_bit_cleared: "\<not> bit (x AND NOT (vf_shift_bit vf)) (vf mod 32)"
  by (simp add: vf_shift_bit_def bit_simps)

text \<open>
  C40. On an 82599 the room the ring keeps for its header makes a physical function with the standard MTU count as one with
  jumbo frames: with an MTU of 1437 bytes or more a virtual function that has not negotiated version 1.1 is
  refused every frame size it asks for, its reception is switched off, and a reset does not switch it on.
\<close>

theorem headroom_stops_vfs:
  fixes ad :: "('h, 'z) vf_adapter_scheme"
  assumes "mac_type (mt_hw ad) = ixgbe_mac_82599EB" "plain_bank R {IXGBE_VFRE 0, IXGBE_VFRE 1} reg" "vf < length (vfinfo ad)" "vf < 64"
    and "1437 \<le> netdev_mtu ad" "netdev_mtu ad \<le> 65535" "vf_api (vfinfo ad ! vf) \<noteq> ixgbe_mbox_api_11"
  shows "(\<exists>ad'. ixgbe_set_vf_lpe R False n vf ad = Inr (- EINVAL, ad') \<and> \<not> bit (regs reg (mt_hw ad') (IXGBE_VFRE (vf div 32))) (vf mod 32)) \<and>
    \<not> bit (regs reg (mt_hw (enable_vf_queues R vf ad)) (IXGBE_VFRE (vf div 32))) (vf mod 32)"
proof -
  have "vf div 32 < 2" using assms(4) by auto
  then have "IXGBE_VFRE (vf div 32) \<in> {IXGBE_VFRE 0, IXGBE_VFRE 1}" by (auto simp: less_2_cases_iff)
  note rmw = bank_rmw[OF assms(2) this]
  have "\<not> bit (regs reg (rmw R (IXGBE_VFRE (vf div 32)) (\<lambda>r. f r AND NOT (vf_shift_bit vf)) hw) (IXGBE_VFRE (vf div 32))) (vf mod 32)" for f and hw :: "'h flt_hw"
    by (simp only: rmw fun_upd_same vf_bit_cleared not_False_eq_True)
  from this[of "\<lambda>r. r"] this[of "\<lambda>r. r OR vf_shift_bit vf"] show ?thesis
    using assms(1,3,7) jumbo_pf[OF assms(5,6)] by (simp add: ixgbe_set_vf_lpe_def vf_info_def Let_def vf_hw_def enable_vf_queues_def)
qed

theorem headroom_stops_vfs_witness:
  "\<exists>ad'. ixgbe_set_vf_lpe register_file False 1518 1 demo_vf_adapter = Inr (- 22, ad')"
proof -
  have "mac_type (mt_hw demo_vf_adapter) = ixgbe_mac_82599EB" "1 < length (vfinfo demo_vf_adapter)" "1437 \<le> netdev_mtu demo_vf_adapter"
    "netdev_mtu demo_vf_adapter \<le> 65535" "vf_api (vfinfo demo_vf_adapter ! 1) \<noteq> 2"
    by (simp_all add: demo_vf_adapter_def demo_flt_hw_def demo_vf_def)
  then show ?thesis using headroom_stops_vfs[OF _ register_file_bank, of demo_vf_adapter 1 1518] by auto
qed

text \<open>
  Every request of a virtual function that has been reset is answered, except one: the size of a frame above
  the limit ends the function before the answer is written.
\<close>

lemma oversize_unanswered:
  assumes "vf < length (vfinfo ad)" "clear_to_send (vfinfo ad ! vf)" "msg ! 0 AND 0xFFFF = IXGBE_VF_SET_LPE" "msg ! 1 > IXGBE_MAX_JUMBO_FRAME_SIZE"
  shows "vf_serve R old_esx msg vf ad = Inr (- EINVAL, ad)"
  using assms by (simp add: vf_serve_def vf_info_def vf_request_def Let_def)

text \<open>The address at which the pools above 31 of a VLAN are read is that of no pool register.\<close>

lemma vlvfb_misread: "i < 64 \<Longrightarrow> j < 128 \<Longrightarrow> IXGBE_VLVFB (i * 2) + 1 \<noteq> IXGBE_VLVFB j"
proof
  assume "i < 64" "j < 128" and e: "IXGBE_VLVFB (i * 2) + 1 = IXGBE_VLVFB j"
  then have u: "unat (IXGBE_VLVFB (i * 2)) = 0xF200 + 8 * i" "unat (IXGBE_VLVFB j) = 0xF200 + 4 * j" by (simp_all add: unat_reg_at)
  have "unat (IXGBE_VLVFB (i * 2) + 1) = Suc (0xF200 + 8 * i)" using u(1) \<open>i < 64\<close> by (subst unat_word_ariths) simp
  then have "Suc (8 * i) = 4 * j" using u(2) e by simp
  then show False by presburger
qed

end
