(* ===== verification/AdminProps.thy ===== *)
theory AdminProps
  imports SriovRing SriovAdmin
begin

text \<open>
  The requests of the host for a virtual function: each returns, does what it says and touches nothing of anyone else.
\<close>

section \<open>Port VLANs\<close>

text \<open>A change of the data of \<open>vf\<close> behind register writes.\<close>

lemma put_result:
  assumes "vf_same R reg ad ad1" "vf < unat (num_vfs ad)" "vf_data_ok v"
  shows "vf_good R reg vf ad (put_vf vf v ad1)" "vfinfo (put_vf vf v ad1) ! vf = v"
proof -
  show "vf_good R reg vf ad (put_vf vf v ad1)" by (rule put_same_good[OF assms(1,3)])
  have "vf < length (vfinfo ad1)" using vf_same_ok[OF assms(1)] vf_okD(3) assms(2) by metis
  then show "vfinfo (put_vf vf v ad1) ! vf = v" by simp
qed

lemma offloads_same:
  assumes "vf_ok R reg ad" "vf < 64"
  shows "vf_same R reg ad (vf_hw (\<lambda>hw. ixgbe_set_vmolr R vf b (ixgbe_set_vmvir R vid qos vf hw)) ad)"
    "vf_same R reg ad (vf_hw (ixgbe_set_vlan_anti_spoofing R b vf) ad)"
    "vf_same R reg ad (vf_hw (\<lambda>hw. ixgbe_set_vlan_anti_spoofing R False vf (ixgbe_set_vmolr R vf True (ixgbe_clear_vmvir R vf hw))) ad)"
  unfolding ixgbe_set_vmolr_def ixgbe_set_vmvir_def ixgbe_clear_vmvir_def
  by (intro vf_hw_same[OF assms(1)] calm_rules vf_okD(1)[OF assms(1)] vf_regs_not_rar assms(2))+

lemma enable_vlan_result:
  assumes "vf_ok R reg ad" "vf < unat (num_vfs ad)"
  shows "\<exists>r ad'. ixgbe_enable_port_vlan R vf vlan qos ad = Inr (r, ad') \<and> vf_good R reg vf ad ad' \<and>
    (r = 0 \<longrightarrow> pf_vlan (vfinfo ad' ! vf) = vlan \<and> pf_qos (vfinfo ad' ! vf) = ucast qos)"
proof -
  note i = vf_info_at[OF assms]
  obtain err ad1 where 1: "ixgbe_set_vf_vlan R True (ucast vlan) (of_nat vf) ad = (err, ad1)" by (cases "ixgbe_set_vf_vlan R True (ucast vlan) (of_nat vf) ad")
  have s1: "vf_same R reg ad ad1" using set_vlan_same[OF assms(1), of True "ucast vlan" "of_nat vf"] 1 by simp
  show ?thesis
  proof (cases "err = 0")
    case False
    then show ?thesis using 1 vf_same_good[OF s1] by (simp add: ixgbe_enable_port_vlan_def)
  next
    case True
    define ad2 where "ad2 = vf_hw (\<lambda>hw. ixgbe_set_vmolr R vf False (ixgbe_set_vmvir R vlan (ucast qos) vf hw)) ad1"
    have s2: "vf_same R reg ad ad2" unfolding ad2_def by (rule vf_same_trans[OF s1 offloads_same(1)[OF vf_same_ok(1)[OF s1] i(3)]])
    let ?v = "vfinfo ad2 ! vf"
    define ad3 where "ad3 = (if spoofchk_enabled ?v then vf_hw (ixgbe_set_vlan_anti_spoofing R True vf) ad2 else ad2)"
    have s3: "vf_same R reg ad ad3" unfolding ad3_def using s2 vf_same_trans[OF s2 offloads_same(2)[OF vf_same_ok(1)[OF s2] i(3)]] by simp
    note i2 = vf_info_at[OF vf_same_ok(1)[OF s2], of vf, unfolded vf_same_ok(2)[OF s2], OF assms(2)]
    let ?w = "?v\<lparr>vlan_count := vlan_count ?v + 1, pf_vlan := vlan, pf_qos := ucast qos\<rparr>"
    have "vf_data_ok ?w" using i2(2) by (simp add: vf_data_ok_def)
    note p = put_result[OF s3 assms(2) this]
    have "ixgbe_enable_port_vlan R vf vlan qos ad = Inr (0, put_vf vf ?w ad3)"
      using 1 True i2(1) by (simp add: ixgbe_enable_port_vlan_def Let_def ad2_def[symmetric] ad3_def)
    then show ?thesis using p by simp
  qed
qed

lemma disable_vlan_result:
  assumes "vf_ok R reg ad" "vf < unat (num_vfs ad)"
  shows "\<exists>r ad'. ixgbe_disable_port_vlan R vf ad = Inr (r, ad') \<and> vf_good R reg vf ad ad' \<and>
    pf_vlan (vfinfo ad' ! vf) = 0 \<and> pf_qos (vfinfo ad' ! vf) = 0"
proof -
  note i = vf_info_at[OF assms]
  let ?v = "vfinfo ad ! vf"
  obtain err ad1 where 1: "ixgbe_set_vf_vlan R False (ucast (pf_vlan ?v)) (of_nat vf) ad = (err, ad1)"
    by (cases "ixgbe_set_vf_vlan R False (ucast (pf_vlan ?v)) (of_nat vf) ad")
  have s1: "vf_same R reg ad ad1" using set_vlan_same[OF assms(1), of False "ucast (pf_vlan ?v)" "of_nat vf"] 1 by simp
  define ad2 where "ad2 = vf_hw (\<lambda>hw. ixgbe_set_vlan_anti_spoofing R False vf (ixgbe_set_vmolr R vf True (ixgbe_clear_vmvir R vf hw))) ad1"
  have s2: "vf_same R reg ad ad2" unfolding ad2_def by (rule vf_same_trans[OF s1 offloads_same(3)[OF vf_same_ok(1)[OF s1] i(3)]])
  let ?w = "?v\<lparr>vlan_count := (if vlan_count ?v \<noteq> 0 then vlan_count ?v - 1 else vlan_count ?v), pf_vlan := 0, pf_qos := 0\<rparr>"
  have "vf_data_ok ?w" using i(2) by (simp add: vf_data_ok_def)
  note p = put_result[OF s2 assms(2) this]
  have "ixgbe_disable_port_vlan R vf ad = Inr (err, put_vf vf ?w ad2)"
    using 1 i(1) by (simp add: ixgbe_disable_port_vlan_def Let_def ad2_def[symmetric])
  then show ?thesis using p by simp
qed

lemma ndo_vlan_result:
  assumes "vf_ok R reg ad" "vf < unat (num_vfs ad)"
  shows "\<exists>r ad'. ixgbe_ndo_set_vf_vlan R vf vlan qos ad = Inr (r, ad') \<and> vf_good R reg vf ad ad' \<and>
    (r = 0 \<longrightarrow> pf_vlan (vfinfo ad' ! vf) = vlan \<and> pf_qos (vfinfo ad' ! vf) = ucast qos)"
proof -
  note i = vf_info_at[OF assms]
  consider "vlan > 0xFFE \<or> qos > 7" | "\<not> (vlan > 0xFFE \<or> qos > 7)" "vlan = 0 \<and> qos = 0" |
    "\<not> (vlan > 0xFFE \<or> qos > 7)" "\<not> (vlan = 0 \<and> qos = 0)" by blast
  then show ?thesis
  proof cases
    case 1
    then have "ixgbe_ndo_set_vf_vlan R vf vlan qos ad = Inr (- EINVAL, ad)" by (auto simp: ixgbe_ndo_set_vf_vlan_def)
    then show ?thesis using vf_same_good[OF vf_same_refl[OF assms(1)]] by simp
  next
    case 2
    then have "ixgbe_ndo_set_vf_vlan R vf vlan qos ad = ixgbe_disable_port_vlan R vf ad" using assms(2) by (simp add: ixgbe_ndo_set_vf_vlan_def)
    then show ?thesis using disable_vlan_result[OF assms] 2(2) by auto
  next
    case 3
    obtain err ad1 where 1: "(if pf_vlan (vfinfo ad ! vf) \<noteq> 0 then ixgbe_disable_port_vlan R vf ad else Inr (0, ad)) = Inr (err, ad1)" "vf_good R reg vf ad ad1"
    proof (cases "pf_vlan (vfinfo ad ! vf) \<noteq> 0")
      case True
      then show ?thesis using disable_vlan_result[OF assms] that by auto
    next
      case False
      then show ?thesis using that[of 0 ad] vf_same_good[OF vf_same_refl[OF assms(1)]] by simp
    qed
    have e: "ixgbe_ndo_set_vf_vlan R vf vlan qos ad = (if err \<noteq> 0 then Inr (err, ad1) else ixgbe_enable_port_vlan R vf vlan qos ad1)"
      using 3 assms(2) i(1) 1(1) by (simp add: ixgbe_ndo_set_vf_vlan_def)
    have "vf < unat (num_vfs ad1)" using vf_good_ok(2)[OF 1(2)] assms(2) by simp
    from enable_vlan_result[OF vf_good_ok(1)[OF 1(2)] this, of vlan qos] show ?thesis
      using e 1(2) vf_good_trans[OF 1(2)] by (cases "err = 0") auto
  qed
qed

section \<open>Requests\<close>

text \<open>The request is one for \<open>vf\<close>, with an address of six bytes; and what it means for the data of \<open>vf\<close> that it was granted.\<close>

fun asks_for :: "nat \<Rightarrow> pt_op \<Rightarrow> bool" where
  "asks_for vf (VF_SET_MAC v a) \<longleftrightarrow> v = vf \<and> length a = 6"
| "asks_for vf (VF_SET_DEFAULT_VLAN v _ _ _) \<longleftrightarrow> v = vf"
| "asks_for vf VF_OTHER \<longleftrightarrow> True"

fun granted :: "nat \<Rightarrow> pt_op \<Rightarrow> 'h vf_adapter \<Rightarrow> bool" where
  "granted vf (VF_SET_MAC _ a) ad \<longleftrightarrow> vf_mac_addresses (vfinfo ad ! vf) = a \<and> pf_set_mac (vfinfo ad ! vf) = (\<not> is_zero_ether_addr a) \<and>
     (\<not> is_zero_ether_addr a \<longrightarrow> (a, of_nat vf) \<in># filters_of ad)"
| "granted vf (VF_SET_DEFAULT_VLAN _ enable vid prio) ad \<longleftrightarrow>
     pf_vlan (vfinfo ad ! vf) = (if enable then vid else 0) \<and> pf_qos (vfinfo ad ! vf) = (if enable then ucast prio else 0)"
| "granted vf VF_OTHER ad \<longleftrightarrow> False"

lemma zero_addr_eq: "length a = 6 \<Longrightarrow> is_zero_ether_addr a \<Longrightarrow> a = replicate 6 0"
proof -
  assume l: "length a = 6" and z: "is_zero_ether_addr a"
  have "a ! 0 = 0 \<and> a ! 1 = 0 \<and> a ! 2 = 0 \<and> a ! 3 = 0 \<and> a ! 4 = 0 \<and> a ! 5 = 0"
    using z by (simp add: is_zero_ether_addr_def or_eq_0_iff)
  then have "\<forall>i < 6. a ! i = 0" by (auto simp: less_Suc_eq numeral_eq_Suc)
  then show "a = replicate 6 0" using l by (intro nth_equalityI) simp_all
qed

lemma remove_mac_result:
  assumes "vf_ok R reg ad" "vf < unat (num_vfs ad)"
  shows "\<exists>ad'. remove_vf_mac R vf ad = Inr ad' \<and> vf_good R reg vf ad ad' \<and>
    vf_mac_addresses (vfinfo ad' ! vf) = replicate 6 0 \<and> \<not> pf_set_mac (vfinfo ad' ! vf)"
proof -
  note i = vf_info_at[OF assms]
  let ?v = "vfinfo ad ! vf"
  have l: "length (vf_mac_addresses ?v) = 6" using i(2) by (simp add: vf_data_ok_def)
  obtain r ad1 where 1: "ixgbe_del_mac_filter R (vf_mac_addresses ?v) (of_nat vf) ad = Inr (r, ad1)" "vf_good R reg vf ad ad1" "vfinfo ad1 = vfinfo ad"
    using vf_del_good[OF assms(1) l] by blast
  let ?w = "?v\<lparr>vf_mac_addresses := replicate 6 0, pf_set_mac := False\<rparr>"
  have "vf_data_ok ?w" using i(2) by (simp add: vf_data_ok_def)
  from vf_good_trans[OF 1(2) put_good[OF vf_good_ok(1)[OF 1(2)] this]] have "vf_good R reg vf ad (put_vf vf ?w ad1)" .
  moreover have "remove_vf_mac R vf ad = Inr (put_vf vf ?w ad1)" using i(1) 1(1) by (simp add: remove_vf_mac_def)
  moreover have "vf < length (vfinfo ad1)" using 1(3) vf_okD(3)[OF assms(1)] assms(2) by simp
  ultimately show ?thesis by simp
qed

lemma ndo_mac_result:
  assumes "vf_ok R reg ad" "vf < unat (num_vfs ad)" "length a = 6"
  shows "\<exists>r ad'. ixgbe_ndo_set_vf_mac R vf a ad = Inr (r, ad') \<and> vf_good R reg vf ad ad' \<and>
    (r \<ge> 0 \<longrightarrow> vf_mac_addresses (vfinfo ad' ! vf) = a \<and> pf_set_mac (vfinfo ad' ! vf) \<and> (a, of_nat vf) \<in># filters_of ad')"
proof (cases "is_valid_ether_addr a")
  case False
  then show ?thesis using vf_same_good[OF vf_same_refl[OF assms(1)]] by (simp add: ixgbe_ndo_set_vf_mac_def)
next
  case True
  obtain r ad1 where 1: "set_vf_mac R vf a ad = Inr (r, ad1)" "vf_good R reg vf ad ad1"
      "vfinfo ad1 ! vf = (vfinfo ad ! vf)\<lparr>vf_mac_addresses := if r \<ge> 0 then a else zero_ether_addr\<rparr>" "r \<ge> 0 \<longrightarrow> (a, of_nat vf) \<in># filters_of ad1"
    using set_mac_result[OF assms] by blast
  have n: "vf < unat (num_vfs ad1)" using vf_good_ok(2)[OF 1(2)] assms(2) by simp
  note i = vf_info_at[OF vf_good_ok(1)[OF 1(2)] n]
  show ?thesis
  proof (cases "r \<ge> 0")
    case False
    then show ?thesis using True 1 assms(2) by (simp add: ixgbe_ndo_set_vf_mac_def)
  next
    case r: True
    let ?w = "(vfinfo ad1 ! vf)\<lparr>pf_set_mac := True\<rparr>"
    have "vf_data_ok ?w" using i(2) by (simp add: vf_data_ok_def)
    from vf_good_trans[OF 1(2) put_good[OF vf_good_ok(1)[OF 1(2)] this]] have "vf_good R reg vf ad (put_vf vf ?w ad1)" .
    moreover have "ixgbe_ndo_set_vf_mac R vf a ad = Inr (r, put_vf vf ?w ad1)" using True 1(1) r i(1) assms(2) by (simp add: ixgbe_ndo_set_vf_mac_def)
    moreover have "vfinfo (put_vf vf ?w ad1) ! vf = ?w" using n vf_okD(3)[OF vf_good_ok(1)[OF 1(2)]] by simp
    moreover have "filters_of (put_vf vf ?w ad1) = filters_of ad1" by (simp add: filters_of_def put_vf_def)
    ultimately show ?thesis using 1(3,4) r by (intro exI conjI) (assumption+, simp)
  qed
qed

lemma default_vlan_result:
  assumes "vf_ok R reg ad" "vf < unat (num_vfs ad)"
  shows "\<exists>r ad'. set_default_vlan R vf enable vid prio ad = Inr (r, ad') \<and> vf_good R reg vf ad ad' \<and>
    (r = 0 \<longrightarrow> granted vf (VF_SET_DEFAULT_VLAN vf enable vid prio) ad')"
proof -
  note i = vf_info_at[OF assms]
  let ?w = "(vfinfo ad ! vf)\<lparr>pf_set_vlan := enable\<rparr>"
  have "vf_data_ok ?w" using i(2) by (simp add: vf_data_ok_def)
  note g = put_good[OF assms(1) this, of vf]
  have n: "vf < unat (num_vfs (put_vf vf ?w ad))" using vf_good_ok(2)[OF g] assms(2) by simp
  have "set_default_vlan R vf enable vid prio ad = ixgbe_ndo_set_vf_vlan R vf (if enable then vid else 0) (if enable then prio else 0) (put_vf vf ?w ad)"
    using i(1) by (simp add: set_default_vlan_def Let_def)
  then show ?thesis using ndo_vlan_result[OF vf_good_ok(1)[OF g] n, of "if enable then vid else 0" "if enable then prio else 0"] vf_good_trans[OF g]
    by auto
qed

lemma passthru_result:
  assumes "vf_ok R reg ad" "vf < unat (num_vfs ad)" "asks_for vf op"
  shows "\<exists>ok ad'. ixgbe_passthru_ops R op ad = Inr (ok, ad') \<and> vf_good R reg vf ad ad' \<and> (ok \<longrightarrow> granted vf op ad')"
proof (cases op)
  case (VF_SET_MAC v a)
  then have v: "v = vf" "length a = 6" using assms(3) by simp_all
  show ?thesis
  proof (cases "is_zero_ether_addr a")
    case True
    then show ?thesis using remove_mac_result[OF assms(1,2)] zero_addr_eq[OF v(2)] VF_SET_MAC v(1) by auto
  next
    case False
    obtain r ad' where 1: "ixgbe_ndo_set_vf_mac R vf a ad = Inr (r, ad')" "vf_good R reg vf ad ad'"
      "r \<ge> 0 \<longrightarrow> vf_mac_addresses (vfinfo ad' ! vf) = a \<and> pf_set_mac (vfinfo ad' ! vf) \<and> (a, of_nat vf) \<in># filters_of ad'"
      using ndo_mac_result[OF assms(1,2) v(2)] by blast
    then show ?thesis using False VF_SET_MAC v(1) by simp
  qed
next
  case (VF_SET_DEFAULT_VLAN v enable vid prio)
  then show ?thesis using default_vlan_result[OF assms(1,2), of enable vid prio] assms(3) by auto
next
  case VF_OTHER
  then have "ixgbe_passthru_ops R op ad = Inr (False, ad)" by simp
  then show ?thesis using vf_same_good[OF vf_same_refl[OF assms(1)]] by blast
qed

section \<open>Properties\<close>



end
