(* ===== verification/QueueProps.thy ===== *)
theory QueueProps
  imports QueueRings QueueFrame AdminProps
begin

text \<open>
  In every mode the rings get hardware queues of their own.
\<close>

section \<open>Receive side scaling with pools\<close>

lemma laid_out_esx_rss:
  assumes "vmdq_enabled ad" "netdev_get_num_tc ad \<le> 1" "rf_offset (fcoe ad) = 0" "rf_limit (rss ad) > 1"
    and "num_rx_queues ad = int n + 4" "num_tx_queues ad = int n" "num_rx_pools ad = int n + 1" "1 \<le> n \<and> unat (pool_offset ad) + n \<le> 31"
    and "mac_type (mt_hw ad) \<noteq> ixgbe_mac_82598EB" "pool_mask ad = 0x7C"
  shows "\<exists>ad'. ixgbe_cache_ring_register (alloc_rings ad) = Inr ad' \<and> laid_out ad'"
proof -
  let ?o = "unat (pool_offset ad)"
  define nr where "nr = map (\<lambda>i. 4 * (?o + i)) [0..<n] @ map (\<lambda>i. 4 * (?o + n) + i) [0..<4]"
  define nt where "nt = map (\<lambda>i. 4 * (?o + i)) [0..<n]"
  have pool: "(ucast (vf_pool_p (of_nat i) ad * 4 + of_nat k) :: u16) = of_nat (4 * (?o + i) + k)" for i k
  proof -
    have "vf_pool_p (of_nat i) ad * 4 + of_nat k = of_nat (4 * (?o + i) + k)" by (simp add: vf_pool_p_def distrib_left add.commute)
    moreover have "(ucast (of_nat x :: u32) :: u16) = of_nat x" for x by (rule bit_word_eqI) (simp add: bit_simps)
    ultimately show ?thesis by (simp only:)
  qed
  have esx: "esx_rss_queues ad' = (map of_nat nr, map of_nat nt)" if "pool_offset ad' = pool_offset ad" "num_rx_pools ad' = num_rx_pools ad" "num_tx_queues ad' = num_tx_queues ad" for ad' :: "('a, 'b) q_adapter_scheme"
  proof -
    have v: "vf_pool_p x ad' = vf_pool_p x ad" for x using that(1) by (simp add: vf_pool_p_def)
    have "nat (num_rx_pools ad' - 1) = n" "nat (num_tx_queues ad') = n" using that assms(6,7) by simp_all
    moreover have "(ucast (vf_pool_p (of_nat i) ad * 4) :: u16) = of_nat (4 * (?o + i))" for i using pool[of i 0] by simp
    ultimately show ?thesis using pool by (simp add: esx_rss_queues_def v nr_def nt_def comp_def Let_def)
  qed
  have q: "q_per_pool ad = 4" by (rule q_per_pool_values(2)[OF assms(10)])
  have l: "length nr = n + 4" "length nt = n" by (simp_all add: nr_def nt_def)
  show ?thesis
  proof (rule laid_outI[where nr = nr and nt = nt])
    show "ixgbe_cache_ring_register (alloc_rings ad) = Inr ad'" if a: "put_both 0 (map of_nat nr) (map of_nat nt) (alloc_rings ad) = Inr ad'" for ad'
    proof -
      let ?r = "vmdq_queues (NOT (ucast (pool_mask ad))) (num_rx_queues ad) (alloc_rings ad)" and ?t = "vmdq_queues (ucast (rf_mask (rss ad))) (num_tx_queues ad) (alloc_rings ad)"
      have lv: "length ?r = length (rx_ring (alloc_rings ad))" "length ?t = length (tx_ring (alloc_rings ad))" using assms(3) by (simp_all add: vmdq_queues_plain)
      obtain rs ts where 1: "put_both 0 ?r ?t (alloc_rings ad) = Inr (alloc_rings ad\<lparr>rx_ring := rs, tx_ring := ts\<rparr>)" using put_both_all[OF lv] by blast
      have "put_both 0 (map of_nat nr) (map of_nat nt) (alloc_rings ad\<lparr>rx_ring := rs, tx_ring := ts\<rparr>) = Inr ad'"
        using put_both_again[OF 1 lv] a l assms(5,6) by (simp add: nat_add_distrib)
      moreover have "esx_rss_queues (alloc_rings ad\<lparr>rx_ring := rs, tx_ring := ts\<rparr>) = (map of_nat nr, map of_nat nt)" by (rule esx) simp_all
      ultimately show ?thesis using assms(1,2,4) 1
        by (simp add: ixgbe_cache_ring_register_def ixgbe_cache_ring_dcb_vmdq_def ixgbe_cache_ring_dcb_def ixgbe_cache_ring_vmdq_def)
    qed
    show "\<forall>x \<in> set nr. ?o * unat (q_per_pool ad) \<le> x \<and> x < hw_rx_queues (mac_type (mt_hw ad))"
      using assms(8,9) by (auto simp: q nr_def hw_rx_queues_def)
    show "\<forall>x \<in> set nt. ?o * unat (q_per_pool ad) \<le> x \<and> x < hw_tx_queues (mac_type (mt_hw ad))"
      using assms(8,9) by (auto simp: q nt_def hw_tx_queues_def)
    show "(\<forall>i < length nr. nr ! i div unat (q_per_pool ad) = ?o + min i (nat (num_rx_pools ad) - 1)) \<and> (\<forall>i < length nt. nt ! i div unat (q_per_pool ad) = ?o + i)"
    proof -
      have "nr ! i div 4 = ?o + min i n" if "i < n + 4" for i
      proof (cases "i < n")
        case False
        define k where "k = i - n"
        have k: "i = n + k" "k < 4" using False that by (simp_all add: k_def)
        have "nr ! i = 4 * (?o + n) + k" using k by (simp add: nr_def nth_append del: upt_Suc)
        then show ?thesis using k by simp
      qed (simp add: nr_def nth_append)
      then show ?thesis using q assms(7) l by (simp add: nt_def nat_add_distrib)
    qed
    show "distinct nr" "distinct nt" by (auto simp: nr_def nt_def distinct_map inj_on_def)
  qed (use assms(5,6,8) l in \<open>simp_all add: nat_add_distrib\<close>)
qed


section \<open>The modes\<close>

text \<open>The number of pools that are asked for, four at most with large frames.\<close>

lemma pools_asked:
  assumes "1 \<le> unat (vmdq_limit ad)" "unat (vmdq_limit ad) \<le> 16"
  obtains n where "1 \<le> n" "n \<le> 16" "n \<le> unat (vmdq_limit ad)" "(if netdev_mtu ad > ETH_DATA_LEN \<and> vmdq_limit ad > 4 then 4 else vmdq_limit ad) = of_nat n"
    "(if netdev_mtu ad > ETH_DATA_LEN \<and> uint (vmdq_limit ad) > 4 then 4 else uint (vmdq_limit ad)) = int n"
proof (cases "netdev_mtu ad > ETH_DATA_LEN \<and> vmdq_limit ad > 4")
  case True
  then have "uint (vmdq_limit ad) > 4" by (simp add: word_less_def)
  moreover from True have "4 < unat (vmdq_limit ad)" by (simp add: word_less_nat_alt)
  ultimately show ?thesis using that[of 4] True by simp
next
  case False
  then have "\<not> (netdev_mtu ad > ETH_DATA_LEN \<and> uint (vmdq_limit ad) > 4)" by (simp add: word_less_def)
  then show ?thesis using that[of "unat (vmdq_limit ad)"] False assms by auto
qed

abbreviation base_queues :: "('h, 'z) q_adapter_scheme \<Rightarrow> ('h, 'z) q_adapter_scheme" where
  "base_queues ad \<equiv> ad\<lparr>num_rx_queues := 1, num_tx_queues := 1, num_rx_pools := 1, num_rx_queues_per_pool := 1\<rparr>"

lemma base_simps [simp]:
  "netdev_get_num_tc (base_queues ad) = netdev_get_num_tc ad" "dcb_vmdq_pools (base_queues ad) = dcb_vmdq_pools ad"
  "dcb_rss (base_queues ad) = dcb_rss ad" "vmdq_layout (base_queues ad) = vmdq_layout ad"
  by (simp_all add: netdev_get_num_tc_def dcb_vmdq_pools_def dcb_rss_def vmdq_layout_def Let_def case_prod_beta cong: if_cong)

lemma layout_dcb_vmdq:
  assumes "layout_limits ad" "vmdq_enabled ad" "1 < netdev_get_num_tc ad"
  shows "\<exists>ad1 ad2. ixgbe_set_num_queues cpus ad = Inr ad1 \<and> ixgbe_cache_ring_register (alloc_rings ad1) = Inr ad2 \<and> laid_out ad2"
proof -
  have lim: "1 \<le> unat (vmdq_limit ad)" "unat (vmdq_limit ad) \<le> 16" "unat (pool_offset ad) + unat (vmdq_limit ad) \<le> 32" "\<not> fcoe_enabled ad"
    using assms by (auto simp: layout_limits_def)
  obtain n where n1: "1 \<le> n" and n: "n \<le> 16" "n \<le> unat (vmdq_limit ad)" "(if netdev_mtu ad > ETH_DATA_LEN \<and> vmdq_limit ad > 4 then 4 else vmdq_limit ad) = of_nat n"
    using pools_asked[OF lim(1,2)] by metis
  let ?mac = "mac_type (mt_hw ad)"
  have mac: "?mac = ixgbe_mac_82598EB \<or> ?mac = ixgbe_mac_82599EB \<or> ?mac = ixgbe_mac_X540" using assms(1) by (auto simp: layout_limits_def)
  define k where "k = (if ?mac = ixgbe_mac_82598EB then min n 4 else n)"
  define m where "m = (if ?mac = ixgbe_mac_82598EB then 7 else 0x7C :: u16)"
  have u: "uint (of_nat k :: u16) = int k" using n(1) by (simp add: k_def unsigned_of_nat take_bit_nat_eq_self)
  have "min (of_nat n + pool_offset ad) 32 - pool_offset ad = of_nat n"
  proof -
    have "of_nat n + pool_offset ad = of_nat (n + unat (pool_offset ad))" by simp
    moreover have "unat (of_nat (n + unat (pool_offset ad)) :: u16) = n + unat (pool_offset ad)" using n(2) lim(3) by (simp add: unat_of_nat del: of_nat_add)
    ultimately have "of_nat n + pool_offset ad \<le> 32" using n(2) lim(3) by (simp add: word_le_nat_alt del: of_nat_add)
    then show ?thesis by simp
  qed
  moreover have "min (of_nat n) 4 = (of_nat (min n 4) :: u16)" using n(1) by (auto simp: min_def word_le_nat_alt unat_of_nat)
  ultimately obtain f where d: "dcb_vmdq_pools ad = (of_nat k, m, f)"
    using mac unfolding k_def m_def dcb_vmdq_pools_def n(3) Let_def by fastforce
  define ad1 where "ad1 = (base_queues ad)\<lparr>pool_mask := m, vmdq_indices := of_nat k, rss := (rss ad)\<lparr>rf_indices := 1, rf_mask := 0\<rparr>, fdir_hash := False,
    num_rx_queues := int k, num_tx_queues := int k, num_rx_pools := int k, num_rx_queues_per_pool := 1\<rparr>"
  have "ixgbe_set_num_queues cpus ad = Inr ad1"
    using d assms(2) not_le[THEN iffD2, OF assms(3)] lim(4) u by (simp add: ixgbe_set_num_queues_def ixgbe_set_dcb_vmdq_queues_def Let_def ad1_def)
  moreover have tc: "netdev_get_num_tc ad1 = netdev_get_num_tc ad" by (simp add: ad1_def netdev_get_num_tc_def)
  have "\<exists>ad2. ixgbe_cache_ring_register (alloc_rings ad1) = Inr ad2 \<and> laid_out ad2"
  proof (rule laid_out_dcb_vmdq[of ad1 k])
    show "1 \<le> k" using n1 by (simp add: k_def)
    show "if mac_type (mt_hw ad1) = ixgbe_mac_82598EB then k \<le> 4 \<and> pool_offset ad1 = 0
        else mac_type (mt_hw ad1) \<in> {ixgbe_mac_82599EB, ixgbe_mac_X540} \<and> pool_mask ad1 = 0x7C \<and> unat (pool_offset ad1) + k \<le> 32"
      using mac assms(1) lim(3) n(2) by (auto simp: ad1_def k_def m_def layout_limits_def)
  qed (use assms(2,3) lim(4) tc in \<open>simp_all add: ad1_def\<close>)
  ultimately show ?thesis by blast
qed

lemma layout_dcb:
  assumes "layout_limits ad" "\<not> vmdq_enabled ad" "1 < netdev_get_num_tc ad"
  shows "\<exists>ad1 ad2. ixgbe_set_num_queues cpus ad = Inr ad1 \<and> ixgbe_cache_ring_register (alloc_rings ad1) = Inr ad2 \<and> laid_out ad2"
proof -
  obtain i m where d: "dcb_rss ad = (i, m)" by (cases "dcb_rss ad")
  define k where "k = min i (rf_limit (rss ad))"
  define n where "n = uint k * uint (netdev_get_num_tc ad)"
  have "unat i \<le> (if mac_type (mt_hw ad) = ixgbe_mac_82598EB then 4 else if netdev_get_num_tc ad > 4 then 8 else 16)"
    using d by (auto simp: dcb_rss_def Let_def min_def word_le_nat_alt split: if_splits)
  moreover have "unat k \<le> unat i" by (simp add: k_def min_def word_le_nat_alt)
  ultimately have k2: "unat k \<le> (if mac_type (mt_hw ad) = ixgbe_mac_82598EB then 4 else if netdev_get_num_tc ad > 4 then 8 else 16)" by linarith
  have k1: "1 \<le> unat k"
  proof -
    have "(1 :: u16) \<le> ucast (dev_indices ad)" "1 \<le> unat (rf_limit (rss ad))" using assms(1) unfolding layout_limits_def by blast+
    moreover from this have "1 \<le> i" using d by (auto simp: dcb_rss_def Let_def split: if_splits)
    ultimately have "1 \<le> k" by (simp add: k_def) (simp add: word_le_nat_alt)
    then show ?thesis by (simp add: word_le_nat_alt)
  qed
  note k = k1 k2
  define ad1 where "ad1 = (base_queues ad)\<lparr>rss := (rss ad)\<lparr>rf_indices := k, rf_mask := m\<rparr>, fdir_hash := False, num_rx_queues := n, num_tx_queues := n\<rparr>"
  have lim: "\<not> fcoe_enabled ad" "netdev_get_num_tc ad \<le> 8" "pool_offset ad = 0" "mac_type (mt_hw ad) \<in> {ixgbe_mac_82598EB, ixgbe_mac_82599EB, ixgbe_mac_X540}"
    using assms(1,2) by (simp_all add: layout_limits_def)
  have "ixgbe_set_num_queues cpus ad = Inr ad1"
    using d assms(2) not_le[THEN iffD2, OF assms(3)] lim(1)
    by (simp add: ixgbe_set_num_queues_def ixgbe_set_dcb_vmdq_queues_def ixgbe_set_dcb_queues_def Let_def ad1_def n_def k_def)
  moreover have tc: "netdev_get_num_tc ad1 = netdev_get_num_tc ad" by (simp add: ad1_def netdev_get_num_tc_def)
  moreover have "\<exists>ad2. ixgbe_cache_ring_register (alloc_rings ad1) = Inr ad2 \<and> laid_out ad2"
  proof (rule laid_out_tcs[of ad1])
    show "num_rx_queues ad1 = int (unat (rf_indices (rss ad1)) * unat (netdev_get_num_tc ad1))" unfolding tc by (simp add: ad1_def n_def)
    show "unat (rf_indices (rss ad1)) \<le> (if mac_type (mt_hw ad1) = ixgbe_mac_82598EB then 4 else if netdev_get_num_tc ad1 > 4 then 8 else 16)"
      unfolding tc using k(2) by (simp add: ad1_def)
    show "1 \<le> unat (rf_indices (rss ad1))" using k(1) by (simp add: ad1_def)
  qed (use assms(2,3) lim tc in \<open>simp_all add: ad1_def\<close>)
  ultimately show ?thesis by blast
qed

lemma layout_rss:
  assumes "layout_limits ad" "\<not> vmdq_enabled ad" "netdev_get_num_tc ad \<le> 1"
  shows "\<exists>ad1 ad2. ixgbe_set_num_queues cpus ad = Inr ad1 \<and> ixgbe_cache_ring_register (alloc_rings ad1) = Inr ad2 \<and> laid_out ad2"
proof -
  define k where "k = (if rf_limit (rss ad) > 1 \<and> atr_sample_rate ad \<noteq> 0 then rf_limit (fdir ad) else rf_limit (rss ad))"
  define ad0 where "ad0 = (base_queues ad)\<lparr>rss := (rss ad)\<lparr>rf_indices := rf_limit (rss ad), rf_mask := 0xF\<rparr>, fdir_hash := False\<rparr>"
  define ad1 where "ad1 = (if rf_limit (rss ad) > 1 \<and> atr_sample_rate ad \<noteq> 0
      then ad0\<lparr>fdir := (fdir ad)\<lparr>rf_indices := rf_limit (fdir ad)\<rparr>, fdir_hash := \<not> fdir_perfect ad\<rparr> else ad0)\<lparr>num_rx_queues := uint k, num_tx_queues := uint k\<rparr>"
  have lim: "\<not> fcoe_enabled ad" "pool_offset ad = 0" "unat k \<le> (if mac_type (mt_hw ad) = ixgbe_mac_82598EB then 32 else 71)"
    using assms(1,2) by (auto simp: layout_limits_def k_def)
  have "ixgbe_set_rss_queues cpus (base_queues ad) = ad1"
  proof -
    let ?c = "1 < rf_limit (rss ad) \<and> atr_sample_rate ad \<noteq> 0"
    consider "?c = True" | "?c = False" by blast
    then show ?thesis
    proof cases
      case 1
      show ?thesis by (simp add: ixgbe_set_rss_queues_def ad0_def ad1_def k_def Let_def 1 lim(1) del: not_gr_zero)
    next
      case 2
      show ?thesis by (simp add: ixgbe_set_rss_queues_def ad0_def ad1_def k_def Let_def 2 lim(1) del: not_gr_zero)
    qed
  qed
  then have "ixgbe_set_num_queues cpus ad = Inr ad1"
    using assms(2,3) by (simp add: ixgbe_set_num_queues_def ixgbe_set_dcb_vmdq_queues_def ixgbe_set_dcb_queues_def ixgbe_set_vmdq_queues_def)
  moreover have "\<exists>ad2. ixgbe_cache_ring_register (alloc_rings ad1) = Inr ad2 \<and> laid_out ad2"
  proof (rule laid_out_rss[of ad1])
    have "1 \<le> unat k" using assms(1) unfolding layout_limits_def k_def by (simp split: if_splits)
    then have "int 1 \<le> int (unat k)" by (simp only: of_nat_le_iff)
    then show "1 \<le> num_rx_queues ad1" by (simp add: ad1_def ad0_def)
    have "num_rx_queues ad1 = int (unat k)" "mac_type (mt_hw ad1) = mac_type (mt_hw ad)" by (simp_all add: ad1_def ad0_def)
    moreover have "int (unat k) \<le> int (if mac_type (mt_hw ad) = ixgbe_mac_82598EB then 32 else 71)" using lim(3) by (simp only: of_nat_le_iff)
    ultimately show "num_rx_queues ad1 \<le> (if mac_type (mt_hw ad1) = ixgbe_mac_82598EB then 32 else 71)" by (simp split: if_splits)
    have "netdev_get_num_tc ad1 = netdev_get_num_tc ad" by (simp add: ad1_def ad0_def netdev_get_num_tc_def)
    then show "netdev_get_num_tc ad1 \<le> 1" using assms(3) by simp
  qed (use assms(2) lim(2) in \<open>simp_all add: ad1_def ad0_def\<close>)
  ultimately show ?thesis by blast
qed

lemma word_min_of_nat: "a < 65536 \<Longrightarrow> b < 65536 \<Longrightarrow> min (of_nat a) (of_nat b) = (of_nat (min a b) :: u16)"
  by (auto simp: min_def word_le_nat_alt unat_of_nat)

lemma layout_vmdq:
  assumes "layout_limits ad" "vmdq_enabled ad" "netdev_get_num_tc ad \<le> 1"
  shows "\<exists>ad1 ad2. ixgbe_set_num_queues cpus ad = Inr ad1 \<and> ixgbe_cache_ring_register (alloc_rings ad1) = Inr ad2 \<and> laid_out ad2"
proof -
  let ?mac = "mac_type (mt_hw ad)" and ?o = "unat (pool_offset ad)"
  note L = assms(1)[unfolded layout_limits_def if_P[OF assms(2)]]
  have "rf_limit (rss ad) \<in> {1, of_nat IXGBE_ESX_RSS_QUEUES}" using L by blast
  then have lim4: "rf_limit (rss ad) = 1 \<or> rf_limit (rss ad) = 4" by simp
  have "?o + unat (vmdq_limit ad) \<le> (if netdev_get_num_tc ad > 1 then 32 else if rf_limit (rss ad) > 1 then 31 else 64)" using L by blast
  then have lim6: "?o + unat (vmdq_limit ad) \<le> (if rf_limit (rss ad) = 4 then 31 else 64)"
    unfolding if_not_P[OF assms(3)[folded not_less]] using lim4 by (elim disjE) simp_all
  have lim: "1 \<le> unat (vmdq_limit ad)" "unat (vmdq_limit ad) \<le> 16" "\<not> fcoe_enabled ad" "rf_offset (fcoe ad) = 0"
      "?mac = ixgbe_mac_82598EB \<longrightarrow> pool_offset ad = 0 \<and> rf_limit (rss ad) = 1"
      "?mac = ixgbe_mac_82598EB \<or> ?mac = ixgbe_mac_82599EB \<or> ?mac = ixgbe_mac_X540" using L assms(2) by blast+
  obtain n where n1: "1 \<le> n" and n: "n \<le> 16" "n \<le> unat (vmdq_limit ad)" "(if netdev_mtu ad > ETH_DATA_LEN \<and> uint (vmdq_limit ad) > 4 then 4 else uint (vmdq_limit ad)) = int n"
    using pools_asked[OF lim(1,2)] by metis
  note mac = lim(6)
  define one where "one = (rf_limit (rss ad) = 1)"
  define m where "m = (if ?mac = ixgbe_mac_82598EB then 0xF else if one then 0x7E else 0x7C :: u16)"
  define rm where "rm = (if ?mac = ixgbe_mac_82598EB then 0 else if one then 1 else 3 :: u16)"
  define r where "r = (if one then 1 else 4 :: u16)"
  have fit: "n + ?o \<le> (if one then 64 else 31)" using n(2) lim4 lim6 by (auto simp: one_def)
  have i: "min 64 (uint (u16_of (int n + uint (pool_offset ad)))) = int (n + ?o)"
  proof -
    have "u16_of (int n + uint (pool_offset ad)) = of_nat (n + ?o)" by simp
    moreover have "uint (of_nat (n + ?o) :: u16) = int (n + ?o)"
      using fit by (simp add: unsigned_of_nat take_bit_nat_eq_self del: of_nat_add split: if_splits)
    moreover have "n + ?o \<le> 64" using fit by (simp split: if_splits)
    then have "int (n + ?o) \<le> 64" by linarith
    ultimately show ?thesis by (simp only: min_absorb2)
  qed
  obtain f where lay: "vmdq_layout ad = (int n, m, r, rm, f)"
  proof (cases "?mac = ixgbe_mac_82598EB")
    case True
    then show ?thesis using that lim(5) n(1,3) by (simp add: vmdq_layout_def Let_def m_def r_def rm_def one_def)
  next
    case False
    then have "?mac = ixgbe_mac_82599EB \<or> ?mac = ixgbe_mac_X540" using mac by blast
    moreover have "\<not> rf_limit (rss ad) < 4" "rf_limit (rss ad) = 4" if "\<not> one" using that lim4 by (simp_all add: one_def)
    moreover have "\<not> 32 < int (n + ?o)" if "\<not> one"
    proof -
      have "n + ?o \<le> 31" using that fit by simp
      then show ?thesis by linarith
    qed
    ultimately show ?thesis using False that unfolding vmdq_layout_def n(3) Let_def i
      by (cases one) (simp_all add: m_def r_def rm_def one_def)
  qed
  define ad0 where "ad0 = (base_queues ad)\<lparr>pool_mask := m, vmdq_indices := u16_of (int n), rss := (rss ad)\<lparr>rf_indices := r, rf_mask := rm\<rparr>, fdir_hash := False,
                     num_rx_queues := int n * uint r, num_tx_queues := int n * uint r, num_rx_pools := int n, num_rx_queues_per_pool := uint r\<rparr>"
  define ad1 where "ad1 = (if one then ad0 else ad0\<lparr>vmdq_indices := u16_of (int n + 1), rss := (rss ad0)\<lparr>rf_indices := 4, rf_mask := 3\<rparr>,
                     num_rx_queues := int n + 4, num_tx_queues := int n, num_rx_pools := int n + 1, num_rx_queues_per_pool := 1\<rparr>)"
  have "min 71 (int n + 4) = int n + 4" "min 71 (int n) = int n" using n(1) by simp_all
  then have "ixgbe_set_vmdq_queues cpus (base_queues ad) = (True, ad1)"
    using lim4
  proof (elim disjE)
    assume "rf_limit (rss ad) = 1"
    then show ?thesis using lay assms(2) lim(3) by (simp add: ixgbe_set_vmdq_queues_def Let_def ad0_def ad1_def one_def)
  next
    assume "min 71 (int n + 4) = int n + 4" "min 71 (int n) = int n" "rf_limit (rss ad) = 4"
    then show ?thesis using lay assms(2) lim(3) by (simp add: ixgbe_set_vmdq_queues_def Let_def ad0_def ad1_def one_def)
  qed
  then have "ixgbe_set_num_queues cpus ad = Inr ad1"
    using assms(3) by (simp add: ixgbe_set_num_queues_def ixgbe_set_dcb_vmdq_queues_def ixgbe_set_dcb_queues_def)
  moreover have tc: "netdev_get_num_tc ad1 = netdev_get_num_tc ad" by (simp add: ad1_def ad0_def netdev_get_num_tc_def)
  have "\<exists>ad2. ixgbe_cache_ring_register (alloc_rings ad1) = Inr ad2 \<and> laid_out ad2"
  proof (cases one)
    case True
    show ?thesis
    proof (rule laid_out_vmdq[of ad1 n])
      show "1 \<le> n" by (rule n1)
      show "netdev_get_num_tc ad1 \<le> 1" using tc assms(3) by simp
      show "if mac_type (mt_hw ad1) = ixgbe_mac_82598EB then pool_mask ad1 = 0xF \<and> rf_mask (rss ad1) = 0 \<and> n \<le> 16 \<and> pool_offset ad1 = 0
         else pool_mask ad1 = 0x7E \<and> rf_mask (rss ad1) = 1 \<and> unat (pool_offset ad1) + n \<le> 64"
        using True lim6 lim(5) n(1,2) by (simp add: ad1_def ad0_def m_def rm_def one_def)
    qed (use True assms(2) lim(4) in \<open>simp_all add: ad1_def ad0_def r_def one_def\<close>)
  next
    case False
    then have "rf_limit (rss ad) = 4" "?mac \<noteq> ixgbe_mac_82598EB" using lim4 lim(5) by (auto simp: one_def)
    show ?thesis
    proof (rule laid_out_esx_rss[of ad1 n])
      show "netdev_get_num_tc ad1 \<le> 1" using tc assms(3) by simp
    qed (use False \<open>rf_limit (rss ad) = 4\<close> \<open>?mac \<noteq> _\<close> assms(2) lim(4) lim6 n(2) n1 in \<open>simp_all add: ad1_def ad0_def r_def m_def\<close>)
  qed
  ultimately show ?thesis by blast
qed

lemma layout_modes:
  assumes "layout_limits ad"
  shows "\<exists>ad1 ad2. ixgbe_set_num_queues cpus ad = Inr ad1 \<and> ixgbe_cache_ring_register (alloc_rings ad1) = Inr ad2 \<and> laid_out ad2"
  using layout_dcb_vmdq[OF assms] layout_dcb[OF assms] layout_rss[OF assms] layout_vmdq[OF assms] by (meson not_le)

section \<open>The pools of the hardware\<close>

lemma regs_fold:
  assumes "\<And>x hw. x \<in> set xs \<Longrightarrow> regs reg (f x hw) a = regs reg hw a"
  shows "regs reg (fold f xs hw) a = regs reg hw a"
  using assms by (induction xs arbitrary: hw) simp_all

lemma spoof_writes:
  assumes "plain_bank R UNIV reg" "set xs \<subseteq> {..<8}" "j < 8"
  shows "regs reg (fold (\<lambda>j. IXGBE_WRITE_REG R (IXGBE_PFVFSPOOF j) v) xs hw) (IXGBE_PFVFSPOOF j) = (if j \<in> set xs then v else regs reg hw (IXGBE_PFVFSPOOF j))"
  using assms(2)
proof (induction xs arbitrary: hw)
  case (Cons x xs)
  have "IXGBE_PFVFSPOOF x = IXGBE_PFVFSPOOF j \<longleftrightarrow> x = j" using Cons.prems assms(3) by (subst reg_at_eq) auto
  then show ?case using Cons by (auto simp: bank_write[OF assms(1)])
qed simp

lemma spoof_bits:
  assumes "plain_bank R UNIV reg" "mac_type hw \<noteq> ixgbe_mac_82598EB" "n < 64" "j < 8" "b < 8"
  shows "bit (regs reg (ixgbe_set_mac_anti_spoofing R (n \<noteq> 0) n hw) (IXGBE_PFVFSPOOF j)) b \<longleftrightarrow> 8 * j + b < n"
proof -
  have t: "n div 8 < 8" using assms(3) by auto
  have e: "IXGBE_PFVFSPOOF j = IXGBE_PFVFSPOOF (n div 8) \<longleftrightarrow> j = n div 8" using assms(4) t by (subst reg_at_eq) auto
  have n: "8 * j + b < n \<longleftrightarrow> j < n div 8 \<or> j = n div 8 \<and> b < n mod 8"
  proof -
    have "n = 8 * (n div 8) + n mod 8" "n mod 8 < 8" by simp_all
    then show ?thesis using assms(5) by linarith
  qed
  have m: "2 ^ k - 1 = (mask k :: u32)" for k by (simp add: mask_eq_exp_minus_1)
  have "(0xFF :: u32) = mask 8" by (simp add: mask_eq_exp_minus_1)
  then have v: "bit (0xFF :: u32) b" using assms(5) by (simp only: bit_mask_iff) simp
  note sw = spoof_writes[OF assms(1) _ assms(4)]
  show ?thesis
  proof (cases "n = 0")
    case True
    have f: "regs reg (fold (\<lambda>j. IXGBE_WRITE_REG R (IXGBE_PFVFSPOOF j) 0) [Suc 0..<8] h) (IXGBE_PFVFSPOOF j) =
        (if j \<noteq> 0 then 0 else regs reg h (IXGBE_PFVFSPOOF j))" for h :: "('a, 'c) ixgbe_hw_scheme"
      using assms(4) by (subst sw) auto
    then show ?thesis using True assms(2) e by (simp add: ixgbe_set_mac_anti_spoofing_def for_regs_def f bank_write[OF assms(1)])
  next
    case False
    have "regs reg (ixgbe_set_mac_anti_spoofing R True n hw) (IXGBE_PFVFSPOOF j) = (if j < n div 8 then 0xFF else if j = n div 8 then 0xFF AND mask (n mod 8) else 0)"
      using assms(2,4) t e by (simp add: ixgbe_set_mac_anti_spoofing_def for_regs_def Let_def sw subset_iff bank_write[OF assms(1)] m)
    then show ?thesis using False v assms(5) by (simp add: n bit_simps)
  qed
qed

lemma spoof_keeps:
  assumes "plain_bank R UNIV reg" "n < 64" "\<And>j. j < 8 \<Longrightarrow> a \<noteq> IXGBE_PFVFSPOOF j"
  shows "regs reg (ixgbe_set_mac_anti_spoofing R e n hw) a = regs reg hw a"
proof -
  have f: "regs reg (fold (\<lambda>j. IXGBE_WRITE_REG R (IXGBE_PFVFSPOOF j) v) xs h) a = regs reg h a" if "set xs \<subseteq> {..<8}" for v xs and h :: "('a, 'c) ixgbe_hw_scheme"
    by (rule regs_fold) (use that assms(3) in \<open>auto simp: bank_write[OF assms(1)]\<close>)
  have "n div 8 < 8" using assms(2) by auto
  then show ?thesis using assms(3) by (auto simp: ixgbe_set_mac_anti_spoofing_def for_regs_def Let_def f subset_iff bank_write[OF assms(1)])
qed

lemma vt_pool_bits:
  fixes p x :: u32
  assumes "p < 64"
  shows "drop_bit 7 (let r1 = ((x OR IXGBE_VT_CTL_VT_ENABLE) AND NOT IXGBE_VT_CTL_POOL_MASK) OR push_bit 7 p
                     in if c then r1 OR IXGBE_VT_CTL_REPLEN else r1) AND 0x3F = p"
proof -
  have c: "(0x3F :: u32) = mask 6" "(0x1F80 :: u32) = push_bit 7 (mask 6)" "(0x40000000 :: u32) = push_bit 30 1"
    by (simp_all add: mask_eq_exp_minus_1 push_bit_eq_mult)
  have r: "\<not> bit (0x40000000 :: u32) (7 + n)" if "n < 6" for n unfolding c(3) by (simp only: bit_push_bit_iff) (use that in simp)
  have "drop_bit 7 (let r1 = ((x OR IXGBE_VT_CTL_VT_ENABLE) AND NOT IXGBE_VT_CTL_POOL_MASK) OR push_bit 7 p
                     in if c then r1 OR IXGBE_VT_CTL_REPLEN else r1) AND 0x3F = p AND mask 6"
    unfolding c(1,2) Let_def by (rule bit_word_eqI) (auto simp: bit_simps dest: r[THEN notE])
  also have "\<dots> = p" unfolding take_bit_eq_mask[symmetric]
    using assms by (simp add: word_unat_eq_iff unsigned_take_bit_eq take_bit_nat_eq_self word_less_nat_alt)
  finally show ?thesis .
qed

lemma pool_bits:
  assumes "plain_bank R UNIV reg" "unat (pool_offset ad) < 64" "unat (pool_offset ad) + nat (num_rx_pools ad) \<le> 64" "i < 2" "j < 32"
  shows "bit (regs reg (pf_pools R ad hw) (IXGBE_VFRE i)) j \<longleftrightarrow> unat (pool_offset ad) \<le> 32 * i + j"
    "bit (regs reg (pf_pools R ad hw) (IXGBE_VFTE i)) j \<longleftrightarrow> unat (pool_offset ad) \<le> 32 * i + j"
    "drop_bit 7 (regs reg (pf_pools R ad hw) IXGBE_VT_CTL) AND 0x3F = ucast (pool_offset ad)"
proof -
  let ?o = "unat (pool_offset ad)"
  have p: "unat (vf_pool_p 0 ad) = ?o" using assms(2) by (simp add: vf_pool_p_def unsigned_ucast_eq take_bit_nat_eq_self)
  have k: "vf_pool_p 0 ad \<ge> 32 \<longleftrightarrow> ?o \<ge> 32" using p by (simp add: word_le_nat_alt)
  have ne: "IXGBE_VFRE a = IXGBE_VFRE b \<longleftrightarrow> a = b" "IXGBE_VFTE a = IXGBE_VFTE b \<longleftrightarrow> a = b" "IXGBE_VFRE a \<noteq> IXGBE_VFTE b" "IXGBE_VFTE b \<noteq> IXGBE_VFRE a" if "a < 2" "b < 2" for a b
    using that by (subst reg_at_eq; simp)+
  have vt: "IXGBE_VT_CTL \<noteq> IXGBE_VFRE a" "IXGBE_VT_CTL \<noteq> IXGBE_VFTE a" if "a < 2" for a
    using that unat_reg_at[of "0x51E0" 4 a] unat_reg_at[of "0x8110" 4 a] by (auto dest: arg_cong[of _ _ unat])
  define q where "q = (if ?o \<ge> 32 then 1 else 0 :: nat)"
  have q: "(if vf_pool_p 0 ad \<ge> 32 then 1 else 0) = q" "q < 2" "1 - q < 2" using k by (simp_all add: q_def)
  define m where "m = (push_bit (?o mod 32) (- 1) :: u32)"
  define rest where "rest = (of_nat q - 1 :: u32)"
  obtain h where h: "pf_pools R ad hw = IXGBE_WRITE_REG R (IXGBE_VFTE (1 - q)) rest (IXGBE_WRITE_REG R (IXGBE_VFTE q) m
         (IXGBE_WRITE_REG R (IXGBE_VFRE (1 - q)) rest (IXGBE_WRITE_REG R (IXGBE_VFRE q) m h)))"
      "drop_bit 7 (regs reg h IXGBE_VT_CTL) AND 0x3F = ucast (pool_offset ad)"
  proof
    define f where "f = (\<lambda>r :: u32. let r1 = ((r OR IXGBE_VT_CTL_VT_ENABLE) AND NOT IXGBE_VT_CTL_POOL_MASK) OR push_bit 7 (vf_pool_p 0 ad)
                                        in if num_vfs ad \<noteq> 0 then r1 OR IXGBE_VT_CTL_REPLEN else r1)"
    let ?h = "fold (\<lambda>i. rmw R (IXGBE_VMOLR (unat (vf_pool_p (of_nat i) ad))) (\<lambda>r. r OR IXGBE_VMOLR_AUPE)) [1..<nat (num_rx_pools ad)] (rmw R IXGBE_VT_CTL f hw)"
    show "pf_pools R ad hw = IXGBE_WRITE_REG R (IXGBE_VFTE (1 - q)) rest (IXGBE_WRITE_REG R (IXGBE_VFTE q) m
         (IXGBE_WRITE_REG R (IXGBE_VFRE (1 - q)) rest (IXGBE_WRITE_REG R (IXGBE_VFRE q) m ?h)))"
      unfolding pf_pools_def Let_def q(1) p m_def rest_def f_def ..
    have "regs reg ?h IXGBE_VT_CTL = regs reg (rmw R IXGBE_VT_CTL f hw) IXGBE_VT_CTL"
    proof (rule regs_fold)
      fix x and hw :: "'a flt_hw" assume x: "x \<in> set [1..<nat (num_rx_pools ad)]"
      then have "x + ?o < 64" using assms(3) by auto
      moreover have "vf_pool_p (of_nat x) ad = of_nat (x + ?o)" by (simp add: vf_pool_p_def)
      ultimately have "unat (vf_pool_p (of_nat x) ad) < 64" by (simp add: unat_of_nat del: of_nat_add)
      then have "IXGBE_VT_CTL \<noteq> IXGBE_VMOLR (unat (vf_pool_p (of_nat x) ad))"
        using unat_reg_at[of "0xF000" 4 "unat (vf_pool_p (of_nat x) ad)"] by (auto dest: arg_cong[of _ _ unat])
      then show "regs reg (rmw R (IXGBE_VMOLR (unat (vf_pool_p (of_nat x) ad))) (\<lambda>r. r OR IXGBE_VMOLR_AUPE) hw) IXGBE_VT_CTL = regs reg hw IXGBE_VT_CTL"
        by (simp add: bank_rmw[OF assms(1)])
    qed
    also have "\<dots> = f (regs reg hw IXGBE_VT_CTL)" by (simp add: bank_rmw[OF assms(1)])
    finally show "drop_bit 7 (regs reg ?h IXGBE_VT_CTL) AND 0x3F = ucast (pool_offset ad)"
      using vt_pool_bits[of "vf_pool_p 0 ad" "regs reg hw IXGBE_VT_CTL" "num_vfs ad \<noteq> 0"] p assms(2)
      by (simp only: f_def) (simp add: vf_pool_p_def word_less_nat_alt)
  qed
  have m: "bit m j \<longleftrightarrow> ?o mod 32 \<le> j" using assms(5) by (auto simp: m_def bit_simps)
  have om: "?o mod 32 = (if ?o \<ge> 32 then ?o - 32 else ?o)" using assms(2) by (auto simp: le_mod_geq)
  have bits: "bit (if i = q then m else rest) j \<longleftrightarrow> ?o \<le> 32 * i + j"
  proof (cases "i = q")
    case True
    then show ?thesis using m assms(2,5) by (auto simp: q_def om)
  next
    case False
    then show ?thesis using assms(2,4,5) by (auto simp: q_def rest_def)
  qed
  have i: "i = q \<or> i = 1 - q" "q \<noteq> 1 - q" using assms(4) by (auto simp: q_def)
  have "regs reg (pf_pools R ad hw) (IXGBE_VFRE i) = (if i = q then m else rest)" "regs reg (pf_pools R ad hw) (IXGBE_VFTE i) = (if i = q then m else rest)"
    using i ne[OF q(2) assms(4)] ne[OF q(3) assms(4)] ne[OF assms(4) q(2)] ne[OF assms(4) q(3)] unfolding h(1) by (auto simp: bank_write[OF assms(1)])
  then show "bit (regs reg (pf_pools R ad hw) (IXGBE_VFRE i)) j \<longleftrightarrow> ?o \<le> 32 * i + j"
    "bit (regs reg (pf_pools R ad hw) (IXGBE_VFTE i)) j \<longleftrightarrow> ?o \<le> 32 * i + j" using bits by simp_all
  show "drop_bit 7 (regs reg (pf_pools R ad hw) IXGBE_VT_CTL) AND 0x3F = ucast (pool_offset ad)"
    using h(2) vt[OF q(2)] vt[OF q(3)] unfolding h(1) by (simp add: bank_write[OF assms(1)])
qed

section \<open>Setting virtual functions up\<close>

lemma event_number: "i < 64 \<Longrightarrow> unat ((of_nat i OR 0x10000000 :: u32) AND 0x3F) = i \<and> (of_nat i OR 0x10000000 :: u32) AND 0x10000000 \<noteq> 0"
proof -
  have "\<forall>i \<in> set [0..<64]. unat ((of_nat i OR 0x10000000 :: u32) AND 0x3F) = i \<and> (of_nat i OR 0x10000000 :: u32) AND 0x10000000 \<noteq> 0" by code_simp
  then show "i < 64 \<Longrightarrow> ?thesis" by simp
qed

definition with_address :: "u8 list \<Rightarrow> nat \<Rightarrow> vf_data_storage \<Rightarrow> vf_data_storage" where
  "with_address a i v = v\<lparr>vf_mac_addresses := vf_default_mac i a\<rparr>"

lemma configure_fold:
  assumes "m \<le> length (vfinfo ad)" "length (vfinfo ad) \<le> 64" "10 \<le> length (dev_addr ad)"
  shows "fold (\<lambda>i r. rbind r (ixgbe_vf_configuration (of_nat i OR 0x10000000))) [0..<m] (Inr ad) =
    Inr (ad\<lparr>vfinfo := map (\<lambda>i. if i < m then with_address (dev_addr ad) i (vfinfo ad ! i) else vfinfo ad ! i) [0..<length (vfinfo ad)]\<rparr>)"
  using assms(1)
proof (induction m)
  case 0
  show ?case by (simp add: map_nth)
next
  case (Suc m)
  have "m < 64" using Suc.prems assms(2) by simp
  note e = event_number[OF this]
  show ?case using Suc e assms(3)
    by (simp add: ixgbe_vf_configuration_def vf_info_ok Let_def put_vf_def) (intro arg_cong[of _ _ "\<lambda>v. vfinfo_update v ad"] ext nth_equalityI; simp add: with_address_def nth_list_update)
qed

lemma default_mac_inj: "i < 64 \<Longrightarrow> j < 64 \<Longrightarrow> vf_default_mac i a = vf_default_mac j a \<Longrightarrow> i = j"
  by (simp add: vf_default_mac_def Let_def word_unat_eq_iff unat_of_nat)

lemma limit_at_most_8: "unat (pg_tcs (limit_tcs m k t)) \<le> 8"
  unfolding limit_tcs_def by (simp split: if_split)

lemma dcb_typed_tcs: "dcb_typed (c\<lparr>num_tcs := t, vt_mode := v\<rparr>) = dcb_typed c"
  unfolding dcb_typed_def by simp

text \<open>What \<open>ixgbe_enable_sriov\<close> leaves when the host grants the functions and there is memory.\<close>

lemma enable_result:
  assumes "1 \<le> unat (num_vfs ad)" "unat (num_vfs ad) \<le> 63" "word_of_int answer = num_vfs ad" "ad' = ixgbe_enable_sriov R answer mem True ad"
  shows "num_vfs ad' = num_vfs ad" "vfinfo ad' = replicate (unat (num_vfs ad)) new_vf" "pool_offset ad' = ucast (num_vfs ad)" "vmdq_enabled ad'" "sriov_enabled ad'"
    "mac_type (mt_hw ad') = mac_type (mt_hw ad)" "dev_addr ad' = dev_addr ad" "unat (pg_tcs (num_tcs (vf_dcb_cfg ad'))) \<le> 8"
    "dcb_typed (vf_dcb_cfg ad') = dcb_typed (vf_dcb_cfg ad)"
proof -
  have n: "num_vfs ad \<noteq> 0" "min (num_vfs ad) 63 = num_vfs ad" using assms(1,2) by (auto simp: word_le_nat_alt min_def)
  define b where "b = ad\<lparr>host_log := EnableVfs (num_vfs ad) # host_log ad\<rparr>"
  define b1 where "b1 = b\<lparr>mt_hw := IXGBE_WRITE_REG R IXGBE_PFDTXGSWC IXGBE_PFDTXGSWC_VT_LBEN (mt_hw b), pool_offset := ucast (num_vfs b),
                   sriov_enabled := True, vmdq_enabled := True, vmdq_limit := (if vmdq_limit b = 0 then 1 else vmdq_limit b),
                   mv_list := (if mem \<and> sint (num_rar_entries (mt_hw b) - (IXGBE_MAX_PF_MACVLANS + 1 + num_vfs b)) \<ge> 0
                     then Some (replicate (nat (sint (num_rar_entries (mt_hw b) - (IXGBE_MAX_PF_MACVLANS + 1 + num_vfs b)))) new_mv) else None)\<rparr>"
  have d: "do_enable_sriov R mem True b =
      (0, b1\<lparr>vfinfo := replicate (unat (num_vfs b1)) new_vf,
             vf_dcb_cfg := (vf_dcb_cfg b1)\<lparr>num_tcs := limit_tcs (mac_type (mt_hw b1)) (num_vfs b1) (num_tcs (vf_dcb_cfg b1)), vt_mode := True\<rparr>,
             l2switch_enable := True, replication_enable := True, rsc_capable := False, rsc_enabled := False, pt_ops := True\<rparr>)"
    unfolding do_enable_sriov_def Let_def if_P[OF TrueI] b1_def ..
  have b1: "num_vfs b1 = num_vfs ad" "pool_offset b1 = ucast (num_vfs ad)" "vmdq_enabled b1" "sriov_enabled b1" "mac_type (mt_hw b1) = mac_type (mt_hw ad)"
      "dev_addr b1 = dev_addr ad" "vf_dcb_cfg b1 = vf_dcb_cfg ad"
    by (simp_all add: b1_def b_def hw_io)
  have e: "ad' = snd (do_enable_sriov R mem True b)"
    using n assms(3) by (simp add: assms(4) ixgbe_enable_sriov_def pci_num_vf_def pci_enable_sriov_def b_def[symmetric] d)
  show "num_vfs ad' = num_vfs ad" "vfinfo ad' = replicate (unat (num_vfs ad)) new_vf" "pool_offset ad' = ucast (num_vfs ad)" "vmdq_enabled ad'" "sriov_enabled ad'"
    "mac_type (mt_hw ad') = mac_type (mt_hw ad)" "dev_addr ad' = dev_addr ad" "unat (pg_tcs (num_tcs (vf_dcb_cfg ad'))) \<le> 8"
    "dcb_typed (vf_dcb_cfg ad') = dcb_typed (vf_dcb_cfg ad)"
    unfolding e d snd_conv by (simp_all add: b1 limit_at_most_8 dcb_typed_tcs)
qed

lemma setup_fits:
  fixes ad :: "('h, 'z) q_adapter_scheme"
  assumes "1 \<le> unat (num_vfs ad)" "unat (num_vfs ad) \<le> 63" "word_of_int answer = num_vfs ad" "dcb_typed (vf_dcb_cfg ad)" "10 \<le> length (dev_addr ad)"
    and "mac_type (mt_hw ad) \<noteq> ixgbe_mac_82598EB" "layout_limits (ixgbe_enable_sriov R answer mem True ad)"
  shows "\<exists>ad1 ad2 ad3. ixgbe_set_num_queues cpus (ixgbe_enable_sriov R answer mem True ad) = Inr ad1 \<and>
    ixgbe_cache_ring_register (alloc_rings ad1) = Inr ad2 \<and> configure_vfs ad2 = Inr ad3 \<and>
    vfs_fit (vf_adapter.truncate ad3) \<and> num_vfs ad3 = num_vfs ad \<and> distinct (map vf_mac_addresses (vfinfo ad3))"
proof -
  define ad0 where "ad0 = ixgbe_enable_sriov R answer mem True ad"
  let ?n = "unat (num_vfs ad)"
  note e = enable_result[OF assms(1-3) ad0_def]
  obtain ad1 ad2 where 1: "ixgbe_set_num_queues cpus ad0 = Inr ad1" "ixgbe_cache_ring_register (alloc_rings ad1) = Inr ad2" "laid_out ad2"
    using layout_modes[OF assms(7), folded ad0_def] by blast
  have s: "setup_of ad2 = setup_of ad0"
  proof -
    have "setup_of ad2 = setup_of (alloc_rings ad1)" using cache_only[OF 1(2)] unfolding rings_only_def by (metis setup_upd(13,14))
    also have "\<dots> = setup_of ad1" by (simp add: alloc_rings_def)
    finally show ?thesis using setup_num[OF 1(1)] by simp
  qed
  then have f: "num_vfs ad2 = num_vfs ad" "vfinfo ad2 = replicate ?n new_vf" "vf_dcb_cfg ad2 = vf_dcb_cfg ad0" "dev_addr ad2 = dev_addr ad"
    "pool_offset ad2 = ucast (num_vfs ad)" "sriov_enabled ad2" "mac_type (mt_hw ad2) \<noteq> ixgbe_mac_82598EB"
    using e assms(6) by (simp_all add: setup_of_def)
  define vs where "vs = map (\<lambda>i. if i < ?n then with_address (dev_addr ad) i (vfinfo ad2 ! i) else vfinfo ad2 ! i) [0..<length (vfinfo ad2)]"
  have vs: "vs = map (\<lambda>i. with_address (dev_addr ad) i new_vf) [0..<?n]" by (simp add: vs_def f(2))
  have 3: "configure_vfs ad2 = Inr (ad2\<lparr>vfinfo := vs\<rparr>)"
    using configure_fold[of ?n ad2] f assms(2,5) by (simp add: configure_vfs_def vs_def)
  have "unat (q_per_pool ad2) * ?n \<le> 128"
  proof -
    have p: "unat (pool_offset ad2) = ?n" using assms(2) by (simp add: f(5) unsigned_ucast_eq take_bit_nat_eq_self)
    obtain q where "q \<in> set (rx_ring ad2)" using 1(3) by (cases "rx_ring ad2") (auto simp: laid_out_def)
    then have "?n * unat (q_per_pool ad2) < 128" using 1(3) f(7) p by (force simp: laid_out_def own_queues_def hw_rx_queues_def)
    then show ?thesis by (simp add: mult.commute)
  qed
  moreover have "vf_data_ok (with_address (dev_addr ad) i new_vf)" for i
    using assms(5) by (simp add: vf_data_ok_def with_address_def new_vf_def vf_default_mac_def Let_def)
  ultimately have "vfs_fit (vf_adapter.truncate (ad2\<lparr>vfinfo := vs\<rparr>))"
    using f e assms(2,4) by (auto simp: vfs_fit_def vs vf_adapter.defs q_per_pool_def Let_def)
  moreover have "distinct (map vf_mac_addresses vs)"
    using assms(2) by (auto simp: vs distinct_map inj_on_def with_address_def dest: default_mac_inj[rotated 2])
  ultimately show ?thesis using 1(1,2) 3 f(1) by (simp add: ad0_def)
qed

section \<open>Properties\<close>

lemma rounding_cfg_typed: "dcb_typed rounding_cfg"
  by code_simp

text \<open>An 82599 with two virtual functions and receive side scaling on the last of five pools.\<close>

definition demo_q_adapter :: "(u32 \<Rightarrow> u32) q_adapter" where
  "demo_q_adapter = \<lparr>mt_hw = (demo_flt_hw ixgbe_mac_82599EB)\<lparr>num_rar_entries := 8, hw_dev := \<lambda>_. 0\<rparr>, mac_table = [],
     vfinfo = [new_vf, new_vf], num_vfs = 2, pool_mask = 0x7C, pool_offset = 2, dcb_flag = False, dcb_tc = 0, default_up = 0, vf_dcb_cfg = rounding_cfg,
     netdev_flags = 0, netdev_mtu = 1500, fcoe_mtu = False, dev_running = True, mc_list = [], dev_addr = replicate 32 0,
     sriov_enabled = True, vmdq_enabled = True, l2switch_enable = True, replication_enable = True, rsc_capable = False, rsc_enabled = False,
     vmdq_limit = 4, mv_list = None, pt_ops = True, host_log = [], vf_link_up = True, vf_link_speed = 0x80, vf_rate_link_speed = 0,
     vmdq_indices = 5, rss = \<lparr>rf_limit = 4, rf_indices = 4, rf_mask = 3, rf_offset = 0\<rparr>, fcoe = \<lparr>rf_limit = 0, rf_indices = 0, rf_mask = 0, rf_offset = 0\<rparr>,
     fdir = \<lparr>rf_limit = 4, rf_indices = 4, rf_mask = 0, rf_offset = 0\<rparr>, fcoe_up = 0, fcoe_enabled = False, cna_enabled = False, msix_enabled = True,
     fdir_hash = False, fdir_perfect = False, l2loopback_enable = True, atr_sample_rate = 0, dev_indices = 16, dev_tx_queues = 16,
     num_rx_queues = 8, num_tx_queues = 4, num_rx_pools = 5, num_rx_queues_per_pool = 1, rx_ring = [], tx_ring = []\<rparr>"

text \<open>
  C38. Whatever mix of virtual functions, traffic classes, pools and receive side scaling the module parameters grant, the
  driver finds a layout: every ring it has asked for gets a hardware queue, no two rings share one, no ring
  touches a queue of a virtual function, all queues exist in the hardware, and on an 82599 or X540 with pools ring
  \<open>i\<close> works in pool \<open>i\<close> of the physical function, the receive rings behind the last pool sharing it.
\<close>

theorem rings_get_own_queues:
  assumes "layout_limits ad"
  shows "\<exists>ad1 ad2. ixgbe_set_num_queues cpus ad = Inr ad1 \<and> ixgbe_cache_ring_register (alloc_rings ad1) = Inr ad2 \<and> laid_out ad2"
  by (rule layout_modes[OF assms])

theorem rings_get_own_queues_witness:
  "\<exists>ad1 ad2. ixgbe_set_num_queues 4 demo_q_adapter = Inr ad1 \<and> ixgbe_cache_ring_register (alloc_rings ad1) = Inr ad2 \<and> laid_out ad2"
proof (rule rings_get_own_queues)
  show "layout_limits demo_q_adapter" by (simp add: layout_limits_def demo_q_adapter_def demo_flt_hw_def netdev_get_num_tc_def)
qed

text \<open>
  C39. Setting up virtualization enables exactly the pools of the physical function: pool \<open>p\<close> may receive and send
  if and only if it lies behind those of the virtual functions, frames without a pool go to the first
  of them, and with SR-IOV the hardware checks the source addresses of exactly the virtual functions.
\<close>

theorem only_pf_pools_enabled:
  fixes ad :: "('h, 'z) q_adapter_scheme"
  assumes "plain_bank R UNIV reg" "vmdq_enabled ad" "mac_type (mt_hw ad) \<in> {ixgbe_mac_82599EB, ixgbe_mac_X540}"
    and "unat (pool_offset ad) < 64" "unat (pool_offset ad) + nat (num_rx_pools ad) \<le> 64" "unat (num_vfs ad) < 64"
    and "p < 64"
  shows "let regs' = regs reg (mt_hw (ixgbe_configure_virtualization R ad)) in
    (bit (regs' (IXGBE_VFRE (p div 32))) (p mod 32) \<longleftrightarrow> unat (pool_offset ad) \<le> p) \<and>
    (bit (regs' (IXGBE_VFTE (p div 32))) (p mod 32) \<longleftrightarrow> unat (pool_offset ad) \<le> p) \<and>
    drop_bit 7 (regs' IXGBE_VT_CTL) AND 0x3F = ucast (pool_offset ad) \<and>
    (sriov_enabled ad \<longrightarrow> (bit (regs' (IXGBE_PFVFSPOOF (p div 8))) (p mod 8) \<longleftrightarrow> p < unat (num_vfs ad)))"
proof -
  define hw1 where "hw1 = pf_pools R ad (mt_hw ad)"
  have k: "mac_type hw1 = mac_type (mt_hw ad)"
  proof -
    have "hw_kind hw1 = hw_kind (mt_hw ad)" by (simp add: hw1_def pf_pools_def Let_def kind_fold)
    then show ?thesis by (simp add: hw_kind_def)
  qed
  define hw2 where "hw2 = IXGBE_WRITE_REG R IXGBE_PFDTXGSWC (if l2loopback_enable ad then IXGBE_PFDTXGSWC_VT_LBEN else 0)
      (IXGBE_WRITE_REG R IXGBE_GCR_EXT (vt_mode_bits (pool_mask ad)) hw1)"
  define hw3 where "hw3 = (if sriov_enabled ad then ixgbe_set_mac_anti_spoofing R (num_vfs ad \<noteq> 0) (unat (num_vfs ad)) hw2 else hw1)"
  have hw3: "mt_hw (ixgbe_configure_virtualization R ad) = hw3"
    using assms(2,3) by (auto simp: ixgbe_configure_virtualization_def Let_def hw3_def hw2_def hw1_def vf_hw_def)
  have keep: "regs reg hw3 a = regs reg hw1 a" if "a = IXGBE_VT_CTL \<or> a = IXGBE_VFRE i \<or> a = IXGBE_VFTE i" "i < 2" for a i
  proof -
    have u: "unat a \<in> {0x51B0} \<union> {0x51E0..<0x51E8} \<union> {0x8110..<0x8118}" using that by (auto simp: unat_reg_at)
    then have "a \<noteq> IXGBE_PFVFSPOOF j" if "j < 8" for j using that unat_reg_at[of "0x8200" 4 j] by auto
    then have "regs reg hw3 a = regs reg (if sriov_enabled ad then hw2 else hw1) a"
      using assms(6) by (simp add: hw3_def spoof_keeps[OF assms(1)])
    moreover have "a \<noteq> IXGBE_PFDTXGSWC" "a \<noteq> IXGBE_GCR_EXT" using u by auto
    then have "regs reg hw2 a = regs reg hw1 a" by (simp add: hw2_def bank_write[OF assms(1)])
    ultimately show ?thesis by simp
  qed
  have p: "p div 32 < 2" "p mod 32 < 32" "32 * (p div 32) + p mod 32 = p" "p div 8 < 8" "p mod 8 < 8" "8 * (p div 8) + p mod 8 = p" using assms(7) by auto
  note pb = pool_bits[OF assms(1,4,5) p(1,2), of "mt_hw ad", folded hw1_def, unfolded p(3)]
  have "bit (regs reg hw3 (IXGBE_PFVFSPOOF (p div 8))) (p mod 8) \<longleftrightarrow> p < unat (num_vfs ad)" if "sriov_enabled ad"
  proof -
    have m: "mac_type hw2 \<noteq> ixgbe_mac_82598EB" using k assms(3) by (auto simp: hw2_def hw_io)
    have "num_vfs ad \<noteq> 0 \<longleftrightarrow> unat (num_vfs ad) \<noteq> 0" by (simp add: unat_eq_0)
    then show ?thesis using spoof_bits[OF assms(1) m assms(6) p(4,5)] that unfolding p(6) hw3_def by simp
  qed
  then show ?thesis using pb keep[OF _ p(1)] by (simp add: Let_def hw3)
qed

text \<open>
  With two virtual functions pool 1 is not enabled, pool 2 is.
\<close>

theorem only_pf_pools_enabled_witness:
  "\<not> bit (hw_dev (mt_hw (ixgbe_configure_virtualization register_file demo_q_adapter)) (IXGBE_VFRE 0)) 1 \<and>
   bit (hw_dev (mt_hw (ixgbe_configure_virtualization register_file demo_q_adapter)) (IXGBE_VFRE 0)) 2"
proof -
  have d: "vmdq_enabled demo_q_adapter" "mac_type (mt_hw demo_q_adapter) \<in> {ixgbe_mac_82599EB, ixgbe_mac_X540}" "unat (pool_offset demo_q_adapter) = 2"
    "num_rx_pools demo_q_adapter = 5" "unat (num_vfs demo_q_adapter) = 2" by (simp_all add: demo_q_adapter_def demo_flt_hw_def)
  show ?thesis using only_pf_pools_enabled[OF register_file_bank d(1,2), of 1] only_pf_pools_enabled[OF register_file_bank d(1,2), of 2] d(3-5) by (simp add: Let_def)
qed

text \<open>The same port before virtual functions are switched on.\<close>

definition demo_boot :: "(u32 \<Rightarrow> u32) q_adapter" where
  "demo_boot = demo_q_adapter\<lparr>vfinfo := [], pool_offset := 0, sriov_enabled := False, vmdq_enabled := False, vmdq_limit := 0,
     rss := \<lparr>rf_limit = 1, rf_indices = 1, rf_mask = 0, rf_offset = 0\<rparr>\<rparr>"

text \<open>
  C37. Switching virtual functions on ends in the state their requests rely on: when the host grants the functions and
  there is memory, the layout of the rings is found, every function gets well-formed data and an address of its own,
  no two the same, the queues of all functions exist in the hardware and the priority map stays readable.
\<close>

theorem sriov_setup_fits:
  fixes ad :: "('h, 'z) q_adapter_scheme"
  assumes "1 \<le> unat (num_vfs ad)" "unat (num_vfs ad) \<le> 63" "word_of_int answer = num_vfs ad" "dcb_typed (vf_dcb_cfg ad)" "10 \<le> length (dev_addr ad)"
    and "mac_type (mt_hw ad) \<noteq> ixgbe_mac_82598EB" "layout_limits (ixgbe_enable_sriov R answer mem True ad)"
  shows "\<exists>ad1 ad2 ad3. ixgbe_set_num_queues cpus (ixgbe_enable_sriov R answer mem True ad) = Inr ad1 \<and>
    ixgbe_cache_ring_register (alloc_rings ad1) = Inr ad2 \<and> configure_vfs ad2 = Inr ad3 \<and>
    vfs_fit (vf_adapter.truncate ad3) \<and> num_vfs ad3 = num_vfs ad \<and> distinct (map vf_mac_addresses (vfinfo ad3))"
  by (rule setup_fits[OF assms])

theorem sriov_setup_fits_witness:
  "\<exists>ad1 ad2 ad3. ixgbe_set_num_queues 4 (ixgbe_enable_sriov register_file 2 True True demo_boot) = Inr ad1 \<and>
    ixgbe_cache_ring_register (alloc_rings ad1) = Inr ad2 \<and> configure_vfs ad2 = Inr ad3 \<and> vfs_fit (vf_adapter.truncate ad3) \<and> num_vfs ad3 = 2"
proof -
  have d: "1 \<le> unat (num_vfs demo_boot)" "unat (num_vfs demo_boot) \<le> 63" "word_of_int 2 = num_vfs demo_boot" "dcb_typed (vf_dcb_cfg demo_boot)"
    "10 \<le> length (dev_addr demo_boot)" "mac_type (mt_hw demo_boot) \<noteq> ixgbe_mac_82598EB" "num_vfs demo_boot = 2"
    by (simp_all add: demo_boot_def demo_q_adapter_def demo_flt_hw_def rounding_cfg_typed)
  have "layout_limits (ixgbe_enable_sriov register_file 2 True True demo_boot)"
    by (simp add: ixgbe_enable_sriov_def do_enable_sriov_def pci_num_vf_def pci_enable_sriov_def Let_def layout_limits_def netdev_get_num_tc_def
        demo_boot_def demo_q_adapter_def demo_flt_hw_def hw_io)
  from sriov_setup_fits[OF d(1-6) this, of 4] show ?thesis using d(7) by auto
qed

end
